(* ===== verification/Flowy_Prelude.thy ===== *)
theory Flowy_Prelude
  imports Main "HOL-Library.Word" "HOL-Library.AList"
begin

text \<open>
  Shared vocabulary of the development: Go's machine integers and times, byte
  strings and their UTF-8 validity, the sentinel errors of the runtime with
  \<open>errors.Is\<close>, results of fallible functions, and finite maps as association
  lists (a Go map is a list of entries with distinct keys; a \<open>range\<close> loop visits
  the entries in list order, and every order is some list).
\<close>

section \<open>Collections of facts\<close>

named_theorems go_arith \<open>identities of Go integer arithmetic inside the int64 range\<close>
named_theorems res_simps \<open>rewriting of fallible computations\<close>

section \<open>Integers and times\<close>

type_synonym uint64 = "64 word"

text \<open>Revisions are compared after an increment that does not wrap around.\<close>

lemma unat_succ: "(revision :: uint64) \<noteq> - 1 \<Longrightarrow> unat (revision + 1) = Suc (unat revision)"
proof -
  assume "revision \<noteq> - 1"
  then have "1 + revision \<noteq> 0" by (metis add.commute add_eq_0_iff)
  then show ?thesis by (metis add.commute unatSuc)
qed

lemma rev_succ: "(revision :: uint64) \<noteq> - 1 \<Longrightarrow> s < revision + 1 \<longleftrightarrow> s \<le> revision"
  by (simp add: word_less_nat_alt word_le_nat_alt unat_succ less_Suc_eq_le)

lemma rev_succ_self: "(revision :: uint64) \<noteq> - 1 \<Longrightarrow> revision < revision + 1"
  by (simp add: rev_succ)

lemma rev_succ_mono: "(revision :: uint64) \<noteq> - 1 \<Longrightarrow> s < revision \<Longrightarrow> s < revision + 1"
  by (simp add: rev_succ less_imp_le)

lemma rev_succ_nonzero: "(revision :: uint64) \<noteq> - 1 \<Longrightarrow> revision + 1 \<noteq> 0"
  using unat_succ [of revision] by fastforce

lemma rev_succ_next: "(revision :: uint64) \<noteq> - 1 \<Longrightarrow> n < revision \<Longrightarrow> n + 1 < revision + 1"
proof -
  assume r: "revision \<noteq> - 1" and n: "n < revision"
  have "n \<noteq> - 1"
  proof
    assume "n = - 1"
    with n have "(- 1 :: uint64) < revision" by simp
    moreover have "revision \<le> - 1" by (rule max_word_max)
    ultimately show False by simp
  qed
  with r n show ?thesis by (simp add: word_less_nat_alt unat_succ)
qed

text \<open>
  A Go \<open>int\<close> or \<open>time.Duration\<close> is an \<open>int\<close> inside the 64-bit range; \<open>wrap64\<close>
  is the two's complement reduction that every operation applies to its exact
  result.
\<close>

definition is_int64 :: "int \<Rightarrow> bool" where
  "is_int64 x \<longleftrightarrow> - (2 ^ 63) \<le> x \<and> x < 2 ^ 63"

definition wrap64 :: "int \<Rightarrow> int" where
  "wrap64 x = (x + 2 ^ 63) mod 2 ^ 64 - 2 ^ 63"

lemma wrap64_id [go_arith]: "is_int64 x \<Longrightarrow> wrap64 x = x"
  by (simp add: is_int64_def wrap64_def)

lemma wrap64_range: "is_int64 (wrap64 x)"
proof -
  have "0 \<le> (x + 2 ^ 63) mod 2 ^ 64" and "(x + 2 ^ 63) mod 2 ^ 64 < 2 ^ 64"
    by simp_all
  then show ?thesis by (simp add: is_int64_def wrap64_def)
qed

lemma is_int64_between:
  "is_int64 a \<Longrightarrow> is_int64 b \<Longrightarrow> a \<le> x \<Longrightarrow> x \<le> b \<Longrightarrow> is_int64 x"
  by (simp add: is_int64_def)

lemma is_int64_0 [simp]: "is_int64 0"
  by (simp add: is_int64_def)

text \<open>Go's \<open>/\<close> and \<open>%\<close> truncate towards zero.\<close>

definition goquot :: "int \<Rightarrow> int \<Rightarrow> int" where
  "goquot a b = sgn a * sgn b * (\<bar>a\<bar> div \<bar>b\<bar>)"

definition gorem :: "int \<Rightarrow> int \<Rightarrow> int" where
  "gorem a b = a - goquot a b * b"

lemma goquot_nonneg [go_arith]: "0 \<le> a \<Longrightarrow> 0 < b \<Longrightarrow> goquot a b = a div b"
  by (cases "a = 0") (simp_all add: goquot_def)

lemma gorem_nonneg [go_arith]: "0 \<le> a \<Longrightarrow> 0 < b \<Longrightarrow> gorem a b = a mod b"
  by (simp add: gorem_def goquot_nonneg minus_div_mult_eq_mod)

text \<open>
  A \<open>time.Time\<close> is the number of nanoseconds since Go's zero time, the first
  instant of year 1; \<open>IsZero\<close> is equality with \<open>0\<close>, and \<open>Before\<close>, \<open>After\<close>
  and \<open>Equal\<close> are the order of the integers. Year 10000 starts after 3652059 days.
\<close>

type_synonym gotime = int
type_synonym duration = int

abbreviation IsZero :: "gotime \<Rightarrow> bool" where
  "IsZero t \<equiv> t = 0"

definition year_10000 :: gotime where
  "year_10000 = 3652059 * 86400 * 1000000000"

section \<open>Byte strings and UTF-8\<close>

text \<open>A Go string is a byte string; a byte is a \<open>char\<close>.\<close>

definition byte :: "char \<Rightarrow> nat" where
  "byte c = of_char c"

lemma byte_less: "byte c < 256"
  by (simp add: byte_def)

lemma byte_inject [simp]: "byte c = byte d \<longleftrightarrow> c = d"
  by (simp add: byte_def)

definition in_range :: "nat \<Rightarrow> nat \<Rightarrow> char \<Rightarrow> bool" where
  "in_range lo hi c \<longleftrightarrow> lo \<le> byte c \<and> byte c \<le> hi"

abbreviation cont_byte :: "char \<Rightarrow> bool" where
  "cont_byte \<equiv> in_range 128 191"

text \<open>The size of the first UTF-8 encoded rune, \<open>0\<close> when there is none.\<close>

fun rune_size :: "string \<Rightarrow> nat" where
  "rune_size [] = 0"
| "rune_size (a # s) =
    (if byte a < 128 then 1
     else if in_range 194 223 a then
       (case s of b # _ \<Rightarrow> if cont_byte b then 2 else 0 | _ \<Rightarrow> 0)
     else if in_range 224 239 a then
       (case s of b # c # _ \<Rightarrow>
          if in_range (if byte a = 224 then 160 else 128) (if byte a = 237 then 159 else 191) b
             \<and> cont_byte c then 3 else 0
        | _ \<Rightarrow> 0)
     else if in_range 240 244 a then
       (case s of b # c # d # _ \<Rightarrow>
          if in_range (if byte a = 240 then 144 else 128) (if byte a = 244 then 143 else 191) b
             \<and> cont_byte c \<and> cont_byte d then 4 else 0
        | _ \<Rightarrow> 0)
     else 0)"

lemma rune_size_le: "rune_size s \<le> length s"
  by (cases s) (auto split: list.splits)

text \<open>\<open>utf8.ValidString\<close>.\<close>

function (sequential) ValidString :: "string \<Rightarrow> bool" where
  "ValidString [] = True"
| "ValidString (a # s) =
    (let n = rune_size (a # s) in n \<noteq> 0 \<and> ValidString (drop (n - 1) s))"
  by pat_completeness auto
termination
  by (relation "measure length") auto

lemma ValidString_ascii: "\<forall>c \<in> set s. byte c < 128 \<Longrightarrow> ValidString s"
  by (induction s) simp_all

text \<open>\<open>validRuntimeText\<close> of execution\_text.go, over its variadic arguments.\<close>

definition validRuntimeText :: "string list \<Rightarrow> bool" where
  "validRuntimeText values \<longleftrightarrow> list_all ValidString values"

lemma validRuntimeText_simps [simp]:
  "validRuntimeText []"
  "validRuntimeText (v # vs) \<longleftrightarrow> ValidString v \<and> validRuntimeText vs"
  by (simp_all add: validRuntimeText_def)

end
