(* ===== verification/Flowy_Errors.thy ===== *)
theory Flowy_Errors
  imports Flowy_Prelude
begin

text \<open>
  The sentinel errors of the package, error values with their wrapped causes,
  \<open>errors.Is\<close>, and results of fallible functions. A wrapped error
  (\<open>fmt.Errorf\<close> with one or two \<open>%w\<close> verbs, or \<open>errors.Join\<close>) keeps the list of
  its causes; the text is kept only where the program reads it back.
\<close>

text \<open>The less frequent sentinels form a group of their own below \<open>Also\<close>.\<close>

datatype more_sentinel =
    ErrBudgetContext | ErrBudgetInvalid | ErrChildBusy | ErrChildCodec | ErrChildDuplicate
  | ErrChildInvalid | ErrChildMergeConflict | ErrChildRevision | ErrChildrenUnresolved
  | ErrDurableStateUnavailable | ErrExecutionHistoryUnsupported | ErrExecutionLifecycleUnsupported
  | ErrForkTargetConflict | ErrForkTransform | ErrForkUnresolved | ErrHandoffNotCompleted
  | ErrInvalidCheckpointPolicy | ErrLeaseOwnerRequired | ErrNoActiveExecution | ErrWaitExpired

datatype sentinel =
    ErrActivityAttemptsExhausted | ErrActivityBusy | ErrActivityConflict | ErrActivityFailed
  | ErrActivityJournalUnavailable | ErrActivityRetryPending | ErrActivityScheduleInvalid
  | ErrActivityUnknown | ErrBudgetExceeded | ErrCheckpointSkipped
  | ErrConcurrencyConflict | ErrExecutionCapability | ErrExecutionCheckpointUnavailable
  | ErrExecutionCorrupt | ErrExecutionFailed | ErrExecutionImportInvalid | ErrExecutionIncompatible
  | ErrExecutionLifecycleInvalid | ErrExecutionLifecycleLimit | ErrExecutionLifecycleUnsafe
  | ErrExecutionRolloverConflict | ErrExecutionSourceDigest | ErrExecutionTransferred
  | ErrForkPolicy | ErrHandoffAlreadyEnqueued | ErrHandoffEnqueueFailed
  | ErrHandoffNotRecoverable | ErrHandoffOrphaned | ErrHandoffOutboxRequired
  | ErrHandoffPatchFailed | ErrHandoffPending | ErrHandoffRequested
  | ErrInvalidHandoffIntent | ErrInvalidResumePlan | ErrInvalidResumeToken | ErrInvalidSnapshot
  | ErrLeaseHeld | ErrLeaseLost | ErrMaxStepsExceeded | ErrMigrationInvalid | ErrMigrationMissing
  | ErrOverlayMergerRequired | ErrRemovedNext | ErrResumeStartNodeNotFound
  | ErrResumeTargetPolicyFailed | ErrRetryBudgetExceeded | ErrRunCleanup | ErrSnapshotEnvelopeInvalid
  | ErrThreadAlreadyRunning | ErrThreadLeaseBusy | ErrThreadNotFound
  | ErrTransactionalHandoffCommitFailed | ErrTransactionalOutboxUnsupported
  | ErrWaitCanceled | ErrWaitConflict | ErrWaitInvalid | ErrWaitNotArmed | ErrWaitRegistration
  | ErrWaitStale | ErrWaitUnknown | ErrWaitUnresolved
  | ContextCanceled | ContextDeadlineExceeded
  | Also more_sentinel

text \<open>
  \<open>Sent\<close> is a sentinel, \<open>Plain\<close> an error of the host or an anonymous
  \<open>errors.New\<close>, \<open>Wrapped\<close> a wrapper with its causes in order.
  \<open>RetryPending\<close> is \<open>ActivityRetryPendingError\<close> with its identity, deadline and
  revision; \<open>Persisted\<close> is \<open>PersistedExecutionError\<close> with its message and reason.
\<close>

datatype err = Sent sentinel | Plain string | Wrapped string "err list"
  | RetryPending string gotime uint64 | Persisted string string

text \<open>
  \<open>errors.Is\<close>. One sentinel wraps another: \<open>ErrSnapshotEnvelopeInvalid\<close> is
  built with \<open>fmt.Errorf("%w: ...", ErrInvalidSnapshot)\<close>.
\<close>

fun errIs :: "err \<Rightarrow> sentinel \<Rightarrow> bool" where
  "errIs (Sent s) t \<longleftrightarrow> s = t \<or> (s = ErrSnapshotEnvelopeInvalid \<and> t = ErrInvalidSnapshot)"
| "errIs (Plain _) t \<longleftrightarrow> False"
| "errIs (Wrapped _ es) t \<longleftrightarrow> (\<exists>e \<in> set es. errIs e t)"
| "errIs (RetryPending _ _ _) t \<longleftrightarrow> t = ErrActivityRetryPending"
| "errIs (Persisted _ _) t \<longleftrightarrow> t = ErrExecutionFailed"

text \<open>\<open>errors.Join\<close> of a list of possibly nil errors.\<close>

definition errJoin :: "err option list \<Rightarrow> err option" where
  "errJoin es = (let xs = List.map_filter id es in if xs = [] then None else Some (Wrapped '''' xs))"

lemma set_map_filter_id [simp]: "set (List.map_filter id es) = {x. Some x \<in> set es}"
proof (induction es)
  case (Cons a es)
  then show ?case by (cases a) (auto simp: List.map_filter_simps)
qed (simp add: List.map_filter_simps)

lemma errJoin_None_iff: "errJoin es = None \<longleftrightarrow> (\<forall>x. Some x \<notin> set es)"
proof -
  have "List.map_filter id es = [] \<longleftrightarrow> set (List.map_filter id es) = {}"
    by (simp only: set_empty)
  then show ?thesis by (auto simp: errJoin_def Let_def)
qed

lemma errIs_errJoin:
  "errJoin es = Some e \<Longrightarrow> errIs e t \<longleftrightarrow> (\<exists>x. Some x \<in> set es \<and> errIs x t)"
  by (auto simp: errJoin_def Let_def split: if_splits)

section \<open>Results\<close>

text \<open>A function that returns a value or an error; \<open>Inl\<close> is the error.\<close>

type_synonym 'a res = "err + 'a"

abbreviation Err :: "sentinel \<Rightarrow> 'a res" where
  "Err s \<equiv> Inl (Sent s)"

abbreviation Ok :: "'a \<Rightarrow> 'a res" where
  "Ok x \<equiv> Inr x"

definition res_bind :: "'a res \<Rightarrow> ('a \<Rightarrow> 'b res) \<Rightarrow> 'b res" where
  "res_bind r f = (case r of Inl e \<Rightarrow> Inl e | Inr x \<Rightarrow> f x)"

lemma res_bind_simps [simp]:
  "res_bind (Inl e) f = Inl e"
  "res_bind (Inr x) f = f x"
  by (simp_all add: res_bind_def)

lemma res_bind_Ok_iff [res_simps]:
  "res_bind r f = Inr y \<longleftrightarrow> (\<exists>x. r = Inr x \<and> f x = Inr y)"
  by (cases r) auto

text \<open>
  A validator returns nil (\<open>None\<close>) or an error. \<open>check v k\<close> is the idiom
  \<open>if err := v; err != nil { return err }; k\<close>.
\<close>

definition check :: "err option \<Rightarrow> 'a res \<Rightarrow> 'a res" where
  "check v k = (case v of Some e \<Rightarrow> Inl e | None \<Rightarrow> k)"

lemma check_simps [simp]:
  "check None k = k"
  "check (Some e) k = Inl e"
  by (simp_all add: check_def)

lemma check_Ok_iff [res_simps]: "check v k = Inr y \<longleftrightarrow> v = None \<and> k = Inr y"
  by (cases v) auto

text \<open>The same idiom inside a validator.\<close>

definition orElse :: "err option \<Rightarrow> err option \<Rightarrow> err option" where
  "orElse v w = (case v of Some e \<Rightarrow> Some e | None \<Rightarrow> w)"

lemma orElse_simps [simp]:
  "orElse None w = w"
  "orElse (Some e) w = Some e"
  by (simp_all add: orElse_def)

lemma orElse_None_iff [res_simps]: "orElse v w = None \<longleftrightarrow> v = None \<and> w = None"
  by (cases v) auto

text \<open>\<open>reject c s\<close> is \<open>if c { return s }\<close>.\<close>

abbreviation reject :: "bool \<Rightarrow> sentinel \<Rightarrow> err option" where
  "reject c s \<equiv> (if c then Some (Sent s) else None)"

text \<open>Visiting the entries of a collection and returning the first error.\<close>

fun firstErr :: "('a \<Rightarrow> err option) \<Rightarrow> 'a list \<Rightarrow> err option" where
  "firstErr f [] = None"
| "firstErr f (x # xs) = orElse (f x) (firstErr f xs)"

lemma firstErr_None_iff [res_simps]: "firstErr f xs = None \<longleftrightarrow> (\<forall>x \<in> set xs. f x = None)"
  by (induction xs) (auto simp: res_simps)

section \<open>Finite maps as association lists\<close>

type_synonym ('k, 'v) gomap = "('k \<times> 'v) list"

abbreviation lookup :: "('k, 'v) gomap \<Rightarrow> 'k \<Rightarrow> 'v option" where
  "lookup \<equiv> map_of"

abbreviation put :: "'k \<Rightarrow> 'v \<Rightarrow> ('k, 'v) gomap \<Rightarrow> ('k, 'v) gomap" where
  "put \<equiv> AList.update"

abbreviation gomap_ok :: "('k, 'v) gomap \<Rightarrow> bool" where
  "gomap_ok m \<equiv> distinct (map fst m)"

lemma lookup_put [simp]: "lookup (put k v m) k' = (if k' = k then Some v else lookup m k')"
  by (simp add: update_conv')

lemma set_put: "gomap_ok m \<Longrightarrow> set (put k v m) = insert (k, v) {e \<in> set m. fst e \<noteq> k}"
proof (induction m)
  case (Cons e m)
  then show ?case by (cases e) (auto simp: image_iff)
qed simp

lemma put_entry_cases:
  assumes "e \<in> set (put k v m)" and "gomap_ok m"
  obtains "e = (k, v)" | "e \<in> set m" and "fst e \<noteq> k"
  using assms by (auto simp: set_put)

end
