(* ===== verification/Retry_Schedule.thy ===== *)
theory Retry_Schedule
  imports Flowy_Errors
begin

text \<open>
  The persisted retry deadline arithmetic of activity\_schedule.go and the retry
  policies of activity\_retry.go: validation, capped exponential back-off on
  64-bit durations, deterministic jitter width, the choice of a deadline and the
  validator that is applied to a stored choice. The lemmas show that no
  operation overflows, that the loops compute the closed forms they stand for,
  and that the validator accepts what the chooser produces.
\<close>

section \<open>Policies\<close>

text \<open>A Go string constant set with its catch-all: the other texts of the type.\<close>

datatype ActivityRetryScheduleKind =
    ActivityRetryFixed | ActivityRetryExponential | OtherScheduleKind string

record ActivityRetrySchedule =
  sch_Kind :: ActivityRetryScheduleKind
  sch_InitialDelay :: duration
  sch_MaxDelay :: duration
  sch_Multiplier :: uint64
  sch_JitterPermille :: "16 word"
  sch_HintLabel :: string

record ActivityRetryPolicy =
  pol_Label :: string
  pol_MaxAttempts :: int
  pol_Schedule :: ActivityRetrySchedule
  pol_SafeRetryContract :: string

definition noSchedule :: ActivityRetrySchedule where
  "noSchedule = \<lparr>sch_Kind = OtherScheduleKind '''', sch_InitialDelay = 0, sch_MaxDelay = 0,
     sch_Multiplier = 0, sch_JitterPermille = 0, sch_HintLabel = ''''\<rparr>"

definition noRetry :: ActivityRetryPolicy where
  "noRetry = \<lparr>pol_Label = '''', pol_MaxAttempts = 0, pol_Schedule = noSchedule,
     pol_SafeRetryContract = ''''\<rparr>"

abbreviation retryJitterDenominator :: int where
  "retryJitterDenominator \<equiv> 1000"

definition validateActivitySchedule :: "ActivityRetrySchedule \<Rightarrow> err option" where
  "validateActivitySchedule s =
    (if sch_InitialDelay s < 0 \<or> sch_MaxDelay s < sch_InitialDelay s
        \<or> uint (sch_JitterPermille s) > retryJitterDenominator
        \<or> \<not> validRuntimeText [sch_HintLabel s]
     then Some (Sent ErrActivityScheduleInvalid)
     else case sch_Kind s of
       ActivityRetryFixed \<Rightarrow>
         reject (sch_Multiplier s \<noteq> 0 \<or> sch_MaxDelay s \<noteq> sch_InitialDelay s) ErrActivityScheduleInvalid
     | ActivityRetryExponential \<Rightarrow>
         reject (sch_InitialDelay s \<le> 0 \<or> sch_Multiplier s < 2) ErrActivityScheduleInvalid
     | OtherScheduleKind _ \<Rightarrow> Some (Sent ErrActivityScheduleInvalid))"

definition validateActivityRetry :: "ActivityRetryPolicy \<Rightarrow> err option" where
  "validateActivityRetry p =
    (if p = noRetry then None
     else if pol_Label p = '''' \<or> \<not> validRuntimeText [pol_Label p, pol_SafeRetryContract p]
        \<or> pol_MaxAttempts p < 1 \<or> (pol_MaxAttempts p > 1 \<and> pol_SafeRetryContract p = '''')
     then Some (Sent ErrExecutionCapability)
     else case validateActivitySchedule (pol_Schedule p) of
       Some e \<Rightarrow> errJoin [Some (Sent ErrExecutionCapability), Some e]
     | None \<Rightarrow> None)"

definition NewFixedActivityRetrySchedule :: "duration \<Rightarrow> ActivityRetrySchedule \<times> err option" where
  "NewFixedActivityRetrySchedule delay =
    (let s = \<lparr>sch_Kind = ActivityRetryFixed, sch_InitialDelay = delay, sch_MaxDelay = delay,
       sch_Multiplier = 0, sch_JitterPermille = 0, sch_HintLabel = ''''\<rparr>
     in (s, validateActivitySchedule s))"

definition NewExponentialActivityRetrySchedule ::
    "duration \<Rightarrow> duration \<Rightarrow> uint64 \<Rightarrow> ActivityRetrySchedule \<times> err option" where
  "NewExponentialActivityRetrySchedule initial maximum multiplier =
    (let s = \<lparr>sch_Kind = ActivityRetryExponential, sch_InitialDelay = initial, sch_MaxDelay = maximum,
       sch_Multiplier = multiplier, sch_JitterPermille = 0, sch_HintLabel = ''''\<rparr>
     in (s, validateActivitySchedule s))"

section \<open>Back-off\<close>

text \<open>
  The loop of \<open>activityRetryBaseDelay\<close>; \<open>None\<close> is the run-time panic of an
  integer division by zero. The conversion \<open>uint64(MaxDelay/delay)\<close> is
  \<open>word_of_int\<close>, \<open>time.Duration(Multiplier)\<close> is \<open>sint\<close>.
\<close>

function backoff_loop :: "ActivityRetrySchedule \<Rightarrow> int \<Rightarrow> int \<Rightarrow> duration \<Rightarrow> duration option" where
  "backoff_loop s number attempt delay =
    (if number < attempt \<and> delay < sch_MaxDelay s then
       if delay = 0 then None
       else if sch_Multiplier s > word_of_int (goquot (sch_MaxDelay s) delay) then Some (sch_MaxDelay s)
       else backoff_loop s (number + 1) attempt (wrap64 (delay * sint (sch_Multiplier s)))
     else Some delay)"
  by pat_completeness auto
termination
  by (relation "measure (\<lambda>(s, number, attempt, delay). nat (attempt - number))") auto

declare backoff_loop.simps [simp del]

text \<open>
  A panic is given the value \<open>0\<close>; \<open>backoff_loop_closed_form\<close> below shows that the
  loop never panics on a validated schedule, and every caller validates first.
\<close>

definition activityRetryBaseDelay :: "ActivityRetrySchedule \<Rightarrow> int \<Rightarrow> duration" where
  "activityRetryBaseDelay s attempt =
    (if sch_Kind s = ActivityRetryExponential then
       (case backoff_loop s 1 attempt (sch_InitialDelay s) of Some d \<Rightarrow> d | None \<Rightarrow> 0)
     else sch_InitialDelay s)"

definition activityRetryJitterWidth :: "duration \<Rightarrow> 16 word \<Rightarrow> duration" where
  "activityRetryJitterWidth delay permille =
    wrap64 (wrap64 (goquot delay retryJitterDenominator * uint permille)
      + goquot (wrap64 (gorem delay retryJitterDenominator * uint permille)) retryJitterDenominator)"

definition activityScheduleTimeValid :: "gotime \<Rightarrow> bool" where
  "activityScheduleTimeValid t \<longleftrightarrow> \<not> IsZero t \<and> 0 \<le> t \<and> t < year_10000"

section \<open>Decisions\<close>

record ActivityRetryScheduleDecision =
  dec_Attempt :: int
  dec_PreparedAt :: gotime
  dec_BaseDelay :: duration
  dec_SelectedDelay :: duration
  dec_NotBefore :: gotime
  dec_Deadline :: gotime
  dec_Rejection :: string

definition newScheduleDecision :: "int \<Rightarrow> gotime \<Rightarrow> ActivityRetryScheduleDecision" where
  "newScheduleDecision attempt at = \<lparr>dec_Attempt = attempt, dec_PreparedAt = at, dec_BaseDelay = 0,
     dec_SelectedDelay = 0, dec_NotBefore = 0, dec_Deadline = 0, dec_Rejection = ''''\<rparr>"

text \<open>
  The random source is sampled at most once; its sample is an argument, \<open>None\<close>
  when the source panics (\<open>activityRetryRandomSample\<close> recovers).
\<close>

definition jitterReduction :: "duration \<Rightarrow> uint64 \<Rightarrow> duration" where
  "jitterReduction width value = sint (value mod (word_of_int width + 1))"

definition scheduleDeadline :: "gotime \<Rightarrow> ActivityRetryScheduleDecision \<Rightarrow> ActivityRetryScheduleDecision" where
  "scheduleDeadline at d =
    (let base = at + dec_SelectedDelay d;
         deadline = (if dec_NotBefore d > base then dec_NotBefore d else base)
     in if deadline < at \<or> \<not> activityScheduleTimeValid deadline then d\<lparr>dec_Rejection := ''deadline''\<rparr>
        else d\<lparr>dec_Deadline := deadline\<rparr>)"

definition chooseActivityRetrySchedule ::
    "ActivityRetryPolicy \<Rightarrow> int \<Rightarrow> gotime \<Rightarrow> gotime \<Rightarrow> uint64 option \<Rightarrow> ActivityRetryScheduleDecision" where
  "chooseActivityRetrySchedule policy attempt at hint sample =
    (let d0 = newScheduleDecision attempt at in
     if attempt < 1 \<or> attempt \<ge> pol_MaxAttempts policy \<or> validateActivityRetry policy \<noteq> None
     then d0\<lparr>dec_Rejection := ''policy''\<rparr>
     else if \<not> activityScheduleTimeValid at then d0\<lparr>dec_Rejection := ''clock''\<rparr>
     else
       let base = activityRetryBaseDelay (pol_Schedule policy) attempt;
           d1 = d0\<lparr>dec_BaseDelay := base, dec_SelectedDelay := base\<rparr> in
       if \<not> IsZero hint \<and> \<not> activityScheduleTimeValid hint then d1\<lparr>dec_Rejection := ''hint_time''\<rparr>
       else
         let d2 = (if IsZero hint then d1 else d1\<lparr>dec_NotBefore := hint\<rparr>) in
         if \<not> IsZero hint \<and> sch_HintLabel (pol_Schedule policy) = '''' then d2\<lparr>dec_Rejection := ''hint_label''\<rparr>
         else
           let width = activityRetryJitterWidth base (sch_JitterPermille (pol_Schedule policy)) in
           if width > 0 then
             (case sample of
                None \<Rightarrow> d2\<lparr>dec_Rejection := ''random''\<rparr>
              | Some value \<Rightarrow>
                  scheduleDeadline at (d2\<lparr>dec_SelectedDelay := wrap64 (base - jitterReduction width value)\<rparr>))
           else scheduleDeadline at d2)"

definition validActivityScheduleHint :: "ActivityRetryPolicy \<Rightarrow> gotime \<Rightarrow> bool" where
  "validActivityScheduleHint policy hint \<longleftrightarrow>
    IsZero hint \<or> (sch_HintLabel (pol_Schedule policy) \<noteq> '''' \<and> activityScheduleTimeValid hint)"

definition expectedDeadline :: "ActivityRetryScheduleDecision \<Rightarrow> gotime" where
  "expectedDeadline d =
    (let e = dec_PreparedAt d + dec_SelectedDelay d in if dec_NotBefore d > e then dec_NotBefore d else e)"

definition validRejectedActivitySchedule ::
    "ActivityRetryPolicy \<Rightarrow> ActivityRetryScheduleDecision \<Rightarrow> bool" where
  "validRejectedActivitySchedule policy d =
    (let s = pol_Schedule policy; w = activityRetryJitterWidth (dec_BaseDelay d) (sch_JitterPermille s) in
     if \<not> IsZero (dec_Deadline d) \<or> dec_BaseDelay d \<noteq> activityRetryBaseDelay s (dec_Attempt d) then False
     else if dec_Rejection d = ''hint_time'' then
       IsZero (dec_NotBefore d) \<and> dec_SelectedDelay d = dec_BaseDelay d
     else if dec_Rejection d = ''hint_label'' then
       sch_HintLabel s = '''' \<and> activityScheduleTimeValid (dec_NotBefore d) \<and> dec_SelectedDelay d = dec_BaseDelay d
     else if dec_Rejection d = ''random'' then
       w > 0 \<and> dec_SelectedDelay d = dec_BaseDelay d \<and> validActivityScheduleHint policy (dec_NotBefore d)
     else if dec_Rejection d = ''deadline'' then
       validActivityScheduleHint policy (dec_NotBefore d)
       \<and> \<not> dec_SelectedDelay d < wrap64 (dec_BaseDelay d - w)
       \<and> (\<not> activityScheduleTimeValid (expectedDeadline d) \<or> expectedDeadline d < dec_PreparedAt d)
     else False)"

text \<open>The pointer argument is an \<open>option\<close>; nil is not a valid decision.\<close>

definition validActivityRetryScheduleDecision ::
    "ActivityRetryPolicy \<Rightarrow> ActivityRetryScheduleDecision option \<Rightarrow> bool" where
  "validActivityRetryScheduleDecision policy decision =
    (case decision of None \<Rightarrow> False | Some d \<Rightarrow>
      (let s = pol_Schedule policy; base = activityRetryBaseDelay s (dec_Attempt d) in
       if validateActivityRetry policy \<noteq> None \<or> dec_Attempt d < 1 \<or> dec_Attempt d \<ge> pol_MaxAttempts policy
          \<or> \<not> activityScheduleTimeValid (dec_PreparedAt d) \<or> dec_BaseDelay d < 0
          \<or> dec_SelectedDelay d < 0 \<or> dec_SelectedDelay d > dec_BaseDelay d then False
       else if dec_Rejection d \<noteq> '''' then validRejectedActivitySchedule policy d
       else if dec_BaseDelay d \<noteq> base
          \<or> dec_SelectedDelay d < wrap64 (base - activityRetryJitterWidth base (sch_JitterPermille s)) then False
       else if \<not> IsZero (dec_NotBefore d)
          \<and> (sch_HintLabel s = '''' \<or> \<not> activityScheduleTimeValid (dec_NotBefore d)) then False
       else activityScheduleTimeValid (dec_Deadline d) \<and> expectedDeadline d = dec_Deadline d))"

section \<open>Arithmetic of validated schedules\<close>

text \<open>What Go's types say about the fields of a schedule: durations are int64.\<close>

definition schedule_typed :: "ActivityRetrySchedule \<Rightarrow> bool" where
  "schedule_typed s \<longleftrightarrow> is_int64 (sch_InitialDelay s) \<and> is_int64 (sch_MaxDelay s)"

lemma schedule_bounds:
  assumes "validateActivitySchedule s = None"
  shows "0 \<le> sch_InitialDelay s" and "sch_InitialDelay s \<le> sch_MaxDelay s"
    and "uint (sch_JitterPermille s) \<le> 1000"
  using assms by (auto simp: validateActivitySchedule_def split: if_splits)

lemma exponential_bounds:
  assumes "validateActivitySchedule s = None" and "sch_Kind s = ActivityRetryExponential"
  shows "0 < sch_InitialDelay s" and "2 \<le> uint (sch_Multiplier s)"
  using assms by (auto simp: validateActivitySchedule_def word_less_def split: if_splits)

lemma fixed_bounds:
  assumes "validateActivitySchedule s = None" and "sch_Kind s \<noteq> ActivityRetryExponential"
  shows "sch_MaxDelay s = sch_InitialDelay s"
  using assms
  by (cases "sch_Kind s") (auto simp: validateActivitySchedule_def split: if_splits)

lemma uint_word_of_int64: "0 \<le> q \<Longrightarrow> is_int64 q \<Longrightarrow> uint (word_of_int q :: uint64) = q"
  by (simp add: is_int64_def uint_word_of_int)

lemma sint_of_small:
  fixes w :: uint64
  assumes "uint w < 2 ^ 63"
  shows "sint w = uint w"
  proof -
  have "- (2 ^ 63) \<le> uint w" by (rule order_trans [of _ 0]) simp_all
  with assms show ?thesis by (simp add: sint_uint signed_take_bit_int_eq_self)
qed

lemma int_div_less_iff:
  assumes "0 < (d::int)"
  shows "m div d < k \<longleftrightarrow> m < k * d"
proof
  assume "m div d < k"
  then have "(m div d + 1) * d \<le> k * d" using assms by (intro mult_right_mono) simp_all
  moreover have "m < (m div d + 1) * d"
    using pos_mod_bound [OF assms, of m] div_mult_mod_eq [of m d]
    by (simp only: distrib_right mult_1)
  ultimately show "m < k * d" by simp
next
  assume lt: "m < k * d"
  show "m div d < k"
  proof (rule ccontr)
    assume "\<not> m div d < k"
    then have "k * d \<le> m div d * d" using assms by (intro mult_right_mono) simp_all
    also have "\<dots> \<le> m" using pos_mod_sign [OF assms, of m] div_mult_mod_eq [of m d] by linarith
    finally show False using lt by simp
  qed
qed

text \<open>
  One round of the loop: either the next product exceeds the cap, or it is exact
  and below the cap.
\<close>

lemma backoff_round:
  assumes v: "validateActivitySchedule s = None" and k: "sch_Kind s = ActivityRetryExponential"
    and m: "is_int64 (sch_MaxDelay s)" and d: "0 < delay" "delay < sch_MaxDelay s"
  defines "M \<equiv> uint (sch_Multiplier s)"
  shows "sch_Multiplier s > word_of_int (goquot (sch_MaxDelay s) delay) \<longleftrightarrow> sch_MaxDelay s < delay * M"
    and "delay * M \<le> sch_MaxDelay s \<Longrightarrow> wrap64 (delay * sint (sch_Multiplier s)) = delay * M"
proof -
  let ?q = "sch_MaxDelay s div delay"
  have q: "goquot (sch_MaxDelay s) delay = ?q"
    using d by (simp add: goquot_nonneg)
  have q0: "0 \<le> ?q" using d by (simp add: pos_imp_zdiv_nonneg_iff)
  have "?q \<le> sch_MaxDelay s" using d zdiv_mono2 [of "sch_MaxDelay s" 1 delay] by simp
  with q0 m have "is_int64 ?q" by (auto simp: is_int64_def)
  with q0 have u: "uint (word_of_int ?q :: uint64) = ?q" by (rule uint_word_of_int64)
  have "?q < M \<longleftrightarrow> sch_MaxDelay s < delay * M"
    using int_div_less_iff [OF d(1), of "sch_MaxDelay s" M] by (simp add: mult.commute)
  then show "sch_Multiplier s > word_of_int (goquot (sch_MaxDelay s) delay) \<longleftrightarrow> sch_MaxDelay s < delay * M"
    by (simp add: q word_less_def u M_def)
  assume le: "delay * M \<le> sch_MaxDelay s"
  have M2: "2 \<le> M" using exponential_bounds [OF v k] by (simp add: M_def)
  have "M \<le> delay * M" using d M2 by simp
  with le m have "M < 2 ^ 63" by (simp add: is_int64_def)
  then have "sint (sch_Multiplier s) = M" by (simp add: sint_of_small M_def)
  moreover have "is_int64 (delay * M)"
    using le m d M2 by (auto simp: is_int64_def intro: order_trans [of _ 0])
  ultimately show "wrap64 (delay * sint (sch_Multiplier s)) = delay * M"
    by (simp add: wrap64_id)
qed

lemma power_cap:
  assumes "1 \<le> (M::int)" "0 \<le> c" "c \<le> x"
  shows "min c (x * M ^ n) = c"
proof -
  have "x * 1 \<le> x * M ^ n" using assms by (intro mult_left_mono) simp_all
  with assms show ?thesis by simp
qed

lemma backoff_loop_closed_form:
  assumes v: "validateActivitySchedule s = None" and k: "sch_Kind s = ActivityRetryExponential"
    and m: "is_int64 (sch_MaxDelay s)"
    and d: "0 < delay" "delay \<le> sch_MaxDelay s"
  shows "backoff_loop s number attempt delay
    = Some (min (sch_MaxDelay s) (delay * uint (sch_Multiplier s) ^ nat (attempt - number)))"
  using d
proof (induction "nat (attempt - number)" arbitrary: number delay)
  case 0
  then show ?case by (simp add: backoff_loop.simps)
next
  case (Suc n)
  let ?M = "uint (sch_Multiplier s)" and ?max = "sch_MaxDelay s"
  have M2: "2 \<le> ?M" using exponential_bounds [OF v k] by simp
  from Suc.hyps(2) have lt: "number < attempt" and n: "nat (attempt - number) = Suc n"
    and n': "n = nat (attempt - (number + 1))" by auto
  show ?case
  proof (cases "delay < ?max")
    case False
    with Suc.prems M2 show ?thesis by (simp add: backoff_loop.simps power_cap)
  next
    case True
    note r = backoff_round [OF v k m Suc.prems(1) True]
    show ?thesis
    proof (cases "?max < delay * ?M")
      case True
      with M2 Suc.prems have "min ?max (delay * ?M * ?M ^ n) = ?max" by (intro power_cap) simp_all
      with True lt \<open>delay < ?max\<close> Suc.prems r(1) n show ?thesis
        by (simp add: backoff_loop.simps mult.assoc)
    next
      case False
      have pos: "0 < delay * ?M" using Suc.prems M2 by simp
      have "backoff_loop s (number + 1) attempt (delay * ?M)
          = Some (min ?max (delay * ?M * ?M ^ nat (attempt - (number + 1))))"
        using Suc.hyps(1) [OF n' pos] False by simp
      with False lt \<open>delay < ?max\<close> Suc.prems r n n' show ?thesis
        by (subst backoff_loop.simps) (simp add: mult.assoc)
    qed
  qed
qed

lemma base_delay_closed_form:
  assumes v: "validateActivitySchedule s = None" and t: "schedule_typed s" and a: "1 \<le> attempt"
  shows "activityRetryBaseDelay s attempt =
    (if sch_Kind s = ActivityRetryExponential
     then min (sch_MaxDelay s) (sch_InitialDelay s * uint (sch_Multiplier s) ^ nat (attempt - 1))
     else sch_InitialDelay s)"
  using backoff_loop_closed_form [OF v, of "sch_InitialDelay s" 1 attempt] schedule_bounds [OF v]
    exponential_bounds [OF v] t
  by (simp add: activityRetryBaseDelay_def schedule_typed_def)

lemma base_delay_bounds:
  assumes v: "validateActivitySchedule s = None" and t: "schedule_typed s" and a: "1 \<le> attempt"
  shows "sch_InitialDelay s \<le> activityRetryBaseDelay s attempt"
    and "activityRetryBaseDelay s attempt \<le> sch_MaxDelay s"
    and "0 \<le> activityRetryBaseDelay s attempt" and "is_int64 (activityRetryBaseDelay s attempt)"
proof -
  let ?b = "activityRetryBaseDelay s attempt"
  note b = schedule_bounds [OF v]
  show lo: "sch_InitialDelay s \<le> ?b"
  proof (cases "sch_Kind s = ActivityRetryExponential")
    case True
    have "sch_InitialDelay s * 1 \<le> sch_InitialDelay s * uint (sch_Multiplier s) ^ nat (attempt - 1)"
      using b exponential_bounds [OF v True] by (intro mult_left_mono) simp_all
    with b True show ?thesis by (simp add: base_delay_closed_form [OF v t a])
  qed (simp add: base_delay_closed_form [OF v t a])
  show hi: "?b \<le> sch_MaxDelay s" using b fixed_bounds [OF v] by (simp add: base_delay_closed_form [OF v t a])
  from lo b show "0 \<le> ?b" by simp
  with hi t show "is_int64 ?b" by (auto simp: schedule_typed_def is_int64_def)
qed

text \<open>The two-part product is the exact quotient: neither part overflows.\<close>

lemma jitter_width_exact:
  assumes "0 \<le> d" "is_int64 d" "uint p \<le> 1000"
  shows "activityRetryJitterWidth d p = d * uint p div 1000"
proof -
  let ?q = "d div 1000" and ?r = "d mod 1000" and ?p = "uint p"
  have d: "d = 1000 * ?q + ?r" by simp
  have q: "0 \<le> ?q" using assms by simp
  have "?q * ?p \<le> ?q * 1000" using assms q by (intro mult_left_mono) simp_all
  also have "\<dots> \<le> d" using d pos_mod_sign [of 1000 d] by linarith
  finally have qp: "?q * ?p \<le> d" .
  have "?r * ?p \<le> ?r * 1000" using assms by (intro mult_left_mono) simp_all
  then have rp: "0 \<le> ?r * ?p" "?r * ?p \<le> 1000 * 1000" using pos_mod_bound [of 1000 d] by auto
  have split: "d * ?p div 1000 = ?q * ?p + ?r * ?p div 1000"
  proof -
    have "d * ?p = (1000 * ?q + ?r) * ?p" by simp
    then have "d * ?p = 1000 * (?q * ?p) + ?r * ?p" by (simp only: distrib_right mult.assoc)
    then show ?thesis by simp
  qed
  have le: "d * ?p div 1000 \<le> d"
  proof -
    have "d * ?p \<le> d * 1000" using assms by (intro mult_left_mono) simp_all
    then show ?thesis by (simp add: zdiv_mono1 [of "d * ?p" "d * 1000" 1000, simplified])
  qed
  have nn: "0 \<le> d * ?p div 1000" using assms by (simp add: pos_imp_zdiv_nonneg_iff)
  have i: "is_int64 (?q * ?p)" "is_int64 (?r * ?p)" "is_int64 (d * ?p div 1000)"
    using assms qp rp q le nn by (auto simp: is_int64_def intro: order_trans [of _ 0])
  show ?thesis
    using assms rp i split
    by (simp add: activityRetryJitterWidth_def goquot_nonneg gorem_nonneg wrap64_id)
qed

lemma jitter_width_bounds:
  assumes "0 \<le> d" "is_int64 d" "uint p \<le> 1000"
  shows "0 \<le> activityRetryJitterWidth d p" and "activityRetryJitterWidth d p \<le> d"
proof -
  have "d * uint p \<le> d * 1000" using assms by (intro mult_left_mono) simp_all
  then have "d * uint p div 1000 \<le> d" by (simp add: zdiv_mono1 [of "d * uint p" "d * 1000" 1000, simplified])
  then show "activityRetryJitterWidth d p \<le> d" by (simp add: jitter_width_exact [OF assms])
  show "0 \<le> activityRetryJitterWidth d p" using assms by (simp add: jitter_width_exact pos_imp_zdiv_nonneg_iff)
qed

lemma jitter_reduction_bounds:
  assumes "0 < width" "is_int64 width"
  shows "0 \<le> jitterReduction width value" and "jitterReduction width value \<le> width"
proof -
  let ?m = "word_of_int width + 1 :: uint64"
  have w: "uint (word_of_int width :: uint64) = width"
    using assms by (intro uint_word_of_int64) simp_all
  have "uint ?m = width + 1"
    using assms w by (subst uint_plus_if_size) (simp add: is_int64_def word_size)
  then have "uint (value mod ?m) < width + 1" and "0 \<le> uint (value mod ?m)"
    using assms pos_mod_bound [of "width + 1" "uint value"] by (simp_all add: uint_mod)
  moreover from this assms have "sint (value mod ?m) = uint (value mod ?m)"
    by (intro sint_of_small) (simp add: is_int64_def)
  ultimately show "0 \<le> jitterReduction width value" "jitterReduction width value \<le> width"
    by (simp_all add: jitterReduction_def)
qed

section \<open>The chooser and the validator agree\<close>

text \<open>What a candidate decision satisfies when its deadline is computed.\<close>

definition schedule_candidate ::
    "ActivityRetryPolicy \<Rightarrow> gotime \<Rightarrow> ActivityRetryScheduleDecision \<Rightarrow> bool" where
  "schedule_candidate p at d \<longleftrightarrow>
    validateActivityRetry p = None \<and> 1 \<le> dec_Attempt d \<and> dec_Attempt d < pol_MaxAttempts p
    \<and> activityScheduleTimeValid at \<and> dec_PreparedAt d = at
    \<and> dec_BaseDelay d = activityRetryBaseDelay (pol_Schedule p) (dec_Attempt d)
    \<and> dec_SelectedDelay d \<le> dec_BaseDelay d
    \<and> dec_BaseDelay d - activityRetryJitterWidth (dec_BaseDelay d) (sch_JitterPermille (pol_Schedule p))
        \<le> dec_SelectedDelay d
    \<and> validActivityScheduleHint p (dec_NotBefore d) \<and> dec_Deadline d = 0 \<and> dec_Rejection d = ''''"

lemma retry_schedule_valid:
  assumes "validateActivityRetry p = None" and "1 < pol_MaxAttempts p"
  shows "validateActivitySchedule (pol_Schedule p) = None"
  using assms
  by (auto simp: validateActivityRetry_def noRetry_def errJoin_None_iff split: if_splits option.splits)

lemma candidate_delays:
  assumes t: "schedule_typed (pol_Schedule p)" and c: "schedule_candidate p at d"
  defines "w \<equiv> activityRetryJitterWidth (dec_BaseDelay d) (sch_JitterPermille (pol_Schedule p))"
  shows "0 \<le> dec_SelectedDelay d" and "0 \<le> dec_BaseDelay d" and "wrap64 (dec_BaseDelay d - w) = dec_BaseDelay d - w"
proof -
  from c have a: "1 \<le> dec_Attempt d" "1 < pol_MaxAttempts p" and v: "validateActivityRetry p = None"
    by (auto simp: schedule_candidate_def)
  have sv: "validateActivitySchedule (pol_Schedule p) = None" using v a by (intro retry_schedule_valid)
  note b = base_delay_bounds [OF sv t a(1)] and j = schedule_bounds [OF sv]
  from c have base: "dec_BaseDelay d = activityRetryBaseDelay (pol_Schedule p) (dec_Attempt d)"
    by (simp add: schedule_candidate_def)
  have w: "0 \<le> w" "w \<le> dec_BaseDelay d"
    using b j jitter_width_bounds [of "dec_BaseDelay d"] by (simp_all add: w_def base)
  show "0 \<le> dec_BaseDelay d" using b by (simp add: base)
  from c have "dec_BaseDelay d - w \<le> dec_SelectedDelay d"
    unfolding schedule_candidate_def w_def by blast
  with w show "0 \<le> dec_SelectedDelay d" by linarith
  show "wrap64 (dec_BaseDelay d - w) = dec_BaseDelay d - w"
    using w b by (intro wrap64_id) (auto simp: is_int64_def base)
qed

lemma scheduleDeadline_valid:
  assumes t: "schedule_typed (pol_Schedule p)" and c: "schedule_candidate p at d"
  shows "validActivityRetryScheduleDecision p (Some (scheduleDeadline at d))"
proof -
  note b = candidate_delays [OF t c]
  have e: "expectedDeadline (d\<lparr>dec_Rejection := r\<rparr>) = expectedDeadline d"
    "expectedDeadline (d\<lparr>dec_Deadline := x\<rparr>) = expectedDeadline d" for r x
    by (simp_all add: expectedDeadline_def Let_def)
  have sd: "scheduleDeadline at d =
    (if expectedDeadline d < at \<or> \<not> activityScheduleTimeValid (expectedDeadline d)
     then d\<lparr>dec_Rejection := ''deadline''\<rparr> else d\<lparr>dec_Deadline := expectedDeadline d\<rparr>)"
    using c by (simp add: scheduleDeadline_def expectedDeadline_def schedule_candidate_def Let_def)
  show ?thesis
    using c b
    by (auto simp: sd e validActivityRetryScheduleDecision_def validRejectedActivitySchedule_def
        schedule_candidate_def validActivityScheduleHint_def Let_def)
qed

text \<open>The decision that the chooser fills in step by step.\<close>

definition chosenDraft :: "ActivityRetryPolicy \<Rightarrow> int \<Rightarrow> gotime \<Rightarrow> gotime \<Rightarrow> ActivityRetryScheduleDecision" where
  "chosenDraft p attempt at hint =
    (newScheduleDecision attempt at)\<lparr>dec_BaseDelay := activityRetryBaseDelay (pol_Schedule p) attempt,
      dec_SelectedDelay := activityRetryBaseDelay (pol_Schedule p) attempt, dec_NotBefore := hint\<rparr>"

lemma chosenDraft_simps [simp]:
  "dec_Attempt (chosenDraft p n at h) = n" "dec_PreparedAt (chosenDraft p n at h) = at"
  "dec_BaseDelay (chosenDraft p n at h) = activityRetryBaseDelay (pol_Schedule p) n"
  "dec_SelectedDelay (chosenDraft p n at h) = activityRetryBaseDelay (pol_Schedule p) n"
  "dec_NotBefore (chosenDraft p n at h) = h" "dec_Deadline (chosenDraft p n at h) = 0"
  "dec_Rejection (chosenDraft p n at h) = ''''"
  by (simp_all add: chosenDraft_def newScheduleDecision_def)

lemma choose_cases:
  "chooseActivityRetrySchedule p n at hint sample =
    (let s = pol_Schedule p; base = activityRetryBaseDelay s n;
         w = activityRetryJitterWidth base (sch_JitterPermille s) in
     if n < 1 \<or> n \<ge> pol_MaxAttempts p \<or> validateActivityRetry p \<noteq> None
     then (newScheduleDecision n at)\<lparr>dec_Rejection := ''policy''\<rparr>
     else if \<not> activityScheduleTimeValid at then (newScheduleDecision n at)\<lparr>dec_Rejection := ''clock''\<rparr>
     else if hint \<noteq> 0 \<and> \<not> activityScheduleTimeValid hint
     then (chosenDraft p n at 0)\<lparr>dec_Rejection := ''hint_time''\<rparr>
     else if hint \<noteq> 0 \<and> sch_HintLabel s = '''' then (chosenDraft p n at hint)\<lparr>dec_Rejection := ''hint_label''\<rparr>
     else if w \<le> 0 then scheduleDeadline at (chosenDraft p n at hint)
     else case sample of None \<Rightarrow> (chosenDraft p n at hint)\<lparr>dec_Rejection := ''random''\<rparr>
       | Some v \<Rightarrow> scheduleDeadline at ((chosenDraft p n at hint)\<lparr>dec_SelectedDelay := wrap64 (base - jitterReduction w v)\<rparr>))"
  by (simp add: chooseActivityRetrySchedule_def chosenDraft_def newScheduleDecision_def Let_def
      split: option.splits)

lemma draft_candidate:
  assumes t: "schedule_typed (pol_Schedule p)"
    and pre: "1 \<le> n" "n < pol_MaxAttempts p" "validateActivityRetry p = None" "activityScheduleTimeValid at"
    and h: "validActivityScheduleHint p hint"
  defines "base \<equiv> activityRetryBaseDelay (pol_Schedule p) n"
  defines "w \<equiv> activityRetryJitterWidth base (sch_JitterPermille (pol_Schedule p))"
  shows "schedule_candidate p at (chosenDraft p n at hint)"
    and "0 < w \<Longrightarrow> schedule_candidate p at
      ((chosenDraft p n at hint)\<lparr>dec_SelectedDelay := wrap64 (base - jitterReduction w v)\<rparr>)"
proof -
  have sv: "validateActivitySchedule (pol_Schedule p) = None" using pre by (intro retry_schedule_valid) simp_all
  note b = base_delay_bounds [OF sv t pre(1), folded base_def]
  have w: "0 \<le> w" "w \<le> base"
    using jitter_width_bounds [OF b(3,4)] schedule_bounds [OF sv] by (simp_all add: w_def)
  show "schedule_candidate p at (chosenDraft p n at hint)"
    using pre h w by (simp add: schedule_candidate_def base_def w_def)
  assume pos: "0 < w"
  have "is_int64 w" using w b by (auto simp: is_int64_def)
  note j = jitter_reduction_bounds [OF pos this, of v]
  have "wrap64 (base - jitterReduction w v) = base - jitterReduction w v"
    using j w b by (intro wrap64_id) (auto simp: is_int64_def)
  with j pre h show "schedule_candidate p at
      ((chosenDraft p n at hint)\<lparr>dec_SelectedDelay := wrap64 (base - jitterReduction w v)\<rparr>)"
    by (simp add: schedule_candidate_def base_def w_def)
qed

lemma choose_valid:
  assumes t: "schedule_typed (pol_Schedule p)"
    and r: "dec_Rejection (chooseActivityRetrySchedule p n at hint sample) \<notin> {''policy'', ''clock''}"
  shows "validActivityRetryScheduleDecision p (Some (chooseActivityRetrySchedule p n at hint sample))"
proof -
  have pre: "1 \<le> n" "n < pol_MaxAttempts p" "validateActivityRetry p = None" "activityScheduleTimeValid at"
    using r by (auto simp: choose_cases Let_def not_less split: if_splits)
  have sv: "validateActivitySchedule (pol_Schedule p) = None" using pre by (intro retry_schedule_valid) simp_all
  note b = base_delay_bounds [OF sv t pre(1)]
  show ?thesis
  proof (cases "validActivityScheduleHint p hint")
    case False
    show ?thesis
    proof (cases "activityScheduleTimeValid hint")
      case t: True
      with False have l: "hint \<noteq> 0" "sch_HintLabel (pol_Schedule p) = ''''"
        by (simp_all add: validActivityScheduleHint_def)
      have "chooseActivityRetrySchedule p n at hint sample
          = (chosenDraft p n at hint)\<lparr>dec_Rejection := ''hint_label''\<rparr>"
        using pre t l by (simp add: choose_cases)
      with pre b t l show ?thesis
        by (simp add: validActivityRetryScheduleDecision_def validRejectedActivitySchedule_def)
    next
      case t: False
      with False have "hint \<noteq> 0" by (simp add: validActivityScheduleHint_def)
      then have "chooseActivityRetrySchedule p n at hint sample
          = (chosenDraft p n at 0)\<lparr>dec_Rejection := ''hint_time''\<rparr>"
        using pre t by (simp add: choose_cases)
      with pre b show ?thesis
        by (simp add: validActivityRetryScheduleDecision_def validRejectedActivitySchedule_def)
    qed
  next
    case True
    let ?w = "activityRetryJitterWidth (activityRetryBaseDelay (pol_Schedule p) n) (sch_JitterPermille (pol_Schedule p))"
    note c = draft_candidate [OF t pre True]
    have ch: "chooseActivityRetrySchedule p n at hint sample =
      (if ?w \<le> 0 then scheduleDeadline at (chosenDraft p n at hint)
       else case sample of None \<Rightarrow> (chosenDraft p n at hint)\<lparr>dec_Rejection := ''random''\<rparr>
         | Some v \<Rightarrow> scheduleDeadline at ((chosenDraft p n at hint)\<lparr>dec_SelectedDelay :=
             wrap64 (activityRetryBaseDelay (pol_Schedule p) n - jitterReduction ?w v)\<rparr>))"
      using pre True by (auto simp: choose_cases Let_def validActivityScheduleHint_def)
    show ?thesis
    proof (cases "?w \<le> 0")
      case True
      then show ?thesis using scheduleDeadline_valid [OF t c(1)] by (simp add: ch)
    next
      case w: False
      show ?thesis
      proof (cases sample)
        case None
        with w ch have eq: "chooseActivityRetrySchedule p n at hint sample
            = (chosenDraft p n at hint)\<lparr>dec_Rejection := ''random''\<rparr>" by simp
        show ?thesis unfolding eq
          using w True pre b
          by (simp add: validActivityRetryScheduleDecision_def validRejectedActivitySchedule_def)
      next
        case (Some v)
        with w ch scheduleDeadline_valid [OF t c(2) [of v]] show ?thesis by simp
      qed
    qed
  qed
qed

lemma scheduleDeadline_fields [simp]:
  "dec_NotBefore (scheduleDeadline at d) = dec_NotBefore d"
  "dec_PreparedAt (scheduleDeadline at d) = dec_PreparedAt d"
  "dec_Attempt (scheduleDeadline at d) = dec_Attempt d"
  by (simp_all add: scheduleDeadline_def Let_def)

lemma newScheduleDecision_fields [simp]:
  "dec_PreparedAt (newScheduleDecision n at) = at" "dec_Attempt (newScheduleDecision n at) = n"
  by (simp_all add: newScheduleDecision_def)

lemma choose_outcomes:
  obtains (rejected) d r where "chooseActivityRetrySchedule p n at hint sample = d\<lparr>dec_Rejection := r\<rparr>"
      and "r \<noteq> ''''" and "dec_PreparedAt d = at" and "dec_Attempt d = n"
  | (timed) d where "chooseActivityRetrySchedule p n at hint sample = scheduleDeadline at d"
      and "dec_PreparedAt d = at" and "dec_Attempt d = n" and "dec_NotBefore d = hint"
proof -
  let ?c = "chooseActivityRetrySchedule p n at hint sample"
  let ?D = "chosenDraft p n at"
  have "?c \<in> {(newScheduleDecision n at)\<lparr>dec_Rejection := ''policy''\<rparr>,
      (newScheduleDecision n at)\<lparr>dec_Rejection := ''clock''\<rparr>, (?D 0)\<lparr>dec_Rejection := ''hint_time''\<rparr>,
      (?D hint)\<lparr>dec_Rejection := ''hint_label''\<rparr>, (?D hint)\<lparr>dec_Rejection := ''random''\<rparr>}
    \<or> ?c = scheduleDeadline at (?D hint) \<or> (\<exists>x. ?c = scheduleDeadline at ((?D hint)\<lparr>dec_SelectedDelay := x\<rparr>))"
    unfolding choose_cases Let_def by (cases sample) (simp_all split del: if_split, (simp split: if_split; blast)+)
  then show ?thesis
    by (elim disjE insertE exE emptyE) ((rule rejected, assumption, simp_all)+, (rule timed, assumption, simp_all)+)
qed

lemma choose_fields:
  shows "dec_PreparedAt (chooseActivityRetrySchedule p n at hint sample) = at"
    and "dec_Attempt (chooseActivityRetrySchedule p n at hint sample) = n"
    and "dec_Rejection (chooseActivityRetrySchedule p n at hint sample) = '''' \<Longrightarrow>
      dec_NotBefore (chooseActivityRetrySchedule p n at hint sample) = hint"
  by (cases rule: choose_outcomes [of p n at hint sample]; simp)+

lemma accepted_deadline:
  assumes "schedule_typed (pol_Schedule p)" and "validActivityRetryScheduleDecision p (Some d)"
    and "dec_Rejection d = ''''"
  shows "dec_PreparedAt d \<le> dec_Deadline d" and "dec_NotBefore d \<le> dec_Deadline d"
    and "dec_Deadline d \<le> max (dec_PreparedAt d + sch_MaxDelay (pol_Schedule p)) (dec_NotBefore d)"
    and "activityScheduleTimeValid (dec_Deadline d)"
proof -
  from assms have v: "validateActivityRetry p = None" "1 \<le> dec_Attempt d" "dec_Attempt d < pol_MaxAttempts p"
    and s: "0 \<le> dec_SelectedDelay d" "dec_SelectedDelay d \<le> dec_BaseDelay d"
    and b: "dec_BaseDelay d = activityRetryBaseDelay (pol_Schedule p) (dec_Attempt d)"
    and e: "expectedDeadline d = dec_Deadline d" and t: "activityScheduleTimeValid (dec_Deadline d)"
    by (auto simp: validActivityRetryScheduleDecision_def Let_def split: if_splits)
  have "validateActivitySchedule (pol_Schedule p) = None" using v by (intro retry_schedule_valid) simp_all
  from base_delay_bounds(2) [OF this assms(1) v(2)] b s
  have "dec_SelectedDelay d \<le> sch_MaxDelay (pol_Schedule p)" by simp
  with s e show "dec_PreparedAt d \<le> dec_Deadline d" "dec_NotBefore d \<le> dec_Deadline d"
    "dec_Deadline d \<le> max (dec_PreparedAt d + sch_MaxDelay (pol_Schedule p)) (dec_NotBefore d)"
    by (auto simp: expectedDeadline_def Let_def split: if_splits)
  show "activityScheduleTimeValid (dec_Deadline d)" by (rule t)
qed

section \<open>Properties\<close>

text \<open>
  C1. On every validated exponential schedule the back-off loop ends without a
  division by zero or an overflow, and the base delay of attempt \<open>n\<close> is
  \<open>InitialDelay * Multiplier ^ (n - 1)\<close> capped at \<open>MaxDelay\<close>.
\<close>

theorem backoff_is_capped_exponential:
  assumes "validateActivitySchedule s = None" and "sch_Kind s = ActivityRetryExponential"
    and "schedule_typed s" and "1 \<le> attempt"
  shows "activityRetryBaseDelay s attempt
      = min (sch_MaxDelay s) (sch_InitialDelay s * uint (sch_Multiplier s) ^ nat (attempt - 1))
    \<and> backoff_loop s 1 attempt (sch_InitialDelay s) = Some (activityRetryBaseDelay s attempt)"
proof -
  have "backoff_loop s 1 attempt (sch_InitialDelay s)
      = Some (min (sch_MaxDelay s) (sch_InitialDelay s * uint (sch_Multiplier s) ^ nat (attempt - 1)))"
    using assms schedule_bounds [OF assms(1)] exponential_bounds [OF assms(1,2)]
    by (intro backoff_loop_closed_form) (simp_all add: schedule_typed_def)
  with assms show ?thesis by (simp add: activityRetryBaseDelay_def)
qed

definition sampleSchedule :: ActivityRetrySchedule where
  "sampleSchedule = \<lparr>sch_Kind = ActivityRetryExponential, sch_InitialDelay = 100, sch_MaxDelay = 5000,
     sch_Multiplier = 3, sch_JitterPermille = 250, sch_HintLabel = ''h''\<rparr>"

definition samplePolicy :: ActivityRetryPolicy where
  "samplePolicy = \<lparr>pol_Label = ''p'', pol_MaxAttempts = 5, pol_Schedule = sampleSchedule,
     pol_SafeRetryContract = ''safe''\<rparr>"

lemma sampleSchedule_ok: "validateActivitySchedule sampleSchedule = None" "schedule_typed sampleSchedule"
  by (simp_all add: validateActivitySchedule_def sampleSchedule_def schedule_typed_def is_int64_def byte_def)

lemma samplePolicy_ok: "validateActivityRetry samplePolicy = None"
  using sampleSchedule_ok
  by (simp add: validateActivityRetry_def samplePolicy_def noRetry_def byte_def)

theorem backoff_is_capped_exponential_witness:
  "activityRetryBaseDelay sampleSchedule 3 = 900 \<and> activityRetryBaseDelay sampleSchedule 5 = 5000
   \<and> backoff_loop sampleSchedule 1 3 100 = Some 900"
  using backoff_is_capped_exponential [of sampleSchedule 3] backoff_is_capped_exponential [of sampleSchedule 5]
    sampleSchedule_ok
  by (simp add: sampleSchedule_def)

text \<open>
  The overflow-avoiding jitter width is exactly the permille share of the
  delay, rounded down, and lies between zero and the delay.
\<close>

theorem jitter_width_is_permille_share:
  assumes "0 \<le> delay" and "is_int64 delay" and "uint permille \<le> 1000"
  shows "activityRetryJitterWidth delay permille = delay * uint permille div 1000
    \<and> 0 \<le> activityRetryJitterWidth delay permille \<and> activityRetryJitterWidth delay permille \<le> delay"
  using jitter_width_exact [OF assms] jitter_width_bounds [OF assms] by simp

theorem jitter_width_is_permille_share_witness:
  "activityRetryJitterWidth (2 ^ 63 - 1) 250 = (2 ^ 63 - 1) * 250 div 1000"
  using jitter_width_is_permille_share [of "2 ^ 63 - 1" 250] by (simp add: is_int64_def)

text \<open>
  Every decision of the chooser that passes the policy and clock checks is
  accepted by the validator applied to the stored record, and an accepted
  deadline is never before the preparation time or the host's hint nor later
  than the maximal delay allows.
\<close>

theorem chosen_schedule_validates:
  assumes "schedule_typed (pol_Schedule p)"
    and "d = chooseActivityRetrySchedule p n at hint sample"
    and "dec_Rejection d \<notin> {''policy'', ''clock''}"
  shows "validActivityRetryScheduleDecision p (Some d)
    \<and> (dec_Rejection d = '''' \<longrightarrow> at \<le> dec_Deadline d \<and> hint \<le> dec_Deadline d
        \<and> dec_Deadline d \<le> max (at + sch_MaxDelay (pol_Schedule p)) hint)"
proof -
  have v: "validActivityRetryScheduleDecision p (Some d)"
    using choose_valid [OF assms(1)] assms(2,3) by simp
  then show ?thesis
    using accepted_deadline [OF assms(1) v] choose_fields [of p n at hint sample] assms(2) by auto
qed

theorem chosen_schedule_validates_witness:
  "validActivityRetryScheduleDecision samplePolicy
     (Some (chooseActivityRetrySchedule samplePolicy 2 1000 0 (Some 17)))
   \<and> dec_Deadline (chooseActivityRetrySchedule samplePolicy 2 1000 0 (Some 17)) = 1283"
proof -
  let ?d = "chooseActivityRetrySchedule samplePolicy 2 1000 0 (Some 17)"
  have b: "activityRetryBaseDelay sampleSchedule 2 = 300"
    using base_delay_closed_form [of sampleSchedule 2] sampleSchedule_ok by (simp add: sampleSchedule_def)
  have w: "activityRetryJitterWidth 300 250 = 75"
    using jitter_width_exact [of 300 250] by (simp add: is_int64_def)
  have s: "pol_Schedule samplePolicy = sampleSchedule" "pol_MaxAttempts samplePolicy = 5"
    "sch_JitterPermille sampleSchedule = 250"
    by (simp_all add: samplePolicy_def sampleSchedule_def)
  have d: "dec_Rejection ?d = '''' \<and> dec_Deadline ?d = 1283"
    by (simp add: choose_cases samplePolicy_ok s b w activityScheduleTimeValid_def year_10000_def
        scheduleDeadline_def jitterReduction_def wrap64_def)
  then show ?thesis
    using chosen_schedule_validates [of samplePolicy ?d 2 1000 0 "Some 17"] sampleSchedule_ok s by simp
qed

end
