(* ===== verification/Go_Json.thy ===== *)
theory Go_Json
  imports Flowy_Errors
begin

text \<open>
  The part of \<open>encoding/json\<close> behind the runtime's identities: the encoding of
  strings, unsigned integers and arrays of them, as \<open>json.Marshal\<close> writes them
  (HTML-safe escaping, invalid UTF-8 replaced by the replacement character).
  Every identity of the runtime is the SHA-256 hex digest of such an array. The
  scanner below reads the encoding back, so the encoding is injective on valid
  UTF-8 text; without \<open>validRuntimeText\<close> it is not.
\<close>

section \<open>Strings\<close>

abbreviation quote :: char where "quote \<equiv> CHR 0x22"
abbreviation bslash :: char where "bslash \<equiv> CHR 0x5C"

definition hexdigit :: "nat \<Rightarrow> char" where
  "hexdigit n = char_of (if n < 10 then 48 + n else 87 + n)"

definition hexval :: "char \<Rightarrow> nat" where
  "hexval c = (if byte c < 58 then byte c - 48 else byte c - 87)"

lemma byte_hexdigit: "n < 16 \<Longrightarrow> byte (hexdigit n) = (if n < 10 then 48 + n else 87 + n)"
  by (simp add: byte_def hexdigit_def)

lemma hexval_hexdigit [simp]: "n < 16 \<Longrightarrow> hexval (hexdigit n) = n"
  by (simp add: byte_hexdigit hexval_def)

definition json_ascii :: "char \<Rightarrow> string" where
  "json_ascii c =
    (if c = quote \<or> c = bslash then [bslash, c]
     else if byte c = 8 then [bslash, CHR ''b'']
     else if byte c = 12 then [bslash, CHR ''f'']
     else if byte c = 10 then [bslash, CHR ''n'']
     else if byte c = 13 then [bslash, CHR ''r'']
     else if byte c = 9 then [bslash, CHR ''t'']
     else if byte c < 32 \<or> c \<in> {CHR ''<'', CHR ''>'', CHR ''&''} then
       [bslash, CHR ''u'', CHR ''0'', CHR ''0'', hexdigit (byte c div 16), hexdigit (byte c mod 16)]
     else [c])"

text \<open>U+2028 and U+2029 in UTF-8, and the replacement escape.\<close>

definition line_sep :: string where "line_sep = [CHR 0xE2, CHR 0x80, CHR 0xA8]"
definition par_sep :: string where "par_sep = [CHR 0xE2, CHR 0x80, CHR 0xA9]"

function (sequential) json_body :: "string \<Rightarrow> string" where
  "json_body [] = []"
| "json_body (a # s) =
    (if byte a < 128 then json_ascii a @ json_body s
     else let n = rune_size (a # s) in
       if n = 0 then bslash # ''ufffd'' @ json_body s
       else if take n (a # s) = line_sep then bslash # ''u2028'' @ json_body (drop (n - 1) s)
       else if take n (a # s) = par_sep then bslash # ''u2029'' @ json_body (drop (n - 1) s)
       else take n (a # s) @ json_body (drop (n - 1) s))"
  by pat_completeness auto
termination
  by (relation "measure length") auto

definition json_string :: "string \<Rightarrow> string" where
  "json_string s = quote # json_body s @ [quote]"

section \<open>Reading a string back\<close>

definition unescape1 :: "char \<Rightarrow> char" where
  "unescape1 e = (if e = CHR ''b'' then char_of (8 :: nat) else if e = CHR ''f'' then char_of (12 :: nat)
     else if e = CHR ''n'' then char_of (10 :: nat) else if e = CHR ''r'' then char_of (13 :: nat)
     else if e = CHR ''t'' then char_of (9 :: nat) else e)"

definition unescape4 :: "string \<Rightarrow> string" where
  "unescape4 h = (if h = ''2028'' then line_sep else if h = ''2029'' then par_sep
     else [char_of (16 * hexval (h ! 2) + hexval (h ! 3))])"

fun json_scan :: "string \<Rightarrow> (string \<times> string) option" where
  "json_scan [] = None"
| "json_scan (c # s) =
    (if c = quote then Some ([], s)
     else if c = bslash then
       (case s of
          [] \<Rightarrow> None
        | e # r \<Rightarrow>
            if e = CHR ''u'' then
              (case r of
                 h1 # h2 # h3 # h4 # t \<Rightarrow> map_option (apfst (append (unescape4 [h1, h2, h3, h4]))) (json_scan t)
               | _ \<Rightarrow> None)
            else map_option (apfst (Cons (unescape1 e))) (json_scan r))
     else map_option (apfst (Cons c)) (json_scan s))"

lemma char_of_byte [simp]: "char_of (byte c) = c"
  by (simp add: byte_def)

lemma byte_eq_iff: "n < 256 \<Longrightarrow> byte c = n \<longleftrightarrow> c = char_of n"
  by (auto simp: byte_def)

lemma scan_ascii:
  assumes "byte a < 128"
  shows "json_scan (json_ascii a @ t) = map_option (apfst (Cons a)) (json_scan t)"
proof -
  have "char_of (16 * (byte a div 16) + byte a mod 16) = a" by simp
  moreover have "byte a div 16 < 16" using assms by linarith
  moreover have "[CHR ''0'', CHR ''0'', x, y] \<noteq> ''2028''" "[CHR ''0'', CHR ''0'', x, y] \<noteq> ''2029''" for x y
    by simp_all
  ultimately show ?thesis
    by (auto simp: json_ascii_def unescape1_def unescape4_def byte_eq_iff apfst_def map_prod_def)
qed

lemma scan_raw:
  assumes "\<forall>c \<in> set p. 128 \<le> byte c"
  shows "json_scan (p @ t) = map_option (apfst (append p)) (json_scan t)"
  using assms
proof (induction p)
  case Nil
  then show ?case by (simp add: apfst_def map_prod_def option.map_ident)
next
  case (Cons a p)
  then have "a \<noteq> quote" "a \<noteq> bslash" by (auto simp: byte_def)
  with Cons show ?case by (simp add: option.map_comp comp_def apfst_def map_prod_def split_def)
qed

lemma rune_bytes_high:
  assumes "128 \<le> byte a" and "c \<in> set (take (rune_size (a # s)) (a # s))"
  shows "128 \<le> byte c"
  using assms by (auto simp: in_range_def take_Cons' split: list.splits if_splits)

lemma scan_escape4 [simp]:
  "json_scan (bslash # CHR ''u'' # h1 # h2 # h3 # h4 # t)
    = map_option (apfst (append (unescape4 [h1, h2, h3, h4]))) (json_scan t)"
  by simp

lemma scan_json_body:
  "ValidString s \<Longrightarrow> json_scan (json_body s @ quote # t) = Some (s, t)"
proof (induction s rule: ValidString.induct)
  case 1
  then show ?case by simp
next
  case (2 a s)
  let ?n = "rune_size (a # s)"
  let ?rest = "drop (?n - 1) s"
  from 2(2) have n: "?n \<noteq> 0" and v: "ValidString ?rest" by (simp_all add: Let_def del: rune_size.simps)
  have IH: "json_scan (json_body ?rest @ quote # t) = Some (?rest, t)" using 2(1) [OF refl v] .
  have split: "take ?n (a # s) @ ?rest = a # s"
    using n by (cases ?n) (simp_all del: rune_size.simps)
  show ?case
  proof (cases "byte a < 128")
    case True
    then have "?rest = s" by simp
    with True IH show ?thesis by (simp add: scan_ascii apfst_def map_prod_def del: rune_size.simps)
  next
    case False
    have raw: "json_scan (take ?n (a # s) @ json_body ?rest @ quote # t) = Some (take ?n (a # s) @ ?rest, t)"
      using scan_raw [of "take ?n (a # s)" "json_body ?rest @ quote # t"] rune_bytes_high [of a _ s] False IH
      by (simp del: rune_size.simps)
    show ?thesis
      using False n raw IH split
      by (auto simp: Let_def unescape4_def simp del: rune_size.simps take_Suc_Cons json_scan.simps(2))
  qed
qed

lemma json_string_inject:
  assumes "ValidString s" and "ValidString s'" and "json_string s @ t = json_string s' @ t'"
  shows "s = s' \<and> t = t'"
proof -
  from assms(3) have "json_body s @ quote # t = json_body s' @ quote # t'"
    by (simp add: json_string_def)
  then show ?thesis using scan_json_body assms(1,2) by (metis option.inject prod.inject)
qed

section \<open>Unsigned integers and arrays\<close>

fun decimal :: "nat \<Rightarrow> string" where
  "decimal n = (if n < 10 then [hexdigit n] else decimal (n div 10) @ [hexdigit (n mod 10)])"

declare decimal.simps [simp del]

definition decimal_val :: "string \<Rightarrow> nat" where
  "decimal_val = foldl (\<lambda>v c. 10 * v + hexval c) 0"

definition isdigit :: "char \<Rightarrow> bool" where
  "isdigit c \<longleftrightarrow> 48 \<le> byte c \<and> byte c < 58"

lemma decimal_val_decimal [simp]: "decimal_val (decimal n) = n"
proof (induction n rule: decimal.induct)
  case (1 n)
  show ?case
  proof (cases "n < 10")
    case True
    then show ?thesis by (subst decimal.simps) (simp add: decimal_val_def)
  next
    case False
    have "decimal_val (decimal n) = 10 * decimal_val (decimal (n div 10)) + n mod 10"
      using False by (subst decimal.simps) (simp add: decimal_val_def)
    with 1 [OF False] show ?thesis by simp
  qed
qed

lemma decimal_digits: "c \<in> set (decimal n) \<Longrightarrow> isdigit c"
proof (induction n rule: decimal.induct)
  case (1 n)
  have d: "isdigit (hexdigit m)" if "m < 10" for m using that by (simp add: isdigit_def byte_hexdigit)
  from 1 show ?case by (cases "n < 10") (auto simp: decimal.simps [of n] d)
qed

lemma decimal_nonempty: "decimal n \<noteq> []"
  by (subst decimal.simps) simp

lemma decimal_prefix:
  assumes "decimal n @ t = decimal m @ u" and "\<not> isdigit (hd t)" "\<not> isdigit (hd u)" "t \<noteq> []" "u \<noteq> []"
  shows "n = m \<and> t = u"
proof -
  have tw: "takeWhile isdigit (decimal k @ v) = decimal k" if "\<not> isdigit (hd v)" "v \<noteq> []" for k v
    using that decimal_digits [of _ k] by (cases v) (auto simp: takeWhile_append2)
  from assms have "decimal n = decimal m" using tw by metis
  with assms(1) show ?thesis using decimal_val_decimal by (metis same_append_eq)
qed

text \<open>
  Base64 of a byte slice, standard alphabet with padding.
\<close>

definition base64_digit :: "nat \<Rightarrow> char" where
  "base64_digit n = char_of (if n < 26 then 65 + n else if n < 52 then 71 + n else if n < 62 then n - 4
     else if n = 62 then 43 else 47)"

fun base64 :: "string \<Rightarrow> string" where
  "base64 [] = []"
| "base64 [a] = [base64_digit (byte a div 4), base64_digit (byte a mod 4 * 16), CHR ''='', CHR ''='']"
| "base64 [a, b] = [base64_digit (byte a div 4), base64_digit (byte a mod 4 * 16 + byte b div 16),
     base64_digit (byte b mod 16 * 4), CHR ''='']"
| "base64 (a # b # c # s) = base64_digit (byte a div 4) # base64_digit (byte a mod 4 * 16 + byte b div 16)
     # base64_digit (byte b mod 16 * 4 + byte c div 64) # base64_digit (byte c mod 64) # base64 s"

text \<open>
  An element of an \<open>[]any\<close> identity: a string, an unsigned integer, or a byte
  slice that is nil when it is empty. The injectivity below is for strings and
  integers.
\<close>

datatype jsonval = JStr string | JNum uint64 | JBytes string

fun json_item :: "jsonval \<Rightarrow> string" where
  "json_item (JStr s) = json_string s"
| "json_item (JNum w) = decimal (unat w)"
| "json_item (JBytes b) = (if b = [] then ''null'' else quote # base64 b @ [quote])"

fun item_valid :: "jsonval \<Rightarrow> bool" where
  "item_valid (JStr s) = ValidString s"
| "item_valid (JNum w) = True"
| "item_valid (JBytes b) = False"

fun json_items :: "jsonval list \<Rightarrow> string" where
  "json_items [] = '']''"
| "json_items [x] = json_item x @ '']''"
| "json_items (x # xs) = json_item x @ '','' @ json_items xs"

definition json_array :: "jsonval list \<Rightarrow> string" where
  "json_array xs = CHR ''['' # json_items xs"

lemma item_first:
  "item_valid x \<Longrightarrow>
    \<exists>c s. json_item x = c # s \<and> (c = quote \<longleftrightarrow> (\<exists>v. x = JStr v)) \<and> (isdigit c \<longleftrightarrow> (\<exists>w. x = JNum w))"
proof (cases x)
  case (JStr s)
  then show ?thesis by (simp add: json_string_def isdigit_def byte_def)
next
  case (JNum w)
  then show ?thesis using decimal_nonempty [of "unat w"] decimal_digits [of "hd (decimal (unat w))" "unat w"]
    by (cases "decimal (unat w)") (auto simp: isdigit_def byte_def)
next
  case (JBytes b)
  assume "item_valid x"
  with JBytes show ?thesis by simp
qed

lemma item_prefix:
  assumes "json_item x @ c # t = json_item y @ d # u" and "item_valid x" "item_valid y"
    and "c \<in> {CHR '','', CHR '']''}" "d \<in> {CHR '','', CHR '']''}"
  shows "x = y \<and> c # t = d # u"
proof -
  have nd: "\<not> isdigit (hd (c # t))" "\<not> isdigit (hd (d # u))" using assms(4,5) by (auto simp: isdigit_def byte_def)
  from item_first [OF assms(2)] item_first [OF assms(3)] assms(1)
  have same: "(\<exists>v. x = JStr v) \<longleftrightarrow> (\<exists>v. y = JStr v)" by auto
  show ?thesis
  proof (cases x)
    case (JStr s)
    with same obtain s' where "y = JStr s'" by auto
    with JStr assms json_string_inject [of s s' "c # t" "d # u"] show ?thesis by simp
  next
    case (JNum v)
    with same assms(3) obtain w where "y = JNum w" by (cases y) auto
    with JNum assms(1) decimal_prefix [of "unat v" "c # t" "unat w" "d # u", OF _ nd] show ?thesis
      by (simp add: word_unat_eq_iff)
  next
    case (JBytes b)
    with assms(2) show ?thesis by simp
  qed
qed

lemma json_items_Cons:
  "\<exists>c t. json_items (x # xs) = json_item x @ c # t \<and> c \<in> {CHR '','', CHR '']''}
     \<and> (xs = [] \<longleftrightarrow> c = CHR '']'') \<and> (if xs = [] then t = [] else t = json_items xs)"
  by (cases xs) auto

lemma json_items_nonempty: "item_valid x \<Longrightarrow> json_items (x # xs) \<noteq> '']''"
proof -
  assume v: "item_valid x"
  have "hd (json_item x) \<noteq> CHR '']''" "json_item x \<noteq> []"
    using item_first [OF v] v by (cases x; auto simp: isdigit_def byte_def)+
  then show ?thesis using json_items_Cons [of x xs] by (cases "json_item x") auto
qed

lemma json_items_inject:
  "list_all item_valid xs \<Longrightarrow> list_all item_valid ys \<Longrightarrow> json_items xs = json_items ys \<Longrightarrow> xs = ys"
proof (induction xs arbitrary: ys)
  case Nil
  show ?case
  proof (cases ys)
    case (Cons y ys')
    with Nil(2,3) json_items_nonempty [of y ys'] show ?thesis by simp
  qed simp
next
  case (Cons x xs)
  note prems = Cons.prems
  show ?case
  proof (cases ys)
    case Nil
    with prems(1,3) json_items_nonempty [of x xs] show ?thesis by simp
  next
    case (Cons y ys')
    obtain c t where x: "json_items (x # xs) = json_item x @ c # t" "c \<in> {CHR '','', CHR '']''}"
        "xs = [] \<longleftrightarrow> c = CHR '']''" "if xs = [] then t = [] else t = json_items xs"
      using json_items_Cons [of x xs] by (elim exE conjE) (rule that; assumption)
    obtain d u where y: "json_items (y # ys') = json_item y @ d # u" "d \<in> {CHR '','', CHR '']''}"
        "ys' = [] \<longleftrightarrow> d = CHR '']''" "if ys' = [] then u = [] else u = json_items ys'"
      using json_items_Cons [of y ys'] by (elim exE conjE) (rule that; assumption)
    from prems(3) x(1) y(1) Cons have "json_item x @ c # t = json_item y @ d # u" by simp
    from item_prefix [OF this _ _ x(2) y(2)] prems(1,2) Cons have eq: "x = y" "c = d" "t = u" by simp_all
    show ?thesis
    proof (cases "xs = []")
      case True
      with eq x y Cons show ?thesis by simp
    next
      case False
      with eq x y have "ys' \<noteq> []" "json_items xs = json_items ys'" by auto
      with Cons.IH [of ys'] prems(1,2) Cons eq show ?thesis by simp
    qed
  qed
qed

lemma json_array_inject:
  "list_all item_valid xs \<Longrightarrow> list_all item_valid ys \<Longrightarrow> json_array xs = json_array ys \<longleftrightarrow> xs = ys"
  using json_items_inject by (auto simp: json_array_def)

text \<open>Without the text check two different strings share one encoding.\<close>

lemma json_string_aliases: "json_string [CHR 0xFF] = json_string [CHR 0xFE]"
  by (simp add: json_string_def byte_def in_range_def)

end
