(* ===== verification/Activity_Record.thy ===== *)
theory Activity_Record
  imports Retry_Schedule Go_Json
begin

text \<open>
  One activity of the journal: the persisted dispatch state machine of
  activity.go, its integrity validators (activity\_integrity.go,
  activity\_attempt\_integrity.go, activity\_schedule\_integrity.go,
  activity\_resolution\_integrity.go) and the transitions a worker or an operator
  applies to a record (activity.go, activity\_retry.go, activity\_resolution.go).
  SHA-256 in hexadecimal is the parameter \<open>sha\<close>.
\<close>

section \<open>Digests\<close>

type_synonym sha256 = "string \<Rightarrow> string"

definition fromHexChar :: "char \<Rightarrow> nat option" where
  "fromHexChar c = (if in_range 48 57 c then Some (byte c - 48)
     else if in_range 97 102 c then Some (byte c - 87)
     else if in_range 65 70 c then Some (byte c - 55) else None)"

fun hexDecodeString :: "string \<Rightarrow> nat list option" where
  "hexDecodeString [] = Some []"
| "hexDecodeString [c] = None"
| "hexDecodeString (a # b # s) =
    (case (fromHexChar a, fromHexChar b) of
       (Some x, Some y) \<Rightarrow> map_option (Cons (16 * x + y)) (hexDecodeString s)
     | _ \<Rightarrow> None)"

definition hexEncodeToString :: "nat list \<Rightarrow> string" where
  "hexEncodeToString bs = concat (map (\<lambda>b. [hexdigit (b div 16), hexdigit (b mod 16)]) bs)"

definition validActivityDigest :: "string \<Rightarrow> bool" where
  "validActivityDigest value =
    (case hexDecodeString value of
       None \<Rightarrow> False
     | Some decoded \<Rightarrow> length decoded = 32 \<and> hexEncodeToString decoded = value)"

section \<open>Data\<close>

datatype ActivityOrigin = ActivityLive | ActivityReplayed | ActivityReconciled | ActivityManual
  | ActivitySimulated | ActivityOriginOther string

abbreviation NoOrigin :: ActivityOrigin where "NoOrigin \<equiv> ActivityOriginOther ''''"

datatype ActivityState = ActivityPrepared | ActivityRunning | ActivityCompleted | ActivityFailed
  | ActivityUnknown | ActivityStateOther string

datatype ActivityFailureClass = ActivityRetryable | ActivityNonRetryable | ActivityAmbiguous
  | ActivityClassOther string

abbreviation NoClass :: ActivityFailureClass where "NoClass \<equiv> ActivityClassOther ''''"

datatype ActivityResolutionAction = ActivityResolveComplete | ActivityResolveFail | ActivityResolveRetry
  | ActivityResolutionActionOther string

record ActivityAttempt =
  att_Number :: int
  att_Incarnation :: uint64
  att_State :: ActivityState
  att_Error :: string
  att_Classification :: ActivityFailureClass
  att_StartedAt :: gotime
  att_RetrySchedule :: "ActivityRetryScheduleDecision option"
  att_FinishedAt :: gotime

record ActivityResolutionRecord =
  res_DecisionID :: string
  res_Attempt :: int
  res_Action :: ActivityResolutionAction
  res_PriorState :: ActivityState
  res_SourceRevision :: uint64
  res_Incarnation :: uint64
  res_Reason :: string
  res_Evidence :: string
  res_SafeRetryContract :: string
  res_RetrySchedule :: "ActivityRetryScheduleDecision option"
  res_At :: gotime

record ActivityRecord =
  rec_Identity :: string
  rec_ExecutionID :: string
  rec_Node :: string
  rec_Activation :: uint64
  rec_Key :: string
  rec_InputDigest :: string
  rec_Implementation :: string
  rec_State :: ActivityState
  rec_Outcome :: string
  rec_Origin :: ActivityOrigin
  rec_Attempts :: "ActivityAttempt list"
  rec_Retry :: ActivityRetryPolicy
  rec_Classification :: ActivityFailureClass
  rec_NextAttemptAt :: gotime
  rec_Resolutions :: "ActivityResolutionRecord list"

text \<open>An operator's decision and a host's classification of a returned error.\<close>

record ActivityResolution =
  rsn_Identity :: string
  rsn_InputDigest :: string
  rsn_Implementation :: string
  rsn_DecisionID :: string
  rsn_Action :: ActivityResolutionAction
  rsn_Reason :: string
  rsn_Evidence :: string
  rsn_Outcome :: string
  rsn_SafeRetryContract :: string
  rsn_NotBefore :: gotime

record ActivityFailureDecision =
  fd_Class :: ActivityFailureClass
  fd_NotBefore :: gotime

abbreviation last_attempt :: "ActivityRecord \<Rightarrow> ActivityAttempt" where
  "last_attempt r \<equiv> last (rec_Attempts r)"

abbreviation attempts_len :: "ActivityRecord \<Rightarrow> int" where
  "attempts_len r \<equiv> int (length (rec_Attempts r))"

section \<open>Identity\<close>

definition activityAddressIdentity :: "sha256 \<Rightarrow> string \<Rightarrow> string \<Rightarrow> uint64 \<Rightarrow> string \<Rightarrow> string" where
  "activityAddressIdentity sha execution node activation key
    = sha (json_array [JStr execution, JStr node, JNum activation, JStr key])"

definition validActivityAddress :: "sha256 \<Rightarrow> ActivityRecord \<Rightarrow> bool" where
  "validActivityAddress sha r \<longleftrightarrow>
    rec_ExecutionID r \<noteq> '''' \<and> rec_Node r \<noteq> '''' \<and> rec_Activation r \<noteq> 0
    \<and> validRuntimeText [rec_ExecutionID r, rec_Node r, rec_Key r]
    \<and> rec_Identity r = activityAddressIdentity sha (rec_ExecutionID r) (rec_Node r) (rec_Activation r) (rec_Key r)"

section \<open>Validators of the parts of a record\<close>

definition validateActivityAttempt :: "ActivityAttempt \<Rightarrow> err option" where
  "validateActivityAttempt a =
    (case att_State a of
       ActivityRunning \<Rightarrow> reject (\<not> (att_Classification a = NoClass \<and> IsZero (att_FinishedAt a) \<and> att_Error a = '''')) ErrExecutionCorrupt
     | ActivityCompleted \<Rightarrow> reject (\<not> (att_Classification a = NoClass \<and> \<not> IsZero (att_FinishedAt a) \<and> att_Error a = '''')) ErrExecutionCorrupt
     | ActivityFailed \<Rightarrow> reject (\<not> ((att_Classification a = ActivityRetryable \<or> att_Classification a = ActivityNonRetryable)
           \<and> \<not> IsZero (att_FinishedAt a))) ErrExecutionCorrupt
     | ActivityUnknown \<Rightarrow> reject (att_Classification a \<noteq> ActivityAmbiguous) ErrExecutionCorrupt
     | _ \<Rightarrow> Some (Sent ErrExecutionCorrupt))"

definition hasActivityRetryDecision :: "ActivityRecord \<Rightarrow> int \<Rightarrow> bool" where
  "hasActivityRetryDecision r attempt \<longleftrightarrow>
    list_ex (\<lambda>d. res_Attempt d = attempt \<and> res_Action d = ActivityResolveRetry) (rec_Resolutions r)"

definition validateActivityAttemptHistory :: "ActivityRecord \<Rightarrow> err option" where
  "validateActivityAttemptHistory r =
    firstErr (\<lambda>a.
      if pol_SafeRetryContract (rec_Retry r) = '''' then Some (Sent ErrExecutionCorrupt)
      else case att_State a of
        ActivityFailed \<Rightarrow> reject (att_Classification a \<noteq> ActivityRetryable) ErrExecutionCorrupt
      | ActivityUnknown \<Rightarrow> reject (\<not> hasActivityRetryDecision r (att_Number a)) ErrExecutionCorrupt
      | _ \<Rightarrow> Some (Sent ErrExecutionCorrupt)) (butlast (rec_Attempts r))"

definition attempt_schedule ::
    "ActivityRetryPolicy \<Rightarrow> ActivityAttempt \<Rightarrow> ActivityAttempt list \<Rightarrow> err option" where
  "attempt_schedule policy a rest =
    (case att_RetrySchedule a of
       None \<Rightarrow> reject (att_State a = ActivityFailed \<and> att_Classification a = ActivityRetryable
                 \<and> att_Number a < pol_MaxAttempts policy) ErrExecutionCorrupt
     | Some choice \<Rightarrow>
         if att_State a \<noteq> ActivityFailed \<or> att_Classification a \<noteq> ActivityRetryable
            \<or> dec_Attempt choice \<noteq> att_Number a \<or> dec_PreparedAt choice \<noteq> att_FinishedAt a
            \<or> \<not> validActivityRetryScheduleDecision policy (Some choice) then Some (Sent ErrExecutionCorrupt)
         else (case rest of
           [] \<Rightarrow> None
         | next # _ \<Rightarrow> reject (dec_Rejection choice \<noteq> '''' \<or> att_StartedAt next < dec_Deadline choice) ErrExecutionCorrupt))"

fun attempt_schedules :: "ActivityRetryPolicy \<Rightarrow> ActivityAttempt list \<Rightarrow> err option" where
  "attempt_schedules policy [] = None"
| "attempt_schedules policy (a # rest) = orElse (attempt_schedule policy a rest) (attempt_schedules policy rest)"

definition validateActivityRecordSchedules :: "ActivityRecord \<Rightarrow> err option" where
  "validateActivityRecordSchedules r = attempt_schedules (rec_Retry r) (rec_Attempts r)"

definition validActivityDecisionAction :: "ActivityResolutionRecord \<Rightarrow> ActivityRetryPolicy \<Rightarrow> bool" where
  "validActivityDecisionAction d policy =
    (case res_Action d of
       ActivityResolveComplete \<Rightarrow> res_SafeRetryContract d = '''' \<and> res_RetrySchedule d = None
     | ActivityResolveFail \<Rightarrow> res_SafeRetryContract d = '''' \<and> res_RetrySchedule d = None
     | ActivityResolveRetry \<Rightarrow>
         res_SafeRetryContract d \<noteq> '''' \<and> res_SafeRetryContract d = pol_SafeRetryContract policy
         \<and> res_Attempt d < pol_MaxAttempts policy
         \<and> (case res_RetrySchedule d of
              None \<Rightarrow> False
            | Some s \<Rightarrow> validActivityRetryScheduleDecision policy (Some s) \<and> dec_Rejection s = ''''
                \<and> dec_Attempt s = res_Attempt d \<and> dec_PreparedAt s = res_At d)
     | _ \<Rightarrow> False)"

definition validManualActivityOrigin :: "ActivityRecord \<Rightarrow> bool" where
  "validManualActivityOrigin r =
    (if rec_Resolutions r = [] then False
     else let d = last (rec_Resolutions r); n = attempts_len r in
       case rec_State r of
         ActivityCompleted \<Rightarrow> res_Action d = ActivityResolveComplete \<and> res_Attempt d = n
       | ActivityFailed \<Rightarrow> res_Action d = ActivityResolveFail \<and> res_Attempt d = n
       | ActivityPrepared \<Rightarrow> res_Action d = ActivityResolveRetry \<and> res_Attempt d = n
       | ActivityRunning \<Rightarrow> res_Action d = ActivityResolveRetry \<and> res_Attempt d < n
       | ActivityUnknown \<Rightarrow> res_Action d = ActivityResolveRetry \<and> res_Attempt d < n
       | _ \<Rightarrow> False)"

text \<open>
  The loop over the decisions with its \<open>seen\<close>, \<open>previousAttempt\<close> and
  \<open>previousRevision\<close>. The schedule of a retry decision is not nil once
  \<open>validActivityDecisionAction\<close> holds.
\<close>

fun decisions_loop ::
    "ActivityRecord \<Rightarrow> string set \<Rightarrow> int \<Rightarrow> uint64 \<Rightarrow> ActivityResolutionRecord list \<Rightarrow> err option" where
  "decisions_loop r seen prevAttempt prevRevision [] = None"
| "decisions_loop r seen prevAttempt prevRevision (d # ds) =
    (if res_DecisionID d \<in> seen \<or> res_DecisionID d = '''' \<or> res_Reason d = '''' \<or> res_Evidence d = ''''
        \<or> IsZero (res_At d) \<or> res_Incarnation d = 0 \<or> res_SourceRevision d \<le> prevRevision
        \<or> res_Attempt d \<le> prevAttempt \<or> res_Attempt d > attempts_len r
        \<or> (res_PriorState d \<noteq> ActivityUnknown \<and> res_PriorState d \<noteq> ActivityRunning)
     then Some (Sent ErrExecutionCorrupt)
     else if att_State (rec_Attempts r ! nat (res_Attempt d - 1)) \<noteq> ActivityUnknown
        \<or> \<not> validActivityDecisionAction d (rec_Retry r)
     then Some (Sent ErrExecutionCorrupt)
     else if res_Action d = ActivityResolveRetry \<and> res_Attempt d < attempts_len r
        \<and> (case res_RetrySchedule d of
             None \<Rightarrow> False
           | Some s \<Rightarrow> att_StartedAt (rec_Attempts r ! nat (res_Attempt d)) < dec_Deadline s)
     then Some (Sent ErrExecutionCorrupt)
     else if res_Action d \<noteq> ActivityResolveRetry \<and> res_Attempt d \<noteq> attempts_len r
     then Some (Sent ErrExecutionCorrupt)
     else decisions_loop r (insert (res_DecisionID d) seen) (res_Attempt d) (res_SourceRevision d) ds)"

definition validateActivityDecisions :: "ActivityRecord \<Rightarrow> err option" where
  "validateActivityDecisions r =
    orElse (decisions_loop r {} 0 0 (rec_Resolutions r))
      (reject (rec_Origin r = ActivityManual \<and> \<not> validManualActivityOrigin r) ErrExecutionCorrupt)"

definition validPreparedActivitySchedule :: "ActivityRecord \<Rightarrow> ActivityAttempt \<Rightarrow> bool" where
  "validPreparedActivitySchedule r lst =
    (if rec_Origin r = ActivityManual \<and> rec_Resolutions r = [] then False
     else let choice = (if rec_Origin r = ActivityManual then res_RetrySchedule (last (rec_Resolutions r))
                        else att_RetrySchedule lst) in
       case choice of
         None \<Rightarrow> False
       | Some s \<Rightarrow> dec_Rejection s = '''' \<and> dec_Deadline s = rec_NextAttemptAt r)"

definition validPreparedActivity :: "ActivityRecord \<Rightarrow> ActivityAttempt \<Rightarrow> bool" where
  "validPreparedActivity r lst \<longleftrightarrow>
    rec_Classification r = ActivityRetryable \<and> \<not> IsZero (rec_NextAttemptAt r)
    \<and> pol_SafeRetryContract (rec_Retry r) \<noteq> '''' \<and> attempts_len r < pol_MaxAttempts (rec_Retry r)
    \<and> (att_State lst = ActivityFailed \<or> (rec_Origin r = ActivityManual \<and> att_State lst = ActivityUnknown))
    \<and> rec_Outcome r = '''' \<and> validPreparedActivitySchedule r lst"

definition validCompletedActivity :: "ActivityRecord \<Rightarrow> ActivityAttempt \<Rightarrow> bool" where
  "validCompletedActivity r lst \<longleftrightarrow>
    IsZero (rec_NextAttemptAt r)
    \<and> (((rec_Origin r = ActivityLive \<or> rec_Origin r = ActivitySimulated) \<and> att_State lst = ActivityCompleted)
      \<or> ((rec_Origin r = ActivityReconciled \<or> rec_Origin r = ActivityManual) \<and> att_State lst = ActivityUnknown))"

definition validFailedActivity :: "ActivityRecord \<Rightarrow> ActivityAttempt \<Rightarrow> bool" where
  "validFailedActivity r lst \<longleftrightarrow>
    IsZero (rec_NextAttemptAt r) \<and> rec_Outcome r = ''''
    \<and> (rec_Classification r = ActivityNonRetryable \<or> rec_Classification r = ActivityRetryable)
    \<and> (att_State lst = ActivityFailed \<or> (rec_Origin r = ActivityManual \<and> att_State lst = ActivityUnknown))"

definition validateActivityRecordState :: "ActivityRecord \<Rightarrow> err option" where
  "validateActivityRecordState r =
    (if rec_State r = ActivityPrepared \<and> rec_Attempts r = [] then
       reject (\<not> (rec_Classification r = NoClass \<and> IsZero (rec_NextAttemptAt r) \<and> rec_Origin r = NoOrigin
         \<and> rec_Outcome r = '''')) ErrExecutionCorrupt
     else if rec_Attempts r = [] then Some (Sent ErrExecutionCorrupt)
     else let lst = last_attempt r;
       valid = (case rec_State r of
           ActivityPrepared \<Rightarrow> validPreparedActivity r lst
         | ActivityRunning \<Rightarrow> att_State lst = ActivityRunning \<and> rec_Classification r = NoClass
             \<and> IsZero (rec_NextAttemptAt r) \<and> rec_Outcome r = ''''
         | ActivityUnknown \<Rightarrow> att_State lst = ActivityUnknown \<and> rec_Classification r = ActivityAmbiguous
             \<and> IsZero (rec_NextAttemptAt r) \<and> rec_Outcome r = ''''
         | ActivityCompleted \<Rightarrow> validCompletedActivity r lst
         | ActivityFailed \<Rightarrow> validFailedActivity r lst
         | _ \<Rightarrow> False)
       in reject (\<not> valid) ErrExecutionCorrupt)"

section \<open>The validator of a record\<close>

fun attempts_loop :: "int \<Rightarrow> ActivityAttempt list \<Rightarrow> err option" where
  "attempts_loop number [] = None"
| "attempts_loop number (a # rest) =
    (if att_Number a \<noteq> number \<or> att_Incarnation a = 0 \<or> IsZero (att_StartedAt a)
        \<or> validateActivityAttempt a \<noteq> None \<or> (att_State a = ActivityRunning \<and> rest \<noteq> [])
     then Some (Sent ErrExecutionCorrupt)
     else attempts_loop (number + 1) rest)"

definition attemptLimit :: "ActivityRetryPolicy \<Rightarrow> int" where
  "attemptLimit policy = (if pol_MaxAttempts policy = 0 then 1 else pol_MaxAttempts policy)"

definition validateActivityRecord :: "sha256 \<Rightarrow> ActivityRecord \<Rightarrow> err option" where
  "validateActivityRecord sha r =
    (if \<not> validActivityAddress sha r \<or> \<not> validActivityDigest (rec_InputDigest r) \<or> rec_Key r = ''''
        \<or> rec_Implementation r = '''' \<or> \<not> validRuntimeText [rec_Implementation r]
        \<or> validateActivityRetry (rec_Retry r) \<noteq> None
     then Some (Sent ErrExecutionCorrupt)
     else orElse (attempts_loop 1 (rec_Attempts r))
       (if attempts_len r > attemptLimit (rec_Retry r) then Some (Sent ErrExecutionCorrupt)
        else orElse (validateActivityDecisions r)
          (orElse (validateActivityRecordSchedules r)
            (orElse (validateActivityAttemptHistory r) (validateActivityRecordState r)))))"

section \<open>Transitions\<close>

text \<open>The record \<open>callActivity\<close> prepares before the first dispatch.\<close>

definition newActivityRecord ::
    "string \<Rightarrow> string \<Rightarrow> string \<Rightarrow> uint64 \<Rightarrow> string \<Rightarrow> string \<Rightarrow> string \<Rightarrow> ActivityRetryPolicy \<Rightarrow> ActivityRecord" where
  "newActivityRecord identity execution node activation key inputDigest impl retry =
    \<lparr>rec_Identity = identity, rec_ExecutionID = execution, rec_Node = node, rec_Activation = activation,
     rec_Key = key, rec_InputDigest = inputDigest, rec_Implementation = impl, rec_State = ActivityPrepared,
     rec_Outcome = '''', rec_Origin = NoOrigin, rec_Attempts = [], rec_Retry = retry,
     rec_Classification = NoClass, rec_NextAttemptAt = 0, rec_Resolutions = []\<rparr>"

text \<open>The dispatch intent of the next attempt.\<close>

definition startActivityAttempt :: "uint64 \<Rightarrow> gotime \<Rightarrow> ActivityRecord \<Rightarrow> ActivityRecord" where
  "startActivityAttempt incarnation now r =
    r\<lparr>rec_State := ActivityRunning, rec_Origin := NoOrigin, rec_NextAttemptAt := 0, rec_Classification := NoClass,
      rec_Attempts := rec_Attempts r @
        [\<lparr>att_Number = attempts_len r + 1, att_Incarnation = incarnation, att_State = ActivityRunning,
          att_Error = '''', att_Classification = NoClass, att_StartedAt = now, att_RetrySchedule = None,
          att_FinishedAt = 0\<rparr>]\<rparr>"

definition map_last :: "('a \<Rightarrow> 'a) \<Rightarrow> 'a list \<Rightarrow> 'a list" where
  "map_last f xs = (if xs = [] then [] else butlast xs @ [f (last xs)])"

definition markUnknownAttempt :: "ActivityAttempt \<Rightarrow> ActivityAttempt" where
  "markUnknownAttempt a = a\<lparr>att_State := ActivityUnknown, att_Classification := ActivityAmbiguous\<rparr>"

text \<open>The orphaned running record of \<open>recoverActivityLocked\<close>.\<close>

definition markActivityUnknown :: "ActivityRecord \<Rightarrow> ActivityRecord" where
  "markActivityUnknown r = r\<lparr>rec_State := ActivityUnknown, rec_Classification := ActivityAmbiguous,
     rec_Attempts := map_last markUnknownAttempt (rec_Attempts r)\<rparr>"

definition recordActivityFailure ::
    "gotime \<Rightarrow> uint64 option \<Rightarrow> string \<Rightarrow> ActivityFailureDecision \<Rightarrow> ActivityRecord \<Rightarrow> ActivityRecord" where
  "recordActivityFailure now sample message decision r =
    (let c = fd_Class decision; n = attempts_len r;
         r0 = r\<lparr>rec_Classification := c, rec_NextAttemptAt := 0\<rparr>;
         lst = (last_attempt r)\<lparr>att_Classification := c, att_Error := message, att_FinishedAt := now\<rparr>;
         finish = (\<lambda>a st next. r0\<lparr>rec_State := st, rec_NextAttemptAt := next,
           rec_Attempts := butlast (rec_Attempts r) @ [a]\<rparr>)
     in case c of
       ActivityRetryable \<Rightarrow>
         let failed = lst\<lparr>att_State := ActivityFailed\<rparr> in
         if n < pol_MaxAttempts (rec_Retry r) then
           let chosen = chooseActivityRetrySchedule (rec_Retry r) n now (fd_NotBefore decision) sample;
               a = failed\<lparr>att_RetrySchedule := Some chosen\<rparr> in
           if dec_Rejection chosen = '''' then finish a ActivityPrepared (dec_Deadline chosen)
           else finish a ActivityFailed 0
         else finish failed ActivityFailed 0
     | ActivityNonRetryable \<Rightarrow> finish (lst\<lparr>att_State := ActivityFailed\<rparr>) ActivityFailed 0
     | _ \<Rightarrow> finish (lst\<lparr>att_State := ActivityUnknown\<rparr>) ActivityUnknown 0)"

definition completeActivity :: "gotime \<Rightarrow> string \<Rightarrow> ActivityOrigin \<Rightarrow> ActivityRecord \<Rightarrow> ActivityRecord" where
  "completeActivity now payload origin r =
    (let r1 = r\<lparr>rec_State := ActivityCompleted, rec_Outcome := payload, rec_Origin := origin\<rparr> in
     if origin \<noteq> ActivityReconciled \<and> origin \<noteq> ActivityManual
     then r1\<lparr>rec_Attempts := map_last (\<lambda>a. a\<lparr>att_State := ActivityCompleted, att_FinishedAt := now\<rparr>) (rec_Attempts r)\<rparr>
     else r1)"

text \<open>\<open>applyActivityResolution\<close> returns the updated record and the chosen schedule.\<close>

definition applyActivityResolution ::
    "ActivityRecord \<Rightarrow> ActivityResolution \<Rightarrow> gotime \<Rightarrow> uint64 option
     \<Rightarrow> (ActivityRecord \<times> ActivityRetryScheduleDecision option) res" where
  "applyActivityResolution r0 rsn now sample =
    (let r = r0\<lparr>rec_Classification := NoClass, rec_NextAttemptAt := 0\<rparr>;
         n = attempts_len r in
     case rsn_Action rsn of
       ActivityResolveComplete \<Rightarrow>
         if rsn_SafeRetryContract rsn \<noteq> '''' \<or> \<not> IsZero (rsn_NotBefore rsn) then Err ErrActivityConflict
         else Ok (r\<lparr>rec_State := ActivityCompleted, rec_Origin := ActivityManual, rec_Outcome := rsn_Outcome rsn\<rparr>, None)
     | ActivityResolveFail \<Rightarrow>
         if rsn_Outcome rsn \<noteq> '''' \<or> rsn_SafeRetryContract rsn \<noteq> '''' \<or> \<not> IsZero (rsn_NotBefore rsn)
         then Err ErrActivityConflict
         else Ok (r\<lparr>rec_State := ActivityFailed, rec_Origin := ActivityManual,
                  rec_Classification := ActivityNonRetryable\<rparr>, None)
     | ActivityResolveRetry \<Rightarrow>
         if rsn_Outcome rsn \<noteq> '''' \<or> validateActivityRetry (rec_Retry r) \<noteq> None
            \<or> pol_SafeRetryContract (rec_Retry r) = ''''
            \<or> rsn_SafeRetryContract rsn \<noteq> pol_SafeRetryContract (rec_Retry r)
            \<or> n \<ge> pol_MaxAttempts (rec_Retry r) then Err ErrActivityConflict
         else let schedule = chooseActivityRetrySchedule (rec_Retry r) n now (rsn_NotBefore rsn) sample in
           if dec_Rejection schedule \<noteq> '''' then Err ErrActivityScheduleInvalid
           else Ok (r\<lparr>rec_State := ActivityPrepared, rec_Origin := ActivityManual,
                    rec_Classification := ActivityRetryable, rec_NextAttemptAt := dec_Deadline schedule\<rparr>, Some schedule)
     | _ \<Rightarrow> Err ErrActivityConflict)"

text \<open>The record part of \<open>prepareActivityResolutionTarget\<close>.\<close>

definition resolveActivityRecord ::
    "uint64 \<Rightarrow> uint64 \<Rightarrow> gotime \<Rightarrow> uint64 option \<Rightarrow> ActivityResolution \<Rightarrow> ActivityRecord \<Rightarrow> ActivityRecord res" where
  "resolveActivityRecord sourceRevision incarnation now sample rsn r =
    (let prior = rec_State r;
         r1 = (if rec_State r = ActivityRunning
               then r\<lparr>rec_Attempts := map_last markUnknownAttempt (rec_Attempts r)\<rparr> else r) in
     res_bind (applyActivityResolution r1 rsn now sample) (\<lambda>(r2, chosen).
       Ok (r2\<lparr>rec_Resolutions := rec_Resolutions r2 @
         [\<lparr>res_DecisionID = rsn_DecisionID rsn, res_Attempt = attempts_len r2, res_Action = rsn_Action rsn,
           res_PriorState = prior, res_SourceRevision = sourceRevision, res_Incarnation = incarnation,
           res_Reason = rsn_Reason rsn, res_Evidence = rsn_Evidence rsn,
           res_SafeRetryContract = rsn_SafeRetryContract rsn, res_RetrySchedule = chosen, res_At = now\<rparr>]\<rparr>)))"

section \<open>Errors a record reports\<close>

definition activityRecordError :: "ActivityRecord \<Rightarrow> uint64 \<Rightarrow> err" where
  "activityRecordError r revision =
    (case rec_State r of
       ActivityPrepared \<Rightarrow> RetryPending (rec_Identity r) (rec_NextAttemptAt r) revision
     | ActivityFailed \<Rightarrow>
         if rec_Attempts r \<noteq> [] \<and> (case att_RetrySchedule (last_attempt r) of
              None \<Rightarrow> False | Some s \<Rightarrow> dec_Rejection s \<noteq> '''') then Sent ErrActivityScheduleInvalid
         else if rec_Classification r = ActivityRetryable then Sent ErrActivityAttemptsExhausted
         else Sent ErrActivityFailed
     | _ \<Rightarrow> Sent ErrActivityUnknown)"

definition preparedActivityError :: "ActivityRecord \<Rightarrow> uint64 \<Rightarrow> gotime \<Rightarrow> err option" where
  "preparedActivityError r revision now =
    (if rec_State r = ActivityFailed then Some (activityRecordError r revision)
     else if rec_State r \<noteq> ActivityPrepared then Some (Sent ErrActivityConflict)
     else if rec_Attempts r = [] then None
     else if attempts_len r \<ge> pol_MaxAttempts (rec_Retry r) \<or> pol_SafeRetryContract (rec_Retry r) = ''''
       \<or> IsZero (rec_NextAttemptAt r) then Some (Sent ErrActivityConflict)
     else if now < rec_NextAttemptAt r then Some (activityRecordError r revision)
     else None)"

text \<open>A classifier is an optional function of the host; the flag reports an invalid class.\<close>

definition classifyActivityFailure ::
    "(err \<Rightarrow> ActivityFailureDecision) option \<Rightarrow> err \<Rightarrow> ActivityFailureDecision \<times> bool" where
  "classifyActivityFailure classify dispatchErr =
    (let ambiguous = \<lparr>fd_Class = ActivityAmbiguous, fd_NotBefore = 0\<rparr> in
     case classify of
       None \<Rightarrow> (ambiguous, False)
     | Some f \<Rightarrow>
         (case fd_Class (f dispatchErr) of
            ActivityRetryable \<Rightarrow> (f dispatchErr, False)
          | ActivityNonRetryable \<Rightarrow> (f dispatchErr, False)
          | ActivityAmbiguous \<Rightarrow> (f dispatchErr, False)
          | _ \<Rightarrow> (ambiguous, True)))"

definition activityUnresolved :: "ActivityState \<Rightarrow> bool" where
  "activityUnresolved s \<longleftrightarrow> s = ActivityPrepared \<or> s = ActivityRunning \<or> s = ActivityUnknown"

section \<open>What the validators establish\<close>

definition attempt_ok :: "int \<Rightarrow> ActivityAttempt \<Rightarrow> bool" where
  "attempt_ok number a \<longleftrightarrow> att_Number a = number \<and> att_Incarnation a \<noteq> 0 \<and> \<not> IsZero (att_StartedAt a)
     \<and> validateActivityAttempt a = None"

lemma attempts_loop_snoc:
  "attempts_loop k (xs @ [a]) = None \<longleftrightarrow>
    attempts_loop k xs = None \<and> (\<forall>x \<in> set xs. att_State x \<noteq> ActivityRunning) \<and> attempt_ok (k + int (length xs)) a"
  by (induction xs arbitrary: k) (auto simp: attempt_ok_def algebra_simps split: if_splits)

lemma attempts_loop_nth:
  "attempts_loop k xs = None \<Longrightarrow> i < length xs \<Longrightarrow> attempt_ok (k + int i) (xs ! i)"
proof (induction xs arbitrary: k i)
  case (Cons a xs)
  then show ?case
    by (cases i) (auto simp: attempt_ok_def algebra_simps split: if_splits)
qed simp

definition own_schedule_ok :: "ActivityRetryPolicy \<Rightarrow> ActivityAttempt \<Rightarrow> bool" where
  "own_schedule_ok policy a = (case att_RetrySchedule a of
       None \<Rightarrow> \<not> (att_State a = ActivityFailed \<and> att_Classification a = ActivityRetryable
                 \<and> att_Number a < pol_MaxAttempts policy)
     | Some choice \<Rightarrow> att_State a = ActivityFailed \<and> att_Classification a = ActivityRetryable
            \<and> dec_Attempt choice = att_Number a \<and> dec_PreparedAt choice = att_FinishedAt a
            \<and> validActivityRetryScheduleDecision policy (Some choice))"

definition schedule_admits :: "ActivityAttempt \<Rightarrow> gotime \<Rightarrow> bool" where
  "schedule_admits a started = (case att_RetrySchedule a of None \<Rightarrow> True
     | Some c \<Rightarrow> dec_Rejection c = '''' \<and> dec_Deadline c \<le> started)"

lemma attempt_schedules_Cons:
  "attempt_schedules p (a # rest) = None \<longleftrightarrow> own_schedule_ok p a
     \<and> (rest = [] \<or> schedule_admits a (att_StartedAt (hd rest))) \<and> attempt_schedules p rest = None"
proof -
  have "attempt_schedule p a rest = None \<longleftrightarrow> own_schedule_ok p a
      \<and> (rest = [] \<or> schedule_admits a (att_StartedAt (hd rest)))"
    by (cases "att_RetrySchedule a"; cases rest)
      (simp_all add: attempt_schedule_def own_schedule_ok_def schedule_admits_def not_less, auto)
  then show ?thesis by (simp add: res_simps conj_assoc)
qed

declare attempt_schedules.simps(2) [simp del]

lemma attempt_schedules_snoc:
  "attempt_schedules p (xs @ [a]) = None \<longleftrightarrow> attempt_schedules p xs = None \<and> own_schedule_ok p a
     \<and> (xs = [] \<or> schedule_admits (last xs) (att_StartedAt a))"
  by (induction xs) (auto simp: attempt_schedules_Cons hd_append)

definition decision_ok :: "ActivityRecord \<Rightarrow> ActivityResolutionRecord \<Rightarrow> bool" where
  "decision_ok r d \<longleftrightarrow> res_DecisionID d \<noteq> '''' \<and> res_Reason d \<noteq> '''' \<and> res_Evidence d \<noteq> ''''
     \<and> \<not> IsZero (res_At d) \<and> res_Incarnation d \<noteq> 0 \<and> res_Attempt d \<le> attempts_len r
     \<and> res_PriorState d \<in> {ActivityUnknown, ActivityRunning}
     \<and> att_State (rec_Attempts r ! nat (res_Attempt d - 1)) = ActivityUnknown
     \<and> validActivityDecisionAction d (rec_Retry r)
     \<and> (if res_Action d = ActivityResolveRetry
        then res_Attempt d < attempts_len r \<longrightarrow>
          dec_Deadline (the (res_RetrySchedule d)) \<le> att_StartedAt (rec_Attempts r ! nat (res_Attempt d))
        else res_Attempt d = attempts_len r)"

abbreviation decision_less :: "ActivityResolutionRecord \<Rightarrow> ActivityResolutionRecord \<Rightarrow> bool" where
  "decision_less d e \<equiv> res_Attempt d < res_Attempt e \<and> res_SourceRevision d < res_SourceRevision e"

lemma retry_decision_schedule:
  "validActivityDecisionAction d p \<Longrightarrow> res_Action d = ActivityResolveRetry \<Longrightarrow> \<exists>s. res_RetrySchedule d = Some s"
  by (auto simp: validActivityDecisionAction_def split: option.splits)

lemma decisions_loop_Cons:
  "decisions_loop r seen pa pr (d # ds) = None \<longleftrightarrow> decision_ok r d \<and> res_DecisionID d \<notin> seen
     \<and> pa < res_Attempt d \<and> pr < res_SourceRevision d
     \<and> decisions_loop r (insert (res_DecisionID d) seen) (res_Attempt d) (res_SourceRevision d) ds = None"
proof (cases "res_Action d = ActivityResolveRetry \<and> validActivityDecisionAction d (rec_Retry r)")
  case True
  then obtain s where "res_RetrySchedule d = Some s" using retry_decision_schedule by blast
  with True show ?thesis by (auto simp: decision_ok_def not_less not_le)
next
  case False
  then show ?thesis by (auto simp: decision_ok_def not_less not_le)
qed

declare decisions_loop.simps(2) [simp del]

lemma decisions_loop_iff:
  "decisions_loop r seen pa pr ds = None \<longleftrightarrow>
    (\<forall>d \<in> set ds. decision_ok r d \<and> pa < res_Attempt d \<and> pr < res_SourceRevision d \<and> res_DecisionID d \<notin> seen)
    \<and> distinct (map res_DecisionID ds) \<and> sorted_wrt decision_less ds"
proof (induction ds arbitrary: seen pa pr)
  case (Cons d ds)
  show ?case unfolding decisions_loop_Cons Cons.IH by (auto intro: less_trans) (metis image_eqI)
qed simp

text \<open>Everything but the checks that relate the state of the record to its last attempt.\<close>

definition record_frame :: "sha256 \<Rightarrow> ActivityRecord \<Rightarrow> bool" where
  "record_frame sha r \<longleftrightarrow> validActivityAddress sha r \<and> validActivityDigest (rec_InputDigest r)
     \<and> rec_Key r \<noteq> '''' \<and> rec_Implementation r \<noteq> '''' \<and> ValidString (rec_Implementation r)
     \<and> validateActivityRetry (rec_Retry r) = None \<and> attempts_loop 1 (rec_Attempts r) = None
     \<and> attempts_len r \<le> attemptLimit (rec_Retry r) \<and> decisions_loop r {} 0 0 (rec_Resolutions r) = None
     \<and> attempt_schedules (rec_Retry r) (rec_Attempts r) = None \<and> validateActivityAttemptHistory r = None"

lemma validateActivityRecord_iff:
  "validateActivityRecord sha r = None \<longleftrightarrow> record_frame sha r
     \<and> (rec_Origin r = ActivityManual \<longrightarrow> validManualActivityOrigin r) \<and> validateActivityRecordState r = None"
  by (auto simp: validateActivityRecord_def record_frame_def validateActivityDecisions_def
      validateActivityRecordSchedules_def res_simps not_less split: if_splits)

definition history_ok :: "ActivityRecord \<Rightarrow> ActivityAttempt \<Rightarrow> bool" where
  "history_ok r a \<longleftrightarrow> pol_SafeRetryContract (rec_Retry r) \<noteq> ''''
     \<and> (att_State a = ActivityFailed \<and> att_Classification a = ActivityRetryable
       \<or> att_State a = ActivityUnknown \<and> hasActivityRetryDecision r (att_Number a))"

lemma validateActivityAttemptHistory_iff:
  "validateActivityAttemptHistory r = None \<longleftrightarrow> (\<forall>a \<in> set (butlast (rec_Attempts r)). history_ok r a)"
  unfolding validateActivityAttemptHistory_def firstErr_None_iff history_ok_def
  by (intro ball_cong refl) (simp split: ActivityState.split)

section \<open>Transitions keep the frame\<close>

text \<open>What no transition changes: the address and the persisted contract.\<close>

definition same_contract :: "ActivityRecord \<Rightarrow> ActivityRecord \<Rightarrow> bool" where
  "same_contract r r' \<longleftrightarrow> rec_Identity r' = rec_Identity r \<and> rec_ExecutionID r' = rec_ExecutionID r
     \<and> rec_Node r' = rec_Node r \<and> rec_Activation r' = rec_Activation r \<and> rec_Key r' = rec_Key r
     \<and> rec_InputDigest r' = rec_InputDigest r \<and> rec_Implementation r' = rec_Implementation r
     \<and> rec_Retry r' = rec_Retry r"

lemma same_contract_address: "same_contract r r' \<Longrightarrow> validActivityAddress sha r' \<longleftrightarrow> validActivityAddress sha r"
  by (simp add: same_contract_def validActivityAddress_def)

lemma same_contract_header:
  assumes "record_frame sha r" and "same_contract r r'" and "attempts_loop 1 (rec_Attempts r') = None"
    and "attempts_len r' \<le> attemptLimit (rec_Retry r)" and "decisions_loop r' {} 0 0 (rec_Resolutions r') = None"
    and "attempt_schedules (rec_Retry r) (rec_Attempts r') = None" and "validateActivityAttemptHistory r' = None"
  shows "record_frame sha r'"
  using assms same_contract_address [OF assms(2)] unfolding record_frame_def same_contract_def by simp

lemma frame_attempts:
  assumes "record_frame sha r" and "rec_Attempts r \<noteq> []"
  shows "attempts_loop 1 (butlast (rec_Attempts r)) = None"
    and "\<forall>x \<in> set (butlast (rec_Attempts r)). att_State x \<noteq> ActivityRunning"
    and "attempt_ok (attempts_len r) (last_attempt r)"
    and "attempt_schedules (rec_Retry r) (butlast (rec_Attempts r)) = None"
    and "own_schedule_ok (rec_Retry r) (last_attempt r)"
    and "butlast (rec_Attempts r) = [] \<or>
      schedule_admits (last (butlast (rec_Attempts r))) (att_StartedAt (last_attempt r))"
proof -
  let ?b = "butlast (rec_Attempts r)"
  have e: "?b @ [last_attempt r] = rec_Attempts r" using assms(2) by simp
  have l: "1 + int (length ?b) = attempts_len r" using assms(2) by (simp add: of_nat_diff Suc_le_eq)
  from assms(1) have "attempts_loop 1 (?b @ [last_attempt r]) = None"
    "attempt_schedules (rec_Retry r) (?b @ [last_attempt r]) = None"
    unfolding e by (simp_all add: record_frame_def)
  then show "attempts_loop 1 ?b = None" "\<forall>x \<in> set ?b. att_State x \<noteq> ActivityRunning"
    "attempt_ok (attempts_len r) (last_attempt r)" "attempt_schedules (rec_Retry r) ?b = None"
    "own_schedule_ok (rec_Retry r) (last_attempt r)"
    "?b = [] \<or> schedule_admits (last ?b) (att_StartedAt (last_attempt r))"
    unfolding attempts_loop_snoc attempt_schedules_snoc l by simp_all
qed

lemma frame_decisions:
  assumes "record_frame sha r" and "d \<in> set (rec_Resolutions r)"
  shows "decision_ok r d" and "0 < res_Attempt d"
  using assms by (auto simp: record_frame_def decisions_loop_iff)

lemma frame_replace_last:
  assumes f: "record_frame sha r" and ne: "rec_Attempts r \<noteq> []"
    and old: "\<forall>d \<in> set (rec_Resolutions r). res_Attempt d < attempts_len r"
    and a: "att_Number a = att_Number (last_attempt r)" "att_Incarnation a = att_Incarnation (last_attempt r)"
      "att_StartedAt a = att_StartedAt (last_attempt r)" "validateActivityAttempt a = None"
      "own_schedule_ok (rec_Retry r) a"
    and r': "same_contract r r'" "rec_Attempts r' = butlast (rec_Attempts r) @ [a]"
      "rec_Resolutions r' = rec_Resolutions r"
  shows "record_frame sha r'"
proof (rule same_contract_header [OF f r'(1)])
  note fa = frame_attempts [OF f ne]
  have l: "1 + int (length (butlast (rec_Attempts r))) = attempts_len r" "attempts_len r' = attempts_len r"
    using ne r'(2) by (simp_all add: of_nat_diff Suc_le_eq)
  have retry: "rec_Retry r' = rec_Retry r" using r'(1) by (simp add: same_contract_def)
  show "attempts_loop 1 (rec_Attempts r') = None"
    using fa a unfolding r'(2) attempts_loop_snoc l by (simp add: attempt_ok_def)
  show "attempts_len r' \<le> attemptLimit (rec_Retry r)" using f by (simp add: l record_frame_def)
  show "attempt_schedules (rec_Retry r) (rec_Attempts r') = None"
    using fa a unfolding r'(2) attempt_schedules_snoc by simp
  show "validateActivityAttemptHistory r' = None"
    using f unfolding validateActivityAttemptHistory_iff record_frame_def
    by (simp add: r'(2,3) retry history_ok_def hasActivityRetryDecision_def)
  have "decision_ok r' d" if d: "d \<in> set (rec_Resolutions r)" for d
  proof -
    have ok: "decision_ok r d" "0 < res_Attempt d" "res_Attempt d < attempts_len r"
      using frame_decisions [OF f d] old d by simp_all
    let ?i = "nat (res_Attempt d - 1)" and ?j = "nat (res_Attempt d)"
    have i: "?i < length (rec_Attempts r) - 1" and j: "?j \<le> length (rec_Attempts r) - 1"
      using ok by linarith+
    have "rec_Attempts r' ! ?i = rec_Attempts r ! ?i"
      using i by (simp add: r'(2) nth_append nth_butlast)
    moreover have "att_StartedAt (rec_Attempts r' ! ?j) = att_StartedAt (rec_Attempts r ! ?j)"
      using j a(3) ne by (auto simp: r'(2) nth_append nth_butlast last_conv_nth)
    ultimately show ?thesis using ok(1) by (simp add: decision_ok_def l retry)
  qed
  with f show "decisions_loop r' {} 0 0 (rec_Resolutions r') = None"
    by (auto simp: record_frame_def decisions_loop_iff r'(3))
qed

lemma frame_append_decision:
  assumes f: "record_frame sha r" and r': "same_contract r r'" "rec_Attempts r' = rec_Attempts r"
      "rec_Resolutions r' = rec_Resolutions r @ [d]"
    and d: "decision_ok r d" "0 < res_Attempt d" "0 < res_SourceRevision d"
    and new: "\<forall>e \<in> set (rec_Resolutions r). decision_less e d \<and> res_DecisionID e \<noteq> res_DecisionID d"
  shows "record_frame sha r'"
proof (rule same_contract_header [OF f r'(1)])
  have retry: "rec_Retry r' = rec_Retry r" using r'(1) by (simp add: same_contract_def)
  have "decision_ok r' = decision_ok r" by (intro ext) (simp add: decision_ok_def r'(2) retry)
  with f d new show "decisions_loop r' {} 0 0 (rec_Resolutions r') = None"
    by (auto simp: record_frame_def decisions_loop_iff r'(3) sorted_wrt_append)
  show "validateActivityAttemptHistory r' = None"
    using f unfolding validateActivityAttemptHistory_iff record_frame_def r'(2)
    by (auto simp: r'(3) retry history_ok_def hasActivityRetryDecision_def)
qed (use f in \<open>simp_all add: record_frame_def r'(2)\<close>)

text \<open>A record that waits for its next attempt admits exactly a start at or after its deadline.\<close>

lemma nth_pred_length: "xs \<noteq> [] \<Longrightarrow> xs ! nat (int (length xs) - 1) = last xs"
proof -
  assume "xs \<noteq> []"
  moreover have "nat (int (length xs) - 1) = length xs - 1" by linarith
  ultimately show ?thesis by (simp add: last_conv_nth)
qed

lemma sorted_decisions_last:
  assumes "record_frame sha r" and "d \<in> set (rec_Resolutions r)"
  shows "d = last (rec_Resolutions r) \<or> res_Attempt d < res_Attempt (last (rec_Resolutions r))"
proof -
  let ?ds = "rec_Resolutions r"
  have ne: "?ds \<noteq> []" using assms(2) by auto
  then have "sorted_wrt decision_less (butlast ?ds @ [last ?ds])"
    using assms(1) by (simp add: record_frame_def decisions_loop_iff)
  then have "\<forall>e \<in> set (butlast ?ds). decision_less e (last ?ds)" by (simp add: sorted_wrt_append)
  moreover have "d \<in> set (butlast ?ds) \<or> d = last ?ds" using assms(2) ne
    by (cases ?ds rule: rev_cases) auto
  ultimately show ?thesis by auto
qed

lemma prepared_admits:
  assumes v: "validateActivityRecord sha r = None" and st: "rec_State r = ActivityPrepared"
    and ne: "rec_Attempts r \<noteq> []"
  shows "history_ok r (last_attempt r)"
    and "rec_NextAttemptAt r \<le> now \<Longrightarrow> schedule_admits (last_attempt r) now"
    and "d \<in> set (rec_Resolutions r) \<Longrightarrow> res_Action d = ActivityResolveRetry"
    and "d \<in> set (rec_Resolutions r) \<Longrightarrow> res_Attempt d = attempts_len r \<Longrightarrow>
      dec_Deadline (the (res_RetrySchedule d)) = rec_NextAttemptAt r"
    and "attempts_len r < attemptLimit (rec_Retry r)"
proof -
  from v have f: "record_frame sha r" and s: "validateActivityRecordState r = None"
    and m: "rec_Origin r = ActivityManual \<Longrightarrow> validManualActivityOrigin r"
    by (simp_all add: validateActivityRecord_iff)
  from s st ne have p: "validPreparedActivity r (last_attempt r)"
    by (simp add: validateActivityRecordState_def Let_def split: if_splits)
  note fa = frame_attempts [OF f ne]
  have num: "att_Number (last_attempt r) = attempts_len r" using fa(3) by (simp add: attempt_ok_def)
  have lst: "rec_Attempts r ! nat (attempts_len r - 1) = last_attempt r"
    by (rule nth_pred_length [OF ne])
  have at_len: "att_State (last_attempt r) = ActivityUnknown"
    if "d \<in> set (rec_Resolutions r)" "res_Attempt d = attempts_len r" for d
    using frame_decisions(1) [OF f that(1)] that(2) lst by (simp add: decision_ok_def)
  show "attempts_len r < attemptLimit (rec_Retry r)"
    using p ne by (simp add: validPreparedActivity_def attemptLimit_def)
  show "d \<in> set (rec_Resolutions r) \<Longrightarrow> res_Action d = ActivityResolveRetry" for d
  proof (rule ccontr)
    assume d: "d \<in> set (rec_Resolutions r)" and nr: "res_Action d \<noteq> ActivityResolveRetry"
    from frame_decisions(1) [OF f d] nr have len: "res_Attempt d = attempts_len r" by (simp add: decision_ok_def)
    from at_len [OF d this] p have man: "rec_Origin r = ActivityManual" by (simp add: validPreparedActivity_def)
    from m [OF man] st have "res_Action (last (rec_Resolutions r)) = ActivityResolveRetry"
      "res_Attempt (last (rec_Resolutions r)) = attempts_len r"
      by (auto simp: validManualActivityOrigin_def Let_def split: if_splits)
    with sorted_decisions_last [OF f d] nr len show False by auto
  qed
  show "d \<in> set (rec_Resolutions r) \<Longrightarrow> res_Attempt d = attempts_len r \<Longrightarrow>
      dec_Deadline (the (res_RetrySchedule d)) = rec_NextAttemptAt r" for d
  proof -
    assume d: "d \<in> set (rec_Resolutions r)" and len: "res_Attempt d = attempts_len r"
    from at_len [OF d len] p have man: "rec_Origin r = ActivityManual" by (simp add: validPreparedActivity_def)
    from m [OF man] st have "res_Attempt (last (rec_Resolutions r)) = attempts_len r"
      by (auto simp: validManualActivityOrigin_def Let_def split: if_splits)
    with sorted_decisions_last [OF f d] len have "d = last (rec_Resolutions r)" by simp
    with p man show ?thesis
      by (auto simp: validPreparedActivity_def validPreparedActivitySchedule_def Let_def split: if_splits option.splits)
  qed
  show "history_ok r (last_attempt r)"
  proof (cases "rec_Origin r = ActivityManual")
    case True
    from m [OF True] st have d: "rec_Resolutions r \<noteq> []" "res_Action (last (rec_Resolutions r)) = ActivityResolveRetry"
      "res_Attempt (last (rec_Resolutions r)) = attempts_len r"
      by (auto simp: validManualActivityOrigin_def Let_def split: if_splits)
    with p at_len [OF last_in_set] num show ?thesis
      by (auto simp: history_ok_def validPreparedActivity_def hasActivityRetryDecision_def list_ex_iff
          intro!: bexI [of _ "last (rec_Resolutions r)"])
  next
    case False
    with p fa(5) show ?thesis
      by (auto simp: history_ok_def validPreparedActivity_def validPreparedActivitySchedule_def own_schedule_ok_def
          split: option.splits)
  qed
  show "schedule_admits (last_attempt r) now" if "rec_NextAttemptAt r \<le> now" for now
  proof (cases "rec_Origin r = ActivityManual")
    case True
    from m [OF True] st have "rec_Resolutions r \<noteq> []" "res_Attempt (last (rec_Resolutions r)) = attempts_len r"
      by (auto simp: validManualActivityOrigin_def Let_def split: if_splits)
    with at_len [OF last_in_set] have "att_State (last_attempt r) = ActivityUnknown" by simp
    with fa(5) show ?thesis by (auto simp: schedule_admits_def own_schedule_ok_def split: option.splits)
  next
    case False
    with p that show ?thesis
      by (auto simp: validPreparedActivity_def validPreparedActivitySchedule_def schedule_admits_def split: option.splits)
  qed
qed

section \<open>The invariant of a record\<close>

text \<open>
  A reachable record passes the validator, and while a dispatch is outstanding
  (running or unknown) it carries no outcome origin and no decision on the
  current attempt.
\<close>

definition activity_inv :: "sha256 \<Rightarrow> ActivityRecord \<Rightarrow> bool" where
  "activity_inv sha r \<longleftrightarrow> validateActivityRecord sha r = None \<and> schedule_typed (pol_Schedule (rec_Retry r))
     \<and> (rec_State r \<in> {ActivityRunning, ActivityUnknown} \<longrightarrow>
        rec_Origin r = NoOrigin \<and> (\<forall>d \<in> set (rec_Resolutions r). res_Attempt d < attempts_len r))"

lemma new_record_inv:
  assumes "execution \<noteq> ''''" "node \<noteq> ''''" "activation \<noteq> 0" "ValidString execution" "ValidString node"
    and "ValidString key" "key \<noteq> ''''" "impl \<noteq> ''''" "ValidString impl" "validActivityDigest inputDigest"
    and "validateActivityRetry retry = None" "schedule_typed (pol_Schedule retry)"
  shows "activity_inv sha (newActivityRecord (activityAddressIdentity sha execution node activation key)
    execution node activation key inputDigest impl retry)"
proof -
  have "0 \<le> pol_MaxAttempts retry" using assms(11)
    by (auto simp: validateActivityRetry_def noRetry_def split: if_splits)
  with assms show ?thesis
    by (simp add: activity_inv_def validateActivityRecord_def newActivityRecord_def validActivityAddress_def
        validateActivityDecisions_def validateActivityRecordSchedules_def validateActivityAttemptHistory_def
        validateActivityRecordState_def attemptLimit_def)
qed

lemma start_inv:
  assumes i: "activity_inv sha r" and p: "preparedActivityError r revision now = None"
    and now: "\<not> IsZero now" "incarnation \<noteq> 0"
  shows "activity_inv sha (startActivityAttempt incarnation now r)"
proof -
  let ?r' = "startActivityAttempt incarnation now r"
  define a where "a = last (rec_Attempts ?r')"
  from p have st: "rec_State r = ActivityPrepared" by (auto simp: preparedActivityError_def split: if_splits)
  from i have v: "validateActivityRecord sha r = None" and t: "schedule_typed (pol_Schedule (rec_Retry r))"
    by (simp_all add: activity_inv_def)
  then have f: "record_frame sha r" by (simp add: validateActivityRecord_iff)
  have due: "rec_Attempts r \<noteq> [] \<Longrightarrow> rec_NextAttemptAt r \<le> now"
    using p st by (auto simp: preparedActivityError_def split: if_splits)
  note pa = prepared_admits [OF v st]
  have r': "rec_Attempts ?r' = rec_Attempts r @ [a]" "same_contract r ?r'" "rec_Resolutions ?r' = rec_Resolutions r"
    "attempts_len ?r' = attempts_len r + 1" "rec_Retry ?r' = rec_Retry r"
    by (simp_all add: startActivityAttempt_def same_contract_def a_def)
  have a: "attempt_ok (1 + attempts_len r) a" "own_schedule_ok (rec_Retry r) a" "att_StartedAt a = now"
    using now
    by (simp_all add: a_def startActivityAttempt_def attempt_ok_def own_schedule_ok_def validateActivityAttempt_def)
  have out: "rec_Outcome r = ''''"
    using v st unfolding validateActivityRecord_iff validateActivityRecordState_def
    by (auto simp: Let_def validPreparedActivity_def split: if_splits)
  have "record_frame sha ?r'"
  proof (rule same_contract_header [OF f r'(2)])
    show "attempts_len ?r' \<le> attemptLimit (rec_Retry r)"
    proof (cases "rec_Attempts r = []")
      case True
      have "0 \<le> pol_MaxAttempts (rec_Retry r)" using f
        by (auto simp: record_frame_def validateActivityRetry_def noRetry_def split: if_splits)
      with True show ?thesis by (simp add: r'(4) attemptLimit_def)
    next
      case False
      from pa(5) [OF this] show ?thesis by (simp add: r'(4))
    qed
    have nr: "\<forall>x \<in> set (rec_Attempts r). att_State x \<noteq> ActivityRunning"
    proof (cases "rec_Attempts r = []")
      case False
      with frame_attempts(2) [OF f False] pa(1) [OF False] show ?thesis
        by (cases "rec_Attempts r" rule: rev_cases) (auto simp: history_ok_def)
    qed simp
    with f a(1) show "attempts_loop 1 (rec_Attempts ?r') = None"
      unfolding r'(1) attempts_loop_snoc by (simp add: record_frame_def)
    show "attempt_schedules (rec_Retry r) (rec_Attempts ?r') = None"
      unfolding r'(1) attempt_schedules_snoc using f a pa(2) due by (auto simp: record_frame_def)
    have "\<forall>x \<in> set (rec_Attempts r). history_ok r x"
      using f pa(1) by (cases "rec_Attempts r" rule: rev_cases)
        (auto simp: record_frame_def validateActivityAttemptHistory_iff)
    then show "validateActivityAttemptHistory ?r' = None"
      unfolding validateActivityAttemptHistory_iff r'(1) by (simp add: history_ok_def r' hasActivityRetryDecision_def)
    have "decision_ok ?r' d" if d: "d \<in> set (rec_Resolutions r)" for d
    proof -
      have ok: "decision_ok r d" "0 < res_Attempt d" using frame_decisions [OF f d] by simp_all
      then have le: "res_Attempt d \<le> attempts_len r" by (simp add: decision_ok_def)
      then have ne: "rec_Attempts r \<noteq> []" using ok(2) by auto
      have "nat (res_Attempt d - 1) < length (rec_Attempts r)" using ok(2) le by linarith
      then have "rec_Attempts ?r' ! nat (res_Attempt d - 1) = rec_Attempts r ! nat (res_Attempt d - 1)"
        unfolding r'(1) by (simp add: nth_append)
      moreover have "dec_Deadline (the (res_RetrySchedule d)) \<le> att_StartedAt (rec_Attempts ?r' ! nat (res_Attempt d))"
      proof (cases "res_Attempt d = attempts_len r")
        case True
        then show ?thesis using pa(4) [OF ne d True] due [OF ne] a(3) unfolding r'(1) by (simp add: nth_append)
      next
        case False
        with le ok pa(3) [OF ne d] show ?thesis unfolding r'(1) by (auto simp: decision_ok_def nth_append)
      qed
      ultimately show ?thesis using ok(1) pa(3) [OF ne d] le by (simp add: decision_ok_def r')
    qed
    with f show "decisions_loop ?r' {} 0 0 (rec_Resolutions ?r') = None"
      by (auto simp: record_frame_def decisions_loop_iff r'(3))
  qed
  moreover have "validateActivityRecordState ?r' = None"
    using out by (simp add: validateActivityRecordState_def startActivityAttempt_def)
  moreover have "res_Attempt d < attempts_len ?r'" if "d \<in> set (rec_Resolutions r)" for d
    using frame_decisions(1) [OF f that] by (simp add: decision_ok_def r'(4))
  ultimately show ?thesis
    using t by (auto simp: activity_inv_def validateActivityRecord_iff r'(3,5)) (simp_all add: startActivityAttempt_def)
qed

text \<open>An outstanding dispatch: the facts the finishing transitions share.\<close>

lemma outstanding:
  assumes "activity_inv sha r" and "rec_State r \<in> {ActivityRunning, ActivityUnknown}"
  shows "record_frame sha r" and "rec_Attempts r \<noteq> []" and "rec_Outcome r = ''''" and "rec_NextAttemptAt r = 0"
    and "rec_Origin r = NoOrigin" and "\<forall>d \<in> set (rec_Resolutions r). res_Attempt d < attempts_len r"
    and "att_State (last_attempt r) = rec_State r" and "att_RetrySchedule (last_attempt r) = None"
    and "att_Number (last_attempt r) = attempts_len r" and "validateActivityAttempt (last_attempt r) = None"
proof -
  from assms have v: "validateActivityRecord sha r = None" by (simp add: activity_inv_def)
  then show f: "record_frame sha r" by (simp add: validateActivityRecord_iff)
  from v assms(2) show ne: "rec_Attempts r \<noteq> []" and "rec_Outcome r = ''''" and "rec_NextAttemptAt r = 0"
    and st: "att_State (last_attempt r) = rec_State r"
    unfolding validateActivityRecord_iff validateActivityRecordState_def by (auto simp: Let_def split: if_splits)
  from assms show "rec_Origin r = NoOrigin" "\<forall>d \<in> set (rec_Resolutions r). res_Attempt d < attempts_len r"
    unfolding activity_inv_def by blast+
  from frame_attempts(3,5) [OF f ne] st assms(2) show "att_RetrySchedule (last_attempt r) = None"
    "att_Number (last_attempt r) = attempts_len r" "validateActivityAttempt (last_attempt r) = None"
    by (auto simp: attempt_ok_def own_schedule_ok_def split: option.splits)
qed

lemma map_last_snoc: "xs \<noteq> [] \<Longrightarrow> map_last f xs = butlast xs @ [f (last xs)]"
  by (simp add: map_last_def)

lemma map_last_simps [simp]: "length (map_last f xs) = length xs" "map_last f xs = [] \<longleftrightarrow> xs = []"
  "xs \<noteq> [] \<Longrightarrow> last (map_last f xs) = f (last xs)"
  by (simp_all add: map_last_def)

lemma recover_inv:
  assumes i: "activity_inv sha r" and st: "rec_State r = ActivityRunning"
  shows "activity_inv sha (markActivityUnknown r)"
proof -
  have st': "rec_State r \<in> {ActivityRunning, ActivityUnknown}" using st by simp
  note o = outstanding [OF i st']
  have "record_frame sha (markActivityUnknown r)"
    by (rule frame_replace_last [OF o(1,2,6), where a = "markUnknownAttempt (last_attempt r)"])
      (use o in \<open>simp_all add: markActivityUnknown_def markUnknownAttempt_def map_last_snoc same_contract_def
          validateActivityAttempt_def own_schedule_ok_def\<close>)
  moreover have "validateActivityRecordState (markActivityUnknown r) = None"
    using o by (simp add: validateActivityRecordState_def markActivityUnknown_def markUnknownAttempt_def Let_def)
  ultimately show ?thesis
    using i o by (simp add: activity_inv_def validateActivityRecord_iff) (simp add: markActivityUnknown_def)
qed

lemma complete_inv:
  assumes i: "activity_inv sha r"
    and st: "rec_State r = ActivityRunning \<and> origin \<in> {ActivityLive, ActivitySimulated} \<and> \<not> IsZero now
      \<or> rec_State r = ActivityUnknown \<and> origin = ActivityReconciled"
  shows "activity_inv sha (completeActivity now payload origin r)"
proof -
  have st': "rec_State r \<in> {ActivityRunning, ActivityUnknown}" using st by auto
  note o = outstanding [OF i st']
  let ?r' = "completeActivity now payload origin r"
  have f: "record_frame sha ?r'"
  proof (cases "origin = ActivityReconciled")
    case True
    have dk: "decision_ok ?r' = decision_ok r"
      using True by (intro ext) (simp add: decision_ok_def completeActivity_def)
    show ?thesis
      by (rule same_contract_header [OF o(1)])
        (use True o(1) dk in \<open>simp_all add: same_contract_def completeActivity_def record_frame_def decisions_loop_iff
          validateActivityAttemptHistory_iff history_ok_def hasActivityRetryDecision_def\<close>)
  next
    case False
    then show ?thesis
      by (intro frame_replace_last [OF o(1,2,6),
            where a = "(last_attempt r)\<lparr>att_State := ActivityCompleted, att_FinishedAt := now\<rparr>"])
        (use o st in \<open>auto simp: completeActivity_def map_last_snoc same_contract_def
            validateActivityAttempt_def own_schedule_ok_def split: if_splits\<close>)
  qed
  have "validateActivityRecordState ?r' = None"
    using st o by (auto simp: validateActivityRecordState_def completeActivity_def validCompletedActivity_def Let_def)
  with f show ?thesis using i st
    by (simp add: activity_inv_def validateActivityRecord_iff) (auto simp: completeActivity_def)
qed

lemma choose_accepted:
  assumes "schedule_typed (pol_Schedule p)" "validateActivityRetry p = None" "activityScheduleTimeValid now"
    and "1 \<le> n" "n < pol_MaxAttempts p"
  shows "validActivityRetryScheduleDecision p (Some (chooseActivityRetrySchedule p n now hint sample))"
proof (rule choose_valid [OF assms(1)])
  show "dec_Rejection (chooseActivityRetrySchedule p n now hint sample) \<notin> {''policy'', ''clock''}"
    using assms by (simp add: choose_cases Let_def scheduleDeadline_def split: option.split)
qed

lemma choose_accepted_deadline:
  assumes "schedule_typed (pol_Schedule p)" "validActivityRetryScheduleDecision p (Some d)" "dec_Rejection d = ''''"
  shows "dec_Deadline d \<noteq> 0"
  using accepted_deadline(4) [OF assms] by (simp add: activityScheduleTimeValid_def)

lemma failure_inv:
  assumes i: "activity_inv sha r" and st: "rec_State r \<in> {ActivityRunning, ActivityUnknown}"
    and now: "activityScheduleTimeValid now"
    and c: "fd_Class decision \<in> {ActivityRetryable, ActivityNonRetryable, ActivityAmbiguous}"
  shows "activity_inv sha (recordActivityFailure now sample message decision r)"
proof -
  note o = outstanding [OF i st]
  have now0: "now \<noteq> 0" using now by (simp add: activityScheduleTimeValid_def)
  from i have t: "schedule_typed (pol_Schedule (rec_Retry r))" by (simp add: activity_inv_def)
  have pv: "validateActivityRetry (rec_Retry r) = None" using o(1) by (simp add: record_frame_def)
  have pos: "1 \<le> attempts_len r" using o(2) by (simp add: Suc_le_eq)
  let ?r' = "recordActivityFailure now sample message decision r"
  let ?base = "(last_attempt r)\<lparr>att_Classification := fd_Class decision, att_Error := message, att_FinishedAt := now\<rparr>"
  have finish: "activity_inv sha ?r'"
    if r': "?r' = r\<lparr>rec_Classification := fd_Class decision, rec_NextAttemptAt := nx, rec_State := s,
        rec_Attempts := butlast (rec_Attempts r) @ [a]\<rparr>"
      and a: "att_Number a = attempts_len r" "att_Incarnation a = att_Incarnation (last_attempt r)"
        "att_StartedAt a = att_StartedAt (last_attempt r)" "validateActivityAttempt a = None"
        "own_schedule_ok (rec_Retry r) a"
      and sv: "validateActivityRecordState ?r' = None"
    for a s nx
  proof -
    have "record_frame sha ?r'"
      by (rule frame_replace_last [OF o(1,2,6), where a = a])
        (use o a in \<open>simp_all add: r' same_contract_def\<close>)
    with i o sv show ?thesis
      by (simp add: activity_inv_def validateActivityRecord_iff) (simp add: r')
  qed
  from c consider (retry) "fd_Class decision = ActivityRetryable" | (final) "fd_Class decision = ActivityNonRetryable"
    | (ambiguous) "fd_Class decision = ActivityAmbiguous" by auto
  then show ?thesis
  proof cases
    case final
    show ?thesis
      by (rule finish [where a = "?base\<lparr>att_State := ActivityFailed\<rparr>" and s = ActivityFailed and nx = 0])
        (use final o now0 in \<open>simp_all add: recordActivityFailure_def Let_def validateActivityAttempt_def own_schedule_ok_def
          validateActivityRecordState_def validFailedActivity_def\<close>)
  next
    case ambiguous
    show ?thesis
      by (rule finish [where a = "?base\<lparr>att_State := ActivityUnknown\<rparr>" and s = ActivityUnknown and nx = 0])
        (use ambiguous o in \<open>simp_all add: recordActivityFailure_def Let_def validateActivityAttempt_def own_schedule_ok_def
          validateActivityRecordState_def\<close>)
  next
    case retry
    let ?s = "chooseActivityRetrySchedule (rec_Retry r) (attempts_len r) now (fd_NotBefore decision) sample"
    show ?thesis
    proof (cases "attempts_len r < pol_MaxAttempts (rec_Retry r)")
      case False
      show ?thesis
        by (rule finish [where a = "?base\<lparr>att_State := ActivityFailed\<rparr>" and s = ActivityFailed and nx = 0])
          (use False retry o now0 in \<open>simp_all add: recordActivityFailure_def Let_def validateActivityAttempt_def
            own_schedule_ok_def validateActivityRecordState_def validFailedActivity_def\<close>)
    next
      case True
      have dv: "validActivityRetryScheduleDecision (rec_Retry r) (Some ?s)"
        by (rule choose_accepted [OF t pv now pos True])
      have safe: "pol_SafeRetryContract (rec_Retry r) \<noteq> ''''"
        using pv True pos by (auto simp: validateActivityRetry_def noRetry_def split: if_splits)
      show ?thesis
      proof (cases "dec_Rejection ?s = ''''")
        case acc: True
        have "dec_Deadline ?s \<noteq> 0" by (rule choose_accepted_deadline [OF t dv acc])
        then show ?thesis
          by (intro finish [where a = "?base\<lparr>att_State := ActivityFailed, att_RetrySchedule := Some ?s\<rparr>"
                and s = ActivityPrepared and nx = "dec_Deadline ?s"])
            (use True acc retry o now0 dv safe choose_fields in \<open>simp_all add: recordActivityFailure_def Let_def
              validateActivityAttempt_def own_schedule_ok_def validateActivityRecordState_def validPreparedActivity_def
              validPreparedActivitySchedule_def\<close>)
      next
        case rej: False
        show ?thesis
          by (rule finish [where a = "?base\<lparr>att_State := ActivityFailed, att_RetrySchedule := Some ?s\<rparr>"
                and s = ActivityFailed and nx = 0])
            (use True rej retry o now0 dv choose_fields in \<open>simp_all add: recordActivityFailure_def Let_def
              validateActivityAttempt_def own_schedule_ok_def validateActivityRecordState_def validFailedActivity_def\<close>)
      qed
    qed
  qed
qed

text \<open>What an accepted manual decision does to an outstanding record.\<close>

lemma resolution_outcome:
  assumes "applyActivityResolution r rsn now sample = Ok (r', chosen)"
  shows "same_contract r r'" and "rec_Attempts r' = rec_Attempts r" and "rec_Resolutions r' = rec_Resolutions r"
    and "rec_Origin r' = ActivityManual"
    and "rsn_Action rsn = ActivityResolveComplete \<and> rec_State r' = ActivityCompleted \<and> chosen = None
        \<and> rsn_SafeRetryContract rsn = '''' \<and> rec_NextAttemptAt r' = 0
      \<or> rsn_Action rsn = ActivityResolveFail \<and> rec_State r' = ActivityFailed \<and> chosen = None
        \<and> rsn_SafeRetryContract rsn = '''' \<and> rec_NextAttemptAt r' = 0 \<and> rec_Outcome r' = rec_Outcome r
        \<and> rec_Classification r' = ActivityNonRetryable
      \<or> rsn_Action rsn = ActivityResolveRetry \<and> rec_State r' = ActivityPrepared \<and> rec_Outcome r' = rec_Outcome r
        \<and> rec_Classification r' = ActivityRetryable
        \<and> rsn_SafeRetryContract rsn \<noteq> '''' \<and> rsn_SafeRetryContract rsn = pol_SafeRetryContract (rec_Retry r)
        \<and> attempts_len r < pol_MaxAttempts (rec_Retry r) \<and> validateActivityRetry (rec_Retry r) = None
        \<and> (let s = chooseActivityRetrySchedule (rec_Retry r) (attempts_len r) now (rsn_NotBefore rsn) sample in
           chosen = Some s \<and> dec_Rejection s = '''' \<and> rec_NextAttemptAt r' = dec_Deadline s)"
  using assms
  by (auto simp: applyActivityResolution_def Let_def same_contract_def split: ActivityResolutionAction.splits if_splits)

lemma accepted_clock:
  "dec_Rejection (chooseActivityRetrySchedule p n now hint sample) = '''' \<Longrightarrow>
    activityScheduleTimeValid now \<and> 1 \<le> n \<and> n < pol_MaxAttempts p \<and> validateActivityRetry p = None"
  by (rule ccontr) (auto simp: choose_cases Let_def split: if_splits)

lemma accepted_choice:
  assumes "schedule_typed (pol_Schedule p)" and "dec_Rejection (chooseActivityRetrySchedule p n now hint sample) = ''''"
  shows "validActivityRetryScheduleDecision p (Some (chooseActivityRetrySchedule p n now hint sample))"
    and "dec_Attempt (chooseActivityRetrySchedule p n now hint sample) = n"
    and "dec_PreparedAt (chooseActivityRetrySchedule p n now hint sample) = now"
    and "dec_Deadline (chooseActivityRetrySchedule p n now hint sample) \<noteq> 0"
proof -
  from accepted_clock [OF assms(2)]
  show v: "validActivityRetryScheduleDecision p (Some (chooseActivityRetrySchedule p n now hint sample))"
    using choose_accepted [OF assms(1)] by simp
  show "dec_Deadline (chooseActivityRetrySchedule p n now hint sample) \<noteq> 0"
    by (rule choose_accepted_deadline [OF assms(1) v assms(2)])
qed (simp_all add: choose_fields)

lemma resolve_inv:
  assumes i: "activity_inv sha r" and st: "rec_State r \<in> {ActivityRunning, ActivityUnknown}"
    and ok: "resolveActivityRecord revision incarnation now sample rsn r = Ok r'"
    and d: "rsn_DecisionID rsn \<noteq> ''''" "rsn_Reason rsn \<noteq> ''''" "rsn_Evidence rsn \<noteq> ''''" "\<not> IsZero now"
      "incarnation \<noteq> 0" "revision \<noteq> 0"
    and fresh: "\<forall>e \<in> set (rec_Resolutions r). res_DecisionID e \<noteq> rsn_DecisionID rsn \<and> res_SourceRevision e < revision"
  shows "activity_inv sha r'"
proof -
  note o = outstanding [OF i st]
  from i have t: "schedule_typed (pol_Schedule (rec_Retry r))" by (simp add: activity_inv_def)
  define r1 where "r1 = (if rec_State r = ActivityRunning
    then r\<lparr>rec_Attempts := map_last markUnknownAttempt (rec_Attempts r)\<rparr> else r)"
  have f1: "record_frame sha r1"
  proof (cases "rec_State r = ActivityRunning")
    case True
    show ?thesis
      by (rule frame_replace_last [OF o(1,2,6), where a = "markUnknownAttempt (last_attempt r)"])
        (use o True in \<open>simp_all add: r1_def markUnknownAttempt_def map_last_snoc same_contract_def
          validateActivityAttempt_def own_schedule_ok_def\<close>)
  qed (simp add: r1_def o(1))
  have u: "att_State (last_attempt r1) = ActivityUnknown" "attempts_len r1 = attempts_len r" "rec_Attempts r1 \<noteq> []"
    "rec_Resolutions r1 = rec_Resolutions r" "rec_Retry r1 = rec_Retry r" "rec_Outcome r1 = ''''"
    using o st by (auto simp: r1_def markUnknownAttempt_def)
  from ok obtain r2 chosen where a: "applyActivityResolution r1 rsn now sample = Ok (r2, chosen)"
    and r': "r' = r2\<lparr>rec_Resolutions := rec_Resolutions r2 @
         [\<lparr>res_DecisionID = rsn_DecisionID rsn, res_Attempt = attempts_len r2, res_Action = rsn_Action rsn,
           res_PriorState = rec_State r, res_SourceRevision = revision, res_Incarnation = incarnation,
           res_Reason = rsn_Reason rsn, res_Evidence = rsn_Evidence rsn,
           res_SafeRetryContract = rsn_SafeRetryContract rsn, res_RetrySchedule = chosen, res_At = now\<rparr>]\<rparr>"
    by (auto simp: resolveActivityRecord_def Let_def res_simps simp flip: r1_def)
  note out = resolution_outcome [OF a]
  define e where "e = last (rec_Resolutions r')"
  have e: "rec_Resolutions r' = rec_Resolutions r @ [e]" "res_Attempt e = attempts_len r" "res_Action e = rsn_Action rsn"
    "res_RetrySchedule e = chosen" "res_SourceRevision e = revision" "res_DecisionID e = rsn_DecisionID rsn"
    "res_SafeRetryContract e = rsn_SafeRetryContract rsn" "res_At e = now"
    using out u by (simp_all add: r' e_def)
  have sc: "chosen = Some s \<Longrightarrow> validActivityRetryScheduleDecision (rec_Retry r) (Some s) \<and> dec_Rejection s = ''''
      \<and> dec_Attempt s = attempts_len r \<and> dec_PreparedAt s = now \<and> dec_Deadline s \<noteq> 0" for s
    using out(5) accepted_choice [OF t] by (auto simp: u Let_def)
  have act: "validActivityDecisionAction e (rec_Retry r1)"
    using out(5) sc unfolding validActivityDecisionAction_def e by (auto simp: u e Let_def)
  have dk: "decision_ok r1 e"
    using d st act u nth_pred_length [OF u(3)]
    by (auto simp: decision_ok_def e r') (simp_all add: e_def r' out u)
  have f: "record_frame sha r'"
  proof (rule frame_append_decision [OF f1 _ _ _ dk])
    show "same_contract r1 r'" "rec_Attempts r' = rec_Attempts r1" "rec_Resolutions r' = rec_Resolutions r1 @ [e]"
      using out e u by (simp_all add: r' same_contract_def)
    show "0 < res_Attempt e" "0 < res_SourceRevision e"
      using o(2) d by (simp_all add: e word_gt_0)
    show "\<forall>x \<in> set (rec_Resolutions r1). decision_less x e \<and> res_DecisionID x \<noteq> res_DecisionID e"
      using o(6) fresh by (auto simp: u e)
  qed
  have m: "validManualActivityOrigin r'"
    using out(2,5) u e by (auto simp: validManualActivityOrigin_def r' Let_def)
  have s: "validateActivityRecordState r' = None"
    using out u sc e(1,4) unfolding validateActivityRecordState_def
    by (auto simp: r' Let_def validCompletedActivity_def validFailedActivity_def validPreparedActivity_def
        validPreparedActivitySchedule_def same_contract_def)
  have "rec_Retry r' = rec_Retry r" "rec_State r' \<notin> {ActivityRunning, ActivityUnknown}"
    using out(1,5) u by (auto simp: r' same_contract_def)
  with f m s t show ?thesis by (simp add: activity_inv_def validateActivityRecord_iff)
qed

section \<open>The state machine of a record\<close>

datatype activity_event = Started | Orphaned | Failed | Finished | Reconciled | Resolved

text \<open>
  One transition with the values its environment supplies: the clock, the lease
  incarnation, the host's classifier and the operator's decision. The guards are
  those of \<open>callActivity\<close>, \<open>recoverActivityLocked\<close>, \<open>finishActivityLocked\<close> and
  \<open>resolutionActivityRecord\<close>.
\<close>

inductive activity_step :: "ActivityRecord \<Rightarrow> activity_event \<Rightarrow> ActivityRecord \<Rightarrow> bool" where
  start: "preparedActivityError r revision now = None \<Longrightarrow> \<not> IsZero now \<Longrightarrow> incarnation \<noteq> 0 \<Longrightarrow>
    activity_step r Started (startActivityAttempt incarnation now r)"
| orphan: "rec_State r = ActivityRunning \<Longrightarrow> att_Incarnation (last_attempt r) \<noteq> incarnation \<Longrightarrow>
    activity_step r Orphaned (markActivityUnknown r)"
| fail: "rec_State r = ActivityRunning \<Longrightarrow> activityScheduleTimeValid now \<Longrightarrow>
    activity_step r Failed
      (recordActivityFailure now sample message (fst (classifyActivityFailure classify dispatchErr)) r)"
| finish: "rec_State r = ActivityRunning \<Longrightarrow> origin \<in> {ActivityLive, ActivitySimulated} \<Longrightarrow> \<not> IsZero now \<Longrightarrow>
    activity_step r Finished (completeActivity now payload origin r)"
| reconcile: "rec_State r = ActivityUnknown \<Longrightarrow>
    activity_step r Reconciled (completeActivity now payload ActivityReconciled r)"
| resolve: "rec_State r \<in> {ActivityRunning, ActivityUnknown} \<Longrightarrow>
    rsn_DecisionID rsn \<noteq> '''' \<Longrightarrow> rsn_Reason rsn \<noteq> '''' \<Longrightarrow> rsn_Evidence rsn \<noteq> '''' \<Longrightarrow> \<not> IsZero now \<Longrightarrow>
    incarnation \<noteq> 0 \<Longrightarrow> revision \<noteq> 0 \<Longrightarrow>
    \<forall>e \<in> set (rec_Resolutions r). res_DecisionID e \<noteq> rsn_DecisionID rsn \<and> res_SourceRevision e < revision \<Longrightarrow>
    resolveActivityRecord revision incarnation now sample rsn r = Ok r' \<Longrightarrow> activity_step r Resolved r'"

inductive activity_run :: "ActivityRecord \<Rightarrow> activity_event list \<Rightarrow> ActivityRecord \<Rightarrow> bool" where
  none: "activity_run r [] r"
| more: "activity_run r evs r' \<Longrightarrow> activity_step r' ev r'' \<Longrightarrow> activity_run r (evs @ [ev]) r''"

inductive_cases activity_stepE: "activity_step r ev r'"

lemma classify_class:
  "fd_Class (fst (classifyActivityFailure classify e)) \<in> {ActivityRetryable, ActivityNonRetryable, ActivityAmbiguous}"
  by (auto simp: classifyActivityFailure_def Let_def split: option.split ActivityFailureClass.split)

lemma step_inv: "activity_step r ev r' \<Longrightarrow> activity_inv sha r \<Longrightarrow> activity_inv sha r'"
proof (induction rule: activity_step.induct)
  case (fail r now sample message classify dispatchErr)
  then show ?case by (intro failure_inv classify_class) simp_all
qed (auto intro: start_inv recover_inv complete_inv resolve_inv)

lemma run_inv: "activity_run r evs r' \<Longrightarrow> activity_inv sha r \<Longrightarrow> activity_inv sha r'"
  by (induction rule: activity_run.induct) (auto intro: step_inv)

text \<open>Each step keeps the contract, the decisions and all attempts but the last one.\<close>

lemma failure_shape:
  "rec_Attempts r \<noteq> [] \<Longrightarrow> \<exists>a. rec_Attempts (recordActivityFailure now sample message d r) = butlast (rec_Attempts r) @ [a]"
  "same_contract r (recordActivityFailure now sample message d r)"
  "rec_Resolutions (recordActivityFailure now sample message d r) = rec_Resolutions r"
  by (simp_all add: recordActivityFailure_def Let_def same_contract_def split: ActivityFailureClass.split)

definition audit_kept :: "ActivityRecord \<Rightarrow> ActivityRecord \<Rightarrow> bool" where
  "audit_kept r r' \<longleftrightarrow> same_contract r r' \<and> length (rec_Attempts r) \<le> length (rec_Attempts r')
     \<and> take (length (rec_Attempts r) - 1) (rec_Attempts r') = butlast (rec_Attempts r)
     \<and> take (length (rec_Resolutions r)) (rec_Resolutions r') = rec_Resolutions r"

lemma audit_replace_last:
  assumes "rec_Attempts r \<noteq> []" "rec_Attempts r' = butlast (rec_Attempts r) @ [a]" "same_contract r r'"
    and "rec_Resolutions r' = rec_Resolutions r @ ds"
  shows "audit_kept r r' \<and> length (rec_Attempts r') = length (rec_Attempts r)"
  using assms by (simp add: audit_kept_def)

lemma resolve_shape:
  assumes "resolveActivityRecord revision incarnation now sample rsn r = Ok r'" and "rec_Attempts r \<noteq> []"
  shows "\<exists>a d. rec_Attempts r' = butlast (rec_Attempts r) @ [a] \<and> rec_Resolutions r' = rec_Resolutions r @ [d]
    \<and> same_contract r r'"
proof -
  define r1 where "r1 = (if rec_State r = ActivityRunning
    then r\<lparr>rec_Attempts := map_last markUnknownAttempt (rec_Attempts r)\<rparr> else r)"
  from assms obtain r2 c where "applyActivityResolution r1 rsn now sample = Ok (r2, c)"
    and r': "\<exists>d. r' = r2\<lparr>rec_Resolutions := rec_Resolutions r2 @ [d]\<rparr>"
    by (auto simp: resolveActivityRecord_def Let_def res_simps simp flip: r1_def)
  from resolution_outcome(1-3) [OF this(1)] r' assms(2) show ?thesis
    by (cases "rec_State r = ActivityRunning") (auto simp: r1_def same_contract_def map_last_snoc
        intro!: exI [where P = "\<lambda>a. rec_Attempts r = butlast (rec_Attempts r) @ [a]" and x = "last_attempt r"])
qed

lemma step_audit:
  assumes "activity_step r ev r'" and "activity_inv sha r"
  shows "audit_kept r r' \<and> length (rec_Attempts r') = length (rec_Attempts r) + (if ev = Started then 1 else 0)"
  using assms
proof (induction rule: activity_step.induct)
  case (start r revision now incarnation)
  then show ?case by (simp add: audit_kept_def startActivityAttempt_def same_contract_def butlast_conv_take)
next
  case (orphan r incarnation)
  then have ne: "rec_Attempts r \<noteq> []" using outstanding(2) by blast
  from audit_replace_last [OF ne, where r' = "markActivityUnknown r" and ds = "[]"] ne show ?case
    by (simp add: markActivityUnknown_def same_contract_def map_last_snoc)
next
  case (fail r now sample message classify dispatchErr)
  then have ne: "rec_Attempts r \<noteq> []" using outstanding(2) by blast
  let ?r' = "recordActivityFailure now sample message (fst (classifyActivityFailure classify dispatchErr)) r"
  obtain a where "rec_Attempts ?r' = butlast (rec_Attempts r) @ [a]" using failure_shape(1) [OF ne] by blast
  from audit_replace_last [OF ne this failure_shape(2), of "[]"] failure_shape(3) show ?case by simp
next
  case (finish r origin now payload)
  then have ne: "rec_Attempts r \<noteq> []" using outstanding(2) by blast
  have "origin \<noteq> ActivityReconciled \<and> origin \<noteq> ActivityManual" using finish by auto
  with audit_replace_last [OF ne, where r' = "completeActivity now payload origin r" and ds = "[]"] ne
  show ?case by (simp add: completeActivity_def same_contract_def map_last_snoc)
next
  case (reconcile r now payload)
  then show ?case by (simp add: completeActivity_def audit_kept_def same_contract_def butlast_conv_take)
next
  case (resolve r rsn now incarnation revision sample r')
  then have ne: "rec_Attempts r \<noteq> []" using outstanding(2) by blast
  from resolve_shape [OF resolve(9) ne] obtain a d where "rec_Attempts r' = butlast (rec_Attempts r) @ [a]"
    "same_contract r r'" "rec_Resolutions r' = rec_Resolutions r @ [d]" by blast
  from audit_replace_last [OF ne this] show ?case by simp
qed

section \<open>Digests are 64 lowercase hexadecimal digits\<close>

definition lower_hex :: "char \<Rightarrow> bool" where
  "lower_hex c \<longleftrightarrow> in_range 48 57 c \<or> in_range 97 102 c"

lemma fromHexChar_digit:
  assumes "fromHexChar c = Some x"
  shows "x < 16" and "hexdigit x = c \<longleftrightarrow> lower_hex c"
proof -
  from assms show x: "x < 16" by (auto simp: fromHexChar_def in_range_def split: if_splits)
  have "hexdigit x = c \<longleftrightarrow> byte (hexdigit x) = byte c" by simp
  with assms x show "hexdigit x = c \<longleftrightarrow> lower_hex c"
    by (auto simp: byte_hexdigit fromHexChar_def lower_hex_def in_range_def split: if_splits)
qed

lemma hexDecode_Some:
  "hexDecodeString s = Some bs \<Longrightarrow> length s = 2 * length bs \<and> (hexEncodeToString bs = s \<longleftrightarrow> list_all lower_hex s)"
proof (induction s arbitrary: bs rule: hexDecodeString.induct)
  case (3 a b s)
  then obtain x y bs' where xy: "fromHexChar a = Some x" "fromHexChar b = Some y"
    and bs: "hexDecodeString s = Some bs'" "bs = (16 * x + y) # bs'" by (auto split: option.splits)
  note dx = fromHexChar_digit [OF xy(1)] and dy = fromHexChar_digit [OF xy(2)]
  from "3.IH" [OF refl xy(1) xy(2) bs(1)] dx dy bs(2) show ?case by (auto simp: hexEncodeToString_def)
qed (auto simp: hexEncodeToString_def)

lemma hexDecode_total: "list_all lower_hex s \<Longrightarrow> even (length s) \<Longrightarrow> \<exists>bs. hexDecodeString s = Some bs"
proof (induction s rule: hexDecodeString.induct)
  case (3 a b s)
  have "\<exists>x. fromHexChar c = Some x" if "lower_hex c" for c
    using that by (auto simp: fromHexChar_def lower_hex_def)
  with 3 show ?case by (fastforce split: option.split)
qed auto

lemma digest_iff: "validActivityDigest s \<longleftrightarrow> length s = 64 \<and> list_all lower_hex s"
proof (cases "hexDecodeString s")
  case None
  with hexDecode_total [of s] show ?thesis by (auto simp: validActivityDigest_def)
next
  case (Some bs)
  with hexDecode_Some [OF Some] show ?thesis by (auto simp: validActivityDigest_def)
qed

section \<open>Runs\<close>

lemma audit_refl: "audit_kept r r"
  by (simp add: audit_kept_def same_contract_def butlast_conv_take)

lemma audit_trans: "audit_kept r r' \<Longrightarrow> audit_kept r' r'' \<Longrightarrow> audit_kept r r''"
proof -
  assume a: "audit_kept r r'" "audit_kept r' r''"
  let ?n = "length (rec_Attempts r)" and ?m = "length (rec_Attempts r')"
  have le: "?n \<le> ?m" using a(1) by (simp add: audit_kept_def)
  have "take (?n - 1) (rec_Attempts r'') = take (?n - 1) (take (?m - 1) (rec_Attempts r''))"
    using le by (simp add: take_take min_def)
  also have "\<dots> = take (?n - 1) (take (?m - 1) (rec_Attempts r'))"
    using a(2) by (simp add: audit_kept_def butlast_conv_take)
  also have "\<dots> = take (?n - 1) (rec_Attempts r')" using le by (simp add: take_take min_def)
  finally have "take (?n - 1) (rec_Attempts r'') = butlast (rec_Attempts r)" using a(1) by (simp add: audit_kept_def)
  moreover have "take (length (rec_Resolutions r)) (rec_Resolutions r'') = rec_Resolutions r"
  proof -
    have "length (rec_Resolutions r) \<le> length (rec_Resolutions r')"
      using a(1) unfolding audit_kept_def by (metis length_take min.cobounded2 nat_le_linear min.absorb_iff1)
    then have "take (length (rec_Resolutions r)) (rec_Resolutions r'')
        = take (length (rec_Resolutions r)) (take (length (rec_Resolutions r')) (rec_Resolutions r''))"
      by (simp add: take_take min_def)
    with a show ?thesis by (simp add: audit_kept_def)
  qed
  ultimately show ?thesis using a by (simp add: audit_kept_def same_contract_def)
qed

lemma run_audit:
  "activity_run r evs r' \<Longrightarrow> activity_inv sha r \<Longrightarrow>
    audit_kept r r' \<and> length (rec_Attempts r') = length (rec_Attempts r) + count_list evs Started"
proof (induction rule: activity_run.induct)
  case (more r evs r' ev r'')
  from more.prems more.IH have IH: "audit_kept r r'"
    "length (rec_Attempts r') = length (rec_Attempts r) + count_list evs Started" by blast+
  have "activity_inv sha r'" using run_inv more by blast
  from step_audit [OF more(2) this] IH show ?case by (auto intro: audit_trans)
qed (simp add: audit_refl)

lemma final_no_step: "activity_step r ev r' \<Longrightarrow> rec_State r \<notin> {ActivityCompleted, ActivityFailed}"
  by (induction rule: activity_step.induct) (auto simp: preparedActivityError_def split: if_splits)

text \<open>Which states a step leads to while no failure and no decision is recorded.\<close>

lemma step_state:
  assumes "activity_step r ev r'" and "ev \<notin> {Failed, Resolved}"
  shows "rec_State r = ActivityPrepared \<and> ev = Started \<and> rec_State r' = ActivityRunning
    \<or> rec_State r = ActivityRunning \<and> ev = Orphaned \<and> rec_State r' = ActivityUnknown
    \<or> rec_State r \<in> {ActivityRunning, ActivityUnknown} \<and> ev \<in> {Finished, Reconciled} \<and> rec_State r' = ActivityCompleted"
  using assms
  by (induction rule: activity_step.induct)
    (auto simp: preparedActivityError_def startActivityAttempt_def markActivityUnknown_def completeActivity_def Let_def
      split: if_splits)

section \<open>Properties\<close>

text \<open>
  C2. Whatever workers, clocks, classifiers and operators do, a record that was
  created by \<open>callActivity\<close> always passes the integrity validator, has one attempt
  per dispatch intent, and never has more dispatches than the policy allows (one
  without a policy).
\<close>

theorem reachable_activity_valid:
  assumes "execution \<noteq> ''''" "node \<noteq> ''''" "activation \<noteq> 0" "key \<noteq> ''''" "impl \<noteq> ''''"
    and "validRuntimeText [execution, node, key, impl]" and "validActivityDigest inputDigest"
    and "validateActivityRetry retry = None" "schedule_typed (pol_Schedule retry)"
    and "activity_run (newActivityRecord (activityAddressIdentity sha execution node activation key)
      execution node activation key inputDigest impl retry) evs r"
  shows "validateActivityRecord sha r = None \<and> length (rec_Attempts r) = count_list evs Started
    \<and> int (count_list evs Started) \<le> attemptLimit retry"
proof -
  let ?r0 = "newActivityRecord (activityAddressIdentity sha execution node activation key)
      execution node activation key inputDigest impl retry"
  have i: "activity_inv sha ?r0" using assms(1-9) by (intro new_record_inv) simp_all
  from run_inv [OF assms(10) i] have v: "validateActivityRecord sha r = None" by (simp add: activity_inv_def)
  from run_audit [OF assms(10) i] have "rec_Retry r = retry" "length (rec_Attempts r) = count_list evs Started"
    by (simp_all add: audit_kept_def same_contract_def newActivityRecord_def)
  with v show ?thesis by (auto simp: validateActivityRecord_iff record_frame_def)
qed

definition sampleSha :: sha256 where
  "sampleSha s = replicate 64 (CHR ''0'')"

lemma sampleSha_digest: "validActivityDigest (sampleSha s)"
  by (simp add: digest_iff sampleSha_def list_all_iff lower_hex_def in_range_def byte_def)

definition sampleRecord :: ActivityRecord where
  "sampleRecord = newActivityRecord (activityAddressIdentity sampleSha ''e'' ''n'' 1 ''k'') ''e'' ''n'' 1 ''k''
     (sampleSha '''') ''i'' samplePolicy"

lemma sampleRecord_run:
  "activity_run sampleRecord [Started, Finished]
    (completeActivity 9 ''ok'' ActivityLive (startActivityAttempt 7 5 sampleRecord))"
proof -
  have s: "activity_step sampleRecord Started (startActivityAttempt 7 5 sampleRecord)"
    by (rule activity_step.start) (simp_all add: preparedActivityError_def sampleRecord_def newActivityRecord_def)
  have "activity_step (startActivityAttempt 7 5 sampleRecord) Finished
      (completeActivity 9 ''ok'' ActivityLive (startActivityAttempt 7 5 sampleRecord))"
    by (rule activity_step.finish) (simp_all add: startActivityAttempt_def)
  with s show ?thesis using activity_run.more [OF activity_run.more [OF activity_run.none]] by simp
qed

theorem reachable_activity_valid_witness:
  "validateActivityRecord sampleSha
     (completeActivity 9 ''ok'' ActivityLive (startActivityAttempt 7 5 sampleRecord)) = None"
  using reachable_activity_valid [OF _ _ _ _ _ _ _ _ _ sampleRecord_run [unfolded sampleRecord_def]]
    sampleSha_digest samplePolicy_ok sampleSchedule_ok
  by (simp add: sampleRecord_def samplePolicy_def byte_def)

text \<open>
  C3. A dispatch whose outcome is unknown is never dispatched again on its own:
  from a running or unknown record no further dispatch intent appears unless a
  returned failure was classified or an operator decided. An unknown record
  stays so until it is reconciled.
\<close>

theorem unknown_never_redispatched:
  assumes "activity_run r evs r'" and "rec_State r \<in> {ActivityRunning, ActivityUnknown}"
    and "Failed \<notin> set evs" and "Resolved \<notin> set evs"
  shows "Started \<notin> set evs \<and> rec_State r' \<in> {ActivityRunning, ActivityUnknown, ActivityCompleted}"
  using assms
proof (induction rule: activity_run.induct)
  case (more r evs r' ev r'')
  then have IH: "Started \<notin> set evs" "rec_State r' \<in> {ActivityRunning, ActivityUnknown, ActivityCompleted}" by auto
  from more have "ev \<notin> {Failed, Resolved}" by auto
  from step_state [OF more(2) this] IH show ?case by auto
qed auto

theorem unknown_never_redispatched_witness:
  "Started \<notin> set [Orphaned] \<and> rec_State (markActivityUnknown (startActivityAttempt 7 5 sampleRecord))
     \<in> {ActivityRunning, ActivityUnknown, ActivityCompleted}"
proof (rule unknown_never_redispatched)
  have "activity_step (startActivityAttempt 7 5 sampleRecord) Orphaned
      (markActivityUnknown (startActivityAttempt 7 5 sampleRecord))"
    by (rule activity_step.orphan [where incarnation = 8]) (simp_all add: startActivityAttempt_def)
  then show "activity_run (startActivityAttempt 7 5 sampleRecord) [Orphaned]
      (markActivityUnknown (startActivityAttempt 7 5 sampleRecord))"
    using activity_run.more [OF activity_run.none] by simp
qed (simp_all add: startActivityAttempt_def)

text \<open>
  C4. The audit trail is append-only and outcomes are final: no run changes the
  address or the contract of a record, an earlier attempt or a recorded
  decision, and a completed or failed record has no further step.
\<close>

theorem activity_audit_trail:
  assumes "activity_run r evs r'" and "activity_inv sha r"
  shows "audit_kept r r' \<and> (rec_State r \<in> {ActivityCompleted, ActivityFailed} \<longrightarrow> evs = [] \<and> r' = r)"
proof
  show "audit_kept r r'" using run_audit [OF assms] by simp
  from assms(1) show "rec_State r \<in> {ActivityCompleted, ActivityFailed} \<longrightarrow> evs = [] \<and> r' = r"
    by (induction rule: activity_run.induct) (use final_no_step in blast)+
qed

theorem activity_audit_trail_witness:
  "audit_kept sampleRecord (completeActivity 9 ''ok'' ActivityLive (startActivityAttempt 7 5 sampleRecord))"
proof -
  have "activity_inv sampleSha sampleRecord"
    unfolding sampleRecord_def
    by (rule new_record_inv) (use sampleSha_digest samplePolicy_ok sampleSchedule_ok in
        \<open>simp_all add: samplePolicy_def byte_def\<close>)
  from activity_audit_trail [OF sampleRecord_run this] show ?thesis by simp
qed

text \<open>
  On valid UTF-8 addresses two activities share an identity only if their
  addresses are equal or SHA-256 collides: the JSON encoding never aliases them.
\<close>

theorem identity_separates_addresses:
  assumes "validRuntimeText [execution, node, key, execution', node', key']"
    and "activityAddressIdentity sha execution node activation key
      = activityAddressIdentity sha execution' node' activation' key'"
  shows "(execution, node, activation, key) = (execution', node', activation', key')
    \<or> (\<exists>x y. x \<noteq> y \<and> sha x = sha y)"
  using assms json_array_inject [of "[JStr execution, JStr node, JNum activation, JStr key]"
      "[JStr execution', JStr node', JNum activation', JStr key']"]
  by (auto simp: activityAddressIdentity_def)

theorem identity_separates_addresses_witness:
  "activityAddressIdentity rev ''e'' ''n'' 1 ''k'' \<noteq> activityAddressIdentity rev ''e'' ''n'' 2 ''k''"
  using identity_separates_addresses [of "''e''" "''n''" "''k''" "''e''" "''n''" "''k''" rev 1 2]
  by (auto simp: byte_def)

text \<open>
  \<open>validActivityDigest\<close> accepts exactly the strings of 64 lowercase
  hexadecimal digits, although the decoder it uses also accepts upper case.
\<close>

theorem activity_digest_canonical:
  "validActivityDigest s \<longleftrightarrow> length s = 64 \<and> set s \<subseteq> set ''0123456789abcdef''"
proof -
  have "lower_hex c \<longleftrightarrow> c \<in> set ''0123456789abcdef''" for c
  proof
    have "list_all lower_hex ''0123456789abcdef''" by (simp add: lower_hex_def in_range_def byte_def)
    moreover assume "c \<in> set ''0123456789abcdef''"
    ultimately show "lower_hex c" by (simp only: list_all_iff)
  next
    assume "lower_hex c"
    then have "\<exists>x. fromHexChar c = Some x" by (auto simp: fromHexChar_def lower_hex_def)
    then obtain x where x: "fromHexChar c = Some x" ..
    from fromHexChar_digit [OF x] \<open>lower_hex c\<close> have "x \<in> set [0..<16]" "c = hexdigit x" by auto
    then have "c \<in> set (map hexdigit [0..<16])" by (metis image_eqI set_map)
    also have "map hexdigit [0..<16] = ''0123456789abcdef''"
      by (simp add: hexdigit_def upt_rec char_of_def bit_0)
    finally show "c \<in> set ''0123456789abcdef''" .
  qed
  then have "list_all lower_hex s \<longleftrightarrow> set s \<subseteq> set ''0123456789abcdef''"
    by (simp only: list_all_iff subset_iff Ball_def)
  then show ?thesis by (simp only: digest_iff)
qed

end
