(* ===== verification/Durable_Wait.thy ===== *)
theory Durable_Wait
  imports Activity_Record
begin

text \<open>
  Durable waits: the wait contract (durable\_wait\_contract.go, the profile of
  durable\_wait\_backend.go), the pure arbitration of deliveries
  (durable\_wait\_arbitration.go), the address lookup of
  durable\_wait\_delivery.go and the record part of cancellation
  (durable\_wait\_cancellation.go). A record is valid at a revision of its
  execution; every committed decision raises that revision.
\<close>

section \<open>Data\<close>

record WaitCapabilityProfile =
  prf_Label :: string
  prf_JournalOwner :: string
  prf_LeaseOwner :: string
  prf_TimerOwner :: string
  prf_ClockOwner :: string
  prf_RetryOwner :: string
  prf_RecoveryOwner :: string

definition WaitCapabilityProfile_Validate :: "WaitCapabilityProfile \<Rightarrow> err option" where
  "WaitCapabilityProfile_Validate p =
    reject (prf_Label p = '''' \<or> prf_JournalOwner p = '''' \<or> prf_LeaseOwner p = '''' \<or> prf_TimerOwner p = ''''
      \<or> \<not> validRuntimeText [prf_Label p, prf_JournalOwner p, prf_LeaseOwner p, prf_TimerOwner p, prf_ClockOwner p,
          prf_RetryOwner p, prf_RecoveryOwner p]
      \<or> prf_ClockOwner p = '''' \<or> prf_RetryOwner p = '''' \<or> prf_RecoveryOwner p = '''') ErrExecutionCapability"

datatype WaitState = WaitArmed | WaitResolved | WaitExpired | WaitCanceled | WaitStateOther string

datatype WaitWinnerPolicy = WaitFirstCommitted | WaitWinnerPolicyOther string

text \<open>The deadline carries the offset of its zone in seconds next to its instant.\<close>

record DurableWaitSpec =
  wsp_ID :: string
  wsp_CorrelationID :: string
  wsp_Deadline :: gotime
  wsp_DeadlineOffset :: int
  wsp_MatcherLabel :: string
  wsp_PayloadCodec :: string
  wsp_ContinuationLabel :: string
  wsp_EventPointer :: string
  wsp_TimeoutPointer :: string
  wsp_WinnerPolicy :: WaitWinnerPolicy

text \<open>\<open>time.Time.MarshalJSON\<close> fails outside the years 0 to 9999; year 0 has 366 days.\<close>

definition marshalTimeOK :: "gotime \<Rightarrow> bool" where
  "marshalTimeOK t \<longleftrightarrow> - (366 * 86400 * 1000000000) \<le> t \<and> t < year_10000"

definition DurableWaitSpec_Validate :: "DurableWaitSpec \<Rightarrow> err option" where
  "DurableWaitSpec_Validate s =
    (if wsp_ID s = '''' \<or> wsp_CorrelationID s = '''' \<or> IsZero (wsp_Deadline s) \<or> wsp_DeadlineOffset s \<noteq> 0
        \<or> \<not> validRuntimeText [wsp_ID s, wsp_CorrelationID s, wsp_MatcherLabel s, wsp_PayloadCodec s,
            wsp_ContinuationLabel s, wsp_EventPointer s, wsp_TimeoutPointer s]
        \<or> wsp_MatcherLabel s = '''' \<or> wsp_PayloadCodec s = '''' \<or> wsp_ContinuationLabel s = ''''
        \<or> wsp_EventPointer s = '''' \<or> wsp_TimeoutPointer s = '''' \<or> wsp_WinnerPolicy s \<noteq> WaitFirstCommitted
     then Some (Sent ErrWaitInvalid)
     else reject (\<not> marshalTimeOK (wsp_Deadline s)) ErrWaitInvalid)"

datatype WaitDeliveryKind = WaitEvent | WaitTimer | WaitDeliveryKindOther string

record WaitDelivery =
  wdl_Generation :: string
  wdl_ID :: string
  wdl_Kind :: WaitDeliveryKind
  wdl_CorrelationID :: string
  wdl_ExpectedRevision :: uint64
  wdl_Payload :: string

datatype WaitDecisionStatus = WaitAccepted | WaitUnmatched | WaitLost | WaitRejectedCanceled
  | WaitDecisionStatusOther string

record WaitDecision =
  wdc_ID :: string
  wdc_Kind :: WaitDeliveryKind
  wdc_CorrelationID :: string
  wdc_PayloadDigest :: string
  wdc_Status :: WaitDecisionStatus
  wdc_SourceRevision :: uint64
  wdc_Incarnation :: uint64
  wdc_At :: gotime

record WaitCancellation =
  wcr_Generation :: string
  wcr_ID :: string
  wcr_Reason :: string
  wcr_Evidence :: string

record WaitCancellationRecord =
  wcn_ID :: string
  wcn_Reason :: string
  wcn_Evidence :: string
  wcn_SourceRevision :: uint64
  wcn_Incarnation :: uint64
  wcn_At :: gotime

record DurableWaitRecord =
  wrc_ExecutionID :: string
  wrc_Node :: string
  wrc_Activation :: uint64
  wrc_Generation :: string
  wrc_ArmRevision :: uint64
  wrc_Spec :: DurableWaitSpec
  wrc_Profile :: WaitCapabilityProfile
  wrc_State :: WaitState
  wrc_WinnerID :: string
  wrc_Decisions :: "(string, WaitDecision) gomap"
  wrc_Cancellation :: "WaitCancellationRecord option"

section \<open>Identity and planning\<close>

definition waitIdentity :: "sha256 \<Rightarrow> string \<Rightarrow> string \<Rightarrow> uint64 \<Rightarrow> string \<Rightarrow> string" where
  "waitIdentity sha execution node activation wid
    = sha (json_array [JStr ''flowy-wait'', JStr execution, JStr node, JNum activation, JStr wid])"

definition waitGeneration :: "sha256 \<Rightarrow> string \<Rightarrow> uint64 \<Rightarrow> string" where
  "waitGeneration sha identity revision
    = sha (json_array [JStr ''flowy-wait-generation'', JStr identity, JNum revision])"

definition planDurableWait ::
    "sha256 \<Rightarrow> string \<Rightarrow> string \<Rightarrow> uint64 \<Rightarrow> uint64 \<Rightarrow> DurableWaitSpec \<Rightarrow> WaitCapabilityProfile \<Rightarrow> DurableWaitRecord res" where
  "planDurableWait sha execution node activation revision spec profile =
    (if DurableWaitSpec_Validate spec \<noteq> None \<or> WaitCapabilityProfile_Validate profile \<noteq> None
        \<or> execution = '''' \<or> node = '''' \<or> activation = 0 \<or> revision = 0 then Err ErrWaitInvalid
     else Ok \<lparr>wrc_ExecutionID = execution, wrc_Node = node, wrc_Activation = activation,
       wrc_Generation = waitGeneration sha (waitIdentity sha execution node activation (wsp_ID spec)) revision,
       wrc_ArmRevision = revision, wrc_Spec = spec, wrc_Profile = profile, wrc_State = WaitArmed,
       wrc_WinnerID = '''', wrc_Decisions = [], wrc_Cancellation = None\<rparr>)"

section \<open>Validity of a record at a revision\<close>

definition waitPayloadDigest :: "sha256 \<Rightarrow> string \<Rightarrow> string" where
  "waitPayloadDigest sha payload = sha payload"

definition canonicalWaitDigest :: "string \<Rightarrow> bool" where
  "canonicalWaitDigest digest =
    (case hexDecodeString digest of None \<Rightarrow> False
     | Some decoded \<Rightarrow> length decoded = 32 \<and> hexEncodeToString decoded = digest)"

definition validWaitCancellation :: "DurableWaitRecord \<Rightarrow> uint64 \<Rightarrow> bool" where
  "validWaitCancellation r revision =
    (if wrc_State r \<noteq> WaitCanceled then wrc_Cancellation r = None
     else case wrc_Cancellation r of
       None \<Rightarrow> False
     | Some c \<Rightarrow> wcn_ID c \<noteq> '''' \<and> wcn_Reason c \<noteq> '''' \<and> wcn_Evidence c \<noteq> ''''
         \<and> wcn_SourceRevision c \<ge> wrc_ArmRevision r \<and> wcn_SourceRevision c < revision
         \<and> wcn_Incarnation c \<noteq> 0 \<and> \<not> IsZero (wcn_At c)
         \<and> validRuntimeText [wcn_ID c, wcn_Reason c, wcn_Evidence c])"

text \<open>The zero value a Go map returns for an absent winner.\<close>

definition noDecision :: WaitDecision where
  "noDecision = \<lparr>wdc_ID = '''', wdc_Kind = WaitDeliveryKindOther '''', wdc_CorrelationID = '''', wdc_PayloadDigest = '''',
     wdc_Status = WaitDecisionStatusOther '''', wdc_SourceRevision = 0, wdc_Incarnation = 0, wdc_At = 0\<rparr>"

definition waitWinner :: "DurableWaitRecord \<Rightarrow> WaitDecision" where
  "waitWinner r = (case lookup (wrc_Decisions r) (wrc_WinnerID r) of None \<Rightarrow> noDecision | Some d \<Rightarrow> d)"

definition validWaitDecisionState :: "DurableWaitRecord \<Rightarrow> WaitDecision \<Rightarrow> WaitDecision \<Rightarrow> bool" where
  "validWaitDecisionState r d winner =
    (case wdc_Status d of
       WaitAccepted \<Rightarrow> wdc_ID d = wrc_WinnerID r
         \<and> ((wrc_State r = WaitResolved \<and> wdc_Kind d = WaitEvent) \<or> (wrc_State r = WaitExpired \<and> wdc_Kind d = WaitTimer))
     | WaitUnmatched \<Rightarrow> wdc_Kind d = WaitEvent
         \<and> (wrc_WinnerID r = '''' \<or> wdc_SourceRevision d < wdc_SourceRevision winner)
         \<and> (case wrc_Cancellation r of None \<Rightarrow> True | Some c \<Rightarrow> wdc_SourceRevision d < wcn_SourceRevision c)
     | WaitLost \<Rightarrow> wrc_WinnerID r \<noteq> '''' \<and> wdc_SourceRevision d > wdc_SourceRevision winner
     | WaitRejectedCanceled \<Rightarrow> wrc_State r = WaitCanceled
         \<and> (case wrc_Cancellation r of None \<Rightarrow> False | Some c \<Rightarrow> wdc_SourceRevision d > wcn_SourceRevision c)
     | _ \<Rightarrow> False)"

fun wait_decisions_loop ::
    "sha256 \<Rightarrow> DurableWaitRecord \<Rightarrow> uint64 \<Rightarrow> uint64 set \<Rightarrow> (string \<times> WaitDecision) list \<Rightarrow> err option" where
  "wait_decisions_loop sha r revision sources [] = None"
| "wait_decisions_loop sha r revision sources ((k, d) # ds) =
    (if k = '''' \<or> k \<noteq> wdc_ID d \<or> wdc_CorrelationID d \<noteq> wsp_CorrelationID (wrc_Spec r)
        \<or> wdc_Incarnation d = 0 \<or> IsZero (wdc_At d)
        \<or> wdc_SourceRevision d < wrc_ArmRevision r \<or> wdc_SourceRevision d \<ge> revision
        \<or> wdc_SourceRevision d \<in> sources \<or> \<not> canonicalWaitDigest (wdc_PayloadDigest d)
        \<or> (wdc_Kind d \<noteq> WaitEvent \<and> wdc_Kind d \<noteq> WaitTimer) then Some (Sent ErrWaitInvalid)
     else if wdc_Kind d = WaitTimer \<and> (wdc_At d < wsp_Deadline (wrc_Spec r)
        \<or> wdc_PayloadDigest d \<noteq> waitPayloadDigest sha '''') then Some (Sent ErrWaitInvalid)
     else if \<not> validWaitDecisionState r d (waitWinner r) then Some (Sent ErrWaitInvalid)
     else wait_decisions_loop sha r revision (insert (wdc_SourceRevision d) sources) ds)"

definition validateWaitDecisions :: "sha256 \<Rightarrow> DurableWaitRecord \<Rightarrow> uint64 \<Rightarrow> err option" where
  "validateWaitDecisions sha r revision =
    (let sources = (case wrc_Cancellation r of None \<Rightarrow> {} | Some c \<Rightarrow> {wcn_SourceRevision c}) in
     if wrc_WinnerID r \<noteq> '''' \<and> (lookup (wrc_Decisions r) (wrc_WinnerID r) = None
        \<or> wdc_Status (waitWinner r) \<noteq> WaitAccepted) then Some (Sent ErrWaitInvalid)
     else wait_decisions_loop sha r revision sources (wrc_Decisions r))"

definition validateDurableWait :: "sha256 \<Rightarrow> DurableWaitRecord \<Rightarrow> uint64 \<Rightarrow> err option" where
  "validateDurableWait sha r revision =
    (let identity = waitIdentity sha (wrc_ExecutionID r) (wrc_Node r) (wrc_Activation r) (wsp_ID (wrc_Spec r)) in
     if wrc_ExecutionID r = '''' \<or> wrc_Node r = '''' \<or> wrc_Activation r = 0
        \<or> DurableWaitSpec_Validate (wrc_Spec r) \<noteq> None \<or> WaitCapabilityProfile_Validate (wrc_Profile r) \<noteq> None
        \<or> wrc_ArmRevision r = 0 \<or> wrc_ArmRevision r > revision
        \<or> wrc_Generation r \<noteq> waitGeneration sha identity (wrc_ArmRevision r) then Some (Sent ErrWaitInvalid)
     else if \<not> validWaitCancellation r revision then Some (Sent ErrWaitInvalid)
     else orElse
       (case wrc_State r of
          WaitArmed \<Rightarrow> reject (wrc_WinnerID r \<noteq> '''') ErrWaitInvalid
        | WaitCanceled \<Rightarrow> reject (wrc_WinnerID r \<noteq> '''') ErrWaitInvalid
        | WaitResolved \<Rightarrow> reject (wrc_WinnerID r = '''') ErrWaitInvalid
        | WaitExpired \<Rightarrow> reject (wrc_WinnerID r = '''') ErrWaitInvalid
        | _ \<Rightarrow> Some (Sent ErrWaitInvalid))
       (validateWaitDecisions sha r revision))"

section \<open>Deliveries\<close>

definition validateWaitDelivery :: "DurableWaitRecord \<Rightarrow> WaitDelivery \<Rightarrow> uint64 \<Rightarrow> err option" where
  "validateWaitDelivery r d revision =
    (if wdl_Generation d \<noteq> wrc_Generation r \<or> wdl_ExpectedRevision d < wrc_ArmRevision r
        \<or> wdl_ExpectedRevision d > revision then Some (Sent ErrWaitStale)
     else reject (wdl_ID d = '''' \<or> (wdl_Kind d \<noteq> WaitEvent \<and> wdl_Kind d \<noteq> WaitTimer)) ErrWaitInvalid)"

definition waitDecisionStatus :: "DurableWaitRecord \<Rightarrow> WaitDeliveryKind \<Rightarrow> bool \<Rightarrow> WaitDecisionStatus" where
  "waitDecisionStatus r kind matched =
    (if wrc_State r = WaitCanceled then WaitRejectedCanceled
     else if wrc_State r \<noteq> WaitArmed then WaitLost
     else if kind = WaitEvent \<and> \<not> matched then WaitUnmatched
     else WaitAccepted)"

text \<open>The target record, the decision and the replay flag.\<close>

definition prepareWaitDecision ::
    "sha256 \<Rightarrow> DurableWaitRecord \<Rightarrow> WaitDelivery \<Rightarrow> uint64 \<Rightarrow> uint64 \<Rightarrow> gotime \<Rightarrow> bool
     \<Rightarrow> (DurableWaitRecord \<times> WaitDecision \<times> bool) res" where
  "prepareWaitDecision sha r d revision incarnation now matched =
    (if validateDurableWait sha r revision \<noteq> None \<or> incarnation = 0 \<or> IsZero now then Err ErrWaitInvalid
     else check (validateWaitDelivery r d revision)
       (case lookup (wrc_Decisions r) (wdl_ID d) of
          Some prior \<Rightarrow>
            if wdc_Kind prior \<noteq> wdl_Kind d \<or> wdc_CorrelationID prior \<noteq> wdl_CorrelationID d
               \<or> wdc_PayloadDigest prior \<noteq> waitPayloadDigest sha (wdl_Payload d) then Err ErrWaitConflict
            else Ok (r, prior, True)
        | None \<Rightarrow>
            if revision = - 1 then Err ErrWaitInvalid
            else if wdl_CorrelationID d \<noteq> wsp_CorrelationID (wrc_Spec r)
               \<or> (wdl_Kind d = WaitTimer \<and> wdl_Payload d \<noteq> '''') then Err ErrWaitInvalid
            else if wdl_Kind d = WaitTimer \<and> now < wsp_Deadline (wrc_Spec r) then Err ErrWaitInvalid
            else if wrc_State r = WaitArmed \<and> wdl_ExpectedRevision d \<noteq> revision then Err ErrWaitStale
            else
              let status = waitDecisionStatus r (wdl_Kind d) matched;
                  decision = \<lparr>wdc_ID = wdl_ID d, wdc_Kind = wdl_Kind d, wdc_CorrelationID = wdl_CorrelationID d,
                    wdc_PayloadDigest = waitPayloadDigest sha (wdl_Payload d), wdc_Status = status,
                    wdc_SourceRevision = revision, wdc_Incarnation = incarnation, wdc_At = now\<rparr>;
                  won = (if status = WaitAccepted
                    then r\<lparr>wrc_WinnerID := wdl_ID d,
                           wrc_State := (if wdl_Kind d = WaitTimer then WaitExpired else WaitResolved)\<rparr>
                    else r)
              in Ok (won\<lparr>wrc_Decisions := put (wdl_ID d) decision (wrc_Decisions won)\<rparr>, decision, False)))"

definition findWaitGeneration ::
    "(string, DurableWaitRecord) gomap \<Rightarrow> string \<Rightarrow> (string \<times> DurableWaitRecord) res" where
  "findWaitGeneration waits generation =
    (if waits = [] then Err ErrWaitNotArmed
     else case List.find (\<lambda>(identity, r). wrc_Generation r = generation) waits of
       None \<Rightarrow> Err ErrWaitUnknown
     | Some e \<Rightarrow> Ok e)"

section \<open>Cancellation\<close>

text \<open>\<open>token\<close> and \<open>source\<close> are the revisions of the resume token and of the loaded execution.\<close>

definition validateWaitCancellationRequest ::
    "uint64 \<Rightarrow> bool \<Rightarrow> DurableWaitRecord \<Rightarrow> uint64 \<Rightarrow> WaitCancellation \<Rightarrow> err option" where
  "validateWaitCancellationRequest source terminal r token request =
    (if token < wrc_ArmRevision r \<or> token > source then Some (Sent ErrWaitStale)
     else if wrc_State r = WaitCanceled then
       (case wrc_Cancellation r of
          None \<Rightarrow> Some (Sent ErrWaitConflict)
        | Some prior \<Rightarrow>
            if wcn_ID prior \<noteq> wcr_ID request then Some (Sent ErrWaitCanceled)
            else reject (wcn_Reason prior \<noteq> wcr_Reason request \<or> wcn_Evidence prior \<noteq> wcr_Evidence request) ErrWaitConflict)
     else if wrc_State r = WaitExpired then Some (Sent (Also ErrWaitExpired))
     else if wrc_State r \<noteq> WaitArmed \<or> terminal then Some (Sent ErrWaitConflict)
     else if token \<noteq> source then Some (Sent ErrWaitStale)
     else reject (source = - 1) ErrWaitInvalid)"

definition cancelWaitRecord :: "WaitCancellation \<Rightarrow> uint64 \<Rightarrow> uint64 \<Rightarrow> gotime \<Rightarrow> DurableWaitRecord \<Rightarrow> DurableWaitRecord" where
  "cancelWaitRecord request source incarnation now r =
    r\<lparr>wrc_State := WaitCanceled, wrc_Cancellation := Some \<lparr>wcn_ID = wcr_ID request, wcn_Reason = wcr_Reason request,
       wcn_Evidence = wcr_Evidence request, wcn_SourceRevision = source, wcn_Incarnation = incarnation, wcn_At = now\<rparr>\<rparr>"

section \<open>What validity means\<close>

definition wait_decision_ok :: "sha256 \<Rightarrow> DurableWaitRecord \<Rightarrow> uint64 \<Rightarrow> string \<Rightarrow> WaitDecision \<Rightarrow> bool" where
  "wait_decision_ok sha r revision k d \<longleftrightarrow> k \<noteq> '''' \<and> k = wdc_ID d \<and> wdc_CorrelationID d = wsp_CorrelationID (wrc_Spec r)
     \<and> wdc_Incarnation d \<noteq> 0 \<and> \<not> IsZero (wdc_At d)
     \<and> wrc_ArmRevision r \<le> wdc_SourceRevision d \<and> wdc_SourceRevision d < revision
     \<and> canonicalWaitDigest (wdc_PayloadDigest d) \<and> wdc_Kind d \<in> {WaitEvent, WaitTimer}
     \<and> (wdc_Kind d = WaitTimer \<longrightarrow> wsp_Deadline (wrc_Spec r) \<le> wdc_At d \<and> wdc_PayloadDigest d = waitPayloadDigest sha '''')
     \<and> validWaitDecisionState r d (waitWinner r)"

lemma wait_loop_Cons:
  "wait_decisions_loop sha r revision sources ((k, d) # ds) = None \<longleftrightarrow>
    wait_decision_ok sha r revision k d \<and> wdc_SourceRevision d \<notin> sources
    \<and> wait_decisions_loop sha r revision (insert (wdc_SourceRevision d) sources) ds = None"
  by (simp add: wait_decision_ok_def not_less not_le) blast

declare wait_decisions_loop.simps(2) [simp del]

lemma wait_loop_iff:
  "wait_decisions_loop sha r revision sources ds = None \<longleftrightarrow>
    (\<forall>(k, d) \<in> set ds. wait_decision_ok sha r revision k d \<and> wdc_SourceRevision d \<notin> sources)
    \<and> distinct (map (\<lambda>e. wdc_SourceRevision (snd e)) ds)"
proof (induction ds arbitrary: sources)
  case (Cons e ds)
  obtain k d where e: "e = (k, d)" by (cases e)
  show ?case unfolding e wait_loop_Cons Cons.IH by (auto simp: image_iff)
qed simp

text \<open>The header of a record does not depend on its decisions.\<close>

definition wait_header :: "sha256 \<Rightarrow> DurableWaitRecord \<Rightarrow> bool" where
  "wait_header sha r \<longleftrightarrow> wrc_ExecutionID r \<noteq> '''' \<and> wrc_Node r \<noteq> '''' \<and> wrc_Activation r \<noteq> 0
     \<and> DurableWaitSpec_Validate (wrc_Spec r) = None \<and> WaitCapabilityProfile_Validate (wrc_Profile r) = None
     \<and> wrc_ArmRevision r \<noteq> 0 \<and> wrc_Generation r = waitGeneration sha
         (waitIdentity sha (wrc_ExecutionID r) (wrc_Node r) (wrc_Activation r) (wsp_ID (wrc_Spec r))) (wrc_ArmRevision r)"

definition wait_sources :: "DurableWaitRecord \<Rightarrow> uint64 set" where
  "wait_sources r = (case wrc_Cancellation r of None \<Rightarrow> {} | Some c \<Rightarrow> {wcn_SourceRevision c})"

definition winner_state_ok :: "DurableWaitRecord \<Rightarrow> bool" where
  "winner_state_ok r \<longleftrightarrow> wrc_State r \<in> {WaitArmed, WaitCanceled} \<and> wrc_WinnerID r = ''''
     \<or> wrc_State r \<in> {WaitResolved, WaitExpired} \<and> wrc_WinnerID r \<noteq> ''''
       \<and> (\<exists>w. lookup (wrc_Decisions r) (wrc_WinnerID r) = Some w \<and> wdc_Status w = WaitAccepted)"

lemma validateDurableWait_iff:
  "validateDurableWait sha r revision = None \<longleftrightarrow> wait_header sha r \<and> wrc_ArmRevision r \<le> revision
     \<and> validWaitCancellation r revision \<and> winner_state_ok r
     \<and> (\<forall>(k, d) \<in> set (wrc_Decisions r). wait_decision_ok sha r revision k d \<and> wdc_SourceRevision d \<notin> wait_sources r)
     \<and> distinct (map (\<lambda>e. wdc_SourceRevision (snd e)) (wrc_Decisions r))"
proof -
  have s: "validateWaitDecisions sha r revision = None \<longleftrightarrow>
      (wrc_WinnerID r \<noteq> '''' \<longrightarrow> (\<exists>w. lookup (wrc_Decisions r) (wrc_WinnerID r) = Some w \<and> wdc_Status w = WaitAccepted))
      \<and> wait_decisions_loop sha r revision (wait_sources r) (wrc_Decisions r) = None"
    by (cases "wrc_WinnerID r = ''''"; cases "lookup (wrc_Decisions r) (wrc_WinnerID r)")
      (simp_all add: validateWaitDecisions_def wait_sources_def waitWinner_def Let_def)
  show ?thesis
    unfolding validateDurableWait_def Let_def wait_header_def winner_state_ok_def
    by (cases "wrc_State r") (auto simp: res_simps s wait_loop_iff not_less)
qed

lemma put_absent: "lookup m k = None \<Longrightarrow> put k v m = m @ [(k, v)]"
  by (induction m) auto

lemma validity_later:
  assumes "validateDurableWait sha r revision = None" and "revision \<le> later"
  shows "validateDurableWait sha r later = None"
  using assms unfolding validateDurableWait_iff validWaitCancellation_def wait_decision_ok_def
  by (fastforce split: option.splits if_splits intro: less_le_trans order_trans)

lemma plan_valid:
  assumes "planDurableWait sha execution node activation revision spec profile = Ok r"
  shows "validateDurableWait sha r revision = None" and "wrc_State r = WaitArmed" and "wrc_Decisions r = []"
  using assms
  by (auto simp: planDurableWait_def validateDurableWait_iff wait_header_def validWaitCancellation_def winner_state_ok_def
      split: if_splits)

section \<open>Arbitration\<close>

definition newWaitDecision :: "sha256 \<Rightarrow> DurableWaitRecord \<Rightarrow> WaitDelivery \<Rightarrow> uint64 \<Rightarrow> uint64 \<Rightarrow> gotime \<Rightarrow> bool \<Rightarrow> WaitDecision" where
  "newWaitDecision sha r d revision incarnation now matched =
    \<lparr>wdc_ID = wdl_ID d, wdc_Kind = wdl_Kind d, wdc_CorrelationID = wdl_CorrelationID d,
     wdc_PayloadDigest = waitPayloadDigest sha (wdl_Payload d),
     wdc_Status = waitDecisionStatus r (wdl_Kind d) matched,
     wdc_SourceRevision = revision, wdc_Incarnation = incarnation, wdc_At = now\<rparr>"

lemma prepare_new:
  assumes "prepareWaitDecision sha r d revision incarnation now matched = Ok (t, dec, False)"
  shows "validateDurableWait sha r revision = None" and "incarnation \<noteq> 0" and "now \<noteq> 0"
    and "wdl_Generation d = wrc_Generation r" and "wdl_ID d \<noteq> ''''" and "wdl_Kind d \<in> {WaitEvent, WaitTimer}"
    and "lookup (wrc_Decisions r) (wdl_ID d) = None" and "revision \<noteq> - 1"
    and "wdl_CorrelationID d = wsp_CorrelationID (wrc_Spec r)"
    and "wdl_Kind d = WaitTimer \<Longrightarrow> wdl_Payload d = '''' \<and> wsp_Deadline (wrc_Spec r) \<le> now"
    and "dec = newWaitDecision sha r d revision incarnation now matched"
    and "t = (if wdc_Status dec = WaitAccepted
          then r\<lparr>wrc_WinnerID := wdl_ID d, wrc_State := (if wdl_Kind d = WaitTimer then WaitExpired else WaitResolved),
             wrc_Decisions := wrc_Decisions r @ [(wdl_ID d, dec)]\<rparr>
          else r\<lparr>wrc_Decisions := wrc_Decisions r @ [(wdl_ID d, dec)]\<rparr>)"
  using assms
  by (auto simp: prepareWaitDecision_def Let_def res_simps validateWaitDelivery_def newWaitDecision_def put_absent not_less
      split: if_splits option.splits)

lemma armed_decisions_unmatched:
  assumes "validateDurableWait sha r revision = None" and "wrc_State r = WaitArmed" and "(k, d) \<in> set (wrc_Decisions r)"
  shows "wdc_Status d = WaitUnmatched" and "wdc_Kind d = WaitEvent"
proof -
  from assms have ok: "wait_decision_ok sha r revision k d" and "wrc_WinnerID r = ''''"
    by (auto simp: validateDurableWait_iff winner_state_ok_def)
  with assms(2) show "wdc_Status d = WaitUnmatched" "wdc_Kind d = WaitEvent"
    by (auto simp: wait_decision_ok_def validWaitDecisionState_def split: WaitDecisionStatus.splits option.splits)
qed

lemma winner_lookup:
  assumes "validateDurableWait sha r revision = None" and "wrc_State r \<in> {WaitResolved, WaitExpired}"
  obtains w where "lookup (wrc_Decisions r) (wrc_WinnerID r) = Some w" and "waitWinner r = w"
    and "wdc_Status w = WaitAccepted" and "wdc_SourceRevision w < revision" and "wrc_WinnerID r \<noteq> ''''"
proof -
  from assms obtain w where w: "lookup (wrc_Decisions r) (wrc_WinnerID r) = Some w" "wdc_Status w = WaitAccepted"
    "wrc_WinnerID r \<noteq> ''''" by (auto simp: validateDurableWait_iff winner_state_ok_def)
  then have "(wrc_WinnerID r, w) \<in> set (wrc_Decisions r)" by (simp add: map_of_SomeD)
  with assms(1) have "wdc_SourceRevision w < revision" by (auto simp: validateDurableWait_iff wait_decision_ok_def)
  with w that show ?thesis by (simp add: waitWinner_def)
qed

lemma canonical_is_digest: "canonicalWaitDigest = validActivityDigest"
  by (intro ext) (simp add: canonicalWaitDigest_def validActivityDigest_def)

text \<open>A record with one more decision whose old decisions stay valid is valid at the next revision.\<close>

lemma target_valid:
  assumes v: "validateDurableWait sha r revision = None" and rev: "revision \<noteq> - 1"
    and sha: "\<And>x. validActivityDigest (sha x)"
    and t: "wrc_Decisions t = wrc_Decisions r @ [(wdl_ID d, dec)]" "wait_header sha t"
      "wrc_ArmRevision t = wrc_ArmRevision r" "wrc_Spec t = wrc_Spec r" "wrc_Cancellation t = wrc_Cancellation r"
      "validWaitCancellation t revision" "winner_state_ok t"
    and dec: "dec = newWaitDecision sha r d revision incarnation now matched"
    and new: "incarnation \<noteq> 0" "now \<noteq> 0" "wdl_ID d \<noteq> ''''" "wdl_Kind d \<in> {WaitEvent, WaitTimer}"
      "wdl_CorrelationID d = wsp_CorrelationID (wrc_Spec r)"
      "wdl_Kind d = WaitTimer \<Longrightarrow> wdl_Payload d = '''' \<and> wsp_Deadline (wrc_Spec r) \<le> now"
      "validWaitDecisionState t dec (waitWinner t)"
    and old: "\<And>k e. (k, e) \<in> set (wrc_Decisions r) \<Longrightarrow> validWaitDecisionState t e (waitWinner t)"
  shows "validateDurableWait sha t (revision + 1) = None"
proof -
  have arm: "wrc_ArmRevision r \<le> revision" using v by (simp add: validateDurableWait_iff)
  have lt: "x < revision \<Longrightarrow> x < revision + 1" "x \<le> revision \<Longrightarrow> x \<le> revision + 1" for x
    using rev_succ [OF rev] by (auto intro: less_imp_le)
  have okd: "wait_decision_ok sha t (revision + 1) (wdl_ID d) dec"
    using new sha arm by (simp add: wait_decision_ok_def dec newWaitDecision_def t rev_succ [OF rev] canonical_is_digest
        waitPayloadDigest_def)
  have oke: "wait_decision_ok sha t (revision + 1) k e \<and> wdc_SourceRevision e \<notin> wait_sources t
      \<and> wdc_SourceRevision e \<noteq> revision" if e: "(k, e) \<in> set (wrc_Decisions r)" for k e
  proof -
    have "wait_decision_ok sha r revision k e" "wdc_SourceRevision e \<notin> wait_sources r"
      using v e by (auto simp: validateDurableWait_iff)
    with old [OF e] show ?thesis by (auto simp: wait_decision_ok_def t lt wait_sources_def)
  qed
  have src: "revision \<notin> wait_sources t"
    using t(6) by (auto simp: wait_sources_def validWaitCancellation_def split: option.splits if_splits)
  have canc: "validWaitCancellation t (revision + 1)"
    using t(6) lt(1) by (auto simp: validWaitCancellation_def split: option.splits if_splits)
  have dist: "distinct (map (\<lambda>e. wdc_SourceRevision (snd e)) (wrc_Decisions t))"
  proof -
    have "wdc_SourceRevision (snd e) \<noteq> revision" if "e \<in> set (wrc_Decisions r)" for e
      using oke [of "fst e" "snd e"] that by simp
    with v show ?thesis by (auto simp: validateDurableWait_iff t(1) dec newWaitDecision_def)
  qed
  have "wdc_SourceRevision dec = revision" by (simp add: dec newWaitDecision_def)
  with oke okd src canc dist t(2,7) lt(2) [OF arm] show ?thesis
    by (auto simp: validateDurableWait_iff t(1,3))
qed

lemma decision_keeps_valid:
  assumes p: "prepareWaitDecision sha r d revision incarnation now matched = Ok (t, dec, False)"
    and sha: "\<And>x. validActivityDigest (sha x)"
  shows "validateDurableWait sha t (revision + 1) = None"
proof -
  note n = prepare_new [OF p]
  note v = n(1)
  have st: "wdc_Status dec = waitDecisionStatus r (wdl_Kind d) matched" "wdc_ID dec = wdl_ID d"
    "wdc_Kind dec = wdl_Kind d" "wdc_SourceRevision dec = revision"
    by (simp_all add: n(11) newWaitDecision_def)
  have hdr: "wait_header sha r" "winner_state_ok r" "validWaitCancellation r revision"
    using v by (simp_all add: validateDurableWait_iff)
  have old: "validWaitDecisionState r e (waitWinner r)" "wdc_SourceRevision e < revision"
    if "(k, e) \<in> set (wrc_Decisions r)" for k e
    using v that by (auto simp: validateDurableWait_iff wait_decision_ok_def)
  show ?thesis
  proof (cases "wdc_Status dec = WaitAccepted")
    case True
    then have armed: "wrc_State r = WaitArmed" by (auto simp: st waitDecisionStatus_def split: if_splits)
    have tt: "t = r\<lparr>wrc_WinnerID := wdl_ID d, wrc_State := (if wdl_Kind d = WaitTimer then WaitExpired else WaitResolved),
        wrc_Decisions := wrc_Decisions r @ [(wdl_ID d, dec)]\<rparr>" using n(12) True by simp
    have win: "waitWinner t = dec" using n(7) by (simp add: waitWinner_def tt map_add_def)
    have nc: "wrc_Cancellation r = None" using hdr(3) armed by (simp add: validWaitCancellation_def)
    show ?thesis
    proof (rule target_valid [OF v n(8) sha _ _ _ _ _ _ _ n(11) n(2,3,5,6,9,10)])
      show "validWaitDecisionState t dec (waitWinner t)"
        using True n(6) by (auto simp: validWaitDecisionState_def st tt)
      show "validWaitDecisionState t e (waitWinner t)" if "(k, e) \<in> set (wrc_Decisions r)" for k e
        using armed_decisions_unmatched [OF v armed that] old(2) [OF that] nc win
        by (simp add: validWaitDecisionState_def tt) (simp add: st)
      show "winner_state_ok t" using n(5,7) True by (simp add: winner_state_ok_def tt map_add_def)
    qed (use hdr nc in \<open>simp_all add: tt wait_header_def validWaitCancellation_def\<close>)
  next
    case False
    then have tt: "t = r\<lparr>wrc_Decisions := wrc_Decisions r @ [(wdl_ID d, dec)]\<rparr>" using n(12) by simp
    have keep: "wrc_WinnerID r \<noteq> '''' \<Longrightarrow> lookup (wrc_Decisions t) (wrc_WinnerID r) = lookup (wrc_Decisions r) (wrc_WinnerID r)"
      using hdr(2) n(7) by (auto simp: winner_state_ok_def tt map_add_def split: option.splits)
    have noid: "lookup (wrc_Decisions r) '''' = None"
    proof (rule ccontr)
      assume "lookup (wrc_Decisions r) '''' \<noteq> None"
      then obtain e where "('''', e) \<in> set (wrc_Decisions r)" by (auto dest: map_of_SomeD)
      with v show False by (auto simp: validateDurableWait_iff wait_decision_ok_def)
    qed
    have win: "waitWinner t = waitWinner r"
    proof (cases "wrc_WinnerID r = ''''")
      case True
      then show ?thesis using noid n(5) by (simp add: waitWinner_def tt map_add_def)
    next
      case ne: False
      from keep [OF ne] show ?thesis by (simp add: waitWinner_def tt)
    qed
    have vs: "validWaitDecisionState t = validWaitDecisionState r"
      by (intro ext) (simp add: validWaitDecisionState_def tt split: WaitDecisionStatus.split)
    show ?thesis
    proof (rule target_valid [OF v n(8) sha _ _ _ _ _ _ _ n(11) n(2,3,5,6,9,10)])
      show "validWaitDecisionState t dec (waitWinner t)"
      proof (cases "wrc_State r \<in> {WaitResolved, WaitExpired}")
        case True
        from winner_lookup [OF v True] obtain w where "waitWinner r = w" "wdc_SourceRevision w < revision"
          "wrc_WinnerID r \<noteq> ''''" by blast
        with True show ?thesis
          by (auto simp: vs win validWaitDecisionState_def st(1,4) waitDecisionStatus_def)
      next
        case no: False
        with hdr(2) have s: "wrc_State r \<in> {WaitArmed, WaitCanceled}" "wrc_WinnerID r = ''''"
          by (auto simp: winner_state_ok_def)
        with hdr(3) False n(6) show ?thesis
          by (auto simp: vs win validWaitDecisionState_def st waitDecisionStatus_def validWaitCancellation_def
              split: option.splits if_splits)
      qed
      show "validWaitDecisionState t e (waitWinner t)" if "(k, e) \<in> set (wrc_Decisions r)" for k e
        using old(1) [OF that] by (simp add: vs win)
      show "winner_state_ok t" using hdr(2) keep by (auto simp: winner_state_ok_def tt)
      show "validWaitCancellation t revision"
        using hdr(3) by (cases "wrc_Cancellation r") (simp_all add: validWaitCancellation_def tt split: if_splits)
    qed (use hdr in \<open>simp_all add: tt wait_header_def\<close>)
  qed
qed

lemma cancel_keeps_valid:
  assumes v: "validateDurableWait sha r source = None" and a: "wrc_State r = WaitArmed" and s: "source \<noteq> - 1"
    and q: "wcr_ID q \<noteq> ''''" "wcr_Reason q \<noteq> ''''" "wcr_Evidence q \<noteq> ''''"
      "validRuntimeText [wcr_ID q, wcr_Reason q, wcr_Evidence q]" and "incarnation \<noteq> 0" "now \<noteq> 0"
  shows "validateDurableWait sha (cancelWaitRecord q source incarnation now r) (source + 1) = None"
proof -
  let ?t = "cancelWaitRecord q source incarnation now r"
  have lt: "x < source \<Longrightarrow> x < source + 1" "x \<le> source \<Longrightarrow> x \<le> source + 1" "source < source + 1" for x
    using rev_succ [OF s] by (auto intro: less_imp_le)
  have h: "wait_header sha r" "winner_state_ok r" "wrc_ArmRevision r \<le> source" "wrc_Cancellation r = None"
    using v a by (simp_all add: validateDurableWait_iff validWaitCancellation_def)
  have dec: "wait_decision_ok sha ?t (source + 1) k e \<and> wdc_SourceRevision e \<noteq> source"
    if e: "(k, e) \<in> set (wrc_Decisions r)" for k e
  proof -
    have ok: "wait_decision_ok sha r source k e" using v e by (auto simp: validateDurableWait_iff)
    then show ?thesis
      using armed_decisions_unmatched [OF v a e] lt h(4)
      by (auto simp: wait_decision_ok_def validWaitDecisionState_def cancelWaitRecord_def waitWinner_def)
  qed
  have "winner_state_ok ?t" "wait_header sha ?t" "validWaitCancellation ?t (source + 1)"
    using h a q assms(8,9) lt by (auto simp: winner_state_ok_def wait_header_def validWaitCancellation_def cancelWaitRecord_def)
  moreover have "wait_sources ?t = {source}" "wrc_Decisions ?t = wrc_Decisions r" "wrc_ArmRevision ?t = wrc_ArmRevision r"
    by (simp_all add: wait_sources_def cancelWaitRecord_def)
  ultimately show ?thesis using dec v lt(2) [OF h(3)] unfolding validateDurableWait_iff by auto
qed

section \<open>The life of a wait\<close>

text \<open>
  A committed delivery, a committed cancellation, or any other commit of the
  execution; each raises the revision. A cancellation is committed only if
  \<open>validateWaitCancellationRequest\<close> accepts it and the wait is still armed.
\<close>

inductive wait_step :: "sha256 \<Rightarrow> DurableWaitRecord \<times> uint64 \<Rightarrow> DurableWaitRecord \<times> uint64 \<Rightarrow> bool" for sha where
  deliver: "prepareWaitDecision sha r d revision incarnation now matched = Ok (t, dec, False) \<Longrightarrow>
    wait_step sha (r, revision) (t, revision + 1)"
| cancel: "validateWaitCancellationRequest source terminal r token q = None \<Longrightarrow> wrc_State r \<noteq> WaitCanceled \<Longrightarrow>
    wcr_ID q \<noteq> '''' \<Longrightarrow> wcr_Reason q \<noteq> '''' \<Longrightarrow> wcr_Evidence q \<noteq> '''' \<Longrightarrow>
    validRuntimeText [wcr_ID q, wcr_Reason q, wcr_Evidence q] \<Longrightarrow> incarnation \<noteq> 0 \<Longrightarrow> \<not> IsZero now \<Longrightarrow>
    wait_step sha (r, source) (cancelWaitRecord q source incarnation now r, source + 1)"
| other: "revision \<noteq> - 1 \<Longrightarrow> wait_step sha (r, revision) (r, revision + 1)"

inductive wait_run :: "sha256 \<Rightarrow> DurableWaitRecord \<times> uint64 \<Rightarrow> DurableWaitRecord \<times> uint64 \<Rightarrow> bool" for sha where
  wait_refl: "wait_run sha s s"
| wait_more: "wait_run sha s s' \<Longrightarrow> wait_step sha s' s'' \<Longrightarrow> wait_run sha s s''"

lemma wait_step_valid:
  assumes "wait_step sha s s'" and "\<And>x. validActivityDigest (sha x)"
    and "validateDurableWait sha (fst s) (snd s) = None"
  shows "validateDurableWait sha (fst s') (snd s') = None"
  using assms
proof (induction rule: wait_step.induct)
  case (deliver r d revision incarnation now matched t dec)
  then show ?case using decision_keeps_valid by simp
next
  case (cancel source terminal r token q incarnation now)
  then have "wrc_State r = WaitArmed" "source \<noteq> - 1"
    by (auto simp: validateWaitCancellationRequest_def split: if_splits)
  with cancel show ?case using cancel_keeps_valid by simp
next
  case (other revision r)
  then show ?case using validity_later [of sha r revision "revision + 1"] rev_succ [of revision revision]
    by (auto intro: less_imp_le)
qed

lemma wait_run_valid:
  "wait_run sha s s' \<Longrightarrow> (\<And>x. validActivityDigest (sha x)) \<Longrightarrow>
    validateDurableWait sha (fst s) (snd s) = None \<Longrightarrow> validateDurableWait sha (fst s') (snd s') = None"
  by (induction rule: wait_run.induct) (auto intro: wait_step_valid)

text \<open>Once a wait has left the armed state its state and its winner never change, and decisions only grow.\<close>

lemma wait_step_settled:
  assumes "wait_step sha s s'" and "wrc_State (fst s) \<noteq> WaitArmed"
  shows "wrc_State (fst s') = wrc_State (fst s) \<and> wrc_WinnerID (fst s') = wrc_WinnerID (fst s)
    \<and> wrc_Cancellation (fst s') = wrc_Cancellation (fst s)"
  using assms
proof (induction rule: wait_step.induct)
  case (deliver r d revision incarnation now matched t dec)
  then have "wdc_Status dec \<noteq> WaitAccepted"
    using prepare_new(11) [OF deliver(1)] by (auto simp: newWaitDecision_def waitDecisionStatus_def split: if_splits)
  with prepare_new(12) [OF deliver(1)] show ?case by simp
next
  case (cancel source terminal r token q incarnation now)
  then show ?case by (auto simp: validateWaitCancellationRequest_def split: if_splits)
qed simp

lemma wait_run_settled:
  "wait_run sha s s' \<Longrightarrow> wrc_State (fst s) \<noteq> WaitArmed \<Longrightarrow>
    wrc_State (fst s') = wrc_State (fst s) \<and> wrc_WinnerID (fst s') = wrc_WinnerID (fst s)
    \<and> wrc_Cancellation (fst s') = wrc_Cancellation (fst s)"
  by (induction rule: wait_run.induct) (auto dest: wait_step_settled)

lemma wait_step_decisions:
  assumes "wait_step sha s s'" and "lookup (wrc_Decisions (fst s)) k = Some e"
  shows "lookup (wrc_Decisions (fst s')) k = Some e"
  using assms
proof (induction rule: wait_step.induct)
  case (deliver r d revision incarnation now matched t dec)
  then show ?case using prepare_new(7,12) [OF deliver(1)]
    by (auto simp: map_add_def split: option.splits)
qed (auto simp: cancelWaitRecord_def)

lemma wait_run_decisions:
  "wait_run sha s s' \<Longrightarrow> lookup (wrc_Decisions (fst s)) k = Some e \<Longrightarrow> lookup (wrc_Decisions (fst s')) k = Some e"
  by (induction rule: wait_run.induct) (auto intro: wait_step_decisions)

lemma wait_run_header:
  "wait_run sha s s' \<Longrightarrow> wrc_Generation (fst s') = wrc_Generation (fst s) \<and> wrc_ArmRevision (fst s') = wrc_ArmRevision (fst s)"
proof (induction rule: wait_run.induct)
  case (wait_more s s' s'')
  from wait_more(2) have "wrc_Generation (fst s'') = wrc_Generation (fst s') \<and> wrc_ArmRevision (fst s'') = wrc_ArmRevision (fst s')"
    by (induction rule: wait_step.induct) (auto simp: cancelWaitRecord_def dest!: prepare_new(12) split: if_splits)
  with wait_more show ?case by simp
qed simp

section \<open>Properties\<close>
text \<open>
  C5. From the moment a wait is armed, every sequence of committed deliveries,
  cancellations and other commits leaves a record that the validator accepts at
  the current revision.
\<close>

theorem durable_wait_always_valid:
  assumes "planDurableWait sha execution node activation revision spec profile = Ok r"
    and "\<forall>x. validActivityDigest (sha x)" and "wait_run sha (r, revision) (r', revision')"
  shows "validateDurableWait sha r' revision' = None"
  using wait_run_valid [OF assms(3)] assms(2) plan_valid(1) [OF assms(1)] by simp

definition sampleSpec :: DurableWaitSpec where
  "sampleSpec = \<lparr>wsp_ID = ''w'', wsp_CorrelationID = ''c'', wsp_Deadline = 100, wsp_DeadlineOffset = 0,
     wsp_MatcherLabel = ''m'', wsp_PayloadCodec = ''p'', wsp_ContinuationLabel = ''k'', wsp_EventPointer = ''a'',
     wsp_TimeoutPointer = ''b'', wsp_WinnerPolicy = WaitFirstCommitted\<rparr>"

definition sampleProfile :: WaitCapabilityProfile where
  "sampleProfile = \<lparr>prf_Label = ''l'', prf_JournalOwner = ''j'', prf_LeaseOwner = ''l'', prf_TimerOwner = ''t'',
     prf_ClockOwner = ''c'', prf_RetryOwner = ''r'', prf_RecoveryOwner = ''v''\<rparr>"

definition sampleWait :: DurableWaitRecord where
  "sampleWait = \<lparr>wrc_ExecutionID = ''e'', wrc_Node = ''n'', wrc_Activation = 1, wrc_Generation = sampleSha '''',
     wrc_ArmRevision = 3, wrc_Spec = sampleSpec, wrc_Profile = sampleProfile, wrc_State = WaitArmed,
     wrc_WinnerID = '''', wrc_Decisions = [], wrc_Cancellation = None\<rparr>"

definition sampleTimer :: WaitDelivery where
  "sampleTimer = \<lparr>wdl_Generation = sampleSha '''', wdl_ID = ''t'', wdl_Kind = WaitTimer, wdl_CorrelationID = ''c'',
     wdl_ExpectedRevision = 3, wdl_Payload = ''''\<rparr>"

lemma sample_plan: "planDurableWait sampleSha ''e'' ''n'' 1 3 sampleSpec sampleProfile = Ok sampleWait"
  by (simp add: planDurableWait_def DurableWaitSpec_Validate_def WaitCapabilityProfile_Validate_def sampleSpec_def
      sampleProfile_def sampleWait_def marshalTimeOK_def year_10000_def byte_def waitGeneration_def sampleSha_def)

definition sampleExpired :: DurableWaitRecord where
  "sampleExpired = sampleWait\<lparr>wrc_WinnerID := ''t'', wrc_State := WaitExpired,
     wrc_Decisions := [(''t'', newWaitDecision sampleSha sampleWait sampleTimer 3 7 150 False)]\<rparr>"

lemma sample_delivery:
  "prepareWaitDecision sampleSha sampleWait sampleTimer 3 7 150 False
    = Ok (sampleExpired, newWaitDecision sampleSha sampleWait sampleTimer 3 7 150 False, False)"
proof -
  have "validateDurableWait sampleSha sampleWait 3 = None" by (rule plan_valid(1) [OF sample_plan])
  then show ?thesis
    by (simp add: prepareWaitDecision_def validateWaitDelivery_def Let_def newWaitDecision_def waitDecisionStatus_def
        sampleExpired_def)
      (simp add: sampleWait_def sampleTimer_def sampleSpec_def waitDecisionStatus_def Let_def)
qed

lemma sample_wait_run: "wait_run sampleSha (sampleWait, 3) (sampleExpired, 4)"
  using wait_run.wait_more [OF wait_run.wait_refl wait_step.deliver [OF sample_delivery]] by simp

theorem durable_wait_always_valid_witness: "validateDurableWait sampleSha sampleExpired 4 = None"
  using durable_wait_always_valid [OF sample_plan _ sample_wait_run] sampleSha_digest by simp

text \<open>
  C6. First committed decision wins: once a valid wait is resolved, expired or
  canceled, no later delivery, cancellation or other commit changes its state, its
  winner, its cancellation or any recorded decision; the only accepted decision
  there is, ever, is the recorded winner, and a canceled wait accepts none.
\<close>

theorem first_committed_wins:
  assumes "validateDurableWait sha r revision = None" and "\<forall>x. validActivityDigest (sha x)"
    and "wrc_State r \<in> {WaitResolved, WaitExpired, WaitCanceled}" and "wait_run sha (r, revision) (r', revision')"
  shows "wrc_State r' = wrc_State r \<and> wrc_WinnerID r' = wrc_WinnerID r \<and> wrc_Cancellation r' = wrc_Cancellation r
    \<and> (\<forall>k d. lookup (wrc_Decisions r) k = Some d \<longrightarrow> lookup (wrc_Decisions r') k = Some d)
    \<and> (\<forall>k d. lookup (wrc_Decisions r') k = Some d \<longrightarrow> wdc_Status d = WaitAccepted \<longrightarrow>
        k = wrc_WinnerID r \<and> lookup (wrc_Decisions r) k = Some d \<and> wrc_State r \<noteq> WaitCanceled)"
proof -
  have s: "wrc_State r' = wrc_State r" "wrc_WinnerID r' = wrc_WinnerID r" "wrc_Cancellation r' = wrc_Cancellation r"
    using wait_run_settled [OF assms(4)] assms(3) by auto
  have v: "validateDurableWait sha r' revision' = None"
    using wait_run_valid [OF assms(4)] assms(1,2) by simp
  have keep: "lookup (wrc_Decisions r') k = Some d" if "lookup (wrc_Decisions r) k = Some d" for k d
    using wait_run_decisions [OF assms(4)] that by simp
  have "k = wrc_WinnerID r \<and> lookup (wrc_Decisions r) k = Some d \<and> wrc_State r \<noteq> WaitCanceled"
    if l: "lookup (wrc_Decisions r') k = Some d" and acc: "wdc_Status d = WaitAccepted" for k d
  proof -
    have k: "k = wrc_WinnerID r" and st: "wrc_State r \<in> {WaitResolved, WaitExpired}"
      using v map_of_SomeD [OF l] acc s by (auto simp: validateDurableWait_iff wait_decision_ok_def validWaitDecisionState_def)
    obtain w where "lookup (wrc_Decisions r) (wrc_WinnerID r) = Some w" using winner_lookup [OF assms(1) st] by blast
    with keep l k st show ?thesis by auto
  qed
  with s keep show ?thesis by blast
qed

theorem first_committed_wins_witness:
  "wrc_State sampleExpired = WaitExpired \<and> wrc_WinnerID sampleExpired = ''t''
   \<and> lookup (wrc_Decisions sampleExpired) ''t'' \<noteq> None"
proof -
  have "validateDurableWait sampleSha sampleExpired 4 = None"
    by (rule decision_keeps_valid [OF sample_delivery sampleSha_digest, simplified])
  moreover have "wait_run sampleSha (sampleExpired, 4) (sampleExpired, 5)"
    using wait_run.wait_more [OF wait_run.wait_refl wait_step.other [of 4]] by simp
  ultimately show ?thesis
    using first_committed_wins [of sampleSha sampleExpired 4 sampleExpired 5] sampleSha_digest
    by (simp add: sampleExpired_def)
qed

text \<open>
  Delivery is idempotent: a delivery that was decided is answered with the
  recorded decision and no new write at every later revision, whatever the state
  of the wait has become, and a different payload under its id is a conflict.
\<close>

theorem delivery_replays:
  assumes "prepareWaitDecision sha r d revision incarnation now matched = Ok (t, dec, False)"
    and "\<forall>x. validActivityDigest (sha x)" and "wait_run sha (t, revision + 1) (r', revision')"
    and "wrc_ArmRevision r \<le> expected" "expected \<le> revision'" "incarnation' \<noteq> 0" "\<not> IsZero now'"
  shows "prepareWaitDecision sha r' (d\<lparr>wdl_ExpectedRevision := expected\<rparr>) revision' incarnation' now' matched'
      = Ok (r', dec, True)
    \<and> (sha payload \<noteq> sha (wdl_Payload d) \<longrightarrow>
      prepareWaitDecision sha r' (d\<lparr>wdl_ExpectedRevision := expected, wdl_Payload := payload\<rparr>) revision' incarnation' now'
        matched' = Err ErrWaitConflict)"
proof -
  note n = prepare_new [OF assms(1)]
  have v: "validateDurableWait sha r' revision' = None"
    using wait_run_valid [OF assms(3)] decision_keeps_valid [OF assms(1)] assms(2) by simp
  have "lookup (wrc_Decisions t) (wdl_ID d) = Some dec" using n(7,12) by (simp add: map_add_def)
  with wait_run_decisions [OF assms(3)] have l: "lookup (wrc_Decisions r') (wdl_ID d) = Some dec" by simp
  have dec: "wdc_Kind dec = wdl_Kind d" "wdc_CorrelationID dec = wdl_CorrelationID d"
    "wdc_PayloadDigest dec = waitPayloadDigest sha (wdl_Payload d)"
    by (simp_all add: n(11) newWaitDecision_def)
  have "wrc_Generation r' = wrc_Generation r" "wrc_ArmRevision r' = wrc_ArmRevision r"
    using wait_run_header [OF assms(3)] n(12) by (simp_all split: if_splits)
  moreover have "wdl_Kind d = WaitEvent \<or> wdl_Kind d = WaitTimer" using n(6) by simp
  ultimately show ?thesis using v l dec n(4,5) assms(4-7)
    by (auto simp: prepareWaitDecision_def validateWaitDelivery_def waitPayloadDigest_def not_less)
qed

theorem delivery_replays_witness:
  "prepareWaitDecision sampleSha sampleExpired (sampleTimer\<lparr>wdl_ExpectedRevision := 4\<rparr>) 4 9 200 True
    = Ok (sampleExpired, newWaitDecision sampleSha sampleWait sampleTimer 3 7 150 False, True)"
  using delivery_replays [OF sample_delivery, of sampleExpired 4 4 9 200] sampleSha_digest wait_run.wait_refl
  by (simp add: sampleExpired_def sampleWait_def)

end
