(* ===== verification/Child_Group.thy ===== *)
theory Child_Group
  imports Activity_Record "HOL-Library.Char_ord" "HOL-Library.List_Lexorder" "HOL-Library.Multiset"
begin

text \<open>
  Structured child executions: the plan and its budget allocation
  (child\_contract.go), the state machine of one child (child\_state.go,
  child\_launch.go, child\_cancel.go, child\_cancel\_confirmation.go,
  child\_wait.go, child\_outcome\_resolution.go), budget returns and the capacity
  ledger (child\_budget.go, child\_budget\_return.go), the join condition
  (child\_join.go) and the validator of a stored group (child\_persistence.go).
  Counters are maps from names to units; two Go maps are compared by
  \<open>maps.Equal\<close>, and two JSON encodings of plans or specs by the values they encode.
\<close>

section \<open>Data\<close>

datatype ChildState = ChildPlanned | ChildQueued | ChildRunning | ChildWaiting | ChildCompleted | ChildFailed
  | ChildCanceled | ChildUnknown | ChildStateOther string

datatype ChildFailurePolicy = ChildFailFast | ChildCollectErrors | ChildFailurePolicyOther string

type_synonym counters = "(string, int) gomap"

record ChildSpec =
  spc_ID :: string
  spc_Input :: string
  spc_Allocation :: counters

record ChildGroupPlan =
  pln_Key :: string
  pln_Label :: string
  pln_MergeLabel :: string
  pln_BudgetLabel :: string
  pln_CancelLabel :: string
  pln_MaxConcurrency :: int
  pln_FailurePolicy :: ChildFailurePolicy
  pln_Children :: "ChildSpec list"

record ChildWaitResolutionRecord =
  cwr_WaitID :: string
  cwr_DecisionID :: string
  cwr_ChildRevision :: uint64
  cwr_SourceRevision :: uint64
  cwr_Incarnation :: uint64
  cwr_At :: gotime

record ChildOutcomeResolutionRecord =
  cor_DecisionID :: string
  cor_Reason :: string
  cor_Evidence :: string
  cor_RequestDigest :: string
  cor_PriorState :: ChildState
  cor_ChildRevision :: uint64
  cor_PriorIncarnation :: uint64
  cor_SourceRevision :: uint64
  cor_Incarnation :: uint64
  cor_At :: gotime

record ChildCancelConfirmationRecord =
  ccc_RequestID :: string
  ccc_DecisionID :: string
  ccc_Reason :: string
  ccc_Evidence :: string
  ccc_PriorState :: ChildState
  ccc_ChildRevision :: uint64
  ccc_SourceRevision :: uint64
  ccc_Incarnation :: uint64
  ccc_At :: gotime

record ChildRecord =
  chd_Spec :: ChildSpec
  chd_ExecutionID :: string
  chd_Revision :: uint64
  chd_Incarnation :: uint64
  chd_WaitID :: string
  chd_State :: ChildState
  chd_Result :: string
  chd_Error :: string
  chd_CancelRequested :: bool
  chd_CancelConfirmed :: bool
  chd_WaitResolution :: "ChildWaitResolutionRecord option"
  chd_OutcomeResolution :: "ChildOutcomeResolutionRecord option"
  chd_CancelConfirmation :: "ChildCancelConfirmationRecord option"

record ChildBudgetReturnRecord =
  cbr_ChildRevision :: uint64
  cbr_DecisionID :: string
  cbr_Reason :: string
  cbr_Evidence :: string
  cbr_Used :: counters
  cbr_Returned :: counters
  cbr_SourceRevision :: uint64
  cbr_Incarnation :: uint64
  cbr_At :: gotime

record ChildCancelRequestRecord =
  ccr_ID :: string
  ccr_Reason :: string
  ccr_SourceRevision :: uint64
  ccr_Incarnation :: uint64
  ccr_At :: gotime

record ChildGroupRecord =
  grp_ParentID :: string
  grp_Node :: string
  grp_Activation :: uint64
  grp_Plan :: ChildGroupPlan
  grp_Children :: "ChildRecord list"
  grp_MergedIDs :: "string list"
  grp_MergedResult :: string
  grp_CancelRequested :: bool
  grp_CancelRequest :: "ChildCancelRequestRecord option"
  grp_Capacity :: counters
  grp_BudgetReturns :: "(string, ChildBudgetReturnRecord) gomap"

text \<open>The result a dispatcher returns.\<close>

record ChildResult =
  chr_State :: ChildState
  chr_Payload :: string
  chr_Error :: string
  chr_WaitID :: string

definition maps_Equal :: "('k, 'v) gomap \<Rightarrow> ('k, 'v) gomap \<Rightarrow> bool" where
  "maps_Equal m n \<longleftrightarrow> length m = length n \<and> list_all (\<lambda>(k, v). lookup n k = Some v) m"

definition specEqual :: "ChildSpec \<Rightarrow> ChildSpec \<Rightarrow> bool" where
  "specEqual a b \<longleftrightarrow> spc_ID a = spc_ID b \<and> spc_Input a = spc_Input b \<and> maps_Equal (spc_Allocation a) (spc_Allocation b)"

definition sortSpecs :: "ChildSpec list \<Rightarrow> ChildSpec list" where
  "sortSpecs = sort_key spc_ID"

text \<open>
  Equality of two \<open>childPlanBytes\<close>. A nil and an empty input or allocation of a child
  are one value of the model; their encodings differ, so the code also refuses a plan
  that differs from the stored one in this respect alone.
\<close>

definition samePlan :: "ChildGroupPlan \<Rightarrow> ChildGroupPlan \<Rightarrow> bool" where
  "samePlan p q \<longleftrightarrow> p\<lparr>pln_Children := []\<rparr> = q\<lparr>pln_Children := []\<rparr>
     \<and> list_all2 specEqual (sortSpecs (pln_Children p)) (sortSpecs (pln_Children q))"

section \<open>Planning\<close>

definition validChildCapacity :: "counters \<Rightarrow> bool" where
  "validChildCapacity c \<longleftrightarrow> list_all (\<lambda>(name, units). name \<noteq> '''' \<and> validRuntimeText [name] \<and> 0 \<le> units) c"

fun allocateChildCounters :: "counters \<Rightarrow> counters \<Rightarrow> counters res" where
  "allocateChildCounters remaining [] = Ok remaining"
| "allocateChildCounters remaining ((name, units) # rest) =
    (case lookup remaining name of
       None \<Rightarrow> Err ErrBudgetExceeded
     | Some available \<Rightarrow>
         if name = '''' \<or> \<not> validRuntimeText [name] \<or> units < 0 \<or> available < units then Err ErrBudgetExceeded
         else allocateChildCounters (put name (available - units) remaining) rest)"

fun plan_loop :: "string set \<Rightarrow> counters \<Rightarrow> ChildSpec list \<Rightarrow> counters res" where
  "plan_loop seen remaining [] = Ok remaining"
| "plan_loop seen remaining (s # rest) =
    (if spc_ID s = '''' \<or> \<not> validRuntimeText [spc_ID s] then Err (Also ErrChildInvalid)
     else if spc_ID s \<in> seen then Err (Also ErrChildDuplicate)
     else res_bind (allocateChildCounters remaining (spc_Allocation s))
       (\<lambda>remaining'. plan_loop (insert (spc_ID s) seen) remaining' rest))"

definition childExecutionIdentity :: "sha256 \<Rightarrow> string \<Rightarrow> string \<Rightarrow> uint64 \<Rightarrow> string \<Rightarrow> string \<Rightarrow> string" where
  "childExecutionIdentity sha parent node activation key child
    = sha (json_array [JStr ''flowy-child'', JStr parent, JStr node, JNum activation, JStr key, JStr child])"

definition newChildRecord :: "string \<Rightarrow> ChildSpec \<Rightarrow> ChildRecord" where
  "newChildRecord execution s = \<lparr>chd_Spec = s, chd_ExecutionID = execution, chd_Revision = 0, chd_Incarnation = 0,
     chd_WaitID = '''', chd_State = ChildPlanned, chd_Result = '''', chd_Error = '''', chd_CancelRequested = False,
     chd_CancelConfirmed = False, chd_WaitResolution = None, chd_OutcomeResolution = None, chd_CancelConfirmation = None\<rparr>"

definition PlanChildGroup ::
    "sha256 \<Rightarrow> string \<Rightarrow> string \<Rightarrow> uint64 \<Rightarrow> ChildGroupPlan \<Rightarrow> counters \<Rightarrow> ChildGroupRecord res" where
  "PlanChildGroup sha parent node activation plan available =
    (if parent = '''' \<or> node = '''' \<or> activation = 0 \<or> pln_Key plan = '''' \<or> pln_Label plan = '''' \<or> pln_MergeLabel plan = ''''
        \<or> \<not> validRuntimeText [parent, node, pln_Key plan, pln_Label plan, pln_MergeLabel plan, pln_BudgetLabel plan,
            pln_CancelLabel plan]
        \<or> pln_BudgetLabel plan = '''' \<or> pln_CancelLabel plan = '''' \<or> pln_MaxConcurrency plan \<le> 0 \<or> pln_Children plan = []
        \<or> (pln_FailurePolicy plan \<noteq> ChildFailFast \<and> pln_FailurePolicy plan \<noteq> ChildCollectErrors)
     then Err (Also ErrChildInvalid)
     else if \<not> validChildCapacity available then Err ErrBudgetExceeded
     else res_bind (plan_loop {} available (pln_Children plan)) (\<lambda>_.
       let specs = sortSpecs (pln_Children plan) in
       Ok \<lparr>grp_ParentID = parent, grp_Node = node, grp_Activation = activation,
         grp_Plan = plan\<lparr>pln_Children := specs\<rparr>,
         grp_Children = map (\<lambda>s. newChildRecord (childExecutionIdentity sha parent node activation (pln_Key plan) (spc_ID s)) s) specs,
         grp_MergedIDs = [], grp_MergedResult = '''', grp_CancelRequested = False, grp_CancelRequest = None,
         grp_Capacity = available, grp_BudgetReturns = []\<rparr>))"

section \<open>The state of one child\<close>

definition settledChild :: "ChildRecord \<Rightarrow> bool" where
  "settledChild c \<longleftrightarrow> chd_State c \<in> {ChildCompleted, ChildFailed, ChildCanceled}"

definition validateChildStateMachine :: "ChildRecord \<Rightarrow> err option" where
  "validateChildStateMachine c =
    (if chd_CancelConfirmed c \<and> (\<not> chd_CancelRequested c \<or> chd_State c \<noteq> ChildCanceled) then Some (Sent ErrExecutionCorrupt)
     else
       let noOutcome = (chd_Error c = '''' \<and> chd_Result c = '''' \<and> chd_WaitID c = '''');
           settled = (chd_Revision c > 2 \<and> chd_Incarnation c > 0);
           valid = (case chd_State c of
               ChildPlanned \<Rightarrow> chd_Revision c = 0 \<and> chd_Incarnation c = 0 \<and> noOutcome
             | ChildQueued \<Rightarrow> chd_Revision c > 0 \<and> chd_Incarnation c = 0 \<and> noOutcome
             | ChildRunning \<Rightarrow> chd_Revision c > 1 \<and> chd_Incarnation c > 0 \<and> noOutcome
             | ChildCompleted \<Rightarrow> settled \<and> chd_Error c = '''' \<and> chd_WaitID c = ''''
             | ChildFailed \<Rightarrow> settled \<and> chd_Error c \<noteq> '''' \<and> chd_WaitID c = ''''
             | ChildWaiting \<Rightarrow> settled \<and> chd_WaitID c \<noteq> '''' \<and> chd_Error c = ''''
             | ChildUnknown \<Rightarrow> settled \<and> chd_WaitID c = ''''
             | ChildCanceled \<Rightarrow> chd_Revision c > 0 \<and> chd_CancelConfirmed c
             | _ \<Rightarrow> False)
       in reject (\<not> valid) ErrExecutionCorrupt)"

definition validChildWaitResolution :: "ChildRecord \<Rightarrow> bool" where
  "validChildWaitResolution c = (case chd_WaitResolution c of None \<Rightarrow> True
     | Some d \<Rightarrow> cwr_WaitID d \<noteq> '''' \<and> cwr_DecisionID d \<noteq> '''' \<and> cwr_SourceRevision d > 0
         \<and> validRuntimeText [cwr_WaitID d, cwr_DecisionID d, chd_Error c] \<and> cwr_Incarnation d > 0
         \<and> \<not> IsZero (cwr_At d) \<and> cwr_ChildRevision d > 2 \<and> cwr_ChildRevision d < - 1
         \<and> chd_Revision c = cwr_ChildRevision d + 1
         \<and> (chd_State c = ChildCompleted \<or> chd_State c = ChildFailed) \<and> chd_WaitID c = '''')"

definition unresolvedCancelableChild :: "ChildState \<Rightarrow> bool" where
  "unresolvedCancelableChild s \<longleftrightarrow> s = ChildRunning \<or> s = ChildWaiting \<or> s = ChildUnknown"

definition validChildCancelConfirmation :: "ChildRecord \<Rightarrow> bool" where
  "validChildCancelConfirmation c = (case chd_CancelConfirmation c of None \<Rightarrow> True
     | Some d \<Rightarrow> chd_State c = ChildCanceled \<and> chd_CancelConfirmed c \<and> chd_CancelRequested c \<and> chd_WaitID c = ''''
         \<and> ccc_RequestID d \<noteq> '''' \<and> ccc_DecisionID d \<noteq> '''' \<and> ccc_Reason d \<noteq> '''' \<and> ccc_Evidence d \<noteq> ''''
         \<and> validRuntimeText [ccc_RequestID d, ccc_DecisionID d, ccc_Reason d, ccc_Evidence d]
         \<and> unresolvedCancelableChild (ccc_PriorState d) \<and> ccc_ChildRevision d > 1 \<and> ccc_ChildRevision d < - 1
         \<and> chd_Revision c = ccc_ChildRevision d + 1 \<and> ccc_SourceRevision d > 0 \<and> ccc_Incarnation d > 0
         \<and> \<not> IsZero (ccc_At d))"

definition validChildOutcomeResolution :: "ChildRecord \<Rightarrow> bool" where
  "validChildOutcomeResolution c = (case chd_OutcomeResolution c of None \<Rightarrow> True
     | Some d \<Rightarrow> (chd_State c = ChildCompleted \<or> chd_State c = ChildFailed) \<and> chd_WaitID c = '''' \<and> \<not> chd_CancelConfirmed c
         \<and> chd_WaitResolution c = None \<and> chd_CancelConfirmation c = None
         \<and> cor_DecisionID d \<noteq> '''' \<and> cor_Reason d \<noteq> '''' \<and> cor_Evidence d \<noteq> '''' \<and> cor_RequestDigest d \<noteq> ''''
         \<and> validRuntimeText [cor_DecisionID d, cor_Reason d, cor_Evidence d, chd_Error c]
         \<and> cor_ChildRevision d > 1 \<and> cor_ChildRevision d < - 1 \<and> chd_Revision c = cor_ChildRevision d + 1
         \<and> cor_PriorIncarnation d > 0 \<and> chd_Incarnation c = cor_PriorIncarnation d \<and> cor_SourceRevision d > 0
         \<and> cor_Incarnation d > cor_PriorIncarnation d \<and> \<not> IsZero (cor_At d)
         \<and> (cor_PriorState d = ChildUnknown \<or> cor_PriorState d = ChildRunning))"

definition validateChildRecordState :: "ChildRecord \<Rightarrow> err option" where
  "validateChildRecordState c =
    (if \<not> validRuntimeText [chd_WaitID c] \<or> \<not> validChildWaitResolution c \<or> \<not> validChildCancelConfirmation c
        \<or> \<not> validChildOutcomeResolution c then Some (Sent ErrExecutionCorrupt)
     else validateChildStateMachine c)"

section \<open>Transitions of one child\<close>

text \<open>The two commits of \<open>beginChildLocked\<close>.\<close>

definition queueChild :: "ChildRecord \<Rightarrow> ChildRecord" where
  "queueChild c = c\<lparr>chd_State := ChildQueued, chd_Revision := chd_Revision c + 1\<rparr>"

definition launchChild :: "uint64 \<Rightarrow> ChildRecord \<Rightarrow> ChildRecord" where
  "launchChild incarnation c =
    c\<lparr>chd_State := ChildRunning, chd_Revision := chd_Revision c + 1, chd_Incarnation := incarnation\<rparr>"

definition beginGuard :: "bool \<Rightarrow> ChildRecord \<Rightarrow> bool" where
  "beginGuard cancelRequested c \<longleftrightarrow> \<not> cancelRequested \<and> \<not> chd_Revision c > - 1 - 2
     \<and> (chd_State c = ChildPlanned \<or> chd_State c = ChildQueued)"

definition childInvocationMatches :: "ChildRecord \<Rightarrow> uint64 \<Rightarrow> uint64 \<Rightarrow> bool" where
  "childInvocationMatches c revision incarnation \<longleftrightarrow>
    chd_State c = ChildRunning
    \<and> (chd_Revision c = revision \<or> (chd_CancelRequested c \<and> revision < - 1 \<and> chd_Revision c = revision + 1))
    \<and> chd_Revision c < - 1 \<and> chd_Incarnation c = incarnation"

definition validChildResultState :: "ChildState \<Rightarrow> bool" where
  "validChildResultState s \<longleftrightarrow> s \<in> {ChildCompleted, ChildFailed, ChildWaiting, ChildUnknown, ChildCanceled}"

text \<open>\<open>finishChildLocked\<close> on the addressed child; \<open>dispatchErr\<close> is the text of an error.\<close>

definition finishChildRecord ::
    "uint64 \<Rightarrow> uint64 \<Rightarrow> ChildResult \<Rightarrow> string option \<Rightarrow> ChildRecord \<Rightarrow> ChildRecord res" where
  "finishChildRecord revision incarnation result dispatchErr c =
    (if \<not> childInvocationMatches c revision incarnation then Err (Also ErrChildRevision)
     else
       let out = (case dispatchErr of None \<Rightarrow> result
           | Some e \<Rightarrow> \<lparr>chr_State = ChildUnknown, chr_Payload = '''', chr_Error = e, chr_WaitID = ''''\<rparr>) in
       if \<not> validChildResultState (chr_State out) then Err (Also ErrChildInvalid)
       else
         let c1 = c\<lparr>chd_State := chr_State out, chd_Result := chr_Payload out, chd_Error := chr_Error out,
               chd_WaitID := chr_WaitID out\<rparr>;
             c2 = (if chd_State c1 = ChildCanceled \<and> chd_CancelRequested c1 then c1\<lparr>chd_CancelConfirmed := True\<rparr> else c1);
             c3 = c2\<lparr>chd_Revision := chd_Revision c2 + 1\<rparr>
         in check (validateChildRecordState c3) (Ok c3))"

text \<open>The orphaned running child of \<open>recoverChildLaunches\<close>.\<close>

definition recoverChild :: "uint64 \<Rightarrow> ChildRecord \<Rightarrow> ChildRecord res" where
  "recoverChild incarnation c =
    (if chd_State c = ChildRunning then
       if chd_Revision c = - 1 then Err (Also ErrChildRevision)
       else if chd_Incarnation c = incarnation then Err (Also ErrChildBusy)
       else Ok (c\<lparr>chd_State := ChildUnknown, chd_Revision := chd_Revision c + 1\<rparr>)
     else Ok c)"

text \<open>The loop body of \<open>requestChildCancellationLocked\<close>.\<close>

definition requestCancelChild :: "ChildRecord \<Rightarrow> ChildRecord res" where
  "requestCancelChild c =
    (if settledChild c then Ok c
     else if chd_Revision c = - 1 \<or> (chd_State c = ChildRunning \<and> chd_Revision c \<ge> - 1 - 1) then Err (Also ErrChildRevision)
     else
       let c1 = c\<lparr>chd_CancelRequested := True, chd_Revision := chd_Revision c + 1\<rparr> in
       Ok (if chd_State c = ChildPlanned \<or> chd_State c = ChildQueued
           then c1\<lparr>chd_State := ChildCanceled, chd_CancelConfirmed := True\<rparr> else c1))"

record ChildCancelConfirmation =
  cnf_Node :: string
  cnf_Activation :: uint64
  cnf_GroupKey :: string
  cnf_ChildID :: string
  cnf_ExecutionID :: string
  cnf_ChildRevision :: uint64
  cnf_RequestID :: string
  cnf_DecisionID :: string
  cnf_Reason :: string
  cnf_Evidence :: string

definition confirmCancelChild ::
    "ChildCancelConfirmation \<Rightarrow> uint64 \<Rightarrow> uint64 \<Rightarrow> gotime \<Rightarrow> ChildRecord \<Rightarrow> ChildRecord res" where
  "confirmCancelChild d source incarnation at c =
    (if chd_ExecutionID c \<noteq> cnf_ExecutionID d \<or> chd_Revision c \<noteq> cnf_ChildRevision d \<or> chd_Revision c = - 1
        \<or> \<not> chd_CancelRequested c \<or> chd_CancelConfirmed c \<or> \<not> unresolvedCancelableChild (chd_State c)
     then Err (Also ErrChildRevision)
     else
       let c1 = c\<lparr>chd_CancelConfirmation := Some \<lparr>ccc_RequestID = cnf_RequestID d, ccc_DecisionID = cnf_DecisionID d,
             ccc_Reason = cnf_Reason d, ccc_Evidence = cnf_Evidence d, ccc_PriorState = chd_State c,
             ccc_ChildRevision = chd_Revision c, ccc_SourceRevision = source, ccc_Incarnation = incarnation, ccc_At = at\<rparr>,
             chd_State := ChildCanceled, chd_CancelConfirmed := True, chd_WaitID := '''', chd_Revision := chd_Revision c + 1\<rparr>
       in check (validateChildRecordState c1) (Ok c1))"

record ChildWaitResolution =
  wrs_Node :: string
  wrs_Activation :: uint64
  wrs_GroupKey :: string
  wrs_ChildID :: string
  wrs_ExecutionID :: string
  wrs_ChildRevision :: uint64
  wrs_WaitID :: string
  wrs_DecisionID :: string
  wrs_Result :: ChildResult

definition resolveWaitChild ::
    "ChildWaitResolution \<Rightarrow> uint64 \<Rightarrow> uint64 \<Rightarrow> gotime \<Rightarrow> ChildRecord \<Rightarrow> ChildRecord res" where
  "resolveWaitChild d source incarnation at c =
    (if chd_ExecutionID c \<noteq> wrs_ExecutionID d \<or> chd_Revision c \<noteq> wrs_ChildRevision d \<or> chd_Revision c = - 1
        \<or> chd_State c \<noteq> ChildWaiting \<or> chd_WaitID c \<noteq> wrs_WaitID d \<or> chd_WaitResolution c \<noteq> None
     then Err (Also ErrChildRevision)
     else
       let c1 = c\<lparr>chd_State := chr_State (wrs_Result d), chd_Result := chr_Payload (wrs_Result d),
             chd_Error := chr_Error (wrs_Result d), chd_WaitID := '''', chd_Revision := chd_Revision c + 1,
             chd_WaitResolution := Some \<lparr>cwr_WaitID = wrs_WaitID d, cwr_DecisionID = wrs_DecisionID d,
               cwr_ChildRevision = wrs_ChildRevision d, cwr_SourceRevision = source, cwr_Incarnation = incarnation,
               cwr_At = at\<rparr>\<rparr>
       in check (validateChildRecordState c1) (Ok c1))"

section \<open>Resolution of an unknown outcome\<close>

record ChildOutcomeResolution =
  ors_Node :: string
  ors_Activation :: uint64
  ors_GroupKey :: string
  ors_GroupLabel :: string
  ors_ChildID :: string
  ors_ExecutionID :: string
  ors_ChildRevision :: uint64
  ors_DecisionID :: string
  ors_Reason :: string
  ors_Evidence :: string
  ors_Result :: ChildResult

fun childStateText :: "ChildState \<Rightarrow> string" where
  "childStateText ChildPlanned = ''planned''"
| "childStateText ChildQueued = ''queued''"
| "childStateText ChildRunning = ''running''"
| "childStateText ChildWaiting = ''waiting''"
| "childStateText ChildCompleted = ''completed''"
| "childStateText ChildFailed = ''failed''"
| "childStateText ChildCanceled = ''canceled''"
| "childStateText ChildUnknown = ''unknown''"
| "childStateText (ChildStateOther s) = s"

definition validChildOutcomeRequest :: "ChildOutcomeResolution \<Rightarrow> bool" where
  "validChildOutcomeRequest q =
    (list_all (\<lambda>text. text \<noteq> '''' \<and> validRuntimeText [text])
       [ors_Node q, ors_GroupKey q, ors_GroupLabel q, ors_ChildID q, ors_ExecutionID q, ors_DecisionID q, ors_Reason q,
        ors_Evidence q]
     \<and> ors_Activation q \<noteq> 0 \<and> \<not> ors_ChildRevision q \<le> 1 \<and> ors_ChildRevision q \<noteq> - 1
     \<and> chr_WaitID (ors_Result q) = '''' \<and> validRuntimeText [chr_Error (ors_Result q)]
     \<and> (case chr_State (ors_Result q) of
          ChildCompleted \<Rightarrow> chr_Error (ors_Result q) = ''''
        | ChildFailed \<Rightarrow> chr_Error (ors_Result q) \<noteq> ''''
        | _ \<Rightarrow> False))"

definition childOutcomeRequestDigest :: "sha256 \<Rightarrow> ChildOutcomeResolution \<Rightarrow> string" where
  "childOutcomeRequestDigest sha q = sha (json_array
    [JStr ''flowy-child-outcome-v1'', JStr (ors_Node q), JNum (ors_Activation q), JStr (ors_GroupKey q),
     JStr (ors_GroupLabel q), JStr (ors_ChildID q), JStr (ors_ExecutionID q), JNum (ors_ChildRevision q),
     JStr (ors_DecisionID q), JStr (ors_Reason q), JStr (ors_Evidence q), JStr (childStateText (chr_State (ors_Result q))),
     JBytes (chr_Payload (ors_Result q)), JStr (chr_Error (ors_Result q)), JStr (chr_WaitID (ors_Result q))])"

text \<open>The first child of any group with the same decision id: a replay, a conflict, or none.\<close>

definition childOutcomeDecisionReplay ::
    "(string, ChildGroupRecord) gomap \<Rightarrow> ChildOutcomeResolution \<Rightarrow> string \<Rightarrow> bool res" where
  "childOutcomeDecisionReplay groups q digest =
    (case List.find (\<lambda>c. case chd_OutcomeResolution c of None \<Rightarrow> False | Some p \<Rightarrow> cor_DecisionID p = ors_DecisionID q)
         (concat (map (grp_Children \<circ> snd) groups)) of
       None \<Rightarrow> Ok False
     | Some c \<Rightarrow>
         if chd_ExecutionID c = ors_ExecutionID q
            \<and> cor_RequestDigest (the (chd_OutcomeResolution c)) = digest then Ok True
         else Err (Also ErrChildRevision))"

definition resolveOutcomeChild ::
    "string \<Rightarrow> ChildOutcomeResolution \<Rightarrow> uint64 \<Rightarrow> uint64 \<Rightarrow> gotime \<Rightarrow> ChildRecord \<Rightarrow> ChildRecord res" where
  "resolveOutcomeChild digest q source incarnation at c =
    (if chd_ExecutionID c \<noteq> ors_ExecutionID q \<or> chd_Revision c \<noteq> ors_ChildRevision q
        \<or> chd_OutcomeResolution c \<noteq> None \<or> chd_CancelConfirmed c then Err (Also ErrChildRevision)
     else if chd_State c \<noteq> ChildUnknown \<and> (chd_State c \<noteq> ChildRunning \<or> chd_Incarnation c \<ge> incarnation)
     then Err (Also ErrChildRevision)
     else
       let c1 = c\<lparr>chd_OutcomeResolution := Some \<lparr>cor_DecisionID = ors_DecisionID q, cor_Reason = ors_Reason q,
             cor_Evidence = ors_Evidence q, cor_RequestDigest = digest, cor_PriorState = chd_State c,
             cor_ChildRevision = chd_Revision c, cor_PriorIncarnation = chd_Incarnation c, cor_SourceRevision = source,
             cor_Incarnation = incarnation, cor_At = at\<rparr>,
             chd_State := chr_State (ors_Result q), chd_Result := chr_Payload (ors_Result q),
             chd_Error := chr_Error (ors_Result q), chd_WaitID := '''', chd_Revision := chd_Revision c + 1\<rparr>
       in check (validateChildRecordState c1) (Ok c1))"

text \<open>The loops over the children: the first child with the id is replaced.\<close>

fun updateChild :: "string \<Rightarrow> (ChildRecord \<Rightarrow> ChildRecord res) \<Rightarrow> ChildRecord list \<Rightarrow> ChildRecord list res" where
  "updateChild child f [] = Err (Also ErrChildRevision)"
| "updateChild child f (c # cs) =
    (if spc_ID (chd_Spec c) \<noteq> child then res_bind (updateChild child f cs) (\<lambda>cs'. Ok (c # cs'))
     else res_bind (f c) (\<lambda>c'. Ok (c' # cs)))"

definition applyChildCancelConfirmation ::
    "ChildGroupRecord \<Rightarrow> ChildCancelConfirmation \<Rightarrow> uint64 \<Rightarrow> uint64 \<Rightarrow> gotime \<Rightarrow> ChildGroupRecord res" where
  "applyChildCancelConfirmation g d source incarnation at =
    res_bind (updateChild (cnf_ChildID d) (confirmCancelChild d source incarnation at) (grp_Children g))
      (\<lambda>cs. Ok (g\<lparr>grp_Children := cs\<rparr>))"

definition applyChildWaitResolution ::
    "ChildGroupRecord \<Rightarrow> ChildWaitResolution \<Rightarrow> uint64 \<Rightarrow> uint64 \<Rightarrow> gotime \<Rightarrow> ChildGroupRecord res" where
  "applyChildWaitResolution g d source incarnation at =
    res_bind (updateChild (wrs_ChildID d) (resolveWaitChild d source incarnation at) (grp_Children g))
      (\<lambda>cs. Ok (g\<lparr>grp_Children := cs\<rparr>))"

text \<open>\<open>None\<close> is a replay that leaves the group as it is.\<close>

definition applyChildOutcomeResolution ::
    "sha256 \<Rightarrow> ChildGroupRecord \<Rightarrow> ChildOutcomeResolution \<Rightarrow> (string, ChildGroupRecord) gomap \<Rightarrow> uint64 \<Rightarrow> uint64 \<Rightarrow> gotime
     \<Rightarrow> ChildGroupRecord option res" where
  "applyChildOutcomeResolution sha g q groups source incarnation at =
    (if IsZero at \<or> incarnation = 0 then Err ErrExecutionCapability
     else let digest = childOutcomeRequestDigest sha q in
       res_bind (childOutcomeDecisionReplay groups q digest) (\<lambda>replay.
         if replay then Ok None
         else res_bind (updateChild (ors_ChildID q) (resolveOutcomeChild digest q source incarnation at) (grp_Children g))
           (\<lambda>cs. Ok (Some (g\<lparr>grp_Children := cs\<rparr>)))))"

section \<open>Cancellation of a group\<close>

fun requestCancelAll :: "ChildRecord list \<Rightarrow> ChildRecord list res" where
  "requestCancelAll [] = Ok []"
| "requestCancelAll (c # cs) = res_bind (requestCancelChild c) (\<lambda>c'. res_bind (requestCancelAll cs) (\<lambda>cs'. Ok (c' # cs')))"

text \<open>The change of the group in \<open>requestChildCancellationLocked\<close>; \<open>None\<close> is a replay.\<close>

definition requestGroupCancel ::
    "ChildGroupRecord \<Rightarrow> string \<Rightarrow> string \<Rightarrow> uint64 \<Rightarrow> uint64 \<Rightarrow> gotime \<Rightarrow> ChildGroupRecord option res" where
  "requestGroupCancel g rid reason revision incarnation now =
    (if grp_MergedIDs g \<noteq> [] then Err (Also ErrChildRevision)
     else case grp_CancelRequest g of
       Some r \<Rightarrow> if ccr_ID r \<noteq> rid \<or> ccr_Reason r \<noteq> reason then Err (Also ErrChildRevision) else Ok None
     | None \<Rightarrow> res_bind (requestCancelAll (grp_Children g)) (\<lambda>cs.
         Ok (Some (g\<lparr>grp_CancelRequested := True, grp_CancelRequest := Some \<lparr>ccr_ID = rid, ccr_Reason = reason,
           ccr_SourceRevision = revision, ccr_Incarnation = incarnation, ccr_At = now\<rparr>, grp_Children := cs\<rparr>))))"

definition validChildCancellation :: "ChildGroupRecord \<Rightarrow> bool" where
  "validChildCancellation g =
    (if \<not> grp_CancelRequested g then
       grp_CancelRequest g = None \<and> list_all (\<lambda>c. \<not> chd_CancelRequested c \<and> \<not> chd_CancelConfirmed c) (grp_Children g)
     else (case grp_CancelRequest g of
         None \<Rightarrow> False
       | Some r \<Rightarrow> ccr_ID r \<noteq> '''' \<and> ccr_Reason r \<noteq> '''' \<and> ccr_SourceRevision r \<noteq> 0 \<and> ccr_Incarnation r \<noteq> 0
           \<and> \<not> IsZero (ccr_At r) \<and> validRuntimeText [ccr_ID r, ccr_Reason r])
       \<and> list_all (\<lambda>c. chd_State c \<noteq> ChildPlanned \<and> chd_State c \<noteq> ChildQueued
           \<and> (settledChild c \<or> chd_CancelRequested c)) (grp_Children g))"

definition launchableChildIDs :: "ChildGroupRecord \<Rightarrow> string list" where
  "launchableChildIDs g =
    (if grp_CancelRequested g then []
     else map (spc_ID \<circ> chd_Spec) (filter (\<lambda>c. chd_State c = ChildPlanned \<or> chd_State c = ChildQueued) (grp_Children g)))"

section \<open>Join and budget\<close>

definition validChildJoin :: "ChildGroupRecord \<Rightarrow> bool" where
  "validChildJoin g =
    (if grp_MergedIDs g = [] then grp_MergedResult g = ''''
     else length (grp_MergedIDs g) = length (grp_Children g)
       \<and> list_all2 (\<lambda>i c. i = spc_ID (chd_Spec c) \<and> settledChild c) (grp_MergedIDs g) (grp_Children g))"

text \<open>The group \<open>joinChildren\<close> commits with the result of the merge.\<close>

definition joinGroup :: "ChildGroupRecord \<Rightarrow> string \<Rightarrow> ChildGroupRecord res" where
  "joinGroup g result =
    (if \<not> list_all settledChild (grp_Children g) then Err (Also ErrChildrenUnresolved)
     else Ok (g\<lparr>grp_MergedIDs := map (spc_ID \<circ> chd_Spec) (grp_Children g), grp_MergedResult := result\<rparr>))"

definition ComputeChildBudgetReturn :: "ChildRecord \<Rightarrow> counters \<Rightarrow> counters res" where
  "ComputeChildBudgetReturn c used =
    (let allocation = spc_Allocation (chd_Spec c) in
     if validateChildRecordState c \<noteq> None then Err (Also ErrChildInvalid)
     else if \<not> settledChild c then Err (Also ErrChildrenUnresolved)
     else if list_ex (\<lambda>(name, units). case lookup allocation name of None \<Rightarrow> True
           | Some allocated \<Rightarrow> name = '''' \<or> units < 0 \<or> allocated < units) used then Err ErrBudgetExceeded
     else if list_ex (\<lambda>(name, allocated). name = '''' \<or> allocated < 0 \<or> lookup used name = None) allocation
     then Err ErrBudgetExceeded
     else Ok (map (\<lambda>(name, allocated). (name, allocated - the (lookup used name))) allocation))"

definition childForBudgetReturn :: "ChildGroupRecord \<Rightarrow> string \<Rightarrow> ChildRecord option" where
  "childForBudgetReturn g child = List.find (\<lambda>c. spc_ID (chd_Spec c) = child) (grp_Children g)"

definition validChildBudgetReturns :: "ChildGroupRecord \<Rightarrow> bool" where
  "validChildBudgetReturns g \<longleftrightarrow> list_all (\<lambda>(child, r).
     case childForBudgetReturn g child of
       None \<Rightarrow> False
     | Some c \<Rightarrow> chd_Revision c = cbr_ChildRevision r \<and> cbr_DecisionID r \<noteq> '''' \<and> cbr_Reason r \<noteq> '''' \<and> cbr_Evidence r \<noteq> ''''
         \<and> cbr_SourceRevision r \<noteq> 0 \<and> cbr_Incarnation r \<noteq> 0 \<and> \<not> IsZero (cbr_At r)
         \<and> validRuntimeText [cbr_DecisionID r, cbr_Reason r, cbr_Evidence r]
         \<and> (case ComputeChildBudgetReturn c (cbr_Used r) of
              Inl _ \<Rightarrow> False | Inr returned \<Rightarrow> maps_Equal returned (cbr_Returned r))) (grp_BudgetReturns g)"

text \<open>The units of a counter that a child still holds; a missing return is Go's zero value.\<close>

definition returnedUnits :: "ChildGroupRecord \<Rightarrow> ChildRecord \<Rightarrow> string \<Rightarrow> int" where
  "returnedUnits g c name =
    (case lookup (grp_BudgetReturns g) (spc_ID (chd_Spec c)) of
       None \<Rightarrow> 0
     | Some r \<Rightarrow> (case lookup (cbr_Returned r) name of None \<Rightarrow> 0 | Some u \<Rightarrow> u))"

fun ledger_allocations :: "(string \<Rightarrow> int) \<Rightarrow> counters \<Rightarrow> counters \<Rightarrow> counters res" where
  "ledger_allocations returned remaining [] = Ok remaining"
| "ledger_allocations returned remaining ((name, allocation) # rest) =
    (let outstanding = allocation - returned name in
     case lookup remaining name of
       None \<Rightarrow> Err ErrBudgetExceeded
     | Some available \<Rightarrow>
         if outstanding < 0 \<or> outstanding > available then Err ErrBudgetExceeded
         else ledger_allocations returned (put name (available - outstanding) remaining) rest)"

fun ledger_children :: "ChildGroupRecord \<Rightarrow> counters \<Rightarrow> ChildRecord list \<Rightarrow> counters res" where
  "ledger_children g remaining [] = Ok remaining"
| "ledger_children g remaining (c # cs) =
    res_bind (ledger_allocations (returnedUnits g c) remaining (spc_Allocation (chd_Spec c)))
      (\<lambda>remaining'. ledger_children g remaining' cs)"

text \<open>The two maps by activation: the remaining units and the capacity.\<close>

fun ledger_groups ::
    "(uint64, counters) gomap \<Rightarrow> (uint64, counters) gomap \<Rightarrow> ChildGroupRecord list \<Rightarrow> err option" where
  "ledger_groups remaining capacities [] = None"
| "ledger_groups remaining capacities (g # gs) =
    (let act = grp_Activation g in
     case lookup capacities act of
       Some prior \<Rightarrow>
         if \<not> maps_Equal prior (grp_Capacity g) then Some (Sent ErrBudgetExceeded)
         else (case ledger_children g (the (lookup remaining act)) (grp_Children g) of
           Inl e \<Rightarrow> Some e
         | Inr rest \<Rightarrow> ledger_groups (put act rest remaining) capacities gs)
     | None \<Rightarrow>
         (case ledger_children g (grp_Capacity g) (grp_Children g) of
           Inl e \<Rightarrow> Some e
         | Inr rest \<Rightarrow> ledger_groups (put act rest remaining) (put act (grp_Capacity g) capacities) gs))"

definition validateChildCapacityLedger :: "(string, ChildGroupRecord) gomap \<Rightarrow> err option" where
  "validateChildCapacityLedger groups = ledger_groups [] [] (map snd groups)"

section \<open>The validator of a stored group\<close>

definition validateChildGroup :: "sha256 \<Rightarrow> ChildGroupRecord \<Rightarrow> err option" where
  "validateChildGroup sha g =
    (case PlanChildGroup sha (grp_ParentID g) (grp_Node g) (grp_Activation g) (grp_Plan g) (grp_Capacity g) of
       Inl _ \<Rightarrow> Some (Sent ErrExecutionCorrupt)
     | Inr base \<Rightarrow>
         if length (grp_Children g) \<noteq> length (grp_Children base) \<or> \<not> validChildCancellation g \<or> \<not> validChildJoin g
         then Some (Sent ErrExecutionCorrupt)
         else if \<not> validChildBudgetReturns g then Some (Sent ErrExecutionCorrupt)
         else if \<not> samePlan (grp_Plan base) (grp_Plan g) then Some (Sent ErrExecutionCorrupt)
         else reject (\<not> list_all2 (\<lambda>c original. chd_ExecutionID c = chd_ExecutionID original
             \<and> specEqual (chd_Spec c) (chd_Spec original) \<and> validateChildRecordState c = None)
           (grp_Children g) (grp_Children base)) ErrExecutionCorrupt)"

definition validChildOutcomeGroupProvenance :: "sha256 \<Rightarrow> ChildGroupRecord \<Rightarrow> ChildRecord \<Rightarrow> uint64 \<Rightarrow> bool" where
  "validChildOutcomeGroupProvenance sha g c revision =
    (case chd_OutcomeResolution c of None \<Rightarrow> True
     | Some p \<Rightarrow>
         let q = \<lparr>ors_Node = grp_Node g, ors_Activation = grp_Activation g, ors_GroupKey = pln_Key (grp_Plan g),
               ors_GroupLabel = pln_Label (grp_Plan g), ors_ChildID = spc_ID (chd_Spec c),
               ors_ExecutionID = chd_ExecutionID c, ors_ChildRevision = cor_ChildRevision p,
               ors_DecisionID = cor_DecisionID p, ors_Reason = cor_Reason p, ors_Evidence = cor_Evidence p,
               ors_Result = \<lparr>chr_State = chd_State c, chr_Payload = chd_Result c, chr_Error = chd_Error c,
                 chr_WaitID = chd_WaitID c\<rparr>\<rparr>
         in cor_SourceRevision p < revision \<and> validChildOutcomeRequest q
            \<and> childOutcomeRequestDigest sha q = cor_RequestDigest p)"

definition validChildGroupProvenance :: "sha256 \<Rightarrow> ChildGroupRecord \<Rightarrow> uint64 \<Rightarrow> bool" where
  "validChildGroupProvenance sha g revision \<longleftrightarrow>
    (case grp_CancelRequest g of None \<Rightarrow> True | Some r \<Rightarrow> ccr_SourceRevision r < revision)
    \<and> list_all (\<lambda>c. validChildOutcomeGroupProvenance sha g c revision
        \<and> (case chd_CancelConfirmation c of None \<Rightarrow> True
           | Some d \<Rightarrow> ccc_SourceRevision d < revision
               \<and> (case grp_CancelRequest g of None \<Rightarrow> False
                  | Some r \<Rightarrow> ccc_RequestID d = ccr_ID r \<and> ccc_SourceRevision d > ccr_SourceRevision r))
        \<and> (case chd_WaitResolution c of None \<Rightarrow> True | Some d \<Rightarrow> cwr_SourceRevision d < revision)) (grp_Children g)
    \<and> list_all (\<lambda>(_, r). cbr_SourceRevision r < revision) (grp_BudgetReturns g)"

definition validChildOutcomeDecisionIDs :: "(string, ChildGroupRecord) gomap \<Rightarrow> bool" where
  "validChildOutcomeDecisionIDs groups \<longleftrightarrow> distinct (map cor_DecisionID
     (List.map_filter chd_OutcomeResolution (concat (map (grp_Children \<circ> snd) groups))))"

section \<open>Allocation\<close>

definition units :: "counters \<Rightarrow> string \<Rightarrow> int" where
  "units m name = sum_list (map snd (filter (\<lambda>e. fst e = name) m))"

lemma units_simps [simp]:
  "units [] name = 0"
  "units ((k, v) # m) name = (if k = name then v else 0) + units m name"
  by (simp_all add: units_def)

lemma units_lookup: "gomap_ok m \<Longrightarrow> units m name = (case lookup m name of None \<Rightarrow> 0 | Some u \<Rightarrow> u)"
proof (induction m)
  case (Cons e m)
  obtain k v where e: "e = (k, v)" by (cases e)
  have "lookup m k = None" using Cons.prems by (auto simp: e map_of_eq_None_iff)
  with Cons show ?case by (auto simp: e)
qed simp

definition entry_ok :: "counters \<Rightarrow> string \<times> int \<Rightarrow> bool" where
  "entry_ok remaining e \<longleftrightarrow> fst e \<noteq> '''' \<and> ValidString (fst e) \<and> 0 \<le> snd e \<and> lookup remaining (fst e) \<noteq> None"

definition left :: "counters \<Rightarrow> string \<Rightarrow> int" where
  "left m name = (case lookup m name of None \<Rightarrow> 0 | Some a \<Rightarrow> a)"

lemma units_nonneg: "\<forall>e \<in> set m. 0 \<le> snd e \<Longrightarrow> 0 \<le> units m name"
  by (induction m) auto

lemma allocate_iff:
  assumes "\<forall>name. 0 \<le> left r name"
  shows "(\<exists>r'. allocateChildCounters r m = Ok r') \<longleftrightarrow>
    (\<forall>e \<in> set m. entry_ok r e) \<and> (\<forall>name. units m name \<le> left r name)"
  using assms
proof (induction m arbitrary: r)
  case (Cons e m)
  obtain k v where e: "e = (k, v)" by (cases e)
  show ?case
  proof (cases "lookup r k")
    case None
    then show ?thesis by (auto simp: e entry_ok_def)
  next
    case (Some a)
    let ?r = "put k (a - v) r"
    let ?P = "k \<noteq> [] \<and> ValidString k \<and> 0 \<le> v \<and> v \<le> a"
    have l: "left ?r name = left r name - (if k = name then v else 0)" for name using Some by (auto simp: left_def)
    have step: "(\<exists>r'. allocateChildCounters r (e # m) = Ok r') \<longleftrightarrow> ?P \<and> (\<exists>r'. allocateChildCounters ?r m = Ok r')"
      using Some by (auto simp: e not_less)
    show ?thesis
    proof (cases ?P)
      case True
      then have nn: "\<forall>name. 0 \<le> left ?r name" using Cons.prems Some by (auto simp: left_def)
      have "entry_ok ?r x \<longleftrightarrow> entry_ok r x" for x using Some by (auto simp: entry_ok_def)
      moreover have "entry_ok r e" using True Some by (simp add: e entry_ok_def)
      moreover have "(\<forall>name. units m name \<le> left ?r name) \<longleftrightarrow> (\<forall>name. units (e # m) name \<le> left r name)"
        unfolding l e units_simps by (simp add: le_diff_eq add.commute)
      ultimately show ?thesis using True step Cons.IH [OF nn] by simp
    next
      case False
      have "\<not> ((\<forall>x \<in> set (e # m). entry_ok r x) \<and> (\<forall>name. units (e # m) name \<le> left r name))"
      proof
        assume q: "(\<forall>x \<in> set (e # m). entry_ok r x) \<and> (\<forall>name. units (e # m) name \<le> left r name)"
        then have "0 \<le> units m k" by (intro units_nonneg) (auto simp: entry_ok_def)
        moreover have "v + units m k \<le> a" using q [THEN conjunct2, THEN spec, of k] Some by (simp add: e left_def)
        ultimately show False using q False by (auto simp: e entry_ok_def)
      qed
      with step False show ?thesis by simp
    qed
  qed
qed simp

lemma allocate_left:
  "allocateChildCounters r m = Ok r' \<Longrightarrow> left r' name = left r name - units m name
    \<and> (lookup r' name = None \<longleftrightarrow> lookup r name = None)"
proof (induction m arbitrary: r)
  case (Cons e m)
  obtain k v where e: "e = (k, v)" by (cases e)
  from Cons.prems obtain a where a: "lookup r k = Some a"
    and r': "allocateChildCounters (put k (a - v) r) m = Ok r'"
    by (auto simp: e split: option.splits if_splits)
  from Cons.IH [OF r'] a show ?case by (auto simp: e left_def)
qed simp

definition total_units :: "ChildSpec list \<Rightarrow> string \<Rightarrow> int" where
  "total_units specs name = sum_list (map (\<lambda>s. units (spc_Allocation s) name) specs)"

definition spec_ok :: "counters \<Rightarrow> ChildSpec \<Rightarrow> bool" where
  "spec_ok available s \<longleftrightarrow> spc_ID s \<noteq> '''' \<and> ValidString (spc_ID s) \<and> (\<forall>e \<in> set (spc_Allocation s). entry_ok available e)"

lemma spec_units_nonneg: "spec_ok r s \<Longrightarrow> 0 \<le> units (spc_Allocation s) name"
  by (rule units_nonneg) (auto simp: spec_ok_def entry_ok_def)

lemma total_units_nonneg: "\<forall>s \<in> set specs. spec_ok r s \<Longrightarrow> 0 \<le> total_units specs name"
  by (auto simp: total_units_def intro!: sum_list_nonneg spec_units_nonneg)

text \<open>When the planner succeeds, independently of the order of the children.\<close>

lemma plan_loop_iff:
  assumes "\<forall>name. 0 \<le> left r name"
  shows "(\<exists>r'. plan_loop seen r specs = Ok r') \<longleftrightarrow> (\<forall>s \<in> set specs. spec_ok r s \<and> spc_ID s \<notin> seen)
     \<and> distinct (map spc_ID specs) \<and> (\<forall>name. total_units specs name \<le> left r name)"
  using assms
proof (induction specs arbitrary: seen r)
  case (Cons s specs)
  let ?id = "spc_ID s \<noteq> [] \<and> ValidString (spc_ID s) \<and> spc_ID s \<notin> seen"
  note al = allocate_iff [OF Cons.prems, of "spc_Allocation s"]
  show ?case
  proof (cases "?id \<and> (\<exists>r1. allocateChildCounters r (spc_Allocation s) = Ok r1)")
    case True
    then obtain r1 where r1: "allocateChildCounters r (spc_Allocation s) = Ok r1" by blast
    note le = allocate_left [OF r1]
    have nn: "\<forall>name. 0 \<le> left r1 name" using al r1 le by auto
    have "spec_ok r1 x \<longleftrightarrow> spec_ok r x" for x using le by (simp add: spec_ok_def entry_ok_def)
    moreover have "spec_ok r s" using True al r1 by (auto simp: spec_ok_def)
    moreover have "(\<forall>name. total_units specs name \<le> left r1 name) \<longleftrightarrow> (\<forall>name. total_units (s # specs) name \<le> left r name)"
    proof -
      have "left r1 name = left r name - units (spc_Allocation s) name" for name using le by simp
      then show ?thesis by (simp add: total_units_def le_diff_eq add.commute)
    qed
    moreover have "(\<exists>r'. plan_loop seen r (s # specs) = Ok r') \<longleftrightarrow> (\<exists>r'. plan_loop (insert (spc_ID s) seen) r1 specs = Ok r')"
      using True r1 by simp
    moreover have "(\<forall>x \<in> set specs. spec_ok r x \<and> spc_ID x \<notin> insert (spc_ID s) seen) \<longleftrightarrow>
        (\<forall>x \<in> set specs. spec_ok r x \<and> spc_ID x \<notin> seen) \<and> spc_ID s \<notin> spc_ID ` set specs"
      by (auto simp: image_iff eq_commute)
    ultimately show ?thesis using Cons.IH [OF nn, of "insert (spc_ID s) seen"] True by simp
  next
    case False
    have "\<not> (\<exists>r'. plan_loop seen r (s # specs) = Ok r')" using False by (auto simp: res_simps split: if_splits)
    moreover have "\<not> ((\<forall>x \<in> set (s # specs). spec_ok r x \<and> spc_ID x \<notin> seen) \<and> (\<forall>name. total_units (s # specs) name \<le> left r name))"
    proof
      assume q: "(\<forall>x \<in> set (s # specs). spec_ok r x \<and> spc_ID x \<notin> seen) \<and> (\<forall>name. total_units (s # specs) name \<le> left r name)"
      have "units (spc_Allocation s) name \<le> left r name" for name
      proof -
        have "0 \<le> total_units specs name" using q by (intro total_units_nonneg) auto
        moreover have "units (spc_Allocation s) name + total_units specs name \<le> left r name"
          using q [THEN conjunct2, THEN spec, of name] by (simp add: total_units_def)
        ultimately show ?thesis by linarith
      qed
      with al q have "\<exists>r1. allocateChildCounters r (spc_Allocation s) = Ok r1" by (auto simp: spec_ok_def)
      with False q show False by (auto simp: spec_ok_def)
    qed
    ultimately show ?thesis by blast
  qed
qed (auto simp: total_units_def)

lemma capacity_left: "validChildCapacity c \<Longrightarrow> 0 \<le> left c name"
  by (auto simp: validChildCapacity_def left_def list_all_iff split: option.split dest: map_of_SomeD)

lemma total_units_sort: "total_units (sortSpecs specs) name = total_units specs name"
  unfolding total_units_def sortSpecs_def
proof -
  have "mset (map (\<lambda>s. units (spc_Allocation s) name) (sort_key spc_ID specs)) = mset (map (\<lambda>s. units (spc_Allocation s) name) specs)"
    by simp
  then show "sum_list (map (\<lambda>s. units (spc_Allocation s) name) (sort_key spc_ID specs))
      = sum_list (map (\<lambda>s. units (spc_Allocation s) name) specs)"
    by (simp only: sum_mset_sum_list [symmetric])
qed

lemma plan_loop_sort:
  assumes "validChildCapacity c"
  shows "(\<exists>r'. plan_loop {} c (sortSpecs specs) = Ok r') \<longleftrightarrow> (\<exists>r'. plan_loop {} c specs = Ok r')"
proof -
  have "distinct (map spc_ID (sortSpecs specs)) \<longleftrightarrow> distinct (map spc_ID specs)"
    unfolding distinct_count_atmost_1 mset_map sortSpecs_def by simp
  then show ?thesis
    using plan_loop_iff [of c "{}"] capacity_left [OF assms] by (simp add: total_units_sort) (simp add: sortSpecs_def)
qed

section \<open>A planned group\<close>

lemma plan_inv:
  assumes "PlanChildGroup sha parent node activation plan available = Ok g"
  shows "validChildCapacity available" and "\<exists>r'. plan_loop {} available (pln_Children plan) = Ok r'"
    and "grp_Children g = map (\<lambda>s. newChildRecord
        (childExecutionIdentity sha parent node activation (pln_Key plan) (spc_ID s)) s) (sortSpecs (pln_Children plan))"
    and "grp_Capacity g = available" and "grp_Plan g = plan\<lparr>pln_Children := sortSpecs (pln_Children plan)\<rparr>"
    and "grp_ParentID g = parent" and "grp_Node g = node" and "grp_Activation g = activation"
    and "grp_MergedIDs g = []" and "grp_MergedResult g = ''''" and "\<not> grp_CancelRequested g"
    and "grp_CancelRequest g = None" and "grp_BudgetReturns g = []"
  using assms by (auto simp: PlanChildGroup_def Let_def res_simps split: if_splits)

lemma sortSpecs_idem [simp]: "sortSpecs (sortSpecs specs) = sortSpecs specs"
  by (simp add: sortSpecs_def sorted_sort_id sort_key_id_if_sorted)

lemma newChild_valid: "validateChildRecordState (newChildRecord execution s) = None"
  by (simp add: validateChildRecordState_def newChildRecord_def validChildWaitResolution_def
      validChildCancelConfirmation_def validChildOutcomeResolution_def validateChildStateMachine_def Let_def)

lemma maps_Equal_refl: "gomap_ok m \<Longrightarrow> maps_Equal m m"
  by (auto simp: maps_Equal_def list_all_iff)

lemma specEqual_refl: "gomap_ok (spc_Allocation s) \<Longrightarrow> specEqual s s"
  by (simp add: specEqual_def maps_Equal_refl)

lemma replan:
  assumes p: "PlanChildGroup sha parent node activation plan available = Ok g"
  shows "PlanChildGroup sha parent node activation (grp_Plan g) available = Ok g"
proof -
  note i = plan_inv [OF p]
  from plan_loop_sort [OF i(1)] i(2) obtain r' where "plan_loop {} available (sortSpecs (pln_Children plan)) = Ok r'" by blast
  moreover have "sortSpecs (pln_Children plan) = [] \<longleftrightarrow> pln_Children plan = []"
    by (metis length_0_conv length_sort sortSpecs_def)
  ultimately show ?thesis using p unfolding i(5)
    by (simp add: PlanChildGroup_def Let_def res_simps split: if_splits)
qed

lemma planned_group_valid:
  assumes p: "PlanChildGroup sha parent node activation plan available = Ok g"
    and ok: "\<forall>s \<in> set (pln_Children plan). gomap_ok (spc_Allocation s)"
  shows "validateChildGroup sha g = None"
proof -
  note i = plan_inv [OF p]
  have set: "set (sortSpecs (pln_Children plan)) = set (pln_Children plan)" by (simp add: sortSpecs_def)
  have same: "samePlan (grp_Plan g) (grp_Plan g)"
    using ok set by (auto simp: samePlan_def i(5) list_all2_conv_all_nth intro!: specEqual_refl)
  have "validChildCancellation g" "validChildJoin g" "validChildBudgetReturns g"
    using i by (simp_all add: validChildCancellation_def validChildJoin_def validChildBudgetReturns_def list_all_iff
        newChildRecord_def)
  moreover have "list_all2 (\<lambda>c original. chd_ExecutionID c = chd_ExecutionID original
      \<and> specEqual (chd_Spec c) (chd_Spec original) \<and> validateChildRecordState c = None) (grp_Children g) (grp_Children g)"
    using ok set unfolding i(3)
    by (simp add: list_all2_map1 list_all2_map2 newChild_valid list_all2_same) (simp add: newChildRecord_def specEqual_refl)
  ultimately show ?thesis using replan [OF p] same by (simp add: validateChildGroup_def i(4,6,7,8))
qed

section \<open>The state machine of a child\<close>

inductive child_step :: "ChildRecord \<Rightarrow> ChildRecord \<Rightarrow> bool" where
  queue: "beginGuard False c \<Longrightarrow> chd_State c = ChildPlanned \<Longrightarrow> child_step c (queueChild c)"
| launch: "beginGuard False c \<Longrightarrow> chd_State c = ChildQueued \<Longrightarrow> incarnation \<noteq> 0 \<Longrightarrow> child_step c (launchChild incarnation c)"
| finish: "finishChildRecord revision incarnation result dispatchErr c = Ok c' \<Longrightarrow> child_step c c'"
| recover: "chd_State c = ChildRunning \<Longrightarrow> recoverChild incarnation c = Ok c' \<Longrightarrow> child_step c c'"
| request: "\<not> settledChild c \<Longrightarrow> requestCancelChild c = Ok c' \<Longrightarrow> child_step c c'"
| confirm: "confirmCancelChild d source incarnation at c = Ok c' \<Longrightarrow> child_step c c'"
| resolve_wait: "resolveWaitChild w source incarnation at c = Ok c' \<Longrightarrow> child_step c c'"
| resolve_outcome: "resolveOutcomeChild digest q source incarnation at c = Ok c' \<Longrightarrow> child_step c c'"

lemmas child_validity = validateChildRecordState_def validateChildStateMachine_def validChildWaitResolution_def
  validChildCancelConfirmation_def validChildOutcomeResolution_def

text \<open>A child without an outcome carries no decision record.\<close>

lemma open_child_decisions:
  assumes "validateChildRecordState c = None" and "\<not> settledChild c"
  shows "chd_WaitResolution c = None" and "chd_CancelConfirmation c = None" and "chd_OutcomeResolution c = None"
    and "\<not> chd_CancelConfirmed c" and "validateChildStateMachine c = None" and "ValidString (chd_WaitID c)"
proof -
  from assms(1) have v: "validChildWaitResolution c" "validChildCancelConfirmation c" "validChildOutcomeResolution c"
    "validateChildStateMachine c = None" "ValidString (chd_WaitID c)"
    by (auto simp: validateChildRecordState_def split: if_splits)
  with assms(2) show "chd_WaitResolution c = None" "chd_CancelConfirmation c = None" "chd_OutcomeResolution c = None"
    by (auto simp: validChildWaitResolution_def validChildCancelConfirmation_def validChildOutcomeResolution_def
        settledChild_def split: option.splits)
  from v(4) assms(2) show "\<not> chd_CancelConfirmed c"
    by (auto simp: validateChildStateMachine_def settledChild_def split: if_splits)
  from v show "validateChildStateMachine c = None" "ValidString (chd_WaitID c)" by simp_all
qed

lemma open_child_valid:
  assumes "chd_WaitResolution c = None" "chd_CancelConfirmation c = None" "chd_OutcomeResolution c = None"
    and "validateChildStateMachine c = None" "ValidString (chd_WaitID c)"
  shows "validateChildRecordState c = None"
  using assms by (simp add: validateChildRecordState_def validChildWaitResolution_def validChildCancelConfirmation_def
      validChildOutcomeResolution_def)

lemma queue_valid:
  assumes "validateChildRecordState c = None" and "chd_State c = ChildPlanned"
  shows "validateChildRecordState (queueChild c) = None \<and> chd_Revision c < chd_Revision (queueChild c)"
proof -
  note o = open_child_decisions [OF assms(1)]
  have ns: "\<not> settledChild c" using assms(2) by (simp add: settledChild_def)
  have "chd_Revision c = 0" using o(5) [OF ns] assms(2) by (simp add: validateChildStateMachine_def Let_def split: if_splits)
  with o [OF ns] assms(2) show ?thesis
    by (intro conjI open_child_valid) (simp_all add: queueChild_def validateChildStateMachine_def Let_def split: if_splits)
qed

lemma begin_guard_rev: "beginGuard b c \<Longrightarrow> chd_Revision c \<noteq> - 1"
proof
  assume "beginGuard b c" and "chd_Revision c = - 1"
  then have "\<not> (- 1 :: uint64) > - 1 - 2" by (simp add: beginGuard_def)
  moreover have "(- 1 :: uint64) > - 1 - 2" by simp
  ultimately show False by contradiction
qed

lemma launch_valid:
  assumes "validateChildRecordState c = None" and "beginGuard False c" "chd_State c = ChildQueued" "incarnation \<noteq> 0"
  shows "validateChildRecordState (launchChild incarnation c) = None \<and> chd_Revision c < chd_Revision (launchChild incarnation c)"
proof -
  have ns: "\<not> settledChild c" using assms(3) by (simp add: settledChild_def)
  note o = open_child_decisions [OF assms(1) ns]
  note m = begin_guard_rev [OF assms(2)]
  have "0 < chd_Revision c" using o(5) assms(3) by (simp add: validateChildStateMachine_def Let_def split: if_splits)
  then have "1 < chd_Revision c + 1" using rev_succ_next [OF m, of 0] by simp
  with o assms(3,4) rev_succ_self [OF m] show ?thesis
    by (intro conjI open_child_valid)
      (simp_all add: launchChild_def validateChildStateMachine_def Let_def word_gt_0 split: if_splits)
qed

lemma running_next:
  assumes "validateChildRecordState c = None" "chd_State c = ChildRunning" "chd_Revision c \<noteq> - 1"
  shows "2 < chd_Revision c + 1"
proof -
  have "\<not> settledChild c" using assms(2) by (simp add: settledChild_def)
  with open_child_decisions(5) [OF assms(1)] assms(2) have "1 < chd_Revision c"
    by (simp add: validateChildStateMachine_def Let_def split: if_splits)
  then show ?thesis using rev_succ_next [OF assms(3), of 1] by simp
qed

lemma recover_valid:
  assumes v: "validateChildRecordState c = None" and r: "recoverChild incarnation c = Ok c'" "chd_State c = ChildRunning"
  shows "validateChildRecordState c' = None \<and> chd_Revision c < chd_Revision c'"
proof -
  have ns: "\<not> settledChild c" using r(2) by (simp add: settledChild_def)
  note o = open_child_decisions [OF v ns]
  from r have m: "chd_Revision c \<noteq> - 1" and c': "c' = c\<lparr>chd_State := ChildUnknown, chd_Revision := chd_Revision c + 1\<rparr>"
    by (auto simp: recoverChild_def split: if_splits)
  from o running_next [OF v r(2) m] r(2) rev_succ_self [OF m] show ?thesis unfolding c'
    by (intro conjI open_child_valid) (simp_all add: validateChildStateMachine_def Let_def split: if_splits)
qed

lemma request_valid:
  assumes v: "validateChildRecordState c = None" and r: "requestCancelChild c = Ok c'" "\<not> settledChild c"
  shows "validateChildRecordState c' = None \<and> chd_Revision c < chd_Revision c'"
proof -
  note o = open_child_decisions [OF v r(2)]
  from r have m: "chd_Revision c \<noteq> - 1" by (auto simp: requestCancelChild_def split: if_splits)
  have c': "c' = (let c1 = c\<lparr>chd_CancelRequested := True, chd_Revision := chd_Revision c + 1\<rparr> in
      if chd_State c = ChildPlanned \<or> chd_State c = ChildQueued
      then c1\<lparr>chd_State := ChildCanceled, chd_CancelConfirmed := True\<rparr> else c1)"
    using r by (auto simp: requestCancelChild_def Let_def split: if_splits)
  have up: "k < chd_Revision c \<Longrightarrow> k < chd_Revision c + 1" "0 < chd_Revision c + 1" for k
    using rev_succ_mono [OF m] rev_succ_nonzero [OF m] by (auto simp: word_gt_0)
  show ?thesis
  proof (cases "chd_State c = ChildPlanned \<or> chd_State c = ChildQueued")
    case True
    with o up rev_succ_self [OF m] show ?thesis unfolding c'
      by (intro conjI open_child_valid) (auto simp: validateChildStateMachine_def Let_def split: if_splits)
  next
    case False
    with r(2) o(5) have "chd_State c \<in> {ChildRunning, ChildWaiting, ChildUnknown}"
      by (cases "chd_State c") (auto simp: validateChildStateMachine_def settledChild_def Let_def split: if_splits)
    with False o up rev_succ_self [OF m] show ?thesis unfolding c'
      by (intro conjI open_child_valid) (auto simp: validateChildStateMachine_def Let_def split: if_splits)
  qed
qed

text \<open>The other transitions validate their target before it is committed.\<close>

lemma invocation_running: "childInvocationMatches c revision incarnation \<Longrightarrow> chd_State c = ChildRunning \<and> chd_Revision c \<noteq> - 1"
  unfolding childInvocationMatches_def by (metis order_less_irrefl)

lemma checked_transition_shapes:
  "finishChildRecord revision incarnation result dispatchErr c = Ok c' \<Longrightarrow> validateChildRecordState c' = None
     \<and> chd_State c = ChildRunning \<and> chd_Revision c \<noteq> - 1 \<and> chd_Revision c' = chd_Revision c + 1
     \<and> chd_State c' \<notin> {ChildPlanned, ChildQueued, ChildRunning} \<and> chd_Spec c' = chd_Spec c \<and> chd_ExecutionID c' = chd_ExecutionID c"
  "confirmCancelChild d source incarnation at c = Ok c' \<Longrightarrow> validateChildRecordState c' = None
     \<and> chd_State c \<in> {ChildRunning, ChildWaiting, ChildUnknown} \<and> chd_Revision c \<noteq> - 1 \<and> chd_Revision c' = chd_Revision c + 1
     \<and> chd_State c' = ChildCanceled \<and> chd_Spec c' = chd_Spec c \<and> chd_ExecutionID c' = chd_ExecutionID c"
  "resolveWaitChild w source incarnation at c = Ok c' \<Longrightarrow> validateChildRecordState c' = None
     \<and> chd_State c = ChildWaiting \<and> chd_Revision c \<noteq> - 1 \<and> chd_Revision c' = chd_Revision c + 1
     \<and> chd_State c' \<in> {ChildCompleted, ChildFailed} \<and> chd_Spec c' = chd_Spec c \<and> chd_ExecutionID c' = chd_ExecutionID c"
  "resolveOutcomeChild digest q source incarnation at c = Ok c' \<Longrightarrow> validateChildRecordState c' = None
     \<and> chd_State c \<in> {ChildUnknown, ChildRunning} \<and> chd_Revision c \<noteq> - 1 \<and> chd_Revision c' = chd_Revision c + 1
     \<and> chd_State c' \<in> {ChildCompleted, ChildFailed} \<and> chd_Spec c' = chd_Spec c \<and> chd_ExecutionID c' = chd_ExecutionID c"
proof -
  show "finishChildRecord revision incarnation result dispatchErr c = Ok c' \<Longrightarrow> validateChildRecordState c' = None
     \<and> chd_State c = ChildRunning \<and> chd_Revision c \<noteq> - 1 \<and> chd_Revision c' = chd_Revision c + 1
     \<and> chd_State c' \<notin> {ChildPlanned, ChildQueued, ChildRunning} \<and> chd_Spec c' = chd_Spec c \<and> chd_ExecutionID c' = chd_ExecutionID c"
    using invocation_running [of c revision incarnation]
    by (auto simp: finishChildRecord_def Let_def res_simps validChildResultState_def split: if_splits option.splits)
  show "confirmCancelChild d source incarnation at c = Ok c' \<Longrightarrow> validateChildRecordState c' = None
     \<and> chd_State c \<in> {ChildRunning, ChildWaiting, ChildUnknown} \<and> chd_Revision c \<noteq> - 1 \<and> chd_Revision c' = chd_Revision c + 1
     \<and> chd_State c' = ChildCanceled \<and> chd_Spec c' = chd_Spec c \<and> chd_ExecutionID c' = chd_ExecutionID c"
    by (auto simp: confirmCancelChild_def Let_def res_simps unresolvedCancelableChild_def split: if_splits)
  show "resolveWaitChild w source incarnation at c = Ok c' \<Longrightarrow> validateChildRecordState c' = None
     \<and> chd_State c = ChildWaiting \<and> chd_Revision c \<noteq> - 1 \<and> chd_Revision c' = chd_Revision c + 1
     \<and> chd_State c' \<in> {ChildCompleted, ChildFailed} \<and> chd_Spec c' = chd_Spec c \<and> chd_ExecutionID c' = chd_ExecutionID c"
    by (auto simp: resolveWaitChild_def Let_def res_simps split: if_splits)
      (auto simp: validateChildRecordState_def validChildWaitResolution_def split: if_splits)
  show "resolveOutcomeChild digest q source incarnation at c = Ok c' \<Longrightarrow> validateChildRecordState c' = None
     \<and> chd_State c \<in> {ChildUnknown, ChildRunning} \<and> chd_Revision c \<noteq> - 1 \<and> chd_Revision c' = chd_Revision c + 1
     \<and> chd_State c' \<in> {ChildCompleted, ChildFailed} \<and> chd_Spec c' = chd_Spec c \<and> chd_ExecutionID c' = chd_ExecutionID c"
    by (auto simp: resolveOutcomeChild_def Let_def res_simps split: if_splits)
      (auto simp: validateChildRecordState_def validChildOutcomeResolution_def split: if_splits)
qed

lemma child_step_facts:
  assumes "child_step c c'" and "validateChildRecordState c = None"
  shows "validateChildRecordState c' = None \<and> chd_Revision c < chd_Revision c' \<and> \<not> settledChild c
    \<and> (chd_State c = ChildUnknown \<longrightarrow> chd_State c' \<notin> {ChildPlanned, ChildQueued, ChildRunning})
    \<and> chd_Spec c' = chd_Spec c \<and> chd_ExecutionID c' = chd_ExecutionID c"
  using assms
proof (induction rule: child_step.induct)
  case (queue c)
  then show ?case using queue_valid [of c] by (simp add: settledChild_def) (simp add: queueChild_def)
next
  case (launch c incarnation)
  then show ?case using launch_valid [of c incarnation] by (simp add: settledChild_def) (simp add: launchChild_def)
next
  case (finish revision incarnation result dispatchErr c c')
  then show ?case using checked_transition_shapes(1) [OF finish(1)] rev_succ_self [of "chd_Revision c"]
    by (auto simp: settledChild_def)
next
  case (recover c incarnation c')
  then show ?case using recover_valid [OF recover(3) recover(2,1)]
    by (auto simp: settledChild_def recoverChild_def split: if_splits)
next
  case (request c c')
  then show ?case using request_valid [OF request(3) request(2,1)]
    by (auto simp: settledChild_def requestCancelChild_def Let_def split: if_splits)
next
  case (confirm d source incarnation at c c')
  then show ?case using checked_transition_shapes(2) [OF confirm(1)] rev_succ_self [of "chd_Revision c"]
    by (auto simp: settledChild_def)
next
  case (resolve_wait w source incarnation at c c')
  then show ?case using checked_transition_shapes(3) [OF resolve_wait(1)] rev_succ_self [of "chd_Revision c"]
    by (auto simp: settledChild_def)
next
  case (resolve_outcome digest q source incarnation at c c')
  then show ?case using checked_transition_shapes(4) [OF resolve_outcome(1)] rev_succ_self [of "chd_Revision c"]
    by (auto simp: settledChild_def)
qed

text \<open>A run of a child: any sequence of transitions.\<close>

inductive child_run :: "ChildRecord \<Rightarrow> ChildRecord \<Rightarrow> bool" where
  child_refl: "child_run c c"
| child_more: "child_run c c' \<Longrightarrow> child_step c' c'' \<Longrightarrow> child_run c c''"

lemma child_run_valid:
  "child_run c c' \<Longrightarrow> validateChildRecordState c = None \<Longrightarrow> validateChildRecordState c' = None"
  by (induction rule: child_run.induct) (auto dest: child_step_facts)

lemma child_run_plan:
  "child_run c c' \<Longrightarrow> validateChildRecordState c = None \<Longrightarrow>
    chd_Spec c' = chd_Spec c \<and> chd_ExecutionID c' = chd_ExecutionID c"
proof (induction rule: child_run.induct)
  case (child_more c c' c'')
  then show ?case using child_step_facts [OF child_more(2) child_run_valid [OF child_more(1,4)]] by simp
qed simp

text \<open>A child that was launched is never planned, queued or running a second time.\<close>

lemma child_step_past:
  "child_step c c' \<Longrightarrow> chd_State c \<notin> {ChildPlanned, ChildQueued, ChildRunning} \<Longrightarrow>
    chd_State c' \<notin> {ChildPlanned, ChildQueued, ChildRunning}"
  by (induction rule: child_step.induct)
    (auto simp: requestCancelChild_def Let_def dest: checked_transition_shapes split: if_splits)

lemma child_run_past:
  "child_run c c' \<Longrightarrow> validateChildRecordState c = None \<Longrightarrow> chd_State c \<notin> {ChildPlanned, ChildQueued, ChildRunning} \<Longrightarrow>
    chd_State c' \<notin> {ChildPlanned, ChildQueued, ChildRunning}"
  by (induction rule: child_run.induct) (auto dest: child_step_past)

section \<open>The capacity ledger\<close>

definition heldUnits :: "(string \<Rightarrow> int) \<Rightarrow> counters \<Rightarrow> string \<Rightarrow> int" where
  "heldUnits returned allocation name =
    sum_list (map (\<lambda>e. snd e - returned name) (filter (\<lambda>e. fst e = name) allocation))"

lemma held_simps [simp]:
  "heldUnits returned [] name = 0"
  "heldUnits returned ((k, v) # m) name = (if k = name then v - returned name else 0) + heldUnits returned m name"
  by (simp_all add: heldUnits_def)

lemma ledger_allocations_left:
  "ledger_allocations returned r m = Ok r' \<Longrightarrow> \<forall>n. 0 \<le> left r n \<Longrightarrow>
    left r' n = left r n - heldUnits returned m n \<and> 0 \<le> left r' n"
proof (induction m arbitrary: r n)
  case (Cons e m)
  obtain k v where e: "e = (k, v)" by (cases e)
  from Cons.prems(1) obtain a where a: "lookup r k = Some a" "v - returned k \<le> a"
    and r': "ledger_allocations returned (put k (a - (v - returned k)) r) m = Ok r'"
    by (auto simp: e Let_def not_less split: option.splits if_splits)
  let ?r = "put k (a - (v - returned k)) r"
  have nn: "\<forall>n. 0 \<le> left ?r n" using Cons.prems(2) a by (auto simp: left_def)
  have "left ?r n = left r n - (if k = n then v - returned n else 0)" using a by (auto simp: left_def)
  with Cons.IH [OF r' nn, of n] show ?case by (auto simp: e)
qed simp

definition groupHeld :: "ChildGroupRecord \<Rightarrow> ChildRecord list \<Rightarrow> string \<Rightarrow> int" where
  "groupHeld g cs name = sum_list (map (\<lambda>c. heldUnits (returnedUnits g c) (spc_Allocation (chd_Spec c)) name) cs)"

lemma ledger_children_left:
  "ledger_children g r cs = Ok r' \<Longrightarrow> \<forall>n. 0 \<le> left r n \<Longrightarrow>
    left r' n = left r n - groupHeld g cs n \<and> 0 \<le> left r' n"
proof (induction cs arbitrary: r n)
  case (Cons c cs)
  from Cons.prems(1) obtain r1 where r1: "ledger_allocations (returnedUnits g c) r (spc_Allocation (chd_Spec c)) = Ok r1"
    and r': "ledger_children g r1 cs = Ok r'" by (auto simp: res_simps)
  note l = ledger_allocations_left [OF r1 Cons.prems(2)]
  have nn: "\<forall>n. 0 \<le> left r1 n" using l by blast
  from Cons.IH [OF r' nn, of n] l [of n] show ?case by (simp add: groupHeld_def)
qed (simp add: groupHeld_def)

text \<open>The units that the groups of one activation hold together.\<close>

definition activationHeld :: "ChildGroupRecord list \<Rightarrow> uint64 \<Rightarrow> string \<Rightarrow> int" where
  "activationHeld gs act name =
    sum_list (map (\<lambda>g. groupHeld g (grp_Children g) name) (filter (\<lambda>g. grp_Activation g = act) gs))"

lemma maps_Equal_left:
  assumes "maps_Equal m n" and "gomap_ok m" "gomap_ok n"
  shows "left m = left n"
proof -
  have sub: "map_of m \<subseteq>\<^sub>m map_of n"
  proof (unfold map_le_def, intro ballI)
    fix a
    assume "a \<in> dom (map_of m)"
    then obtain y where y: "lookup m a = Some y" by auto
    then have "(a, y) \<in> set m" by (rule map_of_SomeD)
    with assms(1) have "lookup n a = Some y" by (auto simp: maps_Equal_def list_all_iff)
    with y show "lookup m a = lookup n a" by simp
  qed
  have "card (dom (map_of m)) = card (dom (map_of n))"
    using assms by (simp add: maps_Equal_def dom_map_of_conv_image_fst card_distinct distinct_card flip: set_map)
  with sub have "dom (map_of m) = dom (map_of n)"
    by (intro card_subset_eq) (auto simp: finite_dom_map_of map_le_implies_dom_le)
  with sub have "map_of m = map_of n" by (metis map_le_antisym map_le_def)
  then show ?thesis by (intro ext) (simp add: left_def)
qed

definition ledger_state :: "(uint64, counters) gomap \<Rightarrow> (uint64, counters) gomap \<Rightarrow> bool" where
  "ledger_state R C \<longleftrightarrow> (\<forall>act. lookup R act = None \<longleftrightarrow> lookup C act = None)
     \<and> (\<forall>act r. lookup R act = Some r \<longrightarrow> (\<forall>n. 0 \<le> left r n))
     \<and> (\<forall>act c. lookup C act = Some c \<longrightarrow> gomap_ok c)"

definition ledger_bound ::
    "(uint64, counters) gomap \<Rightarrow> (uint64, counters) gomap \<Rightarrow> ChildGroupRecord list \<Rightarrow> uint64 \<Rightarrow> bool" where
  "ledger_bound R C gs act = (case lookup R act of
       Some r \<Rightarrow> (\<forall>n. activationHeld gs act n \<le> left r n)
         \<and> (\<forall>g \<in> set gs. grp_Activation g = act \<longrightarrow> left (grp_Capacity g) = left (the (lookup C act)))
     | None \<Rightarrow> (\<forall>g \<in> set gs. grp_Activation g = act \<longrightarrow> (\<forall>n. activationHeld gs act n \<le> left (grp_Capacity g) n)))"

lemma activationHeld_Cons:
  "activationHeld (g # gs) act n = (if grp_Activation g = act then groupHeld g (grp_Children g) n else 0) + activationHeld gs act n"
  by (simp add: activationHeld_def)

lemma ledger_bound_other:
  "act \<noteq> grp_Activation g \<Longrightarrow> ledger_bound (put (grp_Activation g) r' R) C' gs act \<Longrightarrow>
    lookup C' act = lookup C act \<Longrightarrow> ledger_bound R C (g # gs) act"
  by (auto simp: ledger_bound_def activationHeld_Cons split: option.splits)

lemma ledger_groups_bound:
  assumes "ledger_groups R C gs = None" and "ledger_state R C"
    and "\<forall>g \<in> set gs. validChildCapacity (grp_Capacity g) \<and> gomap_ok (grp_Capacity g)"
  shows "ledger_bound R C gs act"
  using assms
proof (induction gs arbitrary: R C)
  case Nil
  then show ?case by (auto simp: ledger_bound_def activationHeld_def ledger_state_def split: option.splits)
next
  case (Cons g gs)
  let ?a = "grp_Activation g"
  have cap: "validChildCapacity (grp_Capacity g)" "gomap_ok (grp_Capacity g)"
    and tl: "\<forall>g \<in> set gs. validChildCapacity (grp_Capacity g) \<and> gomap_ok (grp_Capacity g)" using Cons.prems(3) by auto
  show ?case
  proof (cases "lookup C ?a")
    case (Some prior)
    then obtain r where r: "lookup R ?a = Some r" using Cons.prems(2) by (cases "lookup R ?a") (auto simp: ledger_state_def)
    have nn: "\<forall>n. 0 \<le> left r n" and pk: "gomap_ok prior" using Cons.prems(2) r Some by (auto simp: ledger_state_def)
    from Cons.prems(1) Some r obtain r' where eq: "maps_Equal prior (grp_Capacity g)"
      and r': "ledger_children g r (grp_Children g) = Ok r'" and rest: "ledger_groups (put ?a r' R) C gs = None"
      by (auto simp: Let_def split: if_splits sum.splits)
    note l = ledger_children_left [OF r' nn]
    have nn': "\<forall>n. 0 \<le> left r' n" using l by blast
    have st: "ledger_state (put ?a r' R) C" using Cons.prems(2) Some nn' by (auto simp: ledger_state_def)
    from Cons.IH [OF rest st tl] have IH: "ledger_bound (put ?a r' R) C gs act" .
    show ?thesis
    proof (cases "act = ?a")
      case True
      have "left (grp_Capacity g) = left prior" using maps_Equal_left [OF eq pk cap(2)] by simp
      moreover have "activationHeld gs ?a n \<le> left r n - groupHeld g (grp_Children g) n" for n
      proof -
        have "activationHeld gs ?a n \<le> left r' n" using IH True by (simp add: ledger_bound_def)
        with l [of n] show ?thesis by simp
      qed
      ultimately show ?thesis using IH r Some True
        by (auto simp: ledger_bound_def activationHeld_Cons le_diff_eq add.commute)
    qed (use IH ledger_bound_other in blast)
  next
    case None
    then have r: "lookup R ?a = None" using Cons.prems(2) by (auto simp: ledger_state_def)
    have nn: "\<forall>n. 0 \<le> left (grp_Capacity g) n" using capacity_left [OF cap(1)] by simp
    from Cons.prems(1) None obtain r' where r': "ledger_children g (grp_Capacity g) (grp_Children g) = Ok r'"
      and rest: "ledger_groups (put ?a r' R) (put ?a (grp_Capacity g) C) gs = None"
      by (auto simp: Let_def split: if_splits sum.splits)
    note l = ledger_children_left [OF r' nn]
    have nn': "\<forall>n. 0 \<le> left r' n" using l by blast
    have st: "ledger_state (put ?a r' R) (put ?a (grp_Capacity g) C)"
      using Cons.prems(2) cap nn' by (auto simp: ledger_state_def)
    from Cons.IH [OF rest st tl] have IH: "ledger_bound (put ?a r' R) (put ?a (grp_Capacity g) C) gs act" .
    show ?thesis
    proof (cases "act = ?a")
      case True
      have "activationHeld gs ?a n \<le> left (grp_Capacity g) n - groupHeld g (grp_Children g) n" for n
      proof -
        have "activationHeld gs ?a n \<le> left r' n" using IH True by (simp add: ledger_bound_def)
        with l [of n] show ?thesis by simp
      qed
      then show ?thesis using IH r True
        by (auto simp: ledger_bound_def activationHeld_Cons le_diff_eq add.commute)
    next
      case False
      from ledger_bound_other [OF False IH] False show ?thesis by simp
    qed
  qed
qed

section \<open>Properties\<close>

text \<open>
  A successful plan never over-allocates a counter, orders its children by
  id without duplicates, starts all of them unlaunched, and passes the validator
  that is applied to it whenever it is loaded.
\<close>

theorem plan_within_capacity:
  assumes "PlanChildGroup sha parent node activation plan available = Ok g"
    and "\<forall>s \<in> set (pln_Children plan). gomap_ok (spc_Allocation s)"
  shows "(\<Sum>c \<leftarrow> grp_Children g. units (spc_Allocation (chd_Spec c)) name) \<le> left available name
    \<and> sorted_wrt (<) (map (spc_ID \<circ> chd_Spec) (grp_Children g))
    \<and> list_all (\<lambda>c. chd_State c = ChildPlanned \<and> chd_Revision c = 0) (grp_Children g)
    \<and> validateChildGroup sha g = None"
proof -
  note i = plan_inv [OF assms(1)]
  have l: "\<forall>name. 0 \<le> left available name" using capacity_left [OF i(1)] by simp
  from i(2) plan_loop_iff [OF l, of "{}" "pln_Children plan"]
  have d: "distinct (map spc_ID (pln_Children plan))" and t: "total_units (pln_Children plan) name \<le> left available name"
    by auto
  let ?s = "sortSpecs (pln_Children plan)"
  have ch: "map (spc_ID \<circ> chd_Spec) (grp_Children g) = map spc_ID ?s" by (simp add: i(3) newChildRecord_def)
  have "distinct (map spc_ID ?s)" using d unfolding distinct_count_atmost_1 mset_map sortSpecs_def by simp
  moreover have "sorted (map spc_ID ?s)" by (simp add: sortSpecs_def)
  ultimately have "sorted_wrt (<) (map spc_ID ?s)" by (simp add: strict_sorted_iff)
  moreover have "(\<Sum>c \<leftarrow> grp_Children g. units (spc_Allocation (chd_Spec c)) name) = total_units ?s name"
    by (simp add: i(3) newChildRecord_def total_units_def comp_def)
  moreover have "list_all (\<lambda>c. chd_State c = ChildPlanned \<and> chd_Revision c = 0) (grp_Children g)"
    by (simp add: i(3) newChildRecord_def list_all_iff)
  ultimately show ?thesis using t planned_group_valid [OF assms] by (simp add: ch total_units_sort)
qed

definition samplePlan :: ChildGroupPlan where
  "samplePlan = \<lparr>pln_Key = ''k'', pln_Label = ''l'', pln_MergeLabel = ''m'', pln_BudgetLabel = ''b'', pln_CancelLabel = ''c'',
     pln_MaxConcurrency = 2, pln_FailurePolicy = ChildFailFast,
     pln_Children = [\<lparr>spc_ID = ''y'', spc_Input = '''', spc_Allocation = [(''tok'', 3)]\<rparr>,
       \<lparr>spc_ID = ''x'', spc_Input = '''', spc_Allocation = [(''tok'', 4)]\<rparr>]\<rparr>"

definition sampleGroup :: ChildGroupRecord where
  "sampleGroup = (case PlanChildGroup sampleSha ''p'' ''n'' 1 samplePlan [(''tok'', 9)] of Inr g \<Rightarrow> g)"

lemma sampleGroup_plan: "PlanChildGroup sampleSha ''p'' ''n'' 1 samplePlan [(''tok'', 9)] = Ok sampleGroup"
proof -
  have "validChildCapacity [(''tok'', 9)]" by (simp add: validChildCapacity_def byte_def)
  moreover have "plan_loop {} [(''tok'', 9)] (pln_Children samplePlan) = Ok [(''tok'', 2)]"
    by (simp add: samplePlan_def byte_def)
  ultimately have "\<exists>g. PlanChildGroup sampleSha ''p'' ''n'' 1 samplePlan [(''tok'', 9)] = Ok g"
    by (simp add: PlanChildGroup_def Let_def) (simp add: samplePlan_def byte_def)
  then show ?thesis by (auto simp: sampleGroup_def)
qed

theorem plan_within_capacity_witness:
  "(\<Sum>c \<leftarrow> grp_Children sampleGroup. units (spc_Allocation (chd_Spec c)) ''tok'') \<le> 9
   \<and> validateChildGroup sampleSha sampleGroup = None"
  using plan_within_capacity [OF sampleGroup_plan, of "''tok''"] by (simp add: samplePlan_def left_def)

text \<open>
  C7. Every record that transitions of a child (queueing, launch, outcome, orphan
  recovery, cancellation request and confirmation, resolution of a wait or of an
  unknown outcome) reach from the record \<open>newChildRecord\<close> plans is valid and still
  carries the planned specification and execution; each transition from such a
  record raises its revision, a completed, failed or canceled child has no
  transition, and no run that starts at an unknown child ever reaches a planned,
  queued or running one.
\<close>

theorem child_state_machine:
  assumes "child_run (newChildRecord execution spec) c"
  shows "validateChildRecordState c = None \<and> chd_Spec c = spec \<and> chd_ExecutionID c = execution
    \<and> (\<forall>c'. child_step c c' \<longrightarrow> validateChildRecordState c' = None \<and> chd_Revision c < chd_Revision c')
    \<and> (settledChild c \<longrightarrow> (\<forall>c'. \<not> child_step c c'))
    \<and> (chd_State c = ChildUnknown \<longrightarrow> (\<forall>c'. child_run c c' \<longrightarrow>
        chd_State c' \<notin> {ChildPlanned, ChildQueued, ChildRunning}))"
proof -
  have v: "validateChildRecordState c = None" by (rule child_run_valid [OF assms newChild_valid])
  moreover have "chd_Spec c = spec" "chd_ExecutionID c = execution"
    using child_run_plan [OF assms newChild_valid] by (simp_all add: newChildRecord_def)
  moreover have "chd_State c' \<notin> {ChildPlanned, ChildQueued, ChildRunning}"
    if "chd_State c = ChildUnknown" "child_run c c'" for c'
    using child_run_past [OF that(2)] v that(1) by simp
  ultimately show ?thesis using child_step_facts [OF _ v] by blast
qed

definition sampleChild :: ChildRecord where
  "sampleChild = newChildRecord ''e'' \<lparr>spc_ID = ''x'', spc_Input = '''', spc_Allocation = []\<rparr>"

theorem child_state_machine_witness:
  "validateChildRecordState (launchChild 7 (queueChild sampleChild)) = None
   \<and> chd_State (launchChild 7 (queueChild sampleChild)) = ChildRunning"
proof -
  have "child_run sampleChild (queueChild sampleChild)"
    by (rule child_more [OF child_refl child_step.queue]) (simp_all add: sampleChild_def newChildRecord_def beginGuard_def)
  then have "child_run sampleChild (launchChild 7 (queueChild sampleChild))"
    by (rule child_more [OF _ child_step.launch])
      (simp_all add: sampleChild_def newChildRecord_def beginGuard_def queueChild_def)
  from child_state_machine [OF this [unfolded sampleChild_def]] show ?thesis
    by (simp add: sampleChild_def) (simp add: launchChild_def)
qed

text \<open>
  C8. The capacity ledger is sound: if it accepts the stored groups, the units
  of every counter that all children of one activation still hold (allocated and
  not returned) do not exceed the capacity of that activation, whatever the order
  in which the map is visited.
\<close>

theorem ledger_never_overspends:
  assumes "validateChildCapacityLedger groups = None"
    and "\<forall>(k, g) \<in> set groups. validChildCapacity (grp_Capacity g) \<and> gomap_ok (grp_Capacity g)"
    and "(k, g) \<in> set groups"
  shows "activationHeld (map snd groups) (grp_Activation g) name \<le> left (grp_Capacity g) name"
proof -
  have "ledger_bound [] [] (map snd groups) (grp_Activation g)"
    using assms by (intro ledger_groups_bound) (auto simp: validateChildCapacityLedger_def ledger_state_def)
  with assms(3) show ?thesis by (force simp: ledger_bound_def)
qed

theorem ledger_never_overspends_witness:
  "activationHeld [sampleGroup] 1 ''tok'' \<le> 9"
proof -
  note i = plan_inv [OF sampleGroup_plan]
  have s: "sortSpecs (pln_Children samplePlan)
      = [\<lparr>spc_ID = ''x'', spc_Input = '''', spc_Allocation = [(''tok'', 4)]\<rparr>,
         \<lparr>spc_ID = ''y'', spc_Input = '''', spc_Allocation = [(''tok'', 3)]\<rparr>]"
    by (simp add: sortSpecs_def samplePlan_def)
  have "ledger_children sampleGroup [(''tok'', 9)] (grp_Children sampleGroup) = Ok [(''tok'', 2)]"
    by (simp add: i(3) s newChildRecord_def returnedUnits_def i(13))
  then have "validateChildCapacityLedger [(''g'', sampleGroup)] = None"
    by (simp add: validateChildCapacityLedger_def i(4,8) Let_def)
  then show ?thesis
    using ledger_never_overspends [of "[(''g'', sampleGroup)]" "''g''" sampleGroup "''tok''"] i(1)
    by (simp add: i(4,8) left_def)
qed

end
