(* ===== verification/Execution_Envelope.thy ===== *)
theory Execution_Envelope
  imports Durable_Wait Child_Group
begin

text \<open>
  The persisted aggregate of an execution and everything that decides whether a
  stored envelope may be used: descriptors and migrations (execution\_contract.go),
  integrity and collections (execution\_integrity.go, activity\_references.go,
  child\_references.go and the decoders of the three payloads), imports
  (execution\_import.go), forks (execution\_fork\_contract.go,
  execution\_fork\_transition.go), rollovers (execution\_rollover\_contract.go,
  execution\_lifecycle\_validation.go) and retention requests
  (execution\_retention.go). \<open>sha\<close> is SHA-256 in hexadecimal and \<open>enc\<close> is
  \<open>json.Marshal\<close> of an envelope.
\<close>

section \<open>JSON objects\<close>

fun json_join :: "string list \<Rightarrow> string" where
  "json_join [] = ''''"
| "json_join [x] = x"
| "json_join (x # xs) = x @ '','' @ json_join xs"

text \<open>Arrays and structs of values that are encoded already; a struct keeps the order of its fields.\<close>

definition json_values :: "string list \<Rightarrow> string" where
  "json_values xs = ''['' @ json_join xs @ '']''"

definition json_object :: "(string \<times> string) list \<Rightarrow> string" where
  "json_object fs = ''{'' @ json_join (map (\<lambda>(k, v). json_string k @ '':'' @ v) fs) @ ''}''"

definition json_uint :: "uint64 \<Rightarrow> string" where
  "json_uint w = decimal (unat w)"

definition json_int :: "int \<Rightarrow> string" where
  "json_int i = (if i < 0 then CHR ''-'' # decimal (nat (- i)) else decimal (nat i))"

section \<open>Descriptors and progress\<close>

datatype StepReplayMode = StepReplaySafe | StepReplayModeOther string

fun replayModeText :: "StepReplayMode \<Rightarrow> string" where
  "replayModeText StepReplaySafe = ''replay_safe''"
| "replayModeText (StepReplayModeOther s) = s"

record StepReplayPolicy =
  srp_Label :: string
  srp_Mode :: StepReplayMode

record ExecutionDescriptor =
  dsc_GraphID :: string
  dsc_GraphRevision :: string
  dsc_StateCodec :: string
  dsc_EffectsCodec :: string
  dsc_ExecutionContract :: string
  dsc_ReplayPolicy :: StepReplayPolicy

definition ExecutionDescriptor_Validate :: "ExecutionDescriptor \<Rightarrow> err option" where
  "ExecutionDescriptor_Validate d =
    reject (dsc_GraphID d = '''' \<or> dsc_GraphRevision d = '''' \<or> dsc_StateCodec d = '''' \<or> dsc_EffectsCodec d = ''''
      \<or> dsc_ExecutionContract d = ''''
      \<or> \<not> validRuntimeText [dsc_GraphID d, dsc_GraphRevision d, dsc_StateCodec d, dsc_EffectsCodec d,
           dsc_ExecutionContract d, srp_Label (dsc_ReplayPolicy d)]
      \<or> srp_Label (dsc_ReplayPolicy d) = '''' \<or> srp_Mode (dsc_ReplayPolicy d) \<noteq> StepReplaySafe) ErrExecutionIncompatible"

definition ExecutionDescriptor_Check :: "ExecutionDescriptor \<Rightarrow> ExecutionDescriptor \<Rightarrow> err option" where
  "ExecutionDescriptor_Check d target =
    orElse (ExecutionDescriptor_Validate d) (orElse (ExecutionDescriptor_Validate target)
      (reject (d \<noteq> target) ErrExecutionIncompatible))"

record ExecutionProgress =
  prg_StatePayload :: string
  prg_ExecutionPointer :: string
  prg_ChildCursors :: "(string, string) gomap"
  prg_JournalReferences :: "(string, string) gomap"
  prg_ChildGroupReferences :: "(string, string) gomap"

definition validMigrationText :: "ExecutionProgress \<Rightarrow> bool" where
  "validMigrationText p \<longleftrightarrow> validRuntimeText [prg_ExecutionPointer p]
    \<and> list_all (\<lambda>(key, pointer). validRuntimeText [key, pointer]) (prg_ChildCursors p)
    \<and> list_all (\<lambda>(key, identity). validRuntimeText [key, identity]) (prg_JournalReferences p)
    \<and> list_all (\<lambda>(key, identity). validRuntimeText [key, identity]) (prg_ChildGroupReferences p)"

section \<open>Run metadata and terminals\<close>

datatype RunStatus = RunStatusCompleted | RunStatusTransferred | RunStatusSuspended | RunStatusContextCanceled
  | RunStatusFailed | RunStatusHandoff | RunStatusOther string

datatype SegmentEndReason = SegmentEndSuspend | SegmentEndComplete | SegmentEndFail | SegmentEndHandoff
  | SegmentEndContextCanceled | SegmentEndOther string

record SegmentInfo =
  seg_SegmentID :: string
  seg_StartTime :: gotime
  seg_EndTime :: gotime
  seg_EndReason :: SegmentEndReason

datatype HandoffStatus = HandoffStatusNone | HandoffStatusPending | HandoffStatusEnqueued | HandoffStatusOrphaned
  | HandoffStatusOther string

record RunMetadata =
  rmd_Segment :: SegmentInfo
  rmd_SegmentStartTime :: gotime
  rmd_RetryCounts :: counters
  rmd_BudgetCounts :: counters
  rmd_StepCount :: int
  rmd_TelemetryContext :: "(string, string) gomap"
  rmd_HandoffStatus :: HandoffStatus
  rmd_HandoffPendingAt :: gotime

record ExecutionFailure =
  efl_Message :: string

record ExecutionTerminal =
  trm_Status :: RunStatus
  trm_Reason :: string
  trm_Failure :: "ExecutionFailure option"

definition terminalFailureError :: "ExecutionTerminal option \<Rightarrow> err option" where
  "terminalFailureError terminal =
    (case terminal of None \<Rightarrow> None
     | Some t \<Rightarrow>
         if trm_Status t = RunStatusTransferred \<and> trm_Failure t = None then Some (Sent ErrExecutionTransferred)
         else if trm_Status t = RunStatusCompleted \<and> trm_Failure t = None then None
         else (case trm_Failure t of
             None \<Rightarrow> Some (Sent ErrInvalidSnapshot)
           | Some f \<Rightarrow> if trm_Status t \<noteq> RunStatusFailed then Some (Sent ErrInvalidSnapshot)
               else Some (Persisted (efl_Message f) (trm_Reason t))))"

definition makeExecutionTerminal :: "RunStatus \<Rightarrow> string \<Rightarrow> string option \<Rightarrow> ExecutionTerminal" where
  "makeExecutionTerminal status reason errText =
    \<lparr>trm_Status = status, trm_Reason = reason,
     trm_Failure = (if status \<noteq> RunStatusFailed then None
       else Some \<lparr>efl_Message = (case errText of None \<Rightarrow> reason | Some m \<Rightarrow> m)\<rparr>)\<rparr>"

section \<open>Provenance\<close>

record MigrationProvenance =
  mpr_SourceRevision :: uint64
  mpr_SourceDigest :: string
  mpr_Chain :: "string list"

record LegacyExecutionSource =
  les_ID :: string
  les_Revision :: uint64
  les_Format :: string
  les_Digest :: string
  les_Payload :: string

definition LegacyExecutionSource_Validate :: "sha256 \<Rightarrow> LegacyExecutionSource \<Rightarrow> err option" where
  "LegacyExecutionSource_Validate sha s =
    (if les_ID s = '''' \<or> les_Revision s = 0 \<or> les_Format s = '''' \<or> les_Payload s = ''''
        \<or> \<not> validRuntimeText [les_ID s, les_Format s] then Some (Sent ErrExecutionImportInvalid)
     else reject (les_Digest s \<noteq> sha (les_Payload s)) ErrExecutionImportInvalid)"

record ImportProvenance =
  ipr_Source :: LegacyExecutionSource
  ipr_ImporterID :: string

record HistoricalCheckpointReference =
  hcr_ExecutionID :: string
  hcr_Revision :: uint64
  hcr_Digest :: string

definition HistoricalCheckpointReference_Validate :: "HistoricalCheckpointReference \<Rightarrow> err option" where
  "HistoricalCheckpointReference_Validate s =
    (if hcr_ExecutionID s = '''' \<or> \<not> validRuntimeText [hcr_ExecutionID s] \<or> hcr_Revision s = 0
     then Some (Sent ErrExecutionLifecycleInvalid)
     else reject (\<not> validActivityDigest (hcr_Digest s)) ErrExecutionSourceDigest)"

datatype ForkActivityMode = ForkFake | ForkLive | ForkActivityModeOther string

text \<open>\<open>time.Time\<close> carries its location: the flag says that it is \<open>time.UTC\<close>.\<close>

record ForkLineage =
  fkl_Source :: HistoricalCheckpointReference
  fkl_SourceDescriptor :: ExecutionDescriptor
  fkl_TargetDescriptor :: ExecutionDescriptor
  fkl_TargetID :: string
  fkl_Mode :: ForkActivityMode
  fkl_PolicyLabel :: string
  fkl_TransformLabel :: string
  fkl_ProjectionLabel :: string
  fkl_CreatedAt :: gotime
  fkl_CreatedUTC :: bool

definition ForkLineage_Validate :: "ForkLineage \<Rightarrow> err option" where
  "ForkLineage_Validate f =
    (if HistoricalCheckpointReference_Validate (fkl_Source f) \<noteq> None
        \<or> ExecutionDescriptor_Validate (fkl_SourceDescriptor f) \<noteq> None
        \<or> ExecutionDescriptor_Validate (fkl_TargetDescriptor f) \<noteq> None
        \<or> \<not> validRuntimeText [fkl_TargetID f, hcr_ExecutionID (fkl_Source f), fkl_PolicyLabel f, fkl_TransformLabel f,
             fkl_ProjectionLabel f]
        \<or> fkl_TargetID f = '''' \<or> fkl_TargetID f = hcr_ExecutionID (fkl_Source f) \<or> fkl_PolicyLabel f = ''''
        \<or> fkl_TransformLabel f = '''' \<or> IsZero (fkl_CreatedAt f) \<or> \<not> fkl_CreatedUTC f
     then Some (Sent ErrExecutionLifecycleInvalid)
     else if fkl_Mode f \<noteq> ForkFake \<and> fkl_Mode f \<noteq> ForkLive then Some (Sent ErrForkPolicy)
     else reject (fkl_Mode f = ForkLive \<and> fkl_ProjectionLabel f = '''') ErrForkPolicy)"

record RolloverPolicy =
  rpl_Label :: string
  rpl_MaxRecords :: int
  rpl_MaxAggregateBytes :: int
  rpl_MaxTargetBytes :: int

definition RolloverPolicy_Validate :: "RolloverPolicy \<Rightarrow> err option" where
  "RolloverPolicy_Validate p =
    reject (rpl_Label p = '''' \<or> \<not> validRuntimeText [rpl_Label p] \<or> rpl_MaxRecords p \<le> 0
      \<or> rpl_MaxAggregateBytes p \<le> 0 \<or> rpl_MaxTargetBytes p \<le> 0) ErrExecutionLifecycleLimit"

record RolloverLineage =
  rll_Source :: HistoricalCheckpointReference
  rll_SourceDescriptor :: ExecutionDescriptor
  rll_TargetDescriptor :: ExecutionDescriptor
  rll_TargetID :: string
  rll_DecisionID :: string
  rll_Policy :: RolloverPolicy
  rll_ProjectionLabel :: string
  rll_RequestDigest :: string
  rll_CreatedAt :: gotime
  rll_CreatedUTC :: bool

definition json_reference :: "HistoricalCheckpointReference \<Rightarrow> string" where
  "json_reference r = json_object [(''execution_id'', json_string (hcr_ExecutionID r)),
     (''revision'', json_uint (hcr_Revision r)), (''digest'', json_string (hcr_Digest r))]"

definition json_descriptor :: "ExecutionDescriptor \<Rightarrow> string" where
  "json_descriptor d = json_object [(''graph_id'', json_string (dsc_GraphID d)),
     (''graph_revision'', json_string (dsc_GraphRevision d)), (''state_codec'', json_string (dsc_StateCodec d)),
     (''effects_codec'', json_string (dsc_EffectsCodec d)),
     (''execution_contract'', json_string (dsc_ExecutionContract d)),
     (''replay_policy'', json_object [(''label'', json_string (srp_Label (dsc_ReplayPolicy d))),
        (''mode'', json_string (replayModeText (srp_Mode (dsc_ReplayPolicy d))))])]"

definition json_rollover_policy :: "RolloverPolicy \<Rightarrow> string" where
  "json_rollover_policy p = json_object [(''label'', json_string (rpl_Label p)), (''max_records'', json_int (rpl_MaxRecords p)),
     (''max_aggregate_bytes'', json_int (rpl_MaxAggregateBytes p)), (''max_target_bytes'', json_int (rpl_MaxTargetBytes p))]"

definition rolloverRequestDigest ::
    "sha256 \<Rightarrow> HistoricalCheckpointReference \<Rightarrow> ExecutionDescriptor \<Rightarrow> ExecutionDescriptor \<Rightarrow> string \<Rightarrow> string
      \<Rightarrow> RolloverPolicy \<Rightarrow> string \<Rightarrow> string" where
  "rolloverRequestDigest sha source sourceDescriptor targetDescriptor targetID decisionID policy label =
    sha (json_values [json_string ''flowy-rollover-v1'', json_reference source, json_descriptor sourceDescriptor,
      json_descriptor targetDescriptor, json_string targetID, json_string decisionID, json_rollover_policy policy,
      json_string label])"

definition RolloverLineage_Validate :: "sha256 \<Rightarrow> RolloverLineage \<Rightarrow> err option" where
  "RolloverLineage_Validate sha l =
    (if HistoricalCheckpointReference_Validate (rll_Source l) \<noteq> None
        \<or> ExecutionDescriptor_Validate (rll_SourceDescriptor l) \<noteq> None
        \<or> ExecutionDescriptor_Validate (rll_TargetDescriptor l) \<noteq> None \<or> RolloverPolicy_Validate (rll_Policy l) \<noteq> None
        \<or> rll_TargetID l = '''' \<or> rll_TargetID l = hcr_ExecutionID (rll_Source l) \<or> rll_DecisionID l = ''''
        \<or> rll_ProjectionLabel l = '''' \<or> \<not> validRuntimeText [rll_TargetID l, rll_DecisionID l, rll_ProjectionLabel l]
        \<or> \<not> validActivityDigest (rll_RequestDigest l) \<or> \<not> activityScheduleTimeValid (rll_CreatedAt l)
        \<or> \<not> rll_CreatedUTC l then Some (Sent ErrExecutionCorrupt)
     else reject (rolloverRequestDigest sha (rll_Source l) (rll_SourceDescriptor l) (rll_TargetDescriptor l) (rll_TargetID l)
         (rll_DecisionID l) (rll_Policy l) (rll_ProjectionLabel l) \<noteq> rll_RequestDigest l) ErrExecutionCorrupt)"

record RolloverReceipt =
  rrc_Lineage :: RolloverLineage
  rrc_Target :: HistoricalCheckpointReference
  rrc_SourceRevision :: uint64

definition RolloverReceipt_Validate :: "sha256 \<Rightarrow> RolloverReceipt \<Rightarrow> err option" where
  "RolloverReceipt_Validate sha r =
    reject (RolloverLineage_Validate sha (rrc_Lineage r) \<noteq> None
      \<or> HistoricalCheckpointReference_Validate (rrc_Target r) \<noteq> None
      \<or> hcr_ExecutionID (rrc_Target r) \<noteq> rll_TargetID (rrc_Lineage r) \<or> hcr_Revision (rrc_Target r) \<noteq> 1
      \<or> hcr_Revision (rll_Source (rrc_Lineage r)) = - 1
      \<or> rrc_SourceRevision r \<noteq> hcr_Revision (rll_Source (rrc_Lineage r)) + 1) ErrExecutionCorrupt"

section \<open>The envelope\<close>

text \<open>
  A payload is what \<open>json.Unmarshal\<close> makes of its bytes: none, the literal \<open>null\<close>,
  rejected bytes, or a decoded map; the flag says that the bytes are valid UTF-8.
\<close>

datatype 'a payload = NoBytes | NullBytes | BadBytes bool | Bytes_of bool 'a

type_synonym activity_journal = "(string, ActivityRecord) gomap"
type_synonym child_groups = "(string, ChildGroupRecord) gomap"
type_synonym durable_waits = "(string, DurableWaitRecord) gomap"

record ExecutionEnvelope =
  env_ExecutionID :: string
  env_Revision :: uint64
  env_Digest :: string
  env_Descriptor :: ExecutionDescriptor
  env_RuntimeProfile :: "WaitCapabilityProfile option"
  env_Progress :: ExecutionProgress
  env_EffectsPayload :: string
  env_JournalPayload :: "activity_journal payload"
  env_ChildrenPayload :: "child_groups payload"
  env_WaitsPayload :: "durable_waits payload"
  env_RunMeta :: RunMetadata
  env_Activation :: uint64
  env_Terminal :: "ExecutionTerminal option"
  env_Migration :: "MigrationProvenance option"
  env_Import :: "ImportProvenance option"
  env_Rollover :: "RolloverLineage option"
  env_Transfer :: "RolloverReceipt option"
  env_Fork :: "ForkLineage option"

abbreviation env_Pointer :: "ExecutionEnvelope \<Rightarrow> string" where
  "env_Pointer e \<equiv> prg_ExecutionPointer (env_Progress e)"

type_synonym env_codec = "ExecutionEnvelope \<Rightarrow> string res"

definition unmarshalError :: err where
  "unmarshalError = Wrapped '''' [Sent ErrExecutionCorrupt, Plain ''json'']"

section \<open>The activity journal\<close>

definition decodeActivityJournal :: "sha256 \<Rightarrow> activity_journal payload \<Rightarrow> activity_journal res" where
  "decodeActivityJournal sha payload =
    (case payload of
       NoBytes \<Rightarrow> Ok []
     | BadBytes _ \<Rightarrow> Inl unmarshalError
     | NullBytes \<Rightarrow> Err ErrExecutionCorrupt
     | Bytes_of _ journal \<Rightarrow>
         check (firstErr (\<lambda>(identity, r). reject (identity \<noteq> rec_Identity r \<or> validateActivityRecord sha r \<noteq> None)
             ErrExecutionCorrupt) journal) (Ok journal))"

definition activityIdentity :: "sha256 \<Rightarrow> ExecutionEnvelope \<Rightarrow> string \<Rightarrow> string" where
  "activityIdentity sha e key = activityAddressIdentity sha (env_ExecutionID e) (env_Pointer e) (env_Activation e) key"

definition boundActivityIdentity :: "sha256 \<Rightarrow> ExecutionEnvelope \<Rightarrow> string \<Rightarrow> string" where
  "boundActivityIdentity sha e key =
    (case lookup (prg_JournalReferences (env_Progress e)) key of
       Some identity \<Rightarrow> identity | None \<Rightarrow> activityIdentity sha e key)"

definition validateActivityReferences :: "sha256 \<Rightarrow> ExecutionEnvelope \<Rightarrow> activity_journal \<Rightarrow> err option" where
  "validateActivityReferences sha e journal =
    orElse (firstErr (\<lambda>(key, identity). case lookup journal identity of
        None \<Rightarrow> Some (Sent ErrExecutionCorrupt)
      | Some r \<Rightarrow> reject (key \<noteq> rec_Key r \<or> rec_Activation r \<noteq> env_Activation e) ErrExecutionCorrupt)
        (prg_JournalReferences (env_Progress e)))
     (firstErr (\<lambda>(_, r). reject (activityUnresolved (rec_State r)
          \<and> (rec_Activation r \<noteq> env_Activation e \<or> boundActivityIdentity sha e (rec_Key r) \<noteq> rec_Identity r))
        ErrExecutionCorrupt) journal)"

text \<open>The loop of \<open>executionActivityJournal\<close> over the decoded records.\<close>

definition journalRecordError :: "ExecutionEnvelope \<Rightarrow> ActivityRecord \<Rightarrow> err option" where
  "journalRecordError e r =
    (if rec_Origin r = ActivitySimulated \<and> (case env_Fork e of None \<Rightarrow> True | Some f \<Rightarrow> fkl_Mode f \<noteq> ForkFake)
     then Some (Sent ErrExecutionCorrupt)
     else if rec_Origin r = ActivityLive \<and> (case env_Fork e of None \<Rightarrow> False | Some f \<Rightarrow> fkl_Mode f = ForkFake)
     then Some (Sent ErrExecutionCorrupt)
     else if rec_ExecutionID r \<noteq> env_ExecutionID e \<or> rec_Activation r > env_Activation e
     then Some (Sent ErrExecutionCorrupt)
     else firstErr (\<lambda>d. reject (res_SourceRevision d \<ge> env_Revision e) ErrExecutionCorrupt) (rec_Resolutions r))"

definition executionActivityJournal :: "sha256 \<Rightarrow> ExecutionEnvelope \<Rightarrow> activity_journal res" where
  "executionActivityJournal sha e =
    res_bind (decodeActivityJournal sha (env_JournalPayload e)) (\<lambda>journal.
      check (firstErr (\<lambda>(_, r). journalRecordError e r) journal)
        (check (validateActivityReferences sha e journal) (Ok journal)))"

section \<open>The child groups\<close>

abbreviation groupIdentity :: "sha256 \<Rightarrow> ChildGroupRecord \<Rightarrow> string" where
  "groupIdentity sha g \<equiv> childExecutionIdentity sha (grp_ParentID g) (grp_Node g) (grp_Activation g) (pln_Key (grp_Plan g)) ''''"

definition boundChildGroupIdentity :: "sha256 \<Rightarrow> ExecutionEnvelope \<Rightarrow> string \<Rightarrow> string" where
  "boundChildGroupIdentity sha e key =
    (case lookup (prg_ChildGroupReferences (env_Progress e)) key of
       Some identity \<Rightarrow> identity
     | None \<Rightarrow> childExecutionIdentity sha (env_ExecutionID e) (env_Pointer e) (env_Activation e) key '''')"

definition currentChildGroup :: "sha256 \<Rightarrow> ExecutionEnvelope \<Rightarrow> ChildGroupRecord \<Rightarrow> bool" where
  "currentChildGroup sha e g \<longleftrightarrow> grp_ParentID g = env_ExecutionID e \<and> grp_Activation g = env_Activation e
    \<and> boundChildGroupIdentity sha e (pln_Key (grp_Plan g)) = groupIdentity sha g"

definition validateChildGroupReferences :: "sha256 \<Rightarrow> ExecutionEnvelope \<Rightarrow> child_groups \<Rightarrow> err option" where
  "validateChildGroupReferences sha e groups =
    orElse (firstErr (\<lambda>(key, identity). case lookup groups identity of
        None \<Rightarrow> Some (Sent ErrExecutionCorrupt)
      | Some g \<Rightarrow> reject (key \<noteq> pln_Key (grp_Plan g) \<or> grp_Activation g \<noteq> env_Activation e) ErrExecutionCorrupt)
        (prg_ChildGroupReferences (env_Progress e)))
     (firstErr (\<lambda>(_, g). reject (length (grp_MergedIDs g) \<noteq> length (grp_Children g) \<and> \<not> currentChildGroup sha e g)
        ErrExecutionCorrupt) groups)"

text \<open>The loop of \<open>executionChildGroups\<close> over the decoded groups.\<close>

definition childGroupError :: "sha256 \<Rightarrow> ExecutionEnvelope \<Rightarrow> string \<times> ChildGroupRecord \<Rightarrow> err option" where
  "childGroupError sha e entry = (case entry of (identity, g) \<Rightarrow>
    if \<not> validChildGroupProvenance sha g (env_Revision e) then Some (Sent ErrExecutionCorrupt)
    else reject (identity \<noteq> groupIdentity sha g \<or> grp_ParentID g \<noteq> env_ExecutionID e \<or> grp_Activation g = 0
      \<or> grp_Activation g > env_Activation e \<or> validateChildGroup sha g \<noteq> None) ErrExecutionCorrupt)"

definition executionChildGroups :: "sha256 \<Rightarrow> ExecutionEnvelope \<Rightarrow> child_groups res" where
  "executionChildGroups sha e =
    (case env_ChildrenPayload e of
       NoBytes \<Rightarrow> check (validateChildGroupReferences sha e []) (Ok [])
     | NullBytes \<Rightarrow> Err ErrExecutionCorrupt
     | BadBytes utf8 \<Rightarrow> if \<not> utf8 then Err ErrExecutionCorrupt else Inl unmarshalError
     | Bytes_of utf8 groups \<Rightarrow>
         if \<not> utf8 then Err ErrExecutionCorrupt
         else if \<not> validChildOutcomeDecisionIDs groups then Err ErrExecutionCorrupt
         else check (firstErr (childGroupError sha e) groups)
           (check (validateChildGroupReferences sha e groups)
             (case validateChildCapacityLedger groups of
                None \<Rightarrow> Ok groups
              | Some ledgerErr \<Rightarrow> Inl (Wrapped '''' [Sent ErrExecutionCorrupt, ledgerErr]))))"

section \<open>The durable waits\<close>

definition validWaitEnvelopeAddress :: "sha256 \<Rightarrow> ExecutionEnvelope \<Rightarrow> string \<Rightarrow> DurableWaitRecord \<Rightarrow> bool" where
  "validWaitEnvelopeAddress sha e identity r \<longleftrightarrow>
    (case env_RuntimeProfile e of None \<Rightarrow> True | Some p \<Rightarrow> wrc_Profile r = p)
    \<and> identity = waitIdentity sha (wrc_ExecutionID r) (wrc_Node r) (wrc_Activation r) (wsp_ID (wrc_Spec r))
    \<and> wrc_ExecutionID r = env_ExecutionID e \<and> wrc_Activation r \<le> env_Activation e
    \<and> validateDurableWait sha r (env_Revision e) = None
    \<and> (wrc_State r \<noteq> WaitArmed \<or> (env_Terminal e = None \<and> wrc_Activation r = env_Activation e \<and> wrc_Node r = env_Pointer e))"

definition durableWaitCanceledReason :: string where
  "durableWaitCanceledReason = ''durable_wait_canceled''"

definition validCanceledWaitTerminal :: "ExecutionEnvelope \<Rightarrow> DurableWaitRecord \<Rightarrow> bool" where
  "validCanceledWaitTerminal e r =
    (wrc_State r \<noteq> WaitCanceled \<or>
      (case (wrc_Cancellation r, env_Terminal e) of
         (Some c, Some t) \<Rightarrow> trm_Status t = RunStatusFailed
           \<and> (case trm_Failure t of None \<Rightarrow> False
              | Some f \<Rightarrow> trm_Reason t = durableWaitCanceledReason
                  \<and> efl_Message f = durableWaitCanceledReason @ '': '' @ wcn_Reason c)
           \<and> env_Activation e = wrc_Activation r \<and> env_Pointer e = wrc_Node r
       | _ \<Rightarrow> False))"

text \<open>The loop of \<open>executionWaits\<close> with its count of armed waits.\<close>

fun waits_loop :: "sha256 \<Rightarrow> ExecutionEnvelope \<Rightarrow> nat \<Rightarrow> durable_waits \<Rightarrow> err option" where
  "waits_loop sha e armed [] = None"
| "waits_loop sha e armed ((identity, r) # waits) =
    (if \<not> validWaitEnvelopeAddress sha e identity r then Some (Sent ErrExecutionCorrupt)
     else
       let armed' = (if wrc_State r = WaitArmed then armed + 1 else armed) in
       if wrc_State r = WaitArmed \<and> armed' > 1 then Some (Sent ErrExecutionCorrupt)
       else if \<not> validCanceledWaitTerminal e r then Some (Sent ErrExecutionCorrupt)
       else waits_loop sha e armed' waits)"

definition executionWaits :: "sha256 \<Rightarrow> ExecutionEnvelope \<Rightarrow> durable_waits res" where
  "executionWaits sha e =
    (case env_WaitsPayload e of
       NoBytes \<Rightarrow> Ok []
     | Bytes_of _ waits \<Rightarrow> check (waits_loop sha e 0 waits) (Ok waits)
     | _ \<Rightarrow> Err ErrExecutionCorrupt)"

section \<open>Admission of a stored envelope\<close>

definition validateExecutionSourceMetadata :: "sha256 \<Rightarrow> ExecutionEnvelope \<Rightarrow> err option" where
  "validateExecutionSourceMetadata sha e =
    (if (case env_Rollover e of None \<Rightarrow> False
         | Some l \<Rightarrow> RolloverLineage_Validate sha l \<noteq> None \<or> rll_TargetID l \<noteq> env_ExecutionID e)
     then Some (Sent ErrExecutionCorrupt)
     else if (case env_Transfer e of None \<Rightarrow> False
         | Some r \<Rightarrow> RolloverReceipt_Validate sha r \<noteq> None \<or> hcr_ExecutionID (rll_Source (rrc_Lineage r)) \<noteq> env_ExecutionID e
             \<or> env_Revision e \<noteq> rrc_SourceRevision r
             \<or> (case env_Terminal e of None \<Rightarrow> True | Some t \<Rightarrow> trm_Status t \<noteq> RunStatusTransferred))
     then Some (Sent ErrExecutionCorrupt)
     else if (case env_Terminal e of None \<Rightarrow> False | Some t \<Rightarrow> trm_Status t = RunStatusTransferred) \<and> env_Transfer e = None
     then Some (Sent ErrExecutionCorrupt)
     else if (case env_Fork e of None \<Rightarrow> False
         | Some f \<Rightarrow> ForkLineage_Validate f \<noteq> None \<or> fkl_TargetID f \<noteq> env_ExecutionID e)
     then Some (Sent ErrExecutionCorrupt)
     else if (case env_Import e of None \<Rightarrow> False
         | Some i \<Rightarrow> ipr_ImporterID i = '''' \<or> LegacyExecutionSource_Validate sha (ipr_Source i) \<noteq> None)
     then Some (Sent ErrExecutionImportInvalid)
     else reject (case terminalFailureError (env_Terminal e) of None \<Rightarrow> False | Some x \<Rightarrow> errIs x ErrInvalidSnapshot)
       ErrInvalidSnapshot)"

definition validateExecutionCollectionsWithWaits :: "sha256 \<Rightarrow> ExecutionEnvelope \<Rightarrow> durable_waits res" where
  "validateExecutionCollectionsWithWaits sha e =
    (if \<not> validMigrationText (env_Progress e) then Err ErrExecutionCorrupt
     else if (case env_RuntimeProfile e of None \<Rightarrow> False | Some p \<Rightarrow> WaitCapabilityProfile_Validate p \<noteq> None)
     then Err ErrExecutionCorrupt
     else res_bind (executionActivityJournal sha e) (\<lambda>_.
       res_bind (executionChildGroups sha e) (\<lambda>_. executionWaits sha e)))"

definition errOf :: "'a res \<Rightarrow> err option" where
  "errOf r = (case r of Inl e \<Rightarrow> Some e | Inr _ \<Rightarrow> None)"

lemma errOf_None_iff [res_simps]: "errOf r = None \<longleftrightarrow> (\<exists>x. r = Inr x)"
  by (cases r) (simp_all add: errOf_def)

definition validateExecutionCollections :: "sha256 \<Rightarrow> ExecutionEnvelope \<Rightarrow> err option" where
  "validateExecutionCollections sha e = errOf (validateExecutionCollectionsWithWaits sha e)"

section \<open>Integrity\<close>

definition EnvelopeDigest :: "sha256 \<Rightarrow> env_codec \<Rightarrow> ExecutionEnvelope \<Rightarrow> string res" where
  "EnvelopeDigest sha enc e = res_bind (enc (e\<lparr>env_Digest := ''''\<rparr>)) (\<lambda>data. Ok (sha data))"

definition SealExecutionEnvelope :: "sha256 \<Rightarrow> env_codec \<Rightarrow> ExecutionEnvelope \<Rightarrow> ExecutionEnvelope res" where
  "SealExecutionEnvelope sha enc e =
    (if env_ExecutionID e = '''' \<or> env_Revision e = 0 \<or> env_Pointer e = '''' \<or> \<not> validRuntimeText [env_ExecutionID e]
        \<or> \<not> validMigrationText (env_Progress e) then Err ErrExecutionCorrupt
     else res_bind (EnvelopeDigest sha enc e) (\<lambda>digest. Ok (e\<lparr>env_Digest := digest\<rparr>)))"

definition ValidateExecutionIntegrity :: "sha256 \<Rightarrow> env_codec \<Rightarrow> ExecutionEnvelope \<Rightarrow> string \<Rightarrow> uint64 \<Rightarrow> err option" where
  "ValidateExecutionIntegrity sha enc e execution revision =
    (if execution = '''' \<or> revision = 0 \<or> env_ExecutionID e \<noteq> execution \<or> env_Revision e \<noteq> revision
        \<or> \<not> validRuntimeText [execution] \<or> \<not> validMigrationText (env_Progress e) \<or> env_Pointer e = '''' \<or> env_Digest e = ''''
     then Some (Sent ErrExecutionCorrupt)
     else (case EnvelopeDigest sha enc e of
         Inl x \<Rightarrow> Some x
       | Inr digest \<Rightarrow> reject (digest \<noteq> env_Digest e) ErrExecutionCorrupt))"

definition InspectExecutionWaits :: "sha256 \<Rightarrow> env_codec \<Rightarrow> ExecutionEnvelope \<Rightarrow> DurableWaitRecord list res" where
  "InspectExecutionWaits sha enc e =
    check (ValidateExecutionIntegrity sha enc e (env_ExecutionID e) (env_Revision e))
      (res_bind (validateExecutionCollectionsWithWaits sha e) (\<lambda>waits. Ok (map snd (sort_key fst waits))))"

section \<open>What the decoders accept\<close>

lemma reject_None_iff [res_simps]: "reject c s = None \<longleftrightarrow> \<not> c"
  by simp

lemma decodeActivityJournal_Ok_iff:
  "decodeActivityJournal sha payload = Ok journal \<longleftrightarrow>
    payload = NoBytes \<and> journal = []
    \<or> (\<exists>utf8. payload = Bytes_of utf8 journal)
      \<and> (\<forall>(identity, r) \<in> set journal. identity = rec_Identity r \<and> validateActivityRecord sha r = None)"
  by (cases payload) (auto simp: decodeActivityJournal_def res_simps)

definition journal_record_ok :: "ExecutionEnvelope \<Rightarrow> ActivityRecord \<Rightarrow> bool" where
  "journal_record_ok e r \<longleftrightarrow>
    (rec_Origin r = ActivitySimulated \<longrightarrow> (\<exists>f. env_Fork e = Some f \<and> fkl_Mode f = ForkFake))
    \<and> (rec_Origin r = ActivityLive \<longrightarrow> (\<forall>f. env_Fork e = Some f \<longrightarrow> fkl_Mode f \<noteq> ForkFake))
    \<and> rec_ExecutionID r = env_ExecutionID e \<and> rec_Activation r \<le> env_Activation e
    \<and> (\<forall>d \<in> set (rec_Resolutions r). res_SourceRevision d < env_Revision e)"

lemma journalRecordError_iff: "journalRecordError e r = None \<longleftrightarrow> journal_record_ok e r"
  by (auto simp: journalRecordError_def journal_record_ok_def res_simps not_le split: option.splits)

lemma validateActivityReferences_iff:
  "validateActivityReferences sha e journal = None \<longleftrightarrow>
    (\<forall>(key, identity) \<in> set (prg_JournalReferences (env_Progress e)).
       \<exists>r. lookup journal identity = Some r \<and> key = rec_Key r \<and> rec_Activation r = env_Activation e)
    \<and> (\<forall>(identity, r) \<in> set journal. activityUnresolved (rec_State r) \<longrightarrow>
        rec_Activation r = env_Activation e \<and> boundActivityIdentity sha e (rec_Key r) = rec_Identity r)"
proof -
  have "(case lookup journal identity of None \<Rightarrow> Some (Sent ErrExecutionCorrupt)
      | Some r \<Rightarrow> reject (key \<noteq> rec_Key r \<or> rec_Activation r \<noteq> env_Activation e) ErrExecutionCorrupt) = None
    \<longleftrightarrow> (\<exists>r. lookup journal identity = Some r \<and> key = rec_Key r \<and> rec_Activation r = env_Activation e)" for key identity
    by (cases "lookup journal identity") auto
  then show ?thesis by (auto simp: validateActivityReferences_def res_simps split_beta)
qed

lemma executionActivityJournal_Ok_iff:
  "executionActivityJournal sha e = Ok journal \<longleftrightarrow>
    decodeActivityJournal sha (env_JournalPayload e) = Ok journal
    \<and> (\<forall>(identity, r) \<in> set journal. journal_record_ok e r)
    \<and> validateActivityReferences sha e journal = None"
  by (auto simp: executionActivityJournal_def res_simps journalRecordError_iff)

lemma validateChildGroupReferences_iff:
  "validateChildGroupReferences sha e groups = None \<longleftrightarrow>
    (\<forall>(key, identity) \<in> set (prg_ChildGroupReferences (env_Progress e)).
       \<exists>g. lookup groups identity = Some g \<and> key = pln_Key (grp_Plan g) \<and> grp_Activation g = env_Activation e)
    \<and> (\<forall>(identity, g) \<in> set groups. length (grp_MergedIDs g) = length (grp_Children g) \<or> currentChildGroup sha e g)"
proof -
  have "(case lookup groups identity of None \<Rightarrow> Some (Sent ErrExecutionCorrupt)
      | Some g \<Rightarrow> reject (key \<noteq> pln_Key (grp_Plan g) \<or> grp_Activation g \<noteq> env_Activation e) ErrExecutionCorrupt) = None
    \<longleftrightarrow> (\<exists>g. lookup groups identity = Some g \<and> key = pln_Key (grp_Plan g) \<and> grp_Activation g = env_Activation e)" for key identity
    by (cases "lookup groups identity") auto
  then show ?thesis by (auto simp: validateChildGroupReferences_def res_simps split_beta)
qed

lemma executionChildGroups_Ok_iff:
  "executionChildGroups sha e = Ok groups \<longleftrightarrow>
    validateChildGroupReferences sha e groups = None
    \<and> (env_ChildrenPayload e = NoBytes \<and> groups = []
      \<or> env_ChildrenPayload e = Bytes_of True groups \<and> validChildOutcomeDecisionIDs groups
        \<and> (\<forall>entry \<in> set groups. childGroupError sha e entry = None) \<and> validateChildCapacityLedger groups = None)"
  by (cases "env_ChildrenPayload e")
    (auto simp: executionChildGroups_def res_simps split: option.splits)

abbreviation armed_waits :: "durable_waits \<Rightarrow> durable_waits" where
  "armed_waits waits \<equiv> filter (\<lambda>w. wrc_State (snd w) = WaitArmed) waits"

lemma waits_loop_iff:
  "waits_loop sha e armed waits = None \<longleftrightarrow>
    (\<forall>(identity, r) \<in> set waits. validWaitEnvelopeAddress sha e identity r \<and> validCanceledWaitTerminal e r)
    \<and> (armed_waits waits = [] \<or> armed + length (armed_waits waits) \<le> 1)"
proof (induction waits arbitrary: armed)
  case (Cons w waits)
  obtain identity r where w: "w = (identity, r)" by (cases w)
  show ?case
  proof (cases "wrc_State r = WaitArmed")
    case True
    then show ?thesis by (auto simp: w Let_def Cons.IH)
  next
    case False
    then show ?thesis by (auto simp: w Let_def Cons.IH)
  qed
qed simp

lemma executionWaits_Ok_iff:
  "executionWaits sha e = Ok waits \<longleftrightarrow>
    env_WaitsPayload e = NoBytes \<and> waits = []
    \<or> (\<exists>utf8. env_WaitsPayload e = Bytes_of utf8 waits)
      \<and> (\<forall>(identity, r) \<in> set waits. validWaitEnvelopeAddress sha e identity r \<and> validCanceledWaitTerminal e r)
      \<and> length (armed_waits waits) \<le> 1"
  by (cases "env_WaitsPayload e") (auto simp: executionWaits_def res_simps waits_loop_iff)

lemma validateExecutionCollections_iff:
  "validateExecutionCollections sha e = None \<longleftrightarrow>
    validMigrationText (env_Progress e)
    \<and> (\<forall>p. env_RuntimeProfile e = Some p \<longrightarrow> WaitCapabilityProfile_Validate p = None)
    \<and> (\<exists>journal. executionActivityJournal sha e = Ok journal) \<and> (\<exists>groups. executionChildGroups sha e = Ok groups)
    \<and> (\<exists>waits. executionWaits sha e = Ok waits)"
  by (auto simp: validateExecutionCollections_def validateExecutionCollectionsWithWaits_def res_simps split: option.splits)

section \<open>Later revisions\<close>

text \<open>Addresses depend on the identity, the progress and the activation alone.\<close>

definition same_address :: "ExecutionEnvelope \<Rightarrow> ExecutionEnvelope \<Rightarrow> bool" where
  "same_address e e' \<longleftrightarrow> env_ExecutionID e = env_ExecutionID e' \<and> env_Progress e = env_Progress e'
    \<and> env_Activation e = env_Activation e'"

lemma references_cong:
  assumes "same_address e e'"
  shows "validateActivityReferences sha e journal = None \<longleftrightarrow> validateActivityReferences sha e' journal = None"
    and "validateChildGroupReferences sha e groups = None \<longleftrightarrow> validateChildGroupReferences sha e' groups = None"
    and "currentChildGroup sha e g \<longleftrightarrow> currentChildGroup sha e' g"
proof -
  have "boundActivityIdentity sha e = boundActivityIdentity sha e'"
    using assms by (intro ext) (simp add: same_address_def boundActivityIdentity_def activityIdentity_def split: option.split)
  moreover have bound: "boundChildGroupIdentity sha e = boundChildGroupIdentity sha e'"
    using assms by (intro ext) (simp add: same_address_def boundChildGroupIdentity_def split: option.split)
  then have current: "currentChildGroup sha e = currentChildGroup sha e'"
    using assms by (intro ext) (simp add: same_address_def currentChildGroup_def)
  ultimately show "validateActivityReferences sha e journal = None \<longleftrightarrow> validateActivityReferences sha e' journal = None"
    and "validateChildGroupReferences sha e groups = None \<longleftrightarrow> validateChildGroupReferences sha e' groups = None"
    and "currentChildGroup sha e g \<longleftrightarrow> currentChildGroup sha e' g"
    using assms by (simp_all add: validateActivityReferences_iff validateChildGroupReferences_iff same_address_def)
qed

lemma same_address_revision: "same_address (e\<lparr>env_Revision := later\<rparr>) e"
  by (simp add: same_address_def)

text \<open>Collections that are valid at a revision are valid at every later one.\<close>

lemma journal_record_later:
  "journal_record_ok e r \<Longrightarrow> env_Revision e \<le> later \<Longrightarrow> journal_record_ok (e\<lparr>env_Revision := later\<rparr>) r"
  by (auto simp: journal_record_ok_def intro: less_le_trans)

lemma journal_later:
  assumes "executionActivityJournal sha e = Ok journal" and "env_Revision e \<le> later"
  shows "executionActivityJournal sha (e\<lparr>env_Revision := later\<rparr>) = Ok journal"
  using assms unfolding executionActivityJournal_Ok_iff references_cong(1) [OF same_address_revision]
  by (auto simp: split_beta intro: journal_record_later)

lemma provenance_later:
  assumes "validChildGroupProvenance sha g revision" and "revision \<le> later"
  shows "validChildGroupProvenance sha g later"
proof -
  have outcome: "validChildOutcomeGroupProvenance sha g c later" if "validChildOutcomeGroupProvenance sha g c revision" for c
    using that assms(2) by (auto simp: validChildOutcomeGroupProvenance_def Let_def split: option.splits)
  show ?thesis
    using assms unfolding validChildGroupProvenance_def list_all_iff
    by (fastforce split: option.splits intro: outcome less_le_trans)
qed

lemma groups_later:
  assumes "executionChildGroups sha e = Ok groups" and "env_Revision e \<le> later"
  shows "executionChildGroups sha (e\<lparr>env_Revision := later\<rparr>) = Ok groups"
proof -
  have "childGroupError sha (e\<lparr>env_Revision := later\<rparr>) entry = None" if "childGroupError sha e entry = None" for entry
    using that provenance_later [OF _ assms(2)] by (auto simp: childGroupError_def split: prod.splits if_splits)
  with assms(1) show ?thesis
    unfolding executionChildGroups_Ok_iff references_cong(2) [OF same_address_revision] by auto
qed

lemma wait_address_later:
  "validWaitEnvelopeAddress sha e identity r \<Longrightarrow> env_Revision e \<le> later
    \<Longrightarrow> validWaitEnvelopeAddress sha (e\<lparr>env_Revision := later\<rparr>) identity r"
  by (auto simp: validWaitEnvelopeAddress_def intro: validity_later)

lemma canceled_terminal_later [simp]:
  "validCanceledWaitTerminal (e\<lparr>env_Revision := later\<rparr>) r = validCanceledWaitTerminal e r"
  by (simp add: validCanceledWaitTerminal_def split: option.split)

lemma waits_later:
  assumes "executionWaits sha e = Ok waits" and "env_Revision e \<le> later"
  shows "executionWaits sha (e\<lparr>env_Revision := later\<rparr>) = Ok waits"
  using assms unfolding executionWaits_Ok_iff
  by (auto simp: split_beta intro: wait_address_later)

lemma collections_later:
  assumes "validateExecutionCollections sha e = None" and "env_Revision e \<le> later"
  shows "validateExecutionCollections sha (e\<lparr>env_Revision := later\<rparr>) = None"
  using assms journal_later [OF _ assms(2)] groups_later [OF _ assms(2)] waits_later [OF _ assms(2)]
  unfolding validateExecutionCollections_iff by auto

section \<open>Sealing\<close>

lemma EnvelopeDigest_digest [simp]: "EnvelopeDigest sha enc (e\<lparr>env_Digest := d\<rparr>) = EnvelopeDigest sha enc e"
  by (simp add: EnvelopeDigest_def)

lemma SealExecutionEnvelope_Ok_iff:
  "SealExecutionEnvelope sha enc e = Ok s \<longleftrightarrow>
    env_ExecutionID e \<noteq> '''' \<and> env_Revision e \<noteq> 0 \<and> env_Pointer e \<noteq> '''' \<and> validRuntimeText [env_ExecutionID e]
    \<and> validMigrationText (env_Progress e)
    \<and> (\<exists>digest. EnvelopeDigest sha enc e = Ok digest \<and> s = e\<lparr>env_Digest := digest\<rparr>)"
  by (auto simp: SealExecutionEnvelope_def res_simps)

lemma ValidateExecutionIntegrity_None_iff:
  "ValidateExecutionIntegrity sha enc e execution revision = None \<longleftrightarrow>
    execution \<noteq> '''' \<and> revision \<noteq> 0 \<and> env_ExecutionID e = execution \<and> env_Revision e = revision
    \<and> validRuntimeText [execution] \<and> validMigrationText (env_Progress e) \<and> env_Pointer e \<noteq> '''' \<and> env_Digest e \<noteq> ''''
    \<and> EnvelopeDigest sha enc e = Ok (env_Digest e)"
  by (auto simp: ValidateExecutionIntegrity_def split: sum.splits)

lemma EnvelopeDigest_sha: "EnvelopeDigest sha enc e = Ok digest \<Longrightarrow> \<exists>data. digest = sha data"
  by (auto simp: EnvelopeDigest_def res_simps)

lemma digest_nonempty: "validActivityDigest d \<Longrightarrow> d \<noteq> ''''"
  by (auto simp: validActivityDigest_def)

lemma seal_admitted:
  assumes "SealExecutionEnvelope sha enc e = Ok s" and "\<forall>x. validActivityDigest (sha x)"
  shows "ValidateExecutionIntegrity sha enc s (env_ExecutionID e) (env_Revision e) = None"
  using assms EnvelopeDigest_sha
  by (fastforce simp: SealExecutionEnvelope_Ok_iff ValidateExecutionIntegrity_None_iff dest: digest_nonempty)

section \<open>What JSON keeps of an envelope\<close>

text \<open>
  The texts of an envelope, in the order of its fields. Byte slices are encoded in
  base64 and numbers and times exactly, so text is all that \<open>json.Marshal\<close> may change.
\<close>

definition descriptorText :: "ExecutionDescriptor \<Rightarrow> string list" where
  "descriptorText d = [dsc_GraphID d, dsc_GraphRevision d, dsc_StateCodec d, dsc_EffectsCodec d, dsc_ExecutionContract d,
     srp_Label (dsc_ReplayPolicy d), replayModeText (srp_Mode (dsc_ReplayPolicy d))]"

definition profileText :: "WaitCapabilityProfile \<Rightarrow> string list" where
  "profileText p = [prf_Label p, prf_JournalOwner p, prf_LeaseOwner p, prf_TimerOwner p, prf_ClockOwner p, prf_RetryOwner p,
     prf_RecoveryOwner p]"

definition mapText :: "(string, string) gomap \<Rightarrow> string list" where
  "mapText m = map fst m @ map snd m"

definition progressText :: "ExecutionProgress \<Rightarrow> string list" where
  "progressText p = prg_ExecutionPointer p # mapText (prg_ChildCursors p) @ mapText (prg_JournalReferences p)
     @ mapText (prg_ChildGroupReferences p)"

fun endReasonText :: "SegmentEndReason \<Rightarrow> string" where
  "endReasonText SegmentEndSuspend = ''suspend''"
| "endReasonText SegmentEndComplete = ''complete''"
| "endReasonText SegmentEndFail = ''fail''"
| "endReasonText SegmentEndHandoff = ''handoff''"
| "endReasonText SegmentEndContextCanceled = ''context_canceled''"
| "endReasonText (SegmentEndOther s) = s"

fun handoffStatusText :: "HandoffStatus \<Rightarrow> string" where
  "handoffStatusText HandoffStatusNone = ''''"
| "handoffStatusText HandoffStatusPending = ''pending''"
| "handoffStatusText HandoffStatusEnqueued = ''enqueued''"
| "handoffStatusText HandoffStatusOrphaned = ''orphaned''"
| "handoffStatusText (HandoffStatusOther s) = s"

definition runMetaText :: "RunMetadata \<Rightarrow> string list" where
  "runMetaText m = [seg_SegmentID (rmd_Segment m), endReasonText (seg_EndReason (rmd_Segment m))] @ map fst (rmd_RetryCounts m)
     @ map fst (rmd_BudgetCounts m) @ mapText (rmd_TelemetryContext m) @ [handoffStatusText (rmd_HandoffStatus m)]"

fun runStatusText :: "RunStatus \<Rightarrow> string" where
  "runStatusText RunStatusCompleted = ''completed''"
| "runStatusText RunStatusTransferred = ''transferred''"
| "runStatusText RunStatusSuspended = ''suspended''"
| "runStatusText RunStatusContextCanceled = ''context_canceled''"
| "runStatusText RunStatusFailed = ''failed''"
| "runStatusText RunStatusHandoff = ''handoff''"
| "runStatusText (RunStatusOther s) = s"

definition terminalText :: "ExecutionTerminal \<Rightarrow> string list" where
  "terminalText t = [runStatusText (trm_Status t), trm_Reason t]
     @ (case trm_Failure t of None \<Rightarrow> [] | Some f \<Rightarrow> [efl_Message f])"

definition importText :: "ImportProvenance \<Rightarrow> string list" where
  "importText i = [les_ID (ipr_Source i), les_Format (ipr_Source i), les_Digest (ipr_Source i), ipr_ImporterID i]"

definition referenceText :: "HistoricalCheckpointReference \<Rightarrow> string list" where
  "referenceText r = [hcr_ExecutionID r, hcr_Digest r]"

definition lineageText :: "RolloverLineage \<Rightarrow> string list" where
  "lineageText l = referenceText (rll_Source l) @ descriptorText (rll_SourceDescriptor l) @ descriptorText (rll_TargetDescriptor l)
     @ [rll_TargetID l, rll_DecisionID l, rpl_Label (rll_Policy l), rll_ProjectionLabel l, rll_RequestDigest l]"

definition receiptText :: "RolloverReceipt \<Rightarrow> string list" where
  "receiptText r = lineageText (rrc_Lineage r) @ referenceText (rrc_Target r)"

fun forkModeText :: "ForkActivityMode \<Rightarrow> string" where
  "forkModeText ForkFake = ''fake''"
| "forkModeText ForkLive = ''live''"
| "forkModeText (ForkActivityModeOther s) = s"

definition forkText :: "ForkLineage \<Rightarrow> string list" where
  "forkText f = referenceText (fkl_Source f) @ descriptorText (fkl_SourceDescriptor f) @ descriptorText (fkl_TargetDescriptor f)
     @ [fkl_TargetID f, forkModeText (fkl_Mode f), fkl_PolicyLabel f, fkl_TransformLabel f, fkl_ProjectionLabel f]"

definition optionText :: "('a \<Rightarrow> string list) \<Rightarrow> 'a option \<Rightarrow> string list" where
  "optionText f x = (case x of None \<Rightarrow> [] | Some y \<Rightarrow> f y)"

definition envelopeText :: "ExecutionEnvelope \<Rightarrow> string list" where
  "envelopeText e = [env_ExecutionID e, env_Digest e] @ descriptorText (env_Descriptor e)
     @ optionText profileText (env_RuntimeProfile e) @ progressText (env_Progress e) @ runMetaText (env_RunMeta e)
     @ optionText terminalText (env_Terminal e) @ optionText (\<lambda>m. mpr_SourceDigest m # mpr_Chain m) (env_Migration e)
     @ optionText importText (env_Import e) @ optionText lineageText (env_Rollover e) @ optionText receiptText (env_Transfer e)
     @ optionText forkText (env_Fork e)"

text \<open>
  \<open>json.Marshal\<close> writes a byte that is not valid UTF-8 as the escape of U+FFFD and
  \<open>json.Unmarshal\<close> reads U+FFFD, which a second \<open>json.Marshal\<close> writes unescaped: an
  envelope is read back as it was written, and is encoded to the same bytes again,
  exactly if all its texts are valid.
\<close>

definition jsonStable :: "ExecutionEnvelope \<Rightarrow> bool" where
  "jsonStable e \<longleftrightarrow> validRuntimeText (envelopeText e)"

lemma validRuntimeText_append [simp]: "validRuntimeText (xs @ ys) \<longleftrightarrow> validRuntimeText xs \<and> validRuntimeText ys"
  by (simp add: validRuntimeText_def)

lemma optionText_simps [simp]: "optionText f None = []" "optionText f (Some x) = f x"
  by (simp_all add: optionText_def)

text \<open>Revisions, byte payloads and activations are no text.\<close>

lemma jsonStable_bytes [simp]:
  "jsonStable (e\<lparr>env_Revision := r\<rparr>) = jsonStable e" "jsonStable (e\<lparr>env_EffectsPayload := p\<rparr>) = jsonStable e"
  "jsonStable (e\<lparr>env_JournalPayload := j\<rparr>) = jsonStable e" "jsonStable (e\<lparr>env_ChildrenPayload := c\<rparr>) = jsonStable e"
  "jsonStable (e\<lparr>env_WaitsPayload := w\<rparr>) = jsonStable e" "jsonStable (e\<lparr>env_Activation := a\<rparr>) = jsonStable e"
  by (simp_all add: jsonStable_def envelopeText_def)

section \<open>Properties\<close>

text \<open>
  C14. Sealing is the one way into integrity and it is tamper evident. A sealed
  envelope differs from the given one in its digest alone and passes the
  integrity check at its own address, and at no other one. Conversely, an
  envelope that passes the check under the digest of the sealed one, at whatever
  address, has exactly the JSON encoding of the sealed one (digest left out), or
  the two encodings are a collision of SHA-256; and an envelope under that digest
  whose encoding differs without such a collision is reported as corrupt.
\<close>

theorem seal_is_tamper_evident:
  assumes "\<forall>x. validActivityDigest (sha x)"
    and "SealExecutionEnvelope sha enc e = Ok s"
  shows "s = e\<lparr>env_Digest := env_Digest s\<rparr>
    \<and> (ValidateExecutionIntegrity sha enc s execution revision = None
       \<longleftrightarrow> execution = env_ExecutionID e \<and> revision = env_Revision e)
    \<and> (ValidateExecutionIntegrity sha enc t execution revision = None \<and> env_Digest t = env_Digest s
       \<longrightarrow> (\<exists>x y. enc (s\<lparr>env_Digest := ''''\<rparr>) = Ok x \<and> enc (t\<lparr>env_Digest := ''''\<rparr>) = Ok y \<and> (x = y \<or> x \<noteq> y \<and> sha x = sha y)))
    \<and> (enc (s\<lparr>env_Digest := ''''\<rparr>) = Ok x \<and> enc (t\<lparr>env_Digest := ''''\<rparr>) = Ok y \<and> sha x \<noteq> sha y \<and> env_Digest t = env_Digest s
       \<longrightarrow> ValidateExecutionIntegrity sha enc t execution revision = Some (Sent ErrExecutionCorrupt))"
proof -
  note s = seal_admitted [OF assms(2,1)]
  have "\<exists>x y. enc (s\<lparr>env_Digest := ''''\<rparr>) = Ok x \<and> enc (t\<lparr>env_Digest := ''''\<rparr>) = Ok y \<and> (x = y \<or> x \<noteq> y \<and> sha x = sha y)"
    if v: "ValidateExecutionIntegrity sha enc t execution revision = None" and d: "env_Digest t = env_Digest s"
  proof -
    from v s obtain x y where "enc (s\<lparr>env_Digest := ''''\<rparr>) = Ok x" "sha x = env_Digest s"
        "enc (t\<lparr>env_Digest := ''''\<rparr>) = Ok y" "sha y = env_Digest t"
      by (auto simp: ValidateExecutionIntegrity_None_iff EnvelopeDigest_def res_simps)
    with d show ?thesis by auto
  qed
  moreover have "ValidateExecutionIntegrity sha enc t execution revision = Some (Sent ErrExecutionCorrupt)"
    if "enc (s\<lparr>env_Digest := ''''\<rparr>) = Ok x" "enc (t\<lparr>env_Digest := ''''\<rparr>) = Ok y" "sha x \<noteq> sha y" "env_Digest t = env_Digest s"
  proof -
    have "sha y \<noteq> env_Digest t" using s that by (simp add: ValidateExecutionIntegrity_None_iff EnvelopeDigest_def)
    then show ?thesis using that(2) by (simp add: ValidateExecutionIntegrity_def EnvelopeDigest_def)
  qed
  moreover have "s = e\<lparr>env_Digest := env_Digest s\<rparr>" using assms(2) by (auto simp: SealExecutionEnvelope_Ok_iff)
  ultimately show ?thesis using s by (auto simp: ValidateExecutionIntegrity_None_iff)
qed

definition sampleDescriptor :: ExecutionDescriptor where
  "sampleDescriptor = \<lparr>dsc_GraphID = ''g'', dsc_GraphRevision = ''1'', dsc_StateCodec = ''s'', dsc_EffectsCodec = ''f'',
     dsc_ExecutionContract = ''c'', dsc_ReplayPolicy = \<lparr>srp_Label = ''l'', srp_Mode = StepReplaySafe\<rparr>\<rparr>"

definition emptyRunMeta :: RunMetadata where
  "emptyRunMeta = \<lparr>rmd_Segment = \<lparr>seg_SegmentID = '''', seg_StartTime = 0, seg_EndTime = 0, seg_EndReason = SegmentEndOther ''''\<rparr>,
     rmd_SegmentStartTime = 0, rmd_RetryCounts = [], rmd_BudgetCounts = [], rmd_StepCount = 0, rmd_TelemetryContext = [],
     rmd_HandoffStatus = HandoffStatusNone, rmd_HandoffPendingAt = 0\<rparr>"

definition sampleEnvelope :: ExecutionEnvelope where
  "sampleEnvelope = \<lparr>env_ExecutionID = ''e'', env_Revision = 1, env_Digest = '''', env_Descriptor = sampleDescriptor,
     env_RuntimeProfile = None,
     env_Progress = \<lparr>prg_StatePayload = ''{}'', prg_ExecutionPointer = ''n'', prg_ChildCursors = [], prg_JournalReferences = [],
       prg_ChildGroupReferences = []\<rparr>,
     env_EffectsPayload = '''', env_JournalPayload = NoBytes, env_ChildrenPayload = NoBytes, env_WaitsPayload = NoBytes,
     env_RunMeta = emptyRunMeta, env_Activation = 1, env_Terminal = None, env_Migration = None, env_Import = None,
     env_Rollover = None, env_Transfer = None, env_Fork = None\<rparr>"

text \<open>Under the sample hash every two encodings collide, and the theorem exhibits the collision.\<close>

definition sampleEnc :: env_codec where
  "sampleEnc e = Ok (if e = sampleEnvelope then ''a'' else ''b'')"

lemma sampleEnvelope_seal:
  "SealExecutionEnvelope sampleSha sampleEnc sampleEnvelope = Ok (sampleEnvelope\<lparr>env_Digest := sampleSha ''a''\<rparr>)"
  by (simp add: SealExecutionEnvelope_def EnvelopeDigest_def)
    (simp add: sampleEnvelope_def validMigrationText_def byte_def sampleSha_def sampleEnc_def)

definition tamperedEnvelope :: ExecutionEnvelope where
  "tamperedEnvelope = sampleEnvelope\<lparr>env_Digest := sampleSha ''a'', env_EffectsPayload := ''x''\<rparr>"

theorem seal_is_tamper_evident_witness:
  "(\<exists>x y. x \<noteq> y \<and> sampleSha x = sampleSha y) \<and>
   ValidateExecutionIntegrity sampleSha sampleEnc (sampleEnvelope\<lparr>env_Digest := sampleSha ''a''\<rparr>) ''e'' 1 = None"
proof -
  let ?s = "sampleEnvelope\<lparr>env_Digest := sampleSha ''a''\<rparr>"
  have s: "?s\<lparr>env_Digest := ''''\<rparr> = sampleEnvelope" by (simp add: sampleEnvelope_def)
  have t: "ValidateExecutionIntegrity sampleSha sampleEnc tamperedEnvelope ''e'' 1 = None"
    by (simp add: ValidateExecutionIntegrity_None_iff EnvelopeDigest_def tamperedEnvelope_def sampleEnc_def)
      (simp add: sampleEnvelope_def validMigrationText_def byte_def sampleSha_def)
  have a: "env_ExecutionID sampleEnvelope = ''e''" "env_Revision sampleEnvelope = 1" by (simp_all add: sampleEnvelope_def)
  have n: "tamperedEnvelope\<lparr>env_Digest := ''''\<rparr> \<noteq> sampleEnvelope"
    by (simp add: tamperedEnvelope_def sampleEnvelope_def)
  have d: "env_Digest tamperedEnvelope = env_Digest ?s" by (simp add: tamperedEnvelope_def)
  note c = seal_is_tamper_evident [OF allI [OF sampleSha_digest] sampleEnvelope_seal, of "''e''" 1 tamperedEnvelope]
  from c t d have "\<exists>x y. sampleEnc (?s\<lparr>env_Digest := ''''\<rparr>) = Ok x \<and> sampleEnc (tamperedEnvelope\<lparr>env_Digest := ''''\<rparr>) = Ok y
      \<and> (x = y \<or> x \<noteq> y \<and> sampleSha x = sampleSha y)" by blast
  moreover have "sampleEnc (?s\<lparr>env_Digest := ''''\<rparr>) = Ok ''a''" unfolding s by (simp add: sampleEnc_def)
  moreover have "sampleEnc (tamperedEnvelope\<lparr>env_Digest := ''''\<rparr>) = Ok ''b''" using n by (simp only: sampleEnc_def if_False)
  ultimately have "sampleSha ''a'' = sampleSha ''b''" by auto
  then have "\<exists>x y. x \<noteq> y \<and> sampleSha x = sampleSha y" by (intro exI [of _ "''a''"] exI [of _ "''b''"]) simp
  moreover from c have "ValidateExecutionIntegrity sampleSha sampleEnc ?s ''e'' 1 = None" unfolding a by blast
  ultimately show ?thesis ..
qed

text \<open>
  C15. Whatever is unfinished in an accepted envelope belongs to the current
  step. In an envelope whose collections are accepted every activity record and
  child group is valid, unresolved activities and unjoined groups are of the
  current activation, unresolved activities with equal keys are one record, and
  at most one wait is armed, at the current node of an execution without terminal.
\<close>

theorem accepted_collections_are_current:
  assumes "validateExecutionCollections sha e = None"
  shows "\<exists>journal groups waits. executionActivityJournal sha e = Ok journal \<and> executionChildGroups sha e = Ok groups
    \<and> executionWaits sha e = Ok waits
    \<and> (\<forall>(i, r) \<in> set journal. validateActivityRecord sha r = None \<and> rec_ExecutionID r = env_ExecutionID e
        \<and> (activityUnresolved (rec_State r) \<longrightarrow> rec_Activation r = env_Activation e))
    \<and> (\<forall>(i, r) \<in> set journal. \<forall>(j, q) \<in> set journal. activityUnresolved (rec_State r) \<and> activityUnresolved (rec_State q)
        \<and> rec_Key r = rec_Key q \<longrightarrow> i = j)
    \<and> (\<forall>(i, g) \<in> set groups. validateChildGroup sha g = None \<and> grp_ParentID g = env_ExecutionID e
        \<and> (length (grp_MergedIDs g) \<noteq> length (grp_Children g) \<longrightarrow> grp_Activation g = env_Activation e))
    \<and> validateChildCapacityLedger groups = None
    \<and> length (armed_waits waits) \<le> 1
    \<and> (\<forall>(i, w) \<in> set waits. validateDurableWait sha w (env_Revision e) = None
        \<and> (wrc_State w = WaitArmed \<longrightarrow> env_Terminal e = None \<and> wrc_Node w = env_Pointer e \<and> wrc_Activation w = env_Activation e))"
proof -
  from assms obtain journal groups waits where j: "executionActivityJournal sha e = Ok journal"
    and g: "executionChildGroups sha e = Ok groups" and w: "executionWaits sha e = Ok waits"
    unfolding validateExecutionCollections_iff by blast
  have jr: "\<forall>(i, r) \<in> set journal. i = rec_Identity r \<and> validateActivityRecord sha r = None \<and> rec_ExecutionID r = env_ExecutionID e
      \<and> (activityUnresolved (rec_State r) \<longrightarrow> rec_Activation r = env_Activation e \<and> boundActivityIdentity sha e (rec_Key r) = rec_Identity r)"
    using j unfolding executionActivityJournal_Ok_iff decodeActivityJournal_Ok_iff validateActivityReferences_iff journal_record_ok_def
    by fastforce
  have gr: "\<forall>(i, g) \<in> set groups. validateChildGroup sha g = None \<and> grp_ParentID g = env_ExecutionID e
      \<and> (length (grp_MergedIDs g) \<noteq> length (grp_Children g) \<longrightarrow> grp_Activation g = env_Activation e)"
    using g unfolding executionChildGroups_Ok_iff validateChildGroupReferences_iff currentChildGroup_def
    by (fastforce simp: childGroupError_def split: if_splits)
  have wt: "length (armed_waits waits) \<le> 1 \<and> (\<forall>(i, w) \<in> set waits. validateDurableWait sha w (env_Revision e) = None
      \<and> (wrc_State w = WaitArmed \<longrightarrow> env_Terminal e = None \<and> wrc_Node w = env_Pointer e \<and> wrc_Activation w = env_Activation e))"
    using w unfolding executionWaits_Ok_iff validWaitEnvelopeAddress_def by fastforce
  have "validateChildCapacityLedger groups = None"
    using g unfolding executionChildGroups_Ok_iff by (auto simp: validateChildCapacityLedger_def)
  then show ?thesis using j g w jr gr wt
    by (intro exI [of _ journal] exI [of _ groups] exI [of _ waits]) (simp add: split_beta, metis)
qed

definition busyEnvelope :: ExecutionEnvelope where
  "busyEnvelope = sampleEnvelope\<lparr>env_JournalPayload := Bytes_of True [(rec_Identity sampleRecord, sampleRecord)]\<rparr>"

lemma sampleRecord_valid: "validateActivityRecord sampleSha sampleRecord = None"
proof -
  have "activity_inv sampleSha sampleRecord"
    unfolding sampleRecord_def
    by (rule new_record_inv) (use sampleSha_digest samplePolicy_ok sampleSchedule_ok in
        \<open>simp_all add: samplePolicy_def byte_def\<close>)
  then show ?thesis by (simp add: activity_inv_def)
qed

lemma sampleRecord_fields:
  "rec_ExecutionID sampleRecord = ''e''" "rec_Activation sampleRecord = 1" "rec_Key sampleRecord = ''k''"
  "rec_Identity sampleRecord = activityAddressIdentity sampleSha ''e'' ''n'' 1 ''k''"
  "rec_State sampleRecord = ActivityPrepared" "rec_Origin sampleRecord = NoOrigin" "rec_Resolutions sampleRecord = []"
  by (simp_all add: sampleRecord_def newActivityRecord_def)

lemma busyEnvelope_fields:
  "env_ExecutionID busyEnvelope = ''e''" "env_Revision busyEnvelope = 1" "env_Activation busyEnvelope = 1"
  "env_Pointer busyEnvelope = ''n''" "env_Fork busyEnvelope = None" "env_RuntimeProfile busyEnvelope = None"
  "prg_JournalReferences (env_Progress busyEnvelope) = []" "prg_ChildGroupReferences (env_Progress busyEnvelope) = []"
  "env_JournalPayload busyEnvelope = Bytes_of True [(rec_Identity sampleRecord, sampleRecord)]"
  "env_ChildrenPayload busyEnvelope = NoBytes" "env_WaitsPayload busyEnvelope = NoBytes"
  "validMigrationText (env_Progress busyEnvelope)"
  by (simp_all add: busyEnvelope_def sampleEnvelope_def validMigrationText_def byte_def)

lemma busyEnvelope_journal:
  "executionActivityJournal sampleSha busyEnvelope = Ok [(rec_Identity sampleRecord, sampleRecord)]"
  unfolding executionActivityJournal_Ok_iff decodeActivityJournal_Ok_iff validateActivityReferences_iff
  by (simp add: busyEnvelope_fields sampleRecord_valid journal_record_ok_def sampleRecord_fields
      boundActivityIdentity_def activityIdentity_def exI [of _ True])

lemma busyEnvelope_accepted: "validateExecutionCollections sampleSha busyEnvelope = None"
  unfolding validateExecutionCollections_iff executionChildGroups_Ok_iff executionWaits_Ok_iff
  by (simp add: busyEnvelope_fields busyEnvelope_journal validateChildGroupReferences_iff)

theorem accepted_collections_are_current_witness:
  "executionActivityJournal sampleSha busyEnvelope = Ok [(rec_Identity sampleRecord, sampleRecord)]
    \<and> activityUnresolved (rec_State sampleRecord) \<and> rec_Activation sampleRecord = env_Activation busyEnvelope"
  using accepted_collections_are_current [OF busyEnvelope_accepted]
  by (auto simp: busyEnvelope_journal sampleRecord_fields activityUnresolved_def)

end
