(* ===== verification/Execution_Lifecycle.thy ===== *)
theory Execution_Lifecycle
  imports Execution_Envelope
begin

text \<open>
  The life of an execution beyond one checkpoint: migration chains
  (execution\_contract.go), the transitions that a store admits for fork and
  rollover lineage and their independently retained anchors
  (execution\_fork\_transition.go, execution\_lifecycle\_validation.go), the
  boundary at which an execution may be transferred, pruned or forked, the
  publication of a rollover pair, and retention requests
  (execution\_retention.go).
\<close>

section \<open>Migration\<close>

text \<open>A transformation that is nil is \<open>None\<close>.\<close>

record ExecutionMigration =
  mig_ID :: string
  mig_Source :: ExecutionDescriptor
  mig_Target :: ExecutionDescriptor
  mig_Transform :: "(ExecutionProgress \<Rightarrow> ExecutionProgress res) option"
  mig_EffectsTransform :: "(string \<Rightarrow> string res) option"

type_synonym migration_edges = "(ExecutionDescriptor, ExecutionMigration) gomap"

text \<open>The first loop of \<open>executionMigrationChain\<close> over the registry.\<close>

fun registerMigrations :: "migration_edges \<Rightarrow> string set \<Rightarrow> ExecutionMigration list \<Rightarrow> migration_edges res" where
  "registerMigrations edges ids [] = Ok edges"
| "registerMigrations edges ids (m # registry) =
    (if mig_ID m = '''' \<or> \<not> validRuntimeText [mig_ID m] \<or> mig_ID m \<in> ids \<or> mig_Transform m = None then Err ErrMigrationInvalid
     else if ExecutionDescriptor_Validate (mig_Source m) \<noteq> None \<or> ExecutionDescriptor_Validate (mig_Target m) \<noteq> None
     then Err ErrMigrationInvalid
     else if lookup edges (mig_Source m) \<noteq> None then Err ErrMigrationInvalid
     else registerMigrations (put (mig_Source m) m edges) (insert (mig_ID m) ids) registry)"

text \<open>The second loop: follow the edges until the target or a repeated descriptor.\<close>

function followMigrations ::
    "migration_edges \<Rightarrow> ExecutionDescriptor \<Rightarrow> ExecutionDescriptor list \<Rightarrow> ExecutionDescriptor \<Rightarrow> ExecutionMigration list res" where
  "followMigrations edges target visited source =
    (if source = target then Ok []
     else if source \<in> set visited then Err ErrMigrationInvalid
     else (case lookup edges source of
         None \<Rightarrow> Err ErrMigrationMissing
       | Some m \<Rightarrow> res_bind (followMigrations edges target (source # visited) (mig_Target m)) (\<lambda>chain. Ok (m # chain))))"
  by pat_completeness auto
termination
proof (relation "measure (\<lambda>(edges, target, visited, source). card (fst ` set edges - set visited))")
  fix edges :: migration_edges and target source :: ExecutionDescriptor and visited m
  assume "source \<notin> set visited" and "lookup edges source = Some m"
  then have "source \<in> fst ` set edges - set visited" by (force dest: map_of_SomeD)
  then have "card (fst ` set edges - set (source # visited)) < card (fst ` set edges - set visited)"
    by (intro psubset_card_mono) auto
  then show "((edges, target, source # visited, mig_Target m), (edges, target, visited, source))
      \<in> measure (\<lambda>(edges, target, visited, source). card (fst ` set edges - set visited))" by simp
qed simp

declare followMigrations.simps [simp del]

definition executionMigrationChain ::
    "ExecutionDescriptor \<Rightarrow> ExecutionDescriptor \<Rightarrow> ExecutionMigration list \<Rightarrow> ExecutionMigration list res" where
  "executionMigrationChain source target registry =
    res_bind (registerMigrations [] {} registry) (\<lambda>edges. followMigrations edges target [] source)"

definition validateEffectsMigrationChain :: "ExecutionMigration list \<Rightarrow> err option" where
  "validateEffectsMigrationChain chain = firstErr (\<lambda>m.
    if dsc_EffectsCodec (mig_Source m) \<noteq> dsc_EffectsCodec (mig_Target m) \<and> mig_EffectsTransform m = None
    then Some (Wrapped ''effects transform required'' [Sent ErrMigrationInvalid]) else None) chain"

text \<open>\<open>fmt.Errorf\<close> with two \<open>%w\<close> verbs.\<close>

definition wrapErr :: "sentinel \<Rightarrow> 'a res \<Rightarrow> 'a res" where
  "wrapErr s r = (case r of Inl e \<Rightarrow> Inl (Wrapped '''' [Sent s, e]) | Inr x \<Rightarrow> Inr x)"

lemma wrapErr_Ok_iff [res_simps]: "wrapErr s r = Ok x \<longleftrightarrow> r = Ok x"
  by (cases r) (simp_all add: wrapErr_def)

definition applyExecutionMigration :: "ExecutionEnvelope \<Rightarrow> ExecutionMigration \<Rightarrow> ExecutionEnvelope res" where
  "applyExecutionMigration e m =
    (case mig_Transform m of
       None \<Rightarrow> Inl (Plain ''nil function call'')
     | Some transform \<Rightarrow>
         res_bind (wrapErr ErrMigrationInvalid (transform (env_Progress e))) (\<lambda>progress.
           let e1 = e\<lparr>env_Progress := progress\<rparr> in
           (case mig_EffectsTransform m of
              None \<Rightarrow> Ok (e1\<lparr>env_Descriptor := mig_Target m\<rparr>)
            | Some effects \<Rightarrow>
                res_bind (wrapErr ErrMigrationInvalid (effects (env_EffectsPayload e1))) (\<lambda>payload.
                  Ok (e1\<lparr>env_EffectsPayload := payload, env_Descriptor := mig_Target m\<rparr>)))))"

fun applyMigrations :: "ExecutionEnvelope \<Rightarrow> ExecutionMigration list \<Rightarrow> ExecutionEnvelope res" where
  "applyMigrations e [] = Ok e"
| "applyMigrations e (m # ms) = res_bind (applyExecutionMigration e m) (\<lambda>e'. applyMigrations e' ms)"

definition PrepareExecutionMigration ::
    "sha256 \<Rightarrow> env_codec \<Rightarrow> ExecutionEnvelope \<Rightarrow> ExecutionDescriptor \<Rightarrow> ExecutionMigration list
      \<Rightarrow> (string \<Rightarrow> err option) option \<Rightarrow> ExecutionEnvelope res" where
  "PrepareExecutionMigration sha enc source target registry validatePointer =
    (case validatePointer of
       None \<Rightarrow> Err ErrMigrationInvalid
     | Some validate \<Rightarrow>
         (case ValidateExecutionIntegrity sha enc source (env_ExecutionID source) (env_Revision source) of
            Some e \<Rightarrow> Inl (Wrapped '''' [Sent ErrMigrationInvalid, e])
          | None \<Rightarrow>
              check (ExecutionDescriptor_Validate (env_Descriptor source))
                (check (ExecutionDescriptor_Validate target)
                  (res_bind (executionMigrationChain (env_Descriptor source) target registry) (\<lambda>chain.
                    check (validateEffectsMigrationChain chain)
                      (res_bind (applyMigrations source chain) (\<lambda>result.
                        if env_Pointer result = '''' \<or> \<not> validMigrationText (env_Progress result) then Err ErrMigrationInvalid
                        else (case validate (env_Pointer result) of
                            Some e \<Rightarrow> Inl (Wrapped ''target pointer'' [Sent ErrMigrationInvalid, e])
                          | None \<Rightarrow>
                              if chain = [] then Ok result
                              else Ok (result\<lparr>env_Migration := Some \<lparr>mpr_SourceRevision = env_Revision source,
                                mpr_SourceDigest = env_Digest source, mpr_Chain = map mig_ID chain\<rparr>\<rparr>)))))))))"

section \<open>Fork lineage\<close>

definition ValidateExecutionForkTransition :: "ExecutionEnvelope option \<Rightarrow> ExecutionEnvelope \<Rightarrow> err option" where
  "ValidateExecutionForkTransition previous e =
    (if (case env_Fork e of None \<Rightarrow> False | Some f \<Rightarrow> ForkLineage_Validate f \<noteq> None \<or> fkl_TargetID f \<noteq> env_ExecutionID e)
     then Some (Sent ErrExecutionCorrupt)
     else (case previous of
         None \<Rightarrow> None
       | Some p \<Rightarrow>
           if env_ExecutionID p \<noteq> env_ExecutionID e \<or> (env_Fork p = None) \<noteq> (env_Fork e = None) then Some (Sent ErrExecutionCorrupt)
           else reject (env_Fork p \<noteq> None \<and> the (env_Fork p) \<noteq> the (env_Fork e)) ErrExecutionCorrupt))"

definition ValidateExecutionForkAnchor :: "ExecutionEnvelope \<Rightarrow> ForkLineage option \<Rightarrow> err option" where
  "ValidateExecutionForkAnchor e anchor = ValidateExecutionForkTransition (Some (e\<lparr>env_Fork := anchor\<rparr>)) e"

definition executionForkMode :: "ExecutionEnvelope \<Rightarrow> ForkActivityMode" where
  "executionForkMode e = (case env_Fork e of None \<Rightarrow> ForkActivityModeOther '''' | Some f \<Rightarrow> fkl_Mode f)"

definition forkSourceSettled :: "sha256 \<Rightarrow> ExecutionEnvelope \<Rightarrow> err option" where
  "forkSourceSettled sha source =
    errOf (res_bind (executionActivityJournal sha source) (\<lambda>journal.
      check (firstErr (\<lambda>(_, r). reject (rec_State r \<noteq> ActivityCompleted \<and> rec_State r \<noteq> ActivityFailed) (Also ErrForkUnresolved)) journal)
        (res_bind (executionChildGroups sha source) (\<lambda>groups.
          check (firstErr (\<lambda>(_, g). if length (grp_MergedIDs g) \<noteq> length (grp_Children g) then Some (Sent (Also ErrForkUnresolved))
              else firstErr (\<lambda>c. reject (\<not> settledChild c) (Also ErrForkUnresolved)) (grp_Children g)) groups)
            (res_bind (executionWaits sha source) (\<lambda>waits.
              check (firstErr (\<lambda>(_, w). reject (wrc_State w = WaitArmed) (Also ErrForkUnresolved)) waits) (Ok ())))))))"

section \<open>Rollover lineage and anchors\<close>

definition equalRolloverLineage :: "RolloverLineage option \<Rightarrow> RolloverLineage option \<Rightarrow> bool" where
  "equalRolloverLineage l r =
    (case (l, r) of (None, None) \<Rightarrow> True | (Some a, Some b) \<Rightarrow> a = b | _ \<Rightarrow> False)"

lemma equalRolloverLineage_iff [simp]: "equalRolloverLineage l r \<longleftrightarrow> l = r"
  by (auto simp: equalRolloverLineage_def split: option.splits)

definition ValidateExecutionRolloverTransition :: "ExecutionEnvelope option \<Rightarrow> ExecutionEnvelope \<Rightarrow> err option" where
  "ValidateExecutionRolloverTransition previous e =
    (case previous of
       None \<Rightarrow> reject (env_Rollover e \<noteq> None \<or> env_Transfer e \<noteq> None) ErrExecutionRolloverConflict
     | Some p \<Rightarrow>
         if env_Transfer p \<noteq> None then Some (Sent ErrExecutionTransferred)
         else reject (\<not> equalRolloverLineage (env_Rollover p) (env_Rollover e) \<or> env_Transfer e \<noteq> None) ErrExecutionCorrupt)"

definition ValidateExecutionLifecycleAnchors ::
    "sha256 \<Rightarrow> ExecutionEnvelope \<Rightarrow> RolloverReceipt option \<Rightarrow> RolloverReceipt option \<Rightarrow> err option" where
  "ValidateExecutionLifecycleAnchors sha e incoming outgoing =
    (if \<not> equalRolloverLineage (env_Rollover e) (map_option rrc_Lineage incoming) then Some (Sent ErrExecutionCorrupt)
     else if (case incoming of None \<Rightarrow> False
         | Some i \<Rightarrow> RolloverReceipt_Validate sha i \<noteq> None \<or> hcr_ExecutionID (rrc_Target i) \<noteq> env_ExecutionID e)
     then Some (Sent ErrExecutionCorrupt)
     else if (case incoming of None \<Rightarrow> False
         | Some i \<Rightarrow> env_Revision e = hcr_Revision (rrc_Target i) \<and> env_Digest e \<noteq> hcr_Digest (rrc_Target i))
     then Some (Sent ErrExecutionCorrupt)
     else (case outgoing of
         None \<Rightarrow> reject (env_Transfer e \<noteq> None) ErrExecutionCorrupt
       | Some out \<Rightarrow>
           if RolloverReceipt_Validate sha out \<noteq> None \<or> hcr_ExecutionID (rll_Source (rrc_Lineage out)) \<noteq> env_ExecutionID e
           then Some (Sent ErrExecutionCorrupt)
           else if env_Revision e < rrc_SourceRevision out then
             if env_Transfer e \<noteq> None then Some (Sent ErrExecutionCorrupt)
             else reject (env_Revision e = hcr_Revision (rll_Source (rrc_Lineage out))
               \<and> env_Digest e \<noteq> hcr_Digest (rll_Source (rrc_Lineage out))) ErrExecutionCorrupt
           else reject (env_Transfer e \<noteq> Some out \<or> env_Revision e \<noteq> rrc_SourceRevision out
               \<or> (case env_Terminal e of None \<Rightarrow> True | Some t \<Rightarrow> trm_Status t \<noteq> RunStatusTransferred)) ErrExecutionCorrupt))"

section \<open>The lifecycle boundary\<close>

definition validateLifecycleJournal :: "ExecutionEnvelope \<Rightarrow> activity_journal \<Rightarrow> err option" where
  "validateLifecycleJournal source journal = firstErr (\<lambda>(_, r).
     if rec_State r \<noteq> ActivityCompleted \<and> rec_State r \<noteq> ActivityFailed then Some (Sent ErrExecutionLifecycleUnsafe)
     else reject (env_Terminal source = None \<and> rec_Activation r = env_Activation source) ErrExecutionLifecycleUnsafe) journal"

definition validateLifecycleChildren :: "ExecutionEnvelope \<Rightarrow> child_groups \<Rightarrow> err option" where
  "validateLifecycleChildren source groups = firstErr (\<lambda>(_, g).
     if length (grp_MergedIDs g) \<noteq> length (grp_Children g) \<or> (env_Terminal source = None \<and> grp_Activation g = env_Activation source)
     then Some (Sent ErrExecutionLifecycleUnsafe)
     else firstErr (\<lambda>c.
       if \<not> settledChild c then Some (Sent ErrExecutionLifecycleUnsafe)
       else if spc_Allocation (chd_Spec c) \<noteq> [] then
         (case lookup (grp_BudgetReturns g) (spc_ID (chd_Spec c)) of
            None \<Rightarrow> Some (Sent ErrExecutionLifecycleUnsafe)
          | Some claim \<Rightarrow> reject (cbr_ChildRevision claim \<noteq> chd_Revision c) ErrExecutionLifecycleUnsafe)
       else None) (grp_Children g)) groups"

definition ValidateExecutionLifecycleBoundary :: "sha256 \<Rightarrow> env_codec \<Rightarrow> ExecutionEnvelope \<Rightarrow> err option" where
  "ValidateExecutionLifecycleBoundary sha enc source =
    orElse (ValidateExecutionIntegrity sha enc source (env_ExecutionID source) (env_Revision source))
    (orElse (ExecutionDescriptor_Validate (env_Descriptor source))
    (orElse (validateExecutionSourceMetadata sha source)
    (orElse (validateExecutionCollections sha source)
    (if env_Terminal source = None \<and> rmd_StepCount (env_RunMeta source) \<le> 0 then Some (Sent ErrExecutionLifecycleUnsafe)
     else errOf (res_bind (executionActivityJournal sha source) (\<lambda>journal.
       check (validateLifecycleJournal source journal)
         (res_bind (executionChildGroups sha source) (\<lambda>groups.
           check (validateLifecycleChildren source groups)
             (res_bind (executionWaits sha source) (\<lambda>waits.
               check (firstErr (\<lambda>(_, w). reject (wrc_State w = WaitArmed) ErrExecutionLifecycleUnsafe) waits)
                 (check (reject (prg_ChildCursors (env_Progress source) \<noteq> []) ErrExecutionLifecycleUnsafe) (Ok ()))))))))))))"

section \<open>Publication of a rollover\<close>

record ExecutionLease =
  lse_ExecutionID :: string
  lse_Owner :: string
  lse_Incarnation :: uint64
  lse_ExpiresAt :: gotime

definition validateRolloverSource :: "sha256 \<Rightarrow> env_codec \<Rightarrow> ExecutionEnvelope \<Rightarrow> err option" where
  "validateRolloverSource sha enc source =
    (if env_Fork source \<noteq> None \<or> env_Transfer source \<noteq> None
        \<or> (case env_Terminal source of None \<Rightarrow> False | Some t \<Rightarrow> trm_Status t \<noteq> RunStatusCompleted)
        \<or> env_Revision source = - 1 then Some (Sent ErrExecutionLifecycleUnsafe)
     else ValidateExecutionLifecycleBoundary sha enc source)"

text \<open>The loop of \<open>validateRolloverRecordLimit\<close> over the groups.\<close>

fun recordLimit :: "int \<Rightarrow> child_groups \<Rightarrow> int res" where
  "recordLimit remaining [] = Ok remaining"
| "recordLimit remaining ((_, g) # groups) =
    (if int (length (grp_Children g)) > remaining then Err ErrExecutionLifecycleLimit
     else recordLimit (remaining - int (length (grp_Children g))) groups)"

definition validateRolloverRecordLimit :: "sha256 \<Rightarrow> env_codec \<Rightarrow> ExecutionEnvelope \<Rightarrow> RolloverPolicy \<Rightarrow> err option" where
  "validateRolloverRecordLimit sha enc source policy =
    orElse (RolloverPolicy_Validate policy)
    (errOf (res_bind (enc source) (\<lambda>encoded.
      if int (length encoded) > rpl_MaxAggregateBytes policy then Err ErrExecutionLifecycleLimit
      else res_bind (executionActivityJournal sha source) (\<lambda>journal.
        res_bind (executionChildGroups sha source) (\<lambda>groups.
        res_bind (executionWaits sha source) (\<lambda>waits.
          if rpl_MaxRecords policy - int (length journal) < 0 then Err ErrExecutionLifecycleLimit
          else res_bind (recordLimit (rpl_MaxRecords policy - int (length journal)) groups) (\<lambda>remaining.
            if int (length waits) > remaining then Err ErrExecutionLifecycleLimit else Ok ())))))))"

definition validateRolloverTarget :: "sha256 \<Rightarrow> ExecutionEnvelope \<Rightarrow> ExecutionEnvelope \<Rightarrow> err option" where
  "validateRolloverTarget sha source target =
    (case env_Rollover target of
       None \<Rightarrow> Some (Sent ErrExecutionRolloverConflict)
     | Some l \<Rightarrow>
         if RolloverLineage_Validate sha l \<noteq> None \<or> rll_TargetID l \<noteq> env_ExecutionID target
            \<or> hcr_ExecutionID (rll_Source l) \<noteq> env_ExecutionID source \<or> hcr_Revision (rll_Source l) \<noteq> env_Revision source
            \<or> hcr_Digest (rll_Source l) \<noteq> env_Digest source \<or> rll_SourceDescriptor l \<noteq> env_Descriptor source
            \<or> rll_TargetDescriptor l \<noteq> env_Descriptor target \<or> env_Revision target \<noteq> 0 \<or> env_Digest target \<noteq> ''''
            \<or> env_Activation target \<noteq> 1 \<or> env_Transfer target \<noteq> None \<or> env_Terminal target \<noteq> None \<or> env_Fork target \<noteq> None
            \<or> env_Import target \<noteq> None \<or> env_Migration target \<noteq> None \<or> env_JournalPayload target \<noteq> NoBytes
            \<or> env_ChildrenPayload target \<noteq> NoBytes \<or> env_WaitsPayload target \<noteq> NoBytes
            \<or> prg_ChildCursors (env_Progress target) \<noteq> [] \<or> prg_JournalReferences (env_Progress target) \<noteq> []
            \<or> prg_ChildGroupReferences (env_Progress target) \<noteq> []
         then Some (Sent ErrExecutionRolloverConflict)
         else orElse (validateExecutionCollections sha target)
           (if rmd_StepCount (env_RunMeta target) \<noteq> 0
               \<or> \<not> maps_Equal (rmd_RetryCounts (env_RunMeta target)) (rmd_RetryCounts (env_RunMeta source))
               \<or> \<not> maps_Equal (rmd_BudgetCounts (env_RunMeta target)) (rmd_BudgetCounts (env_RunMeta source))
            then Some (Sent ErrExecutionLifecycleUnsafe)
            else reject (int (length (prg_StatePayload (env_Progress target))) > rpl_MaxTargetBytes (rll_Policy l)
                \<or> int (length (env_EffectsPayload target))
                   > rpl_MaxTargetBytes (rll_Policy l) - int (length (prg_StatePayload (env_Progress target)))) ErrExecutionLifecycleLimit))"

text \<open>The transferred source, the sealed target and the receipt.\<close>

definition PrepareExecutionRolloverPublication ::
    "sha256 \<Rightarrow> env_codec \<Rightarrow> ExecutionEnvelope \<Rightarrow> ExecutionEnvelope \<Rightarrow> ExecutionLease
      \<Rightarrow> (ExecutionEnvelope \<times> ExecutionEnvelope \<times> RolloverReceipt) res" where
  "PrepareExecutionRolloverPublication sha enc source target lease =
    (if env_ExecutionID source \<noteq> lse_ExecutionID lease \<or> lse_Incarnation lease = 0 \<or> lse_Owner lease = '''' then Err ErrLeaseLost
     else check (validateRolloverSource sha enc source)
       (check (validateRolloverTarget sha source target)
         (let l = the (env_Rollover target) in
          check (validateRolloverRecordLimit sha enc source (rll_Policy l))
            (res_bind (SealExecutionEnvelope sha enc (target\<lparr>env_Revision := 1\<rparr>)) (\<lambda>sealed.
             res_bind (enc sealed) (\<lambda>encoded.
               if int (length encoded) > rpl_MaxTargetBytes (rll_Policy l) then Err ErrExecutionLifecycleLimit
               else
                 let receipt = \<lparr>rrc_Lineage = l,
                       rrc_Target = \<lparr>hcr_ExecutionID = env_ExecutionID target, hcr_Revision = 1, hcr_Digest = env_Digest sealed\<rparr>,
                       rrc_SourceRevision = env_Revision source + 1\<rparr> in
                 res_bind (SealExecutionEnvelope sha enc (source\<lparr>env_Revision := env_Revision source + 1,
                     env_Transfer := Some receipt,
                     env_Terminal := Some \<lparr>trm_Status = RunStatusTransferred, trm_Reason = ''rollover'', trm_Failure = None\<rparr>\<rparr>))
                   (\<lambda>transferred. Ok (transferred, sealed, receipt))))))))"

section \<open>Retention\<close>

record ExecutionRetentionPolicy =
  rtp_Label :: string
  rtp_KeepLast :: int
  rtp_DeletePayload :: bool
  rtp_ProtectedRevisions :: "uint64 list"

record ExecutionRetentionRequest =
  rtr_ExecutionID :: string
  rtr_Revision :: uint64
  rtr_Policy :: ExecutionRetentionPolicy

text \<open>The last loop of \<open>Validate\<close> with the prior revision.\<close>

fun protectedRevisions :: "uint64 \<Rightarrow> uint64 \<Rightarrow> uint64 list \<Rightarrow> err option" where
  "protectedRevisions head prior [] = None"
| "protectedRevisions head prior (r # rs) =
    (if r = 0 \<or> r > head \<or> r = prior then Some (Sent ErrExecutionLifecycleUnsafe) else protectedRevisions head r rs)"

definition ExecutionRetentionRequest_Validate :: "ExecutionRetentionRequest \<Rightarrow> err option" where
  "ExecutionRetentionRequest_Validate request =
    (let p = rtr_Policy request in
     if rtr_ExecutionID request = '''' \<or> \<not> validRuntimeText [rtr_ExecutionID request, rtp_Label p] \<or> rtr_Revision request = 0
        \<or> rtp_Label p = '''' \<or> rtp_KeepLast p < 0 \<or> \<not> sorted (rtp_ProtectedRevisions p) then Some (Sent ErrExecutionLifecycleUnsafe)
     else if rtp_DeletePayload p \<and> (rtp_KeepLast p \<noteq> 0 \<or> rtp_ProtectedRevisions p \<noteq> []) then Some (Sent ErrExecutionLifecycleUnsafe)
     else protectedRevisions (rtr_Revision request) 0 (rtp_ProtectedRevisions p))"

definition ExecutionRevisionRetained :: "ExecutionRetentionRequest \<Rightarrow> uint64 \<Rightarrow> bool" where
  "ExecutionRevisionRetained request revision =
    (let p = rtr_Policy request in
     if rtp_DeletePayload p then False
     else if revision = rtr_Revision request \<or> revision \<in> set (rtp_ProtectedRevisions p) then True
     else if rtp_KeepLast p < 0 then False
     else revision \<le> rtr_Revision request \<and> rtr_Revision request - revision < word_of_int (rtp_KeepLast p))"

section \<open>Chains of migrations\<close>

text \<open>A path that uses registered migrations and stops at its first visit of the target.\<close>

fun migrationPath :: "ExecutionMigration list \<Rightarrow> ExecutionDescriptor \<Rightarrow> ExecutionMigration list \<Rightarrow> ExecutionDescriptor \<Rightarrow> bool" where
  "migrationPath registry s [] t \<longleftrightarrow> s = t"
| "migrationPath registry s (m # ms) t \<longleftrightarrow>
    m \<in> set registry \<and> mig_Source m = s \<and> s \<noteq> t \<and> migrationPath registry (mig_Target m) ms t"

lemma registerMigrations_Ok:
  assumes "registerMigrations edges ids registry = Ok result" and "gomap_ok edges"
  shows "result = edges @ map (\<lambda>m. (mig_Source m, m)) registry \<and> gomap_ok result
    \<and> (\<forall>m \<in> set registry. mig_Transform m \<noteq> None \<and> ExecutionDescriptor_Validate (mig_Target m) = None)"
  using assms
proof (induction registry arbitrary: edges ids)
  case (Cons m registry)
  from Cons.prems(1) have n: "lookup edges (mig_Source m) = None"
      and m: "mig_Transform m \<noteq> None" "ExecutionDescriptor_Validate (mig_Target m) = None"
    by (simp_all split: if_splits)
  with Cons.prems(1) have r: "registerMigrations (edges @ [(mig_Source m, m)]) (insert (mig_ID m) ids) registry = Ok result"
    by (simp add: put_absent split: if_splits)
  from n Cons.prems(2) have "gomap_ok (edges @ [(mig_Source m, m)])" by (auto simp: map_of_eq_None_iff)
  note IH = Cons.IH [OF r this]
  show ?case
  proof (intro conjI)
    show "result = edges @ map (\<lambda>m. (mig_Source m, m)) (m # registry)" using IH by simp
    show "gomap_ok result" using IH by (rule conjunct2 [THEN conjunct1])
    show "\<forall>q \<in> set (m # registry). mig_Transform q \<noteq> None \<and> ExecutionDescriptor_Validate (mig_Target q) = None"
      using IH m by simp
  qed
qed simp

lemma registered_edge:
  assumes "registerMigrations [] {} registry = Ok edges"
  shows "lookup edges s = Some m \<longleftrightarrow> m \<in> set registry \<and> mig_Source m = s"
proof -
  have "gomap_ok []" by simp
  note r = registerMigrations_Ok [OF assms this]
  have "gomap_ok edges" by (rule r [THEN conjunct2, THEN conjunct1])
  moreover from r have "set edges = (\<lambda>m. (mig_Source m, m)) ` set registry" by simp
  ultimately show ?thesis by (auto simp: map_of_eq_Some_iff)
qed

lemma followMigrations_Ok_iff:
  assumes "\<And>s m. lookup edges s = Some m \<longleftrightarrow> m \<in> set registry \<and> mig_Source m = s"
  shows "followMigrations edges target visited source = Ok chain \<longleftrightarrow>
    migrationPath registry source chain target \<and> set visited \<inter> mig_Source ` set chain = {} \<and> distinct (map mig_Source chain)"
  using assms
proof (induction edges target visited source arbitrary: chain rule: followMigrations.induct)
  case (1 edges target visited source)
  note s = followMigrations.simps [of edges target visited source]
  consider "source = target" | "source \<noteq> target" "source \<in> set visited"
    | "source \<noteq> target" "source \<notin> set visited" "lookup edges source = None"
    | m where "source \<noteq> target" "source \<notin> set visited" "lookup edges source = Some m" by fastforce
  then show ?case
  proof cases
    case 1
    then show ?thesis unfolding s by (cases chain) auto
  next
    case 2
    then show ?thesis unfolding s by (cases chain) auto
  next
    case 3
    with 1(2) have "\<forall>m \<in> set registry. mig_Source m \<noteq> source" by (metis option.distinct(1))
    with 3 show ?thesis unfolding s by (cases chain) auto
  next
    case (4 m)
    note IH = 1(1) [OF 4 1(2)]
    from 4(3) 1(2) have m: "m \<in> set registry" "mig_Source m = source" by auto
    have u: "q = m" if "q \<in> set registry" "mig_Source q = source" for q
      using that 1(2) 4(3) by (metis option.inject)
    have f: "followMigrations edges target visited source = Ok chain
        \<longleftrightarrow> (\<exists>c. followMigrations edges target (source # visited) (mig_Target m) = Ok c \<and> chain = m # c)"
      unfolding s using 4 by (auto simp: res_simps)
    show ?thesis
    proof (cases chain)
      case Nil
      then show ?thesis using f 4(1) by simp
    next
      case (Cons q c)
      show ?thesis
      proof (cases "q = m")
        case True
        then show ?thesis unfolding Cons f [unfolded Cons] using IH [of c] m 4(1,2) by auto
      next
        case False
        then show ?thesis unfolding Cons f [unfolded Cons] using u by auto
      qed
    qed
  qed
qed

lemma path_unique:
  assumes "\<And>q m. q \<in> set registry \<Longrightarrow> m \<in> set registry \<Longrightarrow> mig_Source q = mig_Source m \<Longrightarrow> q = m"
    and "migrationPath registry s c t" and "migrationPath registry s d t"
  shows "c = d"
  using assms(2,3)
proof (induction c arbitrary: s d)
  case Nil
  then show ?case by (cases d) auto
next
  case (Cons m c)
  then obtain q d' where d: "d = q # d'" by (cases d) auto
  with Cons.prems assms(1) have "q = m" by auto
  with Cons d show ?case by auto
qed

lemma path_suffix: "migrationPath registry s (c @ m # d) t \<Longrightarrow> migrationPath registry (mig_Source m) (m # d) t"
  by (induction c arbitrary: s) auto

lemma path_distinct:
  assumes "\<And>q m. q \<in> set registry \<Longrightarrow> m \<in> set registry \<Longrightarrow> mig_Source q = mig_Source m \<Longrightarrow> q = m"
    and "migrationPath registry s chain t"
  shows "distinct (map mig_Source chain)"
proof (rule ccontr)
  assume "\<not> ?thesis"
  then obtain xs y ys zs where "map mig_Source chain = xs @ [y] @ ys @ [y] @ zs"
    using not_distinct_decomp by blast
  then obtain c m d q e where c: "chain = c @ m # d @ q # e" and y: "mig_Source m = y" "mig_Source q = y"
    by (auto simp: map_eq_append_conv map_eq_Cons_conv append_eq_map_conv Cons_eq_map_conv)
  from assms(2) have "migrationPath registry y (m # d @ q # e) t" using path_suffix y unfolding c by metis
  moreover from assms(2) have "migrationPath registry y (q # e) t"
    using path_suffix [of registry s "c @ m # d" q e t] y unfolding c by simp
  ultimately have "m # d @ q # e = q # e" using path_unique [OF assms(1)] by blast
  then have "length (m # d @ q # e) = length (q # e)" by (rule arg_cong)
  then show False by simp
qed

lemma chain_iff:
  assumes "registerMigrations [] {} registry = Ok edges"
  shows "executionMigrationChain source target registry = Ok chain \<longleftrightarrow> migrationPath registry source chain target"
proof -
  have inj: "q = m" if "q \<in> set registry" "m \<in> set registry" "mig_Source q = mig_Source m" for q m
    using that registered_edge [OF assms] by (metis option.inject)
  show ?thesis
    using followMigrations_Ok_iff [OF registered_edge [OF assms], of target "[]" source chain] path_distinct [of registry] inj
    by (auto simp: executionMigrationChain_def assms)
qed

lemma follow_error:
  "followMigrations edges target visited source = Inl e \<Longrightarrow> e \<in> {Sent ErrMigrationMissing, Sent ErrMigrationInvalid}"
proof (induction edges target visited source arbitrary: e rule: followMigrations.induct)
  case (1 edges target visited source)
  show ?case
  proof (cases "lookup edges source")
    case None
    with 1(2) show ?thesis by (subst (asm) followMigrations.simps) (auto split: if_splits)
  next
    case (Some m)
    with 1 show ?thesis
      by (subst (asm) (2) followMigrations.simps)
        (auto simp: res_bind_def split: if_splits sum.splits)
  qed
qed

section \<open>What a migration keeps\<close>

text \<open>Only the progress, the effects and the descriptor can change.\<close>

definition migrated_from :: "ExecutionEnvelope \<Rightarrow> ExecutionEnvelope \<Rightarrow> bool" where
  "migrated_from e e' \<longleftrightarrow> e' = e\<lparr>env_Progress := env_Progress e', env_EffectsPayload := env_EffectsPayload e',
     env_Descriptor := env_Descriptor e'\<rparr>"

lemma migrated_from_trans: "migrated_from a b \<Longrightarrow> migrated_from b c \<Longrightarrow> migrated_from a c"
  by (cases a; cases b; cases c) (simp add: migrated_from_def)

lemma applyExecutionMigration_Ok:
  assumes "applyExecutionMigration e m = Ok e'"
  shows "migrated_from e e'" and "env_Descriptor e' = mig_Target m"
    and "mig_EffectsTransform m = None \<longrightarrow> env_EffectsPayload e' = env_EffectsPayload e"
  using assms
  by (auto simp: applyExecutionMigration_def res_simps Let_def migrated_from_def split: option.splits)

lemma applyMigrations_Ok:
  assumes "applyMigrations e ms = Ok e'"
  shows "migrated_from e e' \<and> env_Descriptor e' = (if ms = [] then env_Descriptor e else mig_Target (last ms))
    \<and> ((\<forall>m \<in> set ms. mig_EffectsTransform m = None) \<longrightarrow> env_EffectsPayload e' = env_EffectsPayload e)"
  using assms
proof (induction ms arbitrary: e)
  case Nil
  then show ?case by (cases e') (simp add: migrated_from_def)
next
  case (Cons m ms)
  then obtain e1 where e1: "applyExecutionMigration e m = Ok e1" and rest: "applyMigrations e1 ms = Ok e'"
    by (auto simp: res_simps)
  note a = applyExecutionMigration_Ok [OF e1] and b = Cons.IH [OF rest]
  from a b migrated_from_trans [of e e1 e'] show ?case by auto
qed

lemma path_last: "migrationPath registry s chain t \<Longrightarrow> chain \<noteq> [] \<Longrightarrow> mig_Target (last chain) = t"
  by (induction chain arbitrary: s) (auto split: if_splits)

lemma chain_path:
  assumes "executionMigrationChain source target registry = Ok chain"
  shows "migrationPath registry source chain target"
proof -
  from assms obtain edges where "registerMigrations [] {} registry = Ok edges"
    by (auto simp: executionMigrationChain_def res_simps)
  from chain_iff [OF this] assms show ?thesis by blast
qed

section \<open>Retained revisions\<close>

lemma protectedRevisions_None:
  "protectedRevisions head prior rs = None \<Longrightarrow> r \<in> set rs \<Longrightarrow> r \<noteq> 0 \<and> r \<le> head"
  by (induction rs arbitrary: prior) (auto split: if_splits)

lemma retained_window:
  assumes "0 \<le> k" and "k < 2 ^ 63" and "(revision :: uint64) \<le> head"
  shows "head - revision < word_of_int k \<longleftrightarrow> int (unat head) < int (unat revision) + k"
proof -
  have "unat (word_of_int k :: uint64) = nat k"
    using assms(1,2) by (simp add: unat_eq_nat_uint uint_word_of_int_eq take_bit_int_eq_self)
  moreover have "unat (head - revision) = unat head - unat revision" using assms(3) by (simp add: unat_sub)
  moreover have "unat revision \<le> unat head" using assms(3) by (simp add: word_le_nat_alt)
  ultimately show ?thesis using assms(1) by (simp only: word_less_nat_alt) arith
qed

section \<open>Collections under a changed terminal\<close>

lemma journal_transfer:
  assumes "executionActivityJournal sha e = Ok journal" and "same_address e' e" and "env_Fork e' = env_Fork e"
    and "env_JournalPayload e' = env_JournalPayload e" and "env_Revision e \<le> env_Revision e'"
  shows "executionActivityJournal sha e' = Ok journal"
proof -
  have "journal_record_ok e' r" if "journal_record_ok e r" for r
    using that assms(2,3,5) by (auto simp: journal_record_ok_def same_address_def intro: less_le_trans)
  with assms(1) show ?thesis
    unfolding executionActivityJournal_Ok_iff references_cong(1) [OF assms(2)] assms(4) by (auto simp: split_beta)
qed

lemma groups_transfer:
  assumes "executionChildGroups sha e = Ok groups" and "same_address e' e"
    and "env_ChildrenPayload e' = env_ChildrenPayload e" and "env_Revision e \<le> env_Revision e'"
  shows "executionChildGroups sha e' = Ok groups"
proof -
  have "childGroupError sha e' entry = None" if "childGroupError sha e entry = None" for entry
    using that provenance_later [OF _ assms(4)] assms(2)
    by (auto simp: childGroupError_def same_address_def split: prod.splits if_splits)
  with assms(1) show ?thesis
    unfolding executionChildGroups_Ok_iff references_cong(2) [OF assms(2)] assms(3) by auto
qed

text \<open>Waits that are neither armed nor canceled do not depend on the terminal.\<close>

lemma waits_transfer:
  assumes "executionWaits sha e = Ok waits" and "same_address e' e" and "env_RuntimeProfile e' = env_RuntimeProfile e"
    and "env_WaitsPayload e' = env_WaitsPayload e" and "env_Revision e \<le> env_Revision e'"
    and "\<forall>(i, w) \<in> set waits. wrc_State w \<noteq> WaitArmed \<and> wrc_State w \<noteq> WaitCanceled"
  shows "executionWaits sha e' = Ok waits"
proof -
  have "validWaitEnvelopeAddress sha e' i w \<and> validCanceledWaitTerminal e' w"
    if "validWaitEnvelopeAddress sha e i w" and "(i, w) \<in> set waits" for i w
  proof -
    from that(2) assms(6) have "wrc_State w \<noteq> WaitArmed" "wrc_State w \<noteq> WaitCanceled" by auto
    with that(1) assms(2,3,5) show ?thesis
      by (auto simp: validWaitEnvelopeAddress_def validCanceledWaitTerminal_def same_address_def intro: validity_later)
  qed
  with assms(1) show ?thesis unfolding executionWaits_Ok_iff assms(4) by (auto simp: split_beta)
qed

section \<open>The published pair\<close>

lemma ForkTransition_None_iff:
  "ValidateExecutionForkTransition previous e = None \<longleftrightarrow>
    (\<forall>f. env_Fork e = Some f \<longrightarrow> ForkLineage_Validate f = None \<and> fkl_TargetID f = env_ExecutionID e)
    \<and> (\<forall>p. previous = Some p \<longrightarrow> env_ExecutionID p = env_ExecutionID e \<and> env_Fork p = env_Fork e)"
  by (cases "env_Fork e"; cases previous)
    (auto simp: ValidateExecutionForkTransition_def split: option.splits if_splits)

lemma ForkAnchor_None_iff:
  "ValidateExecutionForkAnchor e anchor = None \<longleftrightarrow>
    env_Fork e = anchor \<and> (\<forall>f. anchor = Some f \<longrightarrow> ForkLineage_Validate f = None \<and> fkl_TargetID f = env_ExecutionID e)"
  by (auto simp: ValidateExecutionForkAnchor_def ForkTransition_None_iff)

lemma boundary_None:
  assumes "ValidateExecutionLifecycleBoundary sha enc e = None"
  shows "ValidateExecutionIntegrity sha enc e (env_ExecutionID e) (env_Revision e) = None"
    and "ExecutionDescriptor_Validate (env_Descriptor e) = None"
    and "validateExecutionSourceMetadata sha e = None" and "validateExecutionCollections sha e = None"
    and "executionActivityJournal sha e = Ok journal \<Longrightarrow> validateLifecycleJournal e journal = None"
    and "executionChildGroups sha e = Ok groups \<Longrightarrow> validateLifecycleChildren e groups = None"
    and "executionWaits sha e = Ok waits \<Longrightarrow> (i, w) \<in> set waits \<Longrightarrow> wrc_State w \<noteq> WaitArmed"
    and "prg_ChildCursors (env_Progress e) = []"
  using assms by (auto simp: ValidateExecutionLifecycleBoundary_def res_simps split: if_splits)

lemma rolloverSource_None:
  assumes "validateRolloverSource sha enc source = None"
  shows "env_Fork source = None" and "env_Transfer source = None" and "env_Revision source \<noteq> - 1"
    and "\<forall>t. env_Terminal source = Some t \<longrightarrow> trm_Status t = RunStatusCompleted"
    and "ValidateExecutionLifecycleBoundary sha enc source = None"
  using assms by (auto simp: validateRolloverSource_def split: if_splits option.splits)

lemma rolloverTarget_None:
  assumes "validateRolloverTarget sha source target = None"
  obtains l where "env_Rollover target = Some l" "RolloverLineage_Validate sha l = None" "rll_TargetID l = env_ExecutionID target"
    "hcr_ExecutionID (rll_Source l) = env_ExecutionID source" "hcr_Revision (rll_Source l) = env_Revision source"
    "hcr_Digest (rll_Source l) = env_Digest source" "env_Revision target = 0"
    "env_Transfer target = None" "env_Terminal target = None" "env_Fork target = None" "env_Import target = None"
    "env_JournalPayload target = NoBytes" "env_ChildrenPayload target = NoBytes" "env_WaitsPayload target = NoBytes"
    "validateExecutionCollections sha target = None"
  using assms by (cases "env_Rollover target") (auto simp: validateRolloverTarget_def res_simps split: if_splits)

lemma lineage_target:
  "RolloverLineage_Validate sha l = None \<Longrightarrow> rll_TargetID l \<noteq> '''' \<and> ValidString (rll_TargetID l)
    \<and> rll_TargetID l \<noteq> hcr_ExecutionID (rll_Source l)"
  by (auto simp: RolloverLineage_Validate_def split: if_splits)

text \<open>The pair and the receipt, spelled out.\<close>

definition transferredSource :: "ExecutionEnvelope \<Rightarrow> RolloverReceipt \<Rightarrow> ExecutionEnvelope" where
  "transferredSource source receipt = source\<lparr>env_Revision := env_Revision source + 1, env_Transfer := Some receipt,
     env_Terminal := Some \<lparr>trm_Status = RunStatusTransferred, trm_Reason = ''rollover'', trm_Failure = None\<rparr>\<rparr>"

lemma publication_Ok:
  assumes "PrepareExecutionRolloverPublication sha enc source target lease = Ok (transferred, created, receipt)"
  shows "validateRolloverSource sha enc source = None" and "validateRolloverTarget sha source target = None"
    and "SealExecutionEnvelope sha enc (target\<lparr>env_Revision := 1\<rparr>) = Ok created"
    and "SealExecutionEnvelope sha enc (transferredSource source receipt) = Ok transferred"
    and "receipt = \<lparr>rrc_Lineage = the (env_Rollover target),
      rrc_Target = \<lparr>hcr_ExecutionID = env_ExecutionID target, hcr_Revision = 1, hcr_Digest = env_Digest created\<rparr>,
      rrc_SourceRevision = env_Revision source + 1\<rparr>"
  using assms
  by (auto simp: PrepareExecutionRolloverPublication_def transferredSource_def Let_def res_simps split: if_splits)

lemma seal_digest:
  assumes "SealExecutionEnvelope sha enc e = Ok s" and "\<forall>x. validActivityDigest (sha x)"
  shows "s = e\<lparr>env_Digest := env_Digest s\<rparr>" and "validActivityDigest (env_Digest s)"
  using assms EnvelopeDigest_sha by (fastforce simp: SealExecutionEnvelope_Ok_iff)+

lemma seal_fields:
  assumes "SealExecutionEnvelope sha enc e = Ok s"
  shows "env_ExecutionID s = env_ExecutionID e" "env_Revision s = env_Revision e" "env_Descriptor s = env_Descriptor e"
    "env_RuntimeProfile s = env_RuntimeProfile e" "env_Progress s = env_Progress e" "env_JournalPayload s = env_JournalPayload e"
    "env_ChildrenPayload s = env_ChildrenPayload e" "env_WaitsPayload s = env_WaitsPayload e" "env_Activation s = env_Activation e"
    "env_Terminal s = env_Terminal e" "env_Import s = env_Import e" "env_Rollover s = env_Rollover e"
    "env_Transfer s = env_Transfer e" "env_Fork s = env_Fork e"
  using assms by (auto simp: SealExecutionEnvelope_Ok_iff)

lemma publication_receipt_valid:
  assumes p: "PrepareExecutionRolloverPublication sha enc source target lease = Ok (transferred, created, receipt)"
    and sha: "\<forall>x. validActivityDigest (sha x)"
  shows "RolloverReceipt_Validate sha receipt = None"
proof -
  note o = publication_Ok [OF p] and s = rolloverSource_None [OF publication_Ok(1) [OF p]]
  obtain l where l: "env_Rollover target = Some l" "RolloverLineage_Validate sha l = None" "rll_TargetID l = env_ExecutionID target"
      "hcr_Revision (rll_Source l) = env_Revision source"
    by (rule rolloverTarget_None [OF o(2)])
  show ?thesis
    using l s(3) lineage_target [OF l(2)] seal_digest(2) [OF o(3) sha]
    by (simp add: RolloverReceipt_Validate_def o(5) HistoricalCheckpointReference_Validate_def)
qed

lemma publication_anchors:
  assumes p: "PrepareExecutionRolloverPublication sha enc source target lease = Ok (transferred, created, receipt)"
    and sha: "\<forall>x. validActivityDigest (sha x)"
    and a: "ValidateExecutionLifecycleAnchors sha source incoming None = None"
  shows "ValidateExecutionLifecycleAnchors sha transferred incoming (Some receipt) = None"
    and "ValidateExecutionLifecycleAnchors sha created (Some receipt) None = None"
proof -
  note o = publication_Ok [OF p] and r = publication_receipt_valid [OF p sha] and s = rolloverSource_None [OF publication_Ok(1) [OF p]]
  obtain l where l: "env_Rollover target = Some l" "rll_TargetID l = env_ExecutionID target"
      "hcr_ExecutionID (rll_Source l) = env_ExecutionID source" "env_Transfer target = None"
    by (rule rolloverTarget_None [OF o(2)])
  show "ValidateExecutionLifecycleAnchors sha created (Some receipt) None = None"
    using r l by (simp add: ValidateExecutionLifecycleAnchors_def o(5) seal_fields [OF o(3)])
  have t: "env_Transfer transferred = Some receipt" "env_Revision transferred = env_Revision source + 1"
      "env_Rollover transferred = env_Rollover source" "env_ExecutionID transferred = env_ExecutionID source"
      "env_Terminal transferred = Some \<lparr>trm_Status = RunStatusTransferred, trm_Reason = ''rollover'', trm_Failure = None\<rparr>"
    by (simp_all add: seal_fields [OF o(4)] transferredSource_def)
  have x: "rrc_SourceRevision receipt = env_Revision source + 1" "hcr_ExecutionID (rll_Source (rrc_Lineage receipt)) = env_ExecutionID source"
    using l by (simp_all add: o(5))
  have n: "env_Revision source \<noteq> 0"
    using boundary_None(1) [OF s(5)] by (simp add: ValidateExecutionIntegrity_None_iff)
  have i: "hcr_Revision (rrc_Target q) = 1" if "RolloverReceipt_Validate sha q = None" for q
    using that by (simp add: RolloverReceipt_Validate_def split: if_splits)
  show "ValidateExecutionLifecycleAnchors sha transferred incoming (Some receipt) = None"
    using a r i n by (auto simp: ValidateExecutionLifecycleAnchors_def t x split: option.splits if_splits)
qed

lemma publication_kept:
  assumes p: "PrepareExecutionRolloverPublication sha enc source target lease = Ok (transferred, created, receipt)"
  shows "executionActivityJournal sha transferred = executionActivityJournal sha source"
    and "executionChildGroups sha transferred = executionChildGroups sha source"
    and "executionWaits sha transferred = executionWaits sha source"
proof -
  note o = publication_Ok [OF p] and s = rolloverSource_None [OF publication_Ok(1) [OF p]]
  note b = boundary_None [OF s(5)]
  from b(4) obtain journal groups waits where c: "executionActivityJournal sha source = Ok journal"
      "executionChildGroups sha source = Ok groups" "executionWaits sha source = Ok waits"
    unfolding validateExecutionCollections_iff by blast
  have later: "env_Revision source \<le> env_Revision source + 1" using rev_succ_self [OF s(3)] by (rule less_imp_le)
  have f: "same_address transferred source" "env_Revision transferred = env_Revision source + 1" "env_Fork transferred = env_Fork source"
      "env_RuntimeProfile transferred = env_RuntimeProfile source" "env_JournalPayload transferred = env_JournalPayload source"
      "env_ChildrenPayload transferred = env_ChildrenPayload source" "env_WaitsPayload transferred = env_WaitsPayload source"
      "env_Progress transferred = env_Progress source"
    by (simp_all add: same_address_def seal_fields [OF o(4)] transferredSource_def)
  have "wrc_State w \<noteq> WaitCanceled" if "(i, w) \<in> set waits" for i w
    using c(3) that s(4) unfolding executionWaits_Ok_iff validCanceledWaitTerminal_def
    by (fastforce split: option.splits)
  then have "\<forall>(i, w) \<in> set waits. wrc_State w \<noteq> WaitArmed \<and> wrc_State w \<noteq> WaitCanceled" using b(7) [OF c(3)] by blast
  then show "executionWaits sha transferred = executionWaits sha source"
    using later f c(3) by (simp add: waits_transfer [OF c(3)])
  show "executionActivityJournal sha transferred = executionActivityJournal sha source"
    using later f c(1) by (simp add: journal_transfer [OF c(1)])
  show "executionChildGroups sha transferred = executionChildGroups sha source"
    using later f c(2) by (simp add: groups_transfer [OF c(2)])
qed

lemma publication_collections:
  assumes p: "PrepareExecutionRolloverPublication sha enc source target lease = Ok (transferred, created, receipt)"
  shows "validateExecutionCollections sha transferred = None" and "validateExecutionCollections sha created = None"
proof -
  note o = publication_Ok [OF p] and s = rolloverSource_None [OF publication_Ok(1) [OF p]]
  show "validateExecutionCollections sha transferred = None"
    using boundary_None(4) [OF s(5)] publication_kept [OF p] unfolding validateExecutionCollections_iff
    by (auto simp: seal_fields [OF o(4)] transferredSource_def)
  obtain l where t: "env_JournalPayload target = NoBytes" "env_ChildrenPayload target = NoBytes" "env_WaitsPayload target = NoBytes"
      "validateExecutionCollections sha target = None"
    by (rule rolloverTarget_None [OF o(2)])
  have a: "same_address created target" by (simp add: same_address_def seal_fields [OF o(3)])
  show "validateExecutionCollections sha created = None"
    using t unfolding validateExecutionCollections_iff executionActivityJournal_Ok_iff executionChildGroups_Ok_iff
      executionWaits_Ok_iff decodeActivityJournal_Ok_iff
    by (auto simp: seal_fields [OF o(3)] references_cong [OF a])
qed

lemma publication_metadata:
  assumes p: "PrepareExecutionRolloverPublication sha enc source target lease = Ok (transferred, created, receipt)"
    and sha: "\<forall>x. validActivityDigest (sha x)"
  shows "validateExecutionSourceMetadata sha transferred = None" and "validateExecutionSourceMetadata sha created = None"
proof -
  note o = publication_Ok [OF p] and r = publication_receipt_valid [OF p sha] and s = rolloverSource_None [OF publication_Ok(1) [OF p]]
  note b = boundary_None(3) [OF s(5)]
  obtain l where l: "env_Rollover target = Some l" "RolloverLineage_Validate sha l = None" "rll_TargetID l = env_ExecutionID target"
      "hcr_ExecutionID (rll_Source l) = env_ExecutionID source" "env_Transfer target = None" "env_Terminal target = None"
      "env_Fork target = None" "env_Import target = None"
    by (rule rolloverTarget_None [OF o(2)])
  show "validateExecutionSourceMetadata sha created = None"
    using l by (simp add: validateExecutionSourceMetadata_def seal_fields [OF o(3)] terminalFailureError_def)
  have x: "rrc_SourceRevision receipt = env_Revision source + 1" "hcr_ExecutionID (rll_Source (rrc_Lineage receipt)) = env_ExecutionID source"
    using l by (simp_all add: o(5))
  have m: "env_Rollover source = Some l \<Longrightarrow> RolloverLineage_Validate sha l = None \<and> rll_TargetID l = env_ExecutionID source"
      "env_Import source = Some i \<Longrightarrow> ipr_ImporterID i \<noteq> '''' \<and> LegacyExecutionSource_Validate sha (ipr_Source i) = None" for l i
    using b by (auto simp: validateExecutionSourceMetadata_def split: if_splits)
  show "validateExecutionSourceMetadata sha transferred = None"
    using m r x s(1) by (cases "env_Rollover source"; cases "env_Import source")
      (simp_all add: validateExecutionSourceMetadata_def seal_fields [OF o(4)] transferredSource_def terminalFailureError_def)
qed

section \<open>Properties\<close>

text \<open>
  C16. The migration planner is complete and ends: over a registry that it
  accepts it returns a chain exactly when registered migrations lead from the
  source to the target descriptor, the chain is the one path that stops at the
  first visit of the target and it repeats no source. Otherwise, a cycle
  included, it returns one of its two errors.
\<close>

theorem migration_chain_complete:
  assumes "registerMigrations [] {} registry = Ok edges"
  shows "(executionMigrationChain source target registry = Ok chain \<longleftrightarrow> migrationPath registry source chain target)
    \<and> (migrationPath registry source chain target \<longrightarrow> distinct (map mig_Source chain)
        \<and> (\<forall>other. migrationPath registry source other target \<longrightarrow> other = chain))
    \<and> ((\<nexists>c. migrationPath registry source c target) \<longrightarrow>
        executionMigrationChain source target registry \<in> {Err ErrMigrationMissing, Err ErrMigrationInvalid})"
proof -
  have inj: "q = m" if "q \<in> set registry" "m \<in> set registry" "mig_Source q = mig_Source m" for q m
    using that registered_edge [OF assms] by (metis option.inject)
  have "executionMigrationChain source target registry \<in> {Err ErrMigrationMissing, Err ErrMigrationInvalid}"
    if "\<nexists>c. migrationPath registry source c target"
  proof -
    from that chain_iff [OF assms] obtain e where "executionMigrationChain source target registry = Inl e"
      by (cases "executionMigrationChain source target registry") auto
    then show ?thesis using follow_error [of edges target "[]" source e]
      by (auto simp: executionMigrationChain_def assms)
  qed
  then show ?thesis
    using chain_iff [OF assms] path_distinct [of registry] path_unique [of registry] inj by blast
qed

definition sampleMigration :: "string \<Rightarrow> string \<Rightarrow> string \<Rightarrow> ExecutionMigration" where
  "sampleMigration i from to = \<lparr>mig_ID = i, mig_Source = sampleDescriptor\<lparr>dsc_GraphRevision := from\<rparr>,
     mig_Target = sampleDescriptor\<lparr>dsc_GraphRevision := to\<rparr>, mig_Transform = Some (\<lambda>p. Ok p), mig_EffectsTransform = None\<rparr>"

definition sampleRegistry :: "ExecutionMigration list" where
  "sampleRegistry = [sampleMigration ''b'' ''2'' ''3'', sampleMigration ''a'' ''1'' ''2'', sampleMigration ''c'' ''3'' ''2'']"

lemma sampleRegistry_accepted: "\<exists>edges. registerMigrations [] {} sampleRegistry = Ok edges"
  by (simp add: sampleRegistry_def sampleMigration_def ExecutionDescriptor_Validate_def sampleDescriptor_def byte_def)

theorem migration_chain_complete_witness:
  "executionMigrationChain sampleDescriptor (sampleDescriptor\<lparr>dsc_GraphRevision := ''3''\<rparr>) sampleRegistry
    = Ok [sampleMigration ''a'' ''1'' ''2'', sampleMigration ''b'' ''2'' ''3'']"
proof -
  obtain edges where "registerMigrations [] {} sampleRegistry = Ok edges" using sampleRegistry_accepted ..
  moreover have "migrationPath sampleRegistry sampleDescriptor
      [sampleMigration ''a'' ''1'' ''2'', sampleMigration ''b'' ''2'' ''3''] (sampleDescriptor\<lparr>dsc_GraphRevision := ''3''\<rparr>)"
    by (simp add: sampleRegistry_def) (simp add: sampleMigration_def sampleDescriptor_def)
  ultimately show ?thesis using migration_chain_complete by blast
qed

text \<open>
  A prepared migration changes the progress, the effects and the descriptor
  only: the identity, the revision, the activity journal, the child groups, the
  waits, the run metadata, the terminal and every lineage are those of the source.
  It has the target descriptor and a pointer that the target graph accepts; when
  the descriptors differ it names the exact source checkpoint and the path taken,
  and when they are equal it is the source itself.
\<close>

theorem migration_preserves_outcomes:
  assumes "PrepareExecutionMigration sha enc source target registry (Some validate) = Ok result"
  shows "result = source\<lparr>env_Progress := env_Progress result, env_EffectsPayload := env_EffectsPayload result,
      env_Descriptor := target, env_Migration := env_Migration result\<rparr>
    \<and> env_Pointer result \<noteq> '''' \<and> validMigrationText (env_Progress result) \<and> validate (env_Pointer result) = None
    \<and> (if env_Descriptor source = target then result = source
       else \<exists>chain. migrationPath registry (env_Descriptor source) chain target
         \<and> env_Migration result = Some \<lparr>mpr_SourceRevision = env_Revision source, mpr_SourceDigest = env_Digest source,
              mpr_Chain = map mig_ID chain\<rparr>)"
proof -
  from assms obtain chain e where chain: "executionMigrationChain (env_Descriptor source) target registry = Ok chain"
    and e: "applyMigrations source chain = Ok e" and ok: "env_Pointer e \<noteq> ''''" "validMigrationText (env_Progress e)" "validate (env_Pointer e) = None"
    and result: "result = (if chain = [] then e else e\<lparr>env_Migration := Some \<lparr>mpr_SourceRevision = env_Revision source,
        mpr_SourceDigest = env_Digest source, mpr_Chain = map mig_ID chain\<rparr>\<rparr>)"
    by (auto simp: PrepareExecutionMigration_def res_simps split: option.splits if_splits)
  note path = chain_path [OF chain] and a = applyMigrations_Ok [OF e]
  have empty: "chain = [] \<longleftrightarrow> env_Descriptor source = target" using path by (cases chain) auto
  have d: "env_Descriptor e = target" using a path path_last [OF path] empty by auto
  from a have m: "e = source\<lparr>env_Progress := env_Progress e, env_EffectsPayload := env_EffectsPayload e, env_Descriptor := target\<rparr>"
    unfolding migrated_from_def d by (rule conjunct1)
  show ?thesis
  proof (cases "chain = []")
    case True
    then show ?thesis using e ok empty result by (cases source) auto
  next
    case False
    have "result = source\<lparr>env_Progress := env_Progress result, env_EffectsPayload := env_EffectsPayload result,
        env_Descriptor := target, env_Migration := env_Migration result\<rparr>"
      unfolding result by (subst m) (simp add: False)
    with False show ?thesis using ok empty path by (auto simp: result)
  qed
qed

definition sampleSealed :: ExecutionEnvelope where
  "sampleSealed = sampleEnvelope\<lparr>env_Digest := sampleSha ''a''\<rparr>"

lemma sampleSealed_integrity: "ValidateExecutionIntegrity sampleSha sampleEnc sampleSealed ''e'' 1 = None"
  using seal_admitted [OF sampleEnvelope_seal] sampleSha_digest by (simp add: sampleSealed_def sampleEnvelope_def)

definition sampleMigrated :: ExecutionEnvelope where
  "sampleMigrated = sampleSealed\<lparr>env_Descriptor := sampleDescriptor\<lparr>dsc_GraphRevision := ''3''\<rparr>,
     env_Migration := Some \<lparr>mpr_SourceRevision = 1, mpr_SourceDigest = sampleSha ''a'', mpr_Chain = [''a'', ''b'']\<rparr>\<rparr>"

lemma sampleMigrated_prepared:
  "PrepareExecutionMigration sampleSha sampleEnc sampleSealed (sampleDescriptor\<lparr>dsc_GraphRevision := ''3''\<rparr>) sampleRegistry (Some (\<lambda>_. None))
    = Ok sampleMigrated"
proof -
  obtain edges where "registerMigrations [] {} sampleRegistry = Ok edges" using sampleRegistry_accepted ..
  then have c: "executionMigrationChain sampleDescriptor (sampleDescriptor\<lparr>dsc_GraphRevision := ''3''\<rparr>) sampleRegistry
      = Ok [sampleMigration ''a'' ''1'' ''2'', sampleMigration ''b'' ''2'' ''3'']"
    by (simp add: chain_iff) (simp add: sampleRegistry_def sampleMigration_def sampleDescriptor_def)
  have f: "env_ExecutionID sampleSealed = ''e''" "env_Revision sampleSealed = 1" "env_Descriptor sampleSealed = sampleDescriptor"
      "env_Digest sampleSealed = sampleSha ''a''" "env_Pointer sampleSealed = ''n''" "validMigrationText (env_Progress sampleSealed)"
    by (simp_all add: sampleSealed_def sampleEnvelope_def validMigrationText_def byte_def)
  have d: "ExecutionDescriptor_Validate sampleDescriptor = None"
      "ExecutionDescriptor_Validate (sampleDescriptor\<lparr>dsc_GraphRevision := ''3''\<rparr>) = None"
    by (simp_all add: ExecutionDescriptor_Validate_def sampleDescriptor_def byte_def)
  show ?thesis
    by (simp add: PrepareExecutionMigration_def f d c sampleSealed_integrity validateEffectsMigrationChain_def)
      (simp add: sampleMigration_def applyExecutionMigration_def wrapErr_def Let_def sampleMigrated_def f)
qed

theorem migration_preserves_outcomes_witness:
  "env_JournalPayload sampleMigrated = env_JournalPayload sampleSealed \<and> env_ExecutionID sampleMigrated = ''e''
   \<and> (\<exists>chain. env_Migration sampleMigrated = Some \<lparr>mpr_SourceRevision = 1, mpr_SourceDigest = sampleSha ''a'', mpr_Chain = chain\<rparr>)"
  using migration_preserves_outcomes [OF sampleMigrated_prepared]
  by (simp add: sampleSealed_def sampleMigrated_def sampleEnvelope_def sampleDescriptor_def)

text \<open>
  Retention keeps exactly what it promises. For an accepted request without
  payload deletion a revision up to the head is kept when it is the head, protected, or one of
  the last \<open>KeepLast\<close> revisions; the 64-bit subtraction never wraps around.
  Protected revisions exist up to the head. With payload deletion nothing is kept.
\<close>

theorem retention_selection:
  assumes "ExecutionRetentionRequest_Validate request = None" and "rtp_KeepLast (rtr_Policy request) < 2 ^ 63"
  shows "ExecutionRevisionRetained request revision \<longleftrightarrow> \<not> rtp_DeletePayload (rtr_Policy request) \<and> revision \<le> rtr_Revision request
      \<and> (revision = rtr_Revision request \<or> revision \<in> set (rtp_ProtectedRevisions (rtr_Policy request))
         \<or> int (unat (rtr_Revision request)) < int (unat revision) + rtp_KeepLast (rtr_Policy request))"
proof -
  from assms(1) have k: "0 \<le> rtp_KeepLast (rtr_Policy request)"
    and p: "r \<in> set (rtp_ProtectedRevisions (rtr_Policy request)) \<Longrightarrow> r \<le> rtr_Revision request" for r
    by (auto simp: ExecutionRetentionRequest_Validate_def Let_def split: if_splits dest: protectedRevisions_None)
  show ?thesis
    using retained_window [OF k assms(2), of revision "rtr_Revision request"] k p
    by (auto simp: ExecutionRevisionRetained_def Let_def)
qed

definition sampleRetention :: ExecutionRetentionRequest where
  "sampleRetention = \<lparr>rtr_ExecutionID = ''e'', rtr_Revision = 9,
     rtr_Policy = \<lparr>rtp_Label = ''l'', rtp_KeepLast = 2, rtp_DeletePayload = False, rtp_ProtectedRevisions = [3, 5]\<rparr>\<rparr>"

theorem retention_selection_witness:
  "filter (ExecutionRevisionRetained sampleRetention) [1, 2, 3, 4, 5, 6, 7, 8, 9, 10] = [3, 5, 8, 9]"
proof -
  have "ExecutionRetentionRequest_Validate sampleRetention = None" and "rtp_KeepLast (rtr_Policy sampleRetention) < 2 ^ 63"
    by (simp_all add: ExecutionRetentionRequest_Validate_def sampleRetention_def byte_def Let_def)
  from retention_selection [OF this] show ?thesis
    by (simp add: sampleRetention_def)
qed

text \<open>
  C17. Nothing is lost or started by a rollover that is published. Both
  envelopes are sealed and pass the checks of the stores (integrity at their
  address, lineage against the retained anchors) and of the runtime (source
  metadata and collections), and the receipt is valid. The transferred source is
  the source at its next revision with the receipt and the terminal, everything
  else is kept, and its journal, child groups and waits decode to exactly those of
  the source; the created target is the requested one at revision one and starts
  with none.
\<close>

theorem rollover_publication_admissible:
  assumes "PrepareExecutionRolloverPublication sha enc source target lease = Ok (transferred, created, receipt)"
    and "\<forall>x. validActivityDigest (sha x)"
    and "ValidateExecutionLifecycleAnchors sha source incoming None = None"
  shows "RolloverReceipt_Validate sha receipt = None
    \<and> ValidateExecutionIntegrity sha enc transferred (env_ExecutionID source) (env_Revision source + 1) = None
    \<and> ValidateExecutionIntegrity sha enc created (rll_TargetID (rrc_Lineage receipt)) 1 = None
    \<and> ValidateExecutionLifecycleAnchors sha transferred incoming (Some receipt) = None
    \<and> ValidateExecutionLifecycleAnchors sha created (Some receipt) None = None
    \<and> validateExecutionSourceMetadata sha transferred = None \<and> validateExecutionSourceMetadata sha created = None
    \<and> validateExecutionCollections sha transferred = None \<and> validateExecutionCollections sha created = None
    \<and> transferred = (transferredSource source receipt)\<lparr>env_Digest := env_Digest transferred\<rparr>
    \<and> created = target\<lparr>env_Revision := 1, env_Digest := env_Digest created\<rparr>
    \<and> executionActivityJournal sha transferred = executionActivityJournal sha source
    \<and> executionChildGroups sha transferred = executionChildGroups sha source
    \<and> executionWaits sha transferred = executionWaits sha source
    \<and> executionActivityJournal sha created = Ok [] \<and> executionChildGroups sha created = Ok [] \<and> executionWaits sha created = Ok []"
proof -
  note o = publication_Ok [OF assms(1)] and r = publication_receipt_valid [OF assms(1,2)]
  note s = rolloverSource_None [OF o(1)] and col = publication_collections [OF assms(1)]
  obtain l where l: "env_Rollover target = Some l" "rll_TargetID l = env_ExecutionID target" "env_JournalPayload target = NoBytes"
      "env_ChildrenPayload target = NoBytes" "env_WaitsPayload target = NoBytes"
    by (rule rolloverTarget_None [OF o(2)])
  have "rll_TargetID (rrc_Lineage receipt) = env_ExecutionID target" using l by (simp add: o(5))
  then have "ValidateExecutionIntegrity sha enc created (rll_TargetID (rrc_Lineage receipt)) 1 = None"
    using seal_admitted [OF o(3) assms(2)] by simp
  moreover have "ValidateExecutionIntegrity sha enc transferred (env_ExecutionID source) (env_Revision source + 1) = None"
    using seal_admitted [OF o(4) assms(2)] by (simp add: transferredSource_def)
  moreover have "transferred = (transferredSource source receipt)\<lparr>env_Digest := env_Digest transferred\<rparr>"
      "created = target\<lparr>env_Revision := 1, env_Digest := env_Digest created\<rparr>"
    using seal_digest(1) [OF o(4) assms(2)] seal_digest(1) [OF o(3) assms(2)] by simp_all
  moreover note publication_kept [OF assms(1)]
  moreover have "executionActivityJournal sha created = Ok []" "executionChildGroups sha created = Ok []" "executionWaits sha created = Ok []"
    using col(2) l(3-) unfolding validateExecutionCollections_iff
    by (auto simp: executionActivityJournal_Ok_iff decodeActivityJournal_Ok_iff executionChildGroups_Ok_iff executionWaits_Ok_iff
        seal_fields [OF o(3)])
  ultimately show ?thesis
    using r publication_anchors [OF assms] publication_metadata [OF assms(1,2)] col by blast
qed

definition sampleLease :: ExecutionLease where
  "sampleLease = \<lparr>lse_ExecutionID = ''e'', lse_Owner = ''o'', lse_Incarnation = 1, lse_ExpiresAt = 10\<rparr>"

text \<open>An execution after its first step and the target of its rollover.\<close>

definition steppedEnvelope :: ExecutionEnvelope where
  "steppedEnvelope = sampleEnvelope\<lparr>env_Digest := sampleSha ''b'', env_RunMeta := emptyRunMeta\<lparr>rmd_StepCount := 1\<rparr>\<rparr>"

definition sampleLineage :: RolloverLineage where
  "sampleLineage = \<lparr>rll_Source = \<lparr>hcr_ExecutionID = ''e'', hcr_Revision = 1, hcr_Digest = sampleSha ''b''\<rparr>,
     rll_SourceDescriptor = sampleDescriptor, rll_TargetDescriptor = sampleDescriptor, rll_TargetID = ''t'', rll_DecisionID = ''d'',
     rll_Policy = \<lparr>rpl_Label = ''p'', rpl_MaxRecords = 5, rpl_MaxAggregateBytes = 99, rpl_MaxTargetBytes = 99\<rparr>,
     rll_ProjectionLabel = ''q'', rll_RequestDigest = sampleSha ''b'', rll_CreatedAt = 5, rll_CreatedUTC = True\<rparr>"

definition rolloverEnvelope :: ExecutionEnvelope where
  "rolloverEnvelope = sampleEnvelope\<lparr>env_ExecutionID := ''t'', env_Revision := 0, env_Rollover := Some sampleLineage\<rparr>"

lemma sampleSha_const: "sampleSha x = sampleSha ''b''"
  by (simp add: sampleSha_def)

lemma sampleDescriptor_valid: "ExecutionDescriptor_Validate sampleDescriptor = None"
  by (simp add: ExecutionDescriptor_Validate_def sampleDescriptor_def byte_def)

lemma sampleLineage_valid: "RolloverLineage_Validate sampleSha sampleLineage = None"
proof -
  have "rolloverRequestDigest sampleSha a b c d f g h = sampleSha ''b''" for a b c d f g h
    unfolding rolloverRequestDigest_def by (rule sampleSha_const)
  then show ?thesis
    by (simp add: RolloverLineage_Validate_def sampleLineage_def HistoricalCheckpointReference_Validate_def sampleSha_digest
        sampleDescriptor_valid RolloverPolicy_Validate_def activityScheduleTimeValid_def year_10000_def byte_def)
qed

lemma sample_collections:
  assumes "env_JournalPayload e = NoBytes" and "env_ChildrenPayload e = NoBytes" and "env_WaitsPayload e = NoBytes"
    and "env_Progress e = env_Progress sampleEnvelope" and "env_RuntimeProfile e = None"
  shows "executionActivityJournal sha e = Ok []" "executionChildGroups sha e = Ok []" "executionWaits sha e = Ok []"
    "validateExecutionCollections sha e = None"
proof -
  have p: "validMigrationText (env_Progress e)" "prg_JournalReferences (env_Progress e) = []" "prg_ChildGroupReferences (env_Progress e) = []"
    unfolding assms(4) by (simp_all add: sampleEnvelope_def validMigrationText_def byte_def)
  show c: "executionActivityJournal sha e = Ok []" "executionChildGroups sha e = Ok []" "executionWaits sha e = Ok []"
    using assms(1-3) p
    by (simp_all add: executionActivityJournal_Ok_iff decodeActivityJournal_Ok_iff executionChildGroups_Ok_iff executionWaits_Ok_iff
        validateActivityReferences_iff validateChildGroupReferences_iff)
  show "validateExecutionCollections sha e = None"
    unfolding validateExecutionCollections_iff using p c assms(5) by simp
qed

lemma steppedEnvelope_fields:
  "env_ExecutionID steppedEnvelope = ''e''" "env_Revision steppedEnvelope = 1" "env_Digest steppedEnvelope = sampleSha ''b''"
  "env_Descriptor steppedEnvelope = sampleDescriptor" "env_RuntimeProfile steppedEnvelope = None"
  "env_Progress steppedEnvelope = env_Progress sampleEnvelope" "env_Pointer sampleEnvelope = ''n''"
  "validMigrationText (env_Progress sampleEnvelope)" "prg_ChildCursors (env_Progress sampleEnvelope) = []"
  "env_JournalPayload steppedEnvelope = NoBytes" "env_ChildrenPayload steppedEnvelope = NoBytes" "env_WaitsPayload steppedEnvelope = NoBytes"
  "env_Terminal steppedEnvelope = None" "env_Import steppedEnvelope = None" "env_Rollover steppedEnvelope = None"
  "env_Transfer steppedEnvelope = None" "env_Fork steppedEnvelope = None" "rmd_StepCount (env_RunMeta steppedEnvelope) = 1"
  "rmd_RetryCounts (env_RunMeta steppedEnvelope) = []" "rmd_BudgetCounts (env_RunMeta steppedEnvelope) = []"
  by (simp_all add: steppedEnvelope_def sampleEnvelope_def emptyRunMeta_def validMigrationText_def byte_def)

lemma rolloverEnvelope_fields:
  "env_ExecutionID rolloverEnvelope = ''t''" "env_Revision rolloverEnvelope = 0" "env_Digest rolloverEnvelope = ''''"
  "env_Descriptor rolloverEnvelope = sampleDescriptor" "env_RuntimeProfile rolloverEnvelope = None" "env_Activation rolloverEnvelope = 1"
  "env_Progress rolloverEnvelope = env_Progress sampleEnvelope" "prg_StatePayload (env_Progress sampleEnvelope) = ''{}''"
  "prg_JournalReferences (env_Progress sampleEnvelope) = []" "prg_ChildGroupReferences (env_Progress sampleEnvelope) = []"
  "env_JournalPayload rolloverEnvelope = NoBytes" "env_ChildrenPayload rolloverEnvelope = NoBytes" "env_WaitsPayload rolloverEnvelope = NoBytes"
  "env_Terminal rolloverEnvelope = None" "env_Import rolloverEnvelope = None" "env_Rollover rolloverEnvelope = Some sampleLineage"
  "env_Transfer rolloverEnvelope = None" "env_Fork rolloverEnvelope = None" "env_Migration rolloverEnvelope = None"
  "env_RunMeta rolloverEnvelope = emptyRunMeta" "env_EffectsPayload rolloverEnvelope = ''''"
  by (simp_all add: rolloverEnvelope_def sampleEnvelope_def)

lemma sampleEnc_seal:
  assumes "env_ExecutionID e \<noteq> ''''" and "ValidString (env_ExecutionID e)" and "env_Revision e \<noteq> 0"
    and "env_Progress e = env_Progress sampleEnvelope"
  shows "SealExecutionEnvelope sampleSha sampleEnc e = Ok (e\<lparr>env_Digest := sampleSha ''b''\<rparr>)"
  using assms sampleSha_const by (auto simp: SealExecutionEnvelope_def EnvelopeDigest_def sampleEnc_def steppedEnvelope_fields)

lemma steppedEnvelope_source: "validateRolloverSource sampleSha sampleEnc steppedEnvelope = None"
proof -
  have "SealExecutionEnvelope sampleSha sampleEnc steppedEnvelope = Ok (steppedEnvelope\<lparr>env_Digest := sampleSha ''b''\<rparr>)"
    by (rule sampleEnc_seal) (simp_all add: steppedEnvelope_fields byte_def)
  moreover have "steppedEnvelope\<lparr>env_Digest := sampleSha ''b''\<rparr> = steppedEnvelope"
    by (cases sampleEnvelope) (simp add: steppedEnvelope_def)
  ultimately have i: "ValidateExecutionIntegrity sampleSha sampleEnc steppedEnvelope ''e'' 1 = None"
    using seal_admitted [of sampleSha sampleEnc steppedEnvelope steppedEnvelope] sampleSha_digest
    by (simp add: steppedEnvelope_fields)
  show ?thesis
    by (simp add: validateRolloverSource_def ValidateExecutionLifecycleBoundary_def steppedEnvelope_fields i sampleDescriptor_valid
        sample_collections validateExecutionSourceMetadata_def terminalFailureError_def validateLifecycleJournal_def
        validateLifecycleChildren_def errOf_def)
qed

lemma rolloverEnvelope_target: "validateRolloverTarget sampleSha steppedEnvelope rolloverEnvelope = None"
  using sampleLineage_valid
  by (simp add: validateRolloverTarget_def rolloverEnvelope_fields steppedEnvelope_fields sample_collections maps_Equal_def)
    (simp add: sampleLineage_def emptyRunMeta_def)

lemma sample_publication:
  "\<exists>transferred created receipt.
    PrepareExecutionRolloverPublication sampleSha sampleEnc steppedEnvelope rolloverEnvelope sampleLease = Ok (transferred, created, receipt)"
proof -
  have "validateRolloverRecordLimit sampleSha sampleEnc steppedEnvelope (rll_Policy sampleLineage) = None"
    by (simp add: validateRolloverRecordLimit_def sampleEnc_def sample_collections steppedEnvelope_fields errOf_def)
      (simp add: sampleLineage_def RolloverPolicy_Validate_def byte_def)
  moreover have "rpl_MaxTargetBytes (rll_Policy sampleLineage) = 99" by (simp add: sampleLineage_def)
  moreover have "lse_ExecutionID sampleLease = ''e''" "lse_Incarnation sampleLease \<noteq> 0" "lse_Owner sampleLease \<noteq> ''''"
    by (simp_all add: sampleLease_def steppedEnvelope_fields)
  ultimately show ?thesis
    using steppedEnvelope_source rolloverEnvelope_target
    by (simp add: PrepareExecutionRolloverPublication_def Let_def sampleEnc_seal rolloverEnvelope_fields steppedEnvelope_fields
        byte_def)
      (simp add: sampleEnc_def Let_def sampleEnc_seal steppedEnvelope_fields byte_def)
qed

theorem rollover_publication_admissible_witness:
  "\<exists>transferred created receipt.
     ValidateExecutionLifecycleAnchors sampleSha transferred None (Some receipt) = None
   \<and> ValidateExecutionLifecycleAnchors sampleSha created (Some receipt) None = None
   \<and> validateExecutionCollections sampleSha transferred = None \<and> validateExecutionCollections sampleSha created = None"
proof -
  obtain transferred created receipt where p:
    "PrepareExecutionRolloverPublication sampleSha sampleEnc steppedEnvelope rolloverEnvelope sampleLease = Ok (transferred, created, receipt)"
    using sample_publication by blast
  have "ValidateExecutionLifecycleAnchors sampleSha steppedEnvelope None None = None"
    by (simp add: ValidateExecutionLifecycleAnchors_def steppedEnvelope_fields)
  from rollover_publication_admissible [OF p allI [OF sampleSha_digest] this] show ?thesis by blast
qed

end
