(* ===== verification/Store_Contracts.thy ===== *)
theory Store_Contracts
  imports Flowy_Prelude
begin

text \<open>
  The contracts that the runtime relies on when it talks to persistence, as
  locales over an arbitrary state: a system of operations with an invariant, a
  store with revisions under optimistic concurrency, and leases with fencing
  incarnations. The stores of the repository interpret them with their own
  operations; what a client may conclude over any number of interleaved
  operations is proved here once.
\<close>

locale operations =
  fixes step :: "'s \<Rightarrow> 's \<Rightarrow> bool" and inv :: "'s \<Rightarrow> bool"
  assumes inv_step: "inv s \<Longrightarrow> step s s' \<Longrightarrow> inv s'"
begin

abbreviation run :: "'s \<Rightarrow> 's \<Rightarrow> bool" where
  "run \<equiv> rtranclp step"

lemma run_keeps:
  assumes "run s s'" and "inv s" and "P s"
    and "\<And>a b. inv a \<Longrightarrow> step a b \<Longrightarrow> P a \<Longrightarrow> P b"
  shows "inv s' \<and> P s'"
  using assms(1)
proof (induction rule: rtranclp_induct)
  case base
  then show ?case using assms(2,3) by simp
next
  case (step a b)
  then show ?case using inv_step assms(4) by blast
qed

lemma run_invariant: "run s s' \<Longrightarrow> inv s \<Longrightarrow> inv s'"
  using run_keeps [of s s' "\<lambda>_. True"] by simp

end

locale versioned_store = operations step inv for step :: "'s \<Rightarrow> 's \<Rightarrow> bool" and inv :: "'s \<Rightarrow> bool" +
  fixes head :: "'s \<Rightarrow> 'k \<Rightarrow> 'r::linorder" and entry :: "'s \<Rightarrow> 'k \<Rightarrow> 'r \<Rightarrow> 'v option"
  assumes head_mono: "inv s \<Longrightarrow> step s s' \<Longrightarrow> head s k \<le> head s' k"
    and entry_stable: "inv s \<Longrightarrow> step s s' \<Longrightarrow> r \<le> head s k \<Longrightarrow> entry s' k r = Some v \<Longrightarrow> entry s k r = Some v"
    and entry_bound: "inv s \<Longrightarrow> entry s k r = Some v \<Longrightarrow> r \<le> head s k"
begin

lemma run_head_mono:
  assumes "run s s'" and "inv s"
  shows "head s k \<le> head s' k"
  using run_keeps [OF assms, of "\<lambda>x. head s k \<le> head x k"] head_mono order_trans by blast

text \<open>What is readable at an old revision later was readable there before.\<close>

lemma run_entry:
  assumes "run s s'" and "inv s" and "r \<le> head s k" and "entry s' k r = Some v"
  shows "entry s k r = Some v"
proof -
  have "inv s' \<and> (r \<le> head s' k \<and> (\<forall>v. entry s' k r = Some v \<longrightarrow> entry s k r = Some v))"
  proof (rule run_keeps [OF assms(1,2)])
    show "r \<le> head s k \<and> (\<forall>v. entry s k r = Some v \<longrightarrow> entry s k r = Some v)" using assms(3) by simp
    show "r \<le> head b k \<and> (\<forall>v. entry b k r = Some v \<longrightarrow> entry s k r = Some v)"
      if "inv a" "step a b" "r \<le> head a k \<and> (\<forall>v. entry a k r = Some v \<longrightarrow> entry s k r = Some v)" for a b
      using that entry_stable [OF that(1,2)] head_mono [OF that(1,2), of k] by (blast intro: order_trans)
  qed
  with assms(4) show ?thesis by blast
qed

lemma history_immutable:
  assumes "run s s'" and "inv s" and "entry s k r = Some v"
  shows "entry s' k r = None \<or> entry s' k r = Some v"
proof (cases "entry s' k r")
  case (Some w)
  then have "entry s k r = Some w" using run_entry [OF assms(1,2) entry_bound [OF assms(2,3)]] by blast
  with assms(3) Some show ?thesis by simp
qed simp

lemma pruned_stays_absent:
  assumes "run s s'" and "inv s" and "r \<le> head s k" and "entry s k r = None"
  shows "entry s' k r = None"
  using run_entry [OF assms(1-3)] assms(4) by (cases "entry s' k r") auto

end

locale fenced_store = operations step inv for step :: "'s \<Rightarrow> 's \<Rightarrow> bool" and inv :: "'s \<Rightarrow> bool" +
  fixes fence :: "'s \<Rightarrow> 'k \<Rightarrow> 'i::linorder" and live :: "'s \<Rightarrow> 'k \<Rightarrow> 'i \<Rightarrow> bool"
  assumes fence_mono: "inv s \<Longrightarrow> step s s' \<Longrightarrow> fence s k \<le> fence s' k"
    and live_fence: "inv s \<Longrightarrow> live s k i \<Longrightarrow> i = fence s k"
begin

lemma run_fence_mono:
  assumes "run s s'" and "inv s"
  shows "fence s k \<le> fence s' k"
  using run_keeps [OF assms, of "\<lambda>x. fence s k \<le> fence x k"] fence_mono order_trans by blast

lemma one_live: "inv s \<Longrightarrow> live s k i \<Longrightarrow> live s k j \<Longrightarrow> i = j"
  using live_fence by metis

text \<open>An incarnation below the fence is dead in every later state.\<close>

lemma stale_forever:
  assumes "run s s'" and "inv s" and "i < fence s k"
  shows "\<not> live s' k i"
  using run_fence_mono [OF assms(1,2), of k] live_fence [OF run_invariant [OF assms(1,2)]] assms(3) by fastforce

end

text \<open>A forward simulation: each operation is matched by at most one step of a specification.\<close>

locale simulation = operations step inv for step :: "'s \<Rightarrow> 's \<Rightarrow> bool" and inv :: "'s \<Rightarrow> bool" +
  fixes spec :: "'a \<Rightarrow> 'a \<Rightarrow> bool" and refines :: "'s \<Rightarrow> 'a \<Rightarrow> bool"
  assumes simulated: "inv s \<Longrightarrow> step s s' \<Longrightarrow> refines s a \<Longrightarrow> \<exists>a'. (a' = a \<or> spec a a') \<and> refines s' a'"
begin

lemma run_simulated:
  assumes "run s s'" and "inv s" and "refines s a"
  shows "\<exists>a'. spec\<^sup>*\<^sup>* a a' \<and> refines s' a'"
proof -
  have "inv s' \<and> (\<exists>a'. spec\<^sup>*\<^sup>* a a' \<and> refines s' a')"
  proof (rule run_keeps [OF assms(1,2)])
    show "\<exists>a'. spec\<^sup>*\<^sup>* a a' \<and> refines s a'" using assms(3) by blast
    show "\<exists>a'. spec\<^sup>*\<^sup>* a a' \<and> refines y a'" if "inv x" "step x y" "\<exists>a'. spec\<^sup>*\<^sup>* a a' \<and> refines x a'" for x y
      using that simulated [OF that(1,2)] by (metis rtranclp.rtrancl_into_rtrancl)
  qed
  then show ?thesis by blast
qed

end

end
