(* ===== verification/Execution_Store.thy ===== *)
theory Execution_Store
  imports Execution_Lifecycle Store_Contracts
begin

text \<open>
  The execution store of testutil (execution\_store.go, execution\_rollover.go,
  execution\_retention.go), the conformance implementation of the interface
  \<open>ExecutionStore\<close>: leases with fencing incarnations, commits under optimistic
  concurrency, retained history, atomic rollover and pruning. The bytes under a
  revision are modelled by the envelope they encode; \<open>enc\<close> is \<open>json.Marshal\<close>, a
  context is the error that \<open>ctx.Err()\<close> returns, and the readings of the clock
  are arguments. Every operation runs under the mutex of the store, so a
  concurrent execution is a sequence of operations of all its workers.
\<close>

section \<open>State\<close>

record MemoryExecutionStore =
  mes_history :: "(string, (uint64, ExecutionEnvelope) gomap) gomap"
  mes_heads :: "(string, uint64) gomap"
  mes_leases :: "(string, ExecutionLease) gomap"
  mes_fences :: "(string, uint64) gomap"
  mes_lineage :: "(string, ForkLineage) gomap"
  mes_incoming :: "(string, RolloverReceipt) gomap"
  mes_outgoing :: "(string, RolloverReceipt) gomap"

definition NewMemoryExecutionStore :: MemoryExecutionStore where
  "NewMemoryExecutionStore = \<lparr>mes_history = [], mes_heads = [], mes_leases = [], mes_fences = [], mes_lineage = [],
     mes_incoming = [], mes_outgoing = []\<rparr>"

text \<open>Reading an absent key of a Go map gives the zero value.\<close>

abbreviation orZero :: "uint64 option \<Rightarrow> uint64" where
  "orZero v \<equiv> (case v of None \<Rightarrow> 0 | Some w \<Rightarrow> w)"

definition headOf :: "MemoryExecutionStore \<Rightarrow> string \<Rightarrow> uint64" where
  "headOf s k = orZero (lookup (mes_heads s) k)"

definition fenceOf :: "MemoryExecutionStore \<Rightarrow> string \<Rightarrow> uint64" where
  "fenceOf s k = orZero (lookup (mes_fences s) k)"

definition itemsOf :: "MemoryExecutionStore \<Rightarrow> string \<Rightarrow> (uint64, ExecutionEnvelope) gomap" where
  "itemsOf s k = (case lookup (mes_history s) k of None \<Rightarrow> [] | Some items \<Rightarrow> items)"

definition entryOf :: "MemoryExecutionStore \<Rightarrow> string \<Rightarrow> uint64 \<Rightarrow> ExecutionEnvelope option" where
  "entryOf s k r = lookup (itemsOf s k) r"

definition leaseOf :: "MemoryExecutionStore \<Rightarrow> string \<Rightarrow> ExecutionLease" where
  "leaseOf s k = (case lookup (mes_leases s) k of
     None \<Rightarrow> \<lparr>lse_ExecutionID = '''', lse_Owner = '''', lse_Incarnation = 0, lse_ExpiresAt = 0\<rparr> | Some l \<Rightarrow> l)"

definition held :: "MemoryExecutionStore \<Rightarrow> gotime \<Rightarrow> ExecutionLease \<Rightarrow> bool" where
  "held s now lease \<longleftrightarrow> (let current = leaseOf s (lse_ExecutionID lease) in
     lse_Incarnation lease \<noteq> 0 \<and> lse_Owner current = lse_Owner lease \<and> lse_Incarnation current = lse_Incarnation lease
     \<and> lse_ExpiresAt current > now)"

section \<open>Loading\<close>

text \<open>
  The bytes under a revision are given by the envelope that \<open>json.Marshal\<close> wrote
  there. \<open>json.Unmarshal\<close> reads it back if all its texts are valid. Otherwise it
  reads other texts, whose encoding differs from the stored one, and the digest
  in the envelope is not the digest of that encoding (two encodings of this kind
  with one SHA-256 are left out of account): the integrity check reports corruption.
\<close>

definition decodeExecution :: "sha256 \<Rightarrow> env_codec \<Rightarrow> ExecutionEnvelope \<Rightarrow> string \<Rightarrow> uint64 \<Rightarrow> ExecutionEnvelope res" where
  "decodeExecution sha enc data k revision =
    (if \<not> jsonStable data then Err ErrExecutionCorrupt
     else check (ValidateExecutionIntegrity sha enc data k revision) (Ok data))"

definition decodeAnchoredExecution ::
    "sha256 \<Rightarrow> env_codec \<Rightarrow> MemoryExecutionStore \<Rightarrow> ExecutionEnvelope option \<Rightarrow> string \<Rightarrow> uint64 \<Rightarrow> ExecutionEnvelope res" where
  "decodeAnchoredExecution sha enc s data k revision =
    (case data of
       None \<Rightarrow> Err ErrExecutionCheckpointUnavailable
     | Some bytes \<Rightarrow>
         res_bind (decodeExecution sha enc bytes k revision) (\<lambda>envelope.
           check (ValidateExecutionForkAnchor envelope (lookup (mes_lineage s) k))
             (check (ValidateExecutionLifecycleAnchors sha envelope (lookup (mes_incoming s) k) (lookup (mes_outgoing s) k))
               (Ok envelope))))"

definition LoadExecution :: "sha256 \<Rightarrow> env_codec \<Rightarrow> err option \<Rightarrow> string \<Rightarrow> MemoryExecutionStore \<Rightarrow> ExecutionEnvelope res" where
  "LoadExecution sha enc ctx k s = check ctx
    (if headOf s k = 0 then Err ErrThreadNotFound
     else decodeAnchoredExecution sha enc s (entryOf s k (headOf s k)) k (headOf s k))"

definition LoadCheckpoint ::
    "sha256 \<Rightarrow> env_codec \<Rightarrow> err option \<Rightarrow> string \<Rightarrow> uint64 \<Rightarrow> MemoryExecutionStore \<Rightarrow> ExecutionEnvelope res" where
  "LoadCheckpoint sha enc ctx k revision s =
    (if revision = 0 then Err ErrInvalidSnapshot
     else check ctx
       (if revision > headOf s k then Err ErrThreadNotFound
        else decodeAnchoredExecution sha enc s (entryOf s k revision) k revision))"

definition LoadRollover :: "sha256 \<Rightarrow> err option \<Rightarrow> string \<Rightarrow> MemoryExecutionStore \<Rightarrow> RolloverReceipt option res" where
  "LoadRollover sha ctx k s = check ctx
    (case lookup (mes_outgoing s) k of
       None \<Rightarrow> Ok None
     | Some receipt \<Rightarrow> check (RolloverReceipt_Validate sha receipt) (Ok (Some receipt)))"

section \<open>Committing\<close>

text \<open>An operation returns its result and the next state of the store.\<close>

type_synonym 'a op = "MemoryExecutionStore \<Rightarrow> 'a res \<times> MemoryExecutionStore"

definition writes :: "('a \<times> MemoryExecutionStore) res \<Rightarrow> 'a op" where
  "writes r s = (case r of Inl e \<Rightarrow> (Inl e, s) | Inr (x, s') \<Rightarrow> (Inr x, s'))"

definition storeEnvelope :: "ExecutionEnvelope \<Rightarrow> bool \<Rightarrow> MemoryExecutionStore \<Rightarrow> MemoryExecutionStore" where
  "storeEnvelope e creates s = s\<lparr>mes_history := put (env_ExecutionID e) (put (env_Revision e) e (itemsOf s (env_ExecutionID e))) (mes_history s),
     mes_heads := put (env_ExecutionID e) (env_Revision e) (mes_heads s),
     mes_lineage := (case env_Fork e of
        None \<Rightarrow> mes_lineage s
      | Some f \<Rightarrow> if creates then put (env_ExecutionID e) f (mes_lineage s) else mes_lineage s)\<rparr>"

definition CommitExecution ::
    "sha256 \<Rightarrow> env_codec \<Rightarrow> err option \<Rightarrow> gotime \<Rightarrow> uint64 \<Rightarrow> ExecutionLease \<Rightarrow> ExecutionEnvelope \<Rightarrow> ExecutionEnvelope op" where
  "CommitExecution sha enc ctx now expected lease e s = writes
    (if expected = - 1 then Err ErrExecutionCapability
     else check ctx
       (if \<not> held s now lease \<or> env_ExecutionID e \<noteq> lse_ExecutionID lease then Err ErrLeaseLost
        else check (ExecutionDescriptor_Validate (env_Descriptor e))
          (if env_Pointer e = '''' then Err ErrInvalidSnapshot
           else if headOf s (env_ExecutionID e) \<noteq> expected then Err ErrConcurrencyConflict
           else res_bind (if expected > 0
                 then res_bind (decodeAnchoredExecution sha enc s (entryOf s (env_ExecutionID e) expected) (env_ExecutionID e) expected)
                   (\<lambda>stored. Ok (Some stored))
                 else Ok None) (\<lambda>previous.
             check (ValidateExecutionRolloverTransition previous e)
               (check (ValidateExecutionForkTransition previous e)
                 (res_bind (SealExecutionEnvelope sha enc (e\<lparr>env_Revision := expected + 1\<rparr>)) (\<lambda>sealed.
                  res_bind (enc sealed) (\<lambda>_.
                  res_bind (decodeExecution sha enc sealed (env_ExecutionID sealed) (env_Revision sealed)) (\<lambda>result.
                    Ok (result, storeEnvelope result (expected = 0) s)))))))))) s"

definition CommitRollover ::
    "sha256 \<Rightarrow> env_codec \<Rightarrow> err option \<Rightarrow> gotime \<Rightarrow> ExecutionLease \<Rightarrow> HistoricalCheckpointReference \<Rightarrow> ExecutionEnvelope \<Rightarrow> RolloverReceipt op" where
  "CommitRollover sha enc ctx now lease source target s = writes
    (check ctx
      (if \<not> held s now lease \<or> lse_ExecutionID lease \<noteq> hcr_ExecutionID source then Err ErrLeaseLost
       else if lookup (mes_outgoing s) (hcr_ExecutionID source) \<noteq> None then Err ErrExecutionRolloverConflict
       else if headOf s (hcr_ExecutionID source) \<noteq> hcr_Revision source then Err ErrConcurrencyConflict
       else if hcr_Revision source = 0 then Err ErrThreadNotFound
       else res_bind (decodeAnchoredExecution sha enc s (entryOf s (hcr_ExecutionID source) (hcr_Revision source))
              (hcr_ExecutionID source) (hcr_Revision source)) (\<lambda>current.
         if env_Digest current \<noteq> hcr_Digest source then Err ErrExecutionRolloverConflict
         else if headOf s (env_ExecutionID target) \<noteq> 0 \<or> fenceOf s (env_ExecutionID target) \<noteq> 0 then Err ErrExecutionRolloverConflict
         else res_bind (PrepareExecutionRolloverPublication sha enc current target lease) (\<lambda>(transferred, created, receipt).
           res_bind (enc transferred) (\<lambda>_. res_bind (enc created) (\<lambda>_.
             Ok (receipt,
               s\<lparr>mes_history := put (env_ExecutionID created) [(1, created)]
                   (put (hcr_ExecutionID source) (put (env_Revision transferred) transferred (itemsOf s (hcr_ExecutionID source))) (mes_history s)),
                 mes_heads := put (env_ExecutionID created) 1 (put (hcr_ExecutionID source) (env_Revision transferred) (mes_heads s)),
                 mes_outgoing := put (hcr_ExecutionID source) receipt (mes_outgoing s),
                 mes_incoming := put (env_ExecutionID created) receipt (mes_incoming s)\<rparr>))))))) s"

section \<open>Leases\<close>

text \<open>\<open>now\<close> is the reading of the clock for the check and \<open>later\<close> the one for the expiry.\<close>

definition AcquireExecution :: "err option \<Rightarrow> gotime \<Rightarrow> gotime \<Rightarrow> string \<Rightarrow> string \<Rightarrow> duration \<Rightarrow> ExecutionLease op" where
  "AcquireExecution ctx now later k owner ttl s = writes
    (check ctx
      (if k = '''' \<or> owner = '''' \<or> ttl \<le> 0 then Inl (Plain ''flowy: invalid lease acquisition'')
       else if lse_ExpiresAt (leaseOf s k) > now then
         (if lse_Owner (leaseOf s k) = owner then Err ErrThreadLeaseBusy else Err ErrLeaseHeld)
       else if fenceOf s k = - 1 then Err ErrExecutionCapability
       else
         let lease = \<lparr>lse_ExecutionID = k, lse_Owner = owner, lse_Incarnation = fenceOf s k + 1, lse_ExpiresAt = later + ttl\<rparr>
         in Ok (lease, s\<lparr>mes_fences := put k (fenceOf s k + 1) (mes_fences s), mes_leases := put k lease (mes_leases s)\<rparr>))) s"

definition RenewExecution :: "err option \<Rightarrow> gotime \<Rightarrow> gotime \<Rightarrow> ExecutionLease \<Rightarrow> duration \<Rightarrow> ExecutionLease op" where
  "RenewExecution ctx now later lease ttl s = writes
    (check ctx
      (if ttl \<le> 0 then Inl (Plain ''flowy: invalid lease renewal'')
       else if \<not> held s now lease then Err ErrLeaseLost
       else
         let renewed = lease\<lparr>lse_ExpiresAt := later + ttl\<rparr>
         in Ok (renewed, s\<lparr>mes_leases := put (lse_ExecutionID lease) renewed (mes_leases s)\<rparr>))) s"

definition ReleaseExecution :: "err option \<Rightarrow> ExecutionLease \<Rightarrow> unit op" where
  "ReleaseExecution ctx lease s = writes
    (check ctx
      (case lookup (mes_leases s) (lse_ExecutionID lease) of
         None \<Rightarrow>
           if fenceOf s (lse_ExecutionID lease) = lse_Incarnation lease \<and> lse_Incarnation lease \<noteq> 0 then Ok ((), s) else Err ErrLeaseLost
       | Some current \<Rightarrow>
           if lse_Owner current \<noteq> lse_Owner lease \<or> lse_Incarnation current \<noteq> lse_Incarnation lease then Err ErrLeaseLost
           else Ok ((), s\<lparr>mes_leases := AList.delete (lse_ExecutionID lease) (mes_leases s)\<rparr>))) s"

section \<open>Retention\<close>

record ExecutionRetentionReceipt =
  rtc_ExecutionID :: string
  rtc_Revision :: uint64
  rtc_DeletedRevisions :: int
  rtc_DeletedBytes :: int

definition validateRetentionProtected :: "sha256 \<Rightarrow> env_codec \<Rightarrow> MemoryExecutionStore \<Rightarrow> ExecutionRetentionRequest \<Rightarrow> err option" where
  "validateRetentionProtected sha enc s request = firstErr (\<lambda>revision.
     if entryOf s (rtr_ExecutionID request) revision = None then Some (Sent ErrExecutionCheckpointUnavailable)
     else errOf (decodeAnchoredExecution sha enc s (entryOf s (rtr_ExecutionID request) revision) (rtr_ExecutionID request) revision))
     (rtp_ProtectedRevisions (rtr_Policy request))"

text \<open>The number of bytes under a revision.\<close>

definition encodedSize :: "env_codec \<Rightarrow> ExecutionEnvelope \<Rightarrow> int" where
  "encodedSize enc e = (case enc e of Inl _ \<Rightarrow> 0 | Inr data \<Rightarrow> int (length data))"

definition RetainExecution :: "sha256 \<Rightarrow> env_codec \<Rightarrow> err option \<Rightarrow> gotime \<Rightarrow> ExecutionRetentionRequest \<Rightarrow> ExecutionRetentionReceipt op" where
  "RetainExecution sha enc ctx now request s = writes
    (let k = rtr_ExecutionID request; items = itemsOf s k;
         receipt = \<lparr>rtc_ExecutionID = k, rtc_Revision = rtr_Revision request, rtc_DeletedRevisions = 0, rtc_DeletedBytes = 0\<rparr> in
     check ctx (check (ExecutionRetentionRequest_Validate request)
      (if lse_ExpiresAt (leaseOf s k) > now then Err ErrThreadLeaseBusy
       else if headOf s k = 0 then Err ErrThreadNotFound
       else if headOf s k \<noteq> rtr_Revision request then Err ErrConcurrencyConflict
       else if entryOf s k (rtr_Revision request) = None then
         (if rtp_DeletePayload (rtr_Policy request) then Ok (receipt, s) else Err ErrExecutionCheckpointUnavailable)
       else res_bind (decodeAnchoredExecution sha enc s (entryOf s k (rtr_Revision request)) k (rtr_Revision request)) (\<lambda>source.
         check (ValidateExecutionLifecycleBoundary sha enc source)
           (if rtp_DeletePayload (rtr_Policy request) \<and> env_Terminal source = None then Err ErrExecutionLifecycleUnsafe
            else check (validateRetentionProtected sha enc s request)
              (let deleted = filter (\<lambda>(r, _). \<not> ExecutionRevisionRetained request r) items in
               Ok (receipt\<lparr>rtc_DeletedRevisions := int (length deleted),
                     rtc_DeletedBytes := sum_list (map (encodedSize enc \<circ> snd) deleted)\<rparr>,
                   s\<lparr>mes_history := put k (filter (\<lambda>(r, _). ExecutionRevisionRetained request r) items) (mes_history s)\<rparr>))))))) s"

section \<open>Inversion of the operations\<close>

lemma writes_Ok_iff [res_simps]: "writes r s = (Inr x, s') \<longleftrightarrow> r = Inr (x, s')"
  by (auto simp: writes_def split: sum.splits)

lemma writes_error: "writes r s = (Inl e, s') \<Longrightarrow> s' = s"
  by (auto simp: writes_def split: sum.splits)

lemma decodeExecution_Ok_iff [res_simps]:
  "decodeExecution sha enc data k r = Ok e \<longleftrightarrow> data = e \<and> jsonStable e \<and> ValidateExecutionIntegrity sha enc e k r = None"
  by (auto simp: decodeExecution_def res_simps)

definition anchored :: "sha256 \<Rightarrow> MemoryExecutionStore \<Rightarrow> string \<Rightarrow> ExecutionEnvelope \<Rightarrow> bool" where
  "anchored sha s k e \<longleftrightarrow> ValidateExecutionForkAnchor e (lookup (mes_lineage s) k) = None
    \<and> ValidateExecutionLifecycleAnchors sha e (lookup (mes_incoming s) k) (lookup (mes_outgoing s) k) = None"

lemma decodeAnchored_Ok_iff [res_simps]:
  "decodeAnchoredExecution sha enc s data k r = Ok e \<longleftrightarrow>
    data = Some e \<and> jsonStable e \<and> ValidateExecutionIntegrity sha enc e k r = None \<and> anchored sha s k e"
  by (auto simp: decodeAnchoredExecution_def anchored_def res_simps split: option.splits)

lemma headOf_store [simp]: "headOf (storeEnvelope e c s) k = (if k = env_ExecutionID e then env_Revision e else headOf s k)"
  by (simp add: headOf_def storeEnvelope_def)

lemma entryOf_store [simp]:
  "entryOf (storeEnvelope e c s) k r = (if k = env_ExecutionID e \<and> r = env_Revision e then Some e else entryOf s k r)"
  by (simp add: entryOf_def itemsOf_def storeEnvelope_def)

lemma frame_store [simp]:
  "fenceOf (storeEnvelope e c s) k = fenceOf s k" "mes_leases (storeEnvelope e c s) = mes_leases s"
  "mes_incoming (storeEnvelope e c s) = mes_incoming s" "mes_outgoing (storeEnvelope e c s) = mes_outgoing s"
  by (simp_all add: fenceOf_def storeEnvelope_def)

lemma lineage_store:
  "lookup (mes_lineage (storeEnvelope e c s)) k
    = (if k = env_ExecutionID e \<and> c \<and> env_Fork e \<noteq> None then env_Fork e else lookup (mes_lineage s) k)"
  by (auto simp: storeEnvelope_def split: option.split)

lemma commit_Ok:
  assumes "CommitExecution sha enc ctx now expected lease e s = (Ok result, s')"
  obtains previous where "expected \<noteq> - 1" "held s now lease" "env_ExecutionID e = lse_ExecutionID lease"
    "headOf s (env_ExecutionID e) = expected"
    "if expected = 0 then previous = None
      else \<exists>stored. previous = Some stored \<and> entryOf s (env_ExecutionID e) expected = Some stored
        \<and> ValidateExecutionIntegrity sha enc stored (env_ExecutionID e) expected = None \<and> anchored sha s (env_ExecutionID e) stored"
    "ValidateExecutionRolloverTransition previous e = None" "ValidateExecutionForkTransition previous e = None"
    "SealExecutionEnvelope sha enc (e\<lparr>env_Revision := expected + 1\<rparr>) = Ok result"
    "ValidateExecutionIntegrity sha enc result (env_ExecutionID e) (expected + 1) = None"
    "s' = storeEnvelope result (expected = 0) s" "jsonStable result"
proof -
  from assms have a: "expected \<noteq> - 1" "held s now lease" "env_ExecutionID e = lse_ExecutionID lease"
      "headOf s (env_ExecutionID e) = expected"
    unfolding CommitExecution_def res_simps by (auto simp: res_simps split: if_splits)
  from assms a obtain previous sealed where p: "(if expected > 0
        then res_bind (decodeAnchoredExecution sha enc s (entryOf s (env_ExecutionID e) expected) (env_ExecutionID e) expected)
          (\<lambda>stored. Ok (Some stored)) else Ok None) = Ok previous"
    and t: "ValidateExecutionRolloverTransition previous e = None" "ValidateExecutionForkTransition previous e = None"
    and d: "SealExecutionEnvelope sha enc (e\<lparr>env_Revision := expected + 1\<rparr>) = Ok sealed"
      "decodeExecution sha enc sealed (env_ExecutionID sealed) (env_Revision sealed) = Ok result"
      "s' = storeEnvelope result (expected = 0) s"
    unfolding CommitExecution_def writes_Ok_iff by (simp add: res_simps split: if_splits) blast+
  have r: "sealed = result" "ValidateExecutionIntegrity sha enc result (env_ExecutionID result) (env_Revision result) = None"
      "jsonStable result"
    using d(2) by (auto simp: res_simps)
  have "if expected = 0 then previous = None
      else \<exists>stored. previous = Some stored \<and> entryOf s (env_ExecutionID e) expected = Some stored
        \<and> ValidateExecutionIntegrity sha enc stored (env_ExecutionID e) expected = None \<and> anchored sha s (env_ExecutionID e) stored"
    using p by (auto simp: res_simps word_greater_zero_iff split: if_splits)
  moreover have "ValidateExecutionIntegrity sha enc result (env_ExecutionID e) (expected + 1) = None"
    using r d(1) seal_fields(1,2) [OF d(1)] by simp
  ultimately show ?thesis using that a t d(1,3) r(1,3) by blast
qed

text \<open>The state after a rollover.\<close>

definition storeRollover :: "ExecutionEnvelope \<Rightarrow> ExecutionEnvelope \<Rightarrow> RolloverReceipt \<Rightarrow> MemoryExecutionStore \<Rightarrow> MemoryExecutionStore" where
  "storeRollover transferred created receipt s =
    s\<lparr>mes_history := put (env_ExecutionID created) [(1, created)]
        (put (env_ExecutionID transferred) (put (env_Revision transferred) transferred (itemsOf s (env_ExecutionID transferred))) (mes_history s)),
      mes_heads := put (env_ExecutionID created) 1 (put (env_ExecutionID transferred) (env_Revision transferred) (mes_heads s)),
      mes_outgoing := put (env_ExecutionID transferred) receipt (mes_outgoing s),
      mes_incoming := put (env_ExecutionID created) receipt (mes_incoming s)\<rparr>"

lemma rollover_Ok:
  assumes "CommitRollover sha enc ctx now lease source target s = (Ok receipt, s')"
  obtains current transferred created where "held s now lease" "lookup (mes_outgoing s) (env_ExecutionID current) = None"
    "lse_ExecutionID lease = env_ExecutionID current"
    "headOf s (env_ExecutionID current) = env_Revision current"
    "entryOf s (env_ExecutionID current) (env_Revision current) = Some current"
    "ValidateExecutionIntegrity sha enc current (env_ExecutionID current) (env_Revision current) = None"
    "anchored sha s (env_ExecutionID current) current"
    "headOf s (env_ExecutionID target) = 0" "fenceOf s (env_ExecutionID target) = 0"
    "PrepareExecutionRolloverPublication sha enc current target lease = Ok (transferred, created, receipt)"
    "env_ExecutionID transferred = env_ExecutionID current"
    "s' = storeRollover transferred created receipt s" "jsonStable current"
proof -
  let ?k = "hcr_ExecutionID source"
  from assms obtain current transferred created where a: "held s now lease" "lse_ExecutionID lease = ?k" "lookup (mes_outgoing s) ?k = None"
      "headOf s ?k = hcr_Revision source"
    and c: "decodeAnchoredExecution sha enc s (entryOf s ?k (hcr_Revision source)) ?k (hcr_Revision source) = Ok current"
    and b: "headOf s (env_ExecutionID target) = 0" "fenceOf s (env_ExecutionID target) = 0"
    and p: "PrepareExecutionRolloverPublication sha enc current target lease = Ok (transferred, created, receipt)"
    and s': "s' = s\<lparr>mes_history := put (env_ExecutionID created) [(1, created)]
                   (put ?k (put (env_Revision transferred) transferred (itemsOf s ?k)) (mes_history s)),
                 mes_heads := put (env_ExecutionID created) 1 (put ?k (env_Revision transferred) (mes_heads s)),
                 mes_outgoing := put ?k receipt (mes_outgoing s),
                 mes_incoming := put (env_ExecutionID created) receipt (mes_incoming s)\<rparr>"
    unfolding CommitRollover_def writes_Ok_iff check_Ok_iff
    by (auto simp: res_bind_Ok_iff split: if_splits)
  from c have i: "ValidateExecutionIntegrity sha enc current ?k (hcr_Revision source) = None" "anchored sha s ?k current"
      "entryOf s ?k (hcr_Revision source) = Some current" "jsonStable current" by (simp_all add: res_simps)
  then have k: "?k = env_ExecutionID current" "hcr_Revision source = env_Revision current"
    by (auto simp: ValidateExecutionIntegrity_None_iff)
  have t: "env_ExecutionID transferred = env_ExecutionID current"
    by (simp add: seal_fields [OF publication_Ok(4) [OF p]] transferredSource_def)
  show ?thesis
    by (rule that [of current transferred created]) (use a b p i s' in \<open>simp_all add: k t storeRollover_def\<close>)
qed

lemma headOf_rollover [simp]:
  "headOf (storeRollover t c receipt s) k = (if k = env_ExecutionID c then 1 else if k = env_ExecutionID t then env_Revision t else headOf s k)"
  by (simp add: headOf_def storeRollover_def)

lemma entryOf_rollover [simp]:
  "entryOf (storeRollover t c receipt s) k r =
    (if k = env_ExecutionID c then if r = 1 then Some c else None
     else if k = env_ExecutionID t \<and> r = env_Revision t then Some t else entryOf s k r)"
  by (simp add: entryOf_def itemsOf_def storeRollover_def)

lemma frame_rollover [simp]:
  "fenceOf (storeRollover t c receipt s) k = fenceOf s k" "mes_leases (storeRollover t c receipt s) = mes_leases s"
  "mes_lineage (storeRollover t c receipt s) = mes_lineage s"
  "lookup (mes_incoming (storeRollover t c receipt s)) k = (if k = env_ExecutionID c then Some receipt else lookup (mes_incoming s) k)"
  "lookup (mes_outgoing (storeRollover t c receipt s)) k = (if k = env_ExecutionID t then Some receipt else lookup (mes_outgoing s) k)"
  by (simp_all add: fenceOf_def storeRollover_def)

text \<open>The state after pruning.\<close>

definition prune :: "ExecutionRetentionRequest \<Rightarrow> MemoryExecutionStore \<Rightarrow> MemoryExecutionStore" where
  "prune request s = s\<lparr>mes_history := put (rtr_ExecutionID request)
     (filter (\<lambda>(r, _). ExecutionRevisionRetained request r) (itemsOf s (rtr_ExecutionID request))) (mes_history s)\<rparr>"

lemma retain_Ok:
  assumes "RetainExecution sha enc ctx now request s = (Ok receipt, s')"
  shows "s' = s \<or> s' = prune request s" and "ExecutionRetentionRequest_Validate request = None"
    and "headOf s (rtr_ExecutionID request) = rtr_Revision request" and "lse_ExpiresAt (leaseOf s (rtr_ExecutionID request)) \<le> now"
    and "validateRetentionProtected sha enc s request = None \<or> s' = s"
  using assms unfolding RetainExecution_def Let_def writes_Ok_iff check_Ok_iff
  by (auto simp: res_simps prune_def split: if_splits)

lemma lookup_filter_key: "lookup (filter (\<lambda>(k, _). P k) m) k = (if P k then lookup m k else None)"
  by (induction m) auto

lemma entryOf_prune:
  "entryOf (prune request s) k r = (if k = rtr_ExecutionID request \<and> \<not> ExecutionRevisionRetained request r then None else entryOf s k r)"
  by (simp add: entryOf_def itemsOf_def prune_def lookup_filter_key)

lemma frame_prune [simp]:
  "headOf (prune request s) k = headOf s k" "fenceOf (prune request s) k = fenceOf s k" "mes_leases (prune request s) = mes_leases s"
  "mes_lineage (prune request s) = mes_lineage s" "mes_incoming (prune request s) = mes_incoming s" "mes_outgoing (prune request s) = mes_outgoing s"
  by (simp_all add: headOf_def fenceOf_def prune_def)

section \<open>Interleaved operations\<close>

text \<open>One operation of any worker, successful or not, at any reading of the clock.\<close>

inductive store_step :: "sha256 \<Rightarrow> env_codec \<Rightarrow> MemoryExecutionStore \<Rightarrow> MemoryExecutionStore \<Rightarrow> bool" for sha enc where
  acquire: "AcquireExecution ctx now later k owner ttl s = (result, s') \<Longrightarrow> store_step sha enc s s'"
| renew: "RenewExecution ctx now later lease ttl s = (result, s') \<Longrightarrow> store_step sha enc s s'"
| release: "ReleaseExecution ctx lease s = (result, s') \<Longrightarrow> store_step sha enc s s'"
| commit: "CommitExecution sha enc ctx now expected lease e s = (result, s') \<Longrightarrow> store_step sha enc s s'"
| rollover: "CommitRollover sha enc ctx now lease source target s = (result, s') \<Longrightarrow> store_step sha enc s s'"
| retain: "RetainExecution sha enc ctx now request s = (result, s') \<Longrightarrow> store_step sha enc s s'"

definition lease_inv :: "MemoryExecutionStore \<Rightarrow> bool" where
  "lease_inv s \<longleftrightarrow> (\<forall>k l. lookup (mes_leases s) k = Some l \<longrightarrow>
     lse_ExecutionID l = k \<and> lse_Incarnation l = fenceOf s k \<and> fenceOf s k \<noteq> 0)"

definition history_inv :: "sha256 \<Rightarrow> env_codec \<Rightarrow> MemoryExecutionStore \<Rightarrow> bool" where
  "history_inv sha enc s \<longleftrightarrow>
    (\<forall>k r e. entryOf s k r = Some e \<longrightarrow> r \<le> headOf s k \<and> ValidateExecutionIntegrity sha enc e k r = None \<and> anchored sha s k e)
    \<and> (\<forall>k. headOf s k = 0 \<longrightarrow> lookup (mes_lineage s) k = None \<and> lookup (mes_incoming s) k = None \<and> lookup (mes_outgoing s) k = None)
    \<and> (\<forall>k receipt. lookup (mes_outgoing s) k = Some receipt \<longrightarrow> headOf s k = rrc_SourceRevision receipt)
    \<and> (\<forall>k r e. entryOf s k r = Some e \<longrightarrow> jsonStable e \<or> r = 1 \<and> lookup (mes_incoming s) k \<noteq> None)"

definition store_inv :: "sha256 \<Rightarrow> env_codec \<Rightarrow> MemoryExecutionStore \<Rightarrow> bool" where
  "store_inv sha enc s \<longleftrightarrow> (\<forall>x. validActivityDigest (sha x)) \<and> lease_inv s \<and> history_inv sha enc s"

lemma new_store_inv: "\<forall>x. validActivityDigest (sha x) \<Longrightarrow> store_inv sha enc NewMemoryExecutionStore"
  by (simp add: store_inv_def lease_inv_def history_inv_def NewMemoryExecutionStore_def headOf_def entryOf_def itemsOf_def)

lemma history_cong:
  assumes "\<And>k. headOf s' k = headOf s k" "\<And>k r e. entryOf s' k r = Some e \<Longrightarrow> entryOf s k r = Some e"
    and "mes_lineage s' = mes_lineage s" "mes_incoming s' = mes_incoming s" "mes_outgoing s' = mes_outgoing s"
    and "history_inv sha enc s"
  shows "history_inv sha enc s'"
  using assms unfolding history_inv_def anchored_def by simp blast

lemma held_lease:
  assumes "held s now lease"
  shows "lookup (mes_leases s) (lse_ExecutionID lease) = Some (leaseOf s (lse_ExecutionID lease))"
    and "lse_Incarnation (leaseOf s (lse_ExecutionID lease)) = lse_Incarnation lease" and "lse_Incarnation lease \<noteq> 0"
    and "lse_Owner (leaseOf s (lse_ExecutionID lease)) = lse_Owner lease" and "now < lse_ExpiresAt (leaseOf s (lse_ExecutionID lease))"
  using assms by (auto simp: held_def leaseOf_def Let_def split: option.splits)

lemma acquire_inv:
  assumes "AcquireExecution ctx now later k owner ttl s = (Ok lease, s')" and "lease_inv s"
  shows "lease_inv s'" and "fenceOf s' j = (if j = k then fenceOf s k + 1 else fenceOf s j)" and "fenceOf s k \<noteq> - 1"
    and "lse_Incarnation lease = fenceOf s k + 1" and "lse_ExecutionID lease = k" and "lse_ExpiresAt (leaseOf s k) \<le> now"
    and "mes_history s' = mes_history s" and "mes_heads s' = mes_heads s" and "mes_lineage s' = mes_lineage s"
    and "mes_incoming s' = mes_incoming s" and "mes_outgoing s' = mes_outgoing s"
  using assms rev_succ_nonzero [of "fenceOf s k"]
  by (auto simp: AcquireExecution_def res_simps Let_def lease_inv_def fenceOf_def split: if_splits)

lemma renew_inv:
  assumes "RenewExecution ctx now later lease ttl s = (Ok renewed, s')" and "lease_inv s"
  shows "lease_inv s'" and "fenceOf s' j = fenceOf s j"
    and "mes_history s' = mes_history s" and "mes_heads s' = mes_heads s" and "mes_lineage s' = mes_lineage s"
    and "mes_incoming s' = mes_incoming s" and "mes_outgoing s' = mes_outgoing s"
proof -
  from assms(1) have h: "held s now lease" and s': "s' = s\<lparr>mes_leases := put (lse_ExecutionID lease) (lease\<lparr>lse_ExpiresAt := later + ttl\<rparr>) (mes_leases s)\<rparr>"
    by (auto simp: RenewExecution_def res_simps Let_def split: if_splits)
  show "lease_inv s'" using assms(2) held_lease [OF h] unfolding s' lease_inv_def by (auto simp: fenceOf_def)
qed (use assms(1) in \<open>auto simp: RenewExecution_def res_simps Let_def fenceOf_def split: if_splits\<close>)

lemma release_inv:
  assumes "ReleaseExecution ctx lease s = (Ok u, s')" and "lease_inv s"
  shows "lease_inv s'" and "fenceOf s' j = fenceOf s j"
    and "mes_history s' = mes_history s" and "mes_heads s' = mes_heads s" and "mes_lineage s' = mes_lineage s"
    and "mes_incoming s' = mes_incoming s" and "mes_outgoing s' = mes_outgoing s"
proof -
  from assms(1) have s': "s' = s \<or> s' = s\<lparr>mes_leases := AList.delete (lse_ExecutionID lease) (mes_leases s)\<rparr>"
    by (auto simp: ReleaseExecution_def res_simps split: if_splits option.splits)
  then show "lease_inv s'" using assms(2) by (auto simp: lease_inv_def fenceOf_def delete_conv' split: if_splits)
  from s' show "fenceOf s' j = fenceOf s j" and "mes_history s' = mes_history s" and "mes_heads s' = mes_heads s"
    and "mes_lineage s' = mes_lineage s" and "mes_incoming s' = mes_incoming s" and "mes_outgoing s' = mes_outgoing s"
    by (auto simp: fenceOf_def)
qed

lemma leases_only_history:
  assumes "mes_history s' = mes_history s" and "mes_heads s' = mes_heads s" and "mes_lineage s' = mes_lineage s"
    and "mes_incoming s' = mes_incoming s" and "mes_outgoing s' = mes_outgoing s"
  shows "headOf s' = headOf s" and "entryOf s' = entryOf s" and "history_inv sha enc s \<Longrightarrow> history_inv sha enc s'"
proof -
  show h: "headOf s' = headOf s" and e: "entryOf s' = entryOf s"
    using assms by (auto simp: headOf_def entryOf_def itemsOf_def fun_eq_iff)
  show "history_inv sha enc s \<Longrightarrow> history_inv sha enc s'"
    by (rule history_cong [of s' s]) (simp_all add: h e assms)
qed

section \<open>Writes keep the history valid\<close>

lemma history_invD:
  assumes "history_inv sha enc s"
  shows "entryOf s k r = Some e \<Longrightarrow> r \<le> headOf s k \<and> ValidateExecutionIntegrity sha enc e k r = None \<and> anchored sha s k e"
    and "headOf s k = 0 \<Longrightarrow> lookup (mes_lineage s) k = None \<and> lookup (mes_incoming s) k = None \<and> lookup (mes_outgoing s) k = None"
    and "lookup (mes_outgoing s) k = Some receipt \<Longrightarrow> headOf s k = rrc_SourceRevision receipt"
    and "entryOf s k r = Some e \<Longrightarrow> jsonStable e \<or> r = 1 \<and> lookup (mes_incoming s) k \<noteq> None"
  using assms unfolding history_inv_def by blast+

lemma history_invI:
  assumes "\<And>k r e. entryOf s k r = Some e \<Longrightarrow> r \<le> headOf s k \<and> ValidateExecutionIntegrity sha enc e k r = None \<and> anchored sha s k e"
    and "\<And>k. headOf s k = 0 \<Longrightarrow> lookup (mes_lineage s) k = None \<and> lookup (mes_incoming s) k = None \<and> lookup (mes_outgoing s) k = None"
    and "\<And>k receipt. lookup (mes_outgoing s) k = Some receipt \<Longrightarrow> headOf s k = rrc_SourceRevision receipt"
    and "\<And>k r e. entryOf s k r = Some e \<Longrightarrow> jsonStable e \<or> r = 1 \<and> lookup (mes_incoming s) k \<noteq> None"
  shows "history_inv sha enc s"
  using assms unfolding history_inv_def by blast

lemma no_entry_without_head:
  assumes "history_inv sha enc s" and "headOf s k = 0"
  shows "entryOf s k r = None"
proof (cases "entryOf s k r")
  case (Some e)
  from history_invD(1) [OF assms(1) Some] assms(2) show ?thesis by (auto simp: ValidateExecutionIntegrity_None_iff)
qed

lemma transferred_head:
  assumes "history_inv sha enc s" and "entryOf s k (headOf s k) = Some e" and "lookup (mes_outgoing s) k = Some receipt"
  shows "env_Transfer e = Some receipt"
proof -
  from assms have "ValidateExecutionIntegrity sha enc e k (headOf s k) = None" and a: "anchored sha s k e"
    and "headOf s k = rrc_SourceRevision receipt"
    using history_invD(1) [OF assms(1,2)] history_invD(3) [OF assms(1,3)] by simp_all
  then have "env_Revision e = rrc_SourceRevision receipt" by (simp add: ValidateExecutionIntegrity_None_iff)
  with a assms(3) show ?thesis
    by (auto simp: anchored_def ValidateExecutionLifecycleAnchors_def split: if_splits option.splits)
qed

lemma first_commit_anchored:
  assumes "history_inv sha enc s" and "headOf s (env_ExecutionID e) = 0"
    and "ValidateExecutionRolloverTransition None e = None" and "ValidateExecutionForkTransition None e = None"
    and "SealExecutionEnvelope sha enc (e\<lparr>env_Revision := 1\<rparr>) = Ok result"
  shows "anchored sha (storeEnvelope result True s) (env_ExecutionID e) result"
    and "lookup (mes_outgoing s) (env_ExecutionID e) = None"
proof -
  from assms(1,2) have n: "lookup (mes_lineage s) (env_ExecutionID e) = None" "lookup (mes_incoming s) (env_ExecutionID e) = None"
      "lookup (mes_outgoing s) (env_ExecutionID e) = None"
    using history_invD(2) [OF assms(1,2)] by simp_all
  then show "lookup (mes_outgoing s) (env_ExecutionID e) = None" by simp
  note f = seal_fields [OF assms(5), simplified]
  have "lookup (mes_lineage (storeEnvelope result True s)) (env_ExecutionID e) = env_Fork result"
    by (simp add: lineage_store f n)
  then show "anchored sha (storeEnvelope result True s) (env_ExecutionID e) result"
    using assms(3,4) n
    by (auto simp: anchored_def ForkAnchor_None_iff ForkTransition_None_iff ValidateExecutionRolloverTransition_def
        ValidateExecutionLifecycleAnchors_def f split: if_splits)
qed

lemma next_commit_anchored:
  assumes "history_inv sha enc s" and "headOf s (env_ExecutionID e) = expected" and "expected \<noteq> 0" "expected \<noteq> - 1"
    and "entryOf s (env_ExecutionID e) expected = Some stored" and "anchored sha s (env_ExecutionID e) stored"
    and "ValidateExecutionRolloverTransition (Some stored) e = None" and "ValidateExecutionForkTransition (Some stored) e = None"
    and "SealExecutionEnvelope sha enc (e\<lparr>env_Revision := expected + 1\<rparr>) = Ok result"
  shows "anchored sha s (env_ExecutionID e) result" and "lookup (mes_outgoing s) (env_ExecutionID e) = None"
proof -
  note f = seal_fields [OF assms(9), simplified]
  from assms(7) have t: "env_Transfer stored = None" "env_Rollover stored = env_Rollover e" "env_Transfer e = None"
    by (auto simp: ValidateExecutionRolloverTransition_def split: if_splits)
  show out: "lookup (mes_outgoing s) (env_ExecutionID e) = None"
    using transferred_head [OF assms(1), of "env_ExecutionID e" stored] assms(2,5) t(1)
    by (cases "lookup (mes_outgoing s) (env_ExecutionID e)") auto
  have later: "env_Revision result \<noteq> 1" using assms(3) f(2) by simp
  have one: "hcr_Revision (rrc_Target i) = 1" if "RolloverReceipt_Validate sha i = None" for i
    using that by (simp add: RolloverReceipt_Validate_def split: if_splits)
  from assms(8) have fork: "env_Fork stored = env_Fork e" "env_ExecutionID stored = env_ExecutionID e" by (simp_all add: ForkTransition_None_iff)
  show "anchored sha s (env_ExecutionID e) result"
    using assms(6) t fork later one unfolding anchored_def ForkAnchor_None_iff out
    by (auto simp: ValidateExecutionLifecycleAnchors_def f split: if_splits option.splits)
qed

lemma commit_history:
  assumes "CommitExecution sha enc ctx now expected lease e s = (Ok result, s')" and i: "history_inv sha enc s"
  shows "history_inv sha enc s'"
proof -
  obtain previous where c: "expected \<noteq> - 1" "headOf s (env_ExecutionID e) = expected"
    and p: "if expected = 0 then previous = None
      else \<exists>stored. previous = Some stored \<and> entryOf s (env_ExecutionID e) expected = Some stored
        \<and> ValidateExecutionIntegrity sha enc stored (env_ExecutionID e) expected = None \<and> anchored sha s (env_ExecutionID e) stored"
    and t: "ValidateExecutionRolloverTransition previous e = None" "ValidateExecutionForkTransition previous e = None"
    and r: "SealExecutionEnvelope sha enc (e\<lparr>env_Revision := expected + 1\<rparr>) = Ok result"
      "ValidateExecutionIntegrity sha enc result (env_ExecutionID e) (expected + 1) = None"
    and s': "s' = storeEnvelope result (expected = 0) s" and stable: "jsonStable result"
    using commit_Ok [OF assms(1)] by metis
  note f = seal_fields [OF r(1), simplified]
  have new: "anchored sha s' (env_ExecutionID e) result \<and> lookup (mes_outgoing s) (env_ExecutionID e) = None"
  proof (cases "expected = 0")
    case True
    then show ?thesis using first_commit_anchored [OF i _ _ _ r(1) [unfolded True, simplified]] c p t unfolding s' by simp
  next
    case False
    then obtain stored where st: "previous = Some stored" "entryOf s (env_ExecutionID e) expected = Some stored" "anchored sha s (env_ExecutionID e) stored"
      using p by auto
    note n = next_commit_anchored [OF i c(2) False c(1) st(2,3) t [unfolded st(1)] r(1)]
    from n(1) have "anchored sha s' (env_ExecutionID e) result"
      unfolding anchored_def s' using False by (simp add: lineage_store)
    with n(2) show ?thesis by simp
  qed
  have old: "anchored sha s' k x" if "anchored sha s k x" "entryOf s k q = Some x" for k q x
  proof -
    have "expected = 0 \<Longrightarrow> k \<noteq> env_ExecutionID e" using no_entry_without_head [OF i] c(2) that(2) by fastforce
    with that(1) show ?thesis unfolding anchored_def s' by (auto simp: lineage_store f)
  qed
  have up: "q \<le> expected + 1" if "q \<le> expected" for q using that rev_succ [OF c(1), of q] by (simp add: less_imp_le)
  show ?thesis
  proof (rule history_invI)
    fix k q x
    assume x: "entryOf s' k q = Some x"
    show "q \<le> headOf s' k \<and> ValidateExecutionIntegrity sha enc x k q = None \<and> anchored sha s' k x"
    proof (cases "k = env_ExecutionID e \<and> q = expected + 1")
      case True
      then have "x = result" using x by (simp add: s' f)
      then show ?thesis using True new r(2) by (simp add: s' f)
    next
      case False
      then have o: "entryOf s k q = Some x" using x by (auto simp: s' f split: if_splits)
      from history_invD(1) [OF i o] old [OF _ o] up c(2) show ?thesis by (auto simp: s' f)
    qed
  next
    fix k assume "headOf s' k = 0"
    then have "k \<noteq> env_ExecutionID e" and "headOf s k = 0" using rev_succ_nonzero [OF c(1)] by (auto simp: s' f split: if_splits)
    with history_invD(2) [OF i] show "lookup (mes_lineage s') k = None \<and> lookup (mes_incoming s') k = None \<and> lookup (mes_outgoing s') k = None"
      by (simp add: s' lineage_store f)
  next
    fix k receipt assume "lookup (mes_outgoing s') k = Some receipt"
    then have "lookup (mes_outgoing s) k = Some receipt" and "k \<noteq> env_ExecutionID e" using new by (auto simp: s')
    with history_invD(3) [OF i] show "headOf s' k = rrc_SourceRevision receipt" by (simp add: s' f)
  next
    fix k q x assume "entryOf s' k q = Some x"
    then show "jsonStable x \<or> q = 1 \<and> lookup (mes_incoming s') k \<noteq> None"
      using history_invD(4) [OF i, of k q x] stable by (auto simp: s' split: if_splits)
  qed
qed

text \<open>What is added to a transferred source is validated text.\<close>

lemma digest_text: "validActivityDigest d \<Longrightarrow> ValidString d"
  unfolding digest_iff by (intro ValidString_ascii) (auto simp: list_all_iff lower_hex_def in_range_def)

lemma descriptor_text: "ExecutionDescriptor_Validate d = None \<Longrightarrow> validRuntimeText (descriptorText d)"
  by (auto simp: ExecutionDescriptor_Validate_def descriptorText_def ValidString_ascii byte_def split: if_splits)

lemma reference_text: "HistoricalCheckpointReference_Validate r = None \<Longrightarrow> validRuntimeText (referenceText r)"
  by (auto simp: HistoricalCheckpointReference_Validate_def referenceText_def digest_text split: if_splits)

lemma receipt_text: "RolloverReceipt_Validate sha r = None \<Longrightarrow> validRuntimeText (receiptText r)"
  by (auto simp: RolloverReceipt_Validate_def RolloverLineage_Validate_def RolloverPolicy_Validate_def receiptText_def lineageText_def
      descriptor_text reference_text digest_text split: if_splits)

lemma transferred_stable:
  assumes p: "PrepareExecutionRolloverPublication sha enc current target lease = Ok (transferred, created, receipt)"
    and sha: "\<forall>x. validActivityDigest (sha x)" and stable: "jsonStable current"
  shows "jsonStable transferred"
proof -
  note seal = seal_digest [OF publication_Ok(4) [OF p] sha]
  have "ValidString ''transferred''" "ValidString ''rollover''" by (simp_all add: byte_def)
  then have "jsonStable ((transferredSource current receipt)\<lparr>env_Digest := d\<rparr>)" if "ValidString d" for d
    using stable that receipt_text [OF publication_receipt_valid [OF p sha]]
    by (simp add: jsonStable_def envelopeText_def transferredSource_def terminalText_def del: ValidString.simps)
  from this [OF digest_text [OF seal(2)]] show ?thesis unfolding seal(1) [symmetric] .
qed

lemma created_stable:
  assumes p: "PrepareExecutionRolloverPublication sha enc current target lease = Ok (transferred, created, receipt)"
    and sha: "\<forall>x. validActivityDigest (sha x)"
  shows "jsonStable created \<longleftrightarrow> jsonStable target"
proof -
  note o = publication_Ok [OF p] and seal = seal_digest [OF publication_Ok(3) [OF p] sha]
  have "env_Digest target = ''''" using o(2) by (auto simp: validateRolloverTarget_def split: option.splits if_splits)
  then have "jsonStable (target\<lparr>env_Revision := 1, env_Digest := d\<rparr>) \<longleftrightarrow> jsonStable target" if "ValidString d" for d
    using that by (simp add: jsonStable_def envelopeText_def)
  from this [OF digest_text [OF seal(2)]] show ?thesis unfolding seal(1) [symmetric] .
qed

text \<open>Older checkpoints of a transferred source stay historical.\<close>

lemma old_source_anchored:
  assumes p: "PrepareExecutionRolloverPublication sha enc current target lease = Ok (transferred, created, receipt)"
    and sha: "\<forall>x. validActivityDigest (sha x)"
    and a: "ValidateExecutionLifecycleAnchors sha e incoming None = None"
    and e: "env_ExecutionID e = env_ExecutionID current" "env_Revision e \<le> env_Revision current"
      "env_Revision e = env_Revision current \<Longrightarrow> e = current"
  shows "ValidateExecutionLifecycleAnchors sha e incoming (Some receipt) = None"
proof -
  note o = publication_Ok [OF p] and r = publication_receipt_valid [OF p sha]
  obtain l where l: "env_Rollover target = Some l" "hcr_ExecutionID (rll_Source l) = env_ExecutionID current"
      "hcr_Revision (rll_Source l) = env_Revision current" "hcr_Digest (rll_Source l) = env_Digest current"
    by (rule rolloverTarget_None [OF o(2)])
  have x: "rrc_SourceRevision receipt = env_Revision current + 1" "rrc_Lineage receipt = l" using l by (simp_all add: o(5))
  have "env_Revision e < env_Revision current + 1" using e(2) rev_succ [OF rolloverSource_None(3) [OF o(1)]] by simp
  moreover have "env_Transfer e = None" using a by (auto simp: ValidateExecutionLifecycleAnchors_def split: if_splits)
  moreover have "env_Revision e = env_Revision current \<Longrightarrow> env_Digest e = env_Digest current" using e(3) by simp
  ultimately show ?thesis
    using a r l e(1) x by (auto simp: ValidateExecutionLifecycleAnchors_def split: if_splits)
qed

lemma rollover_history:
  assumes "CommitRollover sha enc ctx now lease source target s = (Ok receipt, s')" and i: "history_inv sha enc s"
    and sha: "\<forall>x. validActivityDigest (sha x)"
  shows "history_inv sha enc s'"
proof -
  obtain current transferred created where c: "lookup (mes_outgoing s) (env_ExecutionID current) = None"
      "headOf s (env_ExecutionID current) = env_Revision current"
      "entryOf s (env_ExecutionID current) (env_Revision current) = Some current"
      "ValidateExecutionIntegrity sha enc current (env_ExecutionID current) (env_Revision current) = None"
      "anchored sha s (env_ExecutionID current) current"
    and tgt: "headOf s (env_ExecutionID target) = 0"
    and p: "PrepareExecutionRolloverPublication sha enc current target lease = Ok (transferred, created, receipt)"
    and t: "env_ExecutionID transferred = env_ExecutionID current"
    and s': "s' = storeRollover transferred created receipt s" and stable: "jsonStable current"
    using rollover_Ok [OF assms(1)] by metis
  note o = publication_Ok [OF p] and src = rolloverSource_None [OF publication_Ok(1) [OF p]]
  obtain l where l: "RolloverLineage_Validate sha l = None" "rll_TargetID l = env_ExecutionID target"
      "hcr_ExecutionID (rll_Source l) = env_ExecutionID current" "env_Fork target = None" "env_Rollover target = Some l"
    by (rule rolloverTarget_None [OF o(2)])
  have id: "env_ExecutionID created = env_ExecutionID target" "env_Revision created = 1" "env_Fork created = None"
      "env_Revision transferred = env_Revision current + 1" "env_Fork transferred = None"
    using l src(1) by (simp_all add: seal_fields [OF o(3)] seal_fields [OF o(4)] transferredSource_def)
  have ne: "env_ExecutionID created \<noteq> env_ExecutionID current" using lineage_target [OF l(1)] l(2,3) id(1) by simp
  from c(1,5) have a: "ValidateExecutionLifecycleAnchors sha current (lookup (mes_incoming s) (env_ExecutionID current)) None = None"
    and fork: "lookup (mes_lineage s) (env_ExecutionID current) = None"
    using src(1) by (simp_all add: anchored_def ForkAnchor_None_iff)
  note anchors = publication_anchors [OF p sha a]
  note h0 = history_invD(2) [OF i tgt]
  show ?thesis
  proof (rule history_invI)
    fix k q x
    assume x: "entryOf s' k q = Some x"
    consider (new) "k = env_ExecutionID created" | (last) "k = env_ExecutionID current" "q = env_Revision transferred" "k \<noteq> env_ExecutionID created"
      | (old) "k \<noteq> env_ExecutionID created" "k = env_ExecutionID current \<longrightarrow> q \<noteq> env_Revision transferred" by blast
    then show "q \<le> headOf s' k \<and> ValidateExecutionIntegrity sha enc x k q = None \<and> anchored sha s' k x"
    proof cases
      case new
      then have q: "q = 1" "x = created" using x by (auto simp: s' split: if_splits)
      have "ValidateExecutionIntegrity sha enc created k 1 = None" using seal_admitted [OF o(3) sha] new id by simp
      moreover have "anchored sha s' k created" using anchors(2) h0 ne t new id by (simp add: anchored_def s' ForkAnchor_None_iff)
      ultimately show ?thesis using q new by (simp add: s')
    next
      case last
      then have q: "x = transferred" using x by (auto simp: s' t)
      have "ValidateExecutionIntegrity sha enc transferred k q = None"
        using seal_admitted [OF o(4) sha] last id by (simp add: transferredSource_def)
      moreover have "anchored sha s' k transferred" using anchors(1) fork last ne t id by (simp add: anchored_def s' ForkAnchor_None_iff)
      ultimately show ?thesis using q last t by (simp add: s')
    next
      case old
      then have e: "entryOf s k q = Some x" using x by (auto simp: s' t split: if_splits)
      note h = history_invD(1) [OF i e]
      then have id': "env_ExecutionID x = k" "env_Revision x = q" by (simp_all add: ValidateExecutionIntegrity_None_iff)
      show ?thesis
      proof (cases "k = env_ExecutionID current")
        case False
        then show ?thesis using h old t by (simp add: anchored_def s')
      next
        case True
        have le: "q \<le> env_Revision current" using h True c(2) by simp
        have "ValidateExecutionLifecycleAnchors sha x (lookup (mes_incoming s) k) (Some receipt) = None"
          by (rule old_source_anchored [OF p sha]) (use h c(1,3) e True id' le in \<open>auto simp: anchored_def\<close>)
        moreover have "q \<le> env_Revision current + 1" using le rev_succ [OF src(3), of q] by (simp add: less_imp_le)
        ultimately show ?thesis using h True old t id by (simp add: anchored_def s')
      qed
    qed
  next
    fix k assume "headOf s' k = 0"
    then have "k \<noteq> env_ExecutionID created" "k \<noteq> env_ExecutionID current" "headOf s k = 0"
      using rev_succ_nonzero [OF src(3)] by (auto simp: s' t id split: if_splits)
    with history_invD(2) [OF i] show "lookup (mes_lineage s') k = None \<and> lookup (mes_incoming s') k = None \<and> lookup (mes_outgoing s') k = None"
      by (simp add: s' t)
  next
    fix k rc assume r: "lookup (mes_outgoing s') k = Some rc"
    show "headOf s' k = rrc_SourceRevision rc"
    proof (cases "k = env_ExecutionID current")
      case True
      then show ?thesis using r ne t id by (auto simp: s' o(5))
    next
      case False
      then have "lookup (mes_outgoing s) k = Some rc" using r t by (simp add: s')
      moreover have "k \<noteq> env_ExecutionID created" using h0 id(1) calculation by auto
      ultimately show ?thesis using history_invD(3) [OF i] False t by (simp add: s')
    qed
  next
    fix k q x assume "entryOf s' k q = Some x"
    then show "jsonStable x \<or> q = 1 \<and> lookup (mes_incoming s') k \<noteq> None"
      using history_invD(4) [OF i, of k q x] transferred_stable [OF p sha stable] by (auto simp: s' split: if_splits)
  qed
qed

section \<open>The contracts of the store\<close>

text \<open>What one operation does to heads, entries and fences.\<close>

definition extends :: "MemoryExecutionStore \<Rightarrow> MemoryExecutionStore \<Rightarrow> bool" where
  "extends s s' \<longleftrightarrow> (\<forall>k. headOf s k \<le> headOf s' k) \<and> (\<forall>k. fenceOf s k \<le> fenceOf s' k)
    \<and> (\<forall>k r e. r \<le> headOf s k \<longrightarrow> entryOf s' k r = Some e \<longrightarrow> entryOf s k r = Some e)
    \<and> (\<forall>k r. lookup (mes_outgoing s) k = Some r \<longrightarrow> lookup (mes_outgoing s') k = Some r)"

lemma extends_refl: "extends s s"
  by (simp add: extends_def)

lemma commit_extends:
  assumes "CommitExecution sha enc ctx now expected lease e s = (Ok result, s')"
  shows "extends s s'"
proof -
  obtain previous where c: "expected \<noteq> - 1" "headOf s (env_ExecutionID e) = expected"
    and r: "SealExecutionEnvelope sha enc (e\<lparr>env_Revision := expected + 1\<rparr>) = Ok result"
    and s': "s' = storeEnvelope result (expected = 0) s"
    using commit_Ok [OF assms] by metis
  have "expected \<le> expected + 1" using rev_succ_self [OF c(1)] by (rule less_imp_le)
  moreover have "\<not> expected + 1 \<le> expected" using rev_succ_self [OF c(1)] by (simp add: not_le)
  ultimately show ?thesis using c(2) by (auto simp: extends_def s' seal_fields [OF r, simplified] split: if_splits)
qed

lemma rollover_extends:
  assumes "CommitRollover sha enc ctx now lease source target s = (Ok receipt, s')"
  shows "extends s s'"
proof -
  obtain current transferred created where c: "headOf s (env_ExecutionID current) = env_Revision current"
      "headOf s (env_ExecutionID target) = 0" "env_ExecutionID transferred = env_ExecutionID current"
      "lookup (mes_outgoing s) (env_ExecutionID current) = None"
    and p: "PrepareExecutionRolloverPublication sha enc current target lease = Ok (transferred, created, receipt)"
    and s': "s' = storeRollover transferred created receipt s"
    using rollover_Ok [OF assms] by metis
  note o = publication_Ok [OF p] and n = rolloverSource_None(3) [OF publication_Ok(1) [OF p]]
  have f: "env_ExecutionID created = env_ExecutionID target" "env_Revision transferred = env_Revision current + 1"
    by (simp_all add: seal_fields [OF o(3)] seal_fields [OF o(4)] transferredSource_def)
  have "env_Revision current \<le> env_Revision current + 1" "\<not> env_Revision current + 1 \<le> env_Revision current"
    using rev_succ_self [OF n] by simp_all
  then show ?thesis using c by (auto simp: extends_def s' f split: if_splits)
qed

lemma retain_extends:
  assumes "RetainExecution sha enc ctx now request s = (Ok receipt, s')"
  shows "extends s s'"
  using retain_Ok(1) [OF assms] by (auto simp: extends_def entryOf_prune split: if_splits)

lemma acquire_extends:
  assumes "AcquireExecution ctx now later k owner ttl s = (Ok lease, s')" and "lease_inv s"
  shows "extends s s'"
proof -
  note a = acquire_inv [OF assms]
  have "fenceOf s k \<le> fenceOf s k + 1" using rev_succ_self [OF a(3)] by (rule less_imp_le)
  then show ?thesis using leases_only_history(1,2) [OF a(7-11)] by (simp add: extends_def a(2,11))
qed

text \<open>A failed operation changes nothing.\<close>

lemma store_errors:
  "AcquireExecution ctx now later k owner ttl s = (Inl x, s') \<Longrightarrow> s' = s"
  "RenewExecution ctx now later lease ttl s = (Inl x, s') \<Longrightarrow> s' = s"
  "ReleaseExecution ctx lease s = (Inl x, s') \<Longrightarrow> s' = s"
  "CommitExecution sha enc ctx now expected lease e s = (Inl x, s') \<Longrightarrow> s' = s"
  "CommitRollover sha enc ctx now lease source target s = (Inl x, s') \<Longrightarrow> s' = s"
  "RetainExecution sha enc ctx now request s = (Inl x, s') \<Longrightarrow> s' = s"
  unfolding AcquireExecution_def RenewExecution_def ReleaseExecution_def CommitExecution_def CommitRollover_def RetainExecution_def
  by (erule writes_error)+

definition keeps_store :: "sha256 \<Rightarrow> env_codec \<Rightarrow> MemoryExecutionStore \<Rightarrow> MemoryExecutionStore \<Rightarrow> bool" where
  "keeps_store sha enc s s' \<longleftrightarrow> (store_inv sha enc s \<longrightarrow> extends s s' \<and> store_inv sha enc s')"

lemma keeps_refl: "keeps_store sha enc s s"
  by (simp add: keeps_store_def extends_refl)

lemma acquire_keeps: "AcquireExecution ctx now later k owner ttl s = (result, s') \<Longrightarrow> keeps_store sha enc s s'"
proof (cases result)
  case (Inr lease)
  assume "AcquireExecution ctx now later k owner ttl s = (result, s')"
  then have a: "AcquireExecution ctx now later k owner ttl s = (Ok lease, s')" by (simp add: Inr)
  show ?thesis
    using acquire_inv [OF a] acquire_extends [OF a] leases_only_history(3) by (simp add: keeps_store_def store_inv_def)
qed (use keeps_refl store_errors(1) in blast)

lemma renew_keeps: "RenewExecution ctx now later lease ttl s = (result, s') \<Longrightarrow> keeps_store sha enc s s'"
proof (cases result)
  case (Inr renewed)
  assume "RenewExecution ctx now later lease ttl s = (result, s')"
  then have a: "RenewExecution ctx now later lease ttl s = (Ok renewed, s')" by (simp add: Inr)
  show ?thesis
    using renew_inv [OF a] leases_only_history [of s' s] by (simp add: keeps_store_def store_inv_def extends_def)
qed (use keeps_refl store_errors(2) in blast)

lemma release_keeps: "ReleaseExecution ctx lease s = (result, s') \<Longrightarrow> keeps_store sha enc s s'"
proof (cases result)
  case (Inr u)
  assume "ReleaseExecution ctx lease s = (result, s')"
  then have a: "ReleaseExecution ctx lease s = (Ok u, s')" by (simp add: Inr)
  show ?thesis
    using release_inv [OF a] leases_only_history [of s' s] by (simp add: keeps_store_def store_inv_def extends_def)
qed (use keeps_refl store_errors(3) in blast)

lemma lease_inv_frame: "mes_leases s' = mes_leases s \<Longrightarrow> fenceOf s' = fenceOf s \<Longrightarrow> lease_inv s' = lease_inv s"
  by (simp add: lease_inv_def)

lemma commit_keeps: "CommitExecution sha enc ctx now expected lease e s = (result, s') \<Longrightarrow> keeps_store sha enc s s'"
proof (cases result)
  case (Inr x)
  assume "CommitExecution sha enc ctx now expected lease e s = (result, s')"
  then have a: "CommitExecution sha enc ctx now expected lease e s = (Ok x, s')" by (simp add: Inr)
  obtain previous where "s' = storeEnvelope x (expected = 0) s" by (rule commit_Ok [OF a])
  then have "lease_inv s' = lease_inv s" by (intro lease_inv_frame) (simp_all add: fun_eq_iff)
  then show ?thesis using commit_extends [OF a] commit_history [OF a] by (simp add: keeps_store_def store_inv_def)
qed (use keeps_refl store_errors(4) in blast)

lemma rollover_keeps: "CommitRollover sha enc ctx now lease source target s = (result, s') \<Longrightarrow> keeps_store sha enc s s'"
proof (cases result)
  case (Inr x)
  assume "CommitRollover sha enc ctx now lease source target s = (result, s')"
  then have a: "CommitRollover sha enc ctx now lease source target s = (Ok x, s')" by (simp add: Inr)
  obtain t c where "s' = storeRollover t c x s" by (rule rollover_Ok [OF a])
  then have "lease_inv s' = lease_inv s" by (intro lease_inv_frame) (simp_all add: fun_eq_iff)
  then show ?thesis using rollover_extends [OF a] rollover_history [OF a] by (simp add: keeps_store_def store_inv_def)
qed (use keeps_refl store_errors(5) in blast)

lemma retain_keeps: "RetainExecution sha enc ctx now request s = (result, s') \<Longrightarrow> keeps_store sha enc s s'"
proof (cases result)
  case (Inr x)
  assume "RetainExecution sha enc ctx now request s = (result, s')"
  then have a: "RetainExecution sha enc ctx now request s = (Ok x, s')" by (simp add: Inr)
  have "history_inv sha enc (prune request s)" if "history_inv sha enc s"
    by (rule history_cong [OF _ _ _ _ _ that]) (auto simp: entryOf_prune split: if_splits)
  moreover have "lease_inv (prune request s) = lease_inv s" by (intro lease_inv_frame) (simp_all add: fun_eq_iff)
  ultimately show ?thesis
    using retain_Ok(1) [OF a] retain_extends [OF a] by (auto simp: keeps_store_def store_inv_def)
qed (use keeps_refl store_errors(6) in blast)

lemma store_step_keeps: "store_step sha enc s s' \<Longrightarrow> keeps_store sha enc s s'"
  by (induction rule: store_step.induct)
    (blast intro: acquire_keeps renew_keeps release_keeps commit_keeps rollover_keeps retain_keeps)+

definition liveLease :: "MemoryExecutionStore \<Rightarrow> string \<Rightarrow> uint64 \<Rightarrow> bool" where
  "liveLease s k i \<longleftrightarrow> (\<exists>now lease. held s now lease \<and> lse_ExecutionID lease = k \<and> lse_Incarnation lease = i)"

interpretation memory_history: versioned_store "store_step sha enc" "store_inv sha enc" headOf entryOf
proof
  show "store_inv sha enc s'" if "store_inv sha enc s" "store_step sha enc s s'" for s s'
    using store_step_keeps [OF that(2)] that(1) by (simp add: keeps_store_def)
  show "headOf s k \<le> headOf s' k" if "store_inv sha enc s" "store_step sha enc s s'" for s s' k
    using store_step_keeps [OF that(2)] that(1) by (simp add: keeps_store_def extends_def)
  show "entryOf s k r = Some v" if "store_inv sha enc s" "store_step sha enc s s'" "r \<le> headOf s k" "entryOf s' k r = Some v" for s s' k r v
    using store_step_keeps [OF that(2)] that(1,3,4) by (simp add: keeps_store_def extends_def)
  show "r \<le> headOf s k" if "store_inv sha enc s" "entryOf s k r = Some v" for s k r v
    using that history_invD(1) by (auto simp: store_inv_def)
qed

interpretation memory_leases: fenced_store "store_step sha enc" "store_inv sha enc" fenceOf liveLease
proof
  show "fenceOf s k \<le> fenceOf s' k" if "store_inv sha enc s" "store_step sha enc s s'" for s s' k
    using store_step_keeps [OF that(2)] that(1) by (simp add: keeps_store_def extends_def)
  show "i = fenceOf s k" if "store_inv sha enc s" "liveLease s k i" for s k i
    using that held_lease(1,2) unfolding store_inv_def lease_inv_def liveLease_def by metis
qed

section \<open>Properties\<close>

abbreviation store_run :: "sha256 \<Rightarrow> env_codec \<Rightarrow> MemoryExecutionStore \<Rightarrow> MemoryExecutionStore \<Rightarrow> bool" where
  "store_run sha enc \<equiv> rtranclp (store_step sha enc)"

lemma run_store_inv:
  "\<forall>x. validActivityDigest (sha x) \<Longrightarrow> store_run sha enc NewMemoryExecutionStore s \<Longrightarrow> store_inv sha enc s"
  using memory_history.run_invariant new_store_inv by blast

lemma decode_entry:
  assumes "store_inv sha enc s"
  shows "decodeAnchoredExecution sha enc s (entryOf s k r) k r
    = (case entryOf s k r of None \<Rightarrow> Err ErrExecutionCheckpointUnavailable
       | Some e \<Rightarrow> if jsonStable e then Ok e else Err ErrExecutionCorrupt)"
proof (cases "entryOf s k r")
  case None
  then show ?thesis by (simp add: decodeAnchoredExecution_def)
next
  case (Some e)
  with assms have "ValidateExecutionIntegrity sha enc e k r = None \<and> anchored sha s k e"
    using history_invD(1) by (auto simp: store_inv_def)
  then have "jsonStable e \<Longrightarrow> decodeAnchoredExecution sha enc s (Some e) k r = Ok e" by (simp add: decodeAnchored_Ok_iff)
  moreover have "\<not> jsonStable e \<Longrightarrow> decodeAnchoredExecution sha enc s (Some e) k r = Err ErrExecutionCorrupt"
    by (simp add: decodeAnchoredExecution_def decodeExecution_def)
  ultimately show ?thesis by (simp add: Some)
qed

lemma LoadCheckpoint_eq:
  assumes "store_inv sha enc s" and "r \<noteq> 0"
  shows "LoadCheckpoint sha enc None k r s =
    (if r > headOf s k then Err ErrThreadNotFound
     else case entryOf s k r of None \<Rightarrow> Err ErrExecutionCheckpointUnavailable
       | Some e \<Rightarrow> if jsonStable e then Ok e else Err ErrExecutionCorrupt)"
  using assms by (simp add: LoadCheckpoint_def decode_entry)

text \<open>
  C18. What a store that is written by its own operations reads. After any
  interleaving of operations of any number of workers a load returns the envelope
  written at its address, which passes the integrity check there, or says that the
  execution is unknown or that the checkpoint was pruned. The one other answer is
  corruption of the first revision of an execution that a rollover created with a
  target whose texts JSON does not keep: every other revision, and every execution
  that was created by a commit, never reads as corrupt.
\<close>

theorem reachable_store_reads:
  assumes "\<forall>x. validActivityDigest (sha x)" and "store_run sha enc NewMemoryExecutionStore s"
  shows "(case LoadExecution sha enc None k s of
      Inr e \<Rightarrow> ValidateExecutionIntegrity sha enc e k (headOf s k) = None \<and> entryOf s k (headOf s k) = Some e
    | Inl x \<Rightarrow> x = Sent ErrThreadNotFound \<and> headOf s k = 0 \<or> x = Sent ErrExecutionCheckpointUnavailable \<and> entryOf s k (headOf s k) = None
        \<or> x = Sent ErrExecutionCorrupt \<and> headOf s k = 1 \<and> lookup (mes_incoming s) k \<noteq> None \<and> (\<exists>e. entryOf s k 1 = Some e \<and> \<not> jsonStable e))
   \<and> (r \<noteq> 0 \<longrightarrow> (case LoadCheckpoint sha enc None k r s of
      Inr e \<Rightarrow> ValidateExecutionIntegrity sha enc e k r = None \<and> entryOf s k r = Some e
    | Inl x \<Rightarrow> x = Sent ErrThreadNotFound \<and> r > headOf s k \<or> x = Sent ErrExecutionCheckpointUnavailable \<and> entryOf s k r = None
        \<or> x = Sent ErrExecutionCorrupt \<and> r = 1 \<and> lookup (mes_incoming s) k \<noteq> None \<and> (\<exists>e. entryOf s k 1 = Some e \<and> \<not> jsonStable e)))"
proof -
  note i = run_store_inv [OF assms]
  have h: "entryOf s k q = Some e \<Longrightarrow> ValidateExecutionIntegrity sha enc e k q = None
      \<and> (jsonStable e \<or> q = 1 \<and> lookup (mes_incoming s) k \<noteq> None)" for q e
    using i history_invD(1,4) [of sha enc s k q e] by (simp add: store_inv_def)
  have "r \<noteq> 0 \<longrightarrow> (case LoadCheckpoint sha enc None k r s of
      Inr e \<Rightarrow> ValidateExecutionIntegrity sha enc e k r = None \<and> entryOf s k r = Some e
    | Inl x \<Rightarrow> x = Sent ErrThreadNotFound \<and> r > headOf s k \<or> x = Sent ErrExecutionCheckpointUnavailable \<and> entryOf s k r = None
        \<or> x = Sent ErrExecutionCorrupt \<and> r = 1 \<and> lookup (mes_incoming s) k \<noteq> None \<and> (\<exists>e. entryOf s k 1 = Some e \<and> \<not> jsonStable e))"
    using h [of r] by (cases "entryOf s k r") (auto simp: LoadCheckpoint_eq [OF i])
  moreover have "case LoadExecution sha enc None k s of
      Inr e \<Rightarrow> ValidateExecutionIntegrity sha enc e k (headOf s k) = None \<and> entryOf s k (headOf s k) = Some e
    | Inl x \<Rightarrow> x = Sent ErrThreadNotFound \<and> headOf s k = 0 \<or> x = Sent ErrExecutionCheckpointUnavailable \<and> entryOf s k (headOf s k) = None
        \<or> x = Sent ErrExecutionCorrupt \<and> headOf s k = 1 \<and> lookup (mes_incoming s) k \<noteq> None \<and> (\<exists>e. entryOf s k 1 = Some e \<and> \<not> jsonStable e)"
    using h [of "headOf s k"]
    by (auto simp: LoadExecution_def decode_entry [OF i] split: option.split)
  ultimately show ?thesis by blast
qed

lemma sample_stable: "jsonStable sampleEnvelope" "jsonStable sampleSealed" "jsonStable steppedEnvelope" "jsonStable rolloverEnvelope"
proof -
  have "jsonStable (e\<lparr>env_Digest := d\<rparr>)" if "jsonStable e" "ValidString d" for e d
    using that by (simp add: jsonStable_def envelopeText_def)
  moreover show s: "jsonStable sampleEnvelope"
    by (simp add: jsonStable_def envelopeText_def descriptorText_def progressText_def mapText_def runMetaText_def sampleEnvelope_def
        sampleDescriptor_def emptyRunMeta_def byte_def)
  ultimately have d: "jsonStable (sampleEnvelope\<lparr>env_Digest := sampleSha x\<rparr>)" for x by (simp add: digest_text [OF sampleSha_digest])
  then show "jsonStable sampleSealed" by (simp add: sampleSealed_def)
  from d [of "''b''"] show "jsonStable steppedEnvelope"
    by (simp add: jsonStable_def envelopeText_def steppedEnvelope_def runMetaText_def sampleEnvelope_def)
  from s show "jsonStable rolloverEnvelope"
    using receipt_text [of sampleSha "\<lparr>rrc_Lineage = sampleLineage, rrc_Target = \<lparr>hcr_ExecutionID = ''t'', hcr_Revision = 1, hcr_Digest = sampleSha ''b''\<rparr>,
        rrc_SourceRevision = 2\<rparr>"] sampleLineage_valid
    by (simp add: jsonStable_def envelopeText_def rolloverEnvelope_def RolloverReceipt_Validate_def receiptText_def
        HistoricalCheckpointReference_Validate_def sampleSha_digest sampleLineage_def byte_def)
qed

definition sampleStore :: MemoryExecutionStore where
  "sampleStore = snd (CommitExecution sampleSha sampleEnc None 1 0 sampleLease sampleEnvelope
     (snd (AcquireExecution None 0 0 ''e'' ''o'' 10 NewMemoryExecutionStore)))"

lemma sample_acquire:
  "AcquireExecution None 0 0 ''e'' ''o'' 10 NewMemoryExecutionStore
    = (Ok sampleLease, NewMemoryExecutionStore\<lparr>mes_fences := [(''e'', 1)], mes_leases := [(''e'', sampleLease)]\<rparr>)"
  by (simp add: AcquireExecution_def writes_def NewMemoryExecutionStore_def fenceOf_def leaseOf_def sampleLease_def Let_def)

lemma sample_commit:
  "CommitExecution sampleSha sampleEnc None 1 0 sampleLease sampleEnvelope
      (NewMemoryExecutionStore\<lparr>mes_fences := [(''e'', 1)], mes_leases := [(''e'', sampleLease)]\<rparr>)
    = (Ok sampleSealed, sampleStore)"
proof -
  have "\<exists>s. CommitExecution sampleSha sampleEnc None 1 0 sampleLease sampleEnvelope
      (NewMemoryExecutionStore\<lparr>mes_fences := [(''e'', 1)], mes_leases := [(''e'', sampleLease)]\<rparr>) = (Ok sampleSealed, s)"
  proof -
    let ?s = "NewMemoryExecutionStore\<lparr>mes_fences := [(''e'', 1)], mes_leases := [(''e'', sampleLease)]\<rparr>"
    have h: "held ?s 1 sampleLease" "headOf ?s ''e'' = 0" by (simp_all add: held_def leaseOf_def sampleLease_def headOf_def NewMemoryExecutionStore_def)
    have f: "env_ExecutionID sampleEnvelope = ''e''" "env_Descriptor sampleEnvelope = sampleDescriptor" "env_Pointer sampleEnvelope = ''n''"
        "env_Rollover sampleEnvelope = None" "env_Transfer sampleEnvelope = None" "env_Fork sampleEnvelope = None"
        "sampleEnvelope\<lparr>env_Revision := 1\<rparr> = sampleEnvelope" "lse_ExecutionID sampleLease = ''e''"
      by (simp_all add: sampleEnvelope_def sampleLease_def)
    have g: "env_ExecutionID sampleSealed = ''e''" "env_Revision sampleSealed = 1" by (simp_all add: sampleSealed_def sampleEnvelope_def)
    have "decodeExecution sampleSha sampleEnc sampleSealed ''e'' 1 = Ok sampleSealed"
      by (simp add: decodeExecution_def sampleSealed_integrity sample_stable)
    moreover have "\<exists>d. sampleEnc sampleSealed = Ok d" by (simp add: sampleEnc_def)
    ultimately show ?thesis
      by (auto simp: CommitExecution_def h f g sampleDescriptor_valid ValidateExecutionRolloverTransition_def
          ValidateExecutionForkTransition_def sampleEnvelope_seal sampleSealed_def [symmetric] writes_def)
  qed
  then show ?thesis by (auto simp: sampleStore_def sample_acquire)
qed

lemma sample_store:
  "headOf sampleStore ''e'' = 1" "entryOf sampleStore ''e'' 1 = Some sampleSealed" "fenceOf sampleStore ''e'' = 1"
  "mes_leases sampleStore = [(''e'', sampleLease)]"
proof -
  have s: "sampleStore = storeEnvelope sampleSealed True (NewMemoryExecutionStore\<lparr>mes_fences := [(''e'', 1)], mes_leases := [(''e'', sampleLease)]\<rparr>)"
    by (rule commit_Ok [OF sample_commit]) simp
  have "env_ExecutionID sampleSealed = ''e''" "env_Revision sampleSealed = 1" by (simp_all add: sampleSealed_def sampleEnvelope_def)
  then show "headOf sampleStore ''e'' = 1" "entryOf sampleStore ''e'' 1 = Some sampleSealed" "fenceOf sampleStore ''e'' = 1"
      "mes_leases sampleStore = [(''e'', sampleLease)]"
    by (simp_all add: s) (simp add: fenceOf_def)
qed

lemma sample_store_run: "store_run sampleSha sampleEnc NewMemoryExecutionStore sampleStore"
  using store_step.acquire [OF sample_acquire] store_step.commit [OF sample_commit] by (meson rtranclp.simps)

theorem reachable_store_reads_witness:
  "LoadExecution sampleSha sampleEnc None ''e'' sampleStore = Ok sampleSealed
   \<and> ValidateExecutionIntegrity sampleSha sampleEnc sampleSealed ''e'' 1 = None"
proof -
  from reachable_store_reads [OF allI [OF sampleSha_digest] sample_store_run, of "''e''" 1]
  show ?thesis by (cases "LoadExecution sampleSha sampleEnc None ''e'' sampleStore") (auto simp: sample_store sample_stable)
qed

lemma not_held_rejected:
  assumes "\<not> held s now lease"
  shows "\<exists>x. CommitExecution sha enc ctx now expected lease e s = (Inl x, s)"
    and "\<exists>x. CommitRollover sha enc ctx now lease source target s = (Inl x, s)"
    and "\<exists>x. RenewExecution ctx now later lease ttl s = (Inl x, s)"
  using assms
  by (cases ctx; simp add: CommitExecution_def CommitRollover_def RenewExecution_def writes_def)+

text \<open>
  C19. Fencing holds for ever. Once a worker has acquired an execution, no call
  with an older incarnation changes anything again, in whatever later state and
  with whatever clock: commits, rollovers and renewals with it fail and leave
  the store as it is.
\<close>

theorem stale_incarnation_is_fenced:
  assumes "\<forall>x. validActivityDigest (sha x)" and "store_run sha enc NewMemoryExecutionStore s"
    and "AcquireExecution ctx now later k owner ttl s = (Ok lease, s1)" and "store_run sha enc s1 s2"
    and "lse_ExecutionID stale = k" and "lse_Incarnation stale < lse_Incarnation lease"
  shows "(\<exists>x. CommitExecution sha enc ctx2 now2 expected stale e s2 = (Inl x, s2))
    \<and> (\<exists>x. CommitRollover sha enc ctx2 now2 stale source target s2 = (Inl x, s2))
    \<and> (\<exists>x. RenewExecution ctx2 now2 later2 stale ttl2 s2 = (Inl x, s2))"
proof -
  note i = run_store_inv [OF assms(1,2)]
  have i1: "store_inv sha enc s1" using acquire_keeps [OF assms(3)] i by (simp add: keeps_store_def)
  have "fenceOf s1 k = lse_Incarnation lease"
    using acquire_inv(2,4) [OF assms(3)] i by (simp add: store_inv_def)
  then have "\<not> liveLease s2 k (lse_Incarnation stale)"
    using memory_leases.stale_forever [OF assms(4) i1] assms(6) by simp
  then have "\<not> held s2 now2 stale" using assms(5) by (auto simp: liveLease_def)
  from not_held_rejected [OF this] show ?thesis by blast
qed

definition sampleRelease :: MemoryExecutionStore where
  "sampleRelease = sampleStore\<lparr>mes_leases := []\<rparr>"

lemma sample_release: "ReleaseExecution None sampleLease sampleStore = (Ok (), sampleRelease)"
  by (simp add: ReleaseExecution_def writes_def sampleRelease_def sample_store) (simp add: sampleLease_def)

lemma sample_second:
  "AcquireExecution None 2 2 ''e'' ''p'' 10 sampleRelease
    = (Ok (sampleLease\<lparr>lse_Owner := ''p'', lse_Incarnation := 2, lse_ExpiresAt := 12\<rparr>),
       snd (AcquireExecution None 2 2 ''e'' ''p'' 10 sampleRelease))"
proof -
  have "fenceOf sampleRelease ''e'' = 1" using sample_store(3) by (simp add: sampleRelease_def fenceOf_def)
  then show ?thesis
    by (simp add: AcquireExecution_def writes_def sampleRelease_def leaseOf_def Let_def sampleLease_def)
qed

theorem stale_incarnation_is_fenced_witness:
  "\<exists>x. CommitExecution sampleSha sampleEnc None 3 1 sampleLease sampleEnvelope
     (snd (AcquireExecution None 2 2 ''e'' ''p'' 10 sampleRelease))
   = (Inl x, snd (AcquireExecution None 2 2 ''e'' ''p'' 10 sampleRelease))"
proof -
  have "store_run sampleSha sampleEnc NewMemoryExecutionStore sampleRelease"
    using sample_store_run store_step.release [OF sample_release] by (meson rtranclp.simps)
  from stale_incarnation_is_fenced [OF allI [OF sampleSha_digest] this sample_second rtranclp.rtrancl_refl, of sampleLease]
  show ?thesis by (simp add: sampleLease_def)
qed

text \<open>
  C20. A commit is a compare-and-swap. It succeeds only for the holder of the
  lease and only on top of the revision it expects; then the execution is at the
  next revision, loads as the committed envelope, which is the given one up to
  revision and digest, and every other execution is untouched. No later commit
  that expects the same revision succeeds, so an update is never lost.
\<close>

theorem commit_is_compare_and_swap:
  assumes "\<forall>x. validActivityDigest (sha x)" and "store_run sha enc NewMemoryExecutionStore s"
    and "CommitExecution sha enc ctx now expected lease e s = (Ok result, s')" and "store_run sha enc s' s''"
  shows "held s now lease \<and> headOf s (env_ExecutionID e) = expected \<and> headOf s' (env_ExecutionID e) = expected + 1
    \<and> LoadExecution sha enc None (env_ExecutionID e) s' = Ok result
    \<and> result = e\<lparr>env_Revision := expected + 1, env_Digest := env_Digest result\<rparr>
    \<and> (k \<noteq> env_ExecutionID e \<longrightarrow> headOf s' k = headOf s k \<and> entryOf s' k r = entryOf s k r)
    \<and> (env_ExecutionID other = env_ExecutionID e \<longrightarrow> (\<exists>x. CommitExecution sha enc ctx2 now2 expected lease2 other s'' = (Inl x, s'')))"
proof -
  note i = run_store_inv [OF assms(1,2)]
  obtain previous where c: "expected \<noteq> - 1" "held s now lease" "headOf s (env_ExecutionID e) = expected"
    and r: "SealExecutionEnvelope sha enc (e\<lparr>env_Revision := expected + 1\<rparr>) = Ok result"
    and s': "s' = storeEnvelope result (expected = 0) s" and stable: "jsonStable result"
    using commit_Ok [OF assms(3)] by metis
  note f = seal_fields [OF r, simplified]
  have i': "store_inv sha enc s'" using commit_keeps [OF assms(3)] i by (simp add: keeps_store_def)
  have "result = e\<lparr>env_Revision := expected + 1, env_Digest := env_Digest result\<rparr>"
    using seal_digest(1) [OF r assms(1)] by simp
  moreover have "LoadExecution sha enc None (env_ExecutionID e) s' = Ok result"
    using rev_succ_nonzero [OF c(1)] stable by (simp add: LoadExecution_def decode_entry [OF i']) (simp add: s' f)
  moreover have "expected + 1 \<le> headOf s'' (env_ExecutionID e)"
    using memory_history.run_head_mono [OF assms(4) i', of "env_ExecutionID e"] by (simp add: s' f)
  then have "headOf s'' (env_ExecutionID e) \<noteq> expected" using rev_succ_self [OF c(1)] by fastforce
  then have "fst (CommitExecution sha enc ctx2 now2 expected lease2 other s'') \<noteq> Ok y"
    if "env_ExecutionID other = env_ExecutionID e" for y
    using that commit_Ok [of sha enc ctx2 now2 expected lease2 other s'' y] by (metis surjective_pairing)
  then have "\<exists>x. CommitExecution sha enc ctx2 now2 expected lease2 other s'' = (Inl x, s'')"
    if "env_ExecutionID other = env_ExecutionID e"
    using that store_errors(4) by (metis surjective_pairing sum.exhaust)
  ultimately show ?thesis using c by (simp add: s' f)
qed

theorem commit_is_compare_and_swap_witness:
  "LoadExecution sampleSha sampleEnc None ''e'' sampleStore = Ok sampleSealed
   \<and> (\<exists>x. CommitExecution sampleSha sampleEnc None 2 0 sampleLease sampleEnvelope sampleStore = (Inl x, sampleStore))"
proof -
  have a: "store_run sampleSha sampleEnc NewMemoryExecutionStore
      (NewMemoryExecutionStore\<lparr>mes_fences := [(''e'', 1)], mes_leases := [(''e'', sampleLease)]\<rparr>)"
    using store_step.acquire [OF sample_acquire] by blast
  have "env_ExecutionID sampleEnvelope = ''e''" by (simp add: sampleEnvelope_def)
  then show ?thesis
    using commit_is_compare_and_swap [OF allI [OF sampleSha_digest] a sample_commit rtranclp.rtrancl_refl, of "''e''" 1 sampleEnvelope]
    by simp
qed

text \<open>
  C21. History cannot be rewritten. A checkpoint that was loaded once loads as
  the same envelope for ever after, or is reported as pruned; a checkpoint that
  was pruned never comes back.
\<close>

theorem history_is_immutable:
  assumes "\<forall>x. validActivityDigest (sha x)" and "store_run sha enc NewMemoryExecutionStore s" and "store_run sha enc s s'"
    and "r \<noteq> 0" and "r \<le> headOf s k"
  shows "(LoadCheckpoint sha enc None k r s = Ok e \<longrightarrow>
        LoadCheckpoint sha enc None k r s' = Ok e \<or> LoadCheckpoint sha enc None k r s' = Err ErrExecutionCheckpointUnavailable)
    \<and> (LoadCheckpoint sha enc None k r s = Err ErrExecutionCheckpointUnavailable \<longrightarrow>
        LoadCheckpoint sha enc None k r s' = Err ErrExecutionCheckpointUnavailable)"
proof -
  note i = run_store_inv [OF assms(1,2)]
  note i' = memory_history.run_invariant [OF assms(3) i]
  have h: "r \<le> headOf s' k" using memory_history.run_head_mono [OF assms(3) i, of k] assms(5) by simp
  show ?thesis
    using memory_history.history_immutable [OF assms(3) i, of k r] memory_history.pruned_stays_absent [OF assms(3) i assms(5)]
      assms(5) h
    by (auto simp: LoadCheckpoint_eq [OF i assms(4)] LoadCheckpoint_eq [OF i' assms(4)] not_less split: option.splits)
qed

theorem history_is_immutable_witness:
  "LoadCheckpoint sampleSha sampleEnc None ''e'' 1 sampleRelease = Ok sampleSealed
   \<or> LoadCheckpoint sampleSha sampleEnc None ''e'' 1 sampleRelease = Err ErrExecutionCheckpointUnavailable"
proof -
  have "store_run sampleSha sampleEnc sampleStore sampleRelease" using store_step.release [OF sample_release] by blast
  moreover have "LoadCheckpoint sampleSha sampleEnc None ''e'' 1 sampleStore = Ok sampleSealed"
    using LoadCheckpoint_eq [OF run_store_inv [OF allI [OF sampleSha_digest] sample_store_run], of 1 "''e''"]
    by (simp add: sample_store sample_stable)
  ultimately show ?thesis
    using history_is_immutable [OF allI [OF sampleSha_digest] sample_store_run, of sampleRelease 1 "''e''" sampleSealed]
    by (simp add: sample_store)
qed

lemma run_outgoing:
  assumes "store_run sha enc s s'" and "store_inv sha enc s" and "lookup (mes_outgoing s) k = Some receipt"
  shows "lookup (mes_outgoing s') k = Some receipt"
  using memory_history.run_keeps [OF assms(1,2), of "\<lambda>x. lookup (mes_outgoing x) k = Some receipt"] assms(3) store_step_keeps
  by (fastforce simp: keeps_store_def extends_def)

lemma transferred_rejects_commit:
  assumes "store_inv sha enc s" and "lookup (mes_outgoing s) (env_ExecutionID e) = Some receipt"
  shows "\<exists>x. CommitExecution sha enc ctx now expected lease e s = (Inl x, s)"
proof (cases "fst (CommitExecution sha enc ctx now expected lease e s)")
  case (Inl x)
  then show ?thesis using store_errors(4) by (metis surjective_pairing)
next
  case (Inr y)
  then obtain s' where c: "CommitExecution sha enc ctx now expected lease e s = (Ok y, s')" by (metis surjective_pairing)
  from assms(1) have h: "history_inv sha enc s" by (simp add: store_inv_def)
  obtain previous where p: "headOf s (env_ExecutionID e) = expected" "if expected = 0 then previous = None
      else \<exists>stored. previous = Some stored \<and> entryOf s (env_ExecutionID e) expected = Some stored
        \<and> ValidateExecutionIntegrity sha enc stored (env_ExecutionID e) expected = None \<and> anchored sha s (env_ExecutionID e) stored"
      "ValidateExecutionRolloverTransition previous e = None"
    using commit_Ok [OF c] by metis
  have "expected \<noteq> 0" using history_invD(2) [OF h, of "env_ExecutionID e"] assms(2) p(1) by auto
  then obtain stored where "previous = Some stored" "entryOf s (env_ExecutionID e) (headOf s (env_ExecutionID e)) = Some stored"
    using p(1,2) by auto
  with transferred_head [OF h _ assms(2)] p(3) show ?thesis by (auto simp: ValidateExecutionRolloverTransition_def)
qed

text \<open>
  C22. A rollover is atomic and final. When it succeeds the source loads as a
  terminal envelope that carries the receipt, and from then on no commit and no
  second rollover of the source succeeds, whoever holds its lease. The target
  loads at its first revision, as the requested one with the lineage of the receipt,
  exactly if JSON keeps its texts; the store does not read the target back before
  it publishes the pair, so otherwise the source has ended and the target reads as
  corrupt.
\<close>

theorem rollover_is_final:
  assumes "\<forall>x. validActivityDigest (sha x)" and "store_run sha enc NewMemoryExecutionStore s"
    and "CommitRollover sha enc ctx now lease source target s = (Ok receipt, s')" and "store_run sha enc s' s''"
  shows "(\<exists>e. LoadExecution sha enc None (hcr_ExecutionID source) s' = Ok e \<and> env_Transfer e = Some receipt
        \<and> env_Revision e = hcr_Revision source + 1)
    \<and> (if jsonStable target
       then \<exists>e. LoadExecution sha enc None (env_ExecutionID target) s' = Ok e \<and> env_Rollover e = Some (rrc_Lineage receipt)
         \<and> e = target\<lparr>env_Revision := 1, env_Digest := hcr_Digest (rrc_Target receipt)\<rparr>
       else LoadExecution sha enc None (env_ExecutionID target) s' = Err ErrExecutionCorrupt)
    \<and> (env_ExecutionID any = hcr_ExecutionID source \<longrightarrow> (\<exists>x. CommitExecution sha enc ctx2 now2 expected lease2 any s'' = (Inl x, s'')))
    \<and> (\<exists>x. CommitRollover sha enc ctx2 now2 lease2 (source\<lparr>hcr_Revision := r, hcr_Digest := d\<rparr>) target2 s'' = (Inl x, s''))"
proof -
  note i = run_store_inv [OF assms(1,2)]
  have i': "store_inv sha enc s'" using rollover_keeps [OF assms(3)] i by (simp add: keeps_store_def)
  have src: "hcr_ExecutionID source = lse_ExecutionID lease" "headOf s (hcr_ExecutionID source) = hcr_Revision source"
    using assms(3) by (auto simp: CommitRollover_def res_simps split: if_splits)
  obtain current transferred created where c: "lse_ExecutionID lease = env_ExecutionID current"
      "headOf s (env_ExecutionID current) = env_Revision current"
    and p: "PrepareExecutionRolloverPublication sha enc current target lease = Ok (transferred, created, receipt)"
    and t: "env_ExecutionID transferred = env_ExecutionID current" and s': "s' = storeRollover transferred created receipt s"
    and stable: "jsonStable current"
    using rollover_Ok [OF assms(3)] by metis
  note stable' = transferred_stable [OF p assms(1) stable] created_stable [OF p assms(1)]
  note o = publication_Ok [OF p]
  obtain l where l: "RolloverLineage_Validate sha l = None" "rll_TargetID l = env_ExecutionID target"
      "hcr_ExecutionID (rll_Source l) = env_ExecutionID current" "env_Rollover target = Some l"
    by (rule rolloverTarget_None [OF o(2)])
  have f: "env_ExecutionID created = env_ExecutionID target" "env_Rollover created = Some l" "env_Revision created = 1"
      "env_Revision transferred = env_Revision current + 1" "env_Transfer transferred = Some receipt"
    using l by (simp_all add: seal_fields [OF o(3)] seal_fields [OF o(4)] transferredSource_def)
  have ne: "env_ExecutionID target \<noteq> env_ExecutionID current" using lineage_target [OF l(1)] l(2,3) by simp
  have n: "env_Revision current + 1 \<noteq> 0" by (rule rev_succ_nonzero [OF rolloverSource_None(3) [OF o(1)]])
  have "lookup (mes_outgoing s') (hcr_ExecutionID source) = Some receipt" using src c t by (simp add: s')
  note out = run_outgoing [OF assms(4) i' this]
  note i'' = memory_history.run_invariant [OF assms(4) i']
  have "\<exists>x. CommitRollover sha enc ctx2 now2 lease2 (source\<lparr>hcr_Revision := r, hcr_Digest := d\<rparr>) target2 s'' = (Inl x, s'')"
    using out by (cases ctx2) (auto simp: CommitRollover_def writes_def)
  moreover have "\<exists>x. CommitExecution sha enc ctx2 now2 expected lease2 any s'' = (Inl x, s'')"
    if "env_ExecutionID any = hcr_ExecutionID source"
    using that out by (intro transferred_rejects_commit [OF i'', of any receipt]) simp
  moreover have "\<exists>e. LoadExecution sha enc None (hcr_ExecutionID source) s' = Ok e \<and> env_Transfer e = Some receipt
      \<and> env_Revision e = hcr_Revision source + 1"
    using src c t f ne n stable'(1) by (simp add: LoadExecution_def decode_entry [OF i']) (simp add: s')
  moreover have "if jsonStable target
      then \<exists>e. LoadExecution sha enc None (env_ExecutionID target) s' = Ok e \<and> env_Rollover e = Some (rrc_Lineage receipt)
        \<and> e = target\<lparr>env_Revision := 1, env_Digest := hcr_Digest (rrc_Target receipt)\<rparr>
      else LoadExecution sha enc None (env_ExecutionID target) s' = Err ErrExecutionCorrupt"
  proof -
    have "LoadExecution sha enc None (env_ExecutionID target) s' = (if jsonStable target then Ok created else Err ErrExecutionCorrupt)"
      using f(1,3) stable'(2) by (simp add: LoadExecution_def decode_entry [OF i']) (simp add: s')
    moreover have "created = target\<lparr>env_Revision := 1, env_Digest := hcr_Digest (rrc_Target receipt)\<rparr>"
      using seal_digest(1) [OF o(3) assms(1)] by (simp add: o(5))
    moreover have "rrc_Lineage receipt = l" using l by (simp add: o(5))
    ultimately show ?thesis using f(2) by auto
  qed
  ultimately show ?thesis by blast
qed

definition leasedStore :: MemoryExecutionStore where
  "leasedStore = NewMemoryExecutionStore\<lparr>mes_fences := [(''e'', 1)], mes_leases := [(''e'', sampleLease)]\<rparr>"

definition steppedStore :: MemoryExecutionStore where
  "steppedStore = storeEnvelope steppedEnvelope True leasedStore"

lemma leasedStore_held: "held leasedStore 1 sampleLease" "held steppedStore 1 sampleLease"
  by (simp_all add: held_def leaseOf_def sampleLease_def leasedStore_def steppedStore_def)

lemma leasedStore_fields:
  "headOf leasedStore k = 0" "fenceOf leasedStore ''t'' = 0" "entryOf leasedStore k r = None"
  "mes_outgoing leasedStore = []" "mes_incoming leasedStore = []" "mes_lineage leasedStore = []"
  by (simp_all add: headOf_def fenceOf_def entryOf_def itemsOf_def leasedStore_def NewMemoryExecutionStore_def)

lemma stepped_seal: "SealExecutionEnvelope sampleSha sampleEnc steppedEnvelope = Ok steppedEnvelope"
proof -
  have "steppedEnvelope\<lparr>env_Digest := sampleSha ''b''\<rparr> = steppedEnvelope"
    by (cases sampleEnvelope) (simp add: steppedEnvelope_def)
  then show ?thesis using sampleEnc_seal [of steppedEnvelope] by (simp add: steppedEnvelope_fields byte_def)
qed

lemma stepped_commit: "CommitExecution sampleSha sampleEnc None 1 0 sampleLease steppedEnvelope leasedStore = (Ok steppedEnvelope, steppedStore)"
proof -
  have r: "steppedEnvelope\<lparr>env_Revision := 1\<rparr> = steppedEnvelope" by (simp add: steppedEnvelope_def sampleEnvelope_def)
  have d: "decodeExecution sampleSha sampleEnc steppedEnvelope ''e'' 1 = Ok steppedEnvelope"
    using seal_admitted [OF stepped_seal] sampleSha_digest by (simp add: decodeExecution_def steppedEnvelope_fields sample_stable)
  have l: "lse_ExecutionID sampleLease = ''e''" by (simp add: sampleLease_def)
  show ?thesis
    by (simp add: r d l sampleEnc_def CommitExecution_def leasedStore_held leasedStore_fields steppedEnvelope_fields sampleDescriptor_valid stepped_seal
        ValidateExecutionRolloverTransition_def ValidateExecutionForkTransition_def writes_def steppedStore_def)
qed

lemma stepped_run: "store_run sampleSha sampleEnc NewMemoryExecutionStore steppedStore"
  using store_step.acquire [OF sample_acquire] store_step.commit [OF stepped_commit [unfolded leasedStore_def]] by (meson rtranclp.simps)

lemma stepped_rollover:
  "\<exists>receipt s. CommitRollover sampleSha sampleEnc None 1 sampleLease (rll_Source sampleLineage) rolloverEnvelope steppedStore = (Ok receipt, s)"
proof -
  have i: "store_inv sampleSha sampleEnc steppedStore" by (rule run_store_inv [OF allI [OF sampleSha_digest] stepped_run])
  have e: "headOf steppedStore ''e'' = 1" "entryOf steppedStore ''e'' 1 = Some steppedEnvelope" "headOf steppedStore ''t'' = 0"
      "fenceOf steppedStore ''t'' = 0" "mes_outgoing steppedStore = []"
    by (simp_all add: steppedStore_def steppedEnvelope_fields leasedStore_fields)
  have l: "rll_Source sampleLineage = \<lparr>hcr_ExecutionID = ''e'', hcr_Revision = 1, hcr_Digest = sampleSha ''b''\<rparr>"
      "lse_ExecutionID sampleLease = ''e''" by (simp_all add: sampleLineage_def sampleLease_def)
  obtain t c r where p: "PrepareExecutionRolloverPublication sampleSha sampleEnc steppedEnvelope rolloverEnvelope sampleLease = Ok (t, c, r)"
    using sample_publication by blast
  have "decodeAnchoredExecution sampleSha sampleEnc steppedStore (Some steppedEnvelope) ''e'' 1 = Ok steppedEnvelope"
    using decode_entry [OF i, of "''e''" 1] by (simp add: e sample_stable)
  then show ?thesis
    by (simp add: CommitRollover_def writes_def leasedStore_held l e p steppedEnvelope_fields rolloverEnvelope_fields sampleEnc_def)
qed

theorem rollover_is_final_witness:
  "\<exists>s e. LoadExecution sampleSha sampleEnc None ''t'' s = Ok e \<and> env_Rollover e \<noteq> None
     \<and> (\<exists>x. CommitExecution sampleSha sampleEnc None 2 2 sampleLease sampleEnvelope s = (Inl x, s))"
proof -
  obtain receipt s where r: "CommitRollover sampleSha sampleEnc None 1 sampleLease (rll_Source sampleLineage) rolloverEnvelope steppedStore = (Ok receipt, s)"
    using stepped_rollover by blast
  have k: "env_ExecutionID rolloverEnvelope = ''t''" "env_ExecutionID sampleEnvelope = hcr_ExecutionID (rll_Source sampleLineage)"
    by (simp_all add: rolloverEnvelope_def sampleEnvelope_def sampleLineage_def)
  from rollover_is_final [OF allI [OF sampleSha_digest] stepped_run r rtranclp.rtrancl_refl, of sampleEnvelope None 2 2 sampleLease "''''" 0 rolloverEnvelope]
  show ?thesis unfolding k(1) using k(2) sample_stable(4) by (intro exI [of _ s]) auto
qed

end
