(* ===== verification/Execution_Log.thy ===== *)
theory Execution_Log
  imports Execution_Store
begin

text \<open>
  What the execution store promises, without maps, revisions and leases: one
  append-only list of envelopes per execution. An appended envelope carries its
  own position, is never put behind a transferred one, and a rollover appends
  the transferred source and opens the list of its target in one step. JSON keeps
  the texts of what is appended; only the first envelope of a target may have
  others, and then reads as corrupt. The store of testutil refines this log, retention included: pruning hides
  positions of the log and never changes one.
\<close>

type_synonym execution_log = "string \<Rightarrow> ExecutionEnvelope list"

definition openLog :: "ExecutionEnvelope list \<Rightarrow> bool" where
  "openLog es \<longleftrightarrow> (es = [] \<or> env_Transfer (last es) = None)"

definition atPosition :: "execution_log \<Rightarrow> string \<Rightarrow> ExecutionEnvelope \<Rightarrow> bool" where
  "atPosition l k e \<longleftrightarrow> env_ExecutionID e = k \<and> unat (env_Revision e) = Suc (length (l k))"

inductive log_step :: "execution_log \<Rightarrow> execution_log \<Rightarrow> bool" where
  append: "openLog (l k) \<Longrightarrow> atPosition l k e \<Longrightarrow> env_Transfer e = None \<Longrightarrow> jsonStable e \<Longrightarrow> log_step l (l(k := l k @ [e]))"
| transfer: "l k \<noteq> [] \<Longrightarrow> openLog (l k) \<Longrightarrow> l j = [] \<Longrightarrow> j \<noteq> k \<Longrightarrow> atPosition l k t \<Longrightarrow> atPosition l j c
    \<Longrightarrow> env_Transfer t = Some receipt \<Longrightarrow> jsonStable t \<Longrightarrow> env_Rollover c = Some (rrc_Lineage receipt)
    \<Longrightarrow> log_step l (l(k := l k @ [t], j := [c]))"

definition refinesLog :: "MemoryExecutionStore \<Rightarrow> execution_log \<Rightarrow> bool" where
  "refinesLog s l \<longleftrightarrow> (\<forall>k. length (l k) = unat (headOf s k))
    \<and> (\<forall>k r e. entryOf s k r = Some e \<longrightarrow> 0 < unat r \<and> unat r \<le> length (l k) \<and> l k ! (unat r - 1) = e)"

lemma refinesLogD:
  assumes "refinesLog s l"
  shows "length (l k) = unat (headOf s k)"
    and "entryOf s k r = Some e \<Longrightarrow> 0 < unat r \<and> unat r \<le> length (l k) \<and> l k ! (unat r - 1) = e"
  using assms unfolding refinesLog_def by blast+

lemma refines_head:
  assumes "refinesLog s l" and "entryOf s k (headOf s k) = Some e"
  shows "l k \<noteq> [] \<and> last (l k) = e"
proof -
  from refinesLogD(1) [OF assms(1), of k] refinesLogD(2) [OF assms] have "l k \<noteq> []" and n: "l k ! (length (l k) - 1) = e"
    by auto
  with last_conv_nth [of "l k"] show ?thesis by simp
qed

lemma refines_same:
  assumes "refinesLog s l" and "headOf s' = headOf s" and "\<And>k r e. entryOf s' k r = Some e \<Longrightarrow> entryOf s k r = Some e"
  shows "refinesLog s' l"
  using assms unfolding refinesLog_def by metis

lemma refines_append:
  assumes "refinesLog s l" and "headOf s k \<noteq> - 1"
    and "\<And>j. headOf s' j = (if j = k then headOf s k + 1 else headOf s j)"
    and "\<And>j r. entryOf s' j r = (if j = k \<and> r = headOf s k + 1 then Some e else entryOf s j r)"
  shows "refinesLog s' (l(k := l k @ [e]))"
proof -
  note u = unat_succ [OF assms(2)] and d = refinesLogD [OF assms(1)]
  have "0 < unat r \<and> unat r \<le> length ((l(k := l k @ [e])) j) \<and> (l(k := l k @ [e])) j ! (unat r - 1) = x"
    if "entryOf s' j r = Some x" for j r x
  proof (cases "j = k \<and> r = headOf s k + 1")
    case True
    then show ?thesis using that d(1) [of k] by (simp add: assms(4) u nth_append)
  next
    case False
    then have "entryOf s j r = Some x" using that unfolding assms(4) by (auto split: if_splits)
    then show ?thesis using d(2) [of j r x] by (auto simp: nth_append)
  qed
  then show ?thesis using d(1) by (simp add: refinesLog_def assms(3) u)
qed

lemma commit_refines:
  assumes "CommitExecution sha enc ctx now expected lease e s = (Ok result, s')" and "refinesLog s l"
  shows "\<exists>l'. log_step l l' \<and> refinesLog s' l'"
proof -
  let ?k = "env_ExecutionID e"
  obtain previous where c: "expected \<noteq> - 1" "headOf s ?k = expected"
    and p: "if expected = 0 then previous = None
      else \<exists>stored. previous = Some stored \<and> entryOf s ?k expected = Some stored
        \<and> ValidateExecutionIntegrity sha enc stored ?k expected = None \<and> anchored sha s ?k stored"
    and t: "ValidateExecutionRolloverTransition previous e = None"
    and r: "SealExecutionEnvelope sha enc (e\<lparr>env_Revision := expected + 1\<rparr>) = Ok result"
    and s': "s' = storeEnvelope result (expected = 0) s" and stable: "jsonStable result"
    using commit_Ok [OF assms(1)] by metis
  note f = seal_fields [OF r, simplified] and n = refinesLogD(1) [OF assms(2), of ?k]
  have o: "openLog (l ?k)" using p t refines_head [OF assms(2), of ?k] c(2) n
    by (auto simp: openLog_def ValidateExecutionRolloverTransition_def split: if_splits)
  have a: "atPosition l ?k result" using c n unat_succ [OF c(1)] by (simp add: atPosition_def f)
  have x: "env_Transfer result = None" using t by (auto simp: f ValidateExecutionRolloverTransition_def split: if_splits option.splits)
  have "refinesLog s' (l(?k := l ?k @ [result]))" by (rule refines_append [OF assms(2)]) (use c in \<open>auto simp: s' f\<close>)
  with log_step.append [OF o a x stable] show ?thesis by blast
qed

lemma rollover_refines:
  assumes "CommitRollover sha enc ctx now lease source target s = (Ok receipt, s')" and "refinesLog s l"
    and h: "history_inv sha enc s" and sha: "\<forall>x. validActivityDigest (sha x)"
  shows "\<exists>l'. log_step l l' \<and> refinesLog s' l'"
proof -
  obtain current t c where k: "headOf s (env_ExecutionID current) = env_Revision current"
      "entryOf s (env_ExecutionID current) (env_Revision current) = Some current"
    and tgt: "headOf s (env_ExecutionID target) = 0"
    and p: "PrepareExecutionRolloverPublication sha enc current target lease = Ok (t, c, receipt)"
    and s': "s' = storeRollover t c receipt s" and stable: "jsonStable current"
    using rollover_Ok [OF assms(1)] by metis
  let ?k = "env_ExecutionID current" and ?j = "env_ExecutionID target"
  note o = publication_Ok [OF p] and src = rolloverSource_None [OF publication_Ok(1) [OF p]]
  obtain g where g: "RolloverLineage_Validate sha g = None" "rll_TargetID g = ?j" "hcr_ExecutionID (rll_Source g) = ?k" "env_Rollover target = Some g"
    by (rule rolloverTarget_None [OF o(2)])
  have id: "env_ExecutionID c = ?j" "env_Revision c = 1" "env_ExecutionID t = ?k" "env_Revision t = env_Revision current + 1"
      "env_Transfer t = Some receipt" "env_Rollover c = Some (rrc_Lineage receipt)"
    using g(4) o(5) by (simp_all add: seal_fields [OF o(3)] seal_fields [OF o(4)] transferredSource_def)
  have ne: "?j \<noteq> ?k" using lineage_target [OF g(1)] g(2,3) by simp
  note n = refinesLogD(1) [OF assms(2)] and hd = refines_head [OF assms(2), of ?k current]
  have open_log: "l ?k \<noteq> []" "openLog (l ?k)" using hd k src(2) by (simp_all add: openLog_def)
  have empty: "l ?j = []" using n [of ?j] tgt by simp
  have pos: "atPosition l ?k t" "atPosition l ?j c"
    using n [of ?k] k(1) empty unat_succ [OF src(3)] by (simp_all add: atPosition_def id)
  have "refinesLog s' (l(?k := l ?k @ [t], ?j := [c]))"
  proof -
    let ?m = "storeEnvelope t False s"
    have "refinesLog ?m (l(?k := l ?k @ [t]))" by (rule refines_append [OF assms(2)]) (use k src(3) in \<open>auto simp: id\<close>)
    then have "refinesLog s' ((l(?k := l ?k @ [t]))(?j := (l(?k := l ?k @ [t])) ?j @ [c]))"
      by (rule refines_append)
        (use ne tgt no_entry_without_head [OF h tgt] in \<open>auto simp: s' id\<close>)
    then show ?thesis using ne empty by simp
  qed
  with log_step.transfer [OF open_log empty ne pos id(5) transferred_stable [OF p sha stable] id(6)] show ?thesis by blast
qed

lemma lease_refines:
  assumes "mes_history s' = mes_history s" and "mes_heads s' = mes_heads s" and "mes_lineage s' = mes_lineage s"
    and "mes_incoming s' = mes_incoming s" and "mes_outgoing s' = mes_outgoing s" and "refinesLog s l"
  shows "refinesLog s' l"
  by (rule refines_same [OF assms(6)]) (simp_all add: leases_only_history(1,2) [OF assms(1-5)])

lemma failed_or_Ok:
  assumes "op s = (result, s')" and "\<And>x. op s = (Inl x, s') \<Longrightarrow> s' = s" and "s' = s \<Longrightarrow> P" and "\<And>x. op s = (Ok x, s') \<Longrightarrow> P"
  shows P
  using assms by (cases result) auto

lemma store_step_refines:
  assumes "store_step sha enc s s'" and "store_inv sha enc s" and "refinesLog s l"
  shows "\<exists>l'. (l' = l \<or> log_step l l') \<and> refinesLog s' l'"
proof -
  from assms(2) have i: "lease_inv s" "history_inv sha enc s" "\<forall>x. validActivityDigest (sha x)" by (simp_all add: store_inv_def)
  have same: ?thesis if "refinesLog s' l" using that by blast
  then have failed: ?thesis if "s' = s" using that assms(3) by simp
  have step: ?thesis if "\<exists>l'. log_step l l' \<and> refinesLog s' l'" using that by blast
  have pruned: "refinesLog (prune request s) l" for request
    by (rule refines_same [OF assms(3)]) (auto simp: fun_eq_iff entryOf_prune split: if_splits)
  from assms(1) show ?thesis
  proof cases
    case acquire
    then show ?thesis
      by (rule failed_or_Ok) (erule store_errors(1), erule failed, rule same, rule lease_refines, (erule acquire_inv(7-11) [OF _ i(1)])+, rule assms(3))
  next
    case renew
    then show ?thesis
      by (rule failed_or_Ok) (erule store_errors(2), erule failed, rule same, rule lease_refines, (erule renew_inv(3-7) [OF _ i(1)])+, rule assms(3))
  next
    case release
    then show ?thesis
      by (rule failed_or_Ok) (erule store_errors(3), erule failed, rule same, rule lease_refines, (erule release_inv(3-7) [OF _ i(1)])+, rule assms(3))
  next
    case commit
    then show ?thesis by (rule failed_or_Ok) (erule store_errors(4), erule failed, rule step, erule commit_refines, rule assms(3))
  next
    case rollover
    then show ?thesis by (rule failed_or_Ok) (erule store_errors(5), erule failed, rule step, erule rollover_refines, rule assms(3), rule i(2), rule i(3))
  next
    case retain
    then show ?thesis by (rule failed_or_Ok) (erule store_errors(6), erule failed, drule retain_Ok(1), elim disjE, erule failed, rule same, simp add: pruned)
  qed
qed

interpretation memory_log: simulation "store_step sha enc" "store_inv sha enc" log_step refinesLog
proof
  show "\<exists>a'. (a' = a \<or> log_step a a') \<and> refinesLog s' a'"
    if "store_inv sha enc s" "store_step sha enc s s'" "refinesLog s a" for s s' a
    by (rule store_step_refines [OF that(2,1,3)])
qed

lemma new_store_refines: "refinesLog NewMemoryExecutionStore (\<lambda>_. [])"
  by (simp add: refinesLog_def NewMemoryExecutionStore_def headOf_def entryOf_def itemsOf_def)

text \<open>In the log only the first envelope of a rollover target may hold text that JSON does not keep.\<close>

definition stableLog :: "execution_log \<Rightarrow> bool" where
  "stableLog l \<longleftrightarrow> (\<forall>k i. i < length (l k) \<longrightarrow> jsonStable (l k ! i) \<or> i = 0 \<and> env_Rollover (l k ! 0) \<noteq> None)"

lemma log_step_stable: "log_step l l' \<Longrightarrow> stableLog l \<Longrightarrow> stableLog l'"
  by (induction rule: log_step.induct) (auto simp: stableLog_def nth_append less_Suc_eq)

lemma log_run_stable: "log_step\<^sup>*\<^sup>* (\<lambda>_. []) l \<Longrightarrow> stableLog l"
proof (induction rule: rtranclp_induct)
  case (step l l')
  then show ?case by (blast intro: log_step_stable)
qed (simp add: stableLog_def)

text \<open>
  C23. The store refines the append-only log. After any interleaving of its
  operations there is a log that the specification reaches from the empty one,
  the head of every execution is the length of its list, and every load
  answers with the envelope at the position it asks for, or that it is beyond
  the end, or that retention has hidden it; it reports corruption exactly when JSON
  does not keep the texts of that envelope, which is possible only for the first
  envelope of a rollover target.
\<close>

theorem store_refines_log:
  assumes "\<forall>x. validActivityDigest (sha x)" and "store_run sha enc NewMemoryExecutionStore s"
  shows "\<exists>l. log_step\<^sup>*\<^sup>* (\<lambda>_. []) l \<and> (\<forall>k. length (l k) = unat (headOf s k))
    \<and> (\<forall>k i. i < length (l k) \<longrightarrow> jsonStable (l k ! i) \<or> i = 0 \<and> env_Rollover (l k ! 0) \<noteq> None)
    \<and> (\<forall>k r. r \<noteq> 0 \<longrightarrow> LoadCheckpoint sha enc None k r s =
         (if length (l k) < unat r then Err ErrThreadNotFound
          else if entryOf s k r = None then Err ErrExecutionCheckpointUnavailable
          else if \<not> jsonStable (l k ! (unat r - 1)) then Err ErrExecutionCorrupt
          else Ok (l k ! (unat r - 1))))"
proof -
  note i = run_store_inv [OF assms]
  obtain l where l: "log_step\<^sup>*\<^sup>* (\<lambda>_. []) l" "refinesLog s l"
    using memory_log.run_simulated [OF assms(2) new_store_inv [OF assms(1)] new_store_refines] by blast
  have "LoadCheckpoint sha enc None k r s =
         (if length (l k) < unat r then Err ErrThreadNotFound
          else if entryOf s k r = None then Err ErrExecutionCheckpointUnavailable
          else if \<not> jsonStable (l k ! (unat r - 1)) then Err ErrExecutionCorrupt
          else Ok (l k ! (unat r - 1)))" if "r \<noteq> 0" for k r
    using refinesLogD(1) [OF l(2), of k] refinesLogD(2) [OF l(2), of k r]
    by (cases "entryOf s k r") (auto simp: LoadCheckpoint_eq [OF i that] word_less_nat_alt)
  with l(1) refinesLogD(1) [OF l(2)] log_run_stable [OF l(1), unfolded stableLog_def] show ?thesis by blast
qed

theorem store_refines_log_witness:
  "\<exists>l. log_step\<^sup>*\<^sup>* (\<lambda>_. []) l \<and> LoadCheckpoint sampleSha sampleEnc None ''e'' 1 steppedStore = Ok (l ''e'' ! 0)"
proof -
  have e: "entryOf steppedStore ''e'' 1 = Some steppedEnvelope" "headOf steppedStore ''e'' = 1"
    by (simp_all add: steppedStore_def steppedEnvelope_fields)
  from store_refines_log [OF allI [OF sampleSha_digest] stepped_run]
  obtain l where l: "log_step\<^sup>*\<^sup>* (\<lambda>_. []) l" "\<And>k. length (l k) = unat (headOf steppedStore k)"
    and c: "\<And>k r. r \<noteq> 0 \<Longrightarrow> LoadCheckpoint sampleSha sampleEnc None k r steppedStore =
         (if length (l k) < unat r then Err ErrThreadNotFound
          else if entryOf steppedStore k r = None then Err ErrExecutionCheckpointUnavailable
          else if \<not> jsonStable (l k ! (unat r - 1)) then Err ErrExecutionCorrupt
          else Ok (l k ! (unat r - 1)))" by blast
  have "LoadCheckpoint sampleSha sampleEnc None ''e'' 1 steppedStore = Ok steppedEnvelope"
    using LoadCheckpoint_eq [OF run_store_inv [OF allI [OF sampleSha_digest] stepped_run], of 1 "''e''"]
    by (simp add: e sample_stable)
  moreover have "LoadCheckpoint sampleSha sampleEnc None ''e'' 1 steppedStore
      = (if \<not> jsonStable (l ''e'' ! 0) then Err ErrExecutionCorrupt else Ok (l ''e'' ! 0))"
    using c [of 1 "''e''"] l(2) [of "''e''"] by (simp add: e)
  ultimately have "LoadCheckpoint sampleSha sampleEnc None ''e'' 1 steppedStore = Ok (l ''e'' ! 0)"
    by (simp split: if_splits)
  with l(1) show ?thesis by blast
qed

section \<open>Retention\<close>

lemma retain_present:
  assumes "RetainExecution sha enc ctx now request s = (Ok receipt, s')"
    and "entryOf s (rtr_ExecutionID request) (rtr_Revision request) \<noteq> None"
  shows "s' = prune request s" and "rtc_DeletedRevisions receipt
      = int (length (filter (\<lambda>(r, _). \<not> ExecutionRevisionRetained request r) (itemsOf s (rtr_ExecutionID request))))"
    and "rtp_DeletePayload (rtr_Policy request) \<Longrightarrow> \<exists>e t. entryOf s (rtr_ExecutionID request) (rtr_Revision request) = Some e \<and> env_Terminal e = Some t"
  using assms unfolding RetainExecution_def Let_def writes_Ok_iff check_Ok_iff
  by (auto simp: res_simps prune_def split: if_splits)

text \<open>
  Pruning is safe. When a retention request succeeds on an execution whose
  head is readable, every retained revision loads as before, every other one
  reports an unavailable checkpoint, no other execution, head, fence or lineage
  changes, and the receipt counts the deleted entries; without payload deletion
  the head and the protected revisions are retained, and with it the execution
  was terminal.
\<close>

theorem retention_is_safe:
  assumes "\<forall>x. validActivityDigest (sha x)" and "store_run sha enc NewMemoryExecutionStore s"
    and "LoadExecution sha enc None (rtr_ExecutionID request) s = Ok e"
    and "RetainExecution sha enc ctx now request s = (Ok receipt, s')" and "r \<noteq> 0"
  shows "(LoadCheckpoint sha enc None k r s' =
      (if k = rtr_ExecutionID request \<and> r \<le> headOf s k \<and> \<not> ExecutionRevisionRetained request r then Err ErrExecutionCheckpointUnavailable
       else LoadCheckpoint sha enc None k r s))
    \<and> headOf s' = headOf s \<and> fenceOf s' = fenceOf s \<and> mes_lineage s' = mes_lineage s
    \<and> mes_incoming s' = mes_incoming s \<and> mes_outgoing s' = mes_outgoing s
    \<and> rtc_DeletedRevisions receipt = int (length (itemsOf s (rtr_ExecutionID request))) - int (length (itemsOf s' (rtr_ExecutionID request)))
    \<and> (if rtp_DeletePayload (rtr_Policy request) then env_Terminal e \<noteq> None
       else LoadExecution sha enc None (rtr_ExecutionID request) s' = Ok e
         \<and> list_all (\<lambda>p. entryOf s' (rtr_ExecutionID request) p \<noteq> None) (rtp_ProtectedRevisions (rtr_Policy request)))"
proof -
  let ?k = "rtr_ExecutionID request"
  note i = run_store_inv [OF assms(1,2)]
  note step = rtranclp.rtrancl_into_rtrancl [OF assms(2) store_step.retain [OF assms(4)]]
  note i' = run_store_inv [OF assms(1) step] and o = retain_Ok [OF assms(4)]
  from assms(3) have e: "entryOf s ?k (headOf s ?k) = Some e" "headOf s ?k \<noteq> 0" "jsonStable e"
    by (auto simp: LoadExecution_def decode_entry [OF i] split: if_splits option.splits)
  note p = retain_present [OF assms(4)]
  have s': "s' = prune request s" using p(1) e(1) o(3) by simp
  have kept: "ExecutionRevisionRetained request q"
    if "\<not> rtp_DeletePayload (rtr_Policy request)" "q = headOf s ?k \<or> q \<in> set (rtp_ProtectedRevisions (rtr_Policy request))" for q
    using that o(3) by (auto simp: ExecutionRevisionRetained_def Let_def)
  have load: "LoadCheckpoint sha enc None k r s' = (if k = ?k \<and> r \<le> headOf s k \<and> \<not> ExecutionRevisionRetained request r
      then Err ErrExecutionCheckpointUnavailable else LoadCheckpoint sha enc None k r s)"
    by (auto simp: LoadCheckpoint_eq [OF i assms(5)] LoadCheckpoint_eq [OF i' assms(5), unfolded s'] s' entryOf_prune not_less)
  have count: "rtc_DeletedRevisions receipt = int (length (itemsOf s ?k)) - int (length (itemsOf s' ?k))"
    using p(2) e(1) o(3) sum_length_filter_compl [of "\<lambda>(r, _). ExecutionRevisionRetained request r" "itemsOf s ?k"]
    by (simp add: s' prune_def itemsOf_def case_prod_unfold)
  have protected: "entryOf s' ?k q \<noteq> None"
    if "\<not> rtp_DeletePayload (rtr_Policy request)" "q \<in> set (rtp_ProtectedRevisions (rtr_Policy request))" for q
  proof -
    have "validateRetentionProtected sha enc s request = None" using o(5) assms(4) e(1) o(3)
      unfolding RetainExecution_def Let_def writes_Ok_iff check_Ok_iff by (auto simp: res_simps split: if_splits)
    then have "entryOf s ?k q \<noteq> None" using that(2) by (auto simp: validateRetentionProtected_def firstErr_None_iff split: if_splits)
    then show ?thesis using kept [OF that(1), of q] that(2) by (simp add: s' entryOf_prune)
  qed
  have head: "LoadExecution sha enc None ?k s' = Ok e" if "\<not> rtp_DeletePayload (rtr_Policy request)"
    using e kept [OF that, of "headOf s ?k"] decode_entry [OF i', of ?k "headOf s ?k"] by (simp add: LoadExecution_def s' entryOf_prune)
  have "env_Terminal e \<noteq> None" if "rtp_DeletePayload (rtr_Policy request)" using p(3) that e(1) o(3) by auto
  with load count protected head show ?thesis by (auto simp: s' fun_eq_iff list_all_iff)
qed

definition steppedRetention :: ExecutionRetentionRequest where
  "steppedRetention = \<lparr>rtr_ExecutionID = ''e'', rtr_Revision = 1,
     rtr_Policy = \<lparr>rtp_Label = ''l'', rtp_KeepLast = 1, rtp_DeletePayload = False, rtp_ProtectedRevisions = []\<rparr>\<rparr>"

lemma stepped_load:
  "decodeAnchoredExecution sampleSha sampleEnc steppedStore (entryOf steppedStore ''e'' 1) ''e'' 1 = Ok steppedEnvelope"
  "entryOf steppedStore ''e'' 1 = Some steppedEnvelope" "headOf steppedStore ''e'' = 1"
  using decode_entry [OF run_store_inv [OF allI [OF sampleSha_digest] stepped_run], of "''e''" 1]
  by (simp_all add: steppedStore_def steppedEnvelope_fields sample_stable)

lemma stepped_retain:
  "\<exists>receipt. RetainExecution sampleSha sampleEnc None 20 steppedRetention steppedStore = (Ok receipt, prune steppedRetention steppedStore)"
proof -
  have b: "ValidateExecutionLifecycleBoundary sampleSha sampleEnc steppedEnvelope = None"
    using steppedEnvelope_source by (auto simp: validateRolloverSource_def res_simps split: if_splits)
  have v: "ExecutionRetentionRequest_Validate steppedRetention = None"
    by (simp add: ExecutionRetentionRequest_Validate_def steppedRetention_def byte_def Let_def)
  have f: "rtr_ExecutionID steppedRetention = ''e''" "rtr_Revision steppedRetention = 1" "\<not> rtp_DeletePayload (rtr_Policy steppedRetention)"
      "rtp_ProtectedRevisions (rtr_Policy steppedRetention) = []"
    by (simp_all add: steppedRetention_def)
  have l: "\<not> 20 < lse_ExpiresAt (leaseOf steppedStore ''e'')"
    by (simp add: steppedStore_def leasedStore_def leaseOf_def sampleLease_def)
  show ?thesis
    by (simp add: RetainExecution_def Let_def v f l stepped_load stepped_load(1) [unfolded stepped_load(2)] b validateRetentionProtected_def
        writes_def prune_def)
qed

theorem retention_is_safe_witness:
  "LoadExecution sampleSha sampleEnc None ''e'' (prune steppedRetention steppedStore) = Ok steppedEnvelope"
proof -
  obtain receipt where r: "RetainExecution sampleSha sampleEnc None 20 steppedRetention steppedStore
      = (Ok receipt, prune steppedRetention steppedStore)"
    using stepped_retain by blast
  have f: "rtr_ExecutionID steppedRetention = ''e''" "\<not> rtp_DeletePayload (rtr_Policy steppedRetention)" by (simp_all add: steppedRetention_def)
  have "LoadExecution sampleSha sampleEnc None (rtr_ExecutionID steppedRetention) steppedStore = Ok steppedEnvelope"
    unfolding f LoadExecution_def stepped_load(3) using stepped_load(1) by simp
  from retention_is_safe [OF allI [OF sampleSha_digest] stepped_run this r, of 1] f show ?thesis by simp
qed

end
