(* ===== verification/Flow_Directive.thy ===== *)
theory Flow_Directive
  imports Execution_Envelope
begin

text \<open>
  The values that a node, the runner and a host exchange (flowy.go): directives
  with their attached effects, resume plans and tokens, snapshots, results,
  events and the handoff intents of the outbox. A value of Go's type \<open>any\<close> is a
  value of the type \<open>'a\<close>, and a type assertion to \<open>E\<close> is a function to \<open>'e option\<close>.
\<close>

section \<open>Directives\<close>

datatype directiveKind = directiveCompleted | directiveEnd | directiveSuspend | directiveRetry | directiveEffect
  | directiveFail | directiveHandoff | directiveWait | directiveNext | directiveKindOther int

abbreviation zeroKind :: directiveKind where
  "zeroKind \<equiv> directiveKindOther 0"

datatype 'a Directive = Directive
  (dir_kind: directiveKind)
  (dir_reason: string)
  (dir_maxAttempts: int)
  (dir_resumeAt: string)
  (dir_base: "'a Directive option")
  (dir_effect: "'a option")
  (dir_wait: "DurableWaitSpec option")

definition directiveWithKind :: "directiveKind \<Rightarrow> 'a Directive" where
  "directiveWithKind kind = Directive kind '''' 0 '''' None None None"

text \<open>An option is a function that updates the directive; a nil option is skipped.\<close>

type_synonym 'a DirectiveOption = "('a Directive \<Rightarrow> 'a Directive) option"

definition ResumeAt :: "string \<Rightarrow> 'a DirectiveOption" where
  "ResumeAt pointer = Some (\<lambda>d. Directive (dir_kind d) (dir_reason d) (dir_maxAttempts d) pointer (dir_base d) (dir_effect d) (dir_wait d))"

definition applyDirectiveOptions :: "'a Directive \<Rightarrow> 'a DirectiveOption list \<Rightarrow> 'a Directive" where
  "applyDirectiveOptions d opts = fold (\<lambda>opt d. case opt of None \<Rightarrow> d | Some f \<Rightarrow> f d) opts d"

definition Completed :: "'a Directive" where
  "Completed = directiveWithKind directiveCompleted"

definition End :: "'a Directive" where
  "End = directiveWithKind directiveEnd"

definition Suspend :: "string \<Rightarrow> 'a DirectiveOption list \<Rightarrow> 'a Directive" where
  "Suspend reason opts = applyDirectiveOptions (Directive directiveSuspend reason 0 '''' None None None) opts"

definition Await :: "DurableWaitSpec \<Rightarrow> 'a Directive" where
  "Await spec = Directive directiveWait '''' 0 '''' None None (Some spec)"

definition Fail :: "string \<Rightarrow> 'a Directive" where
  "Fail reason = Directive directiveFail reason 0 '''' None None None"

definition Handoff :: "string \<Rightarrow> 'a DirectiveOption list \<Rightarrow> 'a Directive" where
  "Handoff reason opts = applyDirectiveOptions (Directive directiveHandoff reason 0 '''' None None None) opts"

definition Retry :: "int \<Rightarrow> 'a Directive" where
  "Retry maxAttempts = Directive directiveRetry '''' maxAttempts '''' None None None"

definition Effect :: "'a Directive \<Rightarrow> 'a \<Rightarrow> 'a Directive" where
  "Effect base payload = Directive directiveEffect '''' 0 '''' (Some base) (Some payload) None"

definition IsCompleted :: "'a Directive \<Rightarrow> bool" where
  "IsCompleted d \<longleftrightarrow> dir_kind d = directiveCompleted"

definition directiveType :: "'a Directive \<Rightarrow> string" where
  "directiveType d = (case dir_kind d of
     directiveCompleted \<Rightarrow> ''completed'' | directiveEnd \<Rightarrow> ''end'' | directiveSuspend \<Rightarrow> ''suspend''
   | directiveWait \<Rightarrow> ''durable_wait'' | directiveRetry \<Rightarrow> ''retry'' | directiveEffect \<Rightarrow> ''effect''
   | directiveFail \<Rightarrow> ''fail'' | directiveHandoff \<Rightarrow> ''handoff'' | directiveNext \<Rightarrow> ''next''
   | directiveKindOther _ \<Rightarrow> ''unknown'')"

text \<open>
  The loop of \<open>UnwrapDirective\<close>; \<open>effects\<close> are the payloads so far, outermost
  first. A nil effect fails the type assertion.
\<close>

fun unwrap_loop :: "('a \<Rightarrow> 'e option) \<Rightarrow> 'a Directive \<Rightarrow> 'e list \<Rightarrow> ('a Directive \<times> 'e list) res" where
  "unwrap_loop as (Directive kind reason n at base effect w) effects =
    (if kind = directiveEffect then
       (case Option.bind effect as of
          None \<Rightarrow> Inl (Plain ''flowy: effect type mismatch'')
        | Some payload \<Rightarrow>
            (case base of
               None \<Rightarrow> Inl (Plain ''flowy: Effect requires base directive'')
             | Some inner \<Rightarrow> unwrap_loop as inner (effects @ [payload])))
     else if kind = zeroKind then Inl (Plain ''flowy: zero directive is not allowed'')
     else Ok (Directive kind reason n at base effect w, rev effects))"

definition UnwrapDirective :: "('a \<Rightarrow> 'e option) \<Rightarrow> 'a Directive \<Rightarrow> ('a Directive \<times> 'e list) res" where
  "UnwrapDirective as d = unwrap_loop as d []"

section \<open>Resume plans and tokens\<close>

record ResumePlan =
  rpn_target :: string
  rpn_useCurrent :: bool

definition ResumeCurrent :: ResumePlan where
  "ResumeCurrent = \<lparr>rpn_target = '''', rpn_useCurrent = True\<rparr>"

definition ResumeTo :: "string \<Rightarrow> ResumePlan" where
  "ResumeTo pointer = \<lparr>rpn_target = pointer, rpn_useCurrent = False\<rparr>"

definition ResumePlan_resolve :: "ResumePlan \<Rightarrow> string \<Rightarrow> string res" where
  "ResumePlan_resolve p current =
    (if rpn_useCurrent p then Ok current
     else if rpn_target p = '''' then Err ErrInvalidResumePlan
     else Ok (rpn_target p))"

record ResumeToken =
  tok_ThreadID :: string
  tok_SnapshotRevision :: uint64

abbreviation noToken :: ResumeToken where
  "noToken \<equiv> \<lparr>tok_ThreadID = '''', tok_SnapshotRevision = 0\<rparr>"

section \<open>Handoff intents\<close>

record HandoffIntent =
  hin_ThreadID :: string
  hin_ExecutionPointer :: string
  hin_Reason :: string
  hin_HandoffStatus :: HandoffStatus
  hin_PendingSnapshotRevision :: uint64
  hin_CommittedSnapshotRevision :: uint64
  hin_SnapshotRevision :: uint64
  hin_ResumeToken :: ResumeToken

definition buildHandoffIntent :: "string \<Rightarrow> string \<Rightarrow> string \<Rightarrow> HandoffStatus \<Rightarrow> uint64 \<Rightarrow> uint64 \<Rightarrow> HandoffIntent" where
  "buildHandoffIntent threadID pointer reason status pendingRevision committedRevision =
    \<lparr>hin_ThreadID = threadID, hin_ExecutionPointer = pointer, hin_Reason = reason, hin_HandoffStatus = status,
     hin_PendingSnapshotRevision = pendingRevision, hin_CommittedSnapshotRevision = committedRevision,
     hin_SnapshotRevision = committedRevision,
     hin_ResumeToken = \<lparr>tok_ThreadID = threadID, tok_SnapshotRevision = committedRevision\<rparr>\<rparr>"

definition invalidIntent :: "string \<Rightarrow> err" where
  "invalidIntent text = Wrapped text [Sent ErrInvalidHandoffIntent]"

definition validateHandoffIntent :: "HandoffIntent \<Rightarrow> err option" where
  "validateHandoffIntent i =
    (if hin_ThreadID i = '''' then Some (invalidIntent ''empty thread ID'')
     else if hin_ExecutionPointer i = '''' then Some (invalidIntent ''empty execution pointer'')
     else if hin_HandoffStatus i \<noteq> HandoffStatusEnqueued then Some (invalidIntent ''handoff intent status must be enqueued'')
     else if hin_PendingSnapshotRevision i = 0 then Some (invalidIntent ''zero pending snapshot revision'')
     else if hin_CommittedSnapshotRevision i = 0 then Some (invalidIntent ''zero committed snapshot revision'')
     else if hin_SnapshotRevision i = 0 then Some (invalidIntent ''zero snapshot revision'')
     else if tok_ThreadID (hin_ResumeToken i) \<noteq> hin_ThreadID i then Some (invalidIntent ''resume token thread mismatch'')
     else if tok_SnapshotRevision (hin_ResumeToken i) \<noteq> hin_SnapshotRevision i then Some (invalidIntent ''resume token revision mismatch'')
     else if hin_SnapshotRevision i \<noteq> hin_CommittedSnapshotRevision i
       then Some (invalidIntent ''snapshot revision does not match committed revision'')
     else if hin_PendingSnapshotRevision i > hin_CommittedSnapshotRevision i
       then Some (invalidIntent ''pending revision is after committed revision'')
     else None)"

definition NewHandoffIntent :: "string \<Rightarrow> string \<Rightarrow> string \<Rightarrow> HandoffStatus \<Rightarrow> uint64 \<Rightarrow> uint64 \<Rightarrow> HandoffIntent res" where
  "NewHandoffIntent threadID pointer reason status pendingRevision committedRevision =
    (let intent = buildHandoffIntent threadID pointer reason status pendingRevision committedRevision in
     check (validateHandoffIntent intent) (Ok intent))"

section \<open>Snapshots, results and events\<close>

record ('t, 'e) Snapshot =
  snp_ThreadID :: string
  snp_ExecutionPointer :: string
  snp_Revision :: uint64
  snp_State :: 't
  snp_RunMeta :: RunMetadata
  snp_Effects :: "'e list"

datatype CheckpointFailurePolicy = CheckpointPolicyHardFail | CheckpointPolicySkipOnSaveError | CheckpointPolicyOther string

record ('t, 'e) RunResult =
  rst_State :: 't
  rst_Status :: RunStatus
  rst_Effects :: "'e list"
  rst_RunMeta :: RunMetadata
  rst_ExecutionPointer :: string
  rst_Reason :: string
  rst_ResumeToken :: ResumeToken

datatype EventType = EventNodeStarted | EventNodeCompleted | EventCompleted | EventSuspended | EventFailed
  | EventHandoff | EventContextCanceled | EventCheckpointFailed

record ('t, 'e) RunEvent =
  evt_Type :: EventType
  evt_ExecutionPointer :: string
  evt_State :: 't
  evt_Effect :: "'e option"
  evt_Error :: "err option"
  evt_Duration :: duration
  evt_Reason :: string

datatype ResumeDecisionStatus = ResumeDecisionReady | ResumeDecisionInvalidToken | ResumeDecisionThreadNotFound
  | ResumeDecisionStaleToken | ResumeDecisionInvalidSnapshot | ResumeDecisionLoadFailed | ResumeDecisionHandoffPending
  | ResumeDecisionHandoffRecoverable | ResumeDecisionHandoffAlreadyScheduled | ResumeDecisionHandoffNotRecoverable

record ('t, 'e) ResumeDecision =
  dcn_Status :: ResumeDecisionStatus
  dcn_ThreadID :: string
  dcn_ResumeToken :: ResumeToken
  dcn_Snapshot :: "('t, 'e) Snapshot"
  dcn_SnapshotRevision :: uint64
  dcn_ExecutionPointer :: string
  dcn_HandoffStatus :: HandoffStatus
  dcn_Reason :: string
  dcn_Err :: "err option"
  dcn_State :: 't
  dcn_RunMeta :: RunMetadata
  dcn_Effects :: "'e list"

definition ResumeDecision_Ready :: "('t, 'e) ResumeDecision \<Rightarrow> bool" where
  "ResumeDecision_Ready d \<longleftrightarrow> dcn_Status d = ResumeDecisionReady \<and> dcn_Err d = None"

section \<open>What unwrapping returns\<close>

text \<open>A directive whose effects are attached one after the other.\<close>

definition WithEffects :: "'a Directive \<Rightarrow> 'a list \<Rightarrow> 'a Directive" where
  "WithEffects base payloads = fold (\<lambda>p d. Effect d p) payloads base"

lemma WithEffects_snoc [simp]: "WithEffects base (ps @ [p]) = Effect (WithEffects base ps) p"
  by (simp add: WithEffects_def)

lemma WithEffects_Nil [simp]: "WithEffects base [] = base"
  by (simp add: WithEffects_def)

lemma unwrap_base:
  "dir_kind d \<noteq> directiveEffect \<Longrightarrow>
    unwrap_loop as d es = (if dir_kind d = zeroKind then Inl (Plain ''flowy: zero directive is not allowed'') else Ok (d, rev es))"
  by (cases d) simp

lemma unwrap_attached:
  assumes "dir_kind base \<noteq> directiveEffect" and "dir_kind base \<noteq> zeroKind" and "map as ps = map Some es"
  shows "unwrap_loop as (WithEffects base ps) es' = Ok (base, es @ rev es')"
  using assms(3)
proof (induction ps arbitrary: es es' rule: rev_induct)
  case Nil
  then show ?case using assms by (simp add: unwrap_base)
next
  case (snoc p ps)
  then obtain e es1 where es: "es = es1 @ [e]" "as p = Some e" "map as ps = map Some es1"
    by (cases es rule: rev_cases) auto
  then show ?case using snoc.IH by (simp add: Effect_def)
qed

lemma unwrap_Ok:
  assumes "unwrap_loop as d es' = Ok (base, es)"
  shows "dir_kind base \<noteq> directiveEffect \<and> dir_kind base \<noteq> zeroKind
    \<and> (\<exists>es1. es = es1 @ rev es' \<and> (d = base \<longleftrightarrow> es1 = []) \<and> (dir_kind d \<noteq> directiveEffect \<longrightarrow> d = base))"
  using assms
proof (induction as d es' rule: unwrap_loop.induct)
  case (1 as kind reason n at b effect w effects)
  show ?case
  proof (cases "kind = directiveEffect")
    case False
    then show ?thesis using "1.prems" by (auto split: if_splits)
  next
    case True
    then obtain p inner where i: "Option.bind effect as = Some p" "b = Some inner"
      and r: "unwrap_loop as inner (effects @ [p]) = Ok (base, es)"
      using "1.prems" by (auto split: option.splits)
    from "1.IH" [OF True i r] obtain es1 where "dir_kind base \<noteq> directiveEffect" "dir_kind base \<noteq> zeroKind"
        "es = (es1 @ [p]) @ rev effects" by auto
    then show ?thesis using True by auto
  qed
qed

lemma unwrap_zero:
  assumes "dir_kind base = zeroKind" and "\<forall>p \<in> set ps. as p \<noteq> None"
  shows "unwrap_loop as (WithEffects base ps) es' = Inl (Plain ''flowy: zero directive is not allowed'')"
  using assms(2)
proof (induction ps arbitrary: es' rule: rev_induct)
  case Nil
  then show ?case using assms(1) by (simp add: unwrap_base)
next
  case (snoc p ps)
  then show ?case by (auto simp: Effect_def)
qed

lemma unwrap_mismatch:
  assumes "\<exists>p \<in> set ps. as p = None"
  shows "unwrap_loop as (WithEffects base ps) es' = Inl (Plain ''flowy: effect type mismatch'')"
  using assms by (induction ps arbitrary: es' rule: rev_induct) (auto simp: Effect_def split: option.split)

text \<open>
  C24. Unwrapping a directive is the inverse of attaching effects. A directive that
  is not an effect itself, with any number of effects attached, unwraps to that base
  and to the effects in the order in which they were attached, unless one of them is
  of another type or the base is the zero directive: then it fails with exactly that
  complaint, however many effects are attached to the zero directive. Whatever
  unwraps has a base that is neither an effect nor the zero directive, so the runner
  never dispatches on either.
\<close>

theorem unwrap_inverts_effects:
  assumes "dir_kind base \<noteq> directiveEffect"
  shows "UnwrapDirective as (WithEffects base ps) =
      (if \<exists>p \<in> set ps. as p = None then Inl (Plain ''flowy: effect type mismatch'')
       else if dir_kind base = zeroKind then Inl (Plain ''flowy: zero directive is not allowed'')
       else Ok (base, map (the \<circ> as) ps))
    \<and> (UnwrapDirective as d = Ok (b, es) \<longrightarrow> dir_kind b \<noteq> directiveEffect \<and> dir_kind b \<noteq> zeroKind
         \<and> (dir_kind d \<noteq> directiveEffect \<longrightarrow> b = d \<and> es = []))"
proof -
  have "unwrap_loop as (WithEffects base ps) [] = Ok (base, map (the \<circ> as) ps)"
    if "\<forall>p \<in> set ps. as p \<noteq> None" "dir_kind base \<noteq> zeroKind"
  proof -
    have "map as ps = map Some (map (the \<circ> as) ps)" using that(1) by (induction ps) auto
    from unwrap_attached [OF assms that(2) this, of "[]"] show ?thesis by simp
  qed
  then show ?thesis
    using unwrap_Ok [of as d "[]" b es] unwrap_zero [of base ps as "[]"] unwrap_mismatch [of ps as base "[]"]
    by (auto simp: UnwrapDirective_def)
qed

theorem unwrap_inverts_effects_witness:
  "UnwrapDirective (\<lambda>n. if n < 10 then Some (int n) else None) (WithEffects (Suspend ''s'' [ResumeAt ''n'']) [1, 2, 3])
     = Ok (Suspend ''s'' [ResumeAt ''n''], [1, 2, 3])"
proof -
  have "dir_kind (Suspend ''s'' [ResumeAt ''n''] :: nat Directive) = directiveSuspend"
    by (simp add: Suspend_def applyDirectiveOptions_def ResumeAt_def)
  with unwrap_inverts_effects [of "Suspend ''s'' [ResumeAt ''n'']" "\<lambda>n. if n < 10 then Some (int n) else None" "[1, 2, 3]"]
  show ?thesis by simp
qed

end
