(* ===== verification/Graph_Builder.thy ===== *)
theory Graph_Builder
  imports Flow_Directive "HOL-Library.Char_ord" "HOL-Library.List_Lexorder"
begin

text \<open>
  The graph builder and its compiler (builder.go, options.go, middleware.go). A
  node handler is a value of the type \<open>'h\<close> and an edge router one of the type
  \<open>'r\<close>; nil is \<open>None\<close>. The errors of the compiler are values of a datatype, one
  constructor per message; \<open>text\<close> is their formatting, by which they are sorted.
\<close>

definition EndNode :: string where
  "EndNode = ''__end__''"

section \<open>Options\<close>

record runConfig =
  rcf_maxSteps :: int
  rcf_deleteOnSuccess :: bool
  rcf_retentionLimit :: int
  rcf_budgetLimits :: "(string, int) gomap"

type_synonym BuildOption = "runConfig \<Rightarrow> runConfig"

definition defaultMaxSteps :: int where
  "defaultMaxSteps = 1000"

definition WithMaxSteps :: "int \<Rightarrow> BuildOption" where
  "WithMaxSteps limit o' = o'\<lparr>rcf_maxSteps := limit\<rparr>"

definition WithNamedBudget :: "string \<Rightarrow> int \<Rightarrow> BuildOption" where
  "WithNamedBudget name limit o' = o'\<lparr>rcf_budgetLimits := put name limit (rcf_budgetLimits o')\<rparr>"

definition WithDeleteOnSuccess :: "bool \<Rightarrow> BuildOption" where
  "WithDeleteOnSuccess enabled o' = o'\<lparr>rcf_deleteOnSuccess := enabled\<rparr>"

definition WithRetentionLimit :: "int \<Rightarrow> BuildOption" where
  "WithRetentionLimit limit o' = o'\<lparr>rcf_retentionLimit := limit\<rparr>"

definition applyBuildOptions :: "BuildOption list \<Rightarrow> runConfig" where
  "applyBuildOptions opts =
    (let o' = fold (\<lambda>opt o'. opt o') opts
        \<lparr>rcf_maxSteps = defaultMaxSteps, rcf_deleteOnSuccess = False, rcf_retentionLimit = 0, rcf_budgetLimits = []\<rparr>
     in if rcf_maxSteps o' \<le> 0 then o'\<lparr>rcf_maxSteps := defaultMaxSteps\<rparr> else o')"

section \<open>The builder\<close>

record 'r conditionalEdgeDef =
  ced_router :: "'r option"
  ced_allowed :: "string list"

record ('t, 'h, 'r) GraphBuilder =
  bld_reducer :: "('t \<Rightarrow> 't \<Rightarrow> 't) option"
  bld_nodes :: "(string, 'h option) gomap"
  bld_edges :: "(string, string) gomap"
  bld_conditionalEdges :: "(string, 'r conditionalEdgeDef) gomap"
  bld_retryRoutes :: "(string, string) gomap"
  bld_middlewares :: "('h option \<Rightarrow> 'h option) option list"
  bld_entryPoint :: string
  bld_overwrittenNodes :: "(string, bool) gomap"
  bld_overwrittenEdgeFrom :: "(string, bool) gomap"
  bld_overwrittenRouterFrom :: "(string, bool) gomap"
  bld_overwrittenRetryFrom :: "(string, bool) gomap"
  bld_noOutgoingRoute :: "(string, bool) gomap"

definition NewGraph :: "('t \<Rightarrow> 't \<Rightarrow> 't) option \<Rightarrow> ('t, 'h, 'r) GraphBuilder" where
  "NewGraph reducer = \<lparr>bld_reducer = reducer, bld_nodes = [], bld_edges = [], bld_conditionalEdges = [], bld_retryRoutes = [],
     bld_middlewares = [], bld_entryPoint = '''', bld_overwrittenNodes = [], bld_overwrittenEdgeFrom = [],
     bld_overwrittenRouterFrom = [], bld_overwrittenRetryFrom = [], bld_noOutgoingRoute = []\<rparr>"

definition AllowNoOutgoingRoute :: "string \<Rightarrow> ('t, 'h, 'r) GraphBuilder \<Rightarrow> ('t, 'h, 'r) GraphBuilder" where
  "AllowNoOutgoingRoute name b = b\<lparr>bld_noOutgoingRoute := put name True (bld_noOutgoingRoute b)\<rparr>"

text \<open>A second registration under one name is remembered and replaces the first.\<close>

definition mark :: "(string, 'v) gomap \<Rightarrow> string \<Rightarrow> (string, bool) gomap \<Rightarrow> (string, bool) gomap" where
  "mark m name marks = (if lookup m name \<noteq> None then put name True marks else marks)"

definition AddNode :: "string \<Rightarrow> 'h option \<Rightarrow> ('t, 'h, 'r) GraphBuilder \<Rightarrow> ('t, 'h, 'r) GraphBuilder" where
  "AddNode name fn b = b\<lparr>bld_overwrittenNodes := mark (bld_nodes b) name (bld_overwrittenNodes b),
     bld_nodes := put name fn (bld_nodes b)\<rparr>"

definition AddEdge :: "string \<Rightarrow> string \<Rightarrow> ('t, 'h, 'r) GraphBuilder \<Rightarrow> ('t, 'h, 'r) GraphBuilder" where
  "AddEdge from to b = b\<lparr>bld_overwrittenEdgeFrom := mark (bld_edges b) from (bld_overwrittenEdgeFrom b),
     bld_edges := put from to (bld_edges b)\<rparr>"

definition AddConditionalEdge :: "string \<Rightarrow> 'r option \<Rightarrow> string list \<Rightarrow> ('t, 'h, 'r) GraphBuilder \<Rightarrow> ('t, 'h, 'r) GraphBuilder" where
  "AddConditionalEdge from router allowedTargets b =
    b\<lparr>bld_overwrittenRouterFrom := mark (bld_conditionalEdges b) from (bld_overwrittenRouterFrom b),
      bld_conditionalEdges := put from \<lparr>ced_router = router, ced_allowed = remdups allowedTargets\<rparr> (bld_conditionalEdges b)\<rparr>"

definition AddRetryRoute :: "string \<Rightarrow> string \<Rightarrow> ('t, 'h, 'r) GraphBuilder \<Rightarrow> ('t, 'h, 'r) GraphBuilder" where
  "AddRetryRoute fromNode fallbackNode b = b\<lparr>bld_overwrittenRetryFrom := mark (bld_retryRoutes b) fromNode (bld_overwrittenRetryFrom b),
     bld_retryRoutes := put fromNode fallbackNode (bld_retryRoutes b)\<rparr>"

definition Use :: "('h option \<Rightarrow> 'h option) option list \<Rightarrow> ('t, 'h, 'r) GraphBuilder \<Rightarrow> ('t, 'h, 'r) GraphBuilder" where
  "Use middlewares b = b\<lparr>bld_middlewares := bld_middlewares b @ middlewares\<rparr>"

definition SetEntryPoint :: "string \<Rightarrow> ('t, 'h, 'r) GraphBuilder \<Rightarrow> ('t, 'h, 'r) GraphBuilder" where
  "SetEntryPoint name b = b\<lparr>bld_entryPoint := name\<rparr>"

section \<open>Compiling\<close>

datatype compile_error =
    NodeTwice string | EdgeTwice string | RouterTwice string | RetryTwice string
  | NilReducer | NoEntryPoint | UnknownEntryPoint string
  | EmptyNodeName | UnregisteredNode string
  | ReservedNode string | NilHandler string | NilRouter string
  | MissingAllowedTargets string | UnknownAllowedTarget string string
  | UnknownRetrySource string | EmptyFallback string | UnknownFallback string string
  | EdgeAndRouter string | NoOutgoingRoute string
  | ExemptWithEdge string | ExemptWithRouter string | ExemptUnknown string | RetryNotExempt string

definition validateOverwriteConflicts :: "('t, 'h, 'r) GraphBuilder \<Rightarrow> compile_error list" where
  "validateOverwriteConflicts b =
    map (NodeTwice \<circ> fst) (bld_overwrittenNodes b) @ map (EdgeTwice \<circ> fst) (bld_overwrittenEdgeFrom b)
    @ map (RouterTwice \<circ> fst) (bld_overwrittenRouterFrom b) @ map (RetryTwice \<circ> fst) (bld_overwrittenRetryFrom b)"

definition validateTopology :: "('t, 'h, 'r) GraphBuilder \<Rightarrow> compile_error list" where
  "validateTopology b = (if bld_reducer b = None then [NilReducer] else [])
    @ (if bld_entryPoint b = '''' then [NoEntryPoint]
       else if lookup (bld_nodes b) (bld_entryPoint b) = None then [UnknownEntryPoint (bld_entryPoint b)] else [])"

definition referenced :: "('t, 'h, 'r) GraphBuilder \<Rightarrow> string list" where
  "referenced b = remdups (concat (map (\<lambda>(from, to). from # (if to \<noteq> EndNode then [to] else [])) (bld_edges b))
     @ map fst (bld_conditionalEdges b) @ map fst (bld_nodes b))"

definition validateReferences :: "('t, 'h, 'r) GraphBuilder \<Rightarrow> compile_error list" where
  "validateReferences b = concat (map (\<lambda>name.
     if name = '''' then [EmptyNodeName]
     else if name = EndNode then []
     else if lookup (bld_nodes b) name = None then [UnregisteredNode name] else []) (referenced b))"

definition validateHandlers :: "('t, 'h, 'r) GraphBuilder \<Rightarrow> compile_error list" where
  "validateHandlers b =
    concat (map (\<lambda>(name, h). (if name = EndNode then [ReservedNode name] else []) @ (if h = None then [NilHandler name] else []))
      (bld_nodes b))
    @ concat (map (\<lambda>(from, d). if ced_router d = None then [NilRouter from] else []) (bld_conditionalEdges b))"

definition validateConditionalAllowedTargets :: "('t, 'h, 'r) GraphBuilder \<Rightarrow> compile_error list" where
  "validateConditionalAllowedTargets b = concat (map (\<lambda>(from, d).
     if ced_allowed d = [] then [MissingAllowedTargets from]
     else concat (map (\<lambda>target. if target = EndNode then []
        else if lookup (bld_nodes b) target = None then [UnknownAllowedTarget from target] else []) (ced_allowed d)))
     (bld_conditionalEdges b))"

definition validateRetryRoutes :: "('t, 'h, 'r) GraphBuilder \<Rightarrow> compile_error list" where
  "validateRetryRoutes b = concat (map (\<lambda>(from, fallback).
     (if lookup (bld_nodes b) from = None then [UnknownRetrySource from] else [])
     @ (if fallback = '''' then [EmptyFallback from]
        else if lookup (bld_nodes b) fallback = None then [UnknownFallback from fallback] else [])) (bld_retryRoutes b))"

definition validateRoutingConflicts :: "('t, 'h, 'r) GraphBuilder \<Rightarrow> compile_error list" where
  "validateRoutingConflicts b =
    concat (map (\<lambda>(from, _). if lookup (bld_conditionalEdges b) from \<noteq> None then [EdgeAndRouter from] else []) (bld_edges b))"

abbreviation exempt :: "('t, 'h, 'r) GraphBuilder \<Rightarrow> string \<Rightarrow> bool" where
  "exempt b name \<equiv> lookup (bld_noOutgoingRoute b) name = Some True"

definition validateOutgoingRoutes :: "('t, 'h, 'r) GraphBuilder \<Rightarrow> compile_error list" where
  "validateOutgoingRoutes b = concat (map (\<lambda>(name, _).
     if exempt b name then []
     else if lookup (bld_edges b) name = None \<and> lookup (bld_conditionalEdges b) name = None then [NoOutgoingRoute name] else [])
     (bld_nodes b))"

definition validateNoOutgoingRouteMisuse :: "('t, 'h, 'r) GraphBuilder \<Rightarrow> compile_error list" where
  "validateNoOutgoingRouteMisuse b = concat (map (\<lambda>(name, _).
     (if lookup (bld_edges b) name \<noteq> None then [ExemptWithEdge name] else [])
     @ (if lookup (bld_conditionalEdges b) name \<noteq> None then [ExemptWithRouter name] else [])) (bld_noOutgoingRoute b))"

definition validateNoOutgoingRouteReferences :: "('t, 'h, 'r) GraphBuilder \<Rightarrow> compile_error list" where
  "validateNoOutgoingRouteReferences b =
    concat (map (\<lambda>(name, _). if lookup (bld_nodes b) name = None then [ExemptUnknown name] else []) (bld_noOutgoingRoute b))"

definition validateRetryRouteExemptions :: "('t, 'h, 'r) GraphBuilder \<Rightarrow> compile_error list" where
  "validateRetryRouteExemptions b =
    concat (map (\<lambda>(from, _). if \<not> exempt b from then [RetryNotExempt from] else []) (bld_retryRoutes b))"

definition collectCompileErrors :: "('t, 'h, 'r) GraphBuilder \<Rightarrow> compile_error list" where
  "collectCompileErrors b = validateOverwriteConflicts b @ validateTopology b @ validateReferences b @ validateHandlers b
    @ validateRoutingConflicts b @ validateOutgoingRoutes b @ validateConditionalAllowedTargets b @ validateRetryRoutes b
    @ validateNoOutgoingRouteMisuse b @ validateNoOutgoingRouteReferences b @ validateRetryRouteExemptions b"

record ('t, 'h, 'r) Graph =
  gph_nodes :: "(string, 'h option) gomap"
  gph_edges :: "(string, string) gomap"
  gph_conditionalEdges :: "(string, 'r option) gomap"
  gph_conditionalAllowed :: "(string, string list) gomap"
  gph_retryRoutes :: "(string, string) gomap"
  gph_entryPoint :: string
  gph_reducer :: "('t \<Rightarrow> 't \<Rightarrow> 't) option"
  gph_defaults :: runConfig

text \<open>
  The middleware that was declared first is the outermost one; a nil one is skipped.
  A handler is a function value, so it may be nil, before and after a middleware.
\<close>

definition wrapNodeWithMiddlewares :: "'h option \<Rightarrow> ('h option \<Rightarrow> 'h option) option list \<Rightarrow> 'h option" where
  "wrapNodeWithMiddlewares node middlewares =
    fold (\<lambda>mw wrapped. case mw of None \<Rightarrow> wrapped | Some f \<Rightarrow> f wrapped) (rev middlewares) node"

definition copyNodeDefs :: "(string, 'h option) gomap \<Rightarrow> ('h option \<Rightarrow> 'h option) option list \<Rightarrow> (string, 'h option) gomap" where
  "copyNodeDefs m middlewares = map (\<lambda>(k, h). (k, wrapNodeWithMiddlewares h middlewares)) m"

definition buildGraph :: "('t, 'h, 'r) GraphBuilder \<Rightarrow> runConfig \<Rightarrow> ('t, 'h, 'r) Graph" where
  "buildGraph b o' = \<lparr>gph_nodes = copyNodeDefs (bld_nodes b) (bld_middlewares b), gph_edges = bld_edges b,
     gph_conditionalEdges = map (\<lambda>(from, d). (from, ced_router d)) (bld_conditionalEdges b),
     gph_conditionalAllowed = map (\<lambda>(from, d). (from, ced_allowed d)) (filter (\<lambda>(_, d). ced_allowed d \<noteq> []) (bld_conditionalEdges b)),
     gph_retryRoutes = bld_retryRoutes b, gph_entryPoint = bld_entryPoint b, gph_reducer = bld_reducer b, gph_defaults = o'\<rparr>"

definition Compile :: "(compile_error \<Rightarrow> string) \<Rightarrow> BuildOption list \<Rightarrow> ('t, 'h, 'r) GraphBuilder \<Rightarrow> compile_error list + ('t, 'h, 'r) Graph" where
  "Compile text opts b =
    (let errs = collectCompileErrors b in
     if errs \<noteq> [] then Inl (sort_key text errs) else Inr (buildGraph b (applyBuildOptions opts)))"

section \<open>Declarations\<close>

text \<open>The calls of a program on its builder, in order.\<close>

datatype ('h, 'r) build_call = CallAddNode string "'h option" | CallAddEdge string string
  | CallAddConditionalEdge string "'r option" "string list" | CallAddRetryRoute string string
  | CallAllowNoOutgoingRoute string | CallUse "('h option \<Rightarrow> 'h option) option list" | CallSetEntryPoint string

primrec applyCall :: "('h, 'r) build_call \<Rightarrow> ('t, 'h, 'r) GraphBuilder \<Rightarrow> ('t, 'h, 'r) GraphBuilder" where
  "applyCall (CallAddNode name fn) = AddNode name fn"
| "applyCall (CallAddEdge from to) = AddEdge from to"
| "applyCall (CallAddConditionalEdge from router targets) = AddConditionalEdge from router targets"
| "applyCall (CallAddRetryRoute from fallback) = AddRetryRoute from fallback"
| "applyCall (CallAllowNoOutgoingRoute name) = AllowNoOutgoingRoute name"
| "applyCall (CallUse middlewares) = Use middlewares"
| "applyCall (CallSetEntryPoint name) = SetEntryPoint name"

definition declared :: "('t \<Rightarrow> 't \<Rightarrow> 't) option \<Rightarrow> ('h, 'r) build_call list \<Rightarrow> ('t, 'h, 'r) GraphBuilder" where
  "declared reducer calls = fold applyCall calls (NewGraph reducer)"

lemma declared_Nil [simp]: "declared reducer [] = NewGraph reducer"
  by (simp add: declared_def)

lemma declared_snoc [simp]: "declared reducer (calls @ [c]) = applyCall c (declared reducer calls)"
  by (simp add: declared_def)

lemmas builder_defs = AddNode_def AddEdge_def AddConditionalEdge_def AddRetryRoute_def AllowNoOutgoingRoute_def Use_def
  SetEntryPoint_def NewGraph_def

lemma put_not_Nil [simp]: "put k v m \<noteq> []"
  by (cases m) auto

lemma mark_Nil_iff [simp]: "mark m name marks = [] \<longleftrightarrow> lookup m name = None \<and> marks = []"
  by (simp add: mark_def)

text \<open>The maps of a builder have one entry per key.\<close>

definition maps_ok :: "('t, 'h, 'r) GraphBuilder \<Rightarrow> bool" where
  "maps_ok b \<longleftrightarrow> gomap_ok (bld_nodes b) \<and> gomap_ok (bld_edges b) \<and> gomap_ok (bld_conditionalEdges b) \<and> gomap_ok (bld_retryRoutes b)
     \<and> gomap_ok (bld_noOutgoingRoute b) \<and> list_all snd (bld_noOutgoingRoute b)"

lemma put_all_True: "list_all snd m \<Longrightarrow> list_all snd (put name True m)"
  by (induction m) auto

lemma declared_maps_ok: "maps_ok (declared reducer calls)"
proof (induction calls rule: rev_induct)
  case Nil
  then show ?case by (simp add: maps_ok_def NewGraph_def)
next
  case (snoc c calls)
  then show ?case
    by (cases c) (simp_all add: maps_ok_def builder_defs distinct_update put_all_True)
qed

text \<open>Without a second registration every declaration is in force.\<close>

lemma declared_nodes:
  "bld_overwrittenNodes (declared reducer calls) = [] \<Longrightarrow>
    lookup (bld_nodes (declared reducer calls)) name = Some h \<longleftrightarrow> CallAddNode name h \<in> set calls"
proof (induction calls rule: rev_induct)
  case (snoc c calls)
  show ?case using snoc.prems snoc.IH by (cases c) (auto simp: builder_defs update_conv')
qed (simp add: NewGraph_def)

lemma declared_edges:
  "bld_overwrittenEdgeFrom (declared reducer calls) = [] \<Longrightarrow>
    lookup (bld_edges (declared reducer calls)) from = Some to \<longleftrightarrow> CallAddEdge from to \<in> set calls"
proof (induction calls rule: rev_induct)
  case (snoc c calls)
  show ?case using snoc.prems snoc.IH by (cases c) (auto simp: builder_defs update_conv')
qed (simp add: NewGraph_def)

lemma declared_routers:
  "bld_overwrittenRouterFrom (declared reducer calls) = [] \<Longrightarrow>
    CallAddConditionalEdge from router targets \<in> set calls \<Longrightarrow>
    lookup (bld_conditionalEdges (declared reducer calls)) from = Some \<lparr>ced_router = router, ced_allowed = remdups targets\<rparr>"
proof (induction calls rule: rev_induct)
  case (snoc c calls)
  show ?case using snoc.prems snoc.IH by (cases c) (auto simp: builder_defs update_conv')
qed simp

lemma declared_retries:
  "bld_overwrittenRetryFrom (declared reducer calls) = [] \<Longrightarrow>
    lookup (bld_retryRoutes (declared reducer calls)) from = Some fallback \<longleftrightarrow> CallAddRetryRoute from fallback \<in> set calls"
proof (induction calls rule: rev_induct)
  case (snoc c calls)
  show ?case using snoc.prems snoc.IH by (cases c) (auto simp: builder_defs update_conv')
qed (simp add: NewGraph_def)

section \<open>What the compiler accepts\<close>

abbreviation isNode :: "(string, 'v) gomap \<Rightarrow> string \<Rightarrow> bool" where
  "isNode m name \<equiv> lookup m name \<noteq> None"

text \<open>A builder that has nothing to complain about, in terms of lookups.\<close>

definition wf_builder :: "('t, 'h, 'r) GraphBuilder \<Rightarrow> bool" where
  "wf_builder b \<longleftrightarrow> bld_overwrittenNodes b = [] \<and> bld_overwrittenEdgeFrom b = [] \<and> bld_overwrittenRouterFrom b = []
    \<and> bld_overwrittenRetryFrom b = [] \<and> bld_reducer b \<noteq> None \<and> bld_entryPoint b \<noteq> '''' \<and> isNode (bld_nodes b) (bld_entryPoint b)
    \<and> (\<forall>name h. lookup (bld_nodes b) name = Some h \<longrightarrow> name \<noteq> '''')
    \<and> (\<forall>from to. lookup (bld_edges b) from = Some to \<longrightarrow> from \<noteq> '''' \<and> to \<noteq> ''''
        \<and> (from = EndNode \<or> isNode (bld_nodes b) from) \<and> (to = EndNode \<or> isNode (bld_nodes b) to))
    \<and> (\<forall>from d. lookup (bld_conditionalEdges b) from = Some d \<longrightarrow> from \<noteq> '''' \<and> (from = EndNode \<or> isNode (bld_nodes b) from))
    \<and> (\<forall>name h. lookup (bld_nodes b) name = Some h \<longrightarrow> name \<noteq> EndNode \<and> h \<noteq> None)
    \<and> (\<forall>from d. lookup (bld_conditionalEdges b) from = Some d \<longrightarrow> ced_router d \<noteq> None)
    \<and> (\<forall>from to. lookup (bld_edges b) from = Some to \<longrightarrow> \<not> isNode (bld_conditionalEdges b) from)
    \<and> (\<forall>name h. lookup (bld_nodes b) name = Some h \<longrightarrow>
        exempt b name \<or> isNode (bld_edges b) name \<or> isNode (bld_conditionalEdges b) name)
    \<and> (\<forall>from d. lookup (bld_conditionalEdges b) from = Some d \<longrightarrow>
        ced_allowed d \<noteq> [] \<and> (\<forall>t \<in> set (ced_allowed d). t = EndNode \<or> isNode (bld_nodes b) t))
    \<and> (\<forall>from fallback. lookup (bld_retryRoutes b) from = Some fallback \<longrightarrow>
        isNode (bld_nodes b) from \<and> fallback \<noteq> '''' \<and> isNode (bld_nodes b) fallback)
    \<and> (\<forall>name. exempt b name \<longrightarrow> \<not> isNode (bld_edges b) name \<and> \<not> isNode (bld_conditionalEdges b) name)
    \<and> (\<forall>name. exempt b name \<longrightarrow> isNode (bld_nodes b) name)
    \<and> (\<forall>from fallback. lookup (bld_retryRoutes b) from = Some fallback \<longrightarrow> exempt b from)"

lemma ball_lookup:
  assumes "gomap_ok m"
  shows "(\<forall>x \<in> set m. P (fst x) (snd x)) \<longleftrightarrow> (\<forall>k v. lookup m k = Some v \<longrightarrow> P k v)"
  using assms map_of_SomeD by force

lemma concat_map_Nil: "concat (map f xs) = [] \<longleftrightarrow> (\<forall>x \<in> set xs. f x = [])"
  by (induction xs) auto

text \<open>A loop that collects errors over the entries of a map.\<close>

lemma concat_lookup:
  assumes "gomap_ok m" and "\<And>k v. f (k, v) = [] \<longleftrightarrow> P k v"
  shows "concat (map f m) = [] \<longleftrightarrow> (\<forall>k v. lookup m k = Some v \<longrightarrow> P k v)"
  using ball_lookup [OF assms(1), of P] assms(2) unfolding concat_map_Nil by force

text \<open>Each validator finds nothing exactly when its part of the contract holds.\<close>

lemma overwrites_Nil: "validateOverwriteConflicts b = [] \<longleftrightarrow> bld_overwrittenNodes b = [] \<and> bld_overwrittenEdgeFrom b = []
    \<and> bld_overwrittenRouterFrom b = [] \<and> bld_overwrittenRetryFrom b = []"
  by (simp add: validateOverwriteConflicts_def)

lemma topology_Nil: "validateTopology b = [] \<longleftrightarrow> bld_reducer b \<noteq> None \<and> bld_entryPoint b \<noteq> '''' \<and> isNode (bld_nodes b) (bld_entryPoint b)"
  by (simp add: validateTopology_def)

lemma EndNode_not_empty [simp]: "EndNode \<noteq> []"
  by (simp add: EndNode_def)

lemma ball_referenced:
  "(\<forall>n \<in> set (referenced b). P n) \<longleftrightarrow> (\<forall>x \<in> set (bld_edges b). P (fst x) \<and> (snd x = EndNode \<or> P (snd x)))
    \<and> (\<forall>x \<in> set (bld_conditionalEdges b). P (fst x)) \<and> (\<forall>x \<in> set (bld_nodes b). P (fst x))"
proof -
  have "set (referenced b) = (\<Union>x \<in> set (bld_edges b). {fst x} \<union> (if snd x = EndNode then {} else {snd x}))
      \<union> fst ` set (bld_conditionalEdges b) \<union> fst ` set (bld_nodes b)"
    by (auto simp: referenced_def split_beta split: if_splits)
  then show ?thesis by (simp add: ball_Un) blast
qed

lemma maps_okD:
  assumes "maps_ok b"
  shows "gomap_ok (bld_nodes b)" "gomap_ok (bld_edges b)" "gomap_ok (bld_conditionalEdges b)" "gomap_ok (bld_retryRoutes b)"
    "gomap_ok (bld_noOutgoingRoute b)" "lookup (bld_noOutgoingRoute b) name = Some v \<Longrightarrow> v"
  using assms map_of_SomeD [of "bld_noOutgoingRoute b" name v] by (auto simp: maps_ok_def list_all_iff)

lemma references_Nil:
  assumes "maps_ok b"
  shows "validateReferences b = [] \<longleftrightarrow>
    (\<forall>name h. lookup (bld_nodes b) name = Some h \<longrightarrow> name \<noteq> '''')
    \<and> (\<forall>from to. lookup (bld_edges b) from = Some to \<longrightarrow> from \<noteq> '''' \<and> to \<noteq> ''''
        \<and> (from = EndNode \<or> isNode (bld_nodes b) from) \<and> (to = EndNode \<or> isNode (bld_nodes b) to))
    \<and> (\<forall>from d. lookup (bld_conditionalEdges b) from = Some d \<longrightarrow> from \<noteq> '''' \<and> (from = EndNode \<or> isNode (bld_nodes b) from))"
    (is "_ \<longleftrightarrow> ?N \<and> ?E \<and> ?C")
proof -
  let ?ok = "\<lambda>name. name \<noteq> '''' \<and> (name = EndNode \<or> isNode (bld_nodes b) name)"
  note m = maps_okD [OF assms]
  have "validateReferences b = [] \<longleftrightarrow> (\<forall>name \<in> set (referenced b). ?ok name)"
    unfolding validateReferences_def concat_map_Nil by (intro ball_cong refl) auto
  also have "\<dots> \<longleftrightarrow> (\<forall>k v. lookup (bld_edges b) k = Some v \<longrightarrow> ?ok k \<and> (v = EndNode \<or> ?ok v))
      \<and> (\<forall>k d. lookup (bld_conditionalEdges b) k = Some d \<longrightarrow> ?ok k) \<and> (\<forall>k h. lookup (bld_nodes b) k = Some h \<longrightarrow> ?ok k)"
    unfolding ball_referenced ball_lookup [OF m(2), of "\<lambda>k v. ?ok k \<and> (v = EndNode \<or> ?ok v)"]
      ball_lookup [OF m(3), of "\<lambda>k v. ?ok k"] ball_lookup [OF m(1), of "\<lambda>k v. ?ok k"] by (rule refl)
  also have "\<dots> \<longleftrightarrow> ?N \<and> ?E \<and> ?C" using EndNode_not_empty by (auto, metis+)
  finally show ?thesis .
qed

lemma handlers_Nil:
  assumes "maps_ok b"
  shows "validateHandlers b = [] \<longleftrightarrow> (\<forall>name h. lookup (bld_nodes b) name = Some h \<longrightarrow> name \<noteq> EndNode \<and> h \<noteq> None)
    \<and> (\<forall>from d. lookup (bld_conditionalEdges b) from = Some d \<longrightarrow> ced_router d \<noteq> None)"
  unfolding validateHandlers_def append_is_Nil_conv
  by (intro arg_cong2 [where f = "(\<and>)"] concat_lookup maps_okD(1-5) [OF assms]) auto

lemma routes_Nil:
  assumes "maps_ok b"
  shows "validateRoutingConflicts b = [] \<longleftrightarrow> (\<forall>from to. lookup (bld_edges b) from = Some to \<longrightarrow> \<not> isNode (bld_conditionalEdges b) from)"
    and "validateOutgoingRoutes b = [] \<longleftrightarrow> (\<forall>name h. lookup (bld_nodes b) name = Some h \<longrightarrow>
        exempt b name \<or> isNode (bld_edges b) name \<or> isNode (bld_conditionalEdges b) name)"
    and "validateConditionalAllowedTargets b = [] \<longleftrightarrow> (\<forall>from d. lookup (bld_conditionalEdges b) from = Some d \<longrightarrow>
        ced_allowed d \<noteq> [] \<and> (\<forall>t \<in> set (ced_allowed d). t = EndNode \<or> isNode (bld_nodes b) t))"
    and "validateRetryRoutes b = [] \<longleftrightarrow> (\<forall>from fallback. lookup (bld_retryRoutes b) from = Some fallback \<longrightarrow>
        isNode (bld_nodes b) from \<and> fallback \<noteq> '''' \<and> isNode (bld_nodes b) fallback)"
    and "validateRetryRouteExemptions b = [] \<longleftrightarrow> (\<forall>from fallback. lookup (bld_retryRoutes b) from = Some fallback \<longrightarrow> exempt b from)"
  unfolding validateRoutingConflicts_def validateOutgoingRoutes_def validateConditionalAllowedTargets_def
    validateRetryRoutes_def validateRetryRouteExemptions_def
  by (intro concat_lookup maps_okD(1-5) [OF assms]; auto simp: concat_map_Nil simp del: concat_eq_Nil_conv split: if_splits)+

lemma exemptions_Nil:
  assumes "maps_ok b"
  shows "validateNoOutgoingRouteMisuse b = [] \<longleftrightarrow> (\<forall>name. exempt b name \<longrightarrow> \<not> isNode (bld_edges b) name \<and> \<not> isNode (bld_conditionalEdges b) name)"
    and "validateNoOutgoingRouteReferences b = [] \<longleftrightarrow> (\<forall>name. exempt b name \<longrightarrow> isNode (bld_nodes b) name)"
proof -
  have e: "(\<forall>k v. lookup (bld_noOutgoingRoute b) k = Some v \<longrightarrow> P k) \<longleftrightarrow> (\<forall>name. exempt b name \<longrightarrow> P name)" for P
    using maps_okD(6) [OF assms] by (metis (full_types))
  show "validateNoOutgoingRouteMisuse b = [] \<longleftrightarrow> (\<forall>name. exempt b name \<longrightarrow> \<not> isNode (bld_edges b) name \<and> \<not> isNode (bld_conditionalEdges b) name)"
    unfolding validateNoOutgoingRouteMisuse_def e [symmetric] by (rule concat_lookup [OF maps_okD(5) [OF assms]]) auto
  show "validateNoOutgoingRouteReferences b = [] \<longleftrightarrow> (\<forall>name. exempt b name \<longrightarrow> isNode (bld_nodes b) name)"
    unfolding validateNoOutgoingRouteReferences_def e [symmetric] by (rule concat_lookup [OF maps_okD(5) [OF assms]]) auto
qed

lemma collect_Nil_iff:
  assumes "maps_ok b"
  shows "collectCompileErrors b = [] \<longleftrightarrow> wf_builder b"
  unfolding collectCompileErrors_def append_is_Nil_conv overwrites_Nil topology_Nil references_Nil [OF assms]
    handlers_Nil [OF assms] routes_Nil [OF assms] exemptions_Nil [OF assms] wf_builder_def conj_assoc
  by (rule refl)

text \<open>What the runner may rely on in a compiled graph.\<close>

definition graph_ok :: "('t, 'h, 'r) Graph \<Rightarrow> bool" where
  "graph_ok g \<longleftrightarrow> isNode (gph_nodes g) (gph_entryPoint g) \<and> gph_reducer g \<noteq> None \<and> rcf_maxSteps (gph_defaults g) > 0
    \<and> (\<forall>name h. lookup (gph_nodes g) name = Some h \<longrightarrow> name \<noteq> '''' \<and> name \<noteq> EndNode \<and> h \<noteq> None)
    \<and> (\<forall>from to. lookup (gph_edges g) from = Some to \<longrightarrow> (to = EndNode \<or> isNode (gph_nodes g) to) \<and> \<not> isNode (gph_conditionalEdges g) from)
    \<and> (\<forall>from r. lookup (gph_conditionalEdges g) from = Some r \<longrightarrow> r \<noteq> None
        \<and> (\<exists>allowed. lookup (gph_conditionalAllowed g) from = Some allowed \<and> allowed \<noteq> []
             \<and> (\<forall>t \<in> set allowed. t = EndNode \<or> isNode (gph_nodes g) t)))
    \<and> (\<forall>from fallback. lookup (gph_retryRoutes g) from = Some fallback \<longrightarrow> isNode (gph_nodes g) fallback
        \<and> \<not> isNode (gph_edges g) from \<and> \<not> isNode (gph_conditionalEdges g) from)"

lemma lookup_map_snd: "lookup (map (\<lambda>(k, v). (k, f v)) m) k = map_option f (lookup m k)"
  by (induction m) auto

lemma lookup_filter_all: "\<forall>(k, v) \<in> set m. P v \<Longrightarrow> filter (\<lambda>(_, v). P v) m = m"
  by (induction m) auto

lemma applied_maxSteps: "rcf_maxSteps (applyBuildOptions opts) > 0"
  by (simp add: applyBuildOptions_def Let_def defaultMaxSteps_def)

lemma wf_builderD:
  assumes "wf_builder b"
  shows "isNode (bld_nodes b) (bld_entryPoint b)" "bld_reducer b \<noteq> None"
    and "lookup (bld_nodes b) name = Some h \<Longrightarrow> name \<noteq> '''' \<and> name \<noteq> EndNode \<and> h \<noteq> None"
    and "lookup (bld_edges b) from = Some to \<Longrightarrow> (to = EndNode \<or> isNode (bld_nodes b) to) \<and> \<not> isNode (bld_conditionalEdges b) from"
    and "lookup (bld_conditionalEdges b) from = Some d \<Longrightarrow> ced_router d \<noteq> None \<and> ced_allowed d \<noteq> []
      \<and> (\<forall>t \<in> set (ced_allowed d). t = EndNode \<or> isNode (bld_nodes b) t)"
    and "lookup (bld_retryRoutes b) from = Some to \<Longrightarrow> isNode (bld_nodes b) to \<and> exempt b from"
    and "exempt b name \<Longrightarrow> \<not> isNode (bld_edges b) name \<and> \<not> isNode (bld_conditionalEdges b) name"
  using assms unfolding wf_builder_def by (elim conjE, simp)+

lemma buildGraph_lookup [simp]:
  "lookup (gph_nodes (buildGraph b o')) name = map_option (\<lambda>h. wrapNodeWithMiddlewares h (bld_middlewares b)) (lookup (bld_nodes b) name)"
  "gph_edges (buildGraph b o') = bld_edges b" "gph_retryRoutes (buildGraph b o') = bld_retryRoutes b"
  "lookup (gph_conditionalEdges (buildGraph b o')) name = map_option ced_router (lookup (bld_conditionalEdges b) name)"
  "gph_entryPoint (buildGraph b o') = bld_entryPoint b" "gph_reducer (buildGraph b o') = bld_reducer b" "gph_defaults (buildGraph b o') = o'"
  by (simp_all add: buildGraph_def copyNodeDefs_def lookup_map_snd)

lemma buildGraph_allowed:
  assumes "maps_ok b" and "wf_builder b"
  shows "lookup (gph_conditionalAllowed (buildGraph b o')) name = map_option ced_allowed (lookup (bld_conditionalEdges b) name)"
proof -
  have "filter (\<lambda>(_, d). ced_allowed d \<noteq> []) (bld_conditionalEdges b) = bld_conditionalEdges b"
  proof (rule lookup_filter_all, clarify)
    fix k d
    assume "(k, d) \<in> set (bld_conditionalEdges b)" and "ced_allowed d = []"
    with wf_builderD(5) [OF assms(2) map_of_is_SomeI [OF maps_okD(3) [OF assms(1)]]] show False by blast
  qed
  then show ?thesis by (simp add: buildGraph_def lookup_map_snd)
qed

lemma buildGraph_ok:
  assumes "maps_ok b" and "wf_builder b" and handled: "\<And>name h. lookup (bld_nodes b) name = Some h \<Longrightarrow> wrapNodeWithMiddlewares h (bld_middlewares b) \<noteq> None"
  shows "graph_ok (buildGraph b (applyBuildOptions opts))"
proof -
  note d = wf_builderD [OF assms(2)]
  have "isNode (bld_nodes b) fallback \<and> \<not> isNode (bld_edges b) from \<and> \<not> isNode (bld_conditionalEdges b) from"
    if "lookup (bld_retryRoutes b) from = Some fallback" for "from" fallback
    using d(6) [OF that] d(7) [of "from"] by simp
  then show ?thesis
    unfolding graph_ok_def buildGraph_lookup buildGraph_allowed [OF assms(1,2)]
    using d(1-5) applied_maxSteps handled by (intro conjI allI impI) fastforce+
qed

text \<open>The last declared entry point and the declared middlewares, in order.\<close>

primrec entryCall :: "('h, 'r) build_call \<Rightarrow> string list" where
  "entryCall (CallAddNode name fn) = []"
| "entryCall (CallAddEdge from to) = []"
| "entryCall (CallAddConditionalEdge from router targets) = []"
| "entryCall (CallAddRetryRoute from fallback) = []"
| "entryCall (CallAllowNoOutgoingRoute name) = []"
| "entryCall (CallUse middlewares) = []"
| "entryCall (CallSetEntryPoint name) = [name]"

primrec useCall :: "('h, 'r) build_call \<Rightarrow> ('h option \<Rightarrow> 'h option) option list" where
  "useCall (CallAddNode name fn) = []"
| "useCall (CallAddEdge from to) = []"
| "useCall (CallAddConditionalEdge from router targets) = []"
| "useCall (CallAddRetryRoute from fallback) = []"
| "useCall (CallAllowNoOutgoingRoute name) = []"
| "useCall (CallUse middlewares) = middlewares"
| "useCall (CallSetEntryPoint name) = []"

lemma declared_entry: "bld_entryPoint (declared reducer calls) = last ('''' # concat (map entryCall calls))"
proof (induction calls rule: rev_induct)
  case (snoc c calls)
  then show ?case by (cases c) (simp_all add: builder_defs last_append)
qed (simp add: NewGraph_def)

lemma declared_middlewares: "bld_middlewares (declared reducer calls) = concat (map useCall calls)"
proof (induction calls rule: rev_induct)
  case (snoc c calls)
  then show ?case by (cases c) (simp_all add: builder_defs)
qed (simp add: NewGraph_def)

lemma declared_reducer: "bld_reducer (declared reducer calls) = reducer"
proof (induction calls rule: rev_induct)
  case (snoc c calls)
  then show ?case by (cases c) (simp_all add: builder_defs)
qed (simp add: NewGraph_def)

lemma declared_router_call:
  "lookup (bld_conditionalEdges (declared reducer calls)) from = Some d \<Longrightarrow>
    \<exists>router targets. CallAddConditionalEdge from router targets \<in> set calls \<and> d = \<lparr>ced_router = router, ced_allowed = remdups targets\<rparr>"
proof (induction calls rule: rev_induct)
  case (snoc c calls)
  then show ?case by (cases c) (auto simp: builder_defs update_conv' split: if_splits)
qed (simp add: NewGraph_def)

text \<open>The graph has exactly what the calls declared.\<close>

definition in_force :: "('t \<Rightarrow> 't \<Rightarrow> 't) option \<Rightarrow> ('h, 'r) build_call list \<Rightarrow> BuildOption list \<Rightarrow> ('t, 'h, 'r) Graph \<Rightarrow> bool" where
  "in_force reducer calls opts g \<longleftrightarrow> gph_reducer g = reducer \<and> gph_defaults g = applyBuildOptions opts
    \<and> gph_entryPoint g = last ('''' # concat (map entryCall calls))
    \<and> (\<forall>name fn. lookup (gph_nodes g) name = Some fn \<longleftrightarrow>
        (\<exists>h. CallAddNode name h \<in> set calls \<and> fn = wrapNodeWithMiddlewares h (concat (map useCall calls))))
    \<and> (\<forall>from to. lookup (gph_edges g) from = Some to \<longleftrightarrow> CallAddEdge from to \<in> set calls)
    \<and> (\<forall>from router allowed. lookup (gph_conditionalEdges g) from = Some router \<and> lookup (gph_conditionalAllowed g) from = Some allowed \<longleftrightarrow>
        (\<exists>targets. CallAddConditionalEdge from router targets \<in> set calls \<and> allowed = remdups targets))
    \<and> (\<forall>from to. lookup (gph_retryRoutes g) from = Some to \<longleftrightarrow> CallAddRetryRoute from to \<in> set calls)"

lemma buildGraph_in_force:
  assumes "wf_builder (declared reducer calls)"
  shows "in_force reducer calls opts (buildGraph (declared reducer calls) (applyBuildOptions opts))"
proof -
  let ?b = "declared reducer calls"
  have o: "bld_overwrittenNodes ?b = []" "bld_overwrittenEdgeFrom ?b = []" "bld_overwrittenRouterFrom ?b = []" "bld_overwrittenRetryFrom ?b = []"
    using assms by (simp_all add: wf_builder_def)
  have r: "map_option ced_router (lookup (bld_conditionalEdges ?b) from) = Some router
      \<and> map_option ced_allowed (lookup (bld_conditionalEdges ?b) from) = Some allowed \<longleftrightarrow>
      (\<exists>targets. CallAddConditionalEdge from router targets \<in> set calls \<and> allowed = remdups targets)" for "from" router allowed
  proof (cases "lookup (bld_conditionalEdges ?b) from")
    case None
    then show ?thesis using declared_routers [OF o(3), of "from" router] by auto
  next
    case (Some d)
    from declared_router_call [OF Some] obtain router' targets'
      where "CallAddConditionalEdge from router' targets' \<in> set calls" "d = \<lparr>ced_router = router', ced_allowed = remdups targets'\<rparr>"
      by blast
    then show ?thesis using Some declared_routers [OF o(3), of "from" router] by auto
  qed
  have n: "map_option f (lookup (bld_nodes ?b) name) = Some fn \<longleftrightarrow> (\<exists>h. CallAddNode name h \<in> set calls \<and> fn = f h)" for f name fn
    unfolding declared_nodes [OF o(1), of name, symmetric] by auto
  show ?thesis
    unfolding in_force_def buildGraph_lookup buildGraph_allowed [OF declared_maps_ok assms] declared_entry declared_middlewares declared_reducer
      declared_edges [OF o(2)] declared_retries [OF o(4)] r n by (intro conjI allI refl)
qed

text \<open>
  C25. \<open>Compile\<close> accepts exactly the well-formed builders, whatever calls produced
  them. It fails with the complete, sorted list of complaints and never with an
  empty one; when it succeeds, the graph satisfies what the runner relies on (an
  entry point, handlers, and every edge, declared target and retry fallback leads to
  a registered node or to the end), unless a middleware returned a nil handler for
  some node, which is not checked, and the graph has exactly what was declared: the
  reducer, the options, the last entry point, every node under all middlewares in
  their order, every edge, every router with its allowed targets and every retry
  route, so none was silently replaced and nothing was added.
\<close>

theorem compile_accepts_exactly_wellformed:
  "case Compile text opts (declared reducer calls) of
     Inl errs \<Rightarrow> \<not> wf_builder (declared reducer calls) \<and> errs \<noteq> [] \<and> set errs = set (collectCompileErrors (declared reducer calls))
       \<and> sorted (map text errs)
   | Inr g \<Rightarrow> wf_builder (declared reducer calls) \<and> in_force reducer calls opts g
       \<and> (graph_ok g \<or> (\<exists>name h. CallAddNode name (Some h) \<in> set calls \<and> wrapNodeWithMiddlewares (Some h) (concat (map useCall calls)) = None))"
proof -
  let ?b = "declared reducer calls"
  note iff = collect_Nil_iff [OF declared_maps_ok, of reducer calls]
  show ?thesis
  proof (cases "wf_builder ?b")
    case False
    then have "collectCompileErrors ?b \<noteq> []" using iff by simp
    then have c: "Compile text opts ?b = Inl (sort_key text (collectCompileErrors ?b))" by (simp add: Compile_def Let_def)
    have "sort_key text (collectCompileErrors ?b) \<noteq> []"
      using \<open>collectCompileErrors ?b \<noteq> []\<close> by (metis length_0_conv length_sort)
    with False show ?thesis unfolding c by (simp add: sorted_sort_key)
  next
    case True
    then have c: "Compile text opts ?b = Inr (buildGraph ?b (applyBuildOptions opts))" using iff by (simp add: Compile_def Let_def)
    have "bld_overwrittenNodes ?b = []" using True by (simp add: wf_builder_def)
    note nodes = declared_nodes [OF this]
    have "graph_ok (buildGraph ?b (applyBuildOptions opts))"
      if "\<nexists>name h. CallAddNode name (Some h) \<in> set calls \<and> wrapNodeWithMiddlewares (Some h) (concat (map useCall calls)) = None"
      by (rule buildGraph_ok [OF declared_maps_ok True]) (use that wf_builderD(3) [OF True] in \<open>fastforce simp: nodes declared_middlewares\<close>)
    then show ?thesis unfolding c using True buildGraph_in_force [OF True] by auto
  qed
qed

definition sampleCalls :: "(nat, nat) build_call list" where
  "sampleCalls = [CallAddNode ''n'' (Some 1), CallAddEdge ''n'' EndNode, CallSetEntryPoint ''n'']"

theorem compile_accepts_exactly_wellformed_witness:
  "\<exists>g. Compile (\<lambda>_. '''') [] (declared (Some (+)) sampleCalls :: (nat, nat, nat) GraphBuilder) = Inr g
     \<and> graph_ok g \<and> lookup (gph_nodes g) ''n'' = Some (Some 1) \<and> lookup (gph_edges g) ''n'' = Some EndNode \<and> gph_entryPoint g = ''n''"
proof -
  let ?b = "declared (Some (+)) sampleCalls :: (nat, nat, nat) GraphBuilder"
  have c: "collectCompileErrors ?b = []"
    by (simp add: sampleCalls_def declared_def builder_defs collectCompileErrors_def validateOverwriteConflicts_def validateTopology_def
      validateReferences_def validateHandlers_def validateRoutingConflicts_def validateOutgoingRoutes_def validateConditionalAllowedTargets_def
      validateRetryRoutes_def validateNoOutgoingRouteMisuse_def validateNoOutgoingRouteReferences_def validateRetryRouteExemptions_def
      referenced_def mark_def EndNode_def)
  then have compiled: "Compile (\<lambda>_. '''') [] ?b = Inr (buildGraph ?b (applyBuildOptions []))" by (simp add: Compile_def)
  have plain: "wrapNodeWithMiddlewares h [] = h" for h :: "nat option" by (simp add: wrapNodeWithMiddlewares_def)
  have none: "concat (map useCall sampleCalls) = []" by (simp add: sampleCalls_def)
  have "graph_ok (buildGraph ?b (applyBuildOptions [])) \<and> in_force (Some (+)) sampleCalls [] (buildGraph ?b (applyBuildOptions []))"
    using compile_accepts_exactly_wellformed [of "Some ((+) :: nat \<Rightarrow> nat \<Rightarrow> nat)" sampleCalls "\<lambda>_. ''''" "[]", unfolded compiled sum.case none plain] by simp
  moreover have "CallAddNode ''n'' (Some 1) \<in> set sampleCalls" "CallAddEdge ''n'' EndNode \<in> set sampleCalls"
      "concat (map useCall sampleCalls) = []" "concat (map entryCall sampleCalls) = [''n'']"
    by (simp_all add: sampleCalls_def)
  ultimately have "lookup (gph_nodes (buildGraph ?b (applyBuildOptions []))) ''n'' = Some (Some 1)"
      "lookup (gph_edges (buildGraph ?b (applyBuildOptions []))) ''n'' = Some EndNode"
      "gph_entryPoint (buildGraph ?b (applyBuildOptions [])) = ''n''" "graph_ok (buildGraph ?b (applyBuildOptions []))"
    unfolding in_force_def by (metis plain, metis, simp, blast)
  with compiled show ?thesis by blast
qed

end
