(* ===== verification/Flow_Monad.thy ===== *)
theory Flow_Monad
  imports Flow_Directive "HOL-Library.State_Monad"
begin

text \<open>
  The effects of the runner, in the state monad over a world of the host's
  choice: whatever the checkpointer, the outbox, the event sink, the clock and the
  context keep. \<open>triple P m Q\<close> says that from a world in \<open>P\<close> the computation \<open>m\<close>
  ends with a result and a world in \<open>Q\<close>; the rules decompose a computation along
  its \<open>do\<close> notation.
\<close>

abbreviation ret :: "'a \<Rightarrow> ('w, 'a) state" where
  "ret \<equiv> State_Monad.return"

definition triple :: "('w \<Rightarrow> bool) \<Rightarrow> ('w, 'a) state \<Rightarrow> ('a \<Rightarrow> 'w \<Rightarrow> bool) \<Rightarrow> bool" where
  "triple P m Q \<longleftrightarrow> (\<forall>w x w'. P w \<longrightarrow> run_state m w = (x, w') \<longrightarrow> Q x w')"

named_theorems triple_rules

lemma tripleD: "triple P m Q \<Longrightarrow> P w \<Longrightarrow> run_state m w = (x, w') \<Longrightarrow> Q x w'"
  by (simp add: triple_def)

lemma tripleI: "(\<And>w x w'. P w \<Longrightarrow> run_state m w = (x, w') \<Longrightarrow> Q x w') \<Longrightarrow> triple P m Q"
  by (simp add: triple_def)

lemma triple_return [triple_rules]: "(\<And>w. P w \<Longrightarrow> Q x w) \<Longrightarrow> triple P (ret x) Q"
  by (simp add: triple_def)

lemma triple_bind:
  assumes "triple P m R" and "\<And>x. triple (R x) (f x) Q"
  shows "triple P (State_Monad.bind m f) Q"
proof (rule tripleI)
  fix w x w'
  assume p: "P w" and r: "run_state (State_Monad.bind m f) w = (x, w')"
  obtain y v where m: "run_state m w = (y, v)" by (cases "run_state m w")
  with r have "run_state (f y) v = (x, w')" by (simp add: run_state_bind)
  with tripleD [OF assms(1) p m] assms(2) show "Q x w'" by (blast dest: tripleD)
qed

lemma triple_pre: "(\<And>w. P w \<Longrightarrow> P' w) \<Longrightarrow> triple P' m Q \<Longrightarrow> triple P m Q"
  by (auto simp: triple_def)

lemma triple_post: "triple P m Q' \<Longrightarrow> (\<And>x w. Q' x w \<Longrightarrow> Q x w) \<Longrightarrow> triple P m Q"
  unfolding triple_def by blast

lemma triple_if [triple_rules]:
  "(c \<Longrightarrow> triple P m Q) \<Longrightarrow> (\<not> c \<Longrightarrow> triple P m' Q) \<Longrightarrow> triple P (if c then m else m') Q"
  by simp

lemma triple_option [triple_rules]:
  "(v = None \<Longrightarrow> triple P m Q) \<Longrightarrow> (\<And>x. v = Some x \<Longrightarrow> triple P (f x) Q) \<Longrightarrow> triple P (case v of None \<Rightarrow> m | Some x \<Rightarrow> f x) Q"
  by (cases v) auto

lemma triple_sum [triple_rules]:
  "(\<And>e. v = Inl e \<Longrightarrow> triple P (f e) Q) \<Longrightarrow> (\<And>x. v = Inr x \<Longrightarrow> triple P (g x) Q) \<Longrightarrow> triple P (case v of Inl e \<Rightarrow> f e | Inr x \<Rightarrow> g x) Q"
  by (cases v) auto

lemma triple_prod [triple_rules]:
  "(\<And>x y. v = (x, y) \<Longrightarrow> triple P (f x y) Q) \<Longrightarrow> triple P (case v of (x, y) \<Rightarrow> f x y) Q"
  by (cases v) auto

lemma triple_conj: "triple P m Q \<Longrightarrow> triple P m R \<Longrightarrow> triple P m (\<lambda>x w. Q x w \<and> R x w)"
  by (auto simp: triple_def)

text \<open>A computation that only reads: the world is the same afterwards as far as \<open>P\<close> goes.\<close>

definition keeps :: "('w \<Rightarrow> bool) \<Rightarrow> ('w, 'a) state \<Rightarrow> bool" where
  "keeps P m \<longleftrightarrow> triple P m (\<lambda>_. P)"

lemma keepsD: "keeps P m \<Longrightarrow> triple P m (\<lambda>_. P)"
  by (simp add: keeps_def)

lemma keeps_return [triple_rules]: "keeps P (ret x)"
  by (simp add: keeps_def triple_def)

lemma keeps_bind: "keeps P m \<Longrightarrow> (\<And>x. keeps P (f x)) \<Longrightarrow> keeps P (State_Monad.bind m f)"
  unfolding keeps_def by (rule triple_bind)

lemma keeps_if: "keeps P m \<Longrightarrow> keeps P m' \<Longrightarrow> keeps P (if c then m else m')"
  by simp

lemma keeps_option: "keeps P m \<Longrightarrow> (\<And>x. keeps P (f x)) \<Longrightarrow> keeps P (case v of None \<Rightarrow> m | Some x \<Rightarrow> f x)"
  by (cases v) auto

lemma keeps_sum: "(\<And>e. keeps P (f e)) \<Longrightarrow> (\<And>x. keeps P (g x)) \<Longrightarrow> keeps P (case v of Inl e \<Rightarrow> f e | Inr x \<Rightarrow> g x)"
  by (cases v) auto

lemma keeps_prod: "(\<And>x y. keeps P (f x y)) \<Longrightarrow> keeps P (case v of (x, y) \<Rightarrow> f x y)"
  by (cases v) auto

lemmas keeps_rules = keeps_return keeps_bind keeps_if keeps_option keeps_sum keeps_prod

text \<open>A fact about the result that holds from every world.\<close>

definition returns :: "('a \<Rightarrow> bool) \<Rightarrow> ('w, 'a) state \<Rightarrow> bool" where
  "returns Q m \<longleftrightarrow> (\<forall>w. Q (fst (run_state m w)))"

named_theorems returns_rules

lemma returnsD: "returns Q m \<Longrightarrow> run_state m w = (x, w') \<Longrightarrow> Q x"
  by (metis returns_def fst_conv)

lemma returnsI: "(\<And>w x w'. run_state m w = (x, w') \<Longrightarrow> Q x) \<Longrightarrow> returns Q m"
  by (metis returns_def prod.collapse)

lemma returns_return [returns_rules]: "Q x \<Longrightarrow> returns Q (ret x)"
  by (simp add: returns_def)

lemma returns_ret_iff [simp]: "returns Q (ret x) \<longleftrightarrow> Q x"
  by (simp add: returns_def)

lemma returns_conj: "returns Q m \<Longrightarrow> returns R m \<Longrightarrow> returns (\<lambda>x. Q x \<and> R x) m"
  by (simp add: returns_def)

lemma returns_bind: "returns R m \<Longrightarrow> (\<And>x. R x \<Longrightarrow> returns Q (f x)) \<Longrightarrow> returns Q (State_Monad.bind m f)"
  by (auto simp: returns_def run_state_bind split: prod.split) (metis fst_conv)

lemma returns_then [returns_rules]: "(\<And>x. returns Q (f x)) \<Longrightarrow> returns Q (State_Monad.bind m f)"
  by (rule returns_bind [of "\<lambda>_. True"]) (simp_all add: returns_def)

lemma returns_if [returns_rules]:
  "(c \<Longrightarrow> returns Q m) \<Longrightarrow> (\<not> c \<Longrightarrow> returns Q m') \<Longrightarrow> returns Q (if c then m else m')"
  by simp

lemma returns_option [returns_rules]:
  "(v = None \<Longrightarrow> returns Q m) \<Longrightarrow> (\<And>x. v = Some x \<Longrightarrow> returns Q (f x)) \<Longrightarrow> returns Q (case v of None \<Rightarrow> m | Some x \<Rightarrow> f x)"
  by (cases v) auto

lemma returns_sum [returns_rules]:
  "(\<And>e. v = Inl e \<Longrightarrow> returns Q (f e)) \<Longrightarrow> (\<And>x. v = Inr x \<Longrightarrow> returns Q (g x)) \<Longrightarrow> returns Q (case v of Inl e \<Rightarrow> f e | Inr x \<Rightarrow> g x)"
  by (cases v) auto

lemma returns_prod [returns_rules]:
  "(\<And>x y. v = (x, y) \<Longrightarrow> returns Q (f x y)) \<Longrightarrow> returns Q (case v of (x, y) \<Rightarrow> f x y)"
  by (cases v) auto

lemma returns_prod_app [returns_rules]:
  "(\<And>x y. v = (x, y) \<Longrightarrow> returns Q (f x y z)) \<Longrightarrow> returns Q ((case v of (x, y) \<Rightarrow> f x y) z)"
  by (cases v) auto

lemma returns_mono: "returns Q m \<Longrightarrow> (\<And>x. Q x \<Longrightarrow> R x) \<Longrightarrow> returns R m"
  by (simp add: returns_def)

text \<open>An argument-wise loop that stops at the first error.\<close>

primrec foldState :: "('x \<Rightarrow> 't \<Rightarrow> ('w, 't res) state) \<Rightarrow> 'x list \<Rightarrow> 't \<Rightarrow> ('w, 't res) state" where
  "foldState f [] t = ret (Ok t)"
| "foldState f (x # xs) t = do { r \<leftarrow> f x t; case r of Inl e \<Rightarrow> ret (Inl e) | Inr t' \<Rightarrow> foldState f xs t' }"

lemma keeps_foldState: "(\<And>x t. x \<in> set xs \<Longrightarrow> keeps P (f x t)) \<Longrightarrow> keeps P (foldState f xs t)"
  by (induction xs arbitrary: t) (auto intro!: keeps_rules)

end
