(* ===== verification/Runner_Platform.thy ===== *)
theory Runner_Platform
  imports Graph_Builder Flow_Monad
begin

text \<open>
  What the runner of runner.go is bound to, and the operations on it that every
  terminal path shares: events and results (runner\_events.go), checkpoints
  (runner\_checkpoint.go), the handoff state machine with its outbox
  (handoff\_outbox.go) and the publication of terminal results
  (runner\_publication.go). The checkpointer, the outbox, interceptors, the event
  sink, the clock and the run context are interfaces of the host, computations in
  the state monad over a world \<open>'w\<close>; \<open>errText\<close> is the method \<open>Error\<close> of errors.
\<close>

section \<open>Interfaces\<close>

text \<open>
  \<open>Save\<close>, \<open>Load\<close>, \<open>Prune\<close> and \<open>DeleteIfIdle\<close> of a checkpointer, and \<open>SaveWithOutbox\<close>
  of a transactional one. The last takes the callback of the runner and returns,
  beside its own result, the revision that the callback last accepted (\<open>0\<close> for
  none): the variable that the closure captures.
\<close>

record ('w, 't, 'e, 'x) Checkpointer =
  ckp_Save :: "uint64 \<Rightarrow> ('t, 'e) Snapshot \<Rightarrow> ('w, uint64 res) state"
  ckp_Load :: "string \<Rightarrow> ('w, ('t, 'e) Snapshot \<times> uint64 \<times> err option) state"
  ckp_Prune :: "string \<Rightarrow> int \<Rightarrow> ('w, err option) state"
  ckp_DeleteIfIdle :: "string \<Rightarrow> ('w, err option) state"
  ckp_SaveWithOutbox :: "(uint64 \<Rightarrow> ('t, 'e) Snapshot \<Rightarrow> ('x \<Rightarrow> uint64 \<Rightarrow> ('w, err option) state) \<Rightarrow> ('w, uint64 res \<times> uint64) state) option"

record ('w, 'x) HandoffOutbox =
  obx_EnqueueIntent :: "HandoffIntent \<Rightarrow> ('w, err option) state"
  obx_EnqueueIntentTx :: "('x \<Rightarrow> HandoffIntent \<Rightarrow> ('w, err option) state) option"

record ('w, 't) StateInterceptor =
  icp_BeforeSave :: "'t \<Rightarrow> ('w, 't res) state"
  icp_AfterLoad :: "'t \<Rightarrow> ('w, 't res) state"

text \<open>
  The directive that a node step leads to, and the engine of a durable run: its
  \<open>Load\<close>, \<open>commitStep\<close>, \<open>armWait\<close> and wait backend.
\<close>

record ('t, 'e) directiveStep =
  dst_nextNode :: string
  dst_result :: "('t, 'e) RunResult option"
  dst_err :: "err option"
  dst_terminal :: bool

record ('w, 't, 'e) durableEngine =
  dur_Load :: "string \<Rightarrow> ('w, ('t, 'e) Snapshot res) state"
  dur_commitStep :: "('t, 'e) directiveStep \<Rightarrow> directiveKind \<Rightarrow> 't \<Rightarrow> RunMetadata \<Rightarrow> 'e list \<Rightarrow> ('w, uint64 \<times> err option) state"
  dur_armWait :: "uint64 \<Rightarrow> ('t, 'e) Snapshot \<Rightarrow> DurableWaitSpec \<Rightarrow> ('w, DurableWaitRecord res) state"
  dur_waitCapabilities :: "('w, WaitCapabilityProfile) state option"
  dur_RegisterWait :: "DurableWaitRecord \<Rightarrow> ('w, err option) state"

text \<open>
  Handlers and routers get the context of the node, in which they find the
  metadata of the run: both may charge budgets (\<open>UseBudget\<close>), in the map that the
  metadata of the loop shares. They take the counters and return them updated. The
  other callbacks of the host are taken not to account budgets.
\<close>

type_synonym ('w, 't, 'a) node = "'t \<Rightarrow> counters \<Rightarrow> ('w, ('t \<times> 'a Directive \<times> err option) \<times> counters) state"
type_synonym ('w, 't) router = "'t \<Rightarrow> counters \<Rightarrow> ('w, string res \<times> counters) state"

record ('w, 't, 'a, 'e, 'x) graphRunner =
  grn_graph :: "('t, ('w, 't, 'a) node, ('w, 't) router) Graph"
  grn_checkpointer :: "('w, 't, 'e, 'x) Checkpointer option"
  grn_interceptors :: "('w, 't) StateInterceptor list"
  grn_handoffOutbox :: "('w, 'x) HandoffOutbox option"
  grn_handoffStaleAfter :: duration
  grn_durable :: "('w, 't, 'e) durableEngine option"
  grn_cause :: "('w, err option) state"
  grn_ctxErr :: "('w, err option) state"
  grn_consumerClosed :: "('w, bool) state"
  grn_now :: "('w, gotime) state"
  grn_capture :: "('w, (string, string) gomap) state"
  grn_sink :: "(('t, 'e) RunEvent \<Rightarrow> ('w, bool) state) option"
  grn_errText :: "err \<Rightarrow> string"
  grn_asEffect :: "'a \<Rightarrow> 'e option"

record ('w, 't, 'x) runInvocationOptions =
  inv_overlay :: "'t option"
  inv_overlayMerger :: "('t \<Rightarrow> 't \<Rightarrow> 't) option"
  inv_resumeTargetPolicy :: "('t \<Rightarrow> string \<Rightarrow> ('w, 't \<times> ResumePlan \<times> err option) state) option"
  inv_invariantValidator :: "('t \<Rightarrow> err option) option"
  inv_budgetCounts :: counters
  inv_telemetryContext :: "(string, string) gomap"
  inv_handoffOutbox :: "('w, 'x) HandoffOutbox option"
  inv_atomicHandoff :: bool
  inv_checkpointPolicy :: CheckpointFailurePolicy

section \<open>Results, steps and events\<close>

definition newRunResult :: "RunStatus \<Rightarrow> 't \<Rightarrow> 'e list \<Rightarrow> RunMetadata \<Rightarrow> string \<Rightarrow> string \<Rightarrow> ('t, 'e) RunResult" where
  "newRunResult status st effects meta pointer reason =
    \<lparr>rst_State = st, rst_Status = status, rst_Effects = effects, rst_RunMeta = meta, rst_ExecutionPointer = pointer,
     rst_Reason = reason, rst_ResumeToken = noToken\<rparr>"

definition newRunResultHandoff :: "'t \<Rightarrow> 'e list \<Rightarrow> RunMetadata \<Rightarrow> string \<Rightarrow> string \<Rightarrow> ('t, 'e) RunResult" where
  "newRunResultHandoff = newRunResult RunStatusHandoff"

definition newRunResultCompleted :: "'t \<Rightarrow> 'e list \<Rightarrow> RunMetadata \<Rightarrow> string \<Rightarrow> ('t, 'e) RunResult" where
  "newRunResultCompleted st effects meta pointer = newRunResult RunStatusCompleted st effects meta pointer ''''"

definition newRunResultContextCanceled :: "'t \<Rightarrow> 'e list \<Rightarrow> RunMetadata \<Rightarrow> string \<Rightarrow> ('t, 'e) RunResult" where
  "newRunResultContextCanceled st effects meta pointer = newRunResult RunStatusContextCanceled st effects meta pointer ''context_canceled''"

definition newRunResultSuspended :: "'t \<Rightarrow> 'e list \<Rightarrow> RunMetadata \<Rightarrow> string \<Rightarrow> string \<Rightarrow> ('t, 'e) RunResult" where
  "newRunResultSuspended = newRunResult RunStatusSuspended"

definition endSegment :: "SegmentEndReason \<Rightarrow> gotime \<Rightarrow> RunMetadata \<Rightarrow> RunMetadata" where
  "endSegment reason now meta = meta\<lparr>rmd_Segment := (rmd_Segment meta)\<lparr>seg_EndTime := now, seg_EndReason := reason\<rparr>\<rparr>"

definition markSegmentFailed :: "('w, 't, 'a, 'e, 'x) graphRunner \<Rightarrow> RunMetadata \<Rightarrow> ('w, RunMetadata) state" where
  "markSegmentFailed r meta = do { now \<leftarrow> grn_now r; ret (endSegment SegmentEndFail now meta) }"

definition newRunResultFailed ::
    "('w, 't, 'a, 'e, 'x) graphRunner \<Rightarrow> 't \<Rightarrow> 'e list \<Rightarrow> RunMetadata \<Rightarrow> string \<Rightarrow> string \<Rightarrow> ('w, ('t, 'e) RunResult) state" where
  "newRunResultFailed r st effects meta pointer reason =
    (if seg_EndReason (rmd_Segment meta) \<noteq> SegmentEndFail \<or> IsZero (seg_EndTime (rmd_Segment meta))
     then do { meta' \<leftarrow> markSegmentFailed r meta; ret (newRunResult RunStatusFailed st effects meta' pointer reason) }
     else ret (newRunResult RunStatusFailed st effects meta pointer reason))"

definition continueDirectiveStep :: "string \<Rightarrow> ('t, 'e) directiveStep" where
  "continueDirectiveStep nextNode = \<lparr>dst_nextNode = nextNode, dst_result = None, dst_err = None, dst_terminal = False\<rparr>"

definition terminalDirectiveStep :: "('t, 'e) RunResult option \<Rightarrow> err option \<Rightarrow> ('t, 'e) directiveStep" where
  "terminalDirectiveStep result e = \<lparr>dst_nextNode = '''', dst_result = result, dst_err = e, dst_terminal = True\<rparr>"

definition runEvent :: "EventType \<Rightarrow> string \<Rightarrow> 't \<Rightarrow> ('t, 'e) RunEvent" where
  "runEvent type pointer st = \<lparr>evt_Type = type, evt_ExecutionPointer = pointer, evt_State = st, evt_Effect = None,
     evt_Error = None, evt_Duration = 0, evt_Reason = ''''\<rparr>"

definition newRunEventNodeStarted :: "string \<Rightarrow> 't \<Rightarrow> ('t, 'e) RunEvent" where
  "newRunEventNodeStarted = runEvent EventNodeStarted"

definition newRunEventNodeCompleted :: "string \<Rightarrow> 't \<Rightarrow> duration \<Rightarrow> ('t, 'e) RunEvent" where
  "newRunEventNodeCompleted pointer st d = (runEvent EventNodeCompleted pointer st)\<lparr>evt_Duration := d\<rparr>"

definition newRunEventNodeCompletedWithEffect :: "string \<Rightarrow> 't \<Rightarrow> 'e \<Rightarrow> duration \<Rightarrow> ('t, 'e) RunEvent" where
  "newRunEventNodeCompletedWithEffect pointer st effect d = (runEvent EventNodeCompleted pointer st)\<lparr>evt_Effect := Some effect, evt_Duration := d\<rparr>"

definition newRunEventFailed :: "string \<Rightarrow> 't \<Rightarrow> err \<Rightarrow> string \<Rightarrow> ('t, 'e) RunEvent" where
  "newRunEventFailed pointer st e reason = (runEvent EventFailed pointer st)\<lparr>evt_Error := Some e, evt_Reason := reason\<rparr>"

definition newRunEventSuspendedNoError :: "string \<Rightarrow> 't \<Rightarrow> string \<Rightarrow> ('t, 'e) RunEvent" where
  "newRunEventSuspendedNoError pointer st reason = (runEvent EventSuspended pointer st)\<lparr>evt_Reason := reason\<rparr>"

definition newRunEventContextCanceled :: "string \<Rightarrow> 't \<Rightarrow> string \<Rightarrow> ('t, 'e) RunEvent" where
  "newRunEventContextCanceled pointer st reason = (runEvent EventContextCanceled pointer st)\<lparr>evt_Reason := reason\<rparr>"

definition newRunEventCompleted :: "string \<Rightarrow> 't \<Rightarrow> ('t, 'e) RunEvent" where
  "newRunEventCompleted = runEvent EventCompleted"

definition newRunEventHandoff :: "string \<Rightarrow> 't \<Rightarrow> string \<Rightarrow> ('t, 'e) RunEvent" where
  "newRunEventHandoff pointer st reason = (runEvent EventHandoff pointer st)\<lparr>evt_Reason := reason\<rparr>"

definition newRunEventCheckpointFailed :: "string \<Rightarrow> 't \<Rightarrow> err \<Rightarrow> ('t, 'e) RunEvent" where
  "newRunEventCheckpointFailed pointer st e = (runEvent EventCheckpointFailed pointer st)\<lparr>evt_Error := Some e\<rparr>"

definition emitEvent :: "('w, 't, 'a, 'e, 'x) graphRunner \<Rightarrow> ('t, 'e) RunEvent \<Rightarrow> ('w, bool) state" where
  "emitEvent r event = (case grn_sink r of None \<Rightarrow> ret True | Some sink \<Rightarrow> sink event)"

definition emitTerminalEvent :: "('w, 't, 'a, 'e, 'x) graphRunner \<Rightarrow> ('t, 'e) RunEvent \<Rightarrow> ('w, bool) state" where
  "emitTerminalEvent r event = emitEvent r event"

section \<open>Checkpoints\<close>

definition validateInvariant :: "('w, 't, 'x) runInvocationOptions \<Rightarrow> 't \<Rightarrow> err option" where
  "validateInvariant opts st = (case inv_invariantValidator opts of None \<Rightarrow> None
     | Some f \<Rightarrow> (case f st of None \<Rightarrow> None | Some e \<Rightarrow> Some (Wrapped ''flowy: invariant violated'' [e])))"

definition wrapRes :: "string \<Rightarrow> 't res \<Rightarrow> 't res" where
  "wrapRes msg v = (case v of Inl e \<Rightarrow> Inl (Wrapped msg [e]) | Inr x \<Rightarrow> Inr x)"

definition prepareSnapshot ::
    "('w, 't, 'a, 'e, 'x) graphRunner \<Rightarrow> ('w, 't, 'x) runInvocationOptions \<Rightarrow> ('t, 'e) Snapshot \<Rightarrow> ('w, ('t, 'e) Snapshot res) state" where
  "prepareSnapshot r opts snapshot =
    (if grn_checkpointer r = None then ret (Inl (Plain ''flowy: checkpointer is required''))
     else case validateInvariant opts (snp_State snapshot) of
       Some e \<Rightarrow> ret (Inl e)
     | None \<Rightarrow> do {
         st \<leftarrow> foldState icp_BeforeSave (grn_interceptors r) (snp_State snapshot);
         ret (case wrapRes ''flowy: before_save interceptor'' st of Inl e \<Rightarrow> Inl e | Inr s \<Rightarrow> Ok (snapshot\<lparr>snp_State := s\<rparr>))
       })"

definition checkpointContractError :: "err \<Rightarrow> bool" where
  "checkpointContractError e \<longleftrightarrow> errIs e ErrConcurrencyConflict \<or> errIs e ErrInvalidSnapshot \<or> errIs e ErrLeaseLost
     \<or> errIs e ErrThreadLeaseBusy \<or> errIs e ErrExecutionCapability \<or> errIs e ErrInvalidHandoffIntent
     \<or> errIs e ErrTransactionalOutboxUnsupported"

definition saveSnapshot :: "('w, 't, 'a, 'e, 'x) graphRunner \<Rightarrow> uint64 \<Rightarrow> ('t, 'e) Snapshot \<Rightarrow> ('w, uint64 res) state" where
  "saveSnapshot r expected snapshot = (case grn_checkpointer r of
     None \<Rightarrow> ret (Inl (Plain ''flowy: checkpointer is required'')) | Some cp \<Rightarrow> ckp_Save cp expected snapshot)"

definition emitCheckpointFailed :: "('w, 't, 'a, 'e, 'x) graphRunner \<Rightarrow> string \<Rightarrow> 't \<Rightarrow> err \<Rightarrow> ('w, unit) state" where
  "emitCheckpointFailed r current st saveErr = (case grn_sink r of
     None \<Rightarrow> ret () | Some _ \<Rightarrow> do { _ \<leftarrow> emitTerminalEvent r (newRunEventCheckpointFailed current st saveErr); ret () })"

text \<open>
  The result is the prepared snapshot, the new revision, whether it was persisted,
  and the error that the caller has to report.
\<close>

definition persistSnapshotPrepared ::
    "('w, 't, 'a, 'e, 'x) graphRunner \<Rightarrow> ('w, 't, 'x) runInvocationOptions \<Rightarrow> uint64 \<Rightarrow> ('t, 'e) Snapshot \<Rightarrow> string \<Rightarrow> 't
     \<Rightarrow> ('w, ('t, 'e) Snapshot \<times> uint64 \<times> bool \<times> err option) state" where
  "persistSnapshotPrepared r opts expectedRevision snapshot current st = do {
     prepared \<leftarrow> prepareSnapshot r opts snapshot;
     case prepared of
       Inl prepErr \<Rightarrow> ret (snapshot, 0, False, Some prepErr)
     | Inr p \<Rightarrow> do {
         saved \<leftarrow> saveSnapshot r expectedRevision p;
         case saved of
           Inr newRevision \<Rightarrow> ret (p, newRevision, True, None)
         | Inl saveErr \<Rightarrow>
             if inv_checkpointPolicy opts \<noteq> CheckpointPolicySkipOnSaveError \<or> checkpointContractError saveErr
             then ret (p, 0, False, Some saveErr)
             else do {
               _ \<leftarrow> emitCheckpointFailed r (if snp_ExecutionPointer snapshot = '''' then current else snp_ExecutionPointer snapshot) st saveErr;
               ret (p, 0, False, None)
             }
       }
   }"

definition persistSnapshot ::
    "('w, 't, 'a, 'e, 'x) graphRunner \<Rightarrow> ('w, 't, 'x) runInvocationOptions \<Rightarrow> uint64 \<Rightarrow> ('t, 'e) Snapshot \<Rightarrow> string \<Rightarrow> 't
     \<Rightarrow> ('w, uint64 \<times> bool \<times> err option) state" where
  "persistSnapshot r opts expectedRevision snapshot current st = do {
     (_, newRevision, persisted, e) \<leftarrow> persistSnapshotPrepared r opts expectedRevision snapshot current st;
     ret (newRevision, persisted, e)
   }"

definition applyRetentionPolicy :: "('w, 't, 'a, 'e, 'x) graphRunner \<Rightarrow> string \<Rightarrow> ('w, err option) state" where
  "applyRetentionPolicy r threadID = (case grn_checkpointer r of
     None \<Rightarrow> ret None
   | Some cp \<Rightarrow> if rcf_retentionLimit (gph_defaults (grn_graph r)) \<le> 0 then ret None
       else ckp_Prune cp threadID (rcf_retentionLimit (gph_defaults (grn_graph r))))"

definition appliesTerminalPolicies :: "RunStatus \<Rightarrow> bool" where
  "appliesTerminalPolicies status \<longleftrightarrow> status = RunStatusCompleted \<or> status = RunStatusFailed"

definition applyTerminalPolicies :: "('w, 't, 'a, 'e, 'x) graphRunner \<Rightarrow> string \<Rightarrow> RunStatus \<Rightarrow> ('w, err option) state" where
  "applyTerminalPolicies r threadID status = (case grn_checkpointer r of
     None \<Rightarrow> ret None
   | Some cp \<Rightarrow> if status = RunStatusCompleted \<and> rcf_deleteOnSuccess (gph_defaults (grn_graph r))
       then ckp_DeleteIfIdle cp threadID else applyRetentionPolicy r threadID)"

definition retentionFailedReason :: "string \<Rightarrow> string" where
  "retentionFailedReason reason = (if reason = '''' then ''retention_failed'' else reason @ ''_retention_failed'')"

definition invalidResumePointerError :: err where
  "invalidResumePointerError = Wrapped '''' [Sent ErrInvalidSnapshot, Wrapped ''node'' [Sent ErrResumeStartNodeNotFound]]"

definition validateExecutionPointer :: "('w, 't, 'a, 'e, 'x) graphRunner \<Rightarrow> string \<Rightarrow> err option" where
  "validateExecutionPointer r ptr =
    (if ptr = '''' then Some (Sent ErrInvalidSnapshot)
     else if lookup (gph_nodes (grn_graph r)) ptr = None then Some invalidResumePointerError
     else None)"

end
