(* ===== verification/Handoff_Outbox.thy ===== *)
theory Handoff_Outbox
  imports Runner_Platform
begin

text \<open>
  The handoff of a run to a background worker (handoff\_outbox.go,
  runner\_publication.go and the handoff part of runner\_checkpoint.go): the
  snapshot is saved as pending, patched to enqueued, and only then the intent
  goes to the outbox; a failed enqueue tries to mark the snapshot as orphaned. With
  a transactional checkpointer and outbox the snapshot and the intent are written
  in one transaction. A panic of \<open>newHandoffIntent\<close> is the result \<open>None\<close>.
\<close>

section \<open>Intents\<close>

definition newHandoffIntent :: "string \<Rightarrow> string \<Rightarrow> string \<Rightarrow> HandoffStatus \<Rightarrow> uint64 \<Rightarrow> uint64 \<Rightarrow> HandoffIntent option" where
  "newHandoffIntent threadID pointer reason status pendingRevision committedRevision =
    (case NewHandoffIntent threadID pointer reason status pendingRevision committedRevision of Inl _ \<Rightarrow> None | Inr intent \<Rightarrow> Some intent)"

definition enqueueHandoffIntent :: "('w, 'x) HandoffOutbox option \<Rightarrow> HandoffIntent \<Rightarrow> ('w, err option) state" where
  "enqueueHandoffIntent outbox intent =
    (case outbox of None \<Rightarrow> ret None
     | Some box \<Rightarrow>
        (case validateHandoffIntent intent of Some e \<Rightarrow> ret (Some e)
         | None \<Rightarrow> do {
             e \<leftarrow> obx_EnqueueIntent box intent;
             ret (map_option (\<lambda>e. Wrapped '''' [Sent ErrHandoffEnqueueFailed, e]) e)
           }))"

definition enqueueTransactionalHandoffIntent :: "('x \<Rightarrow> HandoffIntent \<Rightarrow> ('w, err option) state) \<Rightarrow> 'x \<Rightarrow> HandoffIntent \<Rightarrow> ('w, err option) state" where
  "enqueueTransactionalHandoffIntent enqueueTx tx intent =
    (case validateHandoffIntent intent of Some e \<Rightarrow> ret (Some e)
     | None \<Rightarrow> do {
         e \<leftarrow> enqueueTx tx intent;
         ret (map_option (\<lambda>e. Wrapped '''' [Sent ErrHandoffEnqueueFailed, e]) e)
       })"

definition resolveHandoffOutbox :: "('w, 't, 'a, 'e, 'x) graphRunner \<Rightarrow> ('w, 't, 'x) runInvocationOptions \<Rightarrow> ('w, 'x) HandoffOutbox option" where
  "resolveHandoffOutbox r opts = (case inv_handoffOutbox opts of None \<Rightarrow> grn_handoffOutbox r | Some box \<Rightarrow> Some box)"

section \<open>The state machine of the outbox\<close>

definition patchHandoffStatus ::
    "('w, 't, 'a, 'e, 'x) graphRunner \<Rightarrow> uint64 \<Rightarrow> ('t, 'e) Snapshot \<Rightarrow> RunMetadata \<Rightarrow> HandoffStatus \<Rightarrow> ('w, uint64 res) state" where
  "patchHandoffStatus r expectedRevision snapshot meta status = do {
     now \<leftarrow> (if status = HandoffStatusPending then grn_now r else ret 0);
     saveSnapshot r expectedRevision (snapshot\<lparr>snp_RunMeta := meta\<lparr>rmd_HandoffStatus := status, rmd_HandoffPendingAt := now\<rparr>\<rparr>)
   }"

record handoffOutboxFSMResult =
  fsm_ResumeToken :: ResumeToken
  fsm_EnqueueErr :: "err option"
  fsm_PatchErr :: "err option"
  fsm_PersistedStatus :: HandoffStatus
  fsm_PersistedPendingAt :: gotime

definition persistedHandoffPendingAt :: "HandoffStatus \<Rightarrow> gotime \<Rightarrow> gotime" where
  "persistedHandoffPendingAt status pendingAt = (if status = HandoffStatusPending then pendingAt else 0)"

definition wrapHandoffPatchFailed :: "err option \<Rightarrow> err option" where
  "wrapHandoffPatchFailed e = map_option (\<lambda>e. Wrapped '''' [Sent ErrHandoffPatchFailed, e]) e"

abbreviation tokenAt :: "string \<Rightarrow> uint64 \<Rightarrow> ResumeToken" where
  "tokenAt threadID revision \<equiv> \<lparr>tok_ThreadID = threadID, tok_SnapshotRevision = revision\<rparr>"

definition runHandoffOutboxFSM ::
    "('w, 't, 'a, 'e, 'x) graphRunner \<Rightarrow> string \<Rightarrow> uint64 \<Rightarrow> ('t, 'e) Snapshot \<Rightarrow> RunMetadata \<Rightarrow> ('w, 'x) HandoffOutbox option
     \<Rightarrow> string \<Rightarrow> string \<Rightarrow> ('w, handoffOutboxFSMResult option) state" where
  "runHandoffOutboxFSM r threadID pendingRev snapshot meta outbox resumePtr reason = do {
     patched \<leftarrow> patchHandoffStatus r pendingRev snapshot meta HandoffStatusEnqueued;
     case patched of
       Inl patchErr \<Rightarrow> ret (Some \<lparr>fsm_ResumeToken = tokenAt threadID pendingRev, fsm_EnqueueErr = None,
         fsm_PatchErr = wrapHandoffPatchFailed (Some patchErr), fsm_PersistedStatus = HandoffStatusPending,
         fsm_PersistedPendingAt = persistedHandoffPendingAt HandoffStatusPending (rmd_HandoffPendingAt meta)\<rparr>)
     | Inr enqueuedRev \<Rightarrow>
         (case newHandoffIntent threadID resumePtr reason HandoffStatusEnqueued pendingRev enqueuedRev of
            None \<Rightarrow> ret None
          | Some intent \<Rightarrow> do {
              enqueueErr \<leftarrow> enqueueHandoffIntent outbox intent;
              if enqueueErr \<noteq> None then do {
                orphaned \<leftarrow> patchHandoffStatus r enqueuedRev snapshot meta HandoffStatusOrphaned;
                ret (Some (case orphaned of
                    Inl patchErr \<Rightarrow> \<lparr>fsm_ResumeToken = tokenAt threadID enqueuedRev, fsm_EnqueueErr = enqueueErr,
                      fsm_PatchErr = wrapHandoffPatchFailed (Some patchErr), fsm_PersistedStatus = HandoffStatusEnqueued,
                      fsm_PersistedPendingAt = persistedHandoffPendingAt HandoffStatusEnqueued (rmd_HandoffPendingAt meta)\<rparr>
                  | Inr orphanRev \<Rightarrow> \<lparr>fsm_ResumeToken = tokenAt threadID orphanRev, fsm_EnqueueErr = enqueueErr,
                      fsm_PatchErr = None, fsm_PersistedStatus = HandoffStatusOrphaned,
                      fsm_PersistedPendingAt = persistedHandoffPendingAt HandoffStatusOrphaned (rmd_HandoffPendingAt meta)\<rparr>))
              } else ret (Some \<lparr>fsm_ResumeToken = tokenAt threadID enqueuedRev, fsm_EnqueueErr = None, fsm_PatchErr = None,
                  fsm_PersistedStatus = HandoffStatusEnqueued, fsm_PersistedPendingAt = 0\<rparr>)
            })
   }"

definition clearHandoffRunMeta :: "RunMetadata \<Rightarrow> RunMetadata" where
  "clearHandoffRunMeta meta = meta\<lparr>rmd_HandoffStatus := HandoffStatusNone, rmd_HandoffPendingAt := 0\<rparr>"

definition applyFSMPersistedHandoffMeta :: "handoffOutboxFSMResult \<Rightarrow> ('t, 'e) RunResult \<Rightarrow> ('t, 'e) RunResult" where
  "applyFSMPersistedHandoffMeta fsm result = result\<lparr>rst_RunMeta := (rst_RunMeta result)\<lparr>
     rmd_HandoffStatus := fsm_PersistedStatus fsm, rmd_HandoffPendingAt := fsm_PersistedPendingAt fsm\<rparr>\<rparr>"

definition ReasonHandoffOrphaned :: string where
  "ReasonHandoffOrphaned = ''handoff_orphaned''"

definition deriveHandoffTerminalReason :: "string \<Rightarrow> HandoffStatus \<Rightarrow> string" where
  "deriveHandoffTerminalReason directiveReason status =
    (if status = HandoffStatusOrphaned then ReasonHandoffOrphaned else directiveReason)"

section \<open>Terminal results of a handoff\<close>

definition emitHandoffTerminalEvent :: "('w, 't, 'a, 'e, 'x) graphRunner \<Rightarrow> string \<Rightarrow> 't \<Rightarrow> string \<Rightarrow> ('w, unit) state" where
  "emitHandoffTerminalEvent r savedPointer st reason =
    do { _ \<leftarrow> emitTerminalEvent r (newRunEventHandoff savedPointer st reason); ret () }"

definition handoffAfterEnqueueFailure ::
    "('w, 't, 'a, 'e, 'x) graphRunner \<Rightarrow> string \<Rightarrow> string \<Rightarrow> 't \<Rightarrow> ('t, 'e) RunResult \<Rightarrow> err \<Rightarrow> ('w, ('t, 'e) RunResult \<times> err option) state" where
  "handoffAfterEnqueueFailure r threadID savedPointer st result enqueueErr = do {
     policyErr \<leftarrow> applyRetentionPolicy r threadID;
     let result' = (if policyErr = None then result else result\<lparr>rst_Reason := retentionFailedReason (rst_Reason result)\<rparr>) in do {
       _ \<leftarrow> emitHandoffTerminalEvent r savedPointer st (rst_Reason result');
       ret (result', Some (case policyErr of
           None \<Rightarrow> enqueueErr
         | Some e \<Rightarrow> Wrapped '''' [enqueueErr, Wrapped ''flowy: handoff retention failed'' [e]]))
     }
   }"

definition completeHandoffSession :: "('t, 'e) RunResult \<Rightarrow> err option \<Rightarrow> bool \<Rightarrow> bool \<Rightarrow> ('t, 'e) RunResult \<times> err option" where
  "completeHandoffSession result policyErr persisted signalSession =
    (case policyErr of
       Some e \<Rightarrow> (result, Some (Wrapped ''flowy: handoff retention failed'' [e]))
     | None \<Rightarrow> if \<not> persisted \<and> signalSession then (result, Some (Sent ErrCheckpointSkipped)) else (result, None))"

definition finalizeHandoffTerminal ::
    "('w, 't, 'a, 'e, 'x) graphRunner \<Rightarrow> string \<Rightarrow> string \<Rightarrow> 't \<Rightarrow> ('t, 'e) RunResult \<Rightarrow> bool \<Rightarrow> bool \<Rightarrow> ('w, ('t, 'e) RunResult \<times> err option) state" where
  "finalizeHandoffTerminal r threadID savedPointer st result signalSession persisted = do {
     policyErr \<leftarrow> (if persisted then applyRetentionPolicy r threadID else ret None);
     let result' = (if policyErr = None then result else result\<lparr>rst_Reason := retentionFailedReason (rst_Reason result)\<rparr>) in do {
       _ \<leftarrow> emitHandoffTerminalEvent r savedPointer st (rst_Reason result');
       ret (completeHandoffSession result' policyErr persisted signalSession)
     }
   }"

text \<open>\<open>Inl\<close>: the result to return at once; \<open>Inr\<close>: the updated result to finalize.\<close>

definition dispatchPersistedHandoffOutbox ::
    "('w, 't, 'a, 'e, 'x) graphRunner \<Rightarrow> string \<Rightarrow> uint64 \<Rightarrow> ('t, 'e) Snapshot \<Rightarrow> RunMetadata \<Rightarrow> ('w, 'x) HandoffOutbox option
     \<Rightarrow> string \<Rightarrow> string \<Rightarrow> 't \<Rightarrow> ('t, 'e) RunResult \<Rightarrow> ('w, ((('t, 'e) RunResult \<times> err option) + ('t, 'e) RunResult) option) state" where
  "dispatchPersistedHandoffOutbox r threadID pendingRev snapshot meta outbox resumePtr savedPointer st result = do {
     outcome \<leftarrow> runHandoffOutboxFSM r threadID pendingRev snapshot meta outbox resumePtr (rst_Reason result);
     case outcome of None \<Rightarrow> ret None
     | Some fsm \<Rightarrow>
         let marked = applyFSMPersistedHandoffMeta fsm (result\<lparr>rst_ResumeToken :=
               (if tok_ThreadID (fsm_ResumeToken fsm) = '''' then tokenAt threadID pendingRev else fsm_ResumeToken fsm)\<rparr>) in
         (case errJoin [fsm_EnqueueErr fsm, fsm_PatchErr fsm] of
            None \<Rightarrow> ret (Some (Inr (applyFSMPersistedHandoffMeta fsm (result\<lparr>rst_ResumeToken := fsm_ResumeToken fsm\<rparr>))))
          | Some joined \<Rightarrow>
              let handoffErr = (case (fsm_EnqueueErr fsm, fsm_PatchErr fsm) of
                    (Some e, None) \<Rightarrow> e | (None, Some e) \<Rightarrow> e | _ \<Rightarrow> joined) in do {
                out \<leftarrow> handoffAfterEnqueueFailure r threadID savedPointer st
                  (marked\<lparr>rst_Reason := deriveHandoffTerminalReason (rst_Reason result) (fsm_PersistedStatus fsm)\<rparr>) handoffErr;
                ret (Some (Inl out))
              })
   }"

section \<open>Transactional handoff\<close>

text \<open>The callback that \<open>SaveWithOutbox\<close> runs inside its transaction.\<close>

definition handoffTxCallback ::
    "('x \<Rightarrow> HandoffIntent \<Rightarrow> ('w, err option) state) \<Rightarrow> string \<Rightarrow> string \<Rightarrow> string \<Rightarrow> uint64 \<Rightarrow> 'x \<Rightarrow> uint64 \<Rightarrow> ('w, err option) state" where
  "handoffTxCallback enqueueTx threadID pointer reason expectedRevision tx savedRevision =
    (if savedRevision \<noteq> expectedRevision + 1 then ret (Some (invalidIntent ''transactional saved revision''))
     else case NewHandoffIntent threadID pointer reason HandoffStatusEnqueued savedRevision savedRevision of
       Inl e \<Rightarrow> ret (Some e)
     | Inr intent \<Rightarrow> enqueueTransactionalHandoffIntent enqueueTx tx intent)"

text \<open>\<open>None\<close>: not transactional, fall back; otherwise the saved revision or the error.\<close>

definition tryTransactionalHandoffSave ::
    "('w, 't, 'a, 'e, 'x) graphRunner \<Rightarrow> ('w, 't, 'x) runInvocationOptions \<Rightarrow> string \<Rightarrow> uint64 \<Rightarrow> ('t, 'e) Snapshot \<Rightarrow> RunMetadata
     \<Rightarrow> ('w, 'x) HandoffOutbox option \<Rightarrow> string \<Rightarrow> ('w, uint64 res option) state" where
  "tryTransactionalHandoffSave r opts threadID expectedRevision snapshot meta outbox reason =
    (case (Option.bind (grn_checkpointer r) ckp_SaveWithOutbox, Option.bind outbox obx_EnqueueIntentTx) of
       (Some saveWithOutbox, Some enqueueTx) \<Rightarrow> do {
         prepared \<leftarrow> prepareSnapshot r opts (snapshot\<lparr>snp_RunMeta :=
           meta\<lparr>rmd_HandoffStatus := HandoffStatusEnqueued, rmd_HandoffPendingAt := 0\<rparr>\<rparr>);
         case prepared of
           Inl e \<Rightarrow> ret (Some (Inl e))
         | Inr p \<Rightarrow> do {
             (saved, validated) \<leftarrow> saveWithOutbox expectedRevision p
               (handoffTxCallback enqueueTx threadID (snp_ExecutionPointer snapshot) reason expectedRevision);
             ret (Some (case saved of
                 Inl e \<Rightarrow> Inl e
               | Inr newRev \<Rightarrow>
                   if validated = 0 then Inl (invalidIntent ''transactional outbox callback was not called'')
                   else if newRev \<noteq> validated then Inl (invalidIntent ''transactional returned revision'')
                   else Ok newRev))
           }
       }
     | _ \<Rightarrow> ret None)"

section \<open>The handoff terminal\<close>

definition failedHandoff ::
    "('w, 't, 'a, 'e, 'x) graphRunner \<Rightarrow> string \<Rightarrow> 't \<Rightarrow> 'e list \<Rightarrow> RunMetadata \<Rightarrow> err \<Rightarrow> string \<Rightarrow> ('w, (('t, 'e) RunResult \<times> err option) option) state" where
  "failedHandoff r savedPointer st effects meta e msg = do {
     _ \<leftarrow> emitTerminalEvent r (newRunEventFailed savedPointer st e ''handoff_save_failed'');
     failed \<leftarrow> newRunResultFailed r st effects meta savedPointer ''handoff_save_failed'';
     ret (Some (failed\<lparr>rst_RunMeta := clearHandoffRunMeta (rst_RunMeta failed)\<rparr>, Some (Wrapped msg [e])))
   }"

text \<open>After the telemetry and the end of the segment are recorded and the pointer is validated.\<close>

definition publishHandoff ::
    "('w, 't, 'a, 'e, 'x) graphRunner \<Rightarrow> ('w, 't, 'x) runInvocationOptions \<Rightarrow> string \<Rightarrow> string \<Rightarrow> 't \<Rightarrow> RunMetadata \<Rightarrow> 'e list
     \<Rightarrow> uint64 \<Rightarrow> string \<Rightarrow> string \<Rightarrow> bool \<Rightarrow> ('w, 'x) HandoffOutbox option \<Rightarrow> ('w, (('t, 'e) RunResult \<times> err option) option) state" where
  "publishHandoff r opts threadID current st meta effects revision reason resumePtr signalSession outbox =
    (let result = newRunResultHandoff st effects meta resumePtr reason;
         snapshot = \<lparr>snp_ThreadID = threadID, snp_ExecutionPointer = resumePtr, snp_Revision = 0, snp_State = st,
           snp_RunMeta = meta, snp_Effects = effects\<rparr> in do {
       tx \<leftarrow> (if outbox = None then ret None else tryTransactionalHandoffSave r opts threadID revision snapshot meta outbox reason);
       case tx of
         Some (Inl txErr) \<Rightarrow> failedHandoff r resumePtr st effects meta txErr ''flowy: transactional handoff failed''
       | Some (Inr txRev) \<Rightarrow> do {
           out \<leftarrow> finalizeHandoffTerminal r threadID resumePtr st
             (result\<lparr>rst_ResumeToken := tokenAt threadID txRev, rst_RunMeta := (rst_RunMeta result)\<lparr>
               rmd_HandoffStatus := HandoffStatusEnqueued, rmd_HandoffPendingAt := 0\<rparr>\<rparr>) signalSession True;
           ret (Some out)
         }
       | None \<Rightarrow> do {
           (prepared, newRev, persisted, saveErr) \<leftarrow> persistSnapshotPrepared r opts revision snapshot current st;
           case saveErr of
             Some e \<Rightarrow> failedHandoff r resumePtr st effects meta e ''flowy: handoff save failed''
           | None \<Rightarrow>
               if persisted then
                 if outbox = None then do {
                   out \<leftarrow> finalizeHandoffTerminal r threadID resumePtr st (result\<lparr>rst_ResumeToken := tokenAt threadID newRev\<rparr>) signalSession True;
                   ret (Some out)
                 } else do {
                   dispatched \<leftarrow> dispatchPersistedHandoffOutbox r threadID newRev prepared meta outbox resumePtr resumePtr st
                     (result\<lparr>rst_ResumeToken := tokenAt threadID newRev\<rparr>);
                   case dispatched of
                     None \<Rightarrow> ret None
                   | Some (Inl out) \<Rightarrow> ret (Some out)
                   | Some (Inr updated) \<Rightarrow> do {
                       out \<leftarrow> finalizeHandoffTerminal r threadID resumePtr st updated signalSession True;
                       ret (Some out)
                     }
                 }
               else do {
                 out \<leftarrow> finalizeHandoffTerminal r threadID resumePtr st
                   (if inv_checkpointPolicy opts = CheckpointPolicySkipOnSaveError
                    then result\<lparr>rst_Reason := ''handoff_checkpoint_skipped'',
                      rst_RunMeta := (if outbox = None then rst_RunMeta result else clearHandoffRunMeta (rst_RunMeta result))\<rparr>
                    else result) signalSession False;
                 ret (Some out)
               }
         }
     })"

definition completeHandoffTerminal ::
    "('w, 't, 'a, 'e, 'x) graphRunner \<Rightarrow> ('w, 't, 'x) runInvocationOptions \<Rightarrow> string \<Rightarrow> string \<Rightarrow> 't \<Rightarrow> RunMetadata \<Rightarrow> 'e list
     \<Rightarrow> uint64 \<Rightarrow> string \<Rightarrow> string \<Rightarrow> bool \<Rightarrow> ('w, (('t, 'e) RunResult \<times> err option) option) state" where
  "completeHandoffTerminal r opts threadID current st meta0 effects revision reason resumeAt signalSession = do {
     telemetry \<leftarrow> grn_capture r;
     now \<leftarrow> grn_now r;
     let meta = endSegment SegmentEndHandoff now (meta0\<lparr>rmd_TelemetryContext := telemetry\<rparr>);
         resumePtr = (if resumeAt = '''' then current else resumeAt) in
     (case validateExecutionPointer r resumePtr of
        Some ptrErr \<Rightarrow> do {
          _ \<leftarrow> emitTerminalEvent r (newRunEventFailed current st ptrErr ''handoff_resume_target_invalid'');
          failed \<leftarrow> newRunResultFailed r st effects meta current ''handoff_resume_target_invalid'';
          ret (Some (failed, Some (Wrapped ''flowy: handoff resume target invalid'' [ptrErr])))
        }
      | None \<Rightarrow> do {
          pendingAt \<leftarrow> (if resolveHandoffOutbox r opts = None then ret 0 else grn_now r);
          publishHandoff r opts threadID current st
            (meta\<lparr>rmd_HandoffStatus := (if resolveHandoffOutbox r opts = None then HandoffStatusNone else HandoffStatusPending),
              rmd_HandoffPendingAt := pendingAt\<rparr>) effects revision reason resumePtr signalSession (resolveHandoffOutbox r opts)
        })
   }"

section \<open>What the runner assumes of a checkpointer\<close>

text \<open>
  The contract of the interface \<open>Checkpointer\<close>: \<open>latest\<close> is the snapshot that a
  load would return. A save succeeds only on the expected revision and makes its
  snapshot the latest one; a failed save and a pruning that retains something
  leave the latest snapshots alone.
\<close>

abbreviation revisionOf :: "('t, 'e) Snapshot option \<Rightarrow> uint64" where
  "revisionOf s \<equiv> (case s of None \<Rightarrow> 0 | Some t \<Rightarrow> snp_Revision t)"

locale checkpointer_contract =
  fixes cp :: "('w, 't, 'e, 'x) Checkpointer" and latest :: "'w \<Rightarrow> string \<Rightarrow> ('t, 'e) Snapshot option"
  assumes save_Ok: "run_state (ckp_Save cp expected s) w = (Ok n, w') \<Longrightarrow>
      expected \<noteq> - 1 \<and> n = expected + 1 \<and> revisionOf (latest w (snp_ThreadID s)) = expected
      \<and> snp_ThreadID s \<noteq> '''' \<and> snp_ExecutionPointer s \<noteq> ''''
      \<and> latest w' = (latest w)(snp_ThreadID s := Some (s\<lparr>snp_Revision := n\<rparr>))"
    and save_Err: "run_state (ckp_Save cp expected s) w = (Inl e, w') \<Longrightarrow> latest w' = latest w"
    and prune_keeps: "limit > 0 \<Longrightarrow> run_state (ckp_Prune cp k limit) w = (x, w') \<Longrightarrow> latest w' = latest w"
begin

text \<open>The hosts of the runner that keep their hands off the checkpoints.\<close>

definition hands_off :: "('w, 'a) state \<Rightarrow> bool" where
  "hands_off m \<longleftrightarrow> (\<forall>w x w'. run_state m w = (x, w') \<longrightarrow> latest w' = latest w)"

lemma patch_Ok:
  assumes "grn_checkpointer r = Some cp" and "hands_off (grn_now r)"
    and "run_state (patchHandoffStatus r expected s meta status) w = (Ok n, w')"
  shows "expected \<noteq> - 1 \<and> n = expected + 1 \<and> revisionOf (latest w (snp_ThreadID s)) = expected
    \<and> snp_ThreadID s \<noteq> '''' \<and> snp_ExecutionPointer s \<noteq> ''''
    \<and> (\<exists>now. (status \<noteq> HandoffStatusPending \<longrightarrow> now = 0) \<and> latest w' = (latest w)(snp_ThreadID s :=
        Some (s\<lparr>snp_RunMeta := meta\<lparr>rmd_HandoffStatus := status, rmd_HandoffPendingAt := now\<rparr>, snp_Revision := n\<rparr>)))"
proof -
  obtain now v where v: "run_state (if status = HandoffStatusPending then grn_now r else ret 0) w = (now, v)"
    by (cases "run_state (if status = HandoffStatusPending then grn_now r else ret 0) w")
  have l: "latest v = latest w" using v assms(2) by (auto simp: hands_off_def split: if_splits)
  have n: "status \<noteq> HandoffStatusPending \<longrightarrow> now = 0" using v by auto
  have "run_state (ckp_Save cp expected (s\<lparr>snp_RunMeta := meta\<lparr>rmd_HandoffStatus := status, rmd_HandoffPendingAt := now\<rparr>\<rparr>)) v = (Ok n, w')"
    using assms(3) v by (simp add: patchHandoffStatus_def saveSnapshot_def assms(1) run_state_bind split: if_splits)
  from save_Ok [OF this] l n show ?thesis by auto
qed

lemma patch_Err:
  assumes "grn_checkpointer r = Some cp" and "hands_off (grn_now r)"
    and "run_state (patchHandoffStatus r expected s meta status) w = (Inl e, w')"
  shows "latest w' = latest w"
proof -
  obtain now v where v: "run_state (if status = HandoffStatusPending then grn_now r else ret 0) w = (now, v)"
    by (cases "run_state (if status = HandoffStatusPending then grn_now r else ret 0) w")
  have "latest v = latest w" using v assms(2) by (auto simp: hands_off_def split: if_splits)
  moreover have "run_state (ckp_Save cp expected (s\<lparr>snp_RunMeta := meta\<lparr>rmd_HandoffStatus := status, rmd_HandoffPendingAt := now\<rparr>\<rparr>)) v = (Inl e, w')"
    using assms(3) v by (simp add: patchHandoffStatus_def saveSnapshot_def assms(1) run_state_bind split: if_splits)
  ultimately show ?thesis using save_Err by simp
qed

text \<open>
  The result of the state machine describes the store: the token is the latest
  revision and the reported status the status of the latest snapshot.
\<close>

definition describes :: "handoffOutboxFSMResult \<Rightarrow> ('t, 'e) Snapshot \<Rightarrow> RunMetadata \<Rightarrow> 'w \<Rightarrow> bool" where
  "describes fsm s meta w \<longleftrightarrow> latest w (snp_ThreadID s) = Some (s\<lparr>snp_Revision := tok_SnapshotRevision (fsm_ResumeToken fsm),
     snp_RunMeta := meta\<lparr>rmd_HandoffStatus := fsm_PersistedStatus fsm, rmd_HandoffPendingAt := fsm_PersistedPendingAt fsm\<rparr>\<rparr>)"

end

text \<open>The snapshot that an intent names is the latest one and says enqueued.\<close>

definition committedAs :: "(string \<Rightarrow> ('t, 'e) Snapshot option) \<Rightarrow> HandoffIntent \<Rightarrow> bool" where
  "committedAs stored intent \<longleftrightarrow> (\<exists>s. stored (hin_ThreadID intent) = Some s \<and> snp_Revision s = hin_SnapshotRevision intent
     \<and> rmd_HandoffStatus (snp_RunMeta s) = HandoffStatusEnqueued \<and> snp_ExecutionPointer s = hin_ExecutionPointer intent
     \<and> tok_SnapshotRevision (hin_ResumeToken intent) = snp_Revision s)"

lemma newHandoffIntent_eq:
  assumes "threadID \<noteq> ''''" and "pointer \<noteq> ''''" and "p \<noteq> 0" and "p \<le> n" and "n \<noteq> 0"
  shows "newHandoffIntent threadID pointer reason HandoffStatusEnqueued p n
      = Some (buildHandoffIntent threadID pointer reason HandoffStatusEnqueued p n)"
    and "validateHandoffIntent (buildHandoffIntent threadID pointer reason HandoffStatusEnqueued p n) = None"
  using assms by (simp_all add: newHandoffIntent_def NewHandoffIntent_def validateHandoffIntent_def buildHandoffIntent_def Let_def)

context checkpointer_contract
begin

text \<open>The first patch: what is stored when the intent is built.\<close>

lemma patched_enqueued:
  assumes "grn_checkpointer r = Some cp" and "hands_off (grn_now r)" and "pendingRev \<noteq> 0"
    and "run_state (patchHandoffStatus r pendingRev s meta HandoffStatusEnqueued) w = (Ok n, v)"
  shows "newHandoffIntent (snp_ThreadID s) (snp_ExecutionPointer s) reason HandoffStatusEnqueued pendingRev n
      = Some (buildHandoffIntent (snp_ThreadID s) (snp_ExecutionPointer s) reason HandoffStatusEnqueued pendingRev n)"
    and "validateHandoffIntent (buildHandoffIntent (snp_ThreadID s) (snp_ExecutionPointer s) reason HandoffStatusEnqueued pendingRev n) = None"
    and "latest v (snp_ThreadID s) = Some (s\<lparr>snp_RunMeta := meta\<lparr>rmd_HandoffStatus := HandoffStatusEnqueued, rmd_HandoffPendingAt := 0\<rparr>, snp_Revision := n\<rparr>)"
    and "committedAs (latest v) (buildHandoffIntent (snp_ThreadID s) (snp_ExecutionPointer s) reason HandoffStatusEnqueued pendingRev n)"
proof -
  from patch_Ok [OF assms(1,2,4)] have p: "pendingRev \<noteq> - 1" "n = pendingRev + 1" "snp_ThreadID s \<noteq> ''''" "snp_ExecutionPointer s \<noteq> ''''"
    and l: "latest v (snp_ThreadID s) = Some (s\<lparr>snp_RunMeta := meta\<lparr>rmd_HandoffStatus := HandoffStatusEnqueued, rmd_HandoffPendingAt := 0\<rparr>, snp_Revision := n\<rparr>)"
    by auto
  have n: "n \<noteq> 0" "pendingRev \<le> n" using rev_succ_nonzero [OF p(1)] rev_succ_self [OF p(1)] p(2) by simp_all
  show "newHandoffIntent (snp_ThreadID s) (snp_ExecutionPointer s) reason HandoffStatusEnqueued pendingRev n
      = Some (buildHandoffIntent (snp_ThreadID s) (snp_ExecutionPointer s) reason HandoffStatusEnqueued pendingRev n)"
    and "validateHandoffIntent (buildHandoffIntent (snp_ThreadID s) (snp_ExecutionPointer s) reason HandoffStatusEnqueued pendingRev n) = None"
    by (rule newHandoffIntent_eq [OF p(3,4) assms(3) n(2,1)])+
  show "latest v (snp_ThreadID s) = Some (s\<lparr>snp_RunMeta := meta\<lparr>rmd_HandoffStatus := HandoffStatusEnqueued, rmd_HandoffPendingAt := 0\<rparr>, snp_Revision := n\<rparr>)"
    by (rule l)
  then show "committedAs (latest v) (buildHandoffIntent (snp_ThreadID s) (snp_ExecutionPointer s) reason HandoffStatusEnqueued pendingRev n)"
    by (simp add: committedAs_def buildHandoffIntent_def)
qed

lemma fsm_describes:
  assumes "grn_checkpointer r = Some cp" and "hands_off (grn_now r)" and "pendingRev \<noteq> 0"
    and "\<And>intent. hands_off (obx_EnqueueIntent box intent)"
    and "latest w (snp_ThreadID s) = Some (s\<lparr>snp_Revision := pendingRev, snp_RunMeta := meta\<rparr>)" and "rmd_HandoffStatus meta = HandoffStatusPending"
    and "run_state (runHandoffOutboxFSM r (snp_ThreadID s) pendingRev s meta (Some box) (snp_ExecutionPointer s) reason) w = (out, w')"
  shows "\<exists>fsm. out = Some fsm \<and> describes fsm s meta w' \<and> tok_ThreadID (fsm_ResumeToken fsm) = snp_ThreadID s
    \<and> (fsm_EnqueueErr fsm = None \<longrightarrow> (fsm_PatchErr fsm = None \<longleftrightarrow> fsm_PersistedStatus fsm = HandoffStatusEnqueued))
    \<and> (fsm_EnqueueErr fsm \<noteq> None \<longrightarrow> (fsm_PatchErr fsm = None \<longleftrightarrow> fsm_PersistedStatus fsm = HandoffStatusOrphaned))"
proof -
  let ?i = "\<lambda>n. buildHandoffIntent (snp_ThreadID s) (snp_ExecutionPointer s) reason HandoffStatusEnqueued pendingRev n"
  obtain patched v where v: "run_state (patchHandoffStatus r pendingRev s meta HandoffStatusEnqueued) w = (patched, v)" by force
  show ?thesis
  proof (cases patched)
    case (Inl e)
    with v have "latest v = latest w" using patch_Err [OF assms(1,2)] by blast
    then show ?thesis using assms(5-7) v Inl
      by (auto simp: runHandoffOutboxFSM_def run_state_bind describes_def persistedHandoffPendingAt_def wrapHandoffPatchFailed_def)
  next
    case (Inr n)
    note p = patched_enqueued [OF assms(1-3) v [unfolded Inr]]
    obtain x u where u: "run_state (obx_EnqueueIntent box (?i n)) v = (x, u)" by force
    have lu: "latest u = latest v" using assms(4) u by (auto simp: hands_off_def)
    show ?thesis
    proof (cases x)
      case None
      then have "out = Some \<lparr>fsm_ResumeToken = tokenAt (snp_ThreadID s) n, fsm_EnqueueErr = None, fsm_PatchErr = None,
          fsm_PersistedStatus = HandoffStatusEnqueued, fsm_PersistedPendingAt = 0\<rparr>" "w' = u"
        using assms(7) v u p(1,2) by (auto simp: runHandoffOutboxFSM_def run_state_bind Inr enqueueHandoffIntent_def)
      then show ?thesis using lu p(3) by (simp add: describes_def)
    next
      case (Some e)
      obtain orphaned t where t: "run_state (patchHandoffStatus r n s meta HandoffStatusOrphaned) u = (orphaned, t)" by force
      show ?thesis
      proof (cases orphaned)
        case (Inl e2)
        then have "latest t = latest u" using patch_Err [OF assms(1,2)] t by blast
        then show ?thesis using assms(7) v u t p(1-3) lu Some Inl
          by (auto simp: runHandoffOutboxFSM_def run_state_bind Inr enqueueHandoffIntent_def describes_def
              wrapHandoffPatchFailed_def persistedHandoffPendingAt_def)
      next
        case (Inr m)
        from patch_Ok [OF assms(1,2) t [unfolded Inr]] show ?thesis using assms(7) v u t p(1-3) Some Inr
          by (auto simp: runHandoffOutboxFSM_def run_state_bind \<open>patched = Inr n\<close> enqueueHandoffIntent_def describes_def
              persistedHandoffPendingAt_def)
      qed
    qed
  qed
qed

text \<open>An outbox that is only told what it does when the intent is committed behaves the same.\<close>

lemma fsm_congruent:
  assumes "grn_checkpointer r = Some cp" and "hands_off (grn_now r)" and "pendingRev \<noteq> 0"
    and "\<And>intent v. committedAs (latest v) intent \<Longrightarrow> run_state (obx_EnqueueIntent box intent) v = run_state (obx_EnqueueIntent box' intent) v"
  shows "run_state (runHandoffOutboxFSM r (snp_ThreadID s) pendingRev s meta (Some box) (snp_ExecutionPointer s) reason) w
    = run_state (runHandoffOutboxFSM r (snp_ThreadID s) pendingRev s meta (Some box') (snp_ExecutionPointer s) reason) w"
proof -
  obtain patched v where v: "run_state (patchHandoffStatus r pendingRev s meta HandoffStatusEnqueued) w = (patched, v)" by force
  show ?thesis
  proof (cases patched)
    case (Inr n)
    note p = patched_enqueued [OF assms(1-3) v [unfolded Inr]]
    show ?thesis by (simp add: runHandoffOutboxFSM_def run_state_bind v Inr p(1,2) enqueueHandoffIntent_def assms(4) [OF p(4)])
  qed (simp add: runHandoffOutboxFSM_def run_state_bind v)
qed

end

section \<open>A handoff and its checkpoint\<close>

context checkpointer_contract
begin

lemma hands_offD: "hands_off m \<Longrightarrow> run_state m w = (x, w') \<Longrightarrow> latest w' = latest w"
  by (simp add: hands_off_def)

lemma hands_off_return: "hands_off (ret x)"
  by (simp add: hands_off_def)

lemma hands_off_bind: "hands_off m \<Longrightarrow> (\<And>x. hands_off (f x)) \<Longrightarrow> hands_off (State_Monad.bind m f)"
  unfolding hands_off_def by (fastforce simp: run_state_bind split: prod.splits)

lemma hands_off_option:
  "(v = None \<Longrightarrow> hands_off m) \<Longrightarrow> (\<And>x. v = Some x \<Longrightarrow> hands_off (f x)) \<Longrightarrow> hands_off (case v of None \<Rightarrow> m | Some x \<Rightarrow> f x)"
  by (cases v) auto

lemma hands_off_sum: "(\<And>x. hands_off (f x)) \<Longrightarrow> (\<And>x. hands_off (g x)) \<Longrightarrow> hands_off (case v of Inl x \<Rightarrow> f x | Inr x \<Rightarrow> g x)"
  by (cases v) auto

lemma hands_off_if: "(c \<Longrightarrow> hands_off m) \<Longrightarrow> (\<not> c \<Longrightarrow> hands_off m') \<Longrightarrow> hands_off (if c then m else m')"
  by simp

lemmas hands_off_rules = hands_off_return hands_off_bind hands_off_option hands_off_sum hands_off_if

lemma hands_off_fold: "(\<And>x t. x \<in> set xs \<Longrightarrow> hands_off (f x t)) \<Longrightarrow> hands_off (foldState f xs t)"
  by (induction xs arbitrary: t) (auto intro!: hands_off_rules)

text \<open>A runner that is bound to the checkpointer and whose other parts keep off the checkpoints.\<close>

definition bound :: "('w, 't, 'a, 'e, 'x) graphRunner \<Rightarrow> bool" where
  "bound r \<longleftrightarrow> grn_checkpointer r = Some cp \<and> hands_off (grn_now r) \<and> hands_off (grn_capture r)
     \<and> (\<forall>f ev. grn_sink r = Some f \<longrightarrow> hands_off (f ev)) \<and> (\<forall>i \<in> set (grn_interceptors r). \<forall>t. hands_off (icp_BeforeSave i t))"

lemma boundD:
  assumes "bound r"
  shows "grn_checkpointer r = Some cp" "hands_off (grn_now r)" "hands_off (grn_capture r)" "hands_off (emitTerminalEvent r ev)"
    "hands_off (foldState icp_BeforeSave (grn_interceptors r) t)"
  using assms by (auto simp: bound_def emitTerminalEvent_def emitEvent_def intro!: hands_off_option hands_off_return hands_off_fold)

lemma retention_off: "bound r \<Longrightarrow> hands_off (applyRetentionPolicy r k)"
  using boundD(1) [of r] prune_keeps
  by (auto simp: applyRetentionPolicy_def hands_off_def not_le split: if_splits)

lemma failed_off: "bound r \<Longrightarrow> hands_off (newRunResultFailed r st effects meta pointer reason)"
  unfolding newRunResultFailed_def markSegmentFailed_def by (auto intro!: hands_off_rules boundD(2))

lemma persist_prepared:
  assumes "bound r" and "run_state (persistSnapshotPrepared r opts expected s current st) w = ((p, n, persisted, e), w')"
  shows "if persisted then e = None \<and> expected \<noteq> - 1 \<and> n = expected + 1 \<and> snp_ThreadID s \<noteq> '''' \<and> snp_ExecutionPointer s \<noteq> ''''
      \<and> (\<exists>t. p = s\<lparr>snp_State := t\<rparr>) \<and> latest w' = (latest w)(snp_ThreadID s := Some (p\<lparr>snp_Revision := n\<rparr>))
    else latest w' = latest w"
proof -
  note b = boundD [OF assms(1)]
  have off: "hands_off (prepareSnapshot r opts s)"
    unfolding prepareSnapshot_def by (intro hands_off_rules boundD(5) [OF assms(1)])
  obtain prepared v where v: "run_state (prepareSnapshot r opts s) w = (prepared, v)" by force
  note lv = hands_offD [OF off v]
  show ?thesis
  proof (cases prepared)
    case (Inl x)
    then show ?thesis using assms(2) v lv by (auto simp: persistSnapshotPrepared_def run_state_bind)
  next
    case (Inr q)
    then have q: "\<exists>t. q = s\<lparr>snp_State := t\<rparr>"
      using v by (auto simp: prepareSnapshot_def run_state_bind wrapRes_def split: if_splits option.splits sum.splits prod.splits)
    obtain saved u where u: "run_state (ckp_Save cp expected q) v = (saved, u)" by force
    show ?thesis
    proof (cases saved)
      case (Inl x)
      have "hands_off (emitCheckpointFailed r pointer st' x)" for pointer st'
        unfolding emitCheckpointFailed_def by (intro hands_off_rules boundD(4) [OF assms(1)])
      from hands_offD [OF this] save_Err [OF u [unfolded Inl]] show ?thesis
        using assms(2) v u lv Inr Inl
        by (auto simp: persistSnapshotPrepared_def run_state_bind saveSnapshot_def b(1) split: if_splits prod.splits)
    next
      case (Inr m)
      from save_Ok [OF u [unfolded Inr]] show ?thesis
        using assms(2) v u lv \<open>prepared = Inr q\<close> Inr q
        by (auto simp: persistSnapshotPrepared_def run_state_bind saveSnapshot_def b(1))
    qed
  qed
qed

text \<open>The terminal helpers change the reason of a result at most.\<close>

lemma finalize_shape:
  assumes "bound r" and "run_state (finalizeHandoffTerminal r threadID ptr st result signal persisted) w = ((out, e), w')"
  shows "latest w' = latest w \<and> (\<exists>reason. out = result\<lparr>rst_Reason := reason\<rparr>)"
proof -
  have "hands_off (finalizeHandoffTerminal r threadID ptr st result signal persisted)"
    unfolding finalizeHandoffTerminal_def emitHandoffTerminalEvent_def Let_def
    by (intro hands_off_rules retention_off boundD(4) assms(1))
  moreover have "\<exists>reason. out = result\<lparr>rst_Reason := reason\<rparr>"
    using assms(2) by (auto simp: finalizeHandoffTerminal_def run_state_bind Let_def completeHandoffSession_def
        split: prod.splits option.splits if_splits intro: exI [of _ "rst_Reason result"])
  ultimately show ?thesis using hands_offD [OF _ assms(2)] by blast
qed

lemma enqueue_failure_shape:
  assumes "bound r" and "run_state (handoffAfterEnqueueFailure r threadID ptr st result x) w = ((out, e), w')"
  shows "latest w' = latest w \<and> (\<exists>reason. out = result\<lparr>rst_Reason := reason\<rparr>)"
proof -
  have "hands_off (handoffAfterEnqueueFailure r threadID ptr st result x)"
    unfolding handoffAfterEnqueueFailure_def emitHandoffTerminalEvent_def Let_def
    by (intro hands_off_rules retention_off boundD(4) assms(1))
  moreover have "\<exists>reason. out = result\<lparr>rst_Reason := reason\<rparr>"
    using assms(2) by (auto simp: handoffAfterEnqueueFailure_def run_state_bind Let_def
        split: prod.splits option.splits if_splits intro: exI [of _ "rst_Reason result"])
  ultimately show ?thesis using hands_offD [OF _ assms(2)] by blast
qed

end

text \<open>The snapshot under which a handoff result can be resumed.\<close>

definition resumable :: "(string \<Rightarrow> ('t, 'e) Snapshot option) \<Rightarrow> string \<Rightarrow> ('t, 'e) RunResult \<Rightarrow> bool" where
  "resumable stored threadID result \<longleftrightarrow> tok_ThreadID (rst_ResumeToken result) = threadID
    \<and> (\<exists>s. stored threadID = Some s \<and> snp_ThreadID s = threadID \<and> snp_Revision s = tok_SnapshotRevision (rst_ResumeToken result)
         \<and> snp_RunMeta s = rst_RunMeta result \<and> snp_ExecutionPointer s = rst_ExecutionPointer result \<and> snp_Effects s = rst_Effects result)"

lemma resumable_reason [simp]: "resumable stored k (result\<lparr>rst_Reason := reason\<rparr>) = resumable stored k result"
  by (simp add: resumable_def)

context checkpointer_contract
begin

text \<open>What holds after a handoff: a token for the stored snapshot, or no token and the old checkpoints.\<close>

definition published :: "string \<Rightarrow> 'w \<Rightarrow> (('t, 'e) RunResult \<times> err option) option \<Rightarrow> 'w \<Rightarrow> bool" where
  "published threadID w out w' \<longleftrightarrow> (\<exists>result e. out = Some (result, e)
     \<and> (if rst_ResumeToken result = noToken then latest w' = latest w else resumable (latest w') threadID result))"

lemma dispatch_published:
  assumes "bound r" and "\<And>intent. hands_off (obx_EnqueueIntent box intent)" and "pendingRev \<noteq> 0"
    and "latest w (snp_ThreadID s) = Some (s\<lparr>snp_Revision := pendingRev\<rparr>)" and "rmd_HandoffStatus (snp_RunMeta s) = HandoffStatusPending"
    and "rst_RunMeta result = snp_RunMeta s" "rst_ExecutionPointer result = snp_ExecutionPointer s" "rst_Effects result = snp_Effects s"
    and "snp_ThreadID s \<noteq> ''''"
    and "run_state (dispatchPersistedHandoffOutbox r (snp_ThreadID s) pendingRev s (snp_RunMeta s) (Some box) (snp_ExecutionPointer s) ptr st result) w = (out, w')"
  shows "(\<exists>x e. out = Some (Inl (x, e)) \<and> resumable (latest w') (snp_ThreadID s) x) \<or> (\<exists>x. out = Some (Inr x) \<and> resumable (latest w') (snp_ThreadID s) x)"
proof -
  obtain o1 v where v: "run_state (runHandoffOutboxFSM r (snp_ThreadID s) pendingRev s (snp_RunMeta s) (Some box) (snp_ExecutionPointer s) (rst_Reason result)) w = (o1, v)"
    by force
  have "latest w (snp_ThreadID s) = Some (s\<lparr>snp_Revision := pendingRev, snp_RunMeta := snp_RunMeta s\<rparr>)" using assms(4) by simp
  from fsm_describes [OF boundD(1,2) [OF assms(1)] assms(3,2) this assms(5) v] obtain fsm
    where f: "o1 = Some fsm" "describes fsm s (snp_RunMeta s) v" "tok_ThreadID (fsm_ResumeToken fsm) = snp_ThreadID s" by blast
  define x where "x = applyFSMPersistedHandoffMeta fsm (result\<lparr>rst_ResumeToken := fsm_ResumeToken fsm\<rparr>)"
  have x: "resumable (latest v) (snp_ThreadID s) x"
    using f(2,3) assms(6-8) by (auto simp: resumable_def describes_def x_def applyFSMPersistedHandoffMeta_def)
  show ?thesis
  proof (cases "errJoin [fsm_EnqueueErr fsm, fsm_PatchErr fsm]")
    case None
    then have "out = Some (Inr x)" "w' = v"
      using assms(10) v f(1) by (auto simp: dispatchPersistedHandoffOutbox_def run_state_bind Let_def x_def)
    with x show ?thesis by blast
  next
    case (Some joined)
    then obtain reason err o2 u where u: "run_state (handoffAfterEnqueueFailure r (snp_ThreadID s) ptr st (x\<lparr>rst_Reason := reason\<rparr>) err) v = (o2, u)"
        and out: "out = Some (Inl o2)" "w' = u"
      using assms(9,10) v f(1,3) by (auto simp: dispatchPersistedHandoffOutbox_def run_state_bind Let_def x_def split: prod.splits)
    obtain y e where y: "o2 = (y, e)" by force
    from enqueue_failure_shape [OF assms(1) u [unfolded y]] obtain reason' where "latest u = latest v" "y = x\<lparr>rst_Reason := reason'\<rparr>" by auto
    with x out y show ?thesis by auto
  qed
qed

lemma failedHandoff_published:
  assumes "bound r" and "latest v = latest w" and "run_state (failedHandoff r ptr st effects meta e msg) v = (out, w')"
  shows "published k w out w'"
proof -
  have "hands_off (failedHandoff r ptr st effects meta e msg)"
    unfolding failedHandoff_def by (intro hands_off_rules boundD(4) failed_off assms(1))
  from hands_offD [OF this assms(3)] assms(2) have "latest w' = latest w" by simp
  moreover have "\<exists>result x. out = Some (result, x) \<and> rst_ResumeToken result = noToken"
    using assms(3) by (auto simp: failedHandoff_def run_state_bind newRunResultFailed_def newRunResult_def split: prod.splits if_splits)
  ultimately show ?thesis by (auto simp: published_def)
qed

lemma finalized_published:
  assumes "bound r" and "run_state (finalizeHandoffTerminal r k ptr st result signal persisted) v = (o2, w')" and "out = Some o2"
    and "if rst_ResumeToken result = noToken then latest v = latest w else resumable (latest v) k result"
  shows "published k w out w'"
proof -
  obtain y e where y: "o2 = (y, e)" by force
  from finalize_shape [OF assms(1) assms(2) [unfolded y]] obtain reason where "latest w' = latest v" "y = result\<lparr>rst_Reason := reason\<rparr>" by auto
  with assms(3,4) y show ?thesis by (auto simp: published_def)
qed

end

context checkpointer_contract
begin

lemma publish_published:
  assumes "bound r" and tx: "ckp_SaveWithOutbox cp = None"
    and box: "\<And>b intent. outbox = Some b \<Longrightarrow> hands_off (obx_EnqueueIntent b intent)"
    and pending: "outbox \<noteq> None \<Longrightarrow> rmd_HandoffStatus meta = HandoffStatusPending"
    and run: "run_state (publishHandoff r opts k current st meta effects revision reason ptr signal outbox) w = (out, w')"
  shows "published k w out w'"
proof -
  let ?s = "\<lparr>snp_ThreadID = k, snp_ExecutionPointer = ptr, snp_Revision = 0, snp_State = st, snp_RunMeta = meta, snp_Effects = effects\<rparr>"
  let ?result = "newRunResultHandoff st effects meta ptr reason"
  obtain p n persisted e v where v: "run_state (persistSnapshotPrepared r opts revision ?s current st) w = ((p, n, persisted, e), v)"
    by (metis prod.exhaust)
  have fallback: "run_state (if outbox = None then ret None else tryTransactionalHandoffSave r opts k revision ?s meta outbox reason) w = (None, w)"
    by (simp add: tryTransactionalHandoffSave_def boundD(1) [OF assms(1)] tx)
  note run' = run [unfolded publishHandoff_def Let_def run_state_bind fallback, simplified, unfolded run_state_bind v, simplified]
  note pp = persist_prepared [OF assms(1) v]
  have res: "rst_ResumeToken ?result = noToken" "rst_RunMeta ?result = meta" "rst_ExecutionPointer ?result = ptr" "rst_Effects ?result = effects"
    by (simp_all add: newRunResultHandoff_def newRunResult_def)
  show ?thesis
  proof (cases persisted)
    case False
    then have l: "latest v = latest w" using pp by simp
    show ?thesis
    proof (cases e)
      case (Some x)
      then show ?thesis using run' failedHandoff_published [OF assms(1) l] by simp
    next
      case None
      then obtain result o2 where "run_state (finalizeHandoffTerminal r k ptr st result signal False) v = (o2, w')" "out = Some o2"
          "rst_ResumeToken result = noToken"
        using run' False res(1) by (auto simp: run_state_bind split: prod.splits if_splits)
      then show ?thesis using finalized_published [OF assms(1)] l by simp
    qed
  next
    case True
    with pp obtain t where p: "e = None" "n = revision + 1" "revision \<noteq> - 1" "k \<noteq> ''''" "p = ?s\<lparr>snp_State := t\<rparr>"
        "latest v k = Some (p\<lparr>snp_Revision := n\<rparr>)" by auto
    have tok: "resumable (latest v) k (?result\<lparr>rst_ResumeToken := tokenAt k n\<rparr>)"
      using p(5,6) by (simp add: resumable_def newRunResultHandoff_def newRunResult_def)
    have final: "published k w out w'" if "run_state (finalizeHandoffTerminal r k ptr st x signal True) u = (o2, w')" "out = Some o2"
        "resumable (latest u) k x" for x u o2
      by (rule finalized_published [OF assms(1) that(1,2)]) (use that(3) p(4) in \<open>auto simp: resumable_def\<close>)
    show ?thesis
    proof (cases outbox)
      case None
      then show ?thesis using run' True p(1) final [OF _ _ tok] by (auto simp: run_state_bind split: prod.splits)
    next
      case (Some b)
      obtain d u where d: "run_state (dispatchPersistedHandoffOutbox r k n p meta (Some b) ptr ptr st (?result\<lparr>rst_ResumeToken := tokenAt k n\<rparr>)) v = (d, u)"
        by force
      have pf: "snp_ThreadID p = k" "snp_RunMeta p = meta" "snp_ExecutionPointer p = ptr" "snp_Effects p = effects" by (simp_all add: p(5))
      have "(\<exists>x e. d = Some (Inl (x, e)) \<and> resumable (latest u) k x) \<or> (\<exists>x. d = Some (Inr x) \<and> resumable (latest u) k x)"
        by (rule dispatch_published [OF assms(1) box [OF Some], of n v p "?result\<lparr>rst_ResumeToken := tokenAt k n\<rparr>" ptr st d u, unfolded pf])
          (use p res pending Some rev_succ_nonzero [OF p(3)] d in \<open>simp_all\<close>)
      then consider (early) x y where "d = Some (Inl (x, y))" "resumable (latest u) k x" | (go) x where "d = Some (Inr x)" "resumable (latest u) k x"
        by blast
      then show ?thesis
      proof cases
        case early
        then show ?thesis using run' True p(1,4) Some d by (auto simp: run_state_bind published_def resumable_def)
      next
        case go
        then show ?thesis using run' True p(1) Some d final [OF _ _ go(2)] by (auto simp: run_state_bind split: prod.splits)
      qed
    qed
  qed
qed

text \<open>The whole terminal path of a handoff on a checkpointer without transactions.\<close>

lemma handoff_published:
  assumes "bound r" and tx: "ckp_SaveWithOutbox cp = None"
    and box: "\<And>b intent. resolveHandoffOutbox r opts = Some b \<Longrightarrow> hands_off (obx_EnqueueIntent b intent)"
    and run: "run_state (completeHandoffTerminal r opts k current st meta effects revision reason resumeAt signal) w = (out, w')"
  shows "published k w out w'"
proof -
  obtain telemetry v1 where v1: "run_state (grn_capture r) w = (telemetry, v1)" by force
  obtain now v2 where v2: "run_state (grn_now r) v1 = (now, v2)" by force
  have l2: "latest v2 = latest w" using hands_offD [OF boundD(3) [OF assms(1)] v1] hands_offD [OF boundD(2) [OF assms(1)] v2] by simp
  note run' = run [unfolded completeHandoffTerminal_def Let_def run_state_bind v1, simplified, unfolded run_state_bind v2, simplified]
  let ?meta = "endSegment SegmentEndHandoff now (meta\<lparr>rmd_TelemetryContext := telemetry\<rparr>)"
  let ?ptr = "if resumeAt = '''' then current else resumeAt"
  show ?thesis
  proof (cases "validateExecutionPointer r ?ptr")
    case (Some x)
    define m where "m = do {
          _ \<leftarrow> emitTerminalEvent r (newRunEventFailed current st x ''handoff_resume_target_invalid'');
          failed \<leftarrow> newRunResultFailed r st effects ?meta current ''handoff_resume_target_invalid'';
          ret (Some (failed, Some (Wrapped ''flowy: handoff resume target invalid'' [x])))
        }"
    have "hands_off m" unfolding m_def by (intro hands_off_rules boundD(4) failed_off assms(1))
    moreover have r: "run_state m v2 = (out, w')" using run' Some by (simp add: m_def)
    ultimately have "latest w' = latest w" using hands_offD l2 by metis
    moreover have "\<exists>result e. out = Some (result, e) \<and> rst_ResumeToken result = noToken"
      using r by (auto simp: m_def run_state_bind newRunResultFailed_def newRunResult_def split: prod.splits if_splits)
    ultimately show ?thesis by (auto simp: published_def)
  next
    case None
    obtain pendingAt v3 where v3: "run_state (if resolveHandoffOutbox r opts = None then ret 0 else grn_now r) v2 = (pendingAt, v3)" by force
    then have l3: "latest v3 = latest w" using l2 hands_offD [OF boundD(2) [OF assms(1)]] by (auto split: if_splits)
    have "published k v3 out w'"
      by (rule publish_published [OF assms(1) tx box]) (use run' None v3 in \<open>auto simp: run_state_bind\<close>)
    then show ?thesis unfolding published_def l3 .
  qed
qed

end

end
