(* ===== verification/Memory_Checkpointer.thy ===== *)
theory Memory_Checkpointer
  imports Handoff_Outbox Store_Contracts
begin

text \<open>
  The checkpointer of testutil (memory\_checkpointer.go) with its header check
  (snapshot\_header.go): a list of snapshots per thread under optimistic
  concurrency. Copying a snapshot is the identity on values, up to the optional
  cloners of the host. The world of a run is the history of the checkpointer and
  whatever else the host keeps. The checkpointer interprets the contract of the
  runner, and the handoff properties of the runner follow for it.
\<close>

section \<open>The checkpointer\<close>

definition ValidateSnapshotHeader :: "string \<Rightarrow> uint64 \<Rightarrow> string \<Rightarrow> err option" where
  "ValidateSnapshotHeader threadID revision pointer =
    (if threadID = '''' \<or> pointer = '''' \<or> revision = 0 \<or> \<not> validRuntimeText [threadID, pointer]
     then Some (Wrapped ''nonempty UTF-8 identity, pointer and positive revision required'' [Sent ErrSnapshotEnvelopeInvalid])
     else None)"

type_synonym ('t, 'e) snapshot_history = "(string, ('t, 'e) Snapshot list) gomap"

record ('t, 'e) cloners =
  cln_state :: "('t \<Rightarrow> 't) option"
  cln_effect :: "('e \<Rightarrow> 'e) option"

definition copySnapshot :: "('t, 'e) cloners \<Rightarrow> ('t, 'e) Snapshot \<Rightarrow> ('t, 'e) Snapshot" where
  "copySnapshot m snapshot = snapshot\<lparr>
     snp_State := (case cln_state m of None \<Rightarrow> snp_State snapshot | Some f \<Rightarrow> f (snp_State snapshot)),
     snp_Effects := (case cln_effect m of None \<Rightarrow> snp_Effects snapshot | Some f \<Rightarrow> map f (snp_Effects snapshot))\<rparr>"

definition historyOf :: "('t, 'e) snapshot_history \<Rightarrow> string \<Rightarrow> ('t, 'e) Snapshot list" where
  "historyOf h k = (case lookup h k of None \<Rightarrow> [] | Some items \<Rightarrow> items)"

definition currentRevision :: "('t, 'e) Snapshot list \<Rightarrow> uint64" where
  "currentRevision items = (if items = [] then 0 else snp_Revision (last items))"

definition memorySave ::
    "('t, 'e) cloners \<Rightarrow> uint64 \<Rightarrow> ('t, 'e) Snapshot \<Rightarrow> ('t, 'e) snapshot_history \<Rightarrow> uint64 res \<times> ('t, 'e) snapshot_history" where
  "memorySave m expectedRevision snapshot h =
    (if expectedRevision = - 1 then (Err ErrExecutionCapability, h)
     else case ValidateSnapshotHeader (snp_ThreadID snapshot) (expectedRevision + 1) (snp_ExecutionPointer snapshot) of
       Some e \<Rightarrow> (Inl e, h)
     | None \<Rightarrow>
         let items = historyOf h (snp_ThreadID snapshot) in
         if currentRevision items \<noteq> expectedRevision then (Err ErrConcurrencyConflict, h)
         else (Ok (expectedRevision + 1),
           put (snp_ThreadID snapshot) (items @ [(copySnapshot m snapshot)\<lparr>snp_Revision := expectedRevision + 1\<rparr>]) h))"

definition memoryLoad :: "('t, 'e) cloners \<Rightarrow> ('t, 'e) Snapshot \<Rightarrow> string \<Rightarrow> ('t, 'e) snapshot_history \<Rightarrow> ('t, 'e) Snapshot \<times> uint64 \<times> err option" where
  "memoryLoad m zero threadID h =
    (let items = historyOf h threadID in
     if items = [] then (zero, 0, Some (Sent ErrThreadNotFound))
     else (copySnapshot m (last items), snp_Revision (copySnapshot m (last items)), None))"

definition memoryGetHistory :: "('t, 'e) cloners \<Rightarrow> string \<Rightarrow> int \<Rightarrow> ('t, 'e) snapshot_history \<Rightarrow> ('t, 'e) Snapshot list" where
  "memoryGetHistory m threadID limit h =
    (let items = historyOf h threadID;
         n = (if limit \<le> 0 \<or> limit > int (length items) then length items else nat limit)
     in map (copySnapshot m) (rev (drop (length items - n) items)))"

definition memoryDelete :: "string \<Rightarrow> ('t, 'e) snapshot_history \<Rightarrow> ('t, 'e) snapshot_history" where
  "memoryDelete threadID h = AList.delete threadID h"

definition memoryPrune :: "string \<Rightarrow> int \<Rightarrow> ('t, 'e) snapshot_history \<Rightarrow> ('t, 'e) snapshot_history" where
  "memoryPrune threadID retainCount h =
    (let items = historyOf h threadID in
     if items = [] then h
     else if retainCount \<le> 0 then AList.delete threadID h
     else if int (length items) \<le> retainCount then h
     else put threadID (drop (length items - nat retainCount) items) h)"

section \<open>The checkpointer as the runner sees it\<close>

record ('t, 'e, 'v) mem_world =
  mw_history :: "('t, 'e) snapshot_history"
  mw_rest :: 'v

text \<open>\<open>zero\<close> is the zero snapshot that Go returns beside an error; there are no cloners and no transactions.\<close>

definition noCloners :: "('t, 'e) cloners" where
  "noCloners = \<lparr>cln_state = None, cln_effect = None\<rparr>"

definition memoryCheckpointer :: "('t, 'e) Snapshot \<Rightarrow> (('t, 'e, 'v) mem_world, 't, 'e, 'x) Checkpointer" where
  "memoryCheckpointer zero = \<lparr>
     ckp_Save = (\<lambda>expected s. State (\<lambda>w. let (n, h) = memorySave noCloners expected s (mw_history w) in (n, w\<lparr>mw_history := h\<rparr>))),
     ckp_Load = (\<lambda>k. State (\<lambda>w. (memoryLoad noCloners zero k (mw_history w), w))),
     ckp_Prune = (\<lambda>k n. State (\<lambda>w. (None, w\<lparr>mw_history := memoryPrune k n (mw_history w)\<rparr>))),
     ckp_DeleteIfIdle = (\<lambda>k. State (\<lambda>w. (None, w\<lparr>mw_history := memoryDelete k (mw_history w)\<rparr>))),
     ckp_SaveWithOutbox = None\<rparr>"

definition latestSnapshot :: "('t, 'e, 'v) mem_world \<Rightarrow> string \<Rightarrow> ('t, 'e) Snapshot option" where
  "latestSnapshot w k = (let items = historyOf (mw_history w) k in if items = [] then None else Some (last items))"

lemma copySnapshot_none [simp]: "copySnapshot noCloners s = s"
  by (simp add: copySnapshot_def noCloners_def)

lemma historyOf_put [simp]: "historyOf (put k items h) j = (if j = k then items else historyOf h j)"
  by (simp add: historyOf_def)

lemma revision_latest: "currentRevision (historyOf (mw_history w) k) = revisionOf (latestSnapshot w k)"
  by (simp add: currentRevision_def latestSnapshot_def Let_def)

interpretation memory: checkpointer_contract "memoryCheckpointer zero :: (('t, 'e, 'v) mem_world, 't, 'e, 'x) Checkpointer" latestSnapshot
proof
  show "expected \<noteq> - 1 \<and> n = expected + 1 \<and> revisionOf (latestSnapshot w (snp_ThreadID s)) = expected
      \<and> snp_ThreadID s \<noteq> '''' \<and> snp_ExecutionPointer s \<noteq> ''''
      \<and> latestSnapshot w' = (latestSnapshot w)(snp_ThreadID s := Some (s\<lparr>snp_Revision := n\<rparr>))"
    if "run_state (ckp_Save (memoryCheckpointer zero :: (_, _, _, 'x) Checkpointer) expected s) w = (Ok n, w')"
    for expected s n w and w' :: "('t, 'e, 'v) mem_world"
    using that unfolding revision_latest [symmetric]
    by (auto simp: memoryCheckpointer_def memorySave_def ValidateSnapshotHeader_def latestSnapshot_def Let_def fun_eq_iff
        split: if_splits option.splits prod.splits)
  show "latestSnapshot w' = latestSnapshot w"
    if "run_state (ckp_Save (memoryCheckpointer zero :: (_, _, _, 'x) Checkpointer) expected s) w = (Inl e, w')" for expected s e w and w' :: "('t, 'e, 'v) mem_world"
    using that by (auto simp: memoryCheckpointer_def memorySave_def latestSnapshot_def Let_def fun_eq_iff
        split: if_splits option.splits prod.splits)
  show "latestSnapshot w' = latestSnapshot w"
    if "limit > 0" "run_state (ckp_Prune (memoryCheckpointer zero :: (_, _, _, 'x) Checkpointer) k limit) w = (x, w')" for limit k x w and w' :: "('t, 'e, 'v) mem_world"
    using that by (auto simp: memoryCheckpointer_def memoryPrune_def latestSnapshot_def Let_def fun_eq_iff split: if_splits)
qed

section \<open>Properties\<close>

lemma memory_no_transactions [simp]: "ckp_SaveWithOutbox (memoryCheckpointer zero) = None"
  by (simp add: memoryCheckpointer_def)

text \<open>A computation of the host that leaves the checkpoints alone.\<close>

definition leavesHistory :: "(('t, 'e, 'v) mem_world, 'b) state \<Rightarrow> bool" where
  "leavesHistory m \<longleftrightarrow> (\<forall>w. mw_history (snd (run_state m w)) = mw_history w)"

lemma leaves_off:
  assumes "leavesHistory m"
  shows "memory.hands_off m"
  unfolding memory.hands_off_def
proof (intro allI impI)
  fix w x w'
  assume "run_state m w = (x, w')"
  then have "mw_history w' = mw_history w" using assms [unfolded leavesHistory_def, rule_format, of w] by simp
  then show "latestSnapshot w' = latestSnapshot w" by (simp add: latestSnapshot_def fun_eq_iff)
qed

definition memoryBound :: "('t, 'e) Snapshot \<Rightarrow> (('t, 'e, 'v) mem_world, 't, 'a, 'e, 'x) graphRunner \<Rightarrow> bool" where
  "memoryBound zero r \<longleftrightarrow> grn_checkpointer r = Some (memoryCheckpointer zero) \<and> leavesHistory (grn_now r) \<and> leavesHistory (grn_capture r)
     \<and> (\<forall>f ev. grn_sink r = Some f \<longrightarrow> leavesHistory (f ev)) \<and> (\<forall>i \<in> set (grn_interceptors r). \<forall>t. leavesHistory (icp_BeforeSave i t))"

lemma memory_bound: "memoryBound zero r \<Longrightarrow> memory.bound zero r"
  unfolding memory.bound_def memoryBound_def by (auto intro: leaves_off)

text \<open>
  C26. A handoff returns exactly the token of what it stored. Whatever the pointer
  check, the interceptors, the save, the two status patches, the outbox and the
  retention policy do, the handoff does not panic; if its result carries a resume
  token, the latest stored snapshot of the thread has the revision of the token
  and the pointer, metadata (with the handoff status) and effects of the
  result; and if it carries none, no checkpoint was changed.
\<close>

theorem handoff_token_is_stored:
  assumes "memoryBound zero r"
    and "\<And>b intent. resolveHandoffOutbox r opts = Some b \<Longrightarrow> leavesHistory (obx_EnqueueIntent b intent)"
    and "run_state (completeHandoffTerminal r opts k current st meta effects revision reason resumeAt signal) w = (out, w')"
  shows "\<exists>result e. out = Some (result, e)
    \<and> (if rst_ResumeToken result = noToken then latestSnapshot w' = latestSnapshot w else resumable (latestSnapshot w') k result)"
  using memory.handoff_published [OF memory_bound [OF assms(1)] memory_no_transactions leaves_off [OF assms(2)] assms(3)]
  by (simp add: memory.published_def)

text \<open>
  C27. An intent reaches the outbox only when the snapshot it names is committed as
  enqueued: an outbox may answer arbitrarily for intents whose thread, revision,
  pointer and status are not those of the latest stored snapshot, without any
  run of the handoff state machine changing its result or its world.
\<close>

theorem intent_names_committed_snapshot:
  assumes "grn_checkpointer r = Some (memoryCheckpointer zero)" and "leavesHistory (grn_now r)" and "pendingRev \<noteq> 0"
    and "\<And>intent v. committedAs (latestSnapshot v) intent \<Longrightarrow> run_state (obx_EnqueueIntent box intent) v = run_state (obx_EnqueueIntent box' intent) v"
  shows "run_state (runHandoffOutboxFSM r (snp_ThreadID s) pendingRev s meta (Some box) (snp_ExecutionPointer s) reason) w
    = run_state (runHandoffOutboxFSM r (snp_ThreadID s) pendingRev s meta (Some box') (snp_ExecutionPointer s) reason) w"
  by (rule memory.fsm_congruent [OF assms(1) leaves_off [OF assms(2)] assms(3,4)])

text \<open>A runner over one node whose outbox collects the intents in the rest of the world.\<close>

type_synonym sample_world = "(nat, nat, HandoffIntent list) mem_world"

definition sampleZero :: "(nat, nat) Snapshot" where
  "sampleZero = \<lparr>snp_ThreadID = '''', snp_ExecutionPointer = '''', snp_Revision = 0, snp_State = 0, snp_RunMeta = emptyRunMeta, snp_Effects = []\<rparr>"

definition sampleOutbox :: "(sample_world, unit) HandoffOutbox" where
  "sampleOutbox = \<lparr>obx_EnqueueIntent = (\<lambda>i. State (\<lambda>w. (None, w\<lparr>mw_rest := mw_rest w @ [i]\<rparr>))), obx_EnqueueIntentTx = None\<rparr>"

definition sampleGraph :: "(nat, (sample_world, nat, nat) node, (sample_world, nat) router) Graph" where
  "sampleGraph = \<lparr>gph_nodes = [(''n'', Some (\<lambda>st budget. ret ((1, Completed, None), budget)))], gph_edges = [(''n'', EndNode)],
     gph_conditionalEdges = [], gph_conditionalAllowed = [], gph_retryRoutes = [], gph_entryPoint = ''n'',
     gph_reducer = Some (\<lambda>old new. old + new), gph_defaults = applyBuildOptions [WithMaxSteps 3, WithRetentionLimit 2]\<rparr>"

definition sampleRunner :: "(sample_world, nat, nat, nat, unit) graphRunner" where
  "sampleRunner = \<lparr>grn_graph = sampleGraph, grn_checkpointer = Some (memoryCheckpointer sampleZero), grn_interceptors = [],
     grn_handoffOutbox = Some sampleOutbox, grn_handoffStaleAfter = 300, grn_durable = None, grn_cause = ret None, grn_ctxErr = ret None,
     grn_consumerClosed = ret False, grn_now = ret 5, grn_capture = ret [], grn_sink = None, grn_errText = (\<lambda>_. ''error''), grn_asEffect = Some\<rparr>"

definition sampleOptions :: "(sample_world, nat, unit) runInvocationOptions" where
  "sampleOptions = \<lparr>inv_overlay = None, inv_overlayMerger = None, inv_resumeTargetPolicy = None, inv_invariantValidator = None,
     inv_budgetCounts = [], inv_telemetryContext = [], inv_handoffOutbox = None, inv_atomicHandoff = False,
     inv_checkpointPolicy = CheckpointPolicyHardFail\<rparr>"

lemma sampleRunner_fields:
  "grn_checkpointer sampleRunner = Some (memoryCheckpointer sampleZero)" "grn_now sampleRunner = ret 5" "grn_capture sampleRunner = ret []"
  "grn_sink sampleRunner = None" "grn_interceptors sampleRunner = []" "grn_handoffOutbox sampleRunner = Some sampleOutbox"
  "grn_graph sampleRunner = sampleGraph"
  by (simp_all add: sampleRunner_def)

lemma sample_bound: "memoryBound sampleZero sampleRunner"
  by (simp add: memoryBound_def sampleRunner_fields leavesHistory_def)

lemma sample_outbox: "leavesHistory (obx_EnqueueIntent sampleOutbox intent)"
  by (simp add: sampleOutbox_def leavesHistory_def)

lemma sample_resolve: "resolveHandoffOutbox sampleRunner sampleOptions = Some sampleOutbox"
  by (simp add: resolveHandoffOutbox_def sampleOptions_def sampleRunner_fields)

lemma sample_handoff:
  "\<exists>result w'. run_state (completeHandoffTerminal sampleRunner sampleOptions ''t'' ''n'' 7 emptyRunMeta [] 0 ''r'' '''' False)
       \<lparr>mw_history = [], mw_rest = []\<rparr> = (Some (result, None), w')
    \<and> rst_ResumeToken result = tokenAt ''t'' 2 \<and> map hin_SnapshotRevision (mw_rest w') = [2]"
  unfolding completeHandoffTerminal_def publishHandoff_def tryTransactionalHandoffSave_def persistSnapshotPrepared_def prepareSnapshot_def
      saveSnapshot_def dispatchPersistedHandoffOutbox_def runHandoffOutboxFSM_def patchHandoffStatus_def enqueueHandoffIntent_def
      finalizeHandoffTerminal_def emitHandoffTerminalEvent_def applyRetentionPolicy_def emitTerminalEvent_def emitEvent_def
      validateExecutionPointer_def sample_resolve sampleRunner_fields Let_def
  by (simp add: run_state_bind byte_def sampleGraph_def sampleOutbox_def sampleOptions_def memoryCheckpointer_def memorySave_def memoryPrune_def
        ValidateSnapshotHeader_def validateInvariant_def wrapRes_def historyOf_def currentRevision_def newHandoffIntent_eq buildHandoffIntent_def
        newHandoffIntent_def NewHandoffIntent_def validateHandoffIntent_def newRunResultHandoff_def newRunResult_def
        applyBuildOptions_def WithMaxSteps_def WithRetentionLimit_def completeHandoffSession_def applyFSMPersistedHandoffMeta_def errJoin_def List.map_filter_simps)

theorem handoff_token_is_stored_witness:
  "\<exists>result w'. run_state (completeHandoffTerminal sampleRunner sampleOptions ''t'' ''n'' 7 emptyRunMeta [] 0 ''r'' '''' False)
       \<lparr>mw_history = [], mw_rest = []\<rparr> = (Some (result, None), w')
    \<and> rst_ResumeToken result = tokenAt ''t'' 2 \<and> resumable (latestSnapshot w') ''t'' result"
proof -
  obtain result w' where r: "run_state (completeHandoffTerminal sampleRunner sampleOptions ''t'' ''n'' 7 emptyRunMeta [] 0 ''r'' '''' False)
       \<lparr>mw_history = [], mw_rest = []\<rparr> = (Some (result, None), w')" and t: "rst_ResumeToken result = tokenAt ''t'' 2"
    using sample_handoff by blast
  have box: "leavesHistory (obx_EnqueueIntent b intent)" if "resolveHandoffOutbox sampleRunner sampleOptions = Some b" for b intent
    using that sample_outbox sample_resolve by simp
  from handoff_token_is_stored [OF sample_bound box r] t have "resumable (latestSnapshot w') ''t'' result" by simp
  with r t show ?thesis by blast
qed

text \<open>
  A pending handoff that is stored at revision one, and an outbox that refuses
  whatever is not the latest snapshot. The machine commits the snapshot as enqueued,
  and then exactly one intent reaches either outbox, which names revision two.
\<close>

definition samplePending :: "(nat, nat) Snapshot" where
  "samplePending = \<lparr>snp_ThreadID = ''t'', snp_ExecutionPointer = ''n'', snp_Revision = 1, snp_State = 7,
     snp_RunMeta = emptyRunMeta\<lparr>rmd_HandoffStatus := HandoffStatusPending, rmd_HandoffPendingAt := 5\<rparr>, snp_Effects = []\<rparr>"

definition sampleWorld :: sample_world where
  "sampleWorld = \<lparr>mw_history = [(''t'', [samplePending])], mw_rest = []\<rparr>"

definition strictOutbox :: "(sample_world, unit) HandoffOutbox" where
  "strictOutbox = \<lparr>obx_EnqueueIntent = (\<lambda>i. State (\<lambda>w. if committedAs (latestSnapshot w) i then (None, w\<lparr>mw_rest := mw_rest w @ [i]\<rparr>)
       else (Some (Plain ''no''), w))), obx_EnqueueIntentTx = None\<rparr>"

lemma sample_enqueue:
  "map hin_SnapshotRevision (mw_rest (snd (run_state
     (runHandoffOutboxFSM sampleRunner (snp_ThreadID samplePending) 1 samplePending (snp_RunMeta samplePending) (Some sampleOutbox)
       (snp_ExecutionPointer samplePending) ''r'') sampleWorld))) = [2]"
  unfolding runHandoffOutboxFSM_def patchHandoffStatus_def enqueueHandoffIntent_def sampleRunner_fields Let_def
  by (simp add: run_state_bind byte_def samplePending_def sampleWorld_def sampleOutbox_def memoryCheckpointer_def memorySave_def
      ValidateSnapshotHeader_def historyOf_def currentRevision_def newHandoffIntent_eq buildHandoffIntent_def saveSnapshot_def sampleRunner_fields
      newHandoffIntent_def NewHandoffIntent_def validateHandoffIntent_def)

theorem intent_names_committed_snapshot_witness:
  "map hin_SnapshotRevision (mw_rest (snd (run_state
     (runHandoffOutboxFSM sampleRunner (snp_ThreadID samplePending) 1 samplePending (snp_RunMeta samplePending) (Some strictOutbox)
       (snp_ExecutionPointer samplePending) ''r'') sampleWorld))) = [2]"
proof -
  have "leavesHistory (grn_now sampleRunner)" by (simp add: sampleRunner_fields leavesHistory_def)
  from intent_names_committed_snapshot [OF sampleRunner_fields(1) this, of 1 sampleOutbox strictOutbox samplePending
      "snp_RunMeta samplePending" "''r''" sampleWorld]
  have "run_state (runHandoffOutboxFSM sampleRunner (snp_ThreadID samplePending) 1 samplePending (snp_RunMeta samplePending) (Some sampleOutbox)
       (snp_ExecutionPointer samplePending) ''r'') sampleWorld
    = run_state (runHandoffOutboxFSM sampleRunner (snp_ThreadID samplePending) 1 samplePending (snp_RunMeta samplePending) (Some strictOutbox)
       (snp_ExecutionPointer samplePending) ''r'') sampleWorld"
    by (simp add: sampleOutbox_def strictOutbox_def)
  with sample_enqueue show ?thesis by simp
qed

end
