(* ===== verification/Runner_Execution.thy ===== *)
theory Runner_Execution
  imports Memory_Checkpointer
begin

text \<open>
  The run loop of runner\_execution.go with the interruption paths of
  durable\_interruption.go: one iteration checks the run context, dispatches the
  current node, reduces its update, applies its directive, commits the step of
  a durable run and moves to the next node. The Go loop mutates the maps
  \<open>RetryCounts\<close> and \<open>BudgetCounts\<close> through every copy of the metadata; here the
  updated maps are returned. A call of a nil handler or reducer, or a panic of the
  handoff, is \<open>Panicked\<close>.
\<close>

section \<open>Errors and interruptions\<close>

text \<open>\<open>errors.Unwrap\<close>: a wrapper with one \<open>%w\<close> verb has a text of its own.\<close>

fun errUnwrap :: "err \<Rightarrow> err option" where
  "errUnwrap (Wrapped msg [u]) = (if msg = '''' then None else Some u)"
| "errUnwrap (RetryPending _ _ _) = Some (Sent ErrActivityRetryPending)"
| "errUnwrap (Persisted _ _) = Some (Sent ErrExecutionFailed)"
| "errUnwrap (Sent s) = (if s = ErrSnapshotEnvelopeInvalid then Some (Sent ErrInvalidSnapshot) else None)"
| "errUnwrap _ = None"

definition nodeErrPrefix :: string where
  "nodeErrPrefix = ''flowy: node ''"

definition failReasonForStepErr :: "(err \<Rightarrow> string) \<Rightarrow> err \<Rightarrow> string" where
  "failReasonForStepErr errText e = (case errUnwrap e of
     Some u \<Rightarrow> if take (length nodeErrPrefix) (errText e) = nodeErrPrefix then errText u else errText e
   | None \<Rightarrow> errText e)"

definition causeIs :: "('w, 't, 'a, 'e, 'x) graphRunner \<Rightarrow> sentinel \<Rightarrow> ('w, bool) state" where
  "causeIs r s = do { c \<leftarrow> grn_cause r; ret (case c of None \<Rightarrow> False | Some e \<Rightarrow> errIs e s) }"

type_synonym ('t, 'e) outcome = "('t, 'e) RunResult option \<times> err option"

definition interruptionSnapshot ::
    "('w, 't, 'a, 'e, 'x) graphRunner \<Rightarrow> string \<Rightarrow> string \<Rightarrow> 't \<Rightarrow> RunMetadata \<Rightarrow> 'e list \<Rightarrow> ('w, ('t, 'e) Snapshot res) state" where
  "interruptionSnapshot r threadID current st meta effects = (case grn_durable r of
     Some d \<Rightarrow> dur_Load d threadID
   | None \<Rightarrow> ret (Ok \<lparr>snp_ThreadID = threadID, snp_ExecutionPointer = current, snp_Revision = 0, snp_State = st,
       snp_RunMeta = meta, snp_Effects = effects\<rparr>))"

definition failedDiagnosticResult ::
    "('w, 't, 'a, 'e, 'x) graphRunner \<Rightarrow> 't \<Rightarrow> 'e list \<Rightarrow> RunMetadata \<Rightarrow> string \<Rightarrow> err option \<Rightarrow> err \<Rightarrow> ('w, ('t, 'e) outcome) state" where
  "failedDiagnosticResult r st effects meta current cause restoreErr =
    (let e = Wrapped '''' (Sent (Also ErrDurableStateUnavailable) # (case cause of None \<Rightarrow> [] | Some c \<Rightarrow> [c]) @ [restoreErr]) in do {
       result \<leftarrow> newRunResultFailed r st effects meta current (''diagnostic local state: '' @ grn_errText r e);
       ret (Some result, Some e)
     })"

definition failedDurableStep ::
    "('w, 't, 'a, 'e, 'x) graphRunner \<Rightarrow> string \<Rightarrow> string \<Rightarrow> 't \<Rightarrow> RunMetadata \<Rightarrow> 'e list \<Rightarrow> err \<Rightarrow> ('w, ('t, 'e) outcome) state" where
  "failedDurableStep r threadID current st meta effects commitErr = do {
     loaded \<leftarrow> interruptionSnapshot r threadID current st meta effects;
     case loaded of
       Inl e \<Rightarrow> failedDiagnosticResult r st effects meta current (Some commitErr) e
     | Inr s \<Rightarrow> do {
         result \<leftarrow> newRunResultFailed r (snp_State s) (snp_Effects s) (snp_RunMeta s) (snp_ExecutionPointer s) (grn_errText r commitErr);
         ret (Some result, Some commitErr)
       }
   }"

definition handleContextCancellation ::
    "('w, 't, 'a, 'e, 'x) graphRunner \<Rightarrow> ('w, 't, 'x) runInvocationOptions \<Rightarrow> string \<Rightarrow> string \<Rightarrow> 't \<Rightarrow> RunMetadata \<Rightarrow> 'e list \<Rightarrow> uint64
     \<Rightarrow> err \<Rightarrow> bool \<Rightarrow> ('w, ('t, 'e) outcome) state" where
  "handleContextCancellation r opts threadID current0 st0 meta0 effects0 revision ctxErr consumerClose = do {
     loaded \<leftarrow> interruptionSnapshot r threadID current0 st0 meta0 effects0;
     case loaded of
       Inl restoreErr \<Rightarrow> do {
         c \<leftarrow> grn_cause r;
         failedDiagnosticResult r st0 effects0 meta0 current0 (errJoin [Some ctxErr, c]) restoreErr
       }
     | Inr s \<Rightarrow> do {
         telemetry \<leftarrow> grn_capture r;
         now \<leftarrow> grn_now r;
         let st = snp_State s; effects = snp_Effects s; current = snp_ExecutionPointer s;
             meta = endSegment SegmentEndContextCanceled now ((snp_RunMeta s)\<lparr>rmd_TelemetryContext := telemetry\<rparr>);
             result = newRunResultContextCanceled st effects meta current in do {
           (newRev, persisted, saveErr) \<leftarrow> persistSnapshot r opts revision
             \<lparr>snp_ThreadID = threadID, snp_ExecutionPointer = current, snp_Revision = 0, snp_State = st, snp_RunMeta = meta, snp_Effects = effects\<rparr>
             current st;
           case saveErr of
             Some e \<Rightarrow> do {
               _ \<leftarrow> emitTerminalEvent r (newRunEventContextCanceled current st ''context_canceled_save_failed'');
               ret (Some (result\<lparr>rst_Reason := ''context_canceled_save_failed''\<rparr>), Some (Wrapped ''flowy: context canceled and save failed'' [e]))
             }
           | None \<Rightarrow>
               let skipped = (\<not> persisted \<and> inv_checkpointPolicy opts = CheckpointPolicySkipOnSaveError);
                   result1 = (if skipped then result\<lparr>rst_Reason := ''context_canceled_checkpoint_skipped''\<rparr> else result);
                   result2 = (if persisted then result1\<lparr>rst_ResumeToken := tokenAt threadID newRev\<rparr> else result1) in do {
                 policyErr \<leftarrow> (if persisted then applyRetentionPolicy r threadID else ret None);
                 let result3 = (if policyErr = None then result2 else result2\<lparr>rst_Reason := retentionFailedReason (rst_Reason result2)\<rparr>) in do {
                   _ \<leftarrow> emitTerminalEvent r (newRunEventContextCanceled current st (rst_Reason result3));
                   case policyErr of
                     Some e \<Rightarrow> ret (Some result3, Some (Wrapped ''flowy: context canceled, retention failed'' [e]))
                   | None \<Rightarrow>
                       if skipped then do {
                         live \<leftarrow> grn_ctxErr r;
                         ret (Some result3, Some (if consumerClose \<or> live = None then Sent ErrCheckpointSkipped else Wrapped ''flowy'' [ctxErr]))
                       } else ret (Some result3, Some (Wrapped ''flowy'' [ctxErr]))
                 }
               }
         }
       }
   }"

definition handleHandoff ::
    "('w, 't, 'a, 'e, 'x) graphRunner \<Rightarrow> ('w, 't, 'x) runInvocationOptions \<Rightarrow> string \<Rightarrow> string \<Rightarrow> 't \<Rightarrow> RunMetadata \<Rightarrow> 'e list \<Rightarrow> uint64
     \<Rightarrow> ('w, ('t, 'e) outcome option) state" where
  "handleHandoff r opts threadID current st meta effects revision = do {
     loaded \<leftarrow> interruptionSnapshot r threadID current st meta effects;
     case loaded of
       Inl restoreErr \<Rightarrow> do {
         c \<leftarrow> grn_cause r;
         out \<leftarrow> failedDiagnosticResult r st effects meta current c restoreErr;
         ret (Some out)
       }
     | Inr s \<Rightarrow> do {
         c \<leftarrow> grn_cause r;
         let reason = (case c of None \<Rightarrow> ''background_handoff''
               | Some e \<Rightarrow> if errIs e ErrHandoffRequested then ''background_handoff'' else grn_errText r e) in do {
           out \<leftarrow> completeHandoffTerminal r opts threadID (snp_ExecutionPointer s) (snp_State s) (snp_RunMeta s) (snp_Effects s) revision reason '''' True;
           ret (map_option (\<lambda>(result, e). (Some result, e)) out)
         }
       }
   }"

section \<open>The step of a node\<close>

record ('t, 'a, 'e) nodeStepOutcome =
  nso_state :: 't
  nso_meta :: RunMetadata
  nso_effects :: "'e list"
  nso_base :: "'a Directive"
  nso_emitCanceled :: bool

definition blankNodeStepOutcome :: "'t \<Rightarrow> RunMetadata \<Rightarrow> 'e list \<Rightarrow> ('t, 'a, 'e) nodeStepOutcome" where
  "blankNodeStepOutcome st meta effects = \<lparr>nso_state = st, nso_meta = meta, nso_effects = effects,
     nso_base = directiveWithKind zeroKind, nso_emitCanceled = False\<rparr>"

definition canceledNodeStepOutcome :: "'t \<Rightarrow> RunMetadata \<Rightarrow> 'e list \<Rightarrow> ('t, 'a, 'e) nodeStepOutcome" where
  "canceledNodeStepOutcome st meta effects = (blankNodeStepOutcome st meta effects)\<lparr>nso_emitCanceled := True\<rparr>"

text \<open>The events of the effects; it stops when the sink refuses one.\<close>

primrec emitEffects :: "('w, 't, 'a, 'e, 'x) graphRunner \<Rightarrow> string \<Rightarrow> 't \<Rightarrow> duration \<Rightarrow> 'e list \<Rightarrow> ('w, bool) state" where
  "emitEffects r current st d [] = ret True"
| "emitEffects r current st d (effect # rest) = do {
     ok \<leftarrow> emitEvent r (newRunEventNodeCompletedWithEffect current st effect d);
     if ok then emitEffects r current st d rest else ret False
   }"

definition failStep ::
    "('w, 't, 'a, 'e, 'x) graphRunner \<Rightarrow> string \<Rightarrow> 't \<Rightarrow> RunMetadata \<Rightarrow> 'e list \<Rightarrow> err \<Rightarrow> err \<Rightarrow> ('w, (('t, 'a, 'e) nodeStepOutcome \<times> err option) option) state" where
  "failStep r current st meta effects e returned = do {
     _ \<leftarrow> emitTerminalEvent r (newRunEventFailed current st e (grn_errText r e));
     ret (Some (blankNodeStepOutcome st meta effects, Some returned))
   }"

definition runNodeStep ::
    "('w, 't, 'a, 'e, 'x) graphRunner \<Rightarrow> ('w, 't, 'x) runInvocationOptions \<Rightarrow> string \<Rightarrow> 't \<Rightarrow> RunMetadata \<Rightarrow> 'e list
     \<Rightarrow> ('w, (('t, 'a, 'e) nodeStepOutcome \<times> err option) option) state" where
  "runNodeStep r opts current st meta0 effects = (case lookup (gph_nodes (grn_graph r)) current of
     None \<Rightarrow> failStep r current st meta0 effects (Plain ''flowy: node not found'') (Plain ''flowy: node not found'')
   | Some node \<Rightarrow> do {
       started \<leftarrow> emitEvent r (newRunEventNodeStarted current st);
       if \<not> started then ret (Some (canceledNodeStepOutcome st meta0 effects, None))
       else case (node, gph_reducer (grn_graph r)) of
         (Some handler, reducer) \<Rightarrow> do {
           nodeStart \<leftarrow> grn_now r;
           ((update, directive, e), budgets) \<leftarrow> handler st (rmd_BudgetCounts meta0);
           nodeEnd \<leftarrow> grn_now r;
           let meta = meta0\<lparr>rmd_StepCount := rmd_StepCount meta0 + 1, rmd_BudgetCounts := budgets\<rparr>; d = nodeEnd - nodeStart in
           (case e of
              Some err \<Rightarrow> failStep r current st meta effects err (Wrapped nodeErrPrefix [err])
            | None \<Rightarrow>
                (case reducer of None \<Rightarrow> ret None
                 | Some reduce \<Rightarrow>
                     let st' = reduce st update in
                     (case Option.bind (inv_invariantValidator opts) (\<lambda>f. f st') of
                        Some invErr \<Rightarrow> failStep r current st' meta effects invErr invErr
                      | None \<Rightarrow>
                          (case UnwrapDirective (grn_asEffect r) directive of
                             Inl err \<Rightarrow> failStep r current st' meta effects err err
                           | Inr (base, nodeEffects) \<Rightarrow> do {
                               delivered \<leftarrow> (if nodeEffects = [] then emitEvent r (newRunEventNodeCompleted current st' d)
                                 else emitEffects r current st' d nodeEffects);
                               ret (Some ((if delivered then (blankNodeStepOutcome st' meta (effects @ nodeEffects))\<lparr>nso_base := base\<rparr>
                                 else canceledNodeStepOutcome st' meta (effects @ nodeEffects)), None))
                             }))))
         }
       | _ \<Rightarrow> ret None
     })"

section \<open>Directives\<close>

definition directiveResumePointer :: "string \<Rightarrow> 'a Directive \<Rightarrow> string" where
  "directiveResumePointer current directive = (if dir_resumeAt directive \<noteq> '''' then dir_resumeAt directive else current)"

text \<open>A nil router cannot be compiled; calling one panics.\<close>

definition resolveEdge ::
    "('w, 't, 'a, 'e, 'x) graphRunner \<Rightarrow> string \<Rightarrow> 't \<Rightarrow> counters \<Rightarrow> ('w, (string res \<times> counters) option) state" where
  "resolveEdge r current st budgets = (case lookup (gph_edges (grn_graph r)) current of
     Some n \<Rightarrow> ret (Some (Ok n, budgets))
   | None \<Rightarrow>
      (case lookup (gph_conditionalEdges (grn_graph r)) current of
         None \<Rightarrow> ret (Some (Inl (Plain ''flowy: node returned Completed but has no outgoing edge''), budgets))
       | Some None \<Rightarrow> ret None
       | Some (Some router) \<Rightarrow> do {
           (routed, charged) \<leftarrow> router st budgets;
           ret (Some (case routed of
               Inl e \<Rightarrow> Inl (Wrapped ''flowy: conditional edge'' [e])
             | Inr n \<Rightarrow>
                 if n = '''' then Inl (Plain ''flowy: conditional edge returned empty target'')
                 else if (case lookup (gph_conditionalAllowed (grn_graph r)) current of None \<Rightarrow> False | Some allowed \<Rightarrow> n \<notin> set allowed)
                 then Inl (Plain ''flowy: conditional edge returned undeclared target'')
                 else if n = EndNode then Ok n
                 else if lookup (gph_nodes (grn_graph r)) n = None then Inl (Plain ''flowy: conditional edge returned unknown node'')
                 else Ok n, charged))
         }))"

definition terminalFailDirectiveStep ::
    "('w, 't, 'a, 'e, 'x) graphRunner \<Rightarrow> string \<Rightarrow> 't \<Rightarrow> RunMetadata \<Rightarrow> 'e list \<Rightarrow> err \<Rightarrow> ('w, ('t, 'e) directiveStep) state" where
  "terminalFailDirectiveStep r current st meta effects e = do {
     _ \<leftarrow> emitTerminalEvent r (newRunEventFailed current st e (grn_errText r e));
     result \<leftarrow> newRunResultFailed r st effects meta current (grn_errText r e);
     ret (terminalDirectiveStep (Some result) (Some e))
   }"

definition applyDirectiveFail ::
    "('w, 't, 'a, 'e, 'x) graphRunner \<Rightarrow> string \<Rightarrow> 't \<Rightarrow> RunMetadata \<Rightarrow> 'e list \<Rightarrow> 'a Directive \<Rightarrow> ('w, ('t, 'e) directiveStep) state" where
  "applyDirectiveFail r current st meta effects base = do {
     now \<leftarrow> grn_now r;
     result \<leftarrow> newRunResultFailed r st effects (endSegment SegmentEndFail now meta) current (dir_reason base);
     _ \<leftarrow> emitTerminalEvent r (newRunEventFailed current st (Plain (dir_reason base)) (dir_reason base));
     ret (terminalDirectiveStep (Some result) (Some (Plain (dir_reason base))))
   }"

definition finishCompleted ::
    "('w, 't, 'a, 'e, 'x) graphRunner \<Rightarrow> string \<Rightarrow> 't \<Rightarrow> RunMetadata \<Rightarrow> 'e list \<Rightarrow> SegmentEndReason \<Rightarrow> ('w, ('t, 'e) directiveStep) state" where
  "finishCompleted r current st meta effects endReason = do {
     now \<leftarrow> grn_now r;
     let result = newRunResultCompleted st effects (endSegment endReason now meta) current in do {
       _ \<leftarrow> emitTerminalEvent r (newRunEventCompleted current st);
       ret (terminalDirectiveStep (Some result) None)
     }
   }"

text \<open>The metadata that the caller sees afterwards is returned beside the step.\<close>

definition applyDirectiveCompleted ::
    "('w, 't, 'a, 'e, 'x) graphRunner \<Rightarrow> string \<Rightarrow> 't \<Rightarrow> RunMetadata \<Rightarrow> 'e list \<Rightarrow> ('w, (('t, 'e) directiveStep \<times> RunMetadata) option) state" where
  "applyDirectiveCompleted r current st meta0 effects = do {
     resolved \<leftarrow> resolveEdge r current st (rmd_BudgetCounts meta0);
     case resolved of
       None \<Rightarrow> ret None
     | Some (routed, budgets) \<Rightarrow>
         let meta = meta0\<lparr>rmd_BudgetCounts := budgets\<rparr> in
         (case routed of
            Inl e \<Rightarrow> do { out \<leftarrow> terminalFailDirectiveStep r current st meta effects e; ret (Some (out, meta)) }
          | Inr nextNode \<Rightarrow>
              if nextNode = EndNode then do { out \<leftarrow> finishCompleted r current st meta effects SegmentEndComplete; ret (Some (out, meta)) }
              else ret (Some (continueDirectiveStep nextNode, meta)))
   }"

definition applyDirectiveSuspend ::
    "('w, 't, 'a, 'e, 'x) graphRunner \<Rightarrow> ('w, 't, 'x) runInvocationOptions \<Rightarrow> string \<Rightarrow> string \<Rightarrow> 't \<Rightarrow> RunMetadata \<Rightarrow> 'e list
     \<Rightarrow> uint64 \<Rightarrow> 'a Directive \<Rightarrow> ('w, ('t, 'e) directiveStep) state" where
  "applyDirectiveSuspend r opts threadID current st meta0 effects revision base = do {
     telemetry \<leftarrow> grn_capture r;
     now \<leftarrow> grn_now r;
     let meta = endSegment SegmentEndSuspend now (meta0\<lparr>rmd_TelemetryContext := telemetry\<rparr>);
         resumePtr = directiveResumePointer current base in
     (case validateExecutionPointer r resumePtr of
        Some validateErr \<Rightarrow> do {
          _ \<leftarrow> emitTerminalEvent r (newRunEventFailed current st validateErr ''suspend_resume_target_invalid'');
          failed \<leftarrow> newRunResultFailed r st effects meta current ''suspend_resume_target_invalid'';
          ret (terminalDirectiveStep (Some failed) (Some (Wrapped ''flowy: suspend resume target invalid'' [validateErr])))
        }
      | None \<Rightarrow> do {
          (newRev, persisted, saveErr) \<leftarrow> persistSnapshot r opts revision
            \<lparr>snp_ThreadID = threadID, snp_ExecutionPointer = resumePtr, snp_Revision = 0, snp_State = st, snp_RunMeta = meta, snp_Effects = effects\<rparr>
            current st;
          case saveErr of
            Some e \<Rightarrow> do {
              _ \<leftarrow> emitTerminalEvent r (newRunEventFailed resumePtr st e ''suspend_save_failed'');
              failed \<leftarrow> newRunResultFailed r st effects meta resumePtr ''suspend_save_failed'';
              ret (terminalDirectiveStep (Some failed) (Some (Wrapped ''flowy: suspend save failed'' [e])))
            }
          | None \<Rightarrow> do {
              policyErr \<leftarrow> (if persisted then applyRetentionPolicy r threadID else ret None);
              let reason = (if \<not> persisted \<and> inv_checkpointPolicy opts = CheckpointPolicySkipOnSaveError then ''suspended_checkpoint_skipped''
                    else if dir_reason base = '''' then ''suspended'' else dir_reason base);
                  suspendReason = (if policyErr = None then reason else retentionFailedReason reason);
                  suspended = newRunResultSuspended st effects meta resumePtr suspendReason;
                  result = (if persisted then suspended\<lparr>rst_ResumeToken := tokenAt threadID newRev\<rparr> else suspended) in do {
                _ \<leftarrow> emitTerminalEvent r (newRunEventSuspendedNoError resumePtr st suspendReason);
                ret (terminalDirectiveStep (Some result) (map_option (\<lambda>e. Wrapped ''flowy: suspend retention failed'' [e]) policyErr))
              }
            }
        })
   }"

definition applyDirectiveHandoff ::
    "('w, 't, 'a, 'e, 'x) graphRunner \<Rightarrow> ('w, 't, 'x) runInvocationOptions \<Rightarrow> string \<Rightarrow> string \<Rightarrow> 't \<Rightarrow> RunMetadata \<Rightarrow> 'e list
     \<Rightarrow> uint64 \<Rightarrow> 'a Directive \<Rightarrow> ('w, ('t, 'e) directiveStep option) state" where
  "applyDirectiveHandoff r opts threadID current st meta effects revision base = do {
     out \<leftarrow> completeHandoffTerminal r opts threadID current st meta effects revision
       (if dir_reason base = '''' then ''handoff'' else dir_reason base) (directiveResumePointer current base) False;
     ret (map_option (\<lambda>(result, e). terminalDirectiveStep (Some result) e) out)
   }"

text \<open>
  The counter of the node is a Go \<open>int\<close> in a map that the caller's copy of the
  metadata shares: the updated map is returned beside the step.
\<close>

definition applyDirectiveRetry ::
    "('w, 't, 'a, 'e, 'x) graphRunner \<Rightarrow> string \<Rightarrow> 't \<Rightarrow> RunMetadata \<Rightarrow> 'e list \<Rightarrow> 'a Directive
     \<Rightarrow> ('w, ('t, 'e) directiveStep \<times> counters) state" where
  "applyDirectiveRetry r current st meta effects base =
    (if dir_maxAttempts base \<le> 0 then do {
       out \<leftarrow> terminalFailDirectiveStep r current st meta effects (Plain ''flowy: Retry directive requires maxAttempts > 0'');
       ret (out, rmd_RetryCounts meta)
     } else
       let count = wrap64 ((case lookup (rmd_RetryCounts meta) current of None \<Rightarrow> 0 | Some n \<Rightarrow> n) + 1);
           counts = put current count (rmd_RetryCounts meta);
           counted = meta\<lparr>rmd_RetryCounts := counts\<rparr> in
       if count > dir_maxAttempts base then do {
         meta' \<leftarrow> markSegmentFailed r counted;
         out \<leftarrow> terminalFailDirectiveStep r current st meta' effects (Sent ErrRetryBudgetExceeded);
         ret (out, counts)
       } else case lookup (gph_retryRoutes (grn_graph r)) current of
         None \<Rightarrow> do {
           out \<leftarrow> terminalFailDirectiveStep r current st counted effects (Plain ''flowy: node returned Retry without AddRetryRoute'');
           ret (out, counts)
         }
       | Some fallback \<Rightarrow> ret (continueDirectiveStep fallback, counts))"

definition registerDurableWait :: "('w, 't, 'a, 'e, 'x) graphRunner \<Rightarrow> ('w, 't, 'e) durableEngine \<Rightarrow> DurableWaitRecord \<Rightarrow> ('w, err option) state" where
  "registerDurableWait r d record = (case dur_waitCapabilities d of
     None \<Rightarrow> ret (Some (Sent ErrExecutionCapability))
   | Some capabilities \<Rightarrow> do {
       profile \<leftarrow> capabilities;
       if profile \<noteq> wrc_Profile record then ret (Some (Sent ErrExecutionCapability))
       else do {
         before \<leftarrow> grn_ctxErr r;
         if before \<noteq> None then grn_cause r
         else do {
           e \<leftarrow> dur_RegisterWait d record;
           case e of
             Some err \<Rightarrow> ret (Some (Wrapped '''' [Sent ErrWaitRegistration, err]))
           | None \<Rightarrow> do {
               after \<leftarrow> grn_ctxErr r;
               if after \<noteq> None then grn_cause r else ret None
             }
         }
       }
     })"

definition applyDirectiveWait ::
    "('w, 't, 'a, 'e, 'x) graphRunner \<Rightarrow> string \<Rightarrow> string \<Rightarrow> 't \<Rightarrow> RunMetadata \<Rightarrow> 'e list \<Rightarrow> uint64 \<Rightarrow> 'a Directive
     \<Rightarrow> ('w, ('t, 'e) directiveStep) state" where
  "applyDirectiveWait r threadID current st meta0 effects revision directive =
    (let refuse = (\<lambda>meta e. do {
           failed \<leftarrow> newRunResultFailed r st effects meta current ''durable_wait'';
           ret (terminalDirectiveStep (Some failed) (Some e)) }) in
     case grn_durable r of
       None \<Rightarrow> refuse meta0 (Sent ErrExecutionCapability)
     | Some d \<Rightarrow>
        if dur_waitCapabilities d = None then refuse meta0 (Sent ErrExecutionCapability)
        else (case dir_wait directive of
          None \<Rightarrow> refuse meta0 (Sent ErrWaitInvalid)
        | Some spec \<Rightarrow>
           if DurableWaitSpec_Validate spec \<noteq> None \<or> validateExecutionPointer r (wsp_EventPointer spec) \<noteq> None
             \<or> validateExecutionPointer r (wsp_TimeoutPointer spec) \<noteq> None
           then refuse meta0 (Sent ErrWaitInvalid)
           else do {
             telemetry \<leftarrow> grn_capture r;
             now \<leftarrow> grn_now r;
             let meta = endSegment SegmentEndSuspend now (meta0\<lparr>rmd_TelemetryContext := telemetry\<rparr>) in do {
               armed \<leftarrow> dur_armWait d revision \<lparr>snp_ThreadID = threadID, snp_ExecutionPointer = current, snp_Revision = 0,
                 snp_State = st, snp_RunMeta = meta, snp_Effects = effects\<rparr> spec;
               case armed of
                 Inl e \<Rightarrow> refuse meta e
               | Inr record \<Rightarrow> do {
                   e \<leftarrow> registerDurableWait r d record;
                   case e of
                     Some registrationErr \<Rightarrow>
                       ret (terminalDirectiveStep (Some (newRunResultSuspended st effects meta current ''durable_wait'')) (Some registrationErr))
                   | None \<Rightarrow> do {
                       _ \<leftarrow> emitTerminalEvent r (newRunEventSuspendedNoError current st ''durable_wait'');
                       ret (terminalDirectiveStep (Some (newRunResultSuspended st effects meta current ''durable_wait'')) None)
                     }
                 }
             }
           }))"

definition applyDirective ::
    "('w, 't, 'a, 'e, 'x) graphRunner \<Rightarrow> ('w, 't, 'x) runInvocationOptions \<Rightarrow> string \<Rightarrow> string \<Rightarrow> 't \<Rightarrow> RunMetadata \<Rightarrow> 'e list
     \<Rightarrow> uint64 \<Rightarrow> 'a Directive \<Rightarrow> ('w, (('t, 'e) directiveStep \<times> RunMetadata) option) state" where
  "applyDirective r opts threadID current st meta effects revision base =
    (let keep = (\<lambda>m. do { out \<leftarrow> m; ret (Some (out, meta)) });
         keepOption = (\<lambda>m. do { out \<leftarrow> m; ret (map_option (\<lambda>s. (s, meta)) out) }) in
     case dir_kind base of
       directiveWait \<Rightarrow> keep (applyDirectiveWait r threadID current st meta effects revision base)
     | directiveCompleted \<Rightarrow> applyDirectiveCompleted r current st meta effects
     | directiveNext \<Rightarrow> keep (terminalFailDirectiveStep r current st meta effects (Sent ErrRemovedNext))
     | directiveEnd \<Rightarrow> keep (finishCompleted r current st meta effects SegmentEndComplete)
     | directiveSuspend \<Rightarrow> keep (applyDirectiveSuspend r opts threadID current st meta effects revision base)
     | directiveHandoff \<Rightarrow> keepOption (applyDirectiveHandoff r opts threadID current st meta effects revision base)
     | directiveRetry \<Rightarrow> do {
         (out, retries) \<leftarrow> applyDirectiveRetry r current st meta effects base;
         ret (Some (out, meta\<lparr>rmd_RetryCounts := retries\<rparr>))
       }
     | directiveFail \<Rightarrow> keep (applyDirectiveFail r current st meta effects base)
     | _ \<Rightarrow> keep (terminalFailDirectiveStep r current st meta effects (Plain ''flowy: node returned unsupported directive'')))"

section \<open>The run loop\<close>

text \<open>
  Budgets: \<open>checkBudgetLimits\<close> of budget.go, and \<open>UseBudget\<close> and \<open>BudgetUsed\<close> of
  run\_options.go on the counters that a handler sees (\<open>None\<close>: no metadata in the
  context).
\<close>

definition budgetCount :: "counters \<Rightarrow> string \<Rightarrow> int" where
  "budgetCount counts name = (case lookup counts name of None \<Rightarrow> 0 | Some n \<Rightarrow> n)"

definition checkBudgetLimits :: "RunMetadata \<Rightarrow> (string, int) gomap \<Rightarrow> err option" where
  "checkBudgetLimits meta limits = firstErr (\<lambda>(name, limit).
     if limit \<le> 0 then None else reject (budgetCount (rmd_BudgetCounts meta) name > limit) ErrBudgetExceeded) limits"

definition UseBudget :: "counters option \<Rightarrow> string \<Rightarrow> int \<Rightarrow> counters res" where
  "UseBudget counts name amount =
    (if name = '''' \<or> \<not> validRuntimeText [name] \<or> amount < 0 then Err (Also ErrBudgetInvalid)
     else case counts of
       None \<Rightarrow> Err (Also ErrBudgetContext)
     | Some m \<Rightarrow>
        let used = budgetCount m name in
        if used < 0 \<or> amount > (2 ^ 63 - 1) - used then Err (Also ErrBudgetInvalid)
        else if amount = 0 then Ok m
        else Ok (put name (used + amount) m))"

definition BudgetUsed :: "counters option \<Rightarrow> string \<Rightarrow> int" where
  "BudgetUsed counts name = (case counts of None \<Rightarrow> 0 | Some m \<Rightarrow> budgetCount m name)"

text \<open>The variables of the loop, and how one iteration ends.\<close>

record ('t, 'e) loopState =
  lps_current :: string
  lps_state :: 't
  lps_meta :: RunMetadata
  lps_effects :: "'e list"
  lps_revision :: uint64

datatype ('t, 'e) iteration = Panicked | Finished "('t, 'e) outcome" | Continue "('t, 'e) loopState"

definition handedOff :: "('t, 'e) outcome option \<Rightarrow> ('t, 'e) iteration" where
  "handedOff out = (case out of None \<Rightarrow> Panicked | Some o' \<Rightarrow> Finished o')"

text \<open>A run that ends with an error of its own: a lost lease, the step limit or a budget.\<close>

definition failRun ::
    "('w, 't, 'a, 'e, 'x) graphRunner \<Rightarrow> string \<Rightarrow> 't \<Rightarrow> RunMetadata \<Rightarrow> 'e list \<Rightarrow> err \<Rightarrow> ('w, ('t, 'e) iteration) state" where
  "failRun r current st meta effects e = do {
     meta' \<leftarrow> markSegmentFailed r meta;
     _ \<leftarrow> emitTerminalEvent r (newRunEventFailed current st e (grn_errText r e));
     result \<leftarrow> newRunResultFailed r st effects meta' current (grn_errText r e);
     ret (Finished (Some result, Some e))
   }"

text \<open>
  The checks of the run context at the head of the loop and again after the node
  step; \<open>None\<close>: the run goes on. An ended context stays ended with the same error.
\<close>

definition checkInterrupted ::
    "('w, 't, 'a, 'e, 'x) graphRunner \<Rightarrow> ('w, 't, 'x) runInvocationOptions \<Rightarrow> string \<Rightarrow> string \<Rightarrow> 't \<Rightarrow> RunMetadata \<Rightarrow> 'e list \<Rightarrow> uint64
     \<Rightarrow> ('w, ('t, 'e) iteration option) state" where
  "checkInterrupted r opts threadID current st meta effects revision = do {
     handoff \<leftarrow> causeIs r ErrHandoffRequested;
     if handoff then do {
       out \<leftarrow> handleHandoff r opts threadID current st meta effects revision;
       ret (Some (handedOff out))
     } else do {
       lost \<leftarrow> causeIs r ErrLeaseLost;
       if lost then do { out \<leftarrow> failRun r current st meta effects (Sent ErrLeaseLost); ret (Some out) }
       else do {
         ctxErr \<leftarrow> grn_ctxErr r;
         case ctxErr of
           None \<Rightarrow> ret None
         | Some e \<Rightarrow> do {
             closed \<leftarrow> grn_consumerClosed r;
             out \<leftarrow> handleContextCancellation r opts threadID current st meta effects revision e closed;
             ret (Some (Finished out))
           }
       }
     }
   }"

definition stepFailed ::
    "('w, 't, 'a, 'e, 'x) graphRunner \<Rightarrow> ('w, 't, 'x) runInvocationOptions \<Rightarrow> string \<Rightarrow> string \<Rightarrow> ('t, 'a, 'e) nodeStepOutcome \<Rightarrow> uint64 \<Rightarrow> err
     \<Rightarrow> ('w, ('t, 'e) iteration) state" where
  "stepFailed r opts threadID current step revision stepErr = do {
     lost \<leftarrow> causeIs r ErrLeaseLost;
     if lost then failRun r current (nso_state step) (nso_meta step) (nso_effects step) (Sent ErrLeaseLost)
     else do {
       ctxErr \<leftarrow> grn_ctxErr r;
       case (if errIs stepErr ContextCanceled \<or> errIs stepErr ContextDeadlineExceeded then ctxErr else None) of
         Some e \<Rightarrow> do {
           handoff \<leftarrow> causeIs r ErrHandoffRequested;
           if handoff then do {
             out \<leftarrow> handleHandoff r opts threadID current (nso_state step) (nso_meta step) (nso_effects step) revision;
             ret (handedOff out)
           } else do {
             closed \<leftarrow> grn_consumerClosed r;
             out \<leftarrow> handleContextCancellation r opts threadID current (nso_state step) (nso_meta step) (nso_effects step) revision e closed;
             ret (Finished out)
           }
         }
       | None \<Rightarrow> do {
           result \<leftarrow> newRunResultFailed r (nso_state step) (nso_effects step) (nso_meta step) current (failReasonForStepErr (grn_errText r) stepErr);
           ret (Finished (Some result, Some stepErr))
         }
     }
   }"

definition stepCanceled ::
    "('w, 't, 'a, 'e, 'x) graphRunner \<Rightarrow> ('w, 't, 'x) runInvocationOptions \<Rightarrow> string \<Rightarrow> string \<Rightarrow> ('t, 'a, 'e) nodeStepOutcome \<Rightarrow> uint64
     \<Rightarrow> ('w, ('t, 'e) iteration) state" where
  "stepCanceled r opts threadID current step revision = do {
     handoff \<leftarrow> causeIs r ErrHandoffRequested;
     if handoff then do {
       out \<leftarrow> handleHandoff r opts threadID current (nso_state step) (nso_meta step) (nso_effects step) revision;
       ret (handedOff out)
     } else do {
       lost \<leftarrow> causeIs r ErrLeaseLost;
       if lost then failRun r current (nso_state step) (nso_meta step) (nso_effects step) (Sent ErrLeaseLost)
       else do {
         out \<leftarrow> handleContextCancellation r opts threadID current (nso_state step) (nso_meta step) (nso_effects step) revision (Sent ContextCanceled) True;
         ret (Finished out)
       }
     }
   }"

text \<open>The directive of the step, the commit of a durable run, and the move to the next node.\<close>

definition finishStep ::
    "('w, 't, 'a, 'e, 'x) graphRunner \<Rightarrow> ('w, 't, 'x) runInvocationOptions \<Rightarrow> string \<Rightarrow> string \<Rightarrow> ('t, 'a, 'e) nodeStepOutcome \<Rightarrow> uint64
     \<Rightarrow> ('w, ('t, 'e) iteration) state" where
  "finishStep r opts threadID current step revision0 =
    (let st = nso_state step; effects = nso_effects step; base = nso_base step in do {
       applied \<leftarrow> applyDirective r opts threadID current st (nso_meta step) effects revision0 base;
       case applied of
         None \<Rightarrow> ret Panicked
       | Some (stepOut, meta) \<Rightarrow>
           let proceed = (\<lambda>revision result. if dst_terminal stepOut then Finished (result, dst_err stepOut)
                 else Continue \<lparr>lps_current = dst_nextNode stepOut, lps_state = st, lps_meta = meta, lps_effects = effects, lps_revision = revision\<rparr>) in
           (case grn_durable r of
              None \<Rightarrow> ret (proceed revision0 (dst_result stepOut))
            | Some d \<Rightarrow> do {
                (revision, commitErr) \<leftarrow> dur_commitStep d stepOut (dir_kind base) st meta effects;
                case commitErr of
                  Some e \<Rightarrow> do { out \<leftarrow> failedDurableStep r threadID current st meta effects e; ret (Finished out) }
                | None \<Rightarrow> ret (proceed revision (map_option (\<lambda>res. res\<lparr>rst_ResumeToken := tokenAt threadID revision\<rparr>) (dst_result stepOut)))
              })
     })"

definition stepLimit :: "('w, 't, 'a, 'e, 'x) graphRunner \<Rightarrow> int" where
  "stepLimit r = (let limit = rcf_maxSteps (gph_defaults (grn_graph r)) in if limit \<le> 0 then defaultMaxSteps else limit)"

definition afterStep ::
    "('w, 't, 'a, 'e, 'x) graphRunner \<Rightarrow> ('w, 't, 'x) runInvocationOptions \<Rightarrow> string \<Rightarrow> string \<Rightarrow> ('t, 'a, 'e) nodeStepOutcome \<Rightarrow> uint64
     \<Rightarrow> ('w, ('t, 'e) iteration) state" where
  "afterStep r opts threadID current step revision = do {
     interrupted \<leftarrow> checkInterrupted r opts threadID current (nso_state step) (nso_meta step) (nso_effects step) revision;
     case interrupted of
       Some out \<Rightarrow> ret out
     | None \<Rightarrow>
         (case checkBudgetLimits (nso_meta step) (rcf_budgetLimits (gph_defaults (grn_graph r))) of
            Some e \<Rightarrow> failRun r current (nso_state step) (nso_meta step) (nso_effects step) e
          | None \<Rightarrow> do {
              lost \<leftarrow> causeIs r ErrLeaseLost;
              if lost then failRun r current (nso_state step) (nso_meta step) (nso_effects step) (Sent ErrLeaseLost)
              else finishStep r opts threadID current step revision
            })
   }"

definition executeIteration ::
    "('w, 't, 'a, 'e, 'x) graphRunner \<Rightarrow> ('w, 't, 'x) runInvocationOptions \<Rightarrow> string \<Rightarrow> ('t, 'e) loopState \<Rightarrow> ('w, ('t, 'e) iteration) state" where
  "executeIteration r opts threadID s =
    (let current = lps_current s; st = lps_state s; meta = lps_meta s; effects = lps_effects s; revision = lps_revision s in do {
       interrupted \<leftarrow> checkInterrupted r opts threadID current st meta effects revision;
       case interrupted of
         Some out \<Rightarrow> ret out
       | None \<Rightarrow>
           if rmd_StepCount meta \<ge> stepLimit r then failRun r current st meta effects (Sent ErrMaxStepsExceeded)
           else do {
             stepped \<leftarrow> runNodeStep r opts current st meta effects;
             case stepped of
               None \<Rightarrow> ret Panicked
             | Some (step, Some stepErr) \<Rightarrow> stepFailed r opts threadID current step revision stepErr
             | Some (step, None) \<Rightarrow>
                 if nso_emitCanceled step then stepCanceled r opts threadID current step revision
                 else afterStep r opts threadID current step revision
           }
     })"

subsection \<open>Every iteration makes progress\<close>

text \<open>\<open>goesOn P it\<close>: if the iteration goes on, then with loop variables in \<open>P\<close>.\<close>

definition goesOn :: "(('t, 'e) loopState \<Rightarrow> bool) \<Rightarrow> ('t, 'e) iteration \<Rightarrow> bool" where
  "goesOn P it \<longleftrightarrow> (case it of Continue s \<Rightarrow> P s | _ \<Rightarrow> True)"

lemma goesOn_simps [simp]:
  "goesOn P Panicked" "goesOn P (Finished out)" "goesOn P (Continue s) \<longleftrightarrow> P s" "goesOn P (handedOff handed)"
  by (simp_all add: goesOn_def handedOff_def split: option.split)

lemma goesOn_mono: "returns (goesOn P) m \<Longrightarrow> (\<And>s. P s \<Longrightarrow> Q s) \<Longrightarrow> returns (goesOn Q) m"
  by (erule returns_mono) (auto simp: goesOn_def split: iteration.splits)

lemma blank_sel [simp]:
  "nso_state (blankNodeStepOutcome st meta effects) = st" "nso_meta (blankNodeStepOutcome st meta effects) = meta"
  "nso_effects (blankNodeStepOutcome st meta effects) = effects" "\<not> nso_emitCanceled (blankNodeStepOutcome st meta effects)"
  "nso_state (canceledNodeStepOutcome st meta effects) = st" "nso_meta (canceledNodeStepOutcome st meta effects) = meta"
  "nso_effects (canceledNodeStepOutcome st meta effects) = effects" "nso_emitCanceled (canceledNodeStepOutcome st meta effects)"
  by (simp_all add: blankNodeStepOutcome_def canceledNodeStepOutcome_def)

lemma runNodeStep_counts:
  "returns (\<lambda>out. \<forall>step. out = Some (step, None) \<longrightarrow> \<not> nso_emitCanceled step \<longrightarrow> rmd_StepCount (nso_meta step) = rmd_StepCount meta + 1)
     (runNodeStep r opts current st meta effects)"
  unfolding runNodeStep_def failStep_def Let_def prod.case
  by (intro returns_rules) auto

lemma failRun_finished: "returns (goesOn P) (failRun r current st meta effects e)"
  unfolding failRun_def by (intro returns_rules) simp

lemma checkInterrupted_finished:
  "returns (\<lambda>out. \<forall>it. out = Some it \<longrightarrow> goesOn P it) (checkInterrupted r opts threadID current st meta effects revision)"
  unfolding checkInterrupted_def
  by (intro returns_rules returns_bind [OF failRun_finished]) simp_all

lemma stepFailed_finished: "returns (goesOn P) (stepFailed r opts threadID current step revision e)"
  unfolding stepFailed_def by (intro returns_rules failRun_finished) simp_all

lemma stepCanceled_finished: "returns (goesOn P) (stepCanceled r opts threadID current step revision)"
  unfolding stepCanceled_def by (intro returns_rules failRun_finished) simp_all

lemma applyDirective_counts:
  "returns (\<lambda>out. \<forall>step m. out = Some (step, m) \<longrightarrow> rmd_StepCount m = rmd_StepCount meta)
     (applyDirective r opts threadID current st meta effects revision base)"
proof -
  have "returns (\<lambda>out. \<forall>step m. out = Some (step, m) \<longrightarrow> rmd_StepCount m = rmd_StepCount meta) (applyDirectiveCompleted r current st meta effects)"
    unfolding applyDirectiveCompleted_def Let_def by (intro returns_rules) auto
  moreover have "returns (\<lambda>out. \<forall>step m. out = Some (step, m) \<longrightarrow> rmd_StepCount m = rmd_StepCount meta)
      (do { (out, retries) \<leftarrow> applyDirectiveRetry r current st meta effects base; ret (Some (out, meta\<lparr>rmd_RetryCounts := retries\<rparr>)) })"
    by (intro returns_rules) auto
  ultimately show ?thesis
    unfolding applyDirective_def Let_def
    by (cases "dir_kind base"; simp only: directiveKind.case) ((intro returns_rules)?; auto)+
qed

lemma finishStep_counts:
  "returns (goesOn (\<lambda>s. rmd_StepCount (lps_meta s) = rmd_StepCount (nso_meta step))) (finishStep r opts threadID current step revision)"
  unfolding finishStep_def Let_def
  by (rule returns_bind [OF applyDirective_counts]) (intro returns_rules; auto)

lemma afterStep_goesOn:
  assumes "checkBudgetLimits (nso_meta step) (rcf_budgetLimits (gph_defaults (grn_graph r))) = None \<Longrightarrow>
    returns (goesOn P) (finishStep r opts threadID current step revision)"
  shows "returns (goesOn P) (afterStep r opts threadID current step revision)"
  unfolding afterStep_def
  by (rule returns_bind [OF checkInterrupted_finished]) (intro returns_rules failRun_finished assms; simp)

lemma executeIteration_goesOn:
  assumes "\<And>step. rmd_StepCount (lps_meta s) < stepLimit r \<Longrightarrow> R (Some (step, None)) \<Longrightarrow> \<not> nso_emitCanceled step \<Longrightarrow>
      checkBudgetLimits (nso_meta step) (rcf_budgetLimits (gph_defaults (grn_graph r))) = None \<Longrightarrow>
      returns (goesOn P) (finishStep r opts threadID (lps_current s) step (lps_revision s))"
    and "returns R (runNodeStep r opts (lps_current s) (lps_state s) (lps_meta s) (lps_effects s))"
  shows "returns (goesOn P) (executeIteration r opts threadID s)"
  unfolding executeIteration_def Let_def
  by (rule returns_bind [OF checkInterrupted_finished], intro returns_option returns_if failRun_finished returns_return returns_bind [OF assms(2)]
      returns_prod stepFailed_finished stepCanceled_finished afterStep_goesOn; simp add: assms(1))

text \<open>An iteration that goes on has counted one step, below the limit.\<close>

lemma executeIteration_counts:
  "returns (goesOn (\<lambda>s'. rmd_StepCount (lps_meta s) < stepLimit r \<and> rmd_StepCount (lps_meta s') = rmd_StepCount (lps_meta s) + 1))
     (executeIteration r opts threadID s)"
  by (rule executeIteration_goesOn [OF _ runNodeStep_counts]) (rule goesOn_mono [OF finishStep_counts], simp)

text \<open>
  The loop, which ends because every iteration counts a step towards the limit. The
  result \<open>None\<close> is a panic.
\<close>

function executeLoop ::
    "('w, 't, 'a, 'e, 'x) graphRunner \<Rightarrow> ('w, 't, 'x) runInvocationOptions \<Rightarrow> string \<Rightarrow> ('t, 'e) loopState \<Rightarrow> 'w \<Rightarrow> ('t, 'e) outcome option \<times> 'w" where
  "executeLoop r opts threadID s w = (case run_state (executeIteration r opts threadID s) w of
     (Panicked, w') \<Rightarrow> (None, w')
   | (Finished out, w') \<Rightarrow> (Some out, w')
   | (Continue s', w') \<Rightarrow> executeLoop r opts threadID s' w')"
  by pat_completeness auto
termination
proof (relation "measure (\<lambda>(r, opts, threadID, s, w). nat (stepLimit r - rmd_StepCount (lps_meta s)))", simp, goal_cases)
  case (1 r opts threadID s w it w' s')
  then show ?case using returnsD [OF executeIteration_counts, of r opts threadID s w it w'] by simp
qed

declare executeLoop.simps [simp del]

section \<open>What a run reports\<close>

text \<open>
  A result is about the run when it points to a registered node and carries the
  effects and the counters of the run; it is honest when a completed run has no
  error and a failed or cancelled one has an error; \<open>complete\<close> allows the run to be
  complete.
\<close>

definition about :: "('t, 'h, 'r) Graph \<Rightarrow> 'e list \<Rightarrow> RunMetadata \<Rightarrow> ('s, 'e) RunResult \<Rightarrow> bool" where
  "about g effects meta x \<longleftrightarrow> isNode (gph_nodes g) (rst_ExecutionPointer x) \<and> rst_Effects x = effects
    \<and> rmd_StepCount (rst_RunMeta x) = rmd_StepCount meta \<and> rmd_BudgetCounts (rst_RunMeta x) = rmd_BudgetCounts meta"

definition honest :: "RunStatus \<Rightarrow> err option \<Rightarrow> bool" where
  "honest status e \<longleftrightarrow> (status = RunStatusCompleted \<longrightarrow> e = None)
    \<and> (status = RunStatusFailed \<or> status = RunStatusContextCanceled \<longrightarrow> e \<noteq> None)"

definition reports :: "('t, 'h, 'r) Graph \<Rightarrow> bool \<Rightarrow> 'e list \<Rightarrow> RunMetadata \<Rightarrow> ('s, 'e) RunResult \<times> err option \<Rightarrow> bool" where
  "reports g complete effects meta out \<longleftrightarrow> about g effects meta (fst out) \<and> honest (rst_Status (fst out)) (snd out)
    \<and> (rst_Status (fst out) = RunStatusCompleted \<longrightarrow> complete)"

lemma endSegment_sel [simp]:
  "rmd_StepCount (endSegment reason now meta) = rmd_StepCount meta" "rmd_BudgetCounts (endSegment reason now meta) = rmd_BudgetCounts meta"
  "rmd_RetryCounts (endSegment reason now meta) = rmd_RetryCounts meta"
  by (simp_all add: endSegment_def)

lemma about_meta [simp]:
  "about g effects (meta\<lparr>rmd_TelemetryContext := t\<rparr>) x = about g effects meta x"
  "about g effects (meta\<lparr>rmd_HandoffStatus := hs\<rparr>) x = about g effects meta x"
  "about g effects (meta\<lparr>rmd_HandoffPendingAt := now\<rparr>) x = about g effects meta x"
  "about g effects (meta\<lparr>rmd_RetryCounts := c\<rparr>) x = about g effects meta x"
  "about g effects (endSegment reason now meta) x = about g effects meta x"
  by (simp_all add: about_def)

lemma about_result [simp]:
  "about g effects meta (x\<lparr>rst_Reason := reason\<rparr>) = about g effects meta x"
  "about g effects meta (x\<lparr>rst_ResumeToken := t\<rparr>) = about g effects meta x"
  "about g effects meta (applyFSMPersistedHandoffMeta fsm x) = about g effects meta x"
  "rst_RunMeta x = m \<Longrightarrow> about g effects meta (x\<lparr>rst_RunMeta := clearHandoffRunMeta m\<rparr>) = about g effects meta x"
  "rst_RunMeta x = m \<Longrightarrow> about g effects meta (x\<lparr>rst_RunMeta := m\<lparr>rmd_HandoffStatus := hs, rmd_HandoffPendingAt := now\<rparr>\<rparr>) = about g effects meta x"
  "rst_Status (applyFSMPersistedHandoffMeta fsm x) = rst_Status x"
  by (auto simp: about_def applyFSMPersistedHandoffMeta_def clearHandoffRunMeta_def)

lemma about_new [simp]:
  "about g effects meta (newRunResult status st effects meta ptr reason) \<longleftrightarrow> isNode (gph_nodes g) ptr"
  "rst_Status (newRunResult status st effects meta ptr reason) = status"
  by (auto simp: about_def newRunResult_def)

lemma honest_simps [simp]:
  "honest RunStatusFailed e \<longleftrightarrow> e \<noteq> None" "honest RunStatusContextCanceled e \<longleftrightarrow> e \<noteq> None" "honest RunStatusCompleted e \<longleftrightarrow> e = None"
  "honest RunStatusHandoff e" "honest RunStatusSuspended e"
  by (auto simp: honest_def)

lemma validPointer: "validateExecutionPointer r ptr = None \<Longrightarrow> isNode (gph_nodes (grn_graph r)) ptr"
  by (auto simp: validateExecutionPointer_def split: if_splits)

lemma failed_about:
  assumes "isNode (gph_nodes g) ptr"
  shows "returns (\<lambda>x. about g effects meta x \<and> rst_Status x = RunStatusFailed) (newRunResultFailed r st effects meta ptr reason)"
proof -
  have "about g effects meta (newRunResult RunStatusFailed st effects (endSegment SegmentEndFail now meta) ptr reason)" for now
    using assms by (auto simp: about_def newRunResult_def)
  then show ?thesis using assms unfolding newRunResultFailed_def markSegmentFailed_def
    by (auto simp: run_state_bind returns_def split: prod.split)
qed

subsection \<open>Handoffs and cancellations\<close>

lemma finalize_reports:
  assumes "about g effects meta x" and "rst_Status x = RunStatusHandoff"
  shows "returns (reports g False effects meta) (finalizeHandoffTerminal r k ptr st x signal persisted)"
  unfolding finalizeHandoffTerminal_def completeHandoffSession_def Let_def
  using assms by (intro returns_rules) (auto simp: reports_def split: option.split)

lemma enqueueFailure_reports:
  assumes "about g effects meta x" and "rst_Status x = RunStatusHandoff"
  shows "returns (reports g False effects meta) (handoffAfterEnqueueFailure r k ptr st x e)"
  unfolding handoffAfterEnqueueFailure_def Let_def
  using assms by (intro returns_rules) (auto simp: reports_def)

lemma dispatch_reports:
  assumes "about g effects meta x" and "rst_Status x = RunStatusHandoff"
  shows "returns (\<lambda>out. \<forall>y. (out = Some (Inl y) \<longrightarrow> reports g False effects meta y)
      \<and> (\<forall>y. out = Some (Inr y) \<longrightarrow> about g effects meta y \<and> rst_Status y = RunStatusHandoff))
    (dispatchPersistedHandoffOutbox r k pendingRev snapshot m outbox ptr ptr' st x)"
  unfolding dispatchPersistedHandoffOutbox_def Let_def
  by (intro returns_then returns_option returns_return returns_bind [OF enqueueFailure_reports [of g effects meta]]) (use assms in auto)

lemma failedHandoff_reports:
  assumes "isNode (gph_nodes g) ptr"
  shows "returns (\<lambda>out. \<forall>y. out = Some y \<longrightarrow> reports g False effects meta y) (failedHandoff r ptr st effects meta e msg)"
  unfolding failedHandoff_def
  by (rule returns_then, rule returns_bind [OF failed_about [OF assms]], rule returns_return) (auto simp: reports_def)

lemma publish_reports:
  assumes "isNode (gph_nodes g) ptr"
  shows "returns (\<lambda>out. \<forall>y. out = Some y \<longrightarrow> reports g False effects meta y)
    (publishHandoff r opts k current st meta effects revision reason ptr signal outbox)"
proof -
  have x: "about g effects meta (newRunResultHandoff st effects meta ptr reason)" "rst_Status (newRunResultHandoff st effects meta ptr reason) = RunStatusHandoff"
    using assms by (auto simp: newRunResultHandoff_def)
  have final: "returns (\<lambda>out. \<forall>y. out = Some y \<longrightarrow> reports g False effects meta y)
      (do { out \<leftarrow> finalizeHandoffTerminal r k ptr st z signal persisted; ret (Some out) })"
    if "about g effects meta z" "rst_Status z = RunStatusHandoff" for z persisted
    by (rule returns_bind [OF finalize_reports [OF that]]) (auto intro: returns_return)
  have dispatch: "returns (\<lambda>out. \<forall>y. out = Some y \<longrightarrow> reports g False effects meta y)
      (do { dispatched \<leftarrow> dispatchPersistedHandoffOutbox r k newRev prepared meta outbox ptr ptr st z;
            case dispatched of None \<Rightarrow> ret None | Some (Inl out) \<Rightarrow> ret (Some out)
            | Some (Inr updated) \<Rightarrow> do { out \<leftarrow> finalizeHandoffTerminal r k ptr st updated signal True; ret (Some out) } })"
    if "about g effects meta z" "rst_Status z = RunStatusHandoff" for z newRev prepared
    by (rule returns_bind [OF dispatch_reports [OF that]], intro returns_option returns_sum returns_return final; simp)
  show ?thesis
    unfolding publishHandoff_def Let_def
    by (rule returns_then, rule returns_option; (rule returns_then)?;
        intro returns_prod returns_option returns_if returns_sum final dispatch failedHandoff_reports assms)
      (use x in auto)
qed

lemma completeHandoff_reports:
  assumes "isNode (gph_nodes (grn_graph r)) current"
  shows "returns (\<lambda>out. \<forall>y. out = Some y \<longrightarrow> reports (grn_graph r) False effects meta y)
    (completeHandoffTerminal r opts k current st meta effects revision reason resumeAt signal)"
proof -
  have failed: "returns (\<lambda>out. \<forall>y. out = Some y \<longrightarrow> reports (grn_graph r) False effects meta y)
      (do { failed \<leftarrow> newRunResultFailed r st effects (endSegment SegmentEndHandoff now (meta\<lparr>rmd_TelemetryContext := t\<rparr>)) current why;
            ret (Some (failed, Some e)) })" for now t why e
    by (rule returns_bind [OF failed_about [OF assms]], rule returns_return) (auto simp: reports_def)
  have pub: "returns (\<lambda>out. \<forall>y. out = Some y \<longrightarrow> reports (grn_graph r) False effects meta y)
      (publishHandoff r opts k current st (endSegment SegmentEndHandoff now (meta\<lparr>rmd_TelemetryContext := t\<rparr>)\<lparr>rmd_HandoffStatus := hs, rmd_HandoffPendingAt := p\<rparr>)
        effects revision reason ptr signal outbox)" if "validateExecutionPointer r ptr = None" for now t hs p ptr outbox
    by (rule returns_mono [OF publish_reports [OF validPointer [OF that]]]) (auto simp: reports_def)
  show ?thesis
    unfolding completeHandoffTerminal_def Let_def
    by (rule returns_then, rule returns_then, rule returns_option, rule returns_then, rule pub, assumption, rule returns_then, rule failed)
qed

lemma cancellation_reports:
  assumes "isNode (gph_nodes (grn_graph r)) current" and "grn_durable r = None"
  shows "returns (\<lambda>out. \<exists>y. fst out = Some y \<and> reports (grn_graph r) False effects meta (y, snd out))
    (handleContextCancellation r opts k current st meta effects revision e closed)"
  unfolding handleContextCancellation_def interruptionSnapshot_def assms(2) Let_def newRunResultContextCanceled_def
    option.case State_Monad.bind_left_identity sum.case Snapshot.simps
  using assms(1) by (intro returns_rules) (auto simp: reports_def about_def newRunResult_def)

lemma handoff_reports:
  assumes "isNode (gph_nodes (grn_graph r)) current" and "grn_durable r = None"
  shows "returns (\<lambda>out. \<forall>o'. out = Some o' \<longrightarrow> (\<exists>y. fst o' = Some y \<and> reports (grn_graph r) False effects meta (y, snd o')))
    (handleHandoff r opts k current st meta effects revision)"
proof -
  have "returns (\<lambda>out. \<forall>o'. out = Some o' \<longrightarrow> (\<exists>y. fst o' = Some y \<and> reports (grn_graph r) False effects meta (y, snd o')))
      (do { out \<leftarrow> completeHandoffTerminal r opts k current st meta effects revision reason '''' True;
            ret (map_option (\<lambda>(result, e). (Some result, e)) out) })" for reason
    by (rule returns_bind [OF completeHandoff_reports [OF assms(1)]]) (auto intro: returns_return)
  then show ?thesis unfolding handleHandoff_def interruptionSnapshot_def assms(2) Let_def
    by (simp add: returns_then)
qed

subsection \<open>No handoff panics\<close>

text \<open>
  \<open>newHandoffIntent\<close> panics on an invalid intent. It never gets one when the
  checkpointer keeps its contract: a successful save of a snapshot with a thread and
  a pointer yields the successor of the expected revision.
\<close>

definition save_bumps :: "('w, 't, 'e, 'x) Checkpointer \<Rightarrow> bool" where
  "save_bumps cp \<longleftrightarrow> (\<forall>expected s. returns (\<lambda>x. \<forall>n. x = Ok n \<longrightarrow> expected \<noteq> - 1 \<and> n = expected + 1
     \<and> snp_ThreadID s \<noteq> '''' \<and> snp_ExecutionPointer s \<noteq> '''') (ckp_Save cp expected s))"

abbreviation saves_well :: "('w, 't, 'a, 'e, 'x) graphRunner \<Rightarrow> bool" where
  "saves_well r \<equiv> (case grn_checkpointer r of None \<Rightarrow> True | Some cp \<Rightarrow> save_bumps cp)"

lemma saved_bumps:
  assumes "saves_well r"
  shows "returns (\<lambda>x. \<forall>n. x = Ok n \<longrightarrow> expected \<noteq> - 1 \<and> n = expected + 1 \<and> snp_ThreadID s \<noteq> '''' \<and> snp_ExecutionPointer s \<noteq> '''')
    (saveSnapshot r expected s)"
  unfolding saveSnapshot_def
  by (intro returns_option returns_return) (use assms in \<open>auto simp: save_bumps_def\<close>)

lemma patched_bumps:
  assumes "saves_well r"
  shows "returns (\<lambda>x. \<forall>n. x = Ok n \<longrightarrow> expected \<noteq> - 1 \<and> n = expected + 1 \<and> snp_ThreadID s \<noteq> '''' \<and> snp_ExecutionPointer s \<noteq> '''')
    (patchHandoffStatus r expected s meta status)"
  unfolding patchHandoffStatus_def
  by (rule returns_then) (rule returns_mono [OF saved_bumps [OF assms]], simp)

lemma foldState_prepared: "returns (\<lambda>x. \<forall>p. x = Ok p \<longrightarrow> snp_ThreadID p = snp_ThreadID s \<and> snp_ExecutionPointer p = snp_ExecutionPointer s)
    (prepareSnapshot r opts s)"
  unfolding prepareSnapshot_def by (intro returns_rules) (auto split: sum.splits)

lemma persisted_bumps:
  assumes "saves_well r"
  shows "returns (\<lambda>(p, n, persisted, e). persisted \<longrightarrow> revision \<noteq> - 1 \<and> n = revision + 1
      \<and> snp_ThreadID p = snp_ThreadID s \<and> snp_ExecutionPointer p = snp_ExecutionPointer s)
    (persistSnapshotPrepared r opts revision s current st)"
  unfolding persistSnapshotPrepared_def
  apply (rule returns_bind [OF foldState_prepared], rule returns_sum, rule returns_return, simp)
  apply (rule returns_bind [OF saved_bumps [OF assms]])
  by (intro returns_rules) auto

lemma fsm_no_panic:
  assumes "saves_well r" and "pendingRev \<noteq> 0"
  shows "returns (\<lambda>out. out \<noteq> None) (runHandoffOutboxFSM r (snp_ThreadID s) pendingRev s meta outbox (snp_ExecutionPointer s) reason)"
  unfolding runHandoffOutboxFSM_def
proof (rule returns_bind [OF patched_bumps [OF assms(1)]], rule returns_sum, goal_cases)
  case (2 x n)
  then have p: "pendingRev \<noteq> - 1" "n = pendingRev + 1" "snp_ThreadID s \<noteq> ''''" "snp_ExecutionPointer s \<noteq> ''''" by simp_all
  have "n \<noteq> 0" "pendingRev \<le> n" using rev_succ_nonzero [OF p(1)] rev_succ_self [OF p(1)] p(2) by simp_all
  then show ?case
    using newHandoffIntent_eq(1) [OF p(3,4) assms(2)] by (simp add: returns_then returns_if returns_return)
qed (simp add: returns_return)

lemma publish_no_panic:
  assumes "saves_well r"
  shows "returns (\<lambda>out. out \<noteq> None) (publishHandoff r opts k current st meta effects revision reason ptr signal outbox)"
proof -
  have final: "returns (\<lambda>out. out \<noteq> None) (do { out \<leftarrow> m; ret (Some out) })" for m :: "('w, 'z) state"
    by (rule returns_then) (simp add: returns_return)
  have failed: "returns (\<lambda>out. out \<noteq> None) (failedHandoff r ptr st effects meta e msg)" for e msg
    unfolding failedHandoff_def by (intro returns_then returns_return) simp
  have dispatch: "returns (\<lambda>out. out \<noteq> None)
      (dispatchPersistedHandoffOutbox r k n p meta outbox ptr ptr st z)" if "n \<noteq> 0" "snp_ThreadID p = k" "snp_ExecutionPointer p = ptr" for n p z
    unfolding dispatchPersistedHandoffOutbox_def Let_def
    using fsm_no_panic [OF assms that(1), of p meta outbox "rst_Reason z", unfolded that(2,3)]
    by (rule returns_bind) (intro returns_rules; simp)
  show ?thesis unfolding publishHandoff_def Let_def
    apply (rule returns_then, rule returns_option)
     apply (rule returns_bind [OF persisted_bumps [OF assms]])
     apply (intro returns_prod returns_option returns_if final failed)
     apply (rule returns_bind [OF dispatch])
        apply (auto simp: rev_succ_nonzero)[3]
     apply (intro returns_option returns_sum final returns_return; simp)
    by (intro returns_sum final failed)
qed

lemma completeHandoff_no_panic:
  assumes "saves_well r"
  shows "returns (\<lambda>out. out \<noteq> None) (completeHandoffTerminal r opts k current st meta effects revision reason resumeAt signal)"
  unfolding completeHandoffTerminal_def Let_def
  by (intro returns_rules publish_no_panic assms) simp

lemma handleHandoff_no_panic:
  assumes "saves_well r"
  shows "returns (\<lambda>out. out \<noteq> None) (handleHandoff r opts k current st meta effects revision)"
  unfolding handleHandoff_def Let_def
  apply (rule returns_then, rule returns_sum)
   apply (intro returns_then returns_return; simp)
  apply (rule returns_then, rule returns_bind [OF completeHandoff_no_panic [OF assms]])
  by (auto intro: returns_return)

subsection \<open>Every iteration reports\<close>

definition stepReports :: "('t, 'h, 'r) Graph \<Rightarrow> bool \<Rightarrow> 'e list \<Rightarrow> RunMetadata \<Rightarrow> ('s, 'e) directiveStep \<Rightarrow> bool" where
  "stepReports g complete effects meta step \<longleftrightarrow> (if dst_terminal step then \<exists>y. dst_result step = Some y \<and> reports g complete effects meta (y, dst_err step)
     else isNode (gph_nodes g) (dst_nextNode step))"

lemma stepReports_simps [simp]:
  "stepReports g complete effects meta (terminalDirectiveStep (Some y) e) \<longleftrightarrow> reports g complete effects meta (y, e)"
  "stepReports g complete effects meta (continueDirectiveStep n) \<longleftrightarrow> isNode (gph_nodes g) n"
  by (auto simp: stepReports_def terminalDirectiveStep_def continueDirectiveStep_def)

lemma reports_failed: "about g effects meta y \<Longrightarrow> rst_Status y = RunStatusFailed \<Longrightarrow> reports g complete effects meta (y, Some e)"
  by (simp add: reports_def)

lemma reports_meta [simp]:
  "reports g complete effects (meta\<lparr>rmd_RetryCounts := c\<rparr>) out = reports g complete effects meta out"
  "reports g complete effects (endSegment reason now meta) out = reports g complete effects meta out"
  "reports g complete effects (meta\<lparr>rmd_TelemetryContext := t\<rparr>) out = reports g complete effects meta out"
  by (simp_all add: reports_def)

lemma terminalFail_reports:
  assumes "isNode (gph_nodes (grn_graph r)) current"
  shows "returns (stepReports (grn_graph r) True effects meta) (terminalFailDirectiveStep r current st meta effects e)"
  unfolding terminalFailDirectiveStep_def
  by (rule returns_then, rule returns_bind [OF failed_about [OF assms]]) (auto intro: returns_return reports_failed)

lemma fail_reports:
  assumes "isNode (gph_nodes (grn_graph r)) current"
  shows "returns (stepReports (grn_graph r) True effects meta) (applyDirectiveFail r current st meta effects base)"
  unfolding applyDirectiveFail_def
  by (rule returns_then, rule returns_bind [OF failed_about [OF assms]]) (auto intro!: returns_then returns_return reports_failed)

lemma finishCompleted_reports:
  assumes "isNode (gph_nodes (grn_graph r)) current"
  shows "returns (stepReports (grn_graph r) True effects meta) (finishCompleted r current st meta effects reason)"
  unfolding finishCompleted_def Let_def newRunResultCompleted_def
  by (intro returns_then returns_return) (use assms in \<open>auto simp: reports_def about_def newRunResult_def\<close>)

lemma suspend_reports:
  assumes "isNode (gph_nodes (grn_graph r)) current"
  shows "returns (stepReports (grn_graph r) True effects meta) (applyDirectiveSuspend r opts k current st meta effects revision base)"
proof -
  have failed: "returns (stepReports (grn_graph r) True effects meta)
      (do { failed \<leftarrow> newRunResultFailed r st effects (endSegment SegmentEndSuspend now (meta\<lparr>rmd_TelemetryContext := t\<rparr>)) ptr why;
            ret (terminalDirectiveStep (Some failed) (Some e)) })" if "isNode (gph_nodes (grn_graph r)) ptr" for now t ptr why e
    by (rule returns_bind [OF failed_about [OF that]]) (auto intro: returns_return reports_failed)
  show ?thesis
    unfolding applyDirectiveSuspend_def Let_def newRunResultSuspended_def
    apply (rule returns_then, rule returns_then, rule returns_option)
     apply (drule validPointer)
     apply (rule returns_then, intro returns_prod returns_option)
      apply (intro returns_then returns_return)
      apply (auto simp: reports_def about_def newRunResult_def)[1]
     apply (rule returns_then, rule failed, assumption)
    by (rule returns_then, rule failed [OF assms])
qed

lemma directiveHandoff_reports:
  assumes "isNode (gph_nodes (grn_graph r)) current" and "saves_well r"
  shows "returns (\<lambda>out. \<exists>step. out = Some step \<and> stepReports (grn_graph r) True effects meta step)
    (applyDirectiveHandoff r opts k current st meta effects revision base)"
proof -
  have "returns (\<lambda>out. \<exists>y. out = Some y \<and> reports (grn_graph r) False effects meta y)
      (completeHandoffTerminal r opts k current st meta effects revision reason resumeAt False)" for reason resumeAt
    by (rule returns_mono [OF returns_conj [OF completeHandoff_reports [OF assms(1)] completeHandoff_no_panic [OF assms(2)]]]) auto
  then show ?thesis unfolding applyDirectiveHandoff_def by (rule returns_bind) (auto simp: reports_def)
qed

lemma retry_reports:
  fixes r :: "('w, 't, 'a, 'e, 'x) graphRunner"
  assumes "isNode (gph_nodes (grn_graph r)) current" and "graph_ok (grn_graph r)"
  shows "returns (\<lambda>out. stepReports (grn_graph r) True effects meta (fst out)) (applyDirectiveRetry r current st meta effects base)"
proof -
  have failed: "returns (\<lambda>out. stepReports (grn_graph r) True effects meta (fst out))
      (do { out \<leftarrow> terminalFailDirectiveStep r current st m effects e; ret (out, c) })"
    if "stepReports (grn_graph r) True effects m = (stepReports (grn_graph r) True effects meta :: ('t, 'e) directiveStep \<Rightarrow> bool)" for m e c
    by (rule returns_bind [OF terminalFail_reports [OF assms(1)]]) (simp add: that returns_return)
  have m: "stepReports (grn_graph r) True effects (meta\<lparr>rmd_RetryCounts := c\<rparr>) = stepReports (grn_graph r) True effects meta"
    "stepReports (grn_graph r) True effects (endSegment reason now (meta\<lparr>rmd_RetryCounts := c\<rparr>)) = stepReports (grn_graph r) True effects meta" for c reason now
    by (simp_all add: stepReports_def fun_eq_iff)
  have route: "isNode (gph_nodes (grn_graph r)) fallback" if "lookup (gph_retryRoutes (grn_graph r)) current = Some fallback" for fallback
    using assms(2) that by (simp add: graph_ok_def)
  show ?thesis unfolding applyDirectiveRetry_def Let_def markSegmentFailed_def State_Monad.bind_assoc State_Monad.bind_left_identity
    apply (rule returns_if, rule failed [OF refl])
    apply (rule returns_if, rule returns_then, rule failed, rule m)
    by (rule returns_option, rule failed, rule m, rule returns_return) (use route in simp)
qed

lemma wait_reports:
  assumes "isNode (gph_nodes (grn_graph r)) current" and "grn_durable r = None"
  shows "returns (stepReports (grn_graph r) True effects meta) (applyDirectiveWait r k current st meta effects revision base)"
  unfolding applyDirectiveWait_def Let_def assms(2) option.case
  by (rule returns_bind [OF failed_about [OF assms(1)]]) (auto intro: returns_return reports_failed)

text \<open>The counters after a router was called at the counters \<open>b\<close>, or \<open>b\<close> if none was.\<close>

definition charged :: "('w, 't, 'a, 'e, 'x) graphRunner \<Rightarrow> counters \<Rightarrow> counters \<Rightarrow> bool" where
  "charged r b b' \<longleftrightarrow> b' = b \<or> (\<exists>k router st v w w'. lookup (gph_conditionalEdges (grn_graph r)) k = Some (Some router)
     \<and> run_state (router st b) w = ((v, b'), w'))"

lemma charged_refl [simp]: "charged r b b"
  by (simp add: charged_def)

lemma router_charges:
  "lookup (gph_conditionalEdges (grn_graph r)) current = Some (Some router) \<Longrightarrow> returns (\<lambda>(v, b'). charged r b b') (router st b)"
  unfolding charged_def by (intro returnsI) blast

lemma resolveEdge_node:
  assumes "graph_ok (grn_graph r)"
  shows "returns (\<lambda>out. \<exists>v b. out = Some (v, b) \<and> (\<forall>n. v = Ok n \<longrightarrow> n = EndNode \<or> isNode (gph_nodes (grn_graph r)) n) \<and> charged r budgets b)
    (resolveEdge r current st budgets)"
proof -
  have "returns (\<lambda>out. \<exists>v b. out = Some (v, b) \<and> (\<forall>n. v = Ok n \<longrightarrow> n = EndNode \<or> isNode (gph_nodes (grn_graph r)) n) \<and> charged r budgets b)
      (do { (routed, b) \<leftarrow> router st budgets;
            ret (Some (case routed of Inl e \<Rightarrow> Inl (Wrapped ''flowy: conditional edge'' [e])
             | Inr n \<Rightarrow>
                 if n = '''' then Inl (Plain ''flowy: conditional edge returned empty target'')
                 else if (case lookup (gph_conditionalAllowed (grn_graph r)) current of None \<Rightarrow> False | Some allowed \<Rightarrow> n \<notin> set allowed)
                 then Inl (Plain ''flowy: conditional edge returned undeclared target'')
                 else if n = EndNode then Ok n
                 else if lookup (gph_nodes (grn_graph r)) n = None then Inl (Plain ''flowy: conditional edge returned unknown node'')
                 else Ok n, b)) })"
    if "lookup (gph_conditionalEdges (grn_graph r)) current = Some (Some router)" for router
    by (rule returns_bind [OF router_charges [OF that]]) (auto intro!: returns_return split: sum.splits)
  then show ?thesis
    unfolding resolveEdge_def
    by (intro returns_option returns_return) (use assms in \<open>auto simp: graph_ok_def\<close>)
qed

lemma completed_reports:
  assumes "isNode (gph_nodes (grn_graph r)) current" and "graph_ok (grn_graph r)"
  shows "returns (\<lambda>out. \<exists>step m. out = Some (step, m) \<and> stepReports (grn_graph r) True effects m step
      \<and> rmd_StepCount m = rmd_StepCount meta \<and> charged r (rmd_BudgetCounts meta) (rmd_BudgetCounts m))
    (applyDirectiveCompleted r current st meta effects)"
  unfolding applyDirectiveCompleted_def Let_def
  apply (rule returns_bind [OF resolveEdge_node [OF assms(2)]], rule returns_option, simp)
  apply (rule returns_prod, rule returns_sum, rule returns_bind [OF terminalFail_reports [OF assms(1)]], rule returns_return, simp)
  by (rule returns_if, rule returns_bind [OF finishCompleted_reports [OF assms(1)]]) (auto intro: returns_return)

lemma applyDirective_reports:
  fixes r :: "('w, 't, 'a, 'e, 'x) graphRunner"
  assumes "isNode (gph_nodes (grn_graph r)) current" and "graph_ok (grn_graph r)" and "grn_durable r = None" and "saves_well r"
  shows "returns (\<lambda>out. \<exists>step m. out = Some (step, m) \<and> stepReports (grn_graph r) True effects m step
      \<and> rmd_StepCount m = rmd_StepCount meta \<and> charged r (rmd_BudgetCounts meta) (rmd_BudgetCounts m))
    (applyDirective r opts k current st meta effects revision base)"
proof -
  let ?Q = "\<lambda>out. \<exists>step m. out = Some (step, m) \<and> stepReports (grn_graph r) True effects m step
      \<and> rmd_StepCount m = rmd_StepCount meta \<and> charged r (rmd_BudgetCounts meta) (rmd_BudgetCounts m)"
  have keep: "returns ?Q (do { out \<leftarrow> m; ret (Some (out, meta)) })" if "returns (stepReports (grn_graph r) True effects meta) m" for m
    by (rule returns_bind [OF that]) (simp add: returns_return)
  have keepOption: "returns ?Q (do { out \<leftarrow> m; ret (map_option (\<lambda>s. (s, meta)) out) })"
    if "returns (\<lambda>out. \<exists>step. out = Some step \<and> stepReports (grn_graph r) True effects meta step) m" for m
    by (rule returns_bind [OF that]) (auto intro: returns_return)
  have retry: "returns ?Q (do { (out, retries) \<leftarrow> applyDirectiveRetry r current st meta effects base;
      ret (Some (out, meta\<lparr>rmd_RetryCounts := retries\<rparr>)) })"
  proof (rule returns_bind [OF retry_reports [OF assms(1,2)]], rule returns_prod, rule returns_return)
    fix out retries and x :: "('t, 'e) directiveStep \<times> counters"
    assume "stepReports (grn_graph r) True effects meta (fst x)" "x = (out, retries)"
    then show "?Q (Some (out, meta\<lparr>rmd_RetryCounts := retries\<rparr>))" by (simp add: stepReports_def)
  qed
  note rules = keep [OF wait_reports [OF assms(1,3)]] completed_reports [OF assms(1,2)] keep [OF terminalFail_reports [OF assms(1)]]
    keep [OF finishCompleted_reports [OF assms(1)]] keep [OF suspend_reports [OF assms(1)]] keepOption [OF directiveHandoff_reports [OF assms(1,4)]]
    retry keep [OF fail_reports [OF assms(1)]]
  show ?thesis unfolding applyDirective_def Let_def by (cases "dir_kind base"; simp only: directiveKind.case; rule rules)
qed

text \<open>The report of a whole run that started at \<open>s0\<close>, and what one iteration keeps.\<close>

abbreviation budgetsOK :: "('t, 'h, 'r) Graph \<Rightarrow> RunMetadata \<Rightarrow> bool" where
  "budgetsOK g meta \<equiv> checkBudgetLimits meta (rcf_budgetLimits (gph_defaults g)) = None"

definition checkedBudgets :: "('w, 't, 'a, 'e, 'x) graphRunner \<Rightarrow> RunMetadata \<Rightarrow> bool" where
  "checkedBudgets r meta \<longleftrightarrow> (\<exists>checked. budgetsOK (grn_graph r) (meta\<lparr>rmd_BudgetCounts := checked\<rparr>) \<and> charged r checked (rmd_BudgetCounts meta))"

definition within :: "('w, 't, 'a, 'e, 'x) graphRunner \<Rightarrow> ('t, 'e) loopState \<Rightarrow> 'e list \<Rightarrow> RunMetadata \<Rightarrow> bool" where
  "within r s0 effects meta \<longleftrightarrow> (\<exists>more. effects = lps_effects s0 @ more) \<and> rmd_StepCount (lps_meta s0) \<le> rmd_StepCount meta
     \<and> rmd_StepCount meta \<le> max (stepLimit r) (rmd_StepCount (lps_meta s0))"

definition runReport :: "('w, 't, 'a, 'e, 'x) graphRunner \<Rightarrow> ('t, 'e) loopState \<Rightarrow> ('t, 'e) outcome \<Rightarrow> bool" where
  "runReport r s0 out \<longleftrightarrow> (\<exists>result. fst out = Some result \<and> isNode (gph_nodes (grn_graph r)) (rst_ExecutionPointer result)
     \<and> within r s0 (rst_Effects result) (rst_RunMeta result) \<and> honest (rst_Status result) (snd out)
     \<and> (rst_Status result = RunStatusCompleted \<longrightarrow> checkedBudgets r (rst_RunMeta result)))"

definition iterationOK :: "('w, 't, 'a, 'e, 'x) graphRunner \<Rightarrow> ('t, 'e) loopState \<Rightarrow> ('t, 'e) iteration \<Rightarrow> bool" where
  "iterationOK r s0 it \<longleftrightarrow> (case it of Panicked \<Rightarrow> False | Finished out \<Rightarrow> runReport r s0 out
     | Continue s \<Rightarrow> isNode (gph_nodes (grn_graph r)) (lps_current s) \<and> within r s0 (lps_effects s) (lps_meta s))"

lemma budgets_cong: "rmd_BudgetCounts m = rmd_BudgetCounts m' \<Longrightarrow> checkBudgetLimits m limits = checkBudgetLimits m' limits"
  by (simp add: checkBudgetLimits_def cong: if_cong)

text \<open>Without routers that charge, the counters are those that were checked.\<close>

lemma uncharged_budgets:
  assumes "checkedBudgets r m"
    and "\<forall>k router st b v. lookup (gph_conditionalEdges (grn_graph r)) k = Some (Some router) \<longrightarrow> snd (fst (run_state (router st b) v)) = b"
  shows "budgetsOK (grn_graph r) m"
proof -
  from assms(1) obtain checked where c: "budgetsOK (grn_graph r) (m\<lparr>rmd_BudgetCounts := checked\<rparr>)" "charged r checked (rmd_BudgetCounts m)"
    by (auto simp: checkedBudgets_def)
  from c(2) assms(2) have "rmd_BudgetCounts m = checked" unfolding charged_def by (metis fst_conv snd_conv)
  with c(1) budgets_cong [of "m\<lparr>rmd_BudgetCounts := checked\<rparr>" m] show ?thesis by simp
qed

lemma iterationOK_Finished:
  assumes "within r s0 effects meta" and "reports (grn_graph r) complete effects meta (y, e)" and "complete \<Longrightarrow> checkedBudgets r meta"
  shows "iterationOK r s0 (Finished (Some y, e))"
proof -
  have "checkedBudgets r (rst_RunMeta y)" if "checkedBudgets r meta" "rmd_BudgetCounts (rst_RunMeta y) = rmd_BudgetCounts meta"
    using that budgets_cong [of "(rst_RunMeta y)\<lparr>rmd_BudgetCounts := checked\<rparr>" "meta\<lparr>rmd_BudgetCounts := checked\<rparr>" for checked]
    by (simp add: checkedBudgets_def)
  then show ?thesis using assms by (auto simp: iterationOK_def runReport_def reports_def about_def within_def)
qed

text \<open>The runner of an ordinary run on a compiled graph with a checkpointer that keeps its contract.\<close>

definition runnable :: "('w, 't, 'a, 'e, 'x) graphRunner \<Rightarrow> bool" where
  "runnable r \<longleftrightarrow> graph_ok (grn_graph r) \<and> grn_durable r = None \<and> saves_well r"

lemma runnableD: "runnable r \<Longrightarrow> graph_ok (grn_graph r)" "runnable r \<Longrightarrow> grn_durable r = None" "runnable r \<Longrightarrow> saves_well r"
  by (simp_all add: runnable_def)

lemma failRun_OK:
  assumes "isNode (gph_nodes (grn_graph r)) current" and "within r s0 effects meta"
  shows "returns (iterationOK r s0) (failRun r current st meta effects e)"
  unfolding failRun_def markSegmentFailed_def State_Monad.bind_assoc State_Monad.bind_left_identity
  apply (rule returns_then, rule returns_then, rule returns_bind [OF failed_about [OF assms(1)]])
  using assms(2) by (auto intro!: iterationOK_Finished [of _ _ _ _ False] simp: reports_def)

lemma handoff_OK:
  assumes "runnable r" and "isNode (gph_nodes (grn_graph r)) current" and "within r s0 effects meta"
  shows "returns (\<lambda>out. iterationOK r s0 (handedOff out)) (handleHandoff r opts k current st meta effects revision)"
  by (rule returns_mono [OF returns_conj [OF handoff_reports [OF assms(2) runnableD(2) [OF assms(1)]] handleHandoff_no_panic [OF runnableD(3) [OF assms(1)]]]])
    (use assms(3) in \<open>auto simp: handedOff_def intro!: iterationOK_Finished\<close>)

lemma cancellation_OK:
  assumes "runnable r" and "isNode (gph_nodes (grn_graph r)) current" and "within r s0 effects meta"
  shows "returns (\<lambda>out. iterationOK r s0 (Finished out)) (handleContextCancellation r opts k current st meta effects revision e closed)"
  by (rule returns_mono [OF cancellation_reports [OF assms(2) runnableD(2) [OF assms(1)]]])
    (use assms(3) in \<open>auto intro!: iterationOK_Finished\<close>)

lemma interrupted_OK:
  assumes "runnable r" and "isNode (gph_nodes (grn_graph r)) current" and "within r s0 effects meta"
  shows "returns (\<lambda>out. \<forall>it. out = Some it \<longrightarrow> iterationOK r s0 it) (checkInterrupted r opts k current st meta effects revision)"
  unfolding checkInterrupted_def
  apply (rule returns_then, rule returns_if, rule returns_bind [OF handoff_OK [OF assms]], simp)
  apply (rule returns_then, rule returns_if, rule returns_bind [OF failRun_OK [OF assms(2,3)]], simp)
  apply (rule returns_then, rule returns_option, simp)
  by (rule returns_then, rule returns_bind [OF cancellation_OK [OF assms]]) simp

lemma stepFailed_OK:
  assumes "runnable r" and "isNode (gph_nodes (grn_graph r)) current" and "within r s0 (nso_effects step) (nso_meta step)"
  shows "returns (iterationOK r s0) (stepFailed r opts k current step revision e)"
  unfolding stepFailed_def
  apply (rule returns_then, rule returns_if, rule failRun_OK [OF assms(2,3)])
  apply (rule returns_then, rule returns_option)
   apply (rule returns_bind [OF failed_about [OF assms(2)]])
   apply (use assms(3) in \<open>auto intro!: iterationOK_Finished [of _ _ _ _ False] simp: reports_def\<close>)[1]
  apply (rule returns_then, rule returns_if, rule returns_bind [OF handoff_OK [OF assms]], simp)
  by (rule returns_then, rule returns_bind [OF cancellation_OK [OF assms]]) simp

lemma stepCanceled_OK:
  assumes "runnable r" and "isNode (gph_nodes (grn_graph r)) current" and "within r s0 (nso_effects step) (nso_meta step)"
  shows "returns (iterationOK r s0) (stepCanceled r opts k current step revision)"
  unfolding stepCanceled_def
  apply (rule returns_then, rule returns_if, rule returns_bind [OF handoff_OK [OF assms]], simp)
  apply (rule returns_then, rule returns_if, rule failRun_OK [OF assms(2,3)])
  by (rule returns_bind [OF cancellation_OK [OF assms]]) simp

lemma finishStep_OK:
  assumes "runnable r" and "isNode (gph_nodes (grn_graph r)) current" and "within r s0 (nso_effects step) (nso_meta step)"
    and "budgetsOK (grn_graph r) (nso_meta step)"
  shows "returns (iterationOK r s0) (finishStep r opts k current step revision)"
proof -
  have out: "iterationOK r s0 (if dst_terminal stepOut then Finished (dst_result stepOut, dst_err stepOut)
      else Continue \<lparr>lps_current = dst_nextNode stepOut, lps_state = nso_state step, lps_meta = m, lps_effects = nso_effects step, lps_revision = revision\<rparr>)"
    if "stepReports (grn_graph r) True (nso_effects step) m stepOut" "rmd_StepCount m = rmd_StepCount (nso_meta step)"
      "charged r (rmd_BudgetCounts (nso_meta step)) (rmd_BudgetCounts m)" for stepOut m
  proof -
    have w: "within r s0 (nso_effects step) m" using assms(3) that(2) by (simp add: within_def)
    have c: "checkedBudgets r m"
      using that(3) assms(4) budgets_cong [of "m\<lparr>rmd_BudgetCounts := rmd_BudgetCounts (nso_meta step)\<rparr>" "nso_meta step"]
      unfolding checkedBudgets_def by (intro exI [of _ "rmd_BudgetCounts (nso_meta step)"]) simp
    show ?thesis
    proof (cases "dst_terminal stepOut")
      case True
      with that(1) obtain y where "dst_result stepOut = Some y" "reports (grn_graph r) True (nso_effects step) m (y, dst_err stepOut)"
        by (auto simp: stepReports_def)
      with True iterationOK_Finished [OF w _ c] show ?thesis by simp
    qed (use that(1) w in \<open>simp add: stepReports_def iterationOK_def\<close>)
  qed
  show ?thesis
    unfolding finishStep_def Let_def runnableD(2) [OF assms(1)] option.case
    by (rule returns_bind [OF applyDirective_reports [OF assms(2) runnableD [OF assms(1)]]])
      (elim exE conjE, simp only: option.case prod.case, intro returns_return out)
qed

lemma runNodeStep_within:
  assumes "graph_ok (grn_graph r)" and "isNode (gph_nodes (grn_graph r)) current"
  shows "returns (\<lambda>out. \<exists>step e more. out = Some (step, e) \<and> nso_effects step = effects @ more
      \<and> rmd_StepCount meta \<le> rmd_StepCount (nso_meta step) \<and> rmd_StepCount (nso_meta step) \<le> rmd_StepCount meta + 1)
    (runNodeStep r opts current st meta effects)"
  unfolding runNodeStep_def failStep_def Let_def prod.case
  by (intro returns_rules) (use assms in \<open>auto simp: graph_ok_def\<close>)

lemma executeIteration_OK:
  assumes "runnable r" and "isNode (gph_nodes (grn_graph r)) (lps_current s)" and "within r s0 (lps_effects s) (lps_meta s)"
  shows "returns (iterationOK r s0) (executeIteration r opts k s)"
proof -
  have stepped: "returns (iterationOK r s0) (case stepped of None \<Rightarrow> ret Panicked
      | Some (step, Some stepErr) \<Rightarrow> stepFailed r opts k (lps_current s) step (lps_revision s) stepErr
      | Some (step, None) \<Rightarrow> if nso_emitCanceled step then stepCanceled r opts k (lps_current s) step (lps_revision s)
          else afterStep r opts k (lps_current s) step (lps_revision s))"
    if out: "\<exists>step e more. stepped = Some (step, e) \<and> nso_effects step = lps_effects s @ more
      \<and> rmd_StepCount (lps_meta s) \<le> rmd_StepCount (nso_meta step) \<and> rmd_StepCount (nso_meta step) \<le> rmd_StepCount (lps_meta s) + 1"
      and below: "rmd_StepCount (lps_meta s) < stepLimit r" for stepped :: "(('b, 'c, 'd) nodeStepOutcome \<times> err option) option"
  proof -
    from out obtain step e where s: "stepped = Some (step, e)" and w: "within r s0 (nso_effects step) (nso_meta step)"
      using below assms(3) by (auto simp: within_def)
    note ok = assms(1,2) w
    have after: "returns (iterationOK r s0) (afterStep r opts k (lps_current s) step (lps_revision s))"
      unfolding afterStep_def
      by (rule returns_bind [OF interrupted_OK [OF ok]])
        (intro returns_option returns_return returns_then returns_if failRun_OK [OF ok(2,3)] finishStep_OK [OF ok]; simp)
    show ?thesis unfolding s option.case prod.case
      by (intro returns_option returns_if stepFailed_OK [OF ok] stepCanceled_OK [OF ok] after)
  qed
  show ?thesis
    unfolding executeIteration_def Let_def
    apply (rule returns_bind [OF interrupted_OK [OF assms]], rule returns_option)
     apply (rule returns_if, rule failRun_OK [OF assms(2,3)])
     apply (rule returns_bind [OF runNodeStep_within [OF runnableD(1) [OF assms(1)] assms(2)]])
     apply (rule stepped; simp)
    by simp
qed

lemma executeLoop_OK:
  assumes "runnable r" and "isNode (gph_nodes (grn_graph r)) (lps_current s)" and "within r s0 (lps_effects s) (lps_meta s)"
  shows "\<exists>out w'. executeLoop r opts k s w = (Some out, w') \<and> runReport r s0 out"
  using assms
proof (induction r opts k s w rule: executeLoop.induct)
  case (1 r opts k s w)
  obtain it w' where it: "run_state (executeIteration r opts k s) w = (it, w')" by force
  note ok = returnsD [OF executeIteration_OK [OF 1(2-4)] it]
  show ?case
  proof (cases it)
    case (Continue s')
    with ok have "isNode (gph_nodes (grn_graph r)) (lps_current s')" "within r s0 (lps_effects s') (lps_meta s')"
      by (simp_all add: iterationOK_def)
    with 1(1) [OF it [symmetric] Continue 1(2)] show ?thesis by (simp add: executeLoop.simps it Continue)
  qed (use ok it in \<open>simp_all add: executeLoop.simps iterationOK_def\<close>)
qed

lemma compiled_ok:
  assumes "Compile text options (declared reducer calls) = Inr g" and "\<forall>name h. lookup (gph_nodes g) name = Some h \<longrightarrow> h \<noteq> None"
  shows "graph_ok g"
proof -
  have g: "g = buildGraph (declared reducer calls) (applyBuildOptions options)" "wf_builder (declared reducer calls)"
    using assms(1) collect_Nil_iff [OF declared_maps_ok, of reducer calls] by (auto simp: Compile_def Let_def split: if_splits)
  show ?thesis
    unfolding g(1) by (rule buildGraph_ok [OF declared_maps_ok g(2)]) (use assms(2) [unfolded g(1)] in \<open>auto simp del: not_None_eq\<close>)
qed

text \<open>
  C28. A run of a compiled graph always ends and reports what happened. On every
  compiled graph whose middlewares left no node without a handler, with any
  handlers, routers, reducers, event sinks and context
  events, without a durable engine, and with no checkpointer or one that increments
  revisions, the run loop started at a registered node within its step limit returns
  without a panic; its result points to a registered node, keeps the effects it
  started with as a prefix in order, has counted its steps within the limit, is
  complete only without an error, and a failed or cancelled result always carries an
  error. A complete run was within every named budget when its last step was
  checked; what its counters show beyond that was charged by the router that was
  called after the check, so with routers that charge nothing a complete run is
  within every budget.
\<close>

theorem run_loop_reports:
  assumes "Compile text options (declared reducer calls) = Inr (grn_graph r)" and "grn_durable r = None"
    and "case grn_checkpointer r of None \<Rightarrow> True | Some cp \<Rightarrow> save_bumps cp"
    and "isNode (gph_nodes (grn_graph r)) (lps_current s)" and "rmd_StepCount (lps_meta s) \<le> stepLimit r"
    and "\<forall>name h. lookup (gph_nodes (grn_graph r)) name = Some h \<longrightarrow> h \<noteq> None"
  shows "\<exists>result e w'. executeLoop r opts threadID s w = (Some (Some result, e), w')
    \<and> isNode (gph_nodes (grn_graph r)) (rst_ExecutionPointer result)
    \<and> (\<exists>more. rst_Effects result = lps_effects s @ more)
    \<and> rmd_StepCount (lps_meta s) \<le> rmd_StepCount (rst_RunMeta result) \<and> rmd_StepCount (rst_RunMeta result) \<le> stepLimit r
    \<and> (rst_Status result = RunStatusCompleted \<longrightarrow> e = None
         \<and> (\<exists>checked. checkBudgetLimits ((rst_RunMeta result)\<lparr>rmd_BudgetCounts := checked\<rparr>) (rcf_budgetLimits (gph_defaults (grn_graph r))) = None
              \<and> charged r checked (rmd_BudgetCounts (rst_RunMeta result))))
    \<and> (rst_Status result = RunStatusCompleted
         \<and> (\<forall>k router st b v. lookup (gph_conditionalEdges (grn_graph r)) k = Some (Some router) \<longrightarrow> snd (fst (run_state (router st b) v)) = b)
         \<longrightarrow> checkBudgetLimits (rst_RunMeta result) (rcf_budgetLimits (gph_defaults (grn_graph r))) = None)
    \<and> (rst_Status result = RunStatusFailed \<or> rst_Status result = RunStatusContextCanceled \<longrightarrow> e \<noteq> None)"
proof -
  have "runnable r" using compiled_ok [OF assms(1,6)] assms(2,3) by (simp add: runnable_def)
  moreover have "within r s (lps_effects s) (lps_meta s)" by (simp add: within_def)
  ultimately obtain out w' where "executeLoop r opts threadID s w = (Some out, w')" "runReport r s out"
    using executeLoop_OK [of r s s opts threadID w] assms(4) by blast
  moreover have "checkBudgetLimits m (rcf_budgetLimits (gph_defaults (grn_graph r))) = None"
    if "checkedBudgets r m"
      and "\<forall>k router st b v. lookup (gph_conditionalEdges (grn_graph r)) k = Some (Some router) \<longrightarrow> snd (fst (run_state (router st b) v)) = b" for m
    by (rule uncharged_budgets [OF that])
  ultimately show ?thesis using assms(5)
    by (cases out) (auto simp: runReport_def within_def honest_def checkedBudgets_def [symmetric])
qed

lemma memory_bumps: "save_bumps (memoryCheckpointer zero)"
  unfolding save_bumps_def by (auto intro!: returnsI dest!: memory.save_Ok)

definition sampleLoop :: "(nat, nat) loopState" where
  "sampleLoop = \<lparr>lps_current = ''n'', lps_state = 4, lps_meta = emptyRunMeta, lps_effects = [], lps_revision = 0\<rparr>"

lemma sampleGraph_compiled: "Compile text [WithMaxSteps 3, WithRetentionLimit 2] (declared (Some (\<lambda>old new. old + new))
     [CallAddNode ''n'' (Some (\<lambda>st budget. ret ((1, Completed, None), budget))), CallAddEdge ''n'' EndNode, CallSetEntryPoint ''n'']) = Inr sampleGraph"
  by (simp add: declared_def builder_defs Compile_def collectCompileErrors_def validateOverwriteConflicts_def validateTopology_def
      validateReferences_def validateHandlers_def validateRoutingConflicts_def validateOutgoingRoutes_def validateConditionalAllowedTargets_def
      validateRetryRoutes_def validateNoOutgoingRouteMisuse_def validateNoOutgoingRouteReferences_def validateRetryRouteExemptions_def
      referenced_def mark_def buildGraph_def copyNodeDefs_def wrapNodeWithMiddlewares_def sampleGraph_def EndNode_def)

lemma sample_run: "executeLoop sampleRunner sampleOptions ''t'' sampleLoop \<lparr>mw_history = [], mw_rest = []\<rparr>
   = (Some (Some (newRunResultCompleted 5 [] (endSegment SegmentEndComplete 5 (emptyRunMeta\<lparr>rmd_StepCount := 1\<rparr>)) ''n''), None),
      \<lparr>mw_history = [], mw_rest = []\<rparr>)"
  by (subst executeLoop.simps) (simp add: executeIteration_def checkInterrupted_def causeIs_def stepLimit_def runNodeStep_def afterStep_def finishStep_def
      applyDirective_def applyDirectiveCompleted_def resolveEdge_def finishCompleted_def emitTerminalEvent_def emitEvent_def sampleRunner_def sampleLoop_def
      sampleOptions_def sampleGraph_def applyBuildOptions_def WithMaxSteps_def WithRetentionLimit_def run_state_bind Let_def UnwrapDirective_def Completed_def
      directiveWithKind_def checkBudgetLimits_def emptyRunMeta_def blankNodeStepOutcome_def terminalDirectiveStep_def newRunResultCompleted_def
      newRunResult_def endSegment_def)

theorem run_loop_reports_witness:
  "\<exists>result w'. executeLoop sampleRunner sampleOptions ''t'' sampleLoop \<lparr>mw_history = [], mw_rest = []\<rparr> = (Some (Some result, None), w')
     \<and> rst_Status result = RunStatusCompleted \<and> rst_ExecutionPointer result = ''n'' \<and> rmd_StepCount (rst_RunMeta result) \<le> stepLimit sampleRunner"
proof -
  have "Compile (\<lambda>_. '''') [WithMaxSteps 3, WithRetentionLimit 2] (declared (Some (\<lambda>old new. old + new))
     [CallAddNode ''n'' (Some (\<lambda>st budget. ret ((1, Completed, None), budget))), CallAddEdge ''n'' EndNode, CallSetEntryPoint ''n'']) = Inr (grn_graph sampleRunner)"
    using sampleGraph_compiled by (simp add: sampleRunner_fields)
  from run_loop_reports [OF this, of sampleLoop sampleOptions "''t''" "\<lparr>mw_history = [], mw_rest = []\<rparr>"]
  show ?thesis unfolding sample_run
    by (auto simp: sampleRunner_def memory_bumps sampleGraph_def sampleLoop_def emptyRunMeta_def stepLimit_def applyBuildOptions_def WithMaxSteps_def
        WithRetentionLimit_def Let_def newRunResultCompleted_def newRunResult_def endSegment_def)
qed

end
