(* ===== verification/Lease_Manager.thy ===== *)
theory Lease_Manager
  imports Runner_Execution Execution_Lifecycle Store_Contracts
begin

text \<open>
  Leases of the ordinary runner: the in-memory lease manager of lease.go, the
  heartbeat cadence of runner\_events.go, and how runner\_sessions.go acquires and
  releases a lease around a run. \<open>IsHeld\<close> and \<open>Holder\<close> read, the other operations are
  one step each because the manager holds its mutex.
\<close>

section \<open>The in-memory lease manager\<close>

record leaseRecord =
  lrd_owner :: string
  lrd_expiresAt :: gotime
  lrd_incarnation :: uint64

record MemoryLeaseManager =
  mlm_leases :: "(string, leaseRecord) gomap"
  mlm_fences :: "(string, uint64) gomap"

definition NewMemoryLeaseManager :: MemoryLeaseManager where
  "NewMemoryLeaseManager = \<lparr>mlm_leases = [], mlm_fences = []\<rparr>"

definition fenceAt :: "MemoryLeaseManager \<Rightarrow> string \<Rightarrow> uint64" where
  "fenceAt m k = (case lookup (mlm_fences m) k of None \<Rightarrow> 0 | Some n \<Rightarrow> n)"

definition grantLease :: "gotime \<Rightarrow> string \<Rightarrow> string \<Rightarrow> duration \<Rightarrow> MemoryLeaseManager \<Rightarrow> ExecutionLease res \<times> MemoryLeaseManager" where
  "grantLease now threadID owner ttl m =
    (if fenceAt m threadID = - 1 then (Err ErrExecutionCapability, m)
     else let incarnation = fenceAt m threadID + 1 in
       (Ok \<lparr>lse_ExecutionID = threadID, lse_Owner = owner, lse_Incarnation = incarnation, lse_ExpiresAt = now + ttl\<rparr>,
        m\<lparr>mlm_fences := put threadID incarnation (mlm_fences m),
          mlm_leases := put threadID \<lparr>lrd_owner = owner, lrd_expiresAt = now + ttl, lrd_incarnation = incarnation\<rparr> (mlm_leases m)\<rparr>))"

definition leaseAcquire :: "gotime \<Rightarrow> string \<Rightarrow> string \<Rightarrow> duration \<Rightarrow> MemoryLeaseManager \<Rightarrow> ExecutionLease res \<times> MemoryLeaseManager" where
  "leaseAcquire now threadID owner ttl m =
    (if threadID = '''' \<or> owner = '''' then (Inl (Plain ''flowy: lease acquire requires threadID and owner''), m)
     else if ttl \<le> 0 then (Inl (Plain ''flowy: lease ttl must be positive''), m)
     else case lookup (mlm_leases m) threadID of
       Some rec \<Rightarrow>
         if lrd_expiresAt rec > now
         then (if lrd_owner rec \<noteq> owner then (Inl (Wrapped ''owner'' [Sent ErrLeaseHeld]), m) else (Inl (Wrapped ''owner'' [Sent ErrThreadLeaseBusy]), m))
         else grantLease now threadID owner ttl m
     | None \<Rightarrow> grantLease now threadID owner ttl m)"

definition leaseRenew :: "gotime \<Rightarrow> ExecutionLease \<Rightarrow> duration \<Rightarrow> MemoryLeaseManager \<Rightarrow> ExecutionLease res \<times> MemoryLeaseManager" where
  "leaseRenew now lease ttl m =
    (if lse_ExecutionID lease = '''' \<or> lse_Owner lease = '''' \<or> lse_Incarnation lease = 0 \<or> ttl \<le> 0 then (Err ErrLeaseLost, m)
     else case lookup (mlm_leases m) (lse_ExecutionID lease) of
       None \<Rightarrow> (Err ErrLeaseLost, m)
     | Some rec \<Rightarrow>
         if lrd_expiresAt rec \<le> now \<or> lrd_owner rec \<noteq> lse_Owner lease \<or> lrd_incarnation rec \<noteq> lse_Incarnation lease then (Err ErrLeaseLost, m)
         else (Ok (lease\<lparr>lse_ExpiresAt := now + ttl\<rparr>), m\<lparr>mlm_leases := put (lse_ExecutionID lease) (rec\<lparr>lrd_expiresAt := now + ttl\<rparr>) (mlm_leases m)\<rparr>))"

definition leaseHolder :: "gotime \<Rightarrow> string \<Rightarrow> MemoryLeaseManager \<Rightarrow> string \<times> bool" where
  "leaseHolder now threadID m = (case lookup (mlm_leases m) threadID of
     None \<Rightarrow> ('''', False) | Some rec \<Rightarrow> if lrd_expiresAt rec > now then (lrd_owner rec, True) else ('''', False))"

definition leaseIsHeld :: "gotime \<Rightarrow> string \<Rightarrow> MemoryLeaseManager \<Rightarrow> bool" where
  "leaseIsHeld now threadID m = snd (leaseHolder now threadID m)"

definition leaseRelease :: "ExecutionLease \<Rightarrow> MemoryLeaseManager \<Rightarrow> err option \<times> MemoryLeaseManager" where
  "leaseRelease lease m =
    (if lse_ExecutionID lease = '''' \<or> lse_Owner lease = '''' \<or> lse_Incarnation lease = 0 then (Some (Sent ErrLeaseLost), m)
     else case lookup (mlm_leases m) (lse_ExecutionID lease) of
       None \<Rightarrow> (None, m)
     | Some rec \<Rightarrow>
         if lrd_owner rec \<noteq> lse_Owner lease \<or> lrd_incarnation rec \<noteq> lse_Incarnation lease then (Some (Sent ErrLeaseLost), m)
         else (None, m\<lparr>mlm_leases := AList.delete (lse_ExecutionID lease) (mlm_leases m)\<rparr>))"

section \<open>Leases around a run\<close>

definition defaultLeaseTTL :: duration where
  "defaultLeaseTTL = 30000000000"

definition leaseHeartbeatInterval :: "duration \<Rightarrow> duration" where
  "leaseHeartbeatInterval ttl0 =
    (let ttl = (if ttl0 \<le> 0 then defaultLeaseTTL else ttl0);
         interval = goquot ttl 3;
         maxInterval = goquot ttl 2;
         i1 = (if interval > maxInterval then maxInterval else interval);
         i2 = (if i1 \<le> 0 then maxInterval else i1) in
     if i2 \<le> 0 then 1000000 else i2)"

definition leaseTTL :: "duration \<Rightarrow> duration" where
  "leaseTTL ttl = (if ttl \<le> 0 then defaultLeaseTTL else ttl)"

text \<open>The interface \<open>LeaseManager\<close> as the runner uses it.\<close>

record 'w LeaseManager =
  lmg_Acquire :: "string \<Rightarrow> string \<Rightarrow> duration \<Rightarrow> ('w, ExecutionLease res) state"
  lmg_Renew :: "ExecutionLease \<Rightarrow> duration \<Rightarrow> ('w, ExecutionLease res) state"
  lmg_Release :: "ExecutionLease \<Rightarrow> ('w, err option) state"
  lmg_Holder :: "string \<Rightarrow> ('w, (string \<times> bool) res) state"

text \<open>
  \<open>acquireLease\<close>: the manager of the runner (\<open>unpaired\<close>: the checkpointer deletes
  natively and the manager is not its pair), the owner and TTL of the invocation. The
  result is the lease that the invocation carries.
\<close>

definition acquireLease :: "'w LeaseManager option \<Rightarrow> bool \<Rightarrow> string \<Rightarrow> duration \<Rightarrow> string \<Rightarrow> ('w, ExecutionLease option res) state" where
  "acquireLease manager unpaired owner ttl threadID = (case manager of
     None \<Rightarrow> ret (if owner \<noteq> '''' then Err ErrExecutionCapability else Ok None)
   | Some lm \<Rightarrow>
       if unpaired then ret (Inl (Plain ''flowy: native DeleteIfIdle checkpointer requires paired native adapters/lease manager''))
       else if owner = '''' then ret (Err (Also ErrLeaseOwnerRequired))
       else do {
         acquired \<leftarrow> lmg_Acquire lm threadID owner (leaseTTL ttl);
         ret (case acquired of
             Inl e \<Rightarrow> Inl e
           | Inr lease \<Rightarrow>
               if lse_ExecutionID lease \<noteq> threadID \<or> lse_Owner lease \<noteq> owner \<or> lse_Incarnation lease = 0 then Err ErrExecutionCapability
               else Ok (Some lease))
       })"

definition releaseLease :: "'w LeaseManager option \<Rightarrow> string \<Rightarrow> string \<Rightarrow> ExecutionLease option \<Rightarrow> ('w, err option) state" where
  "releaseLease manager owner threadID lease = (case manager of
     None \<Rightarrow> ret None
   | Some lm \<Rightarrow>
       if owner = '''' then ret None
       else case lease of
         None \<Rightarrow> ret (Some (Sent ErrLeaseLost))
       | Some l \<Rightarrow> if lse_ExecutionID l \<noteq> threadID then ret (Some (Sent ErrLeaseLost)) else lmg_Release lm l)"

text \<open>The guard of checkpointer\_lease\_guard.go: deletion is refused while the thread is leased.\<close>

definition guardedDeleteIfIdle :: "'w LeaseManager \<Rightarrow> ('w, 't, 'e, 'x) Checkpointer \<Rightarrow> string \<Rightarrow> ('w, err option) state" where
  "guardedDeleteIfIdle lm cp threadID = do {
     holder \<leftarrow> lmg_Holder lm threadID;
     case holder of
       Inl e \<Rightarrow> ret (Some e)
     | Inr (_, held) \<Rightarrow> if held then ret (Some (Sent ErrThreadLeaseBusy)) else ckp_DeleteIfIdle cp threadID
   }"

definition leaseGuardCheckpointer :: "'w LeaseManager \<Rightarrow> ('w, 't, 'e, 'x) Checkpointer \<Rightarrow> ('w, 't, 'e, 'x) Checkpointer" where
  "leaseGuardCheckpointer lm cp = cp\<lparr>ckp_DeleteIfIdle := guardedDeleteIfIdle lm cp\<rparr>"

section \<open>Properties\<close>

inductive lease_step :: "MemoryLeaseManager \<Rightarrow> MemoryLeaseManager \<Rightarrow> bool" where
  acquire: "leaseAcquire now k owner ttl m = (x, m') \<Longrightarrow> lease_step m m'"
| renew: "leaseRenew now lease ttl m = (x, m') \<Longrightarrow> lease_step m m'"
| release: "leaseRelease lease m = (e, m') \<Longrightarrow> lease_step m m'"

definition leases_ok :: "MemoryLeaseManager \<Rightarrow> bool" where
  "leases_ok m \<longleftrightarrow> (\<forall>k rec. lookup (mlm_leases m) k = Some rec \<longrightarrow> lrd_incarnation rec = fenceAt m k)"

definition grantedLease :: "MemoryLeaseManager \<Rightarrow> string \<Rightarrow> uint64 \<Rightarrow> bool" where
  "grantedLease m k i \<longleftrightarrow> (\<exists>rec. lookup (mlm_leases m) k = Some rec \<and> lrd_incarnation rec = i)"

lemma fenceAt_put [simp]:
  "fenceAt (m\<lparr>mlm_fences := put k i (mlm_fences m)\<rparr>) j = (if j = k then i else fenceAt m j)"
  "fenceAt (m\<lparr>mlm_leases := l\<rparr>) j = fenceAt m j"
  by (simp_all add: fenceAt_def)

text \<open>What each operation does to the manager when it changes it.\<close>

definition granting :: "gotime \<Rightarrow> string \<Rightarrow> string \<Rightarrow> duration \<Rightarrow> MemoryLeaseManager \<Rightarrow> MemoryLeaseManager" where
  "granting now k owner ttl m = m\<lparr>mlm_fences := put k (fenceAt m k + 1) (mlm_fences m),
     mlm_leases := put k \<lparr>lrd_owner = owner, lrd_expiresAt = now + ttl, lrd_incarnation = fenceAt m k + 1\<rparr> (mlm_leases m)\<rparr>"

lemma acquire_effect:
  assumes "leaseAcquire now k owner ttl m = (x, m')"
  shows "m' = (case x of Inl _ \<Rightarrow> m | Inr _ \<Rightarrow> granting now k owner ttl m)"
    and "x = Ok l \<Longrightarrow> l = \<lparr>lse_ExecutionID = k, lse_Owner = owner, lse_Incarnation = fenceAt m k + 1, lse_ExpiresAt = now + ttl\<rparr>
      \<and> fenceAt m k \<noteq> - 1 \<and> ttl > 0 \<and> \<not> leaseIsHeld now k m"
  using assms by (auto simp: leaseAcquire_def grantLease_def granting_def leaseIsHeld_def leaseHolder_def Let_def split: if_splits option.splits)

lemma renew_effect:
  assumes "leaseRenew now lease ttl m = (x, m')"
  shows "m' = m \<or> (\<exists>rec. lookup (mlm_leases m) (lse_ExecutionID lease) = Some rec
      \<and> m' = m\<lparr>mlm_leases := put (lse_ExecutionID lease) (rec\<lparr>lrd_expiresAt := now + ttl\<rparr>) (mlm_leases m)\<rparr>)"
  using assms by (auto simp: leaseRenew_def split: if_splits option.splits)

lemma release_effect:
  assumes "leaseRelease lease m = (e, m')"
  shows "m' = m \<or> m' = m\<lparr>mlm_leases := AList.delete (lse_ExecutionID lease) (mlm_leases m)\<rparr>"
  using assms by (auto simp: leaseRelease_def split: if_splits option.splits)

lemma granting_ok: "leases_ok m \<Longrightarrow> leases_ok (granting now k owner ttl m)" "fenceAt (granting now k owner ttl m) j = (if j = k then fenceAt m k + 1 else fenceAt m j)"
  by (auto simp: granting_def leases_ok_def fenceAt_def)

lemma lease_step_ok: "lease_step m m' \<Longrightarrow> leases_ok m \<Longrightarrow> leases_ok m' \<and> fenceAt m k \<le> fenceAt m' k"
proof (induction rule: lease_step.induct)
  case (acquire now j owner ttl m x m')
  show ?case
  proof (cases x)
    case (Inr l)
    then show ?thesis using acquire_effect [OF acquire(1)] granting_ok acquire(2) rev_succ_self [of "fenceAt m j"] by (simp add: less_imp_le)
  qed (use acquire_effect(1) [OF acquire(1)] acquire(2) in simp)
next
  case (renew now lease ttl m x m')
  from renew_effect [OF renew(1)] renew(2) show ?case by (auto simp: leases_ok_def split: if_splits)
next
  case (release lease m e m')
  from release_effect [OF release(1)] release(2) show ?case by (auto simp: leases_ok_def delete_conv' split: if_splits)
qed

interpretation run_leases: fenced_store lease_step leases_ok fenceAt grantedLease
  by unfold_locales (use lease_step_ok in \<open>auto simp: leases_ok_def grantedLease_def\<close>)

lemma new_leases_ok: "leases_ok NewMemoryLeaseManager"
  by (simp add: leases_ok_def NewMemoryLeaseManager_def)

lemma not_granted_lost:
  assumes "\<not> grantedLease m (lse_ExecutionID lease) (lse_Incarnation lease)"
  shows "leaseRenew now lease ttl m = (Err ErrLeaseLost, m)" and "snd (leaseRelease lease m) = m"
  using assms by (auto simp: leaseRenew_def leaseRelease_def grantedLease_def split: option.splits)

text \<open>
  C29. A lease is exclusive and its successors fence it off. When a thread is leased
  twice, in any interleaving with other acquisitions, renewals and releases, the
  thread was free at both moments, the second incarnation is larger, the second
  owner holds the lease, and from then on the first lease can neither be renewed
  nor release anything.
\<close>

theorem lease_is_exclusive:
  assumes "lease_step\<^sup>*\<^sup>* NewMemoryLeaseManager m1" and "leaseAcquire now k owner ttl m1 = (Ok l1, m2)"
    and "lease_step\<^sup>*\<^sup>* m2 m3" and "leaseAcquire now' k owner' ttl' m3 = (Ok l2, m4)" and "lease_step\<^sup>*\<^sup>* m4 m5"
  shows "\<not> leaseIsHeld now k m1 \<and> \<not> leaseIsHeld now' k m3 \<and> leaseHolder now' k m4 = (owner', True)
    \<and> lse_Incarnation l1 < lse_Incarnation l2 \<and> leaseRenew t l1 d m5 = (Err ErrLeaseLost, m5) \<and> snd (leaseRelease l1 m5) = m5"
proof -
  have ok1: "leases_ok m1" by (rule run_leases.run_invariant [OF assms(1) new_leases_ok])
  have ok2: "leases_ok m2" using lease_step_ok [OF lease_step.acquire [OF assms(2)] ok1] by simp
  have ok3: "leases_ok m3" by (rule run_leases.run_invariant [OF assms(3) ok2])
  have ok4: "leases_ok m4" using lease_step_ok [OF lease_step.acquire [OF assms(4)] ok3] by simp
  note f = acquire_effect [OF assms(2)]
  have l1: "lse_ExecutionID l1 = k" "lse_Incarnation l1 = fenceAt m2 k" "\<not> leaseIsHeld now k m1"
    using f(1) f(2) [OF refl] granting_ok(2) by simp_all
  note s = acquire_effect [OF assms(4)]
  have l2: "lse_Incarnation l2 = fenceAt m4 k" "\<not> leaseIsHeld now' k m3" "leaseHolder now' k m4 = (owner', True)" "fenceAt m3 k < fenceAt m4 k"
    using s(1) s(2) [OF refl] granting_ok(2) rev_succ_self [of "fenceAt m3 k"] by (simp_all add: leaseHolder_def granting_def)
  have "fenceAt m2 k < fenceAt m4 k" using run_leases.run_fence_mono [OF assms(3) ok2, of k] l2(4) by simp
  then have "\<not> grantedLease m5 k (fenceAt m2 k)" by (rule run_leases.stale_forever [OF assms(5) ok4])
  with not_granted_lost [of m5 l1] l1 l2 \<open>fenceAt m2 k < fenceAt m4 k\<close> show ?thesis by simp
qed

theorem lease_is_exclusive_witness:
  "\<exists>m2 m4 l1 l2. leaseAcquire 0 ''t'' ''a'' 5 NewMemoryLeaseManager = (Ok l1, m2) \<and> leaseAcquire 9 ''t'' ''b'' 5 m2 = (Ok l2, m4)
     \<and> lse_Incarnation l1 < lse_Incarnation l2 \<and> leaseHolder 9 ''t'' m4 = (''b'', True) \<and> leaseRenew 10 l1 5 m4 = (Err ErrLeaseLost, m4)"
proof -
  obtain l1 m2 where a: "leaseAcquire 0 ''t'' ''a'' 5 NewMemoryLeaseManager = (Ok l1, m2)"
    by (simp add: leaseAcquire_def grantLease_def NewMemoryLeaseManager_def fenceAt_def Let_def)
  then obtain l2 m4 where b: "leaseAcquire 9 ''t'' ''b'' 5 m2 = (Ok l2, m4)"
    by (auto simp: leaseAcquire_def grantLease_def NewMemoryLeaseManager_def fenceAt_def Let_def)
  from lease_is_exclusive [OF _ a _ b, of m4 10 5] a b show ?thesis by auto
qed

text \<open>
  The heartbeat of a lease is never idle and renews at least twice within the TTL
  as soon as the TTL is two nanoseconds; for a TTL of a single nanosecond the
  interval is a millisecond, which does not fit, contrary to the comment on the
  function.
\<close>

theorem heartbeat_fits_lease:
  "leaseHeartbeatInterval ttl > 0 \<and> (ttl \<ge> 2 \<longrightarrow> 2 * leaseHeartbeatInterval ttl \<le> ttl) \<and> \<not> leaseHeartbeatInterval 1 \<le> 1"
  by (auto simp: leaseHeartbeatInterval_def Let_def goquot_nonneg defaultLeaseTTL_def)

theorem heartbeat_fits_lease_witness: "2 * leaseHeartbeatInterval 30 \<le> 30"
  using heartbeat_fits_lease [of 30] by simp

end
