(* ===== verification/Runner_Recovery.thy ===== *)
theory Runner_Recovery
  imports Lease_Manager
begin

text \<open>
  Resuming and recovering runs (runner\_recovery.go, the recovery part of
  handoff\_outbox.go, the resume options of run\_options.go) and the entry points
  of runner.go: \<open>Start\<close> and \<open>Resume\<close> with their lease, session and cleanup.
  The zero value of the state type is an argument \<open>zero\<close>; \<open>unpaired\<close> and \<open>busy\<close> stand
  for the pairing check of native adapters and for the session table of the
  runner. Go shares the maps of the loaded snapshot with the metadata of the
  decision; here the snapshot inside a decision keeps the loaded values.
\<close>

section \<open>Metadata\<close>

definition unixNano :: "gotime \<Rightarrow> int" where
  "unixNano t = wrap64 (t - 62135596800000000000)"

definition formatInt :: "int \<Rightarrow> string" where
  "formatInt n = (if n < 0 then ''-'' @ decimal (nat (- n)) else decimal (nat n))"

definition newSegmentInfo :: "('w, 't, 'a, 'e, 'x) graphRunner \<Rightarrow> ('w, SegmentInfo) state" where
  "newSegmentInfo r = do {
     now \<leftarrow> grn_now r;
     ret \<lparr>seg_SegmentID = ''seg-'' @ formatInt (unixNano now), seg_StartTime = now, seg_EndTime = 0, seg_EndReason = SegmentEndOther ''''\<rparr>
   }"

definition newRunMetadata :: "('w, 't, 'a, 'e, 'x) graphRunner \<Rightarrow> ('w, RunMetadata) state" where
  "newRunMetadata r = do {
     now \<leftarrow> grn_now r;
     seg \<leftarrow> newSegmentInfo r;
     ret \<lparr>rmd_Segment = seg, rmd_SegmentStartTime = now, rmd_RetryCounts = [], rmd_BudgetCounts = [], rmd_StepCount = 0,
       rmd_TelemetryContext = [], rmd_HandoffStatus = HandoffStatusNone, rmd_HandoffPendingAt = 0\<rparr>
   }"

definition resetSegmentCounters :: "('w, 't, 'a, 'e, 'x) graphRunner \<Rightarrow> RunMetadata \<Rightarrow> ('w, RunMetadata) state" where
  "resetSegmentCounters r meta = do {
     seg \<leftarrow> newSegmentInfo r;
     now \<leftarrow> grn_now r;
     ret (meta\<lparr>rmd_Segment := seg, rmd_SegmentStartTime := now, rmd_StepCount := 0\<rparr>)
   }"

definition mapsCopy :: "('k, 'v) gomap \<Rightarrow> ('k, 'v) gomap \<Rightarrow> ('k, 'v) gomap" where
  "mapsCopy dst src = fold (\<lambda>(k, v). put k v) src dst"

definition mergeRunMetadataInput :: "('w, 't, 'x) runInvocationOptions \<Rightarrow> RunMetadata \<Rightarrow> RunMetadata" where
  "mergeRunMetadataInput opts meta = meta\<lparr>rmd_BudgetCounts := mapsCopy (rmd_BudgetCounts meta) (inv_budgetCounts opts),
     rmd_TelemetryContext := mapsCopy (rmd_TelemetryContext meta) (inv_telemetryContext opts)\<rparr>"

definition applyResumeTargetPolicy ::
    "('w, 't, 'x) runInvocationOptions \<Rightarrow> 't \<Rightarrow> string \<Rightarrow> ('w, 't \<times> string \<times> err option) state" where
  "applyResumeTargetPolicy opts st currentPtr = (case inv_resumeTargetPolicy opts of
     None \<Rightarrow> ret (st, currentPtr, None)
   | Some policy \<Rightarrow> do {
       (nextState, plan, e) \<leftarrow> policy st currentPtr;
       ret (case e of
           Some err \<Rightarrow> (st, '''', Some (Wrapped '''' [Sent ErrResumeTargetPolicyFailed, err]))
         | None \<Rightarrow>
             (case ResumePlan_resolve plan currentPtr of
                Inl err \<Rightarrow> (st, '''', Some (Wrapped '''' [Sent ErrResumeTargetPolicyFailed, err]))
              | Inr newPtr \<Rightarrow> (nextState, newPtr, None)))
     })"

section \<open>Loading a snapshot\<close>

definition ensureSnapshotEnvelopeInvalid :: "err \<Rightarrow> err" where
  "ensureSnapshotEnvelopeInvalid e =
    (if errIs e ErrSnapshotEnvelopeInvalid then e else Wrapped '''' [Sent ErrSnapshotEnvelopeInvalid, e])"

definition invalidLoaded :: "string \<Rightarrow> err option" where
  "invalidLoaded text = Some (Wrapped text [Sent ErrInvalidSnapshot])"

definition normalizeLoadedSnapshot :: "string \<Rightarrow> ('t, 'e) Snapshot \<Rightarrow> uint64 \<Rightarrow> ('t, 'e) Snapshot \<times> err option" where
  "normalizeLoadedSnapshot threadID s0 revision =
    (if threadID = '''' then (s0, invalidLoaded ''empty thread ID'')
     else if snp_ThreadID s0 \<noteq> '''' \<and> snp_ThreadID s0 \<noteq> threadID then (s0, invalidLoaded ''snapshot thread'')
     else
       let s1 = s0\<lparr>snp_ThreadID := threadID\<rparr> in
       if revision = 0 then (s1, invalidLoaded ''zero snapshot revision'')
       else if snp_Revision s1 \<noteq> 0 \<and> snp_Revision s1 \<noteq> revision then (s1, invalidLoaded ''snapshot revision'')
       else
         let s2 = s1\<lparr>snp_Revision := revision\<rparr> in
         if snp_ExecutionPointer s2 = '''' then (s2, invalidLoaded ''empty execution pointer'') else (s2, None))"

definition loadNormalizedSnapshot ::
    "('w, 't, 'e, 'x) Checkpointer \<Rightarrow> string \<Rightarrow> ('w, ('t, 'e) Snapshot \<times> uint64 \<times> err option) state" where
  "loadNormalizedSnapshot cp threadID = do {
     (snapshot, revision, e) \<leftarrow> ckp_Load cp threadID;
     ret (case e of
         Some err \<Rightarrow> (snapshot, revision, Some
           (if errIs err ErrThreadNotFound then err
            else if errIs err ErrSnapshotEnvelopeInvalid \<or> errIs err ErrInvalidSnapshot then ensureSnapshotEnvelopeInvalid err
            else err))
       | None \<Rightarrow>
           (case normalizeLoadedSnapshot threadID snapshot revision of
              (normalized, normErr) \<Rightarrow> (normalized, revision, map_option ensureSnapshotEnvelopeInvalid normErr)))
   }"

section \<open>Resume decisions\<close>

definition newResumeDecision ::
    "ResumeDecisionStatus \<Rightarrow> ResumeToken \<Rightarrow> ('t, 'e) Snapshot \<Rightarrow> uint64 \<Rightarrow> string \<Rightarrow> string \<Rightarrow> err option \<Rightarrow> ('t, 'e) ResumeDecision" where
  "newResumeDecision status token snapshot revision pointer reason e =
    \<lparr>dcn_Status = status, dcn_ThreadID = snp_ThreadID snapshot, dcn_ResumeToken = token, dcn_Snapshot = snapshot,
     dcn_SnapshotRevision = revision, dcn_ExecutionPointer = pointer, dcn_HandoffStatus = rmd_HandoffStatus (snp_RunMeta snapshot),
     dcn_Reason = reason, dcn_Err = e, dcn_State = snp_State snapshot, dcn_RunMeta = snp_RunMeta snapshot, dcn_Effects = snp_Effects snapshot\<rparr>"

definition resumeDecisionStatusForError :: "err \<Rightarrow> ResumeDecisionStatus" where
  "resumeDecisionStatusForError e =
    (if errIs e ErrThreadNotFound then ResumeDecisionThreadNotFound
     else if errIs e ErrInvalidSnapshot \<or> errIs e ErrSnapshotEnvelopeInvalid then ResumeDecisionInvalidSnapshot
     else ResumeDecisionLoadFailed)"

definition resumeDecisionReasonForError :: "err \<Rightarrow> string" where
  "resumeDecisionReasonForError e =
    (if errIs e ErrThreadNotFound then ''thread_not_found''
     else if errIs e ErrInvalidSnapshot \<or> errIs e ErrSnapshotEnvelopeInvalid then ''invalid_snapshot''
     else ''load_failed'')"

text \<open>\<open>time.Since\<close> saturates at the range of a duration.\<close>

definition saturate64 :: "int \<Rightarrow> int" where
  "saturate64 d = max (- (2 ^ 63)) (min (2 ^ 63 - 1) d)"

definition isHandoffPendingStale :: "gotime \<Rightarrow> gotime \<Rightarrow> duration \<Rightarrow> bool" where
  "isHandoffPendingStale now pendingAt staleAfter \<longleftrightarrow> IsZero pendingAt \<or> saturate64 (now - pendingAt) > staleAfter"

definition zeroSnapshot :: "'t \<Rightarrow> RunMetadata \<Rightarrow> ('t, 'e) Snapshot" where
  "zeroSnapshot zero meta = \<lparr>snp_ThreadID = '''', snp_ExecutionPointer = '''', snp_Revision = 0, snp_State = zero, snp_RunMeta = meta, snp_Effects = []\<rparr>"

text \<open>A decision that refuses to resume.\<close>

definition refuse :: "('t, 'e) ResumeDecision \<Rightarrow> ('w, ('t, 'e) ResumeDecision \<times> err option) state" where
  "refuse d = ret (d, dcn_Err d)"

text \<open>The part of \<open>evaluateResume\<close> after the handoff status allowed the snapshot.\<close>

definition resumeAdmitted ::
    "('w, 't, 'a, 'e, 'x) graphRunner \<Rightarrow> ('w, 't, 'x) runInvocationOptions \<Rightarrow> ResumeToken \<Rightarrow> ('t, 'e) Snapshot \<Rightarrow> uint64
     \<Rightarrow> ('w, ('t, 'e) ResumeDecision \<times> err option) state" where
  "resumeAdmitted r opts token snapshot revision =
    (let invalid = (\<lambda>pointer reason e. newResumeDecision ResumeDecisionInvalidSnapshot token snapshot revision pointer reason (Some e)) in do {
       loaded \<leftarrow> foldState icp_AfterLoad (grn_interceptors r) (snp_State snapshot);
       case loaded of
         Inl loadErr \<Rightarrow> refuse (invalid (snp_ExecutionPointer snapshot) ''after_load_failed'' (Wrapped ''flowy: after_load interceptor'' [loadErr]))
       | Inr state1 \<Rightarrow>
           (case (case inv_overlay opts of None \<Rightarrow> Some state1
                  | Some overlay \<Rightarrow> map_option (\<lambda>merge. merge state1 overlay) (inv_overlayMerger opts)) of
              None \<Rightarrow> refuse (invalid (snp_ExecutionPointer snapshot) ''overlay_merger_required'' (Sent ErrOverlayMergerRequired))
            | Some state2 \<Rightarrow>
                let meta0 = (if rmd_HandoffStatus (snp_RunMeta snapshot) = HandoffStatusEnqueued
                      then (snp_RunMeta snapshot)\<lparr>rmd_HandoffStatus := HandoffStatusNone, rmd_HandoffPendingAt := 0\<rparr> else snp_RunMeta snapshot) in do {
                  reset \<leftarrow> resetSegmentCounters r meta0;
                  let meta = mergeRunMetadataInput opts reset in do {
                    (st, activePointer, policyErr) \<leftarrow> applyResumeTargetPolicy opts state2 (snp_ExecutionPointer snapshot);
                    let withState = (\<lambda>d. d\<lparr>dcn_State := st, dcn_RunMeta := meta\<rparr>) in
                    (case policyErr of
                       Some e \<Rightarrow> refuse (withState (invalid activePointer ''resume_target_policy_failed'' e))
                     | None \<Rightarrow>
                         if activePointer = '''' then refuse (withState (invalid activePointer ''invalid_snapshot'' (Sent ErrInvalidSnapshot)))
                         else if lookup (gph_nodes (grn_graph r)) activePointer = None
                         then refuse (withState (invalid activePointer ''invalid_pointer'' invalidResumePointerError))
                         else ret (withState (newResumeDecision ResumeDecisionReady token snapshot revision activePointer ''ready'' None), None))
                  }
                })
     })"

text \<open>The part after the snapshot was loaded; \<open>e\<close> is the error of the load.\<close>

definition resumeLoaded ::
    "('w, 't, 'a, 'e, 'x) graphRunner \<Rightarrow> ('w, 't, 'x) runInvocationOptions \<Rightarrow> ResumeToken \<Rightarrow> ('t, 'e) Snapshot \<Rightarrow> uint64 \<Rightarrow> err option
     \<Rightarrow> ('w, ('t, 'e) ResumeDecision \<times> err option) state" where
  "resumeLoaded r opts token snapshot revision e =
    (let pointer = snp_ExecutionPointer snapshot;
         status = rmd_HandoffStatus (snp_RunMeta snapshot);
         deny = (\<lambda>st tok reason err. refuse (newResumeDecision st tok snapshot revision pointer reason (Some err))) in
     (case e of
        Some err \<Rightarrow> refuse ((newResumeDecision (resumeDecisionStatusForError err) token snapshot revision pointer
          (resumeDecisionReasonForError err) (Some err))\<lparr>dcn_ThreadID := tok_ThreadID token\<rparr>)
      | None \<Rightarrow>
          if tok_SnapshotRevision token = 0 then deny ResumeDecisionInvalidToken token ''zero_revision'' (Sent ErrConcurrencyConflict)
          else if tok_SnapshotRevision token \<noteq> revision then
            deny ResumeDecisionStaleToken (tokenAt (tok_ThreadID token) revision) ''stale_token'' (Wrapped ''resume token snapshot revision'' [Sent ErrConcurrencyConflict])
          else if status = HandoffStatusPending then do {
            now \<leftarrow> (if IsZero (rmd_HandoffPendingAt (snp_RunMeta snapshot)) then ret 0 else grn_now r);
            if isHandoffPendingStale now (rmd_HandoffPendingAt (snp_RunMeta snapshot)) (grn_handoffStaleAfter r)
            then deny ResumeDecisionHandoffRecoverable token ''handoff_pending_stale'' (Sent ErrHandoffPending)
            else deny ResumeDecisionHandoffPending token ''handoff_pending'' (Sent ErrHandoffPending)
          }
          else if status = HandoffStatusOrphaned then deny ResumeDecisionHandoffRecoverable token ReasonHandoffOrphaned (Sent ErrHandoffOrphaned)
          else if status \<noteq> HandoffStatusNone \<and> status \<noteq> HandoffStatusEnqueued then
            deny ResumeDecisionInvalidSnapshot token ''invalid_handoff_status'' (Wrapped ''handoff status'' [Sent ErrInvalidSnapshot])
          else resumeAdmitted r opts token snapshot revision))"

definition evaluateResume ::
    "('w, 't, 'a, 'e, 'x) graphRunner \<Rightarrow> ('w, 't, 'e, 'x) Checkpointer \<Rightarrow> 't \<Rightarrow> ('w, 't, 'x) runInvocationOptions \<Rightarrow> ResumeToken
     \<Rightarrow> ('w, ('t, 'e) ResumeDecision \<times> err option) state" where
  "evaluateResume r cp zero opts token =
    (if tok_ThreadID token = '''' then do {
       meta \<leftarrow> newRunMetadata r;
       refuse (newResumeDecision ResumeDecisionInvalidToken token (zeroSnapshot zero meta) 0 '''' ''empty_token''
         (Some (Wrapped ''empty thread ID'' [Sent ErrInvalidResumeToken])))
     } else do {
       (snapshot, revision, e) \<leftarrow> loadNormalizedSnapshot cp (tok_ThreadID token);
       resumeLoaded r opts token snapshot revision e
     })"

text \<open>\<open>resolveRunOptions\<close> on the options that were applied: the policy must be known and atomic handoff supported.\<close>

definition resolveRunOptions :: "('w, 't, 'a, 'e, 'x) graphRunner \<Rightarrow> ('w, 't, 'x) runInvocationOptions \<Rightarrow> err option" where
  "resolveRunOptions r opts =
    (if (case inv_checkpointPolicy opts of CheckpointPolicyOther s \<Rightarrow> s \<noteq> '''' | _ \<Rightarrow> False)
     then Some (Wrapped ''policy'' [Sent (Also ErrInvalidCheckpointPolicy)])
     else if inv_atomicHandoff opts \<and> (Option.bind (grn_checkpointer r) ckp_SaveWithOutbox = None
       \<or> Option.bind (resolveHandoffOutbox r opts) obx_EnqueueIntentTx = None) then Some (Sent ErrTransactionalOutboxUnsupported)
     else None)"

definition EvaluateResume ::
    "('w, 't, 'a, 'e, 'x) graphRunner \<Rightarrow> 't \<Rightarrow> ('w, 't, 'x) runInvocationOptions \<Rightarrow> ResumeToken
     \<Rightarrow> ('w, ('t, 'e) ResumeDecision option \<times> err option) state" where
  "EvaluateResume r zero opts token = (case grn_checkpointer r of
     None \<Rightarrow> ret (None, Some (Plain ''flowy: checkpointer is required for EvaluateResume''))
   | Some cp \<Rightarrow>
       (case resolveRunOptions r opts of
          Some e \<Rightarrow> ret (None, Some e)
        | None \<Rightarrow> do { (d, e) \<leftarrow> evaluateResume r cp zero opts token; ret (Some d, e) }))"

section \<open>Recovery of handoffs\<close>

record ('w, 'x) recoverStaleHandoffOpts =
  rso_staleAfter :: duration
  rso_outbox :: "('w, 'x) HandoffOutbox option"
  rso_forceReenqueue :: bool

record ('t, 'e) HandoffRecoveryResult =
  hrr_Decision :: "('t, 'e) ResumeDecision"
  hrr_ResumeToken :: ResumeToken
  hrr_SnapshotRevision :: uint64
  hrr_HandoffStatus :: HandoffStatus
  hrr_Recovered :: bool

definition WithRecoverStaleAfter :: "duration \<Rightarrow> ('w, 'x) recoverStaleHandoffOpts \<Rightarrow> ('w, 'x) recoverStaleHandoffOpts" where
  "WithRecoverStaleAfter d o' = o'\<lparr>rso_staleAfter := d\<rparr>"

definition WithRecoverOutbox :: "('w, 'x) HandoffOutbox option \<Rightarrow> ('w, 'x) recoverStaleHandoffOpts \<Rightarrow> ('w, 'x) recoverStaleHandoffOpts" where
  "WithRecoverOutbox outbox o' = o'\<lparr>rso_outbox := outbox\<rparr>"

definition WithRecoverForceReenqueue :: "bool \<Rightarrow> ('w, 'x) recoverStaleHandoffOpts \<Rightarrow> ('w, 'x) recoverStaleHandoffOpts" where
  "WithRecoverForceReenqueue force o' = o'\<lparr>rso_forceReenqueue := force\<rparr>"

definition recoverStaleHandoffConfig ::
    "('w, 't, 'a, 'e, 'x) graphRunner \<Rightarrow> (('w, 'x) recoverStaleHandoffOpts \<Rightarrow> ('w, 'x) recoverStaleHandoffOpts) option list
     \<Rightarrow> ('w, 'x) recoverStaleHandoffOpts" where
  "recoverStaleHandoffConfig r opts = fold (\<lambda>opt cfg. case opt of None \<Rightarrow> cfg | Some f \<Rightarrow> f cfg) opts
     \<lparr>rso_staleAfter = grn_handoffStaleAfter r, rso_outbox = grn_handoffOutbox r, rso_forceReenqueue = False\<rparr>"

definition DefaultHandoffStaleAfter :: duration where
  "DefaultHandoffStaleAfter = 300000000000"

definition EvaluateHandoffRecovery ::
    "('w, 't, 'a, 'e, 'x) graphRunner \<Rightarrow> ('t, 'e) ResumeDecision \<Rightarrow> ('w, 'x) recoverStaleHandoffOpts \<Rightarrow> string
     \<Rightarrow> ('w, ('t, 'e) ResumeDecision \<times> err option) state" where
  "EvaluateHandoffRecovery r zeroDecision cfg threadID = (case grn_checkpointer r of
     None \<Rightarrow> ret (zeroDecision, Some (Plain ''flowy: checkpointer is required for EvaluateHandoffRecovery''))
   | Some cp \<Rightarrow>
      if threadID = '''' then refuse (zeroDecision\<lparr>dcn_Status := ResumeDecisionInvalidToken, dcn_Reason := ''empty_thread_id'',
          dcn_Err := Some (Sent ErrInvalidResumeToken)\<rparr>)
      else do {
        (snapshot, revision, e) \<leftarrow> loadNormalizedSnapshot cp threadID;
        let pointer = snp_ExecutionPointer snapshot; meta = snp_RunMeta snapshot; token = tokenAt threadID revision;
            decide = (\<lambda>status reason err. refuse (newResumeDecision status token snapshot revision pointer reason err)) in
        (case e of
           Some err \<Rightarrow> refuse ((newResumeDecision (resumeDecisionStatusForError err) token snapshot revision pointer
             (resumeDecisionReasonForError err) (Some err))\<lparr>dcn_ThreadID := threadID\<rparr>)
         | None \<Rightarrow>
            (case validateExecutionPointer r pointer of
               Some ptrErr \<Rightarrow> decide ResumeDecisionInvalidSnapshot (if pointer = '''' then ''invalid_snapshot'' else ''invalid_pointer'') (Some ptrErr)
             | None \<Rightarrow>
                (case rmd_HandoffStatus meta of
                   HandoffStatusOrphaned \<Rightarrow> decide ResumeDecisionHandoffRecoverable ReasonHandoffOrphaned (Some (Sent ErrHandoffOrphaned))
                 | HandoffStatusPending \<Rightarrow> do {
                     now \<leftarrow> (if IsZero (rmd_HandoffPendingAt meta) then ret 0 else grn_now r);
                     if isHandoffPendingStale now (rmd_HandoffPendingAt meta) (if rso_staleAfter cfg \<le> 0 then DefaultHandoffStaleAfter else rso_staleAfter cfg)
                     then decide ResumeDecisionHandoffRecoverable ''handoff_pending_stale'' (Some (Sent ErrHandoffPending))
                     else decide ResumeDecisionHandoffPending ''handoff_pending'' (Some (Sent ErrHandoffPending))
                   }
                 | HandoffStatusEnqueued \<Rightarrow>
                     if rso_forceReenqueue cfg then decide ResumeDecisionHandoffRecoverable ''handoff_force_reenqueue'' None
                     else decide ResumeDecisionHandoffAlreadyScheduled ''handoff_already_enqueued'' (Some (Sent ErrHandoffAlreadyEnqueued))
                 | HandoffStatusNone \<Rightarrow> decide ResumeDecisionHandoffNotRecoverable ''handoff_status_none'' (Some (Sent ErrHandoffNotRecoverable))
                 | HandoffStatusOther _ \<Rightarrow> decide ResumeDecisionHandoffNotRecoverable ''invalid_handoff_status''
                     (Some (Wrapped '''' [Sent ErrHandoffNotRecoverable, Wrapped ''handoff status'' [Sent ErrInvalidSnapshot]])))))
      })"

definition recoveryResultFromDecision :: "('t, 'e) ResumeDecision \<Rightarrow> ('t, 'e) HandoffRecoveryResult" where
  "recoveryResultFromDecision d = \<lparr>hrr_Decision = d, hrr_ResumeToken = dcn_ResumeToken d, hrr_SnapshotRevision = dcn_SnapshotRevision d,
     hrr_HandoffStatus = dcn_HandoffStatus d, hrr_Recovered = False\<rparr>"

definition applyFSMHandoffRecoveryResult :: "handoffOutboxFSMResult \<Rightarrow> ('t, 'e) HandoffRecoveryResult \<Rightarrow> ('t, 'e) HandoffRecoveryResult" where
  "applyFSMHandoffRecoveryResult fsm result =
    (let token = fsm_ResumeToken fsm; n = tok_SnapshotRevision token; status = fsm_PersistedStatus fsm; at = fsm_PersistedPendingAt fsm;
         r1 = (if tok_ThreadID token \<noteq> '''' then result\<lparr>hrr_ResumeToken := token, hrr_Decision := (hrr_Decision result)\<lparr>dcn_ResumeToken := token\<rparr>\<rparr> else result);
         r2 = (if n \<noteq> 0 then r1\<lparr>hrr_SnapshotRevision := n, hrr_Decision := (hrr_Decision r1)\<lparr>dcn_SnapshotRevision := n,
                 dcn_Snapshot := (dcn_Snapshot (hrr_Decision r1))\<lparr>snp_Revision := n\<rparr>\<rparr>\<rparr> else r1) in
     if status \<noteq> HandoffStatusNone then
       let d = hrr_Decision r2; s = dcn_Snapshot d in
       r2\<lparr>hrr_HandoffStatus := status, hrr_Decision := d\<lparr>dcn_HandoffStatus := status,
         dcn_RunMeta := (dcn_RunMeta d)\<lparr>rmd_HandoffStatus := status, rmd_HandoffPendingAt := at\<rparr>,
         dcn_Snapshot := s\<lparr>snp_RunMeta := (snp_RunMeta s)\<lparr>rmd_HandoffStatus := status, rmd_HandoffPendingAt := at\<rparr>\<rparr>\<rparr>\<rparr>
     else r2)"

definition normalizeRecoveryFSMResult :: "RunMetadata \<Rightarrow> handoffOutboxFSMResult \<Rightarrow> handoffOutboxFSMResult" where
  "normalizeRecoveryFSMResult initial fsm =
    (if fsm_PatchErr fsm \<noteq> None \<and> fsm_PersistedStatus fsm = HandoffStatusPending \<and> rmd_HandoffStatus initial \<noteq> HandoffStatusPending
     then fsm\<lparr>fsm_PersistedStatus := rmd_HandoffStatus initial, fsm_PersistedPendingAt := rmd_HandoffPendingAt initial\<rparr> else fsm)"

definition wrapHandoffPatchRecoveryErr :: "err \<Rightarrow> err" where
  "wrapHandoffPatchRecoveryErr e =
    (if errIs e ErrConcurrencyConflict then Wrapped ''recovery patch concurrency conflict'' [Sent ErrHandoffPatchFailed, e] else e)"

definition recoverHandoffEnqueue ::
    "('w, 't, 'a, 'e, 'x) graphRunner \<Rightarrow> string \<Rightarrow> ('t, 'e) Snapshot \<Rightarrow> uint64 \<Rightarrow> ('w, 'x) HandoffOutbox option \<Rightarrow> HandoffStatus
     \<Rightarrow> ('w, (handoffOutboxFSMResult \<times> err option) option) state" where
  "recoverHandoffEnqueue r threadID snapshot expectedRevision outbox targetStatus = do {
     out \<leftarrow> runHandoffOutboxFSM r threadID expectedRevision snapshot (snp_RunMeta snapshot) outbox (snp_ExecutionPointer snapshot) ''handoff_recovery'';
     ret (map_option (\<lambda>fsm0.
       let fsm = normalizeRecoveryFSMResult (snp_RunMeta snapshot) fsm0 in
       (fsm, (case fsm_EnqueueErr fsm of
          Some enqueueErr \<Rightarrow> Some (case fsm_PatchErr fsm of None \<Rightarrow> enqueueErr | Some patchErr \<Rightarrow> Wrapped '''' [enqueueErr, patchErr])
        | None \<Rightarrow>
           (case fsm_PatchErr fsm of
              Some patchErr \<Rightarrow> Some (wrapHandoffPatchRecoveryErr patchErr)
            | None \<Rightarrow> if targetStatus \<noteq> HandoffStatusEnqueued then Some (Plain ''flowy: unexpected recovery target status'') else None)))) out)
   }"

definition RecoverStaleHandoff ::
    "('w, 't, 'a, 'e, 'x) graphRunner \<Rightarrow> ('t, 'e) ResumeDecision \<Rightarrow> ('w, 'x) recoverStaleHandoffOpts \<Rightarrow> string
     \<Rightarrow> ('w, (('t, 'e) HandoffRecoveryResult \<times> err option) option) state" where
  "RecoverStaleHandoff r zeroDecision cfg threadID = do {
     (decision, decisionErr) \<leftarrow> EvaluateHandoffRecovery r zeroDecision cfg threadID;
     let result = recoveryResultFromDecision decision in
     if dcn_Status decision \<noteq> ResumeDecisionHandoffRecoverable
     then ret (Some (result, case decisionErr of Some e \<Rightarrow> Some e | None \<Rightarrow> dcn_Err decision))
     else if rso_outbox cfg = None
     then ret (Some (result\<lparr>hrr_Decision := (hrr_Decision result)\<lparr>dcn_Reason := ''handoff_outbox_required'', dcn_Err := Some (Sent ErrHandoffOutboxRequired)\<rparr>\<rparr>,
       Some (Sent ErrHandoffOutboxRequired)))
     else do {
       out \<leftarrow> recoverHandoffEnqueue r threadID (dcn_Snapshot decision) (dcn_SnapshotRevision decision) (rso_outbox cfg) HandoffStatusEnqueued;
       ret (map_option (\<lambda>(fsm, e).
         let updated = applyFSMHandoffRecoveryResult fsm result in
         (if e = None then updated\<lparr>hrr_Recovered := True\<rparr> else updated, e)) out)
     }
   }"

section \<open>Starting and resuming\<close>

definition postRunCleanup ::
    "('w, 't, 'a, 'e, 'x) graphRunner \<Rightarrow> 'w LeaseManager option \<Rightarrow> string \<Rightarrow> string \<Rightarrow> ExecutionLease option \<Rightarrow> ('t, 'e) RunResult option \<Rightarrow> ('w, err option) state" where
  "postRunCleanup r manager owner threadID lease result = do {
     releaseErr \<leftarrow> releaseLease manager owner threadID lease;
     policyErr \<leftarrow> (case result of
         Some res \<Rightarrow> if threadID \<noteq> '''' \<and> appliesTerminalPolicies (rst_Status res) then applyTerminalPolicies r threadID (rst_Status res) else ret None
       | None \<Rightarrow> ret None);
     ret (map_option (\<lambda>e. Wrapped '''' [Sent ErrRunCleanup, e]) (errJoin [releaseErr, policyErr]))
   }"

text \<open>\<open>execute\<close>: the session of the thread is registered, then the loop runs.\<close>

definition execute ::
    "('w, 't, 'a, 'e, 'x) graphRunner \<Rightarrow> ('w, 't, 'x) runInvocationOptions \<Rightarrow> ('w, bool) state \<Rightarrow> string \<Rightarrow> ('t, 'e) loopState
     \<Rightarrow> ('w, ('t, 'e) outcome option) state" where
  "execute r opts busy threadID s = do {
     running \<leftarrow> busy;
     if running then ret (Some (None, Some (Wrapped ''thread'' [Sent ErrThreadAlreadyRunning])))
     else State (executeLoop r opts threadID s)
   }"

definition finishRun ::
    "('w, 't, 'a, 'e, 'x) graphRunner \<Rightarrow> 'w LeaseManager option \<Rightarrow> string \<Rightarrow> string \<Rightarrow> ExecutionLease option \<Rightarrow> ('t, 'e) outcome option
     \<Rightarrow> ('w, ('t, 'e) outcome option) state" where
  "finishRun r manager owner threadID lease out = (case out of
     None \<Rightarrow> ret None
   | Some (result, e) \<Rightarrow> do {
       cleanup \<leftarrow> postRunCleanup r manager owner threadID lease result;
       ret (Some (result, errJoin [e, cleanup]))
     })"

definition Start ::
    "('w, 't, 'a, 'e, 'x) graphRunner \<Rightarrow> 'w LeaseManager option \<Rightarrow> bool \<Rightarrow> ('w, bool) state \<Rightarrow> ('w, 't, 'x) runInvocationOptions \<Rightarrow> string \<Rightarrow> duration
     \<Rightarrow> string \<Rightarrow> 't \<Rightarrow> ('w, ('t, 'e) outcome option) state" where
  "Start r manager unpaired busy opts owner ttl threadID initialState =
    (if threadID = '''' then ret (Some (None, Some (Wrapped ''empty thread ID'' [Sent ErrInvalidResumeToken])))
     else case resolveRunOptions r opts of
       Some e \<Rightarrow> ret (Some (None, Some e))
     | None \<Rightarrow> do {
         acquired \<leftarrow> acquireLease manager unpaired owner ttl threadID;
         case acquired of
           Inl e \<Rightarrow> ret (Some (None, Some e))
         | Inr lease \<Rightarrow> do {
             meta \<leftarrow> newRunMetadata r;
             out \<leftarrow> execute r opts busy threadID \<lparr>lps_current = gph_entryPoint (grn_graph r), lps_state = initialState,
               lps_meta = mergeRunMetadataInput opts meta, lps_effects = [], lps_revision = 0\<rparr>;
             finishRun r manager owner threadID lease out
           }
       })"

definition Resume ::
    "('w, 't, 'a, 'e, 'x) graphRunner \<Rightarrow> 'w LeaseManager option \<Rightarrow> bool \<Rightarrow> ('w, bool) state \<Rightarrow> 't \<Rightarrow> ('w, 't, 'x) runInvocationOptions \<Rightarrow> string \<Rightarrow> duration
     \<Rightarrow> ResumeToken \<Rightarrow> ('w, ('t, 'e) outcome option) state" where
  "Resume r manager unpaired busy zero opts owner ttl token = (case grn_checkpointer r of
     None \<Rightarrow> ret (Some (None, Some (Plain ''flowy: checkpointer is required for Resume'')))
   | Some cp \<Rightarrow>
      if tok_ThreadID token = '''' then ret (Some (None, Some (Wrapped ''empty thread ID'' [Sent ErrInvalidResumeToken])))
      else case resolveRunOptions r opts of
        Some e \<Rightarrow> ret (Some (None, Some e))
      | None \<Rightarrow> do {
          acquired \<leftarrow> acquireLease manager unpaired owner ttl (tok_ThreadID token);
          case acquired of
            Inl e \<Rightarrow> ret (Some (None, Some e))
          | Inr lease \<Rightarrow> do {
              (decision, e) \<leftarrow> evaluateResume r cp zero opts token;
              case e of
                Some err \<Rightarrow> finishRun r manager owner (tok_ThreadID token) lease (Some (None, Some err))
              | None \<Rightarrow> do {
                  out \<leftarrow> execute r opts busy (tok_ThreadID token) \<lparr>lps_current = dcn_ExecutionPointer decision, lps_state = dcn_State decision,
                    lps_meta = dcn_RunMeta decision, lps_effects = dcn_Effects decision, lps_revision = dcn_SnapshotRevision decision\<rparr>;
                  finishRun r manager owner (tok_ThreadID token) lease out
                }
            }
        })"

section \<open>Properties\<close>

text \<open>A decision reports its own error, and is ready exactly when there is none.\<close>

definition coherent :: "('t, 'e) ResumeDecision \<times> err option \<Rightarrow> bool" where
  "coherent out \<longleftrightarrow> (case out of (d, e) \<Rightarrow> dcn_Err d = e \<and> (e = None \<longleftrightarrow> dcn_Status d = ResumeDecisionReady)
     \<and> (dcn_Status d = ResumeDecisionStaleToken \<longrightarrow> (\<exists>x. e = Some x \<and> errIs x ErrConcurrencyConflict)))"

lemma decision_sel [simp]:
  "dcn_Err (newResumeDecision status token s n ptr reason e) = e" "dcn_Status (newResumeDecision status token s n ptr reason e) = status"
  by (simp_all add: newResumeDecision_def)

lemma refuse_coherent:
  "dcn_Err d = Some e \<Longrightarrow> dcn_Status d \<noteq> ResumeDecisionReady \<Longrightarrow> (dcn_Status d = ResumeDecisionStaleToken \<Longrightarrow> errIs e ErrConcurrencyConflict) \<Longrightarrow>
    returns coherent (refuse d)"
  by (auto simp: refuse_def coherent_def)

lemma error_status: "resumeDecisionStatusForError e \<noteq> ResumeDecisionReady" "resumeDecisionStatusForError e \<noteq> ResumeDecisionStaleToken"
  by (simp_all add: resumeDecisionStatusForError_def)

lemma merge_keeps [simp]:
  "rmd_StepCount (mergeRunMetadataInput opts meta) = rmd_StepCount meta" "rmd_RetryCounts (mergeRunMetadataInput opts meta) = rmd_RetryCounts meta"
  "rmd_HandoffStatus (mergeRunMetadataInput opts meta) = rmd_HandoffStatus meta"
  "rmd_BudgetCounts (mergeRunMetadataInput opts meta) = mapsCopy (rmd_BudgetCounts meta) (inv_budgetCounts opts)"
  by (simp_all add: mergeRunMetadataInput_def)

text \<open>What a ready decision says about the snapshot it was made from.\<close>

definition readyFrom :: "('t, 'h, 'r) Graph \<Rightarrow> ('w, 't, 'x) runInvocationOptions \<Rightarrow> ('s, 'e) Snapshot \<Rightarrow> uint64 \<Rightarrow> ('s, 'e) ResumeDecision \<Rightarrow> bool" where
  "readyFrom g opts s n d \<longleftrightarrow> dcn_ThreadID d = snp_ThreadID s \<and> dcn_SnapshotRevision d = n \<and> dcn_Effects d = snp_Effects s
     \<and> isNode (gph_nodes g) (dcn_ExecutionPointer d) \<and> rmd_StepCount (dcn_RunMeta d) = 0 \<and> rmd_RetryCounts (dcn_RunMeta d) = rmd_RetryCounts (snp_RunMeta s)
     \<and> rmd_BudgetCounts (dcn_RunMeta d) = mapsCopy (rmd_BudgetCounts (snp_RunMeta s)) (inv_budgetCounts opts)
     \<and> rmd_HandoffStatus (dcn_RunMeta d) = HandoffStatusNone"

lemma reset_shape:
  "returns (\<lambda>m. \<exists>seg now. m = meta\<lparr>rmd_Segment := seg, rmd_SegmentStartTime := now, rmd_StepCount := 0\<rparr>) (resetSegmentCounters r meta)"
  unfolding resetSegmentCounters_def by (intro returns_rules) auto

lemma admitted_ready:
  assumes "rmd_HandoffStatus (snp_RunMeta s) = HandoffStatusNone \<or> rmd_HandoffStatus (snp_RunMeta s) = HandoffStatusEnqueued"
  shows "returns (\<lambda>out. coherent out \<and> (snd out = None \<longrightarrow> readyFrom (grn_graph r) opts s n (fst out))) (resumeAdmitted r opts token s n)"
  unfolding resumeAdmitted_def Let_def refuse_def
  apply (rule returns_then, intro returns_sum returns_option)
    apply (simp add: coherent_def)
   apply (simp add: coherent_def)
  apply (rule returns_bind [OF reset_shape], rule returns_then)
  apply (intro returns_prod returns_option returns_if)
  using assms by (auto simp: coherent_def readyFrom_def newResumeDecision_def)

lemma normalized_fields:
  assumes "normalizeLoadedSnapshot k s n = (t, None)"
  shows "t = s\<lparr>snp_ThreadID := k, snp_Revision := n\<rparr> \<and> k \<noteq> '''' \<and> n \<noteq> 0 \<and> snp_ExecutionPointer s \<noteq> '''' \<and> (snp_ThreadID s = '''' \<or> snp_ThreadID s = k)
    \<and> (snp_Revision s = 0 \<or> snp_Revision s = n)"
  using assms by (auto simp: normalizeLoadedSnapshot_def Let_def invalidLoaded_def split: if_splits)

lemma loaded_ready:
  "returns (\<lambda>out. coherent out \<and> (snd out = None \<longrightarrow> x = None \<and> tok_SnapshotRevision token = n \<and> n \<noteq> 0 \<and> readyFrom (grn_graph r) opts s n (fst out)
      \<and> (rmd_HandoffStatus (snp_RunMeta s) = HandoffStatusNone \<or> rmd_HandoffStatus (snp_RunMeta s) = HandoffStatusEnqueued)))
    (resumeLoaded r opts token s n x)"
  unfolding resumeLoaded_def Let_def refuse_def
  by (intro returns_option returns_if returns_then returns_return returns_mono [OF admitted_ready])
    (auto simp: coherent_def error_status)

text \<open>
  C30. The decision to resume is sound and never silent. Whatever the checkpointer
  returns, \<open>evaluateResume\<close> reports an error exactly when the decision is not ready; a stale
  token is a concurrency conflict; and a ready decision was made from a snapshot
  that loads without an error, at exactly the revision of the token, for the
  thread of the token, whose handoff is none or enqueued: it points to a registered node, carries the
  effects, retry counters and budgets of the snapshot, and starts a new segment with
  no steps and no pending handoff.
\<close>

theorem resume_decision_is_sound:
  assumes "run_state (evaluateResume r cp zero opts token) w = ((d, e), w')"
  shows "dcn_Err d = e \<and> (e = None \<longleftrightarrow> dcn_Status d = ResumeDecisionReady)
    \<and> (dcn_Status d = ResumeDecisionStaleToken \<longrightarrow> (\<exists>x. e = Some x \<and> errIs x ErrConcurrencyConflict))
    \<and> (e = None \<longrightarrow> (\<exists>s v. run_state (ckp_Load cp (tok_ThreadID token)) w = ((s, tok_SnapshotRevision token, None), v)
         \<and> tok_SnapshotRevision token \<noteq> 0 \<and> (snp_ThreadID s = '''' \<or> snp_ThreadID s = tok_ThreadID token)
         \<and> (rmd_HandoffStatus (snp_RunMeta s) = HandoffStatusNone \<or> rmd_HandoffStatus (snp_RunMeta s) = HandoffStatusEnqueued)
         \<and> readyFrom (grn_graph r) opts (s\<lparr>snp_ThreadID := tok_ThreadID token\<rparr>) (tok_SnapshotRevision token) d))"
proof (cases "tok_ThreadID token = ''''")
  case True
  then have "dcn_Err d = e \<and> e \<noteq> None \<and> dcn_Status d = ResumeDecisionInvalidToken"
    using assms by (auto simp: evaluateResume_def refuse_def run_state_bind split: prod.splits)
  then show ?thesis by auto
next
  case False
  let ?k = "tok_ThreadID token"
  obtain s n x v where v: "run_state (ckp_Load cp ?k) w = ((s, n, x), v)" by (metis prod.exhaust)
  obtain t y where t: "normalizeLoadedSnapshot ?k s n = (t, y)" by force
  obtain s' x' where run: "run_state (resumeLoaded r opts token s' n x') v = ((d, e), w')" and x': "x' = None \<longrightarrow> x = None \<and> y = None \<and> s' = t"
    using assms False v t by (auto simp: evaluateResume_def loadNormalizedSnapshot_def run_state_bind split: option.splits)
  note ready = returnsD [OF loaded_ready run]
  show ?thesis
  proof (cases e)
    case None
    with ready x' have "x = None" "y = None" "s' = t" "tok_SnapshotRevision token = n" by simp_all
    with normalized_fields [OF t [unfolded \<open>y = None\<close>]] ready v None show ?thesis by (auto simp: coherent_def readyFrom_def)
  qed (use ready in \<open>auto simp: coherent_def\<close>)
qed

context checkpointer_contract
begin

text \<open>A suspension that hands out a token has stored what it reports.\<close>

lemma suspend_stored:
  assumes b: "bound r" and i: "grn_interceptors r = []"
    and run: "run_state (applyDirectiveSuspend r opts k current st meta effects revision base) w = (step, w')"
    and res: "dst_result step = Some res" "rst_ResumeToken res \<noteq> noToken"
  shows "\<exists>s. latest w' k = Some s \<and> snp_ThreadID s = k \<and> k \<noteq> '''' \<and> snp_Revision s \<noteq> 0 \<and> rst_ResumeToken res = tokenAt k (snp_Revision s)
    \<and> snp_State s = st \<and> snp_Effects s = effects \<and> rst_Status res = RunStatusSuspended
    \<and> rmd_RetryCounts (snp_RunMeta s) = rmd_RetryCounts meta \<and> rmd_BudgetCounts (snp_RunMeta s) = rmd_BudgetCounts meta
    \<and> rmd_HandoffStatus (snp_RunMeta s) = rmd_HandoffStatus meta
    \<and> snp_ExecutionPointer s = rst_ExecutionPointer res \<and> snp_ExecutionPointer s \<noteq> '''' \<and> isNode (gph_nodes (grn_graph r)) (snp_ExecutionPointer s)"
proof -
  let ?ptr = "directiveResumePointer current base"
  obtain telemetry v1 where v1: "run_state (grn_capture r) w = (telemetry, v1)" by force
  obtain now v2 where v2: "run_state (grn_now r) v1 = (now, v2)" by force
  let ?meta = "endSegment SegmentEndSuspend now (meta\<lparr>rmd_TelemetryContext := telemetry\<rparr>)"
  let ?s = "\<lparr>snp_ThreadID = k, snp_ExecutionPointer = ?ptr, snp_Revision = 0, snp_State = st, snp_RunMeta = ?meta, snp_Effects = effects\<rparr>"
  note run' = run [unfolded applyDirectiveSuspend_def Let_def run_state_bind v1, simplified, unfolded run_state_bind v2, simplified]
  have failed: "rst_ResumeToken x = noToken" if "run_state (newRunResultFailed r st effects m p why) u = (x, u')" for x m p why u u'
    using that by (auto simp: newRunResultFailed_def newRunResult_def run_state_bind split: if_splits prod.splits)
  show ?thesis
  proof (cases "validateExecutionPointer r ?ptr")
    case (Some x)
    then show ?thesis using run' res failed by (auto simp: run_state_bind terminalDirectiveStep_def split: prod.splits)
  next
    case None
    obtain p n persisted e v3 where v3: "run_state (persistSnapshotPrepared r opts revision ?s current st) v2 = ((p, n, persisted, e), v3)"
      by (metis prod.exhaust)
    note pp = persist_prepared [OF b v3]
    note run'' = run' [unfolded None persistSnapshot_def run_state_bind, simplified, unfolded v3, simplified]
    have p: persisted "e = None"
      using run'' res failed by (auto simp: run_state_bind terminalDirectiveStep_def newRunResultSuspended_def newRunResult_def Let_def
          split: prod.splits option.splits if_splits)
    have st: "snp_State p = st"
      using v3 p i by (auto simp: persistSnapshotPrepared_def prepareSnapshot_def run_state_bind wrapRes_def split: if_splits option.splits sum.splits prod.splits)
    obtain policyErr v4 where v4: "run_state (applyRetentionPolicy r k) v3 = (policyErr, v4)" by force
    note run3 = run'' [simplified p, simplified, unfolded run_state_bind v4, simplified, unfolded Let_def run_state_bind]
    obtain x v5 ev where v5: "run_state (emitTerminalEvent r ev) v4 = (x, v5)" and w': "w' = v5"
        and step: "\<exists>reason. dst_result step = Some ((newRunResultSuspended st effects ?meta ?ptr reason)\<lparr>rst_ResumeToken := tokenAt k n\<rparr>)"
      using run3 by (auto simp: terminalDirectiveStep_def split: prod.splits) blast
    have l: "latest w' = latest v3"
      using hands_offD [OF retention_off [OF b] v4] hands_offD [OF boundD(4) [OF b] v5] w' by simp
    from pp p(1) obtain t where q: "p = ?s\<lparr>snp_State := t\<rparr>" "latest v3 k = Some (p\<lparr>snp_Revision := n\<rparr>)" "n = revision + 1" "revision \<noteq> - 1" "k \<noteq> ''''" "?ptr \<noteq> ''''"
      by auto
    with l st step res show ?thesis using rev_succ_nonzero [OF q(4)] validPointer [OF None]
      by (auto simp: newRunResultSuspended_def newRunResult_def endSegment_def)
  qed
qed

end

lemma memory_load:
  "latestSnapshot w k = Some s \<Longrightarrow> run_state (ckp_Load (memoryCheckpointer zero) k) w = ((s, snp_Revision s, None), w)"
  by (auto simp: memoryCheckpointer_def memoryLoad_def latestSnapshot_def Let_def split: if_splits)

text \<open>
  C31. A suspended run resumes where it stopped. When a node suspends in a runner
  that saves to the in-memory checkpointer, with no interceptors and no handoff
  status in the metadata, and the result carries a token, then resuming with this
  token, by the same runner and with no overlay, no resume target policy and no
  budget counts given to the call, is admitted with exactly the state, effects,
  retry counters and budgets of the suspension, at the pointer of the result, on
  the revision of the token. The step counter is that of the segment: it starts
  again at zero.
\<close>

theorem suspended_run_resumes:
  assumes "memoryBound zero r" and "grn_interceptors r = []" and "rmd_HandoffStatus meta = HandoffStatusNone"
    and "run_state (applyDirectiveSuspend r opts k current st meta effects revision base) w = (step, w')"
    and "dst_result step = Some res" and "rst_ResumeToken res \<noteq> noToken"
    and "inv_overlay opts' = None" and "inv_resumeTargetPolicy opts' = None" and "inv_budgetCounts opts' = []"
  shows "\<exists>d v. run_state (evaluateResume r (memoryCheckpointer zero) z opts' (rst_ResumeToken res)) w' = ((d, None), v)
    \<and> dcn_Status d = ResumeDecisionReady \<and> dcn_State d = st \<and> dcn_Effects d = effects \<and> dcn_ExecutionPointer d = rst_ExecutionPointer res
    \<and> rmd_RetryCounts (dcn_RunMeta d) = rmd_RetryCounts meta \<and> rmd_BudgetCounts (dcn_RunMeta d) = rmd_BudgetCounts meta
    \<and> rmd_StepCount (dcn_RunMeta d) = 0 \<and> tokenAt k (dcn_SnapshotRevision d) = rst_ResumeToken res"
proof -
  from memory.suspend_stored [OF memory_bound [OF assms(1)] assms(2,4-6)] obtain s where s: "latestSnapshot w' k = Some s" "snp_ThreadID s = k"
      "k \<noteq> ''''" "snp_Revision s \<noteq> 0" "rst_ResumeToken res = tokenAt k (snp_Revision s)" "snp_State s = st" "snp_Effects s = effects"
      "rmd_RetryCounts (snp_RunMeta s) = rmd_RetryCounts meta" "rmd_BudgetCounts (snp_RunMeta s) = rmd_BudgetCounts meta"
      "rmd_HandoffStatus (snp_RunMeta s) = HandoffStatusNone" "snp_ExecutionPointer s = rst_ExecutionPointer res"
      and node: "isNode (gph_nodes (grn_graph r)) (snp_ExecutionPointer s)" and ptr: "snp_ExecutionPointer s \<noteq> ''''" using assms(3) by auto
  have norm: "normalizeLoadedSnapshot k s (snp_Revision s) = (s, None)" using s(2-4) ptr by (simp add: normalizeLoadedSnapshot_def Let_def)
  obtain m v where m: "run_state (resetSegmentCounters r (snp_RunMeta s)) w' = (m, v)" by force
  obtain seg now where "m = (snp_RunMeta s)\<lparr>rmd_Segment := seg, rmd_SegmentStartTime := now, rmd_StepCount := 0\<rparr>"
    using returnsD [OF reset_shape m] by auto
  then show ?thesis using s(2-) node ptr norm m assms(2,7,8,9)
    by (auto simp: memory_load [OF s(1)] evaluateResume_def loadNormalizedSnapshot_def resumeLoaded_def resumeAdmitted_def run_state_bind Let_def applyResumeTargetPolicy_def
        newResumeDecision_def mapsCopy_def)
qed

lemma sample_suspend:
  "\<exists>step res w'. run_state (applyDirectiveSuspend sampleRunner sampleOptions ''t'' ''n'' 7 emptyRunMeta [3] 0 (Suspend ''later'' []))
       \<lparr>mw_history = [], mw_rest = []\<rparr> = (step, w') \<and> dst_result step = Some res \<and> rst_ResumeToken res = tokenAt ''t'' 1"
  by (simp add: byte_def applyDirectiveSuspend_def persistSnapshot_def persistSnapshotPrepared_def prepareSnapshot_def saveSnapshot_def validateInvariant_def
      validateExecutionPointer_def directiveResumePointer_def Suspend_def applyDirectiveOptions_def applyRetentionPolicy_def emitTerminalEvent_def emitEvent_def
      sampleRunner_def sampleGraph_def sampleOptions_def run_state_bind Let_def wrapRes_def memoryCheckpointer_def memorySave_def memoryPrune_def
      ValidateSnapshotHeader_def historyOf_def currentRevision_def newRunResultSuspended_def newRunResult_def terminalDirectiveStep_def
      applyBuildOptions_def WithMaxSteps_def WithRetentionLimit_def)

theorem suspended_run_resumes_witness:
  "\<exists>step res w' d v. run_state (applyDirectiveSuspend sampleRunner sampleOptions ''t'' ''n'' 7 emptyRunMeta [3] 0 (Suspend ''later'' []))
       \<lparr>mw_history = [], mw_rest = []\<rparr> = (step, w') \<and> dst_result step = Some res
     \<and> run_state (evaluateResume sampleRunner (memoryCheckpointer sampleZero) 0 sampleOptions (rst_ResumeToken res)) w' = ((d, None), v)
     \<and> dcn_Status d = ResumeDecisionReady \<and> dcn_State d = 7 \<and> dcn_Effects d = [3]"
proof -
  obtain step res w' where s: "run_state (applyDirectiveSuspend sampleRunner sampleOptions ''t'' ''n'' 7 emptyRunMeta [3] 0 (Suspend ''later'' []))
       \<lparr>mw_history = [], mw_rest = []\<rparr> = (step, w')" "dst_result step = Some res" "rst_ResumeToken res = tokenAt ''t'' 1"
    using sample_suspend by blast
  have "rst_ResumeToken res \<noteq> noToken" "rmd_HandoffStatus emptyRunMeta = HandoffStatusNone" "inv_overlay sampleOptions = None"
      "inv_resumeTargetPolicy sampleOptions = None" "inv_budgetCounts sampleOptions = []"
    using s(3) by (simp_all add: emptyRunMeta_def sampleOptions_def)
  from suspended_run_resumes [OF sample_bound sampleRunner_fields(5) this(2) s(1,2) this(1,3-5), of 0] s show ?thesis by blast
qed

theorem resume_decision_is_sound_witness:
  "\<exists>d w'. run_state (evaluateResume sampleRunner (memoryCheckpointer sampleZero) 0 sampleOptions (tokenAt ''t'' 3)) \<lparr>mw_history = [], mw_rest = []\<rparr>
       = ((d, Some (Sent ErrThreadNotFound)), w') \<and> dcn_Err d = Some (Sent ErrThreadNotFound) \<and> dcn_Status d \<noteq> ResumeDecisionReady"
proof -
  obtain d w' where d: "run_state (evaluateResume sampleRunner (memoryCheckpointer sampleZero) 0 sampleOptions (tokenAt ''t'' 3)) \<lparr>mw_history = [], mw_rest = []\<rparr>
       = ((d, Some (Sent ErrThreadNotFound)), w')"
    by (auto simp: evaluateResume_def loadNormalizedSnapshot_def resumeLoaded_def refuse_def run_state_bind memoryCheckpointer_def memoryLoad_def
        historyOf_def newResumeDecision_def)
  from resume_decision_is_sound [OF d] d show ?thesis by auto
qed

end
