(* ===== verification/Execution_Checkpointer.thy ===== *)
theory Execution_Checkpointer
  imports Execution_Store Runner_Recovery
begin

text \<open>
  The checkpointer of a durable run (execution\_checkpointer.go,
  execution\_session\_observation.go, execution\_observation.go, execution\_failure.go,
  durable\_wait\_registration.go, wait\_observation.go, child\_persistence.go): the
  in-memory head of one execution, every commit that advances it, and the
  lifecycle observations published with it.

  The state of a computation is a \<open>session\<close>: the mutable fields of the Go
  checkpointer and of its session beside the world of the host. Computations of
  the host see the world alone. A method that holds the mutex is one uninterrupted
  computation; the callbacks that run while the mutex is free are computations over
  the whole session, so they include what other calls of the run do meanwhile.
\<close>

section \<open>Lifecycle observations\<close>

datatype LifecycleOperation = LifecycleExecution | LifecycleTerminal | LifecycleCheckpoint | LifecycleHandoff
  | LifecycleResume | LifecycleActivity | LifecycleReconcile | LifecycleRetry | LifecycleChildLaunch
  | LifecycleChildResolve | LifecycleChildJoin | LifecycleChildCancel | LifecycleWaitArm | LifecycleWaitDelivery
  | LifecycleWaitCancel | LifecycleLease | LifecycleMigration | LifecycleImport | LifecycleFork | LifecycleRollover
  | LifecycleRetention

datatype LifecycleStage = LifecycleStarted | LifecycleFailed | LifecycleCommitted | LifecycleReplayed

record LifecycleObservation =
  obs_Operation :: LifecycleOperation
  obs_Stage :: LifecycleStage
  obs_ExecutionID :: string
  obs_ParentExecutionID :: string
  obs_SegmentID :: string
  obs_Node :: string
  obs_ActivityID :: string
  obs_Attempt :: int
  obs_ChildID :: string
  obs_ChildExecutionID :: string
  obs_WorkID :: string
  obs_DecisionID :: string
  obs_SourceExecutionID :: string
  obs_TargetExecutionID :: string
  obs_TargetRevision :: uint64
  obs_LeaseIncarnation :: uint64
  obs_SourceRevision :: uint64
  obs_Revision :: uint64
  obs_Code :: string

definition lifecycleOutcomeCompleted :: string where "lifecycleOutcomeCompleted = ''outcome_completed''"
definition lifecycleOutcomeFailed :: string where "lifecycleOutcomeFailed = ''outcome_failed''"

definition lifecycleObservation :: "LifecycleOperation \<Rightarrow> LifecycleStage \<Rightarrow> string \<Rightarrow> string \<Rightarrow> LifecycleObservation" where
  "lifecycleObservation operation stage execution pointer =
    \<lparr>obs_Operation = operation, obs_Stage = stage, obs_ExecutionID = execution, obs_ParentExecutionID = '''',
     obs_SegmentID = '''', obs_Node = pointer, obs_ActivityID = '''', obs_Attempt = 0, obs_ChildID = '''',
     obs_ChildExecutionID = '''', obs_WorkID = '''', obs_DecisionID = '''', obs_SourceExecutionID = '''',
     obs_TargetExecutionID = '''', obs_TargetRevision = 0, obs_LeaseIncarnation = 0, obs_SourceRevision = 0,
     obs_Revision = 0, obs_Code = ''''\<rparr>"

definition executionObservation :: "ExecutionEnvelope \<Rightarrow> LifecycleOperation \<Rightarrow> LifecycleStage \<Rightarrow> LifecycleObservation" where
  "executionObservation e operation stage =
    (lifecycleObservation operation stage (env_ExecutionID e) (env_Pointer e))
      \<lparr>obs_SegmentID := seg_SegmentID (rmd_Segment (env_RunMeta e)), obs_SourceRevision := env_Revision e\<rparr>"

definition waitObservation :: "ExecutionEnvelope \<Rightarrow> LifecycleOperation \<Rightarrow> string \<Rightarrow> string \<Rightarrow> LifecycleObservation" where
  "waitObservation source operation generation decision =
    (executionObservation source operation LifecycleStarted)\<lparr>obs_WorkID := generation, obs_DecisionID := decision\<rparr>"

section \<open>The session\<close>

text \<open>
  \<open>ses_lossConfirmed\<close> and \<open>ses_observation\<close> are the fields of \<open>executionSession\<close>
  that a commit updates, the others those of \<open>executionCheckpointer\<close>.
\<close>

record 'w session =
  ses_envelope :: ExecutionEnvelope
  ses_stepRevision :: uint64
  ses_persistenceFailed :: bool
  ses_lossConfirmed :: bool
  ses_observation :: LifecycleObservation
  ses_world :: 'w

record 'w DurableWaitBackend =
  wbk_WaitCapabilities :: "('w, WaitCapabilityProfile) state"
  wbk_RegisterWait :: "DurableWaitRecord \<Rightarrow> ('w, err option) state"

record ActivityInvocation =
  ivc_Identity :: string
  ivc_Input :: string
  ivc_Attempt :: int

record ChildInvocation =
  civ_ParentID :: string
  civ_GroupKey :: string
  civ_ChildID :: string
  civ_ExecutionID :: string
  civ_Revision :: uint64
  civ_Input :: string
  civ_Allocation :: counters

text \<open>A guarded callback returns, with a result or an error, or panics; the text is the one of the recovered value.\<close>

datatype 'a attempt = Returns "'a res" | Panics string

record 'w ForkExecutionPolicy =
  fxp_Label :: string
  fxp_Mode :: ForkActivityMode
  fxp_Authorize :: "(ForkLineage \<Rightarrow> ('w session, err option) state) option"
  fxp_FakeActivity :: "(ActivityInvocation \<Rightarrow> ('w session, string res) state) option"
  fxp_FakeChild :: "(ChildInvocation \<Rightarrow> ('w session, ChildResult attempt) state) option"

text \<open>
  The fields of the checkpointer that a run never changes: the store, the lease,
  the codecs, the clock, the sampler of retry delays, the observer of the context
  (\<open>None\<close> when observation is off), the error of the context and its cause, the
  wall clock, and the parameters of the model.
\<close>

record ('w, 't, 'e) executionCheckpointer =
  exc_CommitExecution :: "uint64 \<Rightarrow> ExecutionLease \<Rightarrow> ExecutionEnvelope \<Rightarrow> ('w, ExecutionEnvelope res) state"
  exc_LoadCheckpoint :: "(string \<Rightarrow> uint64 \<Rightarrow> ('w, ExecutionEnvelope res) state) option"
  exc_lease :: ExecutionLease
  exc_stateMarshal :: "'t \<Rightarrow> string res"
  exc_stateUnmarshal :: "string \<Rightarrow> 't res"
  exc_effectsMarshal :: "'e list \<Rightarrow> string res"
  exc_effectsUnmarshal :: "string \<Rightarrow> 'e list res"
  exc_clock :: "('w, gotime) state"
  exc_retryRandom :: "('w, uint64 option) state"
  exc_waitBackend :: "'w DurableWaitBackend option"
  exc_waitProfile :: "WaitCapabilityProfile option"
  exc_forkPolicy :: "'w ForkExecutionPolicy option"
  exc_forkMode :: ForkActivityMode
  exc_observer :: "(LifecycleObservation \<Rightarrow> ('w, unit) state) option"
  exc_ctxErr :: "('w, err option) state"
  exc_cause :: "('w, err option) state"
  exc_wallNow :: "('w, gotime) state"
  exc_sha :: sha256
  exc_enc :: env_codec
  exc_errText :: "err \<Rightarrow> string"

definition host :: "('w, 'a) state \<Rightarrow> ('w session, 'a) state" where
  "host m = State (\<lambda>s. case run_state m (ses_world s) of (x, w) \<Rightarrow> (x, s\<lparr>ses_world := w\<rparr>))"

definition modify :: "('s \<Rightarrow> 's) \<Rightarrow> ('s, unit) state" where
  "modify f = State (\<lambda>s. ((), f s))"

definition envelope :: "('w session, ExecutionEnvelope) state" where
  "envelope = State (\<lambda>s. (ses_envelope s, s))"

lemma run_host [simp]:
  "run_state (host m) s = (fst (run_state m (ses_world s)), s\<lparr>ses_world := snd (run_state m (ses_world s))\<rparr>)"
  by (simp add: host_def split: prod.split)

lemma run_modify [simp]: "run_state (modify f) s = ((), f s)"
  by (simp add: modify_def)

lemma run_envelope [simp]: "run_state envelope s = (ses_envelope s, s)"
  by (simp add: envelope_def)

definition observeLifecycle :: "('w, 't, 'e) executionCheckpointer \<Rightarrow> LifecycleObservation \<Rightarrow> ('w session, unit) state" where
  "observeLifecycle c event = (case exc_observer c of None \<Rightarrow> ret () | Some observer \<Rightarrow> host (observer event))"

definition observeCheckpointOutcome ::
    "('w, 't, 'e) executionCheckpointer \<Rightarrow> LifecycleObservation \<Rightarrow> uint64 \<Rightarrow> err option \<Rightarrow> ('w session, unit) state" where
  "observeCheckpointOutcome c event revision e =
    (case e of
       Some _ \<Rightarrow> observeLifecycle c event
     | None \<Rightarrow>
         if revision \<le> obs_SourceRevision event then ret ()
         else observeLifecycle c (event\<lparr>obs_Stage := LifecycleCommitted, obs_Revision := revision\<rparr>))"

section \<open>Commits\<close>

definition noteSessionLeaseFailure :: "err \<Rightarrow> ('w session, unit) state" where
  "noteSessionLeaseFailure e = modify (\<lambda>s. if errIs e ErrLeaseLost then s\<lparr>ses_lossConfirmed := True\<rparr> else s)"

definition attachSessionObservation ::
    "('w, 't, 'e) executionCheckpointer \<Rightarrow> ExecutionEnvelope \<Rightarrow> ('w session, unit) state" where
  "attachSessionObservation c e = modify (\<lambda>s.
     if lse_ExecutionID (exc_lease c) \<noteq> env_ExecutionID e then s
     else s\<lparr>ses_observation := (executionObservation e LifecycleLease LifecycleFailed)
              \<lparr>obs_LeaseIncarnation := lse_Incarnation (exc_lease c)\<rparr>\<rparr>)"

definition commitExecution ::
    "('w, 't, 'e) executionCheckpointer \<Rightarrow> uint64 \<Rightarrow> ExecutionEnvelope \<Rightarrow> ('w session, ExecutionEnvelope res) state" where
  "commitExecution c revision target = do {
     r \<leftarrow> host (exc_CommitExecution c revision (exc_lease c) target);
     case r of
       Inl e \<Rightarrow> do { noteSessionLeaseFailure e; ret (Inl e) }
     | Inr committed \<Rightarrow> do { attachSessionObservation c committed; ret (Ok committed) }
   }"

definition failPersistence :: "err \<Rightarrow> ('w session, 'a res) state" where
  "failPersistence e = do { modify (ses_persistenceFailed_update (\<lambda>_. True)); ret (Inl e) }"

definition persistSnapshotLocked ::
    "('w, 't, 'e) executionCheckpointer \<Rightarrow> ExecutionEnvelope \<Rightarrow> ('t, 'e) Snapshot \<Rightarrow> ('w session, uint64 res) state" where
  "persistSnapshotLocked c target snapshot =
    (case exc_stateMarshal c (snp_State snapshot) of
       Inl e \<Rightarrow> failPersistence e
     | Inr st \<Rightarrow>
         (case exc_effectsMarshal c (snp_Effects snapshot) of
            Inl e \<Rightarrow> failPersistence e
          | Inr effects \<Rightarrow> do {
              current \<leftarrow> envelope;
              r \<leftarrow> commitExecution c (env_Revision current)
                (target\<lparr>env_Progress := (env_Progress target)\<lparr>prg_StatePayload := st,
                          prg_ExecutionPointer := snp_ExecutionPointer snapshot\<rparr>,
                        env_EffectsPayload := effects, env_RunMeta := snp_RunMeta snapshot\<rparr>);
              case r of
                Inl e \<Rightarrow> failPersistence e
              | Inr committed \<Rightarrow> do {
                  modify (\<lambda>s. s\<lparr>ses_envelope := committed, ses_stepRevision := env_Revision committed\<rparr>);
                  ret (Ok (env_Revision committed)) } }))"

section \<open>Settled work\<close>

definition resolvedChildGroupsLocked :: "sha256 \<Rightarrow> ExecutionEnvelope \<Rightarrow> err option" where
  "resolvedChildGroupsLocked sha e =
    (case executionChildGroups sha e of
       Inl x \<Rightarrow> Some x
     | Inr groups \<Rightarrow> firstErr (\<lambda>(_, g). reject (grp_Activation g = env_Activation e
           \<and> length (grp_MergedIDs g) \<noteq> length (grp_Children g)) (Also ErrChildrenUnresolved)) groups)"

text \<open>The body of the loop of \<open>resolvedActivitiesLocked\<close> over the journal.\<close>

definition unsettledActivityError :: "ExecutionEnvelope \<Rightarrow> ActivityRecord \<Rightarrow> err option" where
  "unsettledActivityError e r =
    (if rec_Activation r \<noteq> env_Activation e then None
     else case rec_State r of
       ActivityRunning \<Rightarrow> Some (Sent ErrActivityBusy)
     | ActivityUnknown \<Rightarrow> Some (Sent ErrActivityUnknown)
     | ActivityPrepared \<Rightarrow>
         if rec_Attempts r \<noteq> [] then Some (activityRecordError r (env_Revision e)) else Some (Sent ErrActivityConflict)
     | ActivityFailed \<Rightarrow> reject (rec_Classification r = ActivityAmbiguous) ErrActivityUnknown
     | ActivityCompleted \<Rightarrow> None
     | _ \<Rightarrow> Some (Sent ErrActivityConflict))"

definition resolvedActivitiesLocked :: "sha256 \<Rightarrow> ExecutionEnvelope \<Rightarrow> err option" where
  "resolvedActivitiesLocked sha e =
    (case executionWaits sha e of
       Inl x \<Rightarrow> Some x
     | Inr waits \<Rightarrow>
         if list_ex (\<lambda>(_, w). wrc_State w = WaitArmed) waits then Some (Sent ErrWaitUnresolved)
         else orElse (resolvedChildGroupsLocked sha e)
           (case executionActivityJournal sha e of
              Inl x \<Rightarrow> Some x
            | Inr journal \<Rightarrow> firstErr (\<lambda>(_, r). unsettledActivityError e r) journal))"

section \<open>Saving and loading\<close>

definition saveLocked ::
    "('w, 't, 'e) executionCheckpointer \<Rightarrow> uint64 \<Rightarrow> ('t, 'e) Snapshot \<Rightarrow> ('w session, uint64 res) state" where
  "saveLocked c expectedRevision snapshot = do {
     s \<leftarrow> State_Monad.get;
     if expectedRevision \<noteq> ses_stepRevision s \<or> snp_ThreadID snapshot \<noteq> lse_ExecutionID (exc_lease c)
     then ret (Err ErrConcurrencyConflict)
     else case resolvedActivitiesLocked (exc_sha c) (ses_envelope s) of
       Some e \<Rightarrow> ret (Inl e)
     | None \<Rightarrow> persistSnapshotLocked c (ses_envelope s) snapshot
   }"

definition revisionOrZero :: "uint64 res \<Rightarrow> uint64" where
  "revisionOrZero r = (case r of Inl _ \<Rightarrow> 0 | Inr revision \<Rightarrow> revision)"

definition executionSave ::
    "('w, 't, 'e) executionCheckpointer \<Rightarrow> uint64 \<Rightarrow> ('t, 'e) Snapshot \<Rightarrow> ('w session, uint64 res) state" where
  "executionSave c expectedRevision snapshot = do {
     current \<leftarrow> envelope;
     r \<leftarrow> saveLocked c expectedRevision snapshot;
     observeCheckpointOutcome c (executionObservation current LifecycleCheckpoint LifecycleFailed) (revisionOrZero r) (errOf r);
     ret r
   }"

definition executionDecode ::
    "('w, 't, 'e) executionCheckpointer \<Rightarrow> ExecutionEnvelope \<Rightarrow> ExecutionEnvelope \<Rightarrow> (('t, 'e) Snapshot \<times> uint64) res" where
  "executionDecode c current e =
    check (ValidateExecutionIntegrity (exc_sha c) (exc_enc c) e (lse_ExecutionID (exc_lease c)) (env_Revision e))
      (check (ExecutionDescriptor_Check (env_Descriptor e) (env_Descriptor current))
        (check (validateExecutionCollections (exc_sha c) e)
          (res_bind (exc_stateUnmarshal c (prg_StatePayload (env_Progress e))) (\<lambda>st.
           res_bind (exc_effectsUnmarshal c (env_EffectsPayload e)) (\<lambda>effects.
             Ok (\<lparr>snp_ThreadID = env_ExecutionID e, snp_ExecutionPointer = env_Pointer e, snp_Revision = env_Revision e,
                  snp_State = st, snp_RunMeta = env_RunMeta e, snp_Effects = effects\<rparr>, env_Revision e))))))"

definition executionLoad ::
    "('w, 't, 'e) executionCheckpointer \<Rightarrow> string \<Rightarrow> ('w session, (('t, 'e) Snapshot \<times> uint64) res) state" where
  "executionLoad c threadID =
    (if threadID \<noteq> lse_ExecutionID (exc_lease c) then ret (Err ErrInvalidSnapshot)
     else do { current \<leftarrow> envelope; ret (executionDecode c current current) })"

text \<open>The loop of \<open>GetHistory\<close>: \<open>n\<close> revisions are left, from \<open>revision\<close> downwards.\<close>

primrec history_loop ::
    "('w, 't, 'e) executionCheckpointer \<Rightarrow> (string \<Rightarrow> uint64 \<Rightarrow> ('w, ExecutionEnvelope res) state) \<Rightarrow> ExecutionEnvelope \<Rightarrow> string
     \<Rightarrow> uint64 \<Rightarrow> ('t, 'e) Snapshot list \<Rightarrow> nat \<Rightarrow> ('w session, ('t, 'e) Snapshot list res) state" where
  "history_loop c load current threadID revision result 0 = ret (Ok result)"
| "history_loop c load current threadID revision result (Suc n) = do {
     r \<leftarrow> host (load threadID revision);
     case r of
       Inl e \<Rightarrow> ret (Inl e)
     | Inr e \<Rightarrow>
         (case ValidateExecutionIntegrity (exc_sha c) (exc_enc c) e threadID revision of
            Some x \<Rightarrow> ret (Inl x)
          | None \<Rightarrow>
              (case executionDecode c current e of
                 Inl x \<Rightarrow> ret (Inl x)
               | Inr (snapshot, _) \<Rightarrow> history_loop c load current threadID (revision - 1) (result @ [snapshot]) n))
   }"

definition executionGetHistory ::
    "('w, 't, 'e) executionCheckpointer \<Rightarrow> string \<Rightarrow> int \<Rightarrow> ('w session, ('t, 'e) Snapshot list res) state" where
  "executionGetHistory c threadID limit =
    (if threadID \<noteq> lse_ExecutionID (exc_lease c) then ret (Err ErrInvalidSnapshot)
     else case exc_LoadCheckpoint c of
       None \<Rightarrow> ret (Err (Also ErrExecutionHistoryUnsupported))
     | Some load \<Rightarrow> do {
         current \<leftarrow> envelope;
         history_loop c load current threadID (env_Revision current) []
           (unat (if limit > 0 then min (env_Revision current) (word_of_int limit) else env_Revision current))
       })"

text \<open>\<open>Prune\<close>, \<open>Delete\<close> and \<open>DeleteIfIdle\<close> of a durable checkpointer are refused.\<close>

definition executionPrune :: "string \<Rightarrow> int \<Rightarrow> ('w session, err option) state" where
  "executionPrune threadID limit = ret (Some (Sent ErrExecutionCapability))"

definition executionDelete :: "string \<Rightarrow> ('w session, err option) state" where
  "executionDelete threadID = ret (Some (Sent ErrExecutionCapability))"

definition executionDeleteIfIdle :: "string \<Rightarrow> ('w session, err option) state" where
  "executionDeleteIfIdle threadID = ret (Some (Sent ErrExecutionCapability))"

section \<open>Steps\<close>

text \<open>A self retry keeps the activation; every other step starts a new one.\<close>

definition advanceActivation :: "ExecutionEnvelope \<Rightarrow> ExecutionEnvelope" where
  "advanceActivation target = target\<lparr>env_Activation := env_Activation target + 1,
     env_Progress := (env_Progress target)\<lparr>prg_JournalReferences := [], prg_ChildGroupReferences := []\<rparr>\<rparr>"

definition persistStep ::
    "('w, 't, 'e) executionCheckpointer \<Rightarrow> directiveKind \<Rightarrow> string \<Rightarrow> ExecutionEnvelope \<Rightarrow> ExecutionEnvelope
     \<Rightarrow> 't \<Rightarrow> RunMetadata \<Rightarrow> 'e list \<Rightarrow> ('w session, uint64 \<times> err option) state" where
  "persistStep c directive pointer current target st meta effects = do {
     r \<leftarrow> persistSnapshotLocked c
       (if directive \<noteq> directiveRetry \<or> pointer \<noteq> env_Pointer current then advanceActivation target else target)
       \<lparr>snp_ThreadID = lse_ExecutionID (exc_lease c), snp_ExecutionPointer = pointer, snp_Revision = 0,
        snp_State = st, snp_RunMeta = meta, snp_Effects = effects\<rparr>;
     ret (revisionOrZero r, errOf r)
   }"

definition commitStepLocked ::
    "('w, 't, 'e) executionCheckpointer \<Rightarrow> ('t, 'e) directiveStep \<Rightarrow> directiveKind \<Rightarrow> 't \<Rightarrow> RunMetadata \<Rightarrow> 'e list
     \<Rightarrow> ('w session, uint64 \<times> err option) state" where
  "commitStepLocked c step directive st meta effects = do {
     current \<leftarrow> envelope;
     if directive = directiveWait then ret (env_Revision current, None)
     else case resolvedActivitiesLocked (exc_sha c) current of
       Some e \<Rightarrow> ret (0, Some e)
     | None \<Rightarrow>
         if dst_terminal step then
           (case dst_result step of
              None \<Rightarrow> ret (env_Revision current, dst_err step)
            | Some result \<Rightarrow>
                if rst_Status result \<noteq> RunStatusCompleted \<and> rst_Status result \<noteq> RunStatusFailed
                then ret (env_Revision current, None)
                else persistStep c directive (rst_ExecutionPointer result) current
                  (current\<lparr>env_Terminal := Some (makeExecutionTerminal (rst_Status result) (rst_Reason result)
                     (map_option (exc_errText c) (dst_err step)))\<rparr>)
                  st (rst_RunMeta result) effects)
         else persistStep c directive (dst_nextNode step) current current st meta effects
   }"

definition commitStep ::
    "('w, 't, 'e) executionCheckpointer \<Rightarrow> ('t, 'e) directiveStep \<Rightarrow> directiveKind \<Rightarrow> 't \<Rightarrow> RunMetadata \<Rightarrow> 'e list
     \<Rightarrow> ('w session, uint64 \<times> err option) state" where
  "commitStep c step directive st meta effects =
    (let terminal = (if \<not> dst_terminal step then None else case dst_result step of
             None \<Rightarrow> None
           | Some result \<Rightarrow> if rst_Status result = RunStatusCompleted \<or> rst_Status result = RunStatusFailed
               then Some (rst_Status result) else None) in do {
     current \<leftarrow> envelope;
     let event = (executionObservation current
             (if terminal = None then LifecycleCheckpoint else LifecycleTerminal) LifecycleFailed)
           \<lparr>obs_Code := (case terminal of None \<Rightarrow> '''' | Some status \<Rightarrow>
               if status = RunStatusFailed then lifecycleOutcomeFailed else lifecycleOutcomeCompleted),
            obs_SegmentID := seg_SegmentID (rmd_Segment meta)\<rparr>;
     r \<leftarrow> commitStepLocked c step directive st meta effects;
     observeCheckpointOutcome c event (fst r) (snd r);
     ret r
   })"

section \<open>Arming a durable wait\<close>

text \<open>
  \<open>json.Marshal\<close> of a map fails when one of its times has no JSON encoding; what it
  encodes decodes to the map again.
\<close>

definition waitTimes :: "DurableWaitRecord \<Rightarrow> gotime list" where
  "waitTimes w = wsp_Deadline (wrc_Spec w) # map (\<lambda>(_, d). wdc_At d) (wrc_Decisions w)
     @ (case wrc_Cancellation w of None \<Rightarrow> [] | Some x \<Rightarrow> [wcn_At x])"

definition marshalError :: err where
  "marshalError = Plain ''json: year outside of range [0,9999]''"

definition marshalWaits :: "durable_waits \<Rightarrow> durable_waits payload res" where
  "marshalWaits waits =
    (if list_all (\<lambda>(_, w). list_all marshalTimeOK (waitTimes w)) waits then Ok (Bytes_of True waits) else Inl marshalError)"

definition armWaitLocked ::
    "('w, 't, 'e) executionCheckpointer \<Rightarrow> uint64 \<Rightarrow> ('t, 'e) Snapshot \<Rightarrow> DurableWaitSpec
     \<Rightarrow> ('w session, DurableWaitRecord res) state" where
  "armWaitLocked c expectedRevision snapshot spec =
    (case (exc_waitBackend c, exc_waitProfile c) of
       (Some backend, Some profile) \<Rightarrow> do {
         capabilities \<leftarrow> host (wbk_WaitCapabilities backend);
         s \<leftarrow> State_Monad.get;
         let current = ses_envelope s;
         if capabilities \<noteq> profile then ret (Err ErrExecutionCapability)
         else if expectedRevision \<noteq> ses_stepRevision s \<or> snp_ThreadID snapshot \<noteq> env_ExecutionID current
           \<or> snp_ExecutionPointer snapshot \<noteq> env_Pointer current then ret (Err ErrConcurrencyConflict)
         else if env_Revision current = - 1 then ret (Err ErrWaitInvalid)
         else case resolvedActivitiesLocked (exc_sha c) current of
           Some e \<Rightarrow> ret (Inl e)
         | None \<Rightarrow> do {
             capabilities' \<leftarrow> host (wbk_WaitCapabilities backend);
             let planned = planDurableWait (exc_sha c) (env_ExecutionID current) (snp_ExecutionPointer snapshot)
               (env_Activation current) (env_Revision current + 1) spec capabilities';
             case res_bind planned (\<lambda>record. res_bind (executionWaits (exc_sha c) current) (\<lambda>waits.
               let identity = waitIdentity (exc_sha c) (wrc_ExecutionID record) (wrc_Node record) (wrc_Activation record)
                     (wsp_ID (wrc_Spec record)) in
               if lookup waits identity \<noteq> None then Err ErrWaitConflict
               else res_bind (marshalWaits (put identity record waits)) (\<lambda>payload. Ok (record, payload)))) of
               Inl e \<Rightarrow> ret (Inl e)
             | Inr (record, payload) \<Rightarrow> do {
                 r \<leftarrow> persistSnapshotLocked c (current\<lparr>env_WaitsPayload := payload\<rparr>) snapshot;
                 case r of Inl e \<Rightarrow> ret (Inl e) | Inr _ \<Rightarrow> ret (Ok record) } } }
     | _ \<Rightarrow> ret (Err ErrExecutionCapability))"

definition armWait ::
    "('w, 't, 'e) executionCheckpointer \<Rightarrow> uint64 \<Rightarrow> ('t, 'e) Snapshot \<Rightarrow> DurableWaitSpec
     \<Rightarrow> ('w session, DurableWaitRecord res) state" where
  "armWait c expectedRevision snapshot spec = do {
     current \<leftarrow> envelope;
     let event = (waitObservation current LifecycleWaitArm (wsp_ID spec) '''')\<lparr>obs_Stage := LifecycleFailed\<rparr>;
     r \<leftarrow> armWaitLocked c expectedRevision snapshot spec;
     armed \<leftarrow> envelope;
     observeLifecycle c (case r of
         Inl _ \<Rightarrow> event
       | Inr record \<Rightarrow> event\<lparr>obs_Stage := LifecycleCommitted, obs_Revision := env_Revision armed,
           obs_WorkID := wrc_Generation record, obs_SegmentID := seg_SegmentID (rmd_Segment (snp_RunMeta snapshot))\<rparr>);
     ret r
   }"

section \<open>Failures of a run\<close>

definition recoverableExecutionFailure :: "err \<Rightarrow> bool" where
  "recoverableExecutionFailure e = list_ex (errIs e)
    [ErrActivityConflict, ErrActivityUnknown, ErrActivityBusy, ErrActivityRetryPending,
     ErrActivityFailed, ErrActivityAttemptsExhausted, ErrActivityScheduleInvalid, ErrLeaseLost, ErrConcurrencyConflict,
     ErrExecutionCapability, ContextCanceled, ContextDeadlineExceeded,
     ErrWaitInvalid, ErrWaitConflict, ErrWaitStale, ErrWaitUnresolved, ErrWaitRegistration]"

definition canCommitRunFailureLocked :: "('w, 't, 'e) executionCheckpointer \<Rightarrow> err \<Rightarrow> ('w session, bool) state" where
  "canCommitRunFailureLocked c runErr = do {
     canceled \<leftarrow> host (exc_cause c);
     s \<leftarrow> State_Monad.get;
     ret (canceled = None \<and> \<not> ses_persistenceFailed s \<and> env_Terminal (ses_envelope s) = None
       \<and> \<not> recoverableExecutionFailure runErr \<and> resolvedActivitiesLocked (exc_sha c) (ses_envelope s) = None)
   }"

text \<open>The second component is the result, whose metadata the Go code updates in place.\<close>

definition commitRunFailureLocked ::
    "('w, 't, 'e) executionCheckpointer \<Rightarrow> ('t, 'e) RunResult \<Rightarrow> err \<Rightarrow> ('w session, err option \<times> ('t, 'e) RunResult) state" where
  "commitRunFailureLocked c result runErr = do {
     allowed \<leftarrow> canCommitRunFailureLocked c runErr;
     if \<not> allowed then ret (None, result)
     else do {
       current \<leftarrow> envelope;
       now \<leftarrow> host (exc_wallNow c);
       let meta = endSegment SegmentEndFail now (rst_RunMeta result);
       r \<leftarrow> persistSnapshotLocked c
         (current\<lparr>env_Terminal := Some \<lparr>trm_Status = RunStatusFailed, trm_Reason = rst_Reason result,
            trm_Failure = Some \<lparr>efl_Message = exc_errText c runErr\<rparr>\<rparr>\<rparr>)
         \<lparr>snp_ThreadID = lse_ExecutionID (exc_lease c), snp_ExecutionPointer = rst_ExecutionPointer result, snp_Revision = 0,
          snp_State = rst_State result, snp_RunMeta = meta, snp_Effects = rst_Effects result\<rparr>;
       ret (case r of Inl e \<Rightarrow> (Some e, result) | Inr _ \<Rightarrow> (None, result\<lparr>rst_RunMeta := meta\<rparr>)) } }"

definition commitRunFailure ::
    "('w, 't, 'e) executionCheckpointer \<Rightarrow> ('t, 'e) RunResult \<Rightarrow> err \<Rightarrow> ('w session, err option \<times> ('t, 'e) RunResult) state" where
  "commitRunFailure c result runErr = do {
     current \<leftarrow> envelope;
     let event = (executionObservation current LifecycleTerminal LifecycleFailed)\<lparr>obs_Code := lifecycleOutcomeFailed\<rparr>;
     r \<leftarrow> commitRunFailureLocked c result runErr;
     after \<leftarrow> envelope;
     observeCheckpointOutcome c event (env_Revision after) (fst r);
     ret r
   }"

text \<open>The terminal event that the sink of the run held back is published only after its commit.\<close>

definition finalizeRunOutcome ::
    "('w, 't, 'e) executionCheckpointer \<Rightarrow> ('t, 'e) RunResult option \<Rightarrow> err option
     \<Rightarrow> (('t, 'e) RunEvent \<Rightarrow> ('w session, bool) state) \<Rightarrow> ('t, 'e) RunEvent option
     \<Rightarrow> ('w session, ('t, 'e) RunResult option \<times> err option) state" where
  "finalizeRunOutcome c result runErr sink terminal = do {
     (result', runErr') \<leftarrow> (case (result, runErr) of
         (Some rst, Some e) \<Rightarrow>
           if rst_Status rst = RunStatusFailed then do {
             (commitErr, rst') \<leftarrow> commitRunFailure c rst e;
             ret (Some rst', case commitErr of None \<Rightarrow> Some e | Some x \<Rightarrow> errJoin [Some e, Some x]) }
           else ret (result, runErr)
       | _ \<Rightarrow> ret (result, runErr));
     current \<leftarrow> envelope;
     let committedFailure = (case env_Terminal current of None \<Rightarrow> False | Some t \<Rightarrow> trm_Status t = RunStatusFailed);
     (case terminal of
        Some event \<Rightarrow> if runErr' = None \<or> committedFailure then do { _ \<leftarrow> sink event; ret () } else ret ()
      | None \<Rightarrow> ret ());
     ret (map_option (\<lambda>rst. rst\<lparr>rst_ResumeToken :=
        \<lparr>tok_ThreadID = env_ExecutionID current, tok_SnapshotRevision = env_Revision current\<rparr>\<rparr>) result', runErr')
   }"

section \<open>What settled means\<close>

text \<open>
  No wait is armed, every child group is joined, and every activity has a
  definitive outcome. The collections of the envelope are readable.
\<close>

definition settled :: "sha256 \<Rightarrow> ExecutionEnvelope \<Rightarrow> bool" where
  "settled sha e \<longleftrightarrow> (\<exists>waits groups journal.
     executionWaits sha e = Ok waits \<and> (\<forall>(_, w) \<in> set waits. wrc_State w \<noteq> WaitArmed)
     \<and> executionChildGroups sha e = Ok groups \<and> (\<forall>(_, g) \<in> set groups. length (grp_MergedIDs g) = length (grp_Children g))
     \<and> executionActivityJournal sha e = Ok journal
     \<and> (\<forall>(_, r) \<in> set journal. rec_State r = ActivityCompleted \<or> rec_State r = ActivityFailed))"

lemma unsettled_None_iff:
  "unsettledActivityError e r = None \<longleftrightarrow> rec_Activation r \<noteq> env_Activation e \<or> rec_State r = ActivityCompleted
     \<or> rec_State r = ActivityFailed \<and> rec_Classification r \<noteq> ActivityAmbiguous"
  by (auto simp: unsettledActivityError_def split: ActivityState.splits)

lemma valid_failed_class:
  assumes "validateActivityRecord sha r = None" and "rec_State r = ActivityFailed"
  shows "rec_Classification r \<noteq> ActivityAmbiguous"
  using assms
  by (auto simp: validateActivityRecord_def validateActivityRecordState_def validFailedActivity_def Let_def res_simps split: if_splits)

lemma valid_state_known:
  assumes "validateActivityRecord sha r = None" and "\<not> activityUnresolved (rec_State r)"
  shows "rec_State r = ActivityCompleted \<or> rec_State r = ActivityFailed"
  using assms
  by (cases "rec_State r") (auto simp: validateActivityRecord_def validateActivityRecordState_def activityUnresolved_def Let_def res_simps split: if_splits)

lemma journal_entry_valid:
  assumes "executionActivityJournal sha e = Ok journal" and "(identity, r) \<in> set journal"
  shows "validateActivityRecord sha r = None" "identity = rec_Identity r"
  using assms by (auto simp: executionActivityJournal_Ok_iff decodeActivityJournal_Ok_iff)

lemma journal_settled_iff:
  assumes "executionActivityJournal sha e = Ok journal"
  shows "(\<forall>(_, r) \<in> set journal. unsettledActivityError e r = None)
    \<longleftrightarrow> (\<forall>(_, r) \<in> set journal. rec_State r = ActivityCompleted \<or> rec_State r = ActivityFailed)"
proof -
  have "unsettledActivityError e r = None \<longleftrightarrow> rec_State r = ActivityCompleted \<or> rec_State r = ActivityFailed"
    if "(identity, r) \<in> set journal" for identity r
  proof -
    note v = journal_entry_valid(1) [OF assms that]
    have "activityUnresolved (rec_State r) \<Longrightarrow> rec_Activation r = env_Activation e"
      using assms that by (auto simp: executionActivityJournal_Ok_iff validateActivityReferences_iff)
    then show ?thesis
      unfolding unsettled_None_iff using valid_failed_class [OF v] valid_state_known [OF v]
      by (auto simp: activityUnresolved_def)
  qed
  then show ?thesis by fastforce
qed

lemma groups_settled_iff:
  assumes "executionChildGroups sha e = Ok groups"
  shows "(\<forall>(_, g) \<in> set groups. \<not> (grp_Activation g = env_Activation e \<and> length (grp_MergedIDs g) \<noteq> length (grp_Children g)))
    \<longleftrightarrow> (\<forall>(_, g) \<in> set groups. length (grp_MergedIDs g) = length (grp_Children g))"
  using assms by (fastforce simp: executionChildGroups_Ok_iff validateChildGroupReferences_iff currentChildGroup_def)

lemma resolved_iff_settled: "resolvedActivitiesLocked sha e = None \<longleftrightarrow> settled sha e"
proof (cases "executionWaits sha e")
  case (Inr waits)
  note w = this
  show ?thesis
  proof (cases "executionChildGroups sha e")
    case (Inr groups)
    note g = this groups_settled_iff [OF this]
    show ?thesis
    proof (cases "executionActivityJournal sha e")
      case (Inr journal)
      note j = this journal_settled_iff [OF this]
      show ?thesis
        using w g j
        by (simp add: resolvedActivitiesLocked_def resolvedChildGroupsLocked_def settled_def res_simps
            list_ex_iff split_beta)
    qed (use w g in \<open>cases "resolvedChildGroupsLocked sha e"; simp add: resolvedActivitiesLocked_def settled_def\<close>)
  qed (use w in \<open>simp add: resolvedActivitiesLocked_def resolvedChildGroupsLocked_def settled_def res_simps\<close>)
qed (simp add: resolvedActivitiesLocked_def settled_def)

section \<open>Every move of the head is a commit\<close>

text \<open>
  \<open>moves c s s'\<close>: the head of the session went from that of \<open>s\<close> to that of \<open>s'\<close> by
  one commit that the store accepted at the revision of the old head under the
  lease of the session, and nothing was left to settle before it. The commit
  carries the journal, the child groups and the whole provenance over unchanged;
  waits change only by the new one when a wait is armed.
\<close>

definition carries :: "ExecutionEnvelope \<Rightarrow> ExecutionEnvelope \<Rightarrow> bool" where
  "carries source target \<longleftrightarrow> env_ExecutionID target = env_ExecutionID source \<and> env_Descriptor target = env_Descriptor source
     \<and> env_RuntimeProfile target = env_RuntimeProfile source \<and> env_JournalPayload target = env_JournalPayload source
     \<and> env_ChildrenPayload target = env_ChildrenPayload source \<and> env_Migration target = env_Migration source
     \<and> env_Import target = env_Import source \<and> env_Rollover target = env_Rollover source
     \<and> env_Transfer target = env_Transfer source \<and> env_Fork target = env_Fork source"

definition moves :: "('w, 't, 'e) executionCheckpointer \<Rightarrow> 'w session \<Rightarrow> 'w session \<Rightarrow> bool" where
  "moves c s s' \<longleftrightarrow> (\<exists>target w w'.
     run_state (exc_CommitExecution c (env_Revision (ses_envelope s)) (exc_lease c) target) w = (Ok (ses_envelope s'), w')
     \<and> carries (ses_envelope s) target)
   \<and> ses_stepRevision s' = env_Revision (ses_envelope s') \<and> settled (exc_sha c) (ses_envelope s)"

definition observed :: "('w, 't, 'e) executionCheckpointer \<Rightarrow> LifecycleObservation \<Rightarrow> 'w \<Rightarrow> 'w" where
  "observed c event w = (case exc_observer c of None \<Rightarrow> w | Some observer \<Rightarrow> snd (run_state (observer event) w))"

lemma run_observe [simp]: "run_state (observeLifecycle c event) s = ((), s\<lparr>ses_world := observed c event (ses_world s)\<rparr>)"
  by (simp add: observeLifecycle_def observed_def split: option.split)

definition observedOutcome :: "('w, 't, 'e) executionCheckpointer \<Rightarrow> LifecycleObservation \<Rightarrow> uint64 \<Rightarrow> err option \<Rightarrow> 'w \<Rightarrow> 'w" where
  "observedOutcome c event revision e w = (case e of
     Some _ \<Rightarrow> observed c event w
   | None \<Rightarrow> if revision \<le> obs_SourceRevision event then w
       else observed c (event\<lparr>obs_Stage := LifecycleCommitted, obs_Revision := revision\<rparr>) w)"

lemma run_observe_outcome [simp]:
  "run_state (observeCheckpointOutcome c event revision e) s = ((), s\<lparr>ses_world := observedOutcome c event revision e (ses_world s)\<rparr>)"
  by (simp add: observeCheckpointOutcome_def observedOutcome_def split: option.split)

lemma run_commit:
  "run_state (commitExecution c revision target) s = (r, s') \<Longrightarrow>
    (\<exists>w w'. run_state (exc_CommitExecution c revision (exc_lease c) target) w = (r, w'))
    \<and> ses_envelope s' = ses_envelope s \<and> ses_stepRevision s' = ses_stepRevision s
    \<and> ses_persistenceFailed s' = ses_persistenceFailed s"
  by (cases "run_state (exc_CommitExecution c revision (exc_lease c) target) (ses_world s)")
    (auto simp: commitExecution_def noteSessionLeaseFailure_def attachSessionObservation_def split: sum.splits if_splits)

text \<open>Persisting a snapshot either fails with the head unmoved, or commits exactly the snapshot.\<close>

definition snapshotTarget :: "string \<Rightarrow> string \<Rightarrow> ExecutionEnvelope \<Rightarrow> ('t, 'e) Snapshot \<Rightarrow> ExecutionEnvelope" where
  "snapshotTarget st effects target snapshot =
    target\<lparr>env_Progress := (env_Progress target)\<lparr>prg_StatePayload := st, prg_ExecutionPointer := snp_ExecutionPointer snapshot\<rparr>,
      env_EffectsPayload := effects, env_RunMeta := snp_RunMeta snapshot\<rparr>"

lemma persist_cases:
  assumes "run_state (persistSnapshotLocked c target snapshot) s = (r, s')"
  shows "(\<exists>e. r = Inl e) \<and> ses_envelope s' = ses_envelope s \<and> ses_stepRevision s' = ses_stepRevision s \<and> ses_persistenceFailed s'
    \<or> r = Ok (env_Revision (ses_envelope s')) \<and> ses_stepRevision s' = env_Revision (ses_envelope s')
      \<and> ses_persistenceFailed s' = ses_persistenceFailed s
      \<and> (\<exists>st effects w w'. exc_stateMarshal c (snp_State snapshot) = Ok st
        \<and> exc_effectsMarshal c (snp_Effects snapshot) = Ok effects
        \<and> run_state (exc_CommitExecution c (env_Revision (ses_envelope s)) (exc_lease c) (snapshotTarget st effects target snapshot)) w
            = (Ok (ses_envelope s'), w'))"
proof (cases "exc_stateMarshal c (snp_State snapshot)")
  case (Inr st)
  note a = this
  show ?thesis
  proof (cases "exc_effectsMarshal c (snp_Effects snapshot)")
    case (Inr effects)
    obtain q t where q: "run_state (commitExecution c (env_Revision (ses_envelope s)) (snapshotTarget st effects target snapshot)) s = (q, t)"
      by fastforce
    note commit = run_commit [OF this]
    have run: "run_state (persistSnapshotLocked c target snapshot) s = (case q of
        Inl e \<Rightarrow> (Inl e, t\<lparr>ses_persistenceFailed := True\<rparr>)
      | Inr committed \<Rightarrow> (Ok (env_Revision committed), t\<lparr>ses_envelope := committed, ses_stepRevision := env_Revision committed\<rparr>))"
      using a Inr q unfolding persistSnapshotLocked_def snapshotTarget_def
      by (cases q) (simp_all add: failPersistence_def)
    show ?thesis
    proof (cases q)
      case (Inl e)
      then show ?thesis using assms run commit by auto
    next
      case (Inr committed)
      then have "r = Ok (env_Revision committed)" "s' = t\<lparr>ses_envelope := committed, ses_stepRevision := env_Revision committed\<rparr>"
        using assms run by auto
      then show ?thesis using commit a \<open>exc_effectsMarshal c (snp_Effects snapshot) = Ok effects\<close> Inr by (intro disjI2) auto
    qed
  qed (use assms a in \<open>auto simp: persistSnapshotLocked_def failPersistence_def\<close>)
qed (use assms in \<open>auto simp: persistSnapshotLocked_def failPersistence_def\<close>)

definition unmoved :: "'w session \<Rightarrow> 'w session \<Rightarrow> bool" where
  "unmoved s s' \<longleftrightarrow> ses_envelope s' = ses_envelope s \<and> ses_stepRevision s' = ses_stepRevision s"

lemma moved_world [simp]:
  "moves c s (s'\<lparr>ses_world := w\<rparr>) = moves c s s'" "unmoved s (s'\<lparr>ses_world := w\<rparr>) = unmoved s s'"
  by (simp_all add: moves_def unmoved_def)

lemma carries_refl: "carries e e"
  by (simp add: carries_def)

lemma carries_snapshot: "carries source target \<Longrightarrow> carries source (snapshotTarget st effects target snapshot)"
  by (auto simp: carries_def snapshotTarget_def)

lemma carries_update [simp]:
  "carries source target \<Longrightarrow> carries source (target\<lparr>env_Terminal := terminal\<rparr>)"
  "carries source target \<Longrightarrow> carries source (target\<lparr>env_WaitsPayload := waits\<rparr>)"
  "carries source target \<Longrightarrow> carries source (advanceActivation target)"
  by (auto simp: carries_def advanceActivation_def)

lemma persist_moves:
  assumes "run_state (persistSnapshotLocked c target snapshot) t = (r, s')" and "ses_envelope t = ses_envelope s"
    and "ses_stepRevision t = ses_stepRevision s" and "resolvedActivitiesLocked (exc_sha c) (ses_envelope s) = None" and "carries (ses_envelope s) target"
  shows "case r of Inl _ \<Rightarrow> unmoved s s' | Inr revision \<Rightarrow> moves c s s' \<and> revision = env_Revision (ses_envelope s')"
  using persist_cases [OF assms(1)] assms(2-) carries_snapshot [OF assms(5)]
  unfolding resolved_iff_settled by (fastforce simp: unmoved_def moves_def)

lemma save_moves:
  "case run_state (executionSave c expected snapshot) s of (r, s') \<Rightarrow>
    (case r of Inl _ \<Rightarrow> unmoved s s' | Inr revision \<Rightarrow> moves c s s' \<and> revision = env_Revision (ses_envelope s'))"
proof -
  obtain r t where r: "run_state (saveLocked c expected snapshot) s = (r, t)" by fastforce
  have "case r of Inl _ \<Rightarrow> unmoved s t | Inr revision \<Rightarrow> moves c s t \<and> revision = env_Revision (ses_envelope t)"
    using r persist_moves [OF _ refl refl _ carries_refl, where c = c and snapshot = snapshot]
    by (auto simp: saveLocked_def unmoved_def split: if_splits option.splits)
  then show ?thesis
    by (simp add: executionSave_def r split: sum.splits)
qed

lemma persistStep_moves:
  assumes "resolvedActivitiesLocked (exc_sha c) (ses_envelope s) = None" and "carries (ses_envelope s) target"
    and "run_state (persistStep c directive pointer current target st meta effects) s = ((revision, e), s')"
  shows "if e = None then moves c s s' \<and> revision = env_Revision (ses_envelope s') else unmoved s s'"
proof -
  define target' where "target' = (if directive \<noteq> directiveRetry \<or> pointer \<noteq> env_Pointer current then advanceActivation target else target)"
  have t: "carries (ses_envelope s) target'" using assms(2) by (simp add: target'_def)
  obtain r t where r: "run_state (persistSnapshotLocked c target'
      \<lparr>snp_ThreadID = lse_ExecutionID (exc_lease c), snp_ExecutionPointer = pointer, snp_Revision = 0,
        snp_State = st, snp_RunMeta = meta, snp_Effects = effects\<rparr>) s = (r, t)" by fastforce
  show ?thesis
    using persist_moves [OF r refl refl assms(1) t] assms(3) r
    by (cases r) (auto simp: persistStep_def target'_def revisionOrZero_def errOf_def)
qed

lemma commitStepLocked_moves:
  assumes "run_state (commitStepLocked c step directive st meta effects) s = ((revision, e), s')"
  shows "if e = None \<and> directive \<noteq> directiveWait \<and> \<not> dst_terminal step then moves c s s' \<and> revision = env_Revision (ses_envelope s')
    else unmoved s s' \<or> moves c s s' \<and> e = None \<and> revision = env_Revision (ses_envelope s')"
proof (cases "directive = directiveWait \<or> resolvedActivitiesLocked (exc_sha c) (ses_envelope s) \<noteq> None")
  case True
  then show ?thesis using assms by (auto simp: commitStepLocked_def unmoved_def split: if_splits option.splits)
next
  case False
  then have settled: "resolvedActivitiesLocked (exc_sha c) (ses_envelope s) = None" by simp
  show ?thesis
    using assms False carries_refl
    by (auto simp: commitStepLocked_def unmoved_def split: if_splits option.splits
        dest!: persistStep_moves [OF settled, rotated])
qed

lemma commitStep_run:
  "\<exists>event. run_state (commitStep c step directive st meta effects) s
    = (case run_state (commitStepLocked c step directive st meta effects) s of (r, t) \<Rightarrow>
        (r, t\<lparr>ses_world := observedOutcome c event (fst r) (snd r) (ses_world t)\<rparr>))"
  unfolding commitStep_def Let_def by (rule exI) (simp split: prod.split)

lemma commitStep_moves:
  "case run_state (commitStep c step directive st meta effects) s of ((revision, e), s') \<Rightarrow>
    if e = None \<and> directive \<noteq> directiveWait \<and> \<not> dst_terminal step then moves c s s' \<and> revision = env_Revision (ses_envelope s')
    else unmoved s s' \<or> moves c s s' \<and> e = None \<and> revision = env_Revision (ses_envelope s')"
proof -
  obtain revision e t where r: "run_state (commitStepLocked c step directive st meta effects) s = ((revision, e), t)"
    by (metis prod.exhaust)
  then show ?thesis
    using commitStep_run [of c step directive st meta effects s] commitStepLocked_moves [OF r]
    by (auto split: if_splits)
qed

lemma armWaitLocked_moves:
  assumes "run_state (armWaitLocked c expected snapshot spec) s = (r, s')"
  shows "case r of Inl _ \<Rightarrow> unmoved s s' | Inr _ \<Rightarrow> moves c s s'"
proof (cases "resolvedActivitiesLocked (exc_sha c) (ses_envelope s) = None")
  case False
  then show ?thesis
    using assms by (auto simp: armWaitLocked_def unmoved_def Let_def split: if_splits option.splits)
next
  case True
  have persist: "case q of Inl _ \<Rightarrow> unmoved s s' | Inr _ \<Rightarrow> moves c s s'"
    if "run_state (persistSnapshotLocked c ((ses_envelope s)\<lparr>env_WaitsPayload := payload\<rparr>) snapshot) (s\<lparr>ses_world := w\<rparr>) = (q, s')"
    for payload w q s'
    using persist_moves [OF that _ _ True carries_update(2) [OF carries_refl]] by (auto split: sum.splits)
  show ?thesis
    using assms True
    by (auto simp: armWaitLocked_def unmoved_def Let_def split: if_splits option.splits sum.splits prod.splits
        dest!: persist)
qed

lemma armWait_moves:
  "case run_state (armWait c expected snapshot spec) s of (r, s') \<Rightarrow> (case r of Inl _ \<Rightarrow> unmoved s s' | Inr _ \<Rightarrow> moves c s s')"
proof -
  obtain r t where r: "run_state (armWaitLocked c expected snapshot spec) s = (r, t)" by fastforce
  show ?thesis
    using armWaitLocked_moves [OF r]
    by (simp add: armWait_def r Let_def split: sum.splits)
qed

lemma commitRunFailure_moves:
  "case run_state (commitRunFailure c result runErr) s of ((e, _), s') \<Rightarrow>
    if recoverableExecutionFailure runErr \<or> ses_persistenceFailed s then unmoved s s' else unmoved s s' \<or> moves c s s' \<and> e = None"
proof -
  obtain e result' t where r: "run_state (commitRunFailureLocked c result runErr) s = ((e, result'), t)" by (metis prod.exhaust)
  have "unmoved s t \<or> moves c s t \<and> e = None \<and> \<not> recoverableExecutionFailure runErr \<and> \<not> ses_persistenceFailed s"
  proof (cases "resolvedActivitiesLocked (exc_sha c) (ses_envelope s) = None")
    case False
    then show ?thesis using r by (auto simp: commitRunFailureLocked_def canCommitRunFailureLocked_def unmoved_def)
  next
    case True
    have persist: "case q of Inl _ \<Rightarrow> unmoved s s' | Inr _ \<Rightarrow> moves c s s'"
      if "run_state (persistSnapshotLocked c ((ses_envelope s)\<lparr>env_Terminal := terminal\<rparr>) snapshot) (s\<lparr>ses_world := w\<rparr>) = (q, s')"
      for terminal snapshot w q s'
      using persist_moves [OF that _ _ True carries_update(1) [OF carries_refl]] by (auto split: sum.splits)
    show ?thesis
      using r True
      by (auto simp: commitRunFailureLocked_def canCommitRunFailureLocked_def unmoved_def Let_def
          split: if_splits sum.splits prod.splits dest!: persist)
  qed
  then show ?thesis
    by (auto simp: commitRunFailure_def r Let_def)
qed

section \<open>What was saved loads again\<close>

lemma settled_journal_carried:
  assumes "executionActivityJournal sha e = Ok journal"
    and "\<forall>(_, r) \<in> set journal. rec_State r = ActivityCompleted \<or> rec_State r = ActivityFailed"
    and "carries e target" and "env_Revision e \<le> env_Revision target" and "env_Activation e \<le> env_Activation target"
    and "prg_JournalReferences (env_Progress target) = []
      \<or> env_Activation target = env_Activation e \<and> prg_JournalReferences (env_Progress target) = prg_JournalReferences (env_Progress e)"
  shows "executionActivityJournal sha target = Ok journal"
proof -
  from assms(1) have j: "decodeActivityJournal sha (env_JournalPayload e) = Ok journal"
      "\<forall>(_, r) \<in> set journal. journal_record_ok e r" "validateActivityReferences sha e journal = None"
    by (auto simp: executionActivityJournal_Ok_iff)
  have "journal_record_ok target r" if "journal_record_ok e r" for r
    using that assms(3-5) by (auto simp: journal_record_ok_def carries_def)
  moreover have "validateActivityReferences sha target journal = None"
    using j(3) assms(2,6) by (fastforce simp: validateActivityReferences_iff activityUnresolved_def)
  ultimately show ?thesis
    using j(1,2) assms(3) by (auto simp: executionActivityJournal_Ok_iff carries_def)
qed

lemma settled_groups_carried:
  assumes "executionChildGroups sha e = Ok groups"
    and "\<forall>(_, g) \<in> set groups. length (grp_MergedIDs g) = length (grp_Children g)"
    and "carries e target" and "env_Revision e \<le> env_Revision target" and "env_Activation e \<le> env_Activation target"
    and "prg_ChildGroupReferences (env_Progress target) = []
      \<or> env_Activation target = env_Activation e \<and> prg_ChildGroupReferences (env_Progress target) = prg_ChildGroupReferences (env_Progress e)"
  shows "executionChildGroups sha target = Ok groups"
proof -
  have "childGroupError sha target entry = None" if "childGroupError sha e entry = None" for entry
    using that assms(3,5) provenance_later [OF _ assms(4)]
    by (auto simp: childGroupError_def carries_def split: prod.splits if_splits)
  moreover have "validateChildGroupReferences sha target groups = None"
    using assms(1,2,6) by (fastforce simp: executionChildGroups_Ok_iff validateChildGroupReferences_iff)
  ultimately show ?thesis
    using assms(1,3) by (auto simp: executionChildGroups_Ok_iff carries_def)
qed

lemma settled_waits_carried:
  assumes "executionWaits sha e = Ok waits" and "\<forall>(_, w) \<in> set waits. wrc_State w \<noteq> WaitArmed"
    and "env_Terminal e = None" and "carries e target" and "env_WaitsPayload target = env_WaitsPayload e"
    and "env_Revision e \<le> env_Revision target" and "env_Activation e \<le> env_Activation target"
  shows "executionWaits sha target = Ok waits"
proof -
  have "validWaitEnvelopeAddress sha target identity w \<and> validCanceledWaitTerminal target w"
    if "(identity, w) \<in> set waits" "validWaitEnvelopeAddress sha e identity w" "validCanceledWaitTerminal e w" for identity w
  proof -
    have "wrc_State w \<noteq> WaitArmed" "wrc_State w \<noteq> WaitCanceled"
      using that(1,3) assms(2,3) by (auto simp: validCanceledWaitTerminal_def split: option.splits)
    with that(2) assms(4-) show ?thesis
      by (auto simp: validWaitEnvelopeAddress_def validCanceledWaitTerminal_def carries_def intro: validity_later)
  qed
  then show ?thesis
    using assms(1,5) by (auto simp: executionWaits_Ok_iff split_beta)
qed

lemma settled_collections_carried:
  assumes "settled sha e" and "env_Terminal e = None" and "\<forall>p. env_RuntimeProfile e = Some p \<longrightarrow> WaitCapabilityProfile_Validate p = None"
    and "carries e target" and "env_WaitsPayload target = env_WaitsPayload e" and "validMigrationText (env_Progress target)"
    and "env_Revision e \<le> env_Revision target" and "env_Activation e \<le> env_Activation target"
    and "prg_JournalReferences (env_Progress target) = [] \<and> prg_ChildGroupReferences (env_Progress target) = []
      \<or> env_Activation target = env_Activation e \<and> prg_JournalReferences (env_Progress target) = prg_JournalReferences (env_Progress e)
        \<and> prg_ChildGroupReferences (env_Progress target) = prg_ChildGroupReferences (env_Progress e)"
  shows "validateExecutionCollections sha target = None"
proof -
  obtain waits groups journal where "executionWaits sha e = Ok waits" "\<forall>(_, w) \<in> set waits. wrc_State w \<noteq> WaitArmed"
    "executionChildGroups sha e = Ok groups" "\<forall>(_, g) \<in> set groups. length (grp_MergedIDs g) = length (grp_Children g)"
    "executionActivityJournal sha e = Ok journal"
    "\<forall>(_, r) \<in> set journal. rec_State r = ActivityCompleted \<or> rec_State r = ActivityFailed"
    using assms(1) unfolding settled_def by blast
  with assms show ?thesis
    unfolding validateExecutionCollections_iff
    using settled_journal_carried [of sha e journal target] settled_groups_carried [of sha e groups target]
      settled_waits_carried [of sha e waits target]
    by (auto simp: carries_def)
qed

text \<open>
  The contract of \<open>ExecutionStore\<close> that the checkpointer relies on: a commit that
  succeeds returns the envelope it was given under the next revision, sealed.
\<close>

locale durable_store =
  fixes c :: "('w, 't, 'e) executionCheckpointer"
  assumes commit_seals: "run_state (exc_CommitExecution c expected lease e) w = (Ok committed, w') \<Longrightarrow>
    expected \<noteq> - 1 \<and> (\<exists>digest. committed = e\<lparr>env_Revision := expected + 1, env_Digest := digest\<rparr>)
    \<and> ValidateExecutionIntegrity (exc_sha c) (exc_enc c) committed (lse_ExecutionID lease) (expected + 1) = None"
begin

lemma moves_next:
  assumes "moves c s s'"
  shows "env_Revision (ses_envelope s) < env_Revision (ses_envelope s')
    \<and> env_Revision (ses_envelope s') = env_Revision (ses_envelope s) + 1
    \<and> carries (ses_envelope s) (ses_envelope s')
    \<and> ValidateExecutionIntegrity (exc_sha c) (exc_enc c) (ses_envelope s') (lse_ExecutionID (exc_lease c)) (env_Revision (ses_envelope s')) = None"
  using assms commit_seals rev_succ_self by (fastforce simp: moves_def carries_def)

lemma persisted_decodes:
  assumes run: "run_state (persistSnapshotLocked c target snapshot) s = (Ok revision, s')"
    and loadable: "executionDecode c (ses_envelope s) (ses_envelope s) = Ok loaded"
    and live: "env_Terminal (ses_envelope s) = None" and settled: "settled (exc_sha c) (ses_envelope s)"
    and target: "carries (ses_envelope s) target" "env_WaitsPayload target = env_WaitsPayload (ses_envelope s)"
      "env_Activation (ses_envelope s) \<le> env_Activation target"
      "prg_JournalReferences (env_Progress target) = [] \<and> prg_ChildGroupReferences (env_Progress target) = []
        \<or> env_Activation target = env_Activation (ses_envelope s)
          \<and> prg_JournalReferences (env_Progress target) = prg_JournalReferences (env_Progress (ses_envelope s))
          \<and> prg_ChildGroupReferences (env_Progress target) = prg_ChildGroupReferences (env_Progress (ses_envelope s))"
    and codecs: "\<And>b. exc_stateMarshal c (snp_State snapshot) = Ok b \<Longrightarrow> exc_stateUnmarshal c b = Ok (snp_State snapshot)"
      "\<And>b. exc_effectsMarshal c (snp_Effects snapshot) = Ok b \<Longrightarrow> exc_effectsUnmarshal c b = Ok (snp_Effects snapshot)"
  shows "executionDecode c (ses_envelope s') (ses_envelope s')
    = Ok (snapshot\<lparr>snp_ThreadID := lse_ExecutionID (exc_lease c), snp_Revision := revision\<rparr>, revision)"
proof -
  from persist_cases [OF run] obtain st effects w w' where m: "exc_stateMarshal c (snp_State snapshot) = Ok st"
      "exc_effectsMarshal c (snp_Effects snapshot) = Ok effects"
    and commit: "run_state (exc_CommitExecution c (env_Revision (ses_envelope s)) (exc_lease c) (snapshotTarget st effects target snapshot)) w
        = (Ok (ses_envelope s'), w')"
    and revision: "revision = env_Revision (ses_envelope s')"
    by auto
  from commit_seals [OF commit] obtain digest where nowrap: "env_Revision (ses_envelope s) \<noteq> - 1"
    and sealed: "ses_envelope s' = (snapshotTarget st effects target snapshot)\<lparr>env_Revision := env_Revision (ses_envelope s) + 1, env_Digest := digest\<rparr>"
    and integrity: "ValidateExecutionIntegrity (exc_sha c) (exc_enc c) (ses_envelope s') (lse_ExecutionID (exc_lease c)) revision = None"
    using revision by fastforce
  have utf8: "validMigrationText (env_Progress (ses_envelope s'))"
    using integrity by (simp add: ValidateExecutionIntegrity_None_iff)
  from loadable have old: "ExecutionDescriptor_Check (env_Descriptor (ses_envelope s)) (env_Descriptor (ses_envelope s)) = None"
      "\<forall>p. env_RuntimeProfile (ses_envelope s) = Some p \<longrightarrow> WaitCapabilityProfile_Validate p = None"
    by (auto simp: executionDecode_def res_simps validateExecutionCollections_iff)
  have carried: "carries (ses_envelope s) (ses_envelope s')"
    using target(1) by (simp add: sealed snapshotTarget_def carries_def)
  have collections: "validateExecutionCollections (exc_sha c) (ses_envelope s') = None"
    using settled_collections_carried [OF settled live old(2) carried _ utf8] target(2-4) rev_succ_self [OF nowrap]
    by (simp add: sealed snapshotTarget_def less_imp_le)
  have descriptor: "env_Descriptor (ses_envelope s') = env_Descriptor (ses_envelope s)"
    using carried by (simp add: carries_def)
  have id: "env_ExecutionID (ses_envelope s') = lse_ExecutionID (exc_lease c)"
    using integrity by (simp add: ValidateExecutionIntegrity_None_iff)
  show ?thesis
    using integrity old(1) collections descriptor codecs(1) [OF m(1)] codecs(2) [OF m(2)] id
    by (simp add: executionDecode_def revision) (simp add: sealed snapshotTarget_def)
qed

end

section \<open>Sessions over the execution store\<close>

text \<open>A world of the host with the execution store, the clock of the store and the error of the context.\<close>

record 'h memoryWorld =
  mwd_store :: MemoryExecutionStore
  mwd_now :: gotime
  mwd_ctx :: "err option"
  mwd_host :: 'h

definition memoryCommit ::
    "sha256 \<Rightarrow> env_codec \<Rightarrow> uint64 \<Rightarrow> ExecutionLease \<Rightarrow> ExecutionEnvelope \<Rightarrow> ('h memoryWorld, ExecutionEnvelope res) state" where
  "memoryCommit sha enc expected lease e = State (\<lambda>w.
     case CommitExecution sha enc (mwd_ctx w) (mwd_now w) expected lease e (mwd_store w) of (r, s) \<Rightarrow> (r, w\<lparr>mwd_store := s\<rparr>))"

definition memoryLoadCheckpoint ::
    "sha256 \<Rightarrow> env_codec \<Rightarrow> string \<Rightarrow> uint64 \<Rightarrow> ('h memoryWorld, ExecutionEnvelope res) state" where
  "memoryLoadCheckpoint sha enc k revision = State (\<lambda>w. (LoadCheckpoint sha enc (mwd_ctx w) k revision (mwd_store w), w))"

definition overMemory ::
    "sha256 \<Rightarrow> env_codec \<Rightarrow> ('h memoryWorld, 't, 'e) executionCheckpointer \<Rightarrow> ('h memoryWorld, 't, 'e) executionCheckpointer" where
  "overMemory sha enc c = c\<lparr>exc_CommitExecution := memoryCommit sha enc,
     exc_LoadCheckpoint := Some (memoryLoadCheckpoint sha enc), exc_sha := sha, exc_enc := enc\<rparr>"

lemma overMemory_simps [simp]:
  "exc_CommitExecution (overMemory sha enc c) = memoryCommit sha enc" "exc_sha (overMemory sha enc c) = sha"
  "exc_LoadCheckpoint (overMemory sha enc c) = Some (memoryLoadCheckpoint sha enc)"
  "exc_enc (overMemory sha enc c) = enc" "exc_lease (overMemory sha enc c) = exc_lease c"
  "exc_stateMarshal (overMemory sha enc c) = exc_stateMarshal c" "exc_stateUnmarshal (overMemory sha enc c) = exc_stateUnmarshal c"
  "exc_effectsMarshal (overMemory sha enc c) = exc_effectsMarshal c" "exc_effectsUnmarshal (overMemory sha enc c) = exc_effectsUnmarshal c"
  "exc_observer (overMemory sha enc c) = exc_observer c" "exc_clock (overMemory sha enc c) = exc_clock c"
  "exc_retryRandom (overMemory sha enc c) = exc_retryRandom c" "exc_forkMode (overMemory sha enc c) = exc_forkMode c"
  "exc_forkPolicy (overMemory sha enc c) = exc_forkPolicy c" "exc_cause (overMemory sha enc c) = exc_cause c" "exc_ctxErr (overMemory sha enc c) = exc_ctxErr c"
  "exc_errText (overMemory sha enc c) = exc_errText c"
  by (simp_all add: overMemory_def)

lemma commit_sealed:
  assumes "CommitExecution sha enc ctx now expected lease e s = (Ok committed, s')"
  shows "expected \<noteq> - 1 \<and> (\<exists>digest. committed = e\<lparr>env_Revision := expected + 1, env_Digest := digest\<rparr>)
    \<and> ValidateExecutionIntegrity sha enc committed (lse_ExecutionID lease) (expected + 1) = None"
  by (rule commit_Ok [OF assms]) (auto simp: SealExecutionEnvelope_Ok_iff)

lemma commit_stable: "CommitExecution sha enc ctx now expected lease e s = (Ok committed, s') \<Longrightarrow> jsonStable committed"
  by (erule commit_Ok) simp

interpretation memory_session: durable_store "overMemory sha enc c" for sha enc c
proof
  fix expected lease e w committed w'
  assume "run_state (exc_CommitExecution (overMemory sha enc c) expected lease e) w = (Ok committed, w')"
  then show "expected \<noteq> - 1 \<and> (\<exists>digest. committed = e\<lparr>env_Revision := expected + 1, env_Digest := digest\<rparr>)
    \<and> ValidateExecutionIntegrity (exc_sha (overMemory sha enc c)) (exc_enc (overMemory sha enc c)) committed (lse_ExecutionID lease) (expected + 1) = None"
    using commit_sealed by (fastforce simp: memoryCommit_def split: prod.splits)
qed

text \<open>When the store accepts a commit.\<close>

lemma equalRolloverLineage_refl [simp]: "equalRolloverLineage l l"
  by (cases l) (simp_all add: equalRolloverLineage_def)

lemma commit_succeeds:
  assumes "store_inv sha enc s" and "held s now lease" and "entryOf s k (headOf s k) = Some previous"
    and "k = lse_ExecutionID lease" and "headOf s k \<noteq> 0" and "headOf s k \<noteq> - 1"
    and "env_ExecutionID e = k" "env_Rollover e = env_Rollover previous" "env_Fork e = None" "env_Fork previous = None"
      "env_Transfer previous = None" "env_Transfer e = None" "ExecutionDescriptor_Validate (env_Descriptor e) = None"
      "env_Pointer e \<noteq> ''''" "validMigrationText (env_Progress e)" "\<And>x. \<exists>data. enc x = Ok data"
    and stable: "jsonStable previous" "jsonStable e"
  shows "\<exists>committed. CommitExecution sha enc None now (headOf s k) lease e s = (Ok committed, storeEnvelope committed False s)
    \<and> (\<exists>digest. committed = e\<lparr>env_Revision := headOf s k + 1, env_Digest := digest\<rparr>)"
proof -
  have p: "ValidateExecutionIntegrity sha enc previous k (headOf s k) = None" "\<forall>x. validActivityDigest (sha x)"
    using assms(1,3) history_invD(1) by (auto simp: store_inv_def)
  have id: "k \<noteq> ''''" "validRuntimeText [k]" "env_ExecutionID previous = k"
    using p(1) by (auto simp: ValidateExecutionIntegrity_None_iff)
  obtain data where "enc (e\<lparr>env_Revision := headOf s k + 1, env_Digest := ''''\<rparr>) = Ok data" using assms(16) by blast
  then have seal: "SealExecutionEnvelope sha enc (e\<lparr>env_Revision := headOf s k + 1\<rparr>)
      = Ok (e\<lparr>env_Revision := headOf s k + 1, env_Digest := sha data\<rparr>)" (is "_ = Ok ?sealed")
    using assms(6,7,14,15) id rev_succ_nonzero by (auto simp: SealExecutionEnvelope_Ok_iff EnvelopeDigest_def)
  have "ValidateExecutionIntegrity sha enc ?sealed k (headOf s k + 1) = None"
    using seal_admitted [OF seal p(2)] assms(7) by simp
  moreover have "jsonStable ?sealed" using stable(2) digest_text p(2) by (auto simp: jsonStable_def envelopeText_def)
  ultimately have decode: "decodeExecution sha enc ?sealed k (headOf s k + 1) = Ok ?sealed" by (simp add: decodeExecution_def)
  obtain data' where "enc ?sealed = Ok data'" using assms(16) by blast
  then have "CommitExecution sha enc None now (headOf s k) lease e s = (Ok ?sealed, storeEnvelope ?sealed False s)"
    using assms(2-15) stable(1) seal decode decode_entry [OF assms(1), of k "headOf s k"] id
    by (simp add: CommitExecution_def writes_def ValidateExecutionRolloverTransition_def ValidateExecutionForkTransition_def
        word_greater_zero_iff)
  then show ?thesis by blast
qed

context durable_store begin

lemma load_Ok_iff:
  "run_state (executionLoad c execution) s = (Ok x, s) \<longleftrightarrow>
    execution = lse_ExecutionID (exc_lease c) \<and> executionDecode c (ses_envelope s) (ses_envelope s) = Ok x"
  by (auto simp: executionLoad_def)

lemma save_loads:
  assumes codecs: "\<forall>x b. exc_stateMarshal c x = Ok b \<longrightarrow> exc_stateUnmarshal c b = Ok x"
      "\<forall>x b. exc_effectsMarshal c x = Ok b \<longrightarrow> exc_effectsUnmarshal c b = Ok x"
    and loaded: "run_state (executionLoad c execution) s = (Ok loaded, s)" and live: "env_Terminal (ses_envelope s) = None"
    and run: "run_state (executionSave c expected snapshot) s = (Ok revision, s')"
  shows "run_state (executionLoad c execution) s' = (Ok (snapshot\<lparr>snp_Revision := revision\<rparr>, revision), s')"
proof -
  from run obtain t w where t: "run_state (saveLocked c expected snapshot) s = (Ok revision, t)" "s' = t\<lparr>ses_world := w\<rparr>"
    by (auto simp: executionSave_def split: prod.splits)
  then have thread: "snp_ThreadID snapshot = lse_ExecutionID (exc_lease c)" and settled: "settled (exc_sha c) (ses_envelope s)"
    and persist: "run_state (persistSnapshotLocked c (ses_envelope s) snapshot) s = (Ok revision, t)"
    by (auto simp: saveLocked_def resolved_iff_settled [symmetric] split: if_splits option.splits)
  have same: "snapshot\<lparr>snp_ThreadID := lse_ExecutionID (exc_lease c), snp_Revision := revision\<rparr> = snapshot\<lparr>snp_Revision := revision\<rparr>"
    using thread by (cases snapshot) simp
  have "executionDecode c (ses_envelope s') (ses_envelope s') = Ok (snapshot\<lparr>snp_Revision := revision\<rparr>, revision)"
    using persisted_decodes [OF persist _ live settled carries_refl] loaded codecs unfolding load_Ok_iff same t(2) by simp
  with loaded show ?thesis unfolding load_Ok_iff by simp
qed

lemma step_loads:
  assumes codecs: "\<forall>x b. exc_stateMarshal c x = Ok b \<longrightarrow> exc_stateUnmarshal c b = Ok x"
      "\<forall>x b. exc_effectsMarshal c x = Ok b \<longrightarrow> exc_effectsUnmarshal c b = Ok x"
    and loaded: "run_state (executionLoad c execution) s = (Ok loaded, s)" and live: "env_Terminal (ses_envelope s) = None"
    and nowrap: "env_Activation (ses_envelope s) \<noteq> - 1" and directive: "directive \<noteq> directiveWait"
    and run: "run_state (commitStep c (continueDirectiveStep nextNode) directive st meta effects) s = ((revision, None), s')"
  shows "run_state (executionLoad c execution) s' = (Ok (\<lparr>snp_ThreadID = execution, snp_ExecutionPointer = nextNode,
         snp_Revision = revision, snp_State = st, snp_RunMeta = meta, snp_Effects = effects\<rparr>, revision), s')"
proof -
  let ?snapshot = "\<lparr>snp_ThreadID = lse_ExecutionID (exc_lease c), snp_ExecutionPointer = nextNode, snp_Revision = 0,
        snp_State = st, snp_RunMeta = meta, snp_Effects = effects\<rparr>"
  define target where "target = (if directive \<noteq> directiveRetry \<or> nextNode \<noteq> env_Pointer (ses_envelope s)
     then advanceActivation (ses_envelope s) else ses_envelope s)"
  obtain r t where locked: "run_state (commitStepLocked c (continueDirectiveStep nextNode) directive st meta effects) s = (r, t)"
    by fastforce
  then obtain w where t: "run_state (commitStepLocked c (continueDirectiveStep nextNode) directive st meta effects) s = ((revision, None), t)"
      "s' = t\<lparr>ses_world := w\<rparr>"
    using run commitStep_run [of c "continueDirectiveStep nextNode" directive st meta effects s] by auto
  then have settled: "settled (exc_sha c) (ses_envelope s)"
    and step: "run_state (persistStep c directive nextNode (ses_envelope s) (ses_envelope s) st meta effects) s = ((revision, None), t)"
    using directive by (auto simp: commitStepLocked_def continueDirectiveStep_def resolved_iff_settled [symmetric] split: if_splits option.splits)
  from step have persist: "run_state (persistSnapshotLocked c target ?snapshot) s = (Ok revision, t)"
    by (auto simp: persistStep_def target_def errOf_def revisionOrZero_def split: prod.splits sum.splits)
  have "env_Activation (ses_envelope s) \<le> env_Activation target" "carries (ses_envelope s) target"
      "env_WaitsPayload target = env_WaitsPayload (ses_envelope s)"
    using rev_succ_self [OF nowrap] by (auto simp: target_def advanceActivation_def carries_def)
  moreover have "prg_JournalReferences (env_Progress target) = [] \<and> prg_ChildGroupReferences (env_Progress target) = []
        \<or> env_Activation target = env_Activation (ses_envelope s)
          \<and> prg_JournalReferences (env_Progress target) = prg_JournalReferences (env_Progress (ses_envelope s))
          \<and> prg_ChildGroupReferences (env_Progress target) = prg_ChildGroupReferences (env_Progress (ses_envelope s))"
    by (auto simp: target_def advanceActivation_def)
  ultimately have "executionDecode c (ses_envelope t) (ses_envelope t)
      = Ok (?snapshot\<lparr>snp_ThreadID := lse_ExecutionID (exc_lease c), snp_Revision := revision\<rparr>, revision)"
    using persisted_decodes [OF persist _ live settled] loaded codecs unfolding load_Ok_iff by simp
  with loaded t(2) show ?thesis unfolding load_Ok_iff by simp
qed

end

text \<open>
  What is left of an operation when the work of the step is not settled: the error
  that refuses it, here of a save and of the arming of a wait.
\<close>

definition saveRefusal :: "('w, 't, 'e) executionCheckpointer \<Rightarrow> uint64 \<Rightarrow> ('t, 'e) Snapshot \<Rightarrow> 'w session \<Rightarrow> err \<Rightarrow> err" where
  "saveRefusal c expected snapshot s x =
    (if expected = ses_stepRevision s \<and> snp_ThreadID snapshot = lse_ExecutionID (exc_lease c) then x else Sent ErrConcurrencyConflict)"

definition armRefusal :: "('w, 't, 'e) executionCheckpointer \<Rightarrow> uint64 \<Rightarrow> ('t, 'e) Snapshot \<Rightarrow> 'w session \<Rightarrow> err \<Rightarrow> err" where
  "armRefusal c expected snapshot s x =
    (case (exc_waitBackend c, exc_waitProfile c) of
       (Some backend, Some profile) \<Rightarrow>
         if fst (run_state (wbk_WaitCapabilities backend) (ses_world s)) \<noteq> profile then Sent ErrExecutionCapability
         else if expected \<noteq> ses_stepRevision s \<or> snp_ThreadID snapshot \<noteq> env_ExecutionID (ses_envelope s)
           \<or> snp_ExecutionPointer snapshot \<noteq> env_Pointer (ses_envelope s) then Sent ErrConcurrencyConflict
         else if env_Revision (ses_envelope s) = - 1 then Sent ErrWaitInvalid
         else x
     | _ \<Rightarrow> Sent ErrExecutionCapability)"

lemma observe_other_store [simp]:
  "observeLifecycle (c\<lparr>exc_CommitExecution := commit\<rparr>) = observeLifecycle c"
  "observeCheckpointOutcome (c\<lparr>exc_CommitExecution := commit\<rparr>) = observeCheckpointOutcome c"
  by (intro ext; simp add: observeLifecycle_def observeCheckpointOutcome_def cong: if_cong option.case_cong)+

lemma unsettled_save:
  assumes "resolvedActivitiesLocked (exc_sha c) (ses_envelope s) = Some x"
  shows "fst (run_state (executionSave c expected snapshot) s) = Inl (saveRefusal c expected snapshot s x)"
    and "run_state (executionSave (c\<lparr>exc_CommitExecution := commit\<rparr>) expected snapshot) s = run_state (executionSave c expected snapshot) s"
  using assms by (auto simp: executionSave_def saveLocked_def saveRefusal_def run_state_bind split: prod.splits)

lemma unsettled_step:
  assumes "resolvedActivitiesLocked (exc_sha c) (ses_envelope s) = Some x"
  shows "fst (run_state (commitStep c step directive st meta effects) s)
       = (if directive = directiveWait then (env_Revision (ses_envelope s), None) else (0, Some x))"
    and "run_state (commitStep (c\<lparr>exc_CommitExecution := commit\<rparr>) step directive st meta effects) s
       = run_state (commitStep c step directive st meta effects) s"
  using assms by (auto simp: commitStep_def commitStepLocked_def run_state_bind Let_def split: prod.splits)

lemma unsettled_arm:
  assumes "resolvedActivitiesLocked (exc_sha c) (ses_envelope s) = Some x"
  shows "fst (run_state (armWait c expected snapshot spec) s) = Inl (armRefusal c expected snapshot s x)"
    and "run_state (armWait (c\<lparr>exc_CommitExecution := commit\<rparr>) expected snapshot spec) s = run_state (armWait c expected snapshot spec) s"
  using assms by (auto simp: armWait_def armWaitLocked_def armRefusal_def run_state_bind Let_def split: prod.splits option.splits)

lemma unsettled_failure:
  assumes "resolvedActivitiesLocked (exc_sha c) (ses_envelope s) = Some x"
  shows "fst (run_state (commitRunFailure c result runErr) s) = (None, result)"
    and "run_state (commitRunFailure (c\<lparr>exc_CommitExecution := commit\<rparr>) result runErr) s = run_state (commitRunFailure c result runErr) s"
  using assms by (auto simp: commitRunFailure_def commitRunFailureLocked_def canCommitRunFailureLocked_def run_state_bind Let_def split: prod.splits)

section \<open>Properties\<close>


text \<open>
  C33. What a durable run commits is what it resumes from. With a store that seals
  what it is given and codecs that decode what they encode, a run that loads keeps
  loading: after a save exactly the saved snapshot under its revision, and after a
  continuing step the state, effects, metadata and the next node of that step.
\<close>

theorem saved_snapshot_loads:
  assumes "durable_store c"
    and "\<forall>x b. exc_stateMarshal c x = Ok b \<longrightarrow> exc_stateUnmarshal c b = Ok x"
    and "\<forall>x b. exc_effectsMarshal c x = Ok b \<longrightarrow> exc_effectsUnmarshal c b = Ok x"
    and "run_state (executionLoad c execution) s = (Ok loaded, s)"
    and "env_Terminal (ses_envelope s) = None" and "env_Activation (ses_envelope s) \<noteq> - 1"
  shows "(case run_state (executionSave c expected snapshot) s of
       (Inr revision, s') \<Rightarrow> run_state (executionLoad c execution) s' = (Ok (snapshot\<lparr>snp_Revision := revision\<rparr>, revision), s')
     | (Inl _, s') \<Rightarrow> unmoved s s')
   \<and> (case run_state (commitStep c (continueDirectiveStep nextNode) directive st meta effects) s of ((revision, e), s') \<Rightarrow>
       if e \<noteq> None \<or> directive = directiveWait then unmoved s s'
       else run_state (executionLoad c execution) s' = (Ok (\<lparr>snp_ThreadID = execution, snp_ExecutionPointer = nextNode,
         snp_Revision = revision, snp_State = st, snp_RunMeta = meta, snp_Effects = effects\<rparr>, revision), s'))"
proof -
  note loads = durable_store.save_loads [OF assms(1-5)] durable_store.step_loads [OF assms(1-6)]
  obtain r s1 where save: "run_state (executionSave c expected snapshot) s = (r, s1)" by fastforce
  obtain revision e s2 where step: "run_state (commitStep c (continueDirectiveStep nextNode) directive st meta effects) s = ((revision, e), s2)"
    by (metis prod.exhaust)
  have "directive = directiveWait \<Longrightarrow> unmoved s s2"
    using step commitStep_run [of c "continueDirectiveStep nextNode" directive st meta effects s]
    by (auto simp: commitStepLocked_def unmoved_def)
  then show ?thesis
    using loads(1) save save_moves [where c = c and expected = expected and snapshot = snapshot and s = s] loads(2) step
      commitStep_moves [where c = c and step = "continueDirectiveStep nextNode" and directive = directive and st = st and meta = meta and effects = effects and s = s]
    by (cases r) (auto split: if_splits)
qed

definition sampleCheckpointer :: "('h memoryWorld, string, char) executionCheckpointer" where
  "sampleCheckpointer = overMemory sampleSha sampleEnc
    \<lparr>exc_CommitExecution = (\<lambda>_ _ _. ret (Err ErrExecutionCapability)), exc_LoadCheckpoint = None, exc_lease = sampleLease,
     exc_stateMarshal = Ok, exc_stateUnmarshal = Ok, exc_effectsMarshal = Ok, exc_effectsUnmarshal = Ok,
     exc_clock = ret 5, exc_retryRandom = ret None, exc_waitBackend = None, exc_waitProfile = None, exc_forkPolicy = None,
     exc_forkMode = ForkActivityModeOther '''', exc_observer = None, exc_ctxErr = ret None, exc_cause = ret None, exc_wallNow = ret 5,
     exc_sha = sampleSha, exc_enc = sampleEnc, exc_errText = (\<lambda>_. ''error'')\<rparr>"

definition sampleSession :: "'h \<Rightarrow> 'h memoryWorld session" where
  "sampleSession h = \<lparr>ses_envelope = sampleSealed, ses_stepRevision = 1, ses_persistenceFailed = False, ses_lossConfirmed = False,
     ses_observation = lifecycleObservation LifecycleLease LifecycleFailed ''e'' '''',
     ses_world = \<lparr>mwd_store = sampleStore, mwd_now = 1, mwd_ctx = None, mwd_host = h\<rparr>\<rparr>"

lemma sampleCheckpointer_simps [simp]:
  "exc_lease sampleCheckpointer = sampleLease" "exc_sha sampleCheckpointer = sampleSha" "exc_enc sampleCheckpointer = sampleEnc"
  "exc_stateMarshal sampleCheckpointer = Ok" "exc_stateUnmarshal sampleCheckpointer = Ok"
  "exc_effectsMarshal sampleCheckpointer = Ok" "exc_effectsUnmarshal sampleCheckpointer = Ok"
  "exc_clock sampleCheckpointer = ret 5" "exc_retryRandom sampleCheckpointer = ret None" "exc_observer sampleCheckpointer = None"
  "exc_forkMode sampleCheckpointer = ForkActivityModeOther ''''" "exc_forkPolicy sampleCheckpointer = None"
  "exc_cause sampleCheckpointer = ret None" "exc_ctxErr sampleCheckpointer = ret None" "exc_CommitExecution sampleCheckpointer = memoryCommit sampleSha sampleEnc"
  by (simp_all add: sampleCheckpointer_def)

lemma sampleSealed_fields [simp]:
  "env_ExecutionID sampleSealed = ''e''" "env_Revision sampleSealed = 1" "env_Descriptor sampleSealed = sampleDescriptor"
  "env_RuntimeProfile sampleSealed = None" "env_Progress sampleSealed = env_Progress sampleEnvelope"
  "env_JournalPayload sampleSealed = NoBytes" "env_ChildrenPayload sampleSealed = NoBytes" "env_WaitsPayload sampleSealed = NoBytes"
  "env_Activation sampleSealed = 1" "env_Terminal sampleSealed = None" "env_Fork sampleSealed = None"
  "env_Rollover sampleSealed = None" "env_Transfer sampleSealed = None"
  by (simp_all add: sampleSealed_def sampleEnvelope_def)

lemmas sampleSealed_collections = sample_collections [where e = sampleSealed, simplified]

lemma sample_store_inv: "store_inv sampleSha sampleEnc sampleStore"
  by (rule run_store_inv [OF allI [OF sampleSha_digest] sample_store_run])

lemma sample_held: "held sampleStore 1 sampleLease"
  by (simp add: held_def leaseOf_def sample_store sampleLease_def)

lemma sampleSealed_loads:
  "run_state (executionLoad sampleCheckpointer ''e'') (sampleSession h)
    = (Ok (\<lparr>snp_ThreadID = ''e'', snp_ExecutionPointer = env_Pointer sampleEnvelope, snp_Revision = 1,
        snp_State = prg_StatePayload (env_Progress sampleEnvelope), snp_RunMeta = env_RunMeta sampleSealed,
        snp_Effects = env_EffectsPayload sampleSealed\<rparr>, 1), sampleSession h)"
proof -
  have "validateExecutionCollections sampleSha sampleSealed = None"
    by (simp add: validateExecutionCollections_iff sampleSealed_collections sampleEnvelope_def validMigrationText_def byte_def)
  then show ?thesis
    using sampleSealed_integrity
    by (simp add: executionLoad_def executionDecode_def sampleSession_def ExecutionDescriptor_Check_def
        sampleDescriptor_valid sampleLease_def)
qed

lemma sample_commit_next:
  assumes "env_ExecutionID e = ''e''" "env_Rollover e = None" "env_Fork e = None" "env_Transfer e = None"
    "env_Descriptor e = sampleDescriptor" "env_Pointer e \<noteq> ''''" "validMigrationText (env_Progress e)" "jsonStable e"
  shows "\<exists>committed. CommitExecution sampleSha sampleEnc None 1 1 sampleLease e sampleStore = (Ok committed, storeEnvelope committed False sampleStore)
    \<and> (\<exists>digest. committed = e\<lparr>env_Revision := 2, env_Digest := digest\<rparr>)"
proof -
  have "\<exists>committed. CommitExecution sampleSha sampleEnc None 1 (headOf sampleStore ''e'') sampleLease e sampleStore
      = (Ok committed, storeEnvelope committed False sampleStore)
    \<and> (\<exists>digest. committed = e\<lparr>env_Revision := headOf sampleStore ''e'' + 1, env_Digest := digest\<rparr>)"
    by (rule commit_succeeds [OF sample_store_inv sample_held, of _ sampleSealed])
      (simp_all add: assms sample_store sample_stable sampleDescriptor_valid sampleEnc_def sampleLease_def)
  then show ?thesis by (simp only: sample_store(1)) (simp only: one_add_one)
qed

lemma sample_moved_stable:
  "jsonStable (sampleSealed\<lparr>env_Progress := (env_Progress sampleEnvelope)\<lparr>prg_StatePayload := ''next'', prg_ExecutionPointer := ''m''\<rparr>,
     env_EffectsPayload := ''fx'', env_RunMeta := emptyRunMeta\<rparr>)"
proof -
  have "ValidString ''m''" by (simp add: byte_def)
  then show ?thesis using sample_stable(2)
    by (simp add: jsonStable_def envelopeText_def progressText_def runMetaText_def emptyRunMeta_def mapText_def)
qed

lemma sample_save:
  "\<exists>s'. run_state (executionSave sampleCheckpointer 1 \<lparr>snp_ThreadID = ''e'', snp_ExecutionPointer = ''m'', snp_Revision = 0,
      snp_State = ''next'', snp_RunMeta = emptyRunMeta, snp_Effects = ''fx''\<rparr>) (sampleSession ()) = (Ok 2, s')"
proof -
  have "resolvedActivitiesLocked sampleSha sampleSealed = None"
    by (simp add: resolved_iff_settled settled_def sampleSealed_collections)
  moreover obtain committed where "CommitExecution sampleSha sampleEnc None 1 1 sampleLease
      (sampleSealed\<lparr>env_Progress := (env_Progress sampleEnvelope)\<lparr>prg_StatePayload := ''next'', prg_ExecutionPointer := ''m''\<rparr>,
        env_EffectsPayload := ''fx'', env_RunMeta := emptyRunMeta\<rparr>) sampleStore = (Ok committed, storeEnvelope committed False sampleStore)"
    "env_Revision committed = 2"
    using sample_commit_next [of "sampleSealed\<lparr>env_Progress := (env_Progress sampleEnvelope)\<lparr>prg_StatePayload := ''next'', prg_ExecutionPointer := ''m''\<rparr>,
        env_EffectsPayload := ''fx'', env_RunMeta := emptyRunMeta\<rparr>"] sample_moved_stable
    by (auto simp: sampleEnvelope_def validMigrationText_def byte_def)
  ultimately show ?thesis
    by (auto simp: executionSave_def saveLocked_def sampleSession_def persistSnapshotLocked_def commitExecution_def
        memoryCommit_def attachSessionObservation_def sampleLease_def)
qed

theorem saved_snapshot_loads_witness:
  "\<exists>s' :: unit memoryWorld session. run_state (executionLoad sampleCheckpointer ''e'') s' = (Ok (\<lparr>snp_ThreadID = ''e'', snp_ExecutionPointer = ''m'', snp_Revision = 2,
      snp_State = ''next'', snp_RunMeta = emptyRunMeta, snp_Effects = ''fx''\<rparr>, 2), s')"
proof -
  have store: "durable_store (sampleCheckpointer :: (unit memoryWorld, string, char) executionCheckpointer)"
    unfolding sampleCheckpointer_def by (rule memory_session.durable_store_axioms)
  have live: "env_Terminal (ses_envelope (sampleSession ())) = None" "env_Activation (ses_envelope (sampleSession ())) \<noteq> - 1"
    by (simp_all add: sampleSession_def)
  obtain s' where "run_state (executionSave sampleCheckpointer 1 \<lparr>snp_ThreadID = ''e'', snp_ExecutionPointer = ''m'', snp_Revision = 0,
      snp_State = ''next'', snp_RunMeta = emptyRunMeta, snp_Effects = ''fx''\<rparr>) (sampleSession ()) = (Ok 2, s')"
    using sample_save by blast
  with saved_snapshot_loads [OF store _ _ sampleSealed_loads live, where expected = 1 and snapshot = "\<lparr>snp_ThreadID = ''e'', snp_ExecutionPointer = ''m'', snp_Revision = 0,
      snp_State = ''next'', snp_RunMeta = emptyRunMeta, snp_Effects = ''fx''\<rparr>" and nextNode = "''m''" and directive = directiveEnd
      and st = "''''" and meta = emptyRunMeta and effects = "''''"]
  show ?thesis by (intro exI [of _ s']) simp
qed

end
