(* ===== verification/Activity_Session.thy ===== *)
theory Activity_Session
  imports Execution_Checkpointer
begin

text \<open>
  The activity boundary of a durable node: \<open>CallActivity\<close> with its journal
  (activity.go, activity\_observation.go) and the policies of a forked execution
  (execution\_fork\_contract.go). Dispatch and reconciliation run while the mutex of
  the checkpointer is free, so they are computations over the whole session; all
  else holds the mutex. Panics of callbacks end the node and are not modelled.
\<close>

section \<open>Requests\<close>

record 'w ActivityRequest =
  req_Key :: string
  req_Implementation :: string
  req_Input :: string
  req_Dispatch :: "(ActivityInvocation \<Rightarrow> ('w session, string res) state) option"
  req_Reconcile :: "(ActivityRecord \<Rightarrow> ('w session, string res) state) option"
  req_Retry :: ActivityRetryPolicy
  req_Classify :: "(err \<Rightarrow> ActivityFailureDecision) option"

record ActivityOutcome =
  out_Payload :: string
  out_Origin :: ActivityOrigin
  out_Revision :: uint64
  out_Identity :: string

section \<open>Policies of a fork\<close>

definition authorizeForkDispatch :: "('w, 't, 'e) executionCheckpointer \<Rightarrow> ('w session, err option) state" where
  "authorizeForkDispatch c =
    (if exc_forkMode c \<noteq> ForkLive then ret None
     else do {
       current \<leftarrow> envelope;
       case (env_Fork current, exc_forkPolicy c) of
         (Some lineage, Some policy) \<Rightarrow>
           (case fxp_Authorize policy of
              None \<Rightarrow> ret (Some (Sent ErrForkPolicy))
            | Some authorize \<Rightarrow>
                if fxp_Mode policy \<noteq> fkl_Mode lineage \<or> fxp_Label policy \<noteq> fkl_PolicyLabel lineage
                then ret (Some (Sent ErrForkPolicy))
                else do {
                  canceled \<leftarrow> host (exc_cause c);
                  case canceled of
                    Some e \<Rightarrow> ret (Some e)
                  | None \<Rightarrow> do {
                      denied \<leftarrow> authorize lineage;
                      case denied of
                        Some e \<Rightarrow> ret (errJoin [Some (Sent ErrForkPolicy), Some e])
                      | None \<Rightarrow> host (exc_cause c) } })
       | _ \<Rightarrow> ret (Some (Sent ErrForkPolicy)) })"

definition authorized ::
    "('w, 't, 'e) executionCheckpointer \<Rightarrow> ('x \<Rightarrow> ('w session, string res) state) \<Rightarrow> 'x \<Rightarrow> ('w session, string res) state" where
  "authorized c callback x = do {
     denied \<leftarrow> authorizeForkDispatch c;
     case denied of Some e \<Rightarrow> ret (Inl e) | None \<Rightarrow> callback x
   }"

definition forkActivityRequest ::
    "('w, 't, 'e) executionCheckpointer \<Rightarrow> 'w ActivityRequest \<Rightarrow> 'w ActivityRequest res" where
  "forkActivityRequest c request =
    (if exc_forkMode c = ForkLive then
       Ok (request\<lparr>req_Dispatch := map_option (authorized c) (req_Dispatch request),
         req_Reconcile := map_option (authorized c) (req_Reconcile request)\<rparr>)
     else if exc_forkMode c \<noteq> ForkFake then Ok request
     else case exc_forkPolicy c of
       None \<Rightarrow> Err ErrForkPolicy
     | Some policy \<Rightarrow>
         (case fxp_FakeActivity policy of
            None \<Rightarrow> Err ErrForkPolicy
          | Some fake \<Rightarrow> Ok (request\<lparr>req_Dispatch := Some fake, req_Reconcile := None, req_Classify := None\<rparr>)))"

definition activityDispatchOrigin :: "('w, 't, 'e) executionCheckpointer \<Rightarrow> ActivityOrigin" where
  "activityDispatchOrigin c = (if exc_forkMode c = ForkFake then ActivitySimulated else ActivityLive)"

section \<open>The journal\<close>

text \<open>
  The times of a record that JSON encodes; zero times are omitted. An error text
  keeps what JSON keeps of it: every invalid byte becomes U+FFFD.
\<close>

definition scheduleTimes :: "ActivityRetryScheduleDecision option \<Rightarrow> gotime list" where
  "scheduleTimes d = (case d of None \<Rightarrow> [] | Some x \<Rightarrow> [dec_PreparedAt x, dec_NotBefore x, dec_Deadline x])"

definition activityTimes :: "ActivityRecord \<Rightarrow> gotime list" where
  "activityTimes r = rec_NextAttemptAt r
     # concat (map (\<lambda>a. [att_StartedAt a, att_FinishedAt a] @ scheduleTimes (att_RetrySchedule a)) (rec_Attempts r))
     @ concat (map (\<lambda>d. res_At d # scheduleTimes (res_RetrySchedule d)) (rec_Resolutions r))"

definition marshalJournal :: "activity_journal \<Rightarrow> activity_journal payload res" where
  "marshalJournal journal =
    (if list_all (\<lambda>(_, r). list_all marshalTimeOK (activityTimes r)) journal then Ok (Bytes_of True journal) else Inl marshalError)"

function (sequential) jsonText :: "string \<Rightarrow> string" where
  "jsonText [] = []"
| "jsonText (a # s) =
    (let n = rune_size (a # s) in
     if n = 0 then [CHR 0xEF, CHR 0xBF, CHR 0xBD] @ jsonText s
     else take n (a # s) @ jsonText (drop (n - 1) s))"
  by pat_completeness auto
termination
  by (relation "measure length") auto

definition activityJournalCommitError :: "err \<Rightarrow> err" where
  "activityJournalCommitError e =
    (if list_ex (errIs e) [ErrConcurrencyConflict, ErrLeaseLost, ErrExecutionCorrupt, ErrInvalidSnapshot,
        ErrExecutionCapability, ErrExecutionIncompatible, ContextCanceled, ContextDeadlineExceeded]
     then e else Wrapped '''' [Sent ErrActivityJournalUnavailable, e])"

definition persistActivity ::
    "('w, 't, 'e) executionCheckpointer \<Rightarrow> activity_journal \<Rightarrow> ActivityRecord \<Rightarrow> ('w session, err option) state" where
  "persistActivity c journal record =
    (case validateActivityRecord (exc_sha c) record of
       Some e \<Rightarrow> ret (Some e)
     | None \<Rightarrow>
         (case marshalJournal (put (rec_Identity record) record journal) of
            Inl e \<Rightarrow> ret (Some e)
          | Inr payload \<Rightarrow> do {
              current \<leftarrow> envelope;
              r \<leftarrow> commitExecution c (env_Revision current) (current\<lparr>env_JournalPayload := payload\<rparr>);
              case r of
                Inl e \<Rightarrow> do { modify (ses_persistenceFailed_update (\<lambda>_. True)); ret (Some (activityJournalCommitError e)) }
              | Inr committed \<Rightarrow> do { modify (ses_envelope_update (\<lambda>_. committed)); ret None } }))"

section \<open>Observation\<close>

definition activityObservationLocked ::
    "LifecycleOperation \<Rightarrow> LifecycleStage \<Rightarrow> string \<Rightarrow> ExecutionEnvelope \<Rightarrow> LifecycleObservation" where
  "activityObservationLocked operation stage identity e =
    (lifecycleObservation operation stage (env_ExecutionID e) (env_Pointer e))\<lparr>obs_ActivityID := identity,
      obs_SegmentID := seg_SegmentID (rmd_Segment (env_RunMeta e)), obs_SourceRevision := env_Revision e\<rparr>"

definition activityObservationCode :: "ActivityState \<Rightarrow> string" where
  "activityObservationCode s =
    (case s of
       ActivityCompleted \<Rightarrow> lifecycleOutcomeCompleted
     | ActivityFailed \<Rightarrow> lifecycleOutcomeFailed
     | ActivityUnknown \<Rightarrow> ''outcome_unknown''
     | ActivityPrepared \<Rightarrow> ''retry_pending''
     | ActivityRunning \<Rightarrow> ''outcome_running''
     | _ \<Rightarrow> ''invalid_state'')"

text \<open>\<open>errors.AsType[*ActivityRetryPendingError]\<close>: the first one in the tree of causes.\<close>

fun firstSome :: "'a option list \<Rightarrow> 'a option" where
  "firstSome [] = None"
| "firstSome (x # xs) = (case x of None \<Rightarrow> firstSome xs | Some y \<Rightarrow> Some y)"

fun pendingRevision :: "err \<Rightarrow> uint64 option" where
  "pendingRevision (RetryPending _ _ revision) = Some revision"
| "pendingRevision (Wrapped _ es) = firstSome (map pendingRevision es)"
| "pendingRevision _ = None"

definition observeActivityRetry ::
    "('w, 't, 'e) executionCheckpointer \<Rightarrow> LifecycleObservation \<Rightarrow> err option \<Rightarrow> ('w session, unit) state" where
  "observeActivityRetry c event e =
    (if obs_Stage event \<noteq> LifecycleCommitted then ret ()
     else case Option.bind e pendingRevision of
       None \<Rightarrow> ret ()
     | Some revision \<Rightarrow> observeLifecycle c
         (event\<lparr>obs_Operation := LifecycleRetry, obs_Code := ''retry_pending'', obs_Revision := revision\<rparr>))"

definition classifyObservedActivityFailure ::
    "('w, 't, 'e) executionCheckpointer \<Rightarrow> LifecycleObservation \<Rightarrow> 'w ActivityRequest \<Rightarrow> err option
     \<Rightarrow> ('w session, ActivityFailureDecision) state" where
  "classifyObservedActivityFailure c event request dispatchErr =
    (case dispatchErr of
       None \<Rightarrow> ret \<lparr>fd_Class = NoClass, fd_NotBefore = 0\<rparr>
     | Some e \<Rightarrow>
         (case classifyActivityFailure (req_Classify request) e of (decision, invalid) \<Rightarrow>
            if invalid then do {
              observeLifecycle c (event\<lparr>obs_Code := ''invalid_classification'', obs_Stage := LifecycleFailed\<rparr>);
              ret decision }
            else ret decision))"

section \<open>Outcomes\<close>

definition replayActivityLocked ::
    "('w, 't, 'e) executionCheckpointer \<Rightarrow> ActivityRecord \<Rightarrow> ('w session, ActivityOutcome) state" where
  "replayActivityLocked c record = do {
     current \<leftarrow> envelope;
     observeLifecycle c ((activityObservationLocked LifecycleActivity LifecycleReplayed (rec_Identity record) current)
       \<lparr>obs_Revision := env_Revision current, obs_Attempt := attempts_len record\<rparr>);
     ret \<lparr>out_Payload = rec_Outcome record, out_Origin = ActivityReplayed, out_Revision = env_Revision current,
       out_Identity = rec_Identity record\<rparr>
   }"

text \<open>
  The record after a call: \<open>recordActivityFailure\<close> reads the clock once and the
  sampler when it chooses a retry delay (a pure function of the host by its
  contract); a live outcome reads the clock, a reconciled one does not.
\<close>

definition concludeActivity ::
    "('w, 't, 'e) executionCheckpointer \<Rightarrow> string res \<Rightarrow> ActivityOrigin \<Rightarrow> ActivityFailureDecision \<Rightarrow> ActivityRecord
     \<Rightarrow> ('w session, ActivityRecord) state" where
  "concludeActivity c reply origin classification record =
    (case reply of
       Inl dispatchErr \<Rightarrow> do {
         now \<leftarrow> host (exc_clock c);
         sample \<leftarrow> host (exc_retryRandom c);
         ret (recordActivityFailure now sample (jsonText (exc_errText c dispatchErr)) classification record) }
     | Inr payload \<Rightarrow>
         if origin \<noteq> ActivityReconciled \<and> origin \<noteq> ActivityManual then do {
           now \<leftarrow> host (exc_clock c);
           ret (completeActivity now payload origin record) }
         else ret (completeActivity 0 payload origin record))"

definition finishActivityLocked ::
    "('w, 't, 'e) executionCheckpointer \<Rightarrow> string \<Rightarrow> string res \<Rightarrow> ActivityOrigin \<Rightarrow> ActivityFailureDecision
     \<Rightarrow> ('w session, ActivityOutcome res) state" where
  "finishActivityLocked c identity reply origin classification = do {
     current \<leftarrow> envelope;
     case executionActivityJournal (exc_sha c) current of
       Inl e \<Rightarrow> ret (Inl e)
     | Inr journal \<Rightarrow>
         (case lookup journal identity of
            None \<Rightarrow> ret (Err ErrActivityConflict)
          | Some record \<Rightarrow>
              if rec_Attempts record = [] then ret (Err ErrActivityConflict)
              else if rec_State record = ActivityCompleted then
                (if reply \<noteq> Ok (rec_Outcome record) then ret (Err ErrActivityConflict)
                 else ret (Ok \<lparr>out_Payload = rec_Outcome record, out_Origin = ActivityReplayed,
                   out_Revision = env_Revision current, out_Identity = identity\<rparr>))
              else do {
                record' \<leftarrow> concludeActivity c reply origin classification record;
                failed \<leftarrow> persistActivity c journal record';
                after \<leftarrow> envelope;
                ret (case failed of
                    Some e \<Rightarrow> Inl (Wrapped '''' [Sent ErrActivityUnknown, e])
                  | None \<Rightarrow>
                      (case reply of
                         Inl dispatchErr \<Rightarrow> Inl (Wrapped '''' [activityRecordError record' (env_Revision after), dispatchErr])
                       | Inr _ \<Rightarrow> Ok \<lparr>out_Payload = rec_Outcome record', out_Origin = origin,
                           out_Revision = env_Revision after, out_Identity = identity\<rparr>)) }) }"

definition finishActivity ::
    "('w, 't, 'e) executionCheckpointer \<Rightarrow> string \<Rightarrow> string res \<Rightarrow> ActivityOrigin \<Rightarrow> ActivityFailureDecision
     \<Rightarrow> ('w session, ActivityOutcome res) state" where
  "finishActivity c identity reply origin classification = do {
     current \<leftarrow> envelope;
     let event = activityObservationLocked
       (if origin = ActivityReconciled then LifecycleReconcile else LifecycleActivity) LifecycleFailed identity current;
     outcome \<leftarrow> finishActivityLocked c identity reply origin classification;
     after \<leftarrow> envelope;
     let (attempt, code) = (case executionActivityJournal (exc_sha c) after of
         Inl _ \<Rightarrow> (0, '''')
       | Inr journal \<Rightarrow> (case lookup journal identity of
           None \<Rightarrow> (0, activityObservationCode (ActivityStateOther ''''))
         | Some record \<Rightarrow> (attempts_len record, activityObservationCode (rec_State record))));
     let event' = event\<lparr>obs_Attempt := attempt\<rparr>;
     let event'' = (if env_Revision after > obs_SourceRevision event
       then event'\<lparr>obs_Stage := LifecycleCommitted, obs_Revision := env_Revision after, obs_Code := code\<rparr>
       else case outcome of
         Inl _ \<Rightarrow> event'
       | Inr result \<Rightarrow> if out_Origin result = ActivityReplayed
           then event'\<lparr>obs_Stage := LifecycleReplayed, obs_Revision := out_Revision result\<rparr> else event');
     observeLifecycle c event'';
     observeActivityRetry c event'' (errOf outcome);
     ret outcome
   }"

section \<open>Calls\<close>

definition recoverActivityLocked ::
    "('w, 't, 'e) executionCheckpointer \<Rightarrow> 'w ActivityRequest \<Rightarrow> activity_journal \<Rightarrow> ActivityRecord
     \<Rightarrow> ('w session, ActivityOutcome res) state" where
  "recoverActivityLocked c request journal record =
    (if rec_State record = ActivityRunning \<and> rec_Attempts record = [] then ret (Err ErrActivityConflict)
     else if rec_State record = ActivityRunning \<and> att_Incarnation (last_attempt record) = lse_Incarnation (exc_lease c)
     then ret (Err ErrActivityBusy)
     else do {
       let record' = (if rec_State record = ActivityRunning then markActivityUnknown record else record);
       failed \<leftarrow> (if rec_State record = ActivityRunning then persistActivity c journal record' else ret None);
       case failed of
         Some e \<Rightarrow> ret (Inl e)
       | None \<Rightarrow> do {
           current \<leftarrow> envelope;
           let event = (activityObservationLocked LifecycleReconcile LifecycleStarted (rec_Identity record') current)
             \<lparr>obs_Attempt := attempts_len record'\<rparr>;
           case req_Reconcile request of
             None \<Rightarrow> ret (Err ErrActivityUnknown)
           | Some reconcile \<Rightarrow> do {
               observeLifecycle c event;
               reply \<leftarrow> reconcile record';
               case reply of
                 Inl e \<Rightarrow> do {
                   observeLifecycle c (event\<lparr>obs_Stage := LifecycleFailed\<rparr>);
                   ret (Inl (Wrapped '''' [Sent ErrActivityUnknown, e])) }
               | Inr payload \<Rightarrow> finishActivity c (rec_Identity record') (Ok payload) ActivityReconciled
                   \<lparr>fd_Class = NoClass, fd_NotBefore = 0\<rparr> } } })"

text \<open>The dispatch intent is committed, then the host dispatches, then the outcome is committed.\<close>

definition dispatchActivity ::
    "('w, 't, 'e) executionCheckpointer \<Rightarrow> 'w ActivityRequest \<Rightarrow> (ActivityInvocation \<Rightarrow> ('w session, string res) state)
     \<Rightarrow> activity_journal \<Rightarrow> ActivityRecord \<Rightarrow> ('w session, ActivityOutcome res) state" where
  "dispatchActivity c request dispatch journal record = do {
     now \<leftarrow> host (exc_clock c);
     let record' = startActivityAttempt (lse_Incarnation (exc_lease c)) now record;
     failed \<leftarrow> persistActivity c journal record';
     current \<leftarrow> envelope;
     case failed of
       Some e \<Rightarrow> do {
         observeLifecycle c (activityObservationLocked LifecycleActivity LifecycleFailed (rec_Identity record) current);
         ret (Inl e) }
     | None \<Rightarrow> do {
         let event = (activityObservationLocked LifecycleActivity LifecycleStarted (rec_Identity record) current)
           \<lparr>obs_Attempt := attempts_len record'\<rparr>;
         observeLifecycle c event;
         reply \<leftarrow> dispatch \<lparr>ivc_Identity = rec_Identity record, ivc_Input = req_Input request, ivc_Attempt = attempts_len record'\<rparr>;
         classification \<leftarrow> classifyObservedActivityFailure c event request (errOf reply);
         finishActivity c (rec_Identity record) reply (activityDispatchOrigin c) classification } }"

text \<open>A call for an activity that the journal has, and one for a new activity.\<close>

definition callKnownActivity ::
    "('w, 't, 'e) executionCheckpointer \<Rightarrow> 'w ActivityRequest \<Rightarrow> ExecutionEnvelope \<Rightarrow> activity_journal \<Rightarrow> ActivityRecord
     \<Rightarrow> ('w session, ActivityOutcome res) state" where
  "callKnownActivity c request current journal record =
    (if rec_InputDigest record \<noteq> exc_sha c (req_Input request) \<or> rec_Implementation record \<noteq> req_Implementation request
        \<or> rec_Retry record \<noteq> req_Retry request then ret (Err ErrActivityConflict)
     else if rec_State record = ActivityCompleted then do { outcome \<leftarrow> replayActivityLocked c record; ret (Ok outcome) }
     else if rec_State record = ActivityRunning \<or> rec_State record = ActivityUnknown
     then recoverActivityLocked c request journal record
     else do {
       now \<leftarrow> host (exc_clock c);
       case preparedActivityError record (env_Revision current) now of
         Some e \<Rightarrow> ret (Inl e)
       | None \<Rightarrow> dispatchActivity c request (the (req_Dispatch request)) journal record })"

definition requestedRecord :: "('w, 't, 'e) executionCheckpointer \<Rightarrow> 'w ActivityRequest \<Rightarrow> ExecutionEnvelope \<Rightarrow> ActivityRecord" where
  "requestedRecord c request current =
    newActivityRecord (boundActivityIdentity (exc_sha c) current (req_Key request)) (env_ExecutionID current) (env_Pointer current)
      (env_Activation current) (req_Key request) (exc_sha c (req_Input request)) (req_Implementation request) (req_Retry request)"

definition callNewActivity ::
    "('w, 't, 'e) executionCheckpointer \<Rightarrow> 'w ActivityRequest \<Rightarrow> activity_journal \<Rightarrow> ActivityRecord
     \<Rightarrow> ('w session, ActivityOutcome res) state" where
  "callNewActivity c request journal record = do {
     failed \<leftarrow> persistActivity c journal record;
     current \<leftarrow> envelope;
     case failed of
       Some e \<Rightarrow> do {
         observeLifecycle c (activityObservationLocked LifecycleActivity LifecycleFailed (rec_Identity record) current);
         ret (Inl e) }
     | None \<Rightarrow> dispatchActivity c request (the (req_Dispatch request)) (put (rec_Identity record) record journal) record }"

definition callActivity ::
    "('w, 't, 'e) executionCheckpointer \<Rightarrow> 'w ActivityRequest \<Rightarrow> ('w session, ActivityOutcome res) state" where
  "callActivity c request0 =
    (case forkActivityRequest c request0 of
       Inl e \<Rightarrow> ret (Inl e)
     | Inr request \<Rightarrow> do {
         current \<leftarrow> envelope;
         case executionActivityJournal (exc_sha c) current of
           Inl e \<Rightarrow> ret (Inl e)
         | Inr journal \<Rightarrow>
             (case lookup journal (boundActivityIdentity (exc_sha c) current (req_Key request)) of
                Some record \<Rightarrow> callKnownActivity c request current journal record
              | None \<Rightarrow> callNewActivity c request journal (requestedRecord c request current)) })"

text \<open>
  The entry point. \<open>nested\<close> says that the context comes from a callback, \<open>backend\<close> is
  the checkpointer of the context. The dispatcher of an admitted request is not nil.
\<close>

definition CallActivity ::
    "bool \<Rightarrow> ('w, 't, 'e) executionCheckpointer option \<Rightarrow> 'w ActivityRequest \<Rightarrow> ('w session, ActivityOutcome res) state" where
  "CallActivity nested backend request =
    (if nested then ret (Err ErrExecutionCapability)
     else case backend of
       None \<Rightarrow> ret (Err ErrExecutionCapability)
     | Some c \<Rightarrow>
         if req_Key request = '''' \<or> req_Implementation request = '''' \<or> req_Dispatch request = None
            \<or> \<not> validRuntimeText [req_Key request, req_Implementation request]
         then ret (Err ErrExecutionCapability)
         else case validateActivityRetry (req_Retry request) of
           Some e \<Rightarrow> ret (Inl e)
         | None \<Rightarrow> callActivity c request)"

section \<open>Commits of the journal\<close>

lemma put_subset: "set (put k v m) \<subseteq> insert (k, v) (set m)"
  by (induction m) auto

lemma persistActivity_cases:
  assumes "run_state (persistActivity c journal record) s = (failed, s')"
  shows "failed \<noteq> None \<and> ses_envelope s' = ses_envelope s
    \<or> failed = None \<and> validateActivityRecord (exc_sha c) record = None
      \<and> (\<exists>w w'. run_state (exc_CommitExecution c (env_Revision (ses_envelope s)) (exc_lease c)
           ((ses_envelope s)\<lparr>env_JournalPayload := Bytes_of True (put (rec_Identity record) record journal)\<rparr>)) w = (Ok (ses_envelope s'), w'))"
proof (cases "validateActivityRecord (exc_sha c) record")
  case None
  note valid = this
  show ?thesis
  proof (cases "marshalJournal (put (rec_Identity record) record journal)")
    case (Inr payload)
    then have p: "payload = Bytes_of True (put (rec_Identity record) record journal)"
      by (simp add: marshalJournal_def split: if_splits)
    obtain q t where q: "run_state (commitExecution c (env_Revision (ses_envelope s)) ((ses_envelope s)\<lparr>env_JournalPayload := payload\<rparr>)) s = (q, t)"
      by fastforce
    have run: "run_state (persistActivity c journal record) s = (case q of
        Inl e \<Rightarrow> (Some (activityJournalCommitError e), t\<lparr>ses_persistenceFailed := True\<rparr>)
      | Inr committed \<Rightarrow> (None, t\<lparr>ses_envelope := committed\<rparr>))"
      using valid Inr q unfolding persistActivity_def by (cases q) simp_all
    show ?thesis
      using run assms run_commit [OF q] valid unfolding p by (cases q) auto
  qed (use valid assms in \<open>auto simp: persistActivity_def\<close>)
qed (use assms in \<open>auto simp: persistActivity_def\<close>)

text \<open>A record with the address of the one it replaces, or a new one under its own address.\<close>

definition fits :: "sha256 \<Rightarrow> ExecutionEnvelope \<Rightarrow> activity_journal \<Rightarrow> ActivityRecord \<Rightarrow> bool" where
  "fits sha e journal r \<longleftrightarrow> validateActivityRecord sha r = None \<and> journal_record_ok e r
     \<and> (\<forall>old. lookup journal (rec_Identity r) = Some old \<longrightarrow> rec_Key old = rec_Key r \<and> rec_Activation old = rec_Activation r)
     \<and> (activityUnresolved (rec_State r) \<longrightarrow>
         rec_Activation r = env_Activation e \<and> boundActivityIdentity sha e (rec_Key r) = rec_Identity r)"

lemma journal_put:
  assumes journal: "executionActivityJournal sha e = Ok journal" and r: "fits sha e journal r"
    and e': "e' = e\<lparr>env_JournalPayload := Bytes_of True (put (rec_Identity r) r journal), env_Revision := revision, env_Digest := digest\<rparr>"
    and later: "env_Revision e \<le> revision"
  shows "executionActivityJournal sha e' = Ok (put (rec_Identity r) r journal)"
proof -
  have same: "same_address e' e" by (simp add: e' same_address_def)
  from journal have j: "\<forall>(identity, x) \<in> set journal. identity = rec_Identity x \<and> validateActivityRecord sha x = None"
      "\<forall>(_, x) \<in> set journal. journal_record_ok e x" "validateActivityReferences sha e journal = None"
    by (auto simp: executionActivityJournal_Ok_iff decodeActivityJournal_Ok_iff)
  have "journal_record_ok e' x" if "journal_record_ok e x" for x
    using that later by (auto simp: journal_record_ok_def e')
  then have ok: "\<forall>(_, x) \<in> set (put (rec_Identity r) r journal). journal_record_ok e' x"
    using j(2) r put_subset [of "rec_Identity r" r journal] by (fastforce simp: fits_def)
  have "validateActivityReferences sha e (put (rec_Identity r) r journal) = None"
    using j(3) r put_subset [of "rec_Identity r" r journal] unfolding validateActivityReferences_iff fits_def
    by (intro conjI) fastforce+
  then have refs: "validateActivityReferences sha e' (put (rec_Identity r) r journal) = None"
    using references_cong(1) [OF same] by simp
  have "decodeActivityJournal sha (env_JournalPayload e') = Ok (put (rec_Identity r) r journal)"
    using j(1) r put_subset [of "rec_Identity r" r journal] by (fastforce simp: decodeActivityJournal_Ok_iff e' fits_def)
  with ok refs show ?thesis by (simp add: executionActivityJournal_Ok_iff)
qed

text \<open>The records the calls write fit the journal they were read from.\<close>

lemma journal_lookup_fits:
  assumes "executionActivityJournal sha e = Ok journal" and "lookup journal identity = Some r"
  shows "fits sha e journal r" "rec_Identity r = identity"
proof -
  have m: "(identity, r) \<in> set journal" using assms(2) by (rule map_of_SomeD)
  show "rec_Identity r = identity" using journal_entry_valid(2) [OF assms(1) m] by simp
  with assms m show "fits sha e journal r"
    by (auto simp: fits_def executionActivityJournal_Ok_iff decodeActivityJournal_Ok_iff validateActivityReferences_iff)
qed

lemma derived_fits:
  assumes "fits sha e journal r" and "validateActivityRecord sha r' = None"
    and "rec_Identity r' = rec_Identity r" "rec_ExecutionID r' = rec_ExecutionID r" "rec_Activation r' = rec_Activation r"
      "rec_Key r' = rec_Key r" "rec_Resolutions r' = rec_Resolutions r"
    and "rec_Origin r' = rec_Origin r \<or> rec_Origin r' = NoOrigin \<or> rec_Origin r' = ActivityReconciled"
    and "activityUnresolved (rec_State r') \<longrightarrow> activityUnresolved (rec_State r)"
  shows "fits sha e journal r'"
  using assms unfolding fits_def journal_record_ok_def by auto

lemma new_fits:
  assumes "executionActivityJournal sha e = Ok journal" and "identity = boundActivityIdentity sha e key"
    and "lookup journal identity = None"
    and "validateActivityRecord sha (newActivityRecord identity (env_ExecutionID e) (env_Pointer e) (env_Activation e) key digest impl retry) = None"
  shows "fits sha e journal (newActivityRecord identity (env_ExecutionID e) (env_Pointer e) (env_Activation e) key digest impl retry)"
  using assms by (auto simp: fits_def journal_record_ok_def newActivityRecord_def)

context durable_store begin

text \<open>After a commit of the journal the committed journal reads as it was written.\<close>

lemma persisted_journal:
  assumes "run_state (persistActivity c journal record) s = (None, s')"
    and "executionActivityJournal (exc_sha c) (ses_envelope s) = Ok base"
    and "journal = base \<or> (\<exists>old. journal = put (rec_Identity record) old base)"
    and "fits (exc_sha c) (ses_envelope s) base record"
  shows "executionActivityJournal (exc_sha c) (ses_envelope s') = Ok (put (rec_Identity record) record base)"
    and "same_address (ses_envelope s') (ses_envelope s)"
    and "env_Fork (ses_envelope s') = env_Fork (ses_envelope s)"
    and "env_Revision (ses_envelope s) < env_Revision (ses_envelope s')"
proof -
  have put: "put (rec_Identity record) record journal = put (rec_Identity record) record base"
    using assms(3) by auto
  from persistActivity_cases [OF assms(1)] put obtain w w' where
    commit: "run_state (exc_CommitExecution c (env_Revision (ses_envelope s)) (exc_lease c)
           ((ses_envelope s)\<lparr>env_JournalPayload := Bytes_of True (put (rec_Identity record) record base)\<rparr>)) w = (Ok (ses_envelope s'), w')"
    by auto
  from commit_seals [OF commit] obtain digest where nowrap: "env_Revision (ses_envelope s) \<noteq> - 1"
    and e': "ses_envelope s' = (ses_envelope s)\<lparr>env_JournalPayload := Bytes_of True (put (rec_Identity record) record base),
       env_Revision := env_Revision (ses_envelope s) + 1, env_Digest := digest\<rparr>"
    by auto
  show "executionActivityJournal (exc_sha c) (ses_envelope s') = Ok (put (rec_Identity record) record base)"
    using journal_put [OF assms(2,4) e'] rev_succ_self [OF nowrap] by simp
  show "same_address (ses_envelope s') (ses_envelope s)" "env_Fork (ses_envelope s') = env_Fork (ses_envelope s)"
      "env_Revision (ses_envelope s) < env_Revision (ses_envelope s')"
    using rev_succ_self [OF nowrap] by (simp_all add: e' same_address_def)
qed

end

section \<open>Counting dispatches\<close>

text \<open>
  \<open>meter\<close> is a meter in the world of the host that the dispatcher of the request
  advances by one and that nothing else touches.
\<close>

definition quiet :: "('w \<Rightarrow> 'k) \<Rightarrow> ('w, 'a) state \<Rightarrow> bool" where
  "quiet meter m \<longleftrightarrow> (\<forall>w. meter (snd (run_state m w)) = meter w)"

definition adds :: "('w \<Rightarrow> nat) \<Rightarrow> nat \<Rightarrow> ('w session, 'a) state \<Rightarrow> bool" where
  "adds meter k m \<longleftrightarrow> (\<forall>s. meter (ses_world (snd (run_state m s))) = meter (ses_world s) + k)"

definition meters ::
    "('w \<Rightarrow> nat) \<Rightarrow> ('w, 't, 'e) executionCheckpointer \<Rightarrow> 'w ActivityRequest \<Rightarrow> bool" where
  "meters meter c request \<longleftrightarrow>
     quiet meter (exc_clock c) \<and> quiet meter (exc_retryRandom c) \<and> quiet meter (exc_cause c)
     \<and> (\<forall>expected lease e. quiet meter (exc_CommitExecution c expected lease e))
     \<and> (\<forall>observer event. exc_observer c = Some observer \<longrightarrow> quiet meter (observer event))
     \<and> (\<forall>policy authorize lineage. exc_forkPolicy c = Some policy \<longrightarrow> fxp_Authorize policy = Some authorize \<longrightarrow> adds meter 0 (authorize lineage))
     \<and> (\<forall>policy fake invocation. exc_forkPolicy c = Some policy \<longrightarrow> fxp_FakeActivity policy = Some fake \<longrightarrow> adds meter 0 (fake invocation))
     \<and> (\<forall>reconcile record. req_Reconcile request = Some reconcile \<longrightarrow> adds meter 0 (reconcile record))
     \<and> (\<forall>dispatch invocation. req_Dispatch request = Some dispatch \<longrightarrow> adds meter 1 (dispatch invocation))"

lemma adds_return: "adds meter 0 (ret x)"
  by (simp add: adds_def)

lemma adds_bind: "adds meter 0 m \<Longrightarrow> (\<And>x. adds meter 0 (f x)) \<Longrightarrow> adds meter 0 (State_Monad.bind m f)"
  by (simp add: adds_def split: prod.split) (metis snd_conv)

lemma adds_host: "quiet meter m \<Longrightarrow> adds meter 0 (host m)"
  by (simp add: adds_def quiet_def)

lemma adds_envelope: "adds meter 0 envelope"
  by (simp add: adds_def)

lemma adds_modify: "(\<And>s. ses_world (f s) = ses_world s) \<Longrightarrow> adds meter 0 (modify f)"
  by (simp add: adds_def)

lemma adds_if: "adds meter 0 m \<Longrightarrow> adds meter 0 m' \<Longrightarrow> adds meter 0 (if b then m else m')"
  by simp

lemma adds_option: "adds meter 0 m \<Longrightarrow> (\<And>x. adds meter 0 (f x)) \<Longrightarrow> adds meter 0 (case v of None \<Rightarrow> m | Some x \<Rightarrow> f x)"
  by (cases v) auto

lemma adds_sum: "(\<And>e. adds meter 0 (f e)) \<Longrightarrow> (\<And>x. adds meter 0 (g x)) \<Longrightarrow> adds meter 0 (case v of Inl e \<Rightarrow> f e | Inr x \<Rightarrow> g x)"
  by (cases v) auto

lemma adds_prod: "(\<And>x y. adds meter 0 (f x y)) \<Longrightarrow> adds meter 0 (case v of (x, y) \<Rightarrow> f x y)"
  by (cases v) auto

lemmas adds_rules = adds_return adds_bind adds_host adds_envelope adds_modify adds_if adds_option adds_sum adds_prod

lemma meters_quiet:
  assumes "meters meter c request"
  shows "quiet meter (exc_clock c)" "quiet meter (exc_retryRandom c)" "quiet meter (exc_cause c)"
    "quiet meter (exc_CommitExecution c expected lease e)"
  using assms by (simp_all add: meters_def)

lemma adds_observe: "meters meter c request \<Longrightarrow> adds meter 0 (observeLifecycle c event)"
  by (auto simp: meters_def observeLifecycle_def intro!: adds_rules split: option.split)

lemma adds_commit: "meters meter c request \<Longrightarrow> adds meter 0 (commitExecution c revision target)"
  by (auto simp: commitExecution_def noteSessionLeaseFailure_def attachSessionObservation_def intro!: adds_rules meters_quiet)

lemma adds_persist: "meters meter c request \<Longrightarrow> adds meter 0 (persistActivity c journal record)"
  by (auto simp: persistActivity_def intro!: adds_rules adds_commit)

lemma adds_finish:
  assumes "meters meter c request"
  shows "adds meter 0 (finishActivity c identity reply origin classification)"
  unfolding finishActivity_def finishActivityLocked_def concludeActivity_def observeActivityRetry_def Let_def split_beta
  by (intro adds_rules adds_persist [OF assms] adds_observe [OF assms] meters_quiet [OF assms])

lemma adds_replay: "meters meter c request \<Longrightarrow> adds meter 0 (replayActivityLocked c record)"
  unfolding replayActivityLocked_def by (intro adds_rules adds_observe)

lemma adds_recover:
  assumes "meters meter c request"
    and "\<And>reconcile record. req_Reconcile request' = Some reconcile \<Longrightarrow> adds meter 0 (reconcile record)"
  shows "adds meter 0 (recoverActivityLocked c request' journal record)"
proof (cases "req_Reconcile request'")
  case None
  then show ?thesis
    unfolding recoverActivityLocked_def Let_def None option.case
    by (intro adds_return adds_bind adds_if adds_option adds_envelope adds_persist [OF assms(1)])
next
  case (Some reconcile)
  show ?thesis
    unfolding recoverActivityLocked_def Let_def Some option.case
    by (intro adds_return adds_bind adds_if adds_option adds_sum adds_envelope adds_persist [OF assms(1)]
        adds_observe [OF assms(1)] adds_finish [OF assms(1)] assms(2) [OF Some])
qed

text \<open>A dispatch advances the meter as the dispatcher does, or not at all when the intent could not be committed.\<close>

lemma meter_bind:
  assumes "adds meter 0 m" and "\<And>x s. meter (ses_world (snd (run_state (f x) s))) \<in> {meter (ses_world s), meter (ses_world s) + k}"
  shows "meter (ses_world (snd (run_state (State_Monad.bind m f) s))) \<in> {meter (ses_world s), meter (ses_world s) + k}"
  using assms(1) assms(2) [of "fst (run_state m s)" "snd (run_state m s)"] by (simp add: adds_def split_beta)

lemma meter_then:
  assumes "\<And>s. meter (ses_world (snd (run_state m s))) \<in> {meter (ses_world s), meter (ses_world s) + k}" and "\<And>x. adds meter 0 (f x)"
  shows "meter (ses_world (snd (run_state (State_Monad.bind m f) s))) \<in> {meter (ses_world s), meter (ses_world s) + k}"
  using assms(1) [of s] assms(2) [of "fst (run_state m s)"] by (simp add: adds_def split_beta)

lemma meter_adds: "adds meter 0 m \<Longrightarrow> meter (ses_world (snd (run_state m s))) \<in> {meter (ses_world s), meter (ses_world s) + k}"
  by (simp add: adds_def)

lemma meter_option:
  assumes "\<And>s. meter (ses_world (snd (run_state m s))) \<in> {meter (ses_world s), meter (ses_world s) + k}"
    and "\<And>x s. meter (ses_world (snd (run_state (f x) s))) \<in> {meter (ses_world s), meter (ses_world s) + k}"
  shows "meter (ses_world (snd (run_state (case v of None \<Rightarrow> m | Some x \<Rightarrow> f x) s))) \<in> {meter (ses_world s), meter (ses_world s) + k}"
  using assms by (cases v) auto

lemma meter_dispatch:
  assumes "meters meter c request"
    and "\<And>invocation s. meter (ses_world (snd (run_state (dispatch invocation) s))) \<in> {meter (ses_world s), meter (ses_world s) + k}"
  shows "meter (ses_world (snd (run_state (dispatchActivity c request' dispatch journal record) s))) \<in> {meter (ses_world s), meter (ses_world s) + k}"
proof -
  have classify: "adds meter 0 (classifyObservedActivityFailure c event request' e)" for event e
    unfolding classifyObservedActivityFailure_def
    by (intro adds_return adds_bind adds_if adds_option adds_prod adds_observe [OF assms(1)])
  show ?thesis
    unfolding dispatchActivity_def Let_def
    by (rule meter_bind [OF adds_host [OF meters_quiet(1) [OF assms(1)]]] meter_bind [OF adds_persist [OF assms(1)]] meter_bind [OF adds_envelope]
        meter_option meter_bind [OF adds_observe [OF assms(1)]] meter_adds adds_return meter_then adds_bind assms(2) classify adds_finish [OF assms(1)])+
qed

text \<open>A request may be dispatched when its activity is new, or prepared with a due and permitted retry.\<close>

definition dispatchable :: "('w, 't, 'e) executionCheckpointer \<Rightarrow> 'w ActivityRequest \<Rightarrow> 'w session \<Rightarrow> bool" where
  "dispatchable c request s \<longleftrightarrow> exc_forkMode c \<noteq> ForkFake \<and>
    (case executionActivityJournal (exc_sha c) (ses_envelope s) of
       Inl _ \<Rightarrow> False
     | Inr journal \<Rightarrow>
         (case lookup journal (boundActivityIdentity (exc_sha c) (ses_envelope s) (req_Key request)) of
            None \<Rightarrow> True
          | Some r \<Rightarrow> rec_State r = ActivityPrepared \<and> rec_InputDigest r = exc_sha c (req_Input request)
              \<and> rec_Implementation r = req_Implementation request \<and> rec_Retry r = req_Retry request
              \<and> (rec_Attempts r = [] \<or> attempts_len r < pol_MaxAttempts (rec_Retry r) \<and> pol_SafeRetryContract (rec_Retry r) \<noteq> ''''
                  \<and> rec_NextAttemptAt r \<le> fst (run_state (exc_clock c) (ses_world s)))))"

lemma prepared_None_iff:
  "preparedActivityError r revision now = None \<longleftrightarrow> rec_State r = ActivityPrepared
    \<and> (rec_Attempts r = [] \<or> attempts_len r < pol_MaxAttempts (rec_Retry r) \<and> pol_SafeRetryContract (rec_Retry r) \<noteq> ''''
        \<and> \<not> IsZero (rec_NextAttemptAt r) \<and> rec_NextAttemptAt r \<le> now)"
  by (auto simp: preparedActivityError_def)

lemma fork_request_fields:
  assumes "forkActivityRequest c request = Ok request'"
  shows "req_Key request' = req_Key request" "req_Input request' = req_Input request" "req_Retry request' = req_Retry request"
    "req_Implementation request' = req_Implementation request"
  using assms by (auto simp: forkActivityRequest_def split: if_splits option.splits)

lemma adds_authorized:
  assumes "meters meter c request" and "\<And>s. meter (ses_world (snd (run_state (callback x) s))) \<in> {meter (ses_world s), meter (ses_world s) + k}"
  shows "meter (ses_world (snd (run_state (authorized c callback x) s))) \<in> {meter (ses_world s), meter (ses_world s) + k}"
proof -
  have "adds meter 0 (authorizeForkDispatch c)"
  proof (cases "exc_forkPolicy c")
    case None
    then show ?thesis unfolding authorizeForkDispatch_def
      by (intro adds_return adds_bind adds_if adds_envelope) (simp add: adds_return split: option.split)
  next
    case (Some policy)
    have "adds meter 0 (authorize lineage)" if "fxp_Authorize policy = Some authorize" for authorize lineage
      using assms(1) Some that by (simp add: meters_def)
    then show ?thesis
      by (cases "fxp_Authorize policy")
        (auto simp: authorizeForkDispatch_def Some intro!: adds_return adds_bind adds_if adds_envelope adds_host meters_quiet [OF assms(1)]
          split: option.split)
  qed
  then show ?thesis unfolding authorized_def by (intro meter_bind meter_option meter_adds adds_return assms(2))
qed

lemma fork_request_meters:
  assumes "meters meter c request" and "forkActivityRequest c request = Ok request'" and "req_Dispatch request \<noteq> None"
  shows "\<exists>dispatch. req_Dispatch request' = Some dispatch \<and>
      (\<forall>invocation s. meter (ses_world (snd (run_state (dispatch invocation) s)))
        \<in> {meter (ses_world s), meter (ses_world s) + (if exc_forkMode c = ForkFake then 0 else 1)})"
    and "req_Reconcile request' = Some reconcile \<Longrightarrow> adds meter 0 (reconcile record)"
proof -
  obtain dispatch where d: "req_Dispatch request = Some dispatch" using assms(3) by auto
  have once: "meter (ses_world (snd (run_state (dispatch invocation) s))) \<in> {meter (ses_world s), meter (ses_world s) + 1}" for invocation s
    using assms(1) d by (simp add: meters_def adds_def)
  have fake: "adds meter 0 (f invocation)" if "exc_forkPolicy c = Some policy" "fxp_FakeActivity policy = Some f" for policy f invocation
    using assms(1) that by (simp add: meters_def)
  show "\<exists>dispatch. req_Dispatch request' = Some dispatch \<and>
      (\<forall>invocation s. meter (ses_world (snd (run_state (dispatch invocation) s)))
        \<in> {meter (ses_world s), meter (ses_world s) + (if exc_forkMode c = ForkFake then 0 else 1)})"
    using assms(2) d once fake adds_authorized [OF assms(1), of dispatch, OF once]
    by (auto simp: forkActivityRequest_def adds_def split: if_splits option.splits)
  show "adds meter 0 (reconcile record)" if "req_Reconcile request' = Some reconcile"
  proof -
    have r: "adds meter 0 (f x)" if "req_Reconcile request = Some f" for f x
      using assms(1) that by (simp add: meters_def)
    have "adds meter 0 (authorized c f x)" if "req_Reconcile request = Some f" for f x
      using adds_authorized [OF assms(1), where k = 0 and callback = f and x = x] r [OF that] by (simp add: adds_def)
    then show ?thesis
      using assms(2) that r by (auto simp: forkActivityRequest_def split: if_splits option.splits)
  qed
qed

lemma call_meters:
  assumes "meters meter c request" and "req_Dispatch request \<noteq> None"
  shows "meter (ses_world (snd (run_state (callActivity c request) s)))
    \<in> {meter (ses_world s), meter (ses_world s) + (if dispatchable c request s then 1 else 0)}"
proof (cases "forkActivityRequest c request")
  case (Inr request')
  note fork = Inr and fields = fork_request_fields [OF Inr]
  let ?k = "if exc_forkMode c = ForkFake then 0 else 1"
  obtain dispatch where d: "req_Dispatch request' = Some dispatch"
    and k: "\<And>invocation s. meter (ses_world (snd (run_state (dispatch invocation) s))) \<in> {meter (ses_world s), meter (ses_world s) + ?k}"
    using fork_request_meters(1) [OF assms(1) fork assms(2)] by blast
  have dispatched: "meter (ses_world (snd (run_state (dispatchActivity c request' dispatch journal r) s)))
      \<in> {meter (ses_world s), meter (ses_world s) + ?k}" for journal r s
    by (rule meter_dispatch [OF assms(1)]) (rule k)
  have recover: "adds meter 0 (recoverActivityLocked c request' journal r)" for journal r
    using fork_request_meters(2) [OF assms(1) fork assms(2)] by (intro adds_recover [OF assms(1)])
  have new: "meter (ses_world (snd (run_state (callNewActivity c request' journal r) s))) \<in> {meter (ses_world s), meter (ses_world s) + ?k}" for journal r s
    unfolding callNewActivity_def d option.sel
    by (intro meter_bind [OF adds_persist [OF assms(1)]] meter_bind [OF adds_envelope] meter_option dispatched
        meter_adds [OF adds_bind [OF adds_observe [OF assms(1)] adds_return]])
  have known: "meter (ses_world (snd (run_state (callKnownActivity c request' e journal r) s)))
      \<in> {meter (ses_world s), meter (ses_world s)
        + (if rec_InputDigest r = exc_sha c (req_Input request) \<and> rec_Implementation r = req_Implementation request
             \<and> rec_Retry r = req_Retry request
             \<and> preparedActivityError r (env_Revision e) (fst (run_state (exc_clock c) (ses_world s))) = None then ?k else 0)}"
    for e journal r s
  proof -
    have adds: "adds meter 0 m \<Longrightarrow> meter (ses_world (snd (run_state m s))) = meter (ses_world s)" for m :: "('a session, ActivityOutcome res) state"
      by (simp add: adds_def)
    have replay: "adds meter 0 (State_Monad.bind (replayActivityLocked c r) (\<lambda>outcome. ret (Ok outcome)))"
      by (intro adds_bind adds_replay [OF assms(1)] adds_return)
    have clock: "meter (snd (run_state (exc_clock c) (ses_world s))) = meter (ses_world s)"
      using meters_quiet(1) [OF assms(1)] by (simp add: quiet_def)
    show ?thesis
      using adds [OF replay] adds [OF recover, of journal r] clock
        dispatched [of journal r "s\<lparr>ses_world := snd (run_state (exc_clock c) (ses_world s))\<rparr>"]
      by (auto simp: callKnownActivity_def fields d split: option.split)
  qed
  show ?thesis
  proof (cases "executionActivityJournal (exc_sha c) (ses_envelope s)")
    case (Inr journal)
    show ?thesis
    proof (cases "lookup journal (boundActivityIdentity (exc_sha c) (ses_envelope s) (req_Key request))")
      case None
      then show ?thesis
        using new [of journal "requestedRecord c request' (ses_envelope s)" s]
        by (simp add: callActivity_def fork fields Inr dispatchable_def split: if_splits)
    next
      case (Some r)
      show ?thesis
        using known [of "ses_envelope s" journal r s] Some
        by (simp add: callActivity_def fork fields Inr dispatchable_def prepared_None_iff split: if_splits) blast+
    qed
  qed (simp add: callActivity_def fork)
qed (simp add: callActivity_def)

section \<open>The intent of a dispatch\<close>

text \<open>
  \<open>intended c request invocation s\<close>: the head of the session is an envelope that the
  store accepted under the lease of the session, and its journal has the activity of
  the invocation as running, started by this lease, with the input of the request.
\<close>

definition intended :: "('w, 't, 'e) executionCheckpointer \<Rightarrow> 'w ActivityRequest \<Rightarrow> ActivityInvocation \<Rightarrow> 'w session \<Rightarrow> bool" where
  "intended c request invocation s \<longleftrightarrow>
    (\<exists>revision target w w'. run_state (exc_CommitExecution c revision (exc_lease c) target) w = (Ok (ses_envelope s), w'))
    \<and> (\<exists>journal r. executionActivityJournal (exc_sha c) (ses_envelope s) = Ok journal
        \<and> lookup journal (ivc_Identity invocation) = Some r \<and> rec_State r = ActivityRunning
        \<and> attempts_len r = ivc_Attempt invocation \<and> att_Incarnation (last_attempt r) = lse_Incarnation (exc_lease c)
        \<and> rec_Implementation r = req_Implementation request \<and> rec_Retry r = req_Retry request
        \<and> rec_InputDigest r = exc_sha c (ivc_Input invocation))
    \<and> ivc_Identity invocation = boundActivityIdentity (exc_sha c) (ses_envelope s) (req_Key request)
    \<and> ivc_Input invocation = req_Input request"

text \<open>Two dispatchers that differ at most where no intent is committed; an authorizer that leaves the session alone.\<close>

definition agrees ::
    "('w, 't, 'e) executionCheckpointer \<Rightarrow> 'w ActivityRequest \<Rightarrow> (ActivityInvocation \<Rightarrow> ('w session, string res) state)
     \<Rightarrow> (ActivityInvocation \<Rightarrow> ('w session, string res) state) \<Rightarrow> bool" where
  "agrees c request dispatch dispatch' \<longleftrightarrow>
    (\<forall>invocation s. intended c request invocation s \<longrightarrow> run_state (dispatch invocation) s = run_state (dispatch' invocation) s)"

definition onlyAuthorizes :: "('w, 't, 'e) executionCheckpointer \<Rightarrow> bool" where
  "onlyAuthorizes c \<longleftrightarrow> (\<forall>policy authorize lineage s. exc_forkPolicy c = Some policy \<longrightarrow> fxp_Authorize policy = Some authorize \<longrightarrow>
     ses_envelope (snd (run_state (authorize lineage) s)) = ses_envelope s)"

definition requested :: "('w, 't, 'e) executionCheckpointer \<Rightarrow> 'w ActivityRequest \<Rightarrow> ActivityRecord \<Rightarrow> bool" where
  "requested c request r \<longleftrightarrow> rec_InputDigest r = exc_sha c (req_Input request)
     \<and> rec_Implementation r = req_Implementation request \<and> rec_Retry r = req_Retry request"

lemma bound_cong: "same_address e e' \<Longrightarrow> boundActivityIdentity sha e key = boundActivityIdentity sha e' key"
  by (simp add: same_address_def boundActivityIdentity_def activityIdentity_def split: option.split)

lemma keeps_session:
  "keeps (\<lambda>s. ses_envelope s = e) (host m)" "keeps (\<lambda>s. ses_envelope s = e) envelope"
  by (simp_all add: keeps_def triple_def)

lemma authorize_keeps:
  assumes "onlyAuthorizes c"
  shows "keeps (\<lambda>s. ses_envelope s = e) (authorizeForkDispatch c)"
proof -
  have "keeps (\<lambda>s. ses_envelope s = e) (authorize lineage)" if "exc_forkPolicy c = Some policy" "fxp_Authorize policy = Some authorize" for policy authorize lineage
    unfolding keeps_def triple_def using assms [unfolded onlyAuthorizes_def] that by (metis snd_conv)
  then show ?thesis
    by (auto simp: authorizeForkDispatch_def intro!: keeps_return keeps_bind keeps_if keeps_session split: option.split)
qed

context durable_store begin

lemma start_fits:
  assumes "fits sha e journal r" and "rec_State r = ActivityPrepared"
    and "validateActivityRecord sha (startActivityAttempt incarnation now r) = None"
  shows "fits sha e journal (startActivityAttempt incarnation now r)"
  by (rule derived_fits [OF assms(1,3)]) (simp_all add: startActivityAttempt_def assms(2) activityUnresolved_def)

lemma dispatch_intended:
  assumes journal: "executionActivityJournal (exc_sha c) (ses_envelope s) = Ok journal"
    and r: "lookup journal (rec_Identity r) = Some r" "rec_State r = ActivityPrepared" "rec_Identity r = boundActivityIdentity (exc_sha c) (ses_envelope s) (req_Key request)" "requested c request r"
    and persist: "run_state (persistActivity c journal (startActivityAttempt (lse_Incarnation (exc_lease c)) now r)) (s\<lparr>ses_world := w\<rparr>) = (None, t)"
  shows "intended c request \<lparr>ivc_Identity = rec_Identity r, ivc_Input = req_Input request, ivc_Attempt = attempts_len r + 1\<rparr> (t\<lparr>ses_world := w'\<rparr>)"
proof -
  let ?r = "startActivityAttempt (lse_Incarnation (exc_lease c)) now r"
  have id: "rec_Identity ?r = rec_Identity r" by (simp add: startActivityAttempt_def)
  from persistActivity_cases [OF persist] have valid: "validateActivityRecord (exc_sha c) ?r = None"
    and commit: "\<exists>w w'. run_state (exc_CommitExecution c (env_Revision (ses_envelope s)) (exc_lease c)
         ((ses_envelope s)\<lparr>env_JournalPayload := Bytes_of True (put (rec_Identity ?r) ?r journal)\<rparr>)) w = (Ok (ses_envelope t), w')"
    by auto
  have "fits (exc_sha c) (ses_envelope s) journal ?r"
    by (rule start_fits [OF journal_lookup_fits(1) [OF journal r(1)] r(2) valid])
  then have "executionActivityJournal (exc_sha c) (ses_envelope t) = Ok (put (rec_Identity r) ?r journal)"
      and "same_address (ses_envelope t) (ses_envelope s)"
    using persisted_journal(1,2) [OF persist] journal by (simp_all add: id)
  then show ?thesis
    unfolding intended_def using commit r(3,4) bound_cong
    by (auto simp: startActivityAttempt_def requested_def)
qed

lemma dispatch_cong:
  assumes journal: "executionActivityJournal (exc_sha c) (ses_envelope s) = Ok journal"
    and r: "lookup journal (rec_Identity r) = Some r" "rec_State r = ActivityPrepared" "rec_Identity r = boundActivityIdentity (exc_sha c) (ses_envelope s) (req_Key request)" "requested c request r"
    and agree: "agrees c request dispatch dispatch'"
  shows "run_state (dispatchActivity c (request\<lparr>req_Dispatch := d\<rparr>) dispatch journal r) s
    = run_state (dispatchActivity c (request\<lparr>req_Dispatch := d'\<rparr>) dispatch' journal r) s"
proof -
  let ?now = "fst (run_state (exc_clock c) (ses_world s))" and ?s = "s\<lparr>ses_world := snd (run_state (exc_clock c) (ses_world s))\<rparr>"
  let ?r = "startActivityAttempt (lse_Incarnation (exc_lease c)) ?now r"
  have n: "attempts_len ?r = attempts_len r + 1" by (simp add: startActivityAttempt_def)
  have cls: "classifyObservedActivityFailure c event (request\<lparr>req_Dispatch := d\<rparr>) e
      = classifyObservedActivityFailure c event (request\<lparr>req_Dispatch := d'\<rparr>) e" for event e
    by (cases e) (simp_all add: classifyObservedActivityFailure_def)
  obtain failed t where persist: "run_state (persistActivity c journal ?r) ?s = (failed, t)" by fastforce
  show ?thesis
  proof (cases failed)
    case (Some e)
    then show ?thesis using persist by (simp add: dispatchActivity_def Let_def)
  next
    case None
    let ?i = "\<lparr>ivc_Identity = rec_Identity r, ivc_Input = req_Input request, ivc_Attempt = attempts_len r + 1\<rparr>"
    have "run_state (dispatch ?i) (t\<lparr>ses_world := w\<rparr>) = run_state (dispatch' ?i) (t\<lparr>ses_world := w\<rparr>)" for w
      using agree dispatch_intended [OF journal r persist [unfolded None]] by (simp add: agrees_def)
    then show ?thesis using persist None by (simp add: dispatchActivity_def Let_def n cls)
  qed
qed

lemma authorized_cong:
  assumes "onlyAuthorizes c"
    and "agrees c request dispatch dispatch'" and "intended c request invocation s"
  shows "run_state (authorized c dispatch invocation) s = run_state (authorized c dispatch' invocation) s"
proof -
  obtain denied t where run: "run_state (authorizeForkDispatch c) s = (denied, t)" by fastforce
  have "keeps (\<lambda>x. ses_envelope x = ses_envelope s) (authorizeForkDispatch c)"
    using assms(1) by (rule authorize_keeps)
  then have same: "ses_envelope t = ses_envelope s"
    using run by (auto simp: keeps_def dest: tripleD)
  have "intended c request invocation t"
    using assms(3) unfolding intended_def same .
  then show ?thesis
    using assms(2) [unfolded agrees_def] run by (simp add: authorized_def split: option.split)
qed

lemma fork_cong:
  assumes "onlyAuthorizes c"
    and "agrees c request dispatch dispatch'" and "forkActivityRequest c (request\<lparr>req_Dispatch := Some dispatch\<rparr>) = Ok r"
  shows "\<exists>d d'. r = r\<lparr>req_Dispatch := Some d\<rparr> \<and> forkActivityRequest c (request\<lparr>req_Dispatch := Some dispatch'\<rparr>) = Ok (r\<lparr>req_Dispatch := Some d'\<rparr>)
    \<and> agrees c r d d'"
proof -
  have fields: "intended c r = intended c request"
    using fork_request_fields [OF assms(3)] by (intro ext) (simp add: intended_def)
  have auth: "run_state (authorized c dispatch i) s = run_state (authorized c dispatch' i) s" if "intended c request i s" for i s
    by (rule authorized_cong [OF assms(1,2) that])
  show ?thesis
    using assms(2,3) auth
    by (cases request) (auto simp: fields agrees_def forkActivityRequest_def split: if_splits option.splits)
qed

lemma recover_dispatch: "recoverActivityLocked c (r\<lparr>req_Dispatch := d\<rparr>) = recoverActivityLocked c r"
  by (intro ext) (simp add: recoverActivityLocked_def)

lemma call_cong:
  assumes auth: "onlyAuthorizes c" and agree: "agrees c request dispatch dispatch'"
  shows "run_state (callActivity c (request\<lparr>req_Dispatch := Some dispatch\<rparr>)) s
    = run_state (callActivity c (request\<lparr>req_Dispatch := Some dispatch'\<rparr>)) s"
proof (cases "forkActivityRequest c (request\<lparr>req_Dispatch := Some dispatch\<rparr>)")
  case (Inl e)
  then have "forkActivityRequest c (request\<lparr>req_Dispatch := Some dispatch'\<rparr>) = Inl e"
    by (auto simp: forkActivityRequest_def split: if_splits option.splits)
  with Inl show ?thesis by (simp add: callActivity_def)
next
  case (Inr r)
  note fork = Inr
  obtain d d' where r: "r = r\<lparr>req_Dispatch := Some d\<rparr>"
    and fork': "forkActivityRequest c (request\<lparr>req_Dispatch := Some dispatch'\<rparr>) = Ok (r\<lparr>req_Dispatch := Some d'\<rparr>)"
    and d: "agrees c r d d'"
    using fork_cong [OF auth agree fork] by blast
  have sel: "req_Dispatch r = Some d" by (subst r) simp
  show ?thesis
  proof (cases "executionActivityJournal (exc_sha c) (ses_envelope s)")
    case (Inr journal)
    note j = Inr
    let ?identity = "boundActivityIdentity (exc_sha c) (ses_envelope s) (req_Key r)"
    show ?thesis
    proof (cases "lookup journal ?identity")
      case (Some x)
      note x = journal_lookup_fits [OF j Some]
      have "run_state (dispatchActivity c r d journal x) t = run_state (dispatchActivity c (r\<lparr>req_Dispatch := Some d'\<rparr>) d' journal x) t"
        if "rec_State x = ActivityPrepared" "requested c r x" "ses_envelope t = ses_envelope s" for t
        using dispatch_cong [of t journal x r d d' "Some d" "Some d'"] j Some x that d r by simp
      then have "run_state (callKnownActivity c r (ses_envelope s) journal x) s
          = run_state (callKnownActivity c (r\<lparr>req_Dispatch := Some d'\<rparr>) (ses_envelope s) journal x) s"
        by (auto simp: callKnownActivity_def sel recover_dispatch requested_def split: option.split dest: prepared_None_iff [THEN iffD1])
      then show ?thesis using fork fork' j Some by (simp add: callActivity_def)
    next
      case None
      let ?x = "requestedRecord c r (ses_envelope s)"
      have x': "requestedRecord c (r\<lparr>req_Dispatch := Some d'\<rparr>) (ses_envelope s) = ?x" by (simp add: requestedRecord_def)
      have x: "rec_Identity ?x = ?identity" "rec_State ?x = ActivityPrepared" "requested c r ?x"
        by (simp_all add: requestedRecord_def newActivityRecord_def requested_def)
      obtain failed t where persist: "run_state (persistActivity c journal ?x) s = (failed, t)" by fastforce
      have "run_state (callNewActivity c r journal ?x) s = run_state (callNewActivity c (r\<lparr>req_Dispatch := Some d'\<rparr>) journal ?x) s"
      proof (cases failed)
        case (Some e)
        then show ?thesis using persist by (simp add: callNewActivity_def)
      next
        case None
        then have valid: "validateActivityRecord (exc_sha c) ?x = None" using persistActivity_cases [OF persist] by auto
        have "fits (exc_sha c) (ses_envelope s) journal ?x"
          unfolding requestedRecord_def
          by (rule new_fits [OF j refl]) (use \<open>lookup journal ?identity = None\<close> valid in \<open>simp_all add: requestedRecord_def\<close>)
        then have "executionActivityJournal (exc_sha c) (ses_envelope t) = Ok (put ?identity ?x journal)"
            and "same_address (ses_envelope t) (ses_envelope s)"
          using persisted_journal(1,2) [OF persist [unfolded None] j] by (simp_all add: x(1))
        then have "run_state (dispatchActivity c r d (put ?identity ?x journal) ?x) t
            = run_state (dispatchActivity c (r\<lparr>req_Dispatch := Some d'\<rparr>) d' (put ?identity ?x journal) ?x) t"
          using dispatch_cong [of t "put ?identity ?x journal" ?x r d d' "Some d" "Some d'"] x d r bound_cong by simp
        then show ?thesis using persist None by (simp add: callNewActivity_def sel x(1))
      qed
      then show ?thesis using fork fork' j None by (simp add: callActivity_def x')
    qed
  qed (simp add: callActivity_def fork fork')
qed

end

section \<open>Outcomes are kept\<close>

definition record_at :: "('w, 't, 'e) executionCheckpointer \<Rightarrow> 'w session \<Rightarrow> string \<Rightarrow> ActivityRecord \<Rightarrow> bool" where
  "record_at c s identity r \<longleftrightarrow>
    (\<exists>journal. executionActivityJournal (exc_sha c) (ses_envelope s) = Ok journal \<and> lookup journal identity = Some r)"

text \<open>
  What a callback may do to the session while the mutex is free: whatever other calls
  of the same node do, as long as the node stays where it is and no record of the
  journal is lost or changes its contract.
\<close>

definition kept :: "('w, 't, 'e) executionCheckpointer \<Rightarrow> 'w session \<Rightarrow> 'w session \<Rightarrow> bool" where
  "kept c s s' \<longleftrightarrow> same_address (ses_envelope s') (ses_envelope s) \<and> env_Fork (ses_envelope s') = env_Fork (ses_envelope s)
     \<and> (\<forall>identity r. record_at c s identity r \<longrightarrow> (\<exists>r'. record_at c s' identity r' \<and> same_contract r r'))"

definition steady :: "('w, 't, 'e) executionCheckpointer \<Rightarrow> ('w session, 'a) state \<Rightarrow> bool" where
  "steady c m \<longleftrightarrow> (\<forall>s. kept c s (snd (run_state m s)))"

definition steadyCallbacks :: "('w, 't, 'e) executionCheckpointer \<Rightarrow> 'w ActivityRequest \<Rightarrow> bool" where
  "steadyCallbacks c request \<longleftrightarrow>
     (\<forall>dispatch invocation. req_Dispatch request = Some dispatch \<longrightarrow> steady c (dispatch invocation))
     \<and> (\<forall>reconcile r. req_Reconcile request = Some reconcile \<longrightarrow> steady c (reconcile r))
     \<and> (\<forall>policy authorize lineage. exc_forkPolicy c = Some policy \<longrightarrow> fxp_Authorize policy = Some authorize \<longrightarrow> steady c (authorize lineage))
     \<and> (\<forall>policy fake invocation. exc_forkPolicy c = Some policy \<longrightarrow> fxp_FakeActivity policy = Some fake \<longrightarrow> steady c (fake invocation))"

lemma same_contract_refl: "same_contract r r"
  by (simp add: same_contract_def)

lemma same_contract_trans: "same_contract r r' \<Longrightarrow> same_contract r' r'' \<Longrightarrow> same_contract r r''"
  by (simp add: same_contract_def)

lemma kept_refl: "ses_envelope s' = ses_envelope s \<Longrightarrow> kept c s s'"
  using same_contract_refl by (auto simp: kept_def same_address_def record_at_def)

lemma kept_trans: "kept c s s' \<Longrightarrow> kept c s' s'' \<Longrightarrow> kept c s s''"
  unfolding kept_def same_address_def by (metis same_contract_trans)

lemma same_world [simp]: "\<exists>w. s = s\<lparr>ses_world := w\<rparr>"
  by (rule exI [of _ "ses_world s"]) simp

lemma kept_world [simp]: "kept c s (s'\<lparr>ses_world := w\<rparr>) = kept c s s'" "kept c (s\<lparr>ses_world := w\<rparr>) s' = kept c s s'"
  by (simp_all add: kept_def record_at_def)

lemma record_at_world [simp]: "record_at c (s\<lparr>ses_world := w\<rparr>) = record_at c s"
  by (intro ext) (simp add: record_at_def)

lemma record_at_fits:
  "record_at c s identity r \<Longrightarrow> \<exists>journal. executionActivityJournal (exc_sha c) (ses_envelope s) = Ok journal
     \<and> lookup journal identity = Some r \<and> fits (exc_sha c) (ses_envelope s) journal r \<and> rec_Identity r = identity"
  using journal_lookup_fits by (fastforce simp: record_at_def)

lemma steady_bind:
  assumes "steady c m" and "\<And>x. steady c (f x)"
  shows "steady c (State_Monad.bind m f)"
  using assms kept_trans unfolding steady_def by (metis (no_types, lifting) case_prod_beta run_state_bind)

lemma steady_simple: "steady c (ret x)" "steady c (host m)" "steady c envelope"
  by (simp_all add: steady_def kept_refl)

lemma steady_authorized:
  assumes "steadyCallbacks c request" and "\<And>x. steady c (callback x)"
  shows "steady c (authorized c callback x)"
proof -
  have "steady c (authorize lineage)" if "exc_forkPolicy c = Some policy" "fxp_Authorize policy = Some authorize" for policy authorize lineage
    using assms(1) that by (simp add: steadyCallbacks_def)
  then have "steady c (authorizeForkDispatch c)"
    by (auto simp: authorizeForkDispatch_def intro!: steady_simple steady_bind split: option.split)
  then show ?thesis
    unfolding authorized_def by (rule steady_bind) (auto intro: steady_simple assms(2) split: option.split)
qed

lemma steady_fork:
  assumes "steadyCallbacks c request" and "forkActivityRequest c request = Ok request'"
  shows "steadyCallbacks c request'"
proof -
  consider "exc_forkMode c = ForkLive" "request' = request\<lparr>req_Dispatch := map_option (authorized c) (req_Dispatch request),
        req_Reconcile := map_option (authorized c) (req_Reconcile request)\<rparr>"
    | "request' = request"
    | policy fake where "exc_forkPolicy c = Some policy" "fxp_FakeActivity policy = Some fake"
        "request' = request\<lparr>req_Dispatch := Some fake, req_Reconcile := None, req_Classify := None\<rparr>"
    using assms(2) by (auto simp: forkActivityRequest_def split: if_splits option.splits)
  then show ?thesis
  proof cases
    case 1
    have d: "steady c (authorized c z x)" if "req_Dispatch request = Some z" for z x
      using that assms(1) by (intro steady_authorized [OF assms(1)]) (simp add: steadyCallbacks_def)
    have r: "steady c (authorized c z x)" if "req_Reconcile request = Some z" for z x
      using that assms(1) by (intro steady_authorized [OF assms(1)]) (simp add: steadyCallbacks_def)
    show ?thesis using 1(2) assms(1) d r by (auto simp: steadyCallbacks_def)
  next
    case 3
    then show ?thesis using assms(1) by (simp add: steadyCallbacks_def)
  qed (use assms(1) in simp)
qed

text \<open>What a successful call leaves behind: the completed record with its outcome.\<close>

definition completed_at :: "('w, 't, 'e) executionCheckpointer \<Rightarrow> 'w session \<Rightarrow> ActivityRecord \<Rightarrow> ActivityOutcome \<Rightarrow> bool" where
  "completed_at c s r outcome \<longleftrightarrow> record_at c s (rec_Identity r) r \<and> rec_State r = ActivityCompleted
     \<and> out_Payload outcome = rec_Outcome r \<and> out_Identity outcome = rec_Identity r
     \<and> out_Revision outcome = env_Revision (ses_envelope s)"

context durable_store begin

lemma persist_kept:
  assumes "run_state (persistActivity c journal r') s = (None, s')"
    and "executionActivityJournal (exc_sha c) (ses_envelope s) = Ok journal" and "fits (exc_sha c) (ses_envelope s) journal r'"
    and "\<And>r. lookup journal (rec_Identity r') = Some r \<Longrightarrow> same_contract r r'"
  shows "kept c s s'" and "record_at c s' (rec_Identity r') r'"
proof -
  note j = persisted_journal [OF assms(1,2) disjI1 [OF refl] assms(3)]
  show "record_at c s' (rec_Identity r') r'" by (simp add: record_at_def j(1))
  show "kept c s s'"
    using j assms(2,4) same_contract_refl by (auto simp: kept_def record_at_def)
qed

lemma finish_completes:
  assumes at: "record_at c s identity r"
    and origin: "origin = ActivityReconciled \<or> origin = activityDispatchOrigin c \<and> exc_forkMode c = executionForkMode (ses_envelope s)"
    and run: "run_state (finishActivity c identity reply origin classification) s = (Ok outcome, s')"
  shows "kept c s s'" and "\<exists>r'. completed_at c s' r' outcome \<and> same_contract r r'"
proof -
  obtain q t where q: "run_state (finishActivityLocked c identity reply origin classification) s = (q, t)" by fastforce
  have s': "q = Ok outcome" "\<exists>w. s' = t\<lparr>ses_world := w\<rparr>"
    using run q by (auto simp: finishActivity_def observeActivityRetry_def Let_def split_beta split: if_splits option.splits)
  obtain journal where j: "executionActivityJournal (exc_sha c) (ses_envelope s) = Ok journal" "lookup journal identity = Some r"
    and f: "fits (exc_sha c) (ses_envelope s) journal r" "rec_Identity r = identity"
    using record_at_fits [OF at] by blast
  have "kept c s t \<and> (\<exists>r'. completed_at c t r' outcome \<and> same_contract r r')"
  proof (cases "rec_State r = ActivityCompleted")
    case True
    then show ?thesis
      using q s'(1) j f(2) at same_contract_refl
      by (auto simp: finishActivityLocked_def completed_at_def kept_refl split: if_splits)
  next
    case False
    obtain payload now w where reply: "reply = Ok payload"
      and persist: "run_state (persistActivity c journal (completeActivity now payload origin r)) (s\<lparr>ses_world := w\<rparr>) = (None, t)"
      and outcome: "outcome = \<lparr>out_Payload = payload, out_Origin = origin, out_Revision = env_Revision (ses_envelope t), out_Identity = identity\<rparr>"
    proof -
      obtain record' s1 where conclude: "run_state (concludeActivity c reply origin classification r) s = (record', s1)" by fastforce
      obtain failed t' where run': "run_state (persistActivity c journal record') s1 = (failed, t')" by fastforce
      obtain payload where reply: "reply = Ok payload"
        and persist: "run_state (persistActivity c journal record') s1 = (None, t)"
        and outcome: "outcome = \<lparr>out_Payload = rec_Outcome record', out_Origin = origin, out_Revision = env_Revision (ses_envelope t), out_Identity = identity\<rparr>"
        using q s'(1) j False conclude run'
        by (cases reply) (auto simp: finishActivityLocked_def split_beta split: if_splits option.splits)
      have "\<exists>now w. record' = completeActivity now payload origin r \<and> s1 = s\<lparr>ses_world := w\<rparr>"
        using conclude reply
        by (cases "origin = ActivityReconciled \<or> origin = ActivityManual") (auto simp: concludeActivity_def split_beta)
      then obtain now w where "record' = completeActivity now payload origin r" "s1 = s\<lparr>ses_world := w\<rparr>" by blast
      then show thesis using that [of payload now w] reply persist outcome by (simp add: completeActivity_def Let_def)
    qed
    let ?r = "completeActivity now payload origin r"
    have r: "rec_Identity ?r = identity" "rec_State ?r = ActivityCompleted" "rec_Outcome ?r = payload" "same_contract r ?r"
      by (simp_all add: completeActivity_def Let_def same_contract_def f(2))
    have valid: "validateActivityRecord (exc_sha c) ?r = None" using persistActivity_cases [OF persist] by simp
    have "rec_Origin ?r = origin" "rec_Resolutions ?r = rec_Resolutions r" by (simp_all add: completeActivity_def Let_def)
    then have "journal_record_ok (ses_envelope s) ?r"
      using f(1) r(4) origin
      by (auto simp: fits_def journal_record_ok_def same_contract_def activityDispatchOrigin_def executionForkMode_def split: option.splits if_splits)
    then have "fits (exc_sha c) (ses_envelope s) journal ?r"
      using f(1) r valid by (auto simp: fits_def same_contract_def activityUnresolved_def)
    then have "kept c (s\<lparr>ses_world := w\<rparr>) t" "record_at c t identity ?r"
      using persist_kept [OF persist] j r(1,4) by simp_all
    then show ?thesis using r outcome by (auto simp: completed_at_def)
  qed
  then show "kept c s s'" "\<exists>r'. completed_at c s' r' outcome \<and> same_contract r r'"
    using s'(2) by (auto simp: completed_at_def)
qed

end

text \<open>What every step of a successful call does to the record it is about.\<close>

definition leaves :: "('w, 't, 'e) executionCheckpointer \<Rightarrow> 'w session \<Rightarrow> 'w session \<Rightarrow> ActivityRecord \<Rightarrow> ActivityOutcome \<Rightarrow> bool" where
  "leaves c s s' r outcome \<longleftrightarrow> kept c s s' \<and> (\<exists>r'. completed_at c s' r' outcome \<and> same_contract r r')"

lemma leaves_trans: "kept c s t \<Longrightarrow> same_contract r r' \<Longrightarrow> leaves c t s' r' outcome \<Longrightarrow> leaves c s s' r outcome"
  unfolding leaves_def using kept_trans same_contract_trans by blast

lemma kept_fork: "kept c s s' \<Longrightarrow> executionForkMode (ses_envelope s') = executionForkMode (ses_envelope s)"
  by (simp add: kept_def executionForkMode_def)

lemma steady_observe: "steady c (observeLifecycle c event)"
  by (auto simp: observeLifecycle_def intro!: steady_simple steady_bind split: option.split)

lemma steady_classify: "steady c (classifyObservedActivityFailure c event request e)"
  by (auto simp: classifyObservedActivityFailure_def Let_def intro!: steady_simple steady_bind steady_observe split: option.split prod.split)

lemma steadyD: "steady c m \<Longrightarrow> run_state m s = (x, s') \<Longrightarrow> kept c s s'"
  unfolding steady_def by (metis snd_conv)

context durable_store begin

lemma finish_leaves:
  assumes "record_at c s identity r" and "kept c s t"
    and "origin = ActivityReconciled \<or> origin = activityDispatchOrigin c \<and> exc_forkMode c = executionForkMode (ses_envelope s)"
    and "run_state (finishActivity c identity reply origin classification) t = (Ok outcome, s')"
  shows "leaves c s s' r outcome"
proof -
  obtain r2 where at: "record_at c t identity r2" "same_contract r r2" using assms(1,2) by (auto simp: kept_def)
  have "leaves c t s' r2 outcome"
    unfolding leaves_def using finish_completes [OF at(1) _ assms(4)] assms(3) kept_fork [OF assms(2)] by auto
  then show ?thesis by (rule leaves_trans [OF assms(2) at(2)])
qed

lemma dispatch_leaves:
  assumes journal: "executionActivityJournal (exc_sha c) (ses_envelope s) = Ok journal"
    and r: "lookup journal (rec_Identity r) = Some r" "rec_State r = ActivityPrepared"
    and fork: "exc_forkMode c = executionForkMode (ses_envelope s)" and dispatch: "\<And>i. steady c (dispatch i)"
    and run: "run_state (dispatchActivity c request dispatch journal r) s = (Ok outcome, s')"
  shows "leaves c s s' r outcome"
proof -
  let ?now = "fst (run_state (exc_clock c) (ses_world s))" and ?s = "s\<lparr>ses_world := snd (run_state (exc_clock c) (ses_world s))\<rparr>"
  let ?r = "startActivityAttempt (lse_Incarnation (exc_lease c)) ?now r"
  have r': "rec_Identity ?r = rec_Identity r" "same_contract r ?r" by (simp_all add: startActivityAttempt_def same_contract_def)
  obtain failed t where persist: "run_state (persistActivity c journal ?r) ?s = (failed, t)" by fastforce
  have ok: "failed = None" using run persist by (cases failed) (auto simp: dispatchActivity_def Let_def split_beta)
  then have valid: "validateActivityRecord (exc_sha c) ?r = None" using persistActivity_cases [OF persist] by auto
  have f: "fits (exc_sha c) (ses_envelope s) journal ?r"
    by (rule start_fits [OF journal_lookup_fits(1) [OF journal r(1)] r(2) valid])
  have "kept c ?s t" and at: "record_at c t (rec_Identity ?r) ?r"
    using persist_kept [OF persist [unfolded ok]] journal f r(1) r' by (simp_all add: r')
  then have kept: "kept c s t" by simp
  let ?event = "(activityObservationLocked LifecycleActivity LifecycleStarted (rec_Identity r) (ses_envelope t))\<lparr>obs_Attempt := attempts_len ?r\<rparr>"
  let ?m = "do { observeLifecycle c ?event;
    dispatch \<lparr>ivc_Identity = rec_Identity r, ivc_Input = req_Input request, ivc_Attempt = attempts_len ?r\<rparr> }"
  obtain reply u where u: "run_state ?m t = (reply, u)" by fastforce
  obtain classification v where v: "run_state (classifyObservedActivityFailure c ?event request (errOf reply)) u = (classification, v)" by fastforce
  have finish: "run_state (finishActivity c (rec_Identity ?r) reply (activityDispatchOrigin c) classification) v = (Ok outcome, s')"
    using run persist ok u v by (simp add: dispatchActivity_def Let_def r')
  have "steady c ?m"
    by (intro steady_bind steady_observe dispatch)
  then have "kept c t v" using steadyD [OF _ u] steadyD [OF steady_classify v] kept_trans by blast
  then have "leaves c t s' ?r outcome"
    using finish_leaves [OF at _ _ finish] fork kept_fork [OF kept] by simp
  then show ?thesis by (rule leaves_trans [OF kept r'(2)])
qed

end

context durable_store begin

lemma recover_leaves:
  assumes journal: "executionActivityJournal (exc_sha c) (ses_envelope s) = Ok journal"
    and r: "lookup journal (rec_Identity r) = Some r" and steady: "steadyCallbacks c request"
    and run: "run_state (recoverActivityLocked c request journal r) s = (Ok outcome, s')"
  shows "leaves c s s' r outcome"
proof -
  let ?r = "if rec_State r = ActivityRunning then markActivityUnknown r else r"
  have r': "rec_Identity ?r = rec_Identity r" "same_contract r ?r" by (simp_all add: markActivityUnknown_def same_contract_def)
  have guard: "\<not> (rec_State r = ActivityRunning \<and> (rec_Attempts r = [] \<or> att_Incarnation (last_attempt r) = lse_Incarnation (exc_lease c)))"
    using run by (auto simp: recoverActivityLocked_def split: if_splits)
  let ?p = "if rec_State r = ActivityRunning then persistActivity c journal ?r else ret None"
  obtain failed t where persist: "run_state ?p s = (failed, t)" by fastforce
  have ok: "failed = None" using run persist guard
    by (cases failed) (auto simp: recoverActivityLocked_def Let_def split: if_splits)
  have kept: "kept c s t" and at: "record_at c t (rec_Identity r) ?r"
  proof -
    have "kept c s t \<and> record_at c t (rec_Identity r) ?r"
    proof (cases "rec_State r = ActivityRunning")
      case True
      then have p: "run_state (persistActivity c journal (markActivityUnknown r)) s = (None, t)" using persist ok by simp
      have "fits (exc_sha c) (ses_envelope s) journal (markActivityUnknown r)"
        using persistActivity_cases [OF p]
        by (intro derived_fits [OF journal_lookup_fits(1) [OF journal r]]) (auto simp: markActivityUnknown_def True activityUnresolved_def)
      then show ?thesis
        using persist_kept [OF p journal] r r' True by simp
    qed (use persist journal r in \<open>auto simp: record_at_def kept_refl\<close>)
    then show "kept c s t" "record_at c t (rec_Identity r) ?r" by simp_all
  qed
  let ?event = "(activityObservationLocked LifecycleReconcile LifecycleStarted (rec_Identity ?r) (ses_envelope t))\<lparr>obs_Attempt := attempts_len ?r\<rparr>"
  obtain reconcile where rc: "req_Reconcile request = Some reconcile"
    using run persist guard ok by (cases "req_Reconcile request") (auto simp: recoverActivityLocked_def Let_def split: if_splits)
  let ?m = "do { observeLifecycle c ?event; reconcile ?r }"
  obtain reply u where u: "run_state ?m t = (reply, u)" by fastforce
  have "steady c ?m"
    using steady rc by (intro steady_bind steady_observe) (simp add: steadyCallbacks_def)
  then have tu: "kept c t u" using steadyD [OF _ u] by blast
  obtain payload where reply: "reply = Ok payload"
    and finish: "run_state (finishActivity c (rec_Identity r) (Ok payload) ActivityReconciled \<lparr>fd_Class = NoClass, fd_NotBefore = 0\<rparr>) u = (Ok outcome, s')"
    using run persist ok guard rc u r' by (cases reply) (auto simp: recoverActivityLocked_def Let_def split: if_splits)
  have "leaves c t s' ?r outcome" by (rule finish_leaves [OF at tu _ finish]) simp
  then show ?thesis by (rule leaves_trans [OF kept r'(2)])
qed

lemma known_leaves:
  assumes journal: "executionActivityJournal (exc_sha c) (ses_envelope s) = Ok journal"
    and r: "lookup journal (rec_Identity r) = Some r" and steady: "steadyCallbacks c request"
    and fork: "exc_forkMode c = executionForkMode (ses_envelope s)" and dispatch: "req_Dispatch request = Some dispatch"
    and run: "run_state (callKnownActivity c request (ses_envelope s) journal r) s = (Ok outcome, s')"
  shows "leaves c s s' r outcome" and "requested c request r"
proof -
  show req: "requested c request r" using run by (auto simp: callKnownActivity_def requested_def split: if_splits)
  consider "rec_State r = ActivityCompleted" | "rec_State r = ActivityRunning \<or> rec_State r = ActivityUnknown"
    | "rec_State r \<noteq> ActivityCompleted" "rec_State r \<noteq> ActivityRunning" "rec_State r \<noteq> ActivityUnknown" by blast
  then show "leaves c s s' r outcome"
  proof cases
    case 1
    then show ?thesis
      using run req journal r same_contract_refl
      by (auto simp: callKnownActivity_def requested_def replayActivityLocked_def leaves_def completed_at_def record_at_def intro: kept_refl)
  next
    case 2
    then show ?thesis
      using run req by (intro recover_leaves [OF journal r steady]) (auto simp: callKnownActivity_def requested_def)
  next
    case 3
    let ?s = "s\<lparr>ses_world := snd (run_state (exc_clock c) (ses_world s))\<rparr>"
    have "preparedActivityError r (env_Revision (ses_envelope s)) (fst (run_state (exc_clock c) (ses_world s))) = None"
        and d: "run_state (dispatchActivity c request dispatch journal r) ?s = (Ok outcome, s')"
      using run req 3 dispatch by (auto simp: callKnownActivity_def requested_def split_beta split: option.splits)
    then have "leaves c ?s s' r outcome"
      using dispatch_leaves [OF _ r _ _ _ d] journal fork steady dispatch prepared_None_iff by (fastforce simp: steadyCallbacks_def)
    then show ?thesis by (simp add: leaves_def)
  qed
qed

end

context durable_store begin

lemma new_leaves:
  assumes journal: "executionActivityJournal (exc_sha c) (ses_envelope s) = Ok journal"
    and r: "r = requestedRecord c request (ses_envelope s)" "lookup journal (rec_Identity r) = None" and steady: "steadyCallbacks c request"
    and fork: "exc_forkMode c = executionForkMode (ses_envelope s)" and dispatch: "req_Dispatch request = Some dispatch"
    and run: "run_state (callNewActivity c request journal r) s = (Ok outcome, s')"
  shows "leaves c s s' r outcome"
proof -
  obtain failed t where persist: "run_state (persistActivity c journal r) s = (failed, t)" by fastforce
  have ok: "failed = None" using run persist by (cases failed) (auto simp: callNewActivity_def)
  have valid: "validateActivityRecord (exc_sha c) r = None" using persistActivity_cases [OF persist] ok by auto
  have "fits (exc_sha c) (ses_envelope s) journal r"
    unfolding r(1) requestedRecord_def
    by (rule new_fits [OF journal refl]) (use r valid in \<open>simp_all add: requestedRecord_def newActivityRecord_def\<close>)
  then have kept: "kept c s t" and j: "executionActivityJournal (exc_sha c) (ses_envelope t) = Ok (put (rec_Identity r) r journal)"
    using persist_kept(1) [OF persist [unfolded ok] journal] persisted_journal(1) [OF persist [unfolded ok] journal] r(2) by simp_all
  have "rec_State r = ActivityPrepared" by (simp add: r(1) requestedRecord_def newActivityRecord_def)
  then have "leaves c t s' r outcome"
    using dispatch_leaves [OF j, of r dispatch request outcome s'] run persist ok dispatch steady fork kept_fork [OF kept]
    by (simp add: callNewActivity_def steadyCallbacks_def)
  then show ?thesis by (rule leaves_trans [OF kept same_contract_refl])
qed

lemma call_completes:
  assumes fork: "exc_forkMode c = executionForkMode (ses_envelope s)" and steady: "steadyCallbacks c request"
    and dispatch: "req_Dispatch request \<noteq> None" and run: "run_state (callActivity c request) s = (Ok outcome, s')"
  shows "\<exists>r. completed_at c s' r outcome \<and> requested c request r
    \<and> rec_Identity r = boundActivityIdentity (exc_sha c) (ses_envelope s') (req_Key request)"
proof -
  obtain x journal where x: "forkActivityRequest c request = Ok x"
    and j: "executionActivityJournal (exc_sha c) (ses_envelope s) = Ok journal"
    using run by (auto simp: callActivity_def split: sum.splits)
  obtain d where d: "req_Dispatch x = Some d"
    using x dispatch by (auto simp: forkActivityRequest_def split: if_splits option.splits)
  have same: "req_Key x = req_Key request" "requested c x = requested c request"
    using fork_request_fields [OF x] by (auto simp: requested_def)
  let ?identity = "boundActivityIdentity (exc_sha c) (ses_envelope s) (req_Key x)"
  have "\<exists>r. leaves c s s' r outcome \<and> requested c x r \<and> rec_Identity r = ?identity"
  proof (cases "lookup journal ?identity")
    case None
    let ?r = "requestedRecord c x (ses_envelope s)"
    have "rec_Identity ?r = ?identity" "requested c x ?r" by (simp_all add: requestedRecord_def newActivityRecord_def requested_def)
    then show ?thesis
      using new_leaves [OF j refl _ steady_fork [OF steady x] fork d] run x j None by (auto simp: callActivity_def)
  next
    case (Some r)
    note id = journal_lookup_fits(2) [OF j Some]
    show ?thesis
      using known_leaves [OF j _ steady_fork [OF steady x] fork d, of r] run x j Some id by (auto simp: callActivity_def)
  qed
  then show ?thesis
    using same bound_cong by (fastforce simp: leaves_def same_contract_def requested_def kept_def)
qed

lemma call_replays:
  assumes "completed_at c s r outcome" and "requested c request r"
    and "rec_Identity r = boundActivityIdentity (exc_sha c) (ses_envelope s) (req_Key request)"
    and "forkActivityRequest c request = Ok request'"
  shows "\<exists>s'. run_state (callActivity c request) s = (Ok (outcome\<lparr>out_Origin := ActivityReplayed\<rparr>), s') \<and> ses_envelope s' = ses_envelope s"
  using assms fork_request_fields [OF assms(4)]
  by (auto simp: completed_at_def record_at_def requested_def callActivity_def callKnownActivity_def replayActivityLocked_def)

end

section \<open>Properties of the activity boundary\<close>

text \<open>
  C34. One call of an activity dispatches it at most once: a meter in the host's world that
  the dispatcher advances by one, and that no other callback touches, is advanced at most
  once, and not at all when the journal already has the activity running, completed,
  failed or unknown, when its retry is exhausted, not permitted or not yet due, when the
  recorded contract differs, or when the execution is a fork that fakes activities.
\<close>

theorem activity_dispatched_at_most_once:
  assumes "meters meter c request"
  shows "meter (ses_world (snd (run_state (CallActivity nested (Some c) request) s)))
    \<in> {meter (ses_world s), meter (ses_world s) + (if dispatchable c request s then 1 else 0)}"
  using call_meters [OF assms, of s] by (auto simp: CallActivity_def split: option.split)

text \<open>
  C35. The dispatcher runs only behind a committed intent: two dispatchers that agree on
  every invocation whose session head was accepted by the store with the activity marked
  running, under this lease, for the same input and contract, give the same run of the
  call. So a call never dispatches before its intent is durable.
\<close>

theorem dispatch_follows_committed_intent:
  assumes "durable_store c" and "onlyAuthorizes c" and "agrees c request dispatch dispatch'"
  shows "run_state (CallActivity nested (Some c) (request\<lparr>req_Dispatch := Some dispatch\<rparr>)) s
    = run_state (CallActivity nested (Some c) (request\<lparr>req_Dispatch := Some dispatch'\<rparr>)) s"
  using durable_store.call_cong [OF assms] by (simp add: CallActivity_def split: option.split)

text \<open>
  C36. A completed activity is never run again: after a call has returned an outcome, a second
  call with the same key, input, implementation and retry policy, whatever its callbacks,
  returns the same payload, identity and revision as a replay and leaves the head where it is.
  The callbacks of the first call may run other calls meanwhile, as long as they lose no
  record of the journal and the node stays where it is.
\<close>

theorem outcome_is_replayed:
  assumes "durable_store c" and "exc_forkMode c = executionForkMode (ses_envelope s)" and "steadyCallbacks c request"
    and "run_state (CallActivity False (Some c) request) s = (Ok outcome, s')"
  shows "\<exists>s''. run_state (CallActivity False (Some c) (request\<lparr>req_Dispatch := Some dispatch, req_Reconcile := reconcile, req_Classify := classify\<rparr>)) s'
      = (Ok (outcome\<lparr>out_Origin := ActivityReplayed\<rparr>), s'') \<and> ses_envelope s'' = ses_envelope s'"
proof -
  let ?again = "request\<lparr>req_Dispatch := Some dispatch, req_Reconcile := reconcile, req_Classify := classify\<rparr>"
  have call: "run_state (callActivity c request) s = (Ok outcome, s')" "req_Dispatch request \<noteq> None"
    and admitted: "CallActivity False (Some c) ?again = callActivity c ?again"
    using assms(4) by (auto simp: CallActivity_def split: if_splits option.splits)
  obtain x where "forkActivityRequest c request = Ok x"
    using call(1) by (auto simp: callActivity_def split: sum.splits)
  then have "\<exists>y. forkActivityRequest c ?again = Ok y"
    by (auto simp: forkActivityRequest_def split: if_splits option.splits)
  moreover have "\<exists>r. completed_at c s' r outcome \<and> requested c ?again r
      \<and> rec_Identity r = boundActivityIdentity (exc_sha c) (ses_envelope s') (req_Key ?again)"
    using durable_store.call_completes [OF assms(1-3) call(2,1)] by (simp add: requested_def)
  ultimately show ?thesis
    unfolding admitted using durable_store.call_replays [OF assms(1)] by blast
qed

section \<open>A call on the in-memory store\<close>

text \<open>Sessions of the sample execution whose head is the head of the store, and what a commit of the journal does there.\<close>

definition ready :: "uint64 \<Rightarrow> 'h memoryWorld session \<Rightarrow> bool" where
  "ready n s \<longleftrightarrow> (let w = ses_world s; e = ses_envelope s in
     store_inv sampleSha sampleEnc (mwd_store w) \<and> held (mwd_store w) 1 sampleLease \<and> mwd_now w = 1 \<and> mwd_ctx w = None
     \<and> headOf (mwd_store w) ''e'' = n \<and> entryOf (mwd_store w) ''e'' n = Some e \<and> env_Revision e = n \<and> n \<noteq> 0
     \<and> env_ExecutionID e = ''e'' \<and> env_Rollover e = None \<and> env_Fork e = None \<and> env_Transfer e = None
     \<and> env_Descriptor e = sampleDescriptor \<and> env_Progress e = env_Progress sampleEnvelope \<and> env_Activation e = 1 \<and> jsonStable e)"

lemma sampleSession_ready: "ready 1 (sampleSession h)"
  by (simp add: ready_def Let_def sampleSession_def sample_store_inv sample_held sample_store sample_stable)

lemma ready_persist:
  assumes "ready n s" and "n \<noteq> - 1" and "validateActivityRecord sampleSha r = None"
    and "list_all (\<lambda>(_, r). list_all marshalTimeOK (activityTimes r)) (put (rec_Identity r) r journal)"
  shows "\<exists>s'. run_state (persistActivity sampleCheckpointer journal r) s = (None, s') \<and> ready (n + 1) s'
    \<and> mwd_host (ses_world s') = mwd_host (ses_world s)"
proof -
  let ?e = "(ses_envelope s)\<lparr>env_JournalPayload := Bytes_of True (put (rec_Identity r) r journal)\<rparr>"
  let ?m = "mwd_store (ses_world s)"
  note ready = assms(1) [unfolded ready_def Let_def]
  have "\<exists>committed. CommitExecution sampleSha sampleEnc None 1 (headOf ?m ''e'') sampleLease ?e ?m = (Ok committed, storeEnvelope committed False ?m)
    \<and> (\<exists>digest. committed = ?e\<lparr>env_Revision := headOf ?m ''e'' + 1, env_Digest := digest\<rparr>)"
    by (rule commit_succeeds [where previous = "ses_envelope s"])
      (use ready assms(2) in \<open>simp_all add: sampleDescriptor_valid sampleEnc_def sampleLease_def sampleEnvelope_def validMigrationText_def byte_def\<close>)
  then obtain digest where commit: "CommitExecution sampleSha sampleEnc None 1 n sampleLease ?e ?m
      = (Ok (?e\<lparr>env_Revision := n + 1, env_Digest := digest\<rparr>), storeEnvelope (?e\<lparr>env_Revision := n + 1, env_Digest := digest\<rparr>) False ?m)"
    using ready by auto
  have "store_inv sampleSha sampleEnc (storeEnvelope (?e\<lparr>env_Revision := n + 1, env_Digest := digest\<rparr>) False ?m)"
    using store_step_keeps [OF store_step.commit [OF commit]] ready by (simp add: keeps_store_def)
  moreover have "n + 1 \<noteq> 0" using assms(2) by (simp add: eq_neg_iff_add_eq_0)
  ultimately show ?thesis
    using ready assms(3,4) commit commit_stable [OF commit]
    by (auto simp: persistActivity_def marshalJournal_def commitExecution_def memoryCommit_def attachSessionObservation_def
        ready_def Let_def held_def leaseOf_def)
qed

definition sampleRequest :: "nat memoryWorld ActivityRequest" where
  "sampleRequest = \<lparr>req_Key = ''k'', req_Implementation = ''i'', req_Input = '''',
     req_Dispatch = Some (\<lambda>_. host (State (\<lambda>w. (Ok ''ok'', w\<lparr>mwd_host := mwd_host w + 1\<rparr>)))), req_Reconcile = None,
     req_Retry = samplePolicy, req_Classify = None\<rparr>"

lemma sampleRequest_fields [simp]:
  "req_Key sampleRequest = ''k''" "req_Input sampleRequest = ''''" "req_Implementation sampleRequest = ''i''"
  "req_Retry sampleRequest = samplePolicy" "req_Reconcile sampleRequest = None" "req_Classify sampleRequest = None"
  "req_Dispatch sampleRequest = Some (\<lambda>_. host (State (\<lambda>w. (Ok ''ok'', w\<lparr>mwd_host := mwd_host w + 1\<rparr>))))"
  by (simp_all add: sampleRequest_def)

abbreviation sampleRunning :: ActivityRecord where "sampleRunning \<equiv> startActivityAttempt 1 5 sampleRecord"

abbreviation sampleDone :: ActivityRecord where "sampleDone \<equiv> completeActivity 5 ''ok'' ActivityLive sampleRunning"

lemma sample_records_valid:
  "validateActivityRecord sampleSha sampleRunning = None" "validateActivityRecord sampleSha sampleDone = None"
proof -
  have i: "activity_inv sampleSha sampleRecord"
    unfolding sampleRecord_def
    by (rule new_record_inv) (use sampleSha_digest samplePolicy_ok sampleSchedule_ok in
        \<open>simp_all add: samplePolicy_def byte_def\<close>)
  have s: "activity_step sampleRecord Started sampleRunning"
    by (rule activity_step.start) (simp_all add: preparedActivityError_def sampleRecord_def newActivityRecord_def)
  moreover have "activity_step sampleRunning activity_event.Finished sampleDone"
    by (rule activity_step.finish) (simp_all add: startActivityAttempt_def)
  ultimately have "activity_inv sampleSha sampleRunning" "activity_inv sampleSha sampleDone"
    using i step_inv by blast+
  then show "validateActivityRecord sampleSha sampleRunning = None" "validateActivityRecord sampleSha sampleDone = None"
    by (simp_all add: activity_inv_def)
qed

lemma sample_store_laws: "durable_store (sampleCheckpointer :: ('h memoryWorld, string, char) executionCheckpointer)"
  unfolding sampleCheckpointer_def by (rule memory_session.durable_store_axioms)

lemma retry_quiet: "observeActivityRetry c event None = ret ()"
  by (simp add: observeActivityRetry_def)

lemma sample_call:
  "\<exists>outcome s'. run_state (CallActivity False (Some sampleCheckpointer) sampleRequest) (sampleSession 0) = (Ok outcome, s')
     \<and> out_Payload outcome = ''ok'' \<and> mwd_host (ses_world s') = 1"
proof -
  let ?id = "rec_Identity sampleRecord" and ?s = "sampleSession (0 :: nat)"
  have j0: "executionActivityJournal sampleSha (ses_envelope ?s) = Ok []" and id: "boundActivityIdentity sampleSha (ses_envelope ?s) ''k'' = ?id"
      and r0: "requestedRecord sampleCheckpointer sampleRequest (ses_envelope ?s) = sampleRecord"
    by (simp_all add: sampleSession_def sampleSealed_collections requestedRecord_def sampleRecord_def newActivityRecord_def
        boundActivityIdentity_def activityIdentity_def sampleEnvelope_def)
  have ids: "rec_Identity sampleRunning = ?id" "rec_Identity sampleDone = ?id" and att: "rec_Attempts sampleRunning \<noteq> []"
      "rec_State sampleRunning \<noteq> ActivityCompleted" "rec_Outcome sampleDone = ''ok''"
    by (simp_all add: startActivityAttempt_def completeActivity_def Let_def)
  have times: "list_all (\<lambda>(_, r). list_all marshalTimeOK (activityTimes r)) [(?id, r)]" if "r \<in> {sampleRecord, sampleRunning, sampleDone}" for r
    using that by (auto simp: activityTimes_def scheduleTimes_def marshalTimeOK_def sampleRecord_def newActivityRecord_def
        startActivityAttempt_def completeActivity_def map_last_def Let_def year_10000_def)
  obtain s1 where s1: "run_state (persistActivity sampleCheckpointer [] sampleRecord) ?s = (None, s1)" "ready 2 s1" "mwd_host (ses_world s1) = 0"
    using ready_persist [OF sampleSession_ready [of "0::nat"], of sampleRecord "[]"] sampleRecord_valid times by (auto simp: sampleSession_def)
  obtain s2 where s2: "run_state (persistActivity sampleCheckpointer [(?id, sampleRecord)] sampleRunning) s1 = (None, s2)" "ready 3 s2" "mwd_host (ses_world s2) = 0"
    using ready_persist [OF s1(2), of sampleRunning "[(?id, sampleRecord)]"] sample_records_valid(1) times s1(3) ids by auto
  let ?s2 = "s2\<lparr>ses_world := (ses_world s2)\<lparr>mwd_host := 1\<rparr>\<rparr>"
  have "ready 3 ?s2" using s2(2) by (simp add: ready_def Let_def)
  then obtain s3 where s3: "run_state (persistActivity sampleCheckpointer [(?id, sampleRunning)] sampleDone) ?s2 = (None, s3)" "mwd_host (ses_world s3) = 1"
    using ready_persist [of 3 ?s2 sampleDone "[(?id, sampleRunning)]"] sample_records_valid(2) times ids by auto
  have bound: "?id = boundActivityIdentity sampleSha (ses_envelope ?s) ''k''" using id by simp
  have f0: "fits sampleSha (ses_envelope ?s) [] sampleRecord"
    using new_fits [OF j0 bound, where digest = "sampleSha ''''" and impl = "''i''" and retry = samplePolicy] sampleRecord_valid r0 by (simp add: requestedRecord_def id)
  have j1: "executionActivityJournal sampleSha (ses_envelope s1) = Ok [(?id, sampleRecord)]"
    using durable_store.persisted_journal(1) [OF sample_store_laws s1(1)] j0 f0 by simp
  have f1: "fits sampleSha (ses_envelope s1) [(?id, sampleRecord)] sampleRunning"
    using durable_store.start_fits [OF sample_store_laws journal_lookup_fits(1) [OF j1]] sample_records_valid(1) sampleRecord_fields by simp
  have j2: "executionActivityJournal sampleSha (ses_envelope s2) = Ok [(?id, sampleRunning)]"
    using durable_store.persisted_journal(1) [OF sample_store_laws s2(1)] j1 f1 ids by simp
  have live: "activityDispatchOrigin (sampleCheckpointer :: (nat memoryWorld, string, char) executionCheckpointer) = ActivityLive"
    by (simp add: activityDispatchOrigin_def)
  have incarnation: "lse_Incarnation sampleLease = 1" by (simp add: sampleLease_def)
  have locked: "run_state (finishActivityLocked sampleCheckpointer ?id (Ok ''ok'') ActivityLive \<lparr>fd_Class = NoClass, fd_NotBefore = 0\<rparr>) ?s2
      = (Ok \<lparr>out_Payload = ''ok'', out_Origin = ActivityLive, out_Revision = env_Revision (ses_envelope s3), out_Identity = ?id\<rparr>, s3)"
    using j2 att s3(1) by (simp add: finishActivityLocked_def concludeActivity_def)
  have finish: "run_state (finishActivity sampleCheckpointer ?id (Ok ''ok'') ActivityLive \<lparr>fd_Class = NoClass, fd_NotBefore = 0\<rparr>) ?s2
      = (Ok \<lparr>out_Payload = ''ok'', out_Origin = ActivityLive, out_Revision = env_Revision (ses_envelope s3), out_Identity = ?id\<rparr>, s3)"
    using locked by (simp add: finishActivity_def Let_def split_beta observeLifecycle_def retry_quiet errOf_def)
  have dispatch: "run_state (dispatchActivity sampleCheckpointer sampleRequest (the (req_Dispatch sampleRequest)) [(?id, sampleRecord)] sampleRecord) s1
      = (Ok \<lparr>out_Payload = ''ok'', out_Origin = ActivityLive, out_Revision = env_Revision (ses_envelope s3), out_Identity = ?id\<rparr>, s3)"
    using s2 finish by (simp add: dispatchActivity_def incarnation live observeLifecycle_def classifyObservedActivityFailure_def Let_def errOf_def)
  have "run_state (callActivity sampleCheckpointer sampleRequest) ?s
      = (Ok \<lparr>out_Payload = ''ok'', out_Origin = ActivityLive, out_Revision = env_Revision (ses_envelope s3), out_Identity = ?id\<rparr>, s3)"
    using s1(1) j0 id r0 dispatch by (simp add: callActivity_def forkActivityRequest_def callNewActivity_def)
  then show ?thesis
    using s3(2) samplePolicy_ok by (simp add: CallActivity_def byte_def)
qed

lemma sample_meters: "meters (\<lambda>w. mwd_host w) sampleCheckpointer sampleRequest"
  by (auto simp: meters_def quiet_def adds_def memoryCommit_def split_beta)

theorem activity_dispatched_at_most_once_witness:
  "mwd_host (ses_world (snd (run_state (CallActivity False (Some sampleCheckpointer) sampleRequest) (sampleSession 0)))) = 1
   \<and> mwd_host (ses_world (snd (run_state (CallActivity False (Some sampleCheckpointer) sampleRequest) (sampleSession 0)))) \<in> {0, 1}"
proof -
  have "mwd_host (ses_world (sampleSession (0 :: nat))) = 0" by (simp add: sampleSession_def)
  then show ?thesis
    using sample_call activity_dispatched_at_most_once [OF sample_meters, where s = "sampleSession 0" and nested = False]
    by (auto split: if_splits)
qed

theorem dispatch_follows_committed_intent_witness:
  "run_state (CallActivity False (Some (sampleCheckpointer :: (nat memoryWorld, string, char) executionCheckpointer))
      (sampleRequest\<lparr>req_Dispatch := Some (\<lambda>i. do { e \<leftarrow> envelope; ret (Ok (if executionActivityJournal sampleSha e = Ok [] then ''early'' else ''ok'')) })\<rparr>)) (sampleSession 0)
    = run_state (CallActivity False (Some sampleCheckpointer) (sampleRequest\<lparr>req_Dispatch := Some (\<lambda>i. ret (Ok ''ok''))\<rparr>)) (sampleSession 0)"
proof (rule dispatch_follows_committed_intent [OF sample_store_laws])
  show "onlyAuthorizes sampleCheckpointer" by (simp add: onlyAuthorizes_def)
  have "executionActivityJournal sampleSha (ses_envelope s) \<noteq> Ok []" if "intended sampleCheckpointer sampleRequest i s" for i and s :: "nat memoryWorld session"
    using that unfolding intended_def sampleCheckpointer_simps by fastforce
  then show "agrees sampleCheckpointer sampleRequest
      (\<lambda>i. do { e \<leftarrow> envelope; ret (Ok (if executionActivityJournal sampleSha e = Ok [] then ''early'' else ''ok'')) }) (\<lambda>i. ret (Ok ''ok''))"
    by (simp add: agrees_def)
qed

theorem outcome_is_replayed_witness:
  "\<exists>outcome s' s''. run_state (CallActivity False (Some sampleCheckpointer) sampleRequest) (sampleSession 0) = (Ok outcome, s')
    \<and> out_Payload outcome = ''ok''
    \<and> run_state (CallActivity False (Some sampleCheckpointer) (sampleRequest\<lparr>req_Dispatch := Some (\<lambda>_. ret (Ok ''other'')), req_Reconcile := None, req_Classify := None\<rparr>)) s'
      = (Ok (outcome\<lparr>out_Origin := ActivityReplayed\<rparr>), s'') \<and> ses_envelope s'' = ses_envelope s'"
proof -
  obtain outcome s' where call: "run_state (CallActivity False (Some sampleCheckpointer) sampleRequest) (sampleSession 0) = (Ok outcome, s')"
    and "out_Payload outcome = ''ok''"
    using sample_call by blast
  moreover have "exc_forkMode sampleCheckpointer = executionForkMode (ses_envelope (sampleSession (0 :: nat)))"
    by (simp add: sampleSession_def executionForkMode_def)
  moreover have "steadyCallbacks sampleCheckpointer sampleRequest"
    by (simp add: steadyCallbacks_def steady_simple)
  ultimately show ?thesis
    using outcome_is_replayed [OF sample_store_laws _ _ call] by fastforce
qed

end
