(* ===== verification/Child_Session.thy ===== *)
theory Child_Session
  imports Activity_Session
begin

text \<open>
  Child groups of a running node: planning, launch, outcome, recovery,
  cancellation, budget return and join as methods of the checkpointer
  (child\_persistence.go, child\_launch.go, child\_observation.go, child\_cancel.go,
  child\_budget\_return.go, child\_join.go, execution\_text.go) and the typed boundary
  over them (child\_typed.go). Methods that hold the mutex are single computations.
  The dispatcher, the notifier and the merge run while it is free. The fan-out of
  \<open>launchChildGroup\<close>, with its goroutines, its channel and what other goroutines of
  the node do meanwhile, is the step relation of the theory on launches.

  A Go map that misses a key gives the zero value of a group, \<open>noChildGroup\<close>.
\<close>

section \<open>Groups of the head\<close>

definition noChildPlan :: ChildGroupPlan where
  "noChildPlan = \<lparr>pln_Key = '''', pln_Label = '''', pln_MergeLabel = '''', pln_BudgetLabel = '''', pln_CancelLabel = '''',
     pln_MaxConcurrency = 0, pln_FailurePolicy = ChildFailurePolicyOther '''', pln_Children = []\<rparr>"

definition noChildGroup :: ChildGroupRecord where
  "noChildGroup = \<lparr>grp_ParentID = '''', grp_Node = '''', grp_Activation = 0, grp_Plan = noChildPlan, grp_Children = [],
     grp_MergedIDs = [], grp_MergedResult = '''', grp_CancelRequested = False, grp_CancelRequest = None, grp_Capacity = [],
     grp_BudgetReturns = []\<rparr>"

definition groupAt :: "child_groups \<Rightarrow> string \<Rightarrow> ChildGroupRecord" where
  "groupAt groups identity = (case lookup groups identity of None \<Rightarrow> noChildGroup | Some g \<Rightarrow> g)"

definition headGroup :: "sha256 \<Rightarrow> ExecutionEnvelope \<Rightarrow> string \<Rightarrow> ChildGroupRecord" where
  "headGroup sha e identity =
    (case executionChildGroups sha e of Inl _ \<Rightarrow> noChildGroup | Inr groups \<Rightarrow> groupAt groups identity)"

definition currentGroup :: "('w, 't, 'e) executionCheckpointer \<Rightarrow> string \<Rightarrow> ('w session, ChildGroupRecord) state" where
  "currentGroup c identity = do { e \<leftarrow> envelope; ret (headGroup (exc_sha c) e identity) }"

definition childGroupHasFailure :: "('w, 't, 'e) executionCheckpointer \<Rightarrow> string \<Rightarrow> ('w session, bool) state" where
  "childGroupHasFailure c identity = do {
     grp \<leftarrow> currentGroup c identity;
     ret (list_ex (\<lambda>child. chd_State child = ChildFailed) (grp_Children grp)) }"

definition childLaunchResult ::
    "('w, 't, 'e) executionCheckpointer \<Rightarrow> string \<Rightarrow> ('w session, ChildGroupRecord \<times> err option) state" where
  "childLaunchResult c identity = do {
     grp \<leftarrow> currentGroup c identity;
     ret (grp, reject (list_ex (\<lambda>child. chd_State child \<noteq> ChildCompleted \<and> chd_State child \<noteq> ChildFailed
       \<and> chd_State child \<noteq> ChildCanceled) (grp_Children grp)) (Also ErrChildrenUnresolved)) }"

text \<open>The first child with an id, and its position.\<close>

fun findChild :: "string \<Rightarrow> ChildRecord list \<Rightarrow> (nat \<times> ChildRecord) option" where
  "findChild i [] = None"
| "findChild i (c # cs) =
    (if spc_ID (chd_Spec c) = i then Some (0, c) else map_option (\<lambda>(n, x). (Suc n, x)) (findChild i cs))"

definition setChild :: "nat \<Rightarrow> ChildRecord \<Rightarrow> ChildGroupRecord \<Rightarrow> ChildGroupRecord" where
  "setChild n child g = g\<lparr>grp_Children := (grp_Children g)[n := child]\<rparr>"

section \<open>The encoding of the groups\<close>

text \<open>
  The times of a group that JSON encodes, and what JSON keeps of a group: every other
  text of it is checked to be valid UTF-8 before it is written.
\<close>

definition childTimes :: "ChildRecord \<Rightarrow> gotime list" where
  "childTimes c = (case chd_WaitResolution c of None \<Rightarrow> [] | Some d \<Rightarrow> [cwr_At d])
     @ (case chd_OutcomeResolution c of None \<Rightarrow> [] | Some d \<Rightarrow> [cor_At d])
     @ (case chd_CancelConfirmation c of None \<Rightarrow> [] | Some d \<Rightarrow> [ccc_At d])"

definition groupTimes :: "ChildGroupRecord \<Rightarrow> gotime list" where
  "groupTimes g = concat (map childTimes (grp_Children g))
     @ (case grp_CancelRequest g of None \<Rightarrow> [] | Some r \<Rightarrow> [ccr_At r]) @ map (cbr_At \<circ> snd) (grp_BudgetReturns g)"

definition childText :: "ChildRecord \<Rightarrow> ChildRecord" where
  "childText c = c\<lparr>chd_Error := jsonText (chd_Error c)\<rparr>"

definition groupText :: "ChildGroupRecord \<Rightarrow> ChildGroupRecord" where
  "groupText g = g\<lparr>grp_Children := map childText (grp_Children g)\<rparr>"

definition marshalGroups :: "child_groups \<Rightarrow> child_groups payload res" where
  "marshalGroups groups =
    (if list_all (\<lambda>(_, g). list_all marshalTimeOK (groupTimes g)) groups
     then Ok (Bytes_of True (map (\<lambda>(identity, g). (identity, groupText g)) groups)) else Inl marshalError)"

text \<open>
  Equality of two \<open>childGroupEncoding\<close>, which is empty when the group has no encoding.
  Nil and empty slices and maps are one value of the model, while the input and the
  allocation of a child, the merged identifiers and the capacity are encoded
  differently in the two cases: the code also refuses a group that differs from the
  stored one in this respect alone.
\<close>

definition sameChild :: "ChildRecord \<Rightarrow> ChildRecord \<Rightarrow> bool" where
  "sameChild a b \<longleftrightarrow> specEqual (chd_Spec a) (chd_Spec b) \<and> childText a = (childText b)\<lparr>chd_Spec := chd_Spec a\<rparr>"

definition sameReturn :: "ChildBudgetReturnRecord \<Rightarrow> ChildBudgetReturnRecord \<Rightarrow> bool" where
  "sameReturn a b \<longleftrightarrow> maps_Equal (cbr_Used a) (cbr_Used b) \<and> maps_Equal (cbr_Returned a) (cbr_Returned b)
     \<and> a = b\<lparr>cbr_Used := cbr_Used a, cbr_Returned := cbr_Returned a\<rparr>"

definition sameEncoding :: "ChildGroupRecord \<Rightarrow> ChildGroupRecord \<Rightarrow> bool" where
  "sameEncoding a b \<longleftrightarrow>
     a = b\<lparr>grp_Plan := grp_Plan a, grp_Children := grp_Children a, grp_Capacity := grp_Capacity a, grp_BudgetReturns := grp_BudgetReturns a\<rparr>
     \<and> grp_Plan a = (grp_Plan b)\<lparr>pln_Children := pln_Children (grp_Plan a)\<rparr>
     \<and> list_all2 specEqual (pln_Children (grp_Plan a)) (pln_Children (grp_Plan b))
     \<and> list_all2 sameChild (grp_Children a) (grp_Children b)
     \<and> maps_Equal (grp_Capacity a) (grp_Capacity b)
     \<and> length (grp_BudgetReturns a) = length (grp_BudgetReturns b)
     \<and> list_all (\<lambda>(child, r). case lookup (grp_BudgetReturns b) child of None \<Rightarrow> False | Some q \<Rightarrow> sameReturn r q) (grp_BudgetReturns a)"

definition sameGroup :: "ChildGroupRecord \<Rightarrow> ChildGroupRecord \<Rightarrow> bool" where
  "sameGroup a b \<longleftrightarrow>
     (if list_all marshalTimeOK (groupTimes a) \<and> list_all marshalTimeOK (groupTimes b) then sameEncoding a b
      else \<not> list_all marshalTimeOK (groupTimes a) \<and> \<not> list_all marshalTimeOK (groupTimes b))"

definition validChildGroupText :: "ChildGroupRecord \<Rightarrow> bool" where
  "validChildGroupText g \<longleftrightarrow>
     validRuntimeText [grp_ParentID g, grp_Node g, pln_Key (grp_Plan g), pln_Label (grp_Plan g), pln_MergeLabel (grp_Plan g),
       pln_BudgetLabel (grp_Plan g), pln_CancelLabel (grp_Plan g)] \<and> validChildCapacity (grp_Capacity g)
     \<and> list_all (\<lambda>s. validRuntimeText [spc_ID s] \<and> validChildCapacity (spc_Allocation s)) (pln_Children (grp_Plan g))
     \<and> list_all (\<lambda>c. validRuntimeText [spc_ID (chd_Spec c), chd_ExecutionID c, chd_WaitID c, chd_Error c]
         \<and> validChildCapacity (spc_Allocation (chd_Spec c))) (grp_Children g)
     \<and> (case grp_CancelRequest g of None \<Rightarrow> True | Some r \<Rightarrow> validRuntimeText [ccr_ID r, ccr_Reason r])
     \<and> list_all (\<lambda>(_, d). validRuntimeText [cbr_DecisionID d, cbr_Reason d, cbr_Evidence d]) (grp_BudgetReturns g)"

definition persistChildGroupsLocked ::
    "('w, 't, 'e) executionCheckpointer \<Rightarrow> child_groups \<Rightarrow> ('w session, err option) state" where
  "persistChildGroupsLocked c groups =
    (case marshalGroups groups of
       Inl e \<Rightarrow> ret (Some e)
     | Inr payload \<Rightarrow> do {
         current \<leftarrow> envelope;
         r \<leftarrow> commitExecution c (env_Revision current) (current\<lparr>env_ChildrenPayload := payload\<rparr>);
         case r of
           Inl e \<Rightarrow> do { modify (ses_persistenceFailed_update (\<lambda>_. True)); ret (Some e) }
         | Inr committed \<Rightarrow> do { modify (ses_envelope_update (\<lambda>_. committed)); ret None } })"

section \<open>Observation\<close>

definition childObservation :: "ExecutionEnvelope \<Rightarrow> LifecycleOperation \<Rightarrow> string \<Rightarrow> string \<Rightarrow> LifecycleObservation" where
  "childObservation source operation identity childID =
    (executionObservation source operation LifecycleFailed)\<lparr>obs_WorkID := identity, obs_ChildID := childID,
      obs_ParentExecutionID := env_ExecutionID source\<rparr>"

definition childPublicationObservation :: "LifecycleObservation \<Rightarrow> uint64 \<Rightarrow> err option \<Rightarrow> LifecycleObservation" where
  "childPublicationObservation event revision e =
    (case e of
       Some _ \<Rightarrow> event
     | None \<Rightarrow> event\<lparr>obs_Stage := (if revision > obs_SourceRevision event then LifecycleCommitted else LifecycleReplayed),
         obs_Revision := revision\<rparr>)"

definition childObservationCode :: "ChildState \<Rightarrow> string" where
  "childObservationCode s =
    (case s of
       ChildPlanned \<Rightarrow> ''child_planned''
     | ChildQueued \<Rightarrow> ''child_queued''
     | ChildRunning \<Rightarrow> ''child_running''
     | ChildCompleted \<Rightarrow> ''child_completed''
     | ChildFailed \<Rightarrow> ''child_failed''
     | ChildWaiting \<Rightarrow> ''child_waiting''
     | ChildUnknown \<Rightarrow> ''child_unknown''
     | ChildCanceled \<Rightarrow> ''child_canceled''
     | ChildStateOther _ \<Rightarrow> ''invalid_state'')"

primrec observeCachedChildren ::
    "('w, 't, 'e) executionCheckpointer \<Rightarrow> LifecycleObservation \<Rightarrow> ChildRecord list \<Rightarrow> ('w session, unit) state" where
  "observeCachedChildren c event [] = ret ()"
| "observeCachedChildren c event (child # children) = do {
     (if chd_State child \<in> {ChildCompleted, ChildFailed, ChildCanceled, ChildWaiting, ChildUnknown}
      then observeLifecycle c (event\<lparr>obs_Operation := LifecycleChildResolve, obs_ChildID := spc_ID (chd_Spec child),
        obs_ChildExecutionID := chd_ExecutionID child, obs_Code := childObservationCode (chd_State child)\<rparr>)
      else ret ());
     observeCachedChildren c event children }"

section \<open>Planning\<close>

definition prepareChildrenLocked ::
    "('w, 't, 'e) executionCheckpointer \<Rightarrow> ChildGroupPlan \<Rightarrow> counters \<Rightarrow> ('w session, ChildGroupRecord res) state" where
  "prepareChildrenLocked c plan available = do {
     current \<leftarrow> envelope;
     case executionChildGroups (exc_sha c) current of
       Inl e \<Rightarrow> ret (Inl e)
     | Inr groups \<Rightarrow>
         let identity = boundChildGroupIdentity (exc_sha c) current (pln_Key plan) in
         (case lookup groups identity of
            Some prior \<Rightarrow>
              if \<not> maps_Equal (grp_Capacity prior) available then ret (Err ErrBudgetExceeded)
              else if \<not> samePlan (grp_Plan prior) plan then ret (Err (Also ErrChildInvalid))
              else ret (Ok prior)
          | None \<Rightarrow>
              (case PlanChildGroup (exc_sha c) (env_ExecutionID current) (env_Pointer current) (env_Activation current) plan available of
                 Inl e \<Rightarrow> ret (Inl e)
               | Inr grp \<Rightarrow>
                   (case validateChildCapacityLedger (put identity grp groups) of
                      Some e \<Rightarrow> ret (Inl e)
                    | None \<Rightarrow> do {
                        failed \<leftarrow> persistChildGroupsLocked c (put identity grp groups);
                        ret (case failed of Some e \<Rightarrow> Inl e | None \<Rightarrow> Ok grp) }))) }"

definition prepareChildren ::
    "('w, 't, 'e) executionCheckpointer \<Rightarrow> ChildGroupPlan \<Rightarrow> counters \<Rightarrow> ('w session, ChildGroupRecord res) state" where
  "prepareChildren c plan available = do {
     current \<leftarrow> envelope;
     grp \<leftarrow> prepareChildrenLocked c plan available;
     after \<leftarrow> envelope;
     let event = childPublicationObservation
       ((childObservation current LifecycleChildLaunch (boundChildGroupIdentity (exc_sha c) current (pln_Key plan)) '''')
          \<lparr>obs_Code := ''child_group_prepared''\<rparr>) (env_Revision after) (errOf grp);
     observeLifecycle c event;
     (case grp of
        Inl _ \<Rightarrow> ret ()
      | Inr g \<Rightarrow> if obs_Stage event = LifecycleReplayed then observeCachedChildren c event (grp_Children g) else ret ());
     ret grp }"

text \<open>The entry points take the child backend of the context; it is absent inside callbacks.\<close>

definition PrepareChildren ::
    "('w, 't, 'e) executionCheckpointer option \<Rightarrow> ChildGroupPlan \<Rightarrow> counters \<Rightarrow> ('w session, ChildGroupRecord res) state" where
  "PrepareChildren backend plan available =
    (case backend of None \<Rightarrow> ret (Err ErrExecutionCapability) | Some c \<Rightarrow> prepareChildren c plan available)"

section \<open>Launch and outcome of one child\<close>

definition beginChildLocked ::
    "('w, 't, 'e) executionCheckpointer \<Rightarrow> string \<Rightarrow> string \<Rightarrow> ('w session, ChildInvocation res) state" where
  "beginChildLocked c identity childID = do {
     current \<leftarrow> envelope;
     case executionChildGroups (exc_sha c) current of
       Inl e \<Rightarrow> ret (Inl e)
     | Inr groups \<Rightarrow>
         let grp = groupAt groups identity in
         (case findChild childID (grp_Children grp) of
            None \<Rightarrow> ret (Err (Also ErrChildInvalid))
          | Some (index, child) \<Rightarrow>
              if \<not> beginGuard (grp_CancelRequested grp) child then ret (Err (Also ErrChildRevision))
              else do {
                let queued = (if chd_State child = ChildPlanned then queueChild child else child);
                failed \<leftarrow> (if chd_State child = ChildPlanned
                  then persistChildGroupsLocked c (put identity (setChild index queued grp) groups) else ret None);
                case failed of
                  Some e \<Rightarrow> ret (Inl e)
                | None \<Rightarrow> do {
                    let running = launchChild (lse_Incarnation (exc_lease c)) queued;
                    launched \<leftarrow> persistChildGroupsLocked c (put identity (setChild index running grp) groups);
                    ret (case launched of
                        Some e \<Rightarrow> Inl e
                      | None \<Rightarrow> Ok \<lparr>civ_ParentID = grp_ParentID grp, civ_GroupKey = pln_Key (grp_Plan grp),
                          civ_ChildID = spc_ID (chd_Spec running), civ_ExecutionID = chd_ExecutionID running,
                          civ_Revision = chd_Revision running, civ_Input = spc_Input (chd_Spec running),
                          civ_Allocation = spc_Allocation (chd_Spec running)\<rparr>) } }) }"

definition beginChild ::
    "('w, 't, 'e) executionCheckpointer \<Rightarrow> string \<Rightarrow> string \<Rightarrow> ('w session, ChildInvocation res) state" where
  "beginChild c identity childID = do {
     current \<leftarrow> envelope;
     invocation \<leftarrow> beginChildLocked c identity childID;
     after \<leftarrow> envelope;
     observeLifecycle c (childPublicationObservation
       ((childObservation current LifecycleChildLaunch identity childID)
          \<lparr>obs_ChildExecutionID := (case invocation of Inl _ \<Rightarrow> '''' | Inr i \<Rightarrow> civ_ExecutionID i), obs_Code := ''child_running''\<rparr>)
       (env_Revision after) (errOf invocation));
     ret invocation }"

definition finishChildLocked ::
    "('w, 't, 'e) executionCheckpointer \<Rightarrow> string \<Rightarrow> ChildInvocation \<Rightarrow> ChildResult \<Rightarrow> err option \<Rightarrow> ('w session, err option) state" where
  "finishChildLocked c identity invocation result dispatchErr = do {
     current \<leftarrow> envelope;
     case executionChildGroups (exc_sha c) current of
       Inl e \<Rightarrow> ret (Some e)
     | Inr groups \<Rightarrow>
         let grp = groupAt groups identity in
         (case findChild (civ_ChildID invocation) (grp_Children grp) of
            None \<Rightarrow> ret (Some (Sent (Also ErrChildInvalid)))
          | Some (index, child) \<Rightarrow>
              (case finishChildRecord (civ_Revision invocation) (lse_Incarnation (exc_lease c)) result
                  (map_option (exc_errText c) dispatchErr) child of
                 Inl e \<Rightarrow> ret (Some e)
               | Inr finished \<Rightarrow> do {
                   failed \<leftarrow> persistChildGroupsLocked c (put identity (setChild index finished grp) groups);
                   ret (case failed of
                       Some e \<Rightarrow> Some e
                     | None \<Rightarrow> reject (chd_State finished = ChildUnknown) (Also ErrChildrenUnresolved)) })) }"

definition finishChild ::
    "('w, 't, 'e) executionCheckpointer \<Rightarrow> string \<Rightarrow> ChildInvocation \<Rightarrow> ChildResult \<Rightarrow> err option \<Rightarrow> ('w session, err option) state" where
  "finishChild c identity invocation result dispatchErr = do {
     current \<leftarrow> envelope;
     let event = (childObservation current LifecycleChildResolve identity (civ_ChildID invocation))
       \<lparr>obs_ChildExecutionID := civ_ExecutionID invocation,
        obs_Code := (if dispatchErr \<noteq> None then ''child_unknown'' else childObservationCode (chr_State result))\<rparr>;
     failed \<leftarrow> finishChildLocked c identity invocation result dispatchErr;
     after \<leftarrow> envelope;
     observeLifecycle c (if env_Revision after > obs_SourceRevision event
       then event\<lparr>obs_Stage := LifecycleCommitted, obs_Revision := env_Revision after\<rparr> else event);
     ret failed }"

definition observeChildDispatch ::
    "('w, 't, 'e) executionCheckpointer \<Rightarrow> string \<Rightarrow> ChildInvocation \<Rightarrow> ('w session, unit) state" where
  "observeChildDispatch c identity invocation = do {
     current \<leftarrow> envelope;
     observeLifecycle c ((childObservation current LifecycleChildLaunch identity (civ_ChildID invocation))
       \<lparr>obs_Stage := LifecycleStarted, obs_ChildExecutionID := civ_ExecutionID invocation\<rparr>) }"

definition noChildResult :: ChildResult where
  "noChildResult = \<lparr>chr_State = ChildStateOther '''', chr_Payload = '''', chr_Error = '''', chr_WaitID = ''''\<rparr>"

text \<open>\<open>childDispatchAttempt.invoke\<close>: a panic of the dispatcher becomes its error.\<close>

definition childAttemptOutcome :: "ChildResult attempt \<Rightarrow> ChildResult \<times> err option" where
  "childAttemptOutcome attempt =
    (case attempt of
       Returns (Inl e) \<Rightarrow> (noChildResult, Some e)
     | Returns (Inr outcome) \<Rightarrow> (outcome, None)
     | Panics v \<Rightarrow> (noChildResult, Some (Plain (''flowy: child dispatcher panicked: '' @ v))))"

section \<open>Recovery\<close>

text \<open>
  The loop of \<open>recoverChildLaunches\<close>: the children done and left, and the flags. It
  stops at an error with the children as they are in the shared slice by then.
\<close>

fun recover_loop ::
    "uint64 \<Rightarrow> ChildGroupRecord \<Rightarrow> ChildRecord list \<Rightarrow> ChildRecord list \<Rightarrow> bool \<Rightarrow> bool
     \<Rightarrow> (err \<times> ChildRecord list) + (ChildRecord list \<times> bool \<times> bool)" where
  "recover_loop incarnation g recovered [] changed pending = Inr (recovered, changed, pending)"
| "recover_loop incarnation g recovered (c # cs) changed pending =
    (case recoverChild incarnation c of
       Inl e \<Rightarrow> Inl (e, recovered @ c # cs)
     | Inr c' \<Rightarrow> recover_loop incarnation g (recovered @ [c']) cs (changed \<or> chd_State c = ChildRunning)
         (pending \<or> chd_State c = ChildUnknown \<or> chd_State c = ChildRunning
           \<or> (pln_FailurePolicy (grp_Plan g) = ChildFailFast \<and> chd_State c = ChildFailed \<and> \<not> grp_CancelRequested g)))"

definition recoverChildLaunches ::
    "('w, 't, 'e) executionCheckpointer \<Rightarrow> string \<Rightarrow> ('w session, ChildGroupRecord \<times> err option) state" where
  "recoverChildLaunches c identity = do {
     current \<leftarrow> envelope;
     case executionChildGroups (exc_sha c) current of
       Inl e \<Rightarrow> ret (noChildGroup, Some e)
     | Inr groups \<Rightarrow>
         let grp = groupAt groups identity in
         (case recover_loop (lse_Incarnation (exc_lease c)) grp [] (grp_Children grp) False False of
            Inl (e, children) \<Rightarrow> ret (if e = Sent (Also ErrChildBusy) then grp\<lparr>grp_Children := children\<rparr> else noChildGroup, Some e)
          | Inr (children, changed, pending) \<Rightarrow> do {
              let grp' = grp\<lparr>grp_Children := children\<rparr>;
              failed \<leftarrow> (if changed then persistChildGroupsLocked c (put identity grp' groups) else ret None);
              ret (case failed of
                  Some e \<Rightarrow> (noChildGroup, Some e)
                | None \<Rightarrow> (grp', reject pending (Also ErrChildrenUnresolved))) }) }"

section \<open>Cancellation\<close>

record ChildCancelRequest =
  cnr_ID :: string
  cnr_Reason :: string

record ChildCancelNotice =
  cnt_ParentID :: string
  cnt_GroupKey :: string
  cnt_ChildID :: string
  cnt_ExecutionID :: string
  cnt_ChildRevision :: uint64
  cnt_RequestID :: string
  cnt_Reason :: string

definition requestChildCancellationLocked ::
    "('w, 't, 'e) executionCheckpointer \<Rightarrow> string \<Rightarrow> ChildGroupRecord \<Rightarrow> ChildCancelRequest \<Rightarrow> ('w session, ChildGroupRecord res) state" where
  "requestChildCancellationLocked c identity expected request = do {
     current \<leftarrow> envelope;
     case executionChildGroups (exc_sha c) current of
       Inl e \<Rightarrow> ret (Inl e)
     | Inr groups \<Rightarrow>
         (case lookup groups identity of
            None \<Rightarrow> ret (Err (Also ErrChildRevision))
          | Some grp \<Rightarrow>
              if \<not> currentChildGroup (exc_sha c) current grp \<or> \<not> sameGroup grp expected \<or> grp_MergedIDs grp \<noteq> []
              then ret (Err (Also ErrChildRevision))
              else do {
                now \<leftarrow> (if grp_CancelRequest grp = None then host (exc_clock c) else ret 0);
                case requestGroupCancel grp (cnr_ID request) (cnr_Reason request) (env_Revision current)
                    (lse_Incarnation (exc_lease c)) now of
                  Inl e \<Rightarrow> ret (Inl e)
                | Inr None \<Rightarrow> ret (Ok grp)
                | Inr (Some canceled) \<Rightarrow> do {
                    failed \<leftarrow> persistChildGroupsLocked c (put identity canceled groups);
                    ret (case failed of Some e \<Rightarrow> Inl e | None \<Rightarrow> Ok canceled) } }) }"

definition requestChildCancellation ::
    "('w, 't, 'e) executionCheckpointer \<Rightarrow> string \<Rightarrow> ChildGroupRecord \<Rightarrow> ChildCancelRequest \<Rightarrow> ('w session, ChildGroupRecord res) state" where
  "requestChildCancellation c identity expected request = do {
     current \<leftarrow> envelope;
     grp \<leftarrow> requestChildCancellationLocked c identity expected request;
     after \<leftarrow> envelope;
     observeLifecycle c (childPublicationObservation
       ((childObservation current LifecycleChildCancel identity '''')
          \<lparr>obs_DecisionID := cnr_ID request, obs_Code := ''child_cancel_requested''\<rparr>) (env_Revision after) (errOf grp));
     ret grp }"

definition observeChildNotificationFailure ::
    "('w, 't, 'e) executionCheckpointer \<Rightarrow> string \<Rightarrow> ChildRecord \<Rightarrow> ChildCancelRequest \<Rightarrow> ('w session, unit) state" where
  "observeChildNotificationFailure c identity child request = do {
     current \<leftarrow> envelope;
     observeLifecycle c ((childObservation current LifecycleChildCancel identity (spc_ID (chd_Spec child)))
       \<lparr>obs_ChildExecutionID := chd_ExecutionID child, obs_DecisionID := cnr_ID request, obs_Code := ''child_notify_failed''\<rparr>) }"

type_synonym 'w childNotifier = "ChildCancelNotice \<Rightarrow> ('w session, err option) state"

definition forkChildNotifier :: "('w, 't, 'e) executionCheckpointer \<Rightarrow> 'w childNotifier \<Rightarrow> 'w childNotifier" where
  "forkChildNotifier c notify =
    (if exc_forkMode c = ForkFake then (\<lambda>_. ret None)
     else if exc_forkMode c = ForkLive then (\<lambda>notice. do {
       denied \<leftarrow> authorizeForkDispatch c;
       case denied of Some e \<Rightarrow> ret (Some e) | None \<Rightarrow> notify notice })
     else notify)"

primrec notifyChildren ::
    "('w, 't, 'e) executionCheckpointer \<Rightarrow> string \<Rightarrow> ChildGroupRecord \<Rightarrow> ChildCancelRequest \<Rightarrow> 'w childNotifier \<Rightarrow> ChildRecord list
     \<Rightarrow> ('w session, err option) state" where
  "notifyChildren c identity grp request notify [] = ret None"
| "notifyChildren c identity grp request notify (child # children) =
    (if \<not> chd_CancelRequested child \<or> settledChild child then notifyChildren c identity grp request notify children
     else do {
       canceled \<leftarrow> host (exc_ctxErr c);
       case canceled of
         Some e \<Rightarrow> ret (Some e)
       | None \<Rightarrow> do {
           failed \<leftarrow> notify \<lparr>cnt_ParentID = grp_ParentID grp, cnt_GroupKey = pln_Key (grp_Plan grp),
             cnt_ChildID = spc_ID (chd_Spec child), cnt_ExecutionID = chd_ExecutionID child,
             cnt_ChildRevision = chd_Revision child, cnt_RequestID = cnr_ID request, cnt_Reason = cnr_Reason request\<rparr>;
           case failed of
             Some e \<Rightarrow> do { observeChildNotificationFailure c identity child request; ret (Some e) }
           | None \<Rightarrow> notifyChildren c identity grp request notify children } })"

definition cancelChildren ::
    "('w, 't, 'e) executionCheckpointer \<Rightarrow> ChildGroupRecord \<Rightarrow> ChildCancelRequest \<Rightarrow> 'w childNotifier
     \<Rightarrow> ('w session, ChildGroupRecord \<times> err option) state" where
  "cancelChildren c expected request notify =
    (let identity = groupIdentity (exc_sha c) expected in do {
     requested \<leftarrow> requestChildCancellation c identity expected request;
     case requested of
       Inl e \<Rightarrow> ret (noChildGroup, Some e)
     | Inr grp \<Rightarrow> do {
         failed \<leftarrow> notifyChildren c identity grp request (forkChildNotifier c notify) (grp_Children grp);
         current \<leftarrow> currentGroup c identity;
         ret (current, failed) } })"

definition CancelChildren ::
    "('w, 't, 'e) executionCheckpointer option \<Rightarrow> ChildGroupRecord \<Rightarrow> ChildCancelRequest \<Rightarrow> 'w childNotifier option
     \<Rightarrow> ('w session, ChildGroupRecord \<times> err option) state" where
  "CancelChildren backend grp request notify =
    (case backend of
       None \<Rightarrow> ret (noChildGroup, Some (Sent ErrExecutionCapability))
     | Some c \<Rightarrow>
         (case notify of
            None \<Rightarrow> ret (noChildGroup, Some (Sent (Also ErrChildInvalid)))
          | Some callback \<Rightarrow>
              if cnr_ID request = '''' \<or> \<not> validRuntimeText [cnr_ID request, cnr_Reason request] \<or> cnr_Reason request = ''''
                 \<or> \<not> validChildGroupText grp
              then ret (noChildGroup, Some (Sent (Also ErrChildInvalid)))
              else cancelChildren c grp request callback))"

text \<open>
  The channel of \<open>childCancellationSignal\<close> is closed in the critical section that
  commits the request of its group, and at once when the group has one: it is closed
  exactly when the committed group has its request.
\<close>

definition childCancellationSignaled :: "('w, 't, 'e) executionCheckpointer \<Rightarrow> string \<Rightarrow> 'w session \<Rightarrow> bool" where
  "childCancellationSignaled c identity s = grp_CancelRequested (headGroup (exc_sha c) (ses_envelope s) identity)"

section \<open>Budget return\<close>

record ChildBudgetReturn =
  cbc_ChildID :: string
  cbc_ChildRevision :: uint64
  cbc_DecisionID :: string
  cbc_Reason :: string
  cbc_Evidence :: string
  cbc_Used :: counters

definition budgetReturnRecord :: "ChildBudgetReturn \<Rightarrow> counters \<Rightarrow> uint64 \<Rightarrow> uint64 \<Rightarrow> gotime \<Rightarrow> ChildBudgetReturnRecord" where
  "budgetReturnRecord claim returned revision incarnation at =
    \<lparr>cbr_ChildRevision = cbc_ChildRevision claim, cbr_DecisionID = cbc_DecisionID claim, cbr_Reason = cbc_Reason claim,
     cbr_Evidence = cbc_Evidence claim, cbr_Used = cbc_Used claim, cbr_Returned = returned, cbr_SourceRevision = revision,
     cbr_Incarnation = incarnation, cbr_At = at\<rparr>"

definition returnChildBudget ::
    "('w, 't, 'e) executionCheckpointer \<Rightarrow> ChildGroupRecord \<Rightarrow> ChildBudgetReturn \<Rightarrow> ('w session, ChildGroupRecord res) state" where
  "returnChildBudget c expected claim = do {
     current \<leftarrow> envelope;
     case executionChildGroups (exc_sha c) current of
       Inl e \<Rightarrow> ret (Inl e)
     | Inr groups \<Rightarrow>
         let identity = groupIdentity (exc_sha c) expected in
         (case lookup groups identity of
            None \<Rightarrow> ret (Err (Also ErrChildRevision))
          | Some grp \<Rightarrow>
              if \<not> sameGroup grp expected \<or> \<not> currentChildGroup (exc_sha c) current grp then ret (Err (Also ErrChildRevision))
              else case lookup (grp_BudgetReturns grp) (cbc_ChildID claim) of
                Some prior \<Rightarrow>
                  if cbr_DecisionID prior \<noteq> cbc_DecisionID claim \<or> cbr_ChildRevision prior \<noteq> cbc_ChildRevision claim
                     \<or> cbr_Reason prior \<noteq> cbc_Reason claim \<or> cbr_Evidence prior \<noteq> cbc_Evidence claim
                     \<or> \<not> maps_Equal (cbr_Used prior) (cbc_Used claim)
                  then ret (Err (Also ErrChildRevision)) else ret (Ok grp)
              | None \<Rightarrow>
                  (case childForBudgetReturn grp (cbc_ChildID claim) of
                     None \<Rightarrow> ret (Err (Also ErrChildRevision))
                   | Some child \<Rightarrow>
                       if chd_Revision child \<noteq> cbc_ChildRevision claim then ret (Err (Also ErrChildRevision))
                       else case ComputeChildBudgetReturn child (cbc_Used claim) of
                         Inl e \<Rightarrow> ret (Inl e)
                       | Inr returned \<Rightarrow> do {
                           now \<leftarrow> host (exc_clock c);
                           let grp' = grp\<lparr>grp_BudgetReturns := put (cbc_ChildID claim)
                             (budgetReturnRecord claim returned (env_Revision current) (lse_Incarnation (exc_lease c)) now)
                             (grp_BudgetReturns grp)\<rparr>;
                           failed \<leftarrow> persistChildGroupsLocked c (put identity grp' groups);
                           ret (case failed of Some e \<Rightarrow> Inl e | None \<Rightarrow> Ok grp') })) }"

definition ReturnChildBudget ::
    "('w, 't, 'e) executionCheckpointer option \<Rightarrow> ChildGroupRecord \<Rightarrow> ChildBudgetReturn \<Rightarrow> ('w session, ChildGroupRecord res) state" where
  "ReturnChildBudget backend grp claim =
    (case backend of
       None \<Rightarrow> ret (Err ErrExecutionCapability)
     | Some c \<Rightarrow>
         if cbc_ChildID claim = '''' \<or> cbc_ChildRevision claim = 0 \<or> cbc_DecisionID claim = '''' \<or> cbc_Reason claim = ''''
            \<or> \<not> validRuntimeText [cbc_ChildID claim, cbc_DecisionID claim, cbc_Reason claim, cbc_Evidence claim]
            \<or> cbc_Evidence claim = '''' \<or> \<not> validChildGroupText grp
         then ret (Err (Also ErrChildInvalid)) else returnChildBudget c grp claim)"

section \<open>Join\<close>

text \<open>The critical section after the merge, with the groups that were read before it.\<close>

definition commitJoin ::
    "('w, 't, 'e) executionCheckpointer \<Rightarrow> string \<Rightarrow> child_groups \<Rightarrow> ChildGroupRecord \<Rightarrow> uint64 \<Rightarrow> string \<Rightarrow> ('w session, string res) state" where
  "commitJoin c identity groups grp revision result = do {
     canceled \<leftarrow> host (exc_ctxErr c);
     current \<leftarrow> envelope;
     case canceled of
       Some e \<Rightarrow> ret (Inl e)
     | None \<Rightarrow>
         if env_Revision current \<noteq> revision then ret (Err (Also ErrChildMergeConflict))
         else do {
           failed \<leftarrow> persistChildGroupsLocked c (put identity
             (grp\<lparr>grp_MergedIDs := map (spc_ID \<circ> chd_Spec) (grp_Children grp), grp_MergedResult := result\<rparr>) groups);
           ret (case failed of Some e \<Rightarrow> Inl e | None \<Rightarrow> Ok result) } }"

definition joinChildren ::
    "('w, 't, 'e) executionCheckpointer \<Rightarrow> ChildGroupRecord \<Rightarrow> (ChildRecord list \<Rightarrow> ('w session, string res) state) \<Rightarrow> ('w session, string res) state" where
  "joinChildren c expected merge =
    (let identity = groupIdentity (exc_sha c) expected in do {
     current \<leftarrow> envelope;
     let event = childObservation current LifecycleChildJoin identity '''';
     case executionChildGroups (exc_sha c) current of
       Inl e \<Rightarrow> ret (Inl (Wrapped '''' [Sent (Also ErrChildRevision), e]))
     | Inr groups \<Rightarrow>
         (case lookup groups identity of
            None \<Rightarrow> ret (Inl (Wrapped '''' [Sent (Also ErrChildRevision)]))
          | Some grp \<Rightarrow>
              if \<not> currentChildGroup (exc_sha c) current grp \<or> \<not> sameGroup grp expected
              then ret (Inl (Wrapped '''' [Sent (Also ErrChildRevision)]))
              else if length (grp_MergedIDs grp) = length (grp_Children grp) then do {
                observeLifecycle c (event\<lparr>obs_Stage := LifecycleReplayed, obs_Revision := env_Revision current\<rparr>);
                ret (Ok (grp_MergedResult grp)) }
              else if \<not> list_all settledChild (grp_Children grp) then ret (Err (Also ErrChildrenUnresolved))
              else do {
                observeLifecycle c (event\<lparr>obs_Stage := LifecycleStarted\<rparr>);
                canceled \<leftarrow> host (exc_ctxErr c);
                case canceled of
                  Some e \<Rightarrow> do { observeLifecycle c event; ret (Inl e) }
                | None \<Rightarrow> do {
                    merged \<leftarrow> merge (grp_Children grp);
                    case merged of
                      Inl e \<Rightarrow> do { observeLifecycle c event; ret (Inl (Wrapped '''' [Sent (Also ErrChildMergeConflict), e])) }
                    | Inr result \<Rightarrow> do {
                        joined \<leftarrow> commitJoin c identity groups grp (env_Revision current) result;
                        after \<leftarrow> envelope;
                        observeLifecycle c (case joined of
                            Inl _ \<Rightarrow> event
                          | Inr _ \<Rightarrow> event\<lparr>obs_Stage := LifecycleCommitted, obs_Revision := env_Revision after\<rparr>);
                        ret joined } } }) })"

definition JoinChildren ::
    "('w, 't, 'e) executionCheckpointer option \<Rightarrow> ChildGroupRecord \<Rightarrow> (ChildRecord list \<Rightarrow> ('w session, string res) state) option
     \<Rightarrow> ('w session, string res) state" where
  "JoinChildren backend grp merge =
    (case backend of
       None \<Rightarrow> ret (Err ErrExecutionCapability)
     | Some c \<Rightarrow>
         (case merge of
            None \<Rightarrow> ret (Err (Also ErrChildInvalid))
          | Some callback \<Rightarrow> if \<not> validChildGroupText grp then ret (Err (Also ErrChildInvalid)) else joinChildren c grp callback))"

section \<open>The way to a launch\<close>

type_synonym 'w childDispatcher = "ChildInvocation \<Rightarrow> ('w session, ChildResult attempt) state"

text \<open>\<open>runChildren\<close> up to \<open>launchChildGroup\<close>: its results, or the arguments of the launch.\<close>

definition forkChildDispatcher ::
    "('w, 't, 'e) executionCheckpointer \<Rightarrow> 'w childDispatcher \<Rightarrow> 'w childDispatcher res" where
  "forkChildDispatcher c dispatch =
    (if exc_forkMode c = ForkFake then
       (case exc_forkPolicy c of
          None \<Rightarrow> Err ErrForkPolicy
        | Some policy \<Rightarrow> (case fxp_FakeChild policy of None \<Rightarrow> Err ErrForkPolicy | Some fake \<Rightarrow> Ok fake))
     else if exc_forkMode c = ForkLive then Ok (\<lambda>invocation. do {
       denied \<leftarrow> authorizeForkDispatch c;
       case denied of Some e \<Rightarrow> ret (Returns (Inl e)) | None \<Rightarrow> dispatch invocation })
     else Ok dispatch)"

definition runChildren ::
    "('w, 't, 'e) executionCheckpointer \<Rightarrow> ChildGroupPlan \<Rightarrow> counters \<Rightarrow> 'w childDispatcher
     \<Rightarrow> ('w session, (ChildGroupRecord \<times> err option) + (string \<times> ChildGroupRecord \<times> 'w childDispatcher)) state" where
  "runChildren c plan available dispatch0 =
    (case forkChildDispatcher c dispatch0 of
       Inl e \<Rightarrow> ret (Inl (noChildGroup, Some e))
     | Inr dispatch \<Rightarrow> do {
         prepared \<leftarrow> prepareChildren c plan available;
         case prepared of
           Inl e \<Rightarrow> ret (Inl (noChildGroup, Some e))
         | Inr planned \<Rightarrow> do {
             (grp, failed) \<leftarrow> recoverChildLaunches c (groupIdentity (exc_sha c) planned);
             ret (case failed of
                 Some e \<Rightarrow> Inl (grp, Some e)
               | None \<Rightarrow> Inr (groupIdentity (exc_sha c) planned, grp, dispatch)) } })"

definition RunChildren ::
    "('w, 't, 'e) executionCheckpointer option \<Rightarrow> ChildGroupPlan \<Rightarrow> counters \<Rightarrow> 'w childDispatcher option
     \<Rightarrow> ('w session, (ChildGroupRecord \<times> err option) + (string \<times> ChildGroupRecord \<times> 'w childDispatcher)) state" where
  "RunChildren backend plan available dispatch =
    (case (backend, dispatch) of
       (Some c, Some callback) \<Rightarrow> runChildren c plan available callback
     | _ \<Rightarrow> ret (Inl (noChildGroup, Some (Sent ErrExecutionCapability))))"

section \<open>The typed boundary\<close>

record 'a StateSerializer =
  srz_Marshal :: "'a \<Rightarrow> string res"
  srz_Unmarshal :: "string \<Rightarrow> 'a res"

record ChildProjectionSpec =
  cps_ID :: string
  cps_Allocation :: counters

definition childCodecError :: "err \<Rightarrow> err" where
  "childCodecError e = Wrapped '''' [Sent (Also ErrChildCodec), e]"

fun validateChildProjectionSpecs :: "string set \<Rightarrow> ChildProjectionSpec list \<Rightarrow> err option" where
  "validateChildProjectionSpecs seen [] = None"
| "validateChildProjectionSpecs seen (spec # specs) =
    (if cps_ID spec = '''' \<or> \<not> validRuntimeText [cps_ID spec] \<or> \<not> validChildCapacity (cps_Allocation spec)
     then Some (Sent (Also ErrChildInvalid))
     else if cps_ID spec \<in> seen then Some (Sent (Also ErrChildDuplicate))
     else validateChildProjectionSpecs (insert (cps_ID spec) seen) specs)"

text \<open>The loop of \<open>ProjectChildSpecs\<close>; the context is asked before every projection and at the end.\<close>

primrec project_loop ::
    "('w, err option) state \<Rightarrow> string \<Rightarrow> 'p StateSerializer \<Rightarrow> 'i StateSerializer \<Rightarrow> ('p \<Rightarrow> string \<Rightarrow> ('w, 'i res) state)
     \<Rightarrow> ChildSpec list \<Rightarrow> ChildProjectionSpec list \<Rightarrow> ('w, ChildSpec list res) state" where
  "project_loop ctxErr encoded parentCodec inputCodec project result [] = do {
     canceled \<leftarrow> ctxErr;
     ret (case canceled of Some e \<Rightarrow> Inl e | None \<Rightarrow> Ok result) }"
| "project_loop ctxErr encoded parentCodec inputCodec project result (spec # specs) = do {
     canceled \<leftarrow> ctxErr;
     case canceled of
       Some e \<Rightarrow> ret (Inl e)
     | None \<Rightarrow>
         (case srz_Unmarshal parentCodec encoded of
            Inl e \<Rightarrow> ret (Inl (childCodecError e))
          | Inr copyParent \<Rightarrow> do {
              projected \<leftarrow> project copyParent (cps_ID spec);
              case projected of
                Inl e \<Rightarrow> ret (Inl e)
              | Inr input \<Rightarrow>
                  (case srz_Marshal inputCodec input of
                     Inl e \<Rightarrow> ret (Inl (childCodecError e))
                   | Inr payload \<Rightarrow> project_loop ctxErr encoded parentCodec inputCodec project
                       (result @ [\<lparr>spc_ID = cps_ID spec, spc_Input = payload, spc_Allocation = cps_Allocation spec\<rparr>]) specs) }) }"

definition ProjectChildSpecs ::
    "('w, err option) state \<Rightarrow> 'p \<Rightarrow> ChildProjectionSpec list \<Rightarrow> 'p StateSerializer option \<Rightarrow> 'i StateSerializer option
     \<Rightarrow> ('p \<Rightarrow> string \<Rightarrow> ('w, 'i res) state) option \<Rightarrow> ('w, ChildSpec list res) state" where
  "ProjectChildSpecs ctxErr parent specs parentCodec inputCodec project =
    (case (parentCodec, inputCodec, project) of
       (Some pc, Some ic, Some callback) \<Rightarrow>
         if specs = [] then ret (Err (Also ErrChildInvalid))
         else (case validateChildProjectionSpecs {} specs of
           Some e \<Rightarrow> ret (Inl e)
         | None \<Rightarrow>
             (case srz_Marshal pc parent of
                Inl e \<Rightarrow> ret (Inl (childCodecError e))
              | Inr encoded \<Rightarrow> project_loop ctxErr encoded pc ic callback [] specs))
     | _ \<Rightarrow> ret (Err (Also ErrChildInvalid)))"

record 'i TypedChildInvocation =
  tci_Runtime :: ChildInvocation
  tci_Input :: 'i

record 'o TypedChildResult =
  tcr_State :: ChildState
  tcr_Result :: 'o
  tcr_Error :: string
  tcr_WaitID :: string

definition typedChildReply :: "'o StateSerializer \<Rightarrow> 'o TypedChildResult attempt \<Rightarrow> ChildResult attempt" where
  "typedChildReply resultCodec reply =
    (case reply of
       Panics v \<Rightarrow> Panics v
     | Returns (Inl e) \<Rightarrow> Returns (Inl e)
     | Returns (Inr outcome) \<Rightarrow>
         if \<not> validChildResultState (tcr_State outcome) then Returns (Err (Also ErrChildInvalid))
         else (case srz_Marshal resultCodec (tcr_Result outcome) of
           Inl e \<Rightarrow> Returns (Inl (childCodecError e))
         | Inr payload \<Rightarrow> Returns (Ok \<lparr>chr_State = tcr_State outcome, chr_Payload = payload, chr_Error = tcr_Error outcome,
             chr_WaitID = tcr_WaitID outcome\<rparr>)))"

definition TypedChildDispatcher ::
    "('w, err option) state \<Rightarrow> 'i StateSerializer option \<Rightarrow> 'o StateSerializer option
     \<Rightarrow> ('i TypedChildInvocation \<Rightarrow> ('w session, 'o TypedChildResult attempt) state) option \<Rightarrow> 'w childDispatcher res" where
  "TypedChildDispatcher ctxErr inputCodec resultCodec worker =
    (case (inputCodec, resultCodec, worker) of
       (Some ic, Some rc, Some callback) \<Rightarrow> Ok (\<lambda>invocation.
         (case srz_Unmarshal ic (civ_Input invocation) of
            Inl e \<Rightarrow> ret (Returns (Inl (childCodecError e)))
          | Inr input \<Rightarrow> do {
              canceled \<leftarrow> host ctxErr;
              case canceled of
                Some e \<Rightarrow> ret (Returns (Inl e))
              | None \<Rightarrow> do {
                  reply \<leftarrow> callback \<lparr>tci_Runtime = invocation, tci_Input = input\<rparr>;
                  ret (typedChildReply rc reply) } }))
     | _ \<Rightarrow> Err (Also ErrChildInvalid))"

record 'o TypedChildOutcome =
  tco_ID :: string
  tco_ExecutionID :: string
  tco_Revision :: uint64
  tco_State :: ChildState
  tco_Result :: "'o option"
  tco_Error :: string
  tco_WaitID :: string
  tco_CancelRequested :: bool
  tco_CancelConfirmed :: bool

text \<open>\<open>tco_Result\<close> is absent exactly when \<open>HasResult\<close> is false.\<close>

fun decodeTypedChildRecords :: "'o StateSerializer \<Rightarrow> ChildRecord list \<Rightarrow> 'o TypedChildOutcome list res" where
  "decodeTypedChildRecords codec [] = Ok []"
| "decodeTypedChildRecords codec (child # children) =
    res_bind (if chd_State child = ChildCompleted \<or> chd_Result child \<noteq> ''''
        then (case srz_Unmarshal codec (chd_Result child) of Inl e \<Rightarrow> Inl (childCodecError e) | Inr decoded \<Rightarrow> Ok (Some decoded))
        else Ok None) (\<lambda>result.
      res_bind (decodeTypedChildRecords codec children) (\<lambda>outcomes.
        Ok (\<lparr>tco_ID = spc_ID (chd_Spec child), tco_ExecutionID = chd_ExecutionID child, tco_Revision = chd_Revision child,
          tco_State = chd_State child, tco_Result = result, tco_Error = chd_Error child, tco_WaitID = chd_WaitID child,
          tco_CancelRequested = chd_CancelRequested child, tco_CancelConfirmed = chd_CancelConfirmed child\<rparr> # outcomes)))"

definition DecodeChildOutcomes ::
    "sha256 \<Rightarrow> ChildGroupRecord \<Rightarrow> 'o StateSerializer option \<Rightarrow> 'o TypedChildOutcome list res" where
  "DecodeChildOutcomes sha grp codec =
    (case codec of
       None \<Rightarrow> Err (Also ErrChildInvalid)
     | Some cd \<Rightarrow> if validateChildGroup sha grp \<noteq> None then Err (Also ErrChildInvalid)
         else decodeTypedChildRecords cd (grp_Children grp))"

definition typedChildMerge ::
    "'o StateSerializer \<Rightarrow> 'r StateSerializer \<Rightarrow> ('o TypedChildOutcome list \<Rightarrow> ('w session, 'r res) state)
     \<Rightarrow> ChildRecord list \<Rightarrow> ('w session, string res) state" where
  "typedChildMerge outcomeCodec mergedCodec merge children =
    (case decodeTypedChildRecords outcomeCodec children of
       Inl e \<Rightarrow> ret (Inl e)
     | Inr outcomes \<Rightarrow> do {
         merged \<leftarrow> merge outcomes;
         ret (case merged of
             Inl e \<Rightarrow> Inl e
           | Inr result \<Rightarrow> (case srz_Marshal mergedCodec result of Inl e \<Rightarrow> Inl (childCodecError e) | Inr encoded \<Rightarrow> Ok encoded)) })"

definition JoinTypedChildren ::
    "('w, 't, 'e) executionCheckpointer option \<Rightarrow> ChildGroupRecord \<Rightarrow> 'o StateSerializer option \<Rightarrow> 'r StateSerializer option
     \<Rightarrow> ('o TypedChildOutcome list \<Rightarrow> ('w session, 'r res) state) option \<Rightarrow> ('w session, 'r res) state" where
  "JoinTypedChildren backend grp outcomeCodec mergedCodec merge =
    (case (outcomeCodec, mergedCodec, merge) of
       (Some oc, Some mc, Some callback) \<Rightarrow> do {
         joined \<leftarrow> JoinChildren backend grp (Some (typedChildMerge oc mc callback));
         ret (case joined of
             Inl e \<Rightarrow> Inl e
           | Inr payload \<Rightarrow> (case srz_Unmarshal mc payload of Inl e \<Rightarrow> Inl (childCodecError e) | Inr result \<Rightarrow> Ok result)) }
     | _ \<Rightarrow> ret (Err (Also ErrChildInvalid)))"

end
