(* ===== verification/Durable_Session.thy ===== *)
theory Durable_Session
  imports Child_Session
begin

text \<open>
  The durable runner (durable\_runner.go, durable\_start.go, execution\_session.go) and
  the operations on a stored execution that run no node: delivery and cancellation of
  waits (durable\_wait\_delivery.go, durable\_wait\_cancellation.go), operator decisions
  on activities (activity\_resolution.go), forks (execution\_fork.go), rollovers
  (execution\_rollover.go), imports (execution\_import.go) and the inspections of
  execution\_history.go and execution\_resume\_inspection.go.

  An operation is a computation over \<open>'w session\<close>: it acquires the execution, which
  initialises the fields of \<open>executionSession\<close>, works on the store of the world, and
  releases the execution again. The host of the runner is a record of computations:
  the store, the clock, the error and cause of the context, the observer of the
  context, the telemetry bridge and what the heartbeat goroutine noted. Byte slices
  are values, so the defensive clones of the code do not appear.
\<close>

section \<open>Early returns\<close>

text \<open>
  \<open>attempt m f\<close> is \<open>x, err := m; if err != nil { return err }; f(x)\<close> and
  \<open>passing v k\<close> the same for an error that is already computed.
\<close>

definition attempt :: "('s, 'a res) state \<Rightarrow> ('a \<Rightarrow> ('s, 'b res) state) \<Rightarrow> ('s, 'b res) state" where
  "attempt m f = do { r \<leftarrow> m; case r of Inl e \<Rightarrow> ret (Inl e) | Inr x \<Rightarrow> f x }"

definition passing :: "err option \<Rightarrow> ('s, 'a res) state \<Rightarrow> ('s, 'a res) state" where
  "passing v k = (case v of Some e \<Rightarrow> ret (Inl e) | None \<Rightarrow> k)"

lemma run_attempt:
  "run_state (attempt m f) s = (case run_state m s of (Inl e, t) \<Rightarrow> (Inl e, t) | (Inr x, t) \<Rightarrow> run_state (f x) t)"
  by (simp add: attempt_def split: prod.split sum.split)

lemma attempt_Ok_iff:
  "run_state (attempt m f) s = (Ok y, s') \<longleftrightarrow> (\<exists>x t. run_state m s = (Ok x, t) \<and> run_state (f x) t = (Ok y, s'))"
  by (auto simp: run_attempt split: prod.split sum.split)

lemma passing_Ok_iff: "run_state (passing v k) s = (Ok y, s') \<longleftrightarrow> v = None \<and> run_state k s = (Ok y, s')"
  by (simp add: passing_def split: option.split)

section \<open>Stores, options and runners\<close>

record 'w ExecutionRolloverStore =
  rvs_LoadRollover :: "string \<Rightarrow> ('w, RolloverReceipt option res) state"
  rvs_CommitRollover :: "ExecutionLease \<Rightarrow> HistoricalCheckpointReference \<Rightarrow> ExecutionEnvelope \<Rightarrow> ('w, RolloverReceipt res) state"

text \<open>An execution store with the optional interfaces that the runner asks it for.\<close>

record 'w ExecutionStore =
  sto_LoadExecution :: "string \<Rightarrow> ('w, ExecutionEnvelope res) state"
  sto_CommitExecution :: "uint64 \<Rightarrow> ExecutionLease \<Rightarrow> ExecutionEnvelope \<Rightarrow> ('w, ExecutionEnvelope res) state"
  sto_AcquireExecution :: "string \<Rightarrow> string \<Rightarrow> duration \<Rightarrow> ('w, ExecutionLease res) state"
  sto_ReleaseExecution :: "ExecutionLease \<Rightarrow> ('w, err option) state"
  sto_LoadCheckpoint :: "(string \<Rightarrow> uint64 \<Rightarrow> ('w, ExecutionEnvelope res) state) option"
  sto_rollover :: "'w ExecutionRolloverStore option"
  sto_waits :: "'w DurableWaitBackend option"

record 'w DurableOptions =
  dop_Owner :: string
  dop_LeaseTTL :: duration
  dop_Migrations :: "ExecutionMigration list"
  dop_Clock :: "('w, gotime) state option"
  dop_RetryRandom :: "('w, uint64 option) state"
  dop_WaitProfile :: "WaitCapabilityProfile option"
  dop_ForkPolicy :: "'w ForkExecutionPolicy option"

text \<open>
  The host: the error of the context and its cause, the observer (\<open>None\<close> when
  observation is off), the wall clock, the telemetry of the context, and whether the
  heartbeat of the session reported a lost lease.
\<close>

record 'w durableHost =
  hst_cause :: "('w, err option) state"
  hst_ctxErr :: "('w, err option) state"
  hst_observer :: "(LifecycleObservation \<Rightarrow> ('w, unit) state) option"
  hst_wallNow :: "('w, gotime) state"
  hst_capture :: "('w, (string, string) gomap) state"
  hst_heartbeatLost :: "('w, bool) state"

record ('w, 't, 'a, 'e) DurableRunner =
  drn_graph :: "('t, ('w session, 't, 'a) node, ('w session, 't) router) Graph"
  drn_store :: "'w ExecutionStore"
  drn_descriptor :: ExecutionDescriptor
  drn_stateCodec :: "'t StateSerializer"
  drn_effectsCodec :: "'e list StateSerializer"
  drn_options :: "'w DurableOptions"
  drn_waitBackend :: "'w DurableWaitBackend option"
  drn_host :: "'w durableHost"
  drn_zero :: 't
  drn_asEffect :: "'a \<Rightarrow> 'e option"
  drn_sha :: sha256
  drn_enc :: env_codec
  drn_errText :: "err \<Rightarrow> string"

definition configuredWaitBackend :: "'w ExecutionStore \<Rightarrow> 'w DurableOptions \<Rightarrow> ('w, 'w DurableWaitBackend res) state" where
  "configuredWaitBackend store options =
    (case dop_WaitProfile options of
       None \<Rightarrow> ret (Err ErrExecutionCapability)
     | Some profile \<Rightarrow> passing (WaitCapabilityProfile_Validate profile)
         (case sto_waits store of
            None \<Rightarrow> ret (Err ErrExecutionCapability)
          | Some backend \<Rightarrow> do {
              capabilities \<leftarrow> wbk_WaitCapabilities backend;
              ret (if capabilities \<noteq> profile then Err ErrExecutionCapability else Ok backend) }))"

text \<open>\<open>None\<close> arguments are nil.\<close>

definition NewDurableRunner ::
    "('t, ('w session, 't, 'a) node, ('w session, 't) router) Graph option \<Rightarrow> 'w ExecutionStore option \<Rightarrow> ExecutionDescriptor
     \<Rightarrow> 't StateSerializer option \<Rightarrow> 'e list StateSerializer option \<Rightarrow> 'w DurableOptions
     \<Rightarrow> 'w durableHost \<Rightarrow> 't \<Rightarrow> ('a \<Rightarrow> 'e option) \<Rightarrow> sha256 \<Rightarrow> env_codec \<Rightarrow> (err \<Rightarrow> string)
     \<Rightarrow> ('w, ('w, 't, 'a, 'e) DurableRunner res) state" where
  "NewDurableRunner graph store descriptor stateCodec effectsCodec options h zero asEffect sha enc errText =
    (case (graph, store, stateCodec, effectsCodec) of
       (Some g, Some st, Some sc, Some ec) \<Rightarrow>
         if dop_Owner options = '''' \<or> dop_LeaseTTL options \<le> 0 then ret (Err ErrExecutionCapability)
         else passing (ExecutionDescriptor_Validate descriptor)
           (if \<not> validRuntimeText [dop_Owner options] \<or> \<not> validRuntimeText (map fst (gph_nodes g))
            then ret (Err ErrExecutionCapability)
            else if rcf_deleteOnSuccess (gph_defaults g) \<or> rcf_retentionLimit (gph_defaults g) \<noteq> 0
            then ret (Inl (Wrapped ''durable retention must preserve lineage'' [Sent ErrExecutionCapability]))
            else
              let options' = (case dop_Clock options of None \<Rightarrow> options\<lparr>dop_Clock := Some (hst_wallNow h)\<rparr> | Some _ \<Rightarrow> options);
                  runner = (\<lambda>backend. \<lparr>drn_graph = g, drn_store = st, drn_descriptor = descriptor, drn_stateCodec = sc,
                    drn_effectsCodec = ec, drn_options = options', drn_waitBackend = backend, drn_host = h, drn_zero = zero,
                    drn_asEffect = asEffect, drn_sha = sha, drn_enc = enc, drn_errText = errText\<rparr>)
              in if dop_WaitProfile options = None then ret (Ok (runner None))
                 else attempt (configuredWaitBackend st options) (\<lambda>backend. ret (Ok (runner (Some backend)))))
     | _ \<Rightarrow> ret (Err ErrExecutionCapability))"

abbreviation drn_clock :: "('w, 't, 'a, 'e) DurableRunner \<Rightarrow> ('w, gotime) state" where
  "drn_clock r \<equiv> (case dop_Clock (drn_options r) of None \<Rightarrow> hst_wallNow (drn_host r) | Some clock \<Rightarrow> clock)"

text \<open>The checkpointer that a run of the runner under a lease uses; the other operations use its commit and observer.\<close>

definition sessionCheckpointer :: "('w, 't, 'a, 'e) DurableRunner \<Rightarrow> ExecutionLease \<Rightarrow> ForkActivityMode \<Rightarrow> ('w, 't, 'e) executionCheckpointer" where
  "sessionCheckpointer r lease mode =
    \<lparr>exc_CommitExecution = sto_CommitExecution (drn_store r), exc_LoadCheckpoint = sto_LoadCheckpoint (drn_store r), exc_lease = lease,
     exc_stateMarshal = srz_Marshal (drn_stateCodec r), exc_stateUnmarshal = srz_Unmarshal (drn_stateCodec r),
     exc_effectsMarshal = srz_Marshal (drn_effectsCodec r), exc_effectsUnmarshal = srz_Unmarshal (drn_effectsCodec r),
     exc_clock = drn_clock r, exc_retryRandom = dop_RetryRandom (drn_options r), exc_waitBackend = drn_waitBackend r,
     exc_waitProfile = dop_WaitProfile (drn_options r), exc_forkPolicy = dop_ForkPolicy (drn_options r), exc_forkMode = mode,
     exc_observer = hst_observer (drn_host r), exc_ctxErr = hst_ctxErr (drn_host r), exc_cause = hst_cause (drn_host r), exc_wallNow = hst_wallNow (drn_host r),
     exc_sha = drn_sha r, exc_enc = drn_enc r, exc_errText = drn_errText r\<rparr>"

abbreviation plainMode :: ForkActivityMode where "plainMode \<equiv> ForkActivityModeOther ''''"

abbreviation leased :: "('w, 't, 'a, 'e) DurableRunner \<Rightarrow> ExecutionLease \<Rightarrow> ('w, 't, 'e) executionCheckpointer" where
  "leased r lease \<equiv> sessionCheckpointer r lease plainMode"

definition observe :: "('w, 't, 'a, 'e) DurableRunner \<Rightarrow> LifecycleObservation \<Rightarrow> ('w session, unit) state" where
  "observe r event = (case hst_observer (drn_host r) of None \<Rightarrow> ret () | Some observer \<Rightarrow> host (observer event))"

text \<open>\<open>if ctx.Err() != nil { return context.Cause(ctx) }\<close>.\<close>

definition alive :: "('w, 't, 'a, 'e) DurableRunner \<Rightarrow> ('w session, 'b res) state \<Rightarrow> ('w session, 'b res) state" where
  "alive r k = do { canceled \<leftarrow> host (hst_cause (drn_host r)); passing canceled k }"

section \<open>Sessions\<close>

definition acquireSession :: "('w, 't, 'a, 'e) DurableRunner \<Rightarrow> string \<Rightarrow> ('w session, ExecutionLease res) state" where
  "acquireSession r execution =
    (if \<not> validRuntimeText [execution] then ret (Err ErrExecutionCapability)
     else alive r (attempt (host (sto_AcquireExecution (drn_store r) execution (dop_Owner (drn_options r)) (dop_LeaseTTL (drn_options r))))
       (\<lambda>lease. do {
          modify (\<lambda>s. s\<lparr>ses_lossConfirmed := False,
            ses_observation := (lifecycleObservation LifecycleLease LifecycleFailed execution '''')\<lparr>obs_LeaseIncarnation := lse_Incarnation lease\<rparr>\<rparr>);
          ret (Ok lease) })))"

text \<open>
  \<open>session.finish\<close>: cancel, wait for the heartbeat, release, and report a lost lease. The
  cancellation does not replace a cause that the context already has.
\<close>

definition finishSession :: "('w, 't, 'a, 'e) DurableRunner \<Rightarrow> ExecutionLease \<Rightarrow> ('w session, err option) state" where
  "finishSession r lease = do {
     cause \<leftarrow> host (hst_cause (drn_host r));
     noted \<leftarrow> host (hst_heartbeatLost (drn_host r));
     modify (\<lambda>s. if noted then s\<lparr>ses_lossConfirmed := True\<rparr> else s);
     released \<leftarrow> host (sto_ReleaseExecution (drn_store r) lease);
     (case released of Some e \<Rightarrow> noteSessionLeaseFailure e | None \<Rightarrow> ret ());
     s \<leftarrow> State_Monad.get;
     (if ses_lossConfirmed s \<or> (case cause of None \<Rightarrow> False | Some e \<Rightarrow> errIs e ErrLeaseLost)
      then observe r ((ses_observation s)\<lparr>obs_Code := ''lease_lost''\<rparr>) else ret ());
     ret (map_option (\<lambda>e. Wrapped '''' [Sent ErrRunCleanup, e]) released)
   }"

text \<open>
  The frame of every operation: acquire, work, finish on every path; the error of the
  cleanup joins the error of the work, a result is kept.
\<close>

definition inSession ::
    "('w, 't, 'a, 'e) DurableRunner \<Rightarrow> string \<Rightarrow> 'b \<Rightarrow> (ExecutionLease \<Rightarrow> ('w session, 'b \<times> err option) state)
     \<Rightarrow> ('w session, 'b \<times> err option) state" where
  "inSession r execution zero m = do {
     acquired \<leftarrow> acquireSession r execution;
     case acquired of
       Inl e \<Rightarrow> ret (zero, Some e)
     | Inr lease \<Rightarrow> do {
         (result, e) \<leftarrow> m lease;
         cleanup \<leftarrow> finishSession r lease;
         ret (result, errJoin [e, cleanup]) } }"

definition orNothing :: "'b \<Rightarrow> 'b res \<Rightarrow> 'b \<times> err option" where
  "orNothing zero r = (case r of Inl e \<Rightarrow> (zero, Some e) | Inr x \<Rightarrow> (x, None))"

text \<open>\<open>restoreExecutionTelemetry\<close>: the restored context carries telemetry only; the session observes the envelope.\<close>

definition restoreExecutionTelemetry :: "('w, 't, 'a, 'e) DurableRunner \<Rightarrow> ExecutionLease \<Rightarrow> ExecutionEnvelope \<Rightarrow> ('w session, unit) state" where
  "restoreExecutionTelemetry r lease source = attachSessionObservation (leased r lease) source"

section \<open>Admission\<close>

definition validatePointer :: "('w, 't, 'a, 'e) DurableRunner \<Rightarrow> string \<Rightarrow> err option" where
  "validatePointer r pointer = reject (lookup (gph_nodes (drn_graph r)) pointer = None) ErrResumeStartNodeNotFound"

definition validateTargetCodecs :: "('w, 't, 'a, 'e) DurableRunner \<Rightarrow> ExecutionEnvelope \<Rightarrow> err option" where
  "validateTargetCodecs r e =
    (case srz_Unmarshal (drn_stateCodec r) (prg_StatePayload (env_Progress e)) of
       Inl x \<Rightarrow> Some (Wrapped ''target state'' [x])
     | Inr _ \<Rightarrow>
         (case srz_Unmarshal (drn_effectsCodec r) (env_EffectsPayload e) of
            Inl x \<Rightarrow> Some (Wrapped ''target effects'' [x])
          | Inr _ \<Rightarrow> None))"

text \<open>Whether the runner, its options and its backend have exactly the given profile.\<close>

definition hasProfile :: "('w, 't, 'a, 'e) DurableRunner \<Rightarrow> WaitCapabilityProfile \<Rightarrow> ('w session, bool) state" where
  "hasProfile r profile =
    (case drn_waitBackend r of
       None \<Rightarrow> ret False
     | Some backend \<Rightarrow>
         if dop_WaitProfile (drn_options r) \<noteq> Some profile then ret False
         else do { capabilities \<leftarrow> host (wbk_WaitCapabilities backend); ret (capabilities = profile) })"

definition checkRuntimeProfile :: "('w, 't, 'a, 'e) DurableRunner \<Rightarrow> WaitCapabilityProfile option \<Rightarrow> ('w session, err option) state" where
  "checkRuntimeProfile r profile =
    (case profile of
       None \<Rightarrow> ret None
     | Some p \<Rightarrow> do { ok \<leftarrow> hasProfile r p; ret (reject (\<not> ok) ErrExecutionCapability) })"

definition armedWaitCompatible :: "('w, 't, 'a, 'e) DurableRunner \<Rightarrow> DurableWaitRecord \<Rightarrow> ('w session, err option) state" where
  "armedWaitCompatible r record =
    (if wrc_State record \<noteq> WaitArmed then ret None
     else do {
       ok \<leftarrow> hasProfile r (wrc_Profile record);
       ret (if \<not> ok then Some (Sent ErrExecutionCapability)
         else reject (validatePointer r (wsp_EventPointer (wrc_Spec record)) \<noteq> None
           \<or> validatePointer r (wsp_TimeoutPointer (wrc_Spec record)) \<noteq> None) ErrExecutionIncompatible) })"

primrec armedWaits_loop :: "('w, 't, 'a, 'e) DurableRunner \<Rightarrow> durable_waits \<Rightarrow> ('w session, err option) state" where
  "armedWaits_loop r [] = ret None"
| "armedWaits_loop r (w # waits) = do {
     e \<leftarrow> armedWaitCompatible r (snd w);
     case e of Some x \<Rightarrow> ret (Some x) | None \<Rightarrow> armedWaits_loop r waits }"

definition checkArmedWaitCompatibility :: "('w, 't, 'a, 'e) DurableRunner \<Rightarrow> ExecutionEnvelope \<Rightarrow> ('w session, err option) state" where
  "checkArmedWaitCompatibility r e = do {
     profileErr \<leftarrow> checkRuntimeProfile r (env_RuntimeProfile e);
     case profileErr of
       Some x \<Rightarrow> ret (Some x)
     | None \<Rightarrow>
         (case executionWaits (drn_sha r) e of
            Inl x \<Rightarrow> ret (Some x)
          | Inr waits \<Rightarrow> armedWaits_loop r waits) }"

definition checkForkPolicy :: "('w, 't, 'a, 'e) DurableRunner \<Rightarrow> ForkLineage option \<Rightarrow> ('w session, err option) state" where
  "checkForkPolicy r lineage =
    (case lineage of
       None \<Rightarrow> ret None
     | Some l \<Rightarrow>
         (case ForkLineage_Validate l of
            Some e \<Rightarrow> ret (Some e)
          | None \<Rightarrow>
              (case dop_ForkPolicy (drn_options r) of
                 None \<Rightarrow> ret (Some (Sent ErrForkPolicy))
               | Some policy \<Rightarrow>
                   if fxp_Label policy \<noteq> fkl_PolicyLabel l \<or> fxp_Mode policy \<noteq> fkl_Mode l then ret (Some (Sent ErrForkPolicy))
                   else if fkl_Mode l = ForkFake then ret (reject (fxp_FakeActivity policy = None) ErrForkPolicy)
                   else case fxp_Authorize policy of
                     None \<Rightarrow> ret (Some (Sent ErrForkPolicy))
                   | Some authorize \<Rightarrow> do {
                       denied \<leftarrow> authorize l;
                       case denied of
                         Some e \<Rightarrow> ret (errJoin [Some (Sent ErrForkPolicy), Some e])
                       | None \<Rightarrow> host (hst_cause (drn_host r)) })))"

section \<open>Preparing a run\<close>

text \<open>\<open>newRunMetadata\<close> on the wall clock of the host, with the telemetry of the context.\<close>

definition wallSegmentInfo :: "('w, 't, 'a, 'e) DurableRunner \<Rightarrow> ('w session, SegmentInfo) state" where
  "wallSegmentInfo r = do {
     now \<leftarrow> host (hst_wallNow (drn_host r));
     ret \<lparr>seg_SegmentID = ''seg-'' @ formatInt (unixNano now), seg_StartTime = now, seg_EndTime = 0, seg_EndReason = SegmentEndOther ''''\<rparr> }"

definition wallRunMetadata :: "('w, 't, 'a, 'e) DurableRunner \<Rightarrow> ('w session, RunMetadata) state" where
  "wallRunMetadata r = do {
     now \<leftarrow> host (hst_wallNow (drn_host r));
     seg \<leftarrow> wallSegmentInfo r;
     ret \<lparr>rmd_Segment = seg, rmd_SegmentStartTime = now, rmd_RetryCounts = [], rmd_BudgetCounts = [], rmd_StepCount = 0,
       rmd_TelemetryContext = [], rmd_HandoffStatus = HandoffStatusNone, rmd_HandoffPendingAt = 0\<rparr> }"

text \<open>An envelope at its creation: everything but the given fields is zero.\<close>

definition freshEnvelope ::
    "('w, 't, 'a, 'e) DurableRunner \<Rightarrow> string \<Rightarrow> ExecutionProgress \<Rightarrow> string \<Rightarrow> RunMetadata \<Rightarrow> ExecutionEnvelope" where
  "freshEnvelope r execution progress effects meta =
    \<lparr>env_ExecutionID = execution, env_Revision = 0, env_Digest = '''', env_Descriptor = drn_descriptor r,
     env_RuntimeProfile = dop_WaitProfile (drn_options r), env_Progress = progress, env_EffectsPayload = effects,
     env_JournalPayload = NoBytes, env_ChildrenPayload = NoBytes, env_WaitsPayload = NoBytes, env_RunMeta = meta,
     env_Activation = 1, env_Terminal = None, env_Migration = None, env_Import = None, env_Rollover = None,
     env_Transfer = None, env_Fork = None\<rparr>"

definition prepareStart :: "('w, 't, 'a, 'e) DurableRunner \<Rightarrow> ExecutionLease \<Rightarrow> 't \<Rightarrow> ('w session, ExecutionEnvelope res) state" where
  "prepareStart r lease initial = do {
     loaded \<leftarrow> host (sto_LoadExecution (drn_store r) (lse_ExecutionID lease));
     case loaded of
       Inr _ \<Rightarrow> ret (Err ErrConcurrencyConflict)
     | Inl e \<Rightarrow>
         if \<not> errIs e ErrThreadNotFound then ret (Inl e)
         else attempt (ret (srz_Marshal (drn_stateCodec r) initial)) (\<lambda>st.
           attempt (ret (srz_Marshal (drn_effectsCodec r) [])) (\<lambda>effects.
             alive r (do {
               meta \<leftarrow> wallRunMetadata r;
               telemetry \<leftarrow> host (hst_capture (drn_host r));
               commitExecution (leased r lease) 0 (freshEnvelope r (lse_ExecutionID lease)
                 \<lparr>prg_StatePayload = st, prg_ExecutionPointer = gph_entryPoint (drn_graph r), prg_ChildCursors = [],
                  prg_JournalReferences = [], prg_ChildGroupReferences = []\<rparr>
                 effects (meta\<lparr>rmd_TelemetryContext := telemetry\<rparr>)) }))) }"

definition migratedTarget :: "('w, 't, 'a, 'e) DurableRunner \<Rightarrow> ExecutionEnvelope \<Rightarrow> ExecutionEnvelope res" where
  "migratedTarget r source =
    (case PrepareExecutionMigration (drn_sha r) (drn_enc r) source (drn_descriptor r) (dop_Migrations (drn_options r)) (Some (validatePointer r)) of
       Inl e \<Rightarrow> Inl (Wrapped '''' [Sent ErrExecutionIncompatible, e])
     | Inr target \<Rightarrow>
         (case validateExecutionCollections (drn_sha r) target of
            Some e \<Rightarrow> Inl (Wrapped '''' [Sent ErrMigrationInvalid, e])
          | None \<Rightarrow>
              (case validateTargetCodecs r target of
                 Some e \<Rightarrow> Inl (Wrapped '''' [Sent ErrMigrationInvalid, e])
               | None \<Rightarrow> Ok target)))"

text \<open>The observation after a commit and after a failure, with the deferred event of the code.\<close>

definition concluded :: "LifecycleObservation \<Rightarrow> uint64 res \<Rightarrow> LifecycleObservation" where
  "concluded event r = (case r of
     Inl _ \<Rightarrow> event\<lparr>obs_Stage := LifecycleFailed\<rparr>
   | Inr revision \<Rightarrow> event\<lparr>obs_Stage := LifecycleCommitted, obs_Revision := revision\<rparr>)"

definition committedRevision :: "ExecutionEnvelope res \<Rightarrow> uint64 res" where
  "committedRevision r = res_bind r (\<lambda>e. Ok (env_Revision e))"

definition prepareMigratedTarget ::
    "('w, 't, 'a, 'e) DurableRunner \<Rightarrow> ExecutionLease \<Rightarrow> ExecutionEnvelope \<Rightarrow> ('w session, ExecutionEnvelope res) state" where
  "prepareMigratedTarget r lease source = do {
     restoreExecutionTelemetry r lease source;
     let event = executionObservation source LifecycleMigration LifecycleStarted;
     observe r event;
     committed \<leftarrow> attempt (ret (migratedTarget r source)) (\<lambda>target.
       alive r (commitExecution (leased r lease) (env_Revision source) target));
     observe r (concluded event (committedRevision committed));
     ret committed }"

text \<open>What a head must pass before the host codecs see it.\<close>

definition sourceError :: "('w, 't, 'a, 'e) DurableRunner \<Rightarrow> ResumeToken \<Rightarrow> ExecutionEnvelope \<Rightarrow> err option" where
  "sourceError r token source =
    orElse (ValidateExecutionIntegrity (drn_sha r) (drn_enc r) source (tok_ThreadID token) (env_Revision source))
    (orElse (reject (tok_SnapshotRevision token = 0 \<or> env_Revision source \<noteq> tok_SnapshotRevision token) ErrConcurrencyConflict)
      (validateExecutionCollections (drn_sha r) source))"

definition prepareResume ::
    "('w, 't, 'a, 'e) DurableRunner \<Rightarrow> ExecutionLease \<Rightarrow> ResumeToken \<Rightarrow> ('w session, ExecutionEnvelope res) state" where
  "prepareResume r lease token =
    attempt (host (sto_LoadExecution (drn_store r) (tok_ThreadID token))) (\<lambda>source.
      alive r (passing (sourceError r token source) (do {
        waitErr \<leftarrow> checkArmedWaitCompatibility r source;
        passing waitErr (passing (validateExecutionSourceMetadata (drn_sha r) source) (do {
          policyErr \<leftarrow> checkForkPolicy r (env_Fork source);
          passing policyErr
            (case ExecutionDescriptor_Check (env_Descriptor source) (drn_descriptor r) of
               Some e \<Rightarrow>
                 if ExecutionDescriptor_Validate (env_Descriptor source) \<noteq> None then ret (Inl e)
                 else prepareMigratedTarget r lease source
             | None \<Rightarrow> passing (validatePointer r (env_Pointer source)) (ret (Ok source))) })) })))"

section \<open>Deliveries to waits\<close>

text \<open>\<open>Match\<close> and \<open>Apply\<close> are calls of the host, \<open>None\<close> when nil.\<close>

record ('w, 't) WaitDeliveryContract =
  wct_MatcherLabel :: string
  wct_PayloadCodec :: string
  wct_ContinuationLabel :: string
  wct_Match :: "(string \<Rightarrow> ('w, bool res) state) option"
  wct_Apply :: "('t \<Rightarrow> WaitDelivery \<Rightarrow> ('w, 't res) state) option"

record WaitDeliveryResult =
  wdr_Decision :: WaitDecision
  wdr_ResumeToken :: ResumeToken
  wdr_Replay :: bool

abbreviation noDelivery :: WaitDeliveryResult where
  "noDelivery \<equiv> \<lparr>wdr_Decision = noDecision, wdr_ResumeToken = noToken, wdr_Replay = False\<rparr>"

definition contractError :: "('w, 't) WaitDeliveryContract \<Rightarrow> DurableWaitSpec \<Rightarrow> err option" where
  "contractError contract spec = reject (wct_MatcherLabel contract \<noteq> wsp_MatcherLabel spec
     \<or> wct_PayloadCodec contract \<noteq> wsp_PayloadCodec spec \<or> wct_ContinuationLabel contract \<noteq> wsp_ContinuationLabel spec)
     ErrExecutionIncompatible"

definition waitDecisionText :: "WaitDecisionStatus \<Rightarrow> string" where
  "waitDecisionText status = (case status of
     WaitAccepted \<Rightarrow> ''accepted'' | WaitUnmatched \<Rightarrow> ''unmatched'' | WaitLost \<Rightarrow> ''lost''
   | WaitRejectedCanceled \<Rightarrow> ''canceled'' | WaitDecisionStatusOther s \<Rightarrow> s)"

definition loadedWaitSource ::
    "('w, 't, 'a, 'e) DurableRunner \<Rightarrow> string \<Rightarrow> ExecutionEnvelope res \<Rightarrow> (ExecutionEnvelope \<times> durable_waits) res" where
  "loadedWaitSource r execution loaded =
    (case loaded of
       Inl e \<Rightarrow> if errIs e ErrThreadNotFound then Err ErrWaitNotArmed else Inl e
     | Inr source \<Rightarrow>
         check (ValidateExecutionIntegrity (drn_sha r) (drn_enc r) source execution (env_Revision source))
           (res_bind (validateExecutionCollectionsWithWaits (drn_sha r) source) (\<lambda>waits.
             check (validateExecutionSourceMetadata (drn_sha r) source) (Ok (source, waits)))))"

definition waitTargetError :: "('w, 't, 'a, 'e) DurableRunner \<Rightarrow> ExecutionEnvelope \<Rightarrow> DurableWaitRecord \<Rightarrow> err option" where
  "waitTargetError r source record =
    orElse (ExecutionDescriptor_Check (env_Descriptor source) (drn_descriptor r))
    (orElse (reject (validatePointer r (env_Pointer source) \<noteq> None) ErrExecutionIncompatible)
      (reject (validatePointer r (wsp_EventPointer (wrc_Spec record)) \<noteq> None
        \<or> validatePointer r (wsp_TimeoutPointer (wrc_Spec record)) \<noteq> None) ErrExecutionIncompatible))"

definition waitDeliverySource ::
    "('w, 't, 'a, 'e) DurableRunner \<Rightarrow> string \<Rightarrow> string \<Rightarrow> ('w session, (ExecutionEnvelope \<times> durable_waits) res) state" where
  "waitDeliverySource r execution generation = do {
     loaded \<leftarrow> host (sto_LoadExecution (drn_store r) execution);
     attempt (ret (loadedWaitSource r execution loaded)) (\<lambda>(source, waits). do {
       profileErr \<leftarrow> checkRuntimeProfile r (env_RuntimeProfile source);
       passing profileErr (attempt (ret (findWaitGeneration waits generation)) (\<lambda>(_, record). do {
         ok \<leftarrow> hasProfile r (wrc_Profile record);
         passing (reject (\<not> ok) ErrExecutionCapability)
           (passing (waitTargetError r source record) (ret (Ok (source, waits)))) })) }) }"

definition prepareWaitDelivery ::
    "('w, 't, 'a, 'e) DurableRunner \<Rightarrow> ExecutionLease \<Rightarrow> ExecutionEnvelope \<Rightarrow> DurableWaitRecord \<Rightarrow> WaitDelivery
     \<Rightarrow> ('w, 't) WaitDeliveryContract \<Rightarrow> ('w session, (DurableWaitRecord \<times> WaitDecision \<times> bool) res) state" where
  "prepareWaitDelivery r lease source record delivery contract = do {
     now \<leftarrow> host (drn_clock r);
     let decide = prepareWaitDecision (drn_sha r) record delivery (env_Revision source) (lse_Incarnation lease) now;
     attempt (ret (decide False)) (\<lambda>(target, decision, replay).
       if replay \<or> wrc_State record \<noteq> WaitArmed \<or> wdl_Kind delivery \<noteq> WaitEvent then ret (Ok (target, decision, replay))
       else case wct_Match contract of
         None \<Rightarrow> ret (Err ErrWaitInvalid)
       | Some match \<Rightarrow> alive r (attempt (host (match (wdl_Payload delivery))) (\<lambda>matched.
           alive r (ret (decide matched))))) }"

definition applyWaitContinuation ::
    "('w, 't, 'a, 'e) DurableRunner \<Rightarrow> ExecutionEnvelope \<Rightarrow> DurableWaitSpec \<Rightarrow> WaitDelivery \<Rightarrow> ('w, 't) WaitDeliveryContract
     \<Rightarrow> ('w session, ExecutionEnvelope res) state" where
  "applyWaitContinuation r target spec delivery contract =
    (case wct_Apply contract of
       None \<Rightarrow> ret (Err ErrWaitInvalid)
     | Some apply \<Rightarrow>
         if env_Activation target = - 1 then ret (Err ErrWaitInvalid)
         else alive r (attempt (ret (srz_Unmarshal (drn_stateCodec r) (prg_StatePayload (env_Progress target)))) (\<lambda>st.
           alive r (attempt (host (apply st delivery)) (\<lambda>st'.
             alive r (attempt (ret (srz_Marshal (drn_stateCodec r) st')) (\<lambda>encoded.
               ret (Ok (target\<lparr>env_Progress := (env_Progress target)\<lparr>prg_StatePayload := encoded,
                   prg_ExecutionPointer := (if wdl_Kind delivery = WaitTimer then wsp_TimeoutPointer spec else wsp_EventPointer spec),
                   prg_JournalReferences := [], prg_ChildGroupReferences := []\<rparr>,
                 env_Activation := env_Activation target + 1\<rparr>)))))))))"

text \<open>The write of a new decision: the winner also moves the execution to its continuation.\<close>

definition commitWaitDecision ::
    "('w, 't, 'a, 'e) DurableRunner \<Rightarrow> ExecutionLease \<Rightarrow> ExecutionEnvelope \<Rightarrow> durable_waits \<Rightarrow> string \<Rightarrow> DurableWaitRecord
     \<Rightarrow> DurableWaitRecord \<Rightarrow> WaitDecision \<Rightarrow> WaitDelivery \<Rightarrow> ('w, 't) WaitDeliveryContract \<Rightarrow> ('w session, ExecutionEnvelope res) state" where
  "commitWaitDecision r lease source waits identity record targetRecord decision delivery contract =
    attempt (if wdc_Status decision = WaitAccepted then applyWaitContinuation r source (wrc_Spec record) delivery contract
             else ret (Ok source)) (\<lambda>target.
      attempt (ret (marshalWaits (put identity targetRecord waits))) (\<lambda>payload.
        alive r (commitExecution (leased r lease) (env_Revision source) (target\<lparr>env_WaitsPayload := payload\<rparr>))))"

definition deliverAdmitted ::
    "('w, 't, 'a, 'e) DurableRunner \<Rightarrow> string \<Rightarrow> WaitDelivery \<Rightarrow> ('w, 't) WaitDeliveryContract \<Rightarrow> ExecutionLease \<Rightarrow> ExecutionEnvelope \<Rightarrow> durable_waits
     \<Rightarrow> ('w session, WaitDeliveryResult res) state" where
  "deliverAdmitted r execution delivery contract lease source waits = do {
      restoreExecutionTelemetry r lease source;
      let event = waitObservation source LifecycleWaitDelivery (wdl_Generation delivery) (wdl_ID delivery);
      observe r event;
      prepared \<leftarrow> attempt (ret (findWaitGeneration waits (wdl_Generation delivery))) (\<lambda>(identity, record).
        passing (contractError contract (wrc_Spec record))
          (attempt (prepareWaitDelivery r lease source record delivery contract) (\<lambda>p. ret (Ok (identity, record, p)))));
      case prepared of
        Inl e \<Rightarrow> do { observe r (event\<lparr>obs_Stage := LifecycleFailed\<rparr>); ret (Inl e) }
      | Inr (identity, record, targetRecord, decision, replay) \<Rightarrow> do {
          let event' = event\<lparr>obs_Code := ''wait_'' @ waitDecisionText (wdc_Status decision)\<rparr>;
          if replay then do {
            observe r (event'\<lparr>obs_Stage := LifecycleReplayed, obs_Revision := env_Revision source\<rparr>);
            ret (Ok \<lparr>wdr_Decision = decision, wdr_ResumeToken = tokenAt execution (env_Revision source), wdr_Replay = True\<rparr>) }
          else do {
            committed \<leftarrow> commitWaitDecision r lease source waits identity record targetRecord decision delivery contract;
            observe r (concluded event' (committedRevision committed));
            ret (res_bind committed (\<lambda>e. Ok \<lparr>wdr_Decision = decision, wdr_ResumeToken = tokenAt execution (env_Revision e), wdr_Replay = False\<rparr>)) } } }"

definition deliverInSession ::
    "('w, 't, 'a, 'e) DurableRunner \<Rightarrow> string \<Rightarrow> WaitDelivery \<Rightarrow> ('w, 't) WaitDeliveryContract \<Rightarrow> ExecutionLease
     \<Rightarrow> ('w session, WaitDeliveryResult res) state" where
  "deliverInSession r execution delivery contract lease =
    attempt (waitDeliverySource r execution (wdl_Generation delivery)) (\<lambda>(source, waits).
      deliverAdmitted r execution delivery contract lease source waits)"

definition DeliverWait ::
    "('w, 't, 'a, 'e) DurableRunner \<Rightarrow> string \<Rightarrow> WaitDelivery \<Rightarrow> ('w, 't) WaitDeliveryContract
     \<Rightarrow> ('w session, WaitDeliveryResult \<times> err option) state" where
  "DeliverWait r execution delivery contract =
    (if execution = '''' \<or> wdl_Generation delivery = '''' \<or> wdl_ID delivery = ''''
        \<or> \<not> validRuntimeText [execution, wdl_Generation delivery, wdl_ID delivery, wdl_CorrelationID delivery]
     then ret (noDelivery, Some (Sent ErrWaitInvalid))
     else do {
       early \<leftarrow> waitDeliverySource r execution (wdl_Generation delivery);
       case early of
         Inl e \<Rightarrow> ret (noDelivery, Some e)
       | Inr _ \<Rightarrow> inSession r execution noDelivery (\<lambda>lease. do {
           result \<leftarrow> deliverInSession r execution delivery contract lease;
           ret (orNothing noDelivery result) }) })"

section \<open>Cancellation of waits\<close>

definition canceledTarget ::
    "WaitCancellation \<Rightarrow> gotime \<Rightarrow> durable_waits payload \<Rightarrow> ExecutionEnvelope \<Rightarrow> ExecutionEnvelope" where
  "canceledTarget request now payload source =
    source\<lparr>env_WaitsPayload := payload,
      env_Terminal := Some \<lparr>trm_Status = RunStatusFailed, trm_Reason = durableWaitCanceledReason,
        trm_Failure = Some \<lparr>efl_Message = durableWaitCanceledReason @ '': '' @ wcr_Reason request\<rparr>\<rparr>,
      env_RunMeta := endSegment SegmentEndFail now (env_RunMeta source)\<rparr>"

definition cancelArmedWait ::
    "('w, 't, 'a, 'e) DurableRunner \<Rightarrow> ExecutionLease \<Rightarrow> ExecutionEnvelope \<Rightarrow> durable_waits \<Rightarrow> string \<Rightarrow> DurableWaitRecord
     \<Rightarrow> WaitCancellation \<Rightarrow> ('w session, ExecutionEnvelope res) state" where
  "cancelArmedWait r lease source waits identity record request = do {
     now \<leftarrow> host (drn_clock r);
     passing (reject (IsZero now) ErrWaitInvalid)
       (attempt (ret (marshalWaits (put identity
           (cancelWaitRecord request (env_Revision source) (lse_Incarnation lease) now record) waits))) (\<lambda>payload. do {
         ended \<leftarrow> host (hst_wallNow (drn_host r));
         alive r (commitExecution (leased r lease) (env_Revision source) (canceledTarget request ended payload source)) })) }"

definition cancelAdmitted ::
    "('w, 't, 'a, 'e) DurableRunner \<Rightarrow> ResumeToken \<Rightarrow> WaitCancellation \<Rightarrow> ExecutionLease \<Rightarrow> ExecutionEnvelope \<Rightarrow> durable_waits
     \<Rightarrow> ('w session, ResumeToken res) state" where
  "cancelAdmitted r token request lease source waits = do {
      restoreExecutionTelemetry r lease source;
      let event = waitObservation source LifecycleWaitCancel (wcr_Generation request) (wcr_ID request);
      observe r event;
      case res_bind (findWaitGeneration waits (wcr_Generation request)) (\<lambda>(identity, record).
          check (validateWaitCancellationRequest (env_Revision source) (env_Terminal source \<noteq> None) record (tok_SnapshotRevision token) request)
            (Ok (identity, record))) of
        Inl e \<Rightarrow> do { observe r (event\<lparr>obs_Stage := LifecycleFailed\<rparr>); ret (Inl e) }
      | Inr (identity, record) \<Rightarrow> do {
          let event' = event\<lparr>obs_Code := ''wait_canceled''\<rparr>;
          if wrc_State record = WaitCanceled then do {
            observe r (event'\<lparr>obs_Stage := LifecycleReplayed, obs_Revision := env_Revision source\<rparr>);
            ret (Ok (tokenAt (tok_ThreadID token) (env_Revision source))) }
          else do {
            committed \<leftarrow> cancelArmedWait r lease source waits identity record request;
            observe r (concluded event' (committedRevision committed));
            ret (res_bind committed (\<lambda>e. Ok (tokenAt (tok_ThreadID token) (env_Revision e)))) } } }"

definition cancelInSession ::
    "('w, 't, 'a, 'e) DurableRunner \<Rightarrow> ResumeToken \<Rightarrow> WaitCancellation \<Rightarrow> ExecutionLease \<Rightarrow> ('w session, ResumeToken res) state" where
  "cancelInSession r token request lease =
    attempt (waitDeliverySource r (tok_ThreadID token) (wcr_Generation request)) (\<lambda>(source, waits).
      cancelAdmitted r token request lease source waits)"

definition CancelWait ::
    "('w, 't, 'a, 'e) DurableRunner \<Rightarrow> ResumeToken \<Rightarrow> WaitCancellation \<Rightarrow> ('w session, ResumeToken \<times> err option) state" where
  "CancelWait r token request =
    (if tok_ThreadID token = '''' \<or> tok_SnapshotRevision token = 0 \<or> wcr_Generation request = '''' \<or> wcr_ID request = ''''
        \<or> \<not> validRuntimeText [tok_ThreadID token, wcr_Generation request, wcr_ID request, wcr_Reason request, wcr_Evidence request]
        \<or> wcr_Reason request = '''' \<or> wcr_Evidence request = ''''
     then ret (noToken, Some (Sent ErrWaitInvalid))
     else do {
       early \<leftarrow> waitDeliverySource r (tok_ThreadID token) (wcr_Generation request);
       case early of
         Inl e \<Rightarrow> ret (noToken, Some e)
       | Inr _ \<Rightarrow> inSession r (tok_ThreadID token) noToken (\<lambda>lease. do {
           result \<leftarrow> cancelInSession r token request lease;
           ret (orNothing noToken result) }) })"

section \<open>Decisions on activities\<close>

definition resolutionActivityRecord ::
    "sha256 \<Rightarrow> ExecutionEnvelope \<Rightarrow> ActivityResolution \<Rightarrow> (activity_journal \<times> ActivityRecord) res" where
  "resolutionActivityRecord sha source rsn =
    res_bind (executionActivityJournal sha source) (\<lambda>journal.
      case lookup journal (rsn_Identity rsn) of
        None \<Rightarrow> Err ErrActivityConflict
      | Some record \<Rightarrow>
          if rec_Identity record \<noteq> boundActivityIdentity sha source (rec_Key record) \<or> rec_InputDigest record \<noteq> rsn_InputDigest rsn
             \<or> rec_Implementation record \<noteq> rsn_Implementation rsn \<or> rec_Attempts record = []
             \<or> list_ex (\<lambda>prior. res_DecisionID prior = rsn_DecisionID rsn) (rec_Resolutions record)
             \<or> rec_State record \<noteq> ActivityUnknown \<and> rec_State record \<noteq> ActivityRunning
          then Err ErrActivityConflict else Ok (journal, record))"

definition prepareActivityResolutionTarget ::
    "('w, 't, 'a, 'e) DurableRunner \<Rightarrow> ExecutionEnvelope \<Rightarrow> ExecutionLease \<Rightarrow> activity_journal \<Rightarrow> ActivityRecord \<Rightarrow> ActivityResolution
     \<Rightarrow> ('w session, (ExecutionEnvelope \<times> ActivityState) res) state" where
  "prepareActivityResolutionTarget r source lease journal record rsn = do {
     now \<leftarrow> host (drn_clock r);
     sample \<leftarrow> host (dop_RetryRandom (drn_options r));
     ret (res_bind (resolveActivityRecord (env_Revision source) (lse_Incarnation lease) now sample rsn record) (\<lambda>record'.
       res_bind (marshalJournal (put (rec_Identity record') record' journal)) (\<lambda>payload.
         Ok (source\<lparr>env_JournalPayload := payload\<rparr>, rec_State record')))) }"

definition observeCommittedRetry ::
    "('w, 't, 'a, 'e) DurableRunner \<Rightarrow> LifecycleObservation \<Rightarrow> ActivityState \<Rightarrow> ('w session, unit) state" where
  "observeCommittedRetry r event st =
    (if st \<noteq> ActivityPrepared \<or> obs_Stage event \<noteq> LifecycleCommitted then ret ()
     else observe r (event\<lparr>obs_Operation := LifecycleRetry\<rparr>))"

definition resolutionSourceError :: "('w, 't, 'a, 'e) DurableRunner \<Rightarrow> ResumeToken \<Rightarrow> ExecutionEnvelope \<Rightarrow> err option" where
  "resolutionSourceError r token source =
    orElse (sourceError r token source)
    (orElse (ExecutionDescriptor_Check (env_Descriptor source) (drn_descriptor r))
    (orElse (reject (env_Terminal source \<noteq> None) ErrActivityConflict)
    (orElse (validatePointer r (env_Pointer source))
      (reject (case env_Import source of None \<Rightarrow> False
         | Some i \<Rightarrow> ipr_ImporterID i = '''' \<or> LegacyExecutionSource_Validate (drn_sha r) (ipr_Source i) \<noteq> None) ErrExecutionImportInvalid))))"

text \<open>
  The retry event is observed inside the function, the deferred event of the decision
  after it; both carry the committed revision.
\<close>

definition observeResolution ::
    "('w, 't, 'a, 'e) DurableRunner \<Rightarrow> LifecycleObservation \<Rightarrow> (ExecutionEnvelope \<times> ActivityState) res \<Rightarrow> ('w session, unit) state" where
  "observeResolution r event committed =
    (case committed of
       Inl e \<Rightarrow> observe r (event\<lparr>obs_Stage := LifecycleFailed\<rparr>)
     | Inr (e, resolvedState) \<Rightarrow> do {
         let event' = event\<lparr>obs_Stage := LifecycleCommitted, obs_Revision := env_Revision e, obs_Code := activityObservationCode resolvedState\<rparr>;
         observeCommittedRetry r event' resolvedState;
         observe r event' })"

definition resolveAdmitted ::
    "('w, 't, 'a, 'e) DurableRunner \<Rightarrow> ResumeToken \<Rightarrow> ActivityResolution \<Rightarrow> ExecutionLease \<Rightarrow> ExecutionEnvelope \<Rightarrow> activity_journal \<Rightarrow> ActivityRecord
     \<Rightarrow> ('w session, ResumeToken res) state" where
  "resolveAdmitted r token rsn lease source journal record = do {
          restoreExecutionTelemetry r lease source;
          let event = (executionObservation source LifecycleReconcile LifecycleStarted)
            \<lparr>obs_ActivityID := rec_Identity record, obs_Attempt := attempts_len record, obs_DecisionID := rsn_DecisionID rsn\<rparr>;
          observe r event;
          prepared \<leftarrow> prepareActivityResolutionTarget r source lease journal record rsn;
          committed \<leftarrow> attempt (ret prepared) (\<lambda>(target, resolvedState).
            alive r (attempt (commitExecution (leased r lease) (env_Revision source) target) (\<lambda>e. ret (Ok (e, resolvedState)))));
          observeResolution r event committed;
          ret (res_bind committed (\<lambda>x. Ok (tokenAt (tok_ThreadID token) (env_Revision (fst x))))) }"

definition resolveInSession ::
    "('w, 't, 'a, 'e) DurableRunner \<Rightarrow> ResumeToken \<Rightarrow> ActivityResolution \<Rightarrow> ExecutionLease \<Rightarrow> ('w session, ResumeToken res) state" where
  "resolveInSession r token rsn lease =
    attempt (host (sto_LoadExecution (drn_store r) (tok_ThreadID token))) (\<lambda>source.
      passing (resolutionSourceError r token source)
        (attempt (ret (resolutionActivityRecord (drn_sha r) source rsn)) (\<lambda>(journal, record).
          resolveAdmitted r token rsn lease source journal record)))"

definition ResolveActivity ::
    "('w, 't, 'a, 'e) DurableRunner \<Rightarrow> ResumeToken \<Rightarrow> ActivityResolution \<Rightarrow> ('w session, ResumeToken \<times> err option) state" where
  "ResolveActivity r token rsn =
    (if rsn_Identity rsn = '''' \<or> rsn_InputDigest rsn = '''' \<or> rsn_Implementation rsn = ''''
        \<or> \<not> validRuntimeText [rsn_Identity rsn, rsn_InputDigest rsn, rsn_Implementation rsn, rsn_DecisionID rsn, rsn_Reason rsn,
             rsn_Evidence rsn, rsn_SafeRetryContract rsn]
        \<or> rsn_DecisionID rsn = '''' \<or> rsn_Reason rsn = '''' \<or> rsn_Evidence rsn = ''''
     then ret (noToken, Some (Sent ErrActivityConflict))
     else inSession r (tok_ThreadID token) noToken (\<lambda>lease. do {
       result \<leftarrow> resolveInSession r token rsn lease;
       ret (orNothing noToken result) }))"

section \<open>Inspection\<close>

definition headError :: "('w, 't, 'a, 'e) DurableRunner \<Rightarrow> ExecutionEnvelope \<Rightarrow> err option" where
  "headError r e =
    orElse (ExecutionDescriptor_Validate (env_Descriptor e))
    (orElse (validateExecutionCollections (drn_sha r) e) (validateExecutionSourceMetadata (drn_sha r) e))"

definition InspectExecutionCheckpoint ::
    "('w, 't, 'a, 'e) DurableRunner \<Rightarrow> HistoricalCheckpointReference \<Rightarrow> ('w session, ExecutionEnvelope res) state" where
  "InspectExecutionCheckpoint r source =
    passing (HistoricalCheckpointReference_Validate source)
      (case sto_LoadCheckpoint (drn_store r) of
         None \<Rightarrow> ret (Err (Also ErrExecutionHistoryUnsupported))
       | Some load \<Rightarrow> do {
           loaded \<leftarrow> host (load (hcr_ExecutionID source) (hcr_Revision source));
           case loaded of
             Inl e \<Rightarrow> ret (Inl (if errIs e ErrThreadNotFound then Wrapped '''' [Sent ErrExecutionCheckpointUnavailable, e] else e))
           | Inr e \<Rightarrow>
               passing (ValidateExecutionIntegrity (drn_sha r) (drn_enc r) e (hcr_ExecutionID source) (hcr_Revision source))
                 (passing (reject (env_Digest e \<noteq> hcr_Digest source) ErrExecutionSourceDigest)
                   (passing (headError r e) (ret (Ok e)))) })"

definition InspectExecutionResume :: "('w, 't, 'a, 'e) DurableRunner \<Rightarrow> string \<Rightarrow> ('w session, ResumeToken res) state" where
  "InspectExecutionResume r execution =
    (if execution = '''' \<or> \<not> validRuntimeText [execution] then ret (Err ErrInvalidResumeToken)
     else attempt (host (sto_LoadExecution (drn_store r) execution)) (\<lambda>e.
       passing (ValidateExecutionIntegrity (drn_sha r) (drn_enc r) e execution (env_Revision e))
         (passing (headError r e) (ret (Ok (tokenAt (env_ExecutionID e) (env_Revision e)))))))"

section \<open>Forks\<close>

record ForkTransform =
  ftr_Label :: string
  ftr_Source :: ExecutionDescriptor
  ftr_Transform :: "(ExecutionProgress \<Rightarrow> ExecutionProgress res) option"

record ForkProjection =
  fpj_Label :: string
  fpj_Project :: "(ExecutionProgress \<Rightarrow> ExecutionProgress res) option"

record ForkRequest =
  frq_Source :: HistoricalCheckpointReference
  frq_TargetID :: string
  frq_Mode :: ForkActivityMode
  frq_PolicyLabel :: string
  frq_Transform :: ForkTransform
  frq_Projection :: "ForkProjection option"

definition forkTargetAbsent :: "('w, 't, 'a, 'e) DurableRunner \<Rightarrow> string \<Rightarrow> ('w session, err option) state" where
  "forkTargetAbsent r execution = do {
     loaded \<leftarrow> host (sto_LoadExecution (drn_store r) execution);
     ret (case loaded of
         Inl e \<Rightarrow> if errIs e ErrThreadNotFound then None else Some e
       | Inr _ \<Rightarrow> Some (Sent (Also ErrForkTargetConflict))) }"

definition prepareForkLineage ::
    "('w, 't, 'a, 'e) DurableRunner \<Rightarrow> ExecutionEnvelope \<Rightarrow> ForkRequest \<Rightarrow> ('w session, ForkLineage res) state" where
  "prepareForkLineage r source request =
    (let mode = (if frq_Mode request = ForkActivityModeOther '''' then ForkFake else frq_Mode request);
         label = (if frq_PolicyLabel request = '''' \<and> mode = ForkFake then ''fake'' else frq_PolicyLabel request) in
     if (case frq_Projection request of None \<Rightarrow> False | Some p \<Rightarrow> fpj_Label p = '''' \<or> fpj_Project p = None) then ret (Err ErrForkPolicy)
     else do {
       now \<leftarrow> host (drn_clock r);
       let lineage = \<lparr>fkl_Source = frq_Source request, fkl_SourceDescriptor = env_Descriptor source, fkl_TargetDescriptor = drn_descriptor r,
         fkl_TargetID = frq_TargetID request, fkl_Mode = mode, fkl_PolicyLabel = label, fkl_TransformLabel = ftr_Label (frq_Transform request),
         fkl_ProjectionLabel = (case frq_Projection request of None \<Rightarrow> '''' | Some p \<Rightarrow> fpj_Label p),
         fkl_CreatedAt = now, fkl_CreatedUTC = True\<rparr>;
       passing (ForkLineage_Validate lineage)
         (if ftr_Transform (frq_Transform request) = None \<or> ExecutionDescriptor_Check (ftr_Source (frq_Transform request)) (env_Descriptor source) \<noteq> None
          then ret (Err ErrExecutionIncompatible)
          else passing (forkSourceSettled (drn_sha r) source) (do {
            denied \<leftarrow> (if mode = ForkLive \<or> dop_ForkPolicy (drn_options r) \<noteq> None then checkForkPolicy r (Some lineage) else ret None);
            passing denied (ret (Ok lineage)) })) })"

definition projectedProgress :: "ForkRequest \<Rightarrow> ExecutionProgress \<Rightarrow> ExecutionProgress res" where
  "projectedProgress request progress =
    (case (case ftr_Transform (frq_Transform request) of None \<Rightarrow> Ok progress | Some f \<Rightarrow> f progress) of
       Inl e \<Rightarrow> Inl (Wrapped '''' [Sent (Also ErrForkTransform), e])
     | Inr transformed \<Rightarrow>
         (case Option.bind (frq_Projection request) fpj_Project of
            None \<Rightarrow> Ok transformed
          | Some project \<Rightarrow>
              (case project transformed of
                 Inl e \<Rightarrow> Inl (Wrapped '''' [Sent (Also ErrForkTransform), e])
               | Inr projected \<Rightarrow> Ok projected)))"

definition transformForkProgress ::
    "('w, 't, 'a, 'e) DurableRunner \<Rightarrow> ExecutionEnvelope \<Rightarrow> ForkRequest \<Rightarrow> ('w session, ExecutionProgress res) state" where
  "transformForkProgress r source request =
    alive r (attempt (ret (projectedProgress request (env_Progress source))) (\<lambda>projected.
      let progress = projected\<lparr>prg_ChildCursors := [], prg_JournalReferences := [], prg_ChildGroupReferences := []\<rparr> in
      passing (map_option (\<lambda>e. Wrapped '''' [Sent ErrExecutionIncompatible, e]) (validatePointer r (prg_ExecutionPointer progress)))
        (alive r (case srz_Unmarshal (drn_stateCodec r) (prg_StatePayload progress) of
            Inl e \<Rightarrow> ret (Inl (Wrapped '''' [Sent ErrExecutionIncompatible, e]))
          | Inr _ \<Rightarrow> ret (Ok progress)))))"

definition forkInSession ::
    "('w, 't, 'a, 'e) DurableRunner \<Rightarrow> ExecutionEnvelope \<Rightarrow> ForkRequest \<Rightarrow> ForkLineage \<Rightarrow> ExecutionLease \<Rightarrow> ('w session, ExecutionEnvelope res) state" where
  "forkInSession r source request lineage lease = do {
     taken \<leftarrow> forkTargetAbsent r (frq_TargetID request);
     passing taken (attempt (transformForkProgress r source request) (\<lambda>progress.
       case srz_Marshal (drn_effectsCodec r) [] of
         Inl e \<Rightarrow> ret (Inl (Wrapped '''' [Sent ErrExecutionIncompatible, e]))
       | Inr effects \<Rightarrow> alive r (do {
           meta \<leftarrow> wallRunMetadata r;
           telemetry \<leftarrow> host (hst_capture (drn_host r));
           commitExecution (leased r lease) 0 ((freshEnvelope r (frq_TargetID request) progress effects
             (meta\<lparr>rmd_TelemetryContext := telemetry\<rparr>))\<lparr>env_Fork := Some lineage\<rparr>) }))) }"

definition Fork :: "('w, 't, 'a, 'e) DurableRunner \<Rightarrow> ForkRequest \<Rightarrow> ('w session, ResumeToken \<times> err option) state" where
  "Fork r request = do {
     inspected \<leftarrow> InspectExecutionCheckpoint r (frq_Source request);
     case inspected of
       Inl e \<Rightarrow> ret (noToken, Some e)
     | Inr source \<Rightarrow> do {
         let event = (executionObservation source LifecycleFork LifecycleStarted)
           \<lparr>obs_SourceExecutionID := env_ExecutionID source, obs_ExecutionID := frq_TargetID request, obs_TargetExecutionID := frq_TargetID request\<rparr>;
         observe r event;
         prepared \<leftarrow> attempt (prepareForkLineage r source request) (\<lambda>lineage. do {
           profileErr \<leftarrow> checkRuntimeProfile r (dop_WaitProfile (drn_options r));
           passing profileErr (do { taken \<leftarrow> forkTargetAbsent r (frq_TargetID request); passing taken (ret (Ok lineage)) }) });
         case prepared of
           Inl e \<Rightarrow> do { observe r (event\<lparr>obs_Stage := LifecycleFailed\<rparr>); ret (noToken, Some e) }
         | Inr lineage \<Rightarrow> do {
             (committed, e) \<leftarrow> inSession r (frq_TargetID request) None (\<lambda>lease. do {
               result \<leftarrow> attempt (forkInSession r source request lineage lease) (\<lambda>x. ret (Ok (Some x)));
               ret (orNothing None result) });
             observe r (case committed of
                 None \<Rightarrow> event\<lparr>obs_Stage := LifecycleFailed\<rparr>
               | Some x \<Rightarrow> event\<lparr>obs_Stage := LifecycleCommitted, obs_Revision := env_Revision x, obs_TargetRevision := env_Revision x\<rparr>);
             ret (case committed of None \<Rightarrow> noToken | Some x \<Rightarrow> tokenAt (frq_TargetID request) (env_Revision x), e) } } }"

section \<open>Rollovers\<close>

record RolloverPayload =
  rpl_Progress :: ExecutionProgress
  rpl_EffectsPayload :: string

record RolloverRequest =
  rrq_SourceDescriptor :: ExecutionDescriptor
  rrq_DecisionID :: string
  rrq_TargetID :: string
  rrq_Policy :: RolloverPolicy
  rrq_ProjectionLabel :: string
  rrq_Project :: "(RolloverPayload \<Rightarrow> RolloverPayload res) option"

definition replayRollover ::
    "('w, 't, 'a, 'e) DurableRunner \<Rightarrow> ResumeToken \<Rightarrow> RolloverRequest \<Rightarrow> RolloverReceipt \<Rightarrow> ResumeToken res" where
  "replayRollover r token request prior =
    (if RolloverReceipt_Validate (drn_sha r) prior \<noteq> None then Err ErrExecutionCorrupt
     else if hcr_Revision (rll_Source (rrc_Lineage prior)) \<noteq> tok_SnapshotRevision token
       \<or> rolloverRequestDigest (drn_sha r) (rll_Source (rrc_Lineage prior)) (rrq_SourceDescriptor request) (drn_descriptor r)
           (rrq_TargetID request) (rrq_DecisionID request) (rrq_Policy request) (rrq_ProjectionLabel request)
         \<noteq> rll_RequestDigest (rrc_Lineage prior)
     then Err ErrExecutionRolloverConflict
     else Ok (tokenAt (hcr_ExecutionID (rrc_Target prior)) (hcr_Revision (rrc_Target prior))))"

definition rolloverTarget ::
    "('w, 't, 'a, 'e) DurableRunner \<Rightarrow> ExecutionEnvelope \<Rightarrow> RolloverRequest \<Rightarrow> RolloverPayload \<Rightarrow> HistoricalCheckpointReference
     \<Rightarrow> ('w session, ExecutionEnvelope) state" where
  "rolloverTarget r source request payload reference = do {
     now \<leftarrow> host (drn_clock r);
     meta \<leftarrow> wallRunMetadata r;
     ret ((freshEnvelope r (rrq_TargetID request) (rpl_Progress payload) (rpl_EffectsPayload payload)
         (meta\<lparr>rmd_StepCount := 0, rmd_RetryCounts := rmd_RetryCounts (env_RunMeta source),
            rmd_BudgetCounts := rmd_BudgetCounts (env_RunMeta source), rmd_TelemetryContext := rmd_TelemetryContext (env_RunMeta source)\<rparr>))
       \<lparr>env_Rollover := Some \<lparr>rll_Source = reference, rll_SourceDescriptor = env_Descriptor source, rll_TargetDescriptor = drn_descriptor r,
          rll_TargetID = rrq_TargetID request, rll_DecisionID = rrq_DecisionID request, rll_Policy = rrq_Policy request,
          rll_ProjectionLabel = rrq_ProjectionLabel request,
          rll_RequestDigest = rolloverRequestDigest (drn_sha r) reference (env_Descriptor source) (drn_descriptor r)
            (rrq_TargetID request) (rrq_DecisionID request) (rrq_Policy request) (rrq_ProjectionLabel request),
          rll_CreatedAt = now, rll_CreatedUTC = True\<rparr>\<rparr>) }"

definition prepareRolloverTarget ::
    "('w, 't, 'a, 'e) DurableRunner \<Rightarrow> ExecutionEnvelope \<Rightarrow> RolloverRequest \<Rightarrow> (RolloverPayload \<Rightarrow> RolloverPayload res)
     \<Rightarrow> ('w session, (HistoricalCheckpointReference \<times> ExecutionEnvelope) res) state" where
  "prepareRolloverTarget r source request project =
    (case project \<lparr>rpl_Progress = env_Progress source, rpl_EffectsPayload = env_EffectsPayload source\<rparr> of
       Inl e \<Rightarrow> ret (Inl (Wrapped '''' [Sent ErrExecutionLifecycleUnsafe, e]))
     | Inr payload \<Rightarrow>
         if prg_ChildCursors (rpl_Progress payload) \<noteq> [] \<or> prg_JournalReferences (rpl_Progress payload) \<noteq> []
            \<or> prg_ChildGroupReferences (rpl_Progress payload) \<noteq> [] then ret (Err ErrExecutionLifecycleUnsafe)
         else passing (validatePointer r (prg_ExecutionPointer (rpl_Progress payload))) (do {
           let reference = \<lparr>hcr_ExecutionID = env_ExecutionID source, hcr_Revision = env_Revision source, hcr_Digest = env_Digest source\<rparr>;
           target \<leftarrow> rolloverTarget r source request payload reference;
           ret (case validateTargetCodecs r target of
               Some e \<Rightarrow> Inl (Wrapped '''' [Sent ErrExecutionIncompatible, e])
             | None \<Rightarrow> Ok (reference, target)) }))"

definition rolloverSourceError ::
    "('w, 't, 'a, 'e) DurableRunner \<Rightarrow> ResumeToken \<Rightarrow> RolloverRequest \<Rightarrow> ExecutionEnvelope \<Rightarrow> err option" where
  "rolloverSourceError r token request source =
    orElse (reject (env_Revision source \<noteq> tok_SnapshotRevision token) ErrConcurrencyConflict)
    (orElse (ValidateExecutionIntegrity (drn_sha r) (drn_enc r) source (tok_ThreadID token) (tok_SnapshotRevision token))
    (orElse (ExecutionDescriptor_Check (env_Descriptor source) (rrq_SourceDescriptor request))
    (orElse (validateRolloverSource (drn_sha r) (drn_enc r) source)
      (validateRolloverRecordLimit (drn_sha r) (drn_enc r) source (rrq_Policy request)))))"

definition rolloverOperationObservation :: "ResumeToken \<Rightarrow> RolloverRequest \<Rightarrow> LifecycleObservation" where
  "rolloverOperationObservation token request =
    (lifecycleObservation LifecycleRollover LifecycleFailed (tok_ThreadID token) '''')
      \<lparr>obs_SourceExecutionID := tok_ThreadID token, obs_SourceRevision := tok_SnapshotRevision token,
       obs_TargetExecutionID := rrq_TargetID request, obs_DecisionID := rrq_DecisionID request\<rparr>"

definition rolloverReplayObservation :: "LifecycleObservation \<Rightarrow> RolloverReceipt \<Rightarrow> err option \<Rightarrow> LifecycleObservation" where
  "rolloverReplayObservation event receipt e =
    (if e = None then event\<lparr>obs_Stage := LifecycleReplayed, obs_Revision := rrc_SourceRevision receipt,
       obs_TargetRevision := hcr_Revision (rrc_Target receipt)\<rparr> else event)"

text \<open>\<open>session.noteLeaseFailure\<close> after \<open>CommitRollover\<close>.\<close>

definition publishRollover ::
    "('w, 't, 'a, 'e) DurableRunner \<Rightarrow> 'w ExecutionRolloverStore \<Rightarrow> ExecutionLease \<Rightarrow> HistoricalCheckpointReference \<Rightarrow> ExecutionEnvelope
     \<Rightarrow> ('w session, RolloverReceipt res) state" where
  "publishRollover r store lease reference target = do {
     published \<leftarrow> host (rvs_CommitRollover store lease reference target);
     (case published of Inl e \<Rightarrow> noteSessionLeaseFailure e | Inr _ \<Rightarrow> ret ());
     ret (res_bind published (\<lambda>receipt. check (RolloverReceipt_Validate (drn_sha r) receipt) (Ok receipt))) }"

definition rolloverInSession ::
    "('w, 't, 'a, 'e) DurableRunner \<Rightarrow> 'w ExecutionRolloverStore \<Rightarrow> ResumeToken \<Rightarrow> RolloverRequest
     \<Rightarrow> (RolloverPayload \<Rightarrow> RolloverPayload res) \<Rightarrow> ExecutionLease \<Rightarrow> ('w session, ResumeToken res) state" where
  "rolloverInSession r store token request project lease = do {
     let event = rolloverOperationObservation token request;
     loaded \<leftarrow> host (rvs_LoadRollover store (tok_ThreadID token));
     case loaded of
       Inl e \<Rightarrow> do { observe r event; ret (Inl e) }
     | Inr (Some prior) \<Rightarrow> do {
         let replayed = replayRollover r token request prior;
         observe r (rolloverReplayObservation event prior (errOf replayed));
         ret replayed }
     | Inr None \<Rightarrow> do {
         head \<leftarrow> host (sto_LoadExecution (drn_store r) (tok_ThreadID token));
         case res_bind head (\<lambda>source. check (rolloverSourceError r token request source) (Ok source)) of
           Inl e \<Rightarrow> do { observe r event; ret (Inl e) }
         | Inr source \<Rightarrow> do {
             restoreExecutionTelemetry r lease source;
             let event' = event\<lparr>obs_Node := env_Pointer source, obs_SegmentID := seg_SegmentID (rmd_Segment (env_RunMeta source))\<rparr>;
             observe r (event'\<lparr>obs_Stage := LifecycleStarted\<rparr>);
             published \<leftarrow> attempt (prepareRolloverTarget r source request project) (\<lambda>(reference, target).
               alive r (publishRollover r store lease reference target));
             observe r (case published of
                 Inl _ \<Rightarrow> event'
               | Inr receipt \<Rightarrow> event'\<lparr>obs_Stage := LifecycleCommitted, obs_Revision := rrc_SourceRevision receipt,
                   obs_TargetRevision := hcr_Revision (rrc_Target receipt)\<rparr>);
             ret (res_bind published (\<lambda>receipt. Ok (tokenAt (hcr_ExecutionID (rrc_Target receipt)) (hcr_Revision (rrc_Target receipt))))) } } }"

definition Rollover ::
    "('w, 't, 'a, 'e) DurableRunner \<Rightarrow> ResumeToken \<Rightarrow> RolloverRequest \<Rightarrow> ('w session, ResumeToken \<times> err option) state" where
  "Rollover r token request =
    (case sto_rollover (drn_store r) of
       None \<Rightarrow> ret (noToken, Some (Sent (Also ErrExecutionLifecycleUnsupported)))
     | Some store \<Rightarrow>
         (case rrq_Project request of
            None \<Rightarrow> ret (noToken, Some (Sent ErrExecutionRolloverConflict))
          | Some project \<Rightarrow>
              if tok_ThreadID token = '''' \<or> tok_SnapshotRevision token = 0 \<or> rrq_TargetID request = ''''
                 \<or> rrq_TargetID request = tok_ThreadID token \<or> rrq_DecisionID request = '''' \<or> rrq_ProjectionLabel request = ''''
                 \<or> \<not> validRuntimeText [tok_ThreadID token, rrq_TargetID request, rrq_DecisionID request, rrq_ProjectionLabel request]
                 \<or> RolloverPolicy_Validate (rrq_Policy request) \<noteq> None \<or> ExecutionDescriptor_Validate (rrq_SourceDescriptor request) \<noteq> None
              then ret (noToken, Some (Sent ErrExecutionRolloverConflict))
              else inSession r (tok_ThreadID token) noToken (\<lambda>lease. do {
                result \<leftarrow> rolloverInSession r store token request project lease;
                ret (orNothing noToken result) })))"

section \<open>Imports\<close>

record ImportedExecutionState =
  ies_Progress :: ExecutionProgress
  ies_EffectsPayload :: string
  ies_RunMeta :: RunMetadata

record ExecutionImporter =
  imp_ID :: string
  imp_Format :: string
  imp_Transform :: "(string \<Rightarrow> ImportedExecutionState res) option"

abbreviation importInvalid :: "string \<Rightarrow> err \<Rightarrow> err" where
  "importInvalid what e \<equiv> Wrapped what [Sent ErrExecutionImportInvalid, e]"

definition importedStateError :: "('w, 't, 'a, 'e) DurableRunner \<Rightarrow> ImportedExecutionState \<Rightarrow> err option" where
  "importedStateError r st =
    (case validatePointer r (prg_ExecutionPointer (ies_Progress st)) of
       Some e \<Rightarrow> Some (importInvalid '''' e)
     | None \<Rightarrow>
         (case srz_Unmarshal (drn_stateCodec r) (prg_StatePayload (ies_Progress st)) of
            Inl e \<Rightarrow> Some (importInvalid ''target state'' e)
          | Inr _ \<Rightarrow>
              (case srz_Unmarshal (drn_effectsCodec r) (ies_EffectsPayload st) of
                 Inl e \<Rightarrow> Some (importInvalid ''target effects'' e)
               | Inr _ \<Rightarrow> None)))"

definition importedEnvelope ::
    "('w, 't, 'a, 'e) DurableRunner \<Rightarrow> string \<Rightarrow> LegacyExecutionSource \<Rightarrow> string \<Rightarrow> ImportedExecutionState \<Rightarrow> ExecutionEnvelope" where
  "importedEnvelope r execution source importer st =
    (freshEnvelope r execution (ies_Progress st) (ies_EffectsPayload st) (ies_RunMeta st))
      \<lparr>env_Import := Some \<lparr>ipr_Source = source, ipr_ImporterID = importer\<rparr>\<rparr>"

definition importInSession ::
    "('w, 't, 'a, 'e) DurableRunner \<Rightarrow> string \<Rightarrow> LegacyExecutionSource \<Rightarrow> string \<Rightarrow> (string \<Rightarrow> ImportedExecutionState res)
     \<Rightarrow> ExecutionLease \<Rightarrow> ('w session, ResumeToken res) state" where
  "importInSession r execution source importer transform lease = do {
     loaded \<leftarrow> host (sto_LoadExecution (drn_store r) execution);
     case loaded of
       Inr _ \<Rightarrow> ret (Err ErrConcurrencyConflict)
     | Inl x \<Rightarrow>
         if \<not> errIs x ErrThreadNotFound then ret (Inl x)
         else alive r (do {
           let event = (lifecycleObservation LifecycleImport LifecycleStarted execution '''')
             \<lparr>obs_SourceExecutionID := les_ID source, obs_SourceRevision := les_Revision source, obs_TargetExecutionID := execution\<rparr>;
           observe r event;
           committed \<leftarrow> (case transform (les_Payload source) of
               Inl e \<Rightarrow> ret (Inl (importInvalid '''' e))
             | Inr st \<Rightarrow> alive r (passing (importedStateError r st) (alive r (
                 let target = importedEnvelope r execution source importer st in
                 passing (map_option (importInvalid '''') (validateExecutionCollections (drn_sha r) target))
                   (passing (map_option (importInvalid '''') (validateExecutionSourceMetadata (drn_sha r) target))
                     (commitExecution (leased r lease) 0 target))))));
           observe r (case committed of
               Inl _ \<Rightarrow> event\<lparr>obs_Stage := LifecycleFailed\<rparr>
             | Inr e \<Rightarrow> event\<lparr>obs_Stage := LifecycleCommitted, obs_Revision := env_Revision e, obs_TargetRevision := env_Revision e\<rparr>);
           ret (res_bind committed (\<lambda>e. Ok (tokenAt execution (env_Revision e)))) }) }"

definition Import ::
    "('w, 't, 'a, 'e) DurableRunner \<Rightarrow> string \<Rightarrow> LegacyExecutionSource \<Rightarrow> ExecutionImporter \<Rightarrow> ('w session, ResumeToken \<times> err option) state" where
  "Import r execution source importer =
    (case imp_Transform importer of
       None \<Rightarrow> ret (noToken, Some (Sent ErrExecutionImportInvalid))
     | Some transform \<Rightarrow>
         if imp_ID importer = '''' \<or> imp_Format importer \<noteq> les_Format source \<or> \<not> validRuntimeText [imp_ID importer]
         then ret (noToken, Some (Sent ErrExecutionImportInvalid))
         else case LegacyExecutionSource_Validate (drn_sha r) source of
           Some e \<Rightarrow> ret (noToken, Some e)
         | None \<Rightarrow> do {
             profileErr \<leftarrow> checkRuntimeProfile r (dop_WaitProfile (drn_options r));
             case profileErr of
               Some e \<Rightarrow> ret (noToken, Some e)
             | None \<Rightarrow> inSession r execution noToken (\<lambda>lease. do {
                 result \<leftarrow> importInSession r execution source (imp_ID importer) transform lease;
                 ret (orNothing noToken result) }) })"

end
