(* ===== verification/Child_Decisions.thy ===== *)
theory Child_Decisions
  imports Durable_Session
begin

text \<open>
  Decisions of the host on a child of a stored execution, without running a node: a
  confirmed cancellation (child\_cancel\_confirmation.go), a resolved wait
  (child\_wait.go) and a resolved unknown outcome (child\_outcome\_resolution.go). The
  changes of the child's record are those of the theory on child groups; here is the
  session around them, from the admission of the source to the commit. The deferred
  observation of the decision comes before the session finishes.
\<close>

section \<open>The source of a decision\<close>

definition childMutationError :: "('w, 't, 'a, 'e) DurableRunner \<Rightarrow> ResumeToken \<Rightarrow> ExecutionEnvelope \<Rightarrow> err option" where
  "childMutationError r token source =
    orElse (sourceError r token source)
    (orElse (ExecutionDescriptor_Check (env_Descriptor source) (drn_descriptor r))
    (orElse (reject (env_Terminal source \<noteq> None) (Also ErrChildRevision))
    (orElse (validatePointer r (env_Pointer source))
      (reject (case env_Import source of None \<Rightarrow> False
         | Some i \<Rightarrow> ipr_ImporterID i = '''' \<or> LegacyExecutionSource_Validate (drn_sha r) (ipr_Source i) \<noteq> None) ErrExecutionImportInvalid))))"

definition childMutationSource ::
    "('w, 't, 'a, 'e) DurableRunner \<Rightarrow> ResumeToken \<Rightarrow> ('w session, ExecutionEnvelope res) state" where
  "childMutationSource r token =
    attempt (host (sto_LoadExecution (drn_store r) (tok_ThreadID token))) (\<lambda>source.
      passing (childMutationError r token source) (ret (Ok source)))"

text \<open>The group a decision addresses, in the loaded groups: it is bound to the source, not joined, and admissible.\<close>

definition decisionGroup ::
    "sha256 \<Rightarrow> ExecutionEnvelope \<Rightarrow> string \<Rightarrow> (ChildGroupRecord \<Rightarrow> bool) \<Rightarrow> (child_groups \<times> ChildGroupRecord) res" where
  "decisionGroup sha source identity admissible =
    res_bind (executionChildGroups sha source) (\<lambda>groups.
      case lookup groups identity of
        None \<Rightarrow> Err (Also ErrChildRevision)
      | Some grp \<Rightarrow>
          if \<not> currentChildGroup sha source grp \<or> grp_MergedIDs grp \<noteq> [] \<or> \<not> admissible grp then Err (Also ErrChildRevision)
          else Ok (groups, grp))"

definition decisionObservation ::
    "ExecutionEnvelope \<Rightarrow> LifecycleOperation \<Rightarrow> string \<Rightarrow> string \<Rightarrow> string \<Rightarrow> string \<Rightarrow> string \<Rightarrow> LifecycleObservation" where
  "decisionObservation source operation identity node childID executionID decisionID =
    (childObservation source operation identity childID)
      \<lparr>obs_Stage := LifecycleStarted, obs_ChildExecutionID := executionID, obs_DecisionID := decisionID, obs_Node := node\<rparr>"

definition commitChildGroups ::
    "('w, 't, 'a, 'e) DurableRunner \<Rightarrow> ExecutionLease \<Rightarrow> ExecutionEnvelope \<Rightarrow> child_groups \<Rightarrow> ('w session, ExecutionEnvelope res) state" where
  "commitChildGroups r lease source groups =
    attempt (ret (marshalGroups groups)) (\<lambda>payload.
      alive r (commitExecution (leased r lease) (env_Revision source) (source\<lparr>env_ChildrenPayload := payload\<rparr>)))"

section \<open>Confirmed cancellations\<close>

definition confirmGroups ::
    "('w, 't, 'a, 'e) DurableRunner \<Rightarrow> ChildCancelConfirmation \<Rightarrow> ExecutionLease \<Rightarrow> ExecutionEnvelope \<Rightarrow> string
     \<Rightarrow> ('w session, child_groups res) state" where
  "confirmGroups r decision lease source identity =
    attempt (ret (decisionGroup (drn_sha r) source identity
        (\<lambda>grp. case grp_CancelRequest grp of None \<Rightarrow> False | Some request \<Rightarrow> ccr_ID request = cnf_RequestID decision))) (\<lambda>(groups, grp). do {
      now \<leftarrow> host (drn_clock r);
      ret (res_bind (applyChildCancelConfirmation grp decision (env_Revision source) (lse_Incarnation lease) now) (\<lambda>grp'.
        Ok (put identity grp' groups))) })"

definition confirmAdmitted ::
    "('w, 't, 'a, 'e) DurableRunner \<Rightarrow> ResumeToken \<Rightarrow> ChildCancelConfirmation \<Rightarrow> ExecutionLease \<Rightarrow> ExecutionEnvelope
     \<Rightarrow> ('w session, ResumeToken res) state" where
  "confirmAdmitted r token decision lease source = do {
     restoreExecutionTelemetry r lease source;
     let identity = childExecutionIdentity (drn_sha r) (env_ExecutionID source) (cnf_Node decision) (cnf_Activation decision) (cnf_GroupKey decision) '''';
     let event = decisionObservation source LifecycleChildCancel identity (cnf_Node decision) (cnf_ChildID decision) (cnf_ExecutionID decision)
       (cnf_DecisionID decision);
     observe r event;
     prepared \<leftarrow> confirmGroups r decision lease source identity;
     case prepared of
       Inl e \<Rightarrow> do { observe r (event\<lparr>obs_Stage := LifecycleFailed\<rparr>); ret (Inl e) }
     | Inr groups \<Rightarrow> do {
         committed \<leftarrow> commitChildGroups r lease source groups;
         observe r (concluded (event\<lparr>obs_Code := ''child_canceled''\<rparr>) (committedRevision committed));
         ret (res_bind committed (\<lambda>e. Ok (tokenAt (tok_ThreadID token) (env_Revision e)))) } }"

definition ConfirmChildCancellation ::
    "('w, 't, 'a, 'e) DurableRunner \<Rightarrow> ResumeToken \<Rightarrow> ChildCancelConfirmation \<Rightarrow> ('w session, ResumeToken \<times> err option) state" where
  "ConfirmChildCancellation r token decision =
    (if cnf_Node decision = '''' \<or> cnf_Activation decision = 0 \<or> cnf_GroupKey decision = '''' \<or> cnf_ChildID decision = ''''
        \<or> \<not> validRuntimeText [cnf_Node decision, cnf_GroupKey decision, cnf_ChildID decision, cnf_ExecutionID decision,
             cnf_RequestID decision, cnf_DecisionID decision, cnf_Reason decision, cnf_Evidence decision]
        \<or> cnf_ExecutionID decision = '''' \<or> cnf_ChildRevision decision = 0 \<or> cnf_RequestID decision = '''' \<or> cnf_DecisionID decision = ''''
        \<or> cnf_Reason decision = '''' \<or> cnf_Evidence decision = ''''
     then ret (noToken, Some (Sent (Also ErrChildInvalid)))
     else inSession r (tok_ThreadID token) noToken (\<lambda>lease. do {
       result \<leftarrow> attempt (childMutationSource r token) (\<lambda>source.
         passing (reject (env_Activation source \<noteq> cnf_Activation decision) (Also ErrChildRevision))
           (confirmAdmitted r token decision lease source));
       ret (orNothing noToken result) }))"

section \<open>Resolved waits\<close>

definition resolveWaitGroups ::
    "('w, 't, 'a, 'e) DurableRunner \<Rightarrow> ChildWaitResolution \<Rightarrow> ExecutionLease \<Rightarrow> ExecutionEnvelope \<Rightarrow> string
     \<Rightarrow> ('w session, child_groups res) state" where
  "resolveWaitGroups r resolution lease source identity =
    attempt (ret (decisionGroup (drn_sha r) source identity (\<lambda>_. True))) (\<lambda>(groups, grp). do {
      now \<leftarrow> host (drn_clock r);
      ret (res_bind (applyChildWaitResolution grp resolution (env_Revision source) (lse_Incarnation lease) now) (\<lambda>grp'.
        Ok (put identity grp' groups))) })"

definition resolvedWaitObservation :: "LifecycleObservation \<Rightarrow> ChildState \<Rightarrow> ExecutionEnvelope res \<Rightarrow> LifecycleObservation" where
  "resolvedWaitObservation event outcome committed =
    (case committed of
       Inl _ \<Rightarrow> event\<lparr>obs_Stage := LifecycleFailed\<rparr>
     | Inr e \<Rightarrow> event\<lparr>obs_Stage := LifecycleCommitted, obs_Revision := env_Revision e, obs_Code := childObservationCode outcome\<rparr>)"

definition resolveWaitAdmitted ::
    "('w, 't, 'a, 'e) DurableRunner \<Rightarrow> ResumeToken \<Rightarrow> ChildWaitResolution \<Rightarrow> ExecutionLease \<Rightarrow> ExecutionEnvelope
     \<Rightarrow> ('w session, ResumeToken res) state" where
  "resolveWaitAdmitted r token resolution lease source = do {
     restoreExecutionTelemetry r lease source;
     let identity = childExecutionIdentity (drn_sha r) (env_ExecutionID source) (wrs_Node resolution) (wrs_Activation resolution) (wrs_GroupKey resolution) '''';
     let event = decisionObservation source LifecycleChildResolve identity (wrs_Node resolution) (wrs_ChildID resolution) (wrs_ExecutionID resolution)
       (wrs_DecisionID resolution);
     observe r event;
     prepared \<leftarrow> resolveWaitGroups r resolution lease source identity;
     committed \<leftarrow> attempt (ret prepared) (commitChildGroups r lease source);
     observe r (resolvedWaitObservation event (chr_State (wrs_Result resolution)) committed);
     ret (res_bind committed (\<lambda>e. Ok (tokenAt (tok_ThreadID token) (env_Revision e)))) }"

definition ResolveChildWait ::
    "('w, 't, 'a, 'e) DurableRunner \<Rightarrow> ResumeToken \<Rightarrow> ChildWaitResolution \<Rightarrow> ('w session, ResumeToken \<times> err option) state" where
  "ResolveChildWait r token resolution =
    (if wrs_Node resolution = '''' \<or> wrs_Activation resolution = 0 \<or> wrs_GroupKey resolution = '''' \<or> wrs_ChildID resolution = ''''
        \<or> \<not> validRuntimeText [wrs_Node resolution, wrs_GroupKey resolution, wrs_ChildID resolution, wrs_ExecutionID resolution,
             wrs_WaitID resolution, wrs_DecisionID resolution, chr_Error (wrs_Result resolution)]
        \<or> wrs_ExecutionID resolution = '''' \<or> wrs_ChildRevision resolution = 0 \<or> wrs_WaitID resolution = '''' \<or> wrs_DecisionID resolution = ''''
        \<or> (chr_State (wrs_Result resolution) \<noteq> ChildCompleted \<and> chr_State (wrs_Result resolution) \<noteq> ChildFailed)
        \<or> chr_WaitID (wrs_Result resolution) \<noteq> ''''
     then ret (noToken, Some (Sent (Also ErrChildInvalid)))
     else inSession r (tok_ThreadID token) noToken (\<lambda>lease. do {
       result \<leftarrow> attempt (childMutationSource r token) (\<lambda>source.
         passing (reject (env_Activation source \<noteq> wrs_Activation resolution) (Also ErrChildRevision))
           (resolveWaitAdmitted r token resolution lease source));
       ret (orNothing noToken result) }))"

section \<open>Resolved outcomes\<close>

text \<open>\<open>None\<close> is the replay of a decision that is already committed.\<close>

definition resolveOutcomeGroups ::
    "('w, 't, 'a, 'e) DurableRunner \<Rightarrow> ChildOutcomeResolution \<Rightarrow> ExecutionLease \<Rightarrow> ExecutionEnvelope \<Rightarrow> string
     \<Rightarrow> ('w session, child_groups option res) state" where
  "resolveOutcomeGroups r resolution lease source identity =
    attempt (ret (decisionGroup (drn_sha r) source identity (\<lambda>grp. pln_Label (grp_Plan grp) = ors_GroupLabel resolution))) (\<lambda>(groups, grp). do {
      now \<leftarrow> host (drn_clock r);
      attempt (ret (applyChildOutcomeResolution (drn_sha r) grp resolution groups (env_Revision source) (lse_Incarnation lease) now)) (\<lambda>changed.
        alive r (ret (Ok (map_option (\<lambda>grp'. put identity grp' groups) changed)))) })"

definition resolveOutcomeAdmitted ::
    "('w, 't, 'a, 'e) DurableRunner \<Rightarrow> ResumeToken \<Rightarrow> ChildOutcomeResolution \<Rightarrow> ExecutionLease \<Rightarrow> ExecutionEnvelope
     \<Rightarrow> ('w session, ResumeToken res) state" where
  "resolveOutcomeAdmitted r token resolution lease source = do {
     restoreExecutionTelemetry r lease source;
     let identity = childExecutionIdentity (drn_sha r) (env_ExecutionID source) (ors_Node resolution) (ors_Activation resolution) (ors_GroupKey resolution) '''';
     let event = decisionObservation source LifecycleChildResolve identity (ors_Node resolution) (ors_ChildID resolution) (ors_ExecutionID resolution)
       (ors_DecisionID resolution);
     observe r event;
     prepared \<leftarrow> resolveOutcomeGroups r resolution lease source identity;
     case prepared of
       Inl e \<Rightarrow> do { observe r (event\<lparr>obs_Stage := LifecycleFailed\<rparr>); ret (Inl e) }
     | Inr changed \<Rightarrow> do {
         let event' = event\<lparr>obs_Code := childObservationCode (chr_State (ors_Result resolution))\<rparr>;
         case changed of
           None \<Rightarrow> do {
             observe r (event'\<lparr>obs_Stage := LifecycleReplayed, obs_Revision := env_Revision source\<rparr>);
             ret (Ok token) }
         | Some groups \<Rightarrow> do {
             committed \<leftarrow> commitChildGroups r lease source groups;
             observe r (concluded event' (committedRevision committed));
             ret (res_bind committed (\<lambda>e. Ok (tokenAt (tok_ThreadID token) (env_Revision e)))) } } }"

definition ResolveChildOutcome ::
    "('w, 't, 'a, 'e) DurableRunner \<Rightarrow> ResumeToken \<Rightarrow> ChildOutcomeResolution \<Rightarrow> ('w session, ResumeToken \<times> err option) state" where
  "ResolveChildOutcome r token resolution =
    (if \<not> validChildOutcomeRequest resolution then ret (noToken, Some (Sent (Also ErrChildInvalid)))
     else inSession r (tok_ThreadID token) noToken (\<lambda>lease. do {
       result \<leftarrow> attempt (childMutationSource r token) (resolveOutcomeAdmitted r token resolution lease);
       ret (orNothing noToken result) }))"

end
