(* ===== verification/Session_Contracts.thy ===== *)
theory Session_Contracts
  imports Child_Decisions
begin

text \<open>
  What the operations of the durable runner do to the store, for every store that keeps
  the contract of execution\_store.go: the locale \<open>execution_heads\<close> states that contract
  over a view of the current envelope of every execution, its lemmas carry it through the
  operations, and the in-memory store of the repository interprets it, as does that store
  behind a connection that loses the acknowledgements of its commits.
\<close>

section \<open>What the operations do to the store\<close>

text \<open>
  \<open>quiet f m\<close> and \<open>still f m\<close>: a computation of the host and one of the session leave
  the part \<open>f\<close> of the world as it is. \<open>hostQuiet\<close>: so do all calls of the runner's host
  other than the store.
\<close>

definition still :: "('w \<Rightarrow> 'k) \<Rightarrow> ('w session, 'a) state \<Rightarrow> bool" where
  "still f m \<longleftrightarrow> (\<forall>s. f (ses_world (snd (run_state m s))) = f (ses_world s))"

definition hostQuiet :: "('w \<Rightarrow> 'k) \<Rightarrow> ('w, 't, 'a, 'e) DurableRunner \<Rightarrow> bool" where
  "hostQuiet f r \<longleftrightarrow> quiet f (hst_cause (drn_host r)) \<and> quiet f (hst_wallNow (drn_host r)) \<and> quiet f (hst_ctxErr (drn_host r))
     \<and> quiet f (hst_capture (drn_host r)) \<and> quiet f (hst_heartbeatLost (drn_host r)) \<and> quiet f (drn_clock r)
     \<and> quiet f (dop_RetryRandom (drn_options r))
     \<and> (\<forall>observer event. hst_observer (drn_host r) = Some observer \<longrightarrow> quiet f (observer event))
     \<and> (\<forall>backend record. drn_waitBackend r = Some backend \<longrightarrow> quiet f (wbk_WaitCapabilities backend) \<and> quiet f (wbk_RegisterWait backend record))
     \<and> (\<forall>policy authorize lineage. dop_ForkPolicy (drn_options r) = Some policy \<longrightarrow> fxp_Authorize policy = Some authorize \<longrightarrow> still f (authorize lineage))"

definition contractQuiet :: "('w \<Rightarrow> 'k) \<Rightarrow> ('w, 't) WaitDeliveryContract \<Rightarrow> bool" where
  "contractQuiet f contract \<longleftrightarrow>
     (\<forall>match payload. wct_Match contract = Some match \<longrightarrow> quiet f (match payload))
     \<and> (\<forall>apply st delivery. wct_Apply contract = Some apply \<longrightarrow> quiet f (apply st delivery))"

lemma still_return: "still f (ret x)"
  by (simp add: still_def)

lemma still_bind: "still f m \<Longrightarrow> (\<And>x. still f (g x)) \<Longrightarrow> still f (State_Monad.bind m g)"
  by (simp add: still_def run_state_bind split_beta)

lemma still_host: "quiet f m \<Longrightarrow> still f (host m)"
  by (simp add: still_def quiet_def)

lemma still_modify: "(\<And>s. ses_world (g s) = ses_world s) \<Longrightarrow> still f (modify g)"
  by (simp add: still_def)

lemma still_get: "still f State_Monad.get"
  by (simp add: still_def State_Monad.get_def)

lemma still_envelope: "still f envelope"
  by (simp add: still_def)

lemma still_if: "(c \<Longrightarrow> still f m) \<Longrightarrow> (\<not> c \<Longrightarrow> still f m') \<Longrightarrow> still f (if c then m else m')"
  by simp

lemma still_option: "(v = None \<Longrightarrow> still f m) \<Longrightarrow> (\<And>x. v = Some x \<Longrightarrow> still f (g x)) \<Longrightarrow> still f (case v of None \<Rightarrow> m | Some x \<Rightarrow> g x)"
  by (cases v) simp_all

lemma still_sum: "(\<And>e. v = Inl e \<Longrightarrow> still f (g e)) \<Longrightarrow> (\<And>x. v = Inr x \<Longrightarrow> still f (g' x)) \<Longrightarrow> still f (case v of Inl e \<Rightarrow> g e | Inr x \<Rightarrow> g' x)"
  by (cases v) simp_all

lemma still_prod: "(\<And>x y. v = (x, y) \<Longrightarrow> still f (g x y)) \<Longrightarrow> still f (case v of (x, y) \<Rightarrow> g x y)"
  by (cases v) simp

lemma still_let: "still f (g v) \<Longrightarrow> still f (Let v g)"
  by simp

lemma still_attempt: "still f m \<Longrightarrow> (\<And>x. still f (g x)) \<Longrightarrow> still f (attempt m g)"
  unfolding attempt_def by (intro still_bind still_sum still_return) auto

lemma still_passing: "(v = None \<Longrightarrow> still f k) \<Longrightarrow> still f (passing v k)"
  unfolding passing_def by (intro still_option still_return)

lemmas still_rules = still_return still_bind still_host still_modify still_get still_envelope still_if still_option still_sum still_prod
  still_let still_attempt still_passing

lemma stillD: "still f m \<Longrightarrow> run_state m s = (x, s') \<Longrightarrow> f (ses_world s') = f (ses_world s)"
  unfolding still_def by (metis snd_conv)

lemma hostQuietD:
  assumes "hostQuiet f r"
  shows "quiet f (hst_cause (drn_host r))" "quiet f (hst_wallNow (drn_host r))" "quiet f (hst_capture (drn_host r))"
    "quiet f (hst_heartbeatLost (drn_host r))" "quiet f (drn_clock r)" "quiet f (dop_RetryRandom (drn_options r))"
    "drn_waitBackend r = Some backend \<Longrightarrow> quiet f (wbk_WaitCapabilities backend)"
  using assms by (auto simp: hostQuiet_def)

lemma still_observe: "hostQuiet f r \<Longrightarrow> still f (observe r event)"
  unfolding observe_def by (intro still_option still_return still_host) (auto simp: hostQuiet_def)

lemma still_alive: "hostQuiet f r \<Longrightarrow> still f k \<Longrightarrow> still f (alive r k)"
  unfolding alive_def by (intro still_bind still_host still_passing hostQuietD(1))

lemma still_attach: "still f (attachSessionObservation c e)"
  unfolding attachSessionObservation_def by (rule still_modify) simp

lemma still_restore: "still f (restoreExecutionTelemetry r lease e)"
  unfolding restoreExecutionTelemetry_def by (rule still_attach)

lemma still_note: "still f (noteSessionLeaseFailure e)"
  unfolding noteSessionLeaseFailure_def by (rule still_modify) simp

lemma still_hasProfile: "hostQuiet f r \<Longrightarrow> still f (hasProfile r p)"
  unfolding hasProfile_def by (intro still_option still_if still_bind still_return still_host) (simp_all add: hostQuietD)

lemma still_checkRuntimeProfile: "hostQuiet f r \<Longrightarrow> still f (checkRuntimeProfile r p)"
  unfolding checkRuntimeProfile_def by (intro still_rules still_hasProfile)

lemma still_armedWaits: "hostQuiet f r \<Longrightarrow> still f (armedWaits_loop r waits)"
  by (induction waits) (auto simp: armedWaitCompatible_def intro!: still_return still_bind still_if still_option still_hasProfile)

lemma still_checkArmedWaitCompatibility: "hostQuiet f r \<Longrightarrow> still f (checkArmedWaitCompatibility r e)"
  unfolding checkArmedWaitCompatibility_def by (intro still_rules still_checkRuntimeProfile still_armedWaits)

lemma still_checkForkPolicy: "hostQuiet f r \<Longrightarrow> still f (checkForkPolicy r lineage)"
  unfolding checkForkPolicy_def
  by (intro still_option still_return still_if still_bind still_host) (auto simp: hostQuiet_def)

lemma still_wallRunMetadata: "hostQuiet f r \<Longrightarrow> still f (wallRunMetadata r)"
  unfolding wallRunMetadata_def wallSegmentInfo_def by (intro still_rules hostQuietD(2))

text \<open>
  The contract of an execution store, over a view \<open>heads\<close> of the current envelope of every
  execution: a load returns the head, a commit with the expected revision replaces the
  head of the leased execution by the sealed target, everything else changes no head. A
  commit that reports an error was refused or has happened all the same: its
  acknowledgement may be lost (docs/child\_outcome\_resolution.md,
  docs/decision-namespaces.md).
\<close>

definition sealedAs :: "ExecutionEnvelope \<Rightarrow> uint64 \<Rightarrow> ExecutionEnvelope \<Rightarrow> bool" where
  "sealedAs e revision e' \<longleftrightarrow> (\<exists>digest. e' = e\<lparr>env_Revision := revision, env_Digest := digest\<rparr>)"

definition succeeds :: "ExecutionEnvelope option \<Rightarrow> uint64 \<Rightarrow> bool" where
  "succeeds previous revision \<longleftrightarrow> (case previous of None \<Rightarrow> revision = 0 | Some e \<Rightarrow> revision \<noteq> 0 \<and> env_Revision e = revision) \<and> revision \<noteq> - 1"

text \<open>
  \<open>Published heads k s e s'\<close>: the head of \<open>k\<close> is \<open>e\<close> now, as the successor of the head
  it had, and no other head moved.
\<close>

definition Published :: "('w \<Rightarrow> string \<Rightarrow> ExecutionEnvelope option) \<Rightarrow> string \<Rightarrow> 'w session \<Rightarrow> ExecutionEnvelope \<Rightarrow> 'w session \<Rightarrow> bool" where
  "Published heads k s e s' \<longleftrightarrow> heads (ses_world s') = (heads (ses_world s))(k \<mapsto> e)
     \<and> env_Revision e = (case heads (ses_world s) k of None \<Rightarrow> 1 | Some old \<Rightarrow> env_Revision old + 1)
     \<and> env_Revision e \<noteq> 0"

definition unmovedHeads :: "('w \<Rightarrow> string \<Rightarrow> ExecutionEnvelope option) \<Rightarrow> 'w session \<Rightarrow> 'w session \<Rightarrow> bool" where
  "unmovedHeads heads s s' \<longleftrightarrow> heads (ses_world s') = heads (ses_world s)"

definition settles :: "('w \<Rightarrow> string \<Rightarrow> ExecutionEnvelope option) \<Rightarrow> string \<Rightarrow> 'w session \<Rightarrow> ExecutionEnvelope \<Rightarrow> 'w session \<Rightarrow> bool" where
  "settles heads k s e s' \<longleftrightarrow> Published heads k s e s' \<or> unmovedHeads heads s s' \<and> heads (ses_world s) k = Some e"

text \<open>
  \<open>failed heads k Q s s'\<close>: no head has moved, or the one commit was published and its
  acknowledgement lost; then the new head of \<open>k\<close> is what some value of the computation
  would have been about.
\<close>

definition failed :: "('w \<Rightarrow> string \<Rightarrow> ExecutionEnvelope option) \<Rightarrow> string \<Rightarrow> ('b \<Rightarrow> ExecutionEnvelope \<Rightarrow> bool) \<Rightarrow> 'w session \<Rightarrow> 'w session \<Rightarrow> bool" where
  "failed heads k Q s s' \<longleftrightarrow> unmovedHeads heads s s' \<or> (\<exists>b e. Published heads k s e s' \<and> Q b e)"

lemma failed_map: "failed heads k Q s s' \<Longrightarrow> (\<And>b e. Q b e \<Longrightarrow> Q' (g b) e) \<Longrightarrow> failed heads k Q' s s'"
  unfolding failed_def by blast

text \<open>
  \<open>writesOnce heads P k Q m\<close>: from heads in \<open>P\<close> the computation either fails, and then at most
  its one commit was published unacknowledged,
  or returns a value that stands in \<open>Q\<close> to the head of \<open>k\<close> afterwards, which is the head
  before or its only successor. The rules follow the code.
\<close>

definition writesOnce ::
    "('w \<Rightarrow> string \<Rightarrow> ExecutionEnvelope option) \<Rightarrow> ((string \<Rightarrow> ExecutionEnvelope option) \<Rightarrow> bool) \<Rightarrow> string \<Rightarrow> ('b \<Rightarrow> ExecutionEnvelope \<Rightarrow> bool) \<Rightarrow> ('w session, 'b res) state \<Rightarrow> bool" where
  "writesOnce heads P k Q m \<longleftrightarrow> (\<forall>s x s'. P (heads (ses_world s)) \<longrightarrow> run_state m s = (x, s') \<longrightarrow>
     (case x of Inl _ \<Rightarrow> failed heads k Q s s' | Inr b \<Rightarrow> \<exists>e. settles heads k s e s' \<and> Q b e))"

text \<open>
  \<open>operates heads k zero Q m\<close>: an operation on \<open>k\<close> returns its zero value with an error and has
  failed, or a result about the head of \<open>k\<close>; then an error can only be one of the cleanup.
\<close>

definition operates :: "('w \<Rightarrow> string \<Rightarrow> ExecutionEnvelope option) \<Rightarrow> string \<Rightarrow> 'b \<Rightarrow> ('b \<Rightarrow> ExecutionEnvelope \<Rightarrow> bool) \<Rightarrow> ('w session, 'b \<times> err option) state \<Rightarrow> bool" where
  "operates heads k zero Q m \<longleftrightarrow> (\<forall>s b err s'. run_state m s = ((b, err), s') \<longrightarrow>
     b = zero \<and> err \<noteq> None \<and> failed heads k Q s s' \<or> (\<exists>e. settles heads k s e s' \<and> Q b e))"

locale execution_heads =
  fixes r :: "('w, 't, 'a, 'e) DurableRunner" and heads :: "'w \<Rightarrow> string \<Rightarrow> ExecutionEnvelope option"
  assumes host_quiet: "hostQuiet heads r"
    and load_quiet: "quiet heads (sto_LoadExecution (drn_store r) k)"
    and load_head: "run_state (sto_LoadExecution (drn_store r) k) w = (Ok e, w') \<Longrightarrow> heads w k = Some e"
    and load_history: "sto_LoadCheckpoint (drn_store r) = Some load \<Longrightarrow> quiet heads (load k n)"
    and acquire_quiet: "quiet heads (sto_AcquireExecution (drn_store r) k owner ttl)"
    and acquire_lease: "run_state (sto_AcquireExecution (drn_store r) k owner ttl) w = (Ok lease, w') \<Longrightarrow> lse_ExecutionID lease = k"
    and release_quiet: "quiet heads (sto_ReleaseExecution (drn_store r) lease)"
    and commit_error: "run_state (sto_CommitExecution (drn_store r) n lease e) w = (Inl x, w') \<Longrightarrow> heads w' = heads w
      \<or> (\<exists>e'. succeeds (heads w (lse_ExecutionID lease)) n \<and> sealedAs e (n + 1) e' \<and> heads w' = (heads w)(lse_ExecutionID lease \<mapsto> e'))"
    and commit_head: "run_state (sto_CommitExecution (drn_store r) n lease e) w = (Ok e', w') \<Longrightarrow>
      env_ExecutionID e = lse_ExecutionID lease \<and> succeeds (heads w (lse_ExecutionID lease)) n \<and> sealedAs e (n + 1) e'
      \<and> heads w' = (heads w)(lse_ExecutionID lease \<mapsto> e')"
begin

lemmas stills = still_rules still_observe [OF host_quiet] still_alive [OF host_quiet] still_attach still_restore still_note
  still_hasProfile [OF host_quiet] still_checkRuntimeProfile [OF host_quiet] still_checkArmedWaitCompatibility [OF host_quiet]
  still_checkForkPolicy [OF host_quiet] still_wallRunMetadata [OF host_quiet] hostQuietD [OF host_quiet]
  load_quiet acquire_quiet release_quiet

lemma still_acquire: "still heads (acquireSession r k)"
  unfolding acquireSession_def by (intro stills) simp

lemma still_finish: "still heads (finishSession r lease)"
  unfolding finishSession_def by (intro stills) simp

lemma acquired_lease:
  assumes "run_state (acquireSession r k) s = (Ok lease, s')"
  shows "lse_ExecutionID lease = k"
proof -
  let ?w = "snd (run_state (hst_cause (drn_host r)) (ses_world s))"
  obtain x w where acquire: "run_state (sto_AcquireExecution (drn_store r) k (dop_Owner (drn_options r)) (dop_LeaseTTL (drn_options r))) ?w = (x, w)"
    by fastforce
  with assms have "x = Ok lease"
    by (auto simp: acquireSession_def alive_def passing_def run_attempt split: if_splits option.splits sum.splits)
  then show ?thesis using acquire acquire_lease by blast
qed

lemma commit_publishes:
  assumes "run_state (commitExecution (leased r lease) n e) s = (x, s')"
  shows "case x of
      Inl _ \<Rightarrow> unmovedHeads heads s s' \<or> succeeds (heads (ses_world s) (lse_ExecutionID lease)) n
        \<and> (\<exists>e'. Published heads (lse_ExecutionID lease) s e' s' \<and> sealedAs e (n + 1) e')
    | Inr e' \<Rightarrow> Published heads (lse_ExecutionID lease) s e' s' \<and> sealedAs e (n + 1) e'"
proof -
  obtain x' w where commit: "run_state (sto_CommitExecution (drn_store r) n lease e) (ses_world s) = (x', w)" by fastforce
  have s': "x = x'" "ses_world s' = w"
    using assms commit
    by (auto simp: commitExecution_def sessionCheckpointer_def noteSessionLeaseFailure_def attachSessionObservation_def split: sum.splits if_splits)
  have published: "Published heads (lse_ExecutionID lease) s e' s' \<and> sealedAs e (n + 1) e'"
    if "succeeds (heads (ses_world s) (lse_ExecutionID lease)) n" "sealedAs e (n + 1) e'" "heads w = (heads (ses_world s))(lse_ExecutionID lease \<mapsto> e')" for e'
    using that s' rev_succ_nonzero by (auto simp: Published_def succeeds_def sealedAs_def split: option.splits)
  show ?thesis
  proof (cases x')
    case (Inl err)
    then show ?thesis using commit_error [OF commit [unfolded Inl]] published s' by (auto simp: unmovedHeads_def)
  next
    case (Inr e')
    then show ?thesis using commit_head [OF commit [unfolded Inr]] published s' by simp
  qed
qed

end

context execution_heads begin

lemma settles_cong:
  "heads (ses_world t) = heads (ses_world s) \<Longrightarrow> heads (ses_world t') = heads (ses_world s') \<Longrightarrow> settles heads k t e t' = settles heads k s e s'"
  "heads (ses_world t) = heads (ses_world s) \<Longrightarrow> heads (ses_world t') = heads (ses_world s') \<Longrightarrow> failed heads k Q t t' = failed heads k Q s s'"
  by (simp_all add: settles_def failed_def Published_def unmovedHeads_def)

lemma once_error: "writesOnce heads P k Q (ret (Inl e))"
  by (simp add: writesOnce_def failed_def unmovedHeads_def)

lemma once_read: "(\<And>h. P h \<Longrightarrow> \<exists>e. h k = Some e \<and> Q b e) \<Longrightarrow> writesOnce heads P k Q (ret (Ok b))"
  by (auto simp: writesOnce_def settles_def unmovedHeads_def)

lemma once_then:
  assumes "still heads m" and "\<And>x. writesOnce heads P k Q (f x)"
  shows "writesOnce heads P k Q (State_Monad.bind m f)"
  unfolding writesOnce_def
proof (intro allI impI)
  fix s x s'
  assume p: "P (heads (ses_world s))" and run: "run_state (State_Monad.bind m f) s = (x, s')"
  obtain y t where m: "run_state m s = (y, t)" by fastforce
  have same: "heads (ses_world t) = heads (ses_world s)" by (rule stillD [OF assms(1) m])
  have "run_state (f y) t = (x, s')" using run m by simp
  with assms(2) [of y] p same have "case x of Inl _ \<Rightarrow> failed heads k Q t s' | Inr b \<Rightarrow> \<exists>e. settles heads k t e s' \<and> Q b e"
    by (simp add: writesOnce_def)
  then show "case x of Inl _ \<Rightarrow> failed heads k Q s s' | Inr b \<Rightarrow> \<exists>e. settles heads k s e s' \<and> Q b e"
    by (simp only: settles_cong [OF same refl])
qed

lemma once_load:
  assumes "still heads m" and "\<And>s x s'. P (heads (ses_world s)) \<Longrightarrow> run_state m s = (Ok x, s') \<Longrightarrow> P' x (heads (ses_world s))"
    and "\<And>x. writesOnce heads (P' x) k Q (f x)"
  shows "writesOnce heads P k Q (attempt m f)"
  unfolding writesOnce_def
proof (intro allI impI)
  fix s x s'
  assume p: "P (heads (ses_world s))" and run: "run_state (attempt m f) s = (x, s')"
  obtain y t where m: "run_state m s = (y, t)" by fastforce
  have same: "heads (ses_world t) = heads (ses_world s)" by (rule stillD [OF assms(1) m])
  show "case x of Inl _ \<Rightarrow> failed heads k Q s s' | Inr b \<Rightarrow> \<exists>e. settles heads k s e s' \<and> Q b e"
  proof (cases y)
    case (Inl err)
    then show ?thesis using run m same by (auto simp: run_attempt failed_def unmovedHeads_def)
  next
    case (Inr v)
    have "run_state (f v) t = (x, s')" using run m Inr by (simp add: run_attempt)
    moreover have "P' v (heads (ses_world t))" using assms(2) [OF p] m Inr same by simp
    ultimately have "case x of Inl _ \<Rightarrow> failed heads k Q t s' | Inr b \<Rightarrow> \<exists>e. settles heads k t e s' \<and> Q b e"
      using assms(3) [of v] by (simp add: writesOnce_def)
    then show ?thesis by (simp only: settles_cong [OF same refl])
  qed
qed

lemma once_attempt: "still heads m \<Longrightarrow> (\<And>x. writesOnce heads P k Q (f x)) \<Longrightarrow> writesOnce heads P k Q (attempt m f)"
  by (rule once_load [where P' = "\<lambda>_. P"]) simp_all

lemma once_passing: "(v = None \<Longrightarrow> writesOnce heads P k Q m) \<Longrightarrow> writesOnce heads P k Q (passing v m)"
  by (cases v) (simp_all add: passing_def once_error)

lemma once_alive: "writesOnce heads P k Q m \<Longrightarrow> writesOnce heads P k Q (alive r m)"
  unfolding alive_def by (intro once_then once_passing stills)

lemma once_if: "(b \<Longrightarrow> writesOnce heads P k Q m) \<Longrightarrow> (\<not> b \<Longrightarrow> writesOnce heads P k Q m') \<Longrightarrow> writesOnce heads P k Q (if b then m else m')"
  by simp

lemma once_option:
  "(v = None \<Longrightarrow> writesOnce heads P k Q m) \<Longrightarrow> (\<And>x. v = Some x \<Longrightarrow> writesOnce heads P k Q (f x)) \<Longrightarrow> writesOnce heads P k Q (case v of None \<Rightarrow> m | Some x \<Rightarrow> f x)"
  by (cases v) simp_all

lemma once_sum:
  "(\<And>e. v = Inl e \<Longrightarrow> writesOnce heads P k Q (f e)) \<Longrightarrow> (\<And>x. v = Inr x \<Longrightarrow> writesOnce heads P k Q (g x)) \<Longrightarrow> writesOnce heads P k Q (case v of Inl e \<Rightarrow> f e | Inr x \<Rightarrow> g x)"
  by (cases v) simp_all

lemma once_prod: "(\<And>x y. v = (x, y) \<Longrightarrow> writesOnce heads P k Q (f x y)) \<Longrightarrow> writesOnce heads P k Q (case v of (x, y) \<Rightarrow> f x y)"
  by (cases v) simp

lemma once_let: "writesOnce heads P k Q (f v) \<Longrightarrow> writesOnce heads P k Q (Let v f)"
  by simp

lemma once_commit:
  assumes "lse_ExecutionID lease = k" and "\<And>h e. P h \<Longrightarrow> sealedAs target (n + 1) e \<Longrightarrow> Q e e"
  shows "writesOnce heads P k Q (commitExecution (leased r lease) n target)"
  unfolding writesOnce_def
proof (intro allI impI)
  fix s x s'
  assume "P (heads (ses_world s))" and run: "run_state (commitExecution (leased r lease) n target) s = (x, s')"
  then show "case x of Inl _ \<Rightarrow> failed heads k Q s s' | Inr b \<Rightarrow> \<exists>e. settles heads k s e s' \<and> Q b e"
    using commit_publishes [OF run] assms by (cases x) (auto simp: failed_def settles_def)
qed

text \<open>The observation after the work and the result made of its value.\<close>

lemma once_observed:
  assumes "writesOnce heads P k Q' m" and "\<And>x. still heads (f x)" and "\<And>b e. Q' b e \<Longrightarrow> Q (g b) e"
  shows "writesOnce heads P k Q (do { x \<leftarrow> m; f x; ret (res_bind x (\<lambda>b. Ok (g b))) })"
  unfolding writesOnce_def
proof (intro allI impI)
  fix s x s'
  assume p: "P (heads (ses_world s))" and run: "run_state (do { x \<leftarrow> m; f x; ret (res_bind x (\<lambda>b. Ok (g b))) }) s = (x, s')"
  obtain y t where m: "run_state m s = (y, t)" by fastforce
  obtain z t' where f: "run_state (f y) t = (z, t')" by fastforce
  have out: "x = res_bind y (\<lambda>b. Ok (g b))" and same: "heads (ses_world s') = heads (ses_world t)"
    using run m f stillD [OF assms(2) f] by simp_all
  have "case y of Inl _ \<Rightarrow> failed heads k Q' s t | Inr b \<Rightarrow> \<exists>e. settles heads k s e t \<and> Q' b e"
    using assms(1) p m by (simp add: writesOnce_def)
  then show "case x of Inl _ \<Rightarrow> failed heads k Q s s' | Inr b \<Rightarrow> \<exists>e. settles heads k s e s' \<and> Q b e"
    using out assms(3) failed_map [where Q = Q' and Q' = Q and g = g and s = s and s' = t, OF _ assms(3)]
    by (cases y) (auto simp: settles_cong [OF refl same])
qed

lemmas once_rules = once_error once_then once_attempt once_passing once_alive once_if once_option once_sum once_prod once_let

lemma operates_error: "operates heads k zero Q (ret (zero, Some e))"
  by (simp add: operates_def failed_def unmovedHeads_def)

lemma operates_then:
  assumes "still heads m" and "\<And>x. operates heads k zero Q (f x)"
  shows "operates heads k zero Q (State_Monad.bind m f)"
  unfolding operates_def
proof (intro allI impI)
  fix s b err s'
  assume run: "run_state (State_Monad.bind m f) s = ((b, err), s')"
  obtain y t where m: "run_state m s = (y, t)" by fastforce
  have same: "heads (ses_world t) = heads (ses_world s)" by (rule stillD [OF assms(1) m])
  have "run_state (f y) t = ((b, err), s')" using run m by simp
  with assms(2) [of y] show "b = zero \<and> err \<noteq> None \<and> failed heads k Q s s' \<or> (\<exists>e. settles heads k s e s' \<and> Q b e)"
    unfolding operates_def settles_cong [OF same refl, symmetric] by blast
qed

lemma operates_session:
  assumes "\<And>lease. lse_ExecutionID lease = k \<Longrightarrow> writesOnce heads (\<lambda>_. True) k Q (body lease)"
  shows "operates heads k zero Q (inSession r k zero (\<lambda>lease. do { x \<leftarrow> body lease; ret (orNothing zero x) }))"
  unfolding operates_def
proof (intro allI impI)
  fix s b err s'
  assume run: "run_state (inSession r k zero (\<lambda>lease. do { x \<leftarrow> body lease; ret (orNothing zero x) })) s = ((b, err), s')"
  obtain a t where acquired: "run_state (acquireSession r k) s = (a, t)" by fastforce
  have same: "heads (ses_world t) = heads (ses_world s)" by (rule stillD [OF still_acquire acquired])
  show "b = zero \<and> err \<noteq> None \<and> failed heads k Q s s' \<or> (\<exists>e. settles heads k s e s' \<and> Q b e)"
  proof (cases a)
    case (Inl e)
    then show ?thesis using run acquired same by (auto simp: inSession_def failed_def unmovedHeads_def)
  next
    case (Inr lease)
    obtain x u where body: "run_state (body lease) t = (x, u)" by fastforce
    obtain cleanup v where finish: "run_state (finishSession r lease) u = (cleanup, v)" by fastforce
    have v: "heads (ses_world v) = heads (ses_world u)" by (rule stillD [OF still_finish finish])
    have out: "s' = v" "b = fst (orNothing zero x)" "err = errJoin [snd (orNothing zero x), cleanup]"
      using run acquired Inr body finish by (auto simp: inSession_def split_beta)
    have "case x of Inl _ \<Rightarrow> failed heads k Q t u | Inr b \<Rightarrow> \<exists>e. settles heads k t e u \<and> Q b e"
      using assms [OF acquired_lease [OF acquired [unfolded Inr]]] body by (simp add: writesOnce_def)
    then show ?thesis
      using settles_cong [OF same [symmetric] v] out by (cases x) (auto simp: orNothing_def errJoin_None_iff)
  qed
qed

end

section \<open>Decisions of a wait\<close>

text \<open>\<open>decided generation k decision e\<close>: the envelope holds the decision of the delivery \<open>k\<close> to the wait.\<close>

definition rawWaits :: "ExecutionEnvelope \<Rightarrow> durable_waits" where
  "rawWaits e = (case env_WaitsPayload e of Bytes_of _ waits \<Rightarrow> waits | _ \<Rightarrow> [])"

definition decided :: "string \<Rightarrow> string \<Rightarrow> WaitDecision \<Rightarrow> ExecutionEnvelope \<Rightarrow> bool" where
  "decided generation k decision e \<longleftrightarrow> (\<exists>identity record. findWaitGeneration (rawWaits e) generation = Ok (identity, record)
     \<and> lookup (wrc_Decisions record) k = Some decision)"

lemma executionWaits_raw: "executionWaits sha e = Ok waits \<Longrightarrow> rawWaits e = waits"
  by (auto simp: executionWaits_Ok_iff rawWaits_def)

lemma find_put:
  assumes "findWaitGeneration waits generation = Ok (identity, record)" and "wrc_Generation target = generation"
  shows "findWaitGeneration (put identity target waits) generation = Ok (identity, target)"
proof -
  have "List.find (\<lambda>(identity, w). wrc_Generation w = generation) waits = Some (identity, record) \<Longrightarrow>
      List.find (\<lambda>(identity, w). wrc_Generation w = generation) (put identity target waits) = Some (identity, target)"
    using assms(2) by (induction waits) (auto split: if_splits)
  moreover have "put identity target waits \<noteq> []" by (cases waits) (auto split: prod.splits)
  ultimately show ?thesis using assms(1) by (auto simp: findWaitGeneration_def split: option.splits if_splits)
qed

lemma prepared_decision:
  assumes "prepareWaitDecision sha record d revision incarnation now matched = Ok (target, decision, replay)"
  shows "wrc_Generation target = wrc_Generation record" and "lookup (wrc_Decisions target) (wdl_ID d) = Some decision"
    and "replay \<Longrightarrow> target = record" and "lookup (wrc_Decisions record) (wdl_ID d) = Some prior \<Longrightarrow> replay \<and> decision = prior"
  using assms by (auto simp: prepareWaitDecision_def Let_def res_simps split: if_splits option.splits)

lemma find_generation: "findWaitGeneration waits generation = Ok (identity, record) \<Longrightarrow> wrc_Generation record = generation"
  by (auto simp: findWaitGeneration_def find_Some_iff split: if_splits option.splits)

lemma delivery_decision:
  "returns (\<lambda>x. \<forall>p. x = Ok p \<longrightarrow> (\<exists>now matched. prepareWaitDecision (drn_sha r) record d (env_Revision source) (lse_Incarnation lease) now matched = Ok p))
     (prepareWaitDelivery r lease source record d contract)"
proof (rule returnsI, intro allI impI)
  fix s x s' p
  assume "run_state (prepareWaitDelivery r lease source record d contract) s = (x, s')" and "x = Ok p"
  then have "run_state (prepareWaitDelivery r lease source record d contract) s = (Ok p, s')" by simp
  then show "\<exists>now matched. prepareWaitDecision (drn_sha r) record d (env_Revision source) (lse_Incarnation lease) now matched = Ok p"
    by (cases p) (auto simp: prepareWaitDelivery_def Let_def attempt_Ok_iff alive_def passing_Ok_iff split: if_splits option.splits)
qed

context execution_heads begin

lemma source_head:
  assumes "run_state (waitDeliverySource r k generation) s = (Ok (source, waits), s')"
  shows "heads (ses_world s) k = Some source \<and> executionWaits (drn_sha r) source = Ok waits"
proof -
  obtain x w where load: "run_state (sto_LoadExecution (drn_store r) k) (ses_world s) = (x, w)" by fastforce
  have "loadedWaitSource r k x = Ok (source, waits)"
    using assms load by (auto simp: waitDeliverySource_def attempt_Ok_iff passing_Ok_iff split_beta)
  then show ?thesis
    using load_head load by (auto simp: loadedWaitSource_def validateExecutionCollectionsWithWaits_def res_simps split: sum.splits if_splits)
qed

lemma still_source: "still heads (waitDeliverySource r k generation)"
  unfolding waitDeliverySource_def by (intro stills)

lemma still_delivery: "contractQuiet heads contract \<Longrightarrow> still heads (prepareWaitDelivery r lease source record d contract)"
  unfolding prepareWaitDelivery_def by (intro stills) (auto simp: contractQuiet_def)

lemma still_continuation: "contractQuiet heads contract \<Longrightarrow> still heads (applyWaitContinuation r e spec d contract)"
  unfolding applyWaitContinuation_def by (intro stills) (auto simp: contractQuiet_def)

lemma once_returns:
  assumes "still heads m" and "returns R m" and "\<And>x. R x \<Longrightarrow> writesOnce heads P k Q (f x)"
  shows "writesOnce heads P k Q (State_Monad.bind m f)"
proof -
  have "writesOnce heads P k Q (State_Monad.bind m (\<lambda>x. if R x then f x else ret (Inl (Plain ''''))))"
    by (rule once_then [OF assms(1)]) (simp add: assms(3) once_error)
  moreover have "run_state (State_Monad.bind m (\<lambda>x. if R x then f x else ret (Inl (Plain '''')))) s = run_state (State_Monad.bind m f) s" for s
    using assms(2) by (simp add: returns_def split_beta)
  ultimately show ?thesis by (simp add: writesOnce_def)
qed

lemma once_decision:
  assumes "contractQuiet heads contract" and "lse_ExecutionID lease = k"
  shows "writesOnce heads P k (\<lambda>e e'. e' = e \<and> env_WaitsPayload e = Bytes_of True (put identity target waits))
    (commitWaitDecision r lease source waits identity record target decision d contract)"
  unfolding commitWaitDecision_def
proof (rule once_attempt)
  show "still heads (if wdc_Status decision = WaitAccepted then applyWaitContinuation r source (wrc_Spec record) d contract else ret (Ok source))"
    by (intro still_if still_return still_continuation [OF assms(1)])
next
  fix e
  have "writesOnce heads P k (\<lambda>e e'. e' = e \<and> env_WaitsPayload e = Bytes_of True (put identity target waits))
      (passing (errOf (marshalWaits (put identity target waits)))
        (alive r (commitExecution (leased r lease) (env_Revision source) (e\<lparr>env_WaitsPayload := Bytes_of True (put identity target waits)\<rparr>))))"
    by (intro once_passing once_alive once_commit assms(2)) (auto simp: sealedAs_def)
  then show "writesOnce heads P k (\<lambda>e e'. e' = e \<and> env_WaitsPayload e = Bytes_of True (put identity target waits))
      (attempt (ret (marshalWaits (put identity target waits)))
        (\<lambda>payload. alive r (commitExecution (leased r lease) (env_Revision source) (e\<lparr>env_WaitsPayload := payload\<rparr>))))"
    by (auto simp: marshalWaits_def attempt_def passing_def errOf_def split: if_splits)
qed

end

section \<open>The operations write at most once\<close>

abbreviation aboutHead :: "string \<Rightarrow> ResumeToken \<Rightarrow> ExecutionEnvelope \<Rightarrow> bool" where
  "aboutHead k token e \<equiv> token = tokenAt k (env_Revision e)"

definition aboutDecision :: "string \<Rightarrow> WaitDelivery \<Rightarrow> WaitDeliveryResult \<Rightarrow> ExecutionEnvelope \<Rightarrow> bool" where
  "aboutDecision k d result e \<longleftrightarrow> aboutHead k (wdr_ResumeToken result) e \<and> decided (wdl_Generation d) (wdl_ID d) (wdr_Decision result) e"

context execution_heads begin

lemma deliver_admitted:
  assumes quiet: "contractQuiet heads contract" and lease: "lse_ExecutionID lease = k" and waits: "executionWaits (drn_sha r) source = Ok waits"
  shows "writesOnce heads (\<lambda>h. h k = Some source) k (aboutDecision k d) (deliverAdmitted r k d contract lease source waits)"
proof -
  let ?found = "attempt (ret (findWaitGeneration waits (wdl_Generation d))) (\<lambda>(identity, record).
        passing (contractError contract (wrc_Spec record))
          (attempt (prepareWaitDelivery r lease source record d contract) (\<lambda>p. ret (Ok (identity, record, p)))))"
  have still: "still heads ?found"
    by (intro stills still_delivery [OF quiet])
  have facts: "returns (\<lambda>y. \<forall>identity record p. y = Ok (identity, record, p) \<longrightarrow>
      findWaitGeneration waits (wdl_Generation d) = Ok (identity, record)
      \<and> (\<exists>now matched. prepareWaitDecision (drn_sha r) record d (env_Revision source) (lse_Incarnation lease) now matched = Ok p)) ?found"
  proof (intro returnsI allI impI)
    fix s x s' identity rec p
    assume "run_state ?found s = (x, s')" and "x = Ok (identity, rec, p)"
    then have "findWaitGeneration waits (wdl_Generation d) = Ok (identity, rec)"
        and run: "\<exists>t t'. run_state (prepareWaitDelivery r lease source rec d contract) t = (Ok p, t')"
      by (auto simp: attempt_Ok_iff passing_Ok_iff)
    with returnsD [OF delivery_decision] show "findWaitGeneration waits (wdl_Generation d) = Ok (identity, rec)
      \<and> (\<exists>now matched. prepareWaitDecision (drn_sha r) rec d (env_Revision source) (lse_Incarnation lease) now matched = Ok p)"
      by blast
  qed
  have replayed: "aboutDecision k d \<lparr>wdr_Decision = decision, wdr_ResumeToken = tokenAt k (env_Revision source), wdr_Replay = True\<rparr> source"
    if "findWaitGeneration waits (wdl_Generation d) = Ok (identity, rec)"
      "prepareWaitDecision (drn_sha r) rec d (env_Revision source) (lse_Incarnation lease) now matched = Ok (target, decision, True)"
    for identity rec now matched target decision
    using executionWaits_raw [OF waits] that(1) prepared_decision(2,3) [OF that(2)] by (auto simp: aboutDecision_def decided_def)
  have committed: "aboutDecision k d \<lparr>wdr_Decision = decision, wdr_ResumeToken = tokenAt k (env_Revision e), wdr_Replay = False\<rparr> e"
    if "env_WaitsPayload e = Bytes_of True (put identity target waits)" "findWaitGeneration waits (wdl_Generation d) = Ok (identity, rec)"
      "prepareWaitDecision (drn_sha r) rec d (env_Revision source) (lse_Incarnation lease) now matched = Ok (target, decision, replay)"
    for e identity rec now matched target decision replay
    using find_put [OF that(2)] find_generation [OF that(2)] prepared_decision(1,2) [OF that(3)] that(1)
    by (auto simp: aboutDecision_def decided_def rawWaits_def)
  show ?thesis
    unfolding deliverAdmitted_def Let_def
    by (intro once_then [OF still_restore] once_then [OF still_observe [OF host_quiet]] once_returns [OF still facts] once_sum once_prod once_if
        once_error once_read once_observed [OF once_decision [OF quiet lease]] stills)
      (auto intro: replayed committed)
qed

lemma deliver_once:
  assumes "contractQuiet heads contract" and "lse_ExecutionID lease = k"
  shows "writesOnce heads (\<lambda>_. True) k (aboutDecision k d) (deliverInSession r k d contract lease)"
  unfolding deliverInSession_def
proof (rule once_load [where P' = "\<lambda>x h. h k = Some (fst x) \<and> executionWaits (drn_sha r) (fst x) = Ok (snd x)"])
  show "heads (ses_world s) k = Some (fst x) \<and> executionWaits (drn_sha r) (fst x) = Ok (snd x)"
    if "run_state (waitDeliverySource r k (wdl_Generation d)) s = (Ok x, s')" for s x s'
    using source_head [where s = s and source = "fst x" and waits = "snd x"] that by simp
  show "writesOnce heads (\<lambda>h. h k = Some (fst x) \<and> executionWaits (drn_sha r) (fst x) = Ok (snd x)) k (aboutDecision k d)
      (case x of (source, waits) \<Rightarrow> deliverAdmitted r k d contract lease source waits)" for x
    using deliver_admitted [OF assms, of "fst x" "snd x" d] by (cases x) (simp add: writesOnce_def)
qed (rule still_source)

end

context execution_heads begin

lemma once_map:
  assumes "writesOnce heads P k Q' m" and "\<And>b e. Q' b e \<Longrightarrow> Q (g b) e"
  shows "writesOnce heads P k Q (attempt m (\<lambda>b. ret (Ok (g b))))"
  unfolding writesOnce_def
proof (intro allI impI)
  fix s x s'
  assume p: "P (heads (ses_world s))" and run: "run_state (attempt m (\<lambda>b. ret (Ok (g b)))) s = (x, s')"
  obtain y t where m: "run_state m s = (y, t)" by fastforce
  then have "case y of Inl _ \<Rightarrow> failed heads k Q' s t | Inr b \<Rightarrow> \<exists>e. settles heads k s e t \<and> Q' b e"
    using assms(1) p by (simp add: writesOnce_def)
  then show "case x of Inl _ \<Rightarrow> failed heads k Q s s' | Inr b \<Rightarrow> \<exists>e. settles heads k s e s' \<and> Q b e"
    using run m assms(2) by (cases y) (fastforce simp: run_attempt intro: failed_map)+
qed

lemma cancel_armed:
  assumes "lse_ExecutionID lease = k"
  shows "writesOnce heads P k (\<lambda>e e'. e' = e) (cancelArmedWait r lease source waits identity w request)"
  unfolding cancelArmedWait_def
  by (intro once_rules once_commit stills) (simp_all add: assms)

lemma cancel_once:
  assumes "lse_ExecutionID lease = tok_ThreadID token"
  shows "writesOnce heads (\<lambda>_. True) (tok_ThreadID token) (aboutHead (tok_ThreadID token)) (cancelInSession r token request lease)"
  unfolding cancelInSession_def
proof (rule once_load [where P' = "\<lambda>x h. h (tok_ThreadID token) = Some (fst x)"])
  show "heads (ses_world s) (tok_ThreadID token) = Some (fst x)"
    if "run_state (waitDeliverySource r (tok_ThreadID token) (wcr_Generation request)) s = (Ok x, s')" for s x s'
    using source_head [where s = s and source = "fst x" and waits = "snd x"] that by simp
  show "writesOnce heads (\<lambda>h. h (tok_ThreadID token) = Some (fst x)) (tok_ThreadID token) (aboutHead (tok_ThreadID token))
      (case x of (source, waits) \<Rightarrow> cancelAdmitted r token request lease source waits)" for x
    unfolding cancelAdmitted_def Let_def
    by (intro once_rules stills once_read once_observed [OF cancel_armed [OF assms]]) simp_all
qed (rule still_source)

lemma still_resolution:
  "still heads (prepareActivityResolutionTarget r source lease journal w rsn)" "still heads (observeResolution r event committed)"
  unfolding prepareActivityResolutionTarget_def observeResolution_def observeCommittedRetry_def by (intro stills)+

lemma resolve_admitted:
  assumes "lse_ExecutionID lease = tok_ThreadID token"
  shows "writesOnce heads P (tok_ThreadID token) (aboutHead (tok_ThreadID token)) (resolveAdmitted r token rsn lease source journal w)"
proof -
  have commit: "writesOnce heads P (tok_ThreadID token) (\<lambda>b e. e = fst b) (attempt (ret prepared) (\<lambda>(target, resolvedState).
      alive r (attempt (commitExecution (leased r lease) (env_Revision source) target) (\<lambda>e. ret (Ok (e, resolvedState))))))" for prepared
    by (intro once_attempt still_return once_prod once_alive once_map [OF once_commit [where Q = "\<lambda>e e'. e' = e"]]) (simp_all add: assms)
  show ?thesis
    unfolding resolveAdmitted_def Let_def
    by (intro once_then stills still_resolution once_observed [OF commit]) simp
qed

end

context execution_heads begin

lemma resolve_once:
  assumes "lse_ExecutionID lease = tok_ThreadID token"
  shows "writesOnce heads (\<lambda>_. True) (tok_ThreadID token) (aboutHead (tok_ThreadID token)) (resolveInSession r token rsn lease)"
  unfolding resolveInSession_def
  by (intro once_attempt once_passing once_prod resolve_admitted [OF assms] stills)

lemma once_child_commit:
  assumes "lse_ExecutionID lease = k"
  shows "writesOnce heads P k (\<lambda>e e'. e' = e) (commitChildGroups r lease source groups)"
  unfolding commitChildGroups_def
  by (intro once_rules once_commit stills) (simp_all add: assms)

lemma still_children:
  "still heads (childMutationSource r token)" "still heads (confirmGroups r decision lease source identity)"
  "still heads (resolveWaitGroups r w lease source identity)" "still heads (resolveOutcomeGroups r q lease source identity)"
  unfolding childMutationSource_def confirmGroups_def resolveWaitGroups_def resolveOutcomeGroups_def by (intro stills)+

lemma confirm_once:
  assumes "lse_ExecutionID lease = tok_ThreadID token"
  shows "writesOnce heads P (tok_ThreadID token) (aboutHead (tok_ThreadID token)) (confirmAdmitted r token decision lease source)"
  unfolding confirmAdmitted_def Let_def
  by (intro once_rules stills still_children once_observed [OF once_child_commit [OF assms]]) simp_all

lemma resolveWait_once:
  assumes "lse_ExecutionID lease = tok_ThreadID token"
  shows "writesOnce heads P (tok_ThreadID token) (aboutHead (tok_ThreadID token)) (resolveWaitAdmitted r token w lease source)"
  unfolding resolveWaitAdmitted_def Let_def
  by (intro once_then stills still_children once_observed [OF once_attempt [OF still_return once_child_commit [OF assms]]]) simp_all

lemma child_source:
  assumes "run_state (childMutationSource r token) s = (Ok source, s')"
  shows "heads (ses_world s) (tok_ThreadID token) = Some source \<and> token = tokenAt (tok_ThreadID token) (env_Revision source)
    \<and> env_ExecutionID source = tok_ThreadID token"
proof -
  obtain x w where load: "run_state (sto_LoadExecution (drn_store r) (tok_ThreadID token)) (ses_world s) = (x, w)" by fastforce
  have x: "x = Ok source" "childMutationError r token source = None" using assms load by (auto simp: childMutationSource_def attempt_Ok_iff passing_Ok_iff)
  then have "sourceError r token source = None" by (simp add: childMutationError_def orElse_None_iff)
  then have "env_Revision source = tok_SnapshotRevision token" "env_ExecutionID source = tok_ThreadID token"
    by (auto simp: sourceError_def ValidateExecutionIntegrity_def orElse_None_iff split: if_splits)
  then show ?thesis using load_head load x by (cases token) auto
qed

lemma resolveOutcome_once:
  assumes "lse_ExecutionID lease = tok_ThreadID token"
  shows "writesOnce heads (\<lambda>_. True) (tok_ThreadID token) (aboutHead (tok_ThreadID token))
    (attempt (childMutationSource r token) (resolveOutcomeAdmitted r token q lease))"
proof (rule once_load [where P' = "\<lambda>source h. h (tok_ThreadID token) = Some source \<and> token = tokenAt (tok_ThreadID token) (env_Revision source)"])
  show "writesOnce heads (\<lambda>h. h (tok_ThreadID token) = Some source \<and> token = tokenAt (tok_ThreadID token) (env_Revision source)) (tok_ThreadID token)
      (aboutHead (tok_ThreadID token)) (resolveOutcomeAdmitted r token q lease source)" for source
    unfolding resolveOutcomeAdmitted_def Let_def
    by (intro once_rules stills still_children once_read once_observed [OF once_child_commit [OF assms]]) simp_all
qed (use child_source in \<open>auto intro: still_children\<close>)

lemma import_once:
  assumes "lse_ExecutionID lease = k"
  shows "writesOnce heads (\<lambda>_. True) k (aboutHead k) (importInSession r k source importer transform lease)"
  unfolding importInSession_def Let_def
  by (intro once_then once_sum once_if once_error once_alive once_observed [where Q' = "\<lambda>e e'. e' = e"] once_passing once_commit stills)
    (simp_all add: assms)

lemma fork_once:
  assumes "lse_ExecutionID lease = frq_TargetID request"
  shows "writesOnce heads (\<lambda>_. True) (frq_TargetID request) (\<lambda>b e. b = Some e)
    (attempt (forkInSession r source request lineage lease) (\<lambda>x. ret (Ok (Some x))))"
proof -
  have taken: "still heads (forkTargetAbsent r k)" and progress: "still heads (transformForkProgress r source request)" for k
    unfolding forkTargetAbsent_def transformForkProgress_def by (intro stills)+
  show ?thesis
    unfolding forkInSession_def
    by (intro once_map [where Q' = "\<lambda>e e'. e' = e"] once_then [OF taken] once_passing once_attempt [OF progress] once_sum once_error
        once_alive once_then once_commit stills) (simp_all add: assms)
qed

lemma operates_if: "(b \<Longrightarrow> operates heads k zero Q m) \<Longrightarrow> (\<not> b \<Longrightarrow> operates heads k zero Q m') \<Longrightarrow> operates heads k zero Q (if b then m else m')"
  by simp

lemma operates_option:
  "(v = None \<Longrightarrow> operates heads k zero Q m) \<Longrightarrow> (\<And>x. v = Some x \<Longrightarrow> operates heads k zero Q (f x)) \<Longrightarrow> operates heads k zero Q (case v of None \<Rightarrow> m | Some x \<Rightarrow> f x)"
  by (cases v) simp_all

lemma operates_sum:
  "(\<And>e. v = Inl e \<Longrightarrow> operates heads k zero Q (f e)) \<Longrightarrow> (\<And>x. v = Inr x \<Longrightarrow> operates heads k zero Q (g x)) \<Longrightarrow> operates heads k zero Q (case v of Inl e \<Rightarrow> f e | Inr x \<Rightarrow> g x)"
  by (cases v) simp_all

lemma operates_map:
  assumes "operates heads k zero Q m" and "\<And>b. still heads (f b)" and "\<And>b e. Q b e \<Longrightarrow> Q' (g b) e"
  shows "operates heads k (g zero) Q' (do { (b, e) \<leftarrow> m; f b; ret (g b, e) })"
  unfolding operates_def
proof (intro allI impI)
  fix s b err s'
  assume run: "run_state (do { (b, e) \<leftarrow> m; f b; ret (g b, e) }) s = ((b, err), s')"
  obtain b0 e0 t where m: "run_state m s = ((b0, e0), t)" by (metis prod.collapse)
  obtain u t' where f: "run_state (f b0) t = (u, t')" by fastforce
  have out: "b = g b0" "err = e0" and same: "heads (ses_world s') = heads (ses_world t)"
    using run m f stillD [OF assms(2) f] by simp_all
  have "b0 = zero \<and> e0 \<noteq> None \<and> failed heads k Q s t \<or> (\<exists>e. settles heads k s e t \<and> Q b0 e)"
    using assms(1) m unfolding operates_def by blast
  then show "b = g zero \<and> err \<noteq> None \<and> failed heads k Q' s s' \<or> (\<exists>e. settles heads k s e s' \<and> Q' b e)"
    using out assms(3) failed_map [where Q = Q and Q' = Q' and g = g and s = s and s' = t, OF _ assms(3)]
    by (auto simp: settles_cong [OF refl same])
qed

lemmas operates_rules = operates_error operates_if operates_option operates_sum

lemma deliver_operates:
  "contractQuiet heads contract \<Longrightarrow> operates heads k noDelivery (aboutDecision k d) (DeliverWait r k d contract)"
  unfolding DeliverWait_def
  by (intro operates_rules operates_then [OF still_source] operates_session deliver_once)

lemma cancel_operates: "operates heads (tok_ThreadID token) noToken (aboutHead (tok_ThreadID token)) (CancelWait r token request)"
  unfolding CancelWait_def
  by (intro operates_rules operates_then [OF still_source] operates_session cancel_once)

lemma resolve_operates: "operates heads (tok_ThreadID token) noToken (aboutHead (tok_ThreadID token)) (ResolveActivity r token rsn)"
  unfolding ResolveActivity_def by (intro operates_rules operates_session resolve_once)

lemma child_operates:
  "operates heads (tok_ThreadID token) noToken (aboutHead (tok_ThreadID token)) (ConfirmChildCancellation r token decision)"
  "operates heads (tok_ThreadID token) noToken (aboutHead (tok_ThreadID token)) (ResolveChildWait r token w)"
  "operates heads (tok_ThreadID token) noToken (aboutHead (tok_ThreadID token)) (ResolveChildOutcome r token q)"
proof -
  show "operates heads (tok_ThreadID token) noToken (aboutHead (tok_ThreadID token)) (ConfirmChildCancellation r token decision)"
    unfolding ConfirmChildCancellation_def
    by (intro operates_rules operates_session once_attempt once_passing still_children confirm_once)
  show "operates heads (tok_ThreadID token) noToken (aboutHead (tok_ThreadID token)) (ResolveChildWait r token w)"
    unfolding ResolveChildWait_def
    by (intro operates_rules operates_session once_attempt once_passing still_children resolveWait_once)
  show "operates heads (tok_ThreadID token) noToken (aboutHead (tok_ThreadID token)) (ResolveChildOutcome r token q)"
    unfolding ResolveChildOutcome_def
    by (intro operates_rules operates_session resolveOutcome_once)
qed

lemma import_operates: "operates heads k noToken (aboutHead k) (Import r k source importer)"
  unfolding Import_def
  by (intro operates_rules operates_then operates_session import_once stills)

lemma fork_operates: "operates heads (frq_TargetID request) noToken (aboutHead (frq_TargetID request)) (Fork r request)"
proof -
  have inspect: "still heads (InspectExecutionCheckpoint r reference)" for reference
    unfolding InspectExecutionCheckpoint_def by (intro stills load_history)
  have absent: "still heads (forkTargetAbsent r k)" for k
    unfolding forkTargetAbsent_def by (intro stills)
  have lineage: "still heads (prepareForkLineage r source request)" for source
    unfolding prepareForkLineage_def by (intro stills)
  let ?token = "\<lambda>c. case c of None \<Rightarrow> noToken | Some x \<Rightarrow> tokenAt (frq_TargetID request) (env_Revision x)"
  have publish: "operates heads (frq_TargetID request) noToken (aboutHead (frq_TargetID request)) (do {
      (committed, e) \<leftarrow> inSession r (frq_TargetID request) None (\<lambda>lease. do {
        result \<leftarrow> attempt (forkInSession r source request l lease) (\<lambda>x. ret (Ok (Some x)));
        ret (orNothing None result) });
      observe r (event committed);
      ret (?token committed, e) })" for source l event
    using operates_map [OF operates_session [OF fork_once], where zero = None and g = ?token and Q' = "aboutHead (frq_TargetID request)"
        and f = "\<lambda>c. observe r (event c)"] still_observe [OF host_quiet] by simp
  show ?thesis
    unfolding Fork_def Let_def
    by (intro operates_then [OF inspect] operates_sum operates_error operates_then [OF still_observe [OF host_quiet]] publish
        operates_then [OF still_attempt [OF lineage]] stills absent)
qed

end

section \<open>A delivery is decided once\<close>

context execution_heads begin

lemma still_returns:
  assumes "still heads m" and "returns R m" and "\<And>x. R x \<Longrightarrow> still heads (f x)"
  shows "still heads (State_Monad.bind m f)"
proof -
  have "still heads (State_Monad.bind m (\<lambda>x. if R x then f x else ret undefined))"
    by (intro still_bind [OF assms(1)] still_if assms(3) still_return)
  moreover have "run_state (State_Monad.bind m (\<lambda>x. if R x then f x else ret undefined)) s = run_state (State_Monad.bind m f) s" for s
    using assms(2) by (simp add: returns_def split_beta)
  ultimately show ?thesis by (simp add: still_def)
qed

lemma decided_admitted:
  assumes quiet: "contractQuiet heads contract"
    and found: "findWaitGeneration waits (wdl_Generation d) = Ok (identity, w)" "lookup (wrc_Decisions w) (wdl_ID d) = Some decision"
  shows "still heads (deliverAdmitted r k d contract lease source waits)"
    and "returns (\<lambda>x. \<forall>b. x = Ok b \<longrightarrow> wdr_Replay b \<and> wdr_Decision b = decision) (deliverAdmitted r k d contract lease source waits)"
proof -
  let ?found = "attempt (ret (findWaitGeneration waits (wdl_Generation d))) (\<lambda>(identity, record).
        passing (contractError contract (wrc_Spec record))
          (attempt (prepareWaitDelivery r lease source record d contract) (\<lambda>p. ret (Ok (identity, record, p)))))"
  let ?R = "\<lambda>y. case y of Inl _ \<Rightarrow> True | Inr (_, _, _, decision', replay) \<Rightarrow> replay \<and> decision' = decision"
  have still: "still heads ?found" by (intro stills still_delivery [OF quiet])
  have facts: "returns ?R ?found"
  proof (rule returnsI)
    fix s x s'
    assume run: "run_state ?found s = (x, s')"
    show "?R x"
    proof (cases x)
      case (Inr y)
      then obtain p t t' where y: "y = (identity, w, p)" and prepared: "run_state (prepareWaitDelivery r lease source w d contract) t = (Ok p, t')"
        using run found(1) by (auto simp: attempt_Ok_iff passing_Ok_iff)
      moreover obtain target decision' replay where "p = (target, decision', replay)" by (cases p)
      moreover obtain now matched where
          "prepareWaitDecision (drn_sha r) w d (env_Revision source) (lse_Incarnation lease) now matched = Ok p"
        using returnsD [OF delivery_decision prepared] by auto
      ultimately have "replay \<and> decision' = decision" by (intro prepared_decision(4) [OF _ found(2)]) simp
      then show ?thesis using y Inr \<open>p = _\<close> by simp
    qed simp
  qed
  show "still heads (deliverAdmitted r k d contract lease source waits)"
    unfolding deliverAdmitted_def Let_def
    by (intro still_bind [OF still_restore] still_bind [OF still_observe [OF host_quiet]] still_returns [OF still facts] still_sum still_prod still_if
        still_return still_observe [OF host_quiet]) auto
  show "returns (\<lambda>x. \<forall>b. x = Ok b \<longrightarrow> wdr_Replay b \<and> wdr_Decision b = decision) (deliverAdmitted r k d contract lease source waits)"
    unfolding deliverAdmitted_def Let_def
    by (intro returns_bind [OF facts] returns_then returns_sum returns_prod returns_if returns_return) auto
qed

lemma decided_session:
  assumes quiet: "contractQuiet heads contract" and head: "heads (ses_world s) k = Some e"
    and found: "decided (wdl_Generation d) (wdl_ID d) decision e"
    and run: "run_state (deliverInSession r k d contract lease) s = (x, s')"
  shows "unmovedHeads heads s s' \<and> (\<forall>b. x = Ok b \<longrightarrow> wdr_Replay b \<and> wdr_Decision b = decision)"
proof -
  obtain y t where load: "run_state (waitDeliverySource r k (wdl_Generation d)) s = (y, t)" by fastforce
  have same: "heads (ses_world t) = heads (ses_world s)" by (rule stillD [OF still_source load])
  show ?thesis
  proof (cases y)
    case (Inl err)
    then show ?thesis using run load same by (auto simp: deliverInSession_def run_attempt unmovedHeads_def)
  next
    case (Inr p)
    obtain source waits where p: "p = (source, waits)" by fastforce
    have "source = e" "rawWaits e = waits"
      using source_head [OF load [unfolded Inr p]] head executionWaits_raw by auto
    then obtain identity w where w: "findWaitGeneration waits (wdl_Generation d) = Ok (identity, w)" "lookup (wrc_Decisions w) (wdl_ID d) = Some decision"
      using found by (auto simp: decided_def)
    have "run_state (deliverAdmitted r k d contract lease source waits) t = (x, s')"
      using run load Inr p by (simp add: deliverInSession_def run_attempt)
    with stillD [OF decided_admitted(1) [OF quiet w]] returnsD [OF decided_admitted(2) [OF quiet w]] same show ?thesis
      by (auto simp: unmovedHeads_def)
  qed
qed

lemma decided_delivery:
  assumes "contractQuiet heads contract" and head: "heads (ses_world s) k = Some e"
    and "decided (wdl_Generation d) (wdl_ID d) decision e"
    and run: "run_state (DeliverWait r k d contract) s = ((result, err), s')"
  shows "unmovedHeads heads s s' \<and> (result = noDelivery \<and> err \<noteq> None \<or> wdr_Replay result \<and> wdr_Decision result = decision)"
proof -
  have session: "unmovedHeads heads t s' \<and> (result = noDelivery \<and> err \<noteq> None \<or> wdr_Replay result \<and> wdr_Decision result = decision)"
    if t: "heads (ses_world t) = heads (ses_world s)"
      and inside: "run_state (inSession r k noDelivery (\<lambda>lease. do { x \<leftarrow> deliverInSession r k d contract lease; ret (orNothing noDelivery x) })) t
        = ((result, err), s')" for t
  proof -
    obtain a u where acquire: "run_state (acquireSession r k) t = (a, u)" by fastforce
    have u: "heads (ses_world u) = heads (ses_world t)" by (rule stillD [OF still_acquire acquire])
    show ?thesis
    proof (cases a)
      case (Inl err')
      then show ?thesis using inside acquire u by (auto simp: inSession_def unmovedHeads_def)
    next
      case (Inr lease)
      obtain x v where body: "run_state (deliverInSession r k d contract lease) u = (x, v)" by fastforce
      obtain cleanup w where finish: "run_state (finishSession r lease) v = (cleanup, w)" by fastforce
      have w: "heads (ses_world w) = heads (ses_world v)" by (rule stillD [OF still_finish finish])
      have out: "s' = w" "result = fst (orNothing noDelivery x)" "err = errJoin [snd (orNothing noDelivery x), cleanup]"
        using inside acquire Inr body finish by (auto simp: inSession_def split_beta)
      have v: "heads (ses_world v) = heads (ses_world u)" and replay: "\<And>b. x = Ok b \<Longrightarrow> wdr_Replay b \<and> wdr_Decision b = decision"
        using decided_session [OF assms(1) _ assms(3) body] head t u by (simp_all add: unmovedHeads_def)
      have "unmovedHeads heads t s'" unfolding unmovedHeads_def out(1) by (simp only: w v u)
      moreover have "result = noDelivery \<and> err \<noteq> None \<or> wdr_Replay result \<and> wdr_Decision result = decision"
        using replay unfolding out(2,3) by (cases x) (auto simp: orNothing_def errJoin_None_iff)
      ultimately show ?thesis by blast
    qed
  qed
  obtain y t where early: "run_state (waitDeliverySource r k (wdl_Generation d)) s = (y, t)" by fastforce
  have t: "heads (ses_world t) = heads (ses_world s)" by (rule stillD [OF still_source early])
  then show ?thesis
    using run early session [OF t] by (cases y) (auto simp: DeliverWait_def unmovedHeads_def split: if_splits)
qed

lemma settles_head: "settles heads k s e s' \<Longrightarrow> heads (ses_world s') k = Some e"
  by (auto simp: settles_def Published_def unmovedHeads_def)

end

section \<open>Runners over the in-memory store\<close>

text \<open>
  A runner whose store is \<open>MemoryExecutionStore\<close> and whose host acts on its own part of the
  world: the context and the clocks are read from the world, the observer is any
  computation of the host, and with a profile the wait backend has that profile.
\<close>

definition onHost :: "('h, 'a) state \<Rightarrow> ('h memoryWorld, 'a) state" where
  "onHost m = State (\<lambda>w. case run_state m (mwd_host w) of (x, h) \<Rightarrow> (x, w\<lparr>mwd_host := h\<rparr>))"

definition ofWorld :: "('w \<Rightarrow> 'a) \<Rightarrow> ('w, 'a) state" where
  "ofWorld f = State (\<lambda>w. (f w, w))"

definition onStore :: "('h memoryWorld \<Rightarrow> 'a op) \<Rightarrow> ('h memoryWorld, 'a res) state" where
  "onStore f = State (\<lambda>w. case f w (mwd_store w) of (x, s) \<Rightarrow> (x, w\<lparr>mwd_store := s\<rparr>))"

definition memoryStore :: "sha256 \<Rightarrow> env_codec \<Rightarrow> 'h memoryWorld ExecutionStore" where
  "memoryStore sha enc =
    \<lparr>sto_LoadExecution = (\<lambda>k. ofWorld (\<lambda>w. LoadExecution sha enc (mwd_ctx w) k (mwd_store w))),
     sto_CommitExecution = memoryCommit sha enc,
     sto_AcquireExecution = (\<lambda>k owner ttl. onStore (\<lambda>w. AcquireExecution (mwd_ctx w) (mwd_now w) (mwd_now w) k owner ttl)),
     sto_ReleaseExecution = (\<lambda>lease. do { released \<leftarrow> onStore (\<lambda>w. ReleaseExecution None lease); ret (errOf released) }),
     sto_LoadCheckpoint = Some (memoryLoadCheckpoint sha enc),
     sto_rollover = Some \<lparr>rvs_LoadRollover = (\<lambda>k. ofWorld (\<lambda>w. LoadRollover sha (mwd_ctx w) k (mwd_store w))),
       rvs_CommitRollover = (\<lambda>lease source target. onStore (\<lambda>w. CommitRollover sha enc (mwd_ctx w) (mwd_now w) lease source target))\<rparr>,
     sto_waits = None\<rparr>"

definition memoryHost :: "(LifecycleObservation \<Rightarrow> ('h, unit) state) option \<Rightarrow> 'h memoryWorld durableHost" where
  "memoryHost observer =
    \<lparr>hst_cause = ofWorld mwd_ctx, hst_ctxErr = ofWorld mwd_ctx, hst_observer = map_option (\<lambda>f event. onHost (f event)) observer,
     hst_wallNow = ofWorld mwd_now, hst_capture = ret [], hst_heartbeatLost = ret False\<rparr>"

definition overMemoryRunner ::
    "sha256 \<Rightarrow> env_codec \<Rightarrow> WaitCapabilityProfile option \<Rightarrow> (LifecycleObservation \<Rightarrow> ('h, unit) state) option
     \<Rightarrow> ('h memoryWorld, 't, 'a, 'e) DurableRunner \<Rightarrow> ('h memoryWorld, 't, 'a, 'e) DurableRunner" where
  "overMemoryRunner sha enc profile observer r =
    r\<lparr>drn_store := memoryStore sha enc, drn_host := memoryHost observer, drn_sha := sha, drn_enc := enc,
      drn_waitBackend := map_option (\<lambda>p. \<lparr>wbk_WaitCapabilities = ret p, wbk_RegisterWait = (\<lambda>_. ret None)\<rparr>) profile,
      drn_options := (drn_options r)\<lparr>dop_Clock := None, dop_RetryRandom := ret None, dop_WaitProfile := profile, dop_ForkPolicy := None\<rparr>\<rparr>"

definition memoryHeads :: "'h memoryWorld \<Rightarrow> string \<Rightarrow> ExecutionEnvelope option" where
  "memoryHeads w k = (if headOf (mwd_store w) k = 0 then None else entryOf (mwd_store w) k (headOf (mwd_store w) k))"

lemma overMemoryRunner_simps [simp]:
  "drn_store (overMemoryRunner sha enc p observer r) = memoryStore sha enc" "drn_host (overMemoryRunner sha enc p observer r) = memoryHost observer"
  "drn_sha (overMemoryRunner sha enc p observer r) = sha" "drn_enc (overMemoryRunner sha enc p observer r) = enc"
  "drn_options (overMemoryRunner sha enc p observer r)
    = (drn_options r)\<lparr>dop_Clock := None, dop_RetryRandom := ret None, dop_WaitProfile := p, dop_ForkPolicy := None\<rparr>"
  "drn_waitBackend (overMemoryRunner sha enc p observer r)
    = map_option (\<lambda>p. \<lparr>wbk_WaitCapabilities = ret p, wbk_RegisterWait = (\<lambda>_. ret None)\<rparr>) p"
  "drn_graph (overMemoryRunner sha enc p observer r) = drn_graph r" "drn_descriptor (overMemoryRunner sha enc p observer r) = drn_descriptor r"
  "drn_stateCodec (overMemoryRunner sha enc p observer r) = drn_stateCodec r" "drn_effectsCodec (overMemoryRunner sha enc p observer r) = drn_effectsCodec r"
  by (simp_all add: overMemoryRunner_def)

lemma quiet_ofWorld: "quiet f (ofWorld g)"
  by (simp add: quiet_def ofWorld_def)

lemma quiet_ret: "quiet f (ret x)"
  by (simp add: quiet_def)

lemma quiet_onHost: "quiet memoryHeads (onHost m)"
  by (simp add: quiet_def onHost_def memoryHeads_def fun_eq_iff split_beta)

lemma quiet_onStore:
  assumes "\<And>w s. mes_heads (snd (f w s)) = mes_heads s \<and> mes_history (snd (f w s)) = mes_history s"
  shows "quiet memoryHeads (onStore f)"
  using assms by (simp add: quiet_def onStore_def memoryHeads_def fun_eq_iff headOf_def entryOf_def itemsOf_def split_beta)

lemma quiet_acquire: "quiet memoryHeads (onStore (\<lambda>w. AcquireExecution (ctx w) (now w) (later w) k owner ttl))"
  by (rule quiet_onStore) (simp add: AcquireExecution_def writes_def check_def Let_def split: option.split)

lemma quiet_release: "quiet memoryHeads (do { released \<leftarrow> onStore (\<lambda>w. ReleaseExecution ctx lease); ret (errOf released) })"
proof -
  have "quiet memoryHeads (onStore (\<lambda>w. ReleaseExecution ctx lease))"
    by (rule quiet_onStore) (simp add: ReleaseExecution_def writes_def check_def split: option.split)
  then show ?thesis by (simp add: quiet_def split_beta)
qed

lemma memory_commit:
  assumes "run_state (memoryCommit sha enc n lease e) w = (Ok e', w')"
  shows "env_ExecutionID e = lse_ExecutionID lease \<and> succeeds (memoryHeads w (lse_ExecutionID lease)) n \<and> sealedAs e (n + 1) e'
    \<and> memoryHeads w' = (memoryHeads w)(lse_ExecutionID lease \<mapsto> e')"
proof -
  obtain s where commit: "CommitExecution sha enc (mwd_ctx w) (mwd_now w) n lease e (mwd_store w) = (Ok e', s)" and w': "w' = w\<lparr>mwd_store := s\<rparr>"
    using assms by (auto simp: memoryCommit_def split: prod.splits)
  obtain previous where c: "n \<noteq> - 1" "env_ExecutionID e = lse_ExecutionID lease" "headOf (mwd_store w) (env_ExecutionID e) = n"
      "if n = 0 then previous = None
       else \<exists>stored. previous = Some stored \<and> entryOf (mwd_store w) (env_ExecutionID e) n = Some stored
         \<and> ValidateExecutionIntegrity sha enc stored (env_ExecutionID e) n = None \<and> anchored sha (mwd_store w) (env_ExecutionID e) stored"
      "s = storeEnvelope e' (n = 0) (mwd_store w)"
    by (rule commit_Ok [OF commit]) blast
  have e': "sealedAs e (n + 1) e'" "env_ExecutionID e' = lse_ExecutionID lease" "env_Revision e' = n + 1"
    using commit_sealed [OF commit] c(2) by (auto simp: sealedAs_def)
  have "succeeds (memoryHeads w (lse_ExecutionID lease)) n"
    using c by (auto simp: succeeds_def memoryHeads_def ValidateExecutionIntegrity_None_iff split: if_splits)
  moreover have "memoryHeads w' = (memoryHeads w)(lse_ExecutionID lease \<mapsto> e')"
    using c(1,5) e' rev_succ_nonzero by (auto simp: memoryHeads_def w' fun_eq_iff)
  ultimately show ?thesis using c(2) e'(1) by blast
qed

lemma memory_commit_error:
  "run_state (memoryCommit sha enc n lease e) w = (Inl x, w') \<Longrightarrow> w' = w"
  using writes_error by (fastforce simp: memoryCommit_def CommitExecution_def split: prod.splits)

lemma memory_host_quiet: "hostQuiet memoryHeads (overMemoryRunner sha enc p observer r)"
  by (auto simp: hostQuiet_def memoryHost_def intro: quiet_ofWorld quiet_ret quiet_onHost)

interpretation memory_runner: execution_heads "overMemoryRunner sha enc p observer r" memoryHeads for sha enc p observer r
proof
  show "quiet memoryHeads (sto_LoadExecution (drn_store (overMemoryRunner sha enc p observer r)) k)" for k
    by (simp add: memoryStore_def quiet_ofWorld)
  show "run_state (sto_LoadExecution (drn_store (overMemoryRunner sha enc p observer r)) k) w = (Ok e, w') \<Longrightarrow> memoryHeads w k = Some e" for k w e w'
    by (auto simp: memoryStore_def ofWorld_def LoadExecution_def memoryHeads_def res_simps split: if_splits)
  show "run_state (sto_AcquireExecution (drn_store (overMemoryRunner sha enc p observer r)) k owner ttl) w = (Ok lease, w') \<Longrightarrow> lse_ExecutionID lease = k"
      for k owner ttl w lease w'
    by (auto simp: memoryStore_def onStore_def AcquireExecution_def Let_def res_simps split: if_splits prod.splits)
  show "quiet memoryHeads (load k n)" if "sto_LoadCheckpoint (drn_store (overMemoryRunner sha enc p observer r)) = Some load" for load k n
    using that by (auto simp: memoryStore_def memoryLoadCheckpoint_def quiet_def)
qed (auto simp: memory_host_quiet memoryStore_def quiet_acquire quiet_release dest: memory_commit memory_commit_error)

text \<open>
  The same store behind a connection that loses every acknowledgement: the commit happens
  and the caller gets an error. This is the fault store of lifecycle\_lost\_ack\_test.go.
\<close>

definition lostAckCommit ::
    "sha256 \<Rightarrow> env_codec \<Rightarrow> uint64 \<Rightarrow> ExecutionLease \<Rightarrow> ExecutionEnvelope \<Rightarrow> ('h memoryWorld, ExecutionEnvelope res) state" where
  "lostAckCommit sha enc n lease e = do {
     r \<leftarrow> memoryCommit sha enc n lease e;
     ret (case r of Inl x \<Rightarrow> Inl x | Inr _ \<Rightarrow> Inl (Plain ''injected commit failure'')) }"

definition overLostAckRunner ::
    "sha256 \<Rightarrow> env_codec \<Rightarrow> WaitCapabilityProfile option \<Rightarrow> (LifecycleObservation \<Rightarrow> ('h, unit) state) option
     \<Rightarrow> ('h memoryWorld, 't, 'a, 'e) DurableRunner \<Rightarrow> ('h memoryWorld, 't, 'a, 'e) DurableRunner" where
  "overLostAckRunner sha enc profile observer r =
    (overMemoryRunner sha enc profile observer r)\<lparr>drn_store := (memoryStore sha enc)\<lparr>sto_CommitExecution := lostAckCommit sha enc\<rparr>\<rparr>"

lemma lost_ack_simps [simp]:
  "drn_store (overLostAckRunner sha enc p observer r) = (memoryStore sha enc)\<lparr>sto_CommitExecution := lostAckCommit sha enc\<rparr>"
  by (simp add: overLostAckRunner_def)

lemma lost_ack_commit:
  assumes "run_state (lostAckCommit sha enc n lease e) w = (x, w')"
  shows "(\<exists>err. x = Inl err) \<and> (w' = w \<or> (\<exists>e'. run_state (memoryCommit sha enc n lease e) w = (Ok e', w')))"
  using assms by (auto simp: lostAckCommit_def split: sum.splits prod.splits dest: memory_commit_error)

interpretation lost_ack_runner: execution_heads "overLostAckRunner sha enc p observer r" memoryHeads for sha enc p observer r
proof
  let ?r = "overLostAckRunner sha enc p observer r"
  note memory = memory_runner.execution_heads_axioms [where sha = sha and enc = enc and p = p and observer = observer and r = r]
  show "hostQuiet memoryHeads ?r"
    using memory_host_quiet [of sha enc p observer r] by (simp add: overLostAckRunner_def hostQuiet_def)
  show "quiet memoryHeads (sto_LoadExecution (drn_store ?r) k)" for k
    using execution_heads.load_quiet [OF memory] by simp
  show "run_state (sto_LoadExecution (drn_store ?r) k) w = (Ok e, w') \<Longrightarrow> memoryHeads w k = Some e" for k w e w'
    using execution_heads.load_head [OF memory] by simp
  show "sto_LoadCheckpoint (drn_store ?r) = Some load \<Longrightarrow> quiet memoryHeads (load k n)" for load k n
    using execution_heads.load_history [OF memory] by simp
  show "quiet memoryHeads (sto_AcquireExecution (drn_store ?r) k owner ttl)" for k owner ttl
    using execution_heads.acquire_quiet [OF memory] by simp
  show "run_state (sto_AcquireExecution (drn_store ?r) k owner ttl) w = (Ok lease, w') \<Longrightarrow> lse_ExecutionID lease = k" for k owner ttl w lease w'
    using execution_heads.acquire_lease [OF memory] by simp
  show "quiet memoryHeads (sto_ReleaseExecution (drn_store ?r) lease)" for lease
    using execution_heads.release_quiet [OF memory] by simp
  show "memoryHeads w' = memoryHeads w
      \<or> (\<exists>e'. succeeds (memoryHeads w (lse_ExecutionID lease)) n \<and> sealedAs e (n + 1) e' \<and> memoryHeads w' = (memoryHeads w)(lse_ExecutionID lease \<mapsto> e'))"
    if "run_state (sto_CommitExecution (drn_store ?r) n lease e) w = (Inl x, w')" for n lease e w x w'
  proof -
    have "run_state (lostAckCommit sha enc n lease e) w = (Inl x, w')" using that by simp
    from lost_ack_commit [OF this] show ?thesis using memory_commit by blast
  qed
  show "env_ExecutionID e = lse_ExecutionID lease \<and> succeeds (memoryHeads w (lse_ExecutionID lease)) n \<and> sealedAs e (n + 1) e'
      \<and> memoryHeads w' = (memoryHeads w)(lse_ExecutionID lease \<mapsto> e')"
    if "run_state (sto_CommitExecution (drn_store ?r) n lease e) w = (Ok e', w')" for n lease e w e' w'
  proof -
    have "run_state (lostAckCommit sha enc n lease e) w = (Ok e', w')" using that by simp
    from lost_ack_commit [OF this] show ?thesis by simp
  qed
qed

section \<open>Requests on a stored execution\<close>

text \<open>The operations that change one execution without running a node, with their arguments.\<close>

datatype ('w, 't) durableRequest =
    Deliver string WaitDelivery "('w, 't) WaitDeliveryContract"
  | Cancel ResumeToken WaitCancellation
  | Resolve ResumeToken ActivityResolution
  | ConfirmChild ResumeToken ChildCancelConfirmation
  | ResolveWaiting ResumeToken ChildWaitResolution
  | ResolveUnknown ResumeToken ChildOutcomeResolution
  | ForkFrom ForkRequest
  | ImportFrom string LegacyExecutionSource ExecutionImporter

fun requestTarget :: "('w, 't) durableRequest \<Rightarrow> string" where
  "requestTarget (Deliver k d contract) = k"
| "requestTarget (Cancel token request) = tok_ThreadID token"
| "requestTarget (Resolve token rsn) = tok_ThreadID token"
| "requestTarget (ConfirmChild token decision) = tok_ThreadID token"
| "requestTarget (ResolveWaiting token resolution) = tok_ThreadID token"
| "requestTarget (ResolveUnknown token resolution) = tok_ThreadID token"
| "requestTarget (ForkFrom request) = frq_TargetID request"
| "requestTarget (ImportFrom k source importer) = k"

fun perform :: "('w, 't, 'a, 'e) DurableRunner \<Rightarrow> ('w, 't) durableRequest \<Rightarrow> ('w session, ResumeToken \<times> err option) state" where
  "perform r (Deliver k d contract) = do { (result, e) \<leftarrow> DeliverWait r k d contract; ret (wdr_ResumeToken result, e) }"
| "perform r (Cancel token request) = CancelWait r token request"
| "perform r (Resolve token rsn) = ResolveActivity r token rsn"
| "perform r (ConfirmChild token decision) = ConfirmChildCancellation r token decision"
| "perform r (ResolveWaiting token resolution) = ResolveChildWait r token resolution"
| "perform r (ResolveUnknown token resolution) = ResolveChildOutcome r token resolution"
| "perform r (ForkFrom request) = Fork r request"
| "perform r (ImportFrom k source importer) = Import r k source importer"

definition requestQuiet :: "('w \<Rightarrow> 'k) \<Rightarrow> ('w, 't) durableRequest \<Rightarrow> bool" where
  "requestQuiet f q \<longleftrightarrow> (case q of Deliver k d contract \<Rightarrow> contractQuiet f contract | _ \<Rightarrow> True)"

context execution_heads begin

lemma perform_operates:
  assumes "requestQuiet heads q"
  shows "operates heads (requestTarget q) noToken (aboutHead (requestTarget q)) (perform r q)"
proof (cases q)
  case (Deliver k d contract)
  have "operates heads k noDelivery (aboutDecision k d) (DeliverWait r k d contract)"
    using assms Deliver by (intro deliver_operates) (simp add: requestQuiet_def)
  from operates_map [OF this, where f = "\<lambda>_. ret ()" and g = wdr_ResumeToken and Q' = "aboutHead k"]
  show ?thesis using Deliver by (simp add: still_return aboutDecision_def)
qed (simp_all add: cancel_operates resolve_operates child_operates fork_operates import_operates)

lemma delivery_about:
  assumes "contractQuiet heads contract" and "run_state (DeliverWait r k d contract) s = ((result, err), s')" and "wdr_ResumeToken result \<noteq> noToken"
  obtains e where "heads (ses_world s') k = Some e" "decided (wdl_Generation d) (wdl_ID d) (wdr_Decision result) e"
  using deliver_operates [OF assms(1), of k d] assms(2,3) settles_head unfolding operates_def aboutDecision_def by fastforce

end

text \<open>
  C37. Delivering to a wait, canceling a wait, deciding an activity or a child, forking and
  importing write at most one envelope, whatever the store answers. For every store that
  keeps the contract of execution\_store.go, where a commit that reports an error may have
  been published with its acknowledgement lost, an operation returns either a token for
  the head of its target, which is the head from before (a replay) or its direct successor
  with the next revision, and no other execution has moved; then an error can only report
  a failed cleanup. Or it returns no token, with an error, and no head of any execution
  has moved, or only that of the target, by one publication to the next revision: what the
  caller then finds in the store is one commit of this operation and never two.
\<close>

theorem operation_commits_at_most_once:
  assumes "execution_heads r heads" and "requestQuiet heads q" and "run_state (perform r q) s = ((token, err), s')"
  shows "(\<exists>e. settles heads (requestTarget q) s e s' \<and> token = tokenAt (requestTarget q) (env_Revision e))
    \<or> token = noToken \<and> err \<noteq> None \<and> (unmovedHeads heads s s' \<or> (\<exists>e. Published heads (requestTarget q) s e s'))"
  using execution_heads.perform_operates [OF assms(1,2)] assms(3) unfolding operates_def failed_def by blast

text \<open>
  C38. A delivery is decided once. When \<open>DeliverWait\<close> returned a token for the delivery
  with some identifier, then every later delivery to the same wait generation with the
  same identifier, while the execution is still at that head, moves no head; whatever its
  kind, payload and contract, it fails without a result or replays the first decision.
\<close>

theorem delivery_decided_once:
  assumes "execution_heads r heads" and "contractQuiet heads contract" and "contractQuiet heads contract'"
    and "run_state (DeliverWait r k d contract) s = ((result, err), s')" and "wdr_ResumeToken result \<noteq> noToken"
    and "heads (ses_world t) k = heads (ses_world s') k" and "wdl_Generation d' = wdl_Generation d" and "wdl_ID d' = wdl_ID d"
    and "run_state (DeliverWait r k d' contract') t = ((result', err'), t')"
  shows "unmovedHeads heads t t'
    \<and> (result' = noDelivery \<and> err' \<noteq> None \<or> wdr_Replay result' \<and> wdr_Decision result' = wdr_Decision result)"
proof -
  obtain e where "heads (ses_world s') k = Some e" "decided (wdl_Generation d) (wdl_ID d) (wdr_Decision result) e"
    by (rule execution_heads.delivery_about [OF assms(1,2,4,5)])
  with execution_heads.decided_delivery [OF assms(1,3) _ _ assms(9)] assms(6-8) show ?thesis by simp
qed

definition sampleDurable :: "(LifecycleObservation \<Rightarrow> ('h, unit) state) option \<Rightarrow> ('h memoryWorld, string, string, char) DurableRunner" where
  "sampleDurable observer = overMemoryRunner sampleSha sampleEnc (Some sampleProfile) observer
    \<lparr>drn_graph = \<lparr>gph_nodes = [(''n'', None), (''a'', None), (''b'', None)], gph_edges = [(''n'', EndNode)],
     gph_conditionalEdges = [], gph_conditionalAllowed = [], gph_retryRoutes = [], gph_entryPoint = ''n'',
     gph_reducer = None, gph_defaults = applyBuildOptions [WithMaxSteps 3]\<rparr>,
     drn_store = memoryStore sampleSha sampleEnc, drn_descriptor = sampleDescriptor,
     drn_stateCodec = \<lparr>srz_Marshal = Ok, srz_Unmarshal = Ok\<rparr>, drn_effectsCodec = \<lparr>srz_Marshal = Ok, srz_Unmarshal = Ok\<rparr>,
     drn_options = \<lparr>dop_Owner = ''o'', dop_LeaseTTL = 10, dop_Migrations = [], dop_Clock = None, dop_RetryRandom = ret None,
       dop_WaitProfile = None, dop_ForkPolicy = None\<rparr>,
     drn_waitBackend = None, drn_host = memoryHost None, drn_zero = '''', drn_asEffect = (\<lambda>_. None), drn_sha = sampleSha,
     drn_enc = sampleEnc, drn_errText = (\<lambda>_. ''error'')\<rparr>"

definition armedEnvelope :: ExecutionEnvelope where
  "armedEnvelope = sampleEnvelope\<lparr>env_Revision := 3, env_Digest := sampleSha '''', env_RuntimeProfile := Some sampleProfile,
     env_WaitsPayload := Bytes_of True [(waitIdentity sampleSha ''e'' ''n'' 1 ''w'', sampleWait)]\<rparr>"

definition armedSession :: "'h \<Rightarrow> 'h memoryWorld session" where
  "armedSession h = (sampleSession h)\<lparr>ses_world := \<lparr>mwd_store = NewMemoryExecutionStore
     \<lparr>mes_history := [(''e'', [(3, armedEnvelope)])], mes_heads := [(''e'', 3)]\<rparr>, mwd_now = 150, mwd_ctx = None, mwd_host = h\<rparr>\<rparr>"

definition sampleContract :: "('w, string) WaitDeliveryContract" where
  "sampleContract = \<lparr>wct_MatcherLabel = ''m'', wct_PayloadCodec = ''p'', wct_ContinuationLabel = ''k'', wct_Match = None, 
     wct_Apply = Some (\<lambda>st delivery. ret (Ok ''late''))\<rparr>"

lemma sample_delivered:
  "fst (run_state (DeliverWait (sampleDurable None) ''e'' sampleTimer sampleContract) (armedSession ()))
    = (\<lparr>wdr_Decision = newWaitDecision sampleSha sampleWait sampleTimer 3 1 150 False, wdr_ResumeToken = tokenAt ''e'' 4, wdr_Replay = False\<rparr>, None)"
  by code_simp

lemma sample_laws: "execution_heads (sampleDurable observer) memoryHeads"
  unfolding sampleDurable_def by (rule memory_runner.execution_heads_axioms)

lemma sample_contract_quiet: "contractQuiet f sampleContract"
  by (simp add: contractQuiet_def sampleContract_def quiet_ret)

definition sampleLostAck :: "(unit memoryWorld, string, string, char) DurableRunner" where
  "sampleLostAck = overLostAckRunner sampleSha sampleEnc (Some sampleProfile) None (sampleDurable None)"

lemma sample_lost_ack:
  "(case run_state (perform sampleLostAck (Deliver ''e'' sampleTimer sampleContract)) (armedSession ()) of
      (x, s') \<Rightarrow> (x, map_option env_Revision (memoryHeads (ses_world s') ''e'')))
    = ((noToken, errJoin [Some (Plain ''injected commit failure''), None]), Some 4)"
  by code_simp

lemma armed_head: "map_option env_Revision (memoryHeads (ses_world (armedSession h)) ''e'') = Some 3"
  by (simp add: memoryHeads_def armedSession_def headOf_def entryOf_def itemsOf_def armedEnvelope_def)

theorem operation_commits_at_most_once_witness:
  "(\<exists>e s'. run_state (perform (sampleDurable None) (Deliver ''e'' sampleTimer sampleContract)) (armedSession ()) = ((tokenAt ''e'' 4, None), s')
      \<and> settles memoryHeads ''e'' (armedSession ()) e s' \<and> env_Revision e = 4)
    \<and> (\<exists>e s' err. run_state (perform sampleLostAck (Deliver ''e'' sampleTimer sampleContract)) (armedSession ()) = ((noToken, Some err), s')
      \<and> Published memoryHeads ''e'' (armedSession ()) e s')"
proof
  have quiet: "requestQuiet memoryHeads (Deliver ''e'' sampleTimer sampleContract)"
    by (simp add: requestQuiet_def sample_contract_quiet)
  obtain s' where run: "run_state (perform (sampleDurable None) (Deliver ''e'' sampleTimer sampleContract)) (armedSession ()) = ((tokenAt ''e'' 4, None), s')"
    using sample_delivered by (auto simp: split_beta)
  from operation_commits_at_most_once [OF sample_laws quiet run] run
  show "\<exists>e s'. run_state (perform (sampleDurable None) (Deliver ''e'' sampleTimer sampleContract)) (armedSession ()) = ((tokenAt ''e'' 4, None), s')
      \<and> settles memoryHeads ''e'' (armedSession ()) e s' \<and> env_Revision e = 4" by auto
  let ?lost = "run_state (perform sampleLostAck (Deliver ''e'' sampleTimer sampleContract)) (armedSession ())"
  obtain token err t' where run': "?lost = ((token, err), t')" by (metis prod.collapse)
  have "token = noToken" "err \<noteq> None" "map_option env_Revision (memoryHeads (ses_world t') ''e'') = Some 4"
    using sample_lost_ack unfolding run' by (simp_all add: errJoin_None_iff)
  then obtain err' where lost: "?lost = ((noToken, Some err'), t')" and "\<not> unmovedHeads memoryHeads (armedSession ()) t'"
    using run' armed_head [of "()"] unfolding unmovedHeads_def by fastforce
  moreover have "noToken \<noteq> tokenAt ''e'' n" for n by simp
  moreover have "execution_heads sampleLostAck memoryHeads"
    unfolding sampleLostAck_def by (rule lost_ack_runner.execution_heads_axioms)
  ultimately show "\<exists>e s' err. run_state (perform sampleLostAck (Deliver ''e'' sampleTimer sampleContract)) (armedSession ()) = ((noToken, Some err), s')
      \<and> Published memoryHeads ''e'' (armedSession ()) e s'"
    using lost operation_commits_at_most_once [OF _ quiet lost] unfolding requestTarget.simps by blast
qed

theorem delivery_decided_once_witness:
  "\<exists>result err s s'. run_state (DeliverWait (sampleDurable None) ''e'' (sampleTimer\<lparr>wdl_Payload := ''x''\<rparr>) sampleContract)
      (snd (run_state (DeliverWait (sampleDurable None) ''e'' sampleTimer sampleContract) (armedSession ()))) = ((result, err), s')
    \<and> unmovedHeads memoryHeads s s' \<and> (result = noDelivery \<and> err \<noteq> None
      \<or> wdr_Replay result \<and> wdr_Decision result = newWaitDecision sampleSha sampleWait sampleTimer 3 1 150 False)"
proof -
  obtain s where first: "run_state (DeliverWait (sampleDurable None) ''e'' sampleTimer sampleContract) (armedSession ())
      = ((\<lparr>wdr_Decision = newWaitDecision sampleSha sampleWait sampleTimer 3 1 150 False, wdr_ResumeToken = tokenAt ''e'' 4, wdr_Replay = False\<rparr>, None), s)"
    using sample_delivered by (metis prod.collapse)
  obtain result err s' where second: "run_state (DeliverWait (sampleDurable None) ''e'' (sampleTimer\<lparr>wdl_Payload := ''x''\<rparr>) sampleContract) s
      = ((result, err), s')"
    by (metis prod.collapse)
  from delivery_decided_once [OF sample_laws sample_contract_quiet sample_contract_quiet first _ refl _ _ second] first second
  show ?thesis by (intro exI [of _ result] exI [of _ err] exI [of _ s] exI [of _ s']) simp
qed

end
