(* ===== verification/Durable_Runner.thy ===== *)
theory Durable_Runner
  imports Session_Contracts
begin

text \<open>
  Runs of the durable runner (durable\_runner.go): the graph runner of runner.go with
  the durable checkpointer as its engine, the replay of a finished execution
  (execution\_observation.go), the recovery of an armed wait
  (durable\_wait\_registration.go), and \<open>Start\<close> and \<open>Resume\<close>. The world of the graph
  runner is the session, so a node can call \<open>CallActivity\<close> on it. Streams are not
  modelled: the sink of a run is nil.
\<close>

section \<open>The engine of a run\<close>

text \<open>\<open>RegisterWait\<close> of the backend with the event that \<open>registerDurableWait\<close> publishes when it fails.\<close>

definition observedRegisterWait ::
    "('w, 't, 'a, 'e) DurableRunner \<Rightarrow> 'w DurableWaitBackend \<Rightarrow> DurableWaitRecord \<Rightarrow> ('w session, err option) state" where
  "observedRegisterWait r backend record = do {
     e \<leftarrow> host (wbk_RegisterWait backend record);
     (if e = None then ret ()
      else observe r ((lifecycleObservation LifecycleWaitArm LifecycleFailed (wrc_ExecutionID record) (wrc_Node record))
        \<lparr>obs_WorkID := wrc_Generation record, obs_SourceRevision := wrc_ArmRevision record, obs_Code := ''wait_registration_failed''\<rparr>));
     ret e }"

definition checkpointerEngine :: "('w, 't, 'a, 'e) DurableRunner \<Rightarrow> ('w, 't, 'e) executionCheckpointer \<Rightarrow> ('w session, 't, 'e) durableEngine" where
  "checkpointerEngine r c =
    \<lparr>dur_Load = (\<lambda>threadID. do { loaded \<leftarrow> executionLoad c threadID; ret (res_bind loaded (\<lambda>(snapshot, _). Ok snapshot)) }),
     dur_commitStep = commitStep c, dur_armWait = armWait c,
     dur_waitCapabilities = map_option (\<lambda>backend. host (wbk_WaitCapabilities backend)) (exc_waitBackend c),
     dur_RegisterWait = (case exc_waitBackend c of None \<Rightarrow> (\<lambda>_. ret None) | Some backend \<Rightarrow> observedRegisterWait r backend)\<rparr>"

definition checkpointerInterface ::
    "('w, 't, 'a, 'e) DurableRunner \<Rightarrow> ('w, 't, 'e) executionCheckpointer \<Rightarrow> ('w session, 't, 'e, unit) Checkpointer" where
  "checkpointerInterface r c =
    \<lparr>ckp_Save = executionSave c,
     ckp_Load = (\<lambda>threadID. do {
       loaded \<leftarrow> executionLoad c threadID;
       ret (case loaded of
           Inl e \<Rightarrow> (zeroSnapshot (drn_zero r) emptyRunMeta, 0, Some e)
         | Inr (snapshot, revision) \<Rightarrow> (snapshot, revision, None)) }),
     ckp_Prune = executionPrune, ckp_DeleteIfIdle = executionDeleteIfIdle, ckp_SaveWithOutbox = None\<rparr>"

text \<open>\<open>Graph.NewRunner(cp)\<close> with \<open>base.durable = cp\<close>, without a sink.\<close>

definition durableGraphRunner ::
    "('w, 't, 'a, 'e) DurableRunner \<Rightarrow> ('w, 't, 'e) executionCheckpointer \<Rightarrow> ('w session, 't, 'a, 'e, unit) graphRunner" where
  "durableGraphRunner r c =
    \<lparr>grn_graph = drn_graph r, grn_checkpointer = Some (checkpointerInterface r c), grn_interceptors = [], grn_handoffOutbox = None,
     grn_handoffStaleAfter = DefaultHandoffStaleAfter, grn_durable = Some (checkpointerEngine r c),
     grn_cause = host (hst_cause (drn_host r)), grn_ctxErr = host (hst_ctxErr (drn_host r)), grn_consumerClosed = ret False,
     grn_now = host (hst_wallNow (drn_host r)), grn_capture = host (hst_capture (drn_host r)), grn_sink = None,
     grn_errText = drn_errText r, grn_asEffect = drn_asEffect r\<rparr>"

section \<open>Options\<close>

definition checkpointPolicyError :: "('w, 't, 'x) runInvocationOptions \<Rightarrow> err option" where
  "checkpointPolicyError opts =
    (case inv_checkpointPolicy opts of
       CheckpointPolicyOther s \<Rightarrow> if s = '''' then None else Some (Wrapped ''policy'' [Sent (Also ErrInvalidCheckpointPolicy)])
     | _ \<Rightarrow> None)"

definition validateRunOptions :: "('w, 't, 'x) runInvocationOptions \<Rightarrow> string \<Rightarrow> err option" where
  "validateRunOptions opts leaseOwner =
    orElse (checkpointPolicyError opts)
    (orElse (reject (inv_atomicHandoff opts) ErrTransactionalOutboxUnsupported)
      (reject (inv_checkpointPolicy opts = CheckpointPolicySkipOnSaveError \<or> leaseOwner \<noteq> '''') ErrExecutionCapability))"

section \<open>Finished and waiting executions\<close>

definition cachedDurableTerminal ::
    "('w, 't, 'a, 'e) DurableRunner \<Rightarrow> ExecutionEnvelope \<Rightarrow> ExecutionTerminal \<Rightarrow> ('w session, unit) state" where
  "cachedDurableTerminal r e terminal = observe r ((executionObservation e LifecycleTerminal LifecycleReplayed)
     \<lparr>obs_Code := (if trm_Status terminal = RunStatusFailed then lifecycleOutcomeFailed else lifecycleOutcomeCompleted),
      obs_Revision := env_Revision e\<rparr>)"

definition cachedDurableResult ::
    "('w, 't, 'a, 'e) DurableRunner \<Rightarrow> ExecutionEnvelope \<Rightarrow> ExecutionTerminal \<Rightarrow> ('t, 'e) Snapshot \<Rightarrow> ('w session, ('t, 'e) outcome) state" where
  "cachedDurableResult r e terminal snapshot = do {
     cachedDurableTerminal r e terminal;
     ret (Some \<lparr>rst_State = snp_State snapshot, rst_Status = trm_Status terminal, rst_Effects = snp_Effects snapshot,
         rst_RunMeta = snp_RunMeta snapshot, rst_ExecutionPointer = snp_ExecutionPointer snapshot, rst_Reason = trm_Reason terminal,
         rst_ResumeToken = tokenAt (env_ExecutionID e) (env_Revision e)\<rparr>,
       terminalFailureError (Some terminal)) }"

text \<open>An accepted envelope has at most one armed wait; its registration is repeated.\<close>

definition recoverArmedWait ::
    "('w, 't, 'a, 'e) DurableRunner \<Rightarrow> ('w, 't, 'e) executionCheckpointer \<Rightarrow> ExecutionEnvelope \<Rightarrow> ('t, 'e) Snapshot
     \<Rightarrow> ('w session, ('t, 'e) outcome option) state" where
  "recoverArmedWait r c e snapshot =
    (case executionWaits (drn_sha r) e of
       Inl x \<Rightarrow> ret (Some (Some (newRunResult (RunStatusOther '''') (drn_zero r) [] emptyRunMeta '''' ''''), Some x))
     | Inr waits \<Rightarrow>
         (case List.find (\<lambda>(_, w). wrc_State w = WaitArmed) waits of
            None \<Rightarrow> ret None
          | Some (_, record) \<Rightarrow> do {
              let result = (newRunResultSuspended (snp_State snapshot) (snp_Effects snapshot) (snp_RunMeta snapshot)
                (snp_ExecutionPointer snapshot) ''durable_wait'')\<lparr>rst_ResumeToken := tokenAt (env_ExecutionID e) (env_Revision e)\<rparr>;
              failed \<leftarrow> registerDurableWait (durableGraphRunner r c) (checkpointerEngine r c) record;
              case failed of
                Some x \<Rightarrow> ret (Some (Some result, Some x))
              | None \<Rightarrow> do {
                  observe r ((waitObservation e LifecycleWaitArm (wrc_Generation record) '''')
                    \<lparr>obs_Stage := LifecycleReplayed, obs_Revision := env_Revision e\<rparr>);
                  ret (Some (Some result, None)) } }))"

section \<open>Runs\<close>

definition observeInvocationOutcome ::
    "('w, 't, 'a, 'e) DurableRunner \<Rightarrow> LifecycleObservation \<Rightarrow> ('t, 'e) RunResult option \<Rightarrow> err option \<Rightarrow> ('w session, unit) state" where
  "observeInvocationOutcome r event result runErr = observe r
    (case (runErr, result) of
       (None, Some rst) \<Rightarrow> event\<lparr>obs_Stage := LifecycleCommitted, obs_Revision := tok_SnapshotRevision (rst_ResumeToken rst)\<rparr>
     | _ \<Rightarrow> event\<lparr>obs_Stage := LifecycleFailed\<rparr>)"

text \<open>
  A run from the loaded snapshot: the resume decision, the loop of the graph runner,
  and the commit of a failed result. \<open>None\<close> is a panic of a node; its deferred cleanup
  is not modelled.
\<close>

definition runNodes ::
    "('w, 't, 'a, 'e) DurableRunner \<Rightarrow> ('w, 't, 'e) executionCheckpointer \<Rightarrow> ('w session, 't, unit) runInvocationOptions \<Rightarrow> ExecutionEnvelope
     \<Rightarrow> ('w session, ('t, 'e) outcome option) state" where
  "runNodes r c opts e = do {
     let base = durableGraphRunner r c;
     (decision, refused) \<leftarrow> evaluateResume base (checkpointerInterface r c) (drn_zero r) opts (tokenAt (env_ExecutionID e) (env_Revision e));
     case refused of
       Some x \<Rightarrow> ret (Some (None, Some x))
     | None \<Rightarrow> do {
         let event = (executionObservation e LifecycleExecution LifecycleStarted)
           \<lparr>obs_SegmentID := seg_SegmentID (rmd_Segment (dcn_RunMeta decision))\<rparr>;
         observe r event;
         out \<leftarrow> execute base opts (ret False) (env_ExecutionID e) \<lparr>lps_current = dcn_ExecutionPointer decision, lps_state = dcn_State decision,
           lps_meta = dcn_RunMeta decision, lps_effects = dcn_Effects decision, lps_revision = dcn_SnapshotRevision decision\<rparr>;
         case out of
           None \<Rightarrow> ret None
         | Some (result, runErr) \<Rightarrow> do {
             (result', runErr') \<leftarrow> finalizeRunOutcome c result runErr (\<lambda>_. ret True) None;
             observeInvocationOutcome r event result' runErr';
             ret (Some (result', runErr')) } } }"

text \<open>\<open>runWithSink\<close> without a sink. The checkpointer starts with the envelope as its head.\<close>

definition runWithSink ::
    "('w, 't, 'a, 'e) DurableRunner \<Rightarrow> ('w session, 't, unit) runInvocationOptions \<Rightarrow> string \<Rightarrow> ExecutionLease \<Rightarrow> ExecutionEnvelope
     \<Rightarrow> ('w session, ('t, 'e) outcome option) state" where
  "runWithSink r opts leaseOwner lease e =
    (case orElse (checkpointPolicyError opts)
        (reject (inv_checkpointPolicy opts = CheckpointPolicySkipOnSaveError \<or> leaseOwner \<noteq> '''') ErrExecutionCapability) of
       Some x \<Rightarrow> ret (Some (None, Some x))
     | None \<Rightarrow> do {
         let c = sessionCheckpointer r lease (executionForkMode e);
         prepared \<leftarrow> alive r (do {
           modify (\<lambda>s. s\<lparr>ses_envelope := e, ses_stepRevision := env_Revision e, ses_persistenceFailed := False\<rparr>);
           waitErr \<leftarrow> checkArmedWaitCompatibility r e;
           passing waitErr (attempt (executionLoad c (env_ExecutionID e)) (\<lambda>(snapshot, _). do {
             attachSessionObservation c e;
             alive r (ret (Ok snapshot)) })) });
         case prepared of
           Inl x \<Rightarrow> ret (Some (None, Some x))
         | Inr snapshot \<Rightarrow>
             (case env_Terminal e of
                Some terminal \<Rightarrow> do { out \<leftarrow> cachedDurableResult r e terminal snapshot; ret (Some out) }
              | None \<Rightarrow> do {
                  waiting \<leftarrow> recoverArmedWait r c e snapshot;
                  case waiting of
                    Some out \<Rightarrow> ret (Some out)
                  | None \<Rightarrow> runNodes r c opts e }) })"

text \<open>The frame of \<open>Start\<close> and \<open>Resume\<close>: prepare the envelope under the lease, run it, finish the session.\<close>

definition runInSession ::
    "('w, 't, 'a, 'e) DurableRunner \<Rightarrow> ('w session, 't, unit) runInvocationOptions \<Rightarrow> string \<Rightarrow> string
     \<Rightarrow> (ExecutionLease \<Rightarrow> ('w session, ExecutionEnvelope res) state) \<Rightarrow> ('w session, ('t, 'e) outcome option) state" where
  "runInSession r opts leaseOwner execution prepare = do {
     acquired \<leftarrow> acquireSession r execution;
     case acquired of
       Inl e \<Rightarrow> ret (Some (None, Some e))
     | Inr lease \<Rightarrow> do {
         prepared \<leftarrow> prepare lease;
         out \<leftarrow> (case prepared of Inl e \<Rightarrow> ret (Some (None, Some e)) | Inr e \<Rightarrow> runWithSink r opts leaseOwner lease e);
         case out of
           None \<Rightarrow> ret None
         | Some (result, e) \<Rightarrow> do { cleanup \<leftarrow> finishSession r lease; ret (Some (result, errJoin [e, cleanup])) } } }"

definition durableStart ::
    "('w, 't, 'a, 'e) DurableRunner \<Rightarrow> ('w session, 't, unit) runInvocationOptions \<Rightarrow> string \<Rightarrow> string \<Rightarrow> 't
     \<Rightarrow> ('w session, ('t, 'e) outcome option) state" where
  "durableStart r opts leaseOwner execution initial =
    (case validateRunOptions opts leaseOwner of
       Some e \<Rightarrow> ret (Some (None, Some e))
     | None \<Rightarrow> do {
         profileErr \<leftarrow> checkRuntimeProfile r (dop_WaitProfile (drn_options r));
         case profileErr of
           Some e \<Rightarrow> ret (Some (None, Some e))
         | None \<Rightarrow> runInSession r opts leaseOwner execution (\<lambda>lease. prepareStart r lease initial) })"

definition durableResume ::
    "('w, 't, 'a, 'e) DurableRunner \<Rightarrow> ('w session, 't, unit) runInvocationOptions \<Rightarrow> string \<Rightarrow> ResumeToken
     \<Rightarrow> ('w session, ('t, 'e) outcome option) state" where
  "durableResume r opts leaseOwner token =
    (case validateRunOptions opts leaseOwner of
       Some e \<Rightarrow> ret (Some (None, Some e))
     | None \<Rightarrow> runInSession r opts leaseOwner (tok_ThreadID token) (\<lambda>lease. prepareResume r lease token))"

section \<open>Starts and finished executions\<close>

text \<open>The frame of a run: an error before the run, or the outcome of the run with the error of the cleanup.\<close>

lemma onceD:
  "writesOnce heads P k Q m \<Longrightarrow> P (heads (ses_world s)) \<Longrightarrow> run_state m s = (x, s') \<Longrightarrow>
    case x of Inl _ \<Rightarrow> failed heads k Q s s' | Inr b \<Rightarrow> \<exists>e. settles heads k s e s' \<and> Q b e"
  unfolding writesOnce_def by blast

context execution_heads begin

lemma run_in_session:
  assumes run: "run_state (runInSession r opts owner k prepare) s = (out, s')"
    and prepare: "\<And>lease t p u. lse_ExecutionID lease = k \<Longrightarrow> heads (ses_world t) = heads (ses_world s) \<Longrightarrow> run_state (prepare lease) t = (p, u)
      \<Longrightarrow> heads (ses_world u) = heads (ses_world s) \<and> (case p of Inl _ \<Rightarrow> True | Inr e \<Rightarrow> R e)"
    and body: "\<And>lease e t x u. R e \<Longrightarrow> heads (ses_world t) = heads (ses_world s) \<Longrightarrow> run_state (runWithSink r opts owner lease e) t = (x, u)
      \<Longrightarrow> heads (ses_world u) = heads (ses_world s) \<and> (\<exists>result err. x = Some (result, err) \<and> Q result err)"
    and fails: "\<And>err. Q None (Some err)" and joins: "\<And>result err cleanup. Q result err \<Longrightarrow> Q result (errJoin [err, cleanup])"
  shows "unmovedHeads heads s s' \<and> (\<exists>result err. out = Some (result, err) \<and> Q result err)"
proof -
  obtain a t where acquired: "run_state (acquireSession r k) s = (a, t)" by fastforce
  have t: "heads (ses_world t) = heads (ses_world s)" by (rule stillD [OF still_acquire acquired])
  show ?thesis
  proof (cases a)
    case (Inl err)
    then show ?thesis using run acquired t fails by (auto simp: runInSession_def unmovedHeads_def)
  next
    case (Inr lease)
    obtain p u where prepared: "run_state (prepare lease) t = (p, u)" by fastforce
    have p: "heads (ses_world u) = heads (ses_world s)" "case p of Inl _ \<Rightarrow> True | Inr e \<Rightarrow> R e"
      using prepare [OF acquired_lease [OF acquired [unfolded Inr]] t prepared] by simp_all
    obtain x v where ran: "run_state (case p of Inl e \<Rightarrow> ret (Some (None, Some e)) | Inr e \<Rightarrow> runWithSink r opts owner lease e) u = (x, v)" by fastforce
    have "heads (ses_world v) = heads (ses_world s) \<and> (\<exists>result err. x = Some (result, err) \<and> Q result err)"
    proof (cases p)
      case (Inl e)
      then show ?thesis using ran p fails by auto
    next
      case (Inr e)
      then show ?thesis using ran p(2) by (intro body [OF _ p(1), of e lease]) simp_all
    qed
    then obtain result err where x: "x = Some (result, err)" "Q result err" "heads (ses_world v) = heads (ses_world s)" by blast
    obtain cleanup w where finish: "run_state (finishSession r lease) v = (cleanup, w)" by fastforce
    have w: "heads (ses_world w) = heads (ses_world v)" by (rule stillD [OF still_finish finish])
    have "out = Some (result, errJoin [err, cleanup])" "s' = w"
      using run acquired Inr prepared ran x(1) finish by (auto simp: runInSession_def)
    then show ?thesis using x w joins by (auto simp: unmovedHeads_def)
  qed
qed

lemma once_refused:
  assumes "\<And>h. P h \<Longrightarrow> \<not> succeeds (h (lse_ExecutionID lease)) n"
  shows "writesOnce heads P k Q (commitExecution (leased r lease) n target)"
  unfolding writesOnce_def
proof (intro allI impI)
  fix s x s'
  assume p: "P (heads (ses_world s))" and run: "run_state (commitExecution (leased r lease) n target) s = (x, s')"
  obtain y w where commit: "run_state (sto_CommitExecution (drn_store r) n lease target) (ses_world s) = (y, w)" by fastforce
  then have "\<exists>e. y = Inl e" using commit_head assms [OF p] by (cases y) auto
  then have "\<exists>e. x = Inl e"
    using run commit
    by (auto simp: commitExecution_def sessionCheckpointer_def noteSessionLeaseFailure_def split: if_splits)
  then show "case x of Inl _ \<Rightarrow> failed heads k Q s s' | Inr b \<Rightarrow> \<exists>e. settles heads k s e s' \<and> Q b e"
    using commit_publishes [OF run] assms [OF p] by (auto simp: failed_def)
qed

lemma start_refused:
  assumes "heads (ses_world t) (lse_ExecutionID lease) \<noteq> None" and run: "run_state (prepareStart r lease initial) t = (p, u)"
  shows "(\<exists>e. p = Inl e) \<and> heads (ses_world u) = heads (ses_world t)"
proof -
  have once: "writesOnce heads (\<lambda>h. h (lse_ExecutionID lease) \<noteq> None) (lse_ExecutionID lease) (\<lambda>_ _. False) (prepareStart r lease initial)"
    unfolding prepareStart_def
    by (intro once_then once_sum once_error once_if once_attempt once_alive once_refused stills) (auto simp: succeeds_def)
  have "case p of Inl _ \<Rightarrow> unmovedHeads heads t u | Inr b \<Rightarrow> False"
    using onceD [OF once assms] by (simp add: failed_def split: sum.splits)
  then show ?thesis by (cases p) (simp_all add: unmovedHeads_def)
qed

lemma start_existing:
  assumes "heads (ses_world s) k \<noteq> None" and run: "run_state (durableStart r opts owner k initial) s = (out, s')"
  shows "unmovedHeads heads s s' \<and> (\<exists>e. out = Some (None, Some e))"
proof -
  obtain profileErr t where check: "run_state (checkRuntimeProfile r (dop_WaitProfile (drn_options r))) s = (profileErr, t)" by fastforce
  have t: "heads (ses_world t) = heads (ses_world s)" by (rule stillD [OF still_checkRuntimeProfile [OF host_quiet] check])
  have session: "unmovedHeads heads t u \<and> (\<exists>result err. out = Some (result, err) \<and> result = None \<and> err \<noteq> None)"
    if "run_state (runInSession r opts owner k (\<lambda>lease. prepareStart r lease initial)) t = (out, u)" for u
  proof (rule run_in_session [OF that, where R = "\<lambda>_. False"])
    fix lease v p w
    assume lease: "lse_ExecutionID lease = k" and v: "heads (ses_world v) = heads (ses_world t)" and prepared: "run_state (prepareStart r lease initial) v = (p, w)"
    have "heads (ses_world v) (lse_ExecutionID lease) \<noteq> None" using assms(1) by (simp add: lease v t)
    from start_refused [OF this prepared] v show "heads (ses_world w) = heads (ses_world t) \<and> (case p of Inl _ \<Rightarrow> True | Inr e \<Rightarrow> False)" by auto
  qed (auto simp: errJoin_None_iff)
  show ?thesis
    using run check session t by (auto simp: durableStart_def unmovedHeads_def split: option.splits)
qed

end

text \<open>
  C39. \<open>Start\<close> never resets an execution: when the execution already has a head, a start of
  it returns an error without a result, runs no node and moves no head, whatever the
  store's load reports.
\<close>

theorem start_never_resets:
  assumes "execution_heads r heads" and "heads (ses_world s) k \<noteq> None" and "run_state (durableStart r opts owner k initial) s = (out, s')"
  shows "unmovedHeads heads s s' \<and> (\<exists>e. out = Some (None, Some e))"
  by (rule execution_heads.start_existing [OF assms])

text \<open>The admission of an envelope leaves the envelope of the session alone.\<close>

definition keepsEnvelope :: "('w session, 'a) state \<Rightarrow> bool" where
  "keepsEnvelope m \<longleftrightarrow> (\<forall>s. ses_envelope (snd (run_state m s)) = ses_envelope s)"

lemma keepsEnvelope_basic: "keepsEnvelope (ret x)" "keepsEnvelope (host m)"
  by (simp_all add: keepsEnvelope_def host_def split_beta)

lemma keepsEnvelope_bind: "keepsEnvelope m \<Longrightarrow> (\<And>x. keepsEnvelope (f x)) \<Longrightarrow> keepsEnvelope (State_Monad.bind m f)"
  by (simp add: keepsEnvelope_def run_state_bind split_beta)

lemma keepsEnvelope_if: "keepsEnvelope m \<Longrightarrow> keepsEnvelope m' \<Longrightarrow> keepsEnvelope (if b then m else m')"
  by simp

lemma keepsEnvelope_option: "keepsEnvelope m \<Longrightarrow> (\<And>x. keepsEnvelope (f x)) \<Longrightarrow> keepsEnvelope (case v of None \<Rightarrow> m | Some x \<Rightarrow> f x)"
  by (cases v) simp_all

lemma keepsEnvelope_sum: "(\<And>x. keepsEnvelope (f x)) \<Longrightarrow> (\<And>x. keepsEnvelope (g x)) \<Longrightarrow> keepsEnvelope (case v of Inl x \<Rightarrow> f x | Inr x \<Rightarrow> g x)"
  by (cases v) simp_all

lemmas keepsEnvelope_rules = keepsEnvelope_basic keepsEnvelope_bind keepsEnvelope_if keepsEnvelope_option keepsEnvelope_sum

lemma keepsEnvelope_profile: "keepsEnvelope (hasProfile r p)"
  unfolding hasProfile_def by (intro keepsEnvelope_rules)

lemma keepsEnvelope_armedWaits: "keepsEnvelope (armedWaits_loop r waits)"
  by (induction waits) (auto simp: armedWaitCompatible_def intro!: keepsEnvelope_rules keepsEnvelope_profile)

lemma keepsEnvelope_admission: "keepsEnvelope (checkArmedWaitCompatibility r e)"
  unfolding checkArmedWaitCompatibility_def checkRuntimeProfile_def by (intro keepsEnvelope_rules keepsEnvelope_profile keepsEnvelope_armedWaits)

text \<open>What a run of a finished execution returns: the stored outcome.\<close>

definition storedOutcome :: "('w, 't, 'a, 'e) DurableRunner \<Rightarrow> ExecutionEnvelope \<Rightarrow> ExecutionTerminal \<Rightarrow> ('t, 'e) RunResult \<Rightarrow> bool" where
  "storedOutcome r e terminal rst \<longleftrightarrow> rst_Status rst = trm_Status terminal \<and> rst_Reason rst = trm_Reason terminal
     \<and> srz_Unmarshal (drn_stateCodec r) (prg_StatePayload (env_Progress e)) = Ok (rst_State rst)
     \<and> srz_Unmarshal (drn_effectsCodec r) (env_EffectsPayload e) = Ok (rst_Effects rst)
     \<and> rst_RunMeta rst = env_RunMeta e \<and> rst_ExecutionPointer rst = env_Pointer e
     \<and> rst_ResumeToken rst = tokenAt (env_ExecutionID e) (env_Revision e)"

context execution_heads begin

lemma prepared_snapshot:
  assumes run: "run_state (alive r (do {
           modify (\<lambda>s. s\<lparr>ses_envelope := e, ses_stepRevision := n, ses_persistenceFailed := False\<rparr>);
           waitErr \<leftarrow> checkArmedWaitCompatibility r e;
           passing waitErr (attempt (executionLoad c (env_ExecutionID e)) (\<lambda>(snapshot, _). do {
             attachSessionObservation c e;
             alive r (ret (Ok snapshot)) })) })) s = (p, t)"
  shows "heads (ses_world t) = heads (ses_world s)" and "p = Ok snapshot \<Longrightarrow> \<exists>n. executionDecode c e e = Ok (snapshot, n)"
proof -
  have load: "still heads (executionLoad c (env_ExecutionID e))" unfolding executionLoad_def by (intro stills)
  show "heads (ses_world t) = heads (ses_world s)"
    by (rule stillD [OF _ run]) (intro stills load, simp)
  assume "p = Ok snapshot"
  let ?v = "s\<lparr>ses_world := snd (run_state (hst_cause (drn_host r)) (ses_world s)), ses_envelope := e, ses_stepRevision := n,
    ses_persistenceFailed := False\<rparr>"
  define u where "u = snd (run_state (checkArmedWaitCompatibility r e) ?v)"
  have "run_state (attempt (executionLoad c (env_ExecutionID e)) (\<lambda>(snapshot, _). do {
        attachSessionObservation c e; alive r (ret (Ok snapshot)) })) u = (Ok snapshot, t)"
    using run \<open>p = Ok snapshot\<close> unfolding u_def by (simp add: alive_def passing_Ok_iff split_beta)
  then obtain n u'' where "run_state (executionLoad c (env_ExecutionID e)) u = (Ok (snapshot, n), u'')"
    by (auto simp: attempt_Ok_iff alive_def passing_Ok_iff split_beta)
  moreover have "ses_envelope u = e" unfolding u_def using keepsEnvelope_admission [of r e] by (simp add: keepsEnvelope_def)
  ultimately show "\<exists>n. executionDecode c e e = Ok (snapshot, n)"
    by (auto simp: executionLoad_def split: if_splits)
qed

lemma finished_runs:
  assumes terminal: "env_Terminal e = Some terminal" and run: "run_state (runWithSink r opts owner lease e) t = (x, u)"
  shows "heads (ses_world u) = heads (ses_world t)
    \<and> (\<exists>result err. x = Some (result, err) \<and> (result = None \<and> err \<noteq> None \<or> (\<exists>rst. result = Some rst \<and> storedOutcome r e terminal rst)))"
proof -
  let ?c = "sessionCheckpointer r lease (executionForkMode e)"
  let ?prepare = "alive r (do {
       modify (\<lambda>s. s\<lparr>ses_envelope := e, ses_stepRevision := env_Revision e, ses_persistenceFailed := False\<rparr>);
       waitErr \<leftarrow> checkArmedWaitCompatibility r e;
       passing waitErr (attempt (executionLoad ?c (env_ExecutionID e)) (\<lambda>(snapshot, _). do {
         attachSessionObservation ?c e;
         alive r (ret (Ok snapshot)) })) })"
  obtain p v where prepared: "run_state ?prepare t = (p, v)" by fastforce
  note facts = prepared_snapshot [OF prepared]
  show ?thesis
  proof (cases p)
    case (Inl err)
    then show ?thesis using run prepared facts(1) by (auto simp: runWithSink_def Let_def split: option.splits)
  next
    case (Inr snapshot)
    obtain n where "executionDecode ?c e e = Ok (snapshot, n)" using facts(2) Inr by blast
    then have stored: "storedOutcome r e terminal \<lparr>rst_State = snp_State snapshot, rst_Status = trm_Status terminal, rst_Effects = snp_Effects snapshot,
         rst_RunMeta = snp_RunMeta snapshot, rst_ExecutionPointer = snp_ExecutionPointer snapshot, rst_Reason = trm_Reason terminal,
         rst_ResumeToken = tokenAt (env_ExecutionID e) (env_Revision e)\<rparr>"
      by (auto simp: executionDecode_def sessionCheckpointer_def storedOutcome_def res_simps)
    have "still heads (cachedDurableResult r e terminal snapshot)"
      unfolding cachedDurableResult_def cachedDurableTerminal_def by (intro stills)
    moreover obtain y w where cached: "run_state (cachedDurableResult r e terminal snapshot) v = (y, w)" by fastforce
    ultimately have w: "heads (ses_world w) = heads (ses_world v)" by (rule stillD)
    have "\<exists>rst. fst y = Some rst \<and> storedOutcome r e terminal rst"
      using cached stored by (auto simp: cachedDurableResult_def split_beta)
    then show ?thesis
      using run prepared Inr facts(1) terminal cached w
      by (cases y) (auto simp: runWithSink_def Let_def unmovedHeads_def split: option.splits)
  qed
qed

lemma resume_finished:
  assumes head: "heads (ses_world t) (tok_ThreadID token) = Some e" and same: "ExecutionDescriptor_Check (env_Descriptor e) (drn_descriptor r) = None"
    and run: "run_state (prepareResume r lease token) t = (p, u)"
  shows "heads (ses_world u) = heads (ses_world t) \<and> (case p of Inl _ \<Rightarrow> True | Inr e' \<Rightarrow> e' = e)"
proof -
  let ?rest = "\<lambda>source. alive r (passing (sourceError r token source) (do {
        waitErr \<leftarrow> checkArmedWaitCompatibility r source;
        passing waitErr (passing (validateExecutionSourceMetadata (drn_sha r) source) (do {
          policyErr \<leftarrow> checkForkPolicy r (env_Fork source);
          passing policyErr (passing (validatePointer r (env_Pointer source)) (ret (Ok source))) })) }))"
  obtain x v where load: "run_state (host (sto_LoadExecution (drn_store r) (tok_ThreadID token))) t = (x, v)" by fastforce
  have v: "heads (ses_world v) = heads (ses_world t)" by (rule stillD [OF still_host [OF load_quiet] load])
  show ?thesis
  proof (cases x)
    case (Inl err)
    then show ?thesis using run load v by (auto simp: prepareResume_def run_attempt)
  next
    case (Inr source)
    have e: "source = e" using load_head head load Inr by (fastforce simp: host_def split: prod.splits)
    then have rest: "run_state (?rest e) v = (p, u)"
      using run load Inr same by (simp add: prepareResume_def run_attempt)
    have "still heads (?rest e)" by (intro stills)
    from stillD [OF this rest] v rest show ?thesis
      by (cases p) (auto simp: alive_def passing_Ok_iff split_beta)
  qed
qed

lemma resume_replays:
  assumes head: "heads (ses_world s) (tok_ThreadID token) = Some e" and terminal: "env_Terminal e = Some terminal"
    and same: "ExecutionDescriptor_Check (env_Descriptor e) (drn_descriptor r) = None"
    and run: "run_state (durableResume r opts owner token) s = (out, s')"
  shows "unmovedHeads heads s s'
    \<and> (\<exists>result err. out = Some (result, err) \<and> (result = None \<and> err \<noteq> None \<or> (\<exists>rst. result = Some rst \<and> storedOutcome r e terminal rst)))"
proof (cases "validateRunOptions opts owner")
  case None
  then have inside: "run_state (runInSession r opts owner (tok_ThreadID token) (\<lambda>lease. prepareResume r lease token)) s = (out, s')"
    using run by (simp add: durableResume_def)
  show ?thesis
  proof (rule run_in_session [OF inside, where R = "\<lambda>e'. e' = e"])
    fix lease t p u
    assume t: "heads (ses_world t) = heads (ses_world s)" and prepared: "run_state (prepareResume r lease token) t = (p, u)"
    have "heads (ses_world t) (tok_ThreadID token) = Some e" by (simp only: t head)
    from resume_finished [OF this same prepared] show "heads (ses_world u) = heads (ses_world s) \<and> (case p of Inl _ \<Rightarrow> True | Inr e' \<Rightarrow> e' = e)"
      by (simp only: t)
  qed (use finished_runs [OF terminal] in \<open>auto simp: errJoin_None_iff\<close>)
qed (use run in \<open>auto simp: durableResume_def unmovedHeads_def\<close>)

end

text \<open>
  C40. A finished execution is replayed, not run. When the head of the execution is
  terminal and its descriptor is the one of the runner (a head with an older descriptor
  is migrated first, terminal or not), \<open>Resume\<close> moves no head and returns,
  unless it fails without a result, exactly what the head stores: its status and reason,
  the decoded state and effects, the metadata and pointer, and the token of that head.
\<close>

theorem finished_run_replays:
  assumes "execution_heads r heads" and "heads (ses_world s) (tok_ThreadID token) = Some e" and "env_Terminal e = Some terminal"
    and "ExecutionDescriptor_Check (env_Descriptor e) (drn_descriptor r) = None"
    and "run_state (durableResume r opts owner token) s = (out, s')"
  shows "unmovedHeads heads s s'
    \<and> (\<exists>result err. out = Some (result, err) \<and> (result = None \<and> err \<noteq> None \<or> (\<exists>rst. result = Some rst \<and> storedOutcome r e terminal rst)))"
  by (rule execution_heads.resume_replays [OF assms])

section \<open>Sample runs\<close>

definition plainOptions :: "('w, 't, unit) runInvocationOptions" where
  "plainOptions = \<lparr>inv_overlay = None, inv_overlayMerger = None, inv_resumeTargetPolicy = None, inv_invariantValidator = None,
     inv_budgetCounts = [], inv_telemetryContext = [], inv_handoffOutbox = None, inv_atomicHandoff = False,
     inv_checkpointPolicy = CheckpointPolicyHardFail\<rparr>"

definition sampleTerminal :: ExecutionTerminal where
  "sampleTerminal = \<lparr>trm_Status = RunStatusCompleted, trm_Reason = '''', trm_Failure = None\<rparr>"

definition finishedEnvelope :: ExecutionEnvelope where
  "finishedEnvelope = sampleEnvelope\<lparr>env_Revision := 3, env_Digest := sampleSha '''', env_Terminal := Some sampleTerminal\<rparr>"

definition finishedSession :: "'h \<Rightarrow> 'h memoryWorld session" where
  "finishedSession h = (sampleSession h)\<lparr>ses_world := \<lparr>mwd_store = NewMemoryExecutionStore
     \<lparr>mes_history := [(''e'', [(3, finishedEnvelope)])], mes_heads := [(''e'', 3)]\<rparr>, mwd_now = 150, mwd_ctx = None, mwd_host = h\<rparr>\<rparr>"

lemma finished_head: "memoryHeads (ses_world (finishedSession h)) ''e'' = Some finishedEnvelope"
  by (simp add: memoryHeads_def finishedSession_def headOf_def entryOf_def itemsOf_def NewMemoryExecutionStore_def)

theorem start_never_resets_witness:
  "\<exists>s' e. run_state (durableStart (sampleDurable None) plainOptions '''' ''e'' ''x'') (finishedSession ()) = (Some (None, Some e), s')
    \<and> unmovedHeads memoryHeads (finishedSession ()) s'"
proof -
  obtain out s' where run: "run_state (durableStart (sampleDurable None) plainOptions '''' ''e'' ''x'') (finishedSession ()) = (out, s')" by fastforce
  have "memoryHeads (ses_world (finishedSession ())) ''e'' \<noteq> None" by (simp add: finished_head)
  from start_never_resets [OF sample_laws this run] run show ?thesis by blast
qed

lemma sample_replay:
  "\<exists>rst. fst (run_state (durableResume (sampleDurable None) plainOptions '''' (tokenAt ''e'' 3)) (finishedSession ())) = Some (Some rst, None)"
proof -
  have "(case fst (run_state (durableResume (sampleDurable None) plainOptions '''' (tokenAt ''e'' 3)) (finishedSession ())) of
      Some (Some rst, None) \<Rightarrow> True | _ \<Rightarrow> False)"
    by code_simp
  then show ?thesis by (auto split: option.splits prod.splits)
qed

theorem finished_run_replays_witness:
  "\<exists>rst s'. run_state (durableResume (sampleDurable None) plainOptions '''' (tokenAt ''e'' 3)) (finishedSession ()) = (Some (Some rst, None), s')
    \<and> unmovedHeads memoryHeads (finishedSession ()) s'
    \<and> storedOutcome (sampleDurable None :: (unit memoryWorld, string, string, char) DurableRunner) finishedEnvelope sampleTerminal rst"
proof -
  obtain rst s' where run: "run_state (durableResume (sampleDurable None) plainOptions '''' (tokenAt ''e'' 3)) (finishedSession ()) = (Some (Some rst, None), s')"
    using sample_replay by (metis prod.collapse)
  have check: "ExecutionDescriptor_Check (env_Descriptor finishedEnvelope)
      (drn_descriptor (sampleDurable None :: (unit memoryWorld, string, string, char) DurableRunner)) = None"
    by (simp add: finishedEnvelope_def sampleEnvelope_def sampleDurable_def ExecutionDescriptor_Check_def sampleDescriptor_valid)
  have "env_Terminal finishedEnvelope = Some sampleTerminal" by (simp add: finishedEnvelope_def)
  from finished_run_replays [OF sample_laws _ this check run] finished_head [of "()"] run show ?thesis by auto
qed

end
