(* ===== verification/Child_Evolution.thy ===== *)
theory Child_Evolution
  imports Child_Session
begin

text \<open>
  What the child operations of a session do to the committed groups: every one that
  commits leaves groups that the validators of a load accept, keeps plan, capacity
  and identity of every group, moves children along their state machine only, and
  never lets a child that another goroutine runs out of its hands.
\<close>

section \<open>Texts\<close>

lemma jsonText_valid: "ValidString s \<Longrightarrow> jsonText s = s"
proof (induction s rule: jsonText.induct)
  case (2 a s)
  let ?n = "rune_size (a # s)"
  from 2 have n: "?n \<noteq> 0" and tail: "ValidString (drop (?n - 1) s)" by (auto simp: Let_def)
  from n have "jsonText (a # s) = take ?n (a # s) @ jsonText (drop (?n - 1) s)" by (simp add: Let_def)
  also have "\<dots> = take ?n (a # s) @ drop (?n - 1) s" using 2(2) [OF refl n tail] by simp
  also have "\<dots> = a # s" using n by (cases ?n) simp_all
  finally show ?case .
qed simp

lemma jsonText_empty [simp]: "jsonText s = [] \<longleftrightarrow> s = []"
  by (cases s) (auto simp: Let_def)

lemma childText_simps [simp]:
  "chd_Spec (childText c) = chd_Spec c" "chd_ExecutionID (childText c) = chd_ExecutionID c" "chd_Revision (childText c) = chd_Revision c"
  "chd_Incarnation (childText c) = chd_Incarnation c" "chd_WaitID (childText c) = chd_WaitID c" "chd_State (childText c) = chd_State c"
  "chd_Result (childText c) = chd_Result c" "chd_CancelRequested (childText c) = chd_CancelRequested c"
  "chd_CancelConfirmed (childText c) = chd_CancelConfirmed c" "chd_WaitResolution (childText c) = chd_WaitResolution c"
  "chd_OutcomeResolution (childText c) = chd_OutcomeResolution c" "chd_CancelConfirmation (childText c) = chd_CancelConfirmation c"
  "chd_Error (childText c) = jsonText (chd_Error c)"
  by (simp_all add: childText_def)

lemma groupText_simps [simp]:
  "grp_ParentID (groupText g) = grp_ParentID g" "grp_Node (groupText g) = grp_Node g" "grp_Activation (groupText g) = grp_Activation g"
  "grp_Plan (groupText g) = grp_Plan g" "grp_Children (groupText g) = map childText (grp_Children g)"
  "grp_MergedIDs (groupText g) = grp_MergedIDs g" "grp_MergedResult (groupText g) = grp_MergedResult g"
  "grp_CancelRequested (groupText g) = grp_CancelRequested g" "grp_CancelRequest (groupText g) = grp_CancelRequest g"
  "grp_Capacity (groupText g) = grp_Capacity g" "grp_BudgetReturns (groupText g) = grp_BudgetReturns g"
  by (simp_all add: groupText_def)

lemma settled_text [simp]: "settledChild (childText c) = settledChild c"
  by (simp add: settledChild_def)

lemma machine_text [simp]: "validateChildStateMachine (childText c) = validateChildStateMachine c"
  by (simp add: validateChildStateMachine_def Let_def split: ChildState.split)

lemma state_text: "validateChildRecordState c = None \<Longrightarrow> validateChildRecordState (childText c) = None"
  by (auto simp: validateChildRecordState_def validChildWaitResolution_def validChildCancelConfirmation_def
      validChildOutcomeResolution_def jsonText_valid split: if_splits option.splits)

section \<open>Valid groups\<close>

text \<open>What a stored group is checked for, apart from the plan that the ledger spans.\<close>

definition group_ok :: "sha256 \<Rightarrow> ExecutionEnvelope \<Rightarrow> string \<Rightarrow> ChildGroupRecord \<Rightarrow> bool" where
  "group_ok sha e identity g \<longleftrightarrow> childGroupError sha e (identity, g) = None
     \<and> (length (grp_MergedIDs g) = length (grp_Children g) \<or> currentChildGroup sha e g)"

definition groups_ok :: "sha256 \<Rightarrow> ExecutionEnvelope \<Rightarrow> child_groups \<Rightarrow> bool" where
  "groups_ok sha e groups \<longleftrightarrow> validateChildGroupReferences sha e groups = None \<and> validChildOutcomeDecisionIDs groups
     \<and> (\<forall>entry \<in> set groups. childGroupError sha e entry = None) \<and> validateChildCapacityLedger groups = None"

lemma loaded_groups_ok: "executionChildGroups sha e = Ok groups \<Longrightarrow> groups_ok sha e groups"
  by (auto simp: executionChildGroups_Ok_iff groups_ok_def validChildOutcomeDecisionIDs_def validateChildCapacityLedger_def map_filter_def)

lemma groups_ok_load: "groups_ok sha e groups \<Longrightarrow> env_ChildrenPayload e = Bytes_of True groups \<Longrightarrow> executionChildGroups sha e = Ok groups"
  by (simp add: executionChildGroups_Ok_iff groups_ok_def)

lemma groups_ok_later:
  assumes "groups_ok sha e groups" and "same_address e' e" and "env_Revision e \<le> env_Revision e'"
  shows "groups_ok sha e' groups"
proof -
  have "childGroupError sha e' entry = None" if "childGroupError sha e entry = None" for entry
    using that assms(2) provenance_later [OF _ assms(3)]
    by (auto simp: childGroupError_def same_address_def split: prod.splits if_splits)
  with assms(1) show ?thesis
    unfolding groups_ok_def references_cong(2) [OF assms(2)] by auto
qed

lemma childGroup_iff:
  "childGroupError sha e (identity, g) = None \<longleftrightarrow> validChildGroupProvenance sha g (env_Revision e)
     \<and> identity = groupIdentity sha g \<and> grp_ParentID g = env_ExecutionID e \<and> grp_Activation g \<noteq> 0
     \<and> grp_Activation g \<le> env_Activation e \<and> validateChildGroup sha g = None"
  by (auto simp: childGroupError_def)

lemma validateChildGroup_iff:
  "validateChildGroup sha g = None \<longleftrightarrow>
    (\<exists>base. PlanChildGroup sha (grp_ParentID g) (grp_Node g) (grp_Activation g) (grp_Plan g) (grp_Capacity g) = Ok base
      \<and> length (grp_Children g) = length (grp_Children base) \<and> validChildCancellation g \<and> validChildJoin g
      \<and> validChildBudgetReturns g \<and> samePlan (grp_Plan base) (grp_Plan g)
      \<and> list_all2 (\<lambda>c original. chd_ExecutionID c = chd_ExecutionID original
             \<and> specEqual (chd_Spec c) (chd_Spec original) \<and> validateChildRecordState c = None)
           (grp_Children g) (grp_Children base))"
  by (auto simp: validateChildGroup_def split: sum.splits if_splits)

text \<open>The groups as JSON keeps them are as valid.\<close>

lemma find_map: "List.find P (map f xs) = map_option f (List.find (P \<circ> f) xs)"
  by (induction xs) simp_all

lemma budget_text: "ComputeChildBudgetReturn c used = Ok r \<Longrightarrow> ComputeChildBudgetReturn (childText c) used = Ok r"
  using state_text [of c] by (auto simp: ComputeChildBudgetReturn_def Let_def split: if_splits)

lemma childForBudget_text: "childForBudgetReturn (groupText g) child = map_option childText (childForBudgetReturn g child)"
  by (simp add: childForBudgetReturn_def find_map comp_def)

text \<open>One entry of the budget returns.\<close>

definition return_ok :: "ChildGroupRecord \<Rightarrow> string \<Rightarrow> ChildBudgetReturnRecord \<Rightarrow> bool" where
  "return_ok g child r \<longleftrightarrow> (\<exists>c returned. childForBudgetReturn g child = Some c \<and> chd_Revision c = cbr_ChildRevision r
     \<and> cbr_DecisionID r \<noteq> '''' \<and> cbr_Reason r \<noteq> '''' \<and> cbr_Evidence r \<noteq> '''' \<and> cbr_SourceRevision r \<noteq> 0 \<and> cbr_Incarnation r \<noteq> 0
     \<and> \<not> IsZero (cbr_At r) \<and> validRuntimeText [cbr_DecisionID r, cbr_Reason r, cbr_Evidence r]
     \<and> ComputeChildBudgetReturn c (cbr_Used r) = Ok returned \<and> maps_Equal returned (cbr_Returned r))"

lemma budgetReturns_iff: "validChildBudgetReturns g \<longleftrightarrow> (\<forall>(child, r) \<in> set (grp_BudgetReturns g). return_ok g child r)"
proof -
  have "(case childForBudgetReturn g child of
       None \<Rightarrow> False
     | Some c \<Rightarrow> chd_Revision c = cbr_ChildRevision r \<and> cbr_DecisionID r \<noteq> '''' \<and> cbr_Reason r \<noteq> '''' \<and> cbr_Evidence r \<noteq> ''''
         \<and> cbr_SourceRevision r \<noteq> 0 \<and> cbr_Incarnation r \<noteq> 0 \<and> \<not> IsZero (cbr_At r)
         \<and> validRuntimeText [cbr_DecisionID r, cbr_Reason r, cbr_Evidence r]
         \<and> (case ComputeChildBudgetReturn c (cbr_Used r) of
              Inl _ \<Rightarrow> False | Inr returned \<Rightarrow> maps_Equal returned (cbr_Returned r))) = return_ok g child r" for child r
    by (auto simp: return_ok_def split: option.split sum.split)
  then show ?thesis by (simp add: validChildBudgetReturns_def list_all_iff split_beta)
qed

lemma returns_text: "validChildBudgetReturns g \<Longrightarrow> validChildBudgetReturns (groupText g)"
  unfolding budgetReturns_iff return_ok_def childForBudget_text by (fastforce dest: budget_text)

lemma group_text:
  assumes "validateChildGroup sha g = None"
  shows "validateChildGroup sha (groupText g) = None"
proof -
  have "validChildCancellation (groupText g) = validChildCancellation g" "validChildJoin (groupText g) = validChildJoin g"
    by (simp_all add: validChildCancellation_def validChildJoin_def list_all_iff list_all2_map2 split: option.split)
  with assms returns_text [of g] state_text show ?thesis
    unfolding validateChildGroup_iff groupText_simps list_all2_map1 length_map childText_simps
    by (fastforce elim: list_all2_mono)
qed

lemma provenance_text:
  assumes "validChildGroupProvenance sha g revision"
  shows "validChildGroupProvenance sha (groupText g) revision"
proof -
  have "validChildOutcomeGroupProvenance sha (groupText g) (childText c) revision" if "validChildOutcomeGroupProvenance sha g c revision" for c
  proof (cases "chd_OutcomeResolution c")
    case (Some d)
    then have "ValidString (chd_Error c)"
      using that by (simp add: validChildOutcomeGroupProvenance_def Let_def validChildOutcomeRequest_def)
    then have "childText c = c" by (simp add: childText_def jsonText_valid)
    with that Some show ?thesis by (simp add: validChildOutcomeGroupProvenance_def)
  qed (simp add: validChildOutcomeGroupProvenance_def)
  with assms show ?thesis
    unfolding validChildGroupProvenance_def list_all_iff groupText_simps by auto
qed

abbreviation textGroups :: "child_groups \<Rightarrow> child_groups" where
  "textGroups groups \<equiv> map (\<lambda>(identity, g). (identity, groupText g)) groups"

lemma lookup_text: "lookup (textGroups groups) identity = map_option groupText (lookup groups identity)"
  by (induction groups) auto

lemma ledger_text:
  "ledger_children (groupText g) r (map childText cs) = ledger_children g r cs"
  "ledger_groups R C (map groupText gs) = ledger_groups R C gs"
proof -
  show children: "ledger_children (groupText g) r (map childText cs) = ledger_children g r cs" for g r cs
  proof (induction cs arbitrary: r)
    case (Cons c cs)
    have "returnedUnits (groupText g) (childText c) = returnedUnits g c" by (intro ext) (simp add: returnedUnits_def)
    then show ?case by (simp add: Cons.IH)
  qed simp
  show "ledger_groups R C (map groupText gs) = ledger_groups R C gs"
    by (induction gs arbitrary: R C) (simp_all add: children Let_def split: option.split sum.split)
qed

lemma decisions_text: "validChildOutcomeDecisionIDs (textGroups groups) = validChildOutcomeDecisionIDs groups"
proof -
  have "List.map_filter chd_OutcomeResolution (map childText cs) = List.map_filter chd_OutcomeResolution cs" for cs
    by (induction cs) (simp_all add: List.map_filter_simps split: option.split)
  moreover have "concat (map (grp_Children \<circ> snd) (textGroups groups)) = map childText (concat (map (grp_Children \<circ> snd) groups))"
    by (induction groups) auto
  ultimately show ?thesis by (simp add: validChildOutcomeDecisionIDs_def)
qed

lemma groups_ok_text:
  assumes "groups_ok sha e groups"
  shows "groups_ok sha e (textGroups groups)"
proof -
  have error: "childGroupError sha e (identity, groupText g) = None" if "childGroupError sha e (identity, g) = None" for identity g
    using that group_text provenance_text by (simp add: childGroup_iff)
  have current: "currentChildGroup sha e (groupText g) = currentChildGroup sha e g" for g
    by (simp add: currentChildGroup_def)
  have snd: "map snd (textGroups groups) = map groupText (map snd groups)" by (induction groups) auto
  have "validateChildGroupReferences sha e (textGroups groups) = None"
    using assms unfolding groups_ok_def validateChildGroupReferences_iff lookup_text by (fastforce simp: current)
  moreover have "\<forall>entry \<in> set (textGroups groups). childGroupError sha e entry = None"
    using assms error by (auto simp: groups_ok_def)
  ultimately show ?thesis
    using assms by (simp only: groups_ok_def decisions_text validateChildCapacityLedger_def snd ledger_text)
qed

section \<open>The ledger\<close>

text \<open>More units in a ledger, and more of them returned, never make it refuse.\<close>

definition covers :: "counters \<Rightarrow> counters \<Rightarrow> bool" where
  "covers r r' \<longleftrightarrow> (\<forall>n a. lookup r n = Some a \<longrightarrow> (\<exists>a'. lookup r' n = Some a' \<and> a \<le> a'))"

definition returnsMore :: "(string \<Rightarrow> int) \<Rightarrow> (string \<Rightarrow> int) \<Rightarrow> counters \<Rightarrow> bool" where
  "returnsMore f f' m \<longleftrightarrow> (\<forall>(n, a) \<in> set m. f' n = f n \<or> f n \<le> f' n \<and> f' n \<le> a)"

definition ledger_le :: "ChildGroupRecord \<Rightarrow> ChildGroupRecord \<Rightarrow> bool" where
  "ledger_le g g' \<longleftrightarrow> grp_Activation g' = grp_Activation g \<and> grp_Capacity g' = grp_Capacity g
     \<and> list_all2 (\<lambda>c c'. chd_Spec c' = chd_Spec c \<and> returnsMore (returnedUnits g c) (returnedUnits g' c') (spc_Allocation (chd_Spec c)))
         (grp_Children g) (grp_Children g')"

lemma ledger_allocations_more:
  assumes "ledger_allocations f r m = Ok s" and "covers r r'" and "returnsMore f f' m"
  shows "\<exists>s'. ledger_allocations f' r' m = Ok s' \<and> covers s s'"
  using assms
proof (induction m arbitrary: r r')
  case (Cons e m)
  obtain n a where e: "e = (n, a)" by (cases e)
  from Cons.prems(1) obtain x where x: "lookup r n = Some x" "0 \<le> a - f n" "a - f n \<le> x"
    and s: "ledger_allocations f (put n (x - (a - f n)) r) m = Ok s"
    by (auto simp: e Let_def not_less split: option.splits if_splits)
  from Cons.prems(2) x obtain x' where x': "lookup r' n = Some x'" "x \<le> x'" by (auto simp: covers_def)
  from Cons.prems(3) have f: "f n \<le> f' n" "f' n \<le> a" and rest: "returnsMore f f' m"
    using x by (auto simp: e returnsMore_def)
  have "covers (put n (x - (a - f n)) r) (put n (x' - (a - f' n)) r')"
    using Cons.prems(2) x' f by (auto simp: covers_def)
  from Cons.IH [OF s this rest] show ?case using x x' f by (simp add: e Let_def)
qed simp

lemma ledger_children_more:
  assumes "ledger_children g r cs = Ok s" and "covers r r'"
    and "list_all2 (\<lambda>c c'. chd_Spec c' = chd_Spec c \<and> returnsMore (returnedUnits g c) (returnedUnits g' c') (spc_Allocation (chd_Spec c))) cs cs'"
  shows "\<exists>s'. ledger_children g' r' cs' = Ok s' \<and> covers s s'"
  using assms
proof (induction cs arbitrary: r r' cs')
  case (Cons c cs)
  from Cons.prems(3) obtain d ds where cs': "cs' = d # ds" and spec: "chd_Spec d = chd_Spec c"
    and m: "returnsMore (returnedUnits g c) (returnedUnits g' d) (spc_Allocation (chd_Spec c))"
    and rest: "list_all2 (\<lambda>c c'. chd_Spec c' = chd_Spec c \<and> returnsMore (returnedUnits g c) (returnedUnits g' c') (spc_Allocation (chd_Spec c))) cs ds"
    by (auto simp: list_all2_Cons1)
  from Cons.prems(1) obtain t where t: "ledger_allocations (returnedUnits g c) r (spc_Allocation (chd_Spec c)) = Ok t"
    and s: "ledger_children g t cs = Ok s" by (auto simp: res_simps)
  from ledger_allocations_more [OF t Cons.prems(2) m] obtain t'
    where t': "ledger_allocations (returnedUnits g' d) r' (spc_Allocation (chd_Spec c)) = Ok t'" "covers t t'" by blast
  from Cons.IH [OF s t'(2) rest] t'(1) show ?case by (simp add: cs' spec res_simps)
qed (simp add: list_all2_Nil)

text \<open>The maps by activation of two runs of the ledger.\<close>

definition moreAll :: "(uint64, counters) gomap \<Rightarrow> (uint64, counters) gomap \<Rightarrow> (uint64, counters) gomap \<Rightarrow> bool" where
  "moreAll C R R' \<longleftrightarrow> (\<forall>act. lookup C act \<noteq> None \<longrightarrow> covers (the (lookup R act)) (the (lookup R' act)))"

lemma more_refl: "covers r r"
  by (simp add: covers_def)

lemma ledger_groups_more:
  assumes "ledger_groups R C gs = None" and "moreAll C R R'" and "list_all2 ledger_le gs gs'"
  shows "ledger_groups R' C gs' = None"
  using assms
proof (induction gs arbitrary: R R' C gs')
  case (Cons g gs)
  from Cons.prems(3) obtain h hs where gs': "gs' = h # hs" and h: "ledger_le g h" and rest: "list_all2 ledger_le gs hs"
    by (auto simp: list_all2_Cons1)
  let ?a = "grp_Activation g"
  have same: "grp_Activation h = ?a" "grp_Capacity h = grp_Capacity g" using h by (simp_all add: ledger_le_def)
  have children: "\<exists>s'. ledger_children h r' (grp_Children h) = Ok s' \<and> covers s s'"
    if "ledger_children g r (grp_Children g) = Ok s" "covers r r'" for r r' s
    using ledger_children_more [OF that] h by (simp add: ledger_le_def)
  show ?case
  proof (cases "lookup C ?a")
    case (Some prior)
    with Cons.prems(1) obtain s where "maps_Equal prior (grp_Capacity g)"
        "ledger_children g (the (lookup R ?a)) (grp_Children g) = Ok s" "ledger_groups (put ?a s R) C gs = None"
      by (auto simp: Let_def split: if_splits sum.splits)
    moreover from this(2) obtain s' where "ledger_children h (the (lookup R' ?a)) (grp_Children h) = Ok s'" "covers s s'"
      using children [of "the (lookup R ?a)" s "the (lookup R' ?a)"] Cons.prems(2) Some by (auto simp: moreAll_def)
    moreover from this(2) have "moreAll C (put ?a s R) (put ?a s' R')" using Cons.prems(2) by (simp add: moreAll_def)
    ultimately show ?thesis using Cons.IH rest Some by (simp add: gs' same Let_def)
  next
    case None
    with Cons.prems(1) obtain s where "ledger_children g (grp_Capacity g) (grp_Children g) = Ok s"
        "ledger_groups (put ?a s R) (put ?a (grp_Capacity g) C) gs = None"
      by (auto simp: Let_def split: if_splits sum.splits)
    moreover from this(1) obtain s' where "ledger_children h (grp_Capacity g) (grp_Children h) = Ok s'" "covers s s'"
      using children more_refl by blast
    moreover from this(2) have "moreAll (put ?a (grp_Capacity g) C) (put ?a s R) (put ?a s' R')"
      using Cons.prems(2) by (simp add: moreAll_def)
    ultimately show ?thesis using Cons.IH rest None by (simp add: gs' same Let_def)
  qed
qed simp

section \<open>Replacing a group\<close>

lemma put_split:
  assumes "lookup m k = Some v"
  obtains pre post where "m = pre @ (k, v) # post" and "\<And>v'. put k v' m = pre @ (k, v') # post"
proof -
  have "\<exists>pre post. m = pre @ (k, v) # post \<and> (\<forall>v'. put k v' m = pre @ (k, v') # post)"
    using assms
  proof (induction m)
    case (Cons e m)
    obtain a b where e: "e = (a, b)" by (cases e)
    show ?case
    proof (cases "a = k")
      case True
      then show ?thesis using Cons.prems by (intro exI [of _ "[]"] exI [of _ m]) (simp add: e)
    next
      case False
      with Cons obtain pre post where "m = pre @ (k, v) # post" "\<forall>v'. put k v' m = pre @ (k, v') # post" by (auto simp: e)
      with False show ?thesis by (intro exI [of _ "e # pre"] exI [of _ post]) (simp add: e)
    qed
  qed simp
  then show thesis using that by blast
qed

abbreviation outcomeDecisions :: "ChildRecord list \<Rightarrow> ChildOutcomeResolutionRecord list" where
  "outcomeDecisions \<equiv> List.map_filter chd_OutcomeResolution"

lemma outcomeDecisions_append: "outcomeDecisions (cs @ ds) = outcomeDecisions cs @ outcomeDecisions ds"
  by (simp add: List.map_filter_def)

lemma groups_replace:
  assumes ok: "groups_ok sha e groups" and g: "lookup groups identity = Some g"
    and valid: "childGroupError sha e (identity, g') = None" and plan: "grp_Plan g' = grp_Plan g"
    and current: "length (grp_MergedIDs g') = length (grp_Children g') \<or> currentChildGroup sha e g'"
    and decisions: "outcomeDecisions (grp_Children g') = outcomeDecisions (grp_Children g)" and le: "ledger_le g g'"
  shows "groups_ok sha e (put identity g' groups)"
proof -
  from put_split [OF g] obtain pre post where split: "groups = pre @ (identity, g) # post" "put identity g' groups = pre @ (identity, g') # post" by metis
  have act: "grp_Activation g' = grp_Activation g" using le by (simp add: ledger_le_def)
  have "ledger_le h h" for h
    by (simp add: ledger_le_def returnsMore_def list_all2_same)
  then have "list_all2 ledger_le (map snd groups) (map snd (put identity g' groups))"
    unfolding split(2) unfolding split(1) using le by (simp add: list_all2_append list_all2_same)
  moreover have "moreAll [] [] []" by (simp add: moreAll_def)
  ultimately have "validateChildCapacityLedger (put identity g' groups) = None"
    using ok ledger_groups_more unfolding groups_ok_def validateChildCapacityLedger_def by blast
  moreover have "validChildOutcomeDecisionIDs (put identity g' groups)"
    unfolding split(2) using ok [unfolded split(1)] decisions by (simp add: groups_ok_def validChildOutcomeDecisionIDs_def outcomeDecisions_append)
  moreover have "\<forall>entry \<in> set (put identity g' groups). childGroupError sha e entry = None"
    unfolding split(2) using ok [unfolded split(1)] valid by (simp add: groups_ok_def)
  moreover have "validateChildGroupReferences sha e (put identity g' groups) = None"
    unfolding validateChildGroupReferences_iff
  proof
    show "\<forall>(key, i) \<in> set (prg_ChildGroupReferences (env_Progress e)).
       \<exists>h. lookup (put identity g' groups) i = Some h \<and> key = pln_Key (grp_Plan h) \<and> grp_Activation h = env_Activation e"
      using ok g plan act by (fastforce simp: groups_ok_def validateChildGroupReferences_iff)
    show "\<forall>(i, h) \<in> set (put identity g' groups). length (grp_MergedIDs h) = length (grp_Children h) \<or> currentChildGroup sha e h"
      unfolding split(2) using ok [unfolded split(1)] current by (simp add: groups_ok_def validateChildGroupReferences_iff)
  qed
  ultimately show ?thesis by (simp add: groups_ok_def)
qed

section \<open>Evolution of a group\<close>

text \<open>A child of a session advances along its state machine and gets no decision record.\<close>

definition advances :: "ChildRecord \<Rightarrow> ChildRecord \<Rightarrow> bool" where
  "advances c c' \<longleftrightarrow> c' = c \<or> child_step c c' \<and> chd_WaitResolution c' = None \<and> chd_CancelConfirmation c' = None
     \<and> chd_OutcomeResolution c' = None"

lemma advances_facts:
  assumes "advances c c'" and "validateChildRecordState c = None"
  shows "validateChildRecordState c' = None" "chd_Spec c' = chd_Spec c" "chd_ExecutionID c' = chd_ExecutionID c"
    "settledChild c \<Longrightarrow> c' = c" "chd_OutcomeResolution c' = chd_OutcomeResolution c"
  using assms child_step_facts [of c c'] open_child_decisions [OF assms(2)] by (auto simp: advances_def)

lemma rel_find:
  "list_all2 (\<lambda>c c'. P c = P c' \<and> R c c') cs cs' \<Longrightarrow> rel_option R (List.find P cs) (List.find P cs')"
  by (induction rule: list_all2_induct) auto

lemma list_all2_source: "list_all2 R xs ys \<Longrightarrow> y \<in> set ys \<Longrightarrow> \<exists>x \<in> set xs. R x y"
  by (induction rule: list_all2_induct) auto

lemma evolved_returns:
  assumes "validChildBudgetReturns g" and "list_all2 (\<lambda>c c'. validateChildRecordState c = None \<and> advances c c') (grp_Children g) cs"
    and "grp_Children g' = cs" and "grp_BudgetReturns g' = grp_BudgetReturns g"
  shows "validChildBudgetReturns g'"
proof -
  have "return_ok g' child r" if "return_ok g child r" for child r
  proof -
    from that obtain c returned where c: "childForBudgetReturn g child = Some c" "ComputeChildBudgetReturn c (cbr_Used r) = Ok returned"
      by (auto simp: return_ok_def)
    then have "settledChild c" by (auto simp: ComputeChildBudgetReturn_def Let_def split: if_splits)
    moreover have "rel_option (\<lambda>c c'. validateChildRecordState c = None \<and> advances c c') (childForBudgetReturn g child) (childForBudgetReturn g' child)"
      unfolding childForBudgetReturn_def assms(3)
      by (rule rel_find) (use assms(2) in \<open>auto elim!: list_all2_mono simp: advances_facts(2)\<close>)
    ultimately have "childForBudgetReturn g' child = Some c"
      using c(1) by (auto simp: option_rel_Some1 dest: advances_facts(4))
    with that c(1) show ?thesis by (simp add: return_ok_def)
  qed
  with assms(1,4) show ?thesis by (auto simp: budgetReturns_iff)
qed

definition evolved :: "ChildGroupRecord \<Rightarrow> ChildRecord list \<Rightarrow> bool" where
  "evolved g cs \<longleftrightarrow> list_all2 advances (grp_Children g) cs"

lemma group_children_valid: "validateChildGroup sha g = None \<Longrightarrow> \<forall>c \<in> set (grp_Children g). validateChildRecordState c = None"
  by (fastforce simp: validateChildGroup_iff list_all2_conv_all_nth in_set_conv_nth)

lemma evolved_valid:
  assumes "validateChildGroup sha g = None" and "evolved g cs"
  shows "list_all2 (\<lambda>c c'. validateChildRecordState c = None \<and> advances c c') (grp_Children g) cs"
  using assms group_children_valid [OF assms(1)] by (auto simp: evolved_def list_all2_conv_all_nth)

lemma evolved_group:
  assumes valid: "validateChildGroup sha g = None" and cs: "evolved g cs" and merged: "grp_MergedIDs g = []"
    and g': "g' = g\<lparr>grp_Children := cs, grp_CancelRequested := b, grp_CancelRequest := q\<rparr>" and cancel: "validChildCancellation g'"
  shows "validateChildGroup sha g' = None"
proof -
  note all = evolved_valid [OF valid cs]
  from valid obtain base where base: "PlanChildGroup sha (grp_ParentID g) (grp_Node g) (grp_Activation g) (grp_Plan g) (grp_Capacity g) = Ok base"
    "length (grp_Children g) = length (grp_Children base)" "validChildJoin g" "validChildBudgetReturns g" "samePlan (grp_Plan base) (grp_Plan g)"
    "list_all2 (\<lambda>c original. chd_ExecutionID c = chd_ExecutionID original \<and> specEqual (chd_Spec c) (chd_Spec original)
       \<and> validateChildRecordState c = None) (grp_Children g) (grp_Children base)"
    by (auto simp: validateChildGroup_iff)
  have "list_all2 (\<lambda>c original. chd_ExecutionID c = chd_ExecutionID original \<and> specEqual (chd_Spec c) (chd_Spec original)
       \<and> validateChildRecordState c = None) cs (grp_Children base)"
    using base(6) all by (auto simp: list_all2_conv_all_nth advances_facts)
  moreover have "validChildBudgetReturns g'" by (rule evolved_returns [OF base(4) all]) (simp_all add: g')
  moreover have "validChildJoin g'" using base(3) merged by (simp add: g' validChildJoin_def)
  ultimately show ?thesis
    using base cancel list_all2_lengthD [OF all] by (auto simp: validateChildGroup_iff g')
qed

lemma evolved_provenance:
  assumes prov: "validChildGroupProvenance sha g revision" and valid: "validateChildGroup sha g = None" and cs: "evolved g cs"
    and g': "g' = g\<lparr>grp_Children := cs, grp_CancelRequested := b, grp_CancelRequest := q\<rparr>" and later: "revision \<le> later"
    and q: "q = grp_CancelRequest g \<or> grp_CancelRequest g = None \<and> (\<exists>r. q = Some r \<and> ccr_SourceRevision r < later)"
  shows "validChildGroupProvenance sha g' later"
proof -
  note p = provenance_later [OF prov later]
  have "validChildOutcomeGroupProvenance sha g' c' later
        \<and> (case chd_CancelConfirmation c' of None \<Rightarrow> True
           | Some d \<Rightarrow> ccc_SourceRevision d < later
               \<and> (case grp_CancelRequest g' of None \<Rightarrow> False
                  | Some r \<Rightarrow> ccc_RequestID d = ccr_ID r \<and> ccc_SourceRevision d > ccr_SourceRevision r))
        \<and> (case chd_WaitResolution c' of None \<Rightarrow> True | Some d \<Rightarrow> cwr_SourceRevision d < later)"
    if "c' \<in> set cs" for c'
  proof -
    from list_all2_source [OF cs [unfolded evolved_def] that] obtain c where c: "c \<in> set (grp_Children g)" "advances c c'" by blast
    show ?thesis
    proof (cases "c' = c")
      case True
      have "validChildOutcomeGroupProvenance sha g' c later = validChildOutcomeGroupProvenance sha g c later"
        by (cases "chd_OutcomeResolution c") (simp_all add: validChildOutcomeGroupProvenance_def g')
      then show ?thesis
        using True c(1) p q by (auto simp: validChildGroupProvenance_def list_all_iff g' split: option.splits)
    next
      case False
      then show ?thesis using c(2) by (simp add: advances_def validChildOutcomeGroupProvenance_def)
    qed
  qed
  moreover have "case grp_CancelRequest g' of None \<Rightarrow> True | Some r \<Rightarrow> ccr_SourceRevision r < later"
    using p q by (auto simp: validChildGroupProvenance_def g' split: option.splits)
  moreover have "list_all (\<lambda>(_, r). cbr_SourceRevision r < later) (grp_BudgetReturns g')"
    using p by (simp add: validChildGroupProvenance_def g')
  moreover have "grp_Children g' = cs" by (simp add: g')
  ultimately show ?thesis unfolding validChildGroupProvenance_def list_all_iff by auto
qed

lemma evolved_decisions:
  assumes "validateChildGroup sha g = None" and "evolved g cs"
  shows "outcomeDecisions cs = outcomeDecisions (grp_Children g)"
  using evolved_valid [OF assms]
proof (induction rule: list_all2_induct)
  case (Cons c cs c' cs')
  then have "chd_OutcomeResolution c' = chd_OutcomeResolution c" using advances_facts(5) [of c c'] by simp
  with Cons.IH show ?case by (simp add: List.map_filter_simps split: option.split)
qed simp

lemma evolved_ledger:
  assumes "validateChildGroup sha g = None" and "evolved g cs" and "g' = g\<lparr>grp_Children := cs, grp_CancelRequested := b, grp_CancelRequest := q\<rparr>"
  shows "ledger_le g g'"
proof -
  have "returnedUnits g' c' = returnedUnits g c" if "chd_Spec c' = chd_Spec c" for c c'
    using that by (intro ext) (simp add: returnedUnits_def assms(3))
  then have "chd_Spec c' = chd_Spec c \<and> returnsMore (returnedUnits g c) (returnedUnits g' c') (spc_Allocation (chd_Spec c))"
    if "validateChildRecordState c = None \<and> advances c c'" for c c'
    using advances_facts(2) [of c c'] that by (auto simp: returnsMore_def)
  then show ?thesis
    using list_all2_mono [OF evolved_valid [OF assms(1,2)]] by (simp add: ledger_le_def assms(3))
qed

text \<open>The envelope after a commit at the head: same address, later revision.\<close>

lemma groups_evolve:
  assumes ok: "groups_ok sha e groups" and g: "lookup groups identity = Some g"
    and e': "same_address e' e" "env_Revision e \<le> env_Revision e'"
    and cs: "evolved g cs" and merged: "grp_MergedIDs g = []" and some: "grp_Children g \<noteq> []"
    and g': "g' = g\<lparr>grp_Children := cs, grp_CancelRequested := b, grp_CancelRequest := q\<rparr>" and cancel: "validChildCancellation g'"
    and q: "q = grp_CancelRequest g \<or> grp_CancelRequest g = None \<and> (\<exists>r. q = Some r \<and> ccr_SourceRevision r < env_Revision e')"
  shows "groups_ok sha e' (put identity g' groups)"
proof (rule groups_replace [OF groups_ok_later [OF ok e'] g])
  have mem: "(identity, g) \<in> set groups" using g by (rule map_of_SomeD)
  then have valid: "validateChildGroup sha g = None" and prov: "validChildGroupProvenance sha g (env_Revision e)"
    and at: "identity = groupIdentity sha g" "grp_ParentID g = env_ExecutionID e" "grp_Activation g \<noteq> 0" "grp_Activation g \<le> env_Activation e"
    using ok by (auto simp: groups_ok_def childGroup_iff)
  have "length (grp_MergedIDs g) = length (grp_Children g) \<or> currentChildGroup sha e g"
    using ok mem by (auto simp: groups_ok_def validateChildGroupReferences_iff)
  then have current: "currentChildGroup sha e g" using merged some by simp
  have "validateChildGroup sha g' = None" by (rule evolved_group [OF valid cs merged g' cancel])
  moreover have "validChildGroupProvenance sha g' (env_Revision e')" by (rule evolved_provenance [OF prov valid cs g' e'(2) q])
  ultimately show "childGroupError sha e' (identity, g') = None"
    using at e'(1) by (simp add: childGroup_iff g' same_address_def)
  show "grp_Plan g' = grp_Plan g" by (simp add: g')
  have "currentChildGroup sha e g' = currentChildGroup sha e g" by (simp add: currentChildGroup_def g')
  with current references_cong(3) [OF e'(1)] show "length (grp_MergedIDs g') = length (grp_Children g') \<or> currentChildGroup sha e' g'" by simp
  show "outcomeDecisions (grp_Children g') = outcomeDecisions (grp_Children g)" using evolved_decisions [OF valid cs] by (simp add: g')
  show "ledger_le g g'" by (rule evolved_ledger [OF valid cs g'])
qed

section \<open>What an operation may do\<close>

text \<open>
  The progress of a child: not launched, running, returned. A child keeps its spec and
  its execution, its revision and progress never go back, and a settled one is final.
\<close>

definition progress :: "ChildRecord \<Rightarrow> nat" where
  "progress c = (case chd_State c of ChildPlanned \<Rightarrow> 0 | ChildQueued \<Rightarrow> 0 | ChildRunning \<Rightarrow> 1 | _ \<Rightarrow> 2)"

definition child_le :: "ChildRecord \<Rightarrow> ChildRecord \<Rightarrow> bool" where
  "child_le c c' \<longleftrightarrow> chd_Spec c' = chd_Spec c \<and> chd_ExecutionID c' = chd_ExecutionID c \<and> chd_Revision c \<le> chd_Revision c'
     \<and> progress c \<le> progress c' \<and> (settledChild c \<longrightarrow> settledChild c' \<and> (ValidString (chd_Error c) \<longrightarrow> c' = c))"

text \<open>
  A group keeps plan, address and capacity; a cancellation request, a budget return
  and the result of a join are final.
\<close>

definition group_le :: "ChildGroupRecord \<Rightarrow> ChildGroupRecord \<Rightarrow> bool" where
  "group_le g g' \<longleftrightarrow> grp_ParentID g' = grp_ParentID g \<and> grp_Node g' = grp_Node g \<and> grp_Activation g' = grp_Activation g
     \<and> grp_Plan g' = grp_Plan g \<and> grp_Capacity g' = grp_Capacity g \<and> list_all2 child_le (grp_Children g) (grp_Children g')
     \<and> (\<forall>r. grp_CancelRequest g = Some r \<longrightarrow> grp_CancelRequest g' = Some r)
     \<and> (grp_MergedIDs g \<noteq> [] \<longrightarrow> grp_MergedIDs g' = grp_MergedIDs g \<and> grp_MergedResult g' = grp_MergedResult g)
     \<and> (\<forall>child r. lookup (grp_BudgetReturns g) child = Some r \<longrightarrow> lookup (grp_BudgetReturns g') child = Some r)"

definition grown :: "('w, 't, 'e) executionCheckpointer \<Rightarrow> 'w session \<Rightarrow> 'w session \<Rightarrow> bool" where
  "grown c s s' \<longleftrightarrow> same_address (ses_envelope s') (ses_envelope s) \<and> env_Revision (ses_envelope s) \<le> env_Revision (ses_envelope s')
     \<and> (\<forall>groups. executionChildGroups (exc_sha c) (ses_envelope s) = Ok groups \<longrightarrow>
         (\<exists>groups'. executionChildGroups (exc_sha c) (ses_envelope s') = Ok groups'
           \<and> (\<forall>identity g. lookup groups identity = Some g \<longrightarrow> (\<exists>g'. lookup groups' identity = Some g' \<and> group_le g g'))))"

lemma child_le_refl: "child_le c c"
  by (simp add: child_le_def)

lemma child_le_trans: "child_le c d \<Longrightarrow> child_le d e \<Longrightarrow> child_le c e"
  by (auto simp: child_le_def)

lemma child_le_text: "child_le c (childText c)"
proof -
  have "ValidString (chd_Error c) \<Longrightarrow> childText c = c" by (simp add: childText_def jsonText_valid)
  then show ?thesis by (simp add: child_le_def progress_def)
qed

lemma group_le_refl: "group_le g g"
  by (simp add: group_le_def list_all2_same child_le_refl)

lemma group_le_trans:
  assumes "group_le g h" and "group_le h k"
  shows "group_le g k"
proof -
  have "list_all2 child_le (grp_Children g) (grp_Children h)" "list_all2 child_le (grp_Children h) (grp_Children k)"
    using assms by (simp_all add: group_le_def)
  then have "list_all2 child_le (grp_Children g) (grp_Children k)"
    unfolding list_all2_conv_all_nth using child_le_trans by metis
  with assms show ?thesis by (auto simp: group_le_def)
qed

lemma group_le_text: "group_le g (groupText g)"
  by (simp add: group_le_def list_all2_map2 list_all2_same child_le_text)

lemma grown_refl: "ses_envelope s' = ses_envelope s \<Longrightarrow> grown c s s'"
  using group_le_refl by (auto simp: grown_def same_address_def)

lemma grown_trans: "grown c s t \<Longrightarrow> grown c t u \<Longrightarrow> grown c s u"
  unfolding grown_def same_address_def using group_le_trans by (fastforce intro: order_trans)

lemma grown_world [simp]: "grown c s (t\<lparr>ses_world := w\<rparr>) = grown c s t" "grown c (s\<lparr>ses_world := w\<rparr>) t = grown c s t"
  by (simp_all add: grown_def)

lemma advances_le:
  assumes "advances c c'" and "validateChildRecordState c = None"
  shows "child_le c c'"
proof (cases "c' = c")
  case False
  then have step: "child_step c c'" using assms(1) by (simp add: advances_def)
  note facts = child_step_facts [OF step assms(2)]
  have "progress c \<le> progress c'"
    using step
  proof cases
    case (finish revision incarnation result dispatchErr)
    from checked_transition_shapes(1) [OF this] show ?thesis by (auto simp: progress_def split: ChildState.split)
  next
    case (confirm d source incarnation at)
    from checked_transition_shapes(2) [OF this] show ?thesis by (auto simp: progress_def split: ChildState.split)
  next
    case (resolve_wait w source incarnation at)
    from checked_transition_shapes(3) [OF this] show ?thesis by (auto simp: progress_def split: ChildState.split)
  next
    case (resolve_outcome digest q source incarnation at)
    from checked_transition_shapes(4) [OF this] show ?thesis by (auto simp: progress_def split: ChildState.split)
  qed (auto simp: progress_def queueChild_def launchChild_def recoverChild_def requestCancelChild_def Let_def settledChild_def
      split: if_splits ChildState.splits)
  with facts show ?thesis by (auto simp: child_le_def)
qed (simp add: child_le_refl)

lemma evolved_le:
  assumes "validateChildGroup sha g = None" and "evolved g cs" and "grp_MergedIDs g = []"
    and "q = grp_CancelRequest g \<or> grp_CancelRequest g = None"
  shows "group_le g (g\<lparr>grp_Children := cs, grp_CancelRequested := b, grp_CancelRequest := q\<rparr>)"
  using evolved_valid [OF assms(1,2)] assms(3,4) by (auto simp: group_le_def elim!: list_all2_mono intro: advances_le)

section \<open>Commits of the groups\<close>

lemma persistGroups_cases:
  assumes "run_state (persistChildGroupsLocked c groups) s = (failed, s')"
  shows "failed \<noteq> None \<and> ses_envelope s' = ses_envelope s
    \<or> failed = None \<and> (\<exists>w w'. run_state (exc_CommitExecution c (env_Revision (ses_envelope s)) (exc_lease c)
         ((ses_envelope s)\<lparr>env_ChildrenPayload := Bytes_of True (textGroups groups)\<rparr>)) w = (Ok (ses_envelope s'), w'))"
proof (cases "marshalGroups groups")
  case (Inr payload)
  then have p: "payload = Bytes_of True (textGroups groups)" by (simp add: marshalGroups_def split: if_splits)
  obtain q t where q: "run_state (commitExecution c (env_Revision (ses_envelope s)) ((ses_envelope s)\<lparr>env_ChildrenPayload := payload\<rparr>)) s = (q, t)"
    by fastforce
  have run: "run_state (persistChildGroupsLocked c groups) s = (case q of
      Inl e \<Rightarrow> (Some e, t\<lparr>ses_persistenceFailed := True\<rparr>)
    | Inr committed \<Rightarrow> (None, t\<lparr>ses_envelope := committed\<rparr>))"
    using Inr q unfolding persistChildGroupsLocked_def by (cases q) simp_all
  show ?thesis
    using run assms run_commit [OF q] unfolding p by (cases q) auto
qed (use assms in \<open>auto simp: persistChildGroupsLocked_def\<close>)

context durable_store begin

lemma persisted_groups:
  assumes "run_state (persistChildGroupsLocked c groups) s = (None, s')"
  shows "same_address (ses_envelope s') (ses_envelope s)" "env_Revision (ses_envelope s) < env_Revision (ses_envelope s')"
    "groups_ok (exc_sha c) (ses_envelope s') groups \<Longrightarrow> executionChildGroups (exc_sha c) (ses_envelope s') = Ok (textGroups groups)"
proof -
  from persistGroups_cases [OF assms] obtain w w' where
    commit: "run_state (exc_CommitExecution c (env_Revision (ses_envelope s)) (exc_lease c)
         ((ses_envelope s)\<lparr>env_ChildrenPayload := Bytes_of True (textGroups groups)\<rparr>)) w = (Ok (ses_envelope s'), w')"
    by auto
  from commit_seals [OF commit] obtain digest where nowrap: "env_Revision (ses_envelope s) \<noteq> - 1"
    and e': "ses_envelope s' = (ses_envelope s)\<lparr>env_ChildrenPayload := Bytes_of True (textGroups groups),
       env_Revision := env_Revision (ses_envelope s) + 1, env_Digest := digest\<rparr>"
    by auto
  show "same_address (ses_envelope s') (ses_envelope s)" "env_Revision (ses_envelope s) < env_Revision (ses_envelope s')"
    using rev_succ_self [OF nowrap] by (simp_all add: e' same_address_def)
  assume "groups_ok (exc_sha c) (ses_envelope s') groups"
  then show "executionChildGroups (exc_sha c) (ses_envelope s') = Ok (textGroups groups)"
    using groups_ok_load [OF groups_ok_text] by (simp add: e')
qed

text \<open>A commit of the loaded groups with one of them replaced, or with a new one.\<close>

lemma replaced_groups:
  assumes "executionChildGroups (exc_sha c) (ses_envelope s) = Ok groups"
    and "run_state (persistChildGroupsLocked c (put identity g' groups)) t = (None, s')"
    and "same_address (ses_envelope t) (ses_envelope s)" "env_Revision (ses_envelope s) \<le> env_Revision (ses_envelope t)"
    and "groups_ok (exc_sha c) (ses_envelope s') (put identity g' groups)"
    and "\<And>g. lookup groups identity = Some g \<Longrightarrow> group_le g g'"
  shows "grown c s s'" "executionChildGroups (exc_sha c) (ses_envelope s') = Ok (textGroups (put identity g' groups))"
proof -
  note p = persisted_groups [OF assms(2)]
  show loaded: "executionChildGroups (exc_sha c) (ses_envelope s') = Ok (textGroups (put identity g' groups))" by (rule p(3) [OF assms(5)])
  have "\<exists>h. lookup (textGroups (put identity g' groups)) i = Some h \<and> group_le g h" if "lookup groups i = Some g" for i g
    using that assms(6) group_le_text group_le_trans by (cases "i = identity") (auto simp: lookup_text)
  moreover have "env_Revision (ses_envelope s) \<le> env_Revision (ses_envelope s')" using p(2) assms(4) by simp
  moreover have "same_address (ses_envelope s') (ses_envelope s)" using p(1) assms(3) by (simp add: same_address_def)
  ultimately show "grown c s s'" using assms(1) loaded by (auto simp: grown_def)
qed

end

section \<open>One child\<close>

lemma findChild_at: "findChild i cs = Some (n, x) \<Longrightarrow> n < length cs \<and> cs ! n = x \<and> spc_ID (chd_Spec x) = i"
  by (induction cs arbitrary: n) (auto split: if_splits)

lemma findChild_rel:
  assumes "list_all2 R cs ds" and "\<And>x y. R x y \<Longrightarrow> chd_Spec y = chd_Spec x"
  shows "rel_option (rel_prod (=) R) (findChild i cs) (findChild i ds)"
  using assms(1)
proof (induction rule: list_all2_induct)
  case (Cons x xs y ys)
  then show ?case using assms(2) [of x y] by (auto simp: option.rel_map split_beta rel_prod_sel intro: option.rel_mono_strong)
qed simp

lemma findChild_update:
  assumes "findChild i cs = Some (n, x)" and "spc_ID (chd_Spec y) = i"
  shows "findChild i (cs[n := y]) = Some (n, y)" "j \<noteq> i \<Longrightarrow> findChild j (cs[n := y]) = findChild j cs"
  using assms by (induction cs arbitrary: n) (auto split: if_splits)

definition childOf :: "sha256 \<Rightarrow> ExecutionEnvelope \<Rightarrow> string \<Rightarrow> string \<Rightarrow> ChildRecord option" where
  "childOf sha e identity childID = map_option snd (findChild childID (grp_Children (headGroup sha e identity)))"

lemma childOf_loaded:
  "executionChildGroups sha e = Ok groups \<Longrightarrow>
    childOf sha e identity childID = map_option snd (findChild childID (grp_Children (groupAt groups identity)))"
  by (simp add: childOf_def headGroup_def)

lemma noGroup_children [simp]: "grp_Children noChildGroup = []"
  by (simp add: noChildGroup_def)

lemma found_group: "findChild i (grp_Children (groupAt groups identity)) = Some x \<Longrightarrow> lookup groups identity = Some (groupAt groups identity)"
  by (auto simp: groupAt_def split: option.splits)

lemma open_group:
  assumes "validateChildGroup sha g = None" and "c \<in> set (grp_Children g)" and "\<not> settledChild c"
  shows "grp_MergedIDs g = []"
proof (rule ccontr)
  assume "grp_MergedIDs g \<noteq> []"
  with assms(1) have "list_all2 (\<lambda>i c. i = spc_ID (chd_Spec c) \<and> settledChild c) (grp_MergedIDs g) (grp_Children g)"
    by (auto simp: validateChildGroup_iff validChildJoin_def)
  with assms(2,3) show False by (auto simp: list_all2_conv_all_nth in_set_conv_nth)
qed

text \<open>A transition that keeps the request of a child and launches none of a canceled group.\<close>

definition keepsCancel :: "bool \<Rightarrow> ChildRecord \<Rightarrow> ChildRecord \<Rightarrow> bool" where
  "keepsCancel b c c' \<longleftrightarrow> c' = c \<or> chd_CancelRequested c' = chd_CancelRequested c \<and> (chd_CancelConfirmed c' \<longrightarrow> chd_CancelRequested c)
     \<and> (b \<longrightarrow> chd_State c' \<noteq> ChildPlanned \<and> chd_State c' \<noteq> ChildQueued) \<and> \<not> settledChild c"

lemma cancellation_kept:
  assumes "validChildCancellation g" and "list_all2 (keepsCancel (grp_CancelRequested g)) (grp_Children g) cs"
  shows "validChildCancellation (g\<lparr>grp_Children := cs\<rparr>)"
proof (cases "grp_CancelRequested g")
  case True
  have "chd_State c' \<noteq> ChildPlanned \<and> chd_State c' \<noteq> ChildQueued \<and> (settledChild c' \<or> chd_CancelRequested c')" if "c' \<in> set cs" for c'
  proof -
    from list_all2_source [OF assms(2) that] True obtain c where c: "c \<in> set (grp_Children g)" "keepsCancel True c c'" by auto
    from assms(1) True c(1) have "chd_State c \<noteq> ChildPlanned \<and> chd_State c \<noteq> ChildQueued \<and> (settledChild c \<or> chd_CancelRequested c)"
      by (auto simp: validChildCancellation_def list_all_iff)
    with c(2) show ?thesis by (auto simp: keepsCancel_def)
  qed
  with assms(1) True show ?thesis by (simp add: validChildCancellation_def list_all_iff)
next
  case False
  have "\<not> chd_CancelRequested c' \<and> \<not> chd_CancelConfirmed c'" if "c' \<in> set cs" for c'
  proof -
    from list_all2_source [OF assms(2) that] False obtain c where c: "c \<in> set (grp_Children g)" "keepsCancel False c c'" by auto
    from assms(1) False c(1) have "\<not> chd_CancelRequested c \<and> \<not> chd_CancelConfirmed c"
      by (auto simp: validChildCancellation_def list_all_iff)
    with c(2) show ?thesis by (auto simp: keepsCancel_def)
  qed
  with assms(1) False show ?thesis by (simp add: validChildCancellation_def list_all_iff)
qed

text \<open>The children of an open group after transitions of a session.\<close>

lemma children_evolve:
  assumes ok: "groups_ok sha e groups" and g: "lookup groups identity = Some g"
    and e': "same_address e' e" "env_Revision e \<le> env_Revision e'"
    and cs: "list_all2 (\<lambda>c c'. advances c c' \<and> keepsCancel (grp_CancelRequested g) c c') (grp_Children g) cs"
    and child: "x \<in> set (grp_Children g)" "\<not> settledChild x"
  shows "groups_ok sha e' (put identity (g\<lparr>grp_Children := cs\<rparr>) groups)" "group_le g (g\<lparr>grp_Children := cs\<rparr>)"
proof -
  let ?g = "g\<lparr>grp_Children := cs, grp_CancelRequested := grp_CancelRequested g, grp_CancelRequest := grp_CancelRequest g\<rparr>"
  have same: "?g = g\<lparr>grp_Children := cs\<rparr>" by simp
  have "(identity, g) \<in> set groups" using g by (rule map_of_SomeD)
  then have valid: "validateChildGroup sha g = None" using ok by (auto simp: groups_ok_def childGroup_iff)
  have merged: "grp_MergedIDs g = []" by (rule open_group [OF valid child])
  have evolved: "evolved g cs" unfolding evolved_def using cs by (rule list_all2_mono) simp
  have cancel: "validChildCancellation ?g"
    unfolding same using valid cs by (intro cancellation_kept) (auto simp: validateChildGroup_iff elim!: list_all2_mono)
  have some: "grp_Children g \<noteq> []" using child by auto
  show "groups_ok sha e' (put identity (g\<lparr>grp_Children := cs\<rparr>) groups)"
    using groups_evolve [OF ok g e' evolved merged some refl cancel disjI1 [OF refl]] by (simp only: same)
  show "group_le g (g\<lparr>grp_Children := cs\<rparr>)"
    using evolved_le [OF valid evolved merged disjI1 [OF refl], of "grp_CancelRequested g"] by (simp only: same)
qed

lemma child_evolves:
  assumes ok: "groups_ok sha e groups" and g: "lookup groups identity = Some g"
    and e': "same_address e' e" "env_Revision e \<le> env_Revision e'"
    and n: "findChild i (grp_Children g) = Some (n, x)" and x': "advances x x'" "keepsCancel (grp_CancelRequested g) x x'"
    and x: "\<not> settledChild x"
  shows "groups_ok sha e' (put identity (setChild n x' g) groups)" "group_le g (setChild n x' g)"
proof -
  note at = findChild_at [OF n]
  have cs: "list_all2 (\<lambda>c c'. advances c c' \<and> keepsCancel (grp_CancelRequested g) c c') (grp_Children g) ((grp_Children g)[n := x'])"
    using at x' by (auto simp: list_all2_conv_all_nth nth_list_update advances_def keepsCancel_def)
  have "x \<in> set (grp_Children g)" using at by auto
  from children_evolve [OF ok g e' cs this x] show "groups_ok sha e' (put identity (setChild n x' g) groups)" "group_le g (setChild n x' g)"
    by (simp_all add: setChild_def)
qed

end
