(* ===== verification/Child_Operations.thy ===== *)
theory Child_Operations
  imports Child_Evolution
begin

text \<open>
  Every child operation of a session over a durable store: it lets the committed
  groups only grow, and a child that a goroutine runs under the lease of the session
  stays with it until that goroutine reports its outcome.
\<close>

section \<open>Children that a goroutine runs\<close>

definition owns :: "('w, 't, 'e) executionCheckpointer \<Rightarrow> 'w session \<Rightarrow> string \<Rightarrow> ChildInvocation \<Rightarrow> bool" where
  "owns c s identity invocation \<longleftrightarrow>
    (\<exists>x. childOf (exc_sha c) (ses_envelope s) identity (civ_ChildID invocation) = Some x
      \<and> childInvocationMatches x (civ_Revision invocation) (lse_Incarnation (exc_lease c))
      \<and> chd_ExecutionID x = civ_ExecutionID invocation)"

lemma findChild_text: "findChild i (map childText cs) = map_option (\<lambda>(n, x). (n, childText x)) (findChild i cs)"
  by (induction cs) (auto simp: option.map_comp comp_def split_beta)

lemma groupAt_text: "groupAt (textGroups groups) identity = groupText (groupAt groups identity)"
proof -
  have "groupText noChildGroup = noChildGroup" by (simp add: groupText_def noChildGroup_def)
  then show ?thesis by (simp add: groupAt_def lookup_text split: option.split)
qed

lemma childOf_put:
  assumes "executionChildGroups sha e = Ok (textGroups (put identity g groups))"
  shows "childOf sha e i childID
    = map_option (childText \<circ> snd) (findChild childID (grp_Children (if i = identity then g else groupAt groups i)))"
proof -
  have "groupAt (put identity g groups) i = (if i = identity then g else groupAt groups i)" by (simp add: groupAt_def)
  then show ?thesis
    by (simp only: childOf_loaded [OF assms] groupAt_text groupText_simps findChild_text option.map_comp) (simp add: comp_def split_beta)
qed

lemma owns_text: "childInvocationMatches (childText x) r i = childInvocationMatches x r i"
  by (simp add: childInvocationMatches_def)

lemma owns_world [simp]: "owns c (s\<lparr>ses_world := w\<rparr>) = owns c s"
  by (intro ext) (simp add: owns_def)

lemma owns_same: "ses_envelope s' = ses_envelope s \<Longrightarrow> owns c s' = owns c s"
  by (intro ext) (simp add: owns_def)

text \<open>After a commit of the loaded groups with one of them replaced.\<close>

lemma owns_put:
  assumes loaded: "executionChildGroups (exc_sha c) (ses_envelope s) = Ok groups"
    and after: "executionChildGroups (exc_sha c) (ses_envelope s') = Ok (textGroups (put identity g' groups))"
    and own: "owns c s i invocation"
    and same: "\<And>n x. i = identity \<Longrightarrow> findChild (civ_ChildID invocation) (grp_Children (groupAt groups identity)) = Some (n, x) \<Longrightarrow>
      childInvocationMatches x (civ_Revision invocation) (lse_Incarnation (exc_lease c)) \<Longrightarrow>
      \<exists>m y. findChild (civ_ChildID invocation) (grp_Children g') = Some (m, y)
        \<and> childInvocationMatches y (civ_Revision invocation) (lse_Incarnation (exc_lease c)) \<and> chd_ExecutionID y = chd_ExecutionID x"
  shows "owns c s' i invocation"
proof -
  from own obtain n x where x: "findChild (civ_ChildID invocation) (grp_Children (groupAt groups i)) = Some (n, x)"
    "childInvocationMatches x (civ_Revision invocation) (lse_Incarnation (exc_lease c))" "chd_ExecutionID x = civ_ExecutionID invocation"
    by (auto simp: owns_def childOf_loaded [OF loaded])
  show ?thesis
  proof (cases "i = identity")
    case True
    from same [OF True] x(1,2) True obtain m y where "findChild (civ_ChildID invocation) (grp_Children g') = Some (m, y)"
      "childInvocationMatches y (civ_Revision invocation) (lse_Incarnation (exc_lease c))" "chd_ExecutionID y = chd_ExecutionID x" by blast
    then show ?thesis using True x(3) by (simp add: owns_def childOf_put [OF after] owns_text)
  next
    case False
    then show ?thesis using x by (simp add: owns_def childOf_put [OF after] owns_text)
  qed
qed

section \<open>Transitions\<close>

definition proper :: "('w, 't, 'e) executionCheckpointer \<Rightarrow> 'w session \<Rightarrow> bool" where
  "proper c s \<longleftrightarrow> lse_Incarnation (exc_lease c) \<noteq> 0 \<and> (\<forall>w. \<not> IsZero (fst (run_state (exc_clock c) w)))
     \<and> env_Revision (ses_envelope s) \<noteq> 0"

lemma grown_proper: "proper c s \<Longrightarrow> grown c s s' \<Longrightarrow> proper c s'"
  by (auto simp: proper_def grown_def word_le_0_iff)

lemma loaded_group_valid:
  assumes "groups_ok sha e groups" and "lookup groups identity = Some g"
  shows "validateChildGroup sha g = None" "identity = groupIdentity sha g" "grp_ParentID g = env_ExecutionID e"
    "\<forall>x \<in> set (grp_Children g). validateChildRecordState x = None"
proof -
  have "(identity, g) \<in> set groups" using assms(2) by (rule map_of_SomeD)
  with assms(1) show v: "validateChildGroup sha g = None" "identity = groupIdentity sha g" "grp_ParentID g = env_ExecutionID e"
    by (auto simp: groups_ok_def childGroup_iff)
  show "\<forall>x \<in> set (grp_Children g). validateChildRecordState x = None" by (rule group_children_valid [OF v(1)])
qed

lemma queue_advances:
  assumes "validateChildRecordState x = None" and "beginGuard b x" and "chd_State x = ChildPlanned"
  shows "advances x (queueChild x) \<and> keepsCancel b x (queueChild x) \<and> \<not> settledChild x"
proof -
  have "\<not> settledChild x" using assms(3) by (simp add: settledChild_def)
  with assms open_child_decisions [OF assms(1)] child_step.queue [of x] show ?thesis
    by (auto simp: advances_def keepsCancel_def queueChild_def beginGuard_def)
qed

lemma launch_advances:
  assumes "validateChildRecordState x = None" and "beginGuard b x" and "chd_State x = ChildQueued" and "incarnation \<noteq> 0"
  shows "advances x (launchChild incarnation x) \<and> keepsCancel b x (launchChild incarnation x) \<and> \<not> settledChild x"
proof -
  have "\<not> settledChild x" using assms(3) by (simp add: settledChild_def)
  with assms open_child_decisions [OF assms(1)] child_step.launch [of x incarnation] show ?thesis
    by (auto simp: advances_def keepsCancel_def launchChild_def beginGuard_def)
qed

lemma finish_fields:
  assumes "finishChildRecord revision incarnation result e x = Ok x'"
  shows "chd_WaitResolution x' = chd_WaitResolution x" "chd_CancelConfirmation x' = chd_CancelConfirmation x"
    "chd_OutcomeResolution x' = chd_OutcomeResolution x" "chd_CancelRequested x' = chd_CancelRequested x"
    "chd_CancelConfirmed x' \<longrightarrow> chd_CancelConfirmed x \<or> chd_CancelRequested x"
    "childInvocationMatches x revision incarnation" "chd_Spec x' = chd_Spec x"
  using assms by (auto simp: finishChildRecord_def Let_def res_simps split: if_splits)

lemma finish_advances:
  assumes "validateChildRecordState x = None" and "finishChildRecord revision incarnation result e x = Ok x'"
  shows "advances x x' \<and> keepsCancel b x x' \<and> \<not> settledChild x"
proof -
  note shapes = checked_transition_shapes(1) [OF assms(2)]
  then have "\<not> settledChild x" by (auto simp: settledChild_def)
  with shapes finish_fields [OF assms(2)] open_child_decisions [OF assms(1)] child_step.finish [OF assms(2)] show ?thesis
    by (auto simp: advances_def keepsCancel_def)
qed

lemma recover_advances:
  assumes "validateChildRecordState x = None" and "recoverChild incarnation x = Ok x'"
  shows "advances x x' \<and> keepsCancel b x x'"
proof (cases "chd_State x = ChildRunning")
  case True
  then have "\<not> settledChild x" by (simp add: settledChild_def)
  with True assms(2) open_child_decisions [OF assms(1)] child_step.recover [OF True assms(2)] show ?thesis
    by (auto simp: advances_def keepsCancel_def recoverChild_def split: if_splits)
qed (use assms(2) in \<open>auto simp: recoverChild_def advances_def keepsCancel_def\<close>)

section \<open>Begin\<close>

text \<open>
  Effect of an operation on a session: the groups grow and no child is taken from the
  goroutine that runs it.
\<close>

definition safe :: "('w, 't, 'e) executionCheckpointer \<Rightarrow> 'w session \<Rightarrow> 'w session \<Rightarrow> bool" where
  "safe c s s' \<longleftrightarrow> grown c s s' \<and> (\<forall>identity invocation. owns c s identity invocation \<longrightarrow> owns c s' identity invocation)"

lemma safe_refl: "ses_envelope s' = ses_envelope s \<Longrightarrow> safe c s s'"
  unfolding safe_def using grown_refl [of s' s c] owns_same [of s' s c] by simp

lemma safe_trans: "safe c s t \<Longrightarrow> safe c t u \<Longrightarrow> safe c s u"
  unfolding safe_def using grown_trans by blast

lemma safe_world [simp]: "safe c s (t\<lparr>ses_world := w\<rparr>) = safe c s t" "safe c (s\<lparr>ses_world := w\<rparr>) t = safe c s t"
  by (simp_all add: safe_def)

text \<open>The invocation that a launch hands to its goroutine.\<close>

definition launched :: "('w, 't, 'e) executionCheckpointer \<Rightarrow> 'w session \<Rightarrow> string \<Rightarrow> string \<Rightarrow> ChildInvocation \<Rightarrow> bool" where
  "launched c s identity childID invocation \<longleftrightarrow> civ_ChildID invocation = childID \<and> owns c s identity invocation"

context durable_store begin

text \<open>One transition of one child, committed over the groups \<open>groups\<close> that are valid at the head.\<close>

lemma child_transition:
  assumes ok: "groups_ok (exc_sha c) (ses_envelope t) groups" and g: "lookup groups identity = Some g"
    and n: "findChild childID (grp_Children g) = Some (n, x)" and x': "advances x x' \<and> keepsCancel (grp_CancelRequested g) x x' \<and> \<not> settledChild x"
    and run: "run_state (persistChildGroupsLocked c (put identity (setChild n x' g) groups)) t = (None, s')"
  shows "groups_ok (exc_sha c) (ses_envelope s') (put identity (setChild n x' g) groups)" "group_le g (setChild n x' g)"
proof -
  note p = persisted_groups(1,2) [OF run]
  show "groups_ok (exc_sha c) (ses_envelope s') (put identity (setChild n x' g) groups)" "group_le g (setChild n x' g)"
    using child_evolves [OF ok g p(1) less_imp_le [OF p(2)] n] x' by blast+
qed

text \<open>No other child of the group is touched.\<close>

lemma other_owner:
  assumes loaded: "executionChildGroups (exc_sha c) (ses_envelope s) = Ok groups"
    and after: "executionChildGroups (exc_sha c) (ses_envelope s') = Ok (textGroups (put identity (setChild n x' (groupAt groups identity)) groups))"
    and n: "findChild childID (grp_Children (groupAt groups identity)) = Some (n, x)" and x': "chd_Spec x' = chd_Spec x"
    and own: "owns c s i invocation" and other: "i = identity \<Longrightarrow> civ_ChildID invocation = childID \<Longrightarrow>
      \<not> childInvocationMatches x (civ_Revision invocation) (lse_Incarnation (exc_lease c))"
  shows "owns c s' i invocation"
proof (rule owns_put [OF loaded after own])
  fix m y
  assume y: "i = identity" "findChild (civ_ChildID invocation) (grp_Children (groupAt groups identity)) = Some (m, y)"
    "childInvocationMatches y (civ_Revision invocation) (lse_Incarnation (exc_lease c))"
  have "civ_ChildID invocation \<noteq> childID" using other y n by auto
  moreover have "spc_ID (chd_Spec x') = childID" using findChild_at [OF n] x' by simp
  ultimately show "\<exists>m z. findChild (civ_ChildID invocation) (grp_Children (setChild n x' (groupAt groups identity))) = Some (m, z)
      \<and> childInvocationMatches z (civ_Revision invocation) (lse_Incarnation (exc_lease c)) \<and> chd_ExecutionID z = chd_ExecutionID y"
    using findChild_update(2) [OF n] y by (simp add: setChild_def)
qed

end

lemma put_same: "lookup m k = Some v \<Longrightarrow> put k v m = m"
  by (induction m) auto

lemma setChild_same: "findChild i (grp_Children g) = Some (n, x) \<Longrightarrow> setChild n x g = g"
  using findChild_at [of i "grp_Children g" n x] by (auto simp: setChild_def list_update_same_conv)

lemma setChild_twice: "setChild n z (setChild n y g) = setChild n z g"
  by (simp add: setChild_def)

definition queued :: "ChildRecord \<Rightarrow> ChildRecord" where
  "queued x = (if chd_State x = ChildPlanned then queueChild x else x)"

lemma launch_bound:
  assumes "beginGuard b x"
  shows "chd_Revision x + 1 < - 1"
proof -
  have "chd_Revision x \<le> - 1 - 2" using assms by (simp add: beginGuard_def not_less)
  also have "(- 1 - 2 :: uint64) < - 2" by simp
  finally have "chd_Revision x < - 2" .
  moreover have "(- 2 :: uint64) \<noteq> - 1" by simp
  ultimately have "chd_Revision x + 1 < - 2 + 1" by (intro rev_succ_next)
  then show ?thesis by simp
qed

lemma queued_facts:
  assumes "validateChildRecordState x = None" and "beginGuard b x"
  shows "validateChildRecordState (queued x) = None" "beginGuard b (queued x)" "chd_State (queued x) = ChildQueued"
    "chd_Spec (queued x) = chd_Spec x" "chd_ExecutionID (queued x) = chd_ExecutionID x"
    "chd_CancelRequested (queued x) = chd_CancelRequested x" "\<not> settledChild (queued x)"
proof -
  have "chd_Revision x = 0" if "chd_State x = ChildPlanned"
    using assms(1) that by (simp add: validateChildRecordState_def validateChildStateMachine_def Let_def split: if_splits)
  with assms queue_valid [OF assms(1)] show "validateChildRecordState (queued x) = None" "beginGuard b (queued x)" "chd_State (queued x) = ChildQueued"
    "chd_Spec (queued x) = chd_Spec x" "chd_ExecutionID (queued x) = chd_ExecutionID x"
    "chd_CancelRequested (queued x) = chd_CancelRequested x" "\<not> settledChild (queued x)"
    by (auto simp: queued_def queueChild_def beginGuard_def settledChild_def)
qed

context durable_store begin

text \<open>The first commit of a launch, which only a planned child needs.\<close>

lemma queue_safe:
  assumes loaded: "executionChildGroups (exc_sha c) (ses_envelope s) = Ok groups"
    and found: "findChild childID (grp_Children (groupAt groups identity)) = Some (n, x)"
    and guard: "beginGuard (grp_CancelRequested (groupAt groups identity)) x"
    and run: "run_state (if chd_State x = ChildPlanned then persistChildGroupsLocked c (put identity (setChild n (queued x) (groupAt groups identity)) groups)
        else ret None) s = (None, t)"
  shows "safe c s t" "groups_ok (exc_sha c) (ses_envelope t) (put identity (setChild n (queued x) (groupAt groups identity)) groups)"
    "group_le (groupAt groups identity) (setChild n (queued x) (groupAt groups identity))"
proof -
  let ?g = "groupAt groups identity"
  note at = findChild_at [OF found] and g = found_group [OF found] and ok = loaded_groups_ok [OF loaded]
  have x: "validateChildRecordState x = None" using loaded_group_valid(4) [OF ok g] at by auto
  have "safe c s t \<and> groups_ok (exc_sha c) (ses_envelope t) (put identity (setChild n (queued x) ?g) groups) \<and> group_le ?g (setChild n (queued x) ?g)"
  proof (cases "chd_State x = ChildPlanned")
    case True
    then have q: "queued x = queueChild x" and persist: "run_state (persistChildGroupsLocked c (put identity (setChild n (queued x) ?g) groups)) s = (None, t)"
      using run by (simp_all add: queued_def)
    note step = child_transition [OF ok g found _ persist, unfolded q, OF queue_advances [OF x guard True]]
    have grown: "grown c s t" and after: "executionChildGroups (exc_sha c) (ses_envelope t) = Ok (textGroups (put identity (setChild n (queueChild x) ?g) groups))"
      using replaced_groups [OF loaded persist _ _ step(1) [folded q]] step(2) g by (auto simp: q same_address_def)
    have "owns c t i invocation" if "owns c s i invocation" for i invocation
      by (rule other_owner [OF loaded after found _ that]) (use True in \<open>simp_all add: queueChild_def childInvocationMatches_def\<close>)
    with grown step show ?thesis by (auto simp: safe_def q)
  next
    case False
    then have "queued x = x" "t = s" using run by (auto simp: queued_def)
    then show ?thesis using ok put_same [OF g] setChild_same [OF found] group_le_refl safe_refl [OF refl] by simp
  qed
  then show "safe c s t" "groups_ok (exc_sha c) (ses_envelope t) (put identity (setChild n (queued x) ?g) groups)"
    "group_le ?g (setChild n (queued x) ?g)" by blast+
qed

lemma launch_safe:
  assumes loaded: "executionChildGroups (exc_sha c) (ses_envelope s) = Ok groups" and incarnation: "lse_Incarnation (exc_lease c) \<noteq> 0"
    and found: "findChild childID (grp_Children (groupAt groups identity)) = Some (n, x)"
    and guard: "beginGuard (grp_CancelRequested (groupAt groups identity)) x"
    and first: "run_state (if chd_State x = ChildPlanned then persistChildGroupsLocked c (put identity (setChild n (queued x) (groupAt groups identity)) groups)
        else ret None) s = (None, t)"
    and run: "run_state (persistChildGroupsLocked c
        (put identity (setChild n (launchChild (lse_Incarnation (exc_lease c)) (queued x)) (groupAt groups identity)) groups)) t = (None, s')"
  shows "safe c s s'" "childOf (exc_sha c) (ses_envelope s') identity childID = Some (childText (launchChild (lse_Incarnation (exc_lease c)) (queued x)))"
proof -
  let ?g = "groupAt groups identity" and ?q = "setChild n (queued x) (groupAt groups identity)"
  let ?z = "launchChild (lse_Incarnation (exc_lease c)) (queued x)"
  note at = findChild_at [OF found] and g = found_group [OF found] and ok = loaded_groups_ok [OF loaded]
  have x: "validateChildRecordState x = None" using loaded_group_valid(4) [OF ok g] at by auto
  note q = queued_facts [OF x guard] and queue = queue_safe [OF loaded found guard first]
  have foundq: "findChild childID (grp_Children ?q) = Some (n, queued x)"
    using findChild_update(1) [OF found] at q(4) by (simp add: setChild_def)
  have lookupq: "lookup (put identity ?q groups) identity = Some ?q" by simp
  have persist: "run_state (persistChildGroupsLocked c (put identity (setChild n ?z ?q) (put identity ?q groups))) t = (None, s')"
    using run by (simp add: setChild_twice)
  have cancel: "grp_CancelRequested ?q = grp_CancelRequested ?g" by (simp add: setChild_def)
  note step = child_transition [OF queue(2) lookupq foundq _ persist, unfolded cancel, OF launch_advances [OF q(1,2,3) incarnation]]
  have ok': "groups_ok (exc_sha c) (ses_envelope s') (put identity (setChild n ?z ?g) groups)"
    using step(1) by (simp add: setChild_twice)
  have le: "group_le ?g (setChild n ?z ?g)" using group_le_trans [OF queue(3) step(2)] by (simp add: setChild_twice)
  have t: "same_address (ses_envelope t) (ses_envelope s)" "env_Revision (ses_envelope s) \<le> env_Revision (ses_envelope t)"
    using queue(1) by (simp_all add: safe_def grown_def)
  have grown: "grown c s s'" and after: "executionChildGroups (exc_sha c) (ses_envelope s') = Ok (textGroups (put identity (setChild n ?z ?g) groups))"
    using replaced_groups [OF loaded run t ok'] le g by auto
  have specz: "chd_Spec ?z = chd_Spec x" using q(4) by (simp add: launchChild_def)
  have "chd_State x \<noteq> ChildRunning" using guard by (auto simp: beginGuard_def)
  then have "owns c s' i invocation" if "owns c s i invocation" for i invocation
    using other_owner [OF loaded after found specz that] by (simp add: childInvocationMatches_def)
  with grown show "safe c s s'" by (simp add: safe_def)
  show "childOf (exc_sha c) (ses_envelope s') identity childID = Some (childText ?z)"
    using findChild_update(1) [OF found] specz at by (simp add: childOf_put [OF after] setChild_def)
qed

end

context durable_store begin

lemma begin_safe:
  assumes proper: "proper c s" and run: "run_state (beginChildLocked c identity childID) s = (r, s')"
  shows "safe c s s' \<and> (\<forall>invocation. r = Ok invocation \<longrightarrow>
    launched c s' identity childID invocation \<and> (\<forall>other. owns c s identity other \<longrightarrow> civ_ChildID other \<noteq> childID))"
proof (cases "executionChildGroups (exc_sha c) (ses_envelope s)")
  case (Inl e)
  then show ?thesis using run by (auto simp: beginChildLocked_def intro: safe_refl)
next
  case (Inr groups)
  let ?g = "groupAt groups identity" and ?incarnation = "lse_Incarnation (exc_lease c)"
  note loaded = Inr
  show ?thesis
  proof (cases "\<exists>n x. findChild childID (grp_Children ?g) = Some (n, x) \<and> beginGuard (grp_CancelRequested ?g) x")
    case False
    then show ?thesis using run loaded by (auto simp: beginChildLocked_def Let_def intro: safe_refl split: option.splits if_splits)
  next
    case True
    then obtain n x where found: "findChild childID (grp_Children ?g) = Some (n, x)" and guard: "beginGuard (grp_CancelRequested ?g) x" by blast
    let ?first = "if chd_State x = ChildPlanned then persistChildGroupsLocked c (put identity (setChild n (queued x) ?g) groups) else ret None"
    let ?z = "launchChild ?incarnation (queued x)"
    obtain failed t where first: "run_state ?first s = (failed, t)" by fastforce
    have same: "failed \<noteq> None \<Longrightarrow> ses_envelope t = ses_envelope s"
      using first persistGroups_cases by (fastforce split: if_splits)
    obtain failed' u where second: "run_state (persistChildGroupsLocked c (put identity (setChild n ?z ?g) groups)) t = (failed', u)" by fastforce
    have result: "(r, s') = (case failed of Some e \<Rightarrow> (Inl e, t) | None \<Rightarrow> (case failed' of
        Some e \<Rightarrow> (Inl e, u)
      | None \<Rightarrow> (Ok \<lparr>civ_ParentID = grp_ParentID ?g, civ_GroupKey = pln_Key (grp_Plan ?g), civ_ChildID = spc_ID (chd_Spec ?z),
          civ_ExecutionID = chd_ExecutionID ?z, civ_Revision = chd_Revision ?z, civ_Input = spc_Input (chd_Spec ?z),
          civ_Allocation = spc_Allocation (chd_Spec ?z)\<rparr>, u)))"
      using run loaded found guard first second
      by (cases failed; cases failed') (simp_all add: beginChildLocked_def Let_def queued_def [symmetric])
    show ?thesis
    proof (cases failed)
      case (Some e)
      then show ?thesis using result same safe_refl by auto
    next
      case None
      note queue = queue_safe [OF loaded found guard first [unfolded None]]
      show ?thesis
      proof (cases failed')
        case (Some e)
        then have "ses_envelope u = ses_envelope t" using persistGroups_cases [OF second] by auto
        then show ?thesis using result None Some safe_trans [OF queue(1) safe_refl] by auto
      next
        case launched: None
        have "?incarnation \<noteq> 0" using proper by (simp add: proper_def)
        note launch = launch_safe [OF loaded this found guard first [unfolded None] second [unfolded launched]]
        note at = findChild_at [OF found] and g = found_group [OF found] and ok = loaded_groups_ok [OF loaded]
        have x: "validateChildRecordState x = None" using loaded_group_valid(4) [OF ok g] at by auto
        note q = queued_facts [OF x guard]
        have bound: "chd_Revision ?z < - 1" using launch_bound [OF q(2)] by (simp add: launchChild_def)
        have "chd_State x \<noteq> ChildRunning" using guard by (auto simp: beginGuard_def)
        then have "civ_ChildID other \<noteq> childID" if "owns c s identity other" for other
          using that found by (auto simp: owns_def childOf_loaded [OF loaded] childInvocationMatches_def)
        moreover have "spc_ID (chd_Spec ?z) = childID" using q(4) at by (simp add: launchChild_def)
        moreover have "childInvocationMatches ?z (chd_Revision ?z) ?incarnation"
          using bound by (simp add: childInvocationMatches_def) (simp add: launchChild_def)
        ultimately show ?thesis
          using result None launched launch by (auto simp: launched_def owns_def owns_text)
      qed
    qed
  qed
qed

end

section \<open>Finish\<close>

context durable_store begin

lemma finish_locked:
  assumes run: "run_state (finishChildLocked c identity invocation result e) s = (r, s')"
  shows "grown c s s' \<and> (\<forall>i other. owns c s i other \<longrightarrow> (i, civ_ChildID other) \<noteq> (identity, civ_ChildID invocation) \<longrightarrow> owns c s' i other)"
proof (cases "executionChildGroups (exc_sha c) (ses_envelope s)")
  case (Inl e)
  then have "ses_envelope s' = ses_envelope s" using run by (simp add: finishChildLocked_def)
  then show ?thesis using grown_refl owns_same by metis
next
  case (Inr groups)
  let ?g = "groupAt groups identity"
  let ?finish = "finishChildRecord (civ_Revision invocation) (lse_Incarnation (exc_lease c)) result (map_option (exc_errText c) e)"
  note loaded = Inr
  show ?thesis
  proof (cases "\<exists>n x x'. findChild (civ_ChildID invocation) (grp_Children ?g) = Some (n, x) \<and> ?finish x = Ok x'")
    case False
    then have "ses_envelope s' = ses_envelope s"
      using run loaded by (auto simp: finishChildLocked_def Let_def split: option.splits sum.splits)
    then show ?thesis using grown_refl owns_same by metis
  next
    case True
    then obtain n x x' where found: "findChild (civ_ChildID invocation) (grp_Children ?g) = Some (n, x)" and x': "?finish x = Ok x'" by blast
    obtain failed t where persist: "run_state (persistChildGroupsLocked c (put identity (setChild n x' ?g) groups)) s = (failed, t)" by fastforce
    have t: "s' = t" using run loaded found x' persist by (simp add: finishChildLocked_def Let_def)
    show ?thesis
    proof (cases failed)
      case (Some z)
      then have "ses_envelope s' = ses_envelope s" using persistGroups_cases [OF persist] t by auto
      then show ?thesis using grown_refl owns_same by metis
    next
      case None
      note at = findChild_at [OF found] and g = found_group [OF found] and ok = loaded_groups_ok [OF loaded]
      have x: "validateChildRecordState x = None" using loaded_group_valid(4) [OF ok g] at by auto
      note step = child_transition [OF ok g found finish_advances [OF x x'] persist [unfolded None]]
      have grown: "grown c s t" and after: "executionChildGroups (exc_sha c) (ses_envelope t) = Ok (textGroups (put identity (setChild n x' ?g) groups))"
        using replaced_groups [OF loaded persist [unfolded None] _ _ step(1)] step(2) g by (auto simp: same_address_def)
      have "owns c t i other" if "owns c s i other" "(i, civ_ChildID other) \<noteq> (identity, civ_ChildID invocation)" for i other
        using other_owner [OF loaded after found finish_fields(7) [OF x'] that(1)] that(2) by auto
      with grown show ?thesis by (simp add: t)
    qed
  qed
qed

end

section \<open>Recovery\<close>

lemma recover_loop_Inr:
  assumes "recover_loop incarnation g recovered cs changed pending = Inr (ds, changed', pending')"
  shows "\<exists>es. ds = recovered @ es \<and> list_all2 (\<lambda>x y. recoverChild incarnation x = Ok y) cs es
    \<and> (changed' \<longleftrightarrow> changed \<or> (\<exists>x \<in> set cs. chd_State x = ChildRunning))"
  using assms
proof (induction cs arbitrary: recovered changed pending)
  case (Cons x cs)
  then obtain y where y: "recoverChild incarnation x = Ok y" by (auto split: sum.splits)
  with Cons.prems obtain es where "ds = (recovered @ [y]) @ es" "list_all2 (\<lambda>x y. recoverChild incarnation x = Ok y) cs es"
      "changed' \<longleftrightarrow> (changed \<or> chd_State x = ChildRunning) \<or> (\<exists>x \<in> set cs. chd_State x = ChildRunning)"
    by (auto dest: Cons.IH)
  with y show ?case by (intro exI [of _ "y # es"]) auto
qed simp

lemma recover_owned:
  "childInvocationMatches x revision incarnation \<Longrightarrow> \<exists>e. recoverChild incarnation x = Inl e"
  by (auto simp: childInvocationMatches_def recoverChild_def)

context durable_store begin

lemma recover_safe:
  assumes run: "run_state (recoverChildLaunches c identity) s = (r, s')"
  shows "safe c s s'"
proof (cases "executionChildGroups (exc_sha c) (ses_envelope s)")
  case (Inl e)
  then show ?thesis using run by (auto simp: recoverChildLaunches_def intro: safe_refl)
next
  case (Inr groups)
  let ?g = "groupAt groups identity" and ?incarnation = "lse_Incarnation (exc_lease c)"
  note loaded = Inr
  show ?thesis
  proof (cases "\<exists>ds pending. recover_loop ?incarnation ?g [] (grp_Children ?g) False False = Inr (ds, True, pending)")
    case False
    then show ?thesis
      using run loaded
      by (cases "recover_loop ?incarnation ?g [] (grp_Children ?g) False False")
        (auto simp: recoverChildLaunches_def Let_def intro: safe_refl split: prod.splits)
  next
    case True
    then obtain ds pending where loop: "recover_loop ?incarnation ?g [] (grp_Children ?g) False False = Inr (ds, True, pending)" by blast
    from recover_loop_Inr [OF loop] obtain x where ds: "list_all2 (\<lambda>x y. recoverChild ?incarnation x = Ok y) (grp_Children ?g) ds"
      and x: "x \<in> set (grp_Children ?g)" "chd_State x = ChildRunning" by auto
    obtain failed t where persist: "run_state (persistChildGroupsLocked c (put identity (?g\<lparr>grp_Children := ds\<rparr>) groups)) s = (failed, t)" by fastforce
    have t: "s' = t" using run loaded loop persist by (simp add: recoverChildLaunches_def Let_def)
    show ?thesis
    proof (cases failed)
      case (Some e)
      then show ?thesis using persistGroups_cases [OF persist] t by (auto intro: safe_refl)
    next
      case None
      have g: "lookup groups identity = Some ?g" using x(1) by (auto simp: groupAt_def split: option.splits)
      note ok = loaded_groups_ok [OF loaded] and p = persisted_groups(1,2) [OF persist [unfolded None]]
      have evolve: "list_all2 (\<lambda>c c'. advances c c' \<and> keepsCancel (grp_CancelRequested ?g) c c') (grp_Children ?g) ds"
        using ds loaded_group_valid(4) [OF ok g] recover_advances by (auto simp: list_all2_conv_all_nth)
      have "\<not> settledChild x" using x(2) by (simp add: settledChild_def)
      note step = children_evolve [OF ok g p(1) less_imp_le [OF p(2)] evolve x(1) this]
      have grown: "grown c s t" and after: "executionChildGroups (exc_sha c) (ses_envelope t) = Ok (textGroups (put identity (?g\<lparr>grp_Children := ds\<rparr>) groups))"
        using replaced_groups [OF loaded persist [unfolded None] _ _ step(1)] step(2) g by (auto simp: same_address_def)
      have "owns c t i invocation" if own: "owns c s i invocation" for i invocation
      proof (rule owns_put [OF loaded after own])
        fix n y
        assume found: "findChild (civ_ChildID invocation) (grp_Children ?g) = Some (n, y)"
          and match: "childInvocationMatches y (civ_Revision invocation) ?incarnation"
        have "recoverChild ?incarnation y = Ok (ds ! n)"
          using findChild_at [OF found] list_all2_nthD [OF ds, of n] by simp
        then have False using recover_owned [OF match] by simp
        then show "\<exists>m z. findChild (civ_ChildID invocation) (grp_Children (?g\<lparr>grp_Children := ds\<rparr>)) = Some (m, z)
          \<and> childInvocationMatches z (civ_Revision invocation) ?incarnation \<and> chd_ExecutionID z = chd_ExecutionID y" by simp
      qed
      with grown show ?thesis by (simp add: safe_def t)
    qed
  qed
qed

end

section \<open>Cancellation\<close>

lemma group_ids:
  assumes "validateChildGroup sha g = None"
  shows "distinct (map (spc_ID \<circ> chd_Spec) (grp_Children g))" "grp_Children g \<noteq> []"
proof -
  from assms obtain base where base: "PlanChildGroup sha (grp_ParentID g) (grp_Node g) (grp_Activation g) (grp_Plan g) (grp_Capacity g) = Ok base"
    and len: "length (grp_Children g) = length (grp_Children base)"
    and rel: "list_all2 (\<lambda>c original. chd_ExecutionID c = chd_ExecutionID original \<and> specEqual (chd_Spec c) (chd_Spec original)
       \<and> validateChildRecordState c = None) (grp_Children g) (grp_Children base)"
    by (auto simp: validateChildGroup_iff)
  note i = plan_inv [OF base]
  have "\<forall>name. 0 \<le> left (grp_Capacity g) name" using capacity_left [OF i(1)] by simp
  with i(2) plan_loop_iff have d: "distinct (map spc_ID (pln_Children (grp_Plan g)))" by blast
  have "map (spc_ID \<circ> chd_Spec) (grp_Children base) = map spc_ID (sortSpecs (pln_Children (grp_Plan g)))"
    by (simp add: i(3) newChildRecord_def)
  moreover have "distinct (map spc_ID (sortSpecs (pln_Children (grp_Plan g))))"
    using d unfolding distinct_count_atmost_1 mset_map sortSpecs_def by simp
  moreover have "map (spc_ID \<circ> chd_Spec) (grp_Children g) = map (spc_ID \<circ> chd_Spec) (grp_Children base)"
    using rel by (induction rule: list_all2_induct) (auto simp: specEqual_def)
  ultimately show "distinct (map (spc_ID \<circ> chd_Spec) (grp_Children g))" by simp
  have "pln_Children (grp_Plan g) \<noteq> []" using base by (auto simp: PlanChildGroup_def split: if_splits)
  then show "grp_Children g \<noteq> []" using len by (auto simp: i(3) sortSpecs_def)
qed

lemma requestCancelAll_Ok: "requestCancelAll cs = Ok ds \<Longrightarrow> list_all2 (\<lambda>x y. requestCancelChild x = Ok y) cs ds"
  by (induction cs arbitrary: ds) (auto simp: res_simps)

lemma request_advances:
  assumes "validateChildRecordState x = None" and "requestCancelChild x = Ok x'"
  shows "advances x x'"
proof (cases "settledChild x")
  case True
  then show ?thesis using assms(2) by (simp add: requestCancelChild_def advances_def)
next
  case False
  with assms(2) open_child_decisions [OF assms(1)] child_step.request [OF False assms(2)] show ?thesis
    by (auto simp: advances_def requestCancelChild_def Let_def split: if_splits)
qed

lemma request_marks:
  assumes "requestCancelChild x = Ok x'"
  shows "chd_State x' \<noteq> ChildPlanned \<and> chd_State x' \<noteq> ChildQueued \<and> (settledChild x' \<or> chd_CancelRequested x')"
  using assms by (auto simp: requestCancelChild_def Let_def settledChild_def split: if_splits)

lemma request_owned:
  assumes "childInvocationMatches x revision incarnation" and "\<not> chd_CancelRequested x" and "requestCancelChild x = Ok x'"
  shows "childInvocationMatches x' revision incarnation \<and> chd_ExecutionID x' = chd_ExecutionID x \<and> chd_Spec x' = chd_Spec x"
proof -
  from assms have x: "chd_State x = ChildRunning" "chd_Revision x = revision" "chd_Incarnation x = incarnation" "chd_Revision x < - 1"
    by (auto simp: childInvocationMatches_def)
  then have x': "x' = x\<lparr>chd_CancelRequested := True, chd_Revision := chd_Revision x + 1\<rparr>" and "\<not> chd_Revision x \<ge> - 1 - 1"
    using assms(3) by (auto simp: requestCancelChild_def settledChild_def Let_def split: if_splits)
  then have "chd_Revision x < - 2" by (simp add: not_le)
  then have "chd_Revision x + 1 < - 2 + 1" by (intro rev_succ_next) simp_all
  with x show ?thesis by (simp add: x' childInvocationMatches_def)
qed

text \<open>A request as \<open>CancelChildren\<close> admits it.\<close>

definition requestOK :: "ChildCancelRequest \<Rightarrow> bool" where
  "requestOK request \<longleftrightarrow> cnr_ID request \<noteq> '''' \<and> cnr_Reason request \<noteq> '''' \<and> validRuntimeText [cnr_ID request, cnr_Reason request]"

context durable_store begin

lemma canceled_group:
  assumes loaded: "executionChildGroups (exc_sha c) (ses_envelope s) = Ok groups" and g: "lookup groups identity = Some g"
    and request: "requestOK request" and revision: "env_Revision (ses_envelope s) \<noteq> 0" and incarnation: "lse_Incarnation (exc_lease c) \<noteq> 0" and now: "\<not> IsZero now"
    and cancel: "requestGroupCancel g (cnr_ID request) (cnr_Reason request) (env_Revision (ses_envelope s)) (lse_Incarnation (exc_lease c)) now = Ok (Some g')"
    and run: "run_state (persistChildGroupsLocked c (put identity g' groups)) (s\<lparr>ses_world := w\<rparr>) = (None, s')"
  shows "safe c s s'"
proof -
  from cancel obtain cs where none: "grp_CancelRequest g = None" and merged: "grp_MergedIDs g = []" and cs: "requestCancelAll (grp_Children g) = Ok cs"
    and g': "g' = g\<lparr>grp_Children := cs, grp_CancelRequested := True, grp_CancelRequest := Some \<lparr>ccr_ID = cnr_ID request, ccr_Reason = cnr_Reason request,
      ccr_SourceRevision = env_Revision (ses_envelope s), ccr_Incarnation = lse_Incarnation (exc_lease c), ccr_At = now\<rparr>\<rparr>"
    by (auto simp: requestGroupCancel_def res_simps split: if_splits option.splits)
  note ok = loaded_groups_ok [OF loaded] and p = persisted_groups(1,2) [OF run, simplified]
  note valid = loaded_group_valid [OF ok g] and all = requestCancelAll_Ok [OF cs]
  have evolved: "evolved g cs"
    using all valid(4) request_advances by (auto simp: evolved_def list_all2_conv_all_nth)
  have "chd_State y \<noteq> ChildPlanned \<and> chd_State y \<noteq> ChildQueued \<and> (settledChild y \<or> chd_CancelRequested y)" if "y \<in> set cs" for y
    using list_all2_source [OF all that] request_marks by blast
  then have cancellation: "validChildCancellation g'"
    using request revision incarnation now by (simp add: g' validChildCancellation_def list_all_iff requestOK_def)
  have "groups_ok (exc_sha c) (ses_envelope s') (put identity g' groups)"
    by (rule groups_evolve [OF ok g p(1) less_imp_le [OF p(2)] evolved merged group_ids(2) [OF valid(1)] g' cancellation])
      (use none p(2) in simp)
  moreover have "group_le g g'" unfolding g' by (rule evolved_le [OF valid(1) evolved merged disjI2 [OF none]])
  ultimately have grown: "grown c s s'" and after: "executionChildGroups (exc_sha c) (ses_envelope s') = Ok (textGroups (put identity g' groups))"
    using replaced_groups [OF loaded run] g by (auto simp: same_address_def)
  have at: "groupAt groups identity = g" using g by (simp add: groupAt_def)
  have quiet: "\<not> chd_CancelRequested x" if "x \<in> set (grp_Children g)" for x
    using that valid(1) none by (auto simp: validateChildGroup_iff validChildCancellation_def list_all_iff split: if_splits)
  have "owns c s' i invocation" if own: "owns c s i invocation" for i invocation
  proof (rule owns_put [OF loaded after own])
    fix n x
    assume found: "findChild (civ_ChildID invocation) (grp_Children (groupAt groups identity)) = Some (n, x)"
      and match: "childInvocationMatches x (civ_Revision invocation) (lse_Incarnation (exc_lease c))"
    have n: "n < length (grp_Children g)" "grp_Children g ! n = x" using findChild_at [OF found] at by simp_all
    have step: "requestCancelChild x = Ok (cs ! n)" using list_all2_nthD [OF all n(1)] n(2) by simp
    have spec: "chd_Spec y = chd_Spec x" if "requestCancelChild x = Ok y" for x y
      using that by (auto simp: requestCancelChild_def Let_def split: if_splits)
    from findChild_rel [OF all spec, of "civ_ChildID invocation"] found at obtain y where
        y: "findChild (civ_ChildID invocation) cs = Some (n, y)" "requestCancelChild x = Ok y"
      by (auto simp: option_rel_Some1 rel_prod_sel)
    have "x \<in> set (grp_Children g)" using n by auto
    from request_owned [OF match quiet [OF this] y(2)] y(1) show "\<exists>m y. findChild (civ_ChildID invocation) (grp_Children g') = Some (m, y)
        \<and> childInvocationMatches y (civ_Revision invocation) (lse_Incarnation (exc_lease c)) \<and> chd_ExecutionID y = chd_ExecutionID x"
      by (simp add: g')
  qed
  with grown show ?thesis by (simp add: safe_def)
qed

lemma cancel_safe:
  assumes proper: "proper c s" and request: "requestOK request"
    and run: "run_state (requestChildCancellationLocked c identity expected request) s = (r, s')"
  shows "safe c s s'"
proof (cases "executionChildGroups (exc_sha c) (ses_envelope s)")
  case (Inl e)
  then show ?thesis using run by (auto simp: requestChildCancellationLocked_def intro: safe_refl)
next
  case (Inr groups)
  note loaded = Inr
  show ?thesis
  proof (cases "\<exists>g. lookup groups identity = Some g \<and> currentChildGroup (exc_sha c) (ses_envelope s) g \<and> sameGroup g expected \<and> grp_MergedIDs g = []")
    case False
    then show ?thesis using run loaded by (auto simp: requestChildCancellationLocked_def intro: safe_refl split: option.splits if_splits)
  next
    case True
    then obtain g where g: "lookup groups identity = Some g" and guard: "currentChildGroup (exc_sha c) (ses_envelope s) g" "sameGroup g expected" "grp_MergedIDs g = []"
      by blast
    let ?now = "if grp_CancelRequest g = None then host (exc_clock c) else ret 0"
    obtain now u where now: "run_state ?now s = (now, u)" by fastforce
    then have u: "\<exists>w. u = s\<lparr>ses_world := w\<rparr>" by (cases "grp_CancelRequest g") auto
    let ?cancel = "requestGroupCancel g (cnr_ID request) (cnr_Reason request) (env_Revision (ses_envelope s)) (lse_Incarnation (exc_lease c)) now"
    show ?thesis
    proof (cases "\<exists>g'. ?cancel = Ok (Some g')")
      case False
      then have "ses_envelope s' = ses_envelope u"
        using run loaded g guard now by (auto simp: requestChildCancellationLocked_def split: sum.splits option.splits)
      then show ?thesis using u by (auto intro: safe_refl)
    next
      case True
      then obtain g' where g': "?cancel = Ok (Some g')" by blast
      obtain failed t where persist: "run_state (persistChildGroupsLocked c (put identity g' groups)) u = (failed, t)" by fastforce
      have t: "s' = t" using run loaded g guard now g' persist by (simp add: requestChildCancellationLocked_def)
      have "grp_CancelRequest g = None" using g' by (auto simp: requestGroupCancel_def split: if_splits option.splits)
      then have "\<not> IsZero now" using now proper by (auto simp: proper_def)
      then show ?thesis
        using canceled_group [OF loaded g request _ _ _ g'] persist persistGroups_cases [OF persist] u proper t
        by (cases failed) (auto simp: proper_def intro: safe_refl)
    qed
  qed
qed

end

section \<open>Replacements of a group with the same children\<close>

lemma same_children_provenance:
  assumes "validChildGroupProvenance sha g revision" and "\<forall>(_, r) \<in> set (grp_BudgetReturns g'). cbr_SourceRevision r < revision"
    and g': "grp_Node g' = grp_Node g" "grp_Activation g' = grp_Activation g" "grp_Plan g' = grp_Plan g" "grp_Children g' = grp_Children g"
      "grp_CancelRequest g' = grp_CancelRequest g"
  shows "validChildGroupProvenance sha g' revision"
proof -
  have same: "validChildOutcomeGroupProvenance sha g' y revision = validChildOutcomeGroupProvenance sha g y revision" for y
    by (cases "chd_OutcomeResolution y") (simp_all add: validChildOutcomeGroupProvenance_def g')
  from assms(1,2) show ?thesis unfolding validChildGroupProvenance_def list_all_iff same g' by blast
qed
lemma same_children_valid:
  assumes "validateChildGroup sha g = None" and "grp_ParentID g' = grp_ParentID g" "grp_Node g' = grp_Node g"
    "grp_Activation g' = grp_Activation g" "grp_Plan g' = grp_Plan g" "grp_Children g' = grp_Children g" "grp_Capacity g' = grp_Capacity g"
    and "validChildCancellation g'" "validChildJoin g'" "validChildBudgetReturns g'"
  shows "validateChildGroup sha g' = None"
  using assms unfolding validateChildGroup_iff by auto
context durable_store begin

lemma same_children_safe:
  assumes loaded: "executionChildGroups (exc_sha c) (ses_envelope s) = Ok groups" and g: "lookup groups identity = Some g"
    and g': "grp_ParentID g' = grp_ParentID g" "grp_Node g' = grp_Node g" "grp_Activation g' = grp_Activation g" "grp_Plan g' = grp_Plan g"
      "grp_Children g' = grp_Children g" "grp_Capacity g' = grp_Capacity g"
    and valid: "validateChildGroup (exc_sha c) g' = None" "validChildGroupProvenance (exc_sha c) g' (env_Revision (ses_envelope s'))"
    and open_or_merged: "length (grp_MergedIDs g') = length (grp_Children g') \<or> currentChildGroup (exc_sha c) (ses_envelope s) g"
    and ledger: "ledger_le g g'" and le: "group_le g g'"
    and run: "run_state (persistChildGroupsLocked c (put identity g' groups)) t = (None, s')"
    and t: "ses_envelope t = ses_envelope s"
  shows "safe c s s'"
proof -
  note ok = loaded_groups_ok [OF loaded] and p = persisted_groups(1,2) [OF run, unfolded t]
  note old = loaded_group_valid [OF ok g]
  have "(identity, g) \<in> set groups" using g by (rule map_of_SomeD)
  then have "grp_Activation g \<noteq> 0" "grp_Activation g \<le> env_Activation (ses_envelope s)"
    using ok by (auto simp: groups_ok_def childGroup_iff)
  then have error: "childGroupError (exc_sha c) (ses_envelope s') (identity, g') = None"
    using valid old(2,3) g' p(1) by (simp add: childGroup_iff same_address_def)
  have "currentChildGroup (exc_sha c) (ses_envelope s) g' = currentChildGroup (exc_sha c) (ses_envelope s) g"
    by (simp add: currentChildGroup_def g')
  then have "length (grp_MergedIDs g') = length (grp_Children g') \<or> currentChildGroup (exc_sha c) (ses_envelope s') g'"
    using open_or_merged references_cong(3) [OF p(1)] by simp
  then have "groups_ok (exc_sha c) (ses_envelope s') (put identity g' groups)"
    using groups_replace [OF groups_ok_later [OF ok p(1) less_imp_le [OF p(2)]] g error] ledger by (simp add: g')
  then have grown: "grown c s s'" and after: "executionChildGroups (exc_sha c) (ses_envelope s') = Ok (textGroups (put identity g' groups))"
    using replaced_groups [OF loaded run] le g t by (auto simp: same_address_def)
  have at: "groupAt groups identity = g" using g by (simp add: groupAt_def)
  have "owns c s' i invocation" if own: "owns c s i invocation" for i invocation
    by (rule owns_put [OF loaded after own]) (simp add: at g')
  with grown show ?thesis by (simp add: safe_def)
qed

end

section \<open>Budget returns\<close>

text \<open>A claim as \<open>ReturnChildBudget\<close> admits it.\<close>

definition claimOK :: "ChildBudgetReturn \<Rightarrow> bool" where
  "claimOK claim \<longleftrightarrow> cbc_DecisionID claim \<noteq> '''' \<and> cbc_Reason claim \<noteq> '''' \<and> cbc_Evidence claim \<noteq> ''''
     \<and> validRuntimeText [cbc_DecisionID claim, cbc_Reason claim, cbc_Evidence claim]"

lemma put_ball: "\<forall>entry \<in> set m. P entry \<Longrightarrow> P (k, v) \<Longrightarrow> \<forall>entry \<in> set (put k v m). P entry"
  using put_subset [of k v m] by blast

lemma list_all2_target: "list_all2 R xs ys \<Longrightarrow> x \<in> set xs \<Longrightarrow> \<exists>y \<in> set ys. R x y"
  by (induction rule: list_all2_induct) auto

lemma lookup_map_values: "lookup (map (\<lambda>(k, v). (k, f k v)) m) k = map_option (f k) (lookup m k)"
  by (induction m) auto

lemma consistent_allocation:
  assumes "validateChildGroup sha g = None" and "x \<in> set (grp_Children g)" and "(n, a) \<in> set (spc_Allocation (chd_Spec x))"
  shows "lookup (spc_Allocation (chd_Spec x)) n = Some a"
proof -
  from assms(1) obtain base :: ChildGroupRecord where "list_all2 (\<lambda>c original. chd_ExecutionID c = chd_ExecutionID original \<and> specEqual (chd_Spec c) (chd_Spec original)
       \<and> validateChildRecordState c = None) (grp_Children g) (grp_Children base)"
    by (auto simp: validateChildGroup_iff)
  from list_all2_target [OF this assms(2)] obtain original :: ChildRecord where "specEqual (chd_Spec x) (chd_Spec original)" by blast
  then have l: "\<forall>(k, v) \<in> set (spc_Allocation (chd_Spec x)). lookup (spc_Allocation (chd_Spec original)) k = Some v"
    by (simp add: specEqual_def maps_Equal_def list_all_iff)
  obtain b where b: "lookup (spc_Allocation (chd_Spec x)) n = Some b" using assms(3) by (metis not_None_eq weak_map_of_SomeI)
  have "lookup (spc_Allocation (chd_Spec original)) n = Some b" "lookup (spc_Allocation (chd_Spec original)) n = Some a"
    using l map_of_SomeD [OF b] assms(3) by (fastforce, fastforce)
  with b show ?thesis by simp
qed

lemma budget_return_facts:
  assumes "ComputeChildBudgetReturn x used = Ok returned"
    and "\<And>n a. (n, a) \<in> set (spc_Allocation (chd_Spec x)) \<Longrightarrow> lookup (spc_Allocation (chd_Spec x)) n = Some a"
  shows "maps_Equal returned returned"
    "(n, a) \<in> set (spc_Allocation (chd_Spec x)) \<Longrightarrow> \<exists>u. lookup returned n = Some u \<and> 0 \<le> u \<and> u \<le> a"
proof -
  let ?alloc = "spc_Allocation (chd_Spec x)"
  have returned: "returned = map (\<lambda>(name, allocated). (name, allocated - the (lookup used name))) ?alloc"
    and used: "\<forall>(name, units) \<in> set used. \<exists>allocated. lookup ?alloc name = Some allocated \<and> 0 \<le> units \<and> units \<le> allocated"
    and all: "\<forall>(name, allocated) \<in> set ?alloc. lookup used name \<noteq> None"
    using assms(1) by (auto simp: ComputeChildBudgetReturn_def Let_def list_ex_iff split: if_splits option.splits)
  have look: "lookup returned k = map_option (\<lambda>a. a - the (lookup used k)) (lookup ?alloc k)" for k
    unfolding returned using lookup_map_values [of "\<lambda>name allocated. allocated - the (lookup used name)"] by simp
  show "maps_Equal returned returned"
    using assms(2) by (auto simp: maps_Equal_def list_all_iff look) (auto simp: returned)
  assume m: "(n, a) \<in> set ?alloc"
  then obtain u where u: "lookup used n = Some u" using all by fastforce
  then have "0 \<le> u \<and> u \<le> a" using used assms(2) [OF m] map_of_SomeD [OF u] by fastforce
  then show "\<exists>u. lookup returned n = Some u \<and> 0 \<le> u \<and> u \<le> a" using look [of n] assms(2) [OF m] u by auto
qed

context durable_store begin

lemma returned_group:
  assumes loaded: "executionChildGroups (exc_sha c) (ses_envelope s) = Ok groups" and g: "lookup groups identity = Some g"
    and current: "currentChildGroup (exc_sha c) (ses_envelope s) g" and claim: "claimOK claim"
    and now: "\<not> IsZero now" and proper: "proper c s"
    and new: "lookup (grp_BudgetReturns g) (cbc_ChildID claim) = None"
    and child: "childForBudgetReturn g (cbc_ChildID claim) = Some x" "chd_Revision x = cbc_ChildRevision claim"
    and returned: "ComputeChildBudgetReturn x (cbc_Used claim) = Ok returned"
    and g': "g' = g\<lparr>grp_BudgetReturns := put (cbc_ChildID claim)
      (budgetReturnRecord claim returned (env_Revision (ses_envelope s)) (lse_Incarnation (exc_lease c)) now) (grp_BudgetReturns g)\<rparr>"
    and run: "run_state (persistChildGroupsLocked c (put identity g' groups)) (s\<lparr>ses_world := w\<rparr>) = (None, s')"
  shows "safe c s s'"
proof -
  let ?r = "budgetReturnRecord claim returned (env_Revision (ses_envelope s)) (lse_Incarnation (exc_lease c)) now"
  note ok = loaded_groups_ok [OF loaded] and p = persisted_groups(1,2) [OF run, simplified]
  note valid = loaded_group_valid [OF ok g]
  have x: "x \<in> set (grp_Children g)" "spc_ID (chd_Spec x) = cbc_ChildID claim"
    using child(1) by (auto simp: childForBudgetReturn_def find_Some_iff)
  note used = budget_return_facts [OF returned consistent_allocation [OF valid(1) x(1)]]
  have find: "childForBudgetReturn g' i = childForBudgetReturn g i" for i by (simp add: childForBudgetReturn_def g')
  have "return_ok g' (cbc_ChildID claim) ?r"
    using child returned claim now proper used(1) by (auto simp: return_ok_def find budgetReturnRecord_def claimOK_def proper_def)
  moreover have "return_ok g' i r" if "return_ok g i r" for i r
    using that by (simp add: return_ok_def find)
  moreover have "validChildBudgetReturns g" using valid(1) by (auto simp: validateChildGroup_iff)
  moreover have put: "grp_BudgetReturns g' = put (cbc_ChildID claim) ?r (grp_BudgetReturns g)" by (simp add: g')
  ultimately have "validChildBudgetReturns g'"
    unfolding budgetReturns_iff put by (intro put_ball) auto
  moreover have "validChildCancellation g' = validChildCancellation g" "validChildJoin g' = validChildJoin g"
    by (simp_all add: validChildCancellation_def validChildJoin_def g')
  ultimately have valid': "validateChildGroup (exc_sha c) g' = None"
    using same_children_valid [OF valid(1), of g'] valid(1) by (auto simp: g' validateChildGroup_iff)
  have "(identity, g) \<in> set groups" using g by (rule map_of_SomeD)
  then have "validChildGroupProvenance (exc_sha c) g (env_Revision (ses_envelope s))"
    using ok by (auto simp: groups_ok_def childGroup_iff)
  from provenance_later [OF this less_imp_le [OF p(2)]] have old: "validChildGroupProvenance (exc_sha c) g (env_Revision (ses_envelope s'))" .
  have "\<forall>(_, r) \<in> set (grp_BudgetReturns g'). cbr_SourceRevision r < env_Revision (ses_envelope s')"
    unfolding put using old p(2)
    by (intro put_ball) (auto simp: validChildGroupProvenance_def list_all_iff budgetReturnRecord_def)
  then have prov: "validChildGroupProvenance (exc_sha c) g' (env_Revision (ses_envelope s'))"
    by (rule same_children_provenance [OF old]) (simp_all add: g')
  have "distinct (map (spc_ID \<circ> chd_Spec) (grp_Children g))" by (rule group_ids(1) [OF valid(1)])
  then have unique: "y = x" if "y \<in> set (grp_Children g)" "spc_ID (chd_Spec y) = cbc_ChildID claim" for y
    using that x by (auto simp: distinct_map inj_on_def)
  have "returnsMore (returnedUnits g y) (returnedUnits g' y) (spc_Allocation (chd_Spec y))" if "y \<in> set (grp_Children g)" for y
  proof (cases "spc_ID (chd_Spec y) = cbc_ChildID claim")
    case True
    then have y: "y = x" using unique that by simp
    have "returnedUnits g x n = 0" for n using new x(2) by (simp add: returnedUnits_def)
    moreover have "returnedUnits g' x n = (case lookup returned n of None \<Rightarrow> 0 | Some u \<Rightarrow> u)" for n
      using x(2) by (simp add: returnedUnits_def g' budgetReturnRecord_def)
    ultimately show ?thesis using used(2) by (fastforce simp: returnsMore_def y)
  next
    case False
    then have "returnedUnits g' y = returnedUnits g y" by (intro ext) (simp add: returnedUnits_def g')
    then show ?thesis by (simp add: returnsMore_def)
  qed
  then have ledger: "ledger_le g g'" by (simp add: ledger_le_def g' list_all2_same)
  have le: "group_le g g'" using new by (auto simp: group_le_def g' list_all2_same child_le_refl)
  show ?thesis
    by (rule same_children_safe [OF loaded g _ _ _ _ _ _ valid' prov disjI2 [OF current] ledger le run]) (simp_all add: g')
qed

lemma return_safe:
  assumes proper: "proper c s" and claim: "claimOK claim"
    and run: "run_state (returnChildBudget c expected claim) s = (r, s')"
  shows "safe c s s'"
proof (cases "executionChildGroups (exc_sha c) (ses_envelope s)")
  case (Inl e)
  then show ?thesis using run by (auto simp: returnChildBudget_def intro: safe_refl)
next
  case (Inr groups)
  let ?i = "groupIdentity (exc_sha c) expected"
  note loaded = Inr
  show ?thesis
  proof (cases "\<exists>g x returned. lookup groups ?i = Some g \<and> currentChildGroup (exc_sha c) (ses_envelope s) g \<and> sameGroup g expected
      \<and> lookup (grp_BudgetReturns g) (cbc_ChildID claim) = None \<and> childForBudgetReturn g (cbc_ChildID claim) = Some x
      \<and> chd_Revision x = cbc_ChildRevision claim \<and> ComputeChildBudgetReturn x (cbc_Used claim) = Ok returned")
    case False
    then show ?thesis
      using run loaded by (auto simp: returnChildBudget_def Let_def intro: safe_refl split: option.splits if_splits sum.splits)
  next
    case True
    then obtain g x returned where g: "lookup groups ?i = Some g" and current: "currentChildGroup (exc_sha c) (ses_envelope s) g" and same: "sameGroup g expected"
      and new: "lookup (grp_BudgetReturns g) (cbc_ChildID claim) = None" and child: "childForBudgetReturn g (cbc_ChildID claim) = Some x"
        "chd_Revision x = cbc_ChildRevision claim" and returned: "ComputeChildBudgetReturn x (cbc_Used claim) = Ok returned" by blast
    let ?now = "fst (run_state (exc_clock c) (ses_world s))" and ?s = "s\<lparr>ses_world := snd (run_state (exc_clock c) (ses_world s))\<rparr>"
    define g' where "g' = g\<lparr>grp_BudgetReturns := put (cbc_ChildID claim)
      (budgetReturnRecord claim returned (env_Revision (ses_envelope s)) (lse_Incarnation (exc_lease c)) ?now) (grp_BudgetReturns g)\<rparr>"
    obtain failed t where persist: "run_state (persistChildGroupsLocked c (put ?i g' groups)) ?s = (failed, t)" by fastforce
    have t: "s' = t" using run loaded g current same new child returned persist by (simp add: returnChildBudget_def Let_def g'_def)
    have now: "\<not> IsZero ?now" using proper by (simp add: proper_def)
    show ?thesis
      using returned_group [OF loaded g current claim now proper new child returned g'_def] persist persistGroups_cases [OF persist] t
      by (cases failed) (auto intro: safe_refl)
  qed
qed

end

section \<open>Join\<close>

text \<open>
  A callback that runs while the mutex is free: whatever the session does meanwhile is
  safe, and the head is another one as soon as its revision is.
\<close>

definition orderly :: "('w, 't, 'e) executionCheckpointer \<Rightarrow> ('w session, 'a) state \<Rightarrow> bool" where
  "orderly c m \<longleftrightarrow> (\<forall>s x s'. run_state m s = (x, s') \<longrightarrow> safe c s s'
     \<and> (env_Revision (ses_envelope s') = env_Revision (ses_envelope s) \<longrightarrow> ses_envelope s' = ses_envelope s))"

context durable_store begin

lemma joined_group:
  assumes loaded: "executionChildGroups (exc_sha c) (ses_envelope s) = Ok groups" and g: "lookup groups identity = Some g"
    and settled: "list_all settledChild (grp_Children g)" and unmerged: "length (grp_MergedIDs g) \<noteq> length (grp_Children g)"
    and g': "g' = g\<lparr>grp_MergedIDs := map (spc_ID \<circ> chd_Spec) (grp_Children g), grp_MergedResult := result\<rparr>"
    and run: "run_state (persistChildGroupsLocked c (put identity g' groups)) t = (None, s')" and t: "ses_envelope t = ses_envelope s"
  shows "safe c s s'" "executionChildGroups (exc_sha c) (ses_envelope s') = Ok (textGroups (put identity g' groups))"
proof -
  note ok = loaded_groups_ok [OF loaded] and p = persisted_groups [OF run, unfolded t]
  note valid = loaded_group_valid [OF ok g]
  have some: "grp_Children g \<noteq> []" by (rule group_ids(2) [OF valid(1)])
  have merged: "grp_MergedIDs g = []" using valid(1) unmerged by (auto simp: validateChildGroup_iff validChildJoin_def split: if_splits)
  have find: "childForBudgetReturn g' i = childForBudgetReturn g i" for i by (simp add: childForBudgetReturn_def g')
  have "validChildCancellation g' = validChildCancellation g" "validChildBudgetReturns g' = validChildBudgetReturns g"
    by (simp add: validChildCancellation_def g') (simp only: validChildBudgetReturns_def find, simp add: g')
  moreover have "validChildJoin g'"
    using settled some by (simp add: validChildJoin_def g' list_all2_map1 list_all2_same list_all_iff)
  ultimately have valid': "validateChildGroup (exc_sha c) g' = None"
    using same_children_valid [OF valid(1), of g'] valid(1) by (auto simp: g' validateChildGroup_iff)
  have "(identity, g) \<in> set groups" using g by (rule map_of_SomeD)
  then have "validChildGroupProvenance (exc_sha c) g (env_Revision (ses_envelope s))"
    using ok by (auto simp: groups_ok_def childGroup_iff)
  from provenance_later [OF this less_imp_le [OF p(2)]] have old: "validChildGroupProvenance (exc_sha c) g (env_Revision (ses_envelope s'))" .
  then have prov: "validChildGroupProvenance (exc_sha c) g' (env_Revision (ses_envelope s'))"
    by (intro same_children_provenance [OF old]) (auto simp: g' validChildGroupProvenance_def list_all_iff)
  have "returnedUnits g' = returnedUnits g" by (intro ext) (simp add: returnedUnits_def g')
  then have ledger: "ledger_le g g'" by (simp add: ledger_le_def g' list_all2_same returnsMore_def)
  have le: "group_le g g'" using merged by (simp add: group_le_def g' list_all2_same child_le_refl)
  have done': "length (grp_MergedIDs g') = length (grp_Children g')" by (simp add: g')
  show "safe c s s'"
    by (rule same_children_safe [OF loaded g _ _ _ _ _ _ valid' prov disjI1 [OF done'] ledger le run t]) (simp_all add: g')
  have e: "childGroupError (exc_sha c) (ses_envelope s') (identity, g') = None"
    using ok \<open>(identity, g) \<in> set groups\<close> valid' prov p(1) by (auto simp: groups_ok_def childGroup_iff same_address_def g')
  have "groups_ok (exc_sha c) (ses_envelope s') (put identity g' groups)"
    using groups_replace [OF groups_ok_later [OF ok p(1) less_imp_le [OF p(2)]] g e] ledger done' by (simp add: g')
  then show "executionChildGroups (exc_sha c) (ses_envelope s') = Ok (textGroups (put identity g' groups))" by (rule p(3))
qed

lemma commitJoin_cases:
  assumes "run_state (commitJoin c identity groups g revision result) s = (r, s')"
  shows "ses_envelope s' = ses_envelope s \<and> (\<exists>e. r = Inl e)
    \<or> r = Ok result \<and> env_Revision (ses_envelope s) = revision
      \<and> (\<exists>w. run_state (persistChildGroupsLocked c (put identity (g\<lparr>grp_MergedIDs := map (spc_ID \<circ> chd_Spec) (grp_Children g), grp_MergedResult := result\<rparr>) groups))
          (s\<lparr>ses_world := w\<rparr>) = (None, s'))"
proof -
  let ?w = "snd (run_state (exc_ctxErr c) (ses_world s))"
  obtain failed t where persist: "run_state (persistChildGroupsLocked c (put identity (g\<lparr>grp_MergedIDs := map (spc_ID \<circ> chd_Spec) (grp_Children g), grp_MergedResult := result\<rparr>) groups))
      (s\<lparr>ses_world := ?w\<rparr>) = (failed, t)" by fastforce
  show ?thesis
    using assms persist persistGroups_cases [OF persist]
    by (auto simp: commitJoin_def split: option.splits if_splits)
qed

end

section \<open>The operations\<close>

text \<open>Observation touches nothing but the world.\<close>

definition unobserved :: "('w session, 'a) state \<Rightarrow> ('w session, 'a) state \<Rightarrow> bool" where
  "unobserved m m' \<longleftrightarrow> (\<forall>s r s'. run_state m s = (r, s') \<longrightarrow> (\<exists>t w. run_state m' s = (r, t) \<and> s' = t\<lparr>ses_world := w\<rparr>))"

lemma unobservedD: "unobserved m m' \<Longrightarrow> run_state m s = (r, s') \<Longrightarrow> \<exists>t w. run_state m' s = (r, t) \<and> s' = t\<lparr>ses_world := w\<rparr>"
  by (simp add: unobserved_def)

lemma observed_cached: "\<exists>w. run_state (observeCachedChildren c event children) s = ((), s\<lparr>ses_world := w\<rparr>)"
proof (induction children arbitrary: s)
  case (Cons x xs)
  let ?m = "if chd_State x \<in> {ChildCompleted, ChildFailed, ChildCanceled, ChildWaiting, ChildUnknown}
      then observeLifecycle c (event\<lparr>obs_Operation := LifecycleChildResolve, obs_ChildID := spc_ID (chd_Spec x),
        obs_ChildExecutionID := chd_ExecutionID x, obs_Code := childObservationCode (chd_State x)\<rparr>)
      else ret ()"
  have "\<exists>w. run_state ?m s = ((), s\<lparr>ses_world := w\<rparr>)"
    by auto
  then obtain w where w: "run_state ?m s = ((), s\<lparr>ses_world := w\<rparr>)" by blast
  with Cons.IH [of "s\<lparr>ses_world := w\<rparr>"] show ?case by auto
qed simp

lemma unobserved_methods:
  "unobserved (beginChild c identity childID) (beginChildLocked c identity childID)"
  "unobserved (finishChild c identity invocation result e) (finishChildLocked c identity invocation result e)"
  "unobserved (requestChildCancellation c identity expected request) (requestChildCancellationLocked c identity expected request)"
  "unobserved (prepareChildren c plan available) (prepareChildrenLocked c plan available)"
proof -
  have one: "unobserved (do { a \<leftarrow> envelope; r \<leftarrow> m a; b \<leftarrow> envelope; observeLifecycle c (f a r b); ret r }) m'"
    if "\<And>a. m a = m'" for m m' f
    unfolding unobserved_def that
  proof (intro allI impI)
    fix s r s'
    assume run: "run_state (do { a \<leftarrow> envelope; r \<leftarrow> m'; b \<leftarrow> envelope; observeLifecycle c (f a r b); ret r }) s = (r, s')"
    obtain q t where t: "run_state m' s = (q, t)" by fastforce
    with run t show "\<exists>t w. run_state m' s = (r, t) \<and> s' = t\<lparr>ses_world := w\<rparr>" by auto
  qed
  show "unobserved (beginChild c identity childID) (beginChildLocked c identity childID)"
    "unobserved (requestChildCancellation c identity expected request) (requestChildCancellationLocked c identity expected request)"
    unfolding beginChild_def requestChildCancellation_def by (rule one, rule refl)+
  show "unobserved (finishChild c identity invocation result e) (finishChildLocked c identity invocation result e)"
    unfolding finishChild_def Let_def by (rule one) (rule refl)
  show "unobserved (prepareChildren c plan available) (prepareChildrenLocked c plan available)"
    unfolding unobserved_def
  proof (intro allI impI)
    fix s r s'
    assume run: "run_state (prepareChildren c plan available) s = (r, s')"
    obtain q t where t: "run_state (prepareChildrenLocked c plan available) s = (q, t)" by fastforce
    let ?event = "childPublicationObservation ((childObservation (ses_envelope s) LifecycleChildLaunch (boundChildGroupIdentity (exc_sha c) (ses_envelope s) (pln_Key plan)) '''')
      \<lparr>obs_Code := ''child_group_prepared''\<rparr>) (env_Revision (ses_envelope t)) (errOf q)"
    let ?w = "observed c ?event (ses_world t)"
    let ?m = "case q of Inl _ \<Rightarrow> ret () | Inr g \<Rightarrow> if obs_Stage ?event = LifecycleReplayed then observeCachedChildren c ?event (grp_Children g) else ret ()"
    have "\<exists>v. run_state ?m (t\<lparr>ses_world := ?w\<rparr>) = ((), t\<lparr>ses_world := v\<rparr>)"
      using observed_cached [of c ?event _ "t\<lparr>ses_world := ?w\<rparr>"] by (cases q) auto
    then show "\<exists>t w. run_state (prepareChildrenLocked c plan available) s = (r, t) \<and> s' = t\<lparr>ses_world := w\<rparr>"
      using run t by (auto simp: prepareChildren_def Let_def)
  qed
qed

section \<open>Planning\<close>

definition planMaps :: "ChildGroupPlan \<Rightarrow> bool" where
  "planMaps plan \<longleftrightarrow> (\<forall>s \<in> set (pln_Children plan). gomap_ok (spc_Allocation s))"

context durable_store begin

lemma planned_groups:
  assumes loaded: "executionChildGroups (exc_sha c) (ses_envelope s) = Ok groups" and maps: "planMaps plan"
    and identity: "identity = boundChildGroupIdentity (exc_sha c) (ses_envelope s) (pln_Key plan)" and new: "lookup groups identity = None"
    and plan: "PlanChildGroup (exc_sha c) (env_ExecutionID (ses_envelope s)) (env_Pointer (ses_envelope s)) (env_Activation (ses_envelope s)) plan available = Ok g"
    and ledger: "validateChildCapacityLedger (put identity g groups) = None"
    and run: "run_state (persistChildGroupsLocked c (put identity g groups)) s = (None, s')"
  shows "safe c s s'"
proof -
  note ok = loaded_groups_ok [OF loaded] and p = persisted_groups(1,2) [OF run] and i = plan_inv [OF plan]
  have refs: "lookup (prg_ChildGroupReferences (env_Progress (ses_envelope s))) (pln_Key plan) = None"
  proof (rule ccontr)
    assume "\<not> ?thesis"
    then obtain r where r: "lookup (prg_ChildGroupReferences (env_Progress (ses_envelope s))) (pln_Key plan) = Some r" by auto
    then have "lookup groups r \<noteq> None"
      using ok map_of_SomeD [OF r] unfolding groups_ok_def validateChildGroupReferences_iff by fastforce
    moreover have "identity = r" using r by (simp add: identity boundChildGroupIdentity_def)
    ultimately show False using new by simp
  qed
  then have id: "identity = groupIdentity (exc_sha c) g" by (simp add: identity boundChildGroupIdentity_def i)
  have act: "env_Activation (ses_envelope s) \<noteq> 0" using plan by (auto simp: PlanChildGroup_def split: if_splits)
  have valid: "validateChildGroup (exc_sha c) g = None" using planned_group_valid [OF plan] maps by (simp add: planMaps_def)
  have prov: "validChildGroupProvenance (exc_sha c) g (env_Revision (ses_envelope s'))"
    by (simp add: validChildGroupProvenance_def i list_all_iff newChildRecord_def validChildOutcomeGroupProvenance_def)
  have error: "childGroupError (exc_sha c) (ses_envelope s') (identity, g) = None"
    using valid prov id act p(1) by (simp add: childGroup_iff i same_address_def)
  have key: "pln_Key (grp_Plan g) = pln_Key plan" by (simp add: i(5))
  have "currentChildGroup (exc_sha c) (ses_envelope s) g" using id identity by (simp add: currentChildGroup_def key i(6,8))
  then have current: "currentChildGroup (exc_sha c) (ses_envelope s') g" using references_cong(3) [OF p(1)] by simp
  have put: "put identity g groups = groups @ [(identity, g)]" using new
    by (induction groups) (auto split: if_splits)
  note ok' = groups_ok_later [OF ok p(1) less_imp_le [OF p(2)]]
  have "outcomeDecisions (grp_Children g) = []" by (simp add: i(3) List.map_filter_def newChildRecord_def)
  then have "groups_ok (exc_sha c) (ses_envelope s') (put identity g groups)"
    using ok' error current ledger new
    by (fastforce simp: groups_ok_def put validChildOutcomeDecisionIDs_def outcomeDecisions_append validateChildGroupReferences_iff map_add_def split: option.splits)
  then have grown: "grown c s s'" and after: "executionChildGroups (exc_sha c) (ses_envelope s') = Ok (textGroups (put identity g groups))"
    using replaced_groups [OF loaded run] new by (auto simp: same_address_def)
  have "owns c s' i invocation" if own: "owns c s i invocation" for i invocation
    by (rule owns_put [OF loaded after own]) (use new in \<open>simp add: groupAt_def\<close>)
  with grown show ?thesis by (simp add: safe_def)
qed

lemma prepare_safe:
  assumes maps: "planMaps plan" and run: "run_state (prepareChildrenLocked c plan available) s = (r, s')"
  shows "safe c s s'"
proof (cases "executionChildGroups (exc_sha c) (ses_envelope s)")
  case (Inl e)
  then show ?thesis using run by (auto simp: prepareChildrenLocked_def intro: safe_refl)
next
  case (Inr groups)
  note loaded = Inr
  define identity where "identity = boundChildGroupIdentity (exc_sha c) (ses_envelope s) (pln_Key plan)"
  let ?plan = "PlanChildGroup (exc_sha c) (env_ExecutionID (ses_envelope s)) (env_Pointer (ses_envelope s)) (env_Activation (ses_envelope s)) plan available"
  show ?thesis
  proof (cases "\<exists>g. lookup groups identity = None \<and> ?plan = Ok g \<and> validateChildCapacityLedger (put identity g groups) = None")
    case False
    then show ?thesis
      using run loaded by (auto simp: prepareChildrenLocked_def Let_def identity_def [symmetric] intro: safe_refl split: option.splits if_splits sum.splits)
  next
    case True
    then obtain g where g: "lookup groups identity = None" "?plan = Ok g" "validateChildCapacityLedger (put identity g groups) = None" by blast
    obtain failed t where persist: "run_state (persistChildGroupsLocked c (put identity g groups)) s = (failed, t)" by fastforce
    have t: "s' = t" using run loaded g persist by (simp add: prepareChildrenLocked_def Let_def identity_def [symmetric])
    show ?thesis
      using planned_groups [OF loaded maps identity_def g] persist persistGroups_cases [OF persist] t
      by (cases failed) (auto intro: safe_refl)
  qed
qed

end

section \<open>Activities\<close>

lemma groups_transferred:
  assumes "executionChildGroups sha e = Ok groups" and "same_address e' e" "env_ChildrenPayload e' = env_ChildrenPayload e" "env_Revision e \<le> env_Revision e'"
  shows "executionChildGroups sha e' = Ok groups"
  using assms(1,3) groups_ok_later [OF loaded_groups_ok [OF assms(1)] assms(2,4)] by (auto simp: executionChildGroups_Ok_iff groups_ok_def)

context durable_store begin

lemma activity_safe:
  assumes "run_state (persistActivity c journal r) s = (failed, s')"
  shows "safe c s s'"
proof (cases failed)
  case (Some e)
  then show ?thesis using persistActivity_cases [OF assms] by (auto intro: safe_refl)
next
  case None
  with persistActivity_cases [OF assms] obtain w w' where
    commit: "run_state (exc_CommitExecution c (env_Revision (ses_envelope s)) (exc_lease c)
       ((ses_envelope s)\<lparr>env_JournalPayload := Bytes_of True (put (rec_Identity r) r journal)\<rparr>)) w = (Ok (ses_envelope s'), w')" by auto
  from commit_seals [OF commit] obtain digest where nowrap: "env_Revision (ses_envelope s) \<noteq> - 1"
    and e': "ses_envelope s' = (ses_envelope s)\<lparr>env_JournalPayload := Bytes_of True (put (rec_Identity r) r journal),
       env_Revision := env_Revision (ses_envelope s) + 1, env_Digest := digest\<rparr>" by auto
  have later: "env_Revision (ses_envelope s) \<le> env_Revision (ses_envelope s')" using rev_succ_self [OF nowrap] by (simp add: e')
  have same: "same_address (ses_envelope s') (ses_envelope s)" by (simp add: e' same_address_def)
  have groups: "executionChildGroups (exc_sha c) (ses_envelope s') = Ok groups" if "executionChildGroups (exc_sha c) (ses_envelope s) = Ok groups" for groups
    by (rule groups_transferred [OF that same _ later]) (simp add: e')
  then have grown: "grown c s s'" using same later group_le_refl by (auto simp: grown_def)
  have "owns c s' i invocation" if own: "owns c s i invocation" for i invocation
  proof (cases "executionChildGroups (exc_sha c) (ses_envelope s)")
    case (Inr x)
    then show ?thesis using own groups by (simp add: owns_def childOf_loaded)
  qed (use own in \<open>simp add: owns_def childOf_def headGroup_def\<close>)
  with grown show ?thesis by (simp add: safe_def)
qed

section \<open>Joins are final\<close>

end

definition joined :: "('w, 't, 'e) executionCheckpointer \<Rightarrow> 'w session \<Rightarrow> string \<Rightarrow> string \<Rightarrow> bool" where
  "joined c s identity payload \<longleftrightarrow>
    (\<exists>groups g. executionChildGroups (exc_sha c) (ses_envelope s) = Ok groups \<and> lookup groups identity = Some g
      \<and> length (grp_MergedIDs g) = length (grp_Children g) \<and> grp_MergedIDs g \<noteq> [] \<and> grp_MergedResult g = payload
      \<and> currentChildGroup (exc_sha c) (ses_envelope s) g)"

lemma joined_world [simp]: "joined c (s\<lparr>ses_world := w\<rparr>) = joined c s"
  by (intro ext) (simp add: joined_def)

lemma joined_grown:
  assumes "joined c s identity payload" and "grown c s t"
  shows "joined c t identity payload"
proof -
  from assms(1) obtain groups g where g: "executionChildGroups (exc_sha c) (ses_envelope s) = Ok groups" "lookup groups identity = Some g"
    "length (grp_MergedIDs g) = length (grp_Children g)" "grp_MergedIDs g \<noteq> []" "grp_MergedResult g = payload"
    and current: "currentChildGroup (exc_sha c) (ses_envelope s) g" by (auto simp: joined_def)
  with assms(2) obtain groups' g' where g': "executionChildGroups (exc_sha c) (ses_envelope t) = Ok groups'" "lookup groups' identity = Some g'"
    and le: "group_le g g'" unfolding grown_def by blast
  have same: "same_address (ses_envelope t) (ses_envelope s)" using assms(2) by (simp add: grown_def)
  have "currentChildGroup (exc_sha c) (ses_envelope s) g'" using current le by (simp add: currentChildGroup_def group_le_def)
  then have "currentChildGroup (exc_sha c) (ses_envelope t) g'" using references_cong(3) [OF same] by simp
  moreover have "length (grp_Children g') = length (grp_Children g)" using le by (auto simp: group_le_def dest: list_all2_lengthD)
  ultimately show ?thesis using g g' le by (auto simp: joined_def group_le_def)
qed

lemma joined_replays:
  assumes "joined c s (groupIdentity (exc_sha c) expected) payload" and run: "run_state (joinChildren c expected merge) s = (r, s')"
  shows "ses_envelope s' = ses_envelope s" "run_state (joinChildren c expected other) s = (r, s')"
    "r = (if sameGroup (headGroup (exc_sha c) (ses_envelope s) (groupIdentity (exc_sha c) expected)) expected then Ok payload
       else Inl (Wrapped '''' [Sent (Also ErrChildRevision)]))"
proof -
  from assms(1) obtain groups g where g: "executionChildGroups (exc_sha c) (ses_envelope s) = Ok groups"
    "lookup groups (groupIdentity (exc_sha c) expected) = Some g" "length (grp_MergedIDs g) = length (grp_Children g)" "grp_MergedResult g = payload"
    "currentChildGroup (exc_sha c) (ses_envelope s) g" by (auto simp: joined_def)
  have head: "headGroup (exc_sha c) (ses_envelope s) (groupIdentity (exc_sha c) expected) = g" using g by (simp add: headGroup_def groupAt_def)
  have *: "run_state (joinChildren c expected m) s = (if sameGroup g expected
      then (Ok payload, snd (run_state (observeLifecycle c ((childObservation (ses_envelope s) LifecycleChildJoin (groupIdentity (exc_sha c) expected) '''')
        \<lparr>obs_Stage := LifecycleReplayed, obs_Revision := env_Revision (ses_envelope s)\<rparr>)) s))
      else (Inl (Wrapped '''' [Sent (Also ErrChildRevision)]), s))" for m
    using g by (simp add: joinChildren_def Let_def split_beta)
  show "ses_envelope s' = ses_envelope s" "run_state (joinChildren c expected other) s = (r, s')"
    "r = (if sameGroup (headGroup (exc_sha c) (ses_envelope s) (groupIdentity (exc_sha c) expected)) expected then Ok payload
       else Inl (Wrapped '''' [Sent (Also ErrChildRevision)]))"
    using run unfolding * head by (auto split: if_splits)
qed

context durable_store begin

lemma join_new:
  assumes loaded: "executionChildGroups (exc_sha c) (ses_envelope s) = Ok groups" and g: "lookup groups (groupIdentity (exc_sha c) expected) = Some g"
    and current: "currentChildGroup (exc_sha c) (ses_envelope s) g" and same: "sameGroup g expected"
    and unmerged: "length (grp_MergedIDs g) \<noteq> length (grp_Children g)" and settled: "list_all settledChild (grp_Children g)"
    and merge: "\<And>children. orderly c (merge children)" and run: "run_state (joinChildren c expected merge) s = (r, s')"
  shows "safe c s s' \<and> (\<forall>payload. r = Ok payload \<longrightarrow> joined c s' (groupIdentity (exc_sha c) expected) payload)"
proof -
  let ?i = "groupIdentity (exc_sha c) expected"
  define event where "event = childObservation (ses_envelope s) LifecycleChildJoin ?i ''''"
  obtain canceled w2 where w2: "run_state (exc_ctxErr c) (observed c (event\<lparr>obs_Stage := LifecycleStarted\<rparr>) (ses_world s)) = (canceled, w2)" by fastforce
  obtain merged s3 where s3: "run_state (merge (grp_Children g)) (s\<lparr>ses_world := w2\<rparr>) = (merged, s3)" by fastforce
  have order: "safe c s s3" "env_Revision (ses_envelope s3) = env_Revision (ses_envelope s) \<Longrightarrow> ses_envelope s3 = ses_envelope s"
    using merge [of "grp_Children g"] s3 unfolding orderly_def by fastforce+
  note path = loaded g current same unmerged settled event_def [symmetric] w2
  show ?thesis
  proof (cases canceled)
    case (Some e)
    then have "s' = s\<lparr>ses_world := observed c event w2\<rparr> \<and> r = Inl e" using run path by (simp add: joinChildren_def Let_def)
    then show ?thesis by (auto intro: safe_refl)
  next
    case None
    show ?thesis
    proof (cases merged)
      case (Inl e)
      then have "(\<exists>w. s' = s3\<lparr>ses_world := w\<rparr>) \<and> (\<exists>x. r = Inl x)" using run path None s3 by (auto simp: joinChildren_def Let_def)
      then show ?thesis using order(1) by auto
    next
      case (Inr result)
      obtain j s4 where j: "run_state (commitJoin c ?i groups g (env_Revision (ses_envelope s)) result) s3 = (j, s4)" by fastforce
      have s': "\<exists>w. s' = s4\<lparr>ses_world := w\<rparr>" "r = j" using run path None s3 Inr j by (auto simp: joinChildren_def Let_def)
      let ?g = "g\<lparr>grp_MergedIDs := map (spc_ID \<circ> chd_Spec) (grp_Children g), grp_MergedResult := result\<rparr>"
      from commitJoin_cases [OF j] show ?thesis
      proof (elim disjE conjE exE)
        fix e
        assume "ses_envelope s4 = ses_envelope s3" "j = Inl e"
        then show ?thesis using order(1) s' safe_trans [OF order(1) safe_refl] by auto
      next
        fix w
        assume ok: "j = Ok result" and rev: "env_Revision (ses_envelope s3) = env_Revision (ses_envelope s)"
          and persist: "run_state (persistChildGroupsLocked c (put ?i ?g groups)) (s3\<lparr>ses_world := w\<rparr>) = (None, s4)"
        have "ses_envelope (s3\<lparr>ses_world := w\<rparr>) = ses_envelope s" using order(2) [OF rev] by simp
        note group = joined_group [OF loaded g settled unmerged refl persist this]
        have some: "grp_Children g \<noteq> []" by (rule group_ids(2) [OF loaded_group_valid(1) [OF loaded_groups_ok [OF loaded] g]])
        have "same_address (ses_envelope s4) (ses_envelope s)" using group(1) by (simp add: safe_def grown_def)
        moreover have "currentChildGroup (exc_sha c) (ses_envelope s) (groupText ?g)" using current by (simp add: currentChildGroup_def)
        ultimately have "currentChildGroup (exc_sha c) (ses_envelope s4) (groupText ?g)" using references_cong(3) by blast
        then have "joined c s4 ?i result" using group(2) some by (auto simp: joined_def lookup_text)
        then show ?thesis using group(1) s' ok by auto
      qed
    qed
  qed
qed

lemma join_safe:
  assumes merge: "\<And>children. orderly c (merge children)" and run: "run_state (joinChildren c expected merge) s = (r, s')"
  shows "safe c s s' \<and> (\<forall>payload. r = Ok payload \<longrightarrow> joined c s' (groupIdentity (exc_sha c) expected) payload)"
proof -
  let ?i = "groupIdentity (exc_sha c) expected"
  show ?thesis
  proof (cases "\<exists>groups g. executionChildGroups (exc_sha c) (ses_envelope s) = Ok groups \<and> lookup groups ?i = Some g
      \<and> currentChildGroup (exc_sha c) (ses_envelope s) g \<and> sameGroup g expected")
    case False
    then have "s' = s \<and> (\<exists>e. r = Inl e)"
      using run by (auto simp: joinChildren_def Let_def split: sum.splits option.splits if_splits)
    then show ?thesis by (auto intro: safe_refl)
  next
    case True
    then obtain groups g where loaded: "executionChildGroups (exc_sha c) (ses_envelope s) = Ok groups" and g: "lookup groups ?i = Some g"
      and current: "currentChildGroup (exc_sha c) (ses_envelope s) g" and same: "sameGroup g expected" by blast
    note valid = loaded_group_valid [OF loaded_groups_ok [OF loaded] g]
    have some: "grp_Children g \<noteq> []" by (rule group_ids(2) [OF valid(1)])
    consider "length (grp_MergedIDs g) = length (grp_Children g)"
      | "length (grp_MergedIDs g) \<noteq> length (grp_Children g)" "\<not> list_all settledChild (grp_Children g)"
      | "length (grp_MergedIDs g) \<noteq> length (grp_Children g)" "list_all settledChild (grp_Children g)" by blast
    then show ?thesis
    proof cases
      case 1
      then have "joined c s ?i (grp_MergedResult g)" using loaded g current some by (auto simp: joined_def)
      from joined_replays [OF this run] this show ?thesis
        by (auto intro: safe_refl simp: joined_def headGroup_def split: if_splits)
    next
      case 2
      then have "s' = s \<and> (\<exists>e. r = Inl e)" using run loaded g current same by (auto simp: joinChildren_def Let_def)
      then show ?thesis by (auto intro: safe_refl)
    next
      case 3
      show ?thesis by (rule join_new [OF loaded g current same 3 merge run])
    qed
  qed
qed

end

section \<open>Callbacks\<close>

lemma orderly_simple: "orderly c (ret x)" "orderly c (host m)" "orderly c envelope"
  by (auto simp: orderly_def intro: safe_refl)

lemma orderly_bind:
  assumes "orderly c m" and "\<And>x. orderly c (f x)"
  shows "orderly c (State_Monad.bind m f)"
  unfolding orderly_def
proof (intro allI impI)
  fix s x s'
  assume run: "run_state (State_Monad.bind m f) s = (x, s')"
  obtain y t where y: "run_state m s = (y, t)" by fastforce
  with run have x: "run_state (f y) t = (x, s')" by simp
  note first = assms(1) [unfolded orderly_def, rule_format, OF y] and second = assms(2) [unfolded orderly_def, rule_format, OF x]
  have "env_Revision (ses_envelope s) \<le> env_Revision (ses_envelope t)" "env_Revision (ses_envelope t) \<le> env_Revision (ses_envelope s')"
    using first second by (simp_all add: safe_def grown_def)
  with first second show "safe c s s' \<and> (env_Revision (ses_envelope s') = env_Revision (ses_envelope s) \<longrightarrow> ses_envelope s' = ses_envelope s)"
    using safe_trans [of c s t s'] by auto
qed

text \<open>The policies of a fork as callbacks.\<close>

definition orderlyPolicy :: "('w, 't, 'e) executionCheckpointer \<Rightarrow> bool" where
  "orderlyPolicy c \<longleftrightarrow> (\<forall>policy authorize lineage. exc_forkPolicy c = Some policy \<longrightarrow> fxp_Authorize policy = Some authorize \<longrightarrow> orderly c (authorize lineage))"

lemma orderly_authorize: "orderlyPolicy c \<Longrightarrow> orderly c (authorizeForkDispatch c)"
  by (auto simp: authorizeForkDispatch_def orderlyPolicy_def intro!: orderly_bind orderly_simple split: option.split)

lemma orderly_notifier:
  assumes "orderlyPolicy c" and "\<And>notice. orderly c (notify notice)"
  shows "orderly c (forkChildNotifier c notify notice)"
  using assms orderly_authorize [OF assms(1)]
  by (auto simp: forkChildNotifier_def intro!: orderly_bind orderly_simple split: option.split)

lemma orderly_observe: "orderly c (observeLifecycle c event)"
  by (auto simp: orderly_def intro: safe_refl)

lemma orderly_notifyChildren:
  assumes "\<And>notice. orderly c (notify notice)"
  shows "orderly c (notifyChildren c identity grp request notify children)"
proof (induction children)
  case (Cons x xs)
  then show ?case
    by (auto simp: observeChildNotificationFailure_def intro!: orderly_bind orderly_simple orderly_observe assms split: option.split)
qed (simp add: orderly_simple)

lemma orderly_safe: "orderly c m \<Longrightarrow> run_state m s = (x, s') \<Longrightarrow> safe c s s'"
  unfolding orderly_def by blast

context durable_store begin

lemma cancelChildren_safe:
  assumes proper: "proper c s" and request: "requestOK request" and notify: "\<And>notice. orderly c (notify notice)" and policy: "orderlyPolicy c"
    and run: "run_state (cancelChildren c expected request notify) s = (r, s')"
  shows "safe c s s'"
proof -
  let ?i = "groupIdentity (exc_sha c) expected"
  obtain requested t where t: "run_state (requestChildCancellation c ?i expected request) s = (requested, t)" by fastforce
  from unobservedD [OF unobserved_methods(3) t] obtain u w where u: "run_state (requestChildCancellationLocked c ?i expected request) s = (requested, u)" "t = u\<lparr>ses_world := w\<rparr>" by blast
  have safe: "safe c s t" using cancel_safe [OF proper request u(1)] u(2) by simp
  show ?thesis
  proof (cases requested)
    case (Inl e)
    then show ?thesis using run t safe by (simp add: cancelChildren_def Let_def)
  next
    case (Inr g)
    obtain failed v where v: "run_state (notifyChildren c ?i g request (forkChildNotifier c notify) (grp_Children g)) t = (failed, v)" by fastforce
    have "orderly c (notifyChildren c ?i g request (forkChildNotifier c notify) (grp_Children g))"
      by (rule orderly_notifyChildren) (rule orderly_notifier [OF policy notify])
    then have "safe c t v" using v by (rule orderly_safe)
    moreover have "s' = v" using run t Inr v by (simp add: cancelChildren_def Let_def currentGroup_def)
    ultimately show ?thesis using safe_trans [OF safe] by simp
  qed
qed

lemma runChildren_safe:
  assumes maps: "planMaps plan" and run: "run_state (runChildren c plan available dispatch) s = (r, s')"
  shows "safe c s s'"
proof (cases "forkChildDispatcher c dispatch")
  case (Inl e)
  then show ?thesis using run by (auto simp: runChildren_def intro: safe_refl)
next
  case (Inr d)
  obtain prepared t where t: "run_state (prepareChildren c plan available) s = (prepared, t)" by fastforce
  from unobservedD [OF unobserved_methods(4) t] obtain u w where u: "run_state (prepareChildrenLocked c plan available) s = (prepared, u)" "t = u\<lparr>ses_world := w\<rparr>" by blast
  have safe: "safe c s t" using prepare_safe [OF maps u(1)] u(2) by simp
  show ?thesis
  proof (cases prepared)
    case (Inr g)
    obtain q v where v: "run_state (recoverChildLaunches c (groupIdentity (exc_sha c) g)) t = (q, v)" by fastforce
    have "s' = v" using run \<open>forkChildDispatcher c dispatch = Inr d\<close> t Inr v by (simp add: runChildren_def split_beta)
    then show ?thesis using safe_trans [OF safe recover_safe [OF v]] by simp
  qed (use run \<open>forkChildDispatcher c dispatch = Inr d\<close> t safe in \<open>simp add: runChildren_def\<close>)
qed

end

section \<open>Properties\<close>

context durable_store begin

lemma run_safe:
  assumes "proper c s" "planMaps plan" "orderlyPolicy c"
  shows "safe c s (snd (run_state (PrepareChildren (Some c) plan available) s))"
    "safe c s (snd (run_state (RunChildren (Some c) plan available dispatch) s))"
    "safe c s (snd (run_state (ReturnChildBudget (Some c) g claim) s))"
    "\<forall>callback notice. notify = Some callback \<longrightarrow> orderly c (callback notice) \<Longrightarrow> safe c s (snd (run_state (CancelChildren (Some c) g request notify) s))"
    "\<forall>callback children. merge = Some callback \<longrightarrow> orderly c (callback children) \<Longrightarrow> safe c s (snd (run_state (JoinChildren (Some c) g merge) s))"
proof -
  obtain r1 s1 where 1: "run_state (prepareChildren c plan available) s = (r1, s1)" by fastforce
  from unobservedD [OF unobserved_methods(4) 1] obtain t w where "run_state (prepareChildrenLocked c plan available) s = (r1, t)" "s1 = t\<lparr>ses_world := w\<rparr>" by blast
  then show "safe c s (snd (run_state (PrepareChildren (Some c) plan available) s))"
    using prepare_safe [OF assms(2)] 1 by (simp add: PrepareChildren_def)
  show "safe c s (snd (run_state (RunChildren (Some c) plan available dispatch) s))"
  proof (cases dispatch)
    case (Some d)
    obtain r2 s2 where 2: "run_state (runChildren c plan available d) s = (r2, s2)" by fastforce
    then show ?thesis using runChildren_safe [OF assms(2) 2] Some by (simp add: RunChildren_def)
  qed (simp add: RunChildren_def safe_refl)
  obtain r3 s3 where 3: "run_state (returnChildBudget c g claim) s = (r3, s3)" by fastforce
  have "claimOK claim \<Longrightarrow> safe c s s3" using return_safe [OF assms(1) _ 3] .
  then show "safe c s (snd (run_state (ReturnChildBudget (Some c) g claim) s))"
    using 3 safe_refl [OF refl] by (auto simp: ReturnChildBudget_def claimOK_def)
next
  assume notify: "\<forall>callback notice. notify = Some callback \<longrightarrow> orderly c (callback notice)"
  show "safe c s (snd (run_state (CancelChildren (Some c) g request notify) s))"
  proof (cases notify)
    case (Some callback)
    obtain r4 s4 where 4: "run_state (cancelChildren c g request callback) s = (r4, s4)" by fastforce
    have "requestOK request \<Longrightarrow> safe c s s4" using cancelChildren_safe [OF assms(1) _ _ assms(3) 4] notify Some by simp
    then show ?thesis using 4 Some safe_refl [OF refl] by (auto simp: CancelChildren_def requestOK_def)
  qed (simp add: CancelChildren_def safe_refl)
next
  assume merge: "\<forall>callback children. merge = Some callback \<longrightarrow> orderly c (callback children)"
  show "safe c s (snd (run_state (JoinChildren (Some c) g merge) s))"
  proof (cases merge)
    case (Some callback)
    obtain r5 s5 where 5: "run_state (joinChildren c g callback) s = (r5, s5)" by fastforce
    then show ?thesis using join_safe [OF _ 5] merge Some by (auto simp: JoinChildren_def intro: safe_refl)
  qed (simp add: JoinChildren_def safe_refl)
qed

lemma beginChild_safe:
  assumes "proper c s" and run: "run_state (beginChild c identity childID) s = (r, s')"
  shows "safe c s s' \<and> (\<forall>invocation. r = Ok invocation \<longrightarrow> civ_ChildID invocation = childID \<and> owns c s' identity invocation
    \<and> (\<forall>other. owns c s identity other \<longrightarrow> civ_ChildID other \<noteq> childID))"
proof -
  from unobservedD [OF unobserved_methods(1) run] obtain t w where "run_state (beginChildLocked c identity childID) s = (r, t)" "s' = t\<lparr>ses_world := w\<rparr>" by blast
  then show ?thesis using begin_safe [OF assms(1)] by (auto simp: launched_def)
qed

lemma finishChild_safe:
  assumes run: "run_state (finishChild c identity invocation result e) s = (r, s')"
  shows "grown c s s' \<and> (\<forall>i other. owns c s i other \<longrightarrow> (i, civ_ChildID other) \<noteq> (identity, civ_ChildID invocation) \<longrightarrow> owns c s' i other)"
proof -
  from unobservedD [OF unobserved_methods(2) run] obtain t w where "run_state (finishChildLocked c identity invocation result e) s = (r, t)" "s' = t\<lparr>ses_world := w\<rparr>" by blast
  then show ?thesis using finish_locked by auto
qed

end

text \<open>
  C9. Child operations never corrupt what they commit and never take back what they
  published. Over a store that seals what it is given, planning, the start and
  recovery of a launch, the begin and finish of a child, cancellation, budget return
  and join, whatever their callbacks do meanwhile through the same session, leave
  groups that load again and in which every plan, capacity, cancellation request,
  budget return and join result is as it was, no child goes back in its revision or
  progress and a settled child is unchanged; and a child that runs under this lease
  stays with the invocation that runs it until that invocation is finished. A begin
  hands out a child that nobody else runs.
\<close>

theorem children_only_advance:
  assumes "durable_store c" and "proper c s" and "planMaps plan" and "orderlyPolicy c"
    and "\<forall>callback notice. notify = Some callback \<longrightarrow> orderly c (callback notice)"
    and "\<forall>callback children. merge = Some callback \<longrightarrow> orderly c (callback children)"
  shows "safe c s (snd (run_state (PrepareChildren (Some c) plan available) s))
   \<and> safe c s (snd (run_state (RunChildren (Some c) plan available dispatch) s))
   \<and> safe c s (snd (run_state (CancelChildren (Some c) g request notify) s))
   \<and> safe c s (snd (run_state (ReturnChildBudget (Some c) g claim) s))
   \<and> safe c s (snd (run_state (JoinChildren (Some c) g merge) s))
   \<and> (case run_state (beginChild c identity childID) s of (r, s') \<Rightarrow> safe c s s'
        \<and> (\<forall>invocation. r = Ok invocation \<longrightarrow> civ_ChildID invocation = childID \<and> owns c s' identity invocation
            \<and> (\<forall>other. owns c s identity other \<longrightarrow> civ_ChildID other \<noteq> childID)))
   \<and> (case run_state (finishChild c identity finished result e) s of (r, s') \<Rightarrow> grown c s s'
        \<and> (\<forall>i other. owns c s i other \<longrightarrow> (i, civ_ChildID other) \<noteq> (identity, civ_ChildID finished) \<longrightarrow> owns c s' i other))"
proof -
  note run = durable_store.run_safe [OF assms(1-4)]
  obtain r1 s1 where "run_state (beginChild c identity childID) s = (r1, s1)" by fastforce
  moreover note durable_store.beginChild_safe [OF assms(1,2) this]
  moreover obtain r2 s2 where "run_state (finishChild c identity finished result e) s = (r2, s2)" by fastforce
  moreover note durable_store.finishChild_safe [OF assms(1) this]
  ultimately show ?thesis
    using run(1,2,3) run(4) [OF assms(5)] run(5) [OF assms(6)] by simp
qed

text \<open>
  C12. A join happens once. After \<open>JoinChildren\<close> returned a payload, and whatever the
  session does that lets the groups grow, every later join of the same group returns
  that payload when it is given the committed group, and fails otherwise; it never
  calls a merge again and leaves the head of the execution where it is.
\<close>

theorem join_is_final:
  assumes "durable_store c" and "\<forall>children. orderly c (merge children)"
    and "run_state (JoinChildren (Some c) g (Some merge)) s = (Ok payload, s')" and "grown c s' t"
    and "groupIdentity (exc_sha c) again = groupIdentity (exc_sha c) g" and "validChildGroupText again"
    and "run_state (JoinChildren (Some c) again (Some merge')) t = (r, t')"
  shows "r = (if sameGroup (headGroup (exc_sha c) (ses_envelope t) (groupIdentity (exc_sha c) g)) again then Ok payload
      else Inl (Wrapped '''' [Sent (Also ErrChildRevision)]))
    \<and> ses_envelope t' = ses_envelope t
    \<and> run_state (JoinChildren (Some c) again (Some other)) t = (r, t')"
proof -
  have "run_state (joinChildren c g merge) s = (Ok payload, s')" using assms(3) by (auto simp: JoinChildren_def split: if_splits)
  with durable_store.join_safe [OF assms(1)] assms(2) have "joined c s' (groupIdentity (exc_sha c) g) payload" by blast
  then have at: "joined c t (groupIdentity (exc_sha c) again) payload" using joined_grown [OF _ assms(4)] assms(5) by simp
  have run: "run_state (joinChildren c again merge') t = (r, t')" using assms(6,7) by (simp add: JoinChildren_def)
  show ?thesis
    using joined_replays [OF at run] assms(5,6) by (simp add: JoinChildren_def)
qed

section \<open>Samples\<close>

text \<open>A group of one child that has completed and was joined, at the head of the sample session.\<close>

definition oneChild :: ChildGroupPlan where
  "oneChild = \<lparr>pln_Key = ''k'', pln_Label = ''l'', pln_MergeLabel = ''m'', pln_BudgetLabel = ''b'', pln_CancelLabel = ''c'',
     pln_MaxConcurrency = 2, pln_FailurePolicy = ChildFailFast, pln_Children = [\<lparr>spc_ID = ''x'', spc_Input = '''', spc_Allocation = []\<rparr>]\<rparr>"

definition joinedGroup :: ChildGroupRecord where
  "joinedGroup = \<lparr>grp_ParentID = ''e'', grp_Node = env_Pointer sampleEnvelope, grp_Activation = 1, grp_Plan = oneChild,
     grp_Children = [(newChildRecord (childExecutionIdentity sampleSha ''e'' (env_Pointer sampleEnvelope) 1 ''k'' ''x'') \<lparr>spc_ID = ''x'', spc_Input = '''', spc_Allocation = []\<rparr>)
       \<lparr>chd_State := ChildCompleted, chd_Revision := 3, chd_Incarnation := 1, chd_Result := ''r''\<rparr>],
     grp_MergedIDs = [''x''], grp_MergedResult = ''sum'', grp_CancelRequested = False, grp_CancelRequest = None, grp_Capacity = [], grp_BudgetReturns = []\<rparr>"

definition joinedSession :: "unit memoryWorld session" where
  "joinedSession = (sampleSession ())\<lparr>ses_envelope := sampleSealed\<lparr>env_ChildrenPayload := Bytes_of True [(groupIdentity sampleSha joinedGroup, joinedGroup)]\<rparr>\<rparr>"

lemma joinedSession_groups:
  "executionChildGroups sampleSha (ses_envelope joinedSession) = Ok [(groupIdentity sampleSha joinedGroup, joinedGroup)]"
  by code_simp

lemma joinedGroup_text: "validChildGroupText joinedGroup" "sameGroup joinedGroup joinedGroup"
  by (code_simp, code_simp)

lemma joinedSession_joined: "joined sampleCheckpointer joinedSession (groupIdentity sampleSha joinedGroup) ''sum''"
proof -
  have "currentChildGroup sampleSha (ses_envelope joinedSession) joinedGroup" by code_simp
  moreover have "length (grp_MergedIDs joinedGroup) = length (grp_Children joinedGroup)" "grp_MergedIDs joinedGroup \<noteq> []"
    "grp_MergedResult joinedGroup = ''sum''" by (simp_all add: joinedGroup_def)
  ultimately show ?thesis using joinedSession_groups by (simp add: joined_def)
qed

lemma joinedSession_proper: "proper sampleCheckpointer joinedSession"
  by (simp add: proper_def joinedSession_def sampleSession_def sampleLease_def)

lemma sampleCheckpointer_orderly: "orderlyPolicy sampleCheckpointer"
  by (simp add: orderlyPolicy_def)

text \<open>Every operation at the joined session, with a plan of one more group and a claim of its budget.\<close>

theorem children_only_advance_witness:
  "safe sampleCheckpointer joinedSession (snd (run_state (PrepareChildren (Some sampleCheckpointer) samplePlan [(''tok'', 9)]) joinedSession))
   \<and> safe sampleCheckpointer joinedSession (snd (run_state (JoinChildren (Some sampleCheckpointer) joinedGroup (Some (\<lambda>_. ret (Ok ''other'')))) joinedSession))"
proof -
  have "planMaps samplePlan" by (simp add: planMaps_def samplePlan_def)
  then show ?thesis
    using children_only_advance [OF sample_store_laws joinedSession_proper _ sampleCheckpointer_orderly, where plan = samplePlan
        and notify = "Some (\<lambda>_. ret None)" and merge = "Some (\<lambda>_. ret (Ok ''other''))" and available = "[(''tok'', 9)]" and g = joinedGroup]
    by (simp add: orderly_simple)
qed

theorem join_is_final_witness:
  "run_state (JoinChildren (Some sampleCheckpointer) joinedGroup (Some (\<lambda>_. ret (Err (Also ErrChildMergeConflict))))) joinedSession
    = run_state (JoinChildren (Some sampleCheckpointer) joinedGroup (Some (\<lambda>_. ret (Ok ''other'')))) joinedSession
   \<and> fst (run_state (JoinChildren (Some sampleCheckpointer) joinedGroup (Some (\<lambda>_. ret (Ok ''other'')))) joinedSession) = Ok ''sum''"
proof -
  let ?join = "\<lambda>merge. run_state (JoinChildren (Some sampleCheckpointer) joinedGroup (Some merge))"
  have joins: "\<exists>s'. ?join merge joinedSession = (Ok ''sum'', s') \<and> grown sampleCheckpointer s' joinedSession" for merge
  proof -
    obtain r s' where run: "run_state (joinChildren sampleCheckpointer joinedGroup merge) joinedSession = (r, s')" by fastforce
    note replay = joined_replays [OF _ run, simplified, OF joinedSession_joined]
    show ?thesis
      using run replay(1) replay(3) joinedGroup_text joinedSession_groups
      by (auto simp: JoinChildren_def headGroup_def groupAt_def intro: grown_refl)
  qed
  from joins [of "\<lambda>_. ret (Ok ''other'')"] obtain s' where s': "?join (\<lambda>_. ret (Ok ''other'')) joinedSession = (Ok ''sum'', s')"
    "grown sampleCheckpointer s' joinedSession" by blast
  from joins [of "\<lambda>_. ret (Err (Also ErrChildMergeConflict))"] obtain t where t: "?join (\<lambda>_. ret (Err (Also ErrChildMergeConflict))) joinedSession = (Ok ''sum'', t)" by blast
  from join_is_final [OF sample_store_laws _ s'(1) s'(2) refl joinedGroup_text(1) t, where other = "\<lambda>_. ret (Ok ''other'')"] s'(1) t
  have "s' = t" by (simp add: orderly_simple)
  with s'(1) t show ?thesis by simp
qed

end
