(* ===== verification/Child_Launch.thy ===== *)
theory Child_Launch
  imports Child_Operations
begin

text \<open>
  The fan-out of a launch (child\_launch.go, \<open>launchChildGroup\<close>, \<open>dispatchChild\<close>,
  \<open>invokeChildDispatcher\<close>) as a step relation. The state is that of the loop of
  \<open>launchChildGroup\<close> (its position, \<open>next\<close>, \<open>active\<close>), the goroutines it started and
  where each of them is, and the completions that wait in the channel. A step is one
  action of the loop or of one goroutine. A call that takes the mutex of the
  checkpointer is one action, and so is a call of the host's dispatcher.

  Meanwhile other goroutines of the node change the head of the execution: such a
  change may be anything that lets the groups grow and leaves the children that this
  launch runs with it, \<open>rely\<close>, which is what the operations of a session guarantee.
\<close>

section \<open>The state of a launch\<close>

datatype launcher = LoopTop | Filling | Waiting | Returned ChildGroupRecord "err option"

datatype worker =
    Spawned ChildInvocation
  | Entering ChildInvocation
  | Dispatching ChildInvocation
  | Finishing ChildInvocation ChildResult "err option"
  | Sending "err option"

text \<open>\<open>lch_dispatched\<close> records the ids handed to the dispatcher, in order; no step reads it.\<close>

record 'w launch =
  lch_session :: "'w session"
  lch_at :: launcher
  lch_next :: nat
  lch_active :: int
  lch_workers :: "worker list"
  lch_results :: "err option list"
  lch_dispatched :: "string list"

definition startLaunch :: "'w session \<Rightarrow> 'w launch" where
  "startLaunch s = \<lparr>lch_session = s, lch_at = LoopTop, lch_next = 0, lch_active = 0, lch_workers = [], lch_results = [], lch_dispatched = []\<rparr>"

definition resultsCapacity :: "ChildGroupRecord \<Rightarrow> int" where
  "resultsCapacity grp = min (pln_MaxConcurrency (grp_Plan grp)) (int (length (grp_Children grp)))"

text \<open>The error of the context of the goroutines: that of the caller, or the cancellation by the return of the launch.\<close>

definition workContextErr :: "launcher \<Rightarrow> err option \<Rightarrow> err option" where
  "workContextErr at caller =
    (case (caller, at) of
       (Some e, _) \<Rightarrow> Some e
     | (None, Returned _ _) \<Rightarrow> Some (Sent ContextCanceled)
     | (None, _) \<Rightarrow> None)"

definition replaceWorker :: "nat \<Rightarrow> worker \<Rightarrow> 'w session \<Rightarrow> 'w launch \<Rightarrow> 'w launch" where
  "replaceWorker i w s l = l\<lparr>lch_workers := (lch_workers l)[i := w], lch_session := s\<rparr>"

definition dropAt :: "nat \<Rightarrow> 'a list \<Rightarrow> 'a list" where
  "dropAt i xs = take i xs @ drop (Suc i) xs"

section \<open>Steps\<close>

inductive launch_step ::
    "('w, 't, 'e) executionCheckpointer \<Rightarrow> string \<Rightarrow> ChildGroupRecord \<Rightarrow> 'w childDispatcher \<Rightarrow> 'w launch \<Rightarrow> 'w launch \<Rightarrow> bool"
  for c identity grp dispatch where
  top_canceled: "lch_at l = LoopTop \<Longrightarrow> childCancellationSignaled c identity (lch_session l) \<Longrightarrow>
    run_state (childLaunchResult c identity) (lch_session l) = ((g, e), s) \<Longrightarrow>
    launch_step c identity grp dispatch l (l\<lparr>lch_at := Returned g e, lch_session := s\<rparr>)"
| top_open: "lch_at l = LoopTop \<Longrightarrow> \<not> childCancellationSignaled c identity (lch_session l) \<Longrightarrow>
    launch_step c identity grp dispatch l (l\<lparr>lch_at := Filling\<rparr>)"
| fill_begin: "lch_at l = Filling \<Longrightarrow> lch_active l < pln_MaxConcurrency (grp_Plan grp) \<Longrightarrow> lch_next l < length (launchableChildIDs grp) \<Longrightarrow>
    run_state (beginChild c identity (launchableChildIDs grp ! lch_next l)) (lch_session l) = (Ok invocation, s) \<Longrightarrow>
    launch_step c identity grp dispatch l
      (l\<lparr>lch_next := Suc (lch_next l), lch_active := lch_active l + 1, lch_workers := lch_workers l @ [Spawned invocation], lch_session := s\<rparr>)"
| fill_failed: "lch_at l = Filling \<Longrightarrow> lch_active l < pln_MaxConcurrency (grp_Plan grp) \<Longrightarrow> lch_next l < length (launchableChildIDs grp) \<Longrightarrow>
    run_state (beginChild c identity (launchableChildIDs grp ! lch_next l)) (lch_session l) = (Inl e, s) \<Longrightarrow>
    run_state (currentGroup c identity) s = (g, t) \<Longrightarrow>
    launch_step c identity grp dispatch l (l\<lparr>lch_next := Suc (lch_next l), lch_at := Returned g (Some e), lch_session := t\<rparr>)"
| fill_idle: "lch_at l = Filling \<Longrightarrow> \<not> (lch_active l < pln_MaxConcurrency (grp_Plan grp) \<and> lch_next l < length (launchableChildIDs grp)) \<Longrightarrow>
    lch_active l = 0 \<Longrightarrow> run_state (childLaunchResult c identity) (lch_session l) = ((g, e), s) \<Longrightarrow>
    launch_step c identity grp dispatch l (l\<lparr>lch_at := Returned g e, lch_session := s\<rparr>)"
| fill_full: "lch_at l = Filling \<Longrightarrow> \<not> (lch_active l < pln_MaxConcurrency (grp_Plan grp) \<and> lch_next l < length (launchableChildIDs grp)) \<Longrightarrow>
    lch_active l \<noteq> 0 \<Longrightarrow> launch_step c identity grp dispatch l (l\<lparr>lch_at := Waiting\<rparr>)"
| wait_canceled: "lch_at l = Waiting \<Longrightarrow> childCancellationSignaled c identity (lch_session l) \<Longrightarrow>
    run_state (childLaunchResult c identity) (lch_session l) = ((g, e), s) \<Longrightarrow>
    launch_step c identity grp dispatch l (l\<lparr>lch_at := Returned g e, lch_session := s\<rparr>)"
| wait_context: "lch_at l = Waiting \<Longrightarrow> run_state (host (exc_ctxErr c)) (lch_session l) = (Some e, s) \<Longrightarrow>
    run_state (currentGroup c identity) s = (g, t) \<Longrightarrow> run_state (host (exc_cause c)) t = (cause, u) \<Longrightarrow>
    launch_step c identity grp dispatch l (l\<lparr>lch_at := Returned g cause, lch_session := u\<rparr>)"
| wait_error: "lch_at l = Waiting \<Longrightarrow> lch_results l = Some e # rest \<Longrightarrow> run_state (currentGroup c identity) (lch_session l) = (g, s) \<Longrightarrow>
    launch_step c identity grp dispatch l
      (l\<lparr>lch_active := lch_active l - 1, lch_results := rest, lch_at := Returned g (Some e), lch_session := s\<rparr>)"
| wait_failure: "lch_at l = Waiting \<Longrightarrow> lch_results l = None # rest \<Longrightarrow> pln_FailurePolicy (grp_Plan grp) = ChildFailFast \<Longrightarrow>
    run_state (childGroupHasFailure c identity) (lch_session l) = (True, s) \<Longrightarrow> run_state (currentGroup c identity) s = (g, t) \<Longrightarrow>
    launch_step c identity grp dispatch l
      (l\<lparr>lch_active := lch_active l - 1, lch_results := rest, lch_at := Returned g (Some (Sent (Also ErrChildrenUnresolved))), lch_session := t\<rparr>)"
| wait_again: "lch_at l = Waiting \<Longrightarrow> lch_results l = None # rest \<Longrightarrow>
    pln_FailurePolicy (grp_Plan grp) = ChildFailFast \<longrightarrow> run_state (childGroupHasFailure c identity) (lch_session l) = (False, lch_session l) \<Longrightarrow>
    launch_step c identity grp dispatch l (l\<lparr>lch_active := lch_active l - 1, lch_results := rest, lch_at := LoopTop\<rparr>)"
| work_observe: "i < length (lch_workers l) \<Longrightarrow> lch_workers l ! i = Spawned invocation \<Longrightarrow>
    run_state (observeChildDispatch c identity invocation) (lch_session l) = ((), s) \<Longrightarrow>
    launch_step c identity grp dispatch l (replaceWorker i (Entering invocation) s l)"
| work_canceled: "i < length (lch_workers l) \<Longrightarrow> lch_workers l ! i = Entering invocation \<Longrightarrow>
    run_state (host (exc_ctxErr c)) (lch_session l) = (caller, s) \<Longrightarrow> workContextErr (lch_at l) caller = Some e \<Longrightarrow>
    launch_step c identity grp dispatch l (replaceWorker i (Finishing invocation noChildResult (Some e)) s l)"
| work_dispatch: "i < length (lch_workers l) \<Longrightarrow> lch_workers l ! i = Entering invocation \<Longrightarrow>
    run_state (host (exc_ctxErr c)) (lch_session l) = (caller, s) \<Longrightarrow> workContextErr (lch_at l) caller = None \<Longrightarrow>
    launch_step c identity grp dispatch l
      (replaceWorker i (Dispatching invocation) s l\<lparr>lch_dispatched := lch_dispatched l @ [civ_ChildID invocation]\<rparr>)"
| work_reply: "i < length (lch_workers l) \<Longrightarrow> lch_workers l ! i = Dispatching invocation \<Longrightarrow>
    run_state (dispatch invocation) (lch_session l) = (attempt, s) \<Longrightarrow> childAttemptOutcome attempt = (outcome, e) \<Longrightarrow>
    launch_step c identity grp dispatch l (replaceWorker i (Finishing invocation outcome e) s l)"
| work_finish: "i < length (lch_workers l) \<Longrightarrow> lch_workers l ! i = Finishing invocation outcome e \<Longrightarrow>
    run_state (finishChild c identity invocation outcome e) (lch_session l) = (failed, s) \<Longrightarrow>
    launch_step c identity grp dispatch l (replaceWorker i (Sending failed) s l)"
| work_send: "i < length (lch_workers l) \<Longrightarrow> lch_workers l ! i = Sending failed \<Longrightarrow> int (length (lch_results l)) < resultsCapacity grp \<Longrightarrow>
    launch_step c identity grp dispatch l (l\<lparr>lch_workers := dropAt i (lch_workers l), lch_results := lch_results l @ [failed]\<rparr>)"

text \<open>The invocation a goroutine has not reported yet.\<close>

fun holds :: "worker \<Rightarrow> ChildInvocation list" where
  "holds (Spawned invocation) = [invocation]"
| "holds (Entering invocation) = [invocation]"
| "holds (Dispatching invocation) = [invocation]"
| "holds (Finishing invocation _ _) = [invocation]"
| "holds (Sending _) = []"

definition inFlight :: "'w launch \<Rightarrow> ChildInvocation list" where
  "inFlight l = concat (map holds (lch_workers l))"

definition rely :: "('w, 't, 'e) executionCheckpointer \<Rightarrow> string \<Rightarrow> ChildInvocation list \<Rightarrow> 'w session \<Rightarrow> 'w session \<Rightarrow> bool" where
  "rely c identity invocations s s' \<longleftrightarrow> grown c s s'
     \<and> (\<forall>invocation \<in> set invocations. owns c s identity invocation \<longrightarrow> owns c s' identity invocation)"

text \<open>A run of a launch among other goroutines of its session.\<close>

inductive launch_run ::
    "('w, 't, 'e) executionCheckpointer \<Rightarrow> string \<Rightarrow> ChildGroupRecord \<Rightarrow> 'w childDispatcher \<Rightarrow> 'w session \<Rightarrow> 'w launch \<Rightarrow> bool"
  for c identity grp dispatch s where
  run_start: "launch_run c identity grp dispatch s (startLaunch s)"
| run_step: "launch_run c identity grp dispatch s l \<Longrightarrow> launch_step c identity grp dispatch l l' \<Longrightarrow> launch_run c identity grp dispatch s l'"
| run_other: "launch_run c identity grp dispatch s l \<Longrightarrow> rely c identity (inFlight l) (lch_session l) t \<Longrightarrow>
    launch_run c identity grp dispatch s (l\<lparr>lch_session := t\<rparr>)"

section \<open>The invariant of a launch\<close>

fun waitsFor :: "worker \<Rightarrow> ChildInvocation list" where
  "waitsFor (Spawned invocation) = [invocation]"
| "waitsFor (Entering invocation) = [invocation]"
| "waitsFor _ = []"

definition undispatched :: "'w launch \<Rightarrow> ChildInvocation list" where
  "undispatched l = concat (map waitsFor (lch_workers l))"

text \<open>The context of the caller has a cause once it is done.\<close>

definition causes :: "('w, 't, 'e) executionCheckpointer \<Rightarrow> bool" where
  "causes c \<longleftrightarrow> (\<forall>w e w'. run_state (exc_ctxErr c) w = (Some e, w') \<longrightarrow> fst (run_state (exc_cause c) w') \<noteq> None)"

definition concludes :: "ChildGroupRecord \<Rightarrow> bool" where
  "concludes g \<longleftrightarrow> list_all (\<lambda>x. chd_State x = ChildCompleted \<or> chd_State x = ChildFailed \<or> chd_State x = ChildCanceled) (grp_Children g)"

definition counted :: "ChildGroupRecord \<Rightarrow> 'w launch \<Rightarrow> bool" where
  "counted grp l \<longleftrightarrow> int (length (lch_workers l) + length (lch_results l)) = lch_active l
     \<and> lch_active l \<le> pln_MaxConcurrency (grp_Plan grp) \<and> lch_active l \<le> int (lch_next l)
     \<and> lch_next l \<le> length (launchableChildIDs grp) \<and> (lch_at l = Waiting \<longrightarrow> lch_active l \<noteq> 0)"

definition launchedOnce :: "ChildGroupRecord \<Rightarrow> 'w launch \<Rightarrow> bool" where
  "launchedOnce grp l \<longleftrightarrow> distinct (map civ_ChildID (inFlight l)) \<and> distinct (lch_dispatched l @ map civ_ChildID (undispatched l))
     \<and> set (map civ_ChildID (inFlight l)) \<union> set (lch_dispatched l) \<subseteq> set (take (lch_next l) (launchableChildIDs grp))"

definition returnsSettled :: "'w launch \<Rightarrow> bool" where
  "returnsSettled l \<longleftrightarrow> (\<forall>g. lch_at l = Returned g None \<longrightarrow> concludes g \<and> inFlight l = [])"

definition owned :: "('w, 't, 'e) executionCheckpointer \<Rightarrow> string \<Rightarrow> 'w launch \<Rightarrow> bool" where
  "owned c identity l \<longleftrightarrow> proper c (lch_session l) \<and> (\<forall>invocation \<in> set (inFlight l). owns c (lch_session l) identity invocation)"

definition launch_ok :: "('w, 't, 'e) executionCheckpointer \<Rightarrow> string \<Rightarrow> ChildGroupRecord \<Rightarrow> 'w launch \<Rightarrow> bool" where
  "launch_ok c identity grp l \<longleftrightarrow> counted grp l \<and> launchedOnce grp l \<and> returnsSettled l \<and> owned c identity l"

lemmas launch_ok_defs = launch_ok_def counted_def launchedOnce_def returnsSettled_def owned_def

text \<open>What the goroutines hold, after one of them moved on.\<close>

lemma worker_split:
  assumes "i < length ws"
  shows "ws = take i ws @ (ws ! i) # drop (Suc i) ws" "ws[i := w] = take i ws @ w # drop (Suc i) ws"
  using assms by (simp_all add: id_take_nth_drop upd_conv_take_nth_drop)

lemma worker_moved:
  assumes "i < length (lch_workers l)"
  shows "\<exists>a b. concat (map f (lch_workers l)) = a @ f (lch_workers l ! i) @ b
    \<and> concat (map f ((lch_workers l)[i := w])) = a @ f w @ b \<and> concat (map f (dropAt i (lch_workers l))) = a @ b"
proof -
  let ?a = "concat (map f (take i (lch_workers l)))" and ?b = "concat (map f (drop (Suc i) (lch_workers l)))"
  have "concat (map f (take i (lch_workers l) @ lch_workers l ! i # drop (Suc i) (lch_workers l))) = ?a @ f (lch_workers l ! i) @ ?b" by simp
  then have "concat (map f (lch_workers l)) = ?a @ f (lch_workers l ! i) @ ?b" using worker_split(1) [OF assms] by simp
  then show ?thesis
    by (intro exI [of _ ?a] exI [of _ ?b]) (simp add: worker_split(2) [OF assms] dropAt_def)
qed

lemma replaceWorker_simps [simp]:
  "lch_session (replaceWorker i w s l) = s" "lch_at (replaceWorker i w s l) = lch_at l" "lch_next (replaceWorker i w s l) = lch_next l"
  "lch_active (replaceWorker i w s l) = lch_active l" "lch_results (replaceWorker i w s l) = lch_results l"
  "lch_dispatched (replaceWorker i w s l) = lch_dispatched l" "lch_workers (replaceWorker i w s l) = (lch_workers l)[i := w]"
  by (simp_all add: replaceWorker_def)

lemma length_dropAt [simp]: "i < length xs \<Longrightarrow> length (dropAt i xs) = length xs - 1"
  by (simp add: dropAt_def)

lemma current_run [simp]: "run_state (currentGroup c identity) s = (headGroup (exc_sha c) (ses_envelope s) identity, s)"
  by (simp add: currentGroup_def)

lemma result_run:
  "run_state (childLaunchResult c identity) s = ((g, e), s') \<longleftrightarrow> s' = s \<and> g = headGroup (exc_sha c) (ses_envelope s) identity
     \<and> e = reject (\<not> concludes g) (Also ErrChildrenUnresolved)"
  by (auto simp: childLaunchResult_def concludes_def list_ex_iff list_all_iff)

lemma failure_run: "run_state (childGroupHasFailure c identity) s = (b, s') \<Longrightarrow> s' = s"
  by (auto simp: childGroupHasFailure_def)

lemma findChild_mem: "findChild i cs = Some (n, x) \<Longrightarrow> x \<in> set cs"
  by (induction cs arbitrary: n) (auto split: if_splits)

lemma owns_running:
  assumes "owns c s identity invocation"
  shows "\<not> concludes (headGroup (exc_sha c) (ses_envelope s) identity)"
proof -
  from assms obtain x where "x \<in> set (grp_Children (headGroup (exc_sha c) (ses_envelope s) identity))" "chd_State x = ChildRunning"
    by (auto simp: owns_def childOf_def childInvocationMatches_def dest!: findChild_mem)
  then show ?thesis by (force simp: concludes_def list_all_iff)
qed

lemma counted_step: "launch_step c identity grp dispatch l l' \<Longrightarrow> counted grp l \<Longrightarrow> counted grp l'"
  by (cases rule: launch_step.cases) (auto simp: counted_def)

lemma take_next: "i < length xs \<Longrightarrow> set (take i xs) \<subseteq> set (take (Suc i) xs)"
  by (auto simp: take_Suc_conv_app_nth)

lemma distinct_next: "distinct xs \<Longrightarrow> i < length xs \<Longrightarrow> xs ! i \<notin> set (take i xs)"
  by (metis distinct_take id_take_nth_drop not_distinct_conv_prefix)

lemma replaced_held:
  assumes "i < length (lch_workers l)"
  shows "\<exists>a b. inFlight l = a @ holds (lch_workers l ! i) @ b \<and> inFlight (replaceWorker i w s l) = a @ holds w @ b
    \<and> (\<forall>rs. inFlight (l\<lparr>lch_workers := dropAt i (lch_workers l), lch_results := rs\<rparr>) = a @ b)"
    "\<exists>a b. undispatched l = a @ waitsFor (lch_workers l ! i) @ b \<and> undispatched (replaceWorker i w s l) = a @ waitsFor w @ b
    \<and> (\<forall>rs. undispatched (l\<lparr>lch_workers := dropAt i (lch_workers l), lch_results := rs\<rparr>) = a @ b)"
  using worker_moved [OF assms, of holds w] worker_moved [OF assms, of waitsFor w] by (simp_all add: inFlight_def undispatched_def)

lemma held_update [simp]:
  "inFlight (l\<lparr>lch_session := s\<rparr>) = inFlight l" "inFlight (l\<lparr>lch_at := a\<rparr>) = inFlight l" "inFlight (l\<lparr>lch_next := n\<rparr>) = inFlight l"
  "inFlight (l\<lparr>lch_active := k\<rparr>) = inFlight l" "inFlight (l\<lparr>lch_results := rs\<rparr>) = inFlight l" "inFlight (l\<lparr>lch_dispatched := d\<rparr>) = inFlight l"
  "undispatched (l\<lparr>lch_session := s\<rparr>) = undispatched l" "undispatched (l\<lparr>lch_at := a\<rparr>) = undispatched l" "undispatched (l\<lparr>lch_next := n\<rparr>) = undispatched l"
  "undispatched (l\<lparr>lch_active := k\<rparr>) = undispatched l" "undispatched (l\<lparr>lch_results := rs\<rparr>) = undispatched l"
  "undispatched (l\<lparr>lch_dispatched := d\<rparr>) = undispatched l"
  by (simp_all add: inFlight_def undispatched_def)

lemma held_spawn:
  "inFlight (l\<lparr>lch_next := n, lch_active := k, lch_workers := lch_workers l @ [Spawned invocation], lch_session := s\<rparr>) = inFlight l @ [invocation]"
  "undispatched (l\<lparr>lch_next := n, lch_active := k, lch_workers := lch_workers l @ [Spawned invocation], lch_session := s\<rparr>) = undispatched l @ [invocation]"
  by (simp_all add: inFlight_def undispatched_def)

lemma undispatched_held: "set (undispatched l) \<subseteq> set (inFlight l)"
proof -
  have "set (waitsFor w) \<subseteq> set (holds w)" for w by (cases w) auto
  then show ?thesis by (auto simp: inFlight_def undispatched_def)
qed

lemma spawn_once:
  assumes "distinct H" "distinct (D @ F)" "set H \<union> set D \<subseteq> T" "x \<notin> set H" "x \<notin> set D" "x \<notin> set F" "T \<subseteq> T'" "x \<in> T'"
  shows "distinct (H @ [x]) \<and> distinct (D @ F @ [x]) \<and> set (H @ [x]) \<union> set D \<subseteq> T'"
  using assms by auto

context durable_store begin

lemma begun:
  assumes "proper c s" and "run_state (beginChild c identity childID) s = (Ok invocation, s')"
  shows "civ_ChildID invocation = childID" "owns c s' identity invocation" "safe c s s'"
  using beginChild_safe [OF assms] by simp_all

lemma once_step:
  assumes "launch_step c identity grp dispatch l l'" and "launchedOnce grp l" and "owned c identity l" and ids: "distinct (launchableChildIDs grp)"
  shows "launchedOnce grp l'"
  using assms(1)
proof (cases rule: launch_step.cases)
  case (fill_begin invocation s)
  let ?ids = "launchableChildIDs grp"
  have x: "civ_ChildID invocation = ?ids ! lch_next l" using begun(1) [OF _ fill_begin(5)] assms(3) by (simp add: owned_def)
  have new: "?ids ! lch_next l \<notin> set (take (lch_next l) ?ids)" "?ids ! lch_next l \<in> set (take (Suc (lch_next l)) ?ids)"
    "set (take (lch_next l) ?ids) \<subseteq> set (take (Suc (lch_next l)) ?ids)"
    using distinct_next [OF ids fill_begin(4)] take_next [OF fill_begin(4)] fill_begin(4) by (simp_all add: take_Suc_conv_app_nth)
  from assms(2) undispatched_held [of l] new(1) have apart: "civ_ChildID invocation \<notin> set (map civ_ChildID (inFlight l))"
    "civ_ChildID invocation \<notin> set (lch_dispatched l)" "civ_ChildID invocation \<notin> set (map civ_ChildID (undispatched l))"
    unfolding x launchedOnce_def by auto
  note before = assms(2) [unfolded launchedOnce_def]
  show ?thesis
    using spawn_once [OF conjunct1 [OF before] conjunct1 [OF conjunct2 [OF before]] conjunct2 [OF conjunct2 [OF before]] apart new(3)] new(2) x
    unfolding fill_begin(1) launchedOnce_def held_spawn by simp
next
  case (fill_failed e s g t)
  then show ?thesis using assms(2) take_next [OF fill_failed(4)] by (auto simp: launchedOnce_def)
next
  case (work_observe i invocation s)
  then show ?thesis
    using assms(2) replaced_held [OF work_observe(2), of "Entering invocation" s] by (fastforce simp: launchedOnce_def)
next
  case (work_canceled i invocation caller s e)
  then show ?thesis
    using assms(2) replaced_held [OF work_canceled(2), of "Finishing invocation noChildResult (Some e)" s] by (fastforce simp: launchedOnce_def)
next
  case (work_dispatch i invocation caller s)
  then show ?thesis
    using assms(2) replaced_held [OF work_dispatch(2), of "Dispatching invocation" s] by (fastforce simp: launchedOnce_def)
next
  case (work_reply i invocation attempt s outcome e)
  then show ?thesis
    using assms(2) replaced_held [OF work_reply(2), of "Finishing invocation outcome e" s] by (fastforce simp: launchedOnce_def)
next
  case (work_finish i invocation outcome e failed s)
  then show ?thesis
    using assms(2) replaced_held [OF work_finish(2), of "Sending failed" s] by (fastforce simp: launchedOnce_def)
next
  case (work_send i failed)
  then show ?thesis
    using assms(2) replaced_held [OF work_send(2), of undefined undefined] by (fastforce simp: launchedOnce_def)
qed (use assms(2) in \<open>auto simp: launchedOnce_def\<close>)

lemma returns_step:
  assumes "launch_step c identity grp dispatch l l'" and "returnsSettled l" and "owned c identity l" and "causes c"
  shows "returnsSettled l'"
proof -
  have settled: "concludes g \<and> inFlight l = []" if "run_state (childLaunchResult c identity) (lch_session l) = ((g, None), s)" for g s
  proof -
    from that have "g = headGroup (exc_sha c) (ses_envelope (lch_session l)) identity" "concludes g" by (auto simp: result_run split: if_splits)
    then show ?thesis using assms(3) owns_running by (cases "inFlight l") (auto simp: owned_def)
  qed
  from assms(1) show ?thesis
  proof (cases rule: launch_step.cases)
    case (top_canceled g e s)
    then show ?thesis using settled by (auto simp: returnsSettled_def)
  next
    case (fill_idle g e s)
    then show ?thesis using settled by (auto simp: returnsSettled_def)
  next
    case (wait_canceled g e s)
    then show ?thesis using settled by (auto simp: returnsSettled_def)
  next
    case (wait_context e s g t cause u)
    have "t = s" using wait_context(4) by simp
    then have "cause \<noteq> None"
      using wait_context(3,5) assms(4) by (auto simp: causes_def host_def split: prod.splits dest!: spec)
    then show ?thesis using wait_context(1) by (auto simp: returnsSettled_def)
  next
    case (work_observe i invocation s)
    then show ?thesis using assms(2) replaced_held(1) [OF work_observe(2), of "Entering invocation" s] by (fastforce simp: returnsSettled_def)
  next
    case (work_canceled i invocation caller s e)
    then show ?thesis
      using assms(2) replaced_held(1) [OF work_canceled(2), of "Finishing invocation noChildResult (Some e)" s] by (fastforce simp: returnsSettled_def)
  next
    case (work_dispatch i invocation caller s)
    then show ?thesis
      using assms(2) replaced_held(1) [OF work_dispatch(2), of "Dispatching invocation" s] by (fastforce simp: returnsSettled_def)
  next
    case (work_reply i invocation attempt s outcome e)
    then show ?thesis
      using assms(2) replaced_held(1) [OF work_reply(2), of "Finishing invocation outcome e" s] by (fastforce simp: returnsSettled_def)
  next
    case (work_finish i invocation outcome e failed s)
    then show ?thesis using assms(2) replaced_held(1) [OF work_finish(2), of "Sending failed" s] by (fastforce simp: returnsSettled_def)
  next
    case (work_send i failed)
    then show ?thesis using assms(2) replaced_held(1) [OF work_send(2), of undefined undefined] by (fastforce simp: returnsSettled_def)
  qed (use assms(2) in \<open>auto simp: returnsSettled_def\<close>)
qed

end

context durable_store begin

lemma owned_moved:
  assumes "owned c identity l" and "i < length (lch_workers l)" and "set (holds w) \<subseteq> set (holds (lch_workers l ! i))"
    and "grown c (lch_session l) s" and "\<And>other. other \<in> set (inFlight (replaceWorker i w s l)) \<Longrightarrow> owns c (lch_session l) identity other \<Longrightarrow> owns c s identity other"
  shows "owned c identity (replaceWorker i w s l)"
proof -
  have "set (inFlight (replaceWorker i w s l)) \<subseteq> set (inFlight l)" using replaced_held(1) [OF assms(2), of w s] assms(3) by fastforce
  with assms(1,5) grown_proper [OF _ assms(4)] show ?thesis by (auto simp: owned_def)
qed

lemma owned_safe:
  assumes "owned c identity l" and "i < length (lch_workers l)" and "set (holds w) \<subseteq> set (holds (lch_workers l ! i))" and "safe c (lch_session l) s"
  shows "owned c identity (replaceWorker i w s l)"
  by (rule owned_moved [OF assms(1-3)]) (use assms(4) in \<open>auto simp: safe_def\<close>)

lemma owned_session:
  assumes "owned c identity l" and "safe c (lch_session l) s" and "lch_session l' = s" and "set (inFlight l') \<subseteq> set (inFlight l)"
  shows "owned c identity l'"
  using assms grown_proper [of c "lch_session l" s] by (auto simp: owned_def safe_def)

lemma owned_step:
  assumes "launch_step c identity grp dispatch l l'" and o: "owned c identity l" and "launchedOnce grp l" and "\<forall>invocation. orderly c (dispatch invocation)"
  shows "owned c identity l'"
  using assms(1)
proof (cases rule: launch_step.cases)
  case (fill_begin invocation s)
  have "proper c (lch_session l)" using o by (simp add: owned_def)
  note begun [OF this fill_begin(5)]
  with o grown_proper [of c "lch_session l" s] show ?thesis unfolding fill_begin(1) owned_def held_spawn by (auto simp: safe_def)
next
  case (fill_failed e s g t)
  have "safe c (lch_session l) s" using beginChild_safe [OF _ fill_failed(5)] o by (simp add: owned_def)
  then show ?thesis using fill_failed by (intro owned_session [OF o, of s]) auto
next
  case (wait_context e s g t cause u)
  then show ?thesis by (intro owned_session [OF o safe_refl refl]) auto
next
  case (wait_failure rest s g t)
  then show ?thesis using failure_run [OF wait_failure(5)] by (intro owned_session [OF o safe_refl refl]) auto
next
  case (work_observe i invocation s)
  have "safe c (lch_session l) s" using work_observe(4) by (auto simp: observeChildDispatch_def intro: safe_refl)
  then show ?thesis unfolding work_observe(1) using work_observe(2,3) by (intro owned_safe [OF o]) simp_all
next
  case (work_canceled i invocation caller s e)
  have "safe c (lch_session l) s" using work_canceled(4) by (auto intro: safe_refl)
  then show ?thesis unfolding work_canceled(1) using work_canceled(2,3) by (intro owned_safe [OF o]) simp_all
next
  case (work_dispatch i invocation caller s)
  have "safe c (lch_session l) s" using work_dispatch(4) by (auto intro: safe_refl)
  then have "owned c identity (replaceWorker i (Dispatching invocation) s l)" using work_dispatch(2,3) by (intro owned_safe [OF o]) simp_all
  then show ?thesis unfolding work_dispatch(1) by (simp add: owned_def)
next
  case (work_reply i invocation attempt s outcome e)
  have "safe c (lch_session l) s" using orderly_safe [OF spec [OF assms(4)] work_reply(4)] .
  then show ?thesis unfolding work_reply(1) using work_reply(2,3) by (intro owned_safe [OF o]) simp_all
next
  case (work_finish i invocation outcome e failed s)
  obtain a b where parts: "inFlight l = a @ [invocation] @ b" "inFlight (replaceWorker i (Sending failed) s l) = a @ b"
    using replaced_held(1) [OF work_finish(2), of "Sending failed" s] work_finish(3) by auto
  have "distinct (map civ_ChildID (a @ [invocation] @ b))" using assms(3) parts(1) by (simp add: launchedOnce_def)
  then have "civ_ChildID invocation \<notin> civ_ChildID ` set (a @ b)" by (simp add: image_Un)
  then have "\<forall>other \<in> set (a @ b). civ_ChildID other \<noteq> civ_ChildID invocation" by (metis imageI)
  then show ?thesis
    unfolding work_finish(1) using finishChild_safe [OF work_finish(4)] work_finish(2,3) parts(2) by (intro owned_moved [OF o]) simp_all
next
  case (work_send i failed)
  then show ?thesis using replaced_held(1) [OF work_send(2), of undefined undefined] by (intro owned_session [OF o safe_refl refl]) auto
qed (use o in \<open>auto simp: owned_def result_run\<close>)

lemma launch_invariant:
  assumes "launch_run c identity grp dispatch s l" and "proper c s" and "distinct (launchableChildIDs grp)" and "pln_MaxConcurrency (grp_Plan grp) \<ge> 0"
    and "\<forall>invocation. orderly c (dispatch invocation)" and "causes c"
  shows "launch_ok c identity grp l"
  using assms(1)
proof induction
  case run_start
  then show ?case using assms(2,4) by (simp add: launch_ok_defs startLaunch_def inFlight_def undispatched_def)
next
  case (run_step l l')
  then show ?case
    using counted_step once_step [OF _ _ _ assms(3)] returns_step [OF _ _ _ assms(6)] owned_step [OF _ _ _ assms(5)]
    unfolding launch_ok_def by blast
next
  case (run_other l t)
  then show ?case using grown_proper by (auto simp: launch_ok_defs rely_def)
qed

end

section \<open>The group of a launch\<close>

lemma recover_quiet:
  assumes "recover_loop incarnation g recovered cs changed pending = Inr (ds, changed', False)"
  shows "ds = recovered @ cs \<and> changed' = changed \<and> \<not> pending"
  using assms
proof (induction cs arbitrary: recovered changed pending)
  case (Cons x cs)
  then obtain y where y: "recoverChild incarnation x = Ok y" by (auto split: sum.splits)
  with Cons.prems Cons.IH have *: "ds = (recovered @ [y]) @ cs" "changed' = (changed \<or> chd_State x = ChildRunning)" "\<not> pending" "chd_State x \<noteq> ChildRunning"
    by (auto dest: Cons.IH)
  then have "y = x" using y by (simp add: recoverChild_def)
  with * show ?case by simp
qed simp

lemma recovered_group:
  assumes "run_state (recoverChildLaunches c identity) s = ((g, None), s')"
  shows "\<exists>groups. executionChildGroups (exc_sha c) (ses_envelope s) = Ok groups \<and> g = groupAt groups identity \<and> s' = s"
proof -
  from assms obtain groups where loaded: "executionChildGroups (exc_sha c) (ses_envelope s) = Ok groups"
    by (cases "executionChildGroups (exc_sha c) (ses_envelope s)") (auto simp: recoverChildLaunches_def)
  let ?g = "groupAt groups identity"
  obtain ds changed pending where loop: "recover_loop (lse_Incarnation (exc_lease c)) ?g [] (grp_Children ?g) False False = Inr (ds, changed, pending)"
    using assms loaded
    by (cases "recover_loop (lse_Incarnation (exc_lease c)) ?g [] (grp_Children ?g) False False") (auto simp: recoverChildLaunches_def Let_def split: prod.splits)
  have "\<not> pending" using assms loaded loop by (auto simp: recoverChildLaunches_def Let_def split: if_splits prod.splits option.splits)
  with recover_quiet loop have "ds = grp_Children ?g" "\<not> changed" by fastforce+
  with assms loaded loop \<open>\<not> pending\<close> show ?thesis by (simp add: recoverChildLaunches_def Let_def)
qed

lemma launchable_facts:
  assumes "validateChildGroup sha g = None"
  shows "distinct (launchableChildIDs g)" "pln_MaxConcurrency (grp_Plan g) \<ge> 0"
proof -
  show "distinct (launchableChildIDs g)" using group_ids(1) [OF assms] by (simp add: launchableChildIDs_def distinct_map_filter)
  from assms obtain base :: ChildGroupRecord where "PlanChildGroup sha (grp_ParentID g) (grp_Node g) (grp_Activation g) (grp_Plan g) (grp_Capacity g) = Ok base"
    by (auto simp: validateChildGroup_iff)
  then show "pln_MaxConcurrency (grp_Plan g) \<ge> 0" by (auto simp: PlanChildGroup_def Let_def split: if_splits option.splits)
qed

lemma launchable_length: "length (launchableChildIDs g) \<le> length (grp_Children g)"
  by (simp add: launchableChildIDs_def)

text \<open>What \<open>runChildren\<close> hands to \<open>launchChildGroup\<close> is the committed group.\<close>

context durable_store begin

lemma launch_arguments:
  assumes maps: "planMaps plan" and run: "run_state (RunChildren (Some c) plan available dispatch) s = (Inr (identity, grp, d), s')"
  shows "safe c s s' \<and> grp = headGroup (exc_sha c) (ses_envelope s') identity \<and> (grp = noChildGroup \<or> validateChildGroup (exc_sha c) grp = None)"
proof -
  from run obtain callback where inner: "run_state (runChildren c plan available callback) s = (Inr (identity, grp, d), s')"
    by (cases dispatch) (auto simp: RunChildren_def)
  then obtain d0 where d0: "forkChildDispatcher c callback = Inr d0" by (cases "forkChildDispatcher c callback") (auto simp: runChildren_def)
  obtain prepared t where t: "run_state (prepareChildren c plan available) s = (prepared, t)" by fastforce
  with inner d0 obtain planned where planned: "prepared = Inr planned" by (cases prepared) (auto simp: runChildren_def)
  obtain g failed v where v: "run_state (recoverChildLaunches c (groupIdentity (exc_sha c) planned)) t = ((g, failed), v)" by (metis surj_pair)
  with inner d0 t planned have "failed = None" "identity = groupIdentity (exc_sha c) planned" "g = grp" "v = s'"
    by (auto simp: runChildren_def split: option.splits)
  with recovered_group v obtain groups where "executionChildGroups (exc_sha c) (ses_envelope s') = Ok groups" "grp = groupAt groups identity" by metis
  moreover from this loaded_group_valid(1) [OF loaded_groups_ok] have "grp = noChildGroup \<or> validateChildGroup (exc_sha c) grp = None"
    by (cases "lookup groups identity") (auto simp: groupAt_def)
  ultimately show ?thesis using runChildren_safe [OF maps inner] by (simp add: headGroup_def)
qed

lemma launch_reachable:
  assumes "proper c s" and "planMaps plan" and "run_state (RunChildren (Some c) plan available dispatch) s = (Inr (identity, grp, d), s')"
    and "\<forall>invocation. orderly c (d invocation)" and "causes c" and "launch_run c identity grp d s' l"
  shows "launch_ok c identity grp l"
proof -
  note args = launch_arguments [OF assms(2,3)]
  have "proper c s'" using args grown_proper [OF assms(1)] by (simp add: safe_def)
  moreover have "distinct (launchableChildIDs grp)" "pln_MaxConcurrency (grp_Plan grp) \<ge> 0"
    using args launchable_facts [of "exc_sha c" grp] by (auto simp: noChildGroup_def noChildPlan_def launchableChildIDs_def)
  ultimately show ?thesis using launch_invariant [OF assms(6)] assms(4,5) by blast
qed

end

section \<open>Progress\<close>

fun workerWork :: "worker \<Rightarrow> nat" where
  "workerWork (Spawned _) = 9"
| "workerWork (Entering _) = 8"
| "workerWork (Dispatching _) = 7"
| "workerWork (Finishing _ _ _) = 6"
| "workerWork (Sending _) = 5"

fun launcherWork :: "launcher \<Rightarrow> nat" where
  "launcherWork LoopTop = 3"
| "launcherWork Filling = 2"
| "launcherWork Waiting = 1"
| "launcherWork (Returned _ _) = 0"

definition workLeft :: "ChildGroupRecord \<Rightarrow> 'w launch \<Rightarrow> nat" where
  "workLeft grp l = 20 * (length (launchableChildIDs grp) - lch_next l) + sum_list (map workerWork (lch_workers l))
     + 4 * length (lch_results l) + launcherWork (lch_at l)"

lemma worker_work:
  assumes "i < length (lch_workers l)"
  shows "\<exists>n. sum_list (map workerWork (lch_workers l)) = n + workerWork (lch_workers l ! i)
    \<and> sum_list (map workerWork ((lch_workers l)[i := w])) = n + workerWork w \<and> sum_list (map workerWork (dropAt i (lch_workers l))) = n"
proof -
  let ?n = "sum_list (map workerWork (take i (lch_workers l))) + sum_list (map workerWork (drop (Suc i) (lch_workers l)))"
  have "sum_list (map workerWork (take i (lch_workers l) @ lch_workers l ! i # drop (Suc i) (lch_workers l))) = ?n + workerWork (lch_workers l ! i)" by simp
  then have "sum_list (map workerWork (lch_workers l)) = ?n + workerWork (lch_workers l ! i)" using worker_split(1) [OF assms] by simp
  then show ?thesis by (intro exI [of _ ?n]) (simp add: worker_split(2) [OF assms] dropAt_def)
qed

lemma work_decreases:
  assumes "launch_step c identity grp dispatch l l'"
  shows "workLeft grp l' < workLeft grp l"
  using assms
proof (cases rule: launch_step.cases)
  case (work_observe i invocation s)
  then show ?thesis using worker_work [OF work_observe(2), of "Entering invocation"] by (auto simp: workLeft_def)
next
  case (work_canceled i invocation caller s e)
  then show ?thesis using worker_work [OF work_canceled(2), of "Finishing invocation noChildResult (Some e)"] by (auto simp: workLeft_def)
next
  case (work_dispatch i invocation caller s)
  then show ?thesis using worker_work [OF work_dispatch(2), of "Dispatching invocation"] by (auto simp: workLeft_def)
next
  case (work_reply i invocation attempt s outcome e)
  then show ?thesis using worker_work [OF work_reply(2), of "Finishing invocation outcome e"] by (auto simp: workLeft_def)
next
  case (work_finish i invocation outcome e failed s)
  then show ?thesis using worker_work [OF work_finish(2), of "Sending failed"] by (auto simp: workLeft_def)
next
  case (work_send i failed)
  then show ?thesis using worker_work [OF work_send(2), of undefined] by (auto simp: workLeft_def)
qed (auto simp: workLeft_def)

lemma counted_room:
  assumes "counted grp l" and "lch_workers l \<noteq> []"
  shows "int (length (lch_results l)) < resultsCapacity grp"
proof -
  have "length (lch_workers l) > 0" using assms(2) by simp
  with assms(1) launchable_length [of grp] show ?thesis unfolding counted_def resultsCapacity_def by linarith
qed

lemma worker_steps:
  assumes "counted grp l" and "lch_workers l = w # ws"
  shows "\<exists>l'. launch_step c identity grp dispatch l l'"
proof -
  note at = launch_step.intros [where c = c and identity = identity and grp = grp and dispatch = dispatch and l = l]
  have i: "0 < length (lch_workers l)" "lch_workers l ! 0 = w" using assms(2) by simp_all
  show ?thesis
  proof (cases w)
    case (Spawned invocation)
    obtain s where "run_state (observeChildDispatch c identity invocation) (lch_session l) = ((), s)" by (metis surj_pair unit_eq)
    with at(12) [OF i(1)] i(2) Spawned show ?thesis by blast
  next
    case (Entering invocation)
    obtain caller s where run: "run_state (host (exc_ctxErr c)) (lch_session l) = (caller, s)" by fastforce
    show ?thesis
    proof (cases "workContextErr (lch_at l) caller")
      case None
      with at(14) [OF i(1) _ run] i(2) Entering show ?thesis by blast
    next
      case (Some e)
      with at(13) [OF i(1) _ run] i(2) Entering show ?thesis by blast
    qed
  next
    case (Dispatching invocation)
    obtain attempt s where run: "run_state (dispatch invocation) (lch_session l) = (attempt, s)" by fastforce
    obtain outcome e where "childAttemptOutcome attempt = (outcome, e)" by fastforce
    with at(15) [OF i(1) _ run] i(2) Dispatching show ?thesis by blast
  next
    case (Finishing invocation outcome e)
    obtain failed s where "run_state (finishChild c identity invocation outcome e) (lch_session l) = (failed, s)" by fastforce
    with at(16) [OF i(1)] i(2) Finishing show ?thesis by blast
  next
    case (Sending failed)
    have "int (length (lch_results l)) < resultsCapacity grp" using counted_room [OF assms(1)] assms(2) by simp
    with at(17) [OF i(1)] i(2) Sending show ?thesis by blast
  qed
qed

lemma launcher_steps:
  assumes "counted grp l" and "lch_workers l = []" and "\<nexists>g e. lch_at l = Returned g e"
  shows "\<exists>l'. launch_step c identity grp dispatch l l'"
proof -
  note at = launch_step.intros [where c = c and identity = identity and grp = grp and dispatch = dispatch and l = l]
  obtain g e s where result: "run_state (childLaunchResult c identity) (lch_session l) = ((g, e), s)" by (metis surj_pair)
  show ?thesis
  proof (cases "lch_at l")
    case LoopTop
    with at(1) [OF _ _ result] at(2) show ?thesis by blast
  next
    case Filling
    obtain r t where begun: "run_state (beginChild c identity (launchableChildIDs grp ! lch_next l)) (lch_session l) = (r, t)" by fastforce
    show ?thesis
    proof (cases "lch_active l < pln_MaxConcurrency (grp_Plan grp) \<and> lch_next l < length (launchableChildIDs grp)")
      case True
      with Filling at(3,4) begun current_run show ?thesis by (cases r) blast+
    next
      case False
      with Filling at(5) [OF _ _ _ result] at(6) show ?thesis by blast
    qed
  next
    case Waiting
    obtain failed s' where has: "run_state (childGroupHasFailure c identity) (lch_session l) = (failed, s')" by fastforce
    note same = failure_run [OF has]
    from Waiting assms(1,2) obtain x rest where "lch_results l = x # rest" by (cases "lch_results l") (auto simp: counted_def)
    then show ?thesis
    proof (cases x)
      case None
      with \<open>lch_results l = x # rest\<close> have results: "lch_results l = None # rest" by simp
      show ?thesis
      proof (cases "pln_FailurePolicy (grp_Plan grp) = ChildFailFast \<and> failed")
        case True
        then have "run_state (childGroupHasFailure c identity) (lch_session l) = (True, s')" using has by simp
        with at(10) [OF Waiting results conjunct1 [OF True] _ current_run] show ?thesis by blast
      next
        case False
        then have "pln_FailurePolicy (grp_Plan grp) = ChildFailFast \<longrightarrow>
            run_state (childGroupHasFailure c identity) (lch_session l) = (False, lch_session l)" using has same by simp
        with at(11) [OF Waiting results] show ?thesis by blast
      qed
    next
      case (Some e)
      with at(9) [OF Waiting] \<open>lch_results l = x # rest\<close> current_run show ?thesis by blast
    qed
  next
    case (Returned g e)
    with assms(3) show ?thesis by blast
  qed
qed

section \<open>Properties\<close>

text \<open>
  C10. A launch keeps its bounds and runs each child once. From the commit and the
  recovery that \<open>RunChildren\<close> makes, in every interleaving of the loop, its goroutines
  and the other goroutines of the session: the launched children are those counted,
  at most \<open>MaxConcurrency\<close> and at most the channel's capacity, so that no completion
  ever blocks on its channel; every goroutine that has not reported works on a child
  committed as running under its own revision and this lease; no child is given to
  the dispatcher twice; and a launch that returns without an error leaves no child
  running: every child of the group it returns is completed, failed or canceled.
\<close>

theorem child_launch_is_safe:
  assumes "durable_store c" and "proper c s" and "planMaps plan"
    and "run_state (RunChildren (Some c) plan available dispatch) s = (Inr (identity, grp, d), s')"
    and "\<forall>invocation. orderly c (d invocation)" and "causes c" and "launch_run c identity grp d s' l"
  shows "lch_active l = int (length (lch_workers l) + length (lch_results l)) \<and> lch_active l \<le> resultsCapacity grp
    \<and> (\<forall>invocation \<in> set (inFlight l). owns c (lch_session l) identity invocation)
    \<and> distinct (lch_dispatched l) \<and> set (lch_dispatched l) \<subseteq> set (launchableChildIDs grp)
    \<and> (\<forall>g. lch_at l = Returned g None \<longrightarrow> concludes g \<and> inFlight l = [])"
proof -
  have ok: "launch_ok c identity grp l" by (rule durable_store.launch_reachable [OF assms])
  have "set (take (lch_next l) (launchableChildIDs grp)) \<subseteq> set (launchableChildIDs grp)" by (rule set_take_subset)
  then have "set (lch_dispatched l) \<subseteq> set (launchableChildIDs grp)" using ok by (auto simp: launch_ok_def launchedOnce_def)
  with ok launchable_length [of grp] show ?thesis by (simp add: launch_ok_defs resultsCapacity_def)
qed

text \<open>
  C11. A launch finishes. Each of its own steps makes the work that is left smaller,
  whatever other goroutines do meanwhile leaves it as it is, and as long as the launch
  has not returned or one of its goroutines is alive there is a step to make: the loop
  never waits for a completion that cannot come, and no goroutine is left behind.
\<close>

theorem child_launch_finishes:
  assumes "durable_store c" and "proper c s" and "planMaps plan"
    and "run_state (RunChildren (Some c) plan available dispatch) s = (Inr (identity, grp, d), s')"
    and "\<forall>invocation. orderly c (d invocation)" and "causes c" and "launch_run c identity grp d s' l"
  shows "(\<forall>l'. launch_step c identity grp d l l' \<longrightarrow> workLeft grp l' < workLeft grp l)
    \<and> (\<forall>t. workLeft grp (l\<lparr>lch_session := t\<rparr>) = workLeft grp l)
    \<and> ((\<exists>g e. lch_at l = Returned g e) \<and> lch_workers l = [] \<or> (\<exists>l'. launch_step c identity grp d l l'))"
proof -
  have "counted grp l" using durable_store.launch_reachable [OF assms] by (simp add: launch_ok_def)
  then have "(\<exists>g e. lch_at l = Returned g e) \<and> lch_workers l = [] \<or> (\<exists>l'. launch_step c identity grp d l l')"
    using worker_steps [of grp l] launcher_steps [of grp l] by (cases "lch_workers l") blast+
  then show ?thesis using work_decreases by (simp add: workLeft_def) blast
qed

section \<open>A sample launch\<close>

text \<open>The group of the joined session before anything was launched; the loop has passed its first test.\<close>

definition plannedGroup :: ChildGroupRecord where
  "plannedGroup = joinedGroup\<lparr>grp_Children := [newChildRecord (childExecutionIdentity sampleSha ''e'' (env_Pointer sampleEnvelope) 1 ''k'' ''x'')
     \<lparr>spc_ID = ''x'', spc_Input = '''', spc_Allocation = []\<rparr>], grp_MergedIDs := [], grp_MergedResult := ''''\<rparr>"

definition plannedSession :: "unit memoryWorld session" where
  "plannedSession = joinedSession\<lparr>ses_envelope := sampleSealed\<lparr>env_ChildrenPayload := Bytes_of True [(groupIdentity sampleSha plannedGroup, plannedGroup)]\<rparr>\<rparr>"

definition completes :: "unit memoryWorld childDispatcher" where
  "completes invocation = ret (Returns (Ok \<lparr>chr_State = ChildCompleted, chr_Payload = ''done'', chr_Error = '''', chr_WaitID = ''''\<rparr>))"

definition sampleLaunch :: "unit memoryWorld launch" where
  "sampleLaunch = (startLaunch plannedSession)\<lparr>lch_at := Filling\<rparr>"

lemma planned_groups_load: "executionChildGroups sampleSha (ses_envelope plannedSession) = Ok [(groupIdentity sampleSha plannedGroup, plannedGroup)]"
  by code_simp

lemma planned_shape:
  "boundChildGroupIdentity sampleSha (ses_envelope plannedSession) ''k'' = groupIdentity sampleSha plannedGroup"
  "maps_Equal (grp_Capacity plannedGroup) []" "samePlan (grp_Plan plannedGroup) oneChild" "\<not> grp_CancelRequested plannedGroup"
  "recover_loop 1 plannedGroup [] (grp_Children plannedGroup) False False = Inr (grp_Children plannedGroup, False, False)"
  "launchableChildIDs plannedGroup = [''x'']"
  by (code_simp, code_simp, code_simp, code_simp, code_simp, code_simp)

lemma planned_run:
  "run_state (RunChildren (Some sampleCheckpointer) oneChild [] (Some completes)) plannedSession
    = (Inr (groupIdentity sampleSha plannedGroup, plannedGroup, completes), plannedSession)"
proof -
  have key: "pln_Key oneChild = ''k''" "lse_Incarnation sampleLease = 1" by (simp_all add: oneChild_def sampleLease_def)
  have locked: "run_state (prepareChildrenLocked sampleCheckpointer oneChild []) plannedSession = (Ok plannedGroup, plannedSession)"
    using planned_shape planned_groups_load by (simp add: prepareChildrenLocked_def key)
  have observed: "observed sampleCheckpointer event w = w" for event :: LifecycleObservation and w :: "unit memoryWorld"
    by (simp add: observed_def)
  have cached: "run_state (observeCachedChildren sampleCheckpointer event children) plannedSession = ((), plannedSession)" for event children
    by (induction children) (simp_all add: observed)
  have "run_state (prepareChildren sampleCheckpointer oneChild []) plannedSession = (Ok plannedGroup, plannedSession)"
    by (simp add: prepareChildren_def locked observed cached Let_def)
  moreover have "run_state (recoverChildLaunches sampleCheckpointer (groupIdentity sampleSha plannedGroup)) plannedSession
      = ((plannedGroup, None), plannedSession)"
    using planned_groups_load planned_shape(5) by (simp add: recoverChildLaunches_def groupAt_def key)
  moreover have "forkChildDispatcher sampleCheckpointer completes = Ok completes" by (simp add: forkChildDispatcher_def)
  ultimately show ?thesis by (simp add: RunChildren_def runChildren_def)
qed

lemma planned_proper: "proper sampleCheckpointer plannedSession"
  by (simp add: proper_def plannedSession_def joinedSession_def sampleSession_def sampleLease_def)

lemma planned_launch: "launch_run sampleCheckpointer (groupIdentity sampleSha plannedGroup) plannedGroup completes plannedSession sampleLaunch"
proof -
  have "\<not> childCancellationSignaled sampleCheckpointer (groupIdentity sampleSha plannedGroup) plannedSession"
    using planned_groups_load planned_shape(4) by (simp add: childCancellationSignaled_def headGroup_def groupAt_def)
  then have "launch_step sampleCheckpointer (groupIdentity sampleSha plannedGroup) plannedGroup completes (startLaunch plannedSession)
      ((startLaunch plannedSession)\<lparr>lch_at := Filling\<rparr>)"
    by (intro top_open) (simp_all add: startLaunch_def)
  with run_step [OF run_start] show ?thesis unfolding sampleLaunch_def by blast
qed

lemma planned_conditions:
  "planMaps oneChild" "\<forall>invocation. orderly sampleCheckpointer (completes invocation)" "causes (sampleCheckpointer :: (unit memoryWorld, string, char) executionCheckpointer)"
  by (simp_all add: planMaps_def oneChild_def orderly_simple completes_def causes_def)

lemmas planned = sample_store_laws planned_proper planned_conditions(1) planned_run planned_conditions(2,3) planned_launch

theorem child_launch_is_safe_witness:
  "lch_active sampleLaunch \<le> resultsCapacity plannedGroup \<and> set (lch_dispatched sampleLaunch) \<subseteq> {''x''}"
  using child_launch_is_safe [OF planned] planned_shape(6) by simp

theorem child_launch_finishes_witness:
  "\<exists>l'. launch_step sampleCheckpointer (groupIdentity sampleSha plannedGroup) plannedGroup completes sampleLaunch l'
    \<and> workLeft plannedGroup l' < workLeft plannedGroup sampleLaunch"
proof -
  have "\<nexists>g e. lch_at sampleLaunch = Returned g e" by (simp add: sampleLaunch_def)
  with child_launch_finishes [OF planned] show ?thesis by blast
qed

end
