(* ===== verification/Decision_Contracts.thy ===== *)
theory Decision_Contracts
  imports Session_Contracts Child_Operations
begin

text \<open>
  What the decisions on a child leave in the store: the head a decision commits holds
  the child as settled, and no later decision on that child moves the head again.
\<close>

section \<open>Settled children of a head\<close>

definition settledIn :: "ExecutionEnvelope \<Rightarrow> string \<Rightarrow> string \<Rightarrow> bool" where
  "settledIn e identity childID \<longleftrightarrow>
    (\<exists>groups n x. env_ChildrenPayload e = Bytes_of True groups \<and> findChild childID (grp_Children (groupAt groups identity)) = Some (n, x) \<and> settledChild x)"

lemma updateChild_find:
  "updateChild i f cs = (case findChild i cs of None \<Rightarrow> Err (Also ErrChildRevision) | Some (n, x) \<Rightarrow> res_bind (f x) (\<lambda>y. Ok (cs[n := y])))"
proof (induction cs)
  case (Cons c cs)
  have "res_bind (res_bind v (\<lambda>y. Ok (cs[n := y]))) (\<lambda>cs'. Ok (c # cs')) = res_bind v (\<lambda>y. Ok ((c # cs)[Suc n := y]))" for v :: "ChildRecord res" and n
    by (cases v) simp_all
  with Cons show ?case by (auto simp: res_simps split: option.splits)
qed simp

text \<open>A settled child can be confirmed, resolved or decided no more.\<close>

lemma settled_refuses:
  assumes "settledChild x"
  shows "confirmCancelChild d source incarnation at x \<noteq> Ok y" "resolveWaitChild w source incarnation at x \<noteq> Ok y"
    "resolveOutcomeChild digest q source incarnation at x \<noteq> Ok y"
  using assms by (auto simp: settledChild_def confirmCancelChild_def resolveWaitChild_def resolveOutcomeChild_def unresolvedCancelableChild_def)

text \<open>A decision that applies settles its child and keeps its id.\<close>

lemma decision_settles:
  "confirmCancelChild d source incarnation at x = Ok y \<Longrightarrow> settledChild y \<and> chd_Spec y = chd_Spec x"
  "resolveWaitChild w source incarnation at x = Ok y \<Longrightarrow> chr_State (wrs_Result w) \<in> {ChildCompleted, ChildFailed} \<Longrightarrow> settledChild y \<and> chd_Spec y = chd_Spec x"
  "resolveOutcomeChild digest q source incarnation at x = Ok y \<Longrightarrow> validChildOutcomeRequest q \<Longrightarrow> settledChild y \<and> chd_Spec y = chd_Spec x"
  by (auto simp: settledChild_def confirmCancelChild_def resolveWaitChild_def resolveOutcomeChild_def validChildOutcomeRequest_def Let_def res_simps
      split: if_splits ChildState.splits)

lemma updated_settles:
  assumes "updateChild i f cs = Ok ds" and "\<And>x y. f x = Ok y \<Longrightarrow> settledChild y \<and> chd_Spec y = chd_Spec x"
  shows "\<exists>n y. findChild i ds = Some (n, y) \<and> settledChild y"
proof -
  from assms(1) obtain n x y where x: "findChild i cs = Some (n, x)" "f x = Ok y" "ds = cs[n := y]"
    by (auto simp: updateChild_find res_simps split: option.splits prod.splits)
  with assms(2) have "settledChild y" "chd_Spec y = chd_Spec x" by blast+
  with x findChild_at [OF x(1)] findChild_update [OF x(1), of y] show ?thesis by auto
qed

lemma decisionGroup_Ok:
  assumes "decisionGroup sha source identity admissible = Ok (groups, grp)" and "settledIn source identity childID"
  shows "\<exists>n x. findChild childID (grp_Children grp) = Some (n, x) \<and> settledChild x"
  using assms by (auto simp: decisionGroup_def settledIn_def groupAt_def executionChildGroups_Ok_iff res_simps split: option.splits if_splits)

definition changed :: "child_groups \<Rightarrow> string \<Rightarrow> string \<Rightarrow> (ChildRecord \<Rightarrow> ChildRecord res) \<Rightarrow> ChildGroupRecord \<Rightarrow> child_groups \<Rightarrow> bool" where
  "changed groups identity childID f grp groups' \<longleftrightarrow>
    (\<exists>cs. updateChild childID f (grp_Children grp) = Ok cs \<and> groups' = put identity (grp\<lparr>grp_Children := cs\<rparr>) groups)"

lemma changed_refused:
  assumes "changed groups identity childID f grp groups'" and "decisionGroup sha source identity admissible = Ok (groups, grp)"
    and "settledIn source identity childID" and "\<forall>x y. settledChild x \<longrightarrow> f x \<noteq> Ok y"
  shows False
  using decisionGroup_Ok [OF assms(2,3)] assms(1,4) by (auto simp: changed_def updateChild_find res_simps)

lemma changed_settles:
  assumes "changed groups identity childID f grp groups'" and "\<And>x y. f x = Ok y \<Longrightarrow> settledChild y \<and> chd_Spec y = chd_Spec x"
  shows "\<exists>n y. findChild childID (grp_Children (groupAt groups' identity)) = Some (n, y) \<and> settledChild y"
  using assms(1) updated_settles [OF _ assms(2)] by (auto simp: changed_def groupAt_def)

lemma prepared_changes:
  "run_state (confirmGroups r d lease source identity) s = (Ok groups', s') \<Longrightarrow>
    \<exists>groups grp at admissible. decisionGroup (drn_sha r) source identity admissible = Ok (groups, grp)
      \<and> changed groups identity (cnf_ChildID d) (confirmCancelChild d (env_Revision source) (lse_Incarnation lease) at) grp groups'"
  "run_state (resolveWaitGroups r w lease source identity) s = (Ok groups', s') \<Longrightarrow>
    \<exists>groups grp at admissible. decisionGroup (drn_sha r) source identity admissible = Ok (groups, grp)
      \<and> changed groups identity (wrs_ChildID w) (resolveWaitChild w (env_Revision source) (lse_Incarnation lease) at) grp groups'"
  "run_state (resolveOutcomeGroups r q lease source identity) s = (Ok (Some groups'), s') \<Longrightarrow>
    \<exists>groups grp at admissible. decisionGroup (drn_sha r) source identity admissible = Ok (groups, grp)
      \<and> changed groups identity (ors_ChildID q) (resolveOutcomeChild (childOutcomeRequestDigest (drn_sha r) q) q (env_Revision source)
          (lse_Incarnation lease) at) grp groups'"
  by (fastforce simp: confirmGroups_def resolveWaitGroups_def resolveOutcomeGroups_def attempt_Ok_iff applyChildCancelConfirmation_def applyChildWaitResolution_def
      applyChildOutcomeResolution_def changed_def res_simps Let_def alive_def passing_def split: if_splits option.splits)+

lemma settled_prepared:
  assumes "settledIn source identity childID"
  shows "cnf_ChildID d = childID \<Longrightarrow> returns (\<lambda>x. \<exists>e. x = Inl e) (confirmGroups r d lease source identity)"
    and "wrs_ChildID w = childID \<Longrightarrow> returns (\<lambda>x. \<exists>e. x = Inl e) (resolveWaitGroups r w lease source identity)"
    and "ors_ChildID q = childID \<Longrightarrow> returns (\<lambda>x. x = Ok None \<or> (\<exists>e. x = Inl e)) (resolveOutcomeGroups r q lease source identity)"
proof -
  show "returns (\<lambda>x. \<exists>e. x = Inl e) (confirmGroups r d lease source identity)" if id: "cnf_ChildID d = childID"
  proof (rule returnsI)
    fix s x s' assume run: "run_state (confirmGroups r d lease source identity) s = (x, s')"
    show "\<exists>e. x = Inl e"
    proof (cases x)
      case (Inr groups')
      with prepared_changes(1) run obtain groups grp at admissible where
        "decisionGroup (drn_sha r) source identity admissible = Ok (groups, grp)"
        "changed groups identity (cnf_ChildID d) (confirmCancelChild d (env_Revision source) (lse_Incarnation lease) at) grp groups'" by blast
      then show ?thesis using changed_refused assms settled_refuses(1) id by blast
    qed simp
  qed
  show "returns (\<lambda>x. \<exists>e. x = Inl e) (resolveWaitGroups r w lease source identity)" if id: "wrs_ChildID w = childID"
  proof (rule returnsI)
    fix s x s' assume run: "run_state (resolveWaitGroups r w lease source identity) s = (x, s')"
    show "\<exists>e. x = Inl e"
    proof (cases x)
      case (Inr groups')
      with prepared_changes(2) run obtain groups grp at admissible where
        "decisionGroup (drn_sha r) source identity admissible = Ok (groups, grp)"
        "changed groups identity (wrs_ChildID w) (resolveWaitChild w (env_Revision source) (lse_Incarnation lease) at) grp groups'" by blast
      then show ?thesis using changed_refused assms settled_refuses(2) id by blast
    qed simp
  qed
  show "returns (\<lambda>x. x = Ok None \<or> (\<exists>e. x = Inl e)) (resolveOutcomeGroups r q lease source identity)" if id: "ors_ChildID q = childID"
  proof (rule returnsI)
    fix s x s' assume run: "run_state (resolveOutcomeGroups r q lease source identity) s = (x, s')"
    show "x = Ok None \<or> (\<exists>e. x = Inl e)"
    proof (cases "\<exists>groups'. x = Ok (Some groups')")
      case True
      with prepared_changes(3) run obtain groups grp at admissible groups' where
        "decisionGroup (drn_sha r) source identity admissible = Ok (groups, grp)"
        "changed groups identity (ors_ChildID q) (resolveOutcomeChild (childOutcomeRequestDigest (drn_sha r) q) q (env_Revision source)
          (lse_Incarnation lease) at) grp groups'" by blast
      then show ?thesis using changed_refused assms settled_refuses(3) id by blast
    next
      case False
      then show ?thesis by (metis obj_sumE option.exhaust)
    qed
  qed
qed

section \<open>A decision settles its child\<close>

lemma unwritten: "(\<And>h. P h \<Longrightarrow> c) \<Longrightarrow> (c \<Longrightarrow> writesOnce heads P k Q m) \<Longrightarrow> writesOnce heads P k Q m"
  by (cases c) (auto simp: writesOnce_def)

abbreviation settlingHead :: "string \<Rightarrow> string \<Rightarrow> string \<Rightarrow> ResumeToken \<Rightarrow> ExecutionEnvelope \<Rightarrow> bool" where
  "settlingHead k identity childID b e \<equiv> aboutHead k b e \<and> settledIn e identity childID"

abbreviation settlesGroup :: "string \<Rightarrow> string \<Rightarrow> child_groups \<Rightarrow> bool" where
  "settlesGroup identity childID groups \<equiv> \<exists>n y. findChild childID (grp_Children (groupAt groups identity)) = Some (n, y) \<and> settledChild y"

lemma prepared_settles:
  "run_state (confirmGroups r d lease source identity) s = (Ok groups', s') \<Longrightarrow> settlesGroup identity (cnf_ChildID d) groups'"
  "run_state (resolveWaitGroups r w lease source identity) s = (Ok groups', s') \<Longrightarrow> chr_State (wrs_Result w) \<in> {ChildCompleted, ChildFailed} \<Longrightarrow>
    settlesGroup identity (wrs_ChildID w) groups'"
  "run_state (resolveOutcomeGroups r q lease source identity) s = (Ok (Some groups'), s') \<Longrightarrow> validChildOutcomeRequest q \<Longrightarrow>
    settlesGroup identity (ors_ChildID q) groups'"
  by (drule prepared_changes, elim exE conjE, erule changed_settles, erule decision_settles, assumption?)+

context execution_heads begin

lemma once_settling_commit:
  assumes "lse_ExecutionID lease = k" and "settlesGroup identity childID groups"
  shows "writesOnce heads P k (\<lambda>e e'. e' = e \<and> settledIn e identity childID) (commitChildGroups r lease source groups)"
proof (cases "marshalGroups groups")
  case (Inl e)
  then show ?thesis by (simp add: commitChildGroups_def attempt_def once_error)
next
  case (Inr payload)
  then have payload: "payload = Bytes_of True (textGroups groups)" by (simp add: marshalGroups_def split: if_splits)
  from assms(2) obtain n y where "findChild childID (grp_Children (groupAt groups identity)) = Some (n, y)" "settledChild y" by blast
  then have "findChild childID (grp_Children (groupAt (textGroups groups) identity)) = Some (n, childText y)" "settledChild (childText y)"
    by (simp_all add: groupAt_text groupText_simps findChild_text)
  then have settled: "settledIn e identity childID" if "env_ChildrenPayload e = payload" for e
    using that payload unfolding settledIn_def by blast
  have "writesOnce heads P k (\<lambda>e e'. e' = e \<and> settledIn e identity childID)
      (commitExecution (leased r lease) (env_Revision source) (source\<lparr>env_ChildrenPayload := payload\<rparr>))"
    by (rule once_commit [OF assms(1)]) (auto simp: sealedAs_def intro: settled)
  with Inr show ?thesis by (simp add: commitChildGroups_def attempt_def once_alive)
qed

lemma confirm_settles:
  assumes "lse_ExecutionID lease = tok_ThreadID token"
  shows "writesOnce heads P (tok_ThreadID token) (settlingHead (tok_ThreadID token)
      (childExecutionIdentity (drn_sha r) (env_ExecutionID source) (cnf_Node d) (cnf_Activation d) (cnf_GroupKey d) '''') (cnf_ChildID d))
    (confirmAdmitted r token d lease source)"
proof -
  let ?i = "childExecutionIdentity (drn_sha r) (env_ExecutionID source) (cnf_Node d) (cnf_Activation d) (cnf_GroupKey d) ''''"
  have facts: "returns (\<lambda>x. \<forall>groups. x = Ok groups \<longrightarrow> settlesGroup ?i (cnf_ChildID d) groups) (confirmGroups r d lease source ?i)"
    using prepared_settles(1) by (intro returnsI) blast
  show ?thesis
    unfolding confirmAdmitted_def Let_def
    by (intro once_then [OF still_restore] once_then [OF still_observe [OF host_quiet]] once_returns [OF still_children(2) facts] once_sum once_then
        once_error stills once_observed [OF once_settling_commit [OF assms]]) auto
qed

lemma resolveWait_settles:
  assumes "lse_ExecutionID lease = tok_ThreadID token" and "chr_State (wrs_Result w) \<in> {ChildCompleted, ChildFailed}"
  shows "writesOnce heads P (tok_ThreadID token) (settlingHead (tok_ThreadID token)
      (childExecutionIdentity (drn_sha r) (env_ExecutionID source) (wrs_Node w) (wrs_Activation w) (wrs_GroupKey w) '''') (wrs_ChildID w))
    (resolveWaitAdmitted r token w lease source)"
proof -
  let ?i = "childExecutionIdentity (drn_sha r) (env_ExecutionID source) (wrs_Node w) (wrs_Activation w) (wrs_GroupKey w) ''''"
  have facts: "returns (\<lambda>x. \<forall>groups. x = Ok groups \<longrightarrow> settlesGroup ?i (wrs_ChildID w) groups) (resolveWaitGroups r w lease source ?i)"
    using prepared_settles(2) [OF _ assms(2)] by (intro returnsI) blast
  have commit: "writesOnce heads P (tok_ThreadID token) (\<lambda>e e'. e' = e \<and> settledIn e ?i (wrs_ChildID w))
      (attempt (ret prepared) (commitChildGroups r lease source))" if "\<forall>groups. prepared = Ok groups \<longrightarrow> settlesGroup ?i (wrs_ChildID w) groups" for prepared
    using that once_settling_commit [OF assms(1)] by (cases prepared) (auto simp: attempt_def once_error)
  show ?thesis
    unfolding resolveWaitAdmitted_def Let_def
    by (intro once_then [OF still_restore] once_then [OF still_observe [OF host_quiet]] once_returns [OF still_children(3) facts]
        once_observed [OF commit] stills) auto
qed

lemma resolveOutcome_settles:
  assumes "lse_ExecutionID lease = tok_ThreadID token" and "validChildOutcomeRequest q"
  shows "writesOnce heads (\<lambda>h. h (tok_ThreadID token) = Some source \<and> token = tokenAt (tok_ThreadID token) (env_Revision source)) (tok_ThreadID token)
    (\<lambda>b e. aboutHead (tok_ThreadID token) b e \<and> (b = token \<or> settledIn e
      (childExecutionIdentity (drn_sha r) (env_ExecutionID source) (ors_Node q) (ors_Activation q) (ors_GroupKey q) '''') (ors_ChildID q)))
    (resolveOutcomeAdmitted r token q lease source)"
proof -
  let ?i = "childExecutionIdentity (drn_sha r) (env_ExecutionID source) (ors_Node q) (ors_Activation q) (ors_GroupKey q) ''''"
  have facts: "returns (\<lambda>x. \<forall>groups. x = Ok (Some groups) \<longrightarrow> settlesGroup ?i (ors_ChildID q) groups) (resolveOutcomeGroups r q lease source ?i)"
    using prepared_settles(3) [OF _ assms(2)] by (intro returnsI) blast
  show ?thesis
    unfolding resolveOutcomeAdmitted_def Let_def
    by (intro once_then [OF still_restore] once_then [OF still_observe [OF host_quiet]] once_returns [OF still_children(4) facts] once_sum once_option
        once_error stills once_then [OF still_observe [OF host_quiet]] once_read once_observed [OF once_settling_commit [OF assms(1)]]) auto
qed

text \<open>The operations around them: the source they load is the head of their execution.\<close>

lemma settling_session:
  assumes "\<And>source. env_ExecutionID source = tok_ThreadID token \<Longrightarrow>
      writesOnce heads (\<lambda>h. h (tok_ThreadID token) = Some source \<and> token = tokenAt (tok_ThreadID token) (env_Revision source)) (tok_ThreadID token) Q (body source)"
  shows "writesOnce heads (\<lambda>_. True) (tok_ThreadID token) Q (attempt (childMutationSource r token) body)"
proof (rule once_load [where P' = "\<lambda>source h. h (tok_ThreadID token) = Some source \<and> token = tokenAt (tok_ThreadID token) (env_Revision source)
    \<and> env_ExecutionID source = tok_ThreadID token"])
  show "writesOnce heads (\<lambda>h. h (tok_ThreadID token) = Some source \<and> token = tokenAt (tok_ThreadID token) (env_Revision source)
      \<and> env_ExecutionID source = tok_ThreadID token) (tok_ThreadID token) Q (body source)" for source
    using assms [of source] by (auto simp: writesOnce_def)
qed (use child_source in \<open>auto intro: still_children\<close>)

lemma once_weaken: "writesOnce heads P k Q m \<Longrightarrow> (\<And>b e. Q b e \<Longrightarrow> Q' b e) \<Longrightarrow> writesOnce heads P k Q' m"
  unfolding writesOnce_def failed_def by (auto split: sum.splits; blast)

end

fun addressedChild :: "sha256 \<Rightarrow> ('w, 't) durableRequest \<Rightarrow> (string \<times> string) option" where
  "addressedChild sha (ConfirmChild token d) =
    Some (childExecutionIdentity sha (tok_ThreadID token) (cnf_Node d) (cnf_Activation d) (cnf_GroupKey d) '''', cnf_ChildID d)"
| "addressedChild sha (ResolveWaiting token w) =
    Some (childExecutionIdentity sha (tok_ThreadID token) (wrs_Node w) (wrs_Activation w) (wrs_GroupKey w) '''', wrs_ChildID w)"
| "addressedChild sha (ResolveUnknown token q) =
    Some (childExecutionIdentity sha (tok_ThreadID token) (ors_Node q) (ors_Activation q) (ors_GroupKey q) '''', ors_ChildID q)"
| "addressedChild sha _ = None"

fun requestToken :: "('w, 't) durableRequest \<Rightarrow> ResumeToken" where
  "requestToken (ConfirmChild token d) = token"
| "requestToken (ResolveWaiting token w) = token"
| "requestToken (ResolveUnknown token q) = token"
| "requestToken _ = noToken"

context execution_heads begin

lemma decision_operates:
  assumes "addressedChild (drn_sha r) q = Some (identity, childID)"
  shows "operates heads (requestTarget q) noToken (\<lambda>b e. aboutHead (requestTarget q) b e \<and> (b = requestToken q \<or> settledIn e identity childID)) (perform r q)"
proof (cases q)
  case (ConfirmChild token d)
  have "writesOnce heads P (tok_ThreadID token) (\<lambda>b e. aboutHead (tok_ThreadID token) b e \<and> (b = token \<or> settledIn e identity childID))
      (confirmAdmitted r token d lease source)" if "lse_ExecutionID lease = tok_ThreadID token" "env_ExecutionID source = tok_ThreadID token" for P lease source
    by (rule once_weaken [OF confirm_settles [OF that(1)]]) (use assms ConfirmChild that(2) in auto)
  then show ?thesis
    unfolding ConfirmChild perform.simps requestTarget.simps requestToken.simps ConfirmChildCancellation_def
    by (intro operates_rules operates_session settling_session once_passing)
next
  case (ResolveWaiting token w)
  have "writesOnce heads P (tok_ThreadID token) (\<lambda>b e. aboutHead (tok_ThreadID token) b e \<and> (b = token \<or> settledIn e identity childID))
      (resolveWaitAdmitted r token w lease source)" if "lse_ExecutionID lease = tok_ThreadID token" "env_ExecutionID source = tok_ThreadID token"
      "chr_State (wrs_Result w) \<in> {ChildCompleted, ChildFailed}" for P lease source
    by (rule once_weaken [OF resolveWait_settles [OF that(1,3)]]) (use assms ResolveWaiting that(2) in auto)
  then show ?thesis
    unfolding ResolveWaiting perform.simps requestTarget.simps requestToken.simps ResolveChildWait_def
    by (intro operates_rules operates_session settling_session once_passing) auto
next
  case (ResolveUnknown token u)
  have "writesOnce heads (\<lambda>h. h (tok_ThreadID token) = Some source \<and> token = tokenAt (tok_ThreadID token) (env_Revision source)) (tok_ThreadID token)
      (\<lambda>b e. aboutHead (tok_ThreadID token) b e \<and> (b = token \<or> settledIn e identity childID))
      (resolveOutcomeAdmitted r token u lease source)" if "lse_ExecutionID lease = tok_ThreadID token" "env_ExecutionID source = tok_ThreadID token"
      "validChildOutcomeRequest u" for lease source
    by (rule once_weaken [OF resolveOutcome_settles [OF that(1,3)]]) (use assms ResolveUnknown that(2) in auto)
  then show ?thesis
    unfolding ResolveUnknown perform.simps requestTarget.simps requestToken.simps ResolveChildOutcome_def
    by (intro operates_rules operates_session settling_session) auto
qed (use assms in simp_all)

end

section \<open>No decision on a settled child moves the head\<close>

context execution_heads begin

lemma settled_still:
  assumes "settledIn source identity childID"
  shows "identity = childExecutionIdentity (drn_sha r) (env_ExecutionID source) (cnf_Node d) (cnf_Activation d) (cnf_GroupKey d) '''' \<Longrightarrow>
      cnf_ChildID d = childID \<Longrightarrow> still heads (confirmAdmitted r token d lease source)"
    and "identity = childExecutionIdentity (drn_sha r) (env_ExecutionID source) (wrs_Node w) (wrs_Activation w) (wrs_GroupKey w) '''' \<Longrightarrow>
      wrs_ChildID w = childID \<Longrightarrow> still heads (resolveWaitAdmitted r token w lease source)"
    and "identity = childExecutionIdentity (drn_sha r) (env_ExecutionID source) (ors_Node q) (ors_Activation q) (ors_GroupKey q) '''' \<Longrightarrow>
      ors_ChildID q = childID \<Longrightarrow> still heads (resolveOutcomeAdmitted r token q lease source)"
proof -
  note settled = settled_prepared [OF assms]
  show "still heads (confirmAdmitted r token d lease source)"
    if i: "identity = childExecutionIdentity (drn_sha r) (env_ExecutionID source) (cnf_Node d) (cnf_Activation d) (cnf_GroupKey d) ''''" and "cnf_ChildID d = childID"
    unfolding confirmAdmitted_def Let_def i [symmetric]
    by (intro still_bind [OF still_restore] still_bind [OF still_observe [OF host_quiet]] still_returns [OF still_children(2) settled(1) [OF that(2)]]
        still_sum still_return) (auto intro!: stills)
  show "still heads (resolveWaitAdmitted r token w lease source)"
    if i: "identity = childExecutionIdentity (drn_sha r) (env_ExecutionID source) (wrs_Node w) (wrs_Activation w) (wrs_GroupKey w) ''''" and "wrs_ChildID w = childID"
    unfolding resolveWaitAdmitted_def Let_def i [symmetric]
    by (intro still_bind [OF still_restore] still_bind [OF still_observe [OF host_quiet]] still_returns [OF still_children(3) settled(2) [OF that(2)]])
      (auto simp: attempt_def intro!: stills)
  show "still heads (resolveOutcomeAdmitted r token q lease source)"
    if i: "identity = childExecutionIdentity (drn_sha r) (env_ExecutionID source) (ors_Node q) (ors_Activation q) (ors_GroupKey q) ''''" and "ors_ChildID q = childID"
    unfolding resolveOutcomeAdmitted_def Let_def i [symmetric]
    by (intro still_bind [OF still_restore] still_bind [OF still_observe [OF host_quiet]] still_returns [OF still_children(4) settled(3) [OF that(2)]])
      (auto intro!: stills)
qed

lemma frozen_session:
  assumes head: "heads (ses_world t) (tok_ThreadID token) = Some e" and body: "\<And>lease. env_ExecutionID e = tok_ThreadID token \<Longrightarrow> still heads (body lease e)"
    and run: "run_state (inSession r (tok_ThreadID token) noToken (\<lambda>lease. do {
      result \<leftarrow> attempt (childMutationSource r token) (body lease);
      ret (orNothing noToken result) })) t = (x, t')"
  shows "unmovedHeads heads t t'"
proof -
  obtain a u where acquire: "run_state (acquireSession r (tok_ThreadID token)) t = (a, u)" by fastforce
  have u: "heads (ses_world u) = heads (ses_world t)" by (rule stillD [OF still_acquire acquire])
  show ?thesis
  proof (cases a)
    case (Inl err)
    then show ?thesis using run acquire u by (auto simp: inSession_def unmovedHeads_def)
  next
    case (Inr lease)
    obtain y v where source: "run_state (childMutationSource r token) u = (y, v)" by fastforce
    have v: "heads (ses_world v) = heads (ses_world u)" by (rule stillD [OF still_children(1) source])
    obtain z w where inner: "run_state (attempt (childMutationSource r token) (body lease)) u = (z, w)" by fastforce
    have w: "heads (ses_world w) = heads (ses_world v)"
    proof (cases y)
      case (Inl err)
      then show ?thesis using inner source by (simp add: run_attempt)
    next
      case (Inr source')
      then have "source' = e" "env_ExecutionID e = tok_ThreadID token" using child_source [OF source [unfolded Inr]] head u by auto
      with inner source Inr stillD [OF body] show ?thesis by (simp add: run_attempt)
    qed
    obtain cleanup f where finish: "run_state (finishSession r lease) w = (cleanup, f)" by fastforce
    have "heads (ses_world f) = heads (ses_world w)" by (rule stillD [OF still_finish finish])
    moreover have "t' = f" using run acquire Inr inner finish by (auto simp: inSession_def split_beta)
    ultimately show ?thesis using u v w by (simp add: unmovedHeads_def)
  qed
qed

lemma settled_frozen:
  assumes "addressedChild (drn_sha r) q = Some (identity, childID)" and "heads (ses_world t) (requestTarget q) = Some e" and "settledIn e identity childID"
    and "run_state (perform r q) t = (x, t')"
  shows "unmovedHeads heads t t'"
proof (cases q)
  case (ConfirmChild token d)
  have body: "still heads (passing (reject (env_Activation e \<noteq> cnf_Activation d) (Also ErrChildRevision)) (confirmAdmitted r token d lease e))"
    if "env_ExecutionID e = tok_ThreadID token" for lease
    using settled_still(1) [OF assms(3)] assms(1) ConfirmChild that by (intro still_passing) simp
  show ?thesis
    using assms(2,4) frozen_session [where body = "\<lambda>lease source. passing (reject (env_Activation source \<noteq> cnf_Activation d) (Also ErrChildRevision))
      (confirmAdmitted r token d lease source)", OF _ body] ConfirmChild by (auto simp: ConfirmChildCancellation_def unmovedHeads_def split: if_splits)
next
  case (ResolveWaiting token w)
  have body: "still heads (passing (reject (env_Activation e \<noteq> wrs_Activation w) (Also ErrChildRevision)) (resolveWaitAdmitted r token w lease e))"
    if "env_ExecutionID e = tok_ThreadID token" for lease
    using settled_still(2) [OF assms(3)] assms(1) ResolveWaiting that by (intro still_passing) simp
  show ?thesis
    using assms(2,4) frozen_session [where body = "\<lambda>lease source. passing (reject (env_Activation source \<noteq> wrs_Activation w) (Also ErrChildRevision))
      (resolveWaitAdmitted r token w lease source)", OF _ body] ResolveWaiting by (auto simp: ResolveChildWait_def unmovedHeads_def split: if_splits)
next
  case (ResolveUnknown token u)
  have body: "still heads (resolveOutcomeAdmitted r token u lease e)" if "env_ExecutionID e = tok_ThreadID token" for lease
    using settled_still(3) [OF assms(3)] assms(1) ResolveUnknown that by simp
  show ?thesis
    using assms(2,4) frozen_session [where body = "resolveOutcomeAdmitted r token u", OF _ body] ResolveUnknown by (auto simp: ResolveChildOutcome_def unmovedHeads_def split: if_splits)
qed (use assms in simp_all)

lemma decided_once:
  assumes "addressedChild (drn_sha r) q = Some a" and "addressedChild (drn_sha r) q' = Some a" and "requestTarget q' = requestTarget q"
    and "run_state (perform r q) s = ((token, err), s')" and "token \<noteq> noToken" and "token \<noteq> requestToken q"
    and "heads (ses_world t) (requestTarget q) = heads (ses_world s') (requestTarget q)"
    and "run_state (perform r q') t = ((token', err'), t')"
  shows "unmovedHeads heads t t' \<and> (token' = noToken \<and> err' \<noteq> None \<or> token' = token)"
proof -
  obtain identity childID where a: "a = (identity, childID)" by fastforce
  obtain e where e: "settles heads (requestTarget q) s e s'" "aboutHead (requestTarget q) token e" "settledIn e identity childID"
    using decision_operates [OF assms(1) [unfolded a]] assms(4-6) unfolding operates_def by blast
  have head: "heads (ses_world t) (requestTarget q') = Some e" using settles_head [OF e(1)] assms(3,7) by simp
  have still: "unmovedHeads heads t t'" by (rule settled_frozen [OF assms(2) [unfolded a] head e(3) assms(8)])
  moreover have "token' = noToken \<and> err' \<noteq> None \<or> token' = token"
  proof (rule disjCI)
    assume fails: "token' \<noteq> token"
    from decision_operates [OF assms(2) [unfolded a]] assms(8) have
      "token' = noToken \<and> err' \<noteq> None \<or> (\<exists>e'. settles heads (requestTarget q') t e' t' \<and> aboutHead (requestTarget q') token' e')"
      unfolding operates_def by blast
    moreover have "e' = e" if "settles heads (requestTarget q') t e' t'" for e'
      using settles_head [OF that] still head by (simp add: unmovedHeads_def)
    ultimately show "token' = noToken \<and> err' \<noteq> None" using e(2) assms(3) fails by auto
  qed
  ultimately show ?thesis by blast
qed

end

text \<open>
  C13. A child is decided once. When confirming the cancellation of a child, resolving
  its wait or resolving its unknown outcome has moved the head of the execution, then as
  long as the execution stays at that head no later decision of any of these kinds on
  the same child moves a head: it fails without a token, or it is the replay that
  returns the token of the first decision.
\<close>

theorem child_decided_once:
  assumes "execution_heads r heads" and "addressedChild (drn_sha r) q = Some a" and "addressedChild (drn_sha r) q' = Some a"
    and "requestTarget q' = requestTarget q" and "run_state (perform r q) s = ((token, err), s')" and "token \<noteq> noToken" and "token \<noteq> requestToken q"
    and "heads (ses_world t) (requestTarget q) = heads (ses_world s') (requestTarget q)" and "run_state (perform r q') t = ((token', err'), t')"
  shows "unmovedHeads heads t t' \<and> (token' = noToken \<and> err' \<noteq> None \<or> token' = token)"
  by (rule execution_heads.decided_once [OF assms])

section \<open>A sample decision\<close>

text \<open>The group of the joined session with its child waiting, in a stored execution.\<close>

definition waitingGroup :: ChildGroupRecord where
  "waitingGroup = joinedGroup\<lparr>grp_Children := [(newChildRecord (childExecutionIdentity sampleSha ''e'' (env_Pointer sampleEnvelope) 1 ''k'' ''x'')
     \<lparr>spc_ID = ''x'', spc_Input = '''', spc_Allocation = []\<rparr>)\<lparr>chd_State := ChildWaiting, chd_Revision := 4, chd_Incarnation := 1, chd_WaitID := ''w''\<rparr>],
     grp_MergedIDs := [], grp_MergedResult := ''''\<rparr>"

definition waitingEnvelope :: ExecutionEnvelope where
  "waitingEnvelope = (let e = sampleSealed\<lparr>env_Revision := 5, env_ChildrenPayload := Bytes_of True [(groupIdentity sampleSha waitingGroup, waitingGroup)]\<rparr>
     in (case EnvelopeDigest sampleSha sampleEnc e of Inr digest \<Rightarrow> e\<lparr>env_Digest := digest\<rparr> | Inl _ \<Rightarrow> e))"

definition waitingSession :: "unit memoryWorld session" where
  "waitingSession = (sampleSession ())\<lparr>ses_world := \<lparr>mwd_store = NewMemoryExecutionStore
     \<lparr>mes_history := [(''e'', [(5, waitingEnvelope)])], mes_heads := [(''e'', 5)]\<rparr>, mwd_now = 150, mwd_ctx = None, mwd_host = ()\<rparr>\<rparr>"

definition sampleResolution :: ChildWaitResolution where
  "sampleResolution = \<lparr>wrs_Node = env_Pointer sampleEnvelope, wrs_Activation = 1, wrs_GroupKey = ''k'', wrs_ChildID = ''x'',
     wrs_ExecutionID = childExecutionIdentity sampleSha ''e'' (env_Pointer sampleEnvelope) 1 ''k'' ''x'', wrs_ChildRevision = 4, wrs_WaitID = ''w'',
     wrs_DecisionID = ''d'', wrs_Result = \<lparr>chr_State = ChildCompleted, chr_Payload = ''r'', chr_Error = '''', chr_WaitID = ''''\<rparr>\<rparr>"

lemma sample_resolved:
  "fst (run_state (ResolveChildWait (sampleDurable None) (tokenAt ''e'' 5) sampleResolution) waitingSession) = (tokenAt ''e'' 6, None)"
  by code_simp

theorem child_decided_once_witness:
  "\<exists>s token' err' t'. run_state (ResolveChildWait (sampleDurable None) (tokenAt ''e'' 5) sampleResolution) waitingSession = ((tokenAt ''e'' 6, None), s)
    \<and> run_state (ResolveChildWait (sampleDurable None) (tokenAt ''e'' 6) (sampleResolution\<lparr>wrs_DecisionID := ''again''\<rparr>)) s = ((token', err'), t')
    \<and> unmovedHeads memoryHeads s t' \<and> (token' = noToken \<and> err' \<noteq> None \<or> token' = tokenAt ''e'' 6)"
proof -
  let ?q = "ResolveWaiting (tokenAt ''e'' 5) sampleResolution" and ?q' = "ResolveWaiting (tokenAt ''e'' 6) (sampleResolution\<lparr>wrs_DecisionID := ''again''\<rparr>)"
  obtain s where first: "run_state (perform (sampleDurable None) ?q) waitingSession = ((tokenAt ''e'' 6, None), s)"
    using sample_resolved by (metis perform.simps(5) prod.collapse)
  obtain token' err' t' where second: "run_state (perform (sampleDurable None) ?q') s = ((token', err'), t')" by (metis prod.collapse)
  have child: "addressedChild (drn_sha (sampleDurable None :: (unit memoryWorld, string, string, char) DurableRunner)) ?q
      = Some (childExecutionIdentity sampleSha ''e'' (wrs_Node sampleResolution) (wrs_Activation sampleResolution) (wrs_GroupKey sampleResolution) [], wrs_ChildID sampleResolution)"
    "addressedChild (drn_sha (sampleDurable None :: (unit memoryWorld, string, string, char) DurableRunner)) ?q'
      = Some (childExecutionIdentity sampleSha ''e'' (wrs_Node sampleResolution) (wrs_Activation sampleResolution) (wrs_GroupKey sampleResolution) [], wrs_ChildID sampleResolution)"
    by (simp_all add: sampleDurable_def)
  from child_decided_once [OF sample_laws child _ first _ _ refl second] first second show ?thesis by auto
qed

end
