(* ===== verification/Spec2Isabelle.thy ===== *)
theory Spec2Isabelle
  imports Execution_Log Runner_Recovery Durable_Runner Child_Launch Decision_Contracts
begin

text \<open>
  Flowy runs graphs of typed nodes and can make such a run durable: every step is
  committed to a fenced, versioned store, external effects go through a journal of
  activities, a run can wait for events and deadlines, start structured children, be
  forked, migrated, rolled over and pruned. This library models that runtime and proves
  what makes it correct. File names are those of the repository's root unless they have
  a directory.

  \<^bold>\<open>Parts and how they interact.\<close> A graph is declared and compiled (builder.go) and run by
  the loop of runner\_execution.go: each node returns a state and a directive (flowy.go),
  the loop merges, routes, checkpoints and reports. A handoff leaves the run through an
  outbox (handoff\_outbox.go), a later process resumes from a snapshot
  (runner\_recovery.go) under a lease (lease.go). A durable run (durable\_runner.go) uses
  the same loop with another checkpointer (execution\_checkpointer.go), whose head is one
  \<open>ExecutionEnvelope\<close> of an \<open>ExecutionStore\<close>; the envelope carries the progress, the journal
  of activities (activity.go), the child groups (child\_contract.go), the waits
  (durable\_wait\_contract.go) and the provenance of imports, migrations, forks and
  rollovers. Operations from outside, such as the delivery of an event, load the head,
  change it under a lease and commit its successor.

  \<^bold>\<open>Theories, from the bottom up.\<close>

  \<^item> \<open>Flowy_Prelude\<close>: Go values (byte strings, maps as association lists, 64-bit integers,
    times) with the lemmas all components share; \<open>Flowy_Errors\<close>: error values, wrapping and
    \<open>errors.Is\<close>; \<open>Go_Json\<close>: the encodings that are hashed; \<open>Flow_Monad\<close>: the state monad of
    the runner with its loop and invariant rules; \<open>Store_Contracts\<close>: the locales for
    versioned stores and fenced leases.
  \<^item> \<open>Retry_Schedule\<close> (activity\_schedule.go, activity\_retry.go), \<open>Activity_Record\<close>
    (activity\_*.go), \<open>Durable_Wait\<close> (durable\_wait\_*.go), \<open>Child_Group\<close> (child\_*.go): the
    records of the three collections, their validators and every transition of one record.
    The lemmas show that validity is an invariant of every record reached from a planned
    one, that an ambiguous dispatch is never repeated, that the first committed decision of
    a wait wins, and that child budgets are never overspent.
  \<^item> \<open>Execution_Envelope\<close>, \<open>Execution_Lifecycle\<close> (execution\_*.go): the aggregate, its
    sealing and integrity check, the checks of its collections, which envelopes JSON keeps
    (\<open>jsonStable\<close>), migration chains, fork and
    rollover transitions, publication of a rollover, retention requests.
  \<^item> \<open>Execution_Store\<close>, \<open>Execution_Log\<close> (testutil/execution\_store.go, execution\_rollover.go,
    execution\_retention.go): the reference store as an interleaving of atomic operations of
    any number of workers; it reads what was written, fences stale incarnations, commits by
    compare and swap, keeps history immutable, and refines an append-only log. The one
    envelope that can read as corrupt is the first one of a rollover target whose texts
    are not UTF-8, because a rollover does not read its target back.
  \<^item> \<open>Flow_Directive\<close> (flowy.go), \<open>Graph_Builder\<close> (builder.go, options.go, middleware.go),
    \<open>Runner_Platform\<close> (runner\_events.go, runner\_checkpoint.go, runner\_publication.go),
    \<open>Handoff_Outbox\<close> (handoff\_outbox.go), \<open>Memory_Checkpointer\<close>
    (testutil/memory\_checkpointer.go), \<open>Runner_Execution\<close> (runner\_execution.go),
    \<open>Lease_Manager\<close> (lease.go, checkpointer\_lease\_guard.go), \<open>Runner_Recovery\<close>
    (runner\_recovery.go, run\_options.go, runner.go): compilation accepts exactly the
    well-formed graphs, the loop returns on all of them and reports what happened, a
    resume token names a stored snapshot and is admitted only for it. Handlers and routers
    may charge budgets; a router does so after the check of its step.
  \<^item> \<open>Execution_Checkpointer\<close> (execution\_checkpointer.go, execution\_failure.go and the
    observation files), \<open>Activity_Session\<close> (activity.go, activity\_observation.go): the
    durable checkpointer over an arbitrary store and \<open>CallActivity\<close>. The cursor passes only
    settled work, a saved snapshot loads again, a call dispatches at most once, only behind
    a committed intent, and never again once it completed.
  \<^item> \<open>Child_Session\<close> (child\_persistence.go, child\_launch.go, child\_cancel.go,
    child\_budget\_return.go, child\_join.go, child\_typed.go, child\_observation.go): the
    operations of a session on its children; \<open>Child_Evolution\<close> and \<open>Child_Operations\<close>: under
    all of them groups only advance and a join is final; \<open>Child_Launch\<close>
    (\<open>launchChildGroup\<close> and \<open>dispatchChild\<close> of child\_launch.go): the fan-out of a launch with
    its goroutines and its channel as a step relation, which is safe and finishes in every
    interleaving.
  \<^item> \<open>Durable_Session\<close> (durable\_runner.go, execution\_session.go, durable\_wait\_delivery.go,
    durable\_wait\_cancellation.go, activity\_resolution.go, execution\_fork.go,
    execution\_rollover.go, execution\_import.go and the inspections), \<open>Child_Decisions\<close>
    (child\_cancel\_confirmation.go, child\_wait.go, child\_outcome\_resolution.go): the
    operations on stored executions.
  \<^item> \<open>Session_Contracts\<close>, \<open>Decision_Contracts\<close>, \<open>Durable_Runner\<close> (durable \<open>Start\<close> and
    \<open>Resume\<close>): the contract of an execution store as the locale \<open>execution_heads\<close>, in which a
    commit that reports an error may have been published with its acknowledgement lost;
    the in-memory store and the same store behind a connection that loses every
    acknowledgement are its interpretations. An operation writes at most one envelope and
    says which when it returns a token, a delivery and a child are decided once, a start
    never resets an execution, a finished execution is replayed.

  \<^bold>\<open>How code becomes definitions.\<close> A struct is a record whose fields have a prefix, a Go
  string enumeration a datatype with an \<open>Other\<close> constructor, a map an association list, an
  \<open>uint64\<close> a 64-bit word; \<open>int\<close> and \<open>time.Duration\<close> are integers, with the wrap-around written
  out where a computation can reach it. A method with a mutex is one atomic step. A
  function that fails returns an error as a value; a panic is \<open>None\<close>. Calls of the host are
  computations over an abstract world; the clock, the error and cause of a context, the
  observer and the random sampler are among them, so nothing is assumed of their values.
  Durable code runs over a \<open>session\<close>, the mutable fields of the checkpointer and of the
  session object together with the world; callbacks that the code runs outside its mutex
  may change the whole session.

  \<^bold>\<open>Parameters.\<close> \<open>sha\<close> is SHA-256 in hexadecimal, with the hypothesis that a digest has 64
  lowercase hexadecimal digits; no injectivity is assumed, theorems about tampering name
  the collision instead. \<open>enc\<close> is \<open>json.Marshal\<close> of an envelope. Stored bytes are the values
  they encode: the collections of an envelope are payloads that are absent, null,
  undecodable or a decoded value, and whether their times and texts survive JSON is part of
  the encoding functions. \<open>json.Marshal\<close> replaces bytes of a string that are not UTF-8, so
  an envelope with such a text is decoded to another one, which the integrity check
  refuses: \<open>decodeExecution\<close> reports it as corrupt (the case that the two encodings have
  one digest is left out of account). Codecs of the host are functions; a round trip of a codec is a
  hypothesis where it is needed.

  \<^bold>\<open>Termination.\<close> The run loop recurses on the step limit of the compiled graph minus the
  steps taken, which the limit check of the code decreases; the back-off loop on the
  attempt number; the migration planner on the migrations not yet used; the retry of a
  directive on the limit as well. There is no fuel in the model, every function is total.

  \<^bold>\<open>Simplifications.\<close> Nil and empty slices and maps are one value; this shows only where
  encodings of child groups and plans are compared (\<open>sameGroup\<close>, \<open>samePlan\<close>): the code
  refuses a caller whose group differs from the stored one in nothing else. Callbacks of
  the host other than handlers and routers are taken not to account budgets.

  \<^bold>\<open>Not modelled.\<close> Streams (runner\_stream.go, stream\_helpers.go, the stream methods of the
  runners): channels and goroutines; the sink of a run is a callback or nil. The
  heartbeat goroutines of leases and the registry of local handoffs (handoff.go): a lost
  lease or a requested handoff reaches the model through the context and the
  store. Subgraph composition (compose.go, compose\_capture.go), typed
  bindings (bindings.go), diagram export (mermaid.go), the
  record format of checkpoint/ and the adapters for PostgreSQL and Redis, whose behaviour
  is that of SQL and Lua scripts, the OpenTelemetry extension, patterns/, scripts/ and the
  examples.
\<close>

end
